(* ===== verification/Termd_Prelude.thy ===== *)
theory Termd_Prelude
  imports Main "HOL-Library.AList" "HOL-Library.Monad_Syntax"
begin

text \<open>
  Shared vocabulary of the development.

  \<^item> Names for Rust's integer types. Unsigned integers are natural numbers; every
    operation that saturates, wraps or is bounded in the source has its bound written out
    at the point of use (\<open>sat_add64\<close>, \<open>sat_mul16\<close>, ...).
  \<^item> The interface of \<open>std::collections::HashMap\<close> as the locale \<open>hash_map\<close>, with
    the lemmas its clients need, interpreted on association lists with distinct keys (the
    model's maps stay executable, so their values can be counted and drained).
  \<^item> Generic facts on lists (bounded queues, positional insert and remove), on options and
    on the option monad, which the components use through \<open>simp\<close>.
\<close>

section \<open>Integers\<close>

type_synonym u8 = nat
type_synonym u16 = nat
type_synonym u64 = nat
type_synonym usize = nat
type_synonym uchar = nat

definition u16_max :: nat where
  "u16_max = 65535"

definition u64_max :: nat where
  "u64_max = 18446744073709551615"

text \<open>Rust's \<open>saturating_add\<close>, \<open>saturating_mul\<close> and wrapping \<open>+\<close> at width 64 and 16.\<close>

definition sat_add64 :: "nat \<Rightarrow> nat \<Rightarrow> nat" where
  "sat_add64 a b = min u64_max (a + b)"

definition sat_mul64 :: "nat \<Rightarrow> nat \<Rightarrow> nat" where
  "sat_mul64 a b = min u64_max (a * b)"

definition wrap_add64 :: "nat \<Rightarrow> nat \<Rightarrow> nat" where
  "wrap_add64 a b = (a + b) mod (u64_max + 1)"

definition sat_add16 :: "nat \<Rightarrow> nat \<Rightarrow> nat" where
  "sat_add16 a b = min u16_max (a + b)"

definition sat_mul16 :: "nat \<Rightarrow> nat \<Rightarrow> nat" where
  "sat_mul16 a b = min u16_max (a * b)"

lemma sat_add64_le [simp]: "sat_add64 a b \<le> u64_max"
  by (simp add: sat_add64_def)

lemma sat_add64_exact: "a + b \<le> u64_max \<Longrightarrow> sat_add64 a b = a + b"
  by (simp add: sat_add64_def)

lemma wrap_add64_exact: "a + b \<le> u64_max \<Longrightarrow> wrap_add64 a b = a + b"
  by (simp add: wrap_add64_def)

lemma sat_add16_exact: "a + b \<le> u16_max \<Longrightarrow> sat_add16 a b = a + b"
  by (simp add: sat_add16_def)

lemma sat_mul16_exact: "a * b \<le> u16_max \<Longrightarrow> sat_mul16 a b = a * b"
  by (simp add: sat_mul16_def)


section \<open>Hash maps\<close>

type_synonym ('k, 'v) hmap = "('k \<times> 'v) list"

abbreviation hm_get :: "('k, 'v) hmap \<Rightarrow> 'k \<Rightarrow> 'v option" where
  "hm_get m k \<equiv> map_of m k"

abbreviation hm_insert :: "'k \<Rightarrow> 'v \<Rightarrow> ('k, 'v) hmap \<Rightarrow> ('k, 'v) hmap" where
  "hm_insert \<equiv> AList.update"

abbreviation hm_remove :: "'k \<Rightarrow> ('k, 'v) hmap \<Rightarrow> ('k, 'v) hmap" where
  "hm_remove \<equiv> AList.delete"

abbreviation hm_wf :: "('k, 'v) hmap \<Rightarrow> bool" where
  "hm_wf m \<equiv> distinct (map fst m)"

text \<open>The number of entries whose value satisfies a predicate (\<open>values().filter().count()\<close>).\<close>

definition hm_count :: "('v \<Rightarrow> bool) \<Rightarrow> ('k, 'v) hmap \<Rightarrow> nat" where
  "hm_count P m = length (filter (\<lambda>e. P (snd e)) m)"

text \<open>The sum of a measure over all values.\<close>

definition hm_sum :: "('v \<Rightarrow> nat) \<Rightarrow> ('k, 'v) hmap \<Rightarrow> nat" where
  "hm_sum f m = sum_list (map (\<lambda>e. f (snd e)) m)"

locale hash_map =
  fixes empty :: "'m"
    and get :: "'m \<Rightarrow> 'k \<Rightarrow> 'v option"
    and insert :: "'k \<Rightarrow> 'v \<Rightarrow> 'm \<Rightarrow> 'm"
    and remove :: "'k \<Rightarrow> 'm \<Rightarrow> 'm"
    and invar :: "'m \<Rightarrow> bool"
  assumes get_empty: "get empty k = None"
    and get_insert: "invar m \<Longrightarrow> get (insert k v m) j = (if j = k then Some v else get m j)"
    and get_remove: "invar m \<Longrightarrow> get (remove k m) j = (if j = k then None else get m j)"
    and invar_empty: "invar empty"
    and invar_insert: "invar m \<Longrightarrow> invar (insert k v m)"
    and invar_remove: "invar m \<Longrightarrow> invar (remove k m)"
begin

text \<open>A property of every stored value, as the clients' invariants need it.\<close>

definition all_values :: "('k \<Rightarrow> 'v \<Rightarrow> bool) \<Rightarrow> 'm \<Rightarrow> bool" where
  "all_values P m \<longleftrightarrow> (\<forall>k v. get m k = Some v \<longrightarrow> P k v)"

lemma all_values_empty: "all_values P empty"
  by (simp add: all_values_def get_empty)

lemma all_values_insert: "invar m \<Longrightarrow> all_values P m \<Longrightarrow> P k v \<Longrightarrow> all_values P (insert k v m)"
  by (auto simp: all_values_def get_insert split: if_splits)

lemma all_values_remove: "invar m \<Longrightarrow> all_values P m \<Longrightarrow> all_values P (remove k m)"
  by (auto simp: all_values_def get_remove split: if_splits)

lemma all_valuesD: "all_values P m \<Longrightarrow> get m k = Some v \<Longrightarrow> P k v"
  by (auto simp: all_values_def)

lemma remove_forgets: "invar m \<Longrightarrow> get (remove k (insert k v m)) j = get (remove k m) j"
  by (simp add: get_insert get_remove invar_insert)

end

text \<open>The association lists of the model satisfy the interface.\<close>

interpretation hm: hash_map "[]" map_of AList.update AList.delete "\<lambda>m. distinct (map fst m)"
  by unfold_locales (auto simp: update_conv' delete_conv' distinct_update distinct_delete)

lemmas hm_laws = update_conv' delete_conv' distinct_update distinct_delete

lemma hm_get_insert [simp]: "hm_get (hm_insert k v m) j = (if j = k then Some v else hm_get m j)"
  by (simp add: update_conv')

lemma hm_get_remove [simp]: "hm_get (hm_remove k m) j = (if j = k then None else hm_get m j)"
  by (simp add: delete_conv')

lemma hm_wf_insert [simp]: "hm_wf m \<Longrightarrow> hm_wf (hm_insert k v m)"
  by (rule distinct_update)

lemma hm_wf_remove [simp]: "hm_wf m \<Longrightarrow> hm_wf (hm_remove k m)"
  by (rule distinct_delete)

lemma hm_entry_get: "hm_wf m \<Longrightarrow> (k, v) \<in> set m \<longleftrightarrow> hm_get m k = Some v"
  by (auto dest: map_of_SomeD)

lemma hm_remove_absent: "hm_get m k = None \<Longrightarrow> hm_remove k m = m"
  by (simp add: map_of_eq_None_iff)

lemma hm_insert_absent: "hm_get m k = None \<Longrightarrow> hm_insert k v m = m @ [(k, v)]"
  by (induction m) (auto split: if_splits)

lemma hm_insert_same: "hm_get m k = Some v \<Longrightarrow> hm_insert k v m = m"
  by (induction m) auto

lemma hm_remove_insert_absent: "hm_get m k = None \<Longrightarrow> hm_remove k (hm_insert k v m) = m"
  by (induction m) (auto simp: hm_remove_absent)

lemma hm_insert_present:
  "hm_wf m \<Longrightarrow> hm_get m k = Some u \<Longrightarrow>
    hm_insert k v m = map (\<lambda>e. if fst e = k then (k, v) else e) m"
proof (induction m)
  case Nil
  then show ?case by simp
next
  case (Cons e m)
  obtain j w where e: "e = (j, w)" by force
  show ?case
  proof (cases "j = k")
    case True
    with Cons.prems(1) e have "\<forall>x \<in> set m. fst x \<noteq> k" by force
    then have "map (\<lambda>x. if fst x = k then (k, v) else x) m = m"
      by (simp add: map_idI)
    with True e show ?thesis by simp
  next
    case False
    with Cons e show ?thesis by simp
  qed
qed

text \<open>\<open>HashMap::retain\<close>.\<close>

definition hm_retain :: "('k \<Rightarrow> 'v \<Rightarrow> bool) \<Rightarrow> ('k, 'v) hmap \<Rightarrow> ('k, 'v) hmap" where
  "hm_retain P m = filter (\<lambda>e. P (fst e) (snd e)) m"

lemma hm_wf_retain [simp]: "hm_wf m \<Longrightarrow> hm_wf (hm_retain P m)"
  by (simp add: hm_retain_def distinct_map_filter)

lemma hm_get_retain [simp]:
  "hm_wf m \<Longrightarrow> hm_get (hm_retain P m) k =
    (case hm_get m k of None \<Rightarrow> None | Some v \<Rightarrow> if P k v then Some v else None)"
proof (induction m)
  case Nil
  then show ?case by (simp add: hm_retain_def)
next
  case (Cons e m)
  obtain j w where e: "e = (j, w)" by force
  from Cons.prems e have "j = k \<Longrightarrow> hm_get m k = None" by (auto simp: map_of_eq_None_iff)
  with Cons e show ?case by (auto simp: hm_retain_def split: option.splits)
qed

lemma hm_retain_retain: "hm_retain P (hm_retain Q m) = hm_retain (\<lambda>k v. Q k v \<and> P k v) m"
  by (simp add: hm_retain_def conj_commute)

lemma hm_count_retain_le: "hm_count P (hm_retain Q m) \<le> hm_count P m"
  by (induction m) (auto simp: hm_count_def hm_retain_def)

lemma hm_sum_Nil [simp]: "hm_sum f [] = 0"
  by (simp add: hm_sum_def)

lemma hm_sum_Cons [simp]: "hm_sum f (e # m) = f (snd e) + hm_sum f m"
  by (simp add: hm_sum_def)

lemma hm_count_as_sum: "hm_count P m = hm_sum (\<lambda>v. if P v then 1 else 0) m"
  by (induction m) (auto simp: hm_count_def)

lemma hm_sum_insert_absent: "hm_get m k = None \<Longrightarrow> hm_sum f (hm_insert k v m) = hm_sum f m + f v"
  by (simp add: hm_insert_absent hm_sum_def)

lemma hm_sum_remove:
  "hm_wf m \<Longrightarrow> hm_get m k = Some v \<Longrightarrow> hm_sum f (hm_remove k m) + f v = hm_sum f m"
proof (induction m)
  case Nil
  then show ?case by simp
next
  case (Cons e m)
  obtain j w where e: "e = (j, w)" by force
  show ?case
  proof (cases "j = k")
    case True
    with Cons.prems e have "hm_get m k = None" "w = v"
      by (auto simp: map_of_eq_None_iff)
    with True e show ?thesis by (simp add: hm_remove_absent)
  next
    case False
    with Cons e show ?thesis by (simp add: add.assoc)
  qed
qed

lemma hm_sum_insert_present:
  assumes "hm_wf m" "hm_get m k = Some u"
  shows "hm_sum f (hm_insert k v m) + f u = hm_sum f m + f v"
  using assms
proof (induction m)
  case Nil
  then show ?case by simp
next
  case (Cons e m)
  obtain j w where e: "e = (j, w)" by force
  show ?case
  proof (cases "j = k")
    case True
    with Cons.prems e show ?thesis by simp
  next
    case False
    with Cons e show ?thesis by simp
  qed
qed

lemma hm_sum_ge: "hm_get m k = Some v \<Longrightarrow> f v \<le> hm_sum f m"
  by (induction m) (auto split: if_splits)


section \<open>Lists as queues and rows\<close>

text \<open>\<open>while q.len() > max { q.pop_front(); }\<close>, the loop every bounded queue of the program uses.\<close>

function trim_front :: "nat \<Rightarrow> 'a list \<Rightarrow> 'a list" where
  "trim_front mx xs = (if length xs > mx then trim_front mx (tl xs) else xs)"
  by pat_completeness auto
termination
  by (relation "measure (\<lambda>(mx, xs). length xs)") auto

declare trim_front.simps [simp del]

lemma trim_front_drop: "trim_front mx xs = drop (length xs - mx) xs"
proof (induction mx xs rule: trim_front.induct)
  case (1 mx xs)
  show ?case
  proof (cases "length xs > mx")
    case True
    then obtain k where k: "length xs - mx = Suc k" by (metis Suc_diff_Suc)
    from True have "trim_front mx xs = drop (length (tl xs) - mx) (tl xs)"
      using "1.IH" by (simp add: trim_front.simps [of mx xs])
    also have "length (tl xs) - mx = k" using k by simp
    also have "drop k (tl xs) = drop (length xs - mx) xs"
      by (simp add: k drop_Suc)
    finally show ?thesis .
  next
    case False
    then show ?thesis by (simp add: trim_front.simps [of mx xs])
  qed
qed

lemma length_trim_front [simp]: "length (trim_front mx xs) = min mx (length xs)"
  by (simp add: trim_front_drop)

lemma set_trim_front: "x \<in> set (trim_front mx xs) \<Longrightarrow> x \<in> set xs"
  by (auto simp: trim_front_drop dest: in_set_dropD)

lemma trim_front_id: "length xs \<le> mx \<Longrightarrow> trim_front mx xs = xs"
  by (simp add: trim_front_drop)

text \<open>\<open>VecDeque::insert\<close> (the callers clamp the index) and \<open>VecDeque::remove\<close>.\<close>

definition insert_at :: "nat \<Rightarrow> 'a \<Rightarrow> 'a list \<Rightarrow> 'a list" where
  "insert_at i x xs = take i xs @ x # drop i xs"

definition remove_at :: "nat \<Rightarrow> 'a list \<Rightarrow> 'a list" where
  "remove_at i xs = take i xs @ drop (Suc i) xs"

lemma length_insert_at [simp]: "length (insert_at i x xs) = Suc (length xs)"
  by (simp add: insert_at_def min_def)

lemma length_remove_at [simp]: "i < length xs \<Longrightarrow> length (remove_at i xs) = length xs - 1"
  by (simp add: remove_at_def)

lemma set_insert_at [simp]: "set (insert_at i x xs) = insert x (set xs)"
  by (simp add: insert_at_def) (metis append_take_drop_id set_append)

lemma set_remove_at: "y \<in> set (remove_at i xs) \<Longrightarrow> y \<in> set xs"
  by (auto simp: remove_at_def dest: in_set_takeD in_set_dropD)

text \<open>\<open>iter().position(p)\<close> and \<open>iter().rposition(p)\<close>.\<close>

fun position :: "('a \<Rightarrow> bool) \<Rightarrow> 'a list \<Rightarrow> nat option" where
  "position p [] = None"
| "position p (x # xs) = (if p x then Some 0 else map_option Suc (position p xs))"

definition rposition :: "('a \<Rightarrow> bool) \<Rightarrow> 'a list \<Rightarrow> nat option" where
  "rposition p xs = map_option (\<lambda>i. length xs - 1 - i) (position p (rev xs))"

lemma position_None: "position p xs = None \<longleftrightarrow> (\<forall>x \<in> set xs. \<not> p x)"
  by (induction xs) auto

lemma position_Some: "position p xs = Some i \<Longrightarrow> i < length xs \<and> p (xs ! i) \<and> (\<forall>j < i. \<not> p (xs ! j))"
  by (induction xs arbitrary: i) (auto simp: less_Suc_eq_0_disj nth_Cons split: if_splits nat.splits)

lemma rposition_None: "rposition p xs = None \<longleftrightarrow> (\<forall>x \<in> set xs. \<not> p x)"
  by (simp add: rposition_def position_None)

lemma rposition_Some:
  assumes "rposition p xs = Some i"
  shows "i < length xs \<and> p (xs ! i) \<and> (\<forall>j. i < j \<longrightarrow> j < length xs \<longrightarrow> \<not> p (xs ! j))"
proof -
  from assms obtain k where k: "position p (rev xs) = Some k" "i = length xs - 1 - k"
    by (auto simp: rposition_def)
  from position_Some [OF k(1)] have kl: "k < length xs" and pk: "p (rev xs ! k)"
    and before: "\<And>j. j < k \<Longrightarrow> \<not> p (rev xs ! j)" by auto
  from kl pk k(2) have "i < length xs" "p (xs ! i)" by (auto simp: rev_nth)
  moreover have "\<not> p (xs ! j)" if "i < j" "j < length xs" for j
  proof -
    from that k(2) kl have "length xs - 1 - j < k" by linarith
    from before [OF this] that show ?thesis by (simp add: rev_nth)
  qed
  ultimately show ?thesis by blast
qed

section \<open>Loops\<close>

text \<open>A counted loop \<open>for _ in 0..n\<close>, and a loop over a range whose body may panic.\<close>

primrec iter_n :: "nat \<Rightarrow> ('a \<Rightarrow> 'a) \<Rightarrow> 'a \<Rightarrow> 'a" where
  "iter_n 0 f x = x"
| "iter_n (Suc n) f x = iter_n n f (f x)"

lemma iter_n_inv: "P x \<Longrightarrow> (\<And>y. P y \<Longrightarrow> P (f y)) \<Longrightarrow> P (iter_n n f x)"
  by (induction n arbitrary: x) auto

lemma iter_n_fixes: "(\<And>y. g (f y) = g y) \<Longrightarrow> g (iter_n n f x) = g x"
  by (induction n arbitrary: x) auto

primrec for_each :: "('a \<Rightarrow> 's \<Rightarrow> 's option) \<Rightarrow> 'a list \<Rightarrow> 's \<Rightarrow> 's option" where
  "for_each f [] s = Some s"
| "for_each f (x # xs) s = (case f x s of None \<Rightarrow> None | Some s' \<Rightarrow> for_each f xs s')"

lemma for_each_append: "for_each f (xs @ ys) s = Option.bind (for_each f xs s) (for_each f ys)"
  by (induction xs arbitrary: s) (auto split: option.splits)

lemma for_each_inv:
  assumes "P s" "\<And>x t. x \<in> set xs \<Longrightarrow> P t \<Longrightarrow> \<exists>u. f x t = Some u \<and> P u"
  shows "\<exists>u. for_each f xs s = Some u \<and> P u"
  using assms
proof (induction xs arbitrary: s)
  case Nil
  then show ?case by simp
next
  case (Cons x xs)
  from Cons.prems obtain t where "f x s = Some t" "P t" by (metis list.set_intros(1))
  with Cons show ?case by simp
qed

section \<open>ASCII and decimal text\<close>

definition ascii :: "string \<Rightarrow> u8 list" where
  "ascii t = map of_char t"

text \<open>\<open>n.to_string()\<close> of an unsigned integer, as bytes.\<close>

fun dec :: "nat \<Rightarrow> u8 list" where
  "dec n = (if n < 10 then [48 + n] else dec (n div 10) @ [48 + n mod 10])"

declare dec.simps [simp del]

lemma dec_nonempty [simp]: "dec n \<noteq> []"
  by (subst dec.simps) simp

lemma dec_digits: "b \<in> set (dec n) \<Longrightarrow> 48 \<le> b \<and> b \<le> 57"
proof (induction n rule: dec.induct)
  case (1 n)
  then show ?case
    by (cases "n < 10") (auto simp: dec.simps [of n])
qed

lemma dec_inj: "dec m = dec n \<Longrightarrow> m = n"
proof (induction m arbitrary: n rule: dec.induct)
  case (1 m)
  show ?case
  proof (cases "m < 10")
    case True
    then have d: "dec n = [48 + m]" using "1.prems" by (simp add: dec.simps [of m])
    then show ?thesis by (cases "n < 10") (simp_all add: dec.simps [of n])
  next
    case False
    then have d: "dec n = dec (m div 10) @ [48 + m mod 10]" using "1.prems" by (simp add: dec.simps [of m])
    have n: "\<not> n < 10" using d dec_nonempty [of "m div 10", symmetric] by (auto simp: dec.simps [of n])
    with d have "dec (m div 10) = dec (n div 10)" "m mod 10 = n mod 10" by (simp_all add: dec.simps [of n])
    with "1.IH" [OF False] have "m div 10 = n div 10" "m mod 10 = n mod 10" by auto
    then show ?thesis by (metis div_mult_mod_eq)
  qed
qed

text \<open>\<open>codes.join(";")\<close>.\<close>

fun join_with :: "'a \<Rightarrow> 'a list list \<Rightarrow> 'a list" where
  "join_with sep [] = []"
| "join_with sep [x] = x"
| "join_with sep (x # y # ys) = x @ sep # join_with sep (y # ys)"

section \<open>Comparing bytes in constant time\<close>

unbundle bit_operations_syntax

definition byte_at :: "u8 list \<Rightarrow> nat \<Rightarrow> u8" where
  "byte_at bs i = (if i < length bs then bs ! i else 0)"

lemma xor_zero_iff: "(a :: nat) XOR b = 0 \<longleftrightarrow> a = b"
  by (auto simp: bit_eq_iff bit_xor_iff)

lemma fold_or_zero: "fold (\<lambda>i d. d OR f i) xs d = (0 :: nat) \<longleftrightarrow> d = 0 \<and> (\<forall>i \<in> set xs. f i = 0)"
  by (induction xs arbitrary: d) (auto simp: or_eq_0_iff)

text \<open>The scan over the longer of two texts, with the lengths compared as well, decides equality.\<close>

lemma byte_scan_iff:
  "fold (\<lambda>i d. d OR (byte_at l i XOR byte_at r i)) [0..<max (length l) (length r)] (length l XOR length r) = 0 \<longleftrightarrow> l = r"
proof -
  have "fold (\<lambda>i d. d OR (byte_at l i XOR byte_at r i)) [0..<max (length l) (length r)] (length l XOR length r) = 0 \<longleftrightarrow>
      length l = length r \<and> (\<forall>i < max (length l) (length r). byte_at l i = byte_at r i)"
    by (auto simp: fold_or_zero xor_zero_iff)
  also have "\<dots> \<longleftrightarrow> l = r" by (auto simp: list_eq_iff_nth_eq byte_at_def)
  finally show ?thesis .
qed

end
