(* ===== verification/Session.thy ===== *)
theory Session
  imports Termd_Prelude
begin

text \<open>
  The daemon's in-memory session core, \<open>termd/src/session/mod.rs\<close>: the session life cycle
  \<open>Created \<rightarrow> Running \<rightarrow> Closed\<close>, the devices attached to each session and its terminal size.
  An operation of \<open>SessionManager\<close> that takes \<open>&mut self\<close> and returns a
  \<open>Result\<close> becomes a function that returns the result and the manager after the call, so
  what an error leaves behind is visible.
\<close>

section \<open>Data\<close>

datatype session_state = Created | Running | Closed

datatype attach_role = Operator

record terminal_size =
  ts_rows :: u16
  ts_cols :: u16
  ts_pixel_width :: u16
  ts_pixel_height :: u16

definition terminal_size_cells :: "u16 \<Rightarrow> u16 \<Rightarrow> terminal_size" where
  "terminal_size_cells r c = \<lparr>ts_rows = r, ts_cols = c, ts_pixel_width = 0, ts_pixel_height = 0\<rparr>"

definition terminal_size_is_valid :: "terminal_size \<Rightarrow> bool" where
  "terminal_size_is_valid s \<longleftrightarrow> ts_rows s > 0 \<and> ts_cols s > 0"

definition terminal_size_default :: terminal_size where
  "terminal_size_default = terminal_size_cells 24 80"

datatype session_error =
    SessionAlreadyExists
  | SessionNotFound
  | SessionClosed
  | DeviceNotAttached
  | InvalidSize

record session_record =
  sr_state :: session_state
  sr_attached_devices :: "(string, attach_role) hmap"
  sr_size :: terminal_size

type_synonym session_manager = "(string, session_record) hmap"

definition session_record_new :: session_record where
  "session_record_new =
     \<lparr>sr_state = Created, sr_attached_devices = [], sr_size = terminal_size_default\<rparr>"

section \<open>Operations\<close>

definition ensure_open :: "session_record \<Rightarrow> session_error + unit" where
  "ensure_open r = (if sr_state r = Closed then Inl SessionClosed else Inr ())"

definition session_lookup :: "session_manager \<Rightarrow> string \<Rightarrow> session_error + session_record" where
  "session_lookup m sid = (case hm_get m sid of None \<Rightarrow> Inl SessionNotFound | Some r \<Rightarrow> Inr r)"

definition create_session :: "string \<Rightarrow> session_manager \<Rightarrow> (session_error + unit) \<times> session_manager" where
  "create_session sid m =
     (if hm_get m sid \<noteq> None then (Inl SessionAlreadyExists, m)
      else (Inr (), hm_insert sid session_record_new m))"

definition session_attach ::
  "string \<Rightarrow> string \<Rightarrow> session_manager \<Rightarrow> (session_error + attach_role) \<times> session_manager" where
  "session_attach sid dev m =
     (case session_lookup m sid of
        Inl e \<Rightarrow> (Inl e, m)
      | Inr r \<Rightarrow>
         (case ensure_open r of
            Inl e \<Rightarrow> (Inl e, m)
          | Inr _ \<Rightarrow>
             (let r1 = (if sr_state r = Created then r\<lparr>sr_state := Running\<rparr> else r) in
              case hm_get (sr_attached_devices r1) dev of
                Some role \<Rightarrow> (Inr role, hm_insert sid r1 m)
              | None \<Rightarrow>
                  (Inr Operator,
                   hm_insert sid
                     (r1\<lparr>sr_attached_devices := hm_insert dev Operator (sr_attached_devices r1)\<rparr>) m))))"

definition steal_control ::
  "string \<Rightarrow> string \<Rightarrow> session_manager \<Rightarrow> (session_error + unit) \<times> session_manager" where
  "steal_control sid dev m =
     (case session_lookup m sid of
        Inl e \<Rightarrow> (Inl e, m)
      | Inr r \<Rightarrow>
         (case ensure_open r of
            Inl e \<Rightarrow> (Inl e, m)
          | Inr _ \<Rightarrow>
             (if hm_get (sr_attached_devices r) dev = None then (Inl DeviceNotAttached, m)
              else (Inr (), m))))"

definition session_detach ::
  "string \<Rightarrow> string \<Rightarrow> session_manager \<Rightarrow> (session_error + unit) \<times> session_manager" where
  "session_detach sid dev m =
     (case session_lookup m sid of
        Inl e \<Rightarrow> (Inl e, m)
      | Inr r \<Rightarrow>
         (case ensure_open r of
            Inl e \<Rightarrow> (Inl e, m)
          | Inr _ \<Rightarrow>
             (if hm_get (sr_attached_devices r) dev \<noteq> None
              then (Inr (), hm_insert sid
                     (r\<lparr>sr_attached_devices := hm_remove dev (sr_attached_devices r)\<rparr>) m)
              else (Inl DeviceNotAttached, m))))"

definition session_close :: "string \<Rightarrow> session_manager \<Rightarrow> (session_error + unit) \<times> session_manager" where
  "session_close sid m =
     (case session_lookup m sid of
        Inl e \<Rightarrow> (Inl e, m)
      | Inr r \<Rightarrow> (Inr (), hm_insert sid (r\<lparr>sr_state := Closed, sr_attached_devices := []\<rparr>) m))"

definition session_resize ::
  "string \<Rightarrow> terminal_size \<Rightarrow> session_manager \<Rightarrow> (session_error + unit) \<times> session_manager" where
  "session_resize sid sz m =
     (if \<not> terminal_size_is_valid sz then (Inl InvalidSize, m)
      else case session_lookup m sid of
        Inl e \<Rightarrow> (Inl e, m)
      | Inr r \<Rightarrow>
         (case ensure_open r of
            Inl e \<Rightarrow> (Inl e, m)
          | Inr _ \<Rightarrow> (Inr (), hm_insert sid (r\<lparr>sr_size := sz\<rparr>) m)))"

definition session_state_of :: "session_manager \<Rightarrow> string \<Rightarrow> session_error + session_state" where
  "session_state_of m sid =
     (case session_lookup m sid of Inl e \<Rightarrow> Inl e | Inr r \<Rightarrow> Inr (sr_state r))"

definition session_role ::
  "session_manager \<Rightarrow> string \<Rightarrow> string \<Rightarrow> session_error + attach_role option" where
  "session_role m sid dev =
     (case session_lookup m sid of
        Inl e \<Rightarrow> Inl e | Inr r \<Rightarrow> Inr (hm_get (sr_attached_devices r) dev))"

definition session_size_of :: "session_manager \<Rightarrow> string \<Rightarrow> session_error + terminal_size" where
  "session_size_of m sid =
     (case session_lookup m sid of Inl e \<Rightarrow> Inl e | Inr r \<Rightarrow> Inr (sr_size r))"

section \<open>The manager as a state machine\<close>

text \<open>One call of the public interface, and the managers reachable by such calls.\<close>

datatype session_op =
    OpCreate string
  | OpAttach string string
  | OpSteal string string
  | OpDetach string string
  | OpClose string
  | OpResize string terminal_size

fun session_call :: "session_op \<Rightarrow> session_manager \<Rightarrow> session_error option \<times> session_manager" where
  "session_call (OpCreate sid) m =
     (case create_session sid m of (Inl e, n) \<Rightarrow> (Some e, n) | (Inr _, n) \<Rightarrow> (None, n))"
| "session_call (OpAttach sid dev) m =
     (case session_attach sid dev m of (Inl e, n) \<Rightarrow> (Some e, n) | (Inr _, n) \<Rightarrow> (None, n))"
| "session_call (OpSteal sid dev) m =
     (case steal_control sid dev m of (Inl e, n) \<Rightarrow> (Some e, n) | (Inr _, n) \<Rightarrow> (None, n))"
| "session_call (OpDetach sid dev) m =
     (case session_detach sid dev m of (Inl e, n) \<Rightarrow> (Some e, n) | (Inr _, n) \<Rightarrow> (None, n))"
| "session_call (OpClose sid) m =
     (case session_close sid m of (Inl e, n) \<Rightarrow> (Some e, n) | (Inr _, n) \<Rightarrow> (None, n))"
| "session_call (OpResize sid sz) m =
     (case session_resize sid sz m of (Inl e, n) \<Rightarrow> (Some e, n) | (Inr _, n) \<Rightarrow> (None, n))"

fun session_run :: "session_op list \<Rightarrow> session_manager \<Rightarrow> session_manager" where
  "session_run [] m = m"
| "session_run (c # cs) m = session_run cs (snd (session_call c m))"

inductive session_reachable :: "session_manager \<Rightarrow> bool" where
  session_init: "session_reachable []"
| session_step: "session_reachable m \<Longrightarrow> session_reachable (snd (session_call c m))"

definition session_record_inv :: "session_record \<Rightarrow> bool" where
  "session_record_inv r \<longleftrightarrow>
     hm_wf (sr_attached_devices r) \<and>
     (sr_state r \<noteq> Running \<longrightarrow> sr_attached_devices r = []) \<and>
     terminal_size_is_valid (sr_size r)"

definition session_inv :: "session_manager \<Rightarrow> bool" where
  "session_inv m \<longleftrightarrow> hm_wf m \<and> (\<forall>sid r. hm_get m sid = Some r \<longrightarrow> session_record_inv r)"

text \<open>The life cycle order: the manager never moves a session backwards.\<close>

fun state_rank :: "session_state \<Rightarrow> nat" where
  "state_rank Created = 0"
| "state_rank Running = 1"
| "state_rank Closed = 2"

text \<open>
  The abstract specification of the shared-control contract: a session is its life-cycle
  state and the set of devices attached to it.
\<close>

type_synonym session_spec = "string \<Rightarrow> (session_state \<times> string set) option"

definition session_abs :: "session_manager \<Rightarrow> session_spec" where
  "session_abs m sid =
     map_option (\<lambda>r. (sr_state r, dom (hm_get (sr_attached_devices r)))) (hm_get m sid)"

fun session_spec_step :: "session_op \<Rightarrow> session_spec \<Rightarrow> session_spec" where
  "session_spec_step (OpCreate sid) \<sigma> =
     (if \<sigma> sid = None then \<sigma>(sid \<mapsto> (Created, {})) else \<sigma>)"
| "session_spec_step (OpAttach sid dev) \<sigma> =
     (case \<sigma> sid of
        Some (st, ds) \<Rightarrow> if st = Closed then \<sigma> else \<sigma>(sid \<mapsto> (Running, insert dev ds))
      | None \<Rightarrow> \<sigma>)"
| "session_spec_step (OpSteal sid dev) \<sigma> = \<sigma>"
| "session_spec_step (OpDetach sid dev) \<sigma> =
     (case \<sigma> sid of
        Some (st, ds) \<Rightarrow> if st = Closed then \<sigma> else \<sigma>(sid \<mapsto> (st, ds - {dev}))
      | None \<Rightarrow> \<sigma>)"
| "session_spec_step (OpClose sid) \<sigma> =
     (case \<sigma> sid of Some _ \<Rightarrow> \<sigma>(sid \<mapsto> (Closed, {})) | None \<Rightarrow> \<sigma>)"
| "session_spec_step (OpResize sid sz) \<sigma> = \<sigma>"

section \<open>Lemmas\<close>

lemmas session_op_defs =
  create_session_def session_attach_def steal_control_def session_detach_def
  session_close_def session_resize_def session_lookup_def ensure_open_def

lemma session_record_new_inv [simp]: "session_record_inv session_record_new"
  by (simp add: session_record_inv_def session_record_new_def terminal_size_is_valid_def
      terminal_size_default_def terminal_size_cells_def)

lemma session_inv_empty [simp]: "session_inv []"
  by (simp add: session_inv_def)

lemma session_inv_insert:
  "session_inv m \<Longrightarrow> session_record_inv r \<Longrightarrow> session_inv (hm_insert sid r m)"
  by (auto simp: session_inv_def split: if_splits)

lemma session_inv_get: "session_inv m \<Longrightarrow> hm_get m sid = Some r \<Longrightarrow> session_record_inv r"
  by (auto simp: session_inv_def)

text \<open>
  Every call writes at most the record of the session it names, keeps the record's invariant,
  never moves the life cycle back and touches a closed session only to close it again.
\<close>

definition session_write_ok :: "session_op \<Rightarrow> string \<Rightarrow> session_manager \<Rightarrow> session_record \<Rightarrow> bool" where
  "session_write_ok c sid m r \<longleftrightarrow>
     (case hm_get m sid of
        None \<Rightarrow> c = OpCreate sid \<and> r = session_record_new
      | Some r0 \<Rightarrow>
          (session_record_inv r0 \<longrightarrow> session_record_inv r) \<and>
          state_rank (sr_state r0) \<le> state_rank (sr_state r) \<and>
          (sr_state r0 = Closed \<longrightarrow> c = OpClose sid))"

inductive session_effect :: "session_op \<Rightarrow> session_manager \<Rightarrow> session_manager \<Rightarrow> bool" where
  effect_keep: "session_effect c m m"
| effect_write: "session_write_ok c sid m r \<Longrightarrow> session_effect c m (hm_insert sid r m)"

lemmas session_effect_simps =
  session_op_defs session_write_ok_def session_record_inv_def hm_laws

lemma session_call_effect: "session_effect c m (snd (session_call c m))"
proof (cases c)
  case (OpCreate sid)
  then show ?thesis
    by (cases "hm_get m sid") (auto simp: session_effect_simps intro: session_effect.intros)
next
  case (OpAttach sid dev)
  show ?thesis
  proof (cases "hm_get m sid")
    case (Some r)
    with OpAttach show ?thesis
      by (cases "hm_get (sr_attached_devices r) dev"; cases "sr_state r")
         (auto simp: session_effect_simps intro!: effect_write intro: effect_keep)
  qed (auto simp: OpAttach session_op_defs intro: effect_keep)
next
  case (OpSteal sid dev)
  then show ?thesis
    by (auto simp: session_op_defs intro: effect_keep split: option.splits)
next
  case (OpDetach sid dev)
  then show ?thesis
    by (cases "hm_get m sid"; cases "hm_get (sr_attached_devices (the (hm_get m sid))) dev")
       (auto simp: session_effect_simps intro: session_effect.intros)
next
  case (OpClose sid)
  then show ?thesis
    by (cases "hm_get m sid"; cases "sr_state (the (hm_get m sid))")
       (auto simp: session_effect_simps intro!: effect_write intro: effect_keep)
next
  case (OpResize sid sz)
  then show ?thesis
    by (cases "hm_get m sid") (auto simp: session_effect_simps intro!: effect_write intro: effect_keep)
qed

lemma session_effect_inv: "session_effect c m n \<Longrightarrow> session_inv m \<Longrightarrow> session_inv n"
  by (induction rule: session_effect.induct)
     (auto simp: session_write_ok_def intro!: session_inv_insert dest: session_inv_get
       split: option.splits)

lemma session_call_inv: "session_inv m \<Longrightarrow> session_inv (snd (session_call c m))"
  by (rule session_effect_inv [OF session_call_effect])

lemma session_reachable_inv: "session_reachable m \<Longrightarrow> session_inv m"
  by (induction rule: session_reachable.induct) (auto intro: session_call_inv)

lemma session_effect_rank:
  assumes "session_effect c m n" "hm_get m sid = Some r"
  shows "\<exists>r'. hm_get n sid = Some r' \<and> state_rank (sr_state r) \<le> state_rank (sr_state r')"
  using assms
  by (induction rule: session_effect.induct)
     (auto simp: session_write_ok_def split: if_splits option.splits)

lemma session_run_rank:
  "hm_get m sid = Some r \<Longrightarrow>
   \<exists>r'. hm_get (session_run cs m) sid = Some r' \<and> state_rank (sr_state r) \<le> state_rank (sr_state r')"
proof (induction cs arbitrary: m r)
  case Nil
  then show ?case by auto
next
  case (Cons c cs)
  from session_effect_rank [OF session_call_effect [of c m] Cons.prems]
  obtain r1 where "hm_get (snd (session_call c m)) sid = Some r1"
      "state_rank (sr_state r) \<le> state_rank (sr_state r1)" by blast
  with Cons.IH show ?case by (fastforce intro: order_trans)
qed

lemma state_rank_Closed: "state_rank Closed \<le> state_rank st \<Longrightarrow> st = Closed"
  by (cases st) auto

lemma session_call_refines: "session_abs (snd (session_call c m)) = session_spec_step c (session_abs m)"
proof (cases c)
  case (OpAttach sid dev)
  then show ?thesis
    by (cases "hm_get m sid"; cases "sr_state (the (hm_get m sid))";
        cases "hm_get (sr_attached_devices (the (hm_get m sid))) dev")
       (auto simp: session_abs_def fun_eq_iff session_op_defs)
next
  case (OpDetach sid dev)
  then show ?thesis
    by (cases "hm_get m sid"; cases "sr_state (the (hm_get m sid))";
        cases "hm_get (sr_attached_devices (the (hm_get m sid))) dev")
       (auto simp: session_abs_def fun_eq_iff session_op_defs split: if_splits)
qed (auto simp: session_abs_def fun_eq_iff session_op_defs session_record_new_def split: option.splits)

section \<open>Properties\<close>

text \<open>
  Every manager reachable through the public interface keeps the session invariant: keys are
  unique, a session that is not running has no attached device (so closing drops every
  attachment), and its terminal size has non-zero rows and columns.
\<close>

lemma session_manager_invariant:
  assumes "session_reachable m" and "hm_get m sid = Some r"
  shows "hm_wf m \<and> hm_wf (sr_attached_devices r) \<and>
    (sr_state r \<noteq> Running \<longrightarrow> sr_attached_devices r = []) \<and>
    0 < ts_rows (sr_size r) \<and> 0 < ts_cols (sr_size r)"
  using session_reachable_inv [OF assms(1)] assms(2)
  by (auto simp: session_inv_def session_record_inv_def terminal_size_is_valid_def)

definition session_example :: session_manager where
  "session_example =
     session_run [OpCreate ''s1'', OpAttach ''s1'' ''dev-a'', OpAttach ''s1'' ''dev-b'',
       OpDetach ''s1'' ''dev-a'', OpResize ''s1'' (terminal_size_cells 40 120)] []"

lemma session_run_reachable: "session_reachable m \<Longrightarrow> session_reachable (session_run cs m)"
  by (induction cs arbitrary: m) (auto intro: session_step)

lemma session_example_reachable: "session_reachable session_example"
  unfolding session_example_def by (rule session_run_reachable [OF session_init])

lemma session_example_get:
  "hm_get session_example ''s1'' =
     Some \<lparr>sr_state = Running, sr_attached_devices = [(''dev-b'', Operator)],
       sr_size = terminal_size_cells 40 120\<rparr>"
  by (simp add: session_example_def session_op_defs session_record_new_def
      terminal_size_is_valid_def terminal_size_cells_def)

text \<open>
  \<open>Closed\<close> is final: once a session is closed, no sequence of further calls reopens or forgets
  it, and on it attach, control requests, detach and resize are all refused with
  \<open>SessionClosed\<close> and change nothing.
\<close>

lemma session_closed_is_final:
  assumes "hm_get m sid = Some r" and "sr_state r = Closed"
  shows "(\<exists>r'. hm_get (session_run cs m) sid = Some r' \<and> sr_state r' = Closed) \<and>
    session_attach sid dev m = (Inl SessionClosed, m) \<and>
    steal_control sid dev m = (Inl SessionClosed, m) \<and>
    session_detach sid dev m = (Inl SessionClosed, m) \<and>
    (terminal_size_is_valid sz \<longrightarrow> session_resize sid sz m = (Inl SessionClosed, m))"
proof -
  have "\<exists>r'. hm_get (session_run cs m) sid = Some r' \<and> sr_state r' = Closed"
    using session_run_rank [OF assms(1), of cs] state_rank_Closed assms(2) by metis
  with assms show ?thesis by (simp add: session_op_defs)
qed

text \<open>
  Errors are atomic: a call that fails returns the manager unchanged, and a call that
  succeeds leaves every other session as it was.
\<close>

lemma session_error_atomic_and_framed:
  "(fst (session_call c m) \<noteq> None \<longrightarrow> snd (session_call c m) = m) \<and>
   (\<exists>sid. \<forall>other. other \<noteq> sid \<longrightarrow> hm_get (snd (session_call c m)) other = hm_get m other)"
proof
  show "fst (session_call c m) \<noteq> None \<longrightarrow> snd (session_call c m) = m"
    by (cases c) (auto simp: session_op_defs Let_def split: option.splits sum.splits if_splits)
  show "\<exists>sid. \<forall>other. other \<noteq> sid \<longrightarrow> hm_get (snd (session_call c m)) other = hm_get m other"
    using session_call_effect [of c m] by (auto elim!: session_effect.cases)
qed

text \<open>
  C40. Refinement of the shared-control contract: seen through the abstraction (life-cycle state and
  set of attached devices per session), a run of the manager is exactly the run of the
  specification machine. In particular attaching always yields the operator role to every
  device, detaching never closes, and closing empties the attachments.
\<close>

theorem session_manager_refines_spec:
  "session_abs (session_run cs m) = fold session_spec_step cs (session_abs m)"
  by (induction cs arbitrary: m) (simp_all add: session_call_refines)

end
