(* ===== verification/Relay_Registry.thy ===== *)
theory Relay_Registry
  imports Termd_Prelude
begin

text \<open>
  The routing table of the relay, \<open>termrelay/src/ws/registry.rs\<close>: one room per server with the
  daemon's control line, the waiting and paired clients, and the data pipes the daemon opens for
  them. An operation runs under the registry's mutex and is one function here.

  A \<open>sender\<close> is the address of a connection's outbound queue. Its queue is not part of the registry:
  the outcome of a send attempt is an argument of the operation (\<open>ctl\<close> for the control lane, \<open>dat\<close>
  for the data lane), so the theorems hold for every behaviour of the queues, and what an operation
  does to other connections is the list of \<open>relay_effect\<close>s it returns. Clock readings and the random
  part of a data token are arguments too. The mutex is never poisoned: no operation panics while
  it holds the lock.
\<close>

section \<open>Frames, routes and errors\<close>

type_synonym server_id = nat
type_synonym conn_id = u64
type_synonym nonce = "u8 list"
type_synonym sender = nat
type_synonym instant = nat

datatype opaque_frame = FText "u8 list" | FBinary "u8 list"

fun frame_len :: "opaque_frame \<Rightarrow> usize" where
  "frame_len (FText v) = length v"
| "frame_len (FBinary v) = length v"

datatype connection_role = DaemonControl | DaemonData | Client

datatype relay_route_kind = Legacy | Metadata | Terminal | Http

datatype relay_control_envelope =
    OpenData conn_id nonce relay_route_kind "u8 list option"
  | ClientDisconnected conn_id
  | DataReady

text \<open>The outcome of a non-blocking send on a bounded queue, and of a send on the data lane.\<close>

datatype try_send = Sent | Full | Closed

datatype data_send = DataOk | BudgetFull | DataClosed

datatype relay_error =
    DaemonRouteGenerationRequired | DaemonControlOffline | DaemonControlBusy
  | PendingClientLimitExceeded | DaemonDataRouteInvalid | DaemonDataRouteRejected
  | AdmissionRequired | AdmissionRejected | Poisoned

fun route_error_code :: "relay_error \<Rightarrow> string" where
  "route_error_code DaemonRouteGenerationRequired = ''relay_route_generation_required''"
| "route_error_code DaemonControlOffline = ''relay_daemon_offline''"
| "route_error_code DaemonControlBusy = ''relay_busy''"
| "route_error_code PendingClientLimitExceeded = ''relay_pending_client_limit''"
| "route_error_code DaemonDataRouteInvalid = ''relay_data_route_invalid''"
| "route_error_code DaemonDataRouteRejected = ''relay_data_route_rejected''"
| "route_error_code AdmissionRequired = ''relay_admission_required''"
| "route_error_code AdmissionRejected = ''relay_admission_rejected''"
| "route_error_code Poisoned = ''relay_state_unavailable''"

record route_prelude =
  rp_server_id :: server_id
  rp_connection_role :: connection_role
  rp_route_generation :: "nonce option"
  rp_client_id :: "conn_id option"
  rp_data_token :: "nonce option"

definition pending_clients_per_room_limit :: usize where
  "pending_clients_per_room_limit = 64"

definition pre_pair_client_buffer_max_frames :: usize where
  "pre_pair_client_buffer_max_frames = 256"

definition pre_pair_client_buffer_max_bytes :: usize where
  "pre_pair_client_buffer_max_bytes = 4 * 1024 * 1024"

definition pre_pair_room_buffer_max_bytes :: usize where
  "pre_pair_room_buffer_max_bytes = pre_pair_client_buffer_max_bytes * 2"

section \<open>Endpoints and rooms\<close>

record pre_pair_buffer =
  pp_frames :: "opaque_frame list"
  pp_bytes :: usize

definition empty_buffer :: pre_pair_buffer where
  "empty_buffer = \<lparr>pp_frames = [], pp_bytes = 0\<rparr>"

text \<open>\<open>None\<close> is \<open>Err(frame)\<close>.\<close>

definition buffer_push :: "opaque_frame \<Rightarrow> pre_pair_buffer \<Rightarrow> pre_pair_buffer option" where
  "buffer_push f b =
     (if length (pp_frames b) \<ge> pre_pair_client_buffer_max_frames \<or>
         sat_add64 (pp_bytes b) (frame_len f) > pre_pair_client_buffer_max_bytes
      then None
      else Some \<lparr>pp_frames = pp_frames b @ [f], pp_bytes = sat_add64 (pp_bytes b) (frame_len f)\<rparr>)"

definition buffer_drain :: "pre_pair_buffer \<Rightarrow> opaque_frame list \<times> pre_pair_buffer" where
  "buffer_drain b = (pp_frames b, empty_buffer)"

record connection_endpoint =
  ep_id :: conn_id
  ep_sender :: sender
  ep_data_token :: "nonce option"
  ep_paired_daemon_data_id :: "conn_id option"
  ep_paired_client_id :: "conn_id option"
  ep_pre_pair_buffer :: pre_pair_buffer
  ep_pre_pair_flush_in_progress :: bool
  ep_created_at :: instant
  ep_paired_at :: "instant option"

definition endpoint_new :: "instant \<Rightarrow> conn_id \<Rightarrow> sender \<Rightarrow> connection_endpoint" where
  "endpoint_new now i s =
     \<lparr>ep_id = i, ep_sender = s, ep_data_token = None, ep_paired_daemon_data_id = None,
      ep_paired_client_id = None, ep_pre_pair_buffer = empty_buffer,
      ep_pre_pair_flush_in_progress = False, ep_created_at = now, ep_paired_at = None\<rparr>"

definition new_client :: "instant \<Rightarrow> conn_id \<Rightarrow> sender \<Rightarrow> nonce \<Rightarrow> connection_endpoint" where
  "new_client now i s data_token = (endpoint_new now i s)\<lparr>ep_data_token := Some data_token\<rparr>"

definition new_daemon_data :: "instant \<Rightarrow> conn_id \<Rightarrow> sender \<Rightarrow> conn_id \<Rightarrow> connection_endpoint" where
  "new_daemon_data now i s client_id = (endpoint_new now i s)\<lparr>ep_paired_client_id := Some client_id\<rparr>"

record relay_room =
  rm_daemon_control :: "connection_endpoint option"
  rm_route_generation :: "nonce option"
  rm_daemon_data :: "(conn_id, connection_endpoint) hmap"
  rm_clients :: "(conn_id, connection_endpoint) hmap"
  rm_pre_pair_client_bytes :: usize

definition room_default :: relay_room where
  "room_default = \<lparr>rm_daemon_control = None, rm_route_generation = None, rm_daemon_data = [],
     rm_clients = [], rm_pre_pair_client_bytes = 0\<rparr>"

record client_pair_log_context =
  cl_wait_ms :: u64
  cl_paired :: bool
  cl_pre_pair_frames :: usize
  cl_pre_pair_bytes :: usize

definition duration_ms_saturated :: "nat \<Rightarrow> u64" where
  "duration_ms_saturated d = min d u64_max"

definition client_pair_log_context_of :: "instant \<Rightarrow> connection_endpoint \<Rightarrow> client_pair_log_context" where
  "client_pair_log_context_of now c =
     \<lparr>cl_wait_ms = duration_ms_saturated (now - ep_created_at c),
      cl_paired = (ep_paired_daemon_data_id c \<noteq> None),
      cl_pre_pair_frames = length (pp_frames (ep_pre_pair_buffer c)),
      cl_pre_pair_bytes = pp_bytes (ep_pre_pair_buffer c)\<rparr>"

record client_close_outcome =
  co_removed :: bool
  co_notified_data_pipe :: bool
  co_pair_summary :: "client_pair_log_context option"

text \<open>What an operation does to other connections, in order.\<close>

datatype relay_effect =
    RequestClose sender
  | NotifyPair conn_id
  | SendControl sender relay_control_envelope
  | SendData sender opaque_frame

definition room_is_empty :: "relay_room \<Rightarrow> bool" where
  "room_is_empty r \<longleftrightarrow> rm_daemon_control r = None \<and> rm_daemon_data r = [] \<and> rm_clients r = []"

text \<open>One round of the first loop of \<open>close_clients\<close>.\<close>

definition close_one_client ::
  "conn_id \<times> connection_endpoint \<Rightarrow> relay_room \<times> relay_effect list \<Rightarrow> relay_room \<times> relay_effect list" where
  "close_one_client e st =
     (case e of (cid, client) \<Rightarrow> case st of (r, fx) \<Rightarrow>
        (let (r1, fx1) =
           (case ep_paired_daemon_data_id client of
              None \<Rightarrow> (r, fx)
            | Some d \<Rightarrow>
                (case hm_get (rm_daemon_data r) d of
                   None \<Rightarrow> (r, fx)
                 | Some dd \<Rightarrow> (r\<lparr>rm_daemon_data := hm_remove d (rm_daemon_data r)\<rparr>,
                               fx @ [RequestClose (ep_sender dd)])))
         in (r1, fx1 @ [NotifyPair cid, RequestClose (ep_sender client)])))"

definition close_clients :: "relay_room \<Rightarrow> relay_room \<times> relay_effect list" where
  "close_clients r =
     (let (r1, fx) = fold close_one_client (rm_clients r) (r\<lparr>rm_clients := []\<rparr>, [])
      in (r1\<lparr>rm_pre_pair_client_bytes := 0, rm_daemon_data := []\<rparr>,
          fx @ map (\<lambda>e. RequestClose (ep_sender (snd e))) (rm_daemon_data r1)))"

definition clear_daemon_control_and_dependents :: "relay_room \<Rightarrow> relay_room \<times> relay_effect list" where
  "clear_daemon_control_and_dependents r =
     (let fx0 = (case rm_daemon_control r of None \<Rightarrow> [] | Some c \<Rightarrow> [RequestClose (ep_sender c)]);
          (r1, fx1) = close_clients (r\<lparr>rm_daemon_control := None, rm_route_generation := None\<rparr>)
      in (r1, fx0 @ fx1))"

definition release_client_pre_pair_bytes :: "connection_endpoint \<Rightarrow> relay_room \<Rightarrow> relay_room" where
  "release_client_pre_pair_bytes c r =
     r\<lparr>rm_pre_pair_client_bytes := rm_pre_pair_client_bytes r - pp_bytes (ep_pre_pair_buffer c)\<rparr>"

definition close_client_transport ::
  "instant \<Rightarrow> conn_id \<Rightarrow> relay_room \<Rightarrow> client_close_outcome \<times> relay_room \<times> relay_effect list" where
  "close_client_transport now cid r =
     (case hm_get (rm_clients r) cid of
        None \<Rightarrow> (\<lparr>co_removed = False, co_notified_data_pipe = False, co_pair_summary = None\<rparr>, r, [])
      | Some client \<Rightarrow>
          (let r1 = release_client_pre_pair_bytes client (r\<lparr>rm_clients := hm_remove cid (rm_clients r)\<rparr>);
               data = (case ep_paired_daemon_data_id client of
                         None \<Rightarrow> None
                       | Some d \<Rightarrow> map_option (Pair d) (hm_get (rm_daemon_data r1) d));
               (r2, fx2) = (case data of
                         None \<Rightarrow> (r1, [])
                       | Some (d, dd) \<Rightarrow> (r1\<lparr>rm_daemon_data := hm_remove d (rm_daemon_data r1)\<rparr>,
                                           [RequestClose (ep_sender dd)]))
           in (\<lparr>co_removed = True, co_notified_data_pipe = (data \<noteq> None),
                co_pair_summary = Some (client_pair_log_context_of now client)\<rparr>,
               r2, NotifyPair cid # fx2 @ [RequestClose (ep_sender client)])))"

text \<open>\<open>None\<close> is \<open>Err(frame)\<close>.\<close>

definition buffer_client_frame :: "conn_id \<Rightarrow> opaque_frame \<Rightarrow> relay_room \<Rightarrow> relay_room option" where
  "buffer_client_frame cid f r =
     (case hm_get (rm_clients r) cid of
        None \<Rightarrow> None
      | Some client \<Rightarrow>
          if sat_add64 (rm_pre_pair_client_bytes r) (frame_len f) > pre_pair_room_buffer_max_bytes then None
          else map_option
            (\<lambda>b. r\<lparr>rm_clients := hm_insert cid (client\<lparr>ep_pre_pair_buffer := b\<rparr>) (rm_clients r),
                   rm_pre_pair_client_bytes := sat_add64 (rm_pre_pair_client_bytes r) (frame_len f)\<rparr>)
            (buffer_push f (ep_pre_pair_buffer client)))"

definition drain_pre_pair_client_frames ::
  "conn_id \<Rightarrow> relay_room \<Rightarrow> (opaque_frame list \<times> relay_room) option" where
  "drain_pre_pair_client_frames cid r =
     (case hm_get (rm_clients r) cid of
        None \<Rightarrow> None
      | Some client \<Rightarrow>
          (let bytes = pp_bytes (ep_pre_pair_buffer client);
               (frames, b) = buffer_drain (ep_pre_pair_buffer client)
           in Some (frames,
                r\<lparr>rm_clients := hm_insert cid (client\<lparr>ep_pre_pair_buffer := b\<rparr>) (rm_clients r),
                  rm_pre_pair_client_bytes := rm_pre_pair_client_bytes r - bytes\<rparr>)))"

definition notify_client_disconnected_to_control ::
  "(sender \<Rightarrow> relay_control_envelope \<Rightarrow> try_send) \<Rightarrow> conn_id \<Rightarrow> relay_room \<Rightarrow> relay_room \<times> relay_effect list" where
  "notify_client_disconnected_to_control ctl cid r =
     (case rm_daemon_control r of
        None \<Rightarrow> (r, [])
      | Some c \<Rightarrow>
          if ctl (ep_sender c) (ClientDisconnected cid) = Sent
          then (r, [SendControl (ep_sender c) (ClientDisconnected cid)])
          else clear_daemon_control_and_dependents r)"

definition pending_client_count :: "relay_room \<Rightarrow> usize" where
  "pending_client_count r = hm_count (\<lambda>c. ep_paired_daemon_data_id c = None) (rm_clients r)"

text \<open>The sequence in every cleanup path: close the client, tell the daemon unless a pipe was closed.\<close>

definition close_and_notify ::
  "(sender \<Rightarrow> relay_control_envelope \<Rightarrow> try_send) \<Rightarrow> instant \<Rightarrow> conn_id \<Rightarrow> relay_room \<Rightarrow>
   client_close_outcome \<times> relay_room \<times> relay_effect list" where
  "close_and_notify ctl now cid r =
     (let (close, r1, fx1) = close_client_transport now cid r in
      if co_removed close \<and> \<not> co_notified_data_pipe close
      then (let (r2, fx2) = notify_client_disconnected_to_control ctl cid r1 in (close, r2, fx1 @ fx2))
      else (close, r1, fx1))"

section \<open>The registry\<close>

record relay_registry =
  rg_rooms :: "(server_id, relay_room) hmap"
  rg_next_connection_id :: u64

definition registry_default :: relay_registry where
  "registry_default = \<lparr>rg_rooms = [], rg_next_connection_id = 0\<rparr>"

record connection_registration =
  cr_server_id :: server_id
  cr_role :: connection_role
  cr_id :: conn_id
  cr_route_generation :: "nonce option"
  cr_paired_client_id :: "conn_id option"

record forward_report =
  fr_attempted :: usize
  fr_delivered :: usize
  fr_dropped :: usize

abbreviation report :: "usize \<Rightarrow> usize \<Rightarrow> usize \<Rightarrow> forward_report" where
  "report a d x \<equiv> \<lparr>fr_attempted = a, fr_delivered = d, fr_dropped = x\<rparr>"

record relay_forward_outcome =
  fo_report :: forward_report
  fo_should_continue :: bool

definition continue_with :: "forward_report \<Rightarrow> relay_forward_outcome" where
  "continue_with r = \<lparr>fo_report = r, fo_should_continue = True\<rparr>"

definition close_with :: "forward_report \<Rightarrow> relay_forward_outcome" where
  "close_with r = \<lparr>fo_report = r, fo_should_continue = False\<rparr>"

abbreviation set_room :: "server_id \<Rightarrow> relay_room \<Rightarrow> relay_registry \<Rightarrow> relay_registry" where
  "set_room sid r g \<equiv> g\<lparr>rg_rooms := hm_insert sid r (rg_rooms g)\<rparr>"

definition remove_room_if_empty :: "server_id \<Rightarrow> relay_registry \<Rightarrow> relay_registry" where
  "remove_room_if_empty sid g =
     (case hm_get (rg_rooms g) sid of
        None \<Rightarrow> g
      | Some r \<Rightarrow> if room_is_empty r then g\<lparr>rg_rooms := hm_remove sid (rg_rooms g)\<rparr> else g)"

definition room_count :: "relay_registry \<Rightarrow> usize" where
  "room_count g = length (rg_rooms g)"

definition daemon_control_stats :: "relay_registry \<Rightarrow> usize \<times> conn_id" where
  "daemon_control_stats g =
     fold (\<lambda>e (count, latest). case rm_daemon_control (snd e) of
             None \<Rightarrow> (count, latest) | Some c \<Rightarrow> (count + 1, max latest (ep_id c)))
       (rg_rooms g) (0, 0)"

definition daemon_control_connected :: "server_id \<Rightarrow> relay_registry \<Rightarrow> bool option" where
  "daemon_control_connected sid g =
     Some (case hm_get (rg_rooms g) sid of None \<Rightarrow> False | Some r \<Rightarrow> rm_daemon_control r \<noteq> None)"

definition close_server :: "server_id \<Rightarrow> relay_registry \<Rightarrow> bool \<times> relay_registry \<times> relay_effect list" where
  "close_server sid g =
     (case hm_get (rg_rooms g) sid of
        None \<Rightarrow> (False, g, [])
      | Some r \<Rightarrow>
          (let (r1, fx) = clear_daemon_control_and_dependents r
           in (True, g\<lparr>rg_rooms := hm_remove sid (rg_rooms g)\<rparr>, fx)))"

subsection \<open>Registering a connection\<close>

text \<open>The three branches of \<open>register_transport\<close>, on the room; \<open>Inl\<close> is the error.\<close>

definition register_daemon_control ::
  "instant \<Rightarrow> conn_id \<Rightarrow> sender \<Rightarrow> nonce option \<Rightarrow> relay_room \<Rightarrow> relay_room \<times> relay_effect list" where
  "register_daemon_control now i s gen r =
     (let r1 = r\<lparr>rm_daemon_control := Some (endpoint_new now i s)\<rparr>;
          (r2, fx) = (case rm_daemon_control r of
             None \<Rightarrow> (r1, [])
           | Some stale \<Rightarrow> (let (r2, fx) = close_clients r1 in (r2, RequestClose (ep_sender stale) # fx)))
      in (r2\<lparr>rm_route_generation := gen\<rparr>, fx))"

definition register_daemon_data ::
  "instant \<Rightarrow> conn_id \<Rightarrow> sender \<Rightarrow> route_prelude \<Rightarrow> relay_room \<Rightarrow>
   relay_error + relay_room \<times> relay_effect list" where
  "register_daemon_data now i s p r =
     (if rm_route_generation r \<noteq> None \<and> rp_route_generation p \<noteq> rm_route_generation r
      then Inl DaemonDataRouteRejected
      else case (rp_client_id p, rp_data_token p) of
        (Some cid, Some tok) \<Rightarrow>
          (case hm_get (rm_clients r) cid of
             None \<Rightarrow> Inl DaemonDataRouteRejected
           | Some client \<Rightarrow>
               if ep_data_token client \<noteq> Some tok \<or> ep_paired_daemon_data_id client \<noteq> None
               then Inl DaemonDataRouteRejected
               else Inr (r\<lparr>rm_clients := hm_insert cid
                       (client\<lparr>ep_paired_daemon_data_id := Some i, ep_paired_at := Some now,
                          ep_pre_pair_flush_in_progress := (pp_frames (ep_pre_pair_buffer client) \<noteq> [])\<rparr>)
                       (rm_clients r),
                     rm_daemon_data := hm_insert i (new_daemon_data now i s cid) (rm_daemon_data r)\<rparr>,
                     [NotifyPair cid]))
      | _ \<Rightarrow> Inl DaemonDataRouteInvalid)"

definition data_token_for :: "u8 list \<Rightarrow> conn_id \<Rightarrow> nonce" where
  "data_token_for uuid i = ascii ''relay-data-'' @ uuid @ ascii ''-'' @ dec i"

text \<open>The room is returned in the error case too: the control line may have been cleared.\<close>

definition register_client ::
  "(sender \<Rightarrow> relay_control_envelope \<Rightarrow> try_send) \<Rightarrow> u8 list \<Rightarrow> instant \<Rightarrow> conn_id \<Rightarrow> sender \<Rightarrow>
   relay_route_kind \<Rightarrow> u8 list option \<Rightarrow> relay_room \<Rightarrow>
   relay_error option \<times> relay_room \<times> relay_effect list" where
  "register_client ctl uuid now i s kind access r =
     (if pending_client_count r \<ge> pending_clients_per_room_limit
      then (Some PendingClientLimitExceeded, r, [])
      else case rm_daemon_control r of
        None \<Rightarrow> (Some DaemonControlOffline, r, [])
      | Some control \<Rightarrow>
          (let tok = data_token_for uuid i;
               open_data = OpenData i tok kind access;
               r1 = r\<lparr>rm_clients := hm_insert i (new_client now i s tok) (rm_clients r)\<rparr>
           in if pending_client_count r1 > pending_clients_per_room_limit
              then (let (_, r2, fx) = close_client_transport now i r1
                    in (Some PendingClientLimitExceeded, r2, fx))
              else case ctl (ep_sender control) open_data of
                Sent \<Rightarrow> (None, r1, [SendControl (ep_sender control) open_data])
              | Full \<Rightarrow> (let (_, r2, fx) = close_client_transport now i r1
                         in (Some DaemonControlBusy, r2, fx))
              | Closed \<Rightarrow>
                  (let (_, r2, fx2) = close_client_transport now i r1;
                       (r3, fx3) = clear_daemon_control_and_dependents r2
                   in (Some DaemonControlOffline, r3, fx2 @ fx3))))"

definition register_transport ::
  "(sender \<Rightarrow> relay_control_envelope \<Rightarrow> try_send) \<Rightarrow> u8 list \<Rightarrow> instant \<Rightarrow> route_prelude \<Rightarrow> sender \<Rightarrow>
   relay_route_kind \<Rightarrow> u8 list option \<Rightarrow> relay_registry \<Rightarrow>
   (relay_error + connection_registration) \<times> relay_registry \<times> relay_effect list" where
  "register_transport ctl uuid now p s kind access g0 =
     (let sid = rp_server_id p; role = rp_connection_role p;
          i = wrap_add64 (rg_next_connection_id g0) 1;
          g = g0\<lparr>rg_next_connection_id := i\<rparr>;
          registered = (\<lambda>g'. Inr \<lparr>cr_server_id = sid, cr_role = role, cr_id = i,
             cr_route_generation =
               (case Option.bind (hm_get (rg_rooms g') sid) rm_route_generation of
                  Some n \<Rightarrow> Some n | None \<Rightarrow> rp_route_generation p),
             cr_paired_client_id = (if role = DaemonData then rp_client_id p else None)\<rparr>)
      in if role \<in> {DaemonControl, DaemonData} \<and> rp_route_generation p = None
         then (Inl DaemonRouteGenerationRequired, g, [])
         else case role of
           DaemonControl \<Rightarrow>
             (let r = (case hm_get (rg_rooms g) sid of Some r \<Rightarrow> r | None \<Rightarrow> room_default);
                  (r1, fx) = register_daemon_control now i s (rp_route_generation p) r;
                  g1 = set_room sid r1 g
              in (registered g1, g1, fx))
         | DaemonData \<Rightarrow>
             (case hm_get (rg_rooms g) sid of
                None \<Rightarrow> (Inl DaemonControlOffline, g, [])
              | Some r \<Rightarrow>
                  (case register_daemon_data now i s p r of
                     Inl e \<Rightarrow> (Inl e, g, [])
                   | Inr (r1, fx) \<Rightarrow> (let g1 = set_room sid r1 g in (registered g1, g1, fx))))
         | Client \<Rightarrow>
             (case hm_get (rg_rooms g) sid of
                None \<Rightarrow> (Inl DaemonControlOffline, g, [])
              | Some r \<Rightarrow>
                  (let (e, r1, fx) = register_client ctl uuid now i s kind access r;
                       g1 = set_room sid r1 g
                   in (case e of Some err \<Rightarrow> Inl err | None \<Rightarrow> registered g1, g1, fx))))"

definition register ::
  "(sender \<Rightarrow> relay_control_envelope \<Rightarrow> try_send) \<Rightarrow> u8 list \<Rightarrow> instant \<Rightarrow> route_prelude \<Rightarrow> sender \<Rightarrow>
   relay_registry \<Rightarrow> (relay_error + connection_registration) \<times> relay_registry \<times> relay_effect list" where
  "register ctl uuid now p s = register_transport ctl uuid now p s Legacy None"

definition register_http ::
  "(sender \<Rightarrow> relay_control_envelope \<Rightarrow> try_send) \<Rightarrow> u8 list \<Rightarrow> instant \<Rightarrow> route_prelude \<Rightarrow> sender \<Rightarrow>
   relay_registry \<Rightarrow> (relay_error + connection_registration) \<times> relay_registry \<times> relay_effect list" where
  "register_http ctl uuid now p s = register_transport ctl uuid now p s Http None"

definition register_workspace ::
  "(sender \<Rightarrow> relay_control_envelope \<Rightarrow> try_send) \<Rightarrow> u8 list \<Rightarrow> instant \<Rightarrow> server_id \<Rightarrow> sender \<Rightarrow>
   relay_route_kind \<Rightarrow> u8 list \<Rightarrow> relay_registry \<Rightarrow>
   (relay_error + connection_registration) \<times> relay_registry \<times> relay_effect list" where
  "register_workspace ctl uuid now sid s kind access =
     register_transport ctl uuid now
       \<lparr>rp_server_id = sid, rp_connection_role = Client, rp_route_generation = None,
        rp_client_id = None, rp_data_token = None\<rparr> s kind (Some access)"

subsection \<open>Closing a connection\<close>

definition unregister ::
  "(sender \<Rightarrow> relay_control_envelope \<Rightarrow> try_send) \<Rightarrow> instant \<Rightarrow> connection_registration \<Rightarrow>
   relay_registry \<Rightarrow> relay_registry \<times> relay_effect list" where
  "unregister ctl now reg g =
     (case hm_get (rg_rooms g) (cr_server_id reg) of
        None \<Rightarrow> (g, [])
      | Some r \<Rightarrow>
          (let (r1, fx) =
             (case cr_role reg of
                DaemonControl \<Rightarrow>
                  (case rm_daemon_control r of
                     None \<Rightarrow> (r, [])
                   | Some c \<Rightarrow> if ep_id c = cr_id reg then clear_daemon_control_and_dependents r else (r, []))
              | DaemonData \<Rightarrow>
                  (case hm_get (rm_daemon_data r) (cr_id reg) of
                     None \<Rightarrow> (r, [])
                   | Some dd \<Rightarrow>
                       (let r1 = r\<lparr>rm_daemon_data := hm_remove (cr_id reg) (rm_daemon_data r)\<rparr>;
                            cid = (case ep_paired_client_id dd of
                                     Some c \<Rightarrow> Some c | None \<Rightarrow> cr_paired_client_id reg);
                            fx1 = [RequestClose (ep_sender dd)]
                        in case Option.bind cid (hm_get (rm_clients r1)) of
                             None \<Rightarrow> (r1, fx1)
                           | Some client \<Rightarrow>
                               if ep_paired_daemon_data_id client = Some (cr_id reg)
                               then (let (_, r2, fx2) = close_client_transport now (the cid) r1 in (r2, fx1 @ fx2))
                               else (r1, fx1)))
              | Client \<Rightarrow> (let (_, r1, fx) = close_and_notify ctl now (cr_id reg) r in (r1, fx)))
           in (remove_room_if_empty (cr_server_id reg) (set_room (cr_server_id reg) r1 g), fx)))"

definition has_client :: "server_id \<Rightarrow> conn_id \<Rightarrow> relay_registry \<Rightarrow> bool" where
  "has_client sid cid g =
     (case hm_get (rg_rooms g) sid of None \<Rightarrow> False | Some r \<Rightarrow> hm_get (rm_clients r) cid \<noteq> None)"

definition close_pending_client_if_unpaired ::
  "(sender \<Rightarrow> relay_control_envelope \<Rightarrow> try_send) \<Rightarrow> instant \<Rightarrow> connection_registration \<Rightarrow>
   relay_registry \<Rightarrow> client_pair_log_context option \<times> relay_registry \<times> relay_effect list" where
  "close_pending_client_if_unpaired ctl now reg g =
     (if cr_role reg \<noteq> Client then (None, g, [])
      else case hm_get (rg_rooms g) (cr_server_id reg) of
        None \<Rightarrow> (None, g, [])
      | Some r \<Rightarrow>
          (case hm_get (rm_clients r) (cr_id reg) of
             None \<Rightarrow> (None, g, [])
           | Some client \<Rightarrow>
               if ep_paired_daemon_data_id client \<noteq> None then (None, g, [])
               else (let (close, r1, fx) = close_and_notify ctl now (cr_id reg) r
                     in (if co_removed close then co_pair_summary close else None,
                         remove_room_if_empty (cr_server_id reg) (set_room (cr_server_id reg) r1 g), fx))))"

text \<open>One poll of \<open>wait_client_data_pair\<close>; \<open>None\<close> is to wait and poll again.\<close>

definition poll_client_data_pair :: "connection_registration \<Rightarrow> relay_registry \<Rightarrow> bool option" where
  "poll_client_data_pair reg g =
     (if cr_role reg \<noteq> Client then Some False
      else case Option.bind (hm_get (rg_rooms g) (cr_server_id reg)) (\<lambda>r. hm_get (rm_clients r) (cr_id reg)) of
        None \<Rightarrow> Some False
      | Some client \<Rightarrow> if ep_paired_daemon_data_id client \<noteq> None then Some True else None)"

definition daemon_data_pair_wait_ms :: "connection_registration \<Rightarrow> relay_registry \<Rightarrow> u64 option" where
  "daemon_data_pair_wait_ms reg g =
     (if cr_role reg \<noteq> DaemonData then None
      else do {
        cid \<leftarrow> cr_paired_client_id reg;
        r \<leftarrow> hm_get (rg_rooms g) (cr_server_id reg);
        client \<leftarrow> hm_get (rm_clients r) cid;
        paired_at \<leftarrow> ep_paired_at client;
        Some (duration_ms_saturated (paired_at - ep_created_at client))
      })"

subsection \<open>Forwarding frames\<close>

definition drop_control_payload :: forward_report where
  "drop_control_payload = report 1 0 1"

text \<open>
  The first critical section of \<open>forward_client_to_daemon_data\<close>: what to do with a client's frame.
  The lock is released before the frame is buffered or sent.
\<close>

datatype client_target = ReportNow forward_report | BufferIt | DeliverTo conn_id sender

definition client_target_of :: "connection_registration \<Rightarrow> relay_registry \<Rightarrow> client_target" where
  "client_target_of reg g =
     (case hm_get (rg_rooms g) (cr_server_id reg) of
        None \<Rightarrow> ReportNow (report 0 0 0)
      | Some r \<Rightarrow>
          (case hm_get (rm_clients r) (cr_id reg) of
             None \<Rightarrow> ReportNow (report 1 0 1)
           | Some client \<Rightarrow>
               if ep_pre_pair_flush_in_progress client then BufferIt
               else (case ep_paired_daemon_data_id client of
                       None \<Rightarrow> BufferIt
                     | Some d \<Rightarrow>
                         (case hm_get (rm_daemon_data r) d of
                            None \<Rightarrow> ReportNow (report 1 0 1)
                          | Some dd \<Rightarrow> DeliverTo (ep_id dd) (ep_sender dd)))))"

definition buffer_unpaired_client_frame ::
  "(sender \<Rightarrow> relay_control_envelope \<Rightarrow> try_send) \<Rightarrow> instant \<Rightarrow> connection_registration \<Rightarrow> opaque_frame \<Rightarrow>
   relay_registry \<Rightarrow> forward_report \<times> relay_registry \<times> relay_effect list" where
  "buffer_unpaired_client_frame ctl now reg f g =
     (case hm_get (rg_rooms g) (cr_server_id reg) of
        None \<Rightarrow> (report 1 0 1, g, [])
      | Some r \<Rightarrow>
          (case buffer_client_frame (cr_id reg) f r of
             Some r1 \<Rightarrow> (report 1 1 0, set_room (cr_server_id reg) r1 g, [])
           | None \<Rightarrow>
               (let (close, r1, fx) = close_and_notify ctl now (cr_id reg) r
                in (report 1 0 1,
                    remove_room_if_empty (cr_server_id reg) (set_room (cr_server_id reg) r1 g), fx))))"

definition close_client_after_daemon_data_send_failure ::
  "instant \<Rightarrow> connection_registration \<Rightarrow> conn_id \<Rightarrow> relay_registry \<Rightarrow>
   forward_report \<times> relay_registry \<times> relay_effect list" where
  "close_client_after_daemon_data_send_failure now reg d g =
     (case hm_get (rg_rooms g) (cr_server_id reg) of
        None \<Rightarrow> (report 1 0 1, g, [])
      | Some r \<Rightarrow>
          (let (r1, fx) =
             (case hm_get (rm_daemon_data r) d of
                None \<Rightarrow> (r, [])
              | Some dd \<Rightarrow>
                  if ep_id dd = d
                  then (let (_, r1, fx) = close_client_transport now (cr_id reg) r in (r1, fx))
                  else (r, []))
           in (report 1 0 1,
               remove_room_if_empty (cr_server_id reg) (set_room (cr_server_id reg) r1 g), fx)))"

definition forward_client_to_daemon_data ::
  "(sender \<Rightarrow> relay_control_envelope \<Rightarrow> try_send) \<Rightarrow> (sender \<Rightarrow> opaque_frame \<Rightarrow> data_send) \<Rightarrow> instant \<Rightarrow>
   connection_registration \<Rightarrow> opaque_frame \<Rightarrow> relay_registry \<Rightarrow>
   forward_report \<times> relay_registry \<times> relay_effect list" where
  "forward_client_to_daemon_data ctl dat now reg f g =
     (case client_target_of reg g of
        ReportNow rep \<Rightarrow> (rep, g, [])
      | BufferIt \<Rightarrow> buffer_unpaired_client_frame ctl now reg f g
      | DeliverTo d s \<Rightarrow>
          if dat s f = DataOk then (report 1 1 0, g, [SendData s f])
          else close_client_after_daemon_data_send_failure now reg d g)"

definition client_daemon_data_sender :: "connection_registration \<Rightarrow> relay_registry \<Rightarrow> (conn_id \<times> sender) option" where
  "client_daemon_data_sender reg g =
     (if cr_role reg \<noteq> Client then None
      else do {
        r \<leftarrow> hm_get (rg_rooms g) (cr_server_id reg);
        client \<leftarrow> hm_get (rm_clients r) (cr_id reg);
        d \<leftarrow> ep_paired_daemon_data_id client;
        dd \<leftarrow> hm_get (rm_daemon_data r) d;
        Some (ep_id dd, ep_sender dd)
      })"

definition forward_client_to_daemon_data_backpressured ::
  "(sender \<Rightarrow> opaque_frame \<Rightarrow> data_send) \<Rightarrow> instant \<Rightarrow> connection_registration \<Rightarrow> opaque_frame \<Rightarrow>
   relay_registry \<Rightarrow> forward_report \<times> relay_registry \<times> relay_effect list" where
  "forward_client_to_daemon_data_backpressured dat now reg f g =
     (case client_daemon_data_sender reg g of
        None \<Rightarrow> (report 1 0 1, g, [])
      | Some (d, s) \<Rightarrow>
          if dat s f = DataOk then (report 1 1 0, g, [SendData s f])
          else close_client_after_daemon_data_send_failure now reg d g)"

definition take_pre_pair_client_frames ::
  "connection_registration \<Rightarrow> conn_id \<Rightarrow> relay_registry \<Rightarrow> (opaque_frame list \<times> sender \<times> relay_registry) option" where
  "take_pre_pair_client_frames reg cid g = do {
     r \<leftarrow> hm_get (rg_rooms g) (cr_server_id reg);
     dd \<leftarrow> hm_get (rm_daemon_data r) (cr_id reg);
     client \<leftarrow> hm_get (rm_clients r) cid;
     if ep_paired_daemon_data_id client \<noteq> Some (cr_id reg) then None
     else do {
       (frames, r1) \<leftarrow> drain_pre_pair_client_frames cid r;
       let r2 = (if frames = []
                 then (case hm_get (rm_clients r1) cid of
                         None \<Rightarrow> r1
                       | Some c1 \<Rightarrow>
                           if ep_paired_daemon_data_id c1 = Some (cr_id reg)
                           then r1\<lparr>rm_clients := hm_insert cid (c1\<lparr>ep_pre_pair_flush_in_progress := False\<rparr>)
                                     (rm_clients r1)\<rparr>
                           else r1)
                 else r1);
       Some (frames, ep_sender dd, set_room (cr_server_id reg) r2 g)
     }
   }"

definition close_client_after_pre_pair_flush_failure ::
  "(sender \<Rightarrow> relay_control_envelope \<Rightarrow> try_send) \<Rightarrow> instant \<Rightarrow> connection_registration \<Rightarrow> conn_id \<Rightarrow>
   relay_registry \<Rightarrow> relay_registry \<times> relay_effect list" where
  "close_client_after_pre_pair_flush_failure ctl now reg cid g =
     (case hm_get (rg_rooms g) (cr_server_id reg) of
        None \<Rightarrow> (g, [])
      | Some r \<Rightarrow>
          (let (_, r1, fx) = close_and_notify ctl now cid r
           in (remove_room_if_empty (cr_server_id reg) (set_room (cr_server_id reg) r1 g), fx)))"

text \<open>The inner loop of the flush: send until the first failure; the frames sent and the rest.\<close>

primrec send_frames ::
  "(sender \<Rightarrow> opaque_frame \<Rightarrow> data_send) \<Rightarrow> sender \<Rightarrow> opaque_frame list \<Rightarrow> opaque_frame list \<times> bool" where
  "send_frames dat s [] = ([], True)"
| "send_frames dat s (f # fs) =
     (if dat s f = DataOk then (let (sent, ok) = send_frames dat s fs in (f # sent, ok)) else ([], False))"

text \<open>
  \<open>flush_pre_pair_client_frames\<close> when no other operation runs in between. The fuel bounds the rounds
  of its loop; three are always enough.
\<close>

fun flush_loop ::
  "nat \<Rightarrow> (sender \<Rightarrow> relay_control_envelope \<Rightarrow> try_send) \<Rightarrow> (sender \<Rightarrow> opaque_frame \<Rightarrow> data_send) \<Rightarrow> instant \<Rightarrow>
   connection_registration \<Rightarrow> conn_id \<Rightarrow> relay_registry \<Rightarrow> (relay_registry \<times> relay_effect list) option" where
  "flush_loop 0 ctl dat now reg cid g = None"
| "flush_loop (Suc n) ctl dat now reg cid g =
     (case take_pre_pair_client_frames reg cid g of
        None \<Rightarrow> Some (g, [])
      | Some (frames, s, g1) \<Rightarrow>
          if frames = [] then Some (g1, [])
          else
            (let (sent, ok) = send_frames dat s frames;
                 (g2, fx) = (if ok then (g1, []) else close_client_after_pre_pair_flush_failure ctl now reg cid g1)
             in map_option (\<lambda>(g3, fx3). (g3, map (SendData s) sent @ fx @ fx3))
                  (flush_loop n ctl dat now reg cid g2)))"

definition flush_pre_pair_client_frames ::
  "(sender \<Rightarrow> relay_control_envelope \<Rightarrow> try_send) \<Rightarrow> (sender \<Rightarrow> opaque_frame \<Rightarrow> data_send) \<Rightarrow> instant \<Rightarrow>
   connection_registration \<Rightarrow> relay_registry \<Rightarrow> (relay_registry \<times> relay_effect list) option" where
  "flush_pre_pair_client_frames ctl dat now reg g =
     (if cr_role reg \<noteq> DaemonData then Some (g, [])
      else case cr_paired_client_id reg of
        None \<Rightarrow> Some (g, [])
      | Some cid \<Rightarrow> flush_loop 3 ctl dat now reg cid g)"

text \<open>The first critical section of \<open>forward_daemon_data_to_client\<close>.\<close>

definition data_target_of ::
  "connection_registration \<Rightarrow> relay_registry \<Rightarrow> forward_report + conn_id \<times> sender" where
  "data_target_of reg g =
     (case hm_get (rg_rooms g) (cr_server_id reg) of
        None \<Rightarrow> Inl (report 0 0 0)
      | Some r \<Rightarrow>
          (case hm_get (rm_daemon_data r) (cr_id reg) of
             None \<Rightarrow> Inl (report 1 0 1)
           | Some dd \<Rightarrow>
               (case ep_paired_client_id dd of
                  None \<Rightarrow> Inl (report 1 0 1)
                | Some cid \<Rightarrow>
                    (case hm_get (rm_clients r) cid of
                       None \<Rightarrow> Inl (report 1 0 1)
                     | Some client \<Rightarrow>
                         if ep_paired_daemon_data_id client \<noteq> Some (cr_id reg) then Inl (report 1 0 1)
                         else Inr (cid, ep_sender client)))))"

definition forward_daemon_data_to_client ::
  "(sender \<Rightarrow> relay_control_envelope \<Rightarrow> try_send) \<Rightarrow> (sender \<Rightarrow> opaque_frame \<Rightarrow> data_send) \<Rightarrow> instant \<Rightarrow>
   connection_registration \<Rightarrow> opaque_frame \<Rightarrow> relay_registry \<Rightarrow>
   forward_report \<times> relay_registry \<times> relay_effect list" where
  "forward_daemon_data_to_client ctl dat now reg f g =
     (case data_target_of reg g of
        Inl rep \<Rightarrow> (rep, g, [])
      | Inr (cid, s) \<Rightarrow>
          if dat s f = DataOk then (report 1 1 0, g, [SendData s f])
          else (let (g1, fx) = close_client_after_pre_pair_flush_failure ctl now reg cid g
                in (report 1 0 1, g1, fx)))"

definition forward_from ::
  "(sender \<Rightarrow> relay_control_envelope \<Rightarrow> try_send) \<Rightarrow> (sender \<Rightarrow> opaque_frame \<Rightarrow> data_send) \<Rightarrow> instant \<Rightarrow>
   connection_registration \<Rightarrow> opaque_frame \<Rightarrow> relay_registry \<Rightarrow>
   forward_report \<times> relay_registry \<times> relay_effect list" where
  "forward_from ctl dat now reg f g =
     (case cr_role reg of
        DaemonControl \<Rightarrow> (drop_control_payload, g, [])
      | DaemonData \<Rightarrow> forward_daemon_data_to_client ctl dat now reg f g
      | Client \<Rightarrow> forward_client_to_daemon_data ctl dat now reg f g)"

definition queue_pong_for_registration ::
  "(sender \<Rightarrow> u8 list \<Rightarrow> try_send) \<Rightarrow> connection_registration \<Rightarrow> u8 list \<Rightarrow> relay_registry \<Rightarrow>
   relay_forward_outcome" where
  "queue_pong_for_registration pong reg payload g =
     (let s = Option.bind (hm_get (rg_rooms g) (cr_server_id reg)) (\<lambda>r.
            case cr_role reg of
              DaemonControl \<Rightarrow>
                Option.bind (rm_daemon_control r) (\<lambda>e. if ep_id e = cr_id reg then Some (ep_sender e) else None)
            | DaemonData \<Rightarrow> map_option ep_sender (hm_get (rm_daemon_data r) (cr_id reg))
            | Client \<Rightarrow> map_option ep_sender (hm_get (rm_clients r) (cr_id reg)))
      in case s of
           None \<Rightarrow> close_with (report 1 0 1)
         | Some sn \<Rightarrow> if pong sn payload = Sent then continue_with (report 1 1 0) else close_with (report 1 0 1))"

end
