(* ===== verification/Relay_Inv.thy ===== *)
theory Relay_Inv
  imports Relay_Registry
begin

text \<open>
  The invariant of the relay's routing table and its preservation by every critical section. The
  operations of \<open>relay_op\<close> are exactly the critical sections of the registry, so a sequence of them
  is an arbitrary interleaving of the connections' tasks.
\<close>

section \<open>The invariant\<close>

definition buffer_ok :: "pre_pair_buffer \<Rightarrow> bool" where
  "buffer_ok b \<longleftrightarrow> pp_bytes b = sum_list (map frame_len (pp_frames b)) \<and>
     length (pp_frames b) \<le> pre_pair_client_buffer_max_frames \<and>
     pp_bytes b \<le> pre_pair_client_buffer_max_bytes"

abbreviation buffered_bytes :: "connection_endpoint \<Rightarrow> usize" where
  "buffered_bytes c \<equiv> pp_bytes (ep_pre_pair_buffer c)"

definition client_ok :: "conn_id \<Rightarrow> conn_id \<Rightarrow> connection_endpoint \<Rightarrow> bool" where
  "client_ok n c e \<longleftrightarrow> ep_id e = c \<and> c \<le> n \<and> buffer_ok (ep_pre_pair_buffer e) \<and>
     ep_data_token e \<noteq> None \<and> ep_paired_client_id e = None \<and>
     (ep_pre_pair_flush_in_progress e \<longrightarrow> ep_paired_daemon_data_id e \<noteq> None)"

definition data_ok :: "conn_id \<Rightarrow> conn_id \<Rightarrow> connection_endpoint \<Rightarrow> bool" where
  "data_ok n d e \<longleftrightarrow> ep_id e = d \<and> d \<le> n \<and> ep_paired_client_id e \<noteq> None"

text \<open>Clients and data pipes are paired one to one.\<close>

definition paired_ok :: "relay_room \<Rightarrow> bool" where
  "paired_ok r \<longleftrightarrow> (\<forall>c d.
     (\<exists>e. hm_get (rm_clients r) c = Some e \<and> ep_paired_daemon_data_id e = Some d) \<longleftrightarrow>
     (\<exists>e. hm_get (rm_daemon_data r) d = Some e \<and> ep_paired_client_id e = Some c))"

definition room_ok :: "conn_id \<Rightarrow> relay_room \<Rightarrow> bool" where
  "room_ok n r \<longleftrightarrow>
     hm_wf (rm_clients r) \<and> hm_wf (rm_daemon_data r) \<and>
     (\<forall>c e. hm_get (rm_clients r) c = Some e \<longrightarrow> client_ok n c e) \<and>
     (\<forall>d e. hm_get (rm_daemon_data r) d = Some e \<longrightarrow> data_ok n d e) \<and>
     paired_ok r \<and>
     rm_pre_pair_client_bytes r = hm_sum buffered_bytes (rm_clients r) \<and>
     rm_pre_pair_client_bytes r \<le> pre_pair_room_buffer_max_bytes \<and>
     pending_client_count r \<le> pending_clients_per_room_limit \<and>
     (rm_daemon_control r = None \<longrightarrow>
        rm_clients r = [] \<and> rm_daemon_data r = [] \<and> rm_route_generation r = None) \<and>
     (rm_daemon_control r \<noteq> None \<longrightarrow> rm_route_generation r \<noteq> None)"

definition registry_ok :: "relay_registry \<Rightarrow> bool" where
  "registry_ok g \<longleftrightarrow> hm_wf (rg_rooms g) \<and>
     (\<forall>sid r. hm_get (rg_rooms g) sid = Some r \<longrightarrow> room_ok (rg_next_connection_id g) r)"

declare map_of_eq_Some_iff [simp del] Some_eq_map_of_iff [simp del]

lemma client_ok_mono: "client_ok n c e \<Longrightarrow> n \<le> m \<Longrightarrow> client_ok m c e"
  by (simp add: client_ok_def)

lemma data_ok_mono: "data_ok n c e \<Longrightarrow> n \<le> m \<Longrightarrow> data_ok m c e"
  by (simp add: data_ok_def)

lemma room_ok_mono: "room_ok n r \<Longrightarrow> n \<le> m \<Longrightarrow> room_ok m r"
  unfolding room_ok_def by (blast intro: client_ok_mono data_ok_mono)

lemma buffer_ok_empty [simp]: "buffer_ok empty_buffer"
  by (simp add: buffer_ok_def empty_buffer_def)

lemma empty_buffer_fields [simp]: "pp_bytes empty_buffer = 0" "pp_frames empty_buffer = []"
  by (simp_all add: empty_buffer_def)

lemma room_ok_default [simp]: "room_ok n room_default"
  by (simp add: room_ok_def room_default_def paired_ok_def pending_client_count_def hm_count_def)

section \<open>Closing\<close>

lemma close_one_client_room:
  "\<exists>ds. fst (close_one_client e (r, fx)) = r\<lparr>rm_daemon_data := ds\<rparr>"
proof -
  have "\<exists>ds. r = r\<lparr>rm_daemon_data := ds\<rparr>" by (rule exI [of _ "rm_daemon_data r"]) simp
  then show ?thesis
    by (auto simp: close_one_client_def split: prod.splits option.splits)
qed

lemma close_fold_room:
  "\<exists>ds. fst (fold close_one_client es (r, fx)) = r\<lparr>rm_daemon_data := ds\<rparr>"
proof (induction es arbitrary: r fx)
  case Nil
  show ?case by (rule exI [of _ "rm_daemon_data r"]) simp
next
  case (Cons e es)
  obtain r1 fx1 where s: "close_one_client e (r, fx) = (r1, fx1)" by fastforce
  with close_one_client_room [of e r fx] obtain ds where r1: "r1 = r\<lparr>rm_daemon_data := ds\<rparr>" by auto
  from Cons [of r1 fx1] s r1 show ?case by auto
qed

lemma close_clients_room:
  "fst (close_clients r) = r\<lparr>rm_clients := [], rm_daemon_data := [], rm_pre_pair_client_bytes := 0\<rparr>"
proof -
  obtain ds where "fst (fold close_one_client (rm_clients r) (r\<lparr>rm_clients := []\<rparr>, [])) =
      r\<lparr>rm_clients := [], rm_daemon_data := ds\<rparr>"
    using close_fold_room [of "rm_clients r" "r\<lparr>rm_clients := []\<rparr>" "[]"] by auto
  then show ?thesis
    by (cases r) (auto simp: close_clients_def split: prod.splits)
qed

lemma clear_room: "fst (clear_daemon_control_and_dependents r) = room_default"
  using close_clients_room [of "r\<lparr>rm_daemon_control := None, rm_route_generation := None\<rparr>"]
  by (cases r) (auto simp: clear_daemon_control_and_dependents_def room_default_def split: prod.splits)

text \<open>What closing one client does to the room.\<close>

definition without_client :: "conn_id \<Rightarrow> connection_endpoint \<Rightarrow> relay_room \<Rightarrow> relay_room" where
  "without_client c e r =
     r\<lparr>rm_clients := hm_remove c (rm_clients r),
       rm_pre_pair_client_bytes := rm_pre_pair_client_bytes r - buffered_bytes e,
       rm_daemon_data := (case ep_paired_daemon_data_id e of
          None \<Rightarrow> rm_daemon_data r | Some d \<Rightarrow> hm_remove d (rm_daemon_data r))\<rparr>"

lemma close_client_room:
  "fst (snd (close_client_transport now c r)) =
     (case hm_get (rm_clients r) c of None \<Rightarrow> r | Some e \<Rightarrow> without_client c e r)"
  by (cases r)
     (auto simp: close_client_transport_def without_client_def release_client_pre_pair_bytes_def Let_def
       hm_remove_absent split: option.splits)

lemma room_ok_without_client:
  assumes ok: "room_ok n r" and e: "hm_get (rm_clients r) c = Some e"
  shows "room_ok n (without_client c e r)"
proof -
  let ?r = "without_client c e r"
  have wf: "hm_wf (rm_clients r)" "hm_wf (rm_daemon_data r)" using ok by (auto simp: room_ok_def)
  have data: "hm_get (rm_daemon_data ?r) d =
      (if ep_paired_daemon_data_id e = Some d then None else hm_get (rm_daemon_data r) d)" for d
    by (auto simp: without_client_def split: option.splits)
  have clients: "rm_clients ?r = hm_remove c (rm_clients r)" by (simp add: without_client_def)
  have sum: "hm_sum buffered_bytes (hm_remove c (rm_clients r)) + buffered_bytes e =
      hm_sum buffered_bytes (rm_clients r)"
    by (rule hm_sum_remove [OF wf(1) e])
  have "paired_ok ?r"
    unfolding paired_ok_def
  proof (intro allI)
    fix a d
    have old: "\<And>a d. (\<exists>e. hm_get (rm_clients r) a = Some e \<and> ep_paired_daemon_data_id e = Some d) \<longleftrightarrow>
        (\<exists>e. hm_get (rm_daemon_data r) d = Some e \<and> ep_paired_client_id e = Some a)"
      using ok by (auto simp: room_ok_def paired_ok_def)
    show "(\<exists>e. hm_get (rm_clients ?r) a = Some e \<and> ep_paired_daemon_data_id e = Some d) \<longleftrightarrow>
        (\<exists>e. hm_get (rm_daemon_data ?r) d = Some e \<and> ep_paired_client_id e = Some a)"
      using old [of a d] old [of c d] e unfolding data clients by auto
  qed
  moreover have "pending_client_count ?r \<le> pending_client_count r"
    unfolding pending_client_count_def clients hm_count_as_sum
    using hm_sum_remove [OF wf(1) e, of "\<lambda>v. if ep_paired_daemon_data_id v = None then 1 else 0"] by simp
  ultimately show ?thesis
    using ok sum wf data clients e unfolding room_ok_def
    by (auto simp: without_client_def split: option.splits if_splits)
qed

lemma room_ok_close_client:
  "room_ok n r \<Longrightarrow> room_ok n (fst (snd (close_client_transport now c r)))"
  by (auto simp: close_client_room room_ok_without_client split: option.splits)

lemma close_client_control:
  "rm_daemon_control (fst (snd (close_client_transport now c r))) = rm_daemon_control r"
  by (simp add: close_client_room without_client_def split: option.splits)

lemma room_ok_notify:
  "room_ok n r \<Longrightarrow> room_ok n (fst (notify_client_disconnected_to_control ctl c r))"
  by (auto simp: notify_client_disconnected_to_control_def clear_room split: option.splits)

lemma room_ok_close_and_notify:
  "room_ok n r \<Longrightarrow> room_ok n (fst (snd (close_and_notify ctl now c r)))"
  by (simp add: close_and_notify_def Let_def case_prod_beta room_ok_close_client room_ok_notify)

section \<open>Updating one client\<close>

text \<open>Replacing a client by one with the same pairing keeps the room's maps consistent.\<close>

lemma room_ok_update_client:
  assumes ok: "room_ok n r" and e: "hm_get (rm_clients r) c = Some e" and e': "client_ok n c e'"
    and pair: "ep_paired_daemon_data_id e' = ep_paired_daemon_data_id e"
    and bytes: "b + buffered_bytes e = rm_pre_pair_client_bytes r + buffered_bytes e'"
    and bound: "b \<le> pre_pair_room_buffer_max_bytes"
  shows "room_ok n (r\<lparr>rm_clients := hm_insert c e' (rm_clients r), rm_pre_pair_client_bytes := b\<rparr>)"
proof -
  let ?m = "hm_insert c e' (rm_clients r)"
  have wf: "hm_wf (rm_clients r)" using ok by (simp add: room_ok_def)
  have sum: "hm_sum f ?m + f e = hm_sum f (rm_clients r) + f e'" for f
    by (rule hm_sum_insert_present [OF wf e])
  have "hm_sum buffered_bytes ?m = b"
    using sum [of buffered_bytes] bytes ok by (simp add: room_ok_def)
  moreover have "hm_count (\<lambda>c. ep_paired_daemon_data_id c = None) ?m =
      hm_count (\<lambda>c. ep_paired_daemon_data_id c = None) (rm_clients r)"
    using sum [of "\<lambda>v. if ep_paired_daemon_data_id v = None then 1 else 0"] pair
    by (simp add: hm_count_as_sum)
  moreover have "paired_ok (r\<lparr>rm_clients := ?m, rm_pre_pair_client_bytes := b\<rparr>)"
  proof -
    have "(\<exists>x. hm_get ?m a = Some x \<and> ep_paired_daemon_data_id x = Some d) \<longleftrightarrow>
        (\<exists>x. hm_get (rm_clients r) a = Some x \<and> ep_paired_daemon_data_id x = Some d)" for a d
      using e pair by auto
    then show ?thesis using ok by (simp add: room_ok_def paired_ok_def)
  qed
  moreover have "rm_daemon_control r \<noteq> None" using ok e by (auto simp: room_ok_def)
  ultimately show ?thesis
    using ok e' bound by (auto simp: room_ok_def pending_client_count_def)
qed

lemma buffer_push_ok:
  assumes "buffer_ok b" "buffer_push f b = Some b'"
  shows "buffer_ok b' \<and> pp_bytes b' = pp_bytes b + frame_len f \<and> pp_frames b' = pp_frames b @ [f]"
proof -
  have "sat_add64 (pp_bytes b) (frame_len f) \<le> pre_pair_client_buffer_max_bytes"
    using assms(2) by (simp add: buffer_push_def split: if_splits)
  then have "sat_add64 (pp_bytes b) (frame_len f) = pp_bytes b + frame_len f"
    by (simp add: sat_add64_def pre_pair_client_buffer_max_bytes_def u64_max_def split: if_splits)
  with assms show ?thesis by (auto simp: buffer_push_def buffer_ok_def split: if_splits)
qed

lemma buffer_client_frame_ok:
  assumes ok: "room_ok n r" and r': "buffer_client_frame c f r = Some r'"
  shows "room_ok n r' \<and> (\<exists>e b. hm_get (rm_clients r) c = Some e \<and>
    pp_frames b = pp_frames (ep_pre_pair_buffer e) @ [f] \<and>
    rm_clients r' = hm_insert c (e\<lparr>ep_pre_pair_buffer := b\<rparr>) (rm_clients r) \<and>
    rm_daemon_data r' = rm_daemon_data r)"
proof -
  obtain e b where e: "hm_get (rm_clients r) c = Some e"
    and b: "buffer_push f (ep_pre_pair_buffer e) = Some b"
    and le: "sat_add64 (rm_pre_pair_client_bytes r) (frame_len f) \<le> pre_pair_room_buffer_max_bytes"
    and r'_eq: "r' = r\<lparr>rm_clients := hm_insert c (e\<lparr>ep_pre_pair_buffer := b\<rparr>) (rm_clients r),
      rm_pre_pair_client_bytes := sat_add64 (rm_pre_pair_client_bytes r) (frame_len f)\<rparr>"
    using r' by (auto simp: buffer_client_frame_def split: option.splits if_splits)
  have ce: "client_ok n c e" using ok e by (simp add: room_ok_def)
  then have bo: "buffer_ok b" "pp_bytes b = buffered_bytes e + frame_len f"
    "pp_frames b = pp_frames (ep_pre_pair_buffer e) @ [f]"
    using buffer_push_ok [OF _ b] by (auto simp: client_ok_def)
  have sat: "sat_add64 (rm_pre_pair_client_bytes r) (frame_len f) = rm_pre_pair_client_bytes r + frame_len f"
    using le by (simp add: sat_add64_def pre_pair_room_buffer_max_bytes_def
        pre_pair_client_buffer_max_bytes_def u64_max_def split: if_splits)
  have "room_ok n r'"
    unfolding r'_eq
    by (rule room_ok_update_client [OF ok e]) (use ce bo le sat in \<open>auto simp: client_ok_def\<close>)
  with e bo(3) show ?thesis by (auto simp: r'_eq)
qed

lemma drain_ok:
  assumes ok: "room_ok n r" and d: "drain_pre_pair_client_frames c r = Some (fs, r')"
  shows "room_ok n r' \<and> (\<exists>e. hm_get (rm_clients r) c = Some e \<and> fs = pp_frames (ep_pre_pair_buffer e) \<and>
    rm_clients r' = hm_insert c (e\<lparr>ep_pre_pair_buffer := empty_buffer\<rparr>) (rm_clients r) \<and>
    rm_daemon_data r' = rm_daemon_data r)"
proof -
  obtain e where e: "hm_get (rm_clients r) c = Some e" "fs = pp_frames (ep_pre_pair_buffer e)"
    and r': "r' = r\<lparr>rm_clients := hm_insert c (e\<lparr>ep_pre_pair_buffer := empty_buffer\<rparr>) (rm_clients r),
      rm_pre_pair_client_bytes := rm_pre_pair_client_bytes r - buffered_bytes e\<rparr>"
    using d by (auto simp: drain_pre_pair_client_frames_def buffer_drain_def Let_def split: option.splits)
  have ce: "client_ok n c e" using ok e by (simp add: room_ok_def)
  have "buffered_bytes e \<le> rm_pre_pair_client_bytes r"
    using ok hm_sum_ge [OF e(1), of buffered_bytes] by (simp add: room_ok_def)
  then have "room_ok n r'"
    unfolding r'
    by (intro room_ok_update_client [OF ok e(1)])
       (use ce ok in \<open>auto simp: client_ok_def room_ok_def\<close>)
  with e show ?thesis by (auto simp: r')
qed

lemma room_ok_end_flush:
  assumes "room_ok n r" "hm_get (rm_clients r) c = Some e"
  shows "room_ok n (r\<lparr>rm_clients := hm_insert c (e\<lparr>ep_pre_pair_flush_in_progress := False\<rparr>) (rm_clients r)\<rparr>)"
proof -
  have "room_ok n (r\<lparr>rm_clients := hm_insert c (e\<lparr>ep_pre_pair_flush_in_progress := False\<rparr>) (rm_clients r),
      rm_pre_pair_client_bytes := rm_pre_pair_client_bytes r\<rparr>)"
    by (rule room_ok_update_client [OF assms]) (use assms in \<open>auto simp: room_ok_def client_ok_def\<close>)
  then show ?thesis by (cases r) simp
qed

section \<open>Registering\<close>

text \<open>A number above the counter is not in use.\<close>

lemma room_ok_fresh:
  assumes "room_ok n r" "n < i"
  shows "hm_get (rm_clients r) i = None" "hm_get (rm_daemon_data r) i = None"
proof -
  have "client_ok n i e \<Longrightarrow> False" "data_ok n i e \<Longrightarrow> False" for e
    using assms(2) by (auto simp: client_ok_def data_ok_def)
  then show "hm_get (rm_clients r) i = None" "hm_get (rm_daemon_data r) i = None"
    using assms(1) unfolding room_ok_def by (metis not_None_eq)+
qed

lemma room_ok_register_control:
  assumes "room_ok n r" "gen \<noteq> None"
  shows "room_ok n (fst (register_daemon_control now i s gen r))"
proof (cases "rm_daemon_control r")
  case None
  with assms show ?thesis
    by (auto simp: register_daemon_control_def room_ok_def paired_ok_def pending_client_count_def)
next
  case (Some stale)
  then have "fst (register_daemon_control now i s gen r) =
      (fst (close_clients (r\<lparr>rm_daemon_control := Some (endpoint_new now i s)\<rparr>)))\<lparr>rm_route_generation := gen\<rparr>"
    by (simp add: register_daemon_control_def Let_def case_prod_beta)
  with assms(2) show ?thesis
    by (simp add: close_clients_room room_ok_def paired_ok_def pending_client_count_def hm_count_def)
qed

lemma room_ok_register_data:
  assumes ok: "room_ok n r" and r': "register_daemon_data now i s p r = Inr (r', fx)" and i: "n < i"
  shows "room_ok i r'"
proof -
  obtain c e where e: "hm_get (rm_clients r) c = Some e" "ep_paired_daemon_data_id e = None"
    and r'_eq: "r' = r\<lparr>rm_clients := hm_insert c (e\<lparr>ep_paired_daemon_data_id := Some i, ep_paired_at := Some now,
          ep_pre_pair_flush_in_progress := (pp_frames (ep_pre_pair_buffer e) \<noteq> [])\<rparr>) (rm_clients r),
        rm_daemon_data := hm_insert i (new_daemon_data now i s c) (rm_daemon_data r)\<rparr>"
    using r' by (auto simp: register_daemon_data_def split: if_splits option.splits)
  let ?e = "e\<lparr>ep_paired_daemon_data_id := Some i, ep_paired_at := Some now,
      ep_pre_pair_flush_in_progress := (pp_frames (ep_pre_pair_buffer e) \<noteq> [])\<rparr>"
  let ?m = "hm_insert c ?e (rm_clients r)"
  have wf: "hm_wf (rm_clients r)" using ok by (simp add: room_ok_def)
  have fresh: "hm_get (rm_daemon_data r) i = None"
    by (rule room_ok_fresh(2) [OF ok i])
  have old: "\<And>a d. (\<exists>e. hm_get (rm_clients r) a = Some e \<and> ep_paired_daemon_data_id e = Some d) \<longleftrightarrow>
      (\<exists>e. hm_get (rm_daemon_data r) d = Some e \<and> ep_paired_client_id e = Some a)"
    using ok by (auto simp: room_ok_def paired_ok_def)
  have no_i: "ep_paired_daemon_data_id x \<noteq> Some i" if "hm_get (rm_clients r) a = Some x" for a x
    using old [of a i] fresh that by auto
  have no_c: "ep_paired_client_id x \<noteq> Some c" if "hm_get (rm_daemon_data r) d = Some x" for d x
    using old [of c d] e that by auto
  have pair: "paired_ok r'"
    unfolding paired_ok_def r'_eq
    using old e no_i no_c fresh by (auto simp: new_daemon_data_def endpoint_new_def)
  have sum: "hm_sum f ?m + f e = hm_sum f (rm_clients r) + f ?e" for f
    by (rule hm_sum_insert_present [OF wf e(1)])
  have bytes: "hm_sum buffered_bytes ?m = hm_sum buffered_bytes (rm_clients r)"
    using sum [of buffered_bytes] by simp
  have count: "pending_client_count r' \<le> pending_client_count r"
    using sum [of "\<lambda>v. if ep_paired_daemon_data_id v = None then 1 else 0"] e(2)
    by (simp add: pending_client_count_def hm_count_as_sum r'_eq)
  have ctrl: "rm_daemon_control r \<noteq> None" using ok e by (auto simp: room_ok_def)
  have "client_ok n c e" using ok e by (simp add: room_ok_def)
  then have ce: "client_ok i c ?e" using i by (auto simp: client_ok_def)
  have "room_ok i r" by (rule room_ok_mono [OF ok]) (use i in simp)
  with pair bytes count ctrl ce show ?thesis
    by (auto simp: room_ok_def r'_eq data_ok_def new_daemon_data_def endpoint_new_def)
qed

lemma room_ok_add_client:
  assumes ok: "room_ok n r" and i: "n < i" and ctrl: "rm_daemon_control r \<noteq> None"
    and room: "pending_client_count r < pending_clients_per_room_limit"
  shows "room_ok i (r\<lparr>rm_clients := hm_insert i (new_client now i s tok) (rm_clients r)\<rparr>)"
    and "pending_client_count (r\<lparr>rm_clients := hm_insert i (new_client now i s tok) (rm_clients r)\<rparr>) =
      pending_client_count r + 1"
proof -
  let ?c = "new_client now i s tok"
  let ?m = "hm_insert i ?c (rm_clients r)"
  have absent: "hm_get (rm_clients r) i = None"
    by (rule room_ok_fresh(1) [OF ok i])
  have sum: "hm_sum f ?m = hm_sum f (rm_clients r) + f ?c" for f
    by (rule hm_sum_insert_absent [OF absent])
  show count: "pending_client_count (r\<lparr>rm_clients := ?m\<rparr>) = pending_client_count r + 1"
    using sum by (simp add: pending_client_count_def hm_count_as_sum new_client_def endpoint_new_def)
  have no_i: "ep_paired_client_id x \<noteq> Some i" if "hm_get (rm_daemon_data r) d = Some x" for d x
  proof
    assume "ep_paired_client_id x = Some i"
    moreover have "(\<exists>e. hm_get (rm_clients r) i = Some e \<and> ep_paired_daemon_data_id e = Some d) \<longleftrightarrow>
        (\<exists>e. hm_get (rm_daemon_data r) d = Some e \<and> ep_paired_client_id e = Some i)"
      using ok by (auto simp: room_ok_def paired_ok_def)
    ultimately show False using that absent by auto
  qed
  then have "paired_ok (r\<lparr>rm_clients := ?m\<rparr>)"
    using ok absent by (auto simp: room_ok_def paired_ok_def new_client_def endpoint_new_def)
  moreover have "client_ok i i ?c" by (simp add: client_ok_def new_client_def endpoint_new_def)
  moreover have "buffered_bytes ?c = 0" by (simp add: new_client_def endpoint_new_def)
  moreover have "room_ok i r" by (rule room_ok_mono [OF ok]) (use i in simp)
  ultimately show "room_ok i (r\<lparr>rm_clients := ?m\<rparr>)"
    using sum [of buffered_bytes] room ctrl count by (auto simp: room_ok_def)
qed

lemma room_ok_register_client:
  assumes ok: "room_ok n r" and i: "n < i"
  shows "room_ok i (fst (snd (register_client ctl uuid now i s kind access r)))"
proof -
  have mono: "room_ok i r" by (rule room_ok_mono [OF ok]) (use i in simp)
  show ?thesis
  proof (cases "pending_client_count r \<ge> pending_clients_per_room_limit \<or> rm_daemon_control r = None")
    case True
    then show ?thesis using mono by (auto simp: register_client_def split: option.splits)
  next
    case False
    then have a: "rm_daemon_control r \<noteq> None" "pending_client_count r < pending_clients_per_room_limit" by auto
    then obtain control where control: "rm_daemon_control r = Some control" by auto
    note add = room_ok_add_client [OF ok i a, of now s "data_token_for uuid i"]
    show ?thesis
      using control a(2) add(2)
      by (cases "ctl (ep_sender control) (OpenData i (data_token_for uuid i) kind access)")
         (simp_all add: register_client_def Let_def case_prod_beta add(1) room_ok_close_client clear_room)
  qed
qed

section \<open>The registry\<close>

lemma registry_ok_default: "registry_ok registry_default"
  by (simp add: registry_ok_def registry_default_def)

lemma registry_ok_room: "registry_ok g \<Longrightarrow> hm_get (rg_rooms g) sid = Some r \<Longrightarrow> room_ok (rg_next_connection_id g) r"
  by (simp add: registry_ok_def)

lemma registry_ok_set_room:
  "registry_ok g \<Longrightarrow> room_ok (rg_next_connection_id g) r \<Longrightarrow> registry_ok (set_room sid r g)"
  by (simp add: registry_ok_def)

lemma registry_ok_remove_if_empty: "registry_ok g \<Longrightarrow> registry_ok (remove_room_if_empty sid g)"
  by (auto simp: registry_ok_def remove_room_if_empty_def split: option.splits)

lemma next_id_remove_if_empty [simp]:
  "rg_next_connection_id (remove_room_if_empty sid g) = rg_next_connection_id g"
  by (simp add: remove_room_if_empty_def split: option.splits)

lemma registry_ok_bump: "registry_ok g \<Longrightarrow> rg_next_connection_id g \<le> i \<Longrightarrow> registry_ok (g\<lparr>rg_next_connection_id := i\<rparr>)"
  by (auto simp: registry_ok_def intro: room_ok_mono)

lemma registry_ok_close_server: "registry_ok g \<Longrightarrow> registry_ok (fst (snd (close_server sid g)))"
  by (auto simp: registry_ok_def close_server_def split: option.splits prod.splits)

lemma registry_ok_unregister:
  assumes "registry_ok g" shows "registry_ok (fst (unregister ctl now reg g))"
proof (cases "hm_get (rg_rooms g) (cr_server_id reg)")
  case None
  then show ?thesis using assms by (simp add: unregister_def)
next
  case (Some r)
  let ?n = "rg_next_connection_id g"
  note ok = registry_ok_room [OF assms Some]
  obtain r' where r': "room_ok ?n r'"
    "fst (unregister ctl now reg g) = remove_room_if_empty (cr_server_id reg) (set_room (cr_server_id reg) r' g)"
  proof (cases "cr_role reg")
    case DaemonControl
    show ?thesis
      by (rule that [of "case rm_daemon_control r of None \<Rightarrow> r
          | Some c \<Rightarrow> if ep_id c = cr_id reg then room_default else r"])
         (use ok Some DaemonControl clear_room [of r] in
           \<open>auto simp: unregister_def Let_def case_prod_beta split: option.splits\<close>)
  next
    case Client
    then show ?thesis
      by (intro that [of "fst (snd (close_and_notify ctl now (cr_id reg) r))"])
         (use ok Some in \<open>auto simp: unregister_def Let_def case_prod_beta room_ok_close_and_notify\<close>)
  next
    case DaemonData
    show ?thesis
    proof (cases "hm_get (rm_daemon_data r) (cr_id reg)")
      case None
      then show ?thesis
        by (intro that [of r]) (use ok Some DaemonData in \<open>auto simp: unregister_def Let_def\<close>)
    next
      case dd: (Some dd)
      then have "ep_paired_client_id dd \<noteq> None" using ok by (auto simp: room_ok_def data_ok_def)
      then obtain c where c: "ep_paired_client_id dd = Some c" by auto
      with ok dd obtain e where e: "hm_get (rm_clients r) c = Some e" "ep_paired_daemon_data_id e = Some (cr_id reg)"
        unfolding room_ok_def paired_ok_def by blast
      let ?r1 = "r\<lparr>rm_daemon_data := hm_remove (cr_id reg) (rm_daemon_data r)\<rparr>"
      have "without_client c e ?r1 = without_client c e r"
        using e(2) by (simp add: without_client_def delete_idem)
      with room_ok_without_client [OF ok e(1)] have "room_ok ?n (without_client c e ?r1)" by simp
      moreover have "fst (snd (close_client_transport now c ?r1)) = without_client c e ?r1"
        using e(1) by (simp add: close_client_room)
      ultimately show ?thesis
        using Some DaemonData dd c e
        by (intro that [of "without_client c e ?r1"]) (auto simp: unregister_def Let_def case_prod_beta)
    qed
  qed
  then show ?thesis using assms by (simp add: registry_ok_remove_if_empty registry_ok_set_room)
qed

lemma registry_ok_register:
  assumes "registry_ok g" "rg_next_connection_id g < u64_max"
  shows "registry_ok (fst (snd (register_transport ctl uuid now p s kind access g)))"
    and "rg_next_connection_id (fst (snd (register_transport ctl uuid now p s kind access g))) =
      rg_next_connection_id g + 1"
proof -
  let ?i = "rg_next_connection_id g + 1" and ?sid = "rp_server_id p"
  let ?g = "g\<lparr>rg_next_connection_id := ?i\<rparr>"
  have i: "wrap_add64 (rg_next_connection_id g) 1 = ?i" using assms(2) by (simp add: wrap_add64_exact)
  have ok: "registry_ok ?g" by (rule registry_ok_bump [OF assms(1)]) simp
  note room = registry_ok_room [OF assms(1), of ?sid]
  note set = registry_ok_set_room [OF ok, of _ ?sid, simplified]
  have control: "room_ok ?i (fst (register_daemon_control now ?i s (rp_route_generation p)
      (case hm_get (rg_rooms g) ?sid of Some r \<Rightarrow> r | None \<Rightarrow> room_default)))"
    if "rp_route_generation p \<noteq> None"
    by (rule room_ok_register_control [OF _ that])
       (auto split: option.splits dest!: room intro: room_ok_mono)
  have data: "room_ok ?i r'" if "hm_get (rg_rooms g) ?sid = Some r" "register_daemon_data now ?i s p r = Inr (r', fx)"
    for r r' fx
    by (rule room_ok_register_data [OF room [OF that(1)] that(2)]) simp
  have client: "room_ok ?i (fst (snd (register_client ctl uuid now ?i s kind access r)))"
    if "hm_get (rg_rooms g) ?sid = Some r" for r
    by (rule room_ok_register_client [OF room [OF that]]) simp
  show "registry_ok (fst (snd (register_transport ctl uuid now p s kind access g)))"
    unfolding register_transport_def Let_def i
    using ok set control data client
    by (auto simp: case_prod_beta split: connection_role.splits option.splits sum.splits)
  show "rg_next_connection_id (fst (snd (register_transport ctl uuid now p s kind access g))) = ?i"
    unfolding register_transport_def Let_def i
    by (auto simp: case_prod_beta split: connection_role.splits option.splits sum.splits)
qed

lemma registry_ok_with_room:
  assumes "registry_ok g" "room_ok (rg_next_connection_id g) r"
  shows "registry_ok (remove_room_if_empty sid (set_room sid r g))"
  using assms by (simp add: registry_ok_remove_if_empty registry_ok_set_room)

lemma registry_ok_buffer:
  assumes "registry_ok g" shows "registry_ok (fst (snd (buffer_unpaired_client_frame ctl now reg f g)))"
proof (cases "hm_get (rg_rooms g) (cr_server_id reg)")
  case None
  then show ?thesis using assms by (simp add: buffer_unpaired_client_frame_def)
next
  case (Some r)
  note ok = registry_ok_room [OF assms Some]
  show ?thesis
  proof (cases "buffer_client_frame (cr_id reg) f r")
    case None
    then show ?thesis
      using Some room_ok_close_and_notify [OF ok] assms
      by (simp add: buffer_unpaired_client_frame_def Let_def case_prod_beta registry_ok_with_room)
  next
    case b: (Some r')
    then show ?thesis
      using Some buffer_client_frame_ok [OF ok b] assms
      by (simp add: buffer_unpaired_client_frame_def registry_ok_set_room)
  qed
qed

lemma registry_ok_send_failed:
  assumes "registry_ok g" shows "registry_ok (fst (snd (close_client_after_daemon_data_send_failure now reg d g)))"
proof (cases "hm_get (rg_rooms g) (cr_server_id reg)")
  case None
  then show ?thesis using assms by (simp add: close_client_after_daemon_data_send_failure_def)
next
  case (Some r)
  note ok = registry_ok_room [OF assms Some]
  show ?thesis
    using Some room_ok_close_client [OF ok] ok assms
    by (auto simp: close_client_after_daemon_data_send_failure_def Let_def case_prod_beta
        intro!: registry_ok_with_room split: option.splits)
qed

lemma registry_ok_flush_failed:
  assumes "registry_ok g" shows "registry_ok (fst (close_client_after_pre_pair_flush_failure ctl now reg c g))"
proof (cases "hm_get (rg_rooms g) (cr_server_id reg)")
  case None
  then show ?thesis using assms by (simp add: close_client_after_pre_pair_flush_failure_def)
next
  case (Some r)
  note ok = registry_ok_room [OF assms Some]
  show ?thesis
    using Some room_ok_close_and_notify [OF ok] assms
    by (auto simp: close_client_after_pre_pair_flush_failure_def Let_def case_prod_beta
        intro!: registry_ok_with_room)
qed

lemma registry_ok_close_pending:
  assumes "registry_ok g" shows "registry_ok (fst (snd (close_pending_client_if_unpaired ctl now reg g)))"
proof (cases "hm_get (rg_rooms g) (cr_server_id reg)")
  case None
  then show ?thesis using assms by (simp add: close_pending_client_if_unpaired_def)
next
  case (Some r)
  note ok = registry_ok_room [OF assms Some]
  show ?thesis
    using Some room_ok_close_and_notify [OF ok] assms
    by (auto simp: close_pending_client_if_unpaired_def Let_def case_prod_beta
        intro!: registry_ok_with_room split: option.splits)
qed

text \<open>One round of a flush: the frames come out in order, and the room stays consistent.\<close>

lemma take_frames_ok:
  assumes ok: "registry_ok g" and t: "take_pre_pair_client_frames reg c g = Some (fs, s, g')"
  shows "registry_ok g' \<and> rg_next_connection_id g' = rg_next_connection_id g \<and>
    (\<exists>r e dd r'. hm_get (rg_rooms g) (cr_server_id reg) = Some r \<and> hm_get (rm_clients r) c = Some e \<and>
       hm_get (rm_daemon_data r) (cr_id reg) = Some dd \<and> s = ep_sender dd \<and>
       ep_paired_daemon_data_id e = Some (cr_id reg) \<and> fs = pp_frames (ep_pre_pair_buffer e) \<and>
       g' = set_room (cr_server_id reg) r' g \<and> rm_daemon_data r' = rm_daemon_data r \<and>
       rm_clients r' = hm_insert c (e\<lparr>ep_pre_pair_buffer := empty_buffer,
         ep_pre_pair_flush_in_progress := (if fs = [] then False else ep_pre_pair_flush_in_progress e)\<rparr>) (rm_clients r))"
proof -
  obtain r dd e r1 where r: "hm_get (rg_rooms g) (cr_server_id reg) = Some r"
    and dd: "hm_get (rm_daemon_data r) (cr_id reg) = Some dd" and e: "hm_get (rm_clients r) c = Some e"
    and p: "ep_paired_daemon_data_id e = Some (cr_id reg)"
    and d: "drain_pre_pair_client_frames c r = Some (fs, r1)" and s: "s = ep_sender dd"
    and g': "g' = set_room (cr_server_id reg)
      (if fs = [] then (case hm_get (rm_clients r1) c of None \<Rightarrow> r1 | Some c1 \<Rightarrow>
          if ep_paired_daemon_data_id c1 = Some (cr_id reg)
          then r1\<lparr>rm_clients := hm_insert c (c1\<lparr>ep_pre_pair_flush_in_progress := False\<rparr>) (rm_clients r1)\<rparr> else r1)
       else r1) g"
    using t by (auto simp: take_pre_pair_client_frames_def Let_def bind_eq_Some_conv split: if_splits)
  note rok = registry_ok_room [OF ok r]
  from drain_ok [OF rok d] e have r1: "room_ok (rg_next_connection_id g) r1"
    "fs = pp_frames (ep_pre_pair_buffer e)" "rm_daemon_data r1 = rm_daemon_data r"
    "rm_clients r1 = hm_insert c (e\<lparr>ep_pre_pair_buffer := empty_buffer\<rparr>) (rm_clients r)"
    by auto
  then have c1: "hm_get (rm_clients r1) c = Some (e\<lparr>ep_pre_pair_buffer := empty_buffer\<rparr>)" by simp
  let ?e' = "e\<lparr>ep_pre_pair_buffer := empty_buffer, ep_pre_pair_flush_in_progress := False\<rparr>"
  let ?r' = "if fs = [] then r1\<lparr>rm_clients := hm_insert c ?e' (rm_clients r1)\<rparr> else r1"
  have "room_ok (rg_next_connection_id g) ?r'"
    using room_ok_end_flush [OF r1(1) c1] r1(1) by simp
  moreover have "g' = set_room (cr_server_id reg) ?r' g" using g' c1 p by simp
  moreover have "rm_clients ?r' = hm_insert c (e\<lparr>ep_pre_pair_buffer := empty_buffer,
      ep_pre_pair_flush_in_progress := (if fs = [] then False else ep_pre_pair_flush_in_progress e)\<rparr>) (rm_clients r)"
    by (simp add: r1(4) update_last)
  ultimately show ?thesis
    using ok r dd e p s r1(2,3) by (auto simp: registry_ok_set_room)
qed

section \<open>All interleavings\<close>

datatype relay_op =
    OpRegister "sender \<Rightarrow> relay_control_envelope \<Rightarrow> try_send" "u8 list" instant route_prelude sender
      relay_route_kind "u8 list option"
  | OpUnregister "sender \<Rightarrow> relay_control_envelope \<Rightarrow> try_send" instant connection_registration
  | OpCloseServer server_id
  | OpClosePending "sender \<Rightarrow> relay_control_envelope \<Rightarrow> try_send" instant connection_registration
  | OpBuffer "sender \<Rightarrow> relay_control_envelope \<Rightarrow> try_send" instant connection_registration opaque_frame
  | OpSendFailed instant connection_registration conn_id
  | OpTake connection_registration conn_id
  | OpFlushFailed "sender \<Rightarrow> relay_control_envelope \<Rightarrow> try_send" instant connection_registration conn_id

fun relay_exec :: "relay_op \<Rightarrow> relay_registry \<Rightarrow> relay_registry" where
  "relay_exec (OpRegister ctl uuid now p s kind access) g =
     fst (snd (register_transport ctl uuid now p s kind access g))"
| "relay_exec (OpUnregister ctl now reg) g = fst (unregister ctl now reg g)"
| "relay_exec (OpCloseServer sid) g = fst (snd (close_server sid g))"
| "relay_exec (OpClosePending ctl now reg) g = fst (snd (close_pending_client_if_unpaired ctl now reg g))"
| "relay_exec (OpBuffer ctl now reg f) g = fst (snd (buffer_unpaired_client_frame ctl now reg f g))"
| "relay_exec (OpSendFailed now reg d) g = fst (snd (close_client_after_daemon_data_send_failure now reg d g))"
| "relay_exec (OpTake reg c) g = (case take_pre_pair_client_frames reg c g of None \<Rightarrow> g | Some (fs, s, g') \<Rightarrow> g')"
| "relay_exec (OpFlushFailed ctl now reg c) g = fst (close_client_after_pre_pair_flush_failure ctl now reg c g)"

definition relay_run :: "relay_op list \<Rightarrow> relay_registry \<Rightarrow> relay_registry" where
  "relay_run = fold relay_exec"

lemma next_id_exec:
  "rg_next_connection_id g < u64_max \<Longrightarrow> rg_next_connection_id (relay_exec op g) \<le> rg_next_connection_id g + 1"
  by (cases op)
     (auto simp: register_transport_def unregister_def close_server_def close_pending_client_if_unpaired_def
       buffer_unpaired_client_frame_def close_client_after_daemon_data_send_failure_def
       close_client_after_pre_pair_flush_failure_def take_pre_pair_client_frames_def Let_def case_prod_beta
       wrap_add64_exact bind_eq_Some_conv split: connection_role.splits option.splits sum.splits)

lemma registry_ok_exec:
  assumes "registry_ok g" "rg_next_connection_id g < u64_max"
  shows "registry_ok (relay_exec op g)"
proof (cases op)
  case (OpTake reg c)
  then show ?thesis
    using assms take_frames_ok [OF assms(1)] by (auto split: option.splits)
qed (use assms in \<open>simp_all add: registry_ok_register registry_ok_unregister registry_ok_close_server
      registry_ok_close_pending registry_ok_buffer registry_ok_send_failed registry_ok_flush_failed\<close>)

lemma registry_ok_run:
  assumes "registry_ok g" "rg_next_connection_id g + length ops < u64_max"
  shows "registry_ok (relay_run ops g)"
  using assms unfolding relay_run_def
proof (induction ops arbitrary: g)
  case (Cons op ops)
  from Cons.prems have "registry_ok (relay_exec op g)" by (simp add: registry_ok_exec)
  moreover have "rg_next_connection_id (relay_exec op g) + length ops < u64_max"
    using next_id_exec [of g op] Cons.prems(2) by simp
  ultimately show ?case using Cons.IH by simp
qed simp

end
