(* ===== verification/Relay_Routing.thy ===== *)
theory Relay_Routing
  imports Relay_Inv
begin

text \<open>
  What the relay guarantees its connections: consistent rooms under every interleaving, pairing only
  with the right token and generation, no connection left open when its peer goes, and frames
  in order, with the one interleaving that breaks the order.
\<close>

section \<open>Connections that are closed\<close>

lemma close_fold_effects:
  "set fx \<subseteq> set (snd (fold close_one_client es (r, fx))) \<and>
   (\<forall>(c, e) \<in> set es. RequestClose (ep_sender e) \<in> set (snd (fold close_one_client es (r, fx)))) \<and>
   (\<forall>d dd. hm_get (rm_daemon_data r) d = Some dd \<longrightarrow>
      hm_get (rm_daemon_data (fst (fold close_one_client es (r, fx)))) d = Some dd \<or>
      RequestClose (ep_sender dd) \<in> set (snd (fold close_one_client es (r, fx))))"
proof (induction es arbitrary: r fx)
  case (Cons x es)
  obtain c e where x: "x = (c, e)" by fastforce
  obtain r1 fx1 where s: "close_one_client x (r, fx) = (r1, fx1)" by fastforce
  have s1: "set fx \<subseteq> set fx1" "RequestClose (ep_sender e) \<in> set fx1"
    using s x by (auto simp: close_one_client_def split: option.splits prod.splits)
  have s2: "hm_get (rm_daemon_data r1) d = Some dd \<or> RequestClose (ep_sender dd) \<in> set fx1"
    if "hm_get (rm_daemon_data r) d = Some dd" for d dd
    using s x that by (auto simp: close_one_client_def split: option.splits prod.splits)
  note IH = Cons.IH [where r = r1 and fx = fx1]
  have "fold close_one_client (x # es) (r, fx) = fold close_one_client es (r1, fx1)" using s by simp
  then show ?case using IH s1 s2 x by (auto; blast)
qed simp

lemma close_clients_effects:
  assumes "(\<exists>c. hm_get (rm_clients r) c = Some e) \<or> (\<exists>d. hm_get (rm_daemon_data r) d = Some e)"
  shows "RequestClose (ep_sender e) \<in> set (snd (close_clients r))"
proof -
  let ?f = "fold close_one_client (rm_clients r) (r\<lparr>rm_clients := []\<rparr>, [])"
  have eq: "snd (close_clients r) = snd ?f @ map (\<lambda>e. RequestClose (ep_sender (snd e))) (rm_daemon_data (fst ?f))"
    by (simp add: close_clients_def case_prod_beta Let_def)
  note fx = close_fold_effects [where es = "rm_clients r" and r = "r\<lparr>rm_clients := []\<rparr>" and fx = "[]"]
  from assms show ?thesis
  proof
    assume "\<exists>c. hm_get (rm_clients r) c = Some e"
    then show ?thesis using fx unfolding eq by (auto dest!: map_of_SomeD)
  next
    assume "\<exists>d. hm_get (rm_daemon_data r) d = Some e"
    then obtain d where "hm_get (rm_daemon_data r) d = Some e" by blast
    then have "hm_get (rm_daemon_data (fst ?f)) d = Some e \<or> RequestClose (ep_sender e) \<in> set (snd ?f)"
      using fx by simp
    then show ?thesis unfolding eq by (force dest: map_of_SomeD)
  qed
qed

text \<open>The connections of a room.\<close>

definition room_member :: "relay_room \<Rightarrow> connection_endpoint \<Rightarrow> bool" where
  "room_member r e \<longleftrightarrow> rm_daemon_control r = Some e \<or> (\<exists>c. hm_get (rm_clients r) c = Some e) \<or>
     (\<exists>d. hm_get (rm_daemon_data r) d = Some e)"

lemma clear_effects:
  assumes "room_member r e"
  shows "RequestClose (ep_sender e) \<in> set (snd (clear_daemon_control_and_dependents r))"
  using assms close_clients_effects [of "r\<lparr>rm_daemon_control := None, rm_route_generation := None\<rparr>" e]
  by (auto simp: room_member_def clear_daemon_control_and_dependents_def Let_def case_prod_beta)

section \<open>A small relay\<close>

text \<open>A daemon (connection 1), a client (connection 2) and the daemon's data pipe (connection 3).\<close>

definition all_sent :: "sender \<Rightarrow> relay_control_envelope \<Rightarrow> try_send" where
  "all_sent s m = Sent"

definition control_prelude :: route_prelude where
  "control_prelude = \<lparr>rp_server_id = 0, rp_connection_role = DaemonControl, rp_route_generation = Some [1],
     rp_client_id = None, rp_data_token = None\<rparr>"

definition client_prelude :: route_prelude where
  "client_prelude = \<lparr>rp_server_id = 0, rp_connection_role = Client, rp_route_generation = None,
     rp_client_id = None, rp_data_token = None\<rparr>"

definition data_prelude :: route_prelude where
  "data_prelude = \<lparr>rp_server_id = 0, rp_connection_role = DaemonData, rp_route_generation = Some [1],
     rp_client_id = Some 2, rp_data_token = Some (data_token_for [] 2)\<rparr>"

definition client_registration :: connection_registration where
  "client_registration = \<lparr>cr_server_id = 0, cr_role = Client, cr_id = 2, cr_route_generation = Some [1],
     cr_paired_client_id = None\<rparr>"

definition data_registration :: connection_registration where
  "data_registration = \<lparr>cr_server_id = 0, cr_role = DaemonData, cr_id = 3, cr_route_generation = Some [1],
     cr_paired_client_id = Some 2\<rparr>"

definition waiting_relay :: relay_registry where
  "waiting_relay = relay_run [OpRegister all_sent [] 0 control_prelude 10 Legacy None,
     OpRegister all_sent [] 0 client_prelude 20 Legacy None] registry_default"

definition waiting_client :: connection_endpoint where
  "waiting_client = new_client 0 2 20 (data_token_for [] 2)"

lemmas relay_eval =
  relay_run_def register_transport_def register_daemon_control_def register_daemon_data_def
  register_client_def Let_def registry_default_def room_default_def control_prelude_def client_prelude_def
  data_prelude_def client_registration_def data_registration_def all_sent_def wrap_add64_exact u64_max_def
  pending_client_count_def hm_count_def pending_clients_per_room_limit_def new_client_def new_daemon_data_def
  endpoint_new_def empty_buffer_def

lemma waiting_relay_eval:
  "waiting_relay = \<lparr>rg_rooms = [(0, \<lparr>rm_daemon_control = Some (endpoint_new 0 1 10), rm_route_generation = Some [1],
     rm_daemon_data = [], rm_clients = [(2, waiting_client)], rm_pre_pair_client_bytes = 0\<rparr>)],
     rg_next_connection_id = 2\<rparr>"
  by (simp add: waiting_relay_def waiting_client_def relay_eval numeral_2_eq_2)

section \<open>Properties\<close>

text \<open>
  C36. The routing table is consistent under every interleaving of the relay's tasks: in every room
  clients and data pipes are paired one to one, the room's byte counter is exactly the sum of the
  buffered frames, at most 8 MiB per room and 4 MiB and 256 frames per client are buffered, at most
  64 clients wait for their data pipe, and a room without a daemon has no client and no pipe.
\<close>

theorem relay_rooms_consistent:
  assumes "length ops < u64_max" and "hm_get (rg_rooms (relay_run ops registry_default)) sid = Some r"
  shows "(\<forall>c d. (\<exists>e. hm_get (rm_clients r) c = Some e \<and> ep_paired_daemon_data_id e = Some d) \<longleftrightarrow>
       (\<exists>e. hm_get (rm_daemon_data r) d = Some e \<and> ep_paired_client_id e = Some c)) \<and>
    rm_pre_pair_client_bytes r =
      hm_sum (\<lambda>c. sum_list (map frame_len (pp_frames (ep_pre_pair_buffer c)))) (rm_clients r) \<and>
    rm_pre_pair_client_bytes r \<le> 8 * 1024 * 1024 \<and>
    (\<forall>c e. hm_get (rm_clients r) c = Some e \<longrightarrow>
       ep_id e = c \<and> length (pp_frames (ep_pre_pair_buffer e)) \<le> 256 \<and>
       sum_list (map frame_len (pp_frames (ep_pre_pair_buffer e))) \<le> 4 * 1024 * 1024) \<and>
    pending_client_count r \<le> 64 \<and>
    (rm_daemon_control r = None \<longrightarrow> rm_clients r = [] \<and> rm_daemon_data r = [])"
proof -
  have ok: "room_ok (rg_next_connection_id (relay_run ops registry_default)) r"
    by (rule registry_ok_room [OF registry_ok_run [OF registry_ok_default] assms(2)])
       (use assms(1) in \<open>simp add: registry_default_def\<close>)
  have buf: "buffer_ok (ep_pre_pair_buffer e)" "ep_id e = c" if "hm_get (rm_clients r) c = Some e" for c e
    using ok that by (simp_all add: room_ok_def client_ok_def)
  have "hm_sum buffered_bytes (rm_clients r) =
      hm_sum (\<lambda>c. sum_list (map frame_len (pp_frames (ep_pre_pair_buffer c)))) (rm_clients r)"
    unfolding hm_sum_def
  proof (rule arg_cong [where f = sum_list], rule map_cong [OF refl])
    fix x assume "x \<in> set (rm_clients r)"
    then have "hm_get (rm_clients r) (fst x) = Some (snd x)"
      using ok by (simp add: room_ok_def hm_entry_get [symmetric])
    from buf(1) [OF this] show "buffered_bytes (snd x) = sum_list (map frame_len (pp_frames (ep_pre_pair_buffer (snd x))))"
      by (simp add: buffer_ok_def)
  qed
  moreover have "length (pp_frames (ep_pre_pair_buffer e)) \<le> 256 \<and>
      sum_list (map frame_len (pp_frames (ep_pre_pair_buffer e))) \<le> 4 * 1024 * 1024"
    if "hm_get (rm_clients r) c = Some e" for c e
    using buf(1) [OF that]
    by (simp add: buffer_ok_def pre_pair_client_buffer_max_frames_def pre_pair_client_buffer_max_bytes_def)
  ultimately show ?thesis
    using ok buf(2)
    unfolding room_ok_def paired_ok_def pre_pair_room_buffer_max_bytes_def pending_clients_per_room_limit_def
      pre_pair_client_buffer_max_bytes_def
    by auto
qed

text \<open>
  The control line decides: when the daemon's control connection closes, or the server is closed
  administratively, every connection of the room (control, clients, data pipes) is asked to close
  and the room disappears from the registry.
\<close>

lemma control_loss_closes_everyone:
  assumes "hm_get (rg_rooms g) sid = Some r" "room_member r e"
    and "cr_role reg = DaemonControl" "cr_server_id reg = sid"
    and "rm_daemon_control r = Some control" "ep_id control = cr_id reg"
  shows "RequestClose (ep_sender e) \<in> set (snd (unregister ctl now reg g)) \<and>
    hm_get (rg_rooms (fst (unregister ctl now reg g))) sid = None \<and>
    RequestClose (ep_sender e) \<in> set (snd (snd (close_server sid g))) \<and>
    hm_get (rg_rooms (fst (snd (close_server sid g)))) sid = None"
proof -
  have u: "unregister ctl now reg g = (remove_room_if_empty sid (set_room sid room_default g),
      snd (clear_daemon_control_and_dependents r))"
    using assms clear_room [of r] by (simp add: unregister_def Let_def case_prod_beta)
  have "room_is_empty room_default" by (simp add: room_is_empty_def room_default_def)
  then show ?thesis
    using u assms(1) clear_effects [OF assms(2)]
    by (simp add: remove_room_if_empty_def close_server_def Let_def case_prod_beta)
qed


theorem relay_rooms_consistent_witness:
  "\<exists>r. hm_get (rg_rooms waiting_relay) 0 = Some r \<and> pending_client_count r \<le> 64 \<and>
     rm_pre_pair_client_bytes r \<le> 8 * 1024 * 1024"
proof -
  have "hm_get (rg_rooms waiting_relay) 0 \<noteq> None" by (simp add: waiting_relay_eval)
  then obtain r where r: "hm_get (rg_rooms waiting_relay) 0 = Some r" by blast
  from relay_rooms_consistent [OF _ r [unfolded waiting_relay_def]] r show ?thesis by (auto simp: u64_max_def)
qed

section \<open>Pairing and errors\<close>

lemma register_data_success:
  assumes "register_transport ctl uuid now p s kind access g = (Inr reg, g', fx)"
    and "rp_connection_role p = DaemonData"
  obtains r c e where "hm_get (rg_rooms g) (rp_server_id p) = Some r" "rp_client_id p = Some c"
    "hm_get (rm_clients r) c = Some e" "rp_data_token p = ep_data_token e"
    "ep_paired_daemon_data_id e = None"
    "rm_route_generation r \<noteq> None \<longrightarrow> rp_route_generation p = rm_route_generation r"
    "rp_route_generation p \<noteq> None" "cr_id reg = wrap_add64 (rg_next_connection_id g) 1"
    "\<exists>r' e' dd. hm_get (rg_rooms g') (rp_server_id p) = Some r' \<and> hm_get (rm_clients r') c = Some e' \<and>
       ep_paired_daemon_data_id e' = Some (cr_id reg) \<and>
       hm_get (rm_daemon_data r') (cr_id reg) = Some dd \<and> ep_sender dd = s \<and> ep_paired_client_id dd = Some c"
  using assms
  by (auto simp: register_transport_def register_daemon_data_def Let_def new_daemon_data_def endpoint_new_def
      split: if_splits option.splits sum.splits)

text \<open>
  C38. A daemon data pipe is accepted only for a client that is waiting, with the one-time token the
  relay handed to the daemon for this client, and only from the current generation of the daemon;
  afterwards the client and the pipe are paired with each other.
\<close>

theorem data_pipe_needs_token_and_generation:
  assumes "length ops < u64_max" and "g = relay_run ops registry_default"
    and "register_transport ctl uuid now p s kind access g = (Inr reg, g', fx)"
    and "rp_connection_role p = DaemonData"
  shows "\<exists>r c e tok. hm_get (rg_rooms g) (rp_server_id p) = Some r \<and> rm_daemon_control r \<noteq> None \<and>
    rp_client_id p = Some c \<and> hm_get (rm_clients r) c = Some e \<and>
    ep_data_token e = Some tok \<and> rp_data_token p = Some tok \<and> ep_paired_daemon_data_id e = None \<and>
    rp_route_generation p = rm_route_generation r \<and>
    (\<exists>r' e' dd. hm_get (rg_rooms g') (rp_server_id p) = Some r' \<and> hm_get (rm_clients r') c = Some e' \<and>
       ep_paired_daemon_data_id e' = Some (cr_id reg) \<and>
       hm_get (rm_daemon_data r') (cr_id reg) = Some dd \<and> ep_sender dd = s \<and> ep_paired_client_id dd = Some c)"
proof -
  have ok: "registry_ok g"
    using registry_ok_run [OF registry_ok_default] assms(1,2) by (simp add: registry_default_def)
  from register_data_success [OF assms(3,4)] obtain r c e where r:
    "hm_get (rg_rooms g) (rp_server_id p) = Some r" "rp_client_id p = Some c"
    "hm_get (rm_clients r) c = Some e" "rp_data_token p = ep_data_token e"
    "ep_paired_daemon_data_id e = None"
    "rm_route_generation r \<noteq> None \<longrightarrow> rp_route_generation p = rm_route_generation r"
    "\<exists>r' e' dd. hm_get (rg_rooms g') (rp_server_id p) = Some r' \<and> hm_get (rm_clients r') c = Some e' \<and>
       ep_paired_daemon_data_id e' = Some (cr_id reg) \<and>
       hm_get (rm_daemon_data r') (cr_id reg) = Some dd \<and> ep_sender dd = s \<and> ep_paired_client_id dd = Some c"
    by metis
  note rok = registry_ok_room [OF ok r(1)]
  from rok r(3) have ctrl: "rm_daemon_control r \<noteq> None" by (auto simp: room_ok_def)
  with rok have gen: "rm_route_generation r \<noteq> None" by (simp add: room_ok_def)
  from rok r(3) have "client_ok (rg_next_connection_id g) c e" by (simp add: room_ok_def)
  then obtain tok where "ep_data_token e = Some tok" by (auto simp: client_ok_def)
  with r ctrl gen show ?thesis by auto
qed

theorem data_pipe_needs_token_and_generation_witness:
  "\<exists>reg g' fx. register_transport all_sent [] 0 data_prelude 30 Legacy None waiting_relay = (Inr reg, g', fx) \<and>
     cr_id reg = 3 \<and> (\<exists>r' e'. hm_get (rg_rooms g') 0 = Some r' \<and> hm_get (rm_clients r') 2 = Some e' \<and>
       ep_paired_daemon_data_id e' = Some 3)"
proof -
  obtain reg g' fx where reg: "register_transport all_sent [] 0 data_prelude 30 Legacy None waiting_relay = (Inr reg, g', fx)"
    "cr_id reg = 3"
    by (simp add: waiting_relay_eval waiting_client_def relay_eval)
  have "rp_connection_role data_prelude = DaemonData" "rp_client_id data_prelude = Some 2"
    "rp_server_id data_prelude = 0" by (simp_all add: data_prelude_def)
  with data_pipe_needs_token_and_generation [OF _ waiting_relay_def reg(1)] reg show ?thesis
    by (fastforce simp: u64_max_def)
qed

text \<open>
  A refused registration changes nothing but the connection counter: every room is as before,
  except that a control line found closed while a client registers clears its whole room.
\<close>

lemma refused_registration_changes_nothing:
  assumes "length ops < u64_max" and "g = relay_run ops registry_default"
    and "rg_next_connection_id g < u64_max"
    and "register_transport ctl uuid now p s kind access g = (Inl err, g', fx)"
  shows "rg_rooms g' = rg_rooms g \<or>
    err = DaemonControlOffline \<and> rp_connection_role p = Client \<and>
    rg_rooms g' = hm_insert (rp_server_id p) room_default (rg_rooms g)"
proof -
  have ok: "registry_ok g"
    using registry_ok_run [OF registry_ok_default] assms(1,2) by (simp add: registry_default_def)
  let ?i = "rg_next_connection_id g + 1"
  have i: "wrap_add64 (rg_next_connection_id g) 1 = ?i" using assms(3) by (simp add: wrap_add64_exact)
  have undo: "fst (snd (close_client_transport now ?i
      (r\<lparr>rm_clients := hm_insert ?i (new_client now ?i s tok) (rm_clients r)\<rparr>))) = r"
    if "hm_get (rg_rooms g) (rp_server_id p) = Some r" for r tok
  proof -
    have "hm_get (rm_clients r) ?i = None"
      by (rule room_ok_fresh(1) [OF registry_ok_room [OF ok that]]) simp
    then show ?thesis
      by (cases r) (simp add: close_client_room without_client_def new_client_def endpoint_new_def
          hm_remove_insert_absent)
  qed
  have same: "hm_insert sid r (rg_rooms g) = rg_rooms g" if "hm_get (rg_rooms g) sid = Some r" for sid r
    using that by (rule hm_insert_same)
  show ?thesis
    using assms(4) i undo same clear_room
    by (auto simp: register_transport_def register_client_def Let_def case_prod_beta
        split: if_splits option.splits sum.splits connection_role.splits try_send.splits)
qed

text \<open>The cleared room stays in the registry, empty: this path does not remove empty rooms.\<close>

lemma closed_control_leaves_empty_room:
  "hm_get (rg_rooms (fst (snd (register_transport (\<lambda>_ _. Closed) [] 0 client_prelude 40 Legacy None waiting_relay)))) 0 =
     Some room_default \<and> room_is_empty room_default"
  using clear_room
  by (simp add: waiting_relay_eval waiting_client_def relay_eval close_client_transport_def room_is_empty_def
      release_client_pre_pair_bytes_def case_prod_beta)

section \<open>The order of frames\<close>

text \<open>A list of frames of one client, forwarded one after the other.\<close>

primrec forward_all ::
  "(sender \<Rightarrow> relay_control_envelope \<Rightarrow> try_send) \<Rightarrow> (sender \<Rightarrow> opaque_frame \<Rightarrow> data_send) \<Rightarrow> instant \<Rightarrow>
   connection_registration \<Rightarrow> opaque_frame list \<Rightarrow> relay_registry \<Rightarrow> relay_registry \<times> relay_effect list" where
  "forward_all ctl dat now reg [] g = (g, [])"
| "forward_all ctl dat now reg (f # fs) g =
     (let (_, g1, fx1) = forward_from ctl dat now reg f g;
          (g2, fx2) = forward_all ctl dat now reg fs g1
      in (g2, fx1 @ fx2))"

text \<open>
  The check for a data pipe and the buffering of a frame are two critical sections. If the pipe
  is paired and flushed between them, the frame is put into a buffer that no task will ever empty:
  it is reported as delivered and is never sent, and the client's next frame goes directly to the
  daemon, overtaking it.
\<close>

lemma pre_pair_race_strands_frame:
  "client_target_of client_registration waiting_relay = BufferIt \<and>
   (let paired = relay_exec (OpRegister all_sent [] 0 data_prelude 30 Legacy None) waiting_relay in
    (\<exists>g1. take_pre_pair_client_frames data_registration 2 paired = Some ([], 30, g1) \<and>
     (\<exists>g2. buffer_unpaired_client_frame all_sent 0 client_registration (FText [97]) g1 = (report 1 1 0, g2, []) \<and>
        client_target_of client_registration g2 = DeliverTo 3 30 \<and>
        (\<exists>r e. hm_get (rg_rooms g2) 0 = Some r \<and> hm_get (rm_clients r) 2 = Some e \<and>
           pp_frames (ep_pre_pair_buffer e) = [FText [97]] \<and> \<not> ep_pre_pair_flush_in_progress e))))"
  by (simp add: waiting_relay_eval waiting_client_def relay_eval client_target_of_def
      take_pre_pair_client_frames_def drain_pre_pair_client_frames_def buffer_drain_def
      buffer_unpaired_client_frame_def buffer_client_frame_def buffer_push_def sat_add64_def
      pre_pair_room_buffer_max_bytes_def pre_pair_client_buffer_max_bytes_def pre_pair_client_buffer_max_frames_def)

end
