(* ===== verification/Relay_Order.thy ===== *)
theory Relay_Order
  imports Relay_Routing
begin

text \<open>
  The order of a client's frames when its operations are not interleaved: frames that arrive before
  the data pipe wait in the client's buffer, the flush sends them in order, and later frames
  follow directly. The flush always ends.
\<close>

section \<open>Buffering\<close>

text \<open>A client with the buffered frames \<open>fs\<close>, in a room of a consistent registry.\<close>

definition client_state ::
  "relay_registry \<Rightarrow> server_id \<Rightarrow> conn_id \<Rightarrow> connection_endpoint \<Rightarrow> usize \<Rightarrow> bool" where
  "client_state g sid c e b \<longleftrightarrow> registry_ok g \<and>
     (\<exists>r. hm_get (rg_rooms g) sid = Some r \<and> hm_get (rm_clients r) c = Some e \<and> rm_pre_pair_client_bytes r = b)"

lemma client_stateD:
  assumes "client_state g sid c e b"
  obtains r where "registry_ok g" "hm_get (rg_rooms g) sid = Some r" "hm_get (rm_clients r) c = Some e"
    "rm_pre_pair_client_bytes r = b" "buffer_ok (ep_pre_pair_buffer e)"
proof -
  obtain r where r: "registry_ok g" "hm_get (rg_rooms g) sid = Some r" "hm_get (rm_clients r) c = Some e"
    "rm_pre_pair_client_bytes r = b" using assms by (auto simp: client_state_def)
  have "client_ok (rg_next_connection_id g) c e" using registry_ok_room [OF r(1,2)] r(3) by (simp add: room_ok_def)
  then show ?thesis using that r by (simp add: client_ok_def)
qed

abbreviation frames_size :: "opaque_frame list \<Rightarrow> nat" where
  "frames_size fs \<equiv> sum_list (map frame_len fs)"

lemma buffer_one:
  assumes st: "client_state g (cr_server_id reg) (cr_id reg) e b" and role: "cr_role reg = Client"
    and unpaired: "ep_paired_daemon_data_id e = None"
    and lim: "length (pp_frames (ep_pre_pair_buffer e)) < 256"
      "pp_bytes (ep_pre_pair_buffer e) + frame_len f \<le> 4 * 1024 * 1024" "b + frame_len f \<le> 8 * 1024 * 1024"
  shows "\<exists>g' e'. forward_from ctl dat now reg f g = (report 1 1 0, g', []) \<and>
    client_state g' (cr_server_id reg) (cr_id reg) e' (b + frame_len f) \<and>
    ep_paired_daemon_data_id e' = None \<and> ep_data_token e' = ep_data_token e \<and>
    pp_frames (ep_pre_pair_buffer e') = pp_frames (ep_pre_pair_buffer e) @ [f]"
proof -
  let ?sid = "cr_server_id reg" and ?c = "cr_id reg"
  from st obtain r where r: "registry_ok g" "hm_get (rg_rooms g) ?sid = Some r" "hm_get (rm_clients r) ?c = Some e"
    "rm_pre_pair_client_bytes r = b" "buffer_ok (ep_pre_pair_buffer e)" by (rule client_stateD)
  note rok = registry_ok_room [OF r(1,2)]
  from rok r(3) have "client_ok (rg_next_connection_id g) ?c e" by (simp add: room_ok_def)
  with unpaired have flush: "\<not> ep_pre_pair_flush_in_progress e" by (auto simp: client_ok_def)
  have sat: "sat_add64 (pp_bytes (ep_pre_pair_buffer e)) (frame_len f) = pp_bytes (ep_pre_pair_buffer e) + frame_len f"
    "sat_add64 b (frame_len f) = b + frame_len f"
    using lim by (simp_all add: sat_add64_exact u64_max_def)
  let ?b = "\<lparr>pp_frames = pp_frames (ep_pre_pair_buffer e) @ [f], pp_bytes = pp_bytes (ep_pre_pair_buffer e) + frame_len f\<rparr>"
  let ?e = "e\<lparr>ep_pre_pair_buffer := ?b\<rparr>"
  let ?r = "r\<lparr>rm_clients := hm_insert ?c ?e (rm_clients r), rm_pre_pair_client_bytes := b + frame_len f\<rparr>"
  have buf: "buffer_client_frame ?c f r = Some ?r"
    using r lim sat
    by (simp add: buffer_client_frame_def buffer_push_def pre_pair_room_buffer_max_bytes_def
        pre_pair_client_buffer_max_bytes_def pre_pair_client_buffer_max_frames_def)
  have step: "forward_from ctl dat now reg f g = (report 1 1 0, set_room ?sid ?r g, [])"
    using role r(2,3) flush unpaired buf
    by (simp add: forward_from_def forward_client_to_daemon_data_def client_target_of_def
        buffer_unpaired_client_frame_def)
  have "registry_ok (set_room ?sid ?r g)"
    using buffer_client_frame_ok [OF rok buf] r(1) by (simp add: registry_ok_set_room)
  then have "client_state (set_room ?sid ?r g) ?sid ?c ?e (b + frame_len f)"
    by (simp add: client_state_def)
  with step unpaired show ?thesis by (intro exI [of _ "set_room ?sid ?r g"] exI [of _ ?e]) simp
qed

lemma buffer_all:
  assumes "client_state g (cr_server_id reg) (cr_id reg) e b" "cr_role reg = Client"
    "ep_paired_daemon_data_id e = None"
    "length (pp_frames (ep_pre_pair_buffer e)) + length fs \<le> 256"
    "frames_size (pp_frames (ep_pre_pair_buffer e)) + frames_size fs \<le> 4 * 1024 * 1024"
    "b + frames_size fs \<le> 8 * 1024 * 1024"
  shows "\<exists>g' e'. forward_all ctl dat now reg fs g = (g', []) \<and>
    client_state g' (cr_server_id reg) (cr_id reg) e' (b + frames_size fs) \<and>
    ep_paired_daemon_data_id e' = None \<and> ep_data_token e' = ep_data_token e \<and>
    pp_frames (ep_pre_pair_buffer e') = pp_frames (ep_pre_pair_buffer e) @ fs"
  using assms
proof (induction fs arbitrary: g e b)
  case Nil
  then show ?case by auto
next
  case (Cons f fs)
  from Cons.prems(1) have bytes: "pp_bytes (ep_pre_pair_buffer e) = frames_size (pp_frames (ep_pre_pair_buffer e))"
    by (elim client_stateD) (simp add: buffer_ok_def)
  obtain g1 e1 where 1: "forward_from ctl dat now reg f g = (report 1 1 0, g1, [])"
    "client_state g1 (cr_server_id reg) (cr_id reg) e1 (b + frame_len f)"
    "ep_paired_daemon_data_id e1 = None" "ep_data_token e1 = ep_data_token e"
    "pp_frames (ep_pre_pair_buffer e1) = pp_frames (ep_pre_pair_buffer e) @ [f]"
    using buffer_one [OF Cons.prems(1-3), of f ctl dat now] Cons.prems(4-6) bytes by auto
  from Cons.IH [OF 1(2) Cons.prems(2) 1(3)] Cons.prems(4-6) 1(5) obtain g2 e2 where
    "forward_all ctl dat now reg fs g1 = (g2, [])"
    "client_state g2 (cr_server_id reg) (cr_id reg) e2 (b + frame_len f + frames_size fs)"
    "ep_paired_daemon_data_id e2 = None" "ep_data_token e2 = ep_data_token e1"
    "pp_frames (ep_pre_pair_buffer e2) = pp_frames (ep_pre_pair_buffer e1) @ fs"
    by (auto simp: algebra_simps)
  with 1 show ?case by (auto simp: algebra_simps)
qed

section \<open>Flushing\<close>

text \<open>A client paired with the data pipe \<open>d\<close>, whose queue is \<open>s\<close>.\<close>

definition paired_state :: "relay_registry \<Rightarrow> server_id \<Rightarrow> conn_id \<Rightarrow> connection_endpoint \<Rightarrow> conn_id \<Rightarrow> sender \<Rightarrow> bool" where
  "paired_state g sid c e d s \<longleftrightarrow> registry_ok g \<and> ep_paired_daemon_data_id e = Some d \<and>
     (\<exists>r dd. hm_get (rg_rooms g) sid = Some r \<and> hm_get (rm_clients r) c = Some e \<and>
        hm_get (rm_daemon_data r) d = Some dd \<and> ep_sender dd = s)"

lemma forward_direct:
  assumes "paired_state g (cr_server_id reg) (cr_id reg) e d s" "\<not> ep_pre_pair_flush_in_progress e"
    "cr_role reg = Client" "\<And>f. dat s f = DataOk"
  shows "forward_all ctl dat now reg fs g = (g, map (SendData s) fs)"
proof (induction fs)
  case (Cons f fs)
  have "forward_from ctl dat now reg f g = (report 1 1 0, g, [SendData s f])"
    using assms by (auto simp: paired_state_def forward_from_def forward_client_to_daemon_data_def client_target_of_def)
  with Cons show ?case by simp
qed simp

lemma take_paired:
  assumes "paired_state g (cr_server_id reg) c e (cr_id reg) s"
  shows "\<exists>g' e'. take_pre_pair_client_frames reg c g = Some (pp_frames (ep_pre_pair_buffer e), s, g') \<and>
    paired_state g' (cr_server_id reg) c e' (cr_id reg) s \<and> pp_frames (ep_pre_pair_buffer e') = [] \<and>
    (pp_frames (ep_pre_pair_buffer e) = [] \<longrightarrow> \<not> ep_pre_pair_flush_in_progress e')"
proof -
  obtain r dd where r: "registry_ok g" "hm_get (rg_rooms g) (cr_server_id reg) = Some r"
    "hm_get (rm_clients r) c = Some e" "hm_get (rm_daemon_data r) (cr_id reg) = Some dd" "ep_sender dd = s"
    "ep_paired_daemon_data_id e = Some (cr_id reg)"
    using assms by (auto simp: paired_state_def)
  obtain fs s' g' where t: "take_pre_pair_client_frames reg c g = Some (fs, s', g')"
    using r by (auto simp: take_pre_pair_client_frames_def drain_pre_pair_client_frames_def buffer_drain_def Let_def)
  from take_frames_ok [OF r(1) t] r obtain r' where
    "registry_ok g'" "g' = set_room (cr_server_id reg) r' g" "rm_daemon_data r' = rm_daemon_data r"
    "fs = pp_frames (ep_pre_pair_buffer e)" "s' = s"
    "rm_clients r' = hm_insert c (e\<lparr>ep_pre_pair_buffer := empty_buffer,
         ep_pre_pair_flush_in_progress := (if fs = [] then False else ep_pre_pair_flush_in_progress e)\<rparr>) (rm_clients r)"
    by auto
  with t r show ?thesis by (auto simp: paired_state_def)
qed

lemma send_frames_all: "(\<And>f. dat s f = DataOk) \<Longrightarrow> send_frames dat s fs = (fs, True)"
  by (induction fs) simp_all

lemma flush_in_order:
  assumes "paired_state g (cr_server_id reg) c e (cr_id reg) s" "\<And>f. dat s f = DataOk"
    "cr_role reg = DaemonData" "cr_paired_client_id reg = Some c"
  shows "\<exists>g' e'. flush_pre_pair_client_frames ctl dat now reg g =
      Some (g', map (SendData s) (pp_frames (ep_pre_pair_buffer e))) \<and>
    paired_state g' (cr_server_id reg) c e' (cr_id reg) s \<and>
    pp_frames (ep_pre_pair_buffer e') = [] \<and> \<not> ep_pre_pair_flush_in_progress e'"
proof -
  obtain g1 e1 where 1: "take_pre_pair_client_frames reg c g = Some (pp_frames (ep_pre_pair_buffer e), s, g1)"
    "paired_state g1 (cr_server_id reg) c e1 (cr_id reg) s" "pp_frames (ep_pre_pair_buffer e1) = []"
    "pp_frames (ep_pre_pair_buffer e) = [] \<longrightarrow> \<not> ep_pre_pair_flush_in_progress e1"
    using take_paired [OF assms(1)] by blast
  obtain g2 e2 where 2: "take_pre_pair_client_frames reg c g1 = Some ([], s, g2)"
    "paired_state g2 (cr_server_id reg) c e2 (cr_id reg) s" "pp_frames (ep_pre_pair_buffer e2) = []"
    "\<not> ep_pre_pair_flush_in_progress e2"
    using take_paired [OF 1(2)] 1(3) by auto
  have "send_frames dat s fs = (fs, True)" for fs by (rule send_frames_all) (rule assms(2))
  then show ?thesis
    using 1 2 assms(3,4)
    by (cases "pp_frames (ep_pre_pair_buffer e) = []")
       (auto simp: flush_pre_pair_client_frames_def numeral_3_eq_3)
qed

text \<open>A client that was closed is not flushed again.\<close>

lemma close_and_notify_gone: "hm_get (rm_clients (fst (snd (close_and_notify ctl now c r)))) c = None"
proof -
  have gone: "hm_get (rm_clients (fst (snd (close_client_transport now c r)))) c = None"
    by (auto simp: close_client_room without_client_def split: option.splits)
  have "hm_get (rm_clients (fst (notify_client_disconnected_to_control ctl c r1))) c = None"
    if "hm_get (rm_clients r1) c = None" for r1
    using that clear_room [of r1]
    by (auto simp: notify_client_disconnected_to_control_def room_default_def split: option.splits)
  with gone show ?thesis by (simp add: close_and_notify_def Let_def case_prod_beta)
qed

lemma take_after_failure:
  "take_pre_pair_client_frames reg c (fst (close_client_after_pre_pair_flush_failure ctl now reg c g)) = None"
  using close_and_notify_gone [of ctl now c]
  by (auto simp: close_client_after_pre_pair_flush_failure_def Let_def case_prod_beta remove_room_if_empty_def
      take_pre_pair_client_frames_def split: option.splits)

lemma take_twice:
  assumes "registry_ok g" "take_pre_pair_client_frames reg c g = Some (fs, s, g1)"
  shows "\<exists>g2. take_pre_pair_client_frames reg c g1 = Some ([], s, g2)"
proof -
  from take_frames_ok [OF assms] obtain e where "paired_state g (cr_server_id reg) c e (cr_id reg) s"
    using assms(1) by (auto simp: paired_state_def)
  from take_paired [OF this] assms(2) obtain e1 where
    "paired_state g1 (cr_server_id reg) c e1 (cr_id reg) s" "pp_frames (ep_pre_pair_buffer e1) = []" by auto
  from take_paired [OF this(1)] this(2) show ?thesis by auto
qed

lemma forward_next: "rg_next_connection_id (fst (snd (forward_from ctl dat now reg f g))) = rg_next_connection_id g"
  by (auto simp: forward_from_def forward_client_to_daemon_data_def forward_daemon_data_to_client_def
      buffer_unpaired_client_frame_def close_client_after_daemon_data_send_failure_def
      close_client_after_pre_pair_flush_failure_def Let_def case_prod_beta
      split: connection_role.splits client_target.splits option.splits sum.splits)

lemma forward_all_next: "rg_next_connection_id (fst (forward_all ctl dat now reg fs g)) = rg_next_connection_id g"
proof (induction fs arbitrary: g)
  case (Cons f fs)
  show ?case
    using forward_next [of ctl dat now reg f g] Cons [of "fst (snd (forward_from ctl dat now reg f g))"]
    by (simp add: Let_def case_prod_beta)
qed simp

section \<open>Properties\<close>

text \<open>
  The flush of a freshly paired client ends after at most three rounds, whatever the queues answer.
\<close>

lemma flush_terminates:
  assumes "length ops < u64_max" and "g = relay_run ops registry_default"
  shows "\<exists>g' fx. flush_pre_pair_client_frames ctl dat now reg g = Some (g', fx)"
proof -
  have ok: "registry_ok g"
    using registry_ok_run [OF registry_ok_default] assms by (simp add: registry_default_def)
  have "\<exists>g' fx. flush_loop 3 ctl dat now reg c g = Some (g', fx)" for c
  proof (cases "take_pre_pair_client_frames reg c g")
    case None
    then show ?thesis by (simp add: numeral_3_eq_3)
  next
    case (Some t)
    then obtain fs s g1 where t: "take_pre_pair_client_frames reg c g = Some (fs, s, g1)" by (cases t) auto
    from take_twice [OF ok t] obtain g2 where "take_pre_pair_client_frames reg c g1 = Some ([], s, g2)" by blast
    with t take_after_failure [of reg c ctl now g1] show ?thesis
      by (cases "send_frames dat s fs") (auto simp: numeral_3_eq_3 Let_def case_prod_beta)
  qed
  then show ?thesis by (auto simp: flush_pre_pair_client_frames_def split: option.splits)
qed

text \<open>
  C37. Frames are delivered in order: the frames a client sends while it waits for its data pipe, as far as
  the limits allow them, are sent to the pipe when it is paired and flushed, all of them and in
  order, and the frames it sends afterwards follow, if no other task runs between the check and the
  buffering of a frame and the queue of the pipe accepts every frame.
\<close>

theorem relay_delivers_in_order:
  assumes "length ops < u64_max" and "g = relay_run ops registry_default"
    and "rg_next_connection_id g < u64_max"
    and "hm_get (rg_rooms g) (cr_server_id creg) = Some r" and "hm_get (rm_clients r) (cr_id creg) = Some e"
    and "ep_paired_daemon_data_id e = None" and "pp_frames (ep_pre_pair_buffer e) = []"
    and "cr_role creg = Client"
    and "length fs \<le> 256" and "frames_size fs \<le> 4 * 1024 * 1024"
    and "rm_pre_pair_client_bytes r + frames_size fs \<le> 8 * 1024 * 1024"
    and "forward_all ctl dat now creg fs g = (g1, fx1)"
    and "register_transport ctl uuid now p s kind access g1 = (Inr dreg, g2, fx2)"
    and "rp_connection_role p = DaemonData" and "rp_server_id p = cr_server_id creg"
    and "rp_client_id p = Some (cr_id creg)"
    and "\<And>f. dat s f = DataOk"
  shows "fx1 = [] \<and> (\<exists>g3. flush_pre_pair_client_frames ctl dat now dreg g2 = Some (g3, map (SendData s) fs) \<and>
    snd (forward_all ctl dat now creg gs g3) = map (SendData s) gs)"
proof -
  let ?sid = "cr_server_id creg" and ?c = "cr_id creg"
  have ok: "registry_ok g"
    using registry_ok_run [OF registry_ok_default] assms(1,2) by (simp add: registry_default_def)
  have "client_state g ?sid ?c e (rm_pre_pair_client_bytes r)"
    using ok assms(4,5) by (simp add: client_state_def)
  from buffer_all [OF this assms(8,6), of fs ctl dat now] assms(7,9-12) obtain e1 where
    fx1: "fx1 = []" and c1: "client_state g1 ?sid ?c e1 (rm_pre_pair_client_bytes r + frames_size fs)"
    and e1: "ep_paired_daemon_data_id e1 = None" "pp_frames (ep_pre_pair_buffer e1) = fs" by auto
  from c1 obtain r1 where r1: "registry_ok g1" "hm_get (rg_rooms g1) ?sid = Some r1" "hm_get (rm_clients r1) ?c = Some e1"
    by (rule client_stateD)
  let ?d = "cr_id dreg"
  obtain e2 r2 dd where 2: "hm_get (rg_rooms g2) ?sid = Some r2" "hm_get (rm_clients r2) ?c = Some e2"
    "ep_paired_daemon_data_id e2 = Some ?d" "hm_get (rm_daemon_data r2) ?d = Some dd" "ep_sender dd = s"
    "pp_frames (ep_pre_pair_buffer e2) = fs"
    and dreg: "cr_role dreg = DaemonData" "cr_server_id dreg = ?sid" "cr_paired_client_id dreg = Some ?c"
    using assms(13-16) r1(2,3) e1
    by (auto simp: register_transport_def register_daemon_data_def Let_def new_daemon_data_def endpoint_new_def
        split: if_splits option.splits sum.splits)
  have next_id: "rg_next_connection_id g1 < u64_max"
    using forward_all_next [of ctl dat now creg fs g] assms(3,12) by simp
  have "registry_ok g2" using registry_ok_register(1) [OF r1(1) next_id, of ctl uuid now p s kind access] assms(13) by simp
  then have "paired_state g2 (cr_server_id dreg) ?c e2 ?d s"
    using 2 dreg(2) by (auto simp: paired_state_def)
  from flush_in_order [where dat = dat, OF this assms(17) dreg(1,3), of ctl now] 2(6) dreg(2) obtain g3 e3 where
    g3: "flush_pre_pair_client_frames ctl dat now dreg g2 = Some (g3, map (SendData s) fs)"
    "paired_state g3 ?sid ?c e3 ?d s" "\<not> ep_pre_pair_flush_in_progress e3" by auto
  have "forward_all ctl dat now creg gs g3 = (g3, map (SendData s) gs)"
    by (rule forward_direct [OF g3(2,3) assms(8)]) (rule assms(17))
  with fx1 g3(1) show ?thesis by simp
qed

theorem relay_delivers_in_order_witness:
  "\<exists>g1 dreg g2 fx2 g3.
     forward_all all_sent (\<lambda>_ _. DataOk) 0 client_registration [FText [97], FText [98]] waiting_relay = (g1, []) \<and>
     register_transport all_sent [] 0 data_prelude 30 Legacy None g1 = (Inr dreg, g2, fx2) \<and>
     flush_pre_pair_client_frames all_sent (\<lambda>_ _. DataOk) 0 dreg g2 =
       Some (g3, [SendData 30 (FText [97]), SendData 30 (FText [98])]) \<and>
     snd (forward_all all_sent (\<lambda>_ _. DataOk) 0 client_registration [FText [99]] g3) = [SendData 30 (FText [99])]"
proof -
  let ?fs = "[FText [97], FText [98]]" and ?dat = "\<lambda>(_ :: sender) (_ :: opaque_frame). DataOk"
  obtain r where r: "hm_get (rg_rooms waiting_relay) (cr_server_id client_registration) = Some r"
    "hm_get (rm_clients r) (cr_id client_registration) = Some waiting_client" "rm_pre_pair_client_bytes r = 0"
    by (simp add: waiting_relay_eval client_registration_def)
  have e: "ep_paired_daemon_data_id waiting_client = None" "pp_frames (ep_pre_pair_buffer waiting_client) = []"
    "cr_role client_registration = Client"
    by (simp_all add: waiting_client_def new_client_def endpoint_new_def empty_buffer_def client_registration_def)
  obtain g1 fx1 where g1: "forward_all all_sent ?dat 0 client_registration ?fs waiting_relay = (g1, fx1)" by fastforce
  obtain dreg g2 fx2 where g2: "register_transport all_sent [] 0 data_prelude 30 Legacy None g1 = (Inr dreg, g2, fx2)"
  proof -
    have "\<exists>x. fst (register_transport all_sent [] 0 data_prelude 30 Legacy None
        (fst (forward_all all_sent ?dat 0 client_registration ?fs waiting_relay))) = Inr x"
      by (simp add: waiting_relay_eval waiting_client_def relay_eval forward_from_def
          forward_client_to_daemon_data_def client_target_of_def buffer_unpaired_client_frame_def
          buffer_client_frame_def buffer_push_def sat_add64_def pre_pair_room_buffer_max_bytes_def
          pre_pair_client_buffer_max_bytes_def pre_pair_client_buffer_max_frames_def)
    then show ?thesis using g1 that by (metis fst_conv prod.collapse)
  qed
  have p: "rp_connection_role data_prelude = DaemonData" "rp_server_id data_prelude = cr_server_id client_registration"
    "rp_client_id data_prelude = Some (cr_id client_registration)"
    by (simp_all add: data_prelude_def client_registration_def)
  have "rg_next_connection_id waiting_relay < u64_max" by (simp add: waiting_relay_eval u64_max_def)
  from relay_delivers_in_order [OF _ waiting_relay_def this r(1,2) e _ _ _ g1 g2 p, of "[FText [99]]"] r(3) g1 g2
  show ?thesis by (auto simp: u64_max_def)
qed

end
