(* ===== verification/Text_Lib.thy ===== *)
theory Text_Lib
  imports Termd_Prelude
begin

text \<open>
  The text functions of the standard library that several components use. A text is the list of its
  Unicode scalar values.
\<close>

text \<open>\<open>slice::split\<close>: always at least one part.\<close>

fun split_on :: "'a \<Rightarrow> 'a list \<Rightarrow> 'a list list" where
  "split_on sep [] = [[]]"
| "split_on sep (c # cs) =
     (if c = sep then [] # split_on sep cs
      else case split_on sep cs of [] \<Rightarrow> [[c]] | part # parts \<Rightarrow> (c # part) # parts)"

definition starts_with :: "'a list \<Rightarrow> 'a list \<Rightarrow> bool" where
  "starts_with p t \<longleftrightarrow> take (length p) t = p"

fun contains_text :: "'a list \<Rightarrow> 'a list \<Rightarrow> bool" where
  "contains_text p [] \<longleftrightarrow> p = []"
| "contains_text p (c # cs) \<longleftrightarrow> starts_with p (c # cs) \<or> contains_text p cs"

text \<open>What follows the last occurrence of a pattern (\<open>str::rsplit_once\<close>).\<close>

fun after_last :: "'a list \<Rightarrow> 'a list \<Rightarrow> 'a list option" where
  "after_last p [] = (if p = [] then Some [] else None)"
| "after_last p (c # cs) =
     (case after_last p cs of
        Some r \<Rightarrow> Some r
      | None \<Rightarrow> if starts_with p (c # cs) then Some (drop (length p) (c # cs)) else None)"

text \<open>\<open>char::is_whitespace\<close> (the Unicode property White\_Space) and \<open>str::trim\<close>.\<close>

definition is_whitespace :: "uchar \<Rightarrow> bool" where
  "is_whitespace c \<longleftrightarrow>
     (9 \<le> c \<and> c \<le> 13) \<or> c = 32 \<or> c = 133 \<or> c = 160 \<or> c = 5760 \<or> (8192 \<le> c \<and> c \<le> 8202) \<or>
     c = 8232 \<or> c = 8233 \<or> c = 8239 \<or> c = 8287 \<or> c = 12288"

definition trim_text :: "uchar list \<Rightarrow> uchar list" where
  "trim_text t = rev (dropWhile is_whitespace (rev (dropWhile is_whitespace t)))"

definition to_ascii_lowercase :: "uchar list \<Rightarrow> uchar list" where
  "to_ascii_lowercase = map (\<lambda>c. if 65 \<le> c \<and> c \<le> 90 then c + 32 else c)"

definition len_utf8 :: "uchar \<Rightarrow> usize" where
  "len_utf8 c = (if c < 128 then 1 else if c < 2048 then 2 else if c < 65536 then 3 else 4)"

text \<open>\<open>str::split_ascii_whitespace\<close>.\<close>

definition is_ascii_whitespace :: "uchar \<Rightarrow> bool" where
  "is_ascii_whitespace c \<longleftrightarrow> c = 9 \<or> c = 10 \<or> c = 12 \<or> c = 13 \<or> c = 32"

fun whitespace_fields :: "uchar list \<Rightarrow> uchar list \<Rightarrow> uchar list list" where
  "whitespace_fields cur [] = (if cur = [] then [] else [cur])"
| "whitespace_fields cur (c # cs) =
     (if is_ascii_whitespace c then (if cur = [] then whitespace_fields [] cs else cur # whitespace_fields [] cs)
      else whitespace_fields (cur @ [c]) cs)"

definition split_ascii_whitespace :: "uchar list \<Rightarrow> uchar list list" where
  "split_ascii_whitespace t = whitespace_fields [] t"

text \<open>\<open>str::parse::<i32>\<close>: an optional sign and at least one digit, refused outside the range.\<close>

definition is_digit :: "uchar \<Rightarrow> bool" where
  "is_digit c \<longleftrightarrow> 48 \<le> c \<and> c \<le> 57"

definition digits_value :: "uchar list \<Rightarrow> nat" where
  "digits_value ds = foldl (\<lambda>n d. 10 * n + (d - 48)) 0 ds"

definition parse_i32 :: "uchar list \<Rightarrow> int option" where
  "parse_i32 t =
     (let negative = (t \<noteq> [] \<and> hd t = 45);
          ds = (if t \<noteq> [] \<and> (hd t = 45 \<or> hd t = 43) then tl t else t);
          v = (if negative then - int (digits_value ds) else int (digits_value ds))
      in if ds \<noteq> [] \<and> list_all is_digit ds \<and> - 2147483648 \<le> v \<and> v \<le> 2147483647 then Some v else None)"

text \<open>\<open>str::parse\<close> for an unsigned integer of the given maximum.\<close>

definition parse_unsigned :: "nat \<Rightarrow> uchar list \<Rightarrow> nat option" where
  "parse_unsigned limit t =
     (let ds = (if t \<noteq> [] \<and> hd t = 43 then tl t else t) in
      if ds \<noteq> [] \<and> list_all is_digit ds \<and> digits_value ds \<le> limit then Some (digits_value ds) else None)"

lemma digits_value_append: "digits_value (ds @ [d]) = 10 * digits_value ds + (d - 48)"
  by (simp add: digits_value_def)

lemma digits_value_dec [simp]: "digits_value (dec n) = n"
proof (induction n rule: dec.induct)
  case (1 n)
  show ?case
  proof (cases "n < 10")
    case True
    then show ?thesis by (simp add: dec.simps [of n] digits_value_def)
  next
    case False
    with 1 have "digits_value (dec (n div 10)) = n div 10" by simp
    with False show ?thesis by (simp add: dec.simps [of n] digits_value_append)
  qed
qed

lemma parse_unsigned_dec [simp]: "parse_unsigned limit (dec n) = (if n \<le> limit then Some n else None)"
proof -
  have "list_all is_digit (dec n)" using dec_digits [of _ n] by (auto simp: list_all_iff is_digit_def)
  moreover have "hd (dec n) \<noteq> 43" using dec_digits [of "hd (dec n)" n] by (simp add: hd_in_set)
  ultimately show ?thesis by (simp add: parse_unsigned_def)
qed

section \<open>UTF-8\<close>

text \<open>
  The first character of a byte string: \<open>(True, n)\<close> if it is well formed with \<open>n\<close> bytes, otherwise \<open>(False, n)\<close> with
  the length of the part that \<open>String::from_utf8_lossy\<close> replaces.
\<close>

definition utf8_width :: "u8 \<Rightarrow> nat" where
  "utf8_width b = (if b < 128 then 1 else if 194 \<le> b \<and> b \<le> 223 then 2 else if 224 \<le> b \<and> b \<le> 239 then 3
                   else if 240 \<le> b \<and> b \<le> 244 then 4 else 0)"

definition utf8_continues :: "u8 \<Rightarrow> bool" where
  "utf8_continues b \<longleftrightarrow> 128 \<le> b \<and> b \<le> 191"

definition utf8_second :: "u8 \<Rightarrow> u8 \<Rightarrow> bool" where
  "utf8_second lead b \<longleftrightarrow>
     utf8_continues b \<and> (lead = 224 \<longrightarrow> 160 \<le> b) \<and> (lead = 237 \<longrightarrow> b \<le> 159) \<and> (lead = 240 \<longrightarrow> 144 \<le> b) \<and> (lead = 244 \<longrightarrow> b \<le> 143)"

fun utf8_next :: "u8 list \<Rightarrow> bool \<times> nat" where
  "utf8_next [] = (True, 0)"
| "utf8_next (b # bs) =
     (if utf8_width b = 0 then (False, 1)
      else if utf8_width b = 1 then (True, 1)
      else if bs = [] \<or> \<not> utf8_second b (hd bs) then (False, 1)
      else if utf8_width b = 2 then (True, 2)
      else if length bs < 2 \<or> \<not> utf8_continues (bs ! 1) then (False, 2)
      else if utf8_width b = 3 then (True, 3)
      else if length bs < 3 \<or> \<not> utf8_continues (bs ! 2) then (False, 3)
      else (True, 4))"

lemma utf8_next_pos: "0 < snd (utf8_next (b # bs))"
  by simp

text \<open>\<open>OsStr::to_str\<close> succeeds exactly on valid text; \<open>to_string_lossy\<close> replaces what is not.\<close>

function utf8_valid :: "u8 list \<Rightarrow> bool" where
  "utf8_valid [] \<longleftrightarrow> True"
| "utf8_valid (b # bs) \<longleftrightarrow> fst (utf8_next (b # bs)) \<and> utf8_valid (drop (snd (utf8_next (b # bs))) (b # bs))"
  by pat_completeness auto
termination
  by (relation "measure length") (use utf8_next_pos in auto)

function utf8_lossy :: "u8 list \<Rightarrow> u8 list" where
  "utf8_lossy [] = []"
| "utf8_lossy (b # bs) =
     (if fst (utf8_next (b # bs)) then take (snd (utf8_next (b # bs))) (b # bs) else [239, 191, 189]) @
     utf8_lossy (drop (snd (utf8_next (b # bs))) (b # bs))"
  by pat_completeness auto
termination
  by (relation "measure length") (use utf8_next_pos in auto)

lemma utf8_lossy_valid: "utf8_valid bs \<Longrightarrow> utf8_lossy bs = bs"
  by (induction bs rule: utf8_valid.induct) (simp_all del: utf8_next.simps)

lemma utf8_valid_ascii: "list_all (\<lambda>b. b < 128) bs \<Longrightarrow> utf8_valid bs"
  by (induction bs) (simp_all add: utf8_width_def)

text \<open>\<open>str::split_once\<close> with a single character.\<close>

definition split_once :: "u8 \<Rightarrow> u8 list \<Rightarrow> u8 list \<times> u8 list option" where
  "split_once sep t =
     (if sep \<in> set t then (takeWhile (\<lambda>b. b \<noteq> sep) t, Some (tl (dropWhile (\<lambda>b. b \<noteq> sep) t))) else (t, None))"

lemma split_once_first: "sep \<notin> set a \<Longrightarrow> split_once sep (a @ sep # b) = (a, Some b)"
  by (induction a) (auto simp: split_once_def split: if_splits)

lemma split_once_absent: "sep \<notin> set a \<Longrightarrow> split_once sep a = (a, None)"
  by (simp add: split_once_def)

text \<open>The lower case hexadecimal digit.\<close>

definition hex_digit :: "nat \<Rightarrow> u8" where
  "hex_digit d = (if d < 10 then 48 + d else 87 + d)"

lemma hex_digit_inj: "d < 16 \<Longrightarrow> e < 16 \<Longrightarrow> hex_digit d = hex_digit e \<Longrightarrow> d = e"
  by (auto simp: hex_digit_def split: if_splits)

end
