(* ===== verification/Auth_Trust.thy ===== *)
theory Auth_Trust
  imports Text_Lib
begin

text \<open>
  The trust base of the daemon, from \<open>src/termd/src/auth/mod.rs\<close>: the identities of the daemon
  and of devices, the trusted-device records, the interface \<open>TrustedDeviceStore\<close> with its
  provided methods, and the in-memory store that implements it.

  A Rust \<open>String\<close> on the wire (keys, tokens, challenges, nonces) is the list of its UTF-8 bytes,
  so that \<open>len\<close> is the length; a label is the list of its scalar values, because \<open>trim\<close> works
  on those. Identifiers are the numbers of the UUIDs; where the code prints one, the text is an
  argument.

  The trait is the locale \<open>trusted_device_store\<close>: the operations a client calls, with what each
  promises about the following lookups. Its provided methods (\<open>require_trusted\<close>, ...) are
  definitions over the lookup, and the store's client lemmas are proved once from the laws.
\<close>

declare map_of_eq_Some_iff [simp del] Some_eq_map_of_iff [simp del]

section \<open>Identities\<close>

type_synonym wire_text = "u8 list"
type_synonym uuid = nat
type_synonym unix_ms = u64
type_synonym label_text = "nat list"

record daemon_public_identity =
  dpi_server_id :: uuid
  dpi_public_key :: wire_text

record device_identity =
  di_device_id :: uuid
  di_public_key :: wire_text

record trusted_device =
  td_identity :: device_identity
  td_trusted_at_ms :: unix_ms
  td_last_seen_at_ms :: "unix_ms option"
  td_label :: "label_text option"

datatype auth_error =
    UntrustedDevice uuid
  | DeviceKeyMismatch uuid

definition normalize_label :: "label_text option \<Rightarrow> label_text option" where
  "normalize_label label =
     (case map_option trim_text label of
        None \<Rightarrow> None
      | Some v \<Rightarrow> if v \<noteq> [] then Some v else None)"

definition trusted_device_new :: "device_identity \<Rightarrow> unix_ms \<Rightarrow> label_text option \<Rightarrow> trusted_device" where
  "trusted_device_new identity at label =
     \<lparr>td_identity = identity, td_trusted_at_ms = at, td_last_seen_at_ms = None,
      td_label = normalize_label label\<rparr>"

definition trusted_device_restore ::
  "device_identity \<Rightarrow> unix_ms \<Rightarrow> unix_ms option \<Rightarrow> label_text option \<Rightarrow> trusted_device" where
  "trusted_device_restore identity at seen label =
     \<lparr>td_identity = identity, td_trusted_at_ms = at, td_last_seen_at_ms = seen,
      td_label = normalize_label label\<rparr>"

abbreviation td_device_id :: "trusted_device \<Rightarrow> uuid" where
  "td_device_id d \<equiv> di_device_id (td_identity d)"

abbreviation td_public_key :: "trusted_device \<Rightarrow> wire_text" where
  "td_public_key d \<equiv> di_public_key (td_identity d)"

definition refresh :: "device_identity \<Rightarrow> unix_ms \<Rightarrow> label_text option \<Rightarrow> trusted_device \<Rightarrow> trusted_device" where
  "refresh identity at label d =
     d\<lparr>td_identity := identity, td_trusted_at_ms := at, td_label := normalize_label label\<rparr>"

definition device_mark_seen :: "unix_ms \<Rightarrow> trusted_device \<Rightarrow> trusted_device" where
  "device_mark_seen at d = d\<lparr>td_last_seen_at_ms := Some at\<rparr>"


section \<open>The provided methods of the trait\<close>

definition is_trusted :: "('s \<Rightarrow> uuid \<Rightarrow> trusted_device option) \<Rightarrow> 's \<Rightarrow> uuid \<Rightarrow> bool" where
  "is_trusted lookup s d \<longleftrightarrow> lookup s d \<noteq> None"

definition require_trusted ::
  "('s \<Rightarrow> uuid \<Rightarrow> trusted_device option) \<Rightarrow> 's \<Rightarrow> uuid \<Rightarrow> auth_error + trusted_device" where
  "require_trusted lookup s d =
     (case lookup s d of None \<Rightarrow> Inl (UntrustedDevice d) | Some t \<Rightarrow> Inr t)"

definition require_trusted_identity ::
  "('s \<Rightarrow> uuid \<Rightarrow> trusted_device option) \<Rightarrow> 's \<Rightarrow> device_identity \<Rightarrow> auth_error + trusted_device" where
  "require_trusted_identity lookup s identity =
     (case require_trusted lookup s (di_device_id identity) of
        Inl e \<Rightarrow> Inl e
      | Inr t \<Rightarrow> if td_public_key t \<noteq> di_public_key identity
                 then Inl (DeviceKeyMismatch (di_device_id identity)) else Inr t)"

definition is_trusted_identity ::
  "('s \<Rightarrow> uuid \<Rightarrow> trusted_device option) \<Rightarrow> 's \<Rightarrow> device_identity \<Rightarrow> bool" where
  "is_trusted_identity lookup s identity \<longleftrightarrow> \<not> isl (require_trusted_identity lookup s identity)"


section \<open>The in-memory store\<close>

type_synonym trusted_store = "(uuid, trusted_device) hmap"

definition store_trust_device :: "device_identity \<Rightarrow> unix_ms \<Rightarrow> label_text option \<Rightarrow> trusted_store \<Rightarrow> trusted_store" where
  "store_trust_device identity at label s =
     (let d = di_device_id identity in
      hm_insert d (case hm_get s d of
          Some t \<Rightarrow> refresh identity at label t
        | None \<Rightarrow> trusted_device_new identity at label) s)"

definition store_trusted_device :: "trusted_store \<Rightarrow> uuid \<Rightarrow> trusted_device option" where
  "store_trusted_device s d = hm_get s d"

definition store_revoke_device :: "uuid \<Rightarrow> trusted_store \<Rightarrow> trusted_device option \<times> trusted_store" where
  "store_revoke_device d s = (hm_get s d, hm_remove d s)"

definition store_mark_seen :: "uuid \<Rightarrow> unix_ms \<Rightarrow> trusted_store \<Rightarrow> (auth_error + unit) \<times> trusted_store" where
  "store_mark_seen d at s =
     (case hm_get s d of
        None \<Rightarrow> (Inl (UntrustedDevice d), s)
      | Some t \<Rightarrow> (Inr (), hm_insert d (device_mark_seen at t) s))"

definition store_len :: "trusted_store \<Rightarrow> usize" where
  "store_len s = length s"

definition from_trusted_devices :: "trusted_device list \<Rightarrow> trusted_store" where
  "from_trusted_devices ds = fold (\<lambda>d s. hm_insert (td_device_id d) d s) ds []"

definition trusted_devices :: "trusted_store \<Rightarrow> trusted_device list" where
  "trusted_devices s = map snd s"


section \<open>The contract of a store\<close>

locale trusted_device_store =
  fixes lookup :: "'s \<Rightarrow> uuid \<Rightarrow> trusted_device option"
    and trust :: "device_identity \<Rightarrow> unix_ms \<Rightarrow> label_text option \<Rightarrow> 's \<Rightarrow> 's"
    and revoke :: "uuid \<Rightarrow> 's \<Rightarrow> trusted_device option \<times> 's"
    and mark_seen :: "uuid \<Rightarrow> unix_ms \<Rightarrow> 's \<Rightarrow> (auth_error + unit) \<times> 's"
  assumes lookup_trust: "lookup (trust identity at label s) d =
      (if d = di_device_id identity
       then Some (case lookup s d of Some t \<Rightarrow> refresh identity at label t
                                   | None \<Rightarrow> trusted_device_new identity at label)
       else lookup s d)"
    and lookup_revoke: "lookup (snd (revoke k s)) d = (if d = k then None else lookup s d)"
    and revoke_result: "fst (revoke k s) = lookup s k"
    and mark_seen_unknown: "lookup s k = None \<Longrightarrow> mark_seen k at s = (Inl (UntrustedDevice k), s)"
    and mark_seen_known: "lookup s k = Some t \<Longrightarrow> fst (mark_seen k at s) = Inr ()"
    and lookup_mark_seen: "lookup s k = Some t \<Longrightarrow> lookup (snd (mark_seen k at s)) d =
      (if d = k then Some (device_mark_seen at t) else lookup s d)"
begin

text \<open>
  A device is known only under the key of its last pairing, and marking it as seen never changes
  who is trusted or under which key.
\<close>

definition trusted_key :: "'s \<Rightarrow> uuid \<Rightarrow> wire_text option" where
  "trusted_key s d = map_option td_public_key (lookup s d)"

lemma trusted_key_trust:
  "trusted_key (trust identity at label s) d =
     (if d = di_device_id identity then Some (di_public_key identity) else trusted_key s d)"
  by (auto simp: trusted_key_def lookup_trust refresh_def trusted_device_new_def split: option.splits)

lemma trusted_key_revoke: "trusted_key (snd (revoke k s)) d = (if d = k then None else trusted_key s d)"
  by (simp add: trusted_key_def lookup_revoke)

lemma trusted_key_mark_seen: "trusted_key (snd (mark_seen k at s)) d = trusted_key s d"
  by (cases "lookup s k")
    (auto simp: trusted_key_def mark_seen_unknown lookup_mark_seen device_mark_seen_def)

lemma require_trusted_iff:
  "(\<exists>t. require_trusted lookup s d = Inr t) \<longleftrightarrow> trusted_key s d \<noteq> None"
  by (auto simp: require_trusted_def trusted_key_def split: option.splits)

lemma identity_trusted_iff:
  "is_trusted_identity lookup s identity \<longleftrightarrow>
     trusted_key s (di_device_id identity) = Some (di_public_key identity)"
  by (auto simp: is_trusted_identity_def require_trusted_identity_def require_trusted_def trusted_key_def
      split: option.splits)

lemma trust_makes_trusted: "is_trusted_identity lookup (trust identity at label s) identity"
  by (simp add: identity_trusted_iff trusted_key_trust)

lemma revoke_untrusts: "require_trusted lookup (snd (revoke k s)) k = Inl (UntrustedDevice k)"
  by (simp add: require_trusted_def lookup_revoke)

end

interpretation mem: trusted_device_store store_trusted_device store_trust_device
    store_revoke_device store_mark_seen
  by unfold_locales
    (auto simp: store_trusted_device_def store_trust_device_def store_revoke_device_def
      store_mark_seen_def Let_def split: option.splits)

text \<open>
  The map of the in-memory store is consistent when each record is filed under its own device.
\<close>

definition store_ok :: "trusted_store \<Rightarrow> bool" where
  "store_ok s \<longleftrightarrow> hm_wf s \<and> (\<forall>d t. hm_get s d = Some t \<longrightarrow> td_device_id t = d)"

lemma store_ok_empty: "store_ok []"
  by (simp add: store_ok_def)

lemma store_okD: "store_ok s \<Longrightarrow> hm_get s d = Some t \<Longrightarrow> td_device_id t = d"
  unfolding store_ok_def by blast

lemma store_ok_insert: "store_ok s \<Longrightarrow> td_device_id t = d \<Longrightarrow> store_ok (hm_insert d t s)"
  unfolding store_ok_def by (metis hm_get_insert hm_wf_insert option.inject)

lemma store_ok_trust: "store_ok s \<Longrightarrow> store_ok (store_trust_device identity at label s)"
  unfolding store_trust_device_def Let_def
  by (rule store_ok_insert) (auto simp: refresh_def trusted_device_new_def split: option.splits)

lemma store_ok_revoke: "store_ok s \<Longrightarrow> store_ok (snd (store_revoke_device d s))"
  unfolding store_ok_def store_revoke_device_def
  by (metis hm_get_remove hm_wf_remove option.distinct(1) snd_conv)

lemma store_ok_mark_seen: "store_ok s \<Longrightarrow> store_ok (snd (store_mark_seen d at s))"
  by (cases "hm_get s d")
    (simp_all add: store_mark_seen_def device_mark_seen_def store_ok_insert store_okD)

lemma fold_insert_get:
  "hm_get (fold (\<lambda>d s. hm_insert (td_device_id d) d s) ds s) k =
     (case find (\<lambda>d. td_device_id d = k) (rev ds) of Some d \<Rightarrow> Some d | None \<Rightarrow> hm_get s k)"
proof (induction ds arbitrary: s rule: rev_induct)
  case Nil
  then show ?case by simp
next
  case (snoc d ds)
  then show ?case by (auto split: option.splits)
qed

lemma fold_insert_ok: "store_ok s \<Longrightarrow> store_ok (fold (\<lambda>d s. hm_insert (td_device_id d) d s) ds s)"
proof (induction ds arbitrary: s)
  case Nil
  then show ?case by simp
next
  case (Cons d ds)
  then have "store_ok (hm_insert (td_device_id d) d s)" by (simp add: store_ok_insert)
  from Cons.IH [OF this] show ?case by simp
qed

text \<open>
  Restoring the records that \<open>trusted_devices\<close> lists gives back a store with the same answers
  (what the daemon persists and reads back at its next start).
\<close>

lemma store_reload:
  assumes "store_ok s"
  shows "store_trusted_device (from_trusted_devices (trusted_devices s)) d = store_trusted_device s d"
proof -
  let ?p = "\<lambda>t. td_device_id t = d" and ?l = "rev (map snd s)"
  have entry: "hm_get s d = Some u" if "u \<in> set ?l" "?p u" for u
  proof -
    from that(1) obtain k where "(k, u) \<in> set s" by auto
    moreover have "hm_wf s" using assms unfolding store_ok_def by blast
    ultimately have "hm_get s k = Some u" by simp
    then show ?thesis using store_okD [OF assms] that(2) by blast
  qed
  have "(case find ?p ?l of Some t \<Rightarrow> Some t | None \<Rightarrow> None) = hm_get s d"
  proof (cases "find ?p ?l")
    case None
    have "hm_get s d = None"
    proof (rule ccontr)
      assume "hm_get s d \<noteq> None"
      then obtain t where "hm_get s d = Some t" by auto
      then have p: "?p t" and "(d, t) \<in> set s" by (rule store_okD [OF assms], rule map_of_SomeD)
      from this(2) have "t \<in> snd ` set s" by (rule rev_image_eqI) simp
      with p have "?p t" "t \<in> set ?l" by simp_all
      with None show False by (auto simp: find_None_iff)
    qed
    with None show ?thesis by simp
  next
    case (Some u)
    then have "u \<in> set ?l" "?p u" by (auto simp: find_Some_iff simp del: set_rev)
    with Some show ?thesis using entry by simp
  qed
  then show ?thesis
    by (simp add: from_trusted_devices_def trusted_devices_def store_trusted_device_def fold_insert_get split: option.splits)
qed

end
