(* ===== verification/One_Time.thy ===== *)
theory One_Time
  imports Termd_Prelude
begin

text \<open>
  One-time credentials. Pairing tokens, auth challenges and download grants are kept in maps from their
  text to a record with an expiry, and each may be granted once per issue. The locale \<open>one_time\<close> says what
  a record must offer (which records are still grantable, when they expire, what a fresh record looks
  like, which record cannot be granted any more); the ledger argument is proved once in it. It is
  interpreted on the records of \<open>Auth_Pairing\<close>, \<open>Auth_Challenge\<close> and \<open>Session_Download\<close>.
\<close>

section \<open>Events\<close>

datatype 'k ledger_event = Issued 'k nat | Granted 'k nat

definition issues :: "'k \<Rightarrow> 'k ledger_event list \<Rightarrow> nat" where
  "issues t log = length (filter (\<lambda>e. case e of Issued s _ \<Rightarrow> s = t | _ \<Rightarrow> False) log)"

definition grants :: "'k \<Rightarrow> 'k ledger_event list \<Rightarrow> nat" where
  "grants t log = length (filter (\<lambda>e. case e of Granted s _ \<Rightarrow> s = t | _ \<Rightarrow> False) log)"

lemma ledger_counts [simp]:
  "issues t [] = 0" "grants t [] = 0"
  "issues t (log @ log') = issues t log + issues t log'" "grants t (log @ log') = grants t log + grants t log'"
  "issues t [Issued s x] = (if s = t then 1 else 0)" "issues t [Granted s n] = 0"
  "grants t [Granted s n] = (if s = t then 1 else 0)" "grants t [Issued s x] = 0"
  by (simp_all add: issues_def grants_def)


section \<open>The contract and the ledger\<close>

locale one_time =
  fixes live :: "'r \<Rightarrow> bool"
    and expires :: "'r \<Rightarrow> nat"
    and sound :: "'r \<Rightarrow> bool"
    and fresh :: "'k \<Rightarrow> 'a \<Rightarrow> nat \<Rightarrow> 'r"
    and spent :: "'r \<Rightarrow> bool"
  assumes fresh_live: "live (fresh k a x)"
    and fresh_expires: "expires (fresh k a x) = x"
    and fresh_sound: "sound (fresh k a x)"
    and spent_not_live: "spent r \<Longrightarrow> \<not> live r"
begin

text \<open>
  A step shrinks the map if records only disappear, keep their expiry and soundness, and never
  become live again. A grant is a shrinking step that spends or removes a live and unexpired record.
\<close>

definition shrinks :: "('k, 'r) hmap \<Rightarrow> ('k, 'r) hmap \<Rightarrow> bool" where
  "shrinks m m' \<longleftrightarrow> hm_wf m' \<and>
     (\<forall>t r'. hm_get m' t = Some r' \<longrightarrow>
        (\<exists>r. hm_get m t = Some r \<and> expires r' = expires r \<and> (live r' \<longrightarrow> live r) \<and> (sound r \<longrightarrow> sound r')))"

definition grant :: "'k \<Rightarrow> nat \<Rightarrow> ('k, 'r) hmap \<Rightarrow> ('k, 'r) hmap \<Rightarrow> bool" where
  "grant t now m m' \<longleftrightarrow> (\<exists>r. hm_get m t = Some r \<and> live r \<and> now < expires r) \<and>
     shrinks m m' \<and> (\<forall>r'. hm_get m' t = Some r' \<longrightarrow> spent r')"

definition live_in :: "('k, 'r) hmap \<Rightarrow> 'k \<Rightarrow> bool" where
  "live_in m t \<longleftrightarrow> (case hm_get m t of None \<Rightarrow> False | Some r \<Rightarrow> live r)"

text \<open>The ledger: a live record has an issue that no grant has used up.\<close>

definition ledger_ok :: "'k ledger_event list \<Rightarrow> ('k, 'r) hmap \<Rightarrow> bool" where
  "ledger_ok log m \<longleftrightarrow> hm_wf m \<and>
     (\<forall>t. grants t log + (if live_in m t then 1 else 0) \<le> issues t log) \<and>
     (\<forall>t r. hm_get m t = Some r \<longrightarrow> Issued t (expires r) \<in> set log \<and> sound r) \<and>
     (\<forall>t now. Granted t now \<in> set log \<longrightarrow> (\<exists>x. Issued t x \<in> set log \<and> now < x))"

lemma shrinks_refl: "hm_wf m \<Longrightarrow> shrinks m m"
  by (simp add: shrinks_def)

lemma shrinks_trans: "shrinks a b \<Longrightarrow> shrinks b c \<Longrightarrow> shrinks a c"
  unfolding shrinks_def by metis

lemma shrinks_wf: "shrinks a b \<Longrightarrow> hm_wf b"
  by (simp add: shrinks_def)

lemma shrinks_retain: "hm_wf m \<Longrightarrow> shrinks m (hm_retain P m)"
  by (auto simp: shrinks_def split: option.splits if_splits)

lemma shrinks_remove: "hm_wf m \<Longrightarrow> shrinks m (hm_remove k m)"
  by (auto simp: shrinks_def split: if_splits)

lemma shrinks_update:
  assumes "hm_wf m" "hm_get m k = Some r" "expires r' = expires r" "live r' \<Longrightarrow> live r" "sound r \<Longrightarrow> sound r'"
  shows "shrinks m (hm_insert k r' m)"
  using assms by (auto simp: shrinks_def)

lemma shrinks_grant:
  assumes "shrinks m m1" "grant t now m1 m2"
  shows "grant t now m m2"
proof -
  obtain r where "hm_get m1 t = Some r" "live r" "now < expires r" using assms(2) by (auto simp: grant_def)
  then obtain r0 where "hm_get m t = Some r0" "live r0" "now < expires r0"
    using assms(1) unfolding shrinks_def by metis
  with assms show ?thesis using shrinks_trans by (auto simp: grant_def)
qed

lemma live_shrinks: "shrinks m m' \<Longrightarrow> live_in m' t \<Longrightarrow> live_in m t"
  by (force simp: shrinks_def live_in_def split: option.splits)

lemma ledger_start: "ledger_ok [] []"
  by (simp add: ledger_ok_def live_in_def)

lemma ledgerD:
  assumes "ledger_ok log m"
  shows "hm_wf m" "grants t log + (if live_in m t then 1 else 0) \<le> issues t log"
    "hm_get m t = Some r \<Longrightarrow> Issued t (expires r) \<in> set log \<and> sound r"
    "Granted t now \<in> set log \<Longrightarrow> \<exists>x. Issued t x \<in> set log \<and> now < x"
  using assms unfolding ledger_ok_def by blast+

lemma ledgerI:
  assumes "hm_wf m" "\<And>t. grants t log + (if live_in m t then 1 else 0) \<le> issues t log"
    "\<And>t r. hm_get m t = Some r \<Longrightarrow> Issued t (expires r) \<in> set log \<and> sound r"
    "\<And>t now. Granted t now \<in> set log \<Longrightarrow> \<exists>x. Issued t x \<in> set log \<and> now < x"
  shows "ledger_ok log m"
  using assms unfolding ledger_ok_def by blast

lemma ledger_shrinks:
  assumes "ledger_ok log m" "shrinks m m'"
  shows "ledger_ok log m'"
proof (rule ledgerI)
  show "hm_wf m'" using assms(2) by (rule shrinks_wf)
  show "grants t log + (if live_in m' t then 1 else 0) \<le> issues t log" for t
    using ledgerD(2) [OF assms(1), of t] live_shrinks [OF assms(2), of t] by (auto split: if_splits)
  show "Issued t (expires r) \<in> set log \<and> sound r" if "hm_get m' t = Some r" for t r
    using ledgerD(3) [OF assms(1), of t] assms(2) that unfolding shrinks_def by metis
  show "\<exists>x. Issued t x \<in> set log \<and> now < x" if "Granted t now \<in> set log" for t now
    using ledgerD(4) [OF assms(1) that] .
qed

lemma ledger_grant:
  assumes "ledger_ok log m" "grant t now m m'"
  shows "ledger_ok (log @ [Granted t now]) m'"
proof (rule ledgerI)
  obtain r where r: "hm_get m t = Some r" "live r" "now < expires r" and s: "shrinks m m'"
    and dead: "\<not> live_in m' t"
    using assms(2) spent_not_live by (auto simp: grant_def live_in_def split: option.splits)
  have ok: "ledger_ok log m'" by (rule ledger_shrinks [OF assms(1) s])
  show "hm_wf m'" by (rule ledgerD(1) [OF ok])
  show "grants u (log @ [Granted t now]) + (if live_in m' u then 1 else 0) \<le> issues u (log @ [Granted t now])" for u
    using ledgerD(2) [OF ok, of u] ledgerD(2) [OF assms(1), of t] r dead by (auto simp: live_in_def)
  show "Issued u (expires v) \<in> set (log @ [Granted t now]) \<and> sound v" if "hm_get m' u = Some v" for u v
    using ledgerD(3) [OF ok that] by simp
  show "\<exists>x. Issued u x \<in> set (log @ [Granted t now]) \<and> n < x" if "Granted u n \<in> set (log @ [Granted t now])" for u n
    using that ledgerD(4) [OF ok, of u n] ledgerD(3) [OF assms(1) r(1)] r(3) by auto
qed

lemma ledger_issue:
  assumes "ledger_ok log m" "hm_get m t = None"
  shows "ledger_ok (log @ [Issued t x]) (hm_insert t (fresh t a x) m)"
proof (rule ledgerI)
  let ?m = "hm_insert t (fresh t a x) m"
  show "hm_wf ?m" using ledgerD(1) [OF assms(1)] by simp
  have is_live: "live_in ?m u = (u = t \<or> live_in m u)" for u
    using assms(2) fresh_live by (auto simp: live_in_def)
  show "grants u (log @ [Issued t x]) + (if live_in ?m u then 1 else 0) \<le> issues u (log @ [Issued t x])" for u
    using ledgerD(2) [OF assms(1), of u] by (simp add: is_live split: if_splits)
  show "Issued u (expires v) \<in> set (log @ [Issued t x]) \<and> sound v" if "hm_get ?m u = Some v" for u v
    using that ledgerD(3) [OF assms(1), of u v] fresh_expires fresh_sound by (auto split: if_splits)
  show "\<exists>y. Issued u y \<in> set (log @ [Issued t x]) \<and> n < y" if "Granted u n \<in> set (log @ [Issued t x])" for u n
    using that ledgerD(4) [OF assms(1), of u n] by auto
qed

text \<open>What a trace shows in the end.\<close>

lemma ledger_single_use:
  assumes "ledger_ok log m"
  shows "grants t log \<le> issues t log \<and>
    (\<forall>now. Granted t now \<in> set log \<longrightarrow> (\<exists>x. Issued t x \<in> set log \<and> now < x))"
  using ledgerD(2,4) [OF assms, of t] by (auto split: if_splits)

end

end
