(* ===== verification/Auth_Pairing.thy ===== *)
theory Auth_Pairing
  imports Auth_Trust One_Time
begin

text \<open>
  One-time pairing, from \<open>src/termd/src/auth/mod.rs\<close>: \<open>PairingTokenManager\<close> (issue, consume,
  revoke, prune) and \<open>PairingService\<close> (reserve, release, commit, accept).

  Each structure has one map from token text to record and is modelled as that map. A fresh UUID is
  an argument: the text of the UUID drawn by \<open>generate_pairing_token\<close>, and for \<open>issue\<close>, whose
  loop draws until the token is new, the list of the draws; the result is \<open>None\<close> only if that list
  ends before the loop does (\<open>issue_first_fresh\<close> shows when it ends). The base64 decoder and the
  curve check of public keys are arguments.

  The properties are about every sequence of operations, with any arguments: a token is granted at
  most as often as it was issued and only before it expires.
\<close>

section \<open>Data\<close>

datatype pairing_error =
    PE_InvalidToken
  | PE_ExpiredToken unix_ms unix_ms
  | PE_AlreadyUsedToken
  | PE_ReservedToken
  | PE_RevokedToken
  | PE_InvalidDevicePublicKey
  | PE_InvalidTtl u64

datatype pairing_token_state = PTS_Active | PTS_Reserved | PTS_Consumed | PTS_Revoked

record pairing_token_record =
  ptr_token :: wire_text
  ptr_issued_at_ms :: unix_ms
  ptr_expires_at_ms :: unix_ms
  ptr_state :: pairing_token_state
  ptr_consumed_at_ms :: "unix_ms option"
  ptr_reservation_id :: "wire_text option"

type_synonym pairing_tokens = "(wire_text, pairing_token_record) hmap"

record pair_request_payload =
  prq_device_id :: uuid
  prq_device_public_key :: wire_text
  prq_token :: wire_text
  prq_nonce :: wire_text
  prq_timestamp_ms :: unix_ms

record pair_accept_payload =
  pac_server_id :: uuid
  pac_daemon_public_key :: wire_text
  pac_device_id :: uuid
  pac_expires_at_ms :: unix_ms

record pending_pairing =
  pp_accepted :: pair_accept_payload
  pp_device_identity :: device_identity
  pp_token_key :: wire_text
  pp_reservation_id :: wire_text

definition pairing_token_record_new :: "wire_text \<Rightarrow> unix_ms \<Rightarrow> unix_ms \<Rightarrow> pairing_token_record" where
  "pairing_token_record_new token issued expires =
     \<lparr>ptr_token = token, ptr_issued_at_ms = issued, ptr_expires_at_ms = expires,
      ptr_state = PTS_Active, ptr_consumed_at_ms = None, ptr_reservation_id = None\<rparr>"

definition token_is_expired :: "unix_ms \<Rightarrow> pairing_token_record \<Rightarrow> bool" where
  "token_is_expired now r \<longleftrightarrow> ptr_expires_at_ms r \<le> now"

definition generate_pairing_token :: "wire_text \<Rightarrow> wire_text" where
  "generate_pairing_token uuid = ascii ''termd-pair-'' @ uuid"


section \<open>The token manager\<close>

definition prune_expired_except :: "unix_ms \<Rightarrow> wire_text option \<Rightarrow> pairing_tokens \<Rightarrow> usize \<times> pairing_tokens" where
  "prune_expired_except now protected m =
     (let m' = hm_retain (\<lambda>k r. protected = Some k \<or> \<not> token_is_expired now r) m
      in (length m - length m', m'))"

definition prune_expired :: "unix_ms \<Rightarrow> pairing_tokens \<Rightarrow> usize \<times> pairing_tokens" where
  "prune_expired now m = prune_expired_except now None m"

fun issue_loop :: "wire_text list \<Rightarrow> unix_ms \<Rightarrow> unix_ms \<Rightarrow> pairing_tokens \<Rightarrow>
    (pairing_error + pairing_token_record) option \<times> pairing_tokens" where
  "issue_loop [] now expires m = (None, m)"
| "issue_loop (u # us) now expires m =
     (let token = generate_pairing_token u in
      if hm_get m token \<noteq> None then issue_loop us now expires m
      else let r = pairing_token_record_new token now expires in (Some (Inr r), hm_insert token r m))"

definition token_issue :: "wire_text list \<Rightarrow> unix_ms \<Rightarrow> u64 \<Rightarrow> pairing_tokens \<Rightarrow>
    (pairing_error + pairing_token_record) option \<times> pairing_tokens" where
  "token_issue draws now ttl m =
     (if ttl = 0 then (Some (Inl (PE_InvalidTtl ttl)), m)
      else if now + ttl > u64_max then (Some (Inl (PE_InvalidTtl ttl)), m)
      else issue_loop draws now (now + ttl) (snd (prune_expired now m)))"

text \<open>The checks that consuming and reserving share: the state first, then the expiry.\<close>

definition token_state_check :: "pairing_token_record \<Rightarrow> pairing_error option" where
  "token_state_check r =
     (case ptr_state r of
        PTS_Active \<Rightarrow> None
      | PTS_Reserved \<Rightarrow> Some PE_ReservedToken
      | PTS_Consumed \<Rightarrow> Some PE_AlreadyUsedToken
      | PTS_Revoked \<Rightarrow> Some PE_RevokedToken)"

definition token_consume :: "wire_text \<Rightarrow> unix_ms \<Rightarrow> pairing_tokens \<Rightarrow>
    (pairing_error + pairing_token_record) \<times> pairing_tokens" where
  "token_consume token now m0 =
     (let m = snd (prune_expired_except now (Some token) m0) in
      case hm_get m token of
        None \<Rightarrow> (Inl PE_InvalidToken, m)
      | Some r \<Rightarrow>
          (case token_state_check r of
             Some e \<Rightarrow> (Inl e, m)
           | None \<Rightarrow>
               if token_is_expired now r
               then (Inl (PE_ExpiredToken (ptr_expires_at_ms r) now), hm_remove token m)
               else let r' = r\<lparr>ptr_state := PTS_Consumed, ptr_consumed_at_ms := Some now\<rparr>
                    in (Inr r', hm_insert token r' m)))"

definition token_revoke :: "wire_text \<Rightarrow> pairing_tokens \<Rightarrow> bool \<times> pairing_tokens" where
  "token_revoke token m =
     (case hm_get m token of
        None \<Rightarrow> (False, m)
      | Some r \<Rightarrow>
          if ptr_state r = PTS_Consumed \<or> ptr_state r = PTS_Revoked then (False, m)
          else (True, hm_insert token (r\<lparr>ptr_state := PTS_Revoked, ptr_reservation_id := None\<rparr>) m))"


section \<open>The pairing service\<close>

definition ed25519_wire_prefix :: wire_text where
  "ed25519_wire_prefix = ascii ''ed25519-v1:''"

definition strip_prefix :: "'a list \<Rightarrow> 'a list \<Rightarrow> 'a list option" where
  "strip_prefix p t = (if take (length p) t = p then Some (drop (length p) t) else None)"

text \<open>\<open>b64\<close> is the standard base64 decoder, \<open>on_curve\<close> the check of \<open>VerifyingKey::from_bytes\<close>.\<close>

definition validate_device_public_key_wire ::
  "(wire_text \<Rightarrow> u8 list option) \<Rightarrow> (u8 list \<Rightarrow> bool) \<Rightarrow> wire_text \<Rightarrow> pairing_error + unit" where
  "validate_device_public_key_wire b64 on_curve pk =
     (case strip_prefix ed25519_wire_prefix pk of
        None \<Rightarrow> Inl PE_InvalidDevicePublicKey
      | Some encoded \<Rightarrow>
          (case b64 encoded of
             None \<Rightarrow> Inl PE_InvalidDevicePublicKey
           | Some bytes \<Rightarrow>
               if length bytes \<noteq> 32 then Inl PE_InvalidDevicePublicKey
               else if \<not> on_curve bytes then Inl PE_InvalidDevicePublicKey
               else Inr ()))"

definition reserve_pair_request ::
  "(wire_text \<Rightarrow> u8 list option) \<Rightarrow> (u8 list \<Rightarrow> bool) \<Rightarrow> wire_text \<Rightarrow> pair_request_payload \<Rightarrow> unix_ms \<Rightarrow>
   daemon_public_identity \<Rightarrow> pairing_tokens \<Rightarrow> (pairing_error + pending_pairing) \<times> pairing_tokens" where
  "reserve_pair_request b64 on_curve draw req now daemon m0 =
     (case validate_device_public_key_wire b64 on_curve (prq_device_public_key req) of
        Inl e \<Rightarrow> (Inl e, m0)
      | Inr _ \<Rightarrow>
          (let token = prq_token req; m = snd (prune_expired_except now (Some token) m0) in
           case hm_get m token of
             None \<Rightarrow> (Inl PE_InvalidToken, m)
           | Some r \<Rightarrow>
               (case token_state_check r of
                  Some e \<Rightarrow> (Inl e, m)
                | None \<Rightarrow>
                    if token_is_expired now r
                    then (Inl (PE_ExpiredToken (ptr_expires_at_ms r) now), hm_remove token m)
                    else
                      (let rid = generate_pairing_token draw;
                           r' = r\<lparr>ptr_state := PTS_Reserved, ptr_reservation_id := Some rid\<rparr>
                       in (Inr \<lparr>pp_accepted =
                                  \<lparr>pac_server_id = dpi_server_id daemon,
                                   pac_daemon_public_key = dpi_public_key daemon,
                                   pac_device_id = prq_device_id req,
                                   pac_expires_at_ms = ptr_expires_at_ms r\<rparr>,
                                pp_device_identity =
                                  \<lparr>di_device_id = prq_device_id req,
                                   di_public_key = prq_device_public_key req\<rparr>,
                                pp_token_key = token, pp_reservation_id = rid\<rparr>,
                           hm_insert token r' m)))))"

definition release_pairing_reservation :: "pending_pairing \<Rightarrow> pairing_tokens \<Rightarrow> bool \<times> pairing_tokens" where
  "release_pairing_reservation p m =
     (case hm_get m (pp_token_key p) of
        None \<Rightarrow> (False, m)
      | Some r \<Rightarrow>
          if ptr_state r \<noteq> PTS_Reserved \<or> ptr_reservation_id r \<noteq> Some (pp_reservation_id p)
          then (False, m)
          else (True, hm_insert (pp_token_key p)
                        (r\<lparr>ptr_state := PTS_Active, ptr_reservation_id := None\<rparr>) m))"

definition commit_pairing_reservation ::
  "pending_pairing \<Rightarrow> unix_ms \<Rightarrow> pairing_tokens \<Rightarrow> (pairing_error + pairing_token_record) \<times> pairing_tokens" where
  "commit_pairing_reservation p now m =
     (case hm_get m (pp_token_key p) of
        None \<Rightarrow> (Inl PE_InvalidToken, m)
      | Some r \<Rightarrow>
          (case ptr_state r of
             PTS_Reserved \<Rightarrow>
               if ptr_reservation_id r \<noteq> Some (pp_reservation_id p) then (Inl PE_ReservedToken, m)
               else if token_is_expired now r
               then (Inl (PE_ExpiredToken (ptr_expires_at_ms r) now),
                     hm_insert (pp_token_key p) (r\<lparr>ptr_state := PTS_Active, ptr_reservation_id := None\<rparr>) m)
               else let r' = r\<lparr>ptr_state := PTS_Consumed, ptr_reservation_id := None,
                               ptr_consumed_at_ms := Some now\<rparr>
                    in (Inr r', hm_insert (pp_token_key p) r' m)
           | PTS_Active \<Rightarrow> (Inl PE_InvalidToken, m)
           | PTS_Consumed \<Rightarrow> (Inl PE_AlreadyUsedToken, m)
           | PTS_Revoked \<Rightarrow> (Inl PE_RevokedToken, m)))"

definition consume_pair_request ::
  "(wire_text \<Rightarrow> u8 list option) \<Rightarrow> (u8 list \<Rightarrow> bool) \<Rightarrow> wire_text \<Rightarrow> pair_request_payload \<Rightarrow> unix_ms \<Rightarrow>
   daemon_public_identity \<Rightarrow> pairing_tokens \<Rightarrow> (pairing_error + pending_pairing) \<times> pairing_tokens" where
  "consume_pair_request b64 on_curve draw req now daemon m =
     (case reserve_pair_request b64 on_curve draw req now daemon m of
        (Inl e, m1) \<Rightarrow> (Inl e, m1)
      | (Inr p, m1) \<Rightarrow>
          (case commit_pairing_reservation p now m1 of
             (Inl e, m2) \<Rightarrow> (Inl e, m2)
           | (Inr _, m2) \<Rightarrow> (Inr p, m2)))"

text \<open>The store is any implementation of the trait; \<open>trust\<close> is its \<open>trust_device\<close>.\<close>

definition trust_pending_pairing ::
  "(device_identity \<Rightarrow> unix_ms \<Rightarrow> label_text option \<Rightarrow> 's \<Rightarrow> 's) \<Rightarrow> pending_pairing \<Rightarrow> unix_ms \<Rightarrow> 's \<Rightarrow> 's" where
  "trust_pending_pairing trust p now s = trust (pp_device_identity p) now None s"

definition accept_pair_request ::
  "(device_identity \<Rightarrow> unix_ms \<Rightarrow> label_text option \<Rightarrow> 's \<Rightarrow> 's) \<Rightarrow>
   (wire_text \<Rightarrow> u8 list option) \<Rightarrow> (u8 list \<Rightarrow> bool) \<Rightarrow> wire_text \<Rightarrow> pair_request_payload \<Rightarrow> unix_ms \<Rightarrow>
   daemon_public_identity \<Rightarrow> pairing_tokens \<Rightarrow> 's \<Rightarrow>
   (pairing_error + pair_accept_payload) \<times> pairing_tokens \<times> 's" where
  "accept_pair_request trust b64 on_curve draw req now daemon m s =
     (case consume_pair_request b64 on_curve draw req now daemon m of
        (Inl e, m1) \<Rightarrow> (Inl e, m1, s)
      | (Inr p, m1) \<Rightarrow> (Inr (pp_accepted p), m1, trust_pending_pairing trust p now s))"


section \<open>Steps of the token map\<close>

text \<open>
  A token is live while it can still be granted, and a record names a reservation exactly while it
  is reserved. Every operation that neither issues nor grants only shrinks the map.
\<close>

definition token_live :: "pairing_token_record \<Rightarrow> bool" where
  "token_live r \<longleftrightarrow> ptr_state r = PTS_Active \<or> ptr_state r = PTS_Reserved"

definition reservation_ok :: "pairing_token_record \<Rightarrow> bool" where
  "reservation_ok r \<longleftrightarrow> (ptr_reservation_id r = None \<longleftrightarrow> ptr_state r \<noteq> PTS_Reserved)"

interpretation tok: one_time token_live ptr_expires_at_ms reservation_ok pairing_token_record_new
    "\<lambda>r. ptr_state r = PTS_Consumed"
  by unfold_locales (auto simp: token_live_def reservation_ok_def pairing_token_record_new_def)

lemma token_shrinks_prune: "hm_wf m \<Longrightarrow> tok.shrinks m (snd (prune_expired_except now p m))"
  by (simp add: prune_expired_except_def Let_def tok.shrinks_retain)

lemma prune_get:
  "hm_wf m \<Longrightarrow> hm_get (snd (prune_expired_except now p m)) k =
     (case hm_get m k of None \<Rightarrow> None
      | Some r \<Rightarrow> if p = Some k \<or> \<not> token_is_expired now r then Some r else None)"
  by (simp add: prune_expired_except_def Let_def)

lemma prune_wf: "hm_wf m \<Longrightarrow> hm_wf (snd (prune_expired_except now p m))"
  by (simp add: prune_expired_except_def Let_def)

lemma state_check_None: "token_state_check r = None \<longleftrightarrow> ptr_state r = PTS_Active"
  by (cases "ptr_state r") (auto simp: token_state_check_def)

lemma token_consume_step:
  assumes "hm_wf m" "token_consume t now m = (res, m')"
  shows "case res of Inl e \<Rightarrow> tok.shrinks m m' | Inr r \<Rightarrow> tok.grant t now m m'"
proof -
  let ?m = "snd (prune_expired_except now (Some t) m)"
  have p: "hm_wf ?m" "tok.shrinks m ?m" "hm_get ?m t = hm_get m t"
    using assms(1) by (auto simp: prune_wf token_shrinks_prune prune_get split: option.splits)
  have step: "tok.shrinks m b" if "tok.shrinks ?m b" for b
    using p(2) that by (rule tok.shrinks_trans)
  show ?thesis
  proof (cases "hm_get m t")
    case None
    with assms(2) p show ?thesis by (auto simp: token_consume_def)
  next
    case (Some r)
    have "tok.shrinks ?m (hm_insert t (r\<lparr>ptr_state := PTS_Consumed, ptr_consumed_at_ms := Some now\<rparr>) ?m)"
      if "ptr_state r = PTS_Active"
      using p Some that by (intro tok.shrinks_update [where r = r]) (auto simp: token_live_def reservation_ok_def)
    then show ?thesis
      using assms(2) p Some step tok.shrinks_remove [OF p(1)]
      by (auto simp: token_consume_def Let_def tok.grant_def token_live_def state_check_None token_is_expired_def
          split: option.splits if_splits)
  qed
qed

lemma token_revoke_step: "hm_wf m \<Longrightarrow> tok.shrinks m (snd (token_revoke t m))"
  by (auto simp: token_revoke_def token_live_def reservation_ok_def split: option.splits
      intro!: tok.shrinks_refl tok.shrinks_update)

lemma release_step: "hm_wf m \<Longrightarrow> tok.shrinks m (snd (release_pairing_reservation p m))"
  by (auto simp: release_pairing_reservation_def token_live_def reservation_ok_def split: option.splits
      intro!: tok.shrinks_refl tok.shrinks_update)

lemma reserve_step:
  assumes "hm_wf m" "reserve_pair_request b64 on_curve draw req now daemon m = (res, m')"
  shows "tok.shrinks m m'"
proof -
  let ?t = "prq_token req"
  let ?m = "snd (prune_expired_except now (Some ?t) m)"
  have p: "hm_wf ?m" "tok.shrinks m ?m" using assms(1) by (auto simp: prune_wf token_shrinks_prune)
  have upd: "tok.shrinks ?m (hm_insert ?t (r\<lparr>ptr_state := PTS_Reserved, ptr_reservation_id := Some x\<rparr>) ?m)"
    if "hm_get ?m ?t = Some r" "ptr_state r = PTS_Active" for r x
    using p that by (intro tok.shrinks_update [where r = r]) (auto simp: token_live_def reservation_ok_def)
  have "tok.shrinks ?m m' \<or> m' = m"
    using assms(2) upd tok.shrinks_refl [OF p(1)] tok.shrinks_remove [OF p(1)]
    by (auto simp: reserve_pair_request_def Let_def state_check_None split: sum.splits option.splits if_splits)
  then show ?thesis
    using p tok.shrinks_trans tok.shrinks_refl [OF assms(1)] by blast
qed

lemma commit_step:
  assumes "hm_wf m" "commit_pairing_reservation p now m = (res, m')"
  shows "case res of Inl e \<Rightarrow> tok.shrinks m m' | Inr r \<Rightarrow> tok.grant (pp_token_key p) now m m'"
proof (cases "hm_get m (pp_token_key p)")
  case None
  with assms show ?thesis by (auto simp: commit_pairing_reservation_def tok.shrinks_refl)
next
  case (Some r)
  have upd: "tok.shrinks m (hm_insert (pp_token_key p) r' m)"
    if "ptr_expires_at_ms r' = ptr_expires_at_ms r" "ptr_state r = PTS_Reserved" "reservation_ok r'" for r'
    using assms(1) Some that by (intro tok.shrinks_update [where r = r]) (auto simp: token_live_def)
  show ?thesis
    using assms Some upd tok.shrinks_refl [OF assms(1)]
    by (auto simp: commit_pairing_reservation_def Let_def tok.grant_def token_live_def token_is_expired_def reservation_ok_def
        split: pairing_token_state.splits if_splits)
qed

lemma consume_pair_step:
  assumes "hm_wf m" "consume_pair_request b64 on_curve draw req now daemon m = (res, m')"
  shows "case res of Inl e \<Rightarrow> tok.shrinks m m' | Inr p \<Rightarrow> tok.grant (prq_token req) now m m'"
proof -
  obtain res1 m1 where r1: "reserve_pair_request b64 on_curve draw req now daemon m = (res1, m1)" by force
  from reserve_step [OF assms(1) r1] have s1: "tok.shrinks m m1" "hm_wf m1" by (auto simp: tok.shrinks_def)
  show ?thesis
  proof (cases res1)
    case (Inl e)
    with assms(2) r1 s1 show ?thesis by (auto simp: consume_pair_request_def)
  next
    case (Inr p)
    have key: "pp_token_key p = prq_token req"
      using r1 Inr by (auto simp: reserve_pair_request_def Let_def split: sum.splits option.splits if_splits)
    obtain res2 m2 where r2: "commit_pairing_reservation p now m1 = (res2, m2)" by force
    note grant = tok.shrinks_grant [OF s1(1)]
    from commit_step [OF s1(2) r2] grant show ?thesis
      using assms(2) r1 r2 Inr s1 tok.shrinks_trans by (auto simp: consume_pair_request_def key split: sum.splits)
  qed
qed

lemma issue_loop_result:
  "issue_loop us now x m = (res, m') \<Longrightarrow>
    (res = None \<and> m' = m) \<or>
    (\<exists>t. hm_get m t = None \<and> res = Some (Inr (pairing_token_record_new t now x)) \<and>
         m' = hm_insert t (pairing_token_record_new t now x) m)"
  by (induction us) (auto simp: Let_def split: if_splits)

text \<open>The loop of \<open>issue\<close> ends at the first draw whose token is not in use.\<close>

lemma issue_first_fresh:
  "(\<exists>u \<in> set us. hm_get m (generate_pairing_token u) = None) \<Longrightarrow>
    \<exists>r m'. issue_loop us now x m = (Some (Inr r), m')"
  by (induction us) (auto simp: Let_def)


section \<open>Sequences of pairing operations\<close>

datatype pairing_op =
    Op_issue "wire_text list" unix_ms u64
  | Op_consume wire_text unix_ms
  | Op_revoke wire_text
  | Op_prune unix_ms
  | Op_reserve wire_text pair_request_payload unix_ms
  | Op_release pending_pairing
  | Op_commit pending_pairing unix_ms
  | Op_pair wire_text pair_request_payload unix_ms

fun pairing_step :: "(wire_text \<Rightarrow> u8 list option) \<Rightarrow> (u8 list \<Rightarrow> bool) \<Rightarrow> daemon_public_identity \<Rightarrow>
    pairing_op \<Rightarrow> pairing_tokens \<Rightarrow> wire_text ledger_event list \<times> pairing_tokens" where
  "pairing_step b64 oc daemon (Op_issue draws now ttl) m =
     (case token_issue draws now ttl m of
        (Some (Inr r), m') \<Rightarrow> ([Issued (ptr_token r) (ptr_expires_at_ms r)], m')
      | (_, m') \<Rightarrow> ([], m'))"
| "pairing_step b64 oc daemon (Op_consume t now) m =
     (case token_consume t now m of (Inr _, m') \<Rightarrow> ([Granted t now], m') | (Inl _, m') \<Rightarrow> ([], m'))"
| "pairing_step b64 oc daemon (Op_revoke t) m = ([], snd (token_revoke t m))"
| "pairing_step b64 oc daemon (Op_prune now) m = ([], snd (prune_expired now m))"
| "pairing_step b64 oc daemon (Op_reserve draw req now) m =
     ([], snd (reserve_pair_request b64 oc draw req now daemon m))"
| "pairing_step b64 oc daemon (Op_release p) m = ([], snd (release_pairing_reservation p m))"
| "pairing_step b64 oc daemon (Op_commit p now) m =
     (case commit_pairing_reservation p now m of
        (Inr _, m') \<Rightarrow> ([Granted (pp_token_key p) now], m') | (Inl _, m') \<Rightarrow> ([], m'))"
| "pairing_step b64 oc daemon (Op_pair draw req now) m =
     (case consume_pair_request b64 oc draw req now daemon m of
        (Inr _, m') \<Rightarrow> ([Granted (prq_token req) now], m') | (Inl _, m') \<Rightarrow> ([], m'))"

inductive pairing_trace :: "(wire_text \<Rightarrow> u8 list option) \<Rightarrow> (u8 list \<Rightarrow> bool) \<Rightarrow> daemon_public_identity \<Rightarrow>
    wire_text ledger_event list \<Rightarrow> pairing_tokens \<Rightarrow> bool" for b64 oc daemon where
  start: "pairing_trace b64 oc daemon [] []"
| step: "pairing_trace b64 oc daemon log m \<Longrightarrow> pairing_step b64 oc daemon op m = (evs, m') \<Longrightarrow>
    pairing_trace b64 oc daemon (log @ evs) m'"

lemma pairing_ledger_step:
  assumes "tok.ledger_ok log m" "pairing_step b64 oc daemon op m = (evs, m')"
  shows "tok.ledger_ok (log @ evs) m'"
proof -
  have wf: "hm_wf m" by (rule tok.ledgerD(1) [OF assms(1)])
  note shr = tok.ledger_shrinks [OF assms(1)] and gr = tok.ledger_grant [OF assms(1)]
  show ?thesis
  proof (cases op)
    case (Op_issue draws now ttl)
    let ?m = "snd (prune_expired now m)"
    have ok: "tok.ledger_ok log ?m" using shr token_shrinks_prune [OF wf] by (simp add: prune_expired_def)
    obtain res n where i: "issue_loop draws now (now + ttl) ?m = (res, n)" by force
    from issue_loop_result [OF i] tok.ledger_issue [OF ok] ok assms show ?thesis
      by (auto simp: Op_issue token_issue_def i pairing_token_record_new_def split: if_splits)
  next
    case (Op_consume t now)
    obtain res n where "token_consume t now m = (res, n)" by force
    with token_consume_step [OF wf this] shr gr assms(2) show ?thesis
      by (auto simp: Op_consume split: sum.splits)
  next
    case (Op_revoke t)
    with shr [OF token_revoke_step [OF wf]] assms(2) show ?thesis by auto
  next
    case (Op_prune now)
    with shr [OF token_shrinks_prune [OF wf]] assms(2) show ?thesis by (auto simp: prune_expired_def)
  next
    case (Op_reserve draw req now)
    obtain res n where "reserve_pair_request b64 oc draw req now daemon m = (res, n)" by force
    with reserve_step [OF wf this] shr assms(2) show ?thesis by (auto simp: Op_reserve)
  next
    case (Op_release p)
    with shr [OF release_step [OF wf]] assms(2) show ?thesis by auto
  next
    case (Op_commit p now)
    obtain res n where "commit_pairing_reservation p now m = (res, n)" by force
    with commit_step [OF wf this] shr gr assms(2) show ?thesis by (auto simp: Op_commit split: sum.splits)
  next
    case (Op_pair draw req now)
    obtain res n where "consume_pair_request b64 oc draw req now daemon m = (res, n)" by force
    with consume_pair_step [OF wf this] shr gr assms(2) show ?thesis by (auto simp: Op_pair split: sum.splits)
  qed
qed

lemma pairing_trace_ledger: "pairing_trace b64 oc daemon log m \<Longrightarrow> tok.ledger_ok log m"
proof (induction rule: pairing_trace.induct)
  case start
  show ?case by (rule tok.ledger_start)
next
  case step
  then show ?case using pairing_ledger_step by blast
qed


section \<open>The whole pairing request\<close>

text \<open>When a request may be granted: the key is well formed, the token is active and not expired.\<close>

definition pairable :: "(wire_text \<Rightarrow> u8 list option) \<Rightarrow> (u8 list \<Rightarrow> bool) \<Rightarrow> pair_request_payload \<Rightarrow> unix_ms \<Rightarrow>
    pairing_tokens \<Rightarrow> bool" where
  "pairable b64 oc req now m \<longleftrightarrow>
     validate_device_public_key_wire b64 oc (prq_device_public_key req) = Inr () \<and>
     (\<exists>r. hm_get m (prq_token req) = Some r \<and> ptr_state r = PTS_Active \<and> now < ptr_expires_at_ms r)"

lemma reserve_ok:
  assumes "hm_wf m" "pairable b64 oc req now m" "hm_get m (prq_token req) = Some r"
  shows "reserve_pair_request b64 oc draw req now daemon m =
    (Inr \<lparr>pp_accepted = \<lparr>pac_server_id = dpi_server_id daemon, pac_daemon_public_key = dpi_public_key daemon,
            pac_device_id = prq_device_id req, pac_expires_at_ms = ptr_expires_at_ms r\<rparr>,
          pp_device_identity = \<lparr>di_device_id = prq_device_id req, di_public_key = prq_device_public_key req\<rparr>,
          pp_token_key = prq_token req, pp_reservation_id = generate_pairing_token draw\<rparr>,
     hm_insert (prq_token req)
       (r\<lparr>ptr_state := PTS_Reserved, ptr_reservation_id := Some (generate_pairing_token draw)\<rparr>)
       (snd (prune_expired_except now (Some (prq_token req)) m)))"
  using assms
  by (auto simp: reserve_pair_request_def pairable_def Let_def prune_get state_check_None token_is_expired_def
      split: option.splits)

lemma reserve_refused:
  assumes "hm_wf m" "\<not> pairable b64 oc req now m"
  shows "\<exists>e. fst (reserve_pair_request b64 oc draw req now daemon m) = Inl e"
  using assms
  by (auto simp: reserve_pair_request_def pairable_def Let_def prune_get state_check_None token_is_expired_def
      split: sum.splits option.splits)

lemma consume_pair_ok:
  assumes "hm_wf m" "pairable b64 oc req now m" "hm_get m (prq_token req) = Some r"
  shows "\<exists>p m'. consume_pair_request b64 oc draw req now daemon m = (Inr p, m') \<and>
    pp_accepted p = \<lparr>pac_server_id = dpi_server_id daemon, pac_daemon_public_key = dpi_public_key daemon,
      pac_device_id = prq_device_id req, pac_expires_at_ms = ptr_expires_at_ms r\<rparr> \<and>
    pp_device_identity p = \<lparr>di_device_id = prq_device_id req, di_public_key = prq_device_public_key req\<rparr> \<and>
    hm_get m' (prq_token req) = Some (r\<lparr>ptr_state := PTS_Consumed, ptr_reservation_id := None, ptr_consumed_at_ms := Some now\<rparr>)"
  using assms(2,3)
  by (auto simp: consume_pair_request_def reserve_ok [OF assms] commit_pairing_reservation_def Let_def
      pairable_def token_is_expired_def)

lemma consume_pair_refused:
  assumes "hm_wf m" "\<not> pairable b64 oc req now m"
  shows "\<exists>e m'. consume_pair_request b64 oc draw req now daemon m = (Inl e, m')"
  using reserve_refused [OF assms, of draw daemon]
  by (cases "reserve_pair_request b64 oc draw req now daemon m") (auto simp: consume_pair_request_def)

section \<open>Properties\<close>

text \<open>A small daemon for the witnesses: every key text decodes, and one token is issued.\<close>

definition demo_b64 :: "wire_text \<Rightarrow> u8 list option" where
  "demo_b64 t = Some (replicate 32 0)"

definition demo_daemon :: daemon_public_identity where
  "demo_daemon = \<lparr>dpi_server_id = 7, dpi_public_key = [1]\<rparr>"

definition demo_request :: pair_request_payload where
  "demo_request = \<lparr>prq_device_id = 3, prq_device_public_key = ed25519_wire_prefix @ [65],
     prq_token = generate_pairing_token [49], prq_nonce = [], prq_timestamp_ms = 0\<rparr>"

definition demo_tokens :: pairing_tokens where
  "demo_tokens = snd (token_issue [[49]] 100 50 [])"

lemmas demo_pairing_defs = demo_b64_def demo_daemon_def demo_request_def demo_tokens_def

lemma demo_tokens_eval:
  "demo_tokens = [(generate_pairing_token [49], pairing_token_record_new (generate_pairing_token [49]) 100 150)]"
  by (simp add: demo_tokens_def token_issue_def prune_expired_def prune_expired_except_def Let_def u64_max_def hm_retain_def)

lemma demo_tokens_trace:
  "pairing_trace demo_b64 (\<lambda>_. True) demo_daemon [Issued (generate_pairing_token [49]) 150] demo_tokens"
proof -
  have "pairing_step demo_b64 (\<lambda>_. True) demo_daemon (Op_issue [[49]] 100 50) [] =
      ([Issued (generate_pairing_token [49]) 150], demo_tokens)"
    by (simp add: demo_tokens_eval token_issue_def prune_expired_def prune_expired_except_def Let_def u64_max_def
        hm_retain_def pairing_token_record_new_def)
  from pairing_trace.step [OF pairing_trace.start this] show ?thesis by simp
qed

text \<open>
  C6. Pairing tokens are single-use and expire. Whatever sequence of issuing, reserving, releasing,
  committing, consuming, revoking and pruning the daemon runs, with whatever arguments, no token is
  granted more often than it was issued, and each grant happens before the expiry time of an issue
  of that token.
\<close>

theorem pairing_token_single_use:
  assumes "pairing_trace b64 oc daemon log m"
  shows "grants t log \<le> issues t log \<and>
    (\<forall>now. Granted t now \<in> set log \<longrightarrow> (\<exists>x. Issued t x \<in> set log \<and> now < x))"
  by (rule tok.ledger_single_use [OF pairing_trace_ledger [OF assms]])

theorem pairing_token_single_use_witness:
  "\<exists>log m. pairing_trace demo_b64 (\<lambda>_. True) demo_daemon log m \<and>
     grants (generate_pairing_token [49]) log = 1 \<and> issues (generate_pairing_token [49]) log = 1 \<and>
     grants (generate_pairing_token [49]) log \<le> issues (generate_pairing_token [49]) log"
proof -
  let ?t = "generate_pairing_token [49]"
  have "\<exists>m. pairing_step demo_b64 (\<lambda>_. True) demo_daemon (Op_pair [50] demo_request 120) demo_tokens = ([Granted ?t 120], m)"
    by (simp add: demo_tokens_eval demo_request_def consume_pair_request_def reserve_pair_request_def
        commit_pairing_reservation_def validate_device_public_key_wire_def strip_prefix_def demo_b64_def Let_def
        prune_expired_except_def hm_retain_def pairing_token_record_new_def token_state_check_def token_is_expired_def)
  then obtain m where "pairing_trace demo_b64 (\<lambda>_. True) demo_daemon ([Issued ?t 150] @ [Granted ?t 120]) m"
    using pairing_trace.step [OF demo_tokens_trace] by blast
  from this pairing_token_single_use [OF this, of ?t] show ?thesis
    by (intro exI [of _ "[Issued ?t 150] @ [Granted ?t 120]"] exI [of _ m]) (simp del: append.simps)
qed

text \<open>
  A pair request is accepted exactly when its key is a well-formed Ed25519 key and its token is
  active and not expired. Then the device is trusted under exactly the requested key, no other
  device's trust changes, the reply names this daemon, the device and the token's expiry, and the
  token is consumed. A refused request leaves the trust store unchanged.
\<close>

lemma pair_request_trusts_requested_key:
  assumes "hm_wf m"
    and "accept_pair_request store_trust_device b64 oc draw req now daemon m s = (res, m', s')"
  shows "((\<exists>a. res = Inr a) \<longleftrightarrow> pairable b64 oc req now m) \<and>
    (\<forall>e. res = Inl e \<longrightarrow> s' = s) \<and>
    (\<forall>a. res = Inr a \<longrightarrow>
       (\<forall>d. map_option td_public_key (store_trusted_device s' d) =
         (if d = prq_device_id req then Some (prq_device_public_key req)
          else map_option td_public_key (store_trusted_device s d))) \<and>
       pac_server_id a = dpi_server_id daemon \<and> pac_daemon_public_key a = dpi_public_key daemon \<and>
       pac_device_id a = prq_device_id req \<and>
       (\<exists>r. hm_get m' (prq_token req) = Some r \<and> ptr_state r = PTS_Consumed \<and> pac_expires_at_ms a = ptr_expires_at_ms r))"
proof (cases "pairable b64 oc req now m")
  case True
  then obtain r where r: "hm_get m (prq_token req) = Some r" by (auto simp: pairable_def)
  from consume_pair_ok [OF assms(1) True r, of draw daemon] True assms(2) show ?thesis
    by (auto simp: accept_pair_request_def trust_pending_pairing_def mem.lookup_trust refresh_def trusted_device_new_def split: option.splits)
next
  case False
  from consume_pair_refused [OF assms(1) False, of draw daemon] False assms(2) show ?thesis
    by (auto simp: accept_pair_request_def)
qed

text \<open>
  Two-phase pairing is exact. After a successful reservation in a reachable state, every other
  request for that token is refused as reserved until it expires; releasing the reservation restores
  the token map as it was (less the expired records); committing before the expiry consumes the
  token; and the reservation cannot be used again after the commit.
\<close>

lemma reservation_is_exclusive_and_undoable:
  assumes "pairing_trace b64 oc daemon log m"
    and "reserve_pair_request b64 oc draw req now daemon m = (Inr p, m1)"
    and "now' < pac_expires_at_ms (pp_accepted p)"
  shows "release_pairing_reservation p m1 = (True, snd (prune_expired_except now (Some (prq_token req)) m)) \<and>
    (prq_token req' = prq_token req \<and> validate_device_public_key_wire b64 oc (prq_device_public_key req') = Inr () \<longrightarrow>
       fst (reserve_pair_request b64 oc draw' req' now' daemon m1) = Inl PE_ReservedToken) \<and>
    (\<exists>r m2. commit_pairing_reservation p now' m1 = (Inr r, m2) \<and> ptr_state r = PTS_Consumed \<and>
       commit_pairing_reservation p t m2 = (Inl PE_AlreadyUsedToken, m2) \<and>
       release_pairing_reservation p m2 = (False, m2))"
proof -
  let ?t = "prq_token req" and ?m = "snd (prune_expired_except now (Some (prq_token req)) m)"
  note led = tok.ledgerD [OF pairing_trace_ledger [OF assms(1)]]
  have pr: "pairable b64 oc req now m"
    using reserve_refused [OF led(1), of b64 oc req now draw daemon] assms(2) by auto
  then obtain r where r: "hm_get m ?t = Some r" "ptr_state r = PTS_Active" by (auto simp: pairable_def)
  let ?r = "r\<lparr>ptr_state := PTS_Reserved, ptr_reservation_id := Some (generate_pairing_token draw)\<rparr>"
  have none: "ptr_reservation_id r = None" using led(3) [OF r(1)] r(2) by (simp add: reservation_ok_def)
  note res = reserve_ok [OF led(1) pr r(1), of draw daemon]
  have m1: "m1 = hm_insert ?t ?r ?m" and p: "pp_token_key p = ?t" "pp_reservation_id p = generate_pairing_token draw"
    "now' < ptr_expires_at_ms r" using assms(2,3) unfolding res by auto
  have get: "hm_get ?m ?t = Some r" "hm_wf ?m" using led(1) r(1) by (simp_all add: prune_get prune_wf)
  have undo: "r\<lparr>ptr_state := PTS_Active, ptr_reservation_id := None\<rparr> = r" using r(2) none by simp
  have "release_pairing_reservation p m1 = (True, ?m)"
    unfolding release_pairing_reservation_def m1 p
    by (simp add: undo hm_insert_same get)
  moreover have "fst (reserve_pair_request b64 oc draw' req' now' daemon m1) = Inl PE_ReservedToken"
    if "prq_token req' = ?t" "validate_device_public_key_wire b64 oc (prq_device_public_key req') = Inr ()"
    using that get(2) by (simp add: reserve_pair_request_def Let_def prune_get m1 token_state_check_def)
  moreover have "\<exists>r m2. commit_pairing_reservation p now' m1 = (Inr r, m2) \<and> ptr_state r = PTS_Consumed \<and>
       commit_pairing_reservation p t m2 = (Inl PE_AlreadyUsedToken, m2) \<and> release_pairing_reservation p m2 = (False, m2)"
    using p by (simp add: commit_pairing_reservation_def release_pairing_reservation_def m1 Let_def token_is_expired_def)
  ultimately show ?thesis by blast
qed

end
