(* ===== verification/Auth_Challenge.thy ===== *)
theory Auth_Challenge
  imports Auth_Trust One_Time
begin

text \<open>
  One-time challenges and replay protection, from \<open>src/termd/src/auth/mod.rs\<close>:
  \<open>AuthChallengeManager\<close> (issue with the per-device cap, consume, revoke, prune) and
  \<open>ReplayProtector\<close> (check, record, prune).

  As in \<open>Auth_Pairing\<close> the drawn UUID texts are arguments. The loop of the cap is a function with a
  termination proof; its choice of the oldest entry does not depend on the order of the map, because
  the comparison of the source is by issue time and then by key.
\<close>

declare map_of_eq_Some_iff [simp del] Some_eq_map_of_iff [simp del]

section \<open>Challenges\<close>

datatype challenge_error =
    CE_InvalidChallenge
  | CE_DeviceMismatch uuid uuid
  | CE_ExpiredChallenge unix_ms unix_ms
  | CE_UsedChallenge
  | CE_RevokedChallenge
  | CE_InvalidTtl u64

datatype auth_challenge_state = ACS_Active | ACS_Consumed | ACS_Revoked

record auth_challenge_record =
  acr_challenge :: wire_text
  acr_device_id :: uuid
  acr_issued_at_ms :: unix_ms
  acr_expires_at_ms :: unix_ms
  acr_state :: auth_challenge_state
  acr_consumed_at_ms :: "unix_ms option"

type_synonym challenges = "(wire_text, auth_challenge_record) hmap"

definition auth_challenge_record_new :: "wire_text \<Rightarrow> uuid \<Rightarrow> unix_ms \<Rightarrow> unix_ms \<Rightarrow> auth_challenge_record" where
  "auth_challenge_record_new challenge device issued expires =
     \<lparr>acr_challenge = challenge, acr_device_id = device, acr_issued_at_ms = issued,
      acr_expires_at_ms = expires, acr_state = ACS_Active, acr_consumed_at_ms = None\<rparr>"

definition challenge_is_expired :: "unix_ms \<Rightarrow> auth_challenge_record \<Rightarrow> bool" where
  "challenge_is_expired now r \<longleftrightarrow> acr_expires_at_ms r \<le> now"

definition generate_auth_challenge :: "wire_text \<Rightarrow> wire_text" where
  "generate_auth_challenge uuid = ascii ''termd-auth-challenge-'' @ uuid"

definition max_outstanding_per_device :: usize where
  "max_outstanding_per_device = 8"

definition challenge_prune_expired :: "unix_ms \<Rightarrow> challenges \<Rightarrow> usize \<times> challenges" where
  "challenge_prune_expired now m =
     (let m' = hm_retain (\<lambda>k r. \<not> challenge_is_expired now r) m in (length m - length m', m'))"

definition prune_unusable_except :: "unix_ms \<Rightarrow> wire_text option \<Rightarrow> challenges \<Rightarrow> usize \<times> challenges" where
  "prune_unusable_except now protected m =
     (let m' = hm_retain (\<lambda>k r. if protected = Some k then True
                                else \<not> challenge_is_expired now r \<and> acr_state r \<noteq> ACS_Consumed) m
      in (length m - length m', m'))"

text \<open>\<open>str::cmp\<close>, and the order of \<open>min_by\<close>: issue time, then key.\<close>

fun str_less :: "wire_text \<Rightarrow> wire_text \<Rightarrow> bool" where
  "str_less xs [] = False"
| "str_less [] (y # ys) = True"
| "str_less (x # xs) (y # ys) = (x < y \<or> x = y \<and> str_less xs ys)"

definition challenge_older :: "wire_text \<times> auth_challenge_record \<Rightarrow> wire_text \<times> auth_challenge_record \<Rightarrow> bool" where
  "challenge_older a b \<longleftrightarrow> acr_issued_at_ms (snd a) < acr_issued_at_ms (snd b) \<or>
     acr_issued_at_ms (snd a) = acr_issued_at_ms (snd b) \<and> str_less (fst a) (fst b)"

definition min_challenge :: "(wire_text \<times> auth_challenge_record) list \<Rightarrow> (wire_text \<times> auth_challenge_record) option" where
  "min_challenge es =
     (case es of [] \<Rightarrow> None
      | e # es' \<Rightarrow> Some (fold (\<lambda>x best. if challenge_older x best then x else best) es' e))"

definition active_for :: "uuid \<Rightarrow> auth_challenge_record \<Rightarrow> bool" where
  "active_for d r \<longleftrightarrow> acr_device_id r = d \<and> acr_state r = ACS_Active"

lemma pick_oldest:
  fixes es :: "(wire_text \<times> auth_challenge_record) list"
  defines "pick \<equiv> \<lambda>x best. if challenge_older x best then x else best"
  shows "fold pick es b \<in> set (b # es) \<and>
    (\<forall>x \<in> set (b # es). acr_issued_at_ms (snd (fold pick es b)) \<le> acr_issued_at_ms (snd x))"
proof (induction es arbitrary: b)
  case Nil
  then show ?case by simp
next
  case (Cons x es)
  let ?b = "pick x b"
  have "acr_issued_at_ms (snd ?b) \<le> acr_issued_at_ms (snd x)" "acr_issued_at_ms (snd ?b) \<le> acr_issued_at_ms (snd b)"
    "?b = x \<or> ?b = b"
    by (auto simp: pick_def challenge_older_def)
  with Cons.IH [of ?b] show ?case by (auto intro: order_trans)
qed

lemma min_challenge_mem: "min_challenge es = Some e \<Longrightarrow> e \<in> set es"
  using pick_oldest by (fastforce simp: min_challenge_def split: list.splits)

lemma min_challenge_least:
  "min_challenge es = Some e \<Longrightarrow> x \<in> set es \<Longrightarrow> acr_issued_at_ms (snd e) \<le> acr_issued_at_ms (snd x)"
  using pick_oldest by (fastforce simp: min_challenge_def split: list.splits)

function enforce_device_outstanding_cap :: "uuid \<Rightarrow> challenges \<Rightarrow> usize \<times> challenges" where
  "enforce_device_outstanding_cap d m =
     (if max_outstanding_per_device \<le> hm_count (active_for d) m then
        (case min_challenge (filter (\<lambda>e. active_for d (snd e)) m) of
           None \<Rightarrow> (0, m)
         | Some e \<Rightarrow> (let (n, m') = enforce_device_outstanding_cap d (hm_remove (fst e) m) in (Suc n, m')))
      else (0, m))"
  by pat_completeness auto
termination
proof (relation "measure (\<lambda>(d, m). length m)")
  fix d m e
  assume "min_challenge (filter (\<lambda>e. active_for d (snd e)) m) = Some e"
  then have "e \<in> set m" using min_challenge_mem by fastforce
  then have "length (hm_remove (fst e) m) < length m"
    by (auto simp: AList.delete_eq intro!: length_filter_less)
  then show "((d, hm_remove (fst e) m), d, m) \<in> measure (\<lambda>(d, m). length m)" by simp
qed simp

declare enforce_device_outstanding_cap.simps [simp del]

fun challenge_issue_loop :: "wire_text list \<Rightarrow> uuid \<Rightarrow> unix_ms \<Rightarrow> unix_ms \<Rightarrow> challenges \<Rightarrow>
    (challenge_error + auth_challenge_record) option \<times> challenges" where
  "challenge_issue_loop [] d now expires m = (None, m)"
| "challenge_issue_loop (u # us) d now expires m =
     (let c = generate_auth_challenge u in
      if hm_get m c \<noteq> None then challenge_issue_loop us d now expires m
      else let r = auth_challenge_record_new c d now expires in (Some (Inr r), hm_insert c r m))"

definition challenge_issue :: "wire_text list \<Rightarrow> uuid \<Rightarrow> unix_ms \<Rightarrow> u64 \<Rightarrow> challenges \<Rightarrow>
    (challenge_error + auth_challenge_record) option \<times> challenges" where
  "challenge_issue draws d now ttl m =
     (if ttl = 0 then (Some (Inl (CE_InvalidTtl ttl)), m)
      else if now + ttl > u64_max then (Some (Inl (CE_InvalidTtl ttl)), m)
      else challenge_issue_loop draws d now (now + ttl)
             (snd (enforce_device_outstanding_cap d (snd (prune_unusable_except now None m)))))"

definition challenge_consume :: "uuid \<Rightarrow> wire_text \<Rightarrow> unix_ms \<Rightarrow> challenges \<Rightarrow>
    (challenge_error + auth_challenge_record) \<times> challenges" where
  "challenge_consume d c now m0 =
     (let m = snd (prune_unusable_except now (Some c) m0) in
      case hm_get m c of
        None \<Rightarrow> (Inl CE_InvalidChallenge, m)
      | Some r \<Rightarrow>
          (case acr_state r of
             ACS_Consumed \<Rightarrow> (Inl CE_UsedChallenge, m)
           | ACS_Revoked \<Rightarrow> (Inl CE_RevokedChallenge, m)
           | ACS_Active \<Rightarrow>
               if challenge_is_expired now r
               then (Inl (CE_ExpiredChallenge (acr_expires_at_ms r) now), hm_remove c m)
               else
                 (let r' = r\<lparr>acr_state := ACS_Consumed, acr_consumed_at_ms := Some now\<rparr> in
                  if acr_device_id r \<noteq> d
                  then (Inl (CE_DeviceMismatch (acr_device_id r) d), hm_insert c r' m)
                  else (Inr r', hm_insert c r' m))))"

definition challenge_revoke :: "uuid \<Rightarrow> wire_text \<Rightarrow> challenges \<Rightarrow> bool \<times> challenges" where
  "challenge_revoke d c m =
     (case hm_get m c of
        None \<Rightarrow> (False, m)
      | Some r \<Rightarrow>
          if acr_device_id r \<noteq> d \<or> acr_state r \<noteq> ACS_Active then (False, m)
          else (True, hm_insert c (r\<lparr>acr_state := ACS_Revoked\<rparr>) m))"


section \<open>Replay protection\<close>

datatype replay_error =
    RE_TimestampOutOfWindow unix_ms unix_ms u64
  | RE_ReplayedNonce uuid

record replay_protector =
  rp_allowed_clock_skew_ms :: u64
  rp_nonces_by_device :: "(uuid, (wire_text, unix_ms) hmap) hmap"

definition default_allowed_clock_skew_ms :: u64 where
  "default_allowed_clock_skew_ms = 5 * 60 * 1000"

definition replay_new :: "u64 \<Rightarrow> replay_protector" where
  "replay_new skew = \<lparr>rp_allowed_clock_skew_ms = skew, rp_nonces_by_device = []\<rparr>"

definition abs_diff :: "nat \<Rightarrow> nat \<Rightarrow> nat" where
  "abs_diff a b = (a - b) + (b - a)"

text \<open>The inner maps are filtered in place, then the emptied ones are dropped.\<close>

definition replay_prune_map :: "u64 \<Rightarrow> unix_ms \<Rightarrow> (uuid, (wire_text, unix_ms) hmap) hmap \<Rightarrow> (uuid, (wire_text, unix_ms) hmap) hmap" where
  "replay_prune_map window now m =
     filter (\<lambda>e. snd e \<noteq> []) (map (\<lambda>e. (fst e, hm_retain (\<lambda>k at. now - at \<le> window) (snd e))) m)"

definition replay_prune :: "unix_ms \<Rightarrow> replay_protector \<Rightarrow> usize \<times> replay_protector" where
  "replay_prune now p =
     (let m = rp_nonces_by_device p; m' = replay_prune_map (rp_allowed_clock_skew_ms p) now m
      in (hm_sum length m - hm_sum length m', p\<lparr>rp_nonces_by_device := m'\<rparr>))"

definition nonce_known :: "replay_protector \<Rightarrow> uuid \<Rightarrow> wire_text \<Rightarrow> bool" where
  "nonce_known p d n \<longleftrightarrow>
     (case hm_get (rp_nonces_by_device p) d of None \<Rightarrow> False | Some ns \<Rightarrow> hm_get ns n \<noteq> None)"

definition replay_check :: "uuid \<Rightarrow> wire_text \<Rightarrow> unix_ms \<Rightarrow> unix_ms \<Rightarrow> replay_protector \<Rightarrow>
    (replay_error + unit) \<times> replay_protector" where
  "replay_check d n ts now p0 =
     (let p = snd (replay_prune now p0) in
      if abs_diff ts now > rp_allowed_clock_skew_ms p
      then (Inl (RE_TimestampOutOfWindow ts now (rp_allowed_clock_skew_ms p)), p)
      else if nonce_known p d n then (Inl (RE_ReplayedNonce d), p)
      else (Inr (), p))"

definition record_checked :: "uuid \<Rightarrow> wire_text \<Rightarrow> unix_ms \<Rightarrow> replay_protector \<Rightarrow> replay_protector" where
  "record_checked d n now p =
     (let m = rp_nonces_by_device p;
          ns = (case hm_get m d of None \<Rightarrow> [] | Some ns \<Rightarrow> ns)
      in p\<lparr>rp_nonces_by_device := hm_insert d (hm_insert n now ns) m\<rparr>)"

definition check_and_record :: "uuid \<Rightarrow> wire_text \<Rightarrow> unix_ms \<Rightarrow> unix_ms \<Rightarrow> replay_protector \<Rightarrow>
    (replay_error + unit) \<times> replay_protector" where
  "check_and_record d n ts now p =
     (case replay_check d n ts now p of
        (Inl e, p') \<Rightarrow> (Inl e, p')
      | (Inr _, p') \<Rightarrow> (Inr (), record_checked d n now p'))"

definition replay_len :: "replay_protector \<Rightarrow> usize" where
  "replay_len p = hm_sum length (rp_nonces_by_device p)"


section \<open>Steps of the challenge map\<close>

text \<open>Only an active challenge can be granted; a record is stamped exactly when it is consumed.\<close>

definition challenge_live :: "auth_challenge_record \<Rightarrow> bool" where
  "challenge_live r \<longleftrightarrow> acr_state r = ACS_Active"

definition challenge_stamped :: "auth_challenge_record \<Rightarrow> bool" where
  "challenge_stamped r \<longleftrightarrow> (acr_consumed_at_ms r \<noteq> None \<longleftrightarrow> acr_state r = ACS_Consumed)"

interpretation ch: one_time challenge_live acr_expires_at_ms challenge_stamped
    "\<lambda>c a x. auth_challenge_record_new c (fst a) (snd a) x" "\<lambda>r. acr_state r = ACS_Consumed"
  by unfold_locales (auto simp: challenge_live_def challenge_stamped_def auth_challenge_record_new_def)

lemma unusable_get:
  "hm_wf m \<Longrightarrow> hm_get (snd (prune_unusable_except now p m)) k =
     (case hm_get m k of None \<Rightarrow> None
      | Some r \<Rightarrow> if p = Some k \<or> \<not> challenge_is_expired now r \<and> acr_state r \<noteq> ACS_Consumed then Some r else None)"
  by (auto simp: prune_unusable_except_def Let_def split: option.splits)

lemma unusable_shrinks: "hm_wf m \<Longrightarrow> ch.shrinks m (snd (prune_unusable_except now p m))"
  by (simp add: prune_unusable_except_def Let_def ch.shrinks_retain)

lemma unusable_wf [simp]: "hm_wf m \<Longrightarrow> hm_wf (snd (prune_unusable_except now p m))"
  by (simp add: prune_unusable_except_def Let_def)

lemma hm_count_remove_le: "hm_count P (hm_remove k m) \<le> hm_count P m"
  by (induction m) (auto simp: hm_count_def)

lemma hm_count_remove:
  assumes "hm_wf m" "hm_get m k = Some r" "P r"
  shows "Suc (hm_count P (hm_remove k m)) = hm_count P m"
  using hm_sum_remove [OF assms(1,2), of "\<lambda>v. if P v then 1 else 0"] assms(3) by (simp add: hm_count_as_sum)

lemma hm_count_update_le:
  assumes "hm_wf m" "hm_get m k = Some r" "P r' \<Longrightarrow> P r"
  shows "hm_count P (hm_insert k r' m) \<le> hm_count P m"
  using hm_sum_insert_present [OF assms(1,2), of "\<lambda>v. if P v then 1 else 0" r'] assms(3)
  by (auto simp: hm_count_as_sum split: if_splits)

lemma hm_count_insert_absent: "hm_get m k = None \<Longrightarrow> hm_count P (hm_insert k r m) = hm_count P m + (if P r then 1 else 0)"
  by (simp add: hm_count_as_sum hm_sum_insert_absent)

text \<open>
  The cap: afterwards the device has room for one more challenge. Only its own active challenges
  are evicted, each at most as recent as every one that stays.
\<close>

lemma min_challenge_some:
  assumes "0 < hm_count P m"
  shows "\<exists>e. min_challenge (filter (\<lambda>e. P (snd e)) m) = Some e"
proof -
  from assms have "filter (\<lambda>e. P (snd e)) m \<noteq> []" by (auto simp: hm_count_def)
  then show ?thesis by (cases "filter (\<lambda>e. P (snd e)) m") (simp_all add: min_challenge_def)
qed

lemma enforce_cap_spec:
  assumes "hm_wf m"
  shows "hm_wf (snd (enforce_device_outstanding_cap d m)) \<and>
    hm_count (active_for d) (snd (enforce_device_outstanding_cap d m)) < max_outstanding_per_device \<and>
    (\<forall>k r. hm_get (snd (enforce_device_outstanding_cap d m)) k = Some r \<longrightarrow> hm_get m k = Some r) \<and>
    (\<forall>k r. hm_get m k = Some r \<and> hm_get (snd (enforce_device_outstanding_cap d m)) k = None \<longrightarrow>
       active_for d r \<and>
       (\<forall>k' r'. hm_get (snd (enforce_device_outstanding_cap d m)) k' = Some r' \<and> active_for d r' \<longrightarrow>
          acr_issued_at_ms r \<le> acr_issued_at_ms r'))"
  using assms
proof (induction d m rule: enforce_device_outstanding_cap.induct)
  case (1 d m)
  show ?case
  proof (cases "max_outstanding_per_device \<le> hm_count (active_for d) m")
    case False
    then show ?thesis using "1.prems" by (auto simp: enforce_device_outstanding_cap.simps [of d m])
  next
    case True
    then obtain e where e: "min_challenge (filter (\<lambda>e. active_for d (snd e)) m) = Some e"
      using min_challenge_some [of "active_for d" m] by (auto simp: max_outstanding_per_device_def)
    let ?m = "hm_remove (fst e) m"
    let ?c = "snd (enforce_device_outstanding_cap d ?m)"
    have step: "snd (enforce_device_outstanding_cap d m) = ?c"
      using True e by (simp add: enforce_device_outstanding_cap.simps [of d m] case_prod_beta)
    have em: "hm_get m (fst e) = Some (snd e)" "active_for d (snd e)"
      using min_challenge_mem [OF e] "1.prems" hm_entry_get [of m "fst e" "snd e"] by auto
    have least: "acr_issued_at_ms (snd e) \<le> acr_issued_at_ms r" if "hm_get m k = Some r" "active_for d r" for k r
      using min_challenge_least [OF e, of "(k, r)"] that by (auto dest: map_of_SomeD)
    note IH = "1.IH" [OF True e hm_wf_remove [OF "1.prems"]]
    have inc: "hm_get m k = Some r" if "hm_get ?c k = Some r" for k r
      using IH that by (metis hm_get_remove option.distinct(1))
    have evicted: "active_for d r \<and> (\<forall>k' r'. hm_get ?c k' = Some r' \<and> active_for d r' \<longrightarrow>
          acr_issued_at_ms r \<le> acr_issued_at_ms r')" if g: "hm_get m k = Some r" "hm_get ?c k = None" for k r
    proof (cases "k = fst e")
      case True
      with em g have "r = snd e" by simp
      then show ?thesis using em(2) least inc by blast
    next
      case False
      then have "hm_get ?m k = Some r" using g by simp
      then show ?thesis using IH g(2) by blast
    qed
    show ?thesis unfolding step using IH inc evicted by blast
  qed
qed

lemma enforce_shrinks: "hm_wf m \<Longrightarrow> ch.shrinks m (snd (enforce_device_outstanding_cap d m))"
  using enforce_cap_spec [of m d] unfolding ch.shrinks_def by blast

lemma enforce_count_le: "hm_wf m \<Longrightarrow> hm_count P (snd (enforce_device_outstanding_cap d m)) \<le> hm_count P m"
proof (induction d m rule: enforce_device_outstanding_cap.induct)
  case (1 d m)
  then show ?case
    by (subst enforce_device_outstanding_cap.simps)
      (auto simp: case_prod_beta split: option.splits intro: order_trans [OF _ hm_count_remove_le])
qed

lemma challenge_issue_loop_result:
  "challenge_issue_loop us d now x m = (res, m') \<Longrightarrow>
    (res = None \<and> m' = m) \<or>
    (\<exists>c. hm_get m c = None \<and> res = Some (Inr (auth_challenge_record_new c d now x)) \<and>
         m' = hm_insert c (auth_challenge_record_new c d now x) m)"
  by (induction us) (auto simp: Let_def split: if_splits)

lemma challenge_issue_first_fresh:
  "(\<exists>u \<in> set us. hm_get m (generate_auth_challenge u) = None) \<Longrightarrow>
    \<exists>r m'. challenge_issue_loop us d now x m = (Some (Inr r), m')"
  by (induction us) (auto simp: Let_def)

text \<open>Consuming: a grant to the right device, or a step that only shrinks the map.\<close>

lemma challenge_consume_step:
  assumes "hm_wf m" "challenge_consume d c now m = (res, m')"
  shows "case res of Inl e \<Rightarrow> ch.shrinks m m'
    | Inr r \<Rightarrow> ch.grant c now m m' \<and> acr_device_id r = d \<and> hm_get m' c = Some r \<and>
        (\<exists>r0. hm_get m c = Some r0 \<and> active_for d r0 \<and> now < acr_expires_at_ms r0)"
    and "hm_count (active_for b) m' \<le> hm_count (active_for b) m"
proof -
  let ?m = "snd (prune_unusable_except now (Some c) m)"
  have p: "hm_wf ?m" "ch.shrinks m ?m" "hm_get ?m c = hm_get m c"
    using assms(1) by (auto simp: unusable_shrinks unusable_get split: option.splits)
  have le: "hm_count (active_for b) ?m \<le> hm_count (active_for b) m"
    by (simp add: prune_unusable_except_def Let_def hm_count_retain_le)
  have upd: "ch.shrinks ?m (hm_insert c (r\<lparr>acr_state := ACS_Consumed, acr_consumed_at_ms := Some now\<rparr>) ?m)"
    if "hm_get m c = Some r" for r
    using p that by (intro ch.shrinks_update [where r = r]) (auto simp: challenge_live_def challenge_stamped_def)
  show "case res of Inl e \<Rightarrow> ch.shrinks m m'
    | Inr r \<Rightarrow> ch.grant c now m m' \<and> acr_device_id r = d \<and> hm_get m' c = Some r \<and>
        (\<exists>r0. hm_get m c = Some r0 \<and> active_for d r0 \<and> now < acr_expires_at_ms r0)"
    using assms(2) p upd ch.shrinks_trans [OF p(2)] ch.shrinks_remove [OF p(1)]
    by (auto simp: challenge_consume_def Let_def ch.grant_def challenge_live_def challenge_is_expired_def active_for_def
        split: option.splits auth_challenge_state.splits if_splits)
  have "hm_count (active_for b) m' \<le> hm_count (active_for b) ?m"
    using assms(2) p hm_count_remove_le [of "active_for b" c ?m]
    by (auto simp: challenge_consume_def Let_def active_for_def
        split: option.splits auth_challenge_state.splits if_splits
        intro!: hm_count_update_le)
  with le show "hm_count (active_for b) m' \<le> hm_count (active_for b) m" by simp
qed

lemma challenge_revoke_step:
  assumes "hm_wf m"
  shows "ch.shrinks m (snd (challenge_revoke d c m))"
    and "hm_count (active_for b) (snd (challenge_revoke d c m)) \<le> hm_count (active_for b) m"
  using assms
  by (auto simp: challenge_revoke_def challenge_live_def challenge_stamped_def active_for_def split: option.splits
      intro!: ch.shrinks_refl ch.shrinks_update hm_count_update_le)


section \<open>Sequences of challenge operations\<close>

datatype challenge_op =
    Op_issue "wire_text list" uuid unix_ms u64
  | Op_consume uuid wire_text unix_ms
  | Op_revoke uuid wire_text
  | Op_prune_expired unix_ms
  | Op_prune_unusable unix_ms "wire_text option"

fun challenge_step :: "challenge_op \<Rightarrow> challenges \<Rightarrow> wire_text ledger_event list \<times> challenges" where
  "challenge_step (Op_issue draws d now ttl) m =
     (case challenge_issue draws d now ttl m of
        (Some (Inr r), m') \<Rightarrow> ([Issued (acr_challenge r) (acr_expires_at_ms r)], m')
      | (_, m') \<Rightarrow> ([], m'))"
| "challenge_step (Op_consume d c now) m =
     (case challenge_consume d c now m of (Inr _, m') \<Rightarrow> ([Granted c now], m') | (Inl _, m') \<Rightarrow> ([], m'))"
| "challenge_step (Op_revoke d c) m = ([], snd (challenge_revoke d c m))"
| "challenge_step (Op_prune_expired now) m = ([], snd (challenge_prune_expired now m))"
| "challenge_step (Op_prune_unusable now p) m = ([], snd (prune_unusable_except now p m))"

inductive challenge_trace :: "wire_text ledger_event list \<Rightarrow> challenges \<Rightarrow> bool" where
  start: "challenge_trace [] []"
| step: "challenge_trace log m \<Longrightarrow> challenge_step op m = (evs, m') \<Longrightarrow> challenge_trace (log @ evs) m'"

definition challenges_capped :: "challenges \<Rightarrow> bool" where
  "challenges_capped m \<longleftrightarrow> (\<forall>d. hm_count (active_for d) m \<le> max_outstanding_per_device)"

lemma challenges_capped_mono:
  "challenges_capped m \<Longrightarrow> (\<And>d. hm_count (active_for d) m' \<le> hm_count (active_for d) m) \<Longrightarrow> challenges_capped m'"
  unfolding challenges_capped_def using le_trans by blast

lemma challenge_issue_step:
  assumes "ch.ledger_ok log m" "challenges_capped m" "challenge_step (Op_issue draws d now ttl) m = (evs, m')"
  shows "ch.ledger_ok (log @ evs) m' \<and> challenges_capped m'"
proof (cases "ttl = 0 \<or> now + ttl > u64_max")
  case True
  then show ?thesis using assms by (auto simp: challenge_issue_def split: if_splits)
next
  case False
  let ?p = "snd (prune_unusable_except now None m)"
  let ?m = "snd (enforce_device_outstanding_cap d ?p)"
  have wf: "hm_wf ?p" using ch.ledgerD(1) [OF assms(1)] by simp
  have shr: "ch.shrinks m ?m"
    using ch.shrinks_trans [OF unusable_shrinks enforce_shrinks [OF wf]] ch.ledgerD(1) [OF assms(1)] by blast
  have led: "ch.ledger_ok log ?m" by (rule ch.ledger_shrinks [OF assms(1) shr])
  have le: "hm_count (active_for b) ?m \<le> hm_count (active_for b) m" for b
    using enforce_count_le [OF wf, of "active_for b" d] hm_count_retain_le [of "active_for b"]
    by (fastforce simp: prune_unusable_except_def Let_def intro: order_trans)
  note cap = challenges_capped_mono [OF assms(2) le]
  have room: "hm_count (active_for d) ?m < max_outstanding_per_device" using enforce_cap_spec [OF wf, of d] by blast
  obtain res n where i: "challenge_issue_loop draws d now (now + ttl) ?m = (res, n)" by force
  from challenge_issue_loop_result [OF i] show ?thesis
  proof
    assume "res = None \<and> n = ?m"
    then show ?thesis using assms(3) False i led cap by (auto simp: challenge_issue_def)
  next
    assume "\<exists>c. hm_get ?m c = None \<and> res = Some (Inr (auth_challenge_record_new c d now (now + ttl))) \<and>
        n = hm_insert c (auth_challenge_record_new c d now (now + ttl)) ?m"
    then obtain c where c: "hm_get ?m c = None" "res = Some (Inr (auth_challenge_record_new c d now (now + ttl)))"
      "n = hm_insert c (auth_challenge_record_new c d now (now + ttl)) ?m" by blast
    have out: "evs = [Issued c (now + ttl)]" "m' = n"
      using assms(3) False i c(2) by (auto simp: challenge_issue_def auth_challenge_record_new_def)
    have "hm_count (active_for b) n \<le> max_outstanding_per_device" for b
      using cap room c(1) unfolding c(3) challenges_capped_def
      by (auto simp: hm_count_insert_absent active_for_def auth_challenge_record_new_def)
    then show ?thesis
      using ch.ledger_issue [OF led c(1), of "now + ttl" "(d, now)"] by (simp add: out c(3) challenges_capped_def)
  qed
qed

lemma challenge_trace_ok: "challenge_trace log m \<Longrightarrow> ch.ledger_ok log m \<and> challenges_capped m"
proof (induction rule: challenge_trace.induct)
  case start
  then show ?case by (simp add: ch.ledger_start challenges_capped_def hm_count_def)
next
  case (step log m op evs m')
  then have led: "ch.ledger_ok log m" and cap: "challenges_capped m" by auto
  note wf = ch.ledgerD(1) [OF led] and shr = ch.ledger_shrinks [OF led] and mono = challenges_capped_mono [OF cap]
  show ?case
  proof (cases op)
    case (Op_issue draws d now ttl)
    then show ?thesis using challenge_issue_step [OF led cap] step.hyps(2) by simp
  next
    case (Op_consume d c now)
    obtain res n where "challenge_consume d c now m = (res, n)" by force
    with challenge_consume_step [OF wf this] shr mono ch.ledger_grant [OF led] step.hyps(2) show ?thesis
      by (auto simp: Op_consume split: sum.splits)
  next
    case (Op_revoke d c)
    with shr [OF challenge_revoke_step(1) [OF wf]] mono [OF challenge_revoke_step(2) [OF wf]] step.hyps(2)
    show ?thesis by auto
  next
    case (Op_prune_expired now)
    with shr [OF ch.shrinks_retain [OF wf]] mono [OF hm_count_retain_le] step.hyps(2) show ?thesis
      by (auto simp: challenge_prune_expired_def Let_def)
  next
    case (Op_prune_unusable now p)
    with shr [OF ch.shrinks_retain [OF wf]] mono [OF hm_count_retain_le] step.hyps(2) show ?thesis
      by (auto simp: prune_unusable_except_def Let_def)
  qed
qed


section \<open>The nonces the protector remembers\<close>

definition nonce_at :: "replay_protector \<Rightarrow> uuid \<Rightarrow> wire_text \<Rightarrow> unix_ms option" where
  "nonce_at p d n = Option.bind (hm_get (rp_nonces_by_device p) d) (\<lambda>ns. hm_get ns n)"

definition replay_ok :: "replay_protector \<Rightarrow> bool" where
  "replay_ok p \<longleftrightarrow> hm_wf (rp_nonces_by_device p) \<and>
     (\<forall>d ns. hm_get (rp_nonces_by_device p) d = Some ns \<longrightarrow> hm_wf ns)"

lemma nonce_known_iff: "nonce_known p d n \<longleftrightarrow> nonce_at p d n \<noteq> None"
  by (simp add: nonce_known_def nonce_at_def split: option.splits)

lemma replay_ok_new: "replay_ok (replay_new skew)"
  by (simp add: replay_ok_def replay_new_def)

lemma replay_prune_map_get:
  "hm_wf m \<Longrightarrow> hm_get (replay_prune_map w now m) d =
     (case hm_get m d of None \<Rightarrow> None
      | Some ns \<Rightarrow> let ns' = hm_retain (\<lambda>k at. now - at \<le> w) ns in if ns' = [] then None else Some ns')"
proof (induction m)
  case Nil
  then show ?case by (simp add: replay_prune_map_def)
next
  case (Cons e m)
  obtain j ns where e: "e = (j, ns)" by force
  from Cons.prems e have "j = d \<Longrightarrow> hm_get m d = None" by (auto simp: map_of_eq_None_iff)
  with Cons e show ?case by (auto simp: replay_prune_map_def Let_def split: option.splits)
qed

lemma replay_prune_map_wf: "hm_wf m \<Longrightarrow> hm_wf (replay_prune_map w now m)"
  by (simp add: replay_prune_map_def distinct_map_filter comp_def)

lemma replay_ok_prune:
  assumes "replay_ok p"
  shows "replay_ok (snd (replay_prune now p))"
  using assms
  by (auto simp: replay_ok_def replay_prune_def Let_def replay_prune_map_wf replay_prune_map_get split: option.splits if_splits)

lemma nonce_at_prune:
  assumes "replay_ok p"
  shows "nonce_at (snd (replay_prune now p)) d n =
    (case nonce_at p d n of None \<Rightarrow> None
     | Some at \<Rightarrow> if now - at \<le> rp_allowed_clock_skew_ms p then Some at else None)"
proof -
  let ?m = "rp_nonces_by_device p" and ?w = "rp_allowed_clock_skew_ms p"
  have wf: "hm_wf ?m" using assms unfolding replay_ok_def by blast
  show ?thesis
  proof (cases "hm_get ?m d")
    case None
    then show ?thesis by (simp add: nonce_at_def replay_prune_def Let_def replay_prune_map_get [OF wf])
  next
    case (Some ns)
    then have "hm_wf ns" using assms unfolding replay_ok_def by blast
    note get = hm_get_retain [OF this, of "\<lambda>k at. now - at \<le> ?w" n]
    from Some show ?thesis
      using get
      by (auto simp: nonce_at_def replay_prune_def Let_def replay_prune_map_get [OF wf] split: option.splits if_splits)
  qed
qed

lemma replay_skew [simp]:
  "rp_allowed_clock_skew_ms (snd (replay_prune now p)) = rp_allowed_clock_skew_ms p"
  "rp_allowed_clock_skew_ms (record_checked d n now p) = rp_allowed_clock_skew_ms p"
  by (simp_all add: replay_prune_def record_checked_def Let_def)

lemma replay_ok_record:
  assumes "replay_ok p"
  shows "replay_ok (record_checked d n now p)"
proof -
  have "hm_wf (hm_insert n now (case hm_get (rp_nonces_by_device p) d of None \<Rightarrow> [] | Some ns \<Rightarrow> ns))"
    using assms unfolding replay_ok_def by (auto split: option.splits)
  with assms show ?thesis unfolding replay_ok_def record_checked_def Let_def by auto
qed

lemma nonce_at_record:
  "nonce_at (record_checked d n now p) d' n' = (if d' = d \<and> n' = n then Some now else nonce_at p d' n')"
  by (auto simp: nonce_at_def record_checked_def Let_def split: option.splits)

text \<open>The check in terms of the abstract view.\<close>

lemma replay_check_result:
  assumes "replay_ok p"
  shows "replay_check d n ts now p =
    (if abs_diff ts now > rp_allowed_clock_skew_ms p
     then Inl (RE_TimestampOutOfWindow ts now (rp_allowed_clock_skew_ms p))
     else if nonce_at (snd (replay_prune now p)) d n \<noteq> None then Inl (RE_ReplayedNonce d) else Inr (),
     snd (replay_prune now p))"
  by (simp add: replay_check_def Let_def nonce_known_iff)

datatype replay_op = Op_check uuid wire_text unix_ms unix_ms | Op_record uuid wire_text unix_ms | Op_prune unix_ms

fun replay_op_time :: "replay_op \<Rightarrow> unix_ms" where
  "replay_op_time (Op_check d n ts now) = now"
| "replay_op_time (Op_record d n now) = now"
| "replay_op_time (Op_prune now) = now"

fun replay_exec :: "replay_op \<Rightarrow> replay_protector \<Rightarrow> replay_protector" where
  "replay_exec (Op_check d n ts now) p = snd (replay_check d n ts now p)"
| "replay_exec (Op_record d n now) p = record_checked d n now p"
| "replay_exec (Op_prune now) p = snd (replay_prune now p)"

text \<open>A nonce recorded at \<open>t0\<close> is remembered by every operation of the next window.\<close>

definition remembers :: "unix_ms \<Rightarrow> uuid \<Rightarrow> wire_text \<Rightarrow> replay_protector \<Rightarrow> bool" where
  "remembers t0 d n p \<longleftrightarrow> replay_ok p \<and> (\<exists>at. nonce_at p d n = Some at \<and> t0 \<le> at)"

lemma remembers_step:
  assumes "remembers t0 d n p" "t0 \<le> replay_op_time op" "replay_op_time op \<le> t0 + rp_allowed_clock_skew_ms p"
  shows "remembers t0 d n (replay_exec op p)" "rp_allowed_clock_skew_ms (replay_exec op p) = rp_allowed_clock_skew_ms p"
proof -
  obtain at where at: "nonce_at p d n = Some at" "t0 \<le> at" and ok: "replay_ok p"
    using assms(1) by (auto simp: remembers_def)
  have prune: "remembers t0 d n (snd (replay_prune now p))" if "now \<le> t0 + rp_allowed_clock_skew_ms p" for now
    using ok at that by (auto simp: remembers_def replay_ok_prune nonce_at_prune)
  show "remembers t0 d n (replay_exec op p)"
    using assms(2,3) prune at ok
    by (cases op) (auto simp: replay_check_result remembers_def nonce_at_record replay_ok_record)
  show "rp_allowed_clock_skew_ms (replay_exec op p) = rp_allowed_clock_skew_ms p"
    using ok by (cases op) (auto simp: replay_check_result)
qed

lemma remembers_run:
  assumes "remembers t0 d n p" "\<forall>op \<in> set ops. t0 \<le> replay_op_time op \<and> replay_op_time op \<le> t0 + rp_allowed_clock_skew_ms p"
  shows "remembers t0 d n (fold replay_exec ops p) \<and>
    rp_allowed_clock_skew_ms (fold replay_exec ops p) = rp_allowed_clock_skew_ms p"
  using assms
proof (induction ops arbitrary: p)
  case Nil
  then show ?case by simp
next
  case (Cons op ops)
  then show ?case using remembers_step [of t0 d n p op] by simp
qed


section \<open>Properties\<close>

lemma demo_challenge_trace:
  "challenge_trace [Issued (generate_auth_challenge [49]) 150, Granted (generate_auth_challenge [49]) 120]
    [(generate_auth_challenge [49],
      (auth_challenge_record_new (generate_auth_challenge [49]) 3 100 150)
        \<lparr>acr_state := ACS_Consumed, acr_consumed_at_ms := Some 120\<rparr>)]"
proof -
  let ?c = "generate_auth_challenge [49]" and ?r = "auth_challenge_record_new (generate_auth_challenge [49]) 3 100 150"
  have "challenge_step (Op_issue [[49]] 3 100 50) [] = ([Issued ?c 150], [(?c, ?r)])"
    by (simp add: challenge_issue_def prune_unusable_except_def Let_def hm_retain_def u64_max_def hm_count_def
        enforce_device_outstanding_cap.simps max_outstanding_per_device_def auth_challenge_record_new_def)
  from challenge_trace.step [OF challenge_trace.start this]
  have one: "challenge_trace [Issued ?c 150] [(?c, ?r)]" by simp
  have "challenge_step (Op_consume 3 ?c 120) [(?c, ?r)] =
      ([Granted ?c 120], [(?c, ?r\<lparr>acr_state := ACS_Consumed, acr_consumed_at_ms := Some 120\<rparr>)])"
    by (simp add: challenge_consume_def prune_unusable_except_def Let_def hm_retain_def challenge_is_expired_def
        auth_challenge_record_new_def)
  from challenge_trace.step [OF one this] show ?thesis by simp
qed

text \<open>
  A challenge answers one authentication attempt. Under every sequence of issuing, consuming,
  revoking and pruning, with any arguments, a challenge is handed out for at most as many attempts
  as it was issued, each before it expires.
\<close>

lemma challenge_single_use:
  assumes "challenge_trace log m"
  shows "grants c log \<le> issues c log \<and>
    (\<forall>now. Granted c now \<in> set log \<longrightarrow> (\<exists>x. Issued c x \<in> set log \<and> now < x))"
  using challenge_trace_ok [OF assms] by (auto dest: ch.ledger_single_use [of _ _ c])

text \<open>
  A device cannot fill the challenge table. In every reachable state each device has at most
  eight active challenges, and issuing one more for a device removes no usable challenge of another
  device: whatever usable record goes is an active challenge of the same device, issued no later than
  each of its active challenges that stays, other than the new one.
\<close>

lemma outstanding_challenges_bounded:
  assumes "challenge_trace log m" and "challenge_issue draws d now ttl m = (res, m')"
  shows "hm_count (active_for b) m \<le> 8 \<and>
    (\<forall>k r. hm_get m k = Some r \<and> \<not> challenge_is_expired now r \<and> acr_state r \<noteq> ACS_Consumed \<and> hm_get m' k = None \<longrightarrow>
       active_for d r \<and>
       (\<forall>k' r'. hm_get m' k' = Some r' \<and> active_for d r' \<and> res \<noteq> Some (Inr r') \<longrightarrow>
          acr_issued_at_ms r \<le> acr_issued_at_ms r'))"
proof -
  have wf: "hm_wf m" and cap: "hm_count (active_for b) m \<le> 8"
    using challenge_trace_ok [OF assms(1)] ch.ledgerD(1)
    by (auto simp: challenges_capped_def max_outstanding_per_device_def)
  let ?p = "snd (prune_unusable_except now None m)"
  let ?e = "snd (enforce_device_outstanding_cap d ?p)"
  have spec: "active_for d r \<and> (\<forall>k' r'. hm_get ?e k' = Some r' \<and> active_for d r' \<longrightarrow> acr_issued_at_ms r \<le> acr_issued_at_ms r')"
    if "hm_get ?p k = Some r" "hm_get ?e k = None" for k r
    using that enforce_cap_spec [OF unusable_wf [OF wf], of d now None] by blast
  have "active_for d r \<and> (\<forall>k' r'. hm_get m' k' = Some r' \<and> active_for d r' \<and> res \<noteq> Some (Inr r') \<longrightarrow>
      acr_issued_at_ms r \<le> acr_issued_at_ms r')"
    if g: "hm_get m k = Some r" "\<not> challenge_is_expired now r" "acr_state r \<noteq> ACS_Consumed" "hm_get m' k = None" for k r
  proof -
    have "m' \<noteq> m" using g by auto
    then have "challenge_issue_loop draws d now (now + ttl) ?e = (res, m')"
      using assms(2) by (auto simp: challenge_issue_def split: if_splits)
    from challenge_issue_loop_result [OF this] obtain c q where
      m': "m' = ?e \<or> res = Some (Inr q) \<and> m' = hm_insert c q ?e" by blast
    have "hm_get ?p k = Some r" "hm_get ?e k = None"
      using g m' by (auto simp: unusable_get [OF wf] split: if_splits)
    from spec [OF this] show ?thesis using m' by (auto split: if_splits)
  qed
  then show ?thesis using cap by blast
qed

text \<open>
  A nonce is refused for a whole window. After a nonce was accepted at \<open>t0\<close>, whatever checks,
  recordings and prunings follow within the allowed clock skew, every further use of the nonce by
  that device in that time is refused, for whatever timestamp.
\<close>

lemma nonce_refused_within_window:
  assumes "replay_ok p" and "check_and_record d n ts t0 p = (Inr (), p')"
    and "\<forall>op \<in> set ops. t0 \<le> replay_op_time op \<and> replay_op_time op \<le> t0 + rp_allowed_clock_skew_ms p"
    and "t0 \<le> now" and "now \<le> t0 + rp_allowed_clock_skew_ms p"
  shows "\<exists>e. fst (check_and_record d n ts' now (fold replay_exec ops p')) = Inl e"
proof -
  have p': "p' = record_checked d n t0 (snd (replay_prune t0 p))"
    using assms(2) by (auto simp: check_and_record_def replay_check_result [OF assms(1)] split: if_splits)
  have "remembers t0 d n p'" "rp_allowed_clock_skew_ms p' = rp_allowed_clock_skew_ms p"
    by (simp_all add: p' remembers_def nonce_at_record replay_ok_record replay_ok_prune [OF assms(1)])
  from remembers_run [OF this(1), of ops] this(2) assms(3)
  have r: "remembers t0 d n (fold replay_exec ops p')"
    "rp_allowed_clock_skew_ms (fold replay_exec ops p') = rp_allowed_clock_skew_ms p" by auto
  from remembers_step(1) [OF r(1), of "Op_prune now"] r(2) assms(4,5)
  have "nonce_at (snd (replay_prune now (fold replay_exec ops p'))) d n \<noteq> None" by (auto simp: remembers_def)
  moreover have "replay_ok (fold replay_exec ops p')" using r(1) by (simp add: remembers_def)
  ultimately show ?thesis by (simp add: check_and_record_def replay_check_result)
qed

text \<open>
  The window of the nonces is shorter than that of the timestamps. A request stamped a full skew
  ahead of the daemon's clock is accepted twice by the replay protector: its nonce is forgotten one
  skew later, when its timestamp is still within the allowed window. (The one-time challenge is what
  keeps the daemon safe then.)
\<close>

lemma future_timestamp_outlives_nonce:
  assumes "1 \<le> skew"
  shows "\<exists>p1 p2. check_and_record d n (now + skew) now (replay_new skew) = (Inr (), p1) \<and>
    check_and_record d n (now + skew) (now + skew + 1) p1 = (Inr (), p2)"
proof -
  let ?p = "replay_new skew"
  have a: "nonce_at (snd (replay_prune now ?p)) d n = None"
    by (simp add: nonce_at_prune replay_ok_new) (simp add: nonce_at_def replay_new_def)
  then have one: "check_and_record d n (now + skew) now ?p = (Inr (), record_checked d n now (snd (replay_prune now ?p)))"
    by (simp add: check_and_record_def replay_check_result replay_ok_new abs_diff_def) (simp add: replay_new_def)
  let ?q = "record_checked d n now (snd (replay_prune now ?p))"
  have q: "replay_ok ?q" "rp_allowed_clock_skew_ms ?q = skew" "nonce_at ?q d n = Some now"
    by (simp_all add: replay_ok_record replay_ok_prune replay_ok_new nonce_at_record) (simp add: replay_new_def)
  then have "nonce_at (snd (replay_prune (now + skew + 1) ?q)) d n = None" by (simp add: nonce_at_prune)
  then have "fst (check_and_record d n (now + skew) (now + skew + 1) ?q) = Inr ()"
    using assms q by (simp add: check_and_record_def replay_check_result abs_diff_def)
  then show ?thesis using one by (metis prod.collapse)
qed

end
