(* ===== verification/Auth_Service.thy ===== *)
theory Auth_Service
  imports Auth_Pairing Auth_Challenge
begin

text \<open>
  Challenge-response authentication, from \<open>src/termd/src/auth/mod.rs\<close>: the canonical signing input
  (\<open>AuthSigningInput\<close>), the error conversions and \<open>ChallengeResponseService\<close>. The signature
  verifier and the text of a UUID are arguments; the store is any implementation of the trait, and the
  behaviour of \<open>authenticate\<close> is proved in the context of its contract.
\<close>

declare map_of_eq_Some_iff [simp del] Some_eq_map_of_iff [simp del]

section \<open>The signing input\<close>

record auth_payload =
  ap_device_id :: uuid
  ap_challenge :: wire_text
  ap_nonce :: wire_text
  ap_timestamp_ms :: unix_ms
  ap_signature :: wire_text

record auth_signing_input =
  asi_server_id :: uuid
  asi_daemon_public_key :: wire_text
  asi_device_id :: uuid
  asi_challenge :: wire_text
  asi_nonce :: wire_text
  asi_timestamp_ms :: unix_ms

definition append_canonical_field :: "u8 list \<Rightarrow> string \<Rightarrow> wire_text \<Rightarrow> u8 list" where
  "append_canonical_field bytes name v =
     bytes @ ascii name @ ascii '':'' @ dec (length v) @ ascii '':'' @ v @ [10]"

definition from_payload :: "auth_payload \<Rightarrow> daemon_public_identity \<Rightarrow> auth_signing_input" where
  "from_payload p daemon =
     \<lparr>asi_server_id = dpi_server_id daemon, asi_daemon_public_key = dpi_public_key daemon,
      asi_device_id = ap_device_id p, asi_challenge = ap_challenge p, asi_nonce = ap_nonce p,
      asi_timestamp_ms = ap_timestamp_ms p\<rparr>"

definition signing_to_bytes :: "(uuid \<Rightarrow> wire_text) \<Rightarrow> auth_signing_input \<Rightarrow> u8 list" where
  "signing_to_bytes uuid_text i =
     (let b0 = ascii ''termd-auth-v1'' @ [10];
          b1 = append_canonical_field b0 ''server_id'' (uuid_text (asi_server_id i));
          b2 = append_canonical_field b1 ''daemon_public_key'' (asi_daemon_public_key i);
          b3 = append_canonical_field b2 ''device_id'' (uuid_text (asi_device_id i));
          b4 = append_canonical_field b3 ''challenge'' (asi_challenge i);
          b5 = append_canonical_field b4 ''nonce'' (asi_nonce i)
      in append_canonical_field b5 ''timestamp_ms'' (dec (asi_timestamp_ms i)))"


section \<open>Errors\<close>

datatype challenge_auth_error =
    CAE_UntrustedDevice uuid
  | CAE_DeviceKeyMismatch uuid
  | CAE_InvalidChallenge
  | CAE_ChallengeDeviceMismatch uuid uuid
  | CAE_ExpiredChallenge unix_ms unix_ms
  | CAE_UsedChallenge
  | CAE_RevokedChallenge
  | CAE_InvalidTtl u64
  | CAE_TimestampOutOfWindow unix_ms unix_ms u64
  | CAE_ReplayedNonce uuid
  | CAE_InvalidSignature

fun from_auth_error :: "auth_error \<Rightarrow> challenge_auth_error" where
  "from_auth_error (UntrustedDevice d) = CAE_UntrustedDevice d"
| "from_auth_error (DeviceKeyMismatch d) = CAE_DeviceKeyMismatch d"

fun from_challenge_error :: "challenge_error \<Rightarrow> challenge_auth_error" where
  "from_challenge_error CE_InvalidChallenge = CAE_InvalidChallenge"
| "from_challenge_error (CE_DeviceMismatch e a) = CAE_ChallengeDeviceMismatch e a"
| "from_challenge_error (CE_ExpiredChallenge x now) = CAE_ExpiredChallenge x now"
| "from_challenge_error CE_UsedChallenge = CAE_UsedChallenge"
| "from_challenge_error CE_RevokedChallenge = CAE_RevokedChallenge"
| "from_challenge_error (CE_InvalidTtl ttl) = CAE_InvalidTtl ttl"

fun from_replay_error :: "replay_error \<Rightarrow> challenge_auth_error" where
  "from_replay_error (RE_TimestampOutOfWindow ts now skew) = CAE_TimestampOutOfWindow ts now skew"
| "from_replay_error (RE_ReplayedNonce d) = CAE_ReplayedNonce d"


section \<open>The service\<close>

record challenge_response_service =
  crs_daemon_identity :: daemon_public_identity
  crs_challenge_manager :: challenges
  crs_replay_protector :: replay_protector

record authenticated_device =
  ad_device_id :: uuid
  ad_device_public_key :: wire_text
  ad_authenticated_at_ms :: unix_ms

definition issue_challenge :: "wire_text list \<Rightarrow> uuid \<Rightarrow> unix_ms \<Rightarrow> u64 \<Rightarrow> challenge_response_service \<Rightarrow>
    (challenge_error + auth_challenge_record) option \<times> challenge_response_service" where
  "issue_challenge draws d now ttl svc =
     (let (r, m) = challenge_issue draws d now ttl (crs_challenge_manager svc)
      in (r, svc\<lparr>crs_challenge_manager := m\<rparr>))"

definition authenticate ::
  "('s \<Rightarrow> uuid \<Rightarrow> trusted_device option) \<Rightarrow> (uuid \<Rightarrow> unix_ms \<Rightarrow> 's \<Rightarrow> (auth_error + unit) \<times> 's) \<Rightarrow>
   (wire_text \<Rightarrow> u8 list \<Rightarrow> wire_text \<Rightarrow> bool) \<Rightarrow> (uuid \<Rightarrow> wire_text) \<Rightarrow>
   auth_payload \<Rightarrow> unix_ms \<Rightarrow> challenge_response_service \<Rightarrow> 's \<Rightarrow>
   (challenge_auth_error + authenticated_device) \<times> challenge_response_service \<times> 's" where
  "authenticate lookup mark_seen verify uuid_text p now svc s =
     (case require_trusted lookup s (ap_device_id p) of
        Inl e \<Rightarrow> (Inl (from_auth_error e), svc, s)
      | Inr t \<Rightarrow>
          (let key = td_public_key t;
               m0 = snd (prune_unusable_except now (Some (ap_challenge p)) (crs_challenge_manager svc));
               (cres, m) = challenge_consume (ap_device_id p) (ap_challenge p) now m0;
               svc1 = svc\<lparr>crs_challenge_manager := m\<rparr> in
           case cres of
             Inl e \<Rightarrow> (Inl (from_challenge_error e), svc1, s)
           | Inr _ \<Rightarrow>
               (let (rres, rp) = replay_check (ap_device_id p) (ap_nonce p) (ap_timestamp_ms p) now (crs_replay_protector svc);
                    svc2 = svc1\<lparr>crs_replay_protector := rp\<rparr> in
                case rres of
                  Inl e \<Rightarrow> (Inl (from_replay_error e), svc2, s)
                | Inr _ \<Rightarrow>
                    if \<not> verify key (signing_to_bytes uuid_text (from_payload p (crs_daemon_identity svc))) (ap_signature p)
                    then (Inl CAE_InvalidSignature, svc2, s)
                    else
                      (let svc3 = svc2\<lparr>crs_replay_protector := record_checked (ap_device_id p) (ap_nonce p) now rp\<rparr>;
                           (mres, s') = mark_seen (ap_device_id p) now s in
                       case mres of
                         Inl e \<Rightarrow> (Inl (from_auth_error e), svc3, s')
                       | Inr _ \<Rightarrow> (Inr \<lparr>ad_device_id = ap_device_id p, ad_device_public_key = key,
                                      ad_authenticated_at_ms = now\<rparr>, svc3, s')))))"


section \<open>The signing input is unambiguous\<close>

lemma sep_unique:
  assumes "x \<notin> set a" "x \<notin> set b" "a @ x # u = b @ x # v"
  shows "a = b \<and> u = v"
  using assms
proof (induction a arbitrary: b)
  case Nil
  then show ?case by (cases b) auto
next
  case (Cons y a)
  then show ?case by (cases b) auto
qed

definition canonical_field :: "string \<Rightarrow> wire_text \<Rightarrow> u8 list" where
  "canonical_field name v = ascii name @ ascii '':'' @ dec (length v) @ ascii '':'' @ v @ [10]"

lemma append_canonical_field: "append_canonical_field bytes name v = bytes @ canonical_field name v"
  by (simp add: append_canonical_field_def canonical_field_def)

lemma canonical_field_prefix:
  assumes "canonical_field name v @ rest = canonical_field name v' @ rest'"
  shows "v = v' \<and> rest = rest'"
proof -
  have nosep: "58 \<notin> set (dec k)" for k using dec_digits [of 58 k] by auto
  have "dec (length v) @ 58 # (v @ 10 # rest) = dec (length v') @ 58 # (v' @ 10 # rest')"
    using assms by (simp add: canonical_field_def ascii_def)
  from sep_unique [OF nosep nosep this] have "dec (length v) = dec (length v')" "v @ 10 # rest = v' @ 10 # rest'" by auto
  with dec_inj have "length v = length v'" by blast
  with \<open>v @ 10 # rest = v' @ 10 # rest'\<close> show ?thesis by simp
qed

lemma signing_to_bytes_fields:
  "signing_to_bytes u i = ascii ''termd-auth-v1'' @ [10] @
     canonical_field ''server_id'' (u (asi_server_id i)) @ canonical_field ''daemon_public_key'' (asi_daemon_public_key i) @
     canonical_field ''device_id'' (u (asi_device_id i)) @ canonical_field ''challenge'' (asi_challenge i) @
     canonical_field ''nonce'' (asi_nonce i) @ canonical_field ''timestamp_ms'' (dec (asi_timestamp_ms i)) @ []"
  by (simp add: signing_to_bytes_def append_canonical_field Let_def)

text \<open>
  What a device signs determines what it agreed to: two signing inputs with the same bytes have
  the same daemon, device, challenge, nonce and timestamp. The text of a UUID is assumed to determine
  the UUID.
\<close>

lemma signing_input_injective:
  assumes "inj uuid_text" and "signing_to_bytes uuid_text i = signing_to_bytes uuid_text j"
  shows "i = (j :: auth_signing_input)"
proof -
  note eq = assms(2) [unfolded signing_to_bytes_fields same_append_eq]
  from canonical_field_prefix [OF eq] have a: "uuid_text (asi_server_id i) = uuid_text (asi_server_id j)" and
    r1: "canonical_field ''daemon_public_key'' (asi_daemon_public_key i) @
     canonical_field ''device_id'' (uuid_text (asi_device_id i)) @ canonical_field ''challenge'' (asi_challenge i) @
     canonical_field ''nonce'' (asi_nonce i) @ canonical_field ''timestamp_ms'' (dec (asi_timestamp_ms i)) @ [] =
     canonical_field ''daemon_public_key'' (asi_daemon_public_key j) @
     canonical_field ''device_id'' (uuid_text (asi_device_id j)) @ canonical_field ''challenge'' (asi_challenge j) @
     canonical_field ''nonce'' (asi_nonce j) @ canonical_field ''timestamp_ms'' (dec (asi_timestamp_ms j)) @ []"
    by blast+
  note r2 = canonical_field_prefix [OF r1]
  note r3 = canonical_field_prefix [OF r2 [THEN conjunct2]]
  note r4 = canonical_field_prefix [OF r3 [THEN conjunct2]]
  note r5 = canonical_field_prefix [OF r4 [THEN conjunct2]]
  note r6 = canonical_field_prefix [OF r5 [THEN conjunct2]]
  have "asi_timestamp_ms i = asi_timestamp_ms j" using r6 dec_inj by blast
  moreover have "asi_server_id i = asi_server_id j" "asi_device_id i = asi_device_id j"
    using a r3 assms(1) by (auto dest: injD)
  ultimately show ?thesis using r2 r4 r5 by (cases i, cases j) simp
qed

section \<open>When a device is authenticated\<close>

text \<open>
  The conditions of a successful authentication, over the state before it: the device is trusted, the
  challenge is active, meant for this device and not expired, the timestamp is within the allowed
  skew, the nonce is not remembered, and the signature verifies under the stored key.
\<close>

definition admissible :: "('s \<Rightarrow> uuid \<Rightarrow> trusted_device option) \<Rightarrow> (wire_text \<Rightarrow> u8 list \<Rightarrow> wire_text \<Rightarrow> bool) \<Rightarrow>
    (uuid \<Rightarrow> wire_text) \<Rightarrow> auth_payload \<Rightarrow> unix_ms \<Rightarrow> challenge_response_service \<Rightarrow> 's \<Rightarrow> bool" where
  "admissible lookup verify uuid_text p now svc s \<longleftrightarrow>
     (\<exists>t. lookup s (ap_device_id p) = Some t \<and>
        verify (td_public_key t) (signing_to_bytes uuid_text (from_payload p (crs_daemon_identity svc))) (ap_signature p)) \<and>
     (\<exists>r. hm_get (crs_challenge_manager svc) (ap_challenge p) = Some r \<and> active_for (ap_device_id p) r \<and>
        now < acr_expires_at_ms r) \<and>
     abs_diff (ap_timestamp_ms p) now \<le> rp_allowed_clock_skew_ms (crs_replay_protector svc) \<and>
     \<not> (\<exists>at. nonce_at (crs_replay_protector svc) (ap_device_id p) (ap_nonce p) = Some at \<and>
           now - at \<le> rp_allowed_clock_skew_ms (crs_replay_protector svc))"

definition service_ok :: "challenge_response_service \<Rightarrow> bool" where
  "service_ok svc \<longleftrightarrow> hm_wf (crs_challenge_manager svc) \<and> replay_ok (crs_replay_protector svc)"

text \<open>The challenge of an attempt is no longer usable, and no nonce was learned.\<close>

definition burned :: "auth_payload \<Rightarrow> challenge_response_service \<Rightarrow> bool" where
  "burned p svc \<longleftrightarrow> (\<forall>r. hm_get (crs_challenge_manager svc) (ap_challenge p) = Some r \<longrightarrow> acr_state r \<noteq> ACS_Active)"

definition learns_nothing :: "replay_protector \<Rightarrow> replay_protector \<Rightarrow> bool" where
  "learns_nothing rp rp' \<longleftrightarrow> (\<forall>d n at. nonce_at rp' d n = Some at \<longrightarrow> nonce_at rp d n = Some at)"

lemma learns_nothing_prune: "replay_ok rp \<Longrightarrow> learns_nothing rp (snd (replay_prune now rp))"
  by (auto simp: learns_nothing_def nonce_at_prune split: option.splits if_splits)

lemma learns_nothing_refl: "learns_nothing rp rp"
  by (simp add: learns_nothing_def)

lemma challenge_consume_result:
  assumes "hm_wf m" "challenge_consume d c now m = (res, m')"
  shows "hm_wf m'" "(\<exists>r. res = Inr r) \<longleftrightarrow> (\<exists>r. hm_get m c = Some r \<and> active_for d r \<and> now < acr_expires_at_ms r)"
    "\<forall>r. hm_get m' c = Some r \<longrightarrow> acr_state r \<noteq> ACS_Active"
    "res = Inr r \<Longrightarrow> hm_get m' c = Some r \<and> acr_state r = ACS_Consumed"
proof -
  let ?m = "snd (prune_unusable_except now (Some c) m)"
  have p: "hm_wf ?m" "hm_get ?m c = hm_get m c"
    using assms(1) by (auto simp: unusable_get split: option.splits)
  show "hm_wf m'"
    using assms(2) p by (auto simp: challenge_consume_def Let_def split: option.splits auth_challenge_state.splits if_splits)
  show "(\<exists>r. res = Inr r) \<longleftrightarrow> (\<exists>r. hm_get m c = Some r \<and> active_for d r \<and> now < acr_expires_at_ms r)"
    using assms(2) p
    by (auto simp: challenge_consume_def Let_def active_for_def challenge_is_expired_def
        split: option.splits auth_challenge_state.splits if_splits)
  show "\<forall>r. hm_get m' c = Some r \<longrightarrow> acr_state r \<noteq> ACS_Active"
    using assms(2) p
    by (auto simp: challenge_consume_def Let_def split: option.splits auth_challenge_state.splits if_splits)
  show "res = Inr r \<Longrightarrow> hm_get m' c = Some r \<and> acr_state r = ACS_Consumed"
    using assms(2) p
    by (auto simp: challenge_consume_def Let_def split: option.splits auth_challenge_state.splits if_splits)
qed

lemma prune_keeps_attempt:
  assumes "hm_wf m"
  shows "hm_get (snd (prune_unusable_except now (Some c) m)) c = hm_get m c"
  using assms by (auto simp: unusable_get split: option.splits)

lemma replay_check_iff:
  assumes "replay_ok rp"
  shows "fst (replay_check d n ts now rp) = Inr () \<longleftrightarrow>
    abs_diff ts now \<le> rp_allowed_clock_skew_ms rp \<and>
    \<not> (\<exists>at. nonce_at rp d n = Some at \<and> now - at \<le> rp_allowed_clock_skew_ms rp)"
  using assms by (auto simp: replay_check_result nonce_at_prune split: option.splits)

context trusted_device_store begin

lemma authenticate_ok:
  assumes "service_ok svc" "admissible lookup verify u p now svc s" "lookup s (ap_device_id p) = Some t"
  shows "\<exists>m' s'. authenticate lookup mark_seen verify u p now svc s =
      (Inr \<lparr>ad_device_id = ap_device_id p, ad_device_public_key = td_public_key t, ad_authenticated_at_ms = now\<rparr>,
       svc\<lparr>crs_challenge_manager := m',
           crs_replay_protector := record_checked (ap_device_id p) (ap_nonce p) now (snd (replay_prune now (crs_replay_protector svc)))\<rparr>, s') \<and>
    hm_wf m' \<and> (\<exists>r. hm_get m' (ap_challenge p) = Some r \<and> acr_state r = ACS_Consumed) \<and>
    s' = snd (mark_seen (ap_device_id p) now s)"
proof -
  let ?m = "snd (prune_unusable_except now (Some (ap_challenge p)) (crs_challenge_manager svc))"
  let ?rp = "crs_replay_protector svc"
  have wf: "hm_wf ?m" and rok: "replay_ok ?rp" using assms(1) by (simp_all add: service_ok_def)
  obtain res m' where c: "challenge_consume (ap_device_id p) (ap_challenge p) now ?m = (res, m')" by force
  note cr = challenge_consume_result [OF wf c]
  have "hm_get ?m (ap_challenge p) = hm_get (crs_challenge_manager svc) (ap_challenge p)"
    using assms(1) by (intro prune_keeps_attempt) (simp add: service_ok_def)
  then obtain r where r: "res = Inr r" using cr(2) assms(2) by (auto simp: admissible_def)
  have rc: "replay_check (ap_device_id p) (ap_nonce p) (ap_timestamp_ms p) now ?rp = (Inr (), snd (replay_prune now ?rp))"
    using replay_check_iff [OF rok, of "ap_device_id p" "ap_nonce p" "ap_timestamp_ms p" now] assms(2)
    by (auto simp: admissible_def replay_check_result [OF rok] split: if_splits)
  have v: "verify (td_public_key t) (signing_to_bytes u (from_payload p (crs_daemon_identity svc))) (ap_signature p)"
    using assms(2,3) by (auto simp: admissible_def)
  have "fst (mark_seen (ap_device_id p) now s) = Inr ()" by (rule mark_seen_known [OF assms(3)])
  then show ?thesis
    using assms(3) c r rc v cr(1) cr(4) [OF r]
    by (auto simp: authenticate_def require_trusted_def Let_def case_prod_beta)
qed

lemma authenticate_refused:
  assumes "service_ok svc" "\<not> admissible lookup verify u p now svc s"
    and "authenticate lookup mark_seen verify u p now svc s = (res, svc', s')"
  shows "\<exists>e. res = Inl e" "s' = s" "learns_nothing (crs_replay_protector svc) (crs_replay_protector svc')"
    "lookup s (ap_device_id p) \<noteq> None \<Longrightarrow> burned p svc'"
    "lookup s (ap_device_id p) = None \<Longrightarrow> svc' = svc \<and> res = Inl (CAE_UntrustedDevice (ap_device_id p))"
proof -
  let ?m = "snd (prune_unusable_except now (Some (ap_challenge p)) (crs_challenge_manager svc))"
  let ?rp = "crs_replay_protector svc"
  have wf: "hm_wf ?m" and rok: "replay_ok ?rp" using assms(1) by (simp_all add: service_ok_def)
  obtain cres m' where c: "challenge_consume (ap_device_id p) (ap_challenge p) now ?m = (cres, m')" by force
  note cr = challenge_consume_result [OF wf c]
  have same: "hm_get ?m (ap_challenge p) = hm_get (crs_challenge_manager svc) (ap_challenge p)"
    using assms(1) by (intro prune_keeps_attempt) (simp add: service_ok_def)
  obtain rres where rc: "replay_check (ap_device_id p) (ap_nonce p) (ap_timestamp_ms p) now ?rp = (rres, snd (replay_prune now ?rp))"
    by (simp add: replay_check_result [OF rok])
  have rok': "rres = Inr () \<longleftrightarrow> abs_diff (ap_timestamp_ms p) now \<le> rp_allowed_clock_skew_ms ?rp \<and>
      \<not> (\<exists>at. nonce_at ?rp (ap_device_id p) (ap_nonce p) = Some at \<and> now - at \<le> rp_allowed_clock_skew_ms ?rp)"
    using replay_check_iff [OF rok, of "ap_device_id p" "ap_nonce p" "ap_timestamp_ms p" now] rc by simp
  have all: "(\<exists>e. res = Inl e) \<and> s' = s \<and> learns_nothing ?rp (crs_replay_protector svc') \<and>
      (lookup s (ap_device_id p) \<noteq> None \<longrightarrow> burned p svc') \<and>
      (lookup s (ap_device_id p) = None \<longrightarrow> svc' = svc \<and> res = Inl (CAE_UntrustedDevice (ap_device_id p)))"
  proof (cases "lookup s (ap_device_id p)")
    case None
    then show ?thesis using assms(3) by (auto simp: authenticate_def require_trusted_def learns_nothing_refl)
  next
    case (Some t)
    have bad: "(\<exists>e. cres = Inl e) \<or> (\<exists>e. rres = Inl e) \<or>
        \<not> verify (td_public_key t) (signing_to_bytes u (from_payload p (crs_daemon_identity svc))) (ap_signature p)"
      using assms(2) cr(2) same rok' Some by (cases cres; cases rres) (auto simp: admissible_def)
    show ?thesis
      using assms(3) bad Some c rc cr(3) learns_nothing_prune [OF rok, of now] learns_nothing_refl [of ?rp]
      by (cases cres; cases rres)
        (auto simp: authenticate_def require_trusted_def Let_def burned_def split: if_splits)
  qed
  then show "\<exists>e. res = Inl e" "s' = s" "learns_nothing ?rp (crs_replay_protector svc')"
    "lookup s (ap_device_id p) \<noteq> None \<Longrightarrow> burned p svc'"
    "lookup s (ap_device_id p) = None \<Longrightarrow> svc' = svc \<and> res = Inl (CAE_UntrustedDevice (ap_device_id p))"
    by blast+
qed

end


section \<open>Properties\<close>

text \<open>A service and a store for the witnesses: device 3 is trusted and holds challenge \<open>1\<close>.\<close>

definition demo_service :: challenge_response_service where
  "demo_service = \<lparr>crs_daemon_identity = demo_daemon,
     crs_challenge_manager = [([99], auth_challenge_record_new [99] 3 100 150)],
     crs_replay_protector = replay_new 50\<rparr>"

definition demo_store :: trusted_store where
  "demo_store = store_trust_device \<lparr>di_device_id = 3, di_public_key = [7]\<rparr> 90 None []"

definition demo_payload :: auth_payload where
  "demo_payload = \<lparr>ap_device_id = 3, ap_challenge = [99], ap_nonce = [1], ap_timestamp_ms = 130, ap_signature = [5]\<rparr>"

lemma demo_service_ok: "service_ok demo_service"
  by (simp add: service_ok_def demo_service_def replay_ok_new)

lemma demo_admissible: "admissible store_trusted_device (\<lambda>k b g. g = [5]) dec demo_payload 120 demo_service demo_store"
  by (simp add: admissible_def demo_payload_def demo_service_def demo_store_def store_trusted_device_def
      store_trust_device_def Let_def active_for_def auth_challenge_record_new_def replay_new_def abs_diff_def nonce_at_def)

text \<open>
  C5. Authentication is exact. A device is authenticated if and only if it is trusted, answers an
  active and unexpired challenge that was issued to it, stamps the request within the clock skew,
  uses a nonce that is not remembered, and its signature verifies under the key stored at pairing. On
  success the challenge is consumed, the nonce recorded and the device marked as seen; trust and keys
  are as before. On failure the store is unchanged and no nonce is recorded, the challenge of a
  trusted device's attempt is spent, and an untrusted device changes nothing at all.
\<close>

theorem authentication_is_exact:
  assumes "service_ok svc"
    and "authenticate store_trusted_device store_mark_seen verify u p now svc s = (res, svc', s')"
  shows "((\<exists>a. res = Inr a) \<longleftrightarrow> admissible store_trusted_device verify u p now svc s) \<and>
    (\<forall>a. res = Inr a \<longrightarrow>
       (\<exists>t. store_trusted_device s (ap_device_id p) = Some t \<and>
          a = \<lparr>ad_device_id = ap_device_id p, ad_device_public_key = td_public_key t, ad_authenticated_at_ms = now\<rparr> \<and>
          store_trusted_device s' (ap_device_id p) = Some (device_mark_seen now t)) \<and>
       (\<exists>r. hm_get (crs_challenge_manager svc') (ap_challenge p) = Some r \<and> acr_state r = ACS_Consumed) \<and>
       nonce_at (crs_replay_protector svc') (ap_device_id p) (ap_nonce p) = Some now \<and>
       (\<forall>d. d \<noteq> ap_device_id p \<longrightarrow> store_trusted_device s' d = store_trusted_device s d)) \<and>
    (\<forall>e. res = Inl e \<longrightarrow> s' = s \<and> learns_nothing (crs_replay_protector svc) (crs_replay_protector svc') \<and>
       (if store_trusted_device s (ap_device_id p) = None then svc' = svc \<and> e = CAE_UntrustedDevice (ap_device_id p)
        else burned p svc'))"
proof (cases "admissible store_trusted_device verify u p now svc s")
  case True
  then obtain t where t: "store_trusted_device s (ap_device_id p) = Some t" by (auto simp: admissible_def)
  from mem.authenticate_ok [OF assms(1) True t] assms(2) t True show ?thesis
    by (auto simp: nonce_at_record mem.lookup_mark_seen)
next
  case False
  from mem.authenticate_refused [OF assms(1) False assms(2)] False show ?thesis by auto
qed

theorem authentication_is_exact_witness:
  "\<exists>a svc' s'. authenticate store_trusted_device store_mark_seen (\<lambda>k b g. g = [5]) dec demo_payload 120 demo_service demo_store =
      (Inr a, svc', s') \<and> ad_device_id a = 3"
proof -
  let ?r = "authenticate store_trusted_device store_mark_seen (\<lambda>k b g. g = [5]) dec demo_payload 120 demo_service demo_store"
  obtain res svc' s' where e: "?r = (res, svc', s')" by (cases ?r) auto
  from authentication_is_exact [OF demo_service_ok e] demo_admissible obtain a where "res = Inr a" "ad_device_id a = ap_device_id demo_payload"
    by auto
  with e show ?thesis by (auto simp: demo_payload_def)
qed

text \<open>
  C7. A new device gets in. From any state, after a token is issued, the device's pair request with
  that token and a well-formed key is accepted before the token expires, and then, with a challenge
  issued to it, a request with a fresh nonce, a timestamp within the skew and a signature that the
  verifier accepts under that key is authenticated before the challenge expires. (Each list of drawn
  UUID texts contains one that is not in use.)
\<close>

theorem new_device_gets_in:
  assumes "hm_wf m" "service_ok svc"
    and "token_issue tdraws t0 ttl m = (Some (Inr tok), m1)"
    and "prq_token req = ptr_token tok" "t1 < t0 + ttl"
    and "validate_device_public_key_wire b64 oc (prq_device_public_key req) = Inr ()"
    and "issue_challenge cdraws (prq_device_id req) t2 cttl svc = (Some (Inr ch), svc1)"
    and "ap_device_id p = prq_device_id req" "ap_challenge p = acr_challenge ch" "t3 < t2 + cttl"
    and "abs_diff (ap_timestamp_ms p) t3 \<le> rp_allowed_clock_skew_ms (crs_replay_protector svc)"
    and "nonce_at (crs_replay_protector svc) (ap_device_id p) (ap_nonce p) = None"
    and "verify (prq_device_public_key req) (signing_to_bytes u (from_payload p (crs_daemon_identity svc))) (ap_signature p)"
  shows "\<exists>a m2 s1 svc2 s2.
    accept_pair_request store_trust_device b64 oc draw req t1 daemon m1 s = (Inr a, m2, s1) \<and>
    authenticate store_trusted_device store_mark_seen verify u p t3 svc1 s1 =
      (Inr \<lparr>ad_device_id = prq_device_id req, ad_device_public_key = prq_device_public_key req,
            ad_authenticated_at_ms = t3\<rparr>, svc2, s2)"
proof -
  let ?m = "snd (prune_expired t0 m)"
  have wf: "hm_wf ?m" using assms(1) by (simp add: prune_expired_def prune_wf)
  have "issue_loop tdraws t0 (t0 + ttl) ?m = (Some (Inr tok), m1)"
    using assms(3) by (auto simp: token_issue_def split: if_splits)
  from issue_loop_result [OF this] have tok: "tok = pairing_token_record_new (ptr_token tok) t0 (t0 + ttl)"
    "m1 = hm_insert (ptr_token tok) tok ?m" by (auto simp: pairing_token_record_new_def)
  have wf1: "hm_wf m1" using wf tok(2) by simp
  have r: "hm_get m1 (prq_token req) = Some tok" using tok(2) assms(4) by simp
  have state: "ptr_state tok = PTS_Active" "ptr_expires_at_ms tok = t0 + ttl"
    by (subst tok(1), simp add: pairing_token_record_new_def)+
  have pr: "pairable b64 oc req t1 m1" using r state assms(5,6) by (simp add: pairable_def)
  from consume_pair_ok [OF wf1 pr r, of draw daemon] obtain pp m2 where
    pp: "consume_pair_request b64 oc draw req t1 daemon m1 = (Inr pp, m2)"
      "pp_device_identity pp = \<lparr>di_device_id = prq_device_id req, di_public_key = prq_device_public_key req\<rparr>" by blast
  let ?s = "store_trust_device (pp_device_identity pp) t1 None s"
  have acc: "accept_pair_request store_trust_device b64 oc draw req t1 daemon m1 s = (Inr (pp_accepted pp), m2, ?s)"
    by (simp add: accept_pair_request_def pp(1) trust_pending_pairing_def)
  obtain t where t: "store_trusted_device ?s (prq_device_id req) = Some t" "td_public_key t = prq_device_public_key req"
    by (simp add: mem.lookup_trust pp(2) refresh_def trusted_device_new_def split: option.splits)
  obtain n where i: "challenge_issue cdraws (prq_device_id req) t2 cttl (crs_challenge_manager svc) = (Some (Inr ch), n)"
    "svc1 = svc\<lparr>crs_challenge_manager := n\<rparr>"
    using assms(7) by (auto simp: issue_challenge_def case_prod_beta prod_eq_iff)
  let ?e = "snd (enforce_device_outstanding_cap (prq_device_id req) (snd (prune_unusable_except t2 None (crs_challenge_manager svc))))"
  have "challenge_issue_loop cdraws (prq_device_id req) t2 (t2 + cttl) ?e = (Some (Inr ch), n)"
    using i(1) by (auto simp: challenge_issue_def split: if_splits)
  from challenge_issue_loop_result [OF this] have ch: "ch = auth_challenge_record_new (acr_challenge ch) (prq_device_id req) t2 (t2 + cttl)"
    "n = hm_insert (acr_challenge ch) ch ?e" by (auto simp: auth_challenge_record_new_def)
  have wfn: "hm_wf n" using enforce_cap_spec [OF unusable_wf, of "crs_challenge_manager svc" "prq_device_id req" t2 None] assms(2) ch(2)
    by (simp add: service_ok_def)
  have act: "active_for (prq_device_id req) ch" "acr_expires_at_ms ch = t2 + cttl"
    by (subst ch(1), simp add: active_for_def auth_challenge_record_new_def)+
  have get: "hm_get n (acr_challenge ch) = Some ch" by (subst ch(2)) simp
  have ok1: "service_ok svc1" using assms(2) wfn i(2) by (simp add: service_ok_def)
  have "admissible store_trusted_device verify u p t3 svc1 ?s"
    using t assms(8-13) get act i(2) by (simp add: admissible_def)
  from mem.authenticate_ok [OF ok1 this] t assms(8) acc show ?thesis by auto
qed

theorem new_device_gets_in_witness:
  "\<exists>tok m1 ch svc1 a m2 s1 svc2 s2.
    token_issue [[49]] 100 50 [] = (Some (Inr tok), m1) \<and>
    issue_challenge [[49]] 3 125 50 demo_service = (Some (Inr ch), svc1) \<and>
    accept_pair_request store_trust_device demo_b64 (\<lambda>_. True) [50] demo_request 120 demo_daemon m1 [] = (Inr a, m2, s1) \<and>
    authenticate store_trusted_device store_mark_seen (\<lambda>k b g. g = [5]) dec
      (demo_payload\<lparr>ap_challenge := acr_challenge ch\<rparr>) 130 svc1 s1 =
      (Inr \<lparr>ad_device_id = 3, ad_device_public_key = ed25519_wire_prefix @ [65], ad_authenticated_at_ms = 130\<rparr>, svc2, s2)"
proof -
  obtain tok m1 where i: "token_issue [[49]] 100 50 [] = (Some (Inr tok), m1)" "ptr_token tok = generate_pairing_token [49]"
    by (simp add: token_issue_def prune_expired_def prune_expired_except_def Let_def u64_max_def hm_retain_def
        pairing_token_record_new_def)
  obtain ch svc1 where c: "issue_challenge [[49]] 3 125 50 demo_service = (Some (Inr ch), svc1)"
    by (simp add: issue_challenge_def demo_service_def challenge_issue_def prune_unusable_except_def Let_def hm_retain_def
        u64_max_def enforce_device_outstanding_cap.simps hm_count_def max_outstanding_per_device_def challenge_is_expired_def
        auth_challenge_record_new_def active_for_def generate_auth_challenge_def ascii_def)
  have "\<exists>a m2 s1 svc2 s2.
    accept_pair_request store_trust_device demo_b64 (\<lambda>_. True) [50] demo_request 120 demo_daemon m1 [] = (Inr a, m2, s1) \<and>
    authenticate store_trusted_device store_mark_seen (\<lambda>k b g. g = [5]) dec
      (demo_payload\<lparr>ap_challenge := acr_challenge ch\<rparr>) 130 svc1 s1 =
      (Inr \<lparr>ad_device_id = prq_device_id demo_request, ad_device_public_key = prq_device_public_key demo_request,
        ad_authenticated_at_ms = 130\<rparr>, svc2, s2)"
  proof (rule new_device_gets_in [OF _ demo_service_ok i(1)])
    show "issue_challenge [[49]] (prq_device_id demo_request) 125 50 demo_service = (Some (Inr ch), svc1)"
      using c by (simp add: demo_request_def)
  qed (use i(2) in \<open>simp_all add: demo_request_def demo_payload_def demo_service_def replay_new_def abs_diff_def nonce_at_def
      validate_device_public_key_wire_def strip_prefix_def demo_b64_def\<close>)
  with i(1) c show ?thesis by (auto simp: demo_request_def)
qed

end
