(* ===== verification/Protocol_Base.thy ===== *)
theory Protocol_Base
  imports Termd_Prelude
begin

text \<open>
  What the parts of the daemon protocol (\<open>termd/src/net/protocol.rs\<close>) share: its error type, whose values
  are the only thing a client learns of a failure.
\<close>

datatype protocol_error =
    InvalidState
  | InvalidEnvelope
  | Unauthenticated
  | AuthFailed
  | PairingFailed
  | Protocol_SessionNotFound
  | RuntimeFailed
  | StateFailed

end
