(* ===== verification/Credentials.thy ===== *)
theory Credentials
  imports Auth_Service Protocol_Base
begin

text \<open>
  Signed credentials: \<open>src/termd/src/auth/credentials.rs\<close> and the methods of \<open>DaemonProtocol\<close> in
  \<open>src/termd/src/net/protocol.rs\<close> that hand them out. A pair ticket makes a device trusted, a device
  certificate binds its key, an access token opens the application for five minutes.

  The libraries are the argument \<open>credential_crypto\<close>: base64 in its two alphabets, JSON of the two
  structures, ed25519. \<open>crypto_laws\<close> states what the code relies on. Fresh credential ids, the
  signature verifier of devices and the outcome of writing the state file are arguments too.
\<close>

declare map_of_eq_Some_iff [simp del] Some_eq_map_of_iff [simp del]

section \<open>Claims and their signature\<close>

datatype credential_kind = PairTicket | DeviceCertificate | AccessToken

record credential_claims =
  cl_kind :: credential_kind
  cl_issuer :: uuid
  cl_device_id :: "uuid option"
  cl_device_public_key :: "wire_text option"
  cl_issued_at_ms :: unix_ms
  cl_expires_at_ms :: unix_ms
  cl_credential_id :: wire_text

datatype credential_error =
    CrE_Malformed | CrE_UnsupportedAlgorithm | CrE_WrongKeyId | CrE_WrongIssuer | CrE_WrongKind | CrE_Expired
  | CrE_InvalidSignature | CrE_SigningFailed

record jws_header =
  jh_alg :: wire_text
  jh_kid :: wire_text
  jh_typ :: wire_text

record credential_crypto =
  cc_url_encode :: "u8 list \<Rightarrow> wire_text"
  cc_url_decode :: "wire_text \<Rightarrow> u8 list option"
  cc_std_decode :: "wire_text \<Rightarrow> u8 list option"
  cc_header_json :: "jws_header \<Rightarrow> u8 list option"
  cc_header_of_json :: "u8 list \<Rightarrow> jws_header option"
  cc_claims_json :: "credential_claims \<Rightarrow> u8 list option"
  cc_claims_of_json :: "u8 list \<Rightarrow> credential_claims option"
  cc_sign_to_wire :: "u8 list \<Rightarrow> wire_text option"
  cc_verify :: "u8 list \<Rightarrow> u8 list \<Rightarrow> u8 list \<Rightarrow> bool"
  cc_is_key :: "u8 list \<Rightarrow> bool"
  cc_uuid_text :: "uuid \<Rightarrow> wire_text"

definition sign_claims :: "credential_crypto \<Rightarrow> uuid \<Rightarrow> credential_claims \<Rightarrow> credential_error + wire_text" where
  "sign_claims k server_id claims =
     (case cc_header_json k \<lparr>jh_alg = ascii ''EdDSA'', jh_kid = cc_uuid_text k server_id, jh_typ = ascii ''JWT''\<rparr> of
        None \<Rightarrow> Inl CrE_SigningFailed
      | Some header \<Rightarrow>
          (case cc_claims_json k claims of
             None \<Rightarrow> Inl CrE_SigningFailed
           | Some body \<Rightarrow>
               (let signing_input = cc_url_encode k header @ ascii ''.'' @ cc_url_encode k body in
                case cc_sign_to_wire k signing_input of
                  None \<Rightarrow> Inl CrE_SigningFailed
                | Some wire \<Rightarrow>
                    (case strip_prefix ed25519_wire_prefix wire of
                       None \<Rightarrow> Inl CrE_SigningFailed
                     | Some encoded \<Rightarrow>
                         (case cc_std_decode k encoded of
                            None \<Rightarrow> Inl CrE_SigningFailed
                          | Some signature \<Rightarrow> Inr (signing_input @ ascii ''.'' @ cc_url_encode k signature))))))"

definition issue_pair_ticket :: "credential_crypto \<Rightarrow> uuid \<Rightarrow> wire_text \<Rightarrow> unix_ms \<Rightarrow> unix_ms \<Rightarrow> credential_error + wire_text" where
  "issue_pair_ticket k server_id fresh issued expires =
     sign_claims k server_id \<lparr>cl_kind = PairTicket, cl_issuer = server_id, cl_device_id = None, cl_device_public_key = None,
       cl_issued_at_ms = issued, cl_expires_at_ms = expires, cl_credential_id = fresh\<rparr>"

definition issue_device_certificate :: "credential_crypto \<Rightarrow> uuid \<Rightarrow> wire_text \<Rightarrow> uuid \<Rightarrow> wire_text \<Rightarrow> unix_ms \<Rightarrow> credential_error + wire_text" where
  "issue_device_certificate k server_id fresh device_id key issued =
     sign_claims k server_id \<lparr>cl_kind = DeviceCertificate, cl_issuer = server_id, cl_device_id = Some device_id,
       cl_device_public_key = Some key, cl_issued_at_ms = issued, cl_expires_at_ms = u64_max, cl_credential_id = fresh\<rparr>"

definition issue_access_token :: "credential_crypto \<Rightarrow> uuid \<Rightarrow> wire_text \<Rightarrow> uuid \<Rightarrow> unix_ms \<Rightarrow> unix_ms \<Rightarrow> credential_error + wire_text" where
  "issue_access_token k server_id fresh device_id issued expires =
     sign_claims k server_id \<lparr>cl_kind = AccessToken, cl_issuer = server_id, cl_device_id = Some device_id,
       cl_device_public_key = None, cl_issued_at_ms = issued, cl_expires_at_ms = expires, cl_credential_id = fresh\<rparr>"

text \<open>\<open>str::split('.')\<close>: always at least one segment.\<close>

fun split_dot :: "wire_text \<Rightarrow> wire_text list" where
  "split_dot [] = [[]]"
| "split_dot (c # cs) =
     (if c = 46 then [] # split_dot cs
      else case split_dot cs of [] \<Rightarrow> [[c]] | seg # segs \<Rightarrow> (c # seg) # segs)"

definition verify_credential ::
  "credential_crypto \<Rightarrow> wire_text \<Rightarrow> wire_text \<Rightarrow> uuid \<Rightarrow> unix_ms \<Rightarrow> credential_kind \<Rightarrow> credential_error + credential_claims" where
  "verify_credential k compact daemon_key server_id now kind =
     (case split_dot compact of
        [encoded_header, encoded_claims, encoded_signature] \<Rightarrow>
          if encoded_signature = [] then Inl CrE_Malformed
          else
            (case Option.bind (cc_url_decode k encoded_header) (cc_header_of_json k) of
               None \<Rightarrow> Inl CrE_Malformed
             | Some header \<Rightarrow>
                 if jh_alg header \<noteq> ascii ''EdDSA'' \<or> jh_typ header \<noteq> ascii ''JWT'' then Inl CrE_UnsupportedAlgorithm
                 else if jh_kid header \<noteq> cc_uuid_text k server_id then Inl CrE_WrongKeyId
                 else
                   (case Option.bind (cc_url_decode k encoded_claims) (cc_claims_of_json k) of
                      None \<Rightarrow> Inl CrE_Malformed
                    | Some claims \<Rightarrow>
                        if cl_issuer claims \<noteq> server_id then Inl CrE_WrongIssuer
                        else if cl_kind claims \<noteq> kind then Inl CrE_WrongKind
                        else if now > cl_expires_at_ms claims then Inl CrE_Expired
                        else
                          (case Option.bind (strip_prefix ed25519_wire_prefix daemon_key) (cc_std_decode k) of
                             None \<Rightarrow> Inl CrE_InvalidSignature
                           | Some key \<Rightarrow>
                               if length key \<noteq> 32 \<or> \<not> cc_is_key k key then Inl CrE_InvalidSignature
                               else
                                 (case cc_url_decode k encoded_signature of
                                    None \<Rightarrow> Inl CrE_Malformed
                                  | Some signature \<Rightarrow>
                                      if length signature \<noteq> 64 then Inl CrE_Malformed
                                      else if \<not> cc_verify k key (encoded_header @ ascii ''.'' @ encoded_claims) signature
                                      then Inl CrE_InvalidSignature
                                      else Inr claims))))
      | _ \<Rightarrow> Inl CrE_Malformed)"

text \<open>What a device signs to get a token: fields separated by line ends, without lengths.\<close>

definition access_token_proof_bytes :: "credential_crypto \<Rightarrow> uuid \<Rightarrow> auth_payload \<Rightarrow> u8 list" where
  "access_token_proof_bytes k server_id p =
     ascii ''termd-access-token-v1'' @ [10] @ ascii ''server_id='' @ cc_uuid_text k server_id @ [10] @
     ascii ''device_id='' @ cc_uuid_text k (ap_device_id p) @ [10] @ ascii ''challenge='' @ ap_challenge p @ [10] @
     ascii ''nonce='' @ ap_nonce p @ [10] @ ascii ''timestamp_ms='' @ dec (ap_timestamp_ms p) @ [10]"


section \<open>The daemon's credential methods\<close>

record daemon_auth =
  da_server_id :: uuid
  da_public_key :: wire_text
  da_pairing_token_ttl_ms :: u64
  da_auth_service :: challenge_response_service
  da_consumed_pair_ticket_ids :: "wire_text set"
  da_trusted_store :: trusted_store

definition auth_challenge_ttl_ms :: u64 where
  "auth_challenge_ttl_ms = 60000"

definition issue_pair_ticket_credential :: "credential_crypto \<Rightarrow> wire_text \<Rightarrow> unix_ms \<Rightarrow> daemon_auth \<Rightarrow> protocol_error + wire_text \<times> unix_ms" where
  "issue_pair_ticket_credential k fresh now d =
     (if now + da_pairing_token_ttl_ms d > u64_max then Inl AuthFailed
      else case issue_pair_ticket k (da_server_id d) fresh now (now + da_pairing_token_ttl_ms d) of
        Inl e \<Rightarrow> Inl AuthFailed
      | Inr ticket \<Rightarrow> Inr (ticket, now + da_pairing_token_ttl_ms d))"

text \<open>\<open>persisted\<close> is whether the state file could be written.\<close>

definition pair_device_certificate :: "credential_crypto \<Rightarrow> (u8 list \<Rightarrow> bool) \<Rightarrow> bool \<Rightarrow> wire_text \<Rightarrow> wire_text \<Rightarrow> uuid \<Rightarrow> wire_text \<Rightarrow> unix_ms \<Rightarrow>
    daemon_auth \<Rightarrow> (protocol_error + wire_text) \<times> daemon_auth" where
  "pair_device_certificate k on_curve persisted fresh ticket device_id key now d =
     (case verify_credential k ticket (da_public_key d) (da_server_id d) now PairTicket of
        Inl e \<Rightarrow> (Inl PairingFailed, d)
      | Inr claims \<Rightarrow>
          if cl_credential_id claims \<in> da_consumed_pair_ticket_ids d then (Inl PairingFailed, d)
          else
            (case validate_device_public_key_wire (cc_std_decode k) on_curve key of
               Inl e \<Rightarrow> (Inl PairingFailed, d)
             | Inr _ \<Rightarrow>
                 (let d1 = d\<lparr>da_trusted_store := store_trust_device \<lparr>di_device_id = device_id, di_public_key = key\<rparr> now None (da_trusted_store d)\<rparr> in
                  if \<not> persisted then (Inl StateFailed, d1)
                  else
                    (let d2 = d1\<lparr>da_consumed_pair_ticket_ids := insert (cl_credential_id claims) (da_consumed_pair_ticket_ids d1)\<rparr> in
                     case issue_device_certificate k (da_server_id d) fresh device_id key now of
                       Inl e \<Rightarrow> (Inl AuthFailed, d2)
                     | Inr certificate \<Rightarrow> (Inr certificate, d2)))))"

definition challenge_for :: "wire_text list \<Rightarrow> uuid \<Rightarrow> unix_ms \<Rightarrow> daemon_auth \<Rightarrow>
    (protocol_error + uuid \<times> wire_text \<times> unix_ms) option \<times> daemon_auth" where
  "challenge_for draws device_id now d =
     (case issue_challenge draws device_id now auth_challenge_ttl_ms (da_auth_service d) of
        (None, s) \<Rightarrow> (None, d\<lparr>da_auth_service := s\<rparr>)
      | (Some (Inl e), s) \<Rightarrow> (Some (Inl AuthFailed), d\<lparr>da_auth_service := s\<rparr>)
      | (Some (Inr c), s) \<Rightarrow> (Some (Inr (device_id, acr_challenge c, acr_expires_at_ms c)), d\<lparr>da_auth_service := s\<rparr>))"

definition issue_migration_challenge :: "wire_text list \<Rightarrow> uuid \<Rightarrow> unix_ms \<Rightarrow> daemon_auth \<Rightarrow>
    (protocol_error + uuid \<times> wire_text \<times> unix_ms) option \<times> daemon_auth" where
  "issue_migration_challenge draws device_id now d =
     (case require_trusted store_trusted_device (da_trusted_store d) device_id of
        Inl e \<Rightarrow> (Some (Inl AuthFailed), d)
      | Inr _ \<Rightarrow> challenge_for draws device_id now d)"

text \<open>The steps that migration and token exchange share, from the challenge to the mark that the device was seen.\<close>

definition prove_possession :: "credential_crypto \<Rightarrow> (wire_text \<Rightarrow> u8 list \<Rightarrow> wire_text \<Rightarrow> bool) \<Rightarrow> auth_payload \<Rightarrow> unix_ms \<Rightarrow> daemon_auth \<Rightarrow>
    (protocol_error + trusted_device) \<times> daemon_auth" where
  "prove_possession k verify p now d =
     (let svc = da_auth_service d;
          (cres, m) = challenge_consume (ap_device_id p) (ap_challenge p) now (crs_challenge_manager svc);
          d1 = d\<lparr>da_auth_service := svc\<lparr>crs_challenge_manager := m\<rparr>\<rparr> in
      case cres of
        Inl e \<Rightarrow> (Inl AuthFailed, d1)
      | Inr _ \<Rightarrow>
          (let (rres, rp) = replay_check (ap_device_id p) (ap_nonce p) (ap_timestamp_ms p) now (crs_replay_protector svc);
               d2 = d1\<lparr>da_auth_service := (da_auth_service d1)\<lparr>crs_replay_protector := rp\<rparr>\<rparr> in
           case rres of
             Inl e \<Rightarrow> (Inl AuthFailed, d2)
           | Inr _ \<Rightarrow>
               (case require_trusted store_trusted_device (da_trusted_store d2) (ap_device_id p) of
                  Inl e \<Rightarrow> (Inl AuthFailed, d2)
                | Inr t \<Rightarrow>
                    if \<not> verify (td_public_key t) (access_token_proof_bytes k (da_server_id d) p) (ap_signature p)
                    then (Inl AuthFailed, d2)
                    else
                      (let d3 = d2\<lparr>da_auth_service := (da_auth_service d2)\<lparr>crs_replay_protector := record_checked (ap_device_id p) (ap_nonce p) now rp\<rparr>\<rparr>;
                           (mres, s) = store_mark_seen (ap_device_id p) now (da_trusted_store d3);
                           d4 = d3\<lparr>da_trusted_store := s\<rparr> in
                       case mres of Inl e \<Rightarrow> (Inl AuthFailed, d4) | Inr _ \<Rightarrow> (Inr t, d4)))))"

definition migrate_device_certificate :: "credential_crypto \<Rightarrow> (wire_text \<Rightarrow> u8 list \<Rightarrow> wire_text \<Rightarrow> bool) \<Rightarrow> wire_text \<Rightarrow> auth_payload \<Rightarrow> unix_ms \<Rightarrow>
    daemon_auth \<Rightarrow> (protocol_error + wire_text) \<times> daemon_auth" where
  "migrate_device_certificate k verify fresh p now d =
     (case prove_possession k verify p now d of
        (Inl e, d1) \<Rightarrow> (Inl e, d1)
      | (Inr t, d1) \<Rightarrow>
          (case issue_device_certificate k (da_server_id d) fresh (ap_device_id p) (td_public_key t) now of
             Inl e \<Rightarrow> (Inl AuthFailed, d1)
           | Inr certificate \<Rightarrow> (Inr certificate, d1)))"

definition device_certificate_claims :: "credential_crypto \<Rightarrow> wire_text \<Rightarrow> unix_ms \<Rightarrow> daemon_auth \<Rightarrow> protocol_error + credential_claims" where
  "device_certificate_claims k certificate now d =
     (case verify_credential k certificate (da_public_key d) (da_server_id d) now DeviceCertificate of
        Inl e \<Rightarrow> Inl AuthFailed
      | Inr claims \<Rightarrow>
          (case (cl_device_id claims, cl_device_public_key claims) of
             (Some device_id, Some key) \<Rightarrow>
               (case require_trusted_identity store_trusted_device (da_trusted_store d) \<lparr>di_device_id = device_id, di_public_key = key\<rparr> of
                  Inl e \<Rightarrow> Inl AuthFailed
                | Inr _ \<Rightarrow> Inr claims)
           | _ \<Rightarrow> Inl AuthFailed))"

definition issue_access_token_challenge :: "credential_crypto \<Rightarrow> wire_text list \<Rightarrow> wire_text \<Rightarrow> uuid \<Rightarrow> unix_ms \<Rightarrow> daemon_auth \<Rightarrow>
    (protocol_error + uuid \<times> wire_text \<times> unix_ms) option \<times> daemon_auth" where
  "issue_access_token_challenge k draws certificate device_id now d =
     (case device_certificate_claims k certificate now d of
        Inl e \<Rightarrow> (Some (Inl e), d)
      | Inr claims \<Rightarrow>
          if cl_device_id claims \<noteq> Some device_id then (Some (Inl AuthFailed), d)
          else challenge_for draws device_id now d)"

definition exchange_access_token :: "credential_crypto \<Rightarrow> (wire_text \<Rightarrow> u8 list \<Rightarrow> wire_text \<Rightarrow> bool) \<Rightarrow> wire_text \<Rightarrow> wire_text \<Rightarrow> auth_payload \<Rightarrow> unix_ms \<Rightarrow>
    daemon_auth \<Rightarrow> (protocol_error + wire_text \<times> unix_ms) \<times> daemon_auth" where
  "exchange_access_token k verify fresh certificate p now d =
     (case device_certificate_claims k certificate now d of
        Inl e \<Rightarrow> (Inl e, d)
      | Inr claims \<Rightarrow>
          if cl_device_id claims \<noteq> Some (ap_device_id p) then (Inl AuthFailed, d)
          else
            (case prove_possession k verify p now d of
               (Inl e, d1) \<Rightarrow> (Inl e, d1)
             | (Inr t, d1) \<Rightarrow>
                 if now + 300000 > u64_max then (Inl AuthFailed, d1)
                 else
                   (case issue_access_token k (da_server_id d) fresh (ap_device_id p) now (now + 300000) of
                      Inl e \<Rightarrow> (Inl AuthFailed, d1)
                    | Inr token \<Rightarrow> (Inr (token, now + 300000), d1))))"

definition verify_access_token_credential :: "credential_crypto \<Rightarrow> wire_text \<Rightarrow> unix_ms \<Rightarrow> daemon_auth \<Rightarrow> protocol_error + uuid" where
  "verify_access_token_credential k token now d =
     (case verify_credential k token (da_public_key d) (da_server_id d) now AccessToken of
        Inl e \<Rightarrow> Inl AuthFailed
      | Inr claims \<Rightarrow>
          (case cl_device_id claims of
             None \<Rightarrow> Inl AuthFailed
           | Some device_id \<Rightarrow>
               (case require_trusted store_trusted_device (da_trusted_store d) device_id of
                  Inl e \<Rightarrow> Inl AuthFailed
                | Inr _ \<Rightarrow> Inr device_id)))"

section \<open>What the code relies on\<close>

text \<open>The laws of the codecs, and that the daemon's signing key belongs to the public key it announces.\<close>

definition crypto_laws :: "credential_crypto \<Rightarrow> wire_text \<Rightarrow> bool" where
  "crypto_laws k daemon_key \<longleftrightarrow>
     (\<forall>x. cc_url_decode k (cc_url_encode k x) = Some x) \<and> (\<forall>x. 46 \<notin> set (cc_url_encode k x)) \<and>
     cc_url_encode k [] = [] \<and>
     (\<forall>h. \<exists>b. cc_header_json k h = Some b \<and> cc_header_of_json k b = Some h) \<and>
     (\<forall>c. \<exists>b. cc_claims_json k c = Some b \<and> cc_claims_of_json k b = Some c) \<and>
     (\<exists>key. Option.bind (strip_prefix ed25519_wire_prefix daemon_key) (cc_std_decode k) = Some key \<and> length key = 32 \<and> cc_is_key k key \<and>
        (\<forall>m. \<exists>enc sg. cc_sign_to_wire k m = Some (ed25519_wire_prefix @ enc) \<and> cc_std_decode k enc = Some sg \<and>
             length sg = 64 \<and> cc_verify k key m sg))"

lemma split_dot_none: "46 \<notin> set t \<Longrightarrow> split_dot t = [t]"
  by (induction t) auto

lemma split_dot_app: "46 \<notin> set a \<Longrightarrow> split_dot (a @ 46 # t) = a # split_dot t"
  by (induction a) auto

lemma split_dot_nonempty: "split_dot t \<noteq> []"
  by (cases t) (auto split: list.splits)

lemma split_dot_join: "split_dot t = a # segs \<Longrightarrow>
    46 \<notin> set a \<and> (if segs = [] then t = a else \<exists>r. t = a @ 46 # r \<and> split_dot r = segs)"
proof (induction t arbitrary: a segs)
  case Nil
  then show ?case by simp
next
  case (Cons c t)
  show ?case
  proof (cases "c = 46")
    case True
    with Cons.prems split_dot_nonempty [of t] show ?thesis by auto
  next
    case False
    obtain seg rest where r: "split_dot t = seg # rest" using split_dot_nonempty [of t] by (cases "split_dot t") auto
    with False Cons.prems have "a = c # seg" "segs = rest" by auto
    with Cons.IH [OF r] False show ?thesis by auto
  qed
qed

lemma split_dot_three: "split_dot t = [a, b, c] \<Longrightarrow> t = a @ 46 # b @ 46 # c"
  using split_dot_join by (metis list.distinct(1))

lemma verify_credential_iff:
  "verify_credential k compact daemon_key server_id now kind = Inr claims \<longleftrightarrow>
   (\<exists>h b g header key sg. split_dot compact = [h, b, g] \<and> g \<noteq> [] \<and>
      Option.bind (cc_url_decode k h) (cc_header_of_json k) = Some header \<and>
      jh_alg header = ascii ''EdDSA'' \<and> jh_typ header = ascii ''JWT'' \<and> jh_kid header = cc_uuid_text k server_id \<and>
      Option.bind (cc_url_decode k b) (cc_claims_of_json k) = Some claims \<and>
      cl_issuer claims = server_id \<and> cl_kind claims = kind \<and> now \<le> cl_expires_at_ms claims \<and>
      Option.bind (strip_prefix ed25519_wire_prefix daemon_key) (cc_std_decode k) = Some key \<and> length key = 32 \<and> cc_is_key k key \<and>
      cc_url_decode k g = Some sg \<and> length sg = 64 \<and> cc_verify k key (h @ ascii ''.'' @ b) sg)" (is "?l \<longleftrightarrow> ?r")
proof
  assume ?l
  then show ?r
    unfolding verify_credential_def by (auto split: list.splits if_splits option.splits)
next
  assume ?r
  then show ?l by (auto simp: verify_credential_def)
qed

lemma sign_then_verify:
  assumes "crypto_laws k daemon_key"
  shows "\<exists>compact. sign_claims k server_id claims = Inr compact \<and>
    (cl_issuer claims = server_id \<and> now \<le> cl_expires_at_ms claims \<longrightarrow>
       verify_credential k compact daemon_key server_id now (cl_kind claims) = Inr claims)"
proof -
  let ?h = "\<lparr>jh_alg = ascii ''EdDSA'', jh_kid = cc_uuid_text k server_id, jh_typ = ascii ''JWT''\<rparr>"
  obtain hb where hb: "cc_header_json k ?h = Some hb" "cc_header_of_json k hb = Some ?h"
    using assms unfolding crypto_laws_def by blast
  obtain cb where cb: "cc_claims_json k claims = Some cb" "cc_claims_of_json k cb = Some claims"
    using assms unfolding crypto_laws_def by blast
  let ?in = "cc_url_encode k hb @ ascii ''.'' @ cc_url_encode k cb"
  obtain key enc sg where key: "Option.bind (strip_prefix ed25519_wire_prefix daemon_key) (cc_std_decode k) = Some key"
    "length key = 32" "cc_is_key k key" "cc_sign_to_wire k ?in = Some (ed25519_wire_prefix @ enc)" "cc_std_decode k enc = Some sg"
    "length sg = 64" "cc_verify k key ?in sg"
    using assms unfolding crypto_laws_def by blast
  have url: "cc_url_decode k (cc_url_encode k x) = Some x" "46 \<notin> set (cc_url_encode k x)" for x
    using assms by (auto simp: crypto_laws_def)
  have dot: "ascii ''.'' = [46]" by (simp add: ascii_def)
  have "sign_claims k server_id claims = Inr (?in @ ascii ''.'' @ cc_url_encode k sg)"
    using hb cb key by (simp add: sign_claims_def strip_prefix_def)
  moreover have "split_dot (?in @ ascii ''.'' @ cc_url_encode k sg) = [cc_url_encode k hb, cc_url_encode k cb, cc_url_encode k sg]"
    using url(2) by (simp add: dot split_dot_app split_dot_none)
  moreover have "cc_url_encode k sg \<noteq> []"
  proof
    assume "cc_url_encode k sg = []"
    then have "cc_url_encode k sg = cc_url_encode k []" using assms by (simp add: crypto_laws_def)
    then have "sg = []" using url(1) by (metis option.inject)
    then show False using key(6) by simp
  qed
  ultimately show ?thesis
    using hb cb key url by (auto simp: verify_credential_iff)
qed

section \<open>Proof of possession\<close>

definition possession :: "credential_crypto \<Rightarrow> (wire_text \<Rightarrow> u8 list \<Rightarrow> wire_text \<Rightarrow> bool) \<Rightarrow> auth_payload \<Rightarrow> unix_ms \<Rightarrow> daemon_auth \<Rightarrow> bool" where
  "possession k verify p now d \<longleftrightarrow>
     (\<exists>t. hm_get (da_trusted_store d) (ap_device_id p) = Some t \<and>
        verify (td_public_key t) (access_token_proof_bytes k (da_server_id d) p) (ap_signature p)) \<and>
     (\<exists>r. hm_get (crs_challenge_manager (da_auth_service d)) (ap_challenge p) = Some r \<and> active_for (ap_device_id p) r \<and>
        now < acr_expires_at_ms r) \<and>
     abs_diff (ap_timestamp_ms p) now \<le> rp_allowed_clock_skew_ms (crs_replay_protector (da_auth_service d)) \<and>
     \<not> (\<exists>at. nonce_at (crs_replay_protector (da_auth_service d)) (ap_device_id p) (ap_nonce p) = Some at \<and>
           now - at \<le> rp_allowed_clock_skew_ms (crs_replay_protector (da_auth_service d)))"

lemma prove_possession_spec:
  assumes "service_ok (da_auth_service d)" "prove_possession k verify p now d = (r, d')"
  shows "(\<exists>t. r = Inr t) \<longleftrightarrow> possession k verify p now d"
    "r = Inr t \<Longrightarrow> hm_get (da_trusted_store d) (ap_device_id p) = Some t"
    "burned p (da_auth_service d')" "da_server_id d' = da_server_id d" "da_public_key d' = da_public_key d"
    "da_consumed_pair_ticket_ids d' = da_consumed_pair_ticket_ids d"
    "hm_get (da_trusted_store d) (ap_device_id p) = Some t' \<Longrightarrow>
       \<exists>t2. hm_get (da_trusted_store d') (ap_device_id p) = Some t2 \<and> td_public_key t2 = td_public_key t'"
proof -
  let ?svc = "da_auth_service d"
  have wf: "hm_wf (crs_challenge_manager ?svc)" and rok: "replay_ok (crs_replay_protector ?svc)"
    using assms(1) by (simp_all add: service_ok_def)
  obtain cres m where c: "challenge_consume (ap_device_id p) (ap_challenge p) now (crs_challenge_manager ?svc) = (cres, m)" by force
  note cr = challenge_consume_result [OF wf c]
  obtain rres rp where rc: "replay_check (ap_device_id p) (ap_nonce p) (ap_timestamp_ms p) now (crs_replay_protector ?svc) = (rres, rp)" by force
  have ri: "rres = Inr () \<longleftrightarrow> abs_diff (ap_timestamp_ms p) now \<le> rp_allowed_clock_skew_ms (crs_replay_protector ?svc) \<and>
    \<not> (\<exists>at. nonce_at (crs_replay_protector ?svc) (ap_device_id p) (ap_nonce p) = Some at \<and> now - at \<le> rp_allowed_clock_skew_ms (crs_replay_protector ?svc))"
    using replay_check_iff [OF rok, of "ap_device_id p" "ap_nonce p" "ap_timestamp_ms p" now] rc by simp
  note eval = assms(2) [unfolded prove_possession_def c rc Let_def prod.case]
  show "(\<exists>t. r = Inr t) \<longleftrightarrow> possession k verify p now d"
    using eval cr(2) ri
    by (cases cres; cases rres) (auto simp: possession_def require_trusted_def store_trusted_device_def store_mark_seen_def
        split: option.splits if_splits)
  show "r = Inr t \<Longrightarrow> hm_get (da_trusted_store d) (ap_device_id p) = Some t"
    using eval by (auto simp: require_trusted_def store_trusted_device_def store_mark_seen_def split: sum.splits option.splits if_splits)
  show "burned p (da_auth_service d')" "da_server_id d' = da_server_id d" "da_public_key d' = da_public_key d"
    "da_consumed_pair_ticket_ids d' = da_consumed_pair_ticket_ids d"
    using eval cr(3) by (auto simp: burned_def require_trusted_def store_trusted_device_def store_mark_seen_def
        split: sum.splits option.splits if_splits)
  show "hm_get (da_trusted_store d) (ap_device_id p) = Some t' \<Longrightarrow>
       \<exists>t2. hm_get (da_trusted_store d') (ap_device_id p) = Some t2 \<and> td_public_key t2 = td_public_key t'"
    using eval by (auto simp: require_trusted_def store_trusted_device_def store_mark_seen_def device_mark_seen_def
        split: sum.splits option.splits if_splits)
qed

section \<open>Properties\<close>

text \<open>
  C8. Credentials are exactly what the daemon signed. Given the laws of the libraries, every set of claims
  can be signed, and the daemon's own credential verifies, until it expires, to the claims that went
  in. Conversely, whatever text is accepted consists of three segments of which the third is a valid
  signature under the daemon's key over the first two, the second decodes to the accepted claims, and
  these have the expected issuer and kind and have not expired; so a ticket is never taken for a
  certificate or a token.
\<close>

theorem credentials_are_exact:
  assumes "crypto_laws k daemon_key"
  shows "(\<exists>compact. sign_claims k server_id claims = Inr compact \<and>
      (cl_issuer claims = server_id \<and> now \<le> cl_expires_at_ms claims \<longrightarrow>
         verify_credential k compact daemon_key server_id now (cl_kind claims) = Inr claims)) \<and>
    (verify_credential k text daemon_key server_id now kind = Inr got \<longrightarrow>
      (\<exists>h b g key sg. text = h @ 46 # b @ 46 # g \<and> Option.bind (cc_url_decode k b) (cc_claims_of_json k) = Some got \<and>
         Option.bind (strip_prefix ed25519_wire_prefix daemon_key) (cc_std_decode k) = Some key \<and>
         cc_url_decode k g = Some sg \<and> cc_verify k key (h @ 46 # b) sg) \<and>
      cl_issuer got = server_id \<and> cl_kind got = kind \<and> now \<le> cl_expires_at_ms got)"
proof -
  have dot: "ascii ''.'' = [46]" by (simp add: ascii_def)
  have "(\<exists>h b g key sg. text = h @ 46 # b @ 46 # g \<and> Option.bind (cc_url_decode k b) (cc_claims_of_json k) = Some got \<and>
         Option.bind (strip_prefix ed25519_wire_prefix daemon_key) (cc_std_decode k) = Some key \<and>
         cc_url_decode k g = Some sg \<and> cc_verify k key (h @ 46 # b) sg) \<and>
      cl_issuer got = server_id \<and> cl_kind got = kind \<and> now \<le> cl_expires_at_ms got"
    if acc: "verify_credential k text daemon_key server_id now kind = Inr got"
  proof -
    obtain h b g key sg where a: "split_dot text = [h, b, g]" "Option.bind (cc_url_decode k b) (cc_claims_of_json k) = Some got"
      "Option.bind (strip_prefix ed25519_wire_prefix daemon_key) (cc_std_decode k) = Some key" "cc_url_decode k g = Some sg"
      "cc_verify k key (h @ ascii ''.'' @ b) sg" "cl_issuer got = server_id" "cl_kind got = kind" "now \<le> cl_expires_at_ms got"
      using acc unfolding verify_credential_iff by blast
    from split_dot_three [OF a(1)] a(2-8) show ?thesis unfolding dot append_Cons append_Nil by blast
  qed
  with sign_then_verify [OF assms, of server_id claims now] show ?thesis by blast
qed

text \<open>Libraries for the witnesses: a shifted alphabet, records printed with their lengths, one signature.\<close>

fun demo_claims_json :: "credential_claims \<Rightarrow> u8 list" where
  "demo_claims_json c =
     [case cl_kind c of PairTicket \<Rightarrow> 0 | DeviceCertificate \<Rightarrow> 1 | AccessToken \<Rightarrow> 2, cl_issuer c,
      case cl_device_id c of None \<Rightarrow> 0 | Some i \<Rightarrow> i + 1, cl_issued_at_ms c, cl_expires_at_ms c,
      case cl_device_public_key c of None \<Rightarrow> 0 | Some key \<Rightarrow> length key + 1] @
     (case cl_device_public_key c of None \<Rightarrow> [] | Some key \<Rightarrow> key) @ cl_credential_id c"

fun demo_claims_of_json :: "u8 list \<Rightarrow> credential_claims option" where
  "demo_claims_of_json (kd # iss # dev # at # until # n # rest) =
     Some \<lparr>cl_kind = (if kd = 0 then PairTicket else if kd = 1 then DeviceCertificate else AccessToken), cl_issuer = iss,
       cl_device_id = (if dev = 0 then None else Some (dev - 1)),
       cl_device_public_key = (if n = 0 then None else Some (take (n - 1) rest)),
       cl_issued_at_ms = at, cl_expires_at_ms = until, cl_credential_id = drop (n - 1) rest\<rparr>"
| "demo_claims_of_json _ = None"

fun demo_header_of_json :: "u8 list \<Rightarrow> jws_header option" where
  "demo_header_of_json (a # b # rest) = Some \<lparr>jh_alg = take a rest, jh_kid = take b (drop a rest), jh_typ = drop (a + b) rest\<rparr>"
| "demo_header_of_json _ = None"

definition demo_crypto :: credential_crypto where
  "demo_crypto = \<lparr>cc_url_encode = map (\<lambda>b. b + 100), cc_url_decode = (\<lambda>t. Some (map (\<lambda>b. b - 100) t)), cc_std_decode = Some,
     cc_header_json = (\<lambda>h. Some ([length (jh_alg h), length (jh_kid h)] @ jh_alg h @ jh_kid h @ jh_typ h)), cc_header_of_json = demo_header_of_json,
     cc_claims_json = (\<lambda>c. Some (demo_claims_json c)), cc_claims_of_json = demo_claims_of_json,
     cc_sign_to_wire = (\<lambda>m. Some (ed25519_wire_prefix @ replicate 64 7)), cc_verify = (\<lambda>key m sg. sg = replicate 64 7),
     cc_is_key = (\<lambda>_. True), cc_uuid_text = dec\<rparr>"

definition demo_key :: wire_text where
  "demo_key = ed25519_wire_prefix @ replicate 32 1"

lemma demo_claims_roundtrip: "demo_claims_of_json (demo_claims_json c) = Some c"
  by (cases c) (auto split: credential_kind.splits option.splits)

lemma demo_crypto_laws: "crypto_laws demo_crypto demo_key"
proof -
  have "\<forall>m. \<exists>enc sg. cc_sign_to_wire demo_crypto m = Some (ed25519_wire_prefix @ enc) \<and> cc_std_decode demo_crypto enc = Some sg \<and>
             length sg = 64 \<and> cc_verify demo_crypto (replicate 32 1) m sg"
    by (auto simp: demo_crypto_def)
  moreover have "Option.bind (strip_prefix ed25519_wire_prefix demo_key) (cc_std_decode demo_crypto) = Some (replicate 32 1)"
    "cc_is_key demo_crypto (replicate 32 1)"
    by (simp_all add: strip_prefix_def demo_key_def demo_crypto_def)
  moreover have "\<forall>h. \<exists>b. cc_header_json demo_crypto h = Some b \<and> cc_header_of_json demo_crypto b = Some h"
    by (auto simp: demo_crypto_def)
  moreover have "\<forall>c. \<exists>b. cc_claims_json demo_crypto c = Some b \<and> cc_claims_of_json demo_crypto b = Some c"
    using demo_claims_roundtrip by (simp add: demo_crypto_def del: demo_claims_json.simps)
  moreover have "\<forall>x. cc_url_decode demo_crypto (cc_url_encode demo_crypto x) = Some x" "\<forall>x. 46 \<notin> set (cc_url_encode demo_crypto x)"
    "cc_url_encode demo_crypto [] = []"
    by (auto simp: demo_crypto_def comp_def)
  ultimately show ?thesis unfolding crypto_laws_def by (metis length_replicate)
qed

definition demo_ticket :: credential_claims where
  "demo_ticket = \<lparr>cl_kind = PairTicket, cl_issuer = 7, cl_device_id = None, cl_device_public_key = None,
     cl_issued_at_ms = 100, cl_expires_at_ms = 200, cl_credential_id = [5]\<rparr>"

definition demo_auth :: daemon_auth where
  "demo_auth = \<lparr>da_server_id = 7, da_public_key = demo_key, da_pairing_token_ttl_ms = 100, da_auth_service = demo_service,
     da_consumed_pair_ticket_ids = {}, da_trusted_store = demo_store\<rparr>"

theorem credentials_are_exact_witness:
  "\<exists>compact. sign_claims demo_crypto 7 demo_ticket = Inr compact \<and>
     verify_credential demo_crypto compact demo_key 7 150 PairTicket = Inr demo_ticket"
  using credentials_are_exact [OF demo_crypto_laws, of 7 demo_ticket 150] by (auto simp: demo_ticket_def)

lemma certificate_accepted_iff:
  "(\<exists>claims. device_certificate_claims k certificate now d = Inr claims \<and> cl_device_id claims = Some dev) \<longleftrightarrow>
   (\<exists>claims t. verify_credential k certificate (da_public_key d) (da_server_id d) now DeviceCertificate = Inr claims \<and>
      cl_device_id claims = Some dev \<and> hm_get (da_trusted_store d) dev = Some t \<and> cl_device_public_key claims = Some (td_public_key t))"
  by (auto simp: device_certificate_claims_def require_trusted_identity_def require_trusted_def store_trusted_device_def
      split: sum.splits option.splits if_splits)

lemma access_token_verifies:
  assumes "crypto_laws k (da_public_key d)" "issue_access_token k (da_server_id d) fresh dev issued expires = Inr token"
  shows "verify_access_token_credential k token now d =
    (if now \<le> expires \<and> hm_get (da_trusted_store d) dev \<noteq> None then Inr dev else Inl AuthFailed)"
proof -
  let ?cl = "\<lparr>cl_kind = AccessToken, cl_issuer = da_server_id d, cl_device_id = Some dev, cl_device_public_key = None,
       cl_issued_at_ms = issued, cl_expires_at_ms = expires, cl_credential_id = fresh\<rparr>"
  have v: "verify_credential k token (da_public_key d) (da_server_id d) n AccessToken = Inr ?cl" if "n \<le> expires" for n
    using sign_then_verify [OF assms(1), of "da_server_id d" ?cl n] assms(2) that by (auto simp: issue_access_token_def)
  have "got = ?cl" if "verify_credential k token (da_public_key d) (da_server_id d) n AccessToken = Inr got" for n got
    using v [of 0] that by (auto simp: verify_credential_iff)
  then have late: "verify_credential k token (da_public_key d) (da_server_id d) now AccessToken \<noteq> Inr got" if "\<not> now \<le> expires" for got
    using that by (fastforce simp: verify_credential_iff)
  show ?thesis
  proof (cases "now \<le> expires")
    case True
    then show ?thesis using v
      by (auto simp: verify_access_token_credential_def require_trusted_def store_trusted_device_def split: option.splits)
  next
    case False
    then show ?thesis using late by (auto simp: verify_access_token_credential_def split: sum.splits)
  qed
qed

text \<open>
  Access tokens. A token is handed out exactly when the certificate was signed by this daemon for this
  device, the device is trusted now with the key in the certificate, its challenge is active and its own,
  the timestamp is within the skew, the nonce is fresh, and the device signed the proof. The token
  then identifies the device for five minutes and not longer, and no longer than the device is
  trusted; the challenge is used up by every attempt that gets past the certificate.
\<close>

lemma access_token_exchange_is_exact:
  assumes "service_ok (da_auth_service d)" "crypto_laws k (da_public_key d)"
    and "exchange_access_token k verify fresh certificate p now d = (r, d')"
  shows "((\<exists>token x. r = Inr (token, x)) \<longleftrightarrow>
      (\<exists>claims t. verify_credential k certificate (da_public_key d) (da_server_id d) now DeviceCertificate = Inr claims \<and>
         cl_device_id claims = Some (ap_device_id p) \<and> hm_get (da_trusted_store d) (ap_device_id p) = Some t \<and>
         cl_device_public_key claims = Some (td_public_key t)) \<and>
      possession k verify p now d \<and> now + 300000 \<le> u64_max) \<and>
    (\<forall>token x later. r = Inr (token, x) \<longrightarrow> x = now + 300000 \<and> burned p (da_auth_service d') \<and>
      verify_access_token_credential k token later d' = (if later \<le> now + 300000 then Inr (ap_device_id p) else Inl AuthFailed) \<and>
      verify_access_token_credential k token later
        (d'\<lparr>da_trusted_store := snd (store_revoke_device (ap_device_id p) (da_trusted_store d'))\<rparr>) = Inl AuthFailed)"
proof -
  let ?cert = "\<exists>claims. device_certificate_claims k certificate now d = Inr claims \<and> cl_device_id claims = Some (ap_device_id p)"
  obtain q d1 where q: "prove_possession k verify p now d = (q, d1)" by force
  note pp = prove_possession_spec [OF assms(1) q]
  have signed: "\<exists>token. issue_access_token k (da_server_id d) fresh (ap_device_id p) now (now + 300000) = Inr token"
    unfolding issue_access_token_def using sign_then_verify [OF assms(2)] by blast
  have 1: "(\<exists>token x. r = Inr (token, x)) \<longleftrightarrow> ?cert \<and> possession k verify p now d \<and> now + 300000 \<le> u64_max"
    using assms(3) q pp(1) signed
    by (auto simp: exchange_access_token_def split: sum.splits if_splits)
  have 2: "x = now + 300000 \<and> burned p (da_auth_service d') \<and>
      verify_access_token_credential k token later d' = (if later \<le> now + 300000 then Inr (ap_device_id p) else Inl AuthFailed) \<and>
      verify_access_token_credential k token later
        (d'\<lparr>da_trusted_store := snd (store_revoke_device (ap_device_id p) (da_trusted_store d'))\<rparr>) = Inl AuthFailed"
    if r: "r = Inr (token, x)" for token x later
  proof -
    obtain t where ok: "q = Inr t" "d' = d1" "x = now + 300000"
      "issue_access_token k (da_server_id d) fresh (ap_device_id p) now (now + 300000) = Inr token"
      using assms(3) r q by (auto simp: exchange_access_token_def split: sum.splits if_splits)
    obtain t2 where t2: "hm_get (da_trusted_store d1) (ap_device_id p) = Some t2"
      using pp(7) [OF pp(2) [OF ok(1)]] by blast
    let ?rev = "d1\<lparr>da_trusted_store := snd (store_revoke_device (ap_device_id p) (da_trusted_store d1))\<rparr>"
    have laws: "crypto_laws k (da_public_key d1)" "crypto_laws k (da_public_key ?rev)"
      and tok: "issue_access_token k (da_server_id d1) fresh (ap_device_id p) now (now + 300000) = Inr token"
        "issue_access_token k (da_server_id ?rev) fresh (ap_device_id p) now (now + 300000) = Inr token"
      using assms(2) ok(4) pp(4,5) by simp_all
    show ?thesis
      using access_token_verifies [OF laws(1) tok(1), of later] access_token_verifies [OF laws(2) tok(2), of later] pp(3) ok(2,3) t2
      by (auto simp: store_revoke_device_def)
  qed
  show ?thesis using 1 2 certificate_accepted_iff [of k certificate now d "ap_device_id p"] by blast
qed

text \<open>A restart: a new service state and no consumed tickets; the trusted devices come back from disk.\<close>

definition daemon_restart :: "challenge_response_service \<Rightarrow> daemon_auth \<Rightarrow> daemon_auth" where
  "daemon_restart svc d = d\<lparr>da_auth_service := svc, da_consumed_pair_ticket_ids := {}\<rparr>"

lemma pair_with_ticket:
  assumes "crypto_laws k (da_public_key d)" "verify_credential k ticket (da_public_key d) (da_server_id d) now PairTicket = Inr claims"
    "cl_credential_id claims \<notin> da_consumed_pair_ticket_ids d" "validate_device_public_key_wire (cc_std_decode k) on_curve key = Inr ()"
  shows "\<exists>certificate. pair_device_certificate k on_curve True fresh ticket dev key now d = (Inr certificate,
    d\<lparr>da_trusted_store := store_trust_device \<lparr>di_device_id = dev, di_public_key = key\<rparr> now None (da_trusted_store d),
      da_consumed_pair_ticket_ids := insert (cl_credential_id claims) (da_consumed_pair_ticket_ids d)\<rparr>)"
proof -
  obtain certificate where "issue_device_certificate k (da_server_id d) fresh dev key now = Inr certificate"
    unfolding issue_device_certificate_def using sign_then_verify [OF assms(1)] by blast
  with assms(2-4) show ?thesis by (simp add: pair_device_certificate_def Let_def)
qed

lemma trusts_key: "\<exists>t. hm_get (store_trust_device \<lparr>di_device_id = dev, di_public_key = key\<rparr> now l s) dev = Some t \<and> td_public_key t = key"
  by (simp add: store_trust_device_def Let_def refresh_def trusted_device_new_def split: option.splits)

lemma pair_success:
  assumes "pair_device_certificate k on_curve persisted fresh ticket dev key now d = (Inr certificate, d')"
  shows "\<exists>claims. verify_credential k ticket (da_public_key d) (da_server_id d) now PairTicket = Inr claims \<and>
    cl_credential_id claims \<in> da_consumed_pair_ticket_ids d' \<and> da_public_key d' = da_public_key d \<and> da_server_id d' = da_server_id d"
  using assms by (auto simp: pair_device_certificate_def Let_def split: sum.splits if_splits)

lemma same_claims:
  assumes "verify_credential k text key sid now kind = Inr c" "verify_credential k text key sid later kind = Inr c'"
  shows "c' = c"
proof -
  obtain h b g where "split_dot text = [h, b, g]" "Option.bind (cc_url_decode k b) (cc_claims_of_json k) = Some c"
    using assms(1) unfolding verify_credential_iff by blast
  moreover obtain h' b' g' where "split_dot text = [h', b', g']" "Option.bind (cc_url_decode k b') (cc_claims_of_json k) = Some c'"
    using assms(2) unfolding verify_credential_iff by blast
  ultimately show ?thesis by simp
qed

text \<open>
  A pair ticket can be used again after a restart. Within one run of the daemon a ticket pairs one
  device: a second use is refused. The ids of used tickets are kept in memory only, so that after
  a restart the same ticket, if it has not expired, makes any further device trusted.
\<close>

lemma pair_ticket_reusable_after_restart:
  assumes "crypto_laws k (da_public_key d)"
    and "pair_device_certificate k on_curve persisted fresh ticket dev key now d = (Inr certificate, d1)"
    and "verify_credential k ticket (da_public_key d) (da_server_id d) later PairTicket = Inr claims"
    and "validate_device_public_key_wire (cc_std_decode k) on_curve key2 = Inr ()"
  shows "pair_device_certificate k on_curve True fresh2 ticket dev2 key2 later d1 = (Inl PairingFailed, d1) \<and>
    (\<exists>certificate2 d2 t. pair_device_certificate k on_curve True fresh2 ticket dev2 key2 later (daemon_restart svc d1) = (Inr certificate2, d2) \<and>
       hm_get (da_trusted_store d2) dev2 = Some t \<and> td_public_key t = key2)"
proof -
  obtain c where c: "verify_credential k ticket (da_public_key d) (da_server_id d) now PairTicket = Inr c"
    "cl_credential_id c \<in> da_consumed_pair_ticket_ids d1" "da_public_key d1 = da_public_key d" "da_server_id d1 = da_server_id d"
    using pair_success [OF assms(2)] by blast
  have "c = claims" using same_claims [OF assms(3) c(1)] .
  then have first: "pair_device_certificate k on_curve True fresh2 ticket dev2 key2 later d1 = (Inl PairingFailed, d1)"
    using assms(3) c(2-4) by (simp add: pair_device_certificate_def)
  let ?d = "daemon_restart svc d1"
  have "crypto_laws k (da_public_key ?d)" "verify_credential k ticket (da_public_key ?d) (da_server_id ?d) later PairTicket = Inr claims"
    "cl_credential_id claims \<notin> da_consumed_pair_ticket_ids ?d"
    using assms(1,3) c(3,4) by (simp_all add: daemon_restart_def)
  from pair_with_ticket [OF this assms(4), of fresh2 dev2] obtain certificate2 d2 where
    r: "pair_device_certificate k on_curve True fresh2 ticket dev2 key2 later ?d = (Inr certificate2, d2)"
    "da_trusted_store d2 = store_trust_device \<lparr>di_device_id = dev2, di_public_key = key2\<rparr> later None (da_trusted_store ?d)"
    by force
  have "\<exists>t. hm_get (da_trusted_store d2) dev2 = Some t \<and> td_public_key t = key2"
    unfolding r(2) by (rule trusts_key)
  with first r(1) show ?thesis by blast
qed

text \<open>When the state cannot be written the request fails, but the device stays trusted in memory.\<close>

lemma failed_pairing_leaves_trust:
  assumes "verify_credential k ticket (da_public_key d) (da_server_id d) now PairTicket = Inr claims"
    "cl_credential_id claims \<notin> da_consumed_pair_ticket_ids d" "validate_device_public_key_wire (cc_std_decode k) on_curve key = Inr ()"
  shows "\<exists>d' t. pair_device_certificate k on_curve False fresh ticket dev key now d = (Inl StateFailed, d') \<and>
    hm_get (da_trusted_store d') dev = Some t \<and> td_public_key t = key"
  using assms trusts_key [of dev key now None "da_trusted_store d"] by (simp add: pair_device_certificate_def Let_def)

text \<open>The proof of possession is not injective: a line end in the challenge or the nonce moves the border between them.\<close>

lemma access_token_proof_ambiguous:
  "access_token_proof_bytes k sid \<lparr>ap_device_id = dev, ap_challenge = a, ap_nonce = b @ [10] @ ascii ''nonce='' @ c, ap_timestamp_ms = ts, ap_signature = g\<rparr> =
   access_token_proof_bytes k sid \<lparr>ap_device_id = dev, ap_challenge = a @ [10] @ ascii ''nonce='' @ b, ap_nonce = c, ap_timestamp_ms = ts, ap_signature = g\<rparr>"
  by (simp add: access_token_proof_bytes_def)

end
