(* ===== verification/Upload_Ranges.thy ===== *)
theory Upload_Ranges
  imports Termd_Prelude
begin

text \<open>
  The byte ranges of a chunked upload (\<open>termd/src/net/protocol.rs\<close>): two ordered maps from the start of a
  range to its length, one of ranges already written and one of ranges being written. This theory
  models the ordered map (\<open>BTreeMap<u64, u64>\<close>, an association list with ascending keys) and the two
  searches over it, and relates them to the set of bytes a map covers: the loops that look at two or
  three neighbouring entries decide exactly whether a range is covered and whether it overlaps.
\<close>

section \<open>The ordered map\<close>

type_synonym ranges = "(u64 \<times> u64) list"

text \<open>\<open>range(..=k).next_back()\<close> and \<open>range(k..).next()\<close>.\<close>

definition bt_le :: "u64 \<Rightarrow> ranges \<Rightarrow> (u64 \<times> u64) option" where
  "bt_le k r = (case filter (\<lambda>e. fst e \<le> k) r of [] \<Rightarrow> None | es \<Rightarrow> Some (last es))"

definition bt_ge :: "u64 \<Rightarrow> ranges \<Rightarrow> (u64 \<times> u64) option" where
  "bt_ge k r = (case filter (\<lambda>e. k \<le> fst e) r of [] \<Rightarrow> None | e # _ \<Rightarrow> Some e)"

fun bt_insert :: "u64 \<Rightarrow> u64 \<Rightarrow> ranges \<Rightarrow> ranges" where
  "bt_insert k v [] = [(k, v)]"
| "bt_insert k v (e # es) =
     (if k < fst e then (k, v) # e # es
      else if k = fst e then (k, v) # es
      else e # bt_insert k v es)"

definition bt_remove :: "u64 \<Rightarrow> ranges \<Rightarrow> ranges" where
  "bt_remove k r = filter (\<lambda>e. fst e \<noteq> k) r"

definition checked_add64 :: "nat \<Rightarrow> nat \<Rightarrow> nat option" where
  "checked_add64 a b = (if a + b \<le> u64_max then Some (a + b) else None)"

definition checked_sub64 :: "nat \<Rightarrow> nat \<Rightarrow> nat option" where
  "checked_sub64 a b = (if b \<le> a then Some (a - b) else None)"

section \<open>The searches\<close>

function covered_loop :: "ranges \<Rightarrow> u64 \<Rightarrow> u64 \<Rightarrow> bool" where
  "covered_loop r cursor fin =
     (if cursor < fin then
        (case bt_le cursor r of
           None \<Rightarrow> False
         | Some (range_start, len) \<Rightarrow>
             (case checked_add64 range_start len of
                None \<Rightarrow> False
              | Some range_end \<Rightarrow>
                  if range_start > cursor \<or> range_end \<le> cursor then False
                  else covered_loop r range_end fin))
      else True)"
  by pat_completeness auto
termination
  by (relation "measure (\<lambda>(r, cursor, fin). fin - cursor)") auto

declare covered_loop.simps [simp del]

definition range_is_fully_covered :: "ranges \<Rightarrow> u64 \<Rightarrow> u64 \<Rightarrow> bool" where
  "range_is_fully_covered r start fin \<longleftrightarrow> start = fin \<or> covered_loop r start fin"

definition range_overlaps :: "ranges \<Rightarrow> u64 \<Rightarrow> u64 \<Rightarrow> bool" where
  "range_overlaps r start fin \<longleftrightarrow>
     (if start = fin then False
      else if (case bt_le start r of
                 None \<Rightarrow> False
               | Some (range_start, len) \<Rightarrow>
                   (case checked_add64 range_start len of None \<Rightarrow> False | Some range_end \<Rightarrow> range_end > start))
      then True
      else (case bt_ge start r of None \<Rightarrow> False | Some (next_start, _) \<Rightarrow> next_start < fin))"

section \<open>The bytes a map covers\<close>

definition coverage :: "ranges \<Rightarrow> nat set" where
  "coverage r = {x. \<exists>(s, l) \<in> set r. s \<le> x \<and> x < s + l}"

text \<open>The ranges are in order, not empty, do not overlap and end within the file.\<close>

definition ranges_ok :: "u64 \<Rightarrow> ranges \<Rightarrow> bool" where
  "ranges_ok n r \<longleftrightarrow> n \<le> u64_max \<and> sorted_wrt (\<lambda>a b. fst a + snd a \<le> fst b) r \<and> (\<forall>(s, l) \<in> set r. 0 < l \<and> s + l \<le> n)"

lemma ranges_ok_Nil [simp]: "ranges_ok n [] \<longleftrightarrow> n \<le> u64_max"
  by (simp add: ranges_ok_def)

lemma coverage_Nil [simp]: "coverage [] = {}"
  by (simp add: coverage_def)

lemma coverage_Cons: "coverage ((s, l) # r) = {s..<s + l} \<union> coverage r"
  by (auto simp: coverage_def)

lemma ranges_ok_Cons:
  "ranges_ok n ((s, l) # r) \<longleftrightarrow> ranges_ok n r \<and> 0 < l \<and> s + l \<le> n \<and> (\<forall>e \<in> set r. s + l \<le> fst e)"
  by (auto simp: ranges_ok_def)

lemma ranges_ok_entry:
  assumes "ranges_ok n r" "(s, l) \<in> set r"
  shows "0 < l" "s + l \<le> n" "checked_add64 s l = Some (s + l)"
  using assms by (auto simp: ranges_ok_def checked_add64_def)

lemma ranges_ok_apart:
  "ranges_ok n r \<Longrightarrow> (s, l) \<in> set r \<Longrightarrow> (s', l') \<in> set r \<Longrightarrow> s < s' \<Longrightarrow> s + l \<le> s'"
proof (induction r)
  case (Cons e r)
  obtain a b where "e = (a, b)" by force
  with Cons show ?case by (fastforce simp: ranges_ok_Cons)
qed simp

lemma ranges_ok_unique: "ranges_ok n r \<Longrightarrow> (s, l) \<in> set r \<Longrightarrow> (s, l') \<in> set r \<Longrightarrow> l = l'"
proof (induction r)
  case (Cons e r)
  obtain a b where "e = (a, b)" by force
  with Cons show ?case by (fastforce simp: ranges_ok_Cons)
qed simp

text \<open>The neighbours the searches look at.\<close>

lemma bt_le_None: "bt_le k r = None \<longleftrightarrow> (\<forall>e \<in> set r. \<not> fst e \<le> k)"
proof -
  have "bt_le k r = None \<longleftrightarrow> filter (\<lambda>e. fst e \<le> k) r = []" by (simp add: bt_le_def split: list.split)
  then show ?thesis by (simp add: filter_empty_conv)
qed

lemma bt_le_Some:
  assumes "ranges_ok n r" "bt_le k r = Some (s, l)"
  shows "(s, l) \<in> set r" "s \<le> k" "\<And>s' l'. (s', l') \<in> set r \<Longrightarrow> s' \<le> k \<Longrightarrow> s' \<le> s"
proof -
  let ?f = "filter (\<lambda>e. fst e \<le> k) r"
  have ne: "?f \<noteq> []" and la: "last ?f = (s, l)" using assms(2) by (auto simp: bt_le_def split: list.splits)
  then have "(s, l) \<in> set ?f" by (metis last_in_set)
  then show mem: "(s, l) \<in> set r" and "s \<le> k" by auto
  have sorted: "sorted_wrt (\<lambda>a b. fst a + snd a \<le> fst b) ?f"
    using assms(1) by (simp add: ranges_ok_def sorted_wrt_filter)
  fix s' l' assume e: "(s', l') \<in> set r" "s' \<le> k"
  then have "(s', l') \<in> set ?f" by simp
  then obtain i where i: "i < length ?f" "?f ! i = (s', l')" by (auto simp only: in_set_conv_nth)
  show "s' \<le> s"
  proof (cases "i = length ?f - 1")
    case True
    with i la ne show ?thesis by (simp add: last_conv_nth)
  next
    case False
    with i have "i < length ?f - 1" by linarith
    moreover have "length ?f - 1 < length ?f" using ne by simp
    ultimately have "fst (?f ! i) + snd (?f ! i) \<le> fst (?f ! (length ?f - 1))"
      using sorted unfolding sorted_wrt_iff_nth_less by blast
    with i la ne show ?thesis by (simp add: last_conv_nth)
  qed
qed

lemma bt_ge_None: "bt_ge k r = None \<longleftrightarrow> (\<forall>e \<in> set r. \<not> k \<le> fst e)"
proof -
  have "bt_ge k r = None \<longleftrightarrow> filter (\<lambda>e. k \<le> fst e) r = []" by (simp add: bt_ge_def split: list.split)
  then show ?thesis by (simp add: filter_empty_conv)
qed

lemma bt_ge_Some:
  assumes "ranges_ok n r" "bt_ge k r = Some (s, l)"
  shows "(s, l) \<in> set r" "k \<le> s" "\<And>s' l'. (s', l') \<in> set r \<Longrightarrow> k \<le> s' \<Longrightarrow> s \<le> s'"
proof -
  from assms(2) obtain es where f: "filter (\<lambda>e. k \<le> fst e) r = (s, l) # es" by (auto simp: bt_ge_def split: list.splits)
  then have "(s, l) \<in> set (filter (\<lambda>e. k \<le> fst e) r)" by simp
  then show "(s, l) \<in> set r" "k \<le> s" by auto
  have "sorted_wrt (\<lambda>a b. fst a + snd a \<le> fst b) (filter (\<lambda>e. k \<le> fst e) r)"
    using assms(1) by (simp add: ranges_ok_def sorted_wrt_filter)
  then have rest: "\<And>e. e \<in> set es \<Longrightarrow> s + l \<le> fst e" unfolding f by simp
  fix s' l' assume "(s', l') \<in> set r" "k \<le> s'"
  then have "(s', l') \<in> set (filter (\<lambda>e. k \<le> fst e) r)" by simp
  then have "(s', l') \<in> set ((s, l) # es)" unfolding f .
  with rest show "s \<le> s'" by force
qed

lemma covered_lookup:
  assumes "ranges_ok n r"
  shows "x \<in> coverage r \<longleftrightarrow> (\<exists>s l. bt_le x r = Some (s, l) \<and> x < s + l)"
proof
  assume "x \<in> coverage r"
  then obtain s l where e: "(s, l) \<in> set r" "s \<le> x" "x < s + l" by (auto simp: coverage_def)
  then obtain s' l' where le: "bt_le x r = Some (s', l')" by (cases "bt_le x r") (auto simp: bt_le_None)
  note b = bt_le_Some [OF assms le]
  have "s \<le> s'" using b(3) e by blast
  moreover have "\<not> s < s'" using ranges_ok_apart [OF assms e(1) b(1)] e(3) b(2) by linarith
  ultimately have "s = s'" by simp
  with ranges_ok_unique [OF assms e(1)] b(1) have "l = l'" by simp
  with le e \<open>s = s'\<close> show "\<exists>s l. bt_le x r = Some (s, l) \<and> x < s + l" by auto
next
  assume "\<exists>s l. bt_le x r = Some (s, l) \<and> x < s + l"
  then show "x \<in> coverage r" using bt_le_Some [OF assms] by (fastforce simp: coverage_def)
qed

lemma range_overlaps_iff:
  assumes "ranges_ok n r" "start \<le> fin"
  shows "range_overlaps r start fin \<longleftrightarrow> coverage r \<inter> {start..<fin} \<noteq> {}"
proof (cases "start \<in> coverage r \<and> start < fin")
  case True
  then obtain s l where "bt_le start r = Some (s, l)" "start < s + l" using covered_lookup [OF assms(1)] by blast
  moreover have "checked_add64 s l = Some (s + l)"
    using ranges_ok_entry(3) [OF assms(1)] bt_le_Some(1) [OF assms(1)] calculation(1) by blast
  ultimately have "range_overlaps r start fin" using True by (simp add: range_overlaps_def)
  with True show ?thesis by auto
next
  case False
  show ?thesis
  proof (cases "start = fin")
    case True
    then show ?thesis by (simp add: range_overlaps_def)
  next
    case lt: False
    with assms(2) False have nc: "start \<notin> coverage r" by simp
    have first: "\<not> (case bt_le start r of None \<Rightarrow> False | Some (range_start, len) \<Rightarrow>
        (case checked_add64 range_start len of None \<Rightarrow> False | Some range_end \<Rightarrow> range_end > start))"
    proof (cases "bt_le start r")
      case (Some e)
      obtain s l where e: "e = (s, l)" by force
      with nc Some have "\<not> start < s + l" using covered_lookup [OF assms(1)] by blast
      moreover have "checked_add64 s l = Some (s + l)"
        using ranges_ok_entry(3) [OF assms(1)] bt_le_Some(1) [OF assms(1)] Some e by blast
      ultimately show ?thesis by (simp add: Some e)
    qed simp
    have "range_overlaps r start fin \<longleftrightarrow> (\<exists>s l. (s, l) \<in> set r \<and> start \<le> s \<and> s < fin)"
    proof (cases "bt_ge start r")
      case None
      then have "\<forall>e \<in> set r. \<not> start \<le> fst e" by (simp add: bt_ge_None)
      with None lt first show ?thesis by (force simp: range_overlaps_def)
    next
      case (Some e)
      obtain s l where "e = (s, l)" by force
      with Some bt_ge_Some [OF assms(1), of start s l] lt first show ?thesis
        by (fastforce simp: range_overlaps_def dest: le_less_trans)
    qed
    also have "\<dots> \<longleftrightarrow> coverage r \<inter> {start..<fin} \<noteq> {}"
    proof
      assume "\<exists>s l. (s, l) \<in> set r \<and> start \<le> s \<and> s < fin"
      then obtain s l where "(s, l) \<in> set r" "start \<le> s" "s < fin" by blast
      moreover from ranges_ok_entry(1) [OF assms(1) this(1)] have "s < s + l" by simp
      ultimately have "s \<in> coverage r \<inter> {start..<fin}" by (auto simp: coverage_def)
      then show "coverage r \<inter> {start..<fin} \<noteq> {}" by blast
    next
      assume "coverage r \<inter> {start..<fin} \<noteq> {}"
      then obtain x s l where x: "(s, l) \<in> set r" "s \<le> x" "x < s + l" "start \<le> x" "x < fin" by (auto simp: coverage_def)
      with nc have "start \<le> s" by (force simp: coverage_def)
      with x show "\<exists>s l. (s, l) \<in> set r \<and> start \<le> s \<and> s < fin" by (meson le_less_trans)
    qed
    finally show ?thesis .
  qed
qed

lemma covered_loop_iff:
  assumes "ranges_ok n r"
  shows "covered_loop r start fin \<longleftrightarrow> {start..<fin} \<subseteq> coverage r"
  using assms
proof (induction r start fin rule: covered_loop.induct)
  case (1 r cursor fin)
  show ?case
  proof (cases "cursor < fin")
    case False
    then show ?thesis by (simp add: covered_loop.simps [of r cursor fin])
  next
    case lt: True
    show ?thesis
    proof (cases "cursor \<in> coverage r")
      case False
      then have "\<not> covered_loop r cursor fin"
        using lt covered_lookup [OF "1.prems", of cursor]
        by (auto simp: covered_loop.simps [of r cursor fin] checked_add64_def split: option.splits if_splits)
      with False lt show ?thesis by auto
    next
      case True
      then obtain s l where e: "bt_le cursor r = Some (s, l)" "cursor < s + l" using covered_lookup [OF "1.prems"] by blast
      note b = bt_le_Some [OF "1.prems" e(1)]
      have add: "checked_add64 s l = Some (s + l)" using ranges_ok_entry(3) [OF "1.prems" b(1)] .
      have "covered_loop r cursor fin \<longleftrightarrow> covered_loop r (s + l) fin"
        using lt e b(2) add by (simp add: covered_loop.simps [of r cursor fin])
      also have "\<dots> \<longleftrightarrow> {s + l..<fin} \<subseteq> coverage r"
        using "1.IH" [OF lt e(1) refl add] "1.prems" b(2) e(2) by simp
      also have "\<dots> \<longleftrightarrow> {cursor..<fin} \<subseteq> coverage r"
      proof -
        have "{cursor..<s + l} \<subseteq> coverage r" using b(1,2) by (auto simp: coverage_def intro!: bexI [of _ "(s, l)"])
        moreover have "{cursor..<fin} \<subseteq> {cursor..<s + l} \<union> {s + l..<fin}" "{s + l..<fin} \<subseteq> {cursor..<fin}"
          using e(2) by auto
        ultimately show ?thesis by blast
      qed
      finally show ?thesis .
    qed
  qed
qed

lemma range_is_fully_covered_iff:
  "ranges_ok n r \<Longrightarrow> range_is_fully_covered r start fin \<longleftrightarrow> {start..<fin} \<subseteq> coverage r"
  by (auto simp: range_is_fully_covered_def covered_loop_iff)

section \<open>Inserting and removing\<close>

lemma set_bt_insert: "k \<notin> fst ` set r \<Longrightarrow> set (bt_insert k v r) = insert (k, v) (set r)"
  by (induction r) auto

lemma coverage_insert: "k \<notin> fst ` set r \<Longrightarrow> coverage (bt_insert k v r) = {k..<k + v} \<union> coverage r"
  by (auto simp: coverage_def set_bt_insert)

lemma start_covered: "ranges_ok n r \<Longrightarrow> (s, l) \<in> set r \<Longrightarrow> s \<in> coverage r"
  using ranges_ok_entry(1) by (fastforce simp: coverage_def)

lemma fresh_key: "ranges_ok n r \<Longrightarrow> 0 < l \<Longrightarrow> coverage r \<inter> {s..<s + l} = {} \<Longrightarrow> s \<notin> fst ` set r"
  using start_covered by fastforce

lemma disjoint_ranges:
  fixes a b s l :: nat
  assumes "0 < b" "0 < l"
  shows "{a..<a + b} \<inter> {s..<s + l} = {} \<longleftrightarrow> a + b \<le> s \<or> s + l \<le> a"
proof
  assume dis: "{a..<a + b} \<inter> {s..<s + l} = {}"
  show "a + b \<le> s \<or> s + l \<le> a"
  proof (rule ccontr)
    assume "\<not> (a + b \<le> s \<or> s + l \<le> a)"
    with assms have "max a s \<in> {a..<a + b} \<inter> {s..<s + l}" by auto
    with dis show False by simp
  qed
qed auto

lemma ranges_ok_insert:
  assumes "ranges_ok n r" "0 < l" "s + l \<le> n" "coverage r \<inter> {s..<s + l} = {}"
  shows "ranges_ok n (bt_insert s l r)"
  using assms
proof (induction r)
  case Nil
  then show ?case by (simp add: ranges_ok_def)
next
  case (Cons e r)
  obtain a b where e: "e = (a, b)" by force
  from Cons.prems(1) have ok: "ranges_ok n r" "0 < b" "a + b \<le> n" "\<forall>e \<in> set r. a + b \<le> fst e"
    by (auto simp: e ranges_ok_Cons)
  from Cons.prems(4) have dis: "coverage r \<inter> {s..<s + l} = {}" "{a..<a + b} \<inter> {s..<s + l} = {}"
    unfolding e coverage_Cons by blast+
  consider "s + l \<le> a" | "a + b \<le> s" using disjoint_ranges [OF ok(2) Cons.prems(2), of a s] dis(2) by blast
  then show ?case
  proof cases
    case 1
    with Cons.prems e ok show ?thesis by (force simp: ranges_ok_Cons)
  next
    case 2
    have "ranges_ok n (bt_insert s l r)" using Cons.IH ok(1) Cons.prems dis(1) by blast
    moreover have "set (bt_insert s l r) = insert (s, l) (set r)"
      using fresh_key [OF ok(1) Cons.prems(2) dis(1)] by (rule set_bt_insert)
    ultimately show ?thesis using 2 e ok by (auto simp: ranges_ok_Cons)
  qed
qed

lemma ranges_ok_remove: "ranges_ok n r \<Longrightarrow> ranges_ok n (bt_remove k r)"
  by (auto simp: ranges_ok_def bt_remove_def sorted_wrt_filter)

lemma coverage_remove:
  assumes "ranges_ok n r" "(s, l) \<in> set r"
  shows "coverage (bt_remove s r) = coverage r - {s..<s + l}"
proof -
  have apart: "{s..<s + l} \<inter> {a..<a + b} = {}" if "(a, b) \<in> set r" "a \<noteq> s" for a b
    using ranges_ok_apart [OF assms(1)] ranges_ok_entry(1) [OF assms(1)] assms(2) that
    by (subst disjoint_ranges) (auto simp: nat_neq_iff)
  have same: "b = l" if "(s, b) \<in> set r" for b using ranges_ok_unique [OF assms(1) assms(2) that] by simp
  show ?thesis
  proof (intro set_eqI iffI)
    fix x
    assume "x \<in> coverage (bt_remove s r)"
    then obtain a b where ab: "(a, b) \<in> set r" "a \<noteq> s" "x \<in> {a..<a + b}" by (auto simp: coverage_def bt_remove_def)
    with apart [OF ab(1,2)] show "x \<in> coverage r - {s..<s + l}" by (auto simp: coverage_def)
  next
    fix x
    assume "x \<in> coverage r - {s..<s + l}"
    then obtain a b where "(a, b) \<in> set r" "a \<le> x" "x < a + b" "x \<notin> {s..<s + l}" by (auto simp: coverage_def)
    moreover from this same have "a \<noteq> s" by auto
    ultimately show "x \<in> coverage (bt_remove s r)" by (auto simp: coverage_def bt_remove_def)
  qed
qed

lemma bt_get_iff: "ranges_ok n r \<Longrightarrow> map_of r s = Some l \<longleftrightarrow> (s, l) \<in> set r"
proof -
  assume r: "ranges_ok n r"
  show "map_of r s = Some l \<longleftrightarrow> (s, l) \<in> set r"
  proof
    assume "(s, l) \<in> set r"
    then obtain l' where "map_of r s = Some l'" by (metis domI domIff option.exhaust weak_map_of_SomeI)
    with ranges_ok_unique [OF r \<open>(s, l) \<in> set r\<close>] show "map_of r s = Some l" by (auto dest: map_of_SomeD)
  qed (rule map_of_SomeD)
qed

lemma coverage_bound: "ranges_ok n r \<Longrightarrow> coverage r \<subseteq> {0..<n}"
  using ranges_ok_entry(2) by (fastforce simp: coverage_def)

end
