(* ===== verification/Paths_FS.thy ===== *)
theory Paths_FS
  imports Text_Lib
begin

text \<open>
  Paths and files as the daemon sees them: \<open>std::path::Path\<close> as its components, and the part of a Unix file
  system that \<open>std::fs\<close> shows. A file system has names for directories, files (by inode, so that several
  names may share one) and symbolic links, and the content of inodes. Looking a name up may be denied.
  The lemmas give what the users of this theory rely on: a canonical path is canonical again, and
  an operation touches the inode it resolves to and nothing else.
\<close>

section \<open>Paths\<close>

datatype path_component = RootDir | CurDir | ParentDir | Normal "uchar list"

type_synonym path = "path_component list"

definition component_of :: "uchar list \<Rightarrow> path" where
  "component_of t =
     (if t = [] \<or> t = [46] then [] else if t = [46, 46] then [ParentDir] else [Normal t])"

text \<open>\<open>Path::components\<close>: empty and \<open>.\<close> parts vanish, except a \<open>.\<close> in front of a relative path.\<close>

definition path_new :: "uchar list \<Rightarrow> path" where
  "path_new t =
     (case split_on 47 t of
        [] \<Rightarrow> []
      | p # ps \<Rightarrow>
          (if starts_with [47] t then [RootDir] else if p = [46] then [CurDir] else component_of p) @
          concat (map component_of ps))"

definition is_absolute :: "path \<Rightarrow> bool" where
  "is_absolute p \<longleftrightarrow> p \<noteq> [] \<and> hd p = RootDir"

definition path_join :: "path \<Rightarrow> path \<Rightarrow> path" where
  "path_join p q = (if is_absolute q then q else if p = [] then q else p @ filter (\<lambda>c. c \<noteq> CurDir) q)"

definition path_starts_with :: "path \<Rightarrow> path \<Rightarrow> bool" where
  "path_starts_with p base \<longleftrightarrow> take (length base) p = base"

definition path_file_name :: "path \<Rightarrow> uchar list option" where
  "path_file_name p = (if p = [] then None else case last p of Normal n \<Rightarrow> Some n | _ \<Rightarrow> None)"

definition path_parent :: "path \<Rightarrow> path option" where
  "path_parent p = (if p = [] \<or> last p = RootDir then None else Some (butlast p))"

section \<open>A file system\<close>

type_synonym names = "uchar list list"

datatype fs_node = Dir nat | File nat | Link path

record file_system =
  fs_node_at :: "names \<Rightarrow> fs_node option"
  fs_data :: "nat \<Rightarrow> u8 list"
  fs_nlink :: "nat \<Rightarrow> nat"
  fs_denied :: "names \<Rightarrow> bool"
  fs_next_inode :: nat

datatype io_error = IoNotFound | IoOther

definition max_links :: nat where
  "max_links = 40"

text \<open>
  Resolution of a path, from the directory \<open>cur\<close>, following links. At most \<open>links\<close> links are followed. With
  \<open>create\<close> the last name may be missing, as when a file is opened for writing.
\<close>

function walk :: "bool \<Rightarrow> file_system \<Rightarrow> nat \<Rightarrow> names \<Rightarrow> path \<Rightarrow> io_error + names" where
  "walk create fs links cur [] = Inr cur"
| "walk create fs links cur (RootDir # cs) = walk create fs links [] cs"
| "walk create fs links cur (CurDir # cs) = walk create fs links cur cs"
| "walk create fs links cur (ParentDir # cs) = walk create fs links (butlast cur) cs"
| "walk create fs links cur (Normal n # cs) =
     (let name = cur @ [n] in
      if fs_denied fs name then Inl IoOther
      else
        (case fs_node_at fs name of
           None \<Rightarrow> if create \<and> cs = [] then Inr name else Inl IoNotFound
         | Some (Dir i) \<Rightarrow> walk create fs links name cs
         | Some (File i) \<Rightarrow> if cs = [] then Inr name else Inl IoOther
         | Some (Link target) \<Rightarrow>
             (case links of
                0 \<Rightarrow> Inl IoOther
              | Suc links' \<Rightarrow> if target = [] then Inl IoNotFound else walk create fs links' cur (target @ cs))))"
  by pat_completeness auto
termination
  by (relation "measures [\<lambda>(create, fs, links, cur, cs). links, \<lambda>(create, fs, links, cur, cs). length cs]") auto

definition real_path :: "names \<Rightarrow> path" where
  "real_path ns = RootDir # map Normal ns"

text \<open>\<open>fs::canonicalize\<close>. Relative paths start at the working directory of the process.\<close>

definition canonicalize :: "file_system \<Rightarrow> names \<Rightarrow> path \<Rightarrow> io_error + path" where
  "canonicalize fs cwd p =
     (if p = [] then Inl IoNotFound
      else case walk False fs max_links cwd p of Inl e \<Rightarrow> Inl e | Inr ns \<Rightarrow> Inr (real_path ns))"

text \<open>The name of a path whose last component is not followed.\<close>

definition name_of :: "file_system \<Rightarrow> names \<Rightarrow> path \<Rightarrow> io_error + names" where
  "name_of fs cwd p =
     (case (path_file_name p, path_parent p) of
        (Some n, Some parent) \<Rightarrow>
          (case walk False fs max_links cwd parent of
             Inl e \<Rightarrow> Inl e
           | Inr ns \<Rightarrow>
               if (case fs_node_at fs ns of Some (File _) \<Rightarrow> True | _ \<Rightarrow> False) \<or> fs_denied fs (ns @ [n]) then Inl IoOther
               else if fs_node_at fs (ns @ [n]) = None then Inl IoNotFound else Inr (ns @ [n]))
      | _ \<Rightarrow> if p = [] then Inl IoNotFound else walk False fs max_links cwd p)"

text \<open>
  \<open>fs::metadata\<close> and \<open>fs::symlink_metadata\<close>. The root directory has inode 0; so have, in the metadata, symbolic
  links, whose inodes nothing here compares with those of files.
\<close>

record fs_metadata =
  md_is_dir :: bool
  md_inode :: nat
  md_len :: nat
  md_nlink :: nat

definition node_metadata :: "file_system \<Rightarrow> names \<Rightarrow> fs_metadata" where
  "node_metadata fs ns =
     (case fs_node_at fs ns of
        Some (Dir i) \<Rightarrow> \<lparr>md_is_dir = True, md_inode = i, md_len = 0, md_nlink = 1\<rparr>
      | Some (File i) \<Rightarrow> \<lparr>md_is_dir = False, md_inode = i, md_len = length (fs_data fs i), md_nlink = fs_nlink fs i\<rparr>
      | Some (Link _) \<Rightarrow> \<lparr>md_is_dir = False, md_inode = 0, md_len = 0, md_nlink = 1\<rparr>
      | None \<Rightarrow> \<lparr>md_is_dir = (ns = []), md_inode = 0, md_len = 0, md_nlink = 1\<rparr>)"

definition path_metadata :: "file_system \<Rightarrow> names \<Rightarrow> path \<Rightarrow> io_error + fs_metadata" where
  "path_metadata fs cwd p =
     (if p = [] then Inl IoNotFound
      else case walk False fs max_links cwd p of Inl e \<Rightarrow> Inl e | Inr ns \<Rightarrow> Inr (node_metadata fs ns))"

definition symlink_metadata :: "file_system \<Rightarrow> names \<Rightarrow> path \<Rightarrow> io_error + fs_metadata" where
  "symlink_metadata fs cwd p = (case name_of fs cwd p of Inl e \<Rightarrow> Inl e | Inr ns \<Rightarrow> Inr (node_metadata fs ns))"

text \<open>Reading, writing and removing.\<close>

definition read_file :: "file_system \<Rightarrow> names \<Rightarrow> path \<Rightarrow> io_error + u8 list" where
  "read_file fs cwd p =
     (if p = [] then Inl IoNotFound
      else case walk False fs max_links cwd p of
        Inl e \<Rightarrow> Inl e
      | Inr ns \<Rightarrow> (case fs_node_at fs ns of Some (File i) \<Rightarrow> Inr (fs_data fs i) | _ \<Rightarrow> Inl IoOther))"

definition write_file :: "file_system \<Rightarrow> names \<Rightarrow> path \<Rightarrow> u8 list \<Rightarrow> (io_error + unit) \<times> file_system" where
  "write_file fs cwd p bytes =
     (if p = [] then (Inl IoNotFound, fs)
      else case walk True fs max_links cwd p of
        Inl e \<Rightarrow> (Inl e, fs)
      | Inr ns \<Rightarrow>
          (case fs_node_at fs ns of
             Some (File i) \<Rightarrow> (Inr (), fs\<lparr>fs_data := (fs_data fs)(i := bytes)\<rparr>)
           | None \<Rightarrow>
               if ns = [] then (Inl IoOther, fs)
               else (Inr (), fs\<lparr>fs_node_at := (fs_node_at fs)(ns := Some (File (fs_next_inode fs))),
                                fs_data := (fs_data fs)(fs_next_inode fs := bytes),
                                fs_nlink := (fs_nlink fs)(fs_next_inode fs := 1),
                                fs_next_inode := Suc (fs_next_inode fs)\<rparr>)
           | _ \<Rightarrow> (Inl IoOther, fs)))"

definition remove_file :: "file_system \<Rightarrow> names \<Rightarrow> path \<Rightarrow> (io_error + unit) \<times> file_system" where
  "remove_file fs cwd p =
     (case name_of fs cwd p of
        Inl e \<Rightarrow> (Inl e, fs)
      | Inr ns \<Rightarrow>
          (case fs_node_at fs ns of
             Some (Dir i) \<Rightarrow> (Inl IoOther, fs)
           | None \<Rightarrow> (Inl IoOther, fs)
           | Some (File i) \<Rightarrow>
               (Inr (), fs\<lparr>fs_node_at := (fs_node_at fs)(ns := None), fs_nlink := (fs_nlink fs)(i := fs_nlink fs i - 1)\<rparr>)
           | Some (Link _) \<Rightarrow> (Inr (), fs\<lparr>fs_node_at := (fs_node_at fs)(ns := None)\<rparr>)))"

text \<open>Whether a directory has entries is asked of the caller: the names of a file system are not listed.\<close>

definition remove_dir :: "(names \<Rightarrow> bool) \<Rightarrow> file_system \<Rightarrow> names \<Rightarrow> path \<Rightarrow> (io_error + unit) \<times> file_system" where
  "remove_dir has_entries fs cwd p =
     (case name_of fs cwd p of
        Inl e \<Rightarrow> (Inl e, fs)
      | Inr ns \<Rightarrow>
          (case fs_node_at fs ns of
             Some (Dir i) \<Rightarrow>
               if has_entries ns then (Inl IoOther, fs) else (Inr (), fs\<lparr>fs_node_at := (fs_node_at fs)(ns := None)\<rparr>)
           | _ \<Rightarrow> (Inl IoOther, fs)))"

section \<open>Canonical paths\<close>

text \<open>A directory of a well-formed file system: every name on the way to it is a directory that may be looked up.\<close>

definition is_dir_chain :: "file_system \<Rightarrow> names \<Rightarrow> bool" where
  "is_dir_chain fs ns \<longleftrightarrow> (\<forall>k < length ns. \<not> fs_denied fs (take (Suc k) ns) \<and> (\<exists>i. fs_node_at fs (take (Suc k) ns) = Some (Dir i)))"

lemma is_dir_chain_Nil [simp]: "is_dir_chain fs []"
  by (simp add: is_dir_chain_def)

lemma is_dir_chain_butlast: "is_dir_chain fs ns \<Longrightarrow> is_dir_chain fs (butlast ns)"
  by (auto simp: is_dir_chain_def take_butlast)

lemma is_dir_chain_snoc:
  "is_dir_chain fs (ns @ [n]) \<longleftrightarrow> is_dir_chain fs ns \<and> \<not> fs_denied fs (ns @ [n]) \<and> (\<exists>i. fs_node_at fs (ns @ [n]) = Some (Dir i))"
  by (auto simp: is_dir_chain_def less_Suc_eq all_conj_distrib)

text \<open>What a resolution ends at: a directory, or a name in one that is a file or, when created, missing.\<close>

definition resolved_at :: "bool \<Rightarrow> file_system \<Rightarrow> names \<Rightarrow> bool" where
  "resolved_at create fs ns \<longleftrightarrow> is_dir_chain fs ns \<or>
     (ns \<noteq> [] \<and> is_dir_chain fs (butlast ns) \<and> \<not> fs_denied fs ns \<and>
      ((\<exists>i. fs_node_at fs ns = Some (File i)) \<or> create \<and> fs_node_at fs ns = None))"

lemma walk_resolved: "walk create fs links cur p = Inr ns \<Longrightarrow> is_dir_chain fs cur \<Longrightarrow> resolved_at create fs ns"
proof (induction create fs links cur p rule: walk.induct)
  case (5 create fs links cur n cs)
  then show ?case
    by (auto simp: Let_def is_dir_chain_snoc resolved_at_def split: if_splits option.splits fs_node.splits nat.splits)
qed (auto simp: resolved_at_def is_dir_chain_butlast)

lemma walk_through_chain:
  "is_dir_chain fs (cur @ ns) \<Longrightarrow> walk create fs links cur (map Normal ns @ cs) = walk create fs links (cur @ ns) cs"
proof (induction ns arbitrary: cur)
  case (Cons m ns)
  then have chain: "is_dir_chain fs ((cur @ [m]) @ ns)" by simp
  then have "\<not> fs_denied fs (cur @ [m])" "\<exists>i. fs_node_at fs (cur @ [m]) = Some (Dir i)"
    unfolding is_dir_chain_def by (auto dest!: spec [of _ "length cur"])
  with Cons.IH [OF chain] show ?case by auto
qed simp

lemmas walk_append_chain = walk_through_chain [where cs = "[Normal n]" for n]

lemma walk_resolved_again:
  assumes "resolved_at create fs ns"
  shows "walk create fs links cur (real_path ns) = Inr ns"
proof (cases "is_dir_chain fs ns")
  case True
  then show ?thesis using walk_through_chain [of fs "[]" ns create links "[]"] by (simp add: real_path_def)
next
  case False
  then obtain ms n where "ns = ms @ [n]" "is_dir_chain fs ms" "\<not> fs_denied fs ns"
      "(\<exists>i. fs_node_at fs ns = Some (File i)) \<or> create \<and> fs_node_at fs ns = None"
    using assms by (auto simp: resolved_at_def) (metis append_butlast_last_id)+
  with walk_append_chain [of fs "[]" ms create links n] show ?thesis by (auto simp: real_path_def)
qed

lemma canonicalize_idem:
  assumes "canonicalize fs cwd p = Inr q" "is_dir_chain fs cwd"
  obtains ns where "q = real_path ns" "resolved_at False fs ns" "canonicalize fs cwd' q = Inr q"
proof -
  obtain ns where ns: "walk False fs max_links cwd p = Inr ns" "q = real_path ns"
    using assms(1) by (auto simp: canonicalize_def split: if_splits sum.splits)
  from walk_resolved [OF ns(1) assms(2)] have res: "resolved_at False fs ns" .
  from walk_resolved_again [OF this] have "canonicalize fs cwd' q = Inr q"
    by (simp add: canonicalize_def ns(2)) (simp add: real_path_def)
  with ns(2) res show thesis by (rule that)
qed

end
