(* ===== verification/Upload.thy ===== *)
theory Upload
  imports Upload_Ranges Protocol_Base Paths_FS
begin

text \<open>
  Chunked uploads of files over HTTP (\<open>termd/src/net/protocol.rs\<close>): \<open>SessionFileHttpUploadState\<close> and the
  methods of \<open>DaemonProtocol\<close> that begin, commit, cancel and abort a write of an upload, prune stale uploads
  and write the chunks to the file.

  A request begins by reserving its range, writes its chunks to the file and commits the ranges it wrote,
  all under the lock of the protocol (\<open>write_session_file_http_upload\<close>). The open file of an upload is a
  function from positions to bytes. The operating system is an argument: whether opening, reading, writing,
  synchronising, renaming and removing files, and the state store, succeed.
\<close>

type_synonym file_bytes = "nat \<Rightarrow> u8"

section \<open>State\<close>

datatype upload_status = Up_Active | Up_Complete | Up_Aborted

datatype cleanup_outcome = Removed | AlreadyGone | TargetReplaced

record file_identity =
  fi_dev :: u64
  fi_ino :: u64
  fi_len :: u64

record upload_state =
  up_session_id :: nat
  up_target :: path
  up_temp_path :: path
  up_upload_id :: string
  up_size_bytes :: u64
  up_file_identity :: file_identity
  up_status :: upload_status
  up_written_ranges :: ranges
  up_inflight_ranges :: ranges
  up_modified_at_ms :: "u64 option"
  up_published :: bool
  up_updated_at_ms :: u64

record upload_progress =
  pg_session_id :: nat
  pg_path :: path
  pg_offset_bytes :: u64
  pg_size_bytes :: u64
  pg_eof :: bool
  pg_modified_at_ms :: "u64 option"

record upload_write_plan =
  wp_target :: path
  wp_storage_path :: path
  wp_size_bytes :: u64
  wp_offset_bytes :: u64
  wp_file_identity :: file_identity
  wp_written_ranges :: ranges
  wp_reserved_range :: "(u64 \<times> u64) option"

record upload_write_result =
  wr_written_ranges :: "(u64 \<times> u64) list"
  wr_reserved_range :: "(u64 \<times> u64) option"
  wr_modified_at_ms :: "u64 option"

datatype upload_begin = Begin_Write upload_write_plan | Begin_Complete upload_progress

datatype upload_commit = Commit_Progress upload_progress | Commit_Complete upload_progress

section \<open>Methods of an upload\<close>

definition progress_with_offset :: "upload_state \<Rightarrow> u64 \<Rightarrow> bool \<Rightarrow> upload_progress" where
  "progress_with_offset u off eof =
     \<lparr>pg_session_id = up_session_id u, pg_path = up_target u, pg_offset_bytes = off, pg_size_bytes = up_size_bytes u,
      pg_eof = eof, pg_modified_at_ms = (if eof then up_modified_at_ms u else None)\<rparr>"

definition upload_progress_of :: "upload_state \<Rightarrow> bool \<Rightarrow> upload_progress" where
  "upload_progress_of u eof = progress_with_offset u (if eof then up_size_bytes u else 0) eof"

fun checked_sum :: "u64 \<Rightarrow> u64 list \<Rightarrow> u64 option" where
  "checked_sum acc [] = Some acc"
| "checked_sum acc (n # ns) = (case checked_add64 acc n of None \<Rightarrow> None | Some acc' \<Rightarrow> checked_sum acc' ns)"

definition received_bytes :: "upload_state \<Rightarrow> protocol_error + u64" where
  "received_bytes u =
     (case checked_sum 0 (map snd (up_written_ranges u)) of None \<Rightarrow> Inl InvalidEnvelope | Some n \<Rightarrow> Inr n)"

fun coverage_loop :: "u64 \<Rightarrow> u64 \<Rightarrow> ranges \<Rightarrow> protocol_error + bool" where
  "coverage_loop size_bytes expected [] = Inr (expected = size_bytes)"
| "coverage_loop size_bytes expected ((off, len) # r) =
     (if off \<noteq> expected \<or> len = 0 then Inr False
      else (case checked_add64 expected len of
              None \<Rightarrow> Inl InvalidEnvelope
            | Some expected' \<Rightarrow> coverage_loop size_bytes expected' r))"

definition has_complete_coverage :: "upload_state \<Rightarrow> protocol_error + bool" where
  "has_complete_coverage u =
     (if up_size_bytes u = 0 then Inr True else coverage_loop (up_size_bytes u) 0 (up_written_ranges u))"

definition record_written_range :: "u64 \<Rightarrow> u64 \<Rightarrow> upload_state \<Rightarrow> protocol_error + upload_state" where
  "record_written_range start fin u =
     (if start = fin then Inr u
      else if start > fin \<or> fin > up_size_bytes u then Inl InvalidEnvelope
      else
        (let len = fin - start;
             insert_it =
               (case bt_ge start (up_written_ranges u) of
                  Some (next_start, _) \<Rightarrow>
                    if next_start < fin then Inl InvalidEnvelope
                    else Inr (u\<lparr>up_written_ranges := bt_insert start len (up_written_ranges u)\<rparr>)
                | None \<Rightarrow> Inr (u\<lparr>up_written_ranges := bt_insert start len (up_written_ranges u)\<rparr>))
         in case bt_le start (up_written_ranges u) of
              None \<Rightarrow> insert_it
            | Some (previous_start, previous_len) \<Rightarrow>
                (case checked_add64 previous_start previous_len of
                   None \<Rightarrow> Inl InvalidEnvelope
                 | Some previous_end \<Rightarrow>
                     if previous_end > start
                     then (if previous_start = start \<and> previous_end = fin then Inr u else Inl InvalidEnvelope)
                     else insert_it)))"

definition reserve_write_range ::
  "u64 \<Rightarrow> u64 \<Rightarrow> upload_state \<Rightarrow> (protocol_error + (u64 \<times> u64) option) \<times> upload_state" where
  "reserve_write_range start len u =
     (if len = 0 then (if start = up_size_bytes u then Inr None else Inl InvalidEnvelope, u)
      else
        (case checked_add64 start len of
           None \<Rightarrow> (Inl InvalidEnvelope, u)
         | Some fin \<Rightarrow>
             if fin > up_size_bytes u then (Inl InvalidEnvelope, u)
             else if range_is_fully_covered (up_written_ranges u) start fin then (Inr None, u)
             else if range_overlaps (up_written_ranges u) start fin \<or> range_overlaps (up_inflight_ranges u) start fin
             then (Inl InvalidState, u)
             else (Inr (Some (start, fin)), u\<lparr>up_inflight_ranges := bt_insert start len (up_inflight_ranges u)\<rparr>)))"

definition release_inflight_range ::
  "(u64 \<times> u64) option \<Rightarrow> upload_state \<Rightarrow> (protocol_error + unit) \<times> upload_state" where
  "release_inflight_range reserved u =
     (case reserved of
        None \<Rightarrow> (Inr (), u)
      | Some (start, fin) \<Rightarrow>
          (case checked_sub64 fin start of
             None \<Rightarrow> (Inl InvalidEnvelope, u)
           | Some expected_len \<Rightarrow>
               (if map_of (up_inflight_ranges u) start = Some expected_len then Inr () else Inl InvalidState,
                u\<lparr>up_inflight_ranges := bt_remove start (up_inflight_ranges u)\<rparr>)))"

section \<open>Writing the chunks\<close>

text \<open>
  The outcome of the file calls for one chunk: reading back a duplicate may fail, and a write may fail
  after some bytes.
\<close>

record chunk_io =
  ci_read_error :: "protocol_error option"
  ci_write_error :: "(protocol_error \<times> nat) option"

definition put_bytes :: "nat \<Rightarrow> u8 list \<Rightarrow> file_bytes \<Rightarrow> file_bytes" where
  "put_bytes off bs f = (\<lambda>i. if off \<le> i \<and> i < off + length bs then bs ! (i - off) else f i)"

definition get_bytes :: "nat \<Rightarrow> nat \<Rightarrow> file_bytes \<Rightarrow> u8 list" where
  "get_bytes off n f = map f [off..<off + n]"

text \<open>One chunk: the range written, if any, the next offset and the file.\<close>

definition write_chunk ::
  "upload_write_plan \<Rightarrow> chunk_io \<Rightarrow> u64 \<Rightarrow> u8 list \<Rightarrow> file_bytes
    \<Rightarrow> (protocol_error + (u64 \<times> u64) option \<times> u64) \<times> file_bytes" where
  "write_chunk plan io cur chunk f =
     (case checked_add64 cur (length chunk) of
        None \<Rightarrow> (Inl InvalidEnvelope, f)
      | Some next \<Rightarrow>
          if chunk = [] \<or> next > wp_size_bytes plan then (Inl InvalidEnvelope, f)
          else if range_is_fully_covered (wp_written_ranges plan) cur next then
            (case ci_read_error io of
               Some e \<Rightarrow> (Inl e, f)
             | None \<Rightarrow>
                 if get_bytes cur (length chunk) f \<noteq> chunk then (Inl InvalidEnvelope, f)
                 else (Inr (None, next), f))
          else if range_overlaps (wp_written_ranges plan) cur next then (Inl InvalidEnvelope, f)
          else
            (case ci_write_error io of
               Some (e, n) \<Rightarrow> (Inl e, put_bytes cur (take n chunk) f)
             | None \<Rightarrow> (Inr (Some (cur, next), next), put_bytes cur chunk f)))"

fun write_chunks ::
  "upload_write_plan \<Rightarrow> (chunk_io \<times> u8 list) list \<Rightarrow> u64 \<Rightarrow> (u64 \<times> u64) list \<Rightarrow> file_bytes
    \<Rightarrow> (protocol_error + (u64 \<times> u64) list \<times> u64) \<times> file_bytes" where
  "write_chunks plan [] cur written f = (Inr (written, cur), f)"
| "write_chunks plan ((io, chunk) # chunks) cur written f =
     (case write_chunk plan io cur chunk f of
        (Inl e, f') \<Rightarrow> (Inl e, f')
      | (Inr (None, next), f') \<Rightarrow> write_chunks plan chunks next written f'
      | (Inr (Some r, next), f') \<Rightarrow> write_chunks plan chunks next (written @ [r]) f')"

text \<open>
  The checks after the loop: the file is still the one created (\<open>identity\<close>, an error otherwise), its
  metadata can be read and its length has not changed.
\<close>

definition finish_write ::
  "upload_write_plan \<Rightarrow> bool \<Rightarrow> u64 \<Rightarrow> (u64 \<times> u64) list \<Rightarrow> protocol_error option \<Rightarrow> protocol_error + u64 \<times> u64 option
    \<Rightarrow> protocol_error + upload_write_result" where
  "finish_write plan saw_chunk cur written identity metadata =
     (if \<not> saw_chunk \<and> cur \<noteq> wp_size_bytes plan then Inl InvalidEnvelope
      else
        (case identity of
           Some e \<Rightarrow> Inl e
         | None \<Rightarrow>
             (case metadata of
                Inl e \<Rightarrow> Inl e
              | Inr (len, modified) \<Rightarrow>
                  if len \<noteq> wp_size_bytes plan then Inl InvalidEnvelope
                  else Inr \<lparr>wr_written_ranges = written, wr_reserved_range = wp_reserved_range plan,
                            wr_modified_at_ms = modified\<rparr>)))"

definition write_upload_files ::
  "upload_write_plan \<Rightarrow> (chunk_io \<times> u8 list) list \<Rightarrow> protocol_error option \<Rightarrow> protocol_error + u64 \<times> u64 option \<Rightarrow> file_bytes
    \<Rightarrow> (protocol_error + upload_write_result) \<times> file_bytes" where
  "write_upload_files plan chunks identity metadata f =
     (case write_chunks plan chunks (wp_offset_bytes plan) [] f of
        (Inl e, f') \<Rightarrow> (Inl e, f')
      | (Inr (written, cur), f') \<Rightarrow> (finish_write plan (chunks \<noteq> []) cur written identity metadata, f'))"

section \<open>Methods of the protocol\<close>

record upload_request =
  rq_session_id :: nat
  rq_path :: path
  rq_upload_id :: string
  rq_size_bytes :: u64
  rq_offset_bytes :: u64

type_synonym uploads = "(string, upload_state) hmap"

definition upload_id_is_safe :: "string \<Rightarrow> bool" where
  "upload_id_is_safe t \<longleftrightarrow> t \<noteq> [] \<and> length t \<le> 128 \<and>
     list_all (\<lambda>c. let b = (of_char c :: nat) in
       (48 \<le> b \<and> b \<le> 57) \<or> (65 \<le> b \<and> b \<le> 90) \<or> (97 \<le> b \<and> b \<le> 122) \<or> b = 45 \<or> b = 95) t"

text \<open>\<open>begin\<close> on the upload it found; duplicating the handle of the file may fail.\<close>

definition begin_on_state ::
  "path \<Rightarrow> protocol_error option \<Rightarrow> u64 \<Rightarrow> upload_request \<Rightarrow> u64 \<Rightarrow> upload_state \<Rightarrow> (protocol_error + upload_begin) \<times> upload_state" where
  "begin_on_state target clone_error now rq write_len u0 =
     (let u = u0\<lparr>up_updated_at_ms := now\<rparr> in
      case up_status u of
        Up_Active \<Rightarrow>
          (case clone_error of
             Some e \<Rightarrow> (Inl e, u)
           | None \<Rightarrow>
               (case reserve_write_range (rq_offset_bytes rq) write_len u of
                  (Inl e, u') \<Rightarrow> (Inl e, u')
                | (Inr reserved, u') \<Rightarrow>
                    (Inr (Begin_Write
                       \<lparr>wp_target = target, wp_storage_path = (if up_published u then up_target u else up_temp_path u),
                        wp_size_bytes = rq_size_bytes rq, wp_offset_bytes = rq_offset_bytes rq,
                        wp_file_identity = up_file_identity u, wp_written_ranges = up_written_ranges u',
                        wp_reserved_range = reserved\<rparr>),
                     u')))
      | Up_Complete \<Rightarrow> (Inr (Begin_Complete (upload_progress_of u True)), u)
      | Up_Aborted \<Rightarrow> (Inl InvalidState, u))"

text \<open>
  \<open>begin\<close>. The arguments stand for what the request resolves to: whether the connection is attached to the
  session (\<open>attached\<close>), the resolved target or an error, and whether the target is a directory.
\<close>

definition begin_upload_write ::
  "protocol_error option \<Rightarrow> protocol_error + path \<Rightarrow> bool \<Rightarrow> protocol_error option \<Rightarrow> u64 \<Rightarrow> upload_request \<Rightarrow> u64 \<Rightarrow> uploads
    \<Rightarrow> (protocol_error + upload_begin) \<times> uploads" where
  "begin_upload_write attached resolved is_dir clone_error now rq write_len m =
     (case attached of
        Some e \<Rightarrow> (Inl e, m)
      | None \<Rightarrow>
          if \<not> upload_id_is_safe (rq_upload_id rq) then (Inl InvalidEnvelope, m)
          else
            (case resolved of
               Inl e \<Rightarrow> (Inl e, m)
             | Inr target \<Rightarrow>
                 if is_dir then (Inl InvalidEnvelope, m)
                 else
                   (case hm_get m (rq_upload_id rq) of
                      None \<Rightarrow> (Inl InvalidEnvelope, m)
                    | Some u \<Rightarrow>
                        if up_session_id u \<noteq> rq_session_id rq \<or> up_target u \<noteq> target \<or>
                           up_upload_id u \<noteq> rq_upload_id rq \<or> up_size_bytes u \<noteq> rq_size_bytes rq
                        then (Inl InvalidEnvelope, m)
                        else
                          (let (answer, u') = begin_on_state target clone_error now rq write_len u
                           in (answer, hm_insert (rq_upload_id rq) u' m)))))"

text \<open>The records of a committed write, one after the other.\<close>

fun record_all :: "(u64 \<times> u64) list \<Rightarrow> upload_state \<Rightarrow> (protocol_error + unit) \<times> upload_state" where
  "record_all [] u = (Inr (), u)"
| "record_all ((start, fin) # rs) u =
     (case record_written_range start fin u of
        Inl e \<Rightarrow> (Inl e, u)
      | Inr u' \<Rightarrow> record_all rs u')"

text \<open>
  The part of \<open>commit\<close> before the file is published: an answer, or the upload with its final progress if
  every byte is there.
\<close>

definition commit_ranges ::
  "upload_write_result \<Rightarrow> upload_state \<Rightarrow> (protocol_error + upload_commit option) \<times> upload_state" where
  "commit_ranges res u =
     (case release_inflight_range (wr_reserved_range res) u of
        (Inl e, u1) \<Rightarrow> (Inl e, u1)
      | (Inr _, u1) \<Rightarrow>
          (case record_all (wr_written_ranges res) u1 of
             (Inl e, u2) \<Rightarrow> (Inl e, u2)
           | (Inr _, u2) \<Rightarrow>
               (case received_bytes u2 of
                  Inl e \<Rightarrow> (Inl e, u2)
                | Inr received \<Rightarrow>
                    (case has_complete_coverage u2 of
                       Inl e \<Rightarrow> (Inl e, u2)
                     | Inr True \<Rightarrow> (Inr None, u2\<lparr>up_modified_at_ms := wr_modified_at_ms res\<rparr>)
                     | Inr False \<Rightarrow> (Inr (Some (Commit_Progress (progress_with_offset u2 received False))), u2)))))"

text \<open>The outcomes of the calls that publish a complete file; \<open>None\<close> is success.\<close>

record publish_io =
  pi_sync :: "protocol_error option"
  pi_identity :: "protocol_error option"
  pi_rename :: "protocol_error option"
  pi_sync_parent :: "protocol_error option"
  pi_state_removed :: bool

definition publish_upload :: "publish_io \<Rightarrow> upload_state \<Rightarrow> (protocol_error + upload_commit) \<times> upload_state" where
  "publish_upload io u =
     (let progress = upload_progress_of u True;
          after_publish = (\<lambda>v.
            case pi_sync_parent io of
              Some e \<Rightarrow> (Inl e, v)
            | None \<Rightarrow>
                if \<not> pi_state_removed io then (Inl StateFailed, v)
                else (Inr (Commit_Complete progress), v\<lparr>up_status := Up_Complete\<rparr>))
      in case pi_sync io of
           Some e \<Rightarrow> (Inl e, u)
         | None \<Rightarrow>
             if up_published u then after_publish u
             else
               (case pi_identity io of
                  Some e \<Rightarrow> (Inl e, u)
                | None \<Rightarrow>
                    (case pi_rename io of
                       Some e \<Rightarrow> (Inl e, u)
                     | None \<Rightarrow> after_publish (u\<lparr>up_published := True\<rparr>))))"

definition commit_upload ::
  "publish_io \<Rightarrow> upload_write_result \<Rightarrow> upload_state \<Rightarrow> (protocol_error + upload_commit) \<times> upload_state" where
  "commit_upload io res u =
     (case up_status u of
        Up_Active \<Rightarrow>
          (case commit_ranges res u of
             (Inl e, u') \<Rightarrow> (Inl e, u')
           | (Inr (Some answer), u') \<Rightarrow> (Inr answer, u')
           | (Inr None, u') \<Rightarrow> publish_upload io u')
      | Up_Complete \<Rightarrow>
          (Inr (Commit_Complete (upload_progress_of (snd (release_inflight_range (wr_reserved_range res) u)) True)),
           snd (release_inflight_range (wr_reserved_range res) u))
      | Up_Aborted \<Rightarrow> (Inl InvalidState, snd (release_inflight_range (wr_reserved_range res) u)))"

definition commit_upload_write ::
  "publish_io \<Rightarrow> u64 \<Rightarrow> upload_request \<Rightarrow> upload_write_result \<Rightarrow> uploads \<Rightarrow> (protocol_error + upload_commit) \<times> uploads" where
  "commit_upload_write io now rq res m =
     (case hm_get m (rq_upload_id rq) of
        None \<Rightarrow> (Inl InvalidEnvelope, m)
      | Some u \<Rightarrow>
          if up_session_id u \<noteq> rq_session_id rq \<or> up_size_bytes u \<noteq> rq_size_bytes rq then (Inl InvalidEnvelope, m)
          else
            (let (answer, u') = commit_upload io res (u\<lparr>up_updated_at_ms := now\<rparr>)
             in (answer, hm_insert (rq_upload_id rq) u' m)))"

definition cancel_upload_write :: "u64 \<Rightarrow> upload_request \<Rightarrow> (u64 \<times> u64) option \<Rightarrow> uploads \<Rightarrow> uploads" where
  "cancel_upload_write now rq reserved m =
     (case hm_get m (rq_upload_id rq) of
        None \<Rightarrow> m
      | Some u \<Rightarrow>
          hm_insert (rq_upload_id rq) ((snd (release_inflight_range reserved u))\<lparr>up_updated_at_ms := now\<rparr>) m)"

text \<open>
  \<open>abort\<close> of an upload that is known: the outcome of removing the temporary file, whether the open file has
  other links, and whether the state store forgets the upload.
\<close>

definition abort_upload ::
  "protocol_error + cleanup_outcome \<Rightarrow> bool \<Rightarrow> bool \<Rightarrow> u64 \<Rightarrow> upload_state \<Rightarrow> (protocol_error + unit) \<times> upload_state" where
  "abort_upload cleanup remaining_links state_removed now u =
     (if up_status u = Up_Complete then (Inr (), u)
      else if up_published u then (Inl InvalidState, u)
      else
        (let u1 = u\<lparr>up_inflight_ranges := []\<rparr> in
         case cleanup of
           Inl e \<Rightarrow> (Inl e, u1)
         | Inr outcome \<Rightarrow>
             if (outcome = AlreadyGone \<or> outcome = TargetReplaced) \<and> remaining_links
             then (Inl InvalidState, u1\<lparr>up_updated_at_ms := now\<rparr>)
             else if \<not> state_removed then (Inl StateFailed, u1)
             else (if outcome = TargetReplaced then Inl InvalidState else Inr (),
                   u1\<lparr>up_status := Up_Aborted, up_updated_at_ms := now\<rparr>)))"

definition abort_upload_request ::
  "protocol_error option \<Rightarrow> protocol_error + path \<Rightarrow> protocol_error + cleanup_outcome \<Rightarrow> bool \<Rightarrow> bool \<Rightarrow> u64 \<Rightarrow> upload_request
    \<Rightarrow> uploads \<Rightarrow> (protocol_error + unit) \<times> uploads" where
  "abort_upload_request attached resolved cleanup remaining_links state_removed now rq m =
     (case attached of
        Some e \<Rightarrow> (Inl e, m)
      | None \<Rightarrow>
          if \<not> upload_id_is_safe (rq_upload_id rq) then (Inl InvalidEnvelope, m)
          else
            (case resolved of
               Inl e \<Rightarrow> (Inl e, m)
             | Inr target \<Rightarrow>
                 (case hm_get m (rq_upload_id rq) of
                    None \<Rightarrow> (Inr (), m)
                  | Some u \<Rightarrow>
                      if up_session_id u \<noteq> rq_session_id rq \<or> up_target u \<noteq> target \<or> up_size_bytes u \<noteq> rq_size_bytes rq
                      then (Inl InvalidEnvelope, m)
                      else
                        (let (answer, u') = abort_upload cleanup remaining_links state_removed now u
                         in (answer, hm_insert (rq_upload_id rq) u' m)))))"

definition upload_active_idle_ttl_ms :: u64 where
  "upload_active_idle_ttl_ms = 60 * 60 * 1000"

definition upload_tombstone_ttl_ms :: u64 where
  "upload_tombstone_ttl_ms = 10 * 60 * 1000"

definition upload_is_stale :: "u64 \<Rightarrow> upload_state \<Rightarrow> bool" where
  "upload_is_stale now u =
     (if up_status u = Up_Active then now - up_updated_at_ms u > upload_active_idle_ttl_ms
      else now - up_updated_at_ms u > upload_tombstone_ttl_ms)"

text \<open>What pruning does with a stale upload: \<open>None\<close> forgets it. The cleanup of each upload is an argument.\<close>

definition prune_upload ::
  "u64 \<Rightarrow> protocol_error + cleanup_outcome \<Rightarrow> bool \<Rightarrow> upload_state \<Rightarrow> upload_state option" where
  "prune_upload now cleanup remaining_links u =
     (if \<not> upload_is_stale now u then Some u
      else if up_status u \<noteq> Up_Active then None
      else if up_published u then Some (u\<lparr>up_updated_at_ms := now\<rparr>)
      else
        (case cleanup of
           Inl e \<Rightarrow> Some (u\<lparr>up_updated_at_ms := now\<rparr>)
         | Inr outcome \<Rightarrow>
             if (outcome = AlreadyGone \<or> outcome = TargetReplaced) \<and> remaining_links
             then Some (u\<lparr>up_updated_at_ms := now\<rparr>)
             else None))"

definition prune_uploads ::
  "u64 \<Rightarrow> (string \<Rightarrow> protocol_error + cleanup_outcome) \<Rightarrow> (string \<Rightarrow> bool) \<Rightarrow> uploads \<Rightarrow> uploads" where
  "prune_uploads now cleanup remaining_links m =
     List.map_filter (\<lambda>(k, u). map_option (Pair k) (prune_upload now (cleanup k) (remaining_links k) u)) m"

section \<open>Preparing an upload\<close>

text \<open>
  The outcomes of preparing: the request resolves to a target that does not exist, a random id and a
  temporary path are chosen, the intent is stored, the file is created, and its identity is stored. If the
  last step fails the file is removed; if that cannot be confirmed the upload is kept as a guard.
\<close>

record prepare_io =
  pp_attached :: "protocol_error option"
  pp_target :: "protocol_error + path"
  pp_is_dir :: bool
  pp_upload_id :: string
  pp_exists :: bool
  pp_temp_path :: "protocol_error + path"
  pp_intent_stored :: bool
  pp_created :: "protocol_error + file_identity"
  pp_identity_stored :: bool
  pp_cleanup :: "protocol_error + cleanup_outcome"
  pp_remaining_links :: bool

definition upload_new :: "nat \<Rightarrow> path \<Rightarrow> path \<Rightarrow> string \<Rightarrow> u64 \<Rightarrow> file_identity \<Rightarrow> u64 \<Rightarrow> upload_state" where
  "upload_new sid target temp uid size_bytes ident now =
     \<lparr>up_session_id = sid, up_target = target, up_temp_path = temp, up_upload_id = uid, up_size_bytes = size_bytes,
      up_file_identity = ident, up_status = Up_Active, up_written_ranges = [], up_inflight_ranges = [],
      up_modified_at_ms = None, up_published = False, up_updated_at_ms = now\<rparr>"

definition prepare_fresh_upload ::
  "prepare_io \<Rightarrow> u64 \<Rightarrow> nat \<Rightarrow> u64 \<Rightarrow> uploads \<Rightarrow> (protocol_error + upload_request) \<times> uploads" where
  "prepare_fresh_upload io now sid size_bytes m =
     (case pp_attached io of
        Some e \<Rightarrow> (Inl e, m)
      | None \<Rightarrow>
          (case pp_target io of
             Inl e \<Rightarrow> (Inl e, m)
           | Inr target \<Rightarrow>
               if pp_is_dir io \<or> pp_exists io then (Inl InvalidEnvelope, m)
               else
                 (case pp_temp_path io of
                    Inl e \<Rightarrow> (Inl e, m)
                  | Inr temp \<Rightarrow>
                      if \<not> pp_intent_stored io then (Inl StateFailed, m)
                      else
                        (case pp_created io of
                           Inl e \<Rightarrow> (Inl e, m)
                         | Inr ident \<Rightarrow>
                             (let u = upload_new sid target temp (pp_upload_id io) size_bytes ident now;
                                  keep_guard =
                                    (case pp_cleanup io of
                                       Inr Removed \<Rightarrow> False
                                     | Inr _ \<Rightarrow> pp_remaining_links io
                                     | Inl _ \<Rightarrow> True)
                              in if \<not> pp_identity_stored io
                                 then (Inl StateFailed, if keep_guard then hm_insert (pp_upload_id io) u m else m)
                                 else (Inr \<lparr>rq_session_id = sid, rq_path = target, rq_upload_id = pp_upload_id io,
                                            rq_size_bytes = size_bytes, rq_offset_bytes = 0\<rparr>,
                                       hm_insert (pp_upload_id io) u m))))))"

text \<open>The new upload; stale ones are pruned first.\<close>

definition prepare_upload ::
  "(string \<Rightarrow> protocol_error + cleanup_outcome) \<Rightarrow> (string \<Rightarrow> bool) \<Rightarrow> prepare_io \<Rightarrow> u64 \<Rightarrow> nat \<Rightarrow> u64 \<Rightarrow> uploads
    \<Rightarrow> (protocol_error + upload_request) \<times> uploads" where
  "prepare_upload cleanup remaining_links io now sid size_bytes m =
     prepare_fresh_upload io now sid size_bytes (prune_uploads now cleanup remaining_links m)"

section \<open>Requests\<close>

definition upload_payload :: "protocol_error option \<Rightarrow> string \<Rightarrow> u64 \<Rightarrow> uploads \<Rightarrow> protocol_error + upload_request" where
  "upload_payload authenticated uid off m =
     (case authenticated of
        Some e \<Rightarrow> Inl e
      | None \<Rightarrow>
          (case hm_get m uid of
             None \<Rightarrow> Inl InvalidEnvelope
           | Some u \<Rightarrow> Inr \<lparr>rq_session_id = up_session_id u, rq_path = up_target u, rq_upload_id = up_upload_id u,
                            rq_size_bytes = up_size_bytes u, rq_offset_bytes = off\<rparr>))"

definition upload_progress_answer :: "protocol_error option \<Rightarrow> string \<Rightarrow> uploads \<Rightarrow> protocol_error + upload_progress" where
  "upload_progress_answer attached uid m =
     (case hm_get m uid of
        None \<Rightarrow> Inl InvalidEnvelope
      | Some u \<Rightarrow>
          (case attached of
             Some e \<Rightarrow> Inl e
           | None \<Rightarrow>
               (let progress = upload_progress_of u (up_status u = Up_Complete)
                in if \<not> pg_eof progress then Inl InvalidState else Inr progress)))"

definition upload_chunks_len :: "u8 list list \<Rightarrow> protocol_error + u64" where
  "upload_chunks_len chunks =
     (case checked_sum 0 (map length chunks) of None \<Rightarrow> Inl InvalidEnvelope | Some n \<Rightarrow> Inr n)"

text \<open>The outcomes of the calls of one write request.\<close>

record write_io =
  wi_attached :: "protocol_error option"
  wi_resolved :: "protocol_error + path"
  wi_is_dir :: bool
  wi_clone :: "protocol_error option"
  wi_chunks :: "nat \<Rightarrow> chunk_io"
  wi_identity :: "protocol_error option"
  wi_metadata :: "protocol_error + u64 \<times> u64 option"
  wi_publish :: publish_io

text \<open>The uploads and their open files, by the id of the upload.\<close>

record upload_store =
  us_uploads :: uploads
  us_files :: "string \<Rightarrow> file_bytes"

definition commit_progress :: "protocol_error + upload_commit \<Rightarrow> protocol_error + upload_progress" where
  "commit_progress answer =
     (case answer of
        Inl e \<Rightarrow> Inl e
      | Inr (Commit_Progress p) \<Rightarrow> Inr p
      | Inr (Commit_Complete p) \<Rightarrow> Inr p)"

definition write_session_file_http_upload ::
  "write_io \<Rightarrow> u64 \<Rightarrow> upload_request \<Rightarrow> u8 list list \<Rightarrow> upload_store \<Rightarrow> (protocol_error + upload_progress) \<times> upload_store" where
  "write_session_file_http_upload io now rq chunks s =
     (case upload_chunks_len chunks of
        Inl e \<Rightarrow> (Inl e, s)
      | Inr write_len \<Rightarrow>
          (case begin_upload_write (wi_attached io) (wi_resolved io) (wi_is_dir io) (wi_clone io) now rq write_len
                  (us_uploads s) of
             (Inl e, m) \<Rightarrow> (Inl e, s\<lparr>us_uploads := m\<rparr>)
           | (Inr (Begin_Complete progress), m) \<Rightarrow> (Inr progress, s\<lparr>us_uploads := m\<rparr>)
           | (Inr (Begin_Write plan), m) \<Rightarrow>
               (case write_upload_files plan (zip (map (wi_chunks io) [0..<length chunks]) chunks) (wi_identity io) (wi_metadata io)
                       (us_files s (rq_upload_id rq)) of
                  (Inl e, f) \<Rightarrow>
                    (Inl e, \<lparr>us_uploads = cancel_upload_write now rq (wp_reserved_range plan) m,
                             us_files = (us_files s)(rq_upload_id rq := f)\<rparr>)
                | (Inr res, f) \<Rightarrow>
                    (let (answer, m') = commit_upload_write (wi_publish io) now rq res m
                     in (commit_progress answer, \<lparr>us_uploads = m', us_files = (us_files s)(rq_upload_id rq := f)\<rparr>)))))"

end
