(* ===== verification/Upload_Exact.thy ===== *)
theory Upload_Exact
  imports Upload
begin

text \<open>
  Chunked uploads are exact. The requests of an upload may come in any order, be repeated, overlap, fail
  half-way or fail after their ranges are recorded; the system of this theory runs every sequence of
  preparations, write requests, aborts and prunings, with a log of the requests.
\<close>

section \<open>The methods on well-formed ranges\<close>

definition upload_ok :: "upload_state \<Rightarrow> bool" where
  "upload_ok u \<longleftrightarrow> ranges_ok (up_size_bytes u) (up_written_ranges u)"

lemma checked_sum_coverage:
  "ranges_ok n r \<Longrightarrow> acc + card (coverage r) \<le> u64_max \<Longrightarrow> checked_sum acc (map snd r) = Some (acc + card (coverage r))"
proof (induction r arbitrary: acc)
  case (Cons e r)
  obtain s l where e: "e = (s, l)" by force
  from Cons.prems(1) have ok: "ranges_ok n r" "\<forall>e \<in> set r. s + l \<le> fst e" by (auto simp: e ranges_ok_Cons)
  have fin: "finite (coverage r)" using coverage_bound [OF ok(1)] finite_subset by blast
  have "{s..<s + l} \<inter> coverage r = {}" using ok(2) by (fastforce simp: coverage_def)
  then have card: "card (coverage (e # r)) = l + card (coverage r)" using fin by (simp add: e coverage_Cons card_Un_disjoint)
  with Cons.prems Cons.IH [OF ok(1), of "acc + l"] show ?case by (simp add: e checked_add64_def)
qed simp

lemma received_bytes_is_card: "upload_ok u \<Longrightarrow> received_bytes u = Inr (card (coverage (up_written_ranges u)))"
proof -
  assume ok: "upload_ok u"
  then have "card (coverage (up_written_ranges u)) \<le> up_size_bytes u"
    using coverage_bound card_mono [of "{0..<up_size_bytes u}"] by (fastforce simp: upload_ok_def)
  with ok checked_sum_coverage [of "up_size_bytes u" "up_written_ranges u" 0] show ?thesis
    by (simp add: received_bytes_def upload_ok_def ranges_ok_def)
qed

lemma coverage_loop_iff:
  "ranges_ok n r \<Longrightarrow> e0 \<le> n \<Longrightarrow> (\<forall>e \<in> set r. e0 \<le> fst e) \<Longrightarrow> coverage_loop n e0 r = Inr (coverage r = {e0..<n})"
proof (induction r arbitrary: e0)
  case Nil
  then show ?case by auto
next
  case (Cons e r)
  obtain s l where e: "e = (s, l)" by force
  from Cons.prems(1) have ok: "ranges_ok n r" "0 < l" "s + l \<le> n" "\<forall>e \<in> set r. s + l \<le> fst e" "n \<le> u64_max"
    by (auto simp: e ranges_ok_Cons ranges_ok_def)
  show ?case
  proof (cases "s = e0")
    case True
    have dis: "{s..<s + l} \<inter> coverage r = {}" using ok(4) by (fastforce simp: coverage_def)
    have split: "{e0..<n} = {s..<s + l} \<union> {s + l..<n}" "{s..<s + l} \<inter> {s + l..<n} = {}" using True ok by auto
    have "coverage_loop n e0 (e # r) = Inr (coverage r = {s + l..<n})"
      using True ok Cons.IH [OF ok(1,3,4)] by (simp add: e checked_add64_def)
    also have "(coverage r = {s + l..<n}) \<longleftrightarrow> coverage (e # r) = {e0..<n}"
      unfolding e coverage_Cons split(1) using dis split(2) by blast
    finally show ?thesis .
  next
    case False
    with Cons.prems(3) e have "e0 < s" by auto
    then have "e0 \<notin> coverage (e # r)" "e0 \<in> {e0..<n}" using ok(3,4) by (fastforce simp: e coverage_def)+
    then have "coverage (e # r) \<noteq> {e0..<n}" by blast
    with False e show ?thesis by simp
  qed
qed

lemma has_complete_coverage_iff:
  "upload_ok u \<Longrightarrow> has_complete_coverage u = Inr (coverage (up_written_ranges u) = {0..<up_size_bytes u})"
  using coverage_loop_iff [of "up_size_bytes u" "up_written_ranges u" 0] coverage_bound [of 0 "up_written_ranges u"]
  by (auto simp: has_complete_coverage_def upload_ok_def)

lemma record_fresh_range:
  assumes "upload_ok u" "start < fin" "fin \<le> up_size_bytes u" "{start..<fin} \<inter> coverage (up_written_ranges u) = {}"
  obtains u' where "record_written_range start fin u = Inr u'" "upload_ok u'"
    "coverage (up_written_ranges u') = coverage (up_written_ranges u) \<union> {start..<fin}"
    "u' = u\<lparr>up_written_ranges := up_written_ranges u'\<rparr>"
proof -
  let ?r = "up_written_ranges u"
  let ?u' = "u\<lparr>up_written_ranges := bt_insert start (fin - start) ?r\<rparr>"
  have ok: "ranges_ok (up_size_bytes u) ?r" using assms(1) by (simp add: upload_ok_def)
  have len: "start + (fin - start) = fin" using assms(2) by simp
  have nov: "\<not> range_overlaps ?r start fin" using range_overlaps_iff [OF ok] assms(2,4) by (simp add: inf_commute)
  have next_ok: "(case bt_ge start ?r of
      Some (next_start, _) \<Rightarrow> if next_start < fin then Inl InvalidEnvelope else Inr ?u' | None \<Rightarrow> Inr ?u') = Inr ?u'"
    using nov assms(2) by (auto simp: range_overlaps_def split: option.splits prod.splits if_splits)
  have "record_written_range start fin u = Inr ?u'"
  proof (cases "bt_le start ?r")
    case None
    with assms(2,3) next_ok show ?thesis by (simp add: record_written_range_def Let_def)
  next
    case (Some e)
    obtain s l where e: "e = (s, l)" by force
    have add: "checked_add64 s l = Some (s + l)" using bt_le_Some(1) [OF ok] ranges_ok_entry(3) [OF ok] Some e by blast
    with nov assms(2) Some e have "\<not> start < s + l" by (auto simp: range_overlaps_def split: if_splits)
    with Some e add assms(2,3) next_ok show ?thesis by (simp add: record_written_range_def Let_def)
  qed
  moreover have dis: "coverage ?r \<inter> {start..<start + (fin - start)} = {}" using assms(4) len by auto
  moreover have "upload_ok ?u'"
    using ranges_ok_insert [OF ok, of "fin - start" start] assms(2,3) dis len by (simp add: upload_ok_def)
  moreover have "coverage (bt_insert start (fin - start) ?r) = coverage ?r \<union> {start..<fin}"
    using coverage_insert fresh_key [OF ok _ dis] assms(2) len by auto
  ultimately show thesis using that [of ?u'] by simp
qed

text \<open>Ranges that follow one another.\<close>

fun contiguous :: "nat \<Rightarrow> (u64 \<times> u64) list \<Rightarrow> nat \<Rightarrow> bool" where
  "contiguous a [] b \<longleftrightarrow> a = b"
| "contiguous a ((s, t) # r) b \<longleftrightarrow> s = a \<and> a < t \<and> contiguous t r b"

lemma contiguous_le: "contiguous a r b \<Longrightarrow> a \<le> b"
  by (induction a r b rule: contiguous.induct) auto

lemma contiguous_snoc: "contiguous a r b \<Longrightarrow> b < c \<Longrightarrow> contiguous a (r @ [(b, c)]) c"
  by (induction a r b rule: contiguous.induct) auto

lemma record_all_contiguous:
  assumes "upload_ok u" "contiguous a rs b" "b \<le> up_size_bytes u" "{a..<b} \<inter> coverage (up_written_ranges u) = {}"
  shows "\<exists>u'. record_all rs u = (Inr (), u') \<and> upload_ok u' \<and>
    coverage (up_written_ranges u') = coverage (up_written_ranges u) \<union> {a..<b} \<and> u' = u\<lparr>up_written_ranges := up_written_ranges u'\<rparr>"
  using assms
proof (induction rs arbitrary: a u)
  case Nil
  then show ?case by simp
next
  case (Cons e rs)
  obtain t where e: "e = (a, t)" "a < t" "contiguous t rs b" using Cons.prems(2) by (cases e) auto
  from contiguous_le [OF e(3)] have tb: "t \<le> b" .
  have split: "{a..<b} = {a..<t} \<union> {t..<b}" "{a..<t} \<inter> {t..<b} = {}" using e(2) tb by auto
  have "{a..<t} \<inter> coverage (up_written_ranges u) = {}" using Cons.prems(4) split(1) by auto
  from record_fresh_range [OF Cons.prems(1) e(2) _ this] tb Cons.prems(3)
  obtain u1 where u1: "record_written_range a t u = Inr u1" "upload_ok u1"
      "coverage (up_written_ranges u1) = coverage (up_written_ranges u) \<union> {a..<t}" "u1 = u\<lparr>up_written_ranges := up_written_ranges u1\<rparr>"
    by (metis order_trans)
  have size1: "up_size_bytes u1 = up_size_bytes u" by (subst u1(4)) simp
  have "{t..<b} \<inter> coverage (up_written_ranges u1) = {}" using u1(3) Cons.prems(4) split by auto
  from Cons.IH [OF u1(2) e(3) _ this] Cons.prems(3) size1
  obtain u2 where u2: "record_all rs u1 = (Inr (), u2)" "upload_ok u2"
      "coverage (up_written_ranges u2) = coverage (up_written_ranges u1) \<union> {t..<b}" "u2 = u1\<lparr>up_written_ranges := up_written_ranges u2\<rparr>"
    by metis
  have "u2 = u\<lparr>up_written_ranges := up_written_ranges u2\<rparr>" by (subst u2(4), subst u1(4)) simp
  with u1 u2 e split show ?case by auto
qed

section \<open>The bytes of a request\<close>

lemma put_bytes_Nil [simp]: "put_bytes off [] f = f"
  by (auto simp: put_bytes_def)

lemma put_bytes_outside: "i \<notin> {off..<off + length bs} \<Longrightarrow> put_bytes off bs f i = f i"
  by (auto simp: put_bytes_def)

lemma put_bytes_inside: "off \<le> i \<Longrightarrow> i < off + length bs \<Longrightarrow> put_bytes off bs f i = bs ! (i - off)"
  by (simp add: put_bytes_def)

lemma put_bytes_append: "put_bytes (off + length xs) ys (put_bytes off xs f) = put_bytes off (xs @ ys) f"
  by (auto simp: put_bytes_def nth_append fun_eq_iff)

lemma get_put_bytes: "get_bytes off (length bs) (put_bytes off bs f) = bs"
  by (rule nth_equalityI) (auto simp: get_bytes_def put_bytes_def)

lemma get_bytes_append: "get_bytes off (m + n) f = get_bytes off m f @ get_bytes (off + m) n f"
proof -
  have "[off..<off + (m + n)] = [off..<off + m] @ [off + m..<off + m + n]"
    using upt_add_eq_append [of off "off + m" n] by (simp add: add.assoc)
  then show ?thesis by (simp only: get_bytes_def map_append)
qed

lemma get_bytes_eq: "(\<And>i. i \<in> {off..<off + n} \<Longrightarrow> f i = g i) \<Longrightarrow> get_bytes off n f = get_bytes off n g"
  unfolding get_bytes_def by (rule map_cong) auto

lemma get_bytes_nth: "i < n \<Longrightarrow> get_bytes off n f ! i = f (off + i)"
  by (simp add: get_bytes_def)

text \<open>A request on a covered range only compares.\<close>

lemma write_chunks_covered:
  assumes "ranges_ok n (wp_written_ranges plan)"
    and "{cur..<cur + length (concat (map snd cs))} \<subseteq> coverage (wp_written_ranges plan)"
  shows "(\<exists>er. write_chunks plan cs cur written f = (Inl er, f)) \<or>
    write_chunks plan cs cur written f = (Inr (written, cur + length (concat (map snd cs))), f) \<and>
    get_bytes cur (length (concat (map snd cs))) f = concat (map snd cs)"
  using assms(2)
proof (induction cs arbitrary: cur)
  case Nil
  then show ?case by (simp add: get_bytes_def)
next
  case (Cons e cs)
  obtain io chunk where e: "e = (io, chunk)" by force
  let ?next = "cur + length chunk"
  let ?len = "length (concat (map snd cs))"
  have sub: "{?next..<?next + ?len} \<subseteq> coverage (wp_written_ranges plan)"
    "{cur..<?next} \<subseteq> coverage (wp_written_ranges plan)"
    using Cons.prems by (auto simp: e)
  have "(\<exists>er. write_chunk plan io cur chunk f = (Inl er, f)) \<or>
      write_chunk plan io cur chunk f = (Inr (None, ?next), f) \<and> get_bytes cur (length chunk) f = chunk"
    using sub(2) range_is_fully_covered_iff [OF assms(1)]
    by (auto simp: write_chunk_def checked_add64_def split: option.splits)
  with Cons.IH [OF sub(1)] show ?case by (auto simp: e get_bytes_append add.assoc)
qed

text \<open>A request on a fresh range writes its bytes there, or, if it fails, some bytes there.\<close>

lemma write_chunk_fresh:
  assumes "ranges_ok n (wp_written_ranges plan)" "{cur..<cur + length chunk} \<inter> coverage (wp_written_ranges plan) = {}"
  shows "(\<exists>er k. write_chunk plan io cur chunk f = (Inl er, put_bytes cur (take k chunk) f)) \<or>
    chunk \<noteq> [] \<and> cur + length chunk \<le> wp_size_bytes plan \<and>
    write_chunk plan io cur chunk f = (Inr (Some (cur, cur + length chunk), cur + length chunk), put_bytes cur chunk f)"
proof -
  have unchanged: "\<exists>k. f = put_bytes cur (take k chunk) f" by (rule exI [of _ 0]) simp
  show ?thesis
  proof (cases "chunk = []")
    case True
    with unchanged show ?thesis by (auto simp: write_chunk_def split: option.splits)
  next
    case False
    then have "\<not> {cur..<cur + length chunk} \<subseteq> coverage (wp_written_ranges plan)"
      using assms(2) by (metis atLeastLessThan_empty_iff2 inf.absorb1 length_0_conv less_add_same_cancel1 neq0_conv)
    then have "\<not> range_is_fully_covered (wp_written_ranges plan) cur (cur + length chunk)"
      using range_is_fully_covered_iff [OF assms(1)] by blast
    moreover have "\<not> range_overlaps (wp_written_ranges plan) cur (cur + length chunk)"
      using range_overlaps_iff [OF assms(1)] assms(2) by (simp add: inf_commute)
    ultimately show ?thesis using False unchanged
      by (auto simp: write_chunk_def checked_add64_def split: option.splits)
  qed
qed

lemma write_chunks_fresh:
  assumes "ranges_ok n (wp_written_ranges plan)"
    and "{cur..<cur + length (concat (map snd cs))} \<inter> coverage (wp_written_ranges plan) = {}"
    and "contiguous a written cur"
  shows "(\<exists>er bs. length bs \<le> length (concat (map snd cs)) \<and> write_chunks plan cs cur written f = (Inl er, put_bytes cur bs f)) \<or>
    (\<exists>w. contiguous a w (cur + length (concat (map snd cs))) \<and> write_chunks plan cs cur written f =
      (Inr (w, cur + length (concat (map snd cs))), put_bytes cur (concat (map snd cs)) f))"
  using assms(2,3)
proof (induction cs arbitrary: cur written f)
  case Nil
  then show ?case by auto
next
  case (Cons e cs)
  obtain io chunk where e: "e = (io, chunk)" by force
  let ?next = "cur + length chunk"
  let ?bs = "concat (map snd cs)"
  have cap: "{cur..<?next} \<inter> coverage (wp_written_ranges plan) = {}"
    "{?next..<?next + length ?bs} \<inter> coverage (wp_written_ranges plan) = {}"
    using Cons.prems(1) by (auto simp: e disjoint_iff)
  from write_chunk_fresh [OF assms(1) cap(1), of io f] show ?case
  proof (elim disjE exE conjE)
    fix er k
    assume "write_chunk plan io cur chunk f = (Inl er, put_bytes cur (take k chunk) f)"
    then have "write_chunks plan (e # cs) cur written f = (Inl er, put_bytes cur (take k chunk) f)" by (simp add: e)
    moreover have "length (take k chunk) \<le> length (concat (map snd (e # cs)))" by (simp add: e)
    ultimately show ?thesis by blast
  next
    assume chunk: "chunk \<noteq> []"
      and w: "write_chunk plan io cur chunk f = (Inr (Some (cur, ?next), ?next), put_bytes cur chunk f)"
    from chunk have "contiguous a (written @ [(cur, ?next)]) ?next" using contiguous_snoc [OF Cons.prems(2)] by simp
    from Cons.IH [OF cap(2) this, of "put_bytes cur chunk f"] show ?thesis
    proof (elim disjE exE conjE)
      fix er bs
      assume len: "length bs \<le> length ?bs"
        and "write_chunks plan cs ?next (written @ [(cur, ?next)]) (put_bytes cur chunk f) = (Inl er, put_bytes ?next bs (put_bytes cur chunk f))"
      then have "write_chunks plan (e # cs) cur written f = (Inl er, put_bytes cur (chunk @ bs) f)"
        by (simp add: e w put_bytes_append)
      moreover have "length (chunk @ bs) \<le> length (concat (map snd (e # cs)))" using len by (simp add: e)
      ultimately show ?thesis by blast
    next
      fix w'
      assume "contiguous a w' (?next + length ?bs)"
        and "write_chunks plan cs ?next (written @ [(cur, ?next)]) (put_bytes cur chunk f) =
          (Inr (w', ?next + length ?bs), put_bytes ?next ?bs (put_bytes cur chunk f))"
      then show ?thesis by (auto simp: e w put_bytes_append add.assoc)
    qed
  qed
qed

section \<open>What a request does to its upload\<close>

text \<open>Between two requests nothing is reserved, and a complete upload has all its bytes.\<close>

definition upload_inv :: "upload_state \<Rightarrow> bool" where
  "upload_inv u \<longleftrightarrow> upload_ok u \<and> up_inflight_ranges u = [] \<and>
     (up_status u = Up_Complete \<longrightarrow> coverage (up_written_ranges u) = {0..<up_size_bytes u})"

text \<open>
  The upload \<open>u\<close> with the file \<open>f\<close> becomes \<open>u'\<close> with \<open>f'\<close> in a request for \<open>bs\<close> at \<open>off\<close>: recorded bytes stay, the
  new ones are those of the request, a complete or aborted upload and its file stay as they are.
\<close>

definition upload_extends :: "nat \<Rightarrow> u8 list \<Rightarrow> upload_state \<Rightarrow> file_bytes \<Rightarrow> upload_state \<Rightarrow> file_bytes \<Rightarrow> bool" where
  "upload_extends off bs u f u' f' \<longleftrightarrow>
     upload_inv u' \<and> up_size_bytes u' = up_size_bytes u \<and>
     coverage (up_written_ranges u) \<subseteq> coverage (up_written_ranges u') \<and>
     (\<forall>i \<in> coverage (up_written_ranges u). f' i = f i) \<and>
     (\<forall>i \<in> coverage (up_written_ranges u') - coverage (up_written_ranges u).
        off \<le> i \<and> i < off + length bs \<and> f' i = bs ! (i - off)) \<and>
     (up_status u \<noteq> Up_Active \<longrightarrow> up_status u' = up_status u \<and> up_written_ranges u' = up_written_ranges u \<and> f' = f)"

text \<open>The bytes of a request are recorded.\<close>

definition request_recorded :: "nat \<Rightarrow> u8 list \<Rightarrow> upload_state \<Rightarrow> file_bytes \<Rightarrow> bool" where
  "request_recorded off bs u f \<longleftrightarrow>
     {off..<off + length bs} \<subseteq> coverage (up_written_ranges u) \<and> get_bytes off (length bs) f = bs"

lemma upload_extends_same:
  "upload_inv u' \<Longrightarrow> up_size_bytes u' = up_size_bytes u \<Longrightarrow> up_written_ranges u' = up_written_ranges u \<Longrightarrow>
    up_status u' = up_status u \<Longrightarrow> upload_extends off bs u f u' f"
  by (simp add: upload_extends_def)

lemma upload_inv_updated [simp]: "upload_inv (u\<lparr>up_updated_at_ms := t\<rparr>) = upload_inv u"
  by (simp add: upload_inv_def upload_ok_def)

text \<open>A reservation is refused, not needed, or of a fresh range.\<close>

lemma reserve_cases:
  assumes "upload_inv u" "reserve_write_range off len u = (r, u')"
  obtains (refused) er where "r = Inl er" "u' = u"
    | (covered) "r = Inr None" "u' = u" "{off..<off + len} \<subseteq> coverage (up_written_ranges u)"
    | (fresh) "r = Inr (Some (off, off + len))" "0 < len" "off + len \<le> up_size_bytes u" "u' = u\<lparr>up_inflight_ranges := [(off, len)]\<rparr>"
        "{off..<off + len} \<inter> coverage (up_written_ranges u) = {}"
proof -
  let ?r = "up_written_ranges u"
  have ok: "ranges_ok (up_size_bytes u) ?r" and none: "up_inflight_ranges u = []"
    using assms(1) by (simp_all add: upload_inv_def upload_ok_def)
  have nov: "\<not> range_overlaps (up_inflight_ranges u) off (off + len)"
    by (simp add: none range_overlaps_def bt_le_def bt_ge_def)
  consider "len = 0" | "0 < len" "off + len > u64_max \<or> off + len > up_size_bytes u"
    | "0 < len" "off + len \<le> u64_max" "off + len \<le> up_size_bytes u" "range_is_fully_covered ?r off (off + len)"
    | "0 < len" "off + len \<le> u64_max" "off + len \<le> up_size_bytes u" "\<not> range_is_fully_covered ?r off (off + len)"
    by linarith
  then show thesis
  proof cases
    case 1
    then show ?thesis using assms(2) refused covered by (auto simp: reserve_write_range_def split: if_splits)
  next
    case 2
    then show ?thesis using assms(2) refused by (auto simp: reserve_write_range_def checked_add64_def split: if_splits)
  next
    case 3
    then have "r = Inr None" "u' = u" using assms(2) by (simp_all add: reserve_write_range_def checked_add64_def)
    then show ?thesis using covered 3(4) range_is_fully_covered_iff [OF ok] by blast
  next
    case 4
    show ?thesis
    proof (cases "range_overlaps ?r off (off + len)")
      case True
      then show ?thesis using 4 assms(2) refused by (auto simp: reserve_write_range_def checked_add64_def)
    next
      case False
      then have "r = Inr (Some (off, off + len))" "u' = u\<lparr>up_inflight_ranges := [(off, len)]\<rparr>"
        using 4 nov none assms(2) by (simp_all add: reserve_write_range_def checked_add64_def)
      moreover have "{off..<off + len} \<inter> coverage ?r = {}" using False range_overlaps_iff [OF ok] by (simp add: inf_commute)
      ultimately show ?thesis using fresh 4 by blast
    qed
  qed
qed

text \<open>Publishing keeps the ranges; it ends with a complete upload or an error.\<close>

lemma publish_upload_cases:
  assumes "publish_upload io u = (a, u')" "up_status u = Up_Active"
  shows "up_written_ranges u' = up_written_ranges u" "up_inflight_ranges u' = up_inflight_ranges u"
    "up_size_bytes u' = up_size_bytes u" "up_status u' \<noteq> Up_Aborted"
  using assms by (auto simp: publish_upload_def Let_def split: option.splits if_splits)

text \<open>Committing a fresh or a covered request of an upload that is being written.\<close>

lemma commit_ranges_effect:
  assumes "upload_ok u" "contiguous off w fin" "fin \<le> up_size_bytes u" "{off..<fin} \<inter> coverage (up_written_ranges u) = {}"
    and "release_inflight_range (wr_reserved_range res) u = (Inr (), u\<lparr>up_inflight_ranges := []\<rparr>)" "wr_written_ranges res = w"
  obtains u2 where "upload_ok u2" "u2 = u\<lparr>up_inflight_ranges := [], up_written_ranges := up_written_ranges u2\<rparr>"
    "coverage (up_written_ranges u2) = coverage (up_written_ranges u) \<union> {off..<fin}"
    "commit_ranges res u = (if coverage (up_written_ranges u2) = {0..<up_size_bytes u2}
       then (Inr None, u2\<lparr>up_modified_at_ms := wr_modified_at_ms res\<rparr>)
       else (Inr (Some (Commit_Progress (progress_with_offset u2 (card (coverage (up_written_ranges u2))) False))), u2))"
proof -
  let ?u1 = "u\<lparr>up_inflight_ranges := []\<rparr>"
  have ok1: "upload_ok ?u1" using assms(1) by (simp add: upload_ok_def)
  obtain u2 where u2: "record_all w ?u1 = (Inr (), u2)" "upload_ok u2"
      "coverage (up_written_ranges u2) = coverage (up_written_ranges u) \<union> {off..<fin}" "u2 = ?u1\<lparr>up_written_ranges := up_written_ranges u2\<rparr>"
    using record_all_contiguous [OF ok1 assms(2)] assms(3,4) by auto
  have commit: "commit_ranges res u = (if coverage (up_written_ranges u2) = {0..<up_size_bytes u2}
       then (Inr None, u2\<lparr>up_modified_at_ms := wr_modified_at_ms res\<rparr>)
       else (Inr (Some (Commit_Progress (progress_with_offset u2 (card (coverage (up_written_ranges u2))) False))), u2))"
    using received_bytes_is_card [OF u2(2)] has_complete_coverage_iff [OF u2(2)]
    by (simp add: commit_ranges_def assms(5,6) u2(1))
  show thesis by (rule that [OF u2(2,4,3) commit])
qed

lemma commit_upload_effect:
  assumes "upload_ok u" "up_status u = Up_Active" "contiguous off w fin" "fin \<le> up_size_bytes u"
    and "{off..<fin} \<inter> coverage (up_written_ranges u) = {}"
    and "release_inflight_range (wr_reserved_range res) u = (Inr (), u\<lparr>up_inflight_ranges := []\<rparr>)"
    and "wr_written_ranges res = w" "commit_upload io res u = (a, u')"
  shows "upload_inv u'" "up_size_bytes u' = up_size_bytes u"
    "coverage (up_written_ranges u') = coverage (up_written_ranges u) \<union> {off..<fin}"
proof -
  obtain u2 where u2: "upload_ok u2" "u2 = u\<lparr>up_inflight_ranges := [], up_written_ranges := up_written_ranges u2\<rparr>"
      "coverage (up_written_ranges u2) = coverage (up_written_ranges u) \<union> {off..<fin}"
    and commit: "commit_ranges res u = (if coverage (up_written_ranges u2) = {0..<up_size_bytes u2}
       then (Inr None, u2\<lparr>up_modified_at_ms := wr_modified_at_ms res\<rparr>)
       else (Inr (Some (Commit_Progress (progress_with_offset u2 (card (coverage (up_written_ranges u2))) False))), u2))"
    using commit_ranges_effect [OF assms(1,3,4,5,6,7)] .
  have same: "up_size_bytes u2 = up_size_bytes u" "up_inflight_ranges u2 = []" "up_status u2 = Up_Active"
    using assms(2) by (subst u2(2); simp)+
  have "upload_inv u' \<and> up_size_bytes u' = up_size_bytes u \<and> up_written_ranges u' = up_written_ranges u2"
  proof (cases "coverage (up_written_ranges u2) = {0..<up_size_bytes u2}")
    case True
    with assms(2,8) commit have "publish_upload io (u2\<lparr>up_modified_at_ms := wr_modified_at_ms res\<rparr>) = (a, u')" by (simp add: commit_upload_def)
    from publish_upload_cases [OF this] same True u2(1) show ?thesis by (simp add: upload_inv_def upload_ok_def)
  next
    case False
    with assms(2,8) commit have "u' = u2" by (auto simp: commit_upload_def)
    with same u2(1) show ?thesis by (simp add: upload_inv_def)
  qed
  with u2(3) show "upload_inv u'" "up_size_bytes u' = up_size_bytes u"
    "coverage (up_written_ranges u') = coverage (up_written_ranges u) \<union> {off..<fin}" by simp_all
qed

text \<open>
  The plan of a request: the snapshot of the ranges and the reservation. The upload keeps a fresh reservation
  until it is released.
\<close>

definition request_plan :: "nat \<Rightarrow> nat \<Rightarrow> upload_state \<Rightarrow> upload_state \<Rightarrow> upload_write_plan \<Rightarrow> bool" where
  "request_plan off len u u1 plan \<longleftrightarrow>
     wp_offset_bytes plan = off \<and> wp_written_ranges plan = up_written_ranges u \<and> wp_size_bytes plan = up_size_bytes u \<and>
     reserve_write_range off len u = (Inr (wp_reserved_range plan), u1)"

lemma release_after_reserve:
  assumes "upload_inv u" "request_plan off len u u1 plan"
  shows "release_inflight_range (wp_reserved_range plan) (u1\<lparr>up_updated_at_ms := t\<rparr>) = (Inr (), u\<lparr>up_updated_at_ms := t\<rparr>)"
proof -
  have none: "up_inflight_ranges u = []" using assms(1) by (simp add: upload_inv_def)
  have res: "reserve_write_range off len u = (Inr (wp_reserved_range plan), u1)"
    using assms(2) by (simp add: request_plan_def)
  show ?thesis
  proof (cases rule: reserve_cases [OF assms(1) res])
    case 3
    have "u\<lparr>up_inflight_ranges := [], up_updated_at_ms := t\<rparr> = u\<lparr>up_updated_at_ms := t\<rparr>" using none by (cases u) simp
    with 3 none show ?thesis by (simp add: release_inflight_range_def checked_sub64_def bt_remove_def)
  qed (auto simp: release_inflight_range_def)
qed

lemma failed_write_extends:
  assumes "upload_inv u" "up_status u = Up_Active" "request_plan off (length (concat (map snd cs))) u u1 plan"
    and "write_upload_files plan cs ident meta f = (Inl er, f')"
  shows "upload_extends off (concat (map snd cs)) u f (u\<lparr>up_updated_at_ms := t\<rparr>) f'"
proof -
  let ?bs = "concat (map snd cs)"
  have ok: "ranges_ok (up_size_bytes u) (wp_written_ranges plan)" and wr: "wp_written_ranges plan = up_written_ranges u"
    "wp_offset_bytes plan = off" using assms(1,3) by (simp_all add: upload_inv_def upload_ok_def request_plan_def)
  have f': "f' = snd (write_chunks plan cs off [] f)"
    using assms(4) wr(2) by (auto simp: write_upload_files_def split: prod.splits sum.splits)
  have "f' i = f i" if i: "i \<in> coverage (up_written_ranges u)" for i
  proof (cases rule: reserve_cases [OF assms(1), of off "length ?bs" "Inr (wp_reserved_range plan)" u1])
    case 1
    then show ?case using assms(3) by (simp add: request_plan_def)
  next
    case 3
    then show ?thesis using write_chunks_covered [OF ok, of off cs "[]" f] by (auto simp: wr f')
  next
    case 4
    then have "i \<notin> {off..<off + length ?bs}" using i by blast
    then show ?thesis using write_chunks_fresh [OF ok, of off cs off "[]" f] 4
      by (auto simp: wr f' put_bytes_outside)
  qed auto
  then show ?thesis using assms(1,2) by (simp add: upload_extends_def)
qed

lemma committed_write_extends:
  assumes "upload_inv u" "up_status u = Up_Active" "request_plan off (length (concat (map snd cs))) u u1 plan"
    and "write_upload_files plan cs ident meta f = (Inr res, f')"
    and "commit_upload io res (u1\<lparr>up_updated_at_ms := t\<rparr>) = (a, u')"
  shows "upload_extends off (concat (map snd cs)) u f u' f'" "request_recorded off (concat (map snd cs)) u' f'"
proof -
  let ?bs = "concat (map snd cs)" and ?r = "up_written_ranges u" and ?u1 = "u1\<lparr>up_updated_at_ms := t\<rparr>"
  have ok: "ranges_ok (up_size_bytes u) (wp_written_ranges plan)" and wr: "wp_written_ranges plan = ?r"
    "wp_offset_bytes plan = off" using assms(1,3) by (simp_all add: upload_inv_def upload_ok_def request_plan_def)
  have none: "up_inflight_ranges u = []" using assms(1) by (simp add: upload_inv_def)
  obtain w fin where w: "write_chunks plan cs off [] f = (Inr (w, fin), f')" and res: "wr_written_ranges res = w"
      "wr_reserved_range res = wp_reserved_range plan"
    using assms(4) wr(2) by (auto simp: write_upload_files_def finish_write_def split: prod.splits sum.splits if_splits option.splits)
  have plan: "reserve_write_range off (length ?bs) u = (Inr (wp_reserved_range plan), u1)"
    using assms(3) by (simp add: request_plan_def)
  have rel: "release_inflight_range (wr_reserved_range res) ?u1 = (Inr (), ?u1\<lparr>up_inflight_ranges := []\<rparr>)"
    unfolding res(2) release_after_reserve [OF assms(1,3)]
    by (rule reserve_cases [OF assms(1) plan]; cases u) (use none in auto)
  have same: "upload_ok ?u1" "up_status ?u1 = Up_Active" "up_written_ranges ?u1 = ?r" "up_size_bytes ?u1 = up_size_bytes u"
    by (rule reserve_cases [OF assms(1) plan]; use assms(1,2) in \<open>simp add: upload_inv_def upload_ok_def\<close>)+
  have dis: "{off..<off + length ?bs} \<inter> coverage ?r = {} \<or> {off..<off + length ?bs} \<subseteq> coverage ?r"
    by (rule reserve_cases [OF assms(1) plan]) auto
  have "upload_extends off ?bs u f u' f' \<and> request_recorded off ?bs u' f'"
  proof (cases rule: reserve_cases [OF assms(1) plan])
    case 2
    from write_chunks_covered [OF ok, of off cs "[]" f] w 2 wr
    have eq: "w = []" "f' = f" "get_bytes off (length ?bs) f = ?bs" by auto
    have "upload_inv u'" "up_size_bytes u' = up_size_bytes u" "coverage (up_written_ranges u') = coverage ?r"
      using commit_upload_effect [OF same(1,2), of 0 "[]" 0 res io a u'] rel assms(5) res(1) eq(1) same by auto
    with 2 eq(2,3) assms(2) show ?thesis by (simp add: upload_extends_def request_recorded_def)
  next
    case 3
    from write_chunks_fresh [OF ok, of off cs off "[]" f] w 3 wr
    have eq: "contiguous off w (off + length ?bs)" "f' = put_bytes off ?bs f" by auto
    have "upload_inv u'" "up_size_bytes u' = up_size_bytes u"
      "coverage (up_written_ranges u') = coverage ?r \<union> {off..<off + length ?bs}"
      using commit_upload_effect [OF same(1,2) eq(1) _ _ _ res(1) assms(5)] rel 3 same by auto
    moreover have "f' i = f i" if "i \<in> coverage ?r" for i
    proof -
      have "i \<notin> {off..<off + length ?bs}" using that 3 by blast
      then show ?thesis unfolding eq(2) by (rule put_bytes_outside)
    qed
    moreover have "f' i = ?bs ! (i - off)" if "i \<in> {off..<off + length ?bs}" for i
      using that put_bytes_inside [of off i ?bs f] by (simp add: eq(2))
    moreover have "get_bytes off (length ?bs) f' = ?bs" by (simp only: eq(2) get_put_bytes)
    ultimately show ?thesis using assms(2) by (auto simp: upload_extends_def request_recorded_def)
  qed auto
  then show "upload_extends off ?bs u f u' f'" "request_recorded off ?bs u' f'" by auto
qed


text \<open>A request touches its own upload only, and extends it.\<close>

lemma begin_other: "k \<noteq> rq_upload_id rq \<Longrightarrow>
    hm_get (snd (begin_upload_write att res dir cl now rq n m)) k = hm_get m k"
  by (simp add: begin_upload_write_def split: option.split sum.split prod.split)

lemma write_request_other:
  assumes "write_session_file_http_upload io now rq chunks s = (a, s')" "k \<noteq> rq_upload_id rq"
  shows "hm_get (us_uploads s') k = hm_get (us_uploads s) k \<and> us_files s' k = us_files s k"
proof -
  have bgn: "begin_upload_write att res dir cl now rq n m = (r, m') \<Longrightarrow> hm_get m' k = hm_get m k" for att res dir cl n m r m'
    using begin_other [OF assms(2)] by (metis snd_conv)
  show ?thesis using assms
    by (auto simp: write_session_file_http_upload_def cancel_upload_write_def commit_upload_write_def Let_def
        dest!: bgn split: sum.splits prod.splits upload_begin.splits option.splits if_splits)
qed

lemma begin_known:
  assumes "hm_get m (rq_upload_id rq) = Some u0" "upload_inv u0" "begin_upload_write att res dir cl now rq n m = (r, m')"
  obtains (answered) u where "\<And>plan. r \<noteq> Inr (Begin_Write plan)" "hm_get m' (rq_upload_id rq) = Some u" "upload_inv u"
      "up_size_bytes u = up_size_bytes u0" "up_written_ranges u = up_written_ranges u0" "up_status u = up_status u0"
      "up_status u0 = Up_Active \<longrightarrow> (\<exists>er. r = Inl er)"
    | (planned) u1 plan where "r = Inr (Begin_Write plan)" "hm_get m' (rq_upload_id rq) = Some u1" "up_status u0 = Up_Active"
      "request_plan (rq_offset_bytes rq) n (u0\<lparr>up_updated_at_ms := now\<rparr>) u1 plan"
      "rq_session_id rq = up_session_id u1" "rq_size_bytes rq = up_size_bytes u1"
proof -
  let ?u = "u0\<lparr>up_updated_at_ms := now\<rparr>"
  have inv: "upload_inv ?u" using assms(2) by simp
  show thesis
  proof (cases "\<exists>er. r = Inl er \<and> m' = m")
    case True
    then show ?thesis using answered [of u0] assms(1,2) by auto
  next
    case False
    then obtain target u' where u': "begin_on_state target cl now rq n u0 = (r, u')" "m' = hm_insert (rq_upload_id rq) u' m"
        and match: "up_session_id u0 = rq_session_id rq" "up_size_bytes u0 = rq_size_bytes rq"
      using assms(1,3) by (auto simp: begin_upload_write_def split: option.splits sum.splits if_splits prod.splits)
    show ?thesis
    proof (cases "up_status u0 = Up_Active \<and> cl = None")
      case False
      then have "u' = ?u" "\<forall>plan. r \<noteq> Inr (Begin_Write plan)" "up_status u0 = Up_Active \<longrightarrow> (\<exists>er. r = Inl er)"
        using u'(1) by (auto simp: begin_on_state_def Let_def split: upload_status.splits option.splits)
      then show ?thesis using answered [of ?u] inv u'(2) by auto
    next
      case True
      obtain x u1 where res: "reserve_write_range (rq_offset_bytes rq) n ?u = (x, u1)" by fastforce
      have go: thesis if x: "x = Inr reserved"
        and same: "up_written_ranges u1 = up_written_ranges u0" "up_session_id u1 = up_session_id u0" "up_size_bytes u1 = up_size_bytes u0"
        for reserved
      proof -
        let ?plan = "\<lparr>wp_target = target, wp_storage_path = (if up_published u0 then up_target u0 else up_temp_path u0),
          wp_size_bytes = rq_size_bytes rq, wp_offset_bytes = rq_offset_bytes rq, wp_file_identity = up_file_identity u0,
          wp_written_ranges = up_written_ranges u1, wp_reserved_range = reserved\<rparr>"
        have r: "r = Inr (Begin_Write ?plan)" "u' = u1" using True u'(1) res x by (auto simp: begin_on_state_def Let_def)
        have plan: "request_plan (rq_offset_bytes rq) n ?u u1 ?plan" using res x same match by (simp add: request_plan_def)
        show thesis by (rule planned [OF r(1) _ _ plan]) (use True match u'(2) same r(2) in simp_all)
      qed
      show ?thesis
      proof (cases rule: reserve_cases [OF inv res])
        case (1 er)
        have "r = Inl er" "u' = u1" using True u'(1) res 1(1) by (simp_all add: begin_on_state_def)
        then show ?thesis using answered [of ?u] inv u'(2) 1(2) by simp
      qed (use go in simp_all)
    qed
  qed
qed

lemma upload_chunks_len_length: "upload_chunks_len chunks = Inr n \<Longrightarrow> n = length (concat chunks)"
proof -
  have "checked_sum acc xs = Some n \<Longrightarrow> n = acc + sum_list xs" for acc xs
    by (induction xs arbitrary: acc) (fastforce simp: checked_add64_def split: if_splits)+
  then show "upload_chunks_len chunks = Inr n \<Longrightarrow> n = length (concat chunks)"
    by (fastforce simp: upload_chunks_len_def length_concat split: option.splits)
qed

lemma write_request_effect:
  assumes "write_session_file_http_upload io now rq chunks s = (a, s')" "hm_get (us_uploads s) (rq_upload_id rq) = Some u"
    and "upload_inv u"
  obtains u' where "hm_get (us_uploads s') (rq_upload_id rq) = Some u'"
    "upload_extends (rq_offset_bytes rq) (concat chunks) u (us_files s (rq_upload_id rq)) u' (us_files s' (rq_upload_id rq))"
    "up_status u = Up_Active \<Longrightarrow> a = Inr p \<Longrightarrow> request_recorded (rq_offset_bytes rq) (concat chunks) u' (us_files s' (rq_upload_id rq))"
proof (cases "upload_chunks_len chunks")
  case (Inl e)
  then show thesis using assms that [of u] by (auto simp: write_session_file_http_upload_def intro!: upload_extends_same)
next
  case (Inr n)
  let ?id = "rq_upload_id rq" and ?off = "rq_offset_bytes rq" and ?f = "us_files s (rq_upload_id rq)"
  let ?cs = "zip (map (wi_chunks io) [0..<length chunks]) chunks"
  let ?ut = "u\<lparr>up_updated_at_ms := now\<rparr>"
  have cs: "map snd ?cs = chunks" by simp
  have n: "n = length (concat (map snd ?cs))" using upload_chunks_len_length [OF Inr] by simp
  obtain r m where b: "begin_upload_write (wi_attached io) (wi_resolved io) (wi_is_dir io) (wi_clone io) now rq n (us_uploads s) = (r, m)"
    by fastforce
  show thesis
  proof (cases rule: begin_known [OF assms(2,3) b])
    case (1 v)
    have "us_uploads s' = m \<and> us_files s' = us_files s \<and> (\<forall>er. r = Inl er \<longrightarrow> a = Inl er)"
      using assms(1) Inr b 1(1) by (auto simp: write_session_file_http_upload_def split: sum.splits upload_begin.splits)
    then show ?thesis using 1 that [of v] by (auto intro!: upload_extends_same)
  next
    case (2 u1 plan)
    have inv: "upload_inv ?ut" "up_status ?ut = Up_Active" using assms(3) 2(3) by simp_all
    note len = Inr
    have plan: "request_plan ?off (length (concat (map snd ?cs))) ?ut u1 plan" using 2(4) n by simp
    have u1: "u1\<lparr>up_updated_at_ms := now\<rparr> = u1"
      by (rule reserve_cases [OF inv(1), of ?off n "Inr (wp_reserved_range plan)" u1]) (use 2(4) in \<open>auto simp: request_plan_def\<close>)
    obtain w f' where w: "write_upload_files plan ?cs (wi_identity io) (wi_metadata io) ?f = (w, f')" by fastforce
    show ?thesis
    proof (cases w)
      case (Inl er)
      have s': "s' = \<lparr>us_uploads = cancel_upload_write now rq (wp_reserved_range plan) m, us_files = (us_files s)(?id := f')\<rparr>" "a = Inl er"
        using assms(1) len b 2(1) w Inl by (auto simp: write_session_file_http_upload_def)
      have "hm_get (us_uploads s') ?id = Some (?ut\<lparr>up_updated_at_ms := now\<rparr>)"
        using release_after_reserve [OF inv(1) plan, of now] 2(2) by (simp add: s'(1) cancel_upload_write_def u1)
      with failed_write_extends [OF inv plan w [unfolded Inl], of now] that [of "?ut\<lparr>up_updated_at_ms := now\<rparr>"]
      show ?thesis by (simp add: s' cs upload_extends_def)
    next
      case (Inr res)
      obtain x u' where c: "commit_upload (wi_publish io) res (u1\<lparr>up_updated_at_ms := now\<rparr>) = (x, u')" by fastforce
      have "commit_upload_write (wi_publish io) now rq res m = (x, hm_insert ?id u' m)"
        using c 2(2,5,6) by (simp add: commit_upload_write_def)
      then have s': "s' = \<lparr>us_uploads = hm_insert ?id u' m, us_files = (us_files s)(?id := f')\<rparr>"
        using assms(1) len b 2(1) w Inr by (simp add: write_session_file_http_upload_def)
      from committed_write_extends [OF inv plan w [unfolded Inr] c] that [of u']
      show ?thesis by (simp add: s' cs upload_extends_def)
    qed
  qed
qed

declare map_of_eq_Some_iff [simp del] Some_eq_map_of_iff [simp del]

section \<open>Sequences of requests\<close>

text \<open>
  The log of an upload: the requests that found it being written, with their offset, bytes and answer. The
  random id of a new upload is one that no upload has.
\<close>

type_synonym request_log = "(nat \<times> u8 list \<times> (protocol_error + upload_progress)) list"

definition log_request ::
  "upload_request \<Rightarrow> u8 list \<Rightarrow> protocol_error + upload_progress \<Rightarrow> upload_store \<Rightarrow> (string \<Rightarrow> request_log) \<Rightarrow> string \<Rightarrow> request_log" where
  "log_request rq bs a s L =
     (case hm_get (us_uploads s) (rq_upload_id rq) of
        None \<Rightarrow> L
      | Some u \<Rightarrow>
          if up_status u = Up_Active then L(rq_upload_id rq := (rq_offset_bytes rq, bs, a) # L (rq_upload_id rq)) else L)"

inductive upload_step :: "upload_store \<times> (string \<Rightarrow> request_log) \<Rightarrow> upload_store \<times> (string \<Rightarrow> request_log) \<Rightarrow> bool" where
  step_prepare: "hm_get (us_uploads s) (pp_upload_id io) = None \<Longrightarrow> n \<le> u64_max \<Longrightarrow>
    prepare_upload cleanup links io now sid n (us_uploads s) = (a, m) \<Longrightarrow>
    upload_step (s, L) (\<lparr>us_uploads = m, us_files = (us_files s)(pp_upload_id io := (\<lambda>_. 0))\<rparr>, L(pp_upload_id io := []))"
| step_write: "write_session_file_http_upload io now rq chunks s = (a, s') \<Longrightarrow>
    upload_step (s, L) (s', log_request rq (concat chunks) a s L)"
| step_abort: "abort_upload_request attached resolved cleanup links removed now rq (us_uploads s) = (x, m) \<Longrightarrow>
    upload_step (s, L) (s\<lparr>us_uploads := m\<rparr>, L)"
| step_prune: "upload_step (s, L) (s\<lparr>us_uploads := prune_uploads now cleanups linked (us_uploads s)\<rparr>, L)"

definition upload_start :: "upload_store \<times> (string \<Rightarrow> request_log)" where
  "upload_start = (\<lparr>us_uploads = [], us_files = (\<lambda>_ _. 0)\<rparr>, \<lambda>_. [])"

definition upload_reachable :: "upload_store \<Rightarrow> (string \<Rightarrow> request_log) \<Rightarrow> bool" where
  "upload_reachable s L \<longleftrightarrow> upload_step\<^sup>*\<^sup>* upload_start (s, L)"

text \<open>What the log says about the file of an upload.\<close>

definition log_exact :: "upload_state \<Rightarrow> file_bytes \<Rightarrow> request_log \<Rightarrow> bool" where
  "log_exact u f l \<longleftrightarrow>
     (\<forall>(off, bs, a) \<in> set l. \<forall>p. a = Inr p \<longrightarrow> request_recorded off bs u f) \<and>
     (\<forall>i \<in> coverage (up_written_ranges u). \<exists>(off, bs, a) \<in> set l. off \<le> i \<and> i < off + length bs \<and> f i = bs ! (i - off))"

definition store_inv :: "upload_store \<Rightarrow> (string \<Rightarrow> request_log) \<Rightarrow> bool" where
  "store_inv s L \<longleftrightarrow> hm_wf (us_uploads s) \<and>
     (\<forall>k u. hm_get (us_uploads s) k = Some u \<longrightarrow> upload_inv u \<and> log_exact u (us_files s k) (L k))"

lemma log_exact_same: "up_written_ranges u' = up_written_ranges u \<Longrightarrow> log_exact u' f l = log_exact u f l"
  by (simp add: log_exact_def request_recorded_def)

lemma request_recorded_extends:
  assumes "request_recorded off bs u f" "upload_extends off' bs' u f u' f'"
  shows "request_recorded off bs u' f'"
proof -
  have "get_bytes off (length bs) f' = get_bytes off (length bs) f"
    by (rule get_bytes_eq) (use assms in \<open>auto simp: request_recorded_def upload_extends_def\<close>)
  with assms show ?thesis by (auto simp: request_recorded_def upload_extends_def)
qed

lemma log_exact_extends:
  assumes "log_exact u f l" "upload_extends off bs u f u' f'"
    and "\<And>p. a = Inr p \<Longrightarrow> request_recorded off bs u' f'"
  shows "log_exact u' f' ((off, bs, a) # l)"
proof -
  have "\<exists>(off', bs', a) \<in> set ((off, bs, a) # l). off' \<le> i \<and> i < off' + length bs' \<and> f' i = bs' ! (i - off')"
    if i: "i \<in> coverage (up_written_ranges u')" for i
  proof (cases "i \<in> coverage (up_written_ranges u)")
    case True
    with assms(1,2) show ?thesis by (fastforce simp: log_exact_def upload_extends_def)
  next
    case False
    with assms(2) i show ?thesis by (auto simp: upload_extends_def)
  qed
  moreover have "request_recorded o' b' u' f'" if "(o', b', Inr p) \<in> set ((off, bs, a) # l)" for o' b' p
    using that assms(1,3) request_recorded_extends [OF _ assms(2)] by (auto simp: log_exact_def)
  ultimately show ?thesis unfolding log_exact_def by blast
qed


lemma prune_uploads_Nil: "prune_uploads now c l [] = []"
  by (simp add: prune_uploads_def List.map_filter_simps)

lemma prune_uploads_Cons: "prune_uploads now c l ((k, u) # m) =
    (case prune_upload now (c k) (l k) u of None \<Rightarrow> prune_uploads now c l m | Some u' \<Rightarrow> (k, u') # prune_uploads now c l m)"
  by (simp add: prune_uploads_def List.map_filter_simps split: option.split)

lemma prune_uploads_fst: "fst ` set (prune_uploads now c l m) \<subseteq> fst ` set m"
proof (induction m)
  case (Cons e m)
  then show ?case by (cases e) (auto simp: prune_uploads_Cons split: option.split)
qed (simp add: prune_uploads_Nil)

lemma hm_wf_prune: "hm_wf m \<Longrightarrow> hm_wf (prune_uploads now c l m)"
proof (induction m)
  case (Cons e m)
  obtain k u where e: "e = (k, u)" by force
  have "k \<notin> fst ` set (prune_uploads now c l m)" using Cons.prems prune_uploads_fst [of now c l m] by (auto simp: e)
  with Cons show ?case by (simp add: e prune_uploads_Cons split: option.split)
qed (simp add: prune_uploads_Nil)

lemma hm_get_prune:
  "hm_wf m \<Longrightarrow> hm_get (prune_uploads now c l m) k =
    (case hm_get m k of None \<Rightarrow> None | Some u \<Rightarrow> prune_upload now (c k) (l k) u)"
proof (induction m)
  case (Cons e m)
  obtain k' u where e: "e = (k', u)" by force
  have "hm_get m k' = None" using Cons.prems by (simp add: e map_of_eq_None_iff)
  with Cons show ?case by (auto simp: e prune_uploads_Cons split: option.split)
qed (simp add: prune_uploads_Nil)

lemma prune_upload_keeps:
  "prune_upload now c l u = Some u' \<Longrightarrow> \<exists>t. u' = u\<lparr>up_updated_at_ms := t\<rparr>"
proof -
  assume "prune_upload now c l u = Some u'"
  then have "u' = u \<or> u' = u\<lparr>up_updated_at_ms := now\<rparr>"
    by (auto simp: prune_upload_def split: if_splits sum.splits)
  moreover have "u = u\<lparr>up_updated_at_ms := up_updated_at_ms u\<rparr>" by simp
  ultimately show "\<exists>t. u' = u\<lparr>up_updated_at_ms := t\<rparr>" by metis
qed

lemma store_inv_prune:
  assumes "store_inv s L"
  shows "store_inv (s\<lparr>us_uploads := prune_uploads now c l (us_uploads s)\<rparr>) L"
proof -
  have wf: "hm_wf (us_uploads s)" using assms by (simp add: store_inv_def)
  have "upload_inv u' \<and> log_exact u' (us_files s k) (L k)"
    if u': "hm_get (prune_uploads now c l (us_uploads s)) k = Some u'" for k u'
  proof -
    from u' obtain u where u: "hm_get (us_uploads s) k = Some u" "prune_upload now (c k) (l k) u = Some u'"
      by (auto simp: hm_get_prune [OF wf] split: option.splits)
    from prune_upload_keeps [OF u(2)] obtain t where "u' = u\<lparr>up_updated_at_ms := t\<rparr>" by blast
    with u(1) assms show ?thesis by (simp add: store_inv_def log_exact_same [of "u\<lparr>up_updated_at_ms := t\<rparr>" u])
  qed
  with wf show ?thesis by (simp add: store_inv_def hm_wf_prune)
qed

lemma abort_upload_keeps:
  assumes "upload_inv u" "abort_upload c l r now u = (x, u')"
  shows "upload_inv u'" "up_written_ranges u' = up_written_ranges u" "up_status u = Up_Complete \<Longrightarrow> u' = u"
  using assms by (auto simp: abort_upload_def Let_def upload_inv_def upload_ok_def split: if_splits sum.splits)

lemma abort_request_known:
  assumes "abort_upload_request att res c l r now rq m = (x, m')" "hm_get m' k = Some u'"
  obtains u where "hm_get m k = Some u" "u' = u \<or> (\<exists>y. abort_upload c l r now u = (y, u'))"
  using assms
  by (auto simp: abort_upload_request_def Let_def split: option.splits sum.splits if_splits prod.splits)

lemma abort_request_wf: "abort_upload_request att res c l r now rq m = (x, m') \<Longrightarrow> hm_wf m \<Longrightarrow> hm_wf m'"
  by (auto simp: abort_upload_request_def Let_def split: option.splits sum.splits if_splits prod.splits)

lemma prepare_known:
  assumes "prepare_fresh_upload io now sid n m = (a, m')"
  shows "m' = m \<or> (\<exists>u. m' = hm_insert (pp_upload_id io) u m \<and> up_size_bytes u = n \<and> up_written_ranges u = [] \<and>
    up_inflight_ranges u = [] \<and> up_status u = Up_Active)"
  using assms
  by (auto simp: prepare_fresh_upload_def Let_def upload_new_def split: option.splits sum.splits if_splits cleanup_outcome.splits)

lemma write_request_wf:
  "write_session_file_http_upload io now rq chunks s = (a, s') \<Longrightarrow> hm_wf (us_uploads s) \<Longrightarrow> hm_wf (us_uploads s')"
proof -
  have "hm_wf m \<Longrightarrow> hm_wf (snd (begin_upload_write att res dir cl now rq n m))" for att res dir cl n m
    by (simp add: begin_upload_write_def split: option.split sum.split prod.split)
  then have bgn: "begin_upload_write att res dir cl now rq n m = (r, m') \<Longrightarrow> hm_wf m \<Longrightarrow> hm_wf m'" for att res dir cl n m r m'
    by (metis snd_conv)
  show "write_session_file_http_upload io now rq chunks s = (a, s') \<Longrightarrow> hm_wf (us_uploads s) \<Longrightarrow> hm_wf (us_uploads s')"
    by (auto simp: write_session_file_http_upload_def cancel_upload_write_def commit_upload_write_def Let_def
        dest!: bgn split: sum.splits prod.splits upload_begin.splits option.splits if_splits)
qed

lemma store_inv_prepare:
  assumes "store_inv s L" "hm_get (us_uploads s) (pp_upload_id io) = None" "n \<le> u64_max"
    and "prepare_upload cleanup links io now sid n (us_uploads s) = (a, m)"
  shows "store_inv (\<lparr>us_uploads = m, us_files = (us_files s)(pp_upload_id io := (\<lambda>_. 0))\<rparr>) (L(pp_upload_id io := []))"
proof -
  let ?m = "prune_uploads now cleanup links (us_uploads s)"
  have pr: "store_inv (s\<lparr>us_uploads := ?m\<rparr>) L" by (rule store_inv_prune [OF assms(1)])
  have wf: "hm_wf (us_uploads s)" using assms(1) by (simp add: store_inv_def)
  have absent: "hm_get ?m (pp_upload_id io) = None" using assms(2) by (simp add: hm_get_prune [OF wf])
  from prepare_known [OF assms(4) [unfolded prepare_upload_def]] show ?thesis
  proof (elim disjE exE conjE)
    assume "m = ?m"
    with pr absent show ?thesis by (auto simp: store_inv_def)
  next
    fix u
    assume u: "m = hm_insert (pp_upload_id io) u ?m" "up_size_bytes u = n" "up_written_ranges u = []"
      "up_inflight_ranges u = []" "up_status u = Up_Active"
    then have "upload_inv u \<and> log_exact u (\<lambda>_. 0) []" using assms(3) by (simp add: upload_inv_def upload_ok_def log_exact_def)
    with pr u(1) show ?thesis by (auto simp: store_inv_def)
  qed
qed

lemma store_inv_abort:
  assumes "store_inv s L" "abort_upload_request att res c l r now rq (us_uploads s) = (x, m)"
  shows "store_inv (s\<lparr>us_uploads := m\<rparr>) L"
proof -
  have "upload_inv u' \<and> log_exact u' (us_files s k) (L k)" if u': "hm_get m k = Some u'" for k u'
  proof -
    obtain u where u: "hm_get (us_uploads s) k = Some u" "u' = u \<or> (\<exists>y. abort_upload c l r now u = (y, u'))"
      using abort_request_known [OF assms(2) u'] .
    then have inv: "upload_inv u" "log_exact u (us_files s k) (L k)" using assms(1) by (auto simp: store_inv_def)
    with u(2) abort_upload_keeps(1,2) [OF inv(1)] log_exact_same [of u' u] show ?thesis by blast
  qed
  with assms show ?thesis using abort_request_wf [OF assms(2)] by (simp add: store_inv_def)
qed

lemma store_inv_write:
  assumes "store_inv s L" "write_session_file_http_upload io now rq chunks s = (a, s')"
  shows "store_inv s' (log_request rq (concat chunks) a s L)"
proof -
  let ?id = "rq_upload_id rq"
  have known: "upload_inv u' \<and> log_exact u' (us_files s' ?id) (log_request rq (concat chunks) a s L ?id)"
    if u: "hm_get (us_uploads s) ?id = Some u" and u': "hm_get (us_uploads s') ?id = Some u'" for u u'
  proof -
    from assms(1) u have inv: "upload_inv u" "log_exact u (us_files s ?id) (L ?id)" by (auto simp: store_inv_def)
    from write_request_effect [OF assms(2) u inv(1)] u'
    have ext: "upload_extends (rq_offset_bytes rq) (concat chunks) u (us_files s ?id) u' (us_files s' ?id)"
      "\<And>p. up_status u = Up_Active \<Longrightarrow> a = Inr p \<Longrightarrow> request_recorded (rq_offset_bytes rq) (concat chunks) u' (us_files s' ?id)"
      by (metis option.inject)+
    show ?thesis
    proof (cases "up_status u = Up_Active")
      case True
      with log_exact_extends [OF inv(2) ext(1) ext(2)] ext(1) u show ?thesis by (simp add: log_request_def upload_extends_def)
    next
      case False
      with ext(1) have "up_written_ranges u' = up_written_ranges u" "us_files s' ?id = us_files s ?id" "upload_inv u'"
        by (simp_all add: upload_extends_def)
      with inv(2) u False log_exact_same [of u' u] show ?thesis by (simp add: log_request_def)
    qed
  qed
  have absent: "hm_get (us_uploads s') ?id = None" if none: "hm_get (us_uploads s) ?id = None"
  proof -
    have bgn: "\<exists>er. begin_upload_write att res dir cl now rq n (us_uploads s) = (Inl er, us_uploads s)" for att res dir cl n
      using none by (simp add: begin_upload_write_def split: option.split sum.split)
    have "us_uploads s' = us_uploads s"
    proof (cases "upload_chunks_len chunks")
      case (Inr n)
      obtain er where "begin_upload_write (wi_attached io) (wi_resolved io) (wi_is_dir io) (wi_clone io) now rq n (us_uploads s)
          = (Inl er, us_uploads s)" using bgn by blast
      with Inr assms(2) show ?thesis by (auto simp: write_session_file_http_upload_def)
    qed (use assms(2) in \<open>simp add: write_session_file_http_upload_def\<close>)
    with none show ?thesis by simp
  qed
  have other: "upload_inv u' \<and> log_exact u' (us_files s' k) (log_request rq (concat chunks) a s L k)"
    if "hm_get (us_uploads s') k = Some u'" "k \<noteq> ?id" for k u'
    using that assms(1) write_request_other [OF assms(2) that(2)]
    by (auto simp: store_inv_def log_request_def split: option.split)
  have "upload_inv u' \<and> log_exact u' (us_files s' k) (log_request rq (concat chunks) a s L k)"
    if "hm_get (us_uploads s') k = Some u'" for k u'
    using that other [OF that] known absent by (cases "k = ?id"; cases "hm_get (us_uploads s) ?id") auto
  with assms(1) write_request_wf [OF assms(2)] show ?thesis by (simp add: store_inv_def)
qed

lemma upload_step_inv: "upload_step x y \<Longrightarrow> store_inv (fst x) (snd x) \<Longrightarrow> store_inv (fst y) (snd y)"
  by (induction rule: upload_step.induct) (simp_all add: store_inv_prepare store_inv_write store_inv_abort store_inv_prune)

lemma upload_reachable_inv: "upload_reachable s L \<Longrightarrow> store_inv s L"
proof -
  have "upload_step\<^sup>*\<^sup>* upload_start y \<Longrightarrow> store_inv (fst y) (snd y)" for y
    by (induction rule: rtranclp_induct) (auto simp: upload_start_def store_inv_def dest: upload_step_inv)
  then show "upload_reachable s L \<Longrightarrow> store_inv s L" by (fastforce simp: upload_reachable_def)
qed

lemma complete_upload_stays:
  assumes "upload_step (s, L) (s', L')" "store_inv s L" "hm_get (us_uploads s) k = Some u" "up_status u = Up_Complete"
  shows "us_files s' k = us_files s k"
  using assms(1)
proof cases
  case (step_write io now rq chunks a)
  show ?thesis
  proof (cases "k = rq_upload_id rq")
    case True
    from assms(2,3) have "upload_inv u" by (simp add: store_inv_def)
    from write_request_effect [OF step_write(2) assms(3) [unfolded True] this]
    show ?thesis using assms(4) True by (auto simp: upload_extends_def)
  next
    case False
    then show ?thesis using write_request_other [OF step_write(2)] by simp
  qed
next
  case step_prepare
  then show ?thesis using assms(3) by auto
qed auto

lemma upload_reachable_step: "upload_reachable s L \<Longrightarrow> upload_step (s, L) (s', L') \<Longrightarrow> upload_reachable s' L'"
  by (simp add: upload_reachable_def)

lemma upload_reachable_first: "upload_step upload_start (s, L) \<Longrightarrow> upload_reachable s L"
  by (simp add: upload_reachable_def)

end
