(* ===== verification/Upload_Complete.thy ===== *)
theory Upload_Complete
  imports Upload_Exact
begin

text \<open>
  Chunked uploads complete. If the calls of the operating system succeed, the pieces of a file can be sent
  in any order and more than once: every request is answered with success and the upload is complete,
  with the content of the file, once all pieces were sent.
\<close>

declare map_of_eq_Some_iff [simp del] Some_eq_map_of_iff [simp del]

section \<open>One request when nothing fails\<close>

definition io_succeeds :: "path \<Rightarrow> u64 \<Rightarrow> write_io \<Rightarrow> bool" where
  "io_succeeds target size_bytes io \<longleftrightarrow>
     wi_attached io = None \<and> wi_resolved io = Inr target \<and> \<not> wi_is_dir io \<and> wi_clone io = None \<and>
     ci_read_error (wi_chunks io 0) = None \<and> ci_write_error (wi_chunks io 0) = None \<and> wi_identity io = None \<and>
     (\<exists>t. wi_metadata io = Inr (size_bytes, t)) \<and>
     pi_sync (wi_publish io) = None \<and> pi_identity (wi_publish io) = None \<and> pi_rename (wi_publish io) = None \<and>
     pi_sync_parent (wi_publish io) = None \<and> pi_state_removed (wi_publish io)"

definition request_matches :: "upload_state \<Rightarrow> upload_request \<Rightarrow> bool" where
  "request_matches u rq \<longleftrightarrow>
     rq_session_id rq = up_session_id u \<and> rq_upload_id rq = up_upload_id u \<and> rq_size_bytes rq = up_size_bytes u \<and>
     upload_id_is_safe (up_upload_id u)"

text \<open>What a request compares of an upload does not change.\<close>

definition same_upload :: "upload_state \<Rightarrow> upload_state \<Rightarrow> bool" where
  "same_upload u u' \<longleftrightarrow> up_session_id u' = up_session_id u \<and> up_target u' = up_target u \<and> up_upload_id u' = up_upload_id u \<and>
     up_size_bytes u' = up_size_bytes u"

lemma publish_succeeds:
  assumes "io_succeeds target n io" "up_status u = Up_Active"
  shows "\<exists>u'. publish_upload (wi_publish io) u = (Inr (Commit_Complete (upload_progress_of u True)), u') \<and>
    up_status u' = Up_Complete \<and> same_upload u u'"
  using assms by (auto simp: publish_upload_def io_succeeds_def same_upload_def Let_def)

lemma commit_succeeds:
  assumes "upload_ok u" "up_status u = Up_Active" "contiguous off w fin" "fin \<le> up_size_bytes u"
    and "{off..<fin} \<inter> coverage (up_written_ranges u) = {}"
    and "release_inflight_range (wr_reserved_range res) u = (Inr (), u\<lparr>up_inflight_ranges := []\<rparr>)"
    and "wr_written_ranges res = w" "io_succeeds target n io"
  shows "\<exists>p u'. commit_upload (wi_publish io) res u = (Inr p, u') \<and> same_upload u u' \<and>
    up_status u' = (if coverage (up_written_ranges u) \<union> {off..<fin} = {0..<up_size_bytes u} then Up_Complete else Up_Active)"
proof -
  obtain u2 where u2: "u2 = u\<lparr>up_inflight_ranges := [], up_written_ranges := up_written_ranges u2\<rparr>"
      "coverage (up_written_ranges u2) = coverage (up_written_ranges u) \<union> {off..<fin}"
    and commit: "commit_ranges res u = (if coverage (up_written_ranges u2) = {0..<up_size_bytes u2}
       then (Inr None, u2\<lparr>up_modified_at_ms := wr_modified_at_ms res\<rparr>)
       else (Inr (Some (Commit_Progress (progress_with_offset u2 (card (coverage (up_written_ranges u2))) False))), u2))"
    using commit_ranges_effect [OF assms(1,3,4,5,6,7)] by metis
  have same: "same_upload u u2" "up_status u2 = Up_Active"
    using assms(2) by (subst u2(1); simp add: same_upload_def)+
  show ?thesis
  proof (cases "coverage (up_written_ranges u2) = {0..<up_size_bytes u2}")
    case True
    let ?u3 = "u2\<lparr>up_modified_at_ms := wr_modified_at_ms res\<rparr>"
    from publish_succeeds [OF assms(8), of ?u3] same(2)
    obtain p u' where "publish_upload (wi_publish io) ?u3 = (Inr p, u')" "up_status u' = Up_Complete" "same_upload ?u3 u'" by auto
    with True commit assms(2) same(1) u2(2) show ?thesis by (simp add: commit_upload_def same_upload_def)
  next
    case False
    with commit assms(2) same u2(2) show ?thesis by (simp add: commit_upload_def same_upload_def)
  qed
qed

text \<open>The chunk of a request is written, or found to be there.\<close>

lemma single_chunk_succeeds:
  assumes "upload_inv u" "request_plan off (length bs) u u1 plan" "io_succeeds (up_target u) (up_size_bytes u) io" "bs \<noteq> []" "off + length bs \<le> up_size_bytes u"
    and "{off..<off + length bs} \<inter> coverage (up_written_ranges u) = {} \<or> request_recorded off bs u f"
  shows "\<exists>res f'. write_upload_files plan [(wi_chunks io 0, bs)] (wi_identity io) (wi_metadata io) f = (Inr res, f') \<and>
    wr_reserved_range res = wp_reserved_range plan \<and>
    wr_written_ranges res = (if {off..<off + length bs} \<inter> coverage (up_written_ranges u) = {} then [(off, off + length bs)] else [])"
proof -
  have plan: "wp_offset_bytes plan = off" "wp_size_bytes plan = up_size_bytes u" "wp_written_ranges plan = up_written_ranges u"
    using assms(2) by (simp_all add: request_plan_def)
  have ok: "ranges_ok (up_size_bytes u) (up_written_ranges u)" using assms(1) by (simp add: upload_inv_def upload_ok_def)
  have add: "checked_add64 off (length bs) = Some (off + length bs)" using assms(5) ok by (simp add: checked_add64_def ranges_ok_def)
  have ne: "{off..<off + length bs} \<noteq> {}" using assms(4) by simp
  show ?thesis
  proof (cases "{off..<off + length bs} \<inter> coverage (up_written_ranges u) = {}")
    case True
    then have "\<not> {off..<off + length bs} \<subseteq> coverage (up_written_ranges u)" using ne by blast
    moreover have "\<not> range_overlaps (up_written_ranges u) off (off + length bs)"
      using True range_overlaps_iff [OF ok] by (simp add: inf_commute)
    ultimately show ?thesis using True assms(3-5) add plan range_is_fully_covered_iff [OF ok]
      by (auto simp: write_upload_files_def write_chunk_def finish_write_def io_succeeds_def)
  next
    case False
    with assms(6) have "{off..<off + length bs} \<subseteq> coverage (up_written_ranges u)" "get_bytes off (length bs) f = bs"
      by (auto simp: request_recorded_def)
    with False assms(3-5) add plan range_is_fully_covered_iff [OF ok] show ?thesis
      by (auto simp: write_upload_files_def write_chunk_def finish_write_def io_succeeds_def)
  qed
qed

lemma reserve_succeeds:
  assumes "upload_inv u" "0 < len" "off + len \<le> up_size_bytes u"
    and "{off..<off + len} \<inter> coverage (up_written_ranges u) = {} \<or> {off..<off + len} \<subseteq> coverage (up_written_ranges u)"
  shows "\<exists>reserved u1. reserve_write_range off len u = (Inr reserved, u1)"
proof -
  have ok: "ranges_ok (up_size_bytes u) (up_written_ranges u)" and none: "up_inflight_ranges u = []"
    using assms(1) by (simp_all add: upload_inv_def upload_ok_def)
  have nov: "\<not> range_overlaps (up_inflight_ranges u) off (off + len)"
    by (simp add: none range_overlaps_def bt_le_def bt_ge_def)
  have add: "checked_add64 off len = Some (off + len)" using assms(3) ok by (simp add: checked_add64_def ranges_ok_def)
  from assms(4) have "range_is_fully_covered (up_written_ranges u) off (off + len) \<or> \<not> range_overlaps (up_written_ranges u) off (off + len)"
    using range_overlaps_iff [OF ok, of off "off + len"] range_is_fully_covered_iff [OF ok] by (auto simp: inf_commute)
  with nov add assms(2,3) show ?thesis by (auto simp: reserve_write_range_def)
qed

text \<open>A request for bytes that are new, or that are there already, succeeds.\<close>

lemma write_succeeds:
  assumes get: "hm_get (us_uploads s) (rq_upload_id rq) = Some u" and inv: "upload_inv u" and act: "up_status u = Up_Active"
    and io: "io_succeeds (up_target u) (up_size_bytes u) io" and rq: "request_matches u rq" "rq_offset_bytes rq = off"
    and bs: "bs \<noteq> []" "off + length bs \<le> up_size_bytes u"
    and new: "{off..<off + length bs} \<inter> coverage (up_written_ranges u) = {} \<or> request_recorded off bs u (us_files s (rq_upload_id rq))"
  obtains p s' u' where "write_session_file_http_upload io now rq [bs] s = (Inr p, s')"
    "hm_get (us_uploads s') (rq_upload_id rq) = Some u'" "same_upload u u'"
    "up_status u' = (if coverage (up_written_ranges u) \<union> {off..<off + length bs} = {0..<up_size_bytes u} then Up_Complete else Up_Active)"
proof -
  let ?ut = "u\<lparr>up_updated_at_ms := now\<rparr>" and ?r = "up_written_ranges u" and ?f = "us_files s (rq_upload_id rq)"
  have inv': "upload_inv ?ut" using inv by simp
  have ok: "upload_ok u" "up_inflight_ranges u = []" using inv by (simp_all add: upload_inv_def)
  have len: "upload_chunks_len [bs] = Inr (length bs)"
    using bs(2) ok(1) by (auto simp: upload_chunks_len_def checked_add64_def upload_ok_def ranges_ok_def)
  have "\<exists>reserved u1. reserve_write_range off (length bs) ?ut = (Inr reserved, u1)"
    by (rule reserve_succeeds [OF inv']) (use bs new in \<open>auto simp: request_recorded_def\<close>)
  then obtain reserved u1 where res: "reserve_write_range off (length bs) ?ut = (Inr reserved, u1)" by blast
  define plan where "plan = \<lparr>wp_target = up_target u, wp_storage_path = (if up_published u then up_target u else up_temp_path u),
    wp_size_bytes = up_size_bytes u, wp_offset_bytes = off, wp_file_identity = up_file_identity u,
    wp_written_ranges = up_written_ranges u1, wp_reserved_range = reserved\<rparr>"
  have same1: "u1 = ?ut \<or> u1 = ?ut\<lparr>up_inflight_ranges := [(off, length bs)]\<rparr>"
    by (rule reserve_cases [OF inv' res]) auto
  then have plan: "request_plan off (length bs) ?ut u1 plan" using res by (auto simp: request_plan_def plan_def)
  have bgn: "begin_upload_write (wi_attached io) (wi_resolved io) (wi_is_dir io) (wi_clone io) now rq (length bs) (us_uploads s)
      = (Inr (Begin_Write plan), hm_insert (rq_upload_id rq) u1 (us_uploads s))"
    using io rq get act res by (auto simp: begin_upload_write_def begin_on_state_def io_succeeds_def request_matches_def plan_def Let_def)
  have io': "io_succeeds (up_target ?ut) (up_size_bytes ?ut) io" using io by simp
  obtain w f' where w: "write_upload_files plan [(wi_chunks io 0, bs)] (wi_identity io) (wi_metadata io) ?f = (Inr w, f')"
      "wr_reserved_range w = wp_reserved_range plan"
      "wr_written_ranges w = (if {off..<off + length bs} \<inter> coverage ?r = {} then [(off, off + length bs)] else [])"
    using single_chunk_succeeds [OF inv' plan io' bs(1), of ?f] bs(2) new by (auto simp: request_recorded_def)
  let ?fin = "if {off..<off + length bs} \<inter> coverage ?r = {} then off + length bs else off"
  let ?u1 = "u1\<lparr>up_updated_at_ms := now\<rparr>"
  have u1: "upload_ok ?u1" "up_status ?u1 = Up_Active" "up_written_ranges ?u1 = ?r" "up_size_bytes ?u1 = up_size_bytes u"
      "same_upload u ?u1" "?u1\<lparr>up_inflight_ranges := []\<rparr> = ?ut" "up_session_id u1 = up_session_id u"
    using same1 ok act by (auto simp: upload_ok_def same_upload_def)
  have rel: "release_inflight_range (wr_reserved_range w) ?u1 = (Inr (), ?u1\<lparr>up_inflight_ranges := []\<rparr>)"
    unfolding w(2) u1(6) release_after_reserve [OF inv' plan] by simp
  have fin: "contiguous off (wr_written_ranges w) ?fin" "?fin \<le> up_size_bytes ?u1" "{off..<?fin} \<inter> coverage (up_written_ranges ?u1) = {}"
    using w(3) bs u1(3,4) by auto
  have cov: "coverage ?r \<union> {off..<?fin} = coverage ?r \<union> {off..<off + length bs}" using new by (auto simp: request_recorded_def)
  obtain p u' where c: "commit_upload (wi_publish io) w ?u1 = (Inr p, u')" "same_upload ?u1 u'"
      "up_status u' = (if coverage ?r \<union> {off..<off + length bs} = {0..<up_size_bytes u} then Up_Complete else Up_Active)"
    using commit_succeeds [OF u1(1,2) fin rel refl io] unfolding u1(3,4) cov by blast
  have "commit_upload_write (wi_publish io) now rq w (hm_insert (rq_upload_id rq) u1 (us_uploads s))
      = (Inr p, hm_insert (rq_upload_id rq) u' (hm_insert (rq_upload_id rq) u1 (us_uploads s)))"
    using c(1) rq(1) u1(4,7) by (simp add: commit_upload_write_def request_matches_def)
  then have "\<exists>q. write_session_file_http_upload io now rq [bs] s = (Inr q,
      \<lparr>us_uploads = hm_insert (rq_upload_id rq) u' (hm_insert (rq_upload_id rq) u1 (us_uploads s)),
       us_files = (us_files s)(rq_upload_id rq := f')\<rparr>)"
    using len bgn w(1) by (cases p) (simp_all add: write_session_file_http_upload_def commit_progress_def)
  then obtain q where "write_session_file_http_upload io now rq [bs] s = (Inr q,
      \<lparr>us_uploads = hm_insert (rq_upload_id rq) u' (hm_insert (rq_upload_id rq) u1 (us_uploads s)),
       us_files = (us_files s)(rq_upload_id rq := f')\<rparr>)" by blast
  from that [OF this, of u'] c(2,3) u1(5) show thesis by (simp add: same_upload_def)
qed

section \<open>All pieces of a file\<close>

fun send_pieces ::
  "write_io \<Rightarrow> u64 \<Rightarrow> upload_request \<Rightarrow> (nat \<times> u8 list) list \<Rightarrow> upload_store \<Rightarrow> (protocol_error + upload_progress) list \<times> upload_store" where
  "send_pieces io now rq [] s = ([], s)"
| "send_pieces io now rq ((off, bs) # ps) s =
     (let (a, s1) = write_session_file_http_upload io now (rq\<lparr>rq_offset_bytes := off\<rparr>) [bs] s;
          (answers, s2) = send_pieces io now rq ps s1
      in (a # answers, s2))"

abbreviation piece_range :: "nat \<times> u8 list \<Rightarrow> nat set" where
  "piece_range p \<equiv> {fst p..<fst p + length (snd p)}"

definition pieces_of :: "nat \<Rightarrow> file_bytes \<Rightarrow> (nat \<times> u8 list) set \<Rightarrow> bool" where
  "pieces_of n content ps \<longleftrightarrow>
     (\<forall>p \<in> ps. snd p \<noteq> [] \<and> fst p + length (snd p) \<le> n \<and> get_bytes (fst p) (length (snd p)) content = snd p) \<and>
     (\<forall>p \<in> ps. \<forall>q \<in> ps. p = q \<or> piece_range p \<inter> piece_range q = {})"

lemma pieces_of_subset: "pieces_of n content ps \<Longrightarrow> qs \<subseteq> ps \<Longrightarrow> pieces_of n content qs"
  unfolding pieces_of_def by blast

lemma pieces_of_disjoint: "pieces_of n content (insert p ds) \<Longrightarrow> piece_range p \<inter> (\<Union>q \<in> ds. piece_range q) = {} \<or> p \<in> ds"
proof (rule disjCI)
  assume pc: "pieces_of n content (insert p ds)" and new: "p \<notin> ds"
  have "piece_range p \<inter> piece_range q = {}" if "q \<in> ds" for q
    using pc that new unfolding pieces_of_def by (metis insertCI)
  then show "piece_range p \<inter> (\<Union>q \<in> ds. piece_range q) = {}" unfolding Int_UN_distrib by blast
qed

text \<open>The upload after the pieces \<open>ds\<close>: complete if they are the whole file, open with their ranges otherwise.\<close>

definition sent :: "nat \<Rightarrow> file_bytes \<Rightarrow> (nat \<times> u8 list) set \<Rightarrow> upload_state \<Rightarrow> file_bytes \<Rightarrow> bool" where
  "sent n content ds u f \<longleftrightarrow> upload_inv u \<and> up_size_bytes u = n \<and> (\<forall>i \<in> coverage (up_written_ranges u). f i = content i) \<and>
     (up_status u = Up_Complete \<or> up_status u = Up_Active \<and> coverage (up_written_ranges u) = (\<Union>p \<in> ds. piece_range p) \<and>
        coverage (up_written_ranges u) \<noteq> {0..<n})"

lemma complete_answers:
  assumes "hm_get (us_uploads s) (rq_upload_id rq) = Some u" "up_status u = Up_Complete" "upload_inv u"
    and "io_succeeds (up_target u) (up_size_bytes u) io" "request_matches u rq" "length bs \<le> u64_max"
  obtains p s' u' where "write_session_file_http_upload io now rq [bs] s = (Inr p, s')" "us_files s' = us_files s"
    "hm_get (us_uploads s') (rq_upload_id rq) = Some u'" "same_upload u u'" "up_status u' = Up_Complete" "upload_inv u'"
    "up_written_ranges u' = up_written_ranges u"
proof -
  let ?u' = "u\<lparr>up_updated_at_ms := now\<rparr>"
  have "write_session_file_http_upload io now rq [bs] s =
      (Inr (upload_progress_of ?u' True), s\<lparr>us_uploads := hm_insert (rq_upload_id rq) ?u' (us_uploads s)\<rparr>)"
    using assms by (auto simp: write_session_file_http_upload_def upload_chunks_len_def checked_add64_def begin_upload_write_def
        begin_on_state_def io_succeeds_def request_matches_def Let_def)
  from that [OF this, of ?u'] assms show thesis by (simp add: same_upload_def)
qed

lemma sent_step:
  assumes "hm_get (us_uploads s) (rq_upload_id rq) = Some u" "sent n content ds u (us_files s (rq_upload_id rq))"
    and "io_succeeds (up_target u) n io" "request_matches u rq" "rq_offset_bytes rq = off"
    and "pieces_of n content (insert (off, bs) ds)"
  obtains p s' u' where "write_session_file_http_upload io now rq [bs] s = (Inr p, s')"
    "hm_get (us_uploads s') (rq_upload_id rq) = Some u'" "same_upload u u'"
    "sent n content (insert (off, bs) ds) u' (us_files s' (rq_upload_id rq))"
proof -
  let ?id = "rq_upload_id rq" and ?r = "up_written_ranges u" and ?f = "us_files s (rq_upload_id rq)"
  have inv: "upload_inv u" and n: "up_size_bytes u = n" and f: "\<And>i. i \<in> coverage ?r \<Longrightarrow> ?f i = content i"
    using assms(2) by (auto simp: sent_def)
  have piece: "bs \<noteq> []" "off + length bs \<le> n" "get_bytes off (length bs) content = bs"
    using assms(6) by (auto simp: pieces_of_def)
  have "n \<le> u64_max" using inv n by (simp add: upload_inv_def upload_ok_def ranges_ok_def)
  with piece(2) have len: "length bs \<le> u64_max" by simp
  show thesis
  proof (cases "up_status u = Up_Complete")
    case True
    obtain p s' u' where "write_session_file_http_upload io now rq [bs] s = (Inr p, s')" "us_files s' = us_files s"
        "hm_get (us_uploads s') ?id = Some u'" "same_upload u u'" "up_status u' = Up_Complete" "upload_inv u'"
        "up_written_ranges u' = ?r"
      using complete_answers [OF assms(1) True inv _ assms(4) len] assms(3) n by metis
    with that [of p s' u'] f n show ?thesis by (simp add: sent_def same_upload_def)
  next
    case False
    then have act: "up_status u = Up_Active" and cov: "coverage ?r = (\<Union>p \<in> ds. piece_range p)"
      using assms(2) by (auto simp: sent_def)
    have "{off..<off + length bs} \<inter> coverage ?r = {} \<or> (off, bs) \<in> ds"
      unfolding cov using pieces_of_disjoint [OF assms(6)] by (simp only: fst_conv snd_conv)
    moreover have "request_recorded off bs u ?f" if "(off, bs) \<in> ds"
    proof -
      have sub: "{off..<off + length bs} \<subseteq> coverage ?r" unfolding cov using UN_upper [OF that, of piece_range] by (simp only: fst_conv snd_conv)
      have "get_bytes off (length bs) ?f = get_bytes off (length bs) content" by (rule get_bytes_eq) (use sub f in auto)
      with sub piece(3) show ?thesis by (simp add: request_recorded_def)
    qed
    ultimately have new: "{off..<off + length bs} \<inter> coverage ?r = {} \<or> request_recorded off bs u ?f" by blast
    obtain p s' u' where w: "write_session_file_http_upload io now rq [bs] s = (Inr p, s')"
        "hm_get (us_uploads s') ?id = Some u'" "same_upload u u'"
        "up_status u' = (if coverage ?r \<union> {off..<off + length bs} = {0..<up_size_bytes u} then Up_Complete else Up_Active)"
      using write_succeeds [OF assms(1) inv act _ assms(4,5) piece(1) _ new] assms(3) piece(2) n by metis
    obtain u2 where "hm_get (us_uploads s') ?id = Some u2" "upload_extends off bs u ?f u2 (us_files s' ?id)"
        "request_recorded off bs u2 (us_files s' ?id)"
      by (rule write_request_effect [OF w(1) assms(1) inv, of p]) (use act assms(5) in simp)
    with w(2) have ext: "upload_extends off bs u ?f u' (us_files s' ?id)" and rec: "request_recorded off bs u' (us_files s' ?id)"
      by simp_all
    have cov': "coverage (up_written_ranges u') = coverage ?r \<union> {off..<off + length bs}"
      using ext rec by (fastforce simp: upload_extends_def request_recorded_def)
    have un: "(\<Union>p \<in> insert (off, bs) ds. piece_range p) = coverage (up_written_ranges u')"
      by (simp only: UN_insert fst_conv snd_conv cov cov' Un_commute)
    have same: "us_files s' ?id i = content i" if "i \<in> coverage (up_written_ranges u')" for i
    proof (cases "i \<in> coverage ?r")
      case True
      with f ext show ?thesis by (simp add: upload_extends_def)
    next
      case False
      with that ext have i: "off \<le> i" "i < off + length bs" "us_files s' ?id i = bs ! (i - off)" by (auto simp: upload_extends_def)
      with piece(3) get_bytes_nth [of "i - off" "length bs" off content] show ?thesis by simp
    qed
    have "upload_inv u'" "up_size_bytes u' = n" using ext n by (simp_all add: upload_extends_def)
    with same w(4) have "sent n content (insert (off, bs) ds) u' (us_files s' ?id)"
      unfolding sent_def un cov' n by (simp split: if_splits)
    with that [OF w(1-3)] show ?thesis by blast
  qed
qed

lemma send_pieces_sent:
  assumes "hm_get (us_uploads s) (rq_upload_id rq) = Some u" "sent n content ds u (us_files s (rq_upload_id rq))"
    and "io_succeeds (up_target u) n io" "request_matches u rq" "pieces_of n content (ds \<union> set ps)"
  shows "\<exists>answers s' u'. send_pieces io now rq ps s = (answers, s') \<and> (\<forall>a \<in> set answers. \<exists>p. a = Inr p) \<and>
    hm_get (us_uploads s') (rq_upload_id rq) = Some u' \<and> sent n content (ds \<union> set ps) u' (us_files s' (rq_upload_id rq))"
  using assms
proof (induction ps arbitrary: s u ds)
  case (Cons e ps)
  obtain off bs where e: "e = (off, bs)" by force
  let ?rq = "rq\<lparr>rq_offset_bytes := off\<rparr>"
  have pc: "pieces_of n content (insert (off, bs) ds)" by (rule pieces_of_subset [OF Cons.prems(5)]) (auto simp: e)
  obtain p s1 u1 where st: "write_session_file_http_upload io now ?rq [bs] s = (Inr p, s1)"
      "hm_get (us_uploads s1) (rq_upload_id rq) = Some u1" "same_upload u u1"
      "sent n content (insert (off, bs) ds) u1 (us_files s1 (rq_upload_id rq))"
    by (rule sent_step [of s ?rq u n content ds io off bs now]) (use Cons.prems(1-4) pc in \<open>simp_all add: request_matches_def\<close>)
  have "io_succeeds (up_target u1) n io" "request_matches u1 rq" "pieces_of n content (insert (off, bs) ds \<union> set ps)"
    using Cons.prems(3-5) st(3) by (simp_all add: same_upload_def request_matches_def e)
  from Cons.IH [OF st(2,4) this] st(1) show ?case by (auto simp: e)
qed simp

lemma prepare_upload_succeeds:
  assumes "prepare_upload cleanup links io now sid n m = (Inr rq, m')"
  obtains target temp ident where "rq_session_id rq = sid" "rq_path rq = target" "rq_size_bytes rq = n"
    "hm_get m' (rq_upload_id rq) = Some (upload_new sid target temp (rq_upload_id rq) n ident now)"
  using assms
  by (auto simp: prepare_upload_def prepare_fresh_upload_def Let_def split: option.splits sum.splits if_splits cleanup_outcome.splits)

section \<open>An example\<close>

definition demo_prepare :: prepare_io where
  "demo_prepare = \<lparr>pp_attached = None, pp_target = Inr [Normal [1]], pp_is_dir = False, pp_upload_id = ''u'', pp_exists = False,
     pp_temp_path = Inr [Normal [2]], pp_intent_stored = True, pp_created = Inr \<lparr>fi_dev = 1, fi_ino = 2, fi_len = 3\<rparr>,
     pp_identity_stored = True, pp_cleanup = Inr Removed, pp_remaining_links = False\<rparr>"

definition demo_io :: write_io where
  "demo_io = \<lparr>wi_attached = None, wi_resolved = Inr [Normal [1]], wi_is_dir = False, wi_clone = None,
     wi_chunks = (\<lambda>_. \<lparr>ci_read_error = None, ci_write_error = None\<rparr>), wi_identity = None, wi_metadata = Inr (3, None),
     wi_publish = \<lparr>pi_sync = None, pi_identity = None, pi_rename = None, pi_sync_parent = None, pi_state_removed = True\<rparr>\<rparr>"

definition demo_request :: upload_request where
  "demo_request = \<lparr>rq_session_id = 1, rq_path = [Normal [1]], rq_upload_id = ''u'', rq_size_bytes = 3, rq_offset_bytes = 0\<rparr>"

lemma demo_prepared:
  "prepare_upload (\<lambda>_. Inr Removed) (\<lambda>_. False) demo_prepare 0 1 3 [] =
    (Inr demo_request, [(''u'', upload_new 1 [Normal [1]] [Normal [2]] ''u'' 3 \<lparr>fi_dev = 1, fi_ino = 2, fi_len = 3\<rparr> 0)])"
  by code_simp

definition demo_store :: upload_store where
  "demo_store = \<lparr>us_uploads = [(''u'', upload_new 1 [Normal [1]] [Normal [2]] ''u'' 3 \<lparr>fi_dev = 1, fi_ino = 2, fi_len = 3\<rparr> 0)],
     us_files = (\<lambda>_ _. 0)\<rparr>"

definition demo_log :: "string \<Rightarrow> request_log" where
  "demo_log = (\<lambda>_. [])"

abbreviation demo_pieces :: "(nat \<times> u8 list) list" where
  "demo_pieces \<equiv> [(1, [8, 9]), (0, [7]), (1, [8, 9])]"

lemma demo_io_succeeds: "io_succeeds (rq_path demo_request) 3 demo_io"
  by (simp add: io_succeeds_def demo_io_def demo_request_def)

lemma demo_safe: "upload_id_is_safe (rq_upload_id demo_request)"
  by code_simp

lemma demo_written:
  obtains p u where "write_session_file_http_upload demo_io 0 demo_request [[7, 8, 9]] demo_store =
      (Inr p, snd (write_session_file_http_upload demo_io 0 demo_request [[7, 8, 9]] demo_store))"
    "hm_get (us_uploads (snd (write_session_file_http_upload demo_io 0 demo_request [[7, 8, 9]] demo_store))) ''u'' = Some u"
    "up_status u = Up_Complete"
proof -
  let ?u = "upload_new 1 [Normal [1]] [Normal [2]] ''u'' 3 \<lparr>fi_dev = 1, fi_ino = 2, fi_len = 3\<rparr> 0"
  have get: "hm_get (us_uploads demo_store) (rq_upload_id demo_request) = Some ?u" by (simp add: demo_store_def demo_request_def)
  show thesis
    by (rule write_succeeds [OF get, of demo_io 0 "[7, 8, 9]" 0])
       (use that demo_io_succeeds demo_safe in \<open>auto simp: upload_new_def upload_inv_def upload_ok_def request_matches_def
         demo_request_def u64_max_def numeral_3_eq_3 [symmetric]\<close>)
qed

section \<open>Properties\<close>

text \<open>
  C17. Uploads are exact. However the requests of an upload come -- in any order, repeated, overlapping, cut
  off by a failing write, answered with an error after their ranges were recorded, mixed with failing
  aborts and prunings -- at every moment: the bytes of each request that found the upload open and was
  answered with success are in the file, every recorded byte of the file is the byte some request sent for
  that position, a complete upload has every byte of \<open>[0, size)\<close>, and nothing that happens later
  changes the file of a complete upload.
\<close>

theorem upload_is_exact:
  assumes "upload_reachable s L" "hm_get (us_uploads s) k = Some u"
  shows "(\<forall>(off, bs, a) \<in> set (L k). \<forall>p. a = Inr p \<longrightarrow>
      {off..<off + length bs} \<subseteq> coverage (up_written_ranges u) \<and> get_bytes off (length bs) (us_files s k) = bs) \<and>
    (\<forall>i \<in> coverage (up_written_ranges u). \<exists>(off, bs, a) \<in> set (L k).
      off \<le> i \<and> i < off + length bs \<and> us_files s k i = bs ! (i - off)) \<and>
    (up_status u = Up_Complete \<longrightarrow> coverage (up_written_ranges u) = {0..<up_size_bytes u} \<and>
      (\<forall>s' L'. upload_step (s, L) (s', L') \<longrightarrow> us_files s' k = us_files s k))"
proof -
  from upload_reachable_inv [OF assms(1)] have inv: "store_inv s L" .
  with assms(2) have u: "upload_inv u" "log_exact u (us_files s k) (L k)" by (auto simp: store_inv_def)
  show ?thesis
    using u complete_upload_stays [OF _ inv assms(2)] by (auto simp: upload_inv_def log_exact_def request_recorded_def)
qed

theorem upload_is_exact_witness:
  "\<exists>s L u. upload_reachable s L \<and> hm_get (us_uploads s) ''u'' = Some u \<and> up_status u = Up_Complete \<and>
    get_bytes 0 3 (us_files s ''u'') = [7, 8, 9]"
proof -
  let ?w = "write_session_file_http_upload demo_io 0 demo_request [[7, 8, 9]] demo_store"
  let ?L = "log_request demo_request [7, 8, 9] (fst ?w) demo_store demo_log"
  let ?s0 = "\<lparr>us_uploads = [], us_files = (\<lambda>_ _. 0)\<rparr>"
  have pr: "prepare_upload (\<lambda>_. Inr Removed) (\<lambda>_. False) demo_prepare 0 1 3 (us_uploads ?s0) = (Inr demo_request, us_uploads demo_store)"
    unfolding demo_store_def upload_store.simps by (rule demo_prepared)
  have st1: "upload_step upload_start (demo_store, demo_log)"
    using step_prepare [OF _ _ pr, of "\<lambda>_. []"]
    by (simp add: upload_start_def demo_store_def demo_log_def demo_prepare_def u64_max_def fun_upd_idem)
  have st2: "upload_step (demo_store, demo_log) (snd ?w, ?L)"
    using step_write [where L = demo_log, OF prod.collapse [symmetric, of ?w]] unfolding concat.simps append.simps .
  have reach: "upload_reachable (snd ?w) ?L" 
    using upload_reachable_first [OF st1] st2 by (rule upload_reachable_step)
  obtain u p where u: "hm_get (us_uploads (snd ?w)) ''u'' = Some u" "up_status u = Up_Complete" and p: "fst ?w = Inr p"
    using demo_written by (metis fst_conv)
  have log: "(0, [7, 8, 9], Inr p) \<in> set (?L ''u'')"
    unfolding p by (simp add: log_request_def demo_store_def demo_request_def upload_new_def)
  from upload_is_exact [OF reach u(1)] log have "get_bytes 0 (length [7, 8, 9 :: u8]) (us_files (snd ?w) ''u'') = [7, 8, 9]" by blast
  then have "get_bytes 0 3 (us_files (snd ?w) ''u'') = [7, 8, 9]" by (simp add: numeral_3_eq_3)
  with u reach show ?thesis by blast
qed

text \<open>
  C18. The pieces of a file can be sent in any order and more than once. After a successful preparation, if
  the pieces are disjoint or equal, agree with the content of the file and make it up, and no call of the
  operating system fails, then every request is answered with success, and the upload ends complete with
  exactly the content of the file.
\<close>

theorem pieces_in_any_order_complete:
  assumes "prepare_upload cleanup links pio now sid n m = (Inr rq, m')" "upload_id_is_safe (rq_upload_id rq)"
    and "0 < n" "n \<le> u64_max" "io_succeeds (rq_path rq) n io"
    and "pieces_of n content (set ps)" "(\<Union>p \<in> set ps. piece_range p) = {0..<n}"
  shows "\<exists>answers s u. send_pieces io now' rq ps \<lparr>us_uploads = m', us_files = fs\<rparr> = (answers, s) \<and>
    (\<forall>a \<in> set answers. \<exists>p. a = Inr p) \<and> hm_get (us_uploads s) (rq_upload_id rq) = Some u \<and> up_status u = Up_Complete \<and>
    get_bytes 0 n (us_files s (rq_upload_id rq)) = get_bytes 0 n content"
proof -
  obtain target temp ident where pr: "rq_session_id rq = sid" "rq_path rq = target" "rq_size_bytes rq = n"
      "hm_get m' (rq_upload_id rq) = Some (upload_new sid target temp (rq_upload_id rq) n ident now)" (is "_ = Some ?u")
    using prepare_upload_succeeds [OF assms(1)] by metis
  let ?s = "\<lparr>us_uploads = m', us_files = fs\<rparr>"
  have "sent n content {} ?u (us_files ?s (rq_upload_id rq))"
    using assms(3,4) by (simp add: sent_def upload_inv_def upload_ok_def upload_new_def)
  then obtain answers s u where out: "send_pieces io now' rq ps ?s = (answers, s)" "\<forall>a \<in> set answers. \<exists>p. a = Inr p"
      "hm_get (us_uploads s) (rq_upload_id rq) = Some u" and sent: "sent n content (set ps) u (us_files s (rq_upload_id rq))"
    using send_pieces_sent [of ?s rq ?u n content "{}" io ps now'] pr assms(2,5,6)
    by (auto simp: request_matches_def upload_new_def)
  from sent assms(7) have done_: "up_status u = Up_Complete" by (auto simp: sent_def)
  with sent have cov: "coverage (up_written_ranges u) = {0..<n}" by (auto simp: sent_def upload_inv_def)
  have "get_bytes 0 n (us_files s (rq_upload_id rq)) = get_bytes 0 n content"
    by (rule get_bytes_eq) (use sent cov in \<open>auto simp: sent_def\<close>)
  with out done_ show ?thesis by blast
qed

theorem pieces_in_any_order_complete_witness:
  "\<exists>answers s u. send_pieces demo_io 5 demo_request demo_pieces demo_store = (answers, s) \<and>
    (\<forall>a \<in> set answers. \<exists>p. a = Inr p) \<and> hm_get (us_uploads s) (rq_upload_id demo_request) = Some u \<and> up_status u = Up_Complete \<and>
    get_bytes 0 3 (us_files s (rq_upload_id demo_request)) = get_bytes 0 3 (\<lambda>i. i + 7)"
proof -
  have "pieces_of 3 (\<lambda>i. i + 7) (set demo_pieces)"
    by (simp add: pieces_of_def get_bytes_def upt_rec)
  moreover have "(\<Union>p \<in> set demo_pieces. piece_range p) = {0..<3}" by auto
  ultimately show ?thesis unfolding demo_store_def
    by (intro pieces_in_any_order_complete [OF demo_prepared demo_safe _ _ demo_io_succeeds]) (assumption | simp add: u64_max_def)+
qed

end
