(* ===== verification/Session_Files.thy ===== *)
theory Session_Files
  imports Upload
begin

text \<open>
  The files of a session (\<open>termd/src/net/protocol.rs\<close>): how the path of a request is resolved against the root
  of the session, the guard that keeps requests away from files that are being uploaded, and the requests
  that read, write and delete a file. All act on the file system of \<open>Paths_FS\<close>; relative paths given to the
  operating system start at the directory \<open>cwd\<close> of the daemon. Base64 is a parameter.
\<close>

section \<open>Resolving the path of a request\<close>

definition map_file_path_error :: "io_error \<Rightarrow> protocol_error" where
  "map_file_path_error e = (if e = IoNotFound then InvalidEnvelope else RuntimeFailed)"

definition session_file_request_is_root_scoped ::
  "file_system \<Rightarrow> names \<Rightarrow> path \<Rightarrow> path \<Rightarrow> bool \<Rightarrow> protocol_error + bool" where
  "session_file_request_is_root_scoped fs cwd root candidate requested_absolute =
     (if \<not> requested_absolute then Inr True
      else
        (case canonicalize fs cwd root of
           Inl e \<Rightarrow> Inl (map_file_path_error e)
         | Inr root' \<Rightarrow> Inr (path_starts_with candidate root')))"

definition ensure_path_inside_root :: "file_system \<Rightarrow> names \<Rightarrow> path \<Rightarrow> path \<Rightarrow> protocol_error + unit" where
  "ensure_path_inside_root fs cwd root target =
     (case canonicalize fs cwd root of
        Inl e \<Rightarrow> Inl (map_file_path_error e)
      | Inr root' \<Rightarrow> if path_starts_with target root' then Inr () else Inl InvalidEnvelope)"

definition resolve_existing_session_file_target ::
  "file_system \<Rightarrow> names \<Rightarrow> path \<Rightarrow> uchar list \<Rightarrow> protocol_error + path" where
  "resolve_existing_session_file_target fs cwd root requested_path =
     (let raw = trim_text requested_path in
      if raw = [] then Inr root
      else
        (let requested = path_new raw;
             candidate = (if is_absolute requested then requested else path_join root requested)
         in case session_file_request_is_root_scoped fs cwd root candidate (is_absolute requested) of
              Inl e \<Rightarrow> Inl e
            | Inr root_scoped \<Rightarrow>
                (case canonicalize fs cwd candidate of
                   Inl e \<Rightarrow> Inl (map_file_path_error e)
                 | Inr target \<Rightarrow>
                     if root_scoped
                     then (case ensure_path_inside_root fs cwd root target of Inl e \<Rightarrow> Inl e | Inr _ \<Rightarrow> Inr target)
                     else Inr target)))"

definition resolve_writable_session_file_target ::
  "file_system \<Rightarrow> names \<Rightarrow> path \<Rightarrow> uchar list \<Rightarrow> protocol_error + path" where
  "resolve_writable_session_file_target fs cwd root requested_path =
     (let raw = trim_text requested_path in
      if raw = [] then Inl InvalidEnvelope
      else
        (let requested = path_new raw;
             candidate = (if is_absolute requested then requested else path_join root requested)
         in case session_file_request_is_root_scoped fs cwd root candidate (is_absolute requested) of
              Inl e \<Rightarrow> Inl e
            | Inr root_scoped \<Rightarrow>
                (case path_file_name candidate of
                   None \<Rightarrow> Inl InvalidEnvelope
                 | Some file_name \<Rightarrow>
                     (case path_parent candidate of
                        None \<Rightarrow> Inl InvalidEnvelope
                      | Some parent0 \<Rightarrow>
                          (case canonicalize fs cwd parent0 of
                             Inl e \<Rightarrow> Inl (map_file_path_error e)
                           | Inr parent \<Rightarrow>
                               (case (if root_scoped then ensure_path_inside_root fs cwd root parent else Inr ()) of
                                  Inl e \<Rightarrow> Inl e
                                | Inr _ \<Rightarrow>
                                    (let target = path_join parent [Normal file_name] in
                                     case symlink_metadata fs cwd target of
                                       Inl IoNotFound \<Rightarrow> Inr target
                                     | Inl e \<Rightarrow> Inl (map_file_path_error e)
                                     | Inr _ \<Rightarrow>
                                         (case canonicalize fs cwd target of
                                            Inl e \<Rightarrow> Inl (map_file_path_error e)
                                          | Inr real_target \<Rightarrow>
                                              if root_scoped
                                              then (case ensure_path_inside_root fs cwd root real_target of
                                                      Inl e \<Rightarrow> Inl e
                                                    | Inr _ \<Rightarrow> Inr target)
                                              else Inr target))))))))"

definition resolve_session_file_target ::
  "file_system \<Rightarrow> names \<Rightarrow> path \<Rightarrow> uchar list option \<Rightarrow> protocol_error + path" where
  "resolve_session_file_target fs cwd root requested_path =
     (case requested_path of
        Some p \<Rightarrow> if trim_text p \<noteq> [] then resolve_existing_session_file_target fs cwd root p else Inr root
      | None \<Rightarrow> Inr root)"

section \<open>Files that are being uploaded\<close>

text \<open>Identities; on Unix they are always stable.\<close>

definition identity_of_metadata :: "nat \<Rightarrow> fs_metadata \<Rightarrow> file_identity" where
  "identity_of_metadata dev md = \<lparr>fi_dev = dev, fi_ino = md_inode md, fi_len = md_len md\<rparr>"

definition is_same_filesystem_object :: "file_identity \<Rightarrow> file_identity \<Rightarrow> bool" where
  "is_same_filesystem_object a b \<longleftrightarrow> fi_dev a = fi_dev b \<and> fi_ino a = fi_ino b"

datatype cleanup_mode = InMemoryOpenHandle | PersistedRecovery

datatype identity_match = Identity_Same | Identity_Replaced

definition cleanup_identity_match ::
  "file_identity \<Rightarrow> file_identity \<Rightarrow> cleanup_mode \<Rightarrow> protocol_error + identity_match" where
  "cleanup_identity_match actual expected mode =
     (if actual = expected then Inr Identity_Same
      else if is_same_filesystem_object actual expected then
        (case mode of InMemoryOpenHandle \<Rightarrow> Inr Identity_Same | PersistedRecovery \<Rightarrow> Inl InvalidState)
      else (case mode of InMemoryOpenHandle \<Rightarrow> Inr Identity_Replaced | PersistedRecovery \<Rightarrow> Inl InvalidState))"

definition remove_upload_target ::
  "nat \<Rightarrow> names \<Rightarrow> path \<Rightarrow> file_identity \<Rightarrow> cleanup_mode \<Rightarrow> file_system \<Rightarrow> (protocol_error + cleanup_outcome) \<times> file_system" where
  "remove_upload_target dev cwd target expected mode fs =
     (case symlink_metadata fs cwd target of
        Inl IoNotFound \<Rightarrow>
          (case mode of InMemoryOpenHandle \<Rightarrow> (Inr AlreadyGone, fs) | PersistedRecovery \<Rightarrow> (Inl InvalidState, fs))
      | Inl e \<Rightarrow> (Inl (map_file_path_error e), fs)
      | Inr md \<Rightarrow>
          (case cleanup_identity_match (identity_of_metadata dev md) expected mode of
             Inl e \<Rightarrow> (Inl e, fs)
           | Inr Identity_Replaced \<Rightarrow> (Inr TargetReplaced, fs)
           | Inr Identity_Same \<Rightarrow>
               if md_nlink md > 1 then (Inl InvalidState, fs)
               else
                 (case remove_file fs cwd target of
                    (Inr _, fs') \<Rightarrow> (Inr Removed, fs')
                  | (Inl IoNotFound, fs') \<Rightarrow> (Inr AlreadyGone, fs')
                  | (Inl e, fs') \<Rightarrow> (Inl (map_file_path_error e), fs'))))"

text \<open>The open file of an upload still has a name.\<close>

definition has_remaining_links :: "file_system \<Rightarrow> file_identity \<Rightarrow> bool" where
  "has_remaining_links fs ident \<longleftrightarrow> fs_nlink fs (fi_ino ident) > 0"

text \<open>Pruning, with the removal of the temporary files.\<close>

definition prune_upload_file ::
  "nat \<Rightarrow> names \<Rightarrow> u64 \<Rightarrow> upload_state \<Rightarrow> file_system \<Rightarrow> upload_state option \<times> file_system" where
  "prune_upload_file dev cwd now u fs =
     (if upload_is_stale now u \<and> up_status u = Up_Active \<and> \<not> up_published u then
        (let (outcome, fs') = remove_upload_target dev cwd (up_temp_path u) (up_file_identity u) InMemoryOpenHandle fs
         in (prune_upload now outcome (has_remaining_links fs' (up_file_identity u)) u, fs'))
      else (prune_upload now (Inr Removed) False u, fs))"

fun prune_upload_files ::
  "nat \<Rightarrow> names \<Rightarrow> u64 \<Rightarrow> uploads \<Rightarrow> file_system \<Rightarrow> uploads \<times> file_system" where
  "prune_upload_files dev cwd now [] fs = ([], fs)"
| "prune_upload_files dev cwd now ((k, u) # m) fs =
     (let (u', fs1) = prune_upload_file dev cwd now u fs; (m', fs2) = prune_upload_files dev cwd now m fs1
      in (case u' of None \<Rightarrow> m' | Some v \<Rightarrow> (k, v) # m', fs2))"

type_synonym active_target = "path \<times> file_identity"

definition active_upload_targets :: "uploads \<Rightarrow> active_target list" where
  "active_upload_targets m =
     concat (map (\<lambda>(k, u). [(up_target u, up_file_identity u), (up_temp_path u, up_file_identity u)])
       (filter (\<lambda>(k, u). up_status u = Up_Active) m))"

definition path_matches_active :: "nat \<Rightarrow> file_system \<Rightarrow> names \<Rightarrow> path \<Rightarrow> active_target list \<Rightarrow> bool" where
  "path_matches_active dev fs cwd p actives \<longleftrightarrow>
     (\<exists>a \<in> set actives. fst a = p) \<or>
     (case path_metadata fs cwd p of
        Inl _ \<Rightarrow> False
      | Inr md \<Rightarrow> \<exists>a \<in> set actives. is_same_filesystem_object (snd a) (identity_of_metadata dev md))"

definition ensure_not_active_upload_target ::
  "nat \<Rightarrow> names \<Rightarrow> u64 \<Rightarrow> path \<Rightarrow> uploads \<times> file_system \<Rightarrow> (protocol_error + unit) \<times> uploads \<times> file_system" where
  "ensure_not_active_upload_target dev cwd now target st =
     (let (m, fs) = prune_upload_files dev cwd now (fst st) (snd st)
      in (if path_matches_active dev fs cwd target (active_upload_targets m) then Inl InvalidState else Inr (), m, fs))"

section \<open>Requests\<close>

definition session_file_rpc_max_bytes :: usize where
  "session_file_rpc_max_bytes = 1024 * 1024"

definition session_file_write_max_base64_bytes :: usize where
  "session_file_write_max_base64_bytes = (session_file_rpc_max_bytes + 2) div 3 * 4"

definition base64_payload_decoded_len :: "u8 list \<Rightarrow> usize" where
  "base64_payload_decoded_len data = length (rev (dropWhile (\<lambda>b. b = 61) (rev data))) * 3 div 4"

text \<open>The environment of a request: the device number, the working directory, the clock, and base64.\<close>

record file_env =
  fe_dev :: nat
  fe_cwd :: names
  fe_now :: u64
  fe_decode :: "u8 list \<Rightarrow> u8 list option"
  fe_encode :: "u8 list \<Rightarrow> u8 list"
  fe_has_entries :: "names \<Rightarrow> bool"

type_synonym file_state = "uploads \<times> file_system"

text \<open>The answers carry the path and, for a read, the encoded bytes; \<open>attached\<close> is the root of the session or an error.\<close>

definition read_session_file ::
  "file_env \<Rightarrow> protocol_error + path \<Rightarrow> uchar list \<Rightarrow> u64 option \<Rightarrow> file_state \<Rightarrow> (protocol_error + path \<times> u8 list) \<times> file_state" where
  "read_session_file env attached requested max_bytes st =
     (case attached of
        Inl e \<Rightarrow> (Inl e, st)
      | Inr root \<Rightarrow>
          (case resolve_existing_session_file_target (snd st) (fe_cwd env) root requested of
             Inl e \<Rightarrow> (Inl e, st)
           | Inr target \<Rightarrow>
               (case ensure_not_active_upload_target (fe_dev env) (fe_cwd env) (fe_now env) target st of
                  (Inl e, st') \<Rightarrow> (Inl e, st')
                | (Inr _, st') \<Rightarrow>
                    (case path_metadata (snd st') (fe_cwd env) target of
                       Inl e \<Rightarrow> (Inl (map_file_path_error e), st')
                     | Inr md \<Rightarrow>
                         if md_is_dir md then (Inl InvalidEnvelope, st')
                         else
                           (let limit = min (case max_bytes of None \<Rightarrow> session_file_rpc_max_bytes | Some n \<Rightarrow> n) session_file_rpc_max_bytes
                            in if md_len md > limit then (Inl InvalidEnvelope, st')
                               else
                                 (case read_file (snd st') (fe_cwd env) target of
                                    Inl e \<Rightarrow> (Inl (map_file_path_error e), st')
                                  | Inr bytes \<Rightarrow>
                                      if length (take (limit + 1) bytes) > limit then (Inl InvalidEnvelope, st')
                                      else (Inr (target, fe_encode env (take (limit + 1) bytes)), st')))))))"

definition write_session_file ::
  "file_env \<Rightarrow> protocol_error + path \<Rightarrow> uchar list \<Rightarrow> u8 list \<Rightarrow> file_state \<Rightarrow> (protocol_error + path) \<times> file_state" where
  "write_session_file env attached requested data st =
     (case attached of
        Inl e \<Rightarrow> (Inl e, st)
      | Inr root \<Rightarrow>
          (case resolve_writable_session_file_target (snd st) (fe_cwd env) root requested of
             Inl e \<Rightarrow> (Inl e, st)
           | Inr target \<Rightarrow>
               (case ensure_not_active_upload_target (fe_dev env) (fe_cwd env) (fe_now env) target st of
                  (Inl e, st') \<Rightarrow> (Inl e, st')
                | (Inr _, st') \<Rightarrow>
                    if length data > session_file_write_max_base64_bytes \<or>
                       base64_payload_decoded_len data > session_file_rpc_max_bytes
                    then (Inl InvalidEnvelope, st')
                    else
                      (case fe_decode env data of
                         None \<Rightarrow> (Inl InvalidEnvelope, st')
                       | Some bytes \<Rightarrow>
                           if length bytes > session_file_rpc_max_bytes then (Inl InvalidEnvelope, st')
                           else if (case path_metadata (snd st') (fe_cwd env) target of Inl _ \<Rightarrow> False | Inr md \<Rightarrow> md_is_dir md)
                           then (Inl InvalidEnvelope, st')
                           else
                             (case write_file (snd st') (fe_cwd env) target bytes of
                                (Inl e, fs') \<Rightarrow> (Inl (map_file_path_error e), fst st', fs')
                              | (Inr _, fs') \<Rightarrow>
                                  (case path_metadata fs' (fe_cwd env) target of
                                     Inl e \<Rightarrow> (Inl (map_file_path_error e), fst st', fs')
                                   | Inr md \<Rightarrow> (Inr target, fst st', fs')))))))"

definition delete_session_file ::
  "file_env \<Rightarrow> protocol_error + path \<Rightarrow> uchar list \<Rightarrow> file_state \<Rightarrow> (protocol_error + path) \<times> file_state" where
  "delete_session_file env attached requested st =
     (case attached of
        Inl e \<Rightarrow> (Inl e, st)
      | Inr root \<Rightarrow>
          (case resolve_writable_session_file_target (snd st) (fe_cwd env) root requested of
             Inl e \<Rightarrow> (Inl e, st)
           | Inr target \<Rightarrow>
               (case ensure_not_active_upload_target (fe_dev env) (fe_cwd env) (fe_now env) target st of
                  (Inl e, st') \<Rightarrow> (Inl e, st')
                | (Inr _, st') \<Rightarrow>
                    (case symlink_metadata (snd st') (fe_cwd env) target of
                       Inl e \<Rightarrow> (Inl (map_file_path_error e), st')
                     | Inr md \<Rightarrow>
                         (case (if md_is_dir md then remove_dir (fe_has_entries env) (snd st') (fe_cwd env) target
                                else remove_file (snd st') (fe_cwd env) target) of
                            (Inl e, fs') \<Rightarrow> (Inl (map_file_path_error e), fst st', fs')
                          | (Inr _, fs') \<Rightarrow> (Inr target, fst st', fs'))))))"

end
