(* ===== verification/Session_Confine.thy ===== *)
theory Session_Confine
  imports Session_Files "HOL-Library.Sublist"
begin

text \<open>
  Requests for files stay where they belong: a relative path, or an absolute one that begins with the root of
  the session, never leads out of the root, whatever dots and symbolic links it goes through, and no request
  touches a file that is being uploaded, by whatever name.
\<close>

section \<open>Canonical paths inside a root\<close>

lemma prefix_real_path: "path_starts_with (real_path ns) (real_path rs) \<longleftrightarrow> prefix rs ns"
proof
  assume "path_starts_with (real_path ns) (real_path rs)"
  then have "map Normal (take (length rs) ns) = map Normal rs" by (simp add: path_starts_with_def real_path_def take_map)
  then have "take (length rs) ns = rs" by (rule map_injective) (simp add: inj_def)
  then show "prefix rs ns" by (metis take_is_prefix)
next
  assume "prefix rs ns"
  then show "path_starts_with (real_path ns) (real_path rs)" by (auto simp: path_starts_with_def real_path_def prefix_def)
qed

lemma real_path_snoc: "path_join (real_path ms) [Normal n] = real_path (ms @ [n])"
  by (simp add: path_join_def is_absolute_def real_path_def)

lemma real_path_parts: "path_file_name (real_path (ms @ [n])) = Some n" "path_parent (real_path (ms @ [n])) = Some (real_path ms)"
  by (simp_all add: path_file_name_def path_parent_def real_path_def)

lemma canonicalize_real: "canonicalize fs cwd p = Inr q \<Longrightarrow> \<exists>ns. q = real_path ns"
  by (auto simp: canonicalize_def split: if_splits sum.splits)

lemma canonicalize_walk: "canonicalize fs cwd p = Inr (real_path ns) \<Longrightarrow> walk False fs max_links cwd p = Inr ns"
proof -
  have "real_path a = real_path b \<Longrightarrow> a = b" for a b
    unfolding real_path_def by (metis list.inject list.inj_map_strong path_component.inject)
  then show "canonicalize fs cwd p = Inr (real_path ns) \<Longrightarrow> walk False fs max_links cwd p = Inr ns"
    by (auto simp: canonicalize_def split: if_splits sum.splits)
qed

lemma real_path_nonempty [simp]: "real_path ns \<noteq> []"
  by (simp add: real_path_def)

text \<open>When a request is subject to the root.\<close>

definition root_scoped :: "path \<Rightarrow> uchar list \<Rightarrow> bool" where
  "root_scoped root' requested \<longleftrightarrow>
     (let p = path_new (trim_text requested) in \<not> is_absolute p \<or> path_starts_with p root')"

lemma scoped_answer:
  assumes "canonicalize fs cwd root = Inr root'" "root_scoped root' requested"
  shows "session_file_request_is_root_scoped fs cwd root
    (if is_absolute (path_new (trim_text requested)) then path_new (trim_text requested) else c) (is_absolute (path_new (trim_text requested))) = Inr True"
  using assms by (auto simp: session_file_request_is_root_scoped_def root_scoped_def Let_def)

lemma resolve_existing_inside:
  assumes "canonicalize fs cwd root = Inr (real_path rs)" "root_scoped (real_path rs) requested" "is_dir_chain fs cwd"
    and "resolve_existing_session_file_target fs cwd root requested = Inr target" "trim_text requested \<noteq> []"
  obtains ns where "target = real_path ns" "prefix rs ns" "resolved_at False fs ns"
proof -
  obtain c where c: "canonicalize fs cwd c = Inr target" "ensure_path_inside_root fs cwd root target = Inr ()"
    using assms(4,5) scoped_answer [OF assms(1,2)]
    by (auto simp: resolve_existing_session_file_target_def Let_def split: sum.splits if_splits)
  obtain ns where ns: "target = real_path ns" "resolved_at False fs ns" using canonicalize_idem [OF c(1) assms(3)] by blast
  with c(2) assms(1) have "prefix rs ns" by (simp add: ensure_path_inside_root_def prefix_real_path split: if_splits)
  with ns show thesis using that by blast
qed

text \<open>
  A target for writing is a name in a directory of the root; if it exists, what it leads to is in the root,
  and it can be resolved.
\<close>

lemma resolve_writable_inside:
  assumes "canonicalize fs cwd root = Inr (real_path rs)" "root_scoped (real_path rs) requested" "is_dir_chain fs cwd"
    and "resolve_writable_session_file_target fs cwd root requested = Inr target"
  obtains ms n where "target = real_path (ms @ [n])" "prefix rs ms" "resolved_at False fs ms"
    "fs_node_at fs (ms @ [n]) = None \<or> (\<exists>ns. walk False fs max_links cwd target = Inr ns \<and> prefix rs ns)"
proof -
  obtain c parent n where c: "canonicalize fs cwd c = Inr parent" "ensure_path_inside_root fs cwd root parent = Inr ()"
      "target = path_join parent [Normal n]"
    and ex: "symlink_metadata fs cwd target = Inl IoNotFound \<or>
      (\<exists>q. canonicalize fs cwd target = Inr q \<and> ensure_path_inside_root fs cwd root q = Inr ())"
    using assms(4) scoped_answer [OF assms(1,2)]
    by (auto simp: resolve_writable_session_file_target_def Let_def split: sum.splits if_splits option.splits io_error.splits)
  obtain ms where ms: "parent = real_path ms" "resolved_at False fs ms" using canonicalize_idem [OF c(1) assms(3)] by blast
  with c(2) assms(1) have pre: "prefix rs ms" by (simp add: ensure_path_inside_root_def prefix_real_path split: if_splits)
  have target: "target = real_path (ms @ [n])" using c(3) ms(1) by (simp add: real_path_snoc)
  from ex show thesis
  proof
    assume "symlink_metadata fs cwd target = Inl IoNotFound"
    then have "fs_node_at fs (ms @ [n]) = None"
      using walk_resolved_again [OF ms(2)]
      by (auto simp: symlink_metadata_def name_of_def target real_path_parts split: sum.splits if_splits)
    with target pre ms(2) show thesis using that by blast
  next
    assume "\<exists>q. canonicalize fs cwd target = Inr q \<and> ensure_path_inside_root fs cwd root q = Inr ()"
    then obtain ns where "canonicalize fs cwd target = Inr (real_path ns)" "ensure_path_inside_root fs cwd root (real_path ns) = Inr ()"
      using canonicalize_real by blast
    with assms(1) have "walk False fs max_links cwd target = Inr ns" "prefix rs ns"
      by (auto simp: ensure_path_inside_root_def prefix_real_path canonicalize_walk split: if_splits)
    with target pre ms(2) show thesis using that by blast
  qed
qed

section \<open>Pruning\<close>

text \<open>Pruning removes names of files of uploads and nothing else.\<close>

definition pruned :: "nat set \<Rightarrow> file_system \<Rightarrow> file_system \<Rightarrow> bool" where
  "pruned inodes fs fs' \<longleftrightarrow> fs_data fs' = fs_data fs \<and> fs_denied fs' = fs_denied fs \<and> fs_next_inode fs' = fs_next_inode fs \<and>
     (\<forall>ns. fs_node_at fs' ns = fs_node_at fs ns \<or>
        fs_node_at fs' ns = None \<and> (\<exists>i \<in> inodes. fs_node_at fs ns = Some (File i)))"

definition upload_inodes :: "uploads \<Rightarrow> nat set" where
  "upload_inodes m = (\<lambda>(k, u). fi_ino (up_file_identity u)) ` set m"

lemma pruned_refl [simp]: "pruned I fs fs"
  by (simp add: pruned_def)

lemma pruned_trans: "pruned I a b \<Longrightarrow> pruned I b c \<Longrightarrow> pruned I a c"
  unfolding pruned_def by (metis option.distinct(1))

lemma pruned_mono: "pruned I a b \<Longrightarrow> I \<subseteq> J \<Longrightarrow> pruned J a b"
  unfolding pruned_def by blast

lemma remove_upload_target_pruned:
  assumes "remove_upload_target dev cwd target ident mode fs = (r, fs')" "0 < fi_ino ident"
  shows "pruned {fi_ino ident} fs fs'"
proof (cases "symlink_metadata fs cwd target")
  case (Inl e)
  then show ?thesis using assms(1) by (auto simp: remove_upload_target_def split: io_error.splits cleanup_mode.splits)
next
  case (Inr md)
  show ?thesis
  proof (cases "fs' = fs")
    case False
    have "is_same_filesystem_object (identity_of_metadata dev md) ident"
      using False assms(1) Inr
      by (auto simp: remove_upload_target_def cleanup_identity_match_def is_same_filesystem_object_def
          split: if_splits cleanup_mode.splits)
    then have ino: "md_inode md = fi_ino ident" by (simp add: is_same_filesystem_object_def identity_of_metadata_def)
    obtain ns where ns: "name_of fs cwd target = Inr ns" "md = node_metadata fs ns"
      using Inr by (auto simp: symlink_metadata_def split: sum.splits)
    have "snd (remove_file fs cwd target) = fs'"
      using False assms(1) Inr
      by (auto simp: remove_upload_target_def split: sum.splits identity_match.splits if_splits prod.splits io_error.splits)
    with False ns(1) ino assms(2) ns(2) show ?thesis
      by (auto simp: remove_file_def pruned_def node_metadata_def split: option.splits fs_node.splits if_splits)
  qed simp
qed

lemma prune_upload_files_pruned:
  assumes "prune_upload_files dev cwd now m fs = (m', fs')" "0 \<notin> upload_inodes m"
  shows "pruned (upload_inodes m) fs fs'"
  using assms
proof (induction m arbitrary: fs m')
  case Nil
  then show ?case by simp
next
  case (Cons e m)
  obtain k u where e: "e = (k, u)" by force
  let ?i = "fi_ino (up_file_identity u)"
  obtain u' fs1 m1 where step: "prune_upload_file dev cwd now u fs = (u', fs1)" "prune_upload_files dev cwd now m fs1 = (m1, fs')"
    using Cons.prems(1) by (auto simp: e split: prod.splits)
  have ino: "0 < ?i" "0 \<notin> upload_inodes m" using Cons.prems(2) by (auto simp: upload_inodes_def e)
  have "pruned {?i} fs fs1"
  proof (cases "upload_is_stale now u \<and> up_status u = Up_Active \<and> \<not> up_published u")
    case True
    then obtain r where "remove_upload_target dev cwd (up_temp_path u) (up_file_identity u) InMemoryOpenHandle fs = (r, fs1)"
      using step(1) by (auto simp: prune_upload_file_def split: prod.splits)
    then show ?thesis using remove_upload_target_pruned ino(1) by blast
  qed (use step(1) in \<open>auto simp: prune_upload_file_def\<close>)
  then have "pruned (upload_inodes (e # m)) fs fs1" by (rule pruned_mono) (simp add: upload_inodes_def e)
  moreover have "pruned (upload_inodes (e # m)) fs1 fs'"
    by (rule pruned_mono [OF Cons.IH [OF step(2) ino(2)]]) (auto simp: upload_inodes_def)
  ultimately show ?case by (rule pruned_trans)
qed

text \<open>Resolution after pruning.\<close>

lemma pruned_dir_chain: "pruned I fs fs' \<Longrightarrow> is_dir_chain fs ns \<Longrightarrow> is_dir_chain fs' ns"
  unfolding pruned_def is_dir_chain_def by (metis fs_node.distinct(1) option.inject)

lemma walk_pruned: "walk False fs links cur p = Inr ns \<Longrightarrow> pruned I fs fs' \<Longrightarrow> walk True fs' links cur p = Inr ns"
proof (induction "False" fs links cur p rule: walk.induct)
  case (5 fs links cur n cs)
  have same: "fs_denied fs' = fs_denied fs" and at: "fs_node_at fs' (cur @ [n]) = fs_node_at fs (cur @ [n]) \<or>
      fs_node_at fs' (cur @ [n]) = None \<and> (\<exists>i. fs_node_at fs (cur @ [n]) = Some (File i))"
    using "5.prems"(2) unfolding pruned_def by blast+
  show ?case
    using "5.prems" "5.hyps" same at
    by (auto simp: Let_def split: if_splits option.splits fs_node.splits nat.splits)
qed auto

section \<open>What a request touches\<close>

datatype file_request = Read_File "u64 option" | Write_File "u8 list" | Delete_File

definition serve_file_request ::
  "file_env \<Rightarrow> protocol_error + path \<Rightarrow> uchar list \<Rightarrow> file_request \<Rightarrow> file_state
    \<Rightarrow> (protocol_error + path \<times> u8 list) \<times> file_state" where
  "serve_file_request env attached requested rq st =
     (case rq of
        Read_File limit \<Rightarrow> read_session_file env attached requested limit st
      | Write_File data \<Rightarrow> (let (a, st') = write_session_file env attached requested data st in (map_sum id (\<lambda>p. (p, [])) a, st'))
      | Delete_File \<Rightarrow> (let (a, st') = delete_session_file env attached requested st in (map_sum id (\<lambda>p. (p, [])) a, st')))"

text \<open>
  The names and the inodes that differ between two file systems, and the inode a read returned: all of them
  satisfy \<open>P\<close>, a condition on a name and the node there before.
\<close>

definition touches_only :: "(names \<Rightarrow> fs_node option \<Rightarrow> bool) \<Rightarrow> file_system \<Rightarrow> file_system \<Rightarrow> bool" where
  "touches_only P fs fs' \<longleftrightarrow> fs_denied fs' = fs_denied fs \<and>
     (\<forall>ns. fs_node_at fs' ns \<noteq> fs_node_at fs ns \<longrightarrow> P ns (fs_node_at fs ns)) \<and>
     (\<forall>i. fs_data fs' i \<noteq> fs_data fs i \<longrightarrow> i = fs_next_inode fs \<or> (\<exists>ns. fs_node_at fs ns = Some (File i) \<and> P ns (Some (File i))))"

lemma touches_only_refl [simp]: "touches_only P fs fs"
  by (simp add: touches_only_def)

lemma write_file_touches:
  assumes "write_file fs cwd p bytes = (r, fs')" "\<And>ns. p \<noteq> [] \<Longrightarrow> walk True fs max_links cwd p = Inr ns \<Longrightarrow> P ns (fs_node_at fs ns)"
  shows "touches_only P fs fs'"
proof (cases "fs' = fs")
  case False
  then obtain ns where ns: "p \<noteq> []" "walk True fs max_links cwd p = Inr ns"
    using assms(1) by (auto simp: write_file_def split: if_splits sum.splits)
  with assms False show ?thesis
    by (auto simp: write_file_def touches_only_def split: option.splits fs_node.splits if_splits)
qed simp

lemma remove_file_touches:
  assumes "remove_file fs cwd p = (r, fs')" "\<And>ns. name_of fs cwd p = Inr ns \<Longrightarrow> P ns (fs_node_at fs ns)"
  shows "touches_only P fs fs'"
  using assms by (auto simp: remove_file_def touches_only_def split: option.splits fs_node.splits if_splits sum.splits)

lemma remove_dir_touches:
  assumes "remove_dir h fs cwd p = (r, fs')" "\<And>ns. name_of fs cwd p = Inr ns \<Longrightarrow> P ns (fs_node_at fs ns)"
  shows "touches_only P fs fs'"
  using assms by (auto simp: remove_dir_def touches_only_def split: option.splits fs_node.splits if_splits sum.splits)

text \<open>The three requests by what their resolution gives; \<open>fs1\<close> is the file system after pruning.\<close>

lemma guard_state:
  assumes "ensure_not_active_upload_target dev cwd now target (m, fs) = (r, m1, fs1)"
  shows "prune_upload_files dev cwd now m fs = (m1, fs1)" "r = Inr () \<longleftrightarrow> \<not> path_matches_active dev fs1 cwd target (active_upload_targets m1)"
  using assms by (auto simp: ensure_not_active_upload_target_def split: prod.splits if_splits)

lemma write_request_touches:
  assumes "write_session_file env (Inr root) requested data (m, fs) = (a, m', fs')"
    and "\<And>target fs1 ns. resolve_writable_session_file_target fs (fe_cwd env) root requested = Inr target \<Longrightarrow>
      ensure_not_active_upload_target (fe_dev env) (fe_cwd env) (fe_now env) target (m, fs) = (Inr (), m', fs1) \<Longrightarrow>
      walk True fs1 max_links (fe_cwd env) target = Inr ns \<Longrightarrow> P ns (fs_node_at fs1 ns)"
  shows "fs' = fs \<or> (\<exists>fs1. prune_upload_files (fe_dev env) (fe_cwd env) (fe_now env) m fs = (m', fs1) \<and> touches_only P fs1 fs')"
proof (cases "fs' = fs")
  case False
  then obtain target r m1 fs1 where t: "resolve_writable_session_file_target fs (fe_cwd env) root requested = Inr target"
      "ensure_not_active_upload_target (fe_dev env) (fe_cwd env) (fe_now env) target (m, fs) = (r, m1, fs1)"
    using assms(1) by (auto simp: write_session_file_def split: sum.splits prod.splits)
  have m1: "m' = m1" and pr: "prune_upload_files (fe_dev env) (fe_cwd env) (fe_now env) m fs = (m1, fs1)"
    using assms(1) t guard_state(1) [OF t(2)]
    by (auto simp: write_session_file_def split: sum.splits prod.splits if_splits option.splits)
  have "touches_only P fs1 fs'"
  proof (cases "fs' = fs1")
    case False
    then obtain bytes x where "r = Inr ()" "write_file fs1 (fe_cwd env) target bytes = (x, fs')"
      using assms(1) t by (auto simp: write_session_file_def split: sum.splits prod.splits if_splits option.splits)
    with assms(2) t m1 show ?thesis by (auto intro: write_file_touches)
  qed simp
  with m1 pr show ?thesis by blast
qed simp

lemma delete_request_touches:
  assumes "delete_session_file env (Inr root) requested (m, fs) = (a, m', fs')"
    and "\<And>target fs1 ns. resolve_writable_session_file_target fs (fe_cwd env) root requested = Inr target \<Longrightarrow>
      ensure_not_active_upload_target (fe_dev env) (fe_cwd env) (fe_now env) target (m, fs) = (Inr (), m', fs1) \<Longrightarrow>
      name_of fs1 (fe_cwd env) target = Inr ns \<Longrightarrow> P ns (fs_node_at fs1 ns)"
  shows "fs' = fs \<or> (\<exists>fs1. prune_upload_files (fe_dev env) (fe_cwd env) (fe_now env) m fs = (m', fs1) \<and> touches_only P fs1 fs')"
proof (cases "fs' = fs")
  case False
  then obtain target r m1 fs1 where t: "resolve_writable_session_file_target fs (fe_cwd env) root requested = Inr target"
      "ensure_not_active_upload_target (fe_dev env) (fe_cwd env) (fe_now env) target (m, fs) = (r, m1, fs1)"
    using assms(1) by (auto simp: delete_session_file_def split: sum.splits prod.splits)
  have m1: "m' = m1" and pr: "prune_upload_files (fe_dev env) (fe_cwd env) (fe_now env) m fs = (m1, fs1)"
    using assms(1) t guard_state(1) [OF t(2)]
    by (auto simp: delete_session_file_def split: sum.splits prod.splits if_splits)
  have "touches_only P fs1 fs'"
  proof (cases "fs' = fs1")
    case False
    then obtain x where "r = Inr ()"
        "remove_dir (fe_has_entries env) fs1 (fe_cwd env) target = (x, fs') \<or> remove_file fs1 (fe_cwd env) target = (x, fs')"
      using assms(1) t by (auto simp: delete_session_file_def split: sum.splits prod.splits if_splits)
    with assms(2) t m1 show ?thesis by (auto intro: remove_file_touches remove_dir_touches)
  qed simp
  with m1 pr show ?thesis by blast
qed simp

lemma read_request_result:
  assumes "read_session_file env (Inr root) requested limit (m, fs) = (a, m', fs')"
  shows "fs' = fs \<or> prune_upload_files (fe_dev env) (fe_cwd env) (fe_now env) m fs = (m', fs')"
    "a = Inr (target, enc) \<Longrightarrow> resolve_existing_session_file_target fs (fe_cwd env) root requested = Inr target \<and>
      ensure_not_active_upload_target (fe_dev env) (fe_cwd env) (fe_now env) target (m, fs) = (Inr (), m', fs') \<and> target \<noteq> [] \<and>
      (\<exists>ns i. walk False fs' max_links (fe_cwd env) target = Inr ns \<and> fs_node_at fs' ns = Some (File i) \<and> enc = fe_encode env (fs_data fs' i))"
proof -
  show "fs' = fs \<or> prune_upload_files (fe_dev env) (fe_cwd env) (fe_now env) m fs = (m', fs')"
  proof (cases "fs' = fs")
    case False
    then obtain target r m1 fs1 where t: "resolve_existing_session_file_target fs (fe_cwd env) root requested = Inr target"
        "ensure_not_active_upload_target (fe_dev env) (fe_cwd env) (fe_now env) target (m, fs) = (r, m1, fs1)"
      using assms by (auto simp: read_session_file_def split: sum.splits prod.splits)
    then have "m' = m1" "fs' = fs1"
      using assms by (auto simp: read_session_file_def Let_def split: sum.splits prod.splits if_splits)
    then show ?thesis using guard_state(1) [OF t(2)] by simp
  qed simp
next
  assume a: "a = Inr (target, enc)"
  then obtain r m1 fs1 where t: "resolve_existing_session_file_target fs (fe_cwd env) root requested = Inr target"
      "ensure_not_active_upload_target (fe_dev env) (fe_cwd env) (fe_now env) target (m, fs) = (r, m1, fs1)"
    using assms by (auto simp: read_session_file_def Let_def split: sum.splits prod.splits if_splits)
  obtain bytes where b: "r = Inr ()" "m' = m1" "fs' = fs1" "read_file fs1 (fe_cwd env) target = Inr bytes" "enc = fe_encode env bytes"
    using assms a t by (auto simp: read_session_file_def Let_def split: sum.splits prod.splits if_splits)
  from b(4) have "target \<noteq> []" by (auto simp: read_file_def)
  moreover from b(4) obtain ns i where "walk False fs1 max_links (fe_cwd env) target = Inr ns" "fs_node_at fs1 ns = Some (File i)" "bytes = fs_data fs1 i"
    by (auto simp: read_file_def split: if_splits sum.splits option.splits fs_node.splits)
  ultimately show "resolve_existing_session_file_target fs (fe_cwd env) root requested = Inr target \<and>
      ensure_not_active_upload_target (fe_dev env) (fe_cwd env) (fe_now env) target (m, fs) = (Inr (), m', fs') \<and> target \<noteq> [] \<and>
      (\<exists>ns i. walk False fs' max_links (fe_cwd env) target = Inr ns \<and> fs_node_at fs' ns = Some (File i) \<and> enc = fe_encode env (fs_data fs' i))"
    using t b by blast
qed

lemma serve_request_touches:
  assumes "serve_file_request env (Inr root) requested rq (m, fs) = (a, m', fs')" "0 \<notin> upload_inodes m"
    and "\<And>target fs1 ns. resolve_writable_session_file_target fs (fe_cwd env) root requested = Inr target \<Longrightarrow>
      ensure_not_active_upload_target (fe_dev env) (fe_cwd env) (fe_now env) target (m, fs) = (Inr (), m', fs1) \<Longrightarrow>
      pruned (upload_inodes m) fs fs1 \<Longrightarrow>
      walk True fs1 max_links (fe_cwd env) target = Inr ns \<or> name_of fs1 (fe_cwd env) target = Inr ns \<Longrightarrow> P ns (fs_node_at fs1 ns)"
  shows "\<exists>fs1. (fs1 = fs \<or> prune_upload_files (fe_dev env) (fe_cwd env) (fe_now env) m fs = (m', fs1)) \<and>
      pruned (upload_inodes m) fs fs1 \<and> touches_only P fs1 fs'"
proof -
  have pr: "pruned (upload_inodes m) fs fs1" if "prune_upload_files (fe_dev env) (fe_cwd env) (fe_now env) m fs = (m1, fs1)" for m1 fs1
    using prune_upload_files_pruned [OF that assms(2)] .
  have here: "P ns (fs_node_at fs1 ns)"
    if "resolve_writable_session_file_target fs (fe_cwd env) root requested = Inr target"
      "ensure_not_active_upload_target (fe_dev env) (fe_cwd env) (fe_now env) target (m, fs) = (Inr (), m', fs1)"
      "walk True fs1 max_links (fe_cwd env) target = Inr ns \<or> name_of fs1 (fe_cwd env) target = Inr ns" for target fs1 ns
    using assms(3) [OF that(1,2) pr [OF guard_state(1) [OF that(2)]] that(3)] .
  have "fs' = fs \<or> (\<exists>fs1. prune_upload_files (fe_dev env) (fe_cwd env) (fe_now env) m fs = (m', fs1) \<and> touches_only P fs1 fs')"
  proof (cases rq)
    case (Read_File limit)
    with assms(1) have "read_session_file env (Inr root) requested limit (m, fs) = (a, m', fs')" by (simp add: serve_file_request_def)
    from read_request_result(1) [OF this] show ?thesis by auto
  next
    case (Write_File data)
    with assms(1) obtain a' where w: "write_session_file env (Inr root) requested data (m, fs) = (a', m', fs')"
      by (auto simp: serve_file_request_def split: prod.splits)
    show ?thesis by (rule write_request_touches [OF w]) (use here in blast)
  next
    case Delete_File
    with assms(1) obtain a' where d: "delete_session_file env (Inr root) requested (m, fs) = (a', m', fs')"
      by (auto simp: serve_file_request_def split: prod.splits)
    show ?thesis by (rule delete_request_touches [OF d]) (use here in blast)
  qed
  with pr show ?thesis by (metis pruned_refl touches_only_refl)
qed

section \<open>Inside the root\<close>

lemma walk_new_name:
  assumes "resolved_at False fs ms" "fs_node_at fs (ms @ [n]) = None" "pruned I fs fs1"
    and "walk True fs1 links cwd (real_path (ms @ [n])) = Inr ns"
  shows "ns = ms @ [n]"
proof -
  have walk: "walk False fs links cwd (real_path ms) = Inr ms" by (rule walk_resolved_again [OF assms(1)])
  have none: "fs_node_at fs1 (ms @ [n]) = None" using assms(2,3) unfolding pruned_def by (metis option.distinct(1))
  show ?thesis
  proof (cases "is_dir_chain fs ms")
    case True
    from walk_append_chain [of fs1 "[]" ms True links n] pruned_dir_chain [OF assms(3) True] assms(4) none show ?thesis
      by (auto simp: real_path_def Let_def split: if_splits)
  next
    case False
    then obtain ps q where ms: "ms = ps @ [q]" "is_dir_chain fs ps" "\<exists>i. fs_node_at fs ms = Some (File i)"
      using assms(1) by (auto simp: resolved_at_def) (metis append_butlast_last_id)
    have at: "(\<exists>i. fs_node_at fs1 (ps @ [q]) = Some (File i)) \<or> fs_node_at fs1 (ps @ [q]) = None"
      using assms(3) ms unfolding pruned_def by metis
    have "walk True fs1 links cwd (real_path (ms @ [n])) = walk True fs1 links [] (map Normal ps @ [Normal q, Normal n])"
      by (simp add: real_path_def ms(1))
    also have "\<dots> = walk True fs1 links ps [Normal q, Normal n]"
      using walk_through_chain [of fs1 "[]" ps True links "[Normal q, Normal n]"] pruned_dir_chain [OF assms(3) ms(2)] by simp
    finally show ?thesis using assms(4) at by (auto simp: Let_def split: if_splits)
  qed
qed

lemma name_of_real: "name_of fs cwd (real_path (ms @ [n])) = Inr ns \<Longrightarrow> walk False fs max_links cwd (real_path ms) = Inr ps \<Longrightarrow> ns = ps @ [n]"
  by (auto simp: name_of_def real_path_parts split: if_splits)

text \<open>The directory of a target resolves to itself after pruning, if it resolves at all.\<close>

lemma walk_pruned_same:
  assumes "resolved_at False fs ms" "pruned I fs fs1" "walk False fs1 links cwd (real_path ms) = Inr ps"
  shows "ps = ms"
proof -
  have "walk True fs1 links cwd (real_path ms) = Inr ms"
    by (rule walk_pruned [OF walk_resolved_again [OF assms(1)] assms(2)])
  moreover have "walk True fs1 links cwd (real_path ms) = Inr ps"
    by (rule walk_pruned [OF assms(3) pruned_refl])
  ultimately show ?thesis by simp
qed

lemma target_inside:
  assumes "canonicalize fs cwd root = Inr (real_path rs)" "root_scoped (real_path rs) requested" "is_dir_chain fs cwd"
    and "resolve_writable_session_file_target fs cwd root requested = Inr target" "pruned I fs fs1"
  shows "walk True fs1 max_links cwd target = Inr ns \<Longrightarrow> prefix rs ns" "name_of fs1 cwd target = Inr ns \<Longrightarrow> prefix rs ns"
proof -
  obtain ms n where t: "target = real_path (ms @ [n])" "prefix rs ms" "resolved_at False fs ms"
      "fs_node_at fs (ms @ [n]) = None \<or> (\<exists>ns. walk False fs max_links cwd target = Inr ns \<and> prefix rs ns)"
    using resolve_writable_inside [OF assms(1-4)] .
  show "prefix rs ns" if w: "walk True fs1 max_links cwd target = Inr ns"
    using t(4)
  proof
    assume "fs_node_at fs (ms @ [n]) = None"
    from walk_new_name [OF t(3) this assms(5) w [unfolded t(1)]] t(2) show ?thesis by (simp add: prefix_prefix)
  next
    assume "\<exists>ns. walk False fs max_links cwd target = Inr ns \<and> prefix rs ns"
    then obtain ns' where "walk False fs max_links cwd target = Inr ns'" "prefix rs ns'" by blast
    with walk_pruned [OF this(1) assms(5)] w show ?thesis by simp
  qed
  show "prefix rs ns" if nm: "name_of fs1 cwd target = Inr ns"
  proof -
    obtain ps where ps: "walk False fs1 max_links cwd (real_path ms) = Inr ps"
      using nm by (auto simp: t(1) name_of_def real_path_parts split: sum.splits)
    from name_of_real [OF nm [unfolded t(1)] ps] walk_pruned_same [OF t(3) assms(5) ps] t(2) show ?thesis
      by (simp add: prefix_prefix)
  qed
qed

lemma touches_only_mono: "touches_only P fs fs' \<Longrightarrow> (\<And>ns x. P ns x \<Longrightarrow> Q ns x) \<Longrightarrow> touches_only Q fs fs'"
  unfolding touches_only_def by blast

text \<open>
  An example: the root \<open>/r\<close> with a file \<open>a\<close>, a link \<open>l\<close> to \<open>../o\<close> outside, and the file of an active upload, which has
  the name \<open>p\<close> and an alias \<open>q\<close>.
\<close>

definition demo_fs :: file_system where
  "demo_fs = \<lparr>fs_node_at = map_of [([[114]], Dir 1), ([[111]], Dir 3), ([[114], [97]], File 2), ([[114], [108]], Link [ParentDir, Normal [111]]),
       ([[114], [112]], File 5), ([[114], [113]], File 5)],
     fs_data = (\<lambda>i. [i]), fs_nlink = (\<lambda>i. if i = 5 then 2 else 1), fs_denied = (\<lambda>_. False), fs_next_inode = 10\<rparr>"

definition demo_file_env :: file_env where
  "demo_file_env = \<lparr>fe_dev = 7, fe_cwd = [], fe_now = 1000, fe_decode = Some, fe_encode = (\<lambda>b. b), fe_has_entries = (\<lambda>_. True)\<rparr>"

definition demo_active_upload :: upload_state where
  "demo_active_upload = upload_new 1 (real_path [[114], [117]]) (real_path [[114], [112]]) ''u'' 1 \<lparr>fi_dev = 7, fi_ino = 5, fi_len = 1\<rparr> 900"

definition demo_uploads :: uploads where
  "demo_uploads = [(''u'', demo_active_upload)]"

lemma demo_text: "trim_text [97] = [97]" "path_new [97] = [Normal [97]]"
  by (simp_all add: trim_text_def is_whitespace_def path_new_def component_of_def starts_with_def)

lemma demo_canonical:
  "canonicalize demo_fs [] [RootDir, Normal [114]] = Inr [RootDir, Normal [114]]"
  "canonicalize demo_fs [] [RootDir, Normal [114], Normal [97]] = Inr [RootDir, Normal [114], Normal [97]]"
  "path_metadata demo_fs [] [RootDir, Normal [114], Normal [97]] = Inr \<lparr>md_is_dir = False, md_inode = 2, md_len = 1, md_nlink = 1\<rparr>"
  "read_file demo_fs [] [RootDir, Normal [114], Normal [97]] = Inr [2]"
  by code_simp+

lemma demo_prune: "prune_upload_files 7 [] 1000 demo_uploads demo_fs = (demo_uploads, demo_fs)"
  by (simp add: demo_uploads_def demo_active_upload_def upload_new_def prune_upload_file_def prune_upload_def upload_is_stale_def
      upload_active_idle_ttl_ms_def)

lemma demo_serve:
  "serve_file_request demo_file_env (Inr (real_path [[114]])) [97] (Read_File None) (demo_uploads, demo_fs) =
    (Inr (real_path [[114], [97]], [2]), demo_uploads, demo_fs)"
proof -
  have "resolve_existing_session_file_target demo_fs [] (real_path [[114]]) [97] = Inr (real_path [[114], [97]])"
    by (simp add: resolve_existing_session_file_target_def demo_text is_absolute_def path_join_def session_file_request_is_root_scoped_def
        real_path_def demo_canonical ensure_path_inside_root_def path_starts_with_def)
  moreover have "ensure_not_active_upload_target 7 [] 1000 (real_path [[114], [97]]) (demo_uploads, demo_fs) = (Inr (), demo_uploads, demo_fs)"
    unfolding ensure_not_active_upload_target_def fst_conv snd_conv demo_prune
    by (simp add: path_matches_active_def active_upload_targets_def demo_canonical
        demo_uploads_def demo_active_upload_def upload_new_def is_same_filesystem_object_def identity_of_metadata_def real_path_def)
  ultimately show ?thesis
    by (simp add: serve_file_request_def read_session_file_def demo_file_env_def demo_canonical real_path_def Let_def session_file_rpc_max_bytes_def)
qed

text \<open>
  C19. Requests stay inside the root of their session. Let the request name a relative path, or an absolute one
  that begins with the root. Then, whatever dots, symbolic links and missing names are on the way, the request
  changes names inside the (canonical) root and the content of files that have a name there, and nothing else,
  apart from the temporary files of stale uploads that it prunes first; and what a read returns is the content
  of a file inside the root.
\<close>

theorem file_requests_stay_inside_root:
  assumes "serve_file_request env (Inr root) requested rq (m, fs) = (a, m', fs')"
    and "canonicalize fs (fe_cwd env) root = Inr (real_path rs)" "root_scoped (real_path rs) requested"
    and "is_dir_chain fs (fe_cwd env)" "0 \<notin> upload_inodes m" "trim_text requested \<noteq> []"
  shows "\<exists>fs1. (fs1 = fs \<or> prune_upload_files (fe_dev env) (fe_cwd env) (fe_now env) m fs = (m', fs1)) \<and>
      pruned (upload_inodes m) fs fs1 \<and> touches_only (\<lambda>ns _. prefix rs ns) fs1 fs' \<and>
      (\<forall>limit target enc. rq = Read_File limit \<longrightarrow> a = Inr (target, enc) \<longrightarrow>
        (\<exists>ns i. prefix rs ns \<and> fs_node_at fs' ns = Some (File i) \<and> enc = fe_encode env (fs_data fs' i)))"
proof -
  have "\<exists>fs1. (fs1 = fs \<or> prune_upload_files (fe_dev env) (fe_cwd env) (fe_now env) m fs = (m', fs1)) \<and>
      pruned (upload_inodes m) fs fs1 \<and> touches_only (\<lambda>ns _. prefix rs ns) fs1 fs'"
    by (rule serve_request_touches [OF assms(1,5)]) (use target_inside [OF assms(2,3,4)] in blast)
  moreover have "\<exists>ns i. prefix rs ns \<and> fs_node_at fs' ns = Some (File i) \<and> enc = fe_encode env (fs_data fs' i)"
    if "rq = Read_File limit" "a = Inr (target, enc)" for limit target enc
  proof -
    from assms(1) that(1) have rd: "read_session_file env (Inr root) requested limit (m, fs) = (a, m', fs')"
      by (simp add: serve_file_request_def)
    from read_request_result(2) [OF rd that(2)]
    obtain ns i where r: "resolve_existing_session_file_target fs (fe_cwd env) root requested = Inr target"
        "ensure_not_active_upload_target (fe_dev env) (fe_cwd env) (fe_now env) target (m, fs) = (Inr (), m', fs')"
        "walk False fs' max_links (fe_cwd env) target = Inr ns" "fs_node_at fs' ns = Some (File i)" "enc = fe_encode env (fs_data fs' i)"
      by blast
    obtain ts where t: "target = real_path ts" "prefix rs ts" "resolved_at False fs ts"
      using resolve_existing_inside [OF assms(2,3,4) r(1) assms(6)] .
    have "pruned (upload_inodes m) fs fs'" by (rule prune_upload_files_pruned [OF guard_state(1) [OF r(2)] assms(5)])
    from walk_pruned_same [OF t(3) this r(3) [unfolded t(1)]] t(2) r(4,5) show ?thesis by blast
  qed
  ultimately show ?thesis by blast
qed

theorem file_requests_stay_inside_root_witness:
  "\<exists>ns i. prefix [[114]] ns \<and> fs_node_at demo_fs ns = Some (File i) \<and> [2] = fe_encode demo_file_env (fs_data demo_fs i)"
proof -
  have root: "canonicalize demo_fs (fe_cwd demo_file_env) (real_path [[114]]) = Inr (real_path [[114]])"
    by (simp add: demo_file_env_def real_path_def demo_canonical)
  have scoped: "root_scoped (real_path [[114]]) [97]" "trim_text [97] \<noteq> []" by (simp_all add: root_scoped_def demo_text is_absolute_def)
  have chain: "is_dir_chain demo_fs (fe_cwd demo_file_env)" by (simp add: demo_file_env_def)
  have ino: "0 \<notin> upload_inodes demo_uploads" by (simp add: upload_inodes_def demo_uploads_def demo_active_upload_def upload_new_def)
  from file_requests_stay_inside_root [OF demo_serve root scoped(1) chain ino scoped(2)]
  have "\<forall>limit target enc. Read_File None = Read_File limit \<longrightarrow> Inr (real_path [[114], [97]], [2]) = (Inr (target, enc) :: protocol_error + _) \<longrightarrow>
      (\<exists>ns i. prefix [[114]] ns \<and> fs_node_at demo_fs ns = Some (File i) \<and> enc = fe_encode demo_file_env (fs_data demo_fs i))"
    by (elim exE conjE)
  from this [rule_format, OF refl refl] show ?thesis by blast
qed

section \<open>Uploads are isolated\<close>

lemma resolve_writable_real:
  assumes "resolve_writable_session_file_target fs cwd root requested = Inr target" "is_dir_chain fs cwd"
  obtains ms n where "target = real_path (ms @ [n])" "resolved_at False fs ms"
proof -
  obtain c parent n where c: "canonicalize fs cwd c = Inr parent" "target = path_join parent [Normal n]"
    using assms(1)
    by (auto simp: resolve_writable_session_file_target_def Let_def split: sum.splits if_splits option.splits io_error.splits)
  obtain ms where "parent = real_path ms" "resolved_at False fs ms" using canonicalize_idem [OF c(1) assms(2)] by blast
  with c(2) show thesis using that real_path_snoc by blast
qed

lemma walk_create_exists: "walk True fs links cur p = Inr ns \<Longrightarrow> fs_node_at fs ns \<noteq> None \<Longrightarrow> walk False fs links cur p = Inr ns"
proof (induction "True" fs links cur p rule: walk.induct)
  case (5 fs links cur n cs)
  then show ?case by (auto simp: Let_def split: if_splits option.splits fs_node.splits nat.splits)
qed auto

lemma name_of_file_walk:
  assumes "resolved_at False fs ms" "pruned I fs fs1" "name_of fs1 cwd (real_path (ms @ [n])) = Inr ns" "fs_node_at fs1 ns = Some (File i)"
  shows "walk False fs1 max_links cwd (real_path (ms @ [n])) = Inr ns"
proof -
  obtain ps where ps: "walk False fs1 max_links cwd (real_path ms) = Inr ps"
    using assms(3) by (auto simp: name_of_def real_path_parts split: sum.splits)
  have ms: "ps = ms" by (rule walk_pruned_same [OF assms(1,2) ps])
  have ns: "ns = ms @ [n]" "\<not> fs_denied fs1 (ms @ [n])" "\<not> (\<exists>i. fs_node_at fs1 ms = Some (File i))"
    using assms(3) ps ms by (auto simp: name_of_def real_path_parts split: if_splits fs_node.splits option.splits)
  have "resolved_at False fs1 ms" using walk_resolved [OF ps [unfolded real_path_def, simplified]] ms by simp
  with ns(3) have "is_dir_chain fs1 ms" by (auto simp: resolved_at_def)
  with walk_through_chain [of fs1 "[]" ms False max_links "[Normal n]"] ns assms(4) show ?thesis by (simp add: real_path_def)
qed

text \<open>A path that the guard lets pass does not lead to the file of an active upload.\<close>

lemma guard_keeps_away:
  assumes "ensure_not_active_upload_target dev cwd now target st = (Inr (), m1, fs1)" "(k, u) \<in> set m1" "up_status u = Up_Active"
    and "fi_dev (up_file_identity u) = dev" "walk False fs1 max_links cwd target = Inr ns" "target \<noteq> []"
  shows "fs_node_at fs1 ns \<noteq> Some (File (fi_ino (up_file_identity u)))"
proof
  assume at: "fs_node_at fs1 ns = Some (File (fi_ino (up_file_identity u)))"
  have "(up_target u, up_file_identity u) \<in> set (active_upload_targets m1)"
    using assms(2,3) by (force simp: active_upload_targets_def)
  moreover obtain md where "path_metadata fs1 cwd target = Inr md" "md_inode md = fi_ino (up_file_identity u)"
    using assms(5,6) at by (simp add: path_metadata_def node_metadata_def)
  moreover have "\<not> path_matches_active dev fs1 cwd target (active_upload_targets m1)"
    using assms(1) by (auto simp: ensure_not_active_upload_target_def split: prod.splits if_splits)
  ultimately show False using assms(4)
    by (force simp: path_matches_active_def is_same_filesystem_object_def identity_of_metadata_def)
qed

text \<open>
  C20. A file that is being uploaded is out of reach: no request to read, write or delete a file, by whatever
  path, link or alias, reads its content, changes it or takes away one of its names.
\<close>

theorem active_uploads_are_isolated:
  assumes "serve_file_request env (Inr root) requested rq (m, fs) = (a, m', fs')" "is_dir_chain fs (fe_cwd env)" "0 \<notin> upload_inodes m"
    and "(k, u) \<in> set m'" "up_status u = Up_Active" "fi_dev (up_file_identity u) = fe_dev env" "fi_ino (up_file_identity u) < fs_next_inode fs"
  shows "\<exists>fs1. (fs1 = fs \<or> prune_upload_files (fe_dev env) (fe_cwd env) (fe_now env) m fs = (m', fs1)) \<and>
    fs_data fs' (fi_ino (up_file_identity u)) = fs_data fs (fi_ino (up_file_identity u)) \<and>
    (\<forall>ns. fs_node_at fs1 ns = Some (File (fi_ino (up_file_identity u))) \<longrightarrow> fs_node_at fs' ns = fs_node_at fs1 ns) \<and>
    (\<forall>limit target enc. rq = Read_File limit \<longrightarrow> a = Inr (target, enc) \<longrightarrow>
      (\<exists>ns j. fs_node_at fs' ns = Some (File j) \<and> j \<noteq> fi_ino (up_file_identity u) \<and> enc = fe_encode env (fs_data fs' j)))"
proof -
  let ?i = "fi_ino (up_file_identity u)" and ?P = "\<lambda>ns x. x \<noteq> Some (File (fi_ino (up_file_identity u)))"
  note away = guard_keeps_away [OF _ assms(4,5,6)]
  have "\<exists>fs1. (fs1 = fs \<or> prune_upload_files (fe_dev env) (fe_cwd env) (fe_now env) m fs = (m', fs1)) \<and>
      pruned (upload_inodes m) fs fs1 \<and> touches_only ?P fs1 fs'"
  proof (rule serve_request_touches [OF assms(1,3)])
    fix target fs1 ns
    assume t: "resolve_writable_session_file_target fs (fe_cwd env) root requested = Inr target"
      "ensure_not_active_upload_target (fe_dev env) (fe_cwd env) (fe_now env) target (m, fs) = (Inr (), m', fs1)"
      "pruned (upload_inodes m) fs fs1" "walk True fs1 max_links (fe_cwd env) target = Inr ns \<or> name_of fs1 (fe_cwd env) target = Inr ns"
    obtain ms n where tm: "target = real_path (ms @ [n])" "resolved_at False fs ms" using resolve_writable_real [OF t(1) assms(2)] .
    show "fs_node_at fs1 ns \<noteq> Some (File ?i)"
      using t(4) away [OF t(2)] walk_create_exists [of fs1 max_links "fe_cwd env" target ns] name_of_file_walk [OF tm(2) t(3)] tm(1) by auto
  qed
  then obtain fs1 where fs1: "fs1 = fs \<or> prune_upload_files (fe_dev env) (fe_cwd env) (fe_now env) m fs = (m', fs1)"
      "pruned (upload_inodes m) fs fs1" "touches_only ?P fs1 fs'" by blast
  have "?i \<noteq> fs_next_inode fs1" "fs_data fs1 = fs_data fs" using fs1(2) assms(7) by (auto simp: pruned_def)
  with fs1(3) have "fs_data fs' ?i = fs_data fs ?i" unfolding touches_only_def by metis
  moreover have "\<forall>ns. fs_node_at fs1 ns = Some (File ?i) \<longrightarrow> fs_node_at fs' ns = fs_node_at fs1 ns"
    using fs1(3) unfolding touches_only_def by metis
  moreover have "\<exists>ns j. fs_node_at fs' ns = Some (File j) \<and> j \<noteq> ?i \<and> enc = fe_encode env (fs_data fs' j)"
    if "rq = Read_File limit" "a = Inr (target, enc)" for limit target enc
  proof -
    from assms(1) that(1) have rd: "read_session_file env (Inr root) requested limit (m, fs) = (a, m', fs')"
      by (simp add: serve_file_request_def)
    from read_request_result(2) [OF rd that(2)] away show ?thesis by blast
  qed
  ultimately show ?thesis using fs1(1) by blast
qed

theorem active_uploads_are_isolated_witness:
  "\<exists>ns j. fs_node_at demo_fs ns = Some (File j) \<and> j \<noteq> 5 \<and> [2] = fe_encode demo_file_env (fs_data demo_fs j)"
proof -
  have chain: "is_dir_chain demo_fs (fe_cwd demo_file_env)" by (simp add: demo_file_env_def)
  have up: "0 \<notin> upload_inodes demo_uploads" "(''u'', demo_active_upload) \<in> set demo_uploads" "up_status demo_active_upload = Up_Active"
    "fi_dev (up_file_identity demo_active_upload) = fe_dev demo_file_env" "fi_ino (up_file_identity demo_active_upload) = 5"
    "fi_ino (up_file_identity demo_active_upload) < fs_next_inode demo_fs"
    by (simp_all add: upload_inodes_def demo_uploads_def demo_active_upload_def upload_new_def demo_file_env_def demo_fs_def)
  from active_uploads_are_isolated [OF demo_serve chain up(1,2,3,4,6)]
  have "\<forall>limit target enc. Read_File None = Read_File limit \<longrightarrow> Inr (real_path [[114], [97]], [2]) = (Inr (target, enc) :: protocol_error + _) \<longrightarrow>
      (\<exists>ns j. fs_node_at demo_fs ns = Some (File j) \<and> j \<noteq> 5 \<and> enc = fe_encode demo_file_env (fs_data demo_fs j))"
    unfolding up(5) by (elim exE conjE)
  from this [rule_format, OF refl refl] show ?thesis by blast
qed

end
