(* ===== verification/Session_Download.thy ===== *)
theory Session_Download
  imports Session_Files One_Time
begin

text \<open>
  Download grants (\<open>termd/src/net/protocol.rs\<close>): a request for a file of a session is answered with a random
  token, and the token is exchanged once, within a minute, for the grant that names the file. At most 128
  grants exist at a time. The ledger of \<open>One_Time\<close> shows that a token works once.
\<close>

declare map_of_eq_Some_iff [simp del] Some_eq_map_of_iff [simp del]

definition session_file_download_token_ttl_ms :: u64 where
  "session_file_download_token_ttl_ms = 60000"

definition session_file_download_grant_limit :: usize where
  "session_file_download_grant_limit = 128"

record session_file_download_grant =
  dg_path :: path
  dg_download_name :: "uchar list"
  dg_size_bytes :: u64
  dg_expires_at_ms :: u64

type_synonym downloads = "(string, session_file_download_grant) hmap"

text \<open>\<open>session_file_download_name\<close>, whose default is the text \<open>download\<close>.\<close>

definition session_file_download_name :: "path \<Rightarrow> uchar list" where
  "session_file_download_name p =
     (case map_option trim_text (path_file_name p) of
        None \<Rightarrow> [100, 111, 119, 110, 108, 111, 97, 100]
      | Some n \<Rightarrow> if n = [] then [100, 111, 119, 110, 108, 111, 97, 100] else n)"

definition expire_session_file_downloads :: "u64 \<Rightarrow> downloads \<Rightarrow> downloads" where
  "expire_session_file_downloads now m = hm_retain (\<lambda>_ g. dg_expires_at_ms g > now) m"

text \<open>The grant for a file, with the random token as an argument.\<close>

definition prepare_session_file_download ::
  "file_env \<Rightarrow> protocol_error + path \<Rightarrow> uchar list \<Rightarrow> string \<Rightarrow> file_state \<times> downloads
    \<Rightarrow> (protocol_error + string \<times> path) \<times> file_state \<times> downloads" where
  "prepare_session_file_download env attached requested token st =
     (case attached of
        Inl e \<Rightarrow> (Inl e, st)
      | Inr root \<Rightarrow>
          (case resolve_existing_session_file_target (snd (fst st)) (fe_cwd env) root requested of
             Inl e \<Rightarrow> (Inl e, st)
           | Inr target \<Rightarrow>
               (case ensure_not_active_upload_target (fe_dev env) (fe_cwd env) (fe_now env) target (fst st) of
                  (Inl e, fst') \<Rightarrow> (Inl e, fst', snd st)
                | (Inr _, fst') \<Rightarrow>
                    (case path_metadata (snd fst') (fe_cwd env) target of
                       Inl e \<Rightarrow> (Inl (map_file_path_error e), fst', snd st)
                     | Inr md \<Rightarrow>
                         if md_is_dir md then (Inl InvalidEnvelope, fst', snd st)
                         else
                           (let m = expire_session_file_downloads (fe_now env) (snd st) in
                            if length m \<ge> session_file_download_grant_limit then (Inl InvalidState, fst', m)
                            else (Inr (token, target), fst',
                                  hm_insert token
                                    \<lparr>dg_path = target, dg_download_name = session_file_download_name target,
                                     dg_size_bytes = md_len md,
                                     dg_expires_at_ms = sat_add64 (fe_now env) session_file_download_token_ttl_ms\<rparr> m))))))"

definition consume_session_file_download ::
  "string \<Rightarrow> u64 \<Rightarrow> downloads \<Rightarrow> (protocol_error + session_file_download_grant) \<times> downloads" where
  "consume_session_file_download token now m0 =
     (let m = expire_session_file_downloads now m0 in
      case hm_get m token of
        None \<Rightarrow> (Inl InvalidEnvelope, m)
      | Some g \<Rightarrow>
          if dg_expires_at_ms g \<le> now then (Inl InvalidEnvelope, hm_remove token m) else (Inr g, hm_remove token m))"

section \<open>Every grant is used once\<close>

definition grant_of :: "path \<Rightarrow> nat \<Rightarrow> nat \<Rightarrow> session_file_download_grant" where
  "grant_of p n x = \<lparr>dg_path = p, dg_download_name = session_file_download_name p, dg_size_bytes = n, dg_expires_at_ms = x\<rparr>"

interpretation dl: one_time "\<lambda>_. True" dg_expires_at_ms "\<lambda>g. dg_download_name g = session_file_download_name (dg_path g)"
  "\<lambda>(_ :: string) (p, n) x. grant_of p n x" "\<lambda>_. False"
  by unfold_locales (auto simp: grant_of_def)

text \<open>The life of the grants: preparations with fresh random tokens, and exchanges.\<close>

inductive download_trace :: "string ledger_event list \<Rightarrow> file_state \<times> downloads \<Rightarrow> bool" where
  dt_start: "download_trace [] (st, [])"
| dt_files: "download_trace log (st, m) \<Longrightarrow> download_trace log (st', m)"
| dt_prepare: "download_trace log (st, m) \<Longrightarrow> hm_get m token = None \<Longrightarrow>
    prepare_session_file_download env attached requested token (st, m) = (a, st', m') \<Longrightarrow>
    download_trace (log @ (case a of Inl _ \<Rightarrow> [] | Inr _ \<Rightarrow> [Issued token (sat_add64 (fe_now env) session_file_download_token_ttl_ms)])) (st', m')"
| dt_consume: "download_trace log (st, m) \<Longrightarrow> consume_session_file_download token now m = (a, m') \<Longrightarrow>
    download_trace (log @ (case a of Inl _ \<Rightarrow> [] | Inr _ \<Rightarrow> [Granted token now])) (st, m')"

lemma expire_shrinks: "hm_wf m \<Longrightarrow> dl.shrinks m (expire_session_file_downloads now m)"
  by (simp add: expire_session_file_downloads_def dl.shrinks_retain)

lemma expire_absent: "hm_wf m \<Longrightarrow> hm_get m k = None \<Longrightarrow> hm_get (expire_session_file_downloads now m) k = None"
  by (simp add: expire_session_file_downloads_def)

lemma expire_length: "length (expire_session_file_downloads now m) \<le> length m"
  by (simp add: expire_session_file_downloads_def hm_retain_def)

text \<open>A preparation leaves the grants, only forgets expired ones, or adds the new one to fewer than 128.\<close>

lemma prepare_download_cases:
  assumes "prepare_session_file_download env attached requested token (st, m) = (a, st', m')"
  obtains (unchanged) er where "a = Inl er" "m' = m"
    | (full) er where "a = Inl er" "m' = expire_session_file_downloads (fe_now env) m"
    | (granted) r p n where "a = Inr r" "length (expire_session_file_downloads (fe_now env) m) < session_file_download_grant_limit"
        "m' = hm_insert token (grant_of p n (sat_add64 (fe_now env) session_file_download_token_ttl_ms)) (expire_session_file_downloads (fe_now env) m)"
proof -
  let ?m = "expire_session_file_downloads (fe_now env) m"
  let ?x = "sat_add64 (fe_now env) session_file_download_token_ttl_ms"
  have "(\<exists>er. a = Inl er \<and> (m' = m \<or> m' = ?m)) \<or>
      (\<exists>r p n. a = Inr r \<and> length ?m < session_file_download_grant_limit \<and> m' = hm_insert token (grant_of p n ?x) ?m)"
    using assms unfolding prepare_session_file_download_def Let_def grant_of_def
    by (auto split: sum.splits prod.splits if_splits)
  then show thesis using unchanged full granted by blast
qed

lemma consume_download_cases:
  assumes "consume_session_file_download token now m = (a, m')" "hm_wf m"
  obtains (refused) er where "a = Inl er" "dl.shrinks m m'"
    | (granted) g where "a = Inr g" "dl.grant token now m m'"
proof -
  let ?m = "expire_session_file_downloads now m"
  have sh: "dl.shrinks m ?m" and wf: "hm_wf ?m"
    using assms(2) by (auto simp: expire_session_file_downloads_def dl.shrinks_retain)
  have rm: "dl.shrinks m (hm_remove token ?m)" using dl.shrinks_trans [OF sh dl.shrinks_remove [OF wf]] .
  show thesis
  proof (cases "hm_get ?m token")
    case None
    with assms(1) sh refused show ?thesis by (auto simp: consume_session_file_download_def)
  next
    case (Some g)
    then have g: "hm_get m token = Some g" using assms(2) by (auto simp: expire_session_file_downloads_def split: option.splits if_splits)
    show ?thesis
    proof (cases "dg_expires_at_ms g \<le> now")
      case True
      with assms(1) Some rm refused show ?thesis by (auto simp: consume_session_file_download_def)
    next
      case False
      with g rm have "dl.grant token now m (hm_remove token ?m)" by (simp add: dl.grant_def)
      with False assms(1) Some granted show ?thesis by (auto simp: consume_session_file_download_def)
    qed
  qed
qed

lemma hm_insert_length: "length (hm_insert k v m) \<le> Suc (length m)"
  by (induction m) auto

lemma shrinks_expire_length: "consume_session_file_download token now m = (a, m') \<Longrightarrow> length m' \<le> length m"
proof -
  have "length (hm_remove k x) \<le> length x" for k and x :: downloads
    by (simp add: AList.delete_eq)
  with expire_length [of now m] show "consume_session_file_download token now m = (a, m') \<Longrightarrow> length m' \<le> length m"
    by (auto simp: consume_session_file_download_def Let_def split: option.splits if_splits) (meson le_trans)+
qed

lemma download_trace_ledger:
  "download_trace log s \<Longrightarrow> dl.ledger_ok log (snd s) \<and> length (snd s) \<le> session_file_download_grant_limit"
proof (induction rule: download_trace.induct)
  case (dt_start st)
  show ?case using dl.ledger_start by simp
next
  case (dt_files log st m st')
  then show ?case by simp
next
  case (dt_prepare log st m token env attached requested a st' m')
  then have ok: "dl.ledger_ok log m" and len: "length m \<le> session_file_download_grant_limit" by simp_all
  let ?m = "expire_session_file_downloads (fe_now env) m"
  have wf: "hm_wf m" by (rule dl.ledgerD(1) [OF ok])
  have ok': "dl.ledger_ok log ?m" by (rule dl.ledger_shrinks [OF ok expire_shrinks [OF wf]])
  from dt_prepare.hyps(3) show ?case
  proof (cases rule: prepare_download_cases)
    case (granted r p n)
    have "dl.ledger_ok (log @ [Issued token (sat_add64 (fe_now env) session_file_download_token_ttl_ms)]) m'"
      unfolding granted(3)
      using dl.ledger_issue [OF ok' expire_absent [OF wf dt_prepare.hyps(2)], where a = "(p, n)"] by simp
    moreover have "length m' \<le> session_file_download_grant_limit"
      unfolding granted(3) using granted(2)
        hm_insert_length [of token "grant_of p n (sat_add64 (fe_now env) session_file_download_token_ttl_ms)" ?m] by linarith
    ultimately show ?thesis using granted(1) by simp
  qed (use ok ok' len expire_length [of "fe_now env" m] in auto)
next
  case (dt_consume log st m token now a m')
  then have ok: "dl.ledger_ok log m" and len: "length m \<le> session_file_download_grant_limit" by simp_all
  from dt_consume.hyps(2) dl.ledgerD(1) [OF ok] show ?case
  proof (cases rule: consume_download_cases)
    case (refused er)
    with ok len shrinks_expire_length [OF dt_consume.hyps(2)] show ?thesis using dl.ledger_shrinks by auto
  next
    case (granted g)
    with ok len shrinks_expire_length [OF dt_consume.hyps(2)] show ?thesis using dl.ledger_grant by auto
  qed
qed

text \<open>
  A download grant is used once. However preparations and exchanges follow one another, no token is
  exchanged more often than it was issued, every exchange happens before the expiry of an issue of that
  token, and there are never more than 128 grants.
\<close>

lemma download_grant_single_use:
  assumes "download_trace log s"
  shows "grants token log \<le> issues token log \<and>
    (\<forall>now. Granted token now \<in> set log \<longrightarrow> (\<exists>x. Issued token x \<in> set log \<and> now < x)) \<and> length (snd s) \<le> 128"
  using dl.ledger_single_use download_trace_ledger [OF assms] by (auto simp: session_file_download_grant_limit_def)

text \<open>A run in which a token is issued and exchanged.\<close>

end
