(* ===== verification/Session_Git.thy ===== *)
theory Session_Git
  imports Session_Files
begin

text \<open>
  Git in the file panel (\<open>termd/src/net/protocol.rs\<close>): the bounded output of a git command, the parsers of
  \<open>git status\<close> and \<open>git worktree list\<close>, the texts sent to clients, and the actions on a file with their checks.
  Running git is a parameter: \<open>run w cwd args\<close> gives the result of the command and the world after it.
  A value \<open>None\<close> of \<open>limit_text_for_payload\<close> is a panic.
\<close>

section \<open>Text functions\<close>

definition strip_cr :: "uchar list \<Rightarrow> uchar list" where
  "strip_cr t = (if t \<noteq> [] \<and> last t = 13 then butlast t else t)"

text \<open>\<open>str::lines\<close>: a text that ends with a line feed has no further empty line.\<close>

definition text_lines :: "uchar list \<Rightarrow> uchar list list" where
  "text_lines t =
     (let parts = split_on 10 t
      in map strip_cr (butlast parts) @ (if last parts = [] then [] else [last parts]))"

definition strip_prefix :: "uchar list \<Rightarrow> uchar list \<Rightarrow> uchar list option" where
  "strip_prefix p t = (if starts_with p t then Some (drop (length p) t) else None)"

definition byte_len :: "uchar list \<Rightarrow> nat" where
  "byte_len t = sum_list (map len_utf8 t)"

text \<open>The text up to, and from, a byte position; \<open>None\<close> inside a character or beyond the end.\<close>

fun byte_split :: "nat \<Rightarrow> uchar list \<Rightarrow> (uchar list \<times> uchar list) option" where
  "byte_split n [] = (if n = 0 then Some ([], []) else None)"
| "byte_split n (c # cs) =
     (if n = 0 then Some ([], c # cs)
      else if len_utf8 c \<le> n then map_option (\<lambda>(a, b). (c # a, b)) (byte_split (n - len_utf8 c) cs)
      else None)"

section \<open>Bounded output\<close>

record bounded_git_output =
  bg_bytes :: "u8 list"
  bg_truncated :: bool

definition bounded_new :: bounded_git_output where
  "bounded_new = \<lparr>bg_bytes = [], bg_truncated = False\<rparr>"

definition bounded_extend :: "nat \<Rightarrow> u8 list \<Rightarrow> bounded_git_output \<Rightarrow> bounded_git_output" where
  "bounded_extend max_bytes bytes out =
     (let retained = min (length bytes) (max_bytes - length (bg_bytes out))
      in \<lparr>bg_bytes = bg_bytes out @ take retained bytes,
          bg_truncated = (if retained < length bytes then True else bg_truncated out)\<rparr>)"

record git_command_result =
  gr_success :: bool
  gr_exit_code :: "int option"
  gr_stdout :: "uchar list"
  gr_stderr :: "uchar list"
  gr_stdout_truncated :: bool
  gr_stderr_truncated :: bool

definition git_truncated :: "git_command_result \<Rightarrow> bool" where
  "git_truncated r \<longleftrightarrow> gr_stdout_truncated r \<or> gr_stderr_truncated r"

type_synonym 'w git_run = "'w \<Rightarrow> path \<Rightarrow> uchar list list \<Rightarrow> (io_error + git_command_result) \<times> 'w"

section \<open>Parsers\<close>

record git_status_line =
  gs_path :: "uchar list"
  gs_status :: "uchar list"
  gs_staged :: bool
  gs_unstaged :: bool

definition parse_git_status_line :: "uchar list \<Rightarrow> git_status_line option" where
  "parse_git_status_line line =
     (case line of
        x # y # _ \<Rightarrow>
          (case byte_split 3 line of
             None \<Rightarrow> None
           | Some (_, p) \<Rightarrow>
               if p = [] then None
               else Some \<lparr>gs_path = p, gs_status = [x, y], gs_staged = (x \<noteq> 32 \<and> x \<noteq> 63),
                          gs_unstaged = (y \<noteq> 32 \<or> x = 63 \<and> y = 63)\<rparr>)
      | _ \<Rightarrow> None)"

text \<open>The fields of \<open>git status -z\<close>; the one after a rename or copy is its old path.\<close>

fun status_fields :: "uchar list list \<Rightarrow> git_status_line list" where
  "status_fields [] = []"
| "status_fields (f # fs) =
     (case parse_git_status_line f of
        None \<Rightarrow> status_fields fs
      | Some c \<Rightarrow>
          if hd (gs_status c) = 82 \<or> hd (gs_status c) = 67 then c # status_fields (tl fs) else c # status_fields fs)"

definition parse_git_status_entries :: "uchar list \<Rightarrow> git_status_line list" where
  "parse_git_status_entries out =
     (if 0 \<in> set out then status_fields (filter (\<lambda>f. f \<noteq> []) (split_on 0 out))
      else List.map_filter parse_git_status_line (text_lines out))"

record git_worktree_info =
  gw_path :: path
  gw_branch :: "uchar list option"
  gw_head :: "uchar list option"

definition short_branch_name :: "uchar list \<Rightarrow> uchar list" where
  "short_branch_name b = (case strip_prefix (ascii ''refs/heads/'') b of Some s \<Rightarrow> s | None \<Rightarrow> b)"

definition short_git_hash :: "uchar list \<Rightarrow> uchar list" where
  "short_git_hash h = take 7 h"

definition normalize_git_worktree :: "file_system \<Rightarrow> names \<Rightarrow> git_worktree_info \<Rightarrow> git_worktree_info" where
  "normalize_git_worktree fs cwd w = (case canonicalize fs cwd (gw_path w) of Inr p \<Rightarrow> w\<lparr>gw_path := p\<rparr> | Inl _ \<Rightarrow> w)"

fun worktree_lines ::
  "(git_worktree_info \<Rightarrow> git_worktree_info) \<Rightarrow> git_worktree_info option \<Rightarrow> uchar list list \<Rightarrow> git_worktree_info list" where
  "worktree_lines norm cur [] = (case cur of None \<Rightarrow> [] | Some w \<Rightarrow> [norm w])"
| "worktree_lines norm cur (l # ls) =
     (if trim_text l = [] then (case cur of None \<Rightarrow> [] | Some w \<Rightarrow> [norm w]) @ worktree_lines norm None ls
      else
        (case strip_prefix (ascii ''worktree '') l of
           Some p \<Rightarrow>
             (case cur of None \<Rightarrow> [] | Some w \<Rightarrow> [norm w]) @
             worktree_lines norm (Some \<lparr>gw_path = path_new p, gw_branch = None, gw_head = None\<rparr>) ls
         | None \<Rightarrow>
             (case strip_prefix (ascii ''HEAD '') l of
                Some h \<Rightarrow>
                  worktree_lines norm
                    (if list_ex (\<lambda>b. b \<noteq> 48) h then map_option (\<lambda>w. w\<lparr>gw_head := Some (short_git_hash h)\<rparr>) cur else cur) ls
              | None \<Rightarrow>
                  (case strip_prefix (ascii ''branch '') l of
                     Some b \<Rightarrow> worktree_lines norm (map_option (\<lambda>w. w\<lparr>gw_branch := Some (short_branch_name b)\<rparr>) cur) ls
                   | None \<Rightarrow> worktree_lines norm cur ls))))"

definition parse_git_worktrees :: "file_system \<Rightarrow> names \<Rightarrow> uchar list \<Rightarrow> git_worktree_info list" where
  "parse_git_worktrees fs cwd out = worktree_lines (normalize_git_worktree fs cwd) None (text_lines out)"

definition first_non_empty_line :: "uchar list \<Rightarrow> uchar list option" where
  "first_non_empty_line t = List.find (\<lambda>l. l \<noteq> []) (map trim_text (text_lines t))"

definition git_error_message :: "git_command_result \<Rightarrow> uchar list \<Rightarrow> uchar list" where
  "git_error_message r fallback =
     (case first_non_empty_line (gr_stderr r) of
        Some l \<Rightarrow> l
      | None \<Rightarrow> (case first_non_empty_line (gr_stdout r) of Some l \<Rightarrow> l | None \<Rightarrow> fallback))"

definition git_command_reports_no_worktree :: "git_command_result \<Rightarrow> bool" where
  "git_command_reports_no_worktree r \<longleftrightarrow> gr_exit_code r = Some 128 \<and>
     list_ex (\<lambda>l. starts_with (ascii ''fatal: not a git repository'') (dropWhile is_whitespace l) \<or>
       starts_with (ascii ''fatal: this operation must be run in a work tree'') (dropWhile is_whitespace l)) (text_lines (gr_stderr r))"

section \<open>Texts for the client\<close>

text \<open>
  \<open>String::truncate\<close> panics inside a character (\<open>None\<close>); the loop after it, which would drop characters until
  the end is a character boundary, has nothing to do when it returns.
\<close>

definition limit_text_for_payload :: "uchar list \<Rightarrow> nat \<Rightarrow> uchar list option" where
  "limit_text_for_payload t max_bytes =
     (if byte_len t \<le> max_bytes then Some t
      else map_option (\<lambda>(a, _). a @ 10 # ascii ''[termd: output truncated]'') (byte_split max_bytes t))"

section \<open>Actions on a file\<close>

definition validate_git_relative_file_path :: "uchar list \<Rightarrow> protocol_error + unit" where
  "validate_git_relative_file_path p =
     (let raw = trim_text p in
      if starts_with [58] raw then Inl InvalidEnvelope
      else if list_ex (\<lambda>b. b \<in> {42, 63, 91, 93}) raw then Inl InvalidEnvelope
      else if raw = [] \<or> is_absolute (path_new raw) then Inl InvalidEnvelope
      else if list_ex (\<lambda>c. \<not> (case c of Normal _ \<Rightarrow> True | _ \<Rightarrow> False)) (path_new raw) then Inl InvalidEnvelope
      else Inr ())"

definition run_git_checked :: "'w git_run \<Rightarrow> 'w \<Rightarrow> path \<Rightarrow> uchar list list \<Rightarrow> (protocol_error + unit) \<times> 'w" where
  "run_git_checked run w cwd args =
     (case run w cwd args of
        (Inl _, w') \<Rightarrow> (Inl RuntimeFailed, w')
      | (Inr r, w') \<Rightarrow> (if gr_success r \<and> \<not> git_truncated r then Inr () else Inl RuntimeFailed, w'))"

definition discard_git_file_change :: "'w git_run \<Rightarrow> 'w \<Rightarrow> path \<Rightarrow> uchar list \<Rightarrow> (protocol_error + unit) \<times> 'w" where
  "discard_git_file_change run w worktree file_path =
     (case run w worktree [ascii ''status'', ascii ''--porcelain=v1'', ascii ''--untracked-files=all'', ascii ''--'', file_path] of
        (Inl _, w') \<Rightarrow> (Inl RuntimeFailed, w')
      | (Inr r, w') \<Rightarrow>
          if git_truncated r \<or> \<not> gr_success r then (Inl RuntimeFailed, w')
          else if list_ex (starts_with (ascii ''??'')) (text_lines (gr_stdout r))
          then run_git_checked run w' worktree [ascii ''clean'', ascii ''-fd'', ascii ''--'', file_path]
          else if list_ex (starts_with [65]) (text_lines (gr_stdout r))
          then run_git_checked run w' worktree [ascii ''rm'', ascii ''-f'', ascii ''--'', file_path]
          else run_git_checked run w' worktree [ascii ''restore'', ascii ''--staged'', ascii ''--worktree'', ascii ''--'', file_path])"

datatype git_action = Stage | Unstage | Discard

definition apply_git_file_action ::
  "'w git_run \<Rightarrow> 'w \<Rightarrow> path \<Rightarrow> uchar list \<Rightarrow> git_action \<Rightarrow> (protocol_error + unit) \<times> 'w" where
  "apply_git_file_action run w worktree file_path action =
     (case action of
        Stage \<Rightarrow> run_git_checked run w worktree [ascii ''add'', ascii ''--'', file_path]
      | Unstage \<Rightarrow> run_git_checked run w worktree [ascii ''restore'', ascii ''--staged'', ascii ''--'', file_path]
      | Discard \<Rightarrow> discard_git_file_change run w worktree file_path)"

definition read_git_diff ::
  "'w git_run \<Rightarrow> 'w \<Rightarrow> path \<Rightarrow> uchar list option \<Rightarrow> bool \<Rightarrow> (protocol_error + uchar list option) \<times> 'w" where
  "read_git_diff run w worktree file_path staged =
     (case run w worktree
        ([ascii ''diff'', ascii ''--no-ext-diff''] @ (if staged then [ascii ''--cached''] else []) @ [ascii ''--''] @
         (case file_path of None \<Rightarrow> [] | Some p \<Rightarrow> [p])) of
        (Inl _, w') \<Rightarrow> (Inl RuntimeFailed, w')
      | (Inr r, w') \<Rightarrow>
          if \<not> gr_success r then (Inl RuntimeFailed, w')
          else (Inr (limit_text_for_payload (gr_stdout r) (256 * 1024)), w'))"

definition git_scope_contains_active_alias ::
  "'w git_run \<Rightarrow> 'w \<Rightarrow> file_env \<Rightarrow> file_system \<Rightarrow> path \<Rightarrow> uchar list option \<Rightarrow> active_target list \<Rightarrow> (protocol_error + bool) \<times> 'w" where
  "git_scope_contains_active_alias run w env fs worktree file_path actives =
     (case run w worktree
        ([ascii ''status'', ascii ''--porcelain=v1'', ascii ''--untracked-files=all'', ascii ''-z''] @
         (case file_path of None \<Rightarrow> [] | Some p \<Rightarrow> [ascii ''--'', p])) of
        (Inl _, w') \<Rightarrow> (Inl RuntimeFailed, w')
      | (Inr r, w') \<Rightarrow>
          if git_truncated r \<or> \<not> gr_success r then (Inl RuntimeFailed, w')
          else (Inr (list_ex (\<lambda>c. path_matches_active (fe_dev env) fs (fe_cwd env) (path_join worktree (path_new (gs_path c))) actives)
                 (parse_git_status_entries (gr_stdout r))), w'))"

definition ensure_no_active_upload_in_git_scope ::
  "'w git_run \<Rightarrow> 'w \<Rightarrow> file_env \<Rightarrow> path \<Rightarrow> uchar list option \<Rightarrow> file_state \<Rightarrow> (protocol_error + unit) \<times> file_state \<times> 'w" where
  "ensure_no_active_upload_in_git_scope run w env worktree file_path st =
     (let (m, fs) = prune_upload_files (fe_dev env) (fe_cwd env) (fe_now env) (fst st) (snd st);
          actives = active_upload_targets m;
          scope = (case file_path of None \<Rightarrow> worktree | Some p \<Rightarrow> path_join worktree (path_new p))
      in if actives = [] then (Inr (), (m, fs), w)
         else if list_ex (\<lambda>a. fst a = scope \<or> path_starts_with (fst a) scope) actives then (Inl InvalidState, (m, fs), w)
         else if path_matches_active (fe_dev env) fs (fe_cwd env) scope actives then (Inl InvalidState, (m, fs), w)
         else
           (case git_scope_contains_active_alias run w env fs worktree file_path actives of
              (Inl e, w') \<Rightarrow> (Inl e, (m, fs), w')
            | (Inr found, w') \<Rightarrow> (if found then Inl InvalidState else Inr (), (m, fs), w')))"

text \<open>An action on a file; \<open>attached\<close> and \<open>worktree\<close> are the answers of the checks before.\<close>

definition apply_session_git_action ::
  "'w git_run \<Rightarrow> 'w \<Rightarrow> file_env \<Rightarrow> protocol_error option \<Rightarrow> protocol_error + path \<Rightarrow> uchar list \<Rightarrow> git_action \<Rightarrow> file_state
    \<Rightarrow> (protocol_error + unit) \<times> file_state \<times> 'w" where
  "apply_session_git_action run w env attached worktree file_path action st =
     (case attached of
        Some e \<Rightarrow> (Inl e, st, w)
      | None \<Rightarrow>
          (case validate_git_relative_file_path file_path of
             Inl e \<Rightarrow> (Inl e, st, w)
           | Inr _ \<Rightarrow>
               (case worktree of
                  Inl e \<Rightarrow> (Inl e, st, w)
                | Inr wt \<Rightarrow>
                    (case ensure_no_active_upload_in_git_scope run w env wt (Some file_path) st of
                       (Inl e, st', w') \<Rightarrow> (Inl e, st', w')
                     | (Inr _, st', w') \<Rightarrow>
                         (let (a, w'') = apply_git_file_action run w' wt file_path action in (a, st', w''))))))"

section \<open>Output and texts are bounded\<close>

lemma bounded_extend_all:
  "foldl (\<lambda>out c. bounded_extend n c out) \<lparr>bg_bytes = take n bs, bg_truncated = (length bs > n)\<rparr> chunks =
    \<lparr>bg_bytes = take n (bs @ concat chunks), bg_truncated = (length (bs @ concat chunks) > n)\<rparr>"
proof (induction chunks arbitrary: bs)
  case (Cons c chunks)
  have "bounded_extend n c \<lparr>bg_bytes = take n bs, bg_truncated = (length bs > n)\<rparr> =
      \<lparr>bg_bytes = take n (bs @ c), bg_truncated = (length (bs @ c) > n)\<rparr>"
    by (auto simp: bounded_extend_def Let_def min_def)
  with Cons.IH [of "bs @ c"] show ?case by simp
qed simp

text \<open>However the output of a command arrives, exactly its first \<open>max_bytes\<close> bytes are kept, and a loss is noticed.\<close>

lemma bounded_output_is_prefix:
  "foldl (\<lambda>out c. bounded_extend n c out) bounded_new chunks =
    \<lparr>bg_bytes = take n (concat chunks), bg_truncated = (length (concat chunks) > n)\<rparr>"
  using bounded_extend_all [of n "[]" chunks] by (simp add: bounded_new_def)

lemma len_utf8_pos [simp]: "0 < len_utf8 c"
  by (simp add: len_utf8_def)

lemma len_utf8_nonzero [simp]: "len_utf8 c \<noteq> 0"
  by (simp add: len_utf8_def)

lemma byte_split_0 [simp]: "byte_split 0 t = Some ([], t)"
  by (cases t) auto

lemma byte_len_append [simp]: "byte_len (a @ b) = byte_len a + byte_len b"
  by (simp add: byte_len_def)

lemma byte_len_simps [simp]: "byte_len [] = 0" "byte_len (c # cs) = len_utf8 c + byte_len cs"
  by (simp_all add: byte_len_def)

lemma byte_split_append: "byte_split (byte_len a + n) (a @ b) = map_option (\<lambda>(x, y). (a @ x, y)) (byte_split n b)"
proof (induction a)
  case Nil
  then show ?case by (simp add: option.map_ident prod.case_eq_if)
next
  case (Cons c cs)
  then show ?case by (auto simp: option.map_comp comp_def prod.case_eq_if)
qed

lemma byte_split_Some: "byte_split n t = Some (a, b) \<Longrightarrow> t = a @ b \<and> byte_len a = n"
  by (induction n t arbitrary: a b rule: byte_split.induct) (auto split: if_splits)

lemma byte_split_inside: "0 < n \<Longrightarrow> n < len_utf8 c \<Longrightarrow> byte_split n (c # b) = None"
  by simp

section \<open>Status entries\<close>

text \<open>What \<open>git status -z\<close> prints: two status letters, a space, the path and, for renames and copies, the old path.\<close>

record status_entry =
  se_index :: uchar
  se_worktree :: uchar
  se_path :: "uchar list"
  se_old :: "uchar list option"

definition print_status_entry :: "status_entry \<Rightarrow> uchar list" where
  "print_status_entry e =
     se_index e # se_worktree e # 32 # se_path e @ [0] @ (case se_old e of None \<Rightarrow> [] | Some old \<Rightarrow> old @ [0])"

definition status_line_of :: "status_entry \<Rightarrow> git_status_line" where
  "status_line_of e =
     \<lparr>gs_path = se_path e, gs_status = [se_index e, se_worktree e], gs_staged = (se_index e \<noteq> 32 \<and> se_index e \<noteq> 63),
      gs_unstaged = (se_worktree e \<noteq> 32 \<or> se_index e = 63 \<and> se_worktree e = 63)\<rparr>"

definition status_entry_ok :: "status_entry \<Rightarrow> bool" where
  "status_entry_ok e \<longleftrightarrow>
     0 < se_index e \<and> se_index e < 128 \<and> 0 < se_worktree e \<and> se_worktree e < 128 \<and> se_path e \<noteq> [] \<and> 0 \<notin> set (se_path e) \<and>
     (case se_old e of
        None \<Rightarrow> se_index e \<noteq> 82 \<and> se_index e \<noteq> 67
      | Some old \<Rightarrow> (se_index e = 82 \<or> se_index e = 67) \<and> old \<noteq> [] \<and> 0 \<notin> set old)"

lemma split_on_field: "sep \<notin> set f \<Longrightarrow> split_on sep (f @ sep # t) = f # split_on sep t"
  by (induction f) auto

lemma parse_status_field:
  "status_entry_ok e \<Longrightarrow> parse_git_status_line (se_index e # se_worktree e # 32 # se_path e) = Some (status_line_of e)"
  by (simp add: status_entry_ok_def parse_git_status_line_def status_line_of_def len_utf8_def)

lemma status_fields_entries:
  assumes "list_all status_entry_ok es"
  shows "status_fields (filter (\<lambda>f. f \<noteq> []) (split_on 0 (concat (map print_status_entry es)))) = map status_line_of es"
  using assms
proof (induction es)
  case (Cons e es)
  let ?rest = "concat (map print_status_entry es)"
  let ?f = "se_index e # se_worktree e # 32 # se_path e"
  have ok: "status_entry_ok e" using Cons.prems by simp
  have f: "0 \<notin> set ?f" using ok by (auto simp: status_entry_ok_def)
  have hd: "hd (gs_status (status_line_of e)) = se_index e" by (simp add: status_line_of_def)
  have IH: "status_fields (filter (\<lambda>f. f \<noteq> []) (split_on 0 ?rest)) = map status_line_of es" using Cons by simp
  show ?case
  proof (cases "se_old e")
    case None
    have "concat (map print_status_entry (e # es)) = ?f @ 0 # ?rest" by (simp add: print_status_entry_def None)
    then have "split_on 0 (concat (map print_status_entry (e # es))) = ?f # split_on 0 ?rest" using split_on_field [OF f] by simp
    with IH ok None hd show ?thesis by (simp add: parse_status_field status_entry_ok_def)
  next
    case (Some old)
    then have old: "0 \<notin> set old" "old \<noteq> []" using ok by (auto simp: status_entry_ok_def)
    have "concat (map print_status_entry (e # es)) = ?f @ 0 # (old @ 0 # ?rest)" by (simp add: print_status_entry_def Some)
    then have "split_on 0 (concat (map print_status_entry (e # es))) = ?f # old # split_on 0 ?rest"
      using split_on_field [OF f, of "old @ 0 # ?rest"] split_on_field [OF old(1), of ?rest] by simp
    with IH ok Some hd old show ?thesis by (simp add: parse_status_field status_entry_ok_def)
  qed
qed simp

lemma print_entries_nonempty: "es \<noteq> [] \<Longrightarrow> 0 \<in> set (concat (map print_status_entry es))"
  by (cases es) (auto simp: print_status_entry_def)

text \<open>
  The status of a work tree is read exactly: what git prints for a list of changes is parsed back to that
  list, with the paths, the status letters and what is staged and unstaged, for every list in which
  the old path of a rename or copy stands after an entry whose first letter is \<open>R\<close> or \<open>C\<close>.
\<close>

lemma git_status_roundtrip:
  assumes "list_all status_entry_ok es"
  shows "parse_git_status_entries (concat (map print_status_entry es)) = map status_line_of es"
proof (cases "es = []")
  case True
  then show ?thesis by (simp add: parse_git_status_entries_def text_lines_def List.map_filter_simps)
next
  case False
  with status_fields_entries [OF assms] print_entries_nonempty show ?thesis by (simp add: parse_git_status_entries_def)
qed

text \<open>
  The second letter says how the work tree differs; git prints the old path also when it is \<open>R\<close> (a rename to a
  file added with \<open>add -N\<close>). The parser then takes the old path for an entry of its own: here a file \<open>d\<close> with
  the status \<open>ab\<close>, which does not exist.
\<close>

lemma worktree_rename_is_misread:
  "parse_git_status_entries (print_status_entry \<lparr>se_index = 32, se_worktree = 82, se_path = [110], se_old = Some [97, 98, 99, 100]\<rparr>) =
    [status_line_of \<lparr>se_index = 32, se_worktree = 82, se_path = [110], se_old = Some [97, 98, 99, 100]\<rparr>,
     \<lparr>gs_path = [100], gs_status = [97, 98], gs_staged = True, gs_unstaged = True\<rparr>]"
  by (simp add: parse_git_status_entries_def print_status_entry_def parse_git_status_line_def status_line_of_def len_utf8_def)

section \<open>A long diff\<close>

text \<open>
  A diff that is too long is cut, unless the limit falls inside a character: then the request panics. A text
  within the limit is sent as it is; a longer one whose limit is a character boundary is sent up to the limit
  with a remark; but if a character covers the limit, \<open>String::truncate\<close> panics before the loop that was to find the
  boundary is reached.
\<close>

lemma long_diff_panics_inside_character:
  "(byte_len t \<le> n \<longrightarrow> limit_text_for_payload t n = Some t) \<and>
   (byte_len a = n \<longrightarrow> b \<noteq> [] \<longrightarrow> limit_text_for_payload (a @ b) n = Some (a @ 10 # ascii ''[termd: output truncated]'')) \<and>
   (byte_len a < n \<longrightarrow> n < byte_len a + len_utf8 c \<longrightarrow> limit_text_for_payload (a @ c # b) n = None)"
proof (intro conjI impI)
  assume "byte_len a = n" "b \<noteq> []"
  then obtain x b' where "b = x # b'" by (cases b) auto
  with \<open>byte_len a = n\<close> byte_split_append [of a 0 b] len_utf8_pos [of x]
  show "limit_text_for_payload (a @ b) n = Some (a @ 10 # ascii ''[termd: output truncated]'')"
    by (simp add: limit_text_for_payload_def del: len_utf8_pos)
next
  assume lt: "byte_len a < n" "n < byte_len a + len_utf8 c"
  then have "byte_split (byte_len a + (n - byte_len a)) (a @ c # b) = None"
    unfolding byte_split_append by simp
  with lt show "limit_text_for_payload (a @ c # b) n = None" by (simp add: limit_text_for_payload_def)
qed (simp add: limit_text_for_payload_def)

section \<open>Paths given to git\<close>

lemma split_on_nonempty [simp]: "split_on sep t \<noteq> []"
  by (induction t) (auto split: list.splits)

lemma split_on_prefix: "sep \<notin> set w \<Longrightarrow> split_on sep (w @ t) = (w @ hd (split_on sep t)) # tl (split_on sep t)"
  by (induction w) (auto split: list.splits)

lemma split_on_suffix: "sep \<notin> set w \<Longrightarrow> split_on sep (t @ w) = butlast (split_on sep t) @ [last (split_on sep t) @ w]"
proof (induction t)
  case Nil
  then show ?case using split_on_prefix [of sep w "[]"] by simp
next
  case (Cons c t)
  then show ?case by (cases "split_on sep t") (auto split: list.splits)
qed

lemma components_normal:
  "(\<forall>c \<in> set (concat (map component_of ps)). \<exists>n. c = Normal n) \<longleftrightarrow> (\<forall>x \<in> set ps. x \<noteq> [46, 46])"
proof (induction ps)
  case (Cons q ps)
  have "(\<forall>c \<in> set (component_of q). \<exists>n. c = Normal n) \<longleftrightarrow> q \<noteq> [46, 46]" by (auto simp: component_of_def)
  with Cons show ?case by (simp add: ball_Un)
qed simp

lemma path_new_normal_iff:
  "(\<not> is_absolute (path_new t) \<and> (\<forall>c \<in> set (path_new t). \<exists>n. c = Normal n)) \<longleftrightarrow>
    \<not> starts_with [47] t \<and> hd (split_on 47 t) \<noteq> [46] \<and> (\<forall>x \<in> set (split_on 47 t). x \<noteq> [46, 46])"
proof -
  obtain q qs where q: "split_on 47 t = q # qs" by (cases "split_on 47 t") auto
  have abs: "\<not> is_absolute (component_of q @ concat (map component_of qs))"
  proof -
    have "RootDir \<notin> set (component_of x)" for x by (auto simp: component_of_def)
    then have "RootDir \<notin> set (component_of q @ concat (map component_of qs))" by auto
    then show ?thesis unfolding is_absolute_def by (metis hd_in_set)
  qed
  show ?thesis
  proof (cases "starts_with [47] t \<or> q = [46]")
    case True
    then show ?thesis by (auto simp: path_new_def q is_absolute_def)
  next
    case False
    from False have eq: "path_new t = concat (map component_of (q # qs))" by (simp add: path_new_def q)
    show ?thesis unfolding eq components_normal q using False abs by simp
  qed
qed

lemma trim_text_parts:
  obtains a b where "t = a @ trim_text t @ b" "\<forall>c \<in> set (a @ b). is_whitespace c"
proof -
  let ?m = "dropWhile is_whitespace t"
  have "trim_text t @ rev (takeWhile is_whitespace (rev ?m)) = ?m"
    unfolding trim_text_def rev_append [symmetric] takeWhile_dropWhile_id rev_rev_ident by (rule refl)
  then have "t = takeWhile is_whitespace t @ trim_text t @ rev (takeWhile is_whitespace (rev ?m))"
    by (simp only: takeWhile_dropWhile_id)
  moreover have "\<forall>c \<in> set (takeWhile is_whitespace t @ rev (takeWhile is_whitespace (rev ?m))). is_whitespace c"
    by (auto dest: set_takeWhileD)
  ultimately show thesis by (rule that)
qed

lemma is_whitespace_special [simp]: "\<not> is_whitespace 46" "\<not> is_whitespace 47"
  by (simp_all add: is_whitespace_def)

lemma hd_extend_last: "p \<noteq> [] \<Longrightarrow> hd (butlast p @ [last p @ b]) = hd p \<or> hd (butlast p @ [last p @ b]) = hd p @ b"
  by (cases p) auto

lemma set_extend_last: "x \<in> set (butlast p @ [last p @ b]) \<Longrightarrow> p \<noteq> [] \<Longrightarrow> x \<in> set p \<or> (\<exists>y \<in> set p. x = y @ b)"
  by (auto dest: in_set_butlastD)

text \<open>A part of a path is a part of the trimmed path or contains white space; so is the first one.\<close>

lemma split_on_trimmed:
  assumes "x \<in> set (split_on 47 t)"
  shows "x \<in> set (split_on 47 (trim_text t)) \<or> (\<exists>c \<in> set x. is_whitespace c)"
    and "x = hd (split_on 47 t) \<Longrightarrow> x = hd (split_on 47 (trim_text t)) \<or> (\<exists>c \<in> set x. is_whitespace c)"
proof -
  obtain a b where t: "t = a @ trim_text t @ b" and ws: "\<forall>c \<in> set (a @ b). is_whitespace c" by (rule trim_text_parts)
  have ab: "47 \<notin> set a" "47 \<notin> set b" using ws is_whitespace_special(2) by (metis Un_iff set_append)+
  let ?p = "split_on 47 (trim_text t)" and ?q = "split_on 47 (trim_text t @ b)"
  have q: "?q = butlast ?p @ [last ?p @ b]" by (rule split_on_suffix [OF ab(2)])
  have parts: "split_on 47 t = (a @ hd ?q) # tl ?q" using split_on_prefix [OF ab(1), of "trim_text t @ b"] t by metis
  have white: "(\<exists>c \<in> set (u @ y). is_whitespace c) \<or> u = []" "(\<exists>c \<in> set (y @ v). is_whitespace c) \<or> v = []"
    if "u = a" "v = b" for u v y using that ws by (cases a; cases b; auto)+
  have in_q: "y \<in> set ?p \<or> (\<exists>c \<in> set y. is_whitespace c)" if "y \<in> set ?q" for y
    using set_extend_last [OF that [unfolded q]] white(2) [OF refl refl] by fastforce
  have hd_q: "hd ?q = hd ?p \<or> (\<exists>c \<in> set (hd ?q). is_whitespace c)"
    using hd_extend_last [of ?p b] white(2) [OF refl refl, of "hd ?p"] unfolding q by auto
  have first: "hd (split_on 47 t) = hd ?q \<or> (\<exists>c \<in> set (hd (split_on 47 t)). is_whitespace c)"
    using white(1) [OF refl refl, of "hd ?q"] unfolding parts by auto
  show "x \<in> set ?p \<or> (\<exists>c \<in> set x. is_whitespace c)"
  proof (cases "x = hd (split_on 47 t)")
    case True
    with first in_q [of "hd ?q"] show ?thesis by auto
  next
    case False
    with assms have "x \<in> set (tl ?q)" unfolding parts by simp
    then have "x \<in> set ?q" by (cases ?q) auto
    then show ?thesis by (rule in_q)
  qed
  show "x = hd ?p \<or> (\<exists>c \<in> set x. is_whitespace c)" if "x = hd (split_on 47 t)"
    using that first hd_q by auto
qed

text \<open>
  Git only gets paths of the work tree. If the path of an action passes the check, which looks at the path
  without white space around it, then the path itself, which git gets, consists of ordinary names: it is
  not absolute, has no \<open>..\<close> and no wildcard, and joined to the work tree it stays below it.
\<close>

lemma git_paths_stay_in_worktree:
  assumes "validate_git_relative_file_path p = Inr ()"
  shows "(\<forall>c \<in> set (path_new p). \<exists>n. c = Normal n) \<and> \<not> is_absolute (path_new p) \<and>
    path_starts_with (path_join (real_path wt) (path_new p)) (real_path wt) \<and> set p \<inter> {42, 63, 91, 93} = {}"
proof -
  let ?raw = "trim_text p"
  have "\<forall>c \<in> set (path_new ?raw). case c of Normal _ \<Rightarrow> True | _ \<Rightarrow> False" and raw: "?raw \<noteq> []" "\<not> is_absolute (path_new ?raw)"
    "set ?raw \<inter> {42, 63, 91, 93} = {}"
    using assms by (auto simp: validate_git_relative_file_path_def Let_def list_ex_iff split: if_splits)
  then have comps: "\<exists>n. c = Normal n" if "c \<in> set (path_new ?raw)" for c using that by (cases c) auto
  from path_new_normal_iff [of ?raw] raw(2) comps
  have ok: "\<not> starts_with [47] ?raw" "hd (split_on 47 ?raw) \<noteq> [46]" "\<forall>x \<in> set (split_on 47 ?raw). x \<noteq> [46, 46]" by blast+
  have dots: "\<not> (\<exists>c \<in> set [46 :: uchar]. is_whitespace c)" "\<not> (\<exists>c \<in> set [46, 46 :: uchar]. is_whitespace c)" by simp_all
  have "hd (split_on 47 p) \<noteq> [46]" "\<forall>x \<in> set (split_on 47 p). x \<noteq> [46, 46]"
    using split_on_trimmed [of _ p] ok dots hd_in_set [OF split_on_nonempty] by metis+
  moreover have "\<not> starts_with [47] p"
  proof -
    obtain a b where p: "p = a @ ?raw @ b" "\<forall>c \<in> set (a @ b). is_whitespace c" by (rule trim_text_parts)
    show ?thesis
    proof (cases a)
      case Nil
      with p ok(1) raw(1) show ?thesis by (cases ?raw) (auto simp: starts_with_def)
    next
      case (Cons c cs)
      with p(2) have "c \<noteq> 47" using is_whitespace_special(2) by auto
      moreover have "hd p = c" using p(1) Cons by (metis append_Cons list.sel(1))
      ultimately show ?thesis by (cases p) (auto simp: starts_with_def)
    qed
  qed
  ultimately have normal: "\<not> is_absolute (path_new p)" "\<forall>c \<in> set (path_new p). \<exists>n. c = Normal n"
    using path_new_normal_iff [of p] by blast+
  have "set p \<inter> {42, 63, 91, 93} = {}"
  proof -
    obtain a b where p: "p = a @ ?raw @ b" "\<forall>c \<in> set (a @ b). is_whitespace c" by (rule trim_text_parts)
    have plain: "\<not> is_whitespace c" if "c \<in> {42, 63, 91, 93}" for c using that by (auto simp: is_whitespace_def)
    have "set p = set (a @ b) \<union> set ?raw" using arg_cong [OF p(1), of set] by auto
    moreover have "set (a @ b) \<inter> {42, 63, 91, 93} = {}" using p(2) plain by (simp only: disjoint_iff) metis
    ultimately show ?thesis using raw(3) by (simp only: Int_Un_distrib2 Un_empty simp_thms)
  qed
  with normal show ?thesis by (simp add: path_join_def path_starts_with_def)
qed

end
