(* ===== verification/Screen_Style.thy ===== *)
theory Screen_Style
  imports Termd_Prelude
begin

text \<open>
  The rendition part of the terminal model in \<open>termd/src/net/screen.rs\<close>: colours and cell styles
  with the SGR interpreter \<open>CellStyle::apply_sgr\<close> and its printer \<open>sgr_bytes\<close>, the
  terminal modes with \<open>restore_bytes\<close>, and cells and lines. The lemmas show that the printer and
  the interpreter are inverse on the styles the interpreter can produce.
\<close>

section \<open>Colours and styles\<close>

datatype sgr_color = Basic u16 | Indexed u8 | Rgb u8 u8 u8

record cell_style =
  cs_bold :: bool
  cs_faint :: bool
  cs_italic :: bool
  cs_underline :: bool
  cs_blink :: bool
  cs_inverse :: bool
  cs_hidden :: bool
  cs_strike :: bool
  cs_foreground :: "sgr_color option"
  cs_background :: "sgr_color option"

definition cell_style_default :: cell_style where
  "cell_style_default =
     \<lparr>cs_bold = False, cs_faint = False, cs_italic = False, cs_underline = False,
      cs_blink = False, cs_inverse = False, cs_hidden = False, cs_strike = False,
      cs_foreground = None, cs_background = None\<rparr>"

definition style_is_default :: "cell_style \<Rightarrow> bool" where
  "style_is_default st \<longleftrightarrow> st = cell_style_default"

text \<open>
  A code of an SGR sequence is the decimal number the source pushes; \<open>sgr_codes\<close> and
  \<open>style_codes\<close> list the numbers, \<open>sgr_bytes\<close> prints and joins them.
\<close>

fun sgr_codes :: "sgr_color \<Rightarrow> bool \<Rightarrow> nat list" where
  "sgr_codes (Basic code) background = [code]"
| "sgr_codes (Indexed i) background = [if background then 48 else 38, 5, i]"
| "sgr_codes (Rgb r g b) background = [if background then 48 else 38, 2, r, g, b]"

definition style_codes :: "bool \<Rightarrow> cell_style \<Rightarrow> nat list" where
  "style_codes reset_first st =
     (if reset_first then [0] else []) @
     (if cs_bold st then [1] else []) @
     (if cs_faint st then [2] else []) @
     (if cs_italic st then [3] else []) @
     (if cs_underline st then [4] else []) @
     (if cs_blink st then [5] else []) @
     (if cs_inverse st then [7] else []) @
     (if cs_hidden st then [8] else []) @
     (if cs_strike st then [9] else []) @
     (case cs_foreground st of None \<Rightarrow> [] | Some c \<Rightarrow> sgr_codes c False) @
     (case cs_background st of None \<Rightarrow> [] | Some c \<Rightarrow> sgr_codes c True)"

definition sgr_bytes :: "bool \<Rightarrow> cell_style \<Rightarrow> u8 list" where
  "sgr_bytes reset_first st =
     (if style_is_default st then 27 # ascii ''[0m''
      else 27 # ascii ''['' @ join_with 59 (map dec (style_codes reset_first st)) @ ascii ''m'')"

definition parse_extended_color :: "u16 list \<Rightarrow> (sgr_color \<times> usize) option" where
  "parse_extended_color vs =
     (case vs of
        m # i # rest \<Rightarrow>
          if m = 5 then (if i < 256 then Some (Indexed i, 2) else None)
          else if m = 2 then
            (case rest of
               g # b # _ \<Rightarrow> if i < 256 \<and> g < 256 \<and> b < 256 then Some (Rgb i g b, 4) else None
             | _ \<Rightarrow> None)
          else None
      | _ \<Rightarrow> None)"

text \<open>The codes that set one attribute; codes the interpreter does not know are ignored.\<close>

definition sgr_simple :: "u16 \<Rightarrow> cell_style \<Rightarrow> cell_style" where
  "sgr_simple v st =
     (if v = 0 then cell_style_default
      else if v = 1 then st\<lparr>cs_bold := True\<rparr>
      else if v = 2 then st\<lparr>cs_faint := True\<rparr>
      else if v = 3 then st\<lparr>cs_italic := True\<rparr>
      else if v = 4 then st\<lparr>cs_underline := True\<rparr>
      else if v = 5 then st\<lparr>cs_blink := True\<rparr>
      else if v = 7 then st\<lparr>cs_inverse := True\<rparr>
      else if v = 8 then st\<lparr>cs_hidden := True\<rparr>
      else if v = 9 then st\<lparr>cs_strike := True\<rparr>
      else if v = 22 then st\<lparr>cs_bold := False, cs_faint := False\<rparr>
      else if v = 23 then st\<lparr>cs_italic := False\<rparr>
      else if v = 24 then st\<lparr>cs_underline := False\<rparr>
      else if v = 25 then st\<lparr>cs_blink := False\<rparr>
      else if v = 27 then st\<lparr>cs_inverse := False\<rparr>
      else if v = 28 then st\<lparr>cs_hidden := False\<rparr>
      else if v = 29 then st\<lparr>cs_strike := False\<rparr>
      else if 30 \<le> v \<and> v \<le> 37 \<or> 90 \<le> v \<and> v \<le> 97 then st\<lparr>cs_foreground := Some (Basic v)\<rparr>
      else if v = 39 then st\<lparr>cs_foreground := None\<rparr>
      else if 40 \<le> v \<and> v \<le> 47 \<or> 100 \<le> v \<and> v \<le> 107 then st\<lparr>cs_background := Some (Basic v)\<rparr>
      else if v = 49 then st\<lparr>cs_background := None\<rparr>
      else st)"

text \<open>The \<open>while index < values.len()\<close> loop of \<open>apply_sgr\<close>.\<close>

fun apply_sgr_loop :: "u16 list \<Rightarrow> cell_style \<Rightarrow> cell_style" where
  "apply_sgr_loop [] st = st"
| "apply_sgr_loop (v # vs) st =
     (if v = 38 \<or> v = 48 then
        (case parse_extended_color vs of
           Some (color, consumed) \<Rightarrow>
             apply_sgr_loop (drop consumed vs)
               (if v = 38 then st\<lparr>cs_foreground := Some color\<rparr>
                else st\<lparr>cs_background := Some color\<rparr>)
         | None \<Rightarrow> apply_sgr_loop vs st)
      else apply_sgr_loop vs (sgr_simple v st))"

definition apply_sgr :: "u16 option list \<Rightarrow> cell_style \<Rightarrow> cell_style" where
  "apply_sgr params st =
     apply_sgr_loop
       (if params = [] then [0]
        else map (\<lambda>p. case p of None \<Rightarrow> 0 | Some v \<Rightarrow> v) params) st"

section \<open>Modes\<close>

text \<open>\<open>mouse_modes\<close> is a \<open>BTreeSet<u16>\<close>: a strictly ascending list.\<close>

record terminal_modes =
  tm_auto_wrap :: bool
  tm_origin :: bool
  tm_insert :: bool
  tm_application_cursor :: bool
  tm_application_keypad :: bool
  tm_bracketed_paste :: bool
  tm_mouse_modes :: "u16 list"

definition terminal_modes_default :: terminal_modes where
  "terminal_modes_default =
     \<lparr>tm_auto_wrap = True, tm_origin = False, tm_insert = False, tm_application_cursor = False,
      tm_application_keypad = False, tm_bracketed_paste = False, tm_mouse_modes = []\<rparr>"

definition restore_bytes :: "terminal_modes \<Rightarrow> u8 list" where
  "restore_bytes m =
     27 # ascii (if tm_auto_wrap m then ''[?7h'' else ''[?7l'') @
     27 # ascii (if tm_origin m then ''[?6h'' else ''[?6l'') @
     27 # ascii (if tm_insert m then ''[4h'' else ''[4l'') @
     27 # ascii (if tm_application_cursor m then ''[?1h'' else ''[?1l'') @
     27 # ascii (if tm_application_keypad m then ''='' else ''>'') @
     27 # ascii (if tm_bracketed_paste m then ''[?2004h'' else ''[?2004l'') @
     concat (map (\<lambda>mode. 27 # ascii ''[?'' @ dec mode @ ascii ''h'') (tm_mouse_modes m))"

section \<open>Cells and lines\<close>

text \<open>The character of a cell is its Unicode scalar value.\<close>

record terminal_cell =
  tc_character :: uchar
  tc_style :: cell_style
  tc_wide_continuation :: bool

definition cell_blank :: terminal_cell where
  "cell_blank = \<lparr>tc_character = 32, tc_style = cell_style_default, tc_wide_continuation = False\<rparr>"

definition styled_blank :: "cell_style \<Rightarrow> terminal_cell" where
  "styled_blank st = \<lparr>tc_character = 32, tc_style = st, tc_wide_continuation = False\<rparr>"

definition wide_continuation :: "cell_style \<Rightarrow> terminal_cell" where
  "wide_continuation st = \<lparr>tc_character = 32, tc_style = st, tc_wide_continuation = True\<rparr>"

definition is_blank_default :: "terminal_cell \<Rightarrow> bool" where
  "is_blank_default c \<longleftrightarrow>
     tc_character c = 32 \<and> style_is_default (tc_style c) \<and> \<not> tc_wide_continuation c"

record terminal_line =
  tl_index :: u64
  tl_cells :: "terminal_cell list"
  tl_touched :: bool

definition line_blank :: "u64 \<Rightarrow> usize \<Rightarrow> bool \<Rightarrow> terminal_line" where
  "line_blank i cols touched =
     \<lparr>tl_index = i, tl_cells = replicate cols cell_blank, tl_touched = touched\<rparr>"

text \<open>\<open>Vec::resize\<close>: truncate, or pad with clones of the value.\<close>

definition line_resize :: "usize \<Rightarrow> terminal_line \<Rightarrow> terminal_line" where
  "line_resize cols l =
     l\<lparr>tl_cells := take cols (tl_cells l) @ replicate (cols - length (tl_cells l)) cell_blank\<rparr>"

definition clear_with_style :: "cell_style \<Rightarrow> terminal_line \<Rightarrow> terminal_line" where
  "clear_with_style st l =
     l\<lparr>tl_cells := replicate (length (tl_cells l)) (styled_blank st), tl_touched := True\<rparr>"

definition line_is_blank :: "terminal_line \<Rightarrow> bool" where
  "line_is_blank l \<longleftrightarrow> list_all is_blank_default (tl_cells l)"

definition plain_text :: "terminal_line \<Rightarrow> uchar list" where
  "plain_text l =
     rev (dropWhile (\<lambda>c. c = 32)
       (rev (map tc_character (filter (\<lambda>c. \<not> tc_wide_continuation c) (tl_cells l)))))"

definition display_width :: "terminal_line \<Rightarrow> usize" where
  "display_width l =
     (case rposition (\<lambda>c. tc_character c \<noteq> 32 \<or> \<not> style_is_default (tc_style c) \<or>
          tc_wide_continuation c) (tl_cells l) of
        Some i \<Rightarrow> i + 1
      | None \<Rightarrow> 0)"

section \<open>Well-formed styles and the SGR round trip\<close>

text \<open>What the SGR interpreter can store: basic codes in their ranges, 8-bit components.\<close>

fun wf_color :: "bool \<Rightarrow> sgr_color \<Rightarrow> bool" where
  "wf_color background (Basic v) \<longleftrightarrow>
     (if background then 40 \<le> v \<and> v \<le> 47 \<or> 100 \<le> v \<and> v \<le> 107
      else 30 \<le> v \<and> v \<le> 37 \<or> 90 \<le> v \<and> v \<le> 97)"
| "wf_color background (Indexed i) \<longleftrightarrow> i < 256"
| "wf_color background (Rgb r g b) \<longleftrightarrow> r < 256 \<and> g < 256 \<and> b < 256"

definition wf_style :: "cell_style \<Rightarrow> bool" where
  "wf_style st \<longleftrightarrow>
     (case cs_foreground st of None \<Rightarrow> True | Some c \<Rightarrow> wf_color False c) \<and>
     (case cs_background st of None \<Rightarrow> True | Some c \<Rightarrow> wf_color True c)"

lemma wf_style_default [simp]: "wf_style cell_style_default"
  by (simp add: wf_style_def cell_style_default_def)

lemma wf_style_sgr_simple: "wf_style st \<Longrightarrow> wf_style (sgr_simple v st)"
  by (auto simp: wf_style_def sgr_simple_def cell_style_default_def)

lemma parse_extended_color_wf:
  "parse_extended_color vs = Some (c, n) \<Longrightarrow> wf_color bg c \<and> n \<le> length vs"
  by (auto simp: parse_extended_color_def split: list.splits if_splits)

lemma wf_style_apply_sgr_loop: "wf_style st \<Longrightarrow> wf_style (apply_sgr_loop vs st)"
proof (induction vs st rule: apply_sgr_loop.induct)
  case (1 st)
  then show ?case by simp
next
  case (2 v vs st)
  show ?case
  proof (cases "v = 38 \<or> v = 48")
    case True
    show ?thesis
    proof (cases "parse_extended_color vs")
      case None
      with True 2 show ?thesis by auto
    next
      case (Some p)
      obtain c n where p: "p = (c, n)" by force
      with Some parse_extended_color_wf have "wf_color bg c" for bg by blast
      with "2.prems" have "wf_style (if v = 38 then st\<lparr>cs_foreground := Some c\<rparr>
          else st\<lparr>cs_background := Some c\<rparr>)"
        by (simp add: wf_style_def)
      with True Some p "2.IH"(2) [OF True Some p [symmetric]] show ?thesis by simp
    qed
  next
    case False
    with 2 show ?thesis by (simp add: wf_style_sgr_simple)
  qed
qed

lemma wf_style_apply_sgr: "wf_style st \<Longrightarrow> wf_style (apply_sgr params st)"
  by (simp add: apply_sgr_def wf_style_apply_sgr_loop)

text \<open>A colour's codes, interpreted at the head of a code list, set exactly that colour.\<close>

lemma sgr_simple_basic:
  "wf_color bg (Basic v) \<Longrightarrow>
     v \<noteq> 38 \<and> v \<noteq> 48 \<and>
     sgr_simple v st = (if bg then st\<lparr>cs_background := Some (Basic v)\<rparr>
       else st\<lparr>cs_foreground := Some (Basic v)\<rparr>)"
proof -
  assume wf: "wf_color bg (Basic v)"
  show ?thesis
  proof (cases bg)
    case True
    with wf have "40 \<le> v \<and> v \<le> 47 \<or> 100 \<le> v \<and> v \<le> 107" by simp
    then have "v \<in> set [40..<48] \<or> v \<in> set [100..<108]" by auto
    then show ?thesis
      by - (simp add: upt_rec_numeral del: set_upt, elim disjE; simp add: True sgr_simple_def)
  next
    case False
    with wf have "30 \<le> v \<and> v \<le> 37 \<or> 90 \<le> v \<and> v \<le> 97" by simp
    then have "v \<in> set [30..<38] \<or> v \<in> set [90..<98]" by auto
    then show ?thesis
      by - (simp add: upt_rec_numeral del: set_upt, elim disjE; simp add: False sgr_simple_def)
  qed
qed

lemma sgr_codes_apply:
  assumes "wf_color bg c"
  shows "apply_sgr_loop (sgr_codes c bg @ vs) st =
     apply_sgr_loop vs
       (if bg then st\<lparr>cs_background := Some c\<rparr> else st\<lparr>cs_foreground := Some c\<rparr>)"
proof (cases c)
  case (Basic v)
  with sgr_simple_basic [of bg v st] assms show ?thesis by simp
next
  case (Indexed i)
  with assms show ?thesis by (simp add: parse_extended_color_def)
next
  case (Rgb r g b)
  with assms show ?thesis by (simp add: parse_extended_color_def)
qed

text \<open>One optional part of the printed code list at a time, each as a single record update.\<close>

lemma sgr_opt_color_apply:
  "(case oc of None \<Rightarrow> True | Some c \<Rightarrow> wf_color False c) \<Longrightarrow>
   apply_sgr_loop ((case oc of None \<Rightarrow> [] | Some c \<Rightarrow> sgr_codes c False) @ vs) st =
     apply_sgr_loop vs (st\<lparr>cs_foreground := (if oc = None then cs_foreground st else oc)\<rparr>)"
  "(case oc of None \<Rightarrow> True | Some c \<Rightarrow> wf_color True c) \<Longrightarrow>
   apply_sgr_loop ((case oc of None \<Rightarrow> [] | Some c \<Rightarrow> sgr_codes c True) @ vs) st =
     apply_sgr_loop vs (st\<lparr>cs_background := (if oc = None then cs_background st else oc)\<rparr>)"
  by (cases oc; simp add: sgr_codes_apply)+

lemma sgr_flag_apply:
  "apply_sgr_loop ((if b then [1] else []) @ vs) st =
     apply_sgr_loop vs (st\<lparr>cs_bold := b \<or> cs_bold st\<rparr>)"
  "apply_sgr_loop ((if b then [2] else []) @ vs) st =
     apply_sgr_loop vs (st\<lparr>cs_faint := b \<or> cs_faint st\<rparr>)"
  "apply_sgr_loop ((if b then [3] else []) @ vs) st =
     apply_sgr_loop vs (st\<lparr>cs_italic := b \<or> cs_italic st\<rparr>)"
  "apply_sgr_loop ((if b then [4] else []) @ vs) st =
     apply_sgr_loop vs (st\<lparr>cs_underline := b \<or> cs_underline st\<rparr>)"
  "apply_sgr_loop ((if b then [5] else []) @ vs) st =
     apply_sgr_loop vs (st\<lparr>cs_blink := b \<or> cs_blink st\<rparr>)"
  "apply_sgr_loop ((if b then [7] else []) @ vs) st =
     apply_sgr_loop vs (st\<lparr>cs_inverse := b \<or> cs_inverse st\<rparr>)"
  "apply_sgr_loop ((if b then [8] else []) @ vs) st =
     apply_sgr_loop vs (st\<lparr>cs_hidden := b \<or> cs_hidden st\<rparr>)"
  "apply_sgr_loop ((if b then [9] else []) @ vs) st =
     apply_sgr_loop vs (st\<lparr>cs_strike := b \<or> cs_strike st\<rparr>)"
  by (cases b; simp add: sgr_simple_def)+

lemma style_codes_default_apply:
  assumes "wf_style st"
  shows "apply_sgr_loop (style_codes False st) cell_style_default = st"
proof -
  have fg: "case cs_foreground st of None \<Rightarrow> True | Some c \<Rightarrow> wf_color False c"
    and bg: "case cs_background st of None \<Rightarrow> True | Some c \<Rightarrow> wf_color True c"
    using assms by (auto simp: wf_style_def)
  have bg': "(case cs_background st of None \<Rightarrow> [] | Some c \<Rightarrow> sgr_codes c True) =
      (case cs_background st of None \<Rightarrow> [] | Some c \<Rightarrow> sgr_codes c True) @ []" by simp
  show ?thesis
    unfolding style_codes_def append_assoc if_False append_Nil sgr_flag_apply
      sgr_opt_color_apply(1) [OF fg]
    by (subst bg', subst sgr_opt_color_apply(2) [OF bg]) (simp add: cell_style_default_def)
qed

lemma style_codes_reset_apply:
  assumes "wf_style st"
  shows "apply_sgr_loop (style_codes True st) st0 = st"
proof -
  have "style_codes True st = 0 # style_codes False st"
    by (simp add: style_codes_def)
  with style_codes_default_apply [OF assms] show ?thesis
    by (simp add: sgr_simple_def)
qed

end
