(* ===== verification/Screen_Model.thy ===== *)
theory Screen_Model
  imports Screen_Style
begin

text \<open>
  The terminal emulator \<open>TerminalScreen\<close> of \<open>termd/src/net/screen.rs\<close>: the state, the escape
  sequence parser and every operation on the screen buffer.

  Rust code that can panic (an index into a row, the \<open>expect\<close> of \<open>visible_line_mut\<close>) returns
  an option here, \<open>None\<close> being the panic; the callers pass it on. The subtractions \<open>rows - 1\<close> and
  \<open>cols - 1\<close> are on \<open>usize\<close> in the source; the invariant of \<open>Screen_Inv\<close> has both sizes at
  least 1, so they never underflow.
  The width table of the crate \<open>unicode_width\<close> is the parameter \<open>w\<close> of the operations that print.
\<close>

section \<open>State\<close>

datatype parser_state =
    Ground
  | Escape
  | EscapeIntermediate
  | Osc
  | OscEscape
  | Csi bool "u16 option list" "u16 option"

record saved_screen =
  sv_lines :: "terminal_line list"
  sv_next_line_index :: u64
  sv_cursor_row :: usize
  sv_cursor_col :: usize
  sv_saved_cursor :: "(usize \<times> usize) option"
  sv_current_style :: cell_style
  sv_modes :: terminal_modes
  sv_scroll_top :: usize
  sv_scroll_bottom :: usize

record terminal_screen =
  t_rows :: usize
  t_cols :: usize
  t_max_cached_lines :: usize
  t_lines :: "terminal_line list"
  t_next_line_index :: u64
  t_cursor_row :: usize
  t_cursor_col :: usize
  t_saved_cursor :: "(usize \<times> usize) option"
  t_current_style :: cell_style
  t_modes :: terminal_modes
  t_parser :: parser_state
  t_utf8_pending :: "u8 list"
  t_pending_control :: "u8 list"
  t_pending_home_clear_cut :: bool
  t_normal_screen :: "saved_screen option"
  t_requires_snapshot_redraw :: bool
  t_scroll_top :: usize
  t_scroll_bottom :: usize

definition default_max_cached_lines :: usize where
  "default_max_cached_lines = 1000"

definition max_pending_control_bytes :: usize where
  "max_pending_control_bytes = 4096"

definition with_max_cached_lines :: "u16 \<Rightarrow> u16 \<Rightarrow> usize \<Rightarrow> terminal_screen" where
  "with_max_cached_lines rows0 cols0 mx =
     (let rows = max rows0 1; cols = max cols0 1 in
      \<lparr>t_rows = rows, t_cols = cols, t_max_cached_lines = max (max mx rows) 1,
       t_lines = map (\<lambda>i. line_blank i cols False) [0..<rows],
       t_next_line_index = rows, t_cursor_row = 0, t_cursor_col = 0, t_saved_cursor = None,
       t_current_style = cell_style_default, t_modes = terminal_modes_default,
       t_parser = Ground, t_utf8_pending = [], t_pending_control = [],
       t_pending_home_clear_cut = False, t_normal_screen = None,
       t_requires_snapshot_redraw = False, t_scroll_top = 0, t_scroll_bottom = rows\<rparr>)"

definition screen_new :: "u16 \<Rightarrow> u16 \<Rightarrow> terminal_screen" where
  "screen_new rows cols = with_max_cached_lines rows cols default_max_cached_lines"

section \<open>The line buffer\<close>

definition visible_start :: "terminal_screen \<Rightarrow> usize" where
  "visible_start s = length (t_lines s) - t_rows s"

text \<open>\<open>visible_line_mut(row)\<close> followed by an update of the line it returns.\<close>

definition visible_line_mut ::
  "usize \<Rightarrow> (terminal_line \<Rightarrow> terminal_line option) \<Rightarrow> terminal_screen \<Rightarrow> terminal_screen option" where
  "visible_line_mut row f s =
     (let i = visible_start s + min row (t_rows s - 1) in
      if i < length (t_lines s)
      then map_option (\<lambda>l. s\<lparr>t_lines := (t_lines s)[i := l]\<rparr>) (f (t_lines s ! i))
      else None)"

definition trim_cached_lines :: "terminal_screen \<Rightarrow> terminal_screen" where
  "trim_cached_lines s =
     (let max_lines = (if t_normal_screen s \<noteq> None then t_rows s else t_max_cached_lines s) in
      s\<lparr>t_lines := trim_front max_lines (t_lines s)\<rparr>)"

definition push_blank_line_with_style :: "bool \<Rightarrow> cell_style \<Rightarrow> terminal_screen \<Rightarrow> terminal_screen" where
  "push_blank_line_with_style touched st s =
     trim_cached_lines
       (s\<lparr>t_lines := t_lines s @
            [\<lparr>tl_index = t_next_line_index s, tl_cells = replicate (t_cols s) (styled_blank st),
              tl_touched = touched\<rparr>],
          t_next_line_index := sat_add64 (t_next_line_index s) 1\<rparr>)"

definition insert_visible_line :: "usize \<Rightarrow> cell_style \<Rightarrow> terminal_screen \<Rightarrow> terminal_screen" where
  "insert_visible_line index st s =
     trim_cached_lines
       (s\<lparr>t_lines := insert_at (min index (length (t_lines s)))
            \<lparr>tl_index = t_next_line_index s, tl_cells = replicate (t_cols s) (styled_blank st),
              tl_touched = True\<rparr> (t_lines s),
          t_next_line_index := sat_add64 (t_next_line_index s) 1\<rparr>)"

text \<open>One round of the loop in \<open>scroll_up_region\<close> and in \<open>scroll_down\<close>.\<close>

definition scroll_up_once :: "usize \<Rightarrow> usize \<Rightarrow> cell_style \<Rightarrow> terminal_screen \<Rightarrow> terminal_screen" where
  "scroll_up_once tp bt st s =
     (if t_normal_screen s = None \<and> tp = 0
      then insert_visible_line (visible_start s + bt) st s
      else
        (let start = visible_start s + tp;
             at = visible_start s + bt - 1
         in insert_visible_line at st (s\<lparr>t_lines := remove_at start (t_lines s)\<rparr>)))"

definition scroll_up_region :: "usize \<Rightarrow> terminal_screen \<Rightarrow> terminal_screen" where
  "scroll_up_region count s =
     (let st = t_current_style s;
          tp = min (t_scroll_top s) (t_rows s - 1);
          bt = max (min (t_scroll_bottom s) (t_rows s)) (tp + 1);
          s1 = iter_n (min count (bt - tp)) (scroll_up_once tp bt st) s
      in s1\<lparr>t_cursor_row := min (t_cursor_row s1) (t_rows s1 - 1)\<rparr>)"

definition scroll_down_once :: "usize \<Rightarrow> usize \<Rightarrow> cell_style \<Rightarrow> terminal_screen \<Rightarrow> terminal_screen" where
  "scroll_down_once tp bt st s =
     (let start = visible_start s + tp;
          finish = visible_start s + bt
      in insert_visible_line start st (s\<lparr>t_lines := remove_at (finish - 1) (t_lines s)\<rparr>))"

definition scroll_down :: "usize \<Rightarrow> terminal_screen \<Rightarrow> terminal_screen" where
  "scroll_down count s =
     (let st = t_current_style s;
          tp = min (t_scroll_top s) (t_rows s - 1);
          bt = max (min (t_scroll_bottom s) (t_rows s)) (tp + 1);
          s1 = iter_n (min count (bt - tp)) (scroll_down_once tp bt st) s
      in s1\<lparr>t_cursor_row := min (t_cursor_row s1) (t_rows s1 - 1)\<rparr>)"

definition touch_line :: "terminal_line \<Rightarrow> terminal_line" where
  "touch_line l = l\<lparr>tl_touched := True\<rparr>"

definition line_feed :: "terminal_screen \<Rightarrow> terminal_screen option" where
  "line_feed s =
     (if t_cursor_row s + 1 = t_scroll_bottom s \<or> t_cursor_row s + 1 \<ge> t_rows s
      then Some (scroll_up_region 1 s)
      else
        (let s1 = s\<lparr>t_cursor_row := t_cursor_row s + 1\<rparr> in
         visible_line_mut (t_cursor_row s1) (\<lambda>l. Some (touch_line l)) s1))"

section \<open>Rows of cells\<close>

text \<open>\<open>line.cells[col] = cell\<close>; an index out of range panics.\<close>

definition set_cell :: "usize \<Rightarrow> terminal_cell \<Rightarrow> terminal_line \<Rightarrow> terminal_line option" where
  "set_cell col c l =
     (if col < length (tl_cells l) then Some (l\<lparr>tl_cells := (tl_cells l)[col := c]\<rparr>) else None)"

definition fill_cells :: "usize \<Rightarrow> usize \<Rightarrow> terminal_cell \<Rightarrow> terminal_line \<Rightarrow> terminal_line option" where
  "fill_cells from_col to_col c = for_each (\<lambda>col. set_cell col c) [from_col..<to_col]"

text \<open>The two loops of \<open>insert_blank_cells\<close>, on the cells of the line.\<close>

definition shift_cells_right :: "usize \<Rightarrow> usize \<Rightarrow> terminal_cell list \<Rightarrow> terminal_cell list" where
  "shift_cells_right cursor_col shift cells =
     fold (\<lambda>i cs. cs[i := cs ! (i - shift)]) (rev [cursor_col + shift..<length cells]) cells"

definition insert_blank_cells :: "usize \<Rightarrow> usize \<Rightarrow> cell_style \<Rightarrow> terminal_line \<Rightarrow> terminal_line" where
  "insert_blank_cells cursor_col width st l =
     (if cursor_col \<ge> length (tl_cells l) \<or> width = 0 then l
      else
        (let shift = min width (length (tl_cells l) - cursor_col);
             shifted = shift_cells_right cursor_col shift (tl_cells l)
         in l\<lparr>tl_cells :=
              fold (\<lambda>i cs. cs[i := styled_blank st]) [cursor_col..<cursor_col + shift] shifted\<rparr>))"

section \<open>Printing\<close>

definition terminal_character_width :: "(uchar \<Rightarrow> usize option) \<Rightarrow> uchar \<Rightarrow> usize" where
  "terminal_character_width w c = max (case w c of None \<Rightarrow> 0 | Some n \<Rightarrow> n) 1"

text \<open>The part of \<open>print_char\<close> that makes room for the character: wrap, or step back.\<close>

definition wrap_for_width :: "usize \<Rightarrow> terminal_screen \<Rightarrow> terminal_screen option" where
  "wrap_for_width width s =
     (if t_cursor_col s \<ge> t_cols s \<or> (width > 1 \<and> t_cursor_col s + width > t_cols s)
      then (if tm_auto_wrap (t_modes s) then line_feed (s\<lparr>t_cursor_col := 0\<rparr>)
            else Some (s\<lparr>t_cursor_col := t_cols s - min width (t_cols s)\<rparr>))
      else Some s)"

text \<open>The part of \<open>print_char\<close> that writes into the cursor's line.\<close>

definition write_char_cells ::
  "uchar \<Rightarrow> usize \<Rightarrow> cell_style \<Rightarrow> bool \<Rightarrow> usize \<Rightarrow> terminal_line \<Rightarrow> terminal_line option" where
  "write_char_cells character width st ins cursor_col l0 =
     (let l1 = (if ins then insert_blank_cells cursor_col width st l0 else l0);
          l2 = touch_line l1
      in case set_cell cursor_col
            \<lparr>tc_character = character, tc_style = st, tc_wide_continuation = False\<rparr> l2 of
           None \<Rightarrow> None
         | Some l3 \<Rightarrow>
             for_each (\<lambda>offset l.
                 if cursor_col + offset < length (tl_cells l)
                 then set_cell (cursor_col + offset)
                        (wide_continuation (tc_style (tl_cells l ! cursor_col))) l
                 else Some l) [1..<width] l3)"

definition print_char :: "(uchar \<Rightarrow> usize option) \<Rightarrow> uchar \<Rightarrow> terminal_screen \<Rightarrow> terminal_screen option" where
  "print_char w character s0 =
     (let width = terminal_character_width w character in
      if width = 0 then Some s0
      else do {
        s \<leftarrow> wrap_for_width width s0;
        s1 \<leftarrow> visible_line_mut (t_cursor_row s)
                (write_char_cells character width (t_current_style s) (tm_insert (t_modes s))
                   (t_cursor_col s)) s;
        Some (if tm_auto_wrap (t_modes s1)
              then s1\<lparr>t_cursor_col := t_cursor_col s1 + width\<rparr>
              else s1\<lparr>t_cursor_col := min (t_cursor_col s1 + width) (t_cols s1 - 1)\<rparr>)
      })"

section \<open>Erasing\<close>

definition erase_line :: "usize \<Rightarrow> terminal_screen \<Rightarrow> terminal_screen option" where
  "erase_line mode s =
     (let st = t_current_style s in
      if mode = 0 then do {
        s1 \<leftarrow> visible_line_mut (t_cursor_row s)
                (\<lambda>l. map_option touch_line
                   (fill_cells (t_cursor_col s) (t_cols s) (styled_blank st) l)) s;
        Some (s1\<lparr>t_cursor_col := min (t_cursor_col s) (t_cols s - 1)\<rparr>)
      }
      else if mode = 1 then do {
        let cursor_col = min (t_cursor_col s) (t_cols s - 1);
        s1 \<leftarrow> visible_line_mut (t_cursor_row s)
                (\<lambda>l. map_option touch_line (fill_cells 0 (cursor_col + 1) (styled_blank st) l)) s;
        Some (s1\<lparr>t_cursor_col := cursor_col\<rparr>)
      }
      else if mode = 2 then
        visible_line_mut (t_cursor_row s) (\<lambda>l. Some (clear_with_style st l)) s
      else Some s)"

definition clear_screen :: "terminal_screen \<Rightarrow> terminal_screen" where
  "clear_screen s =
     (let vs = visible_start s in
      s\<lparr>t_lines := take vs (t_lines s) @
          map (clear_with_style (t_current_style s)) (drop vs (t_lines s))\<rparr>)"

definition clear_screen_and_scrollback :: "terminal_screen \<Rightarrow> terminal_screen" where
  "clear_screen_and_scrollback s =
     (let st = t_current_style s;
          cursor_row = min (t_cursor_row s) (t_rows s - 1);
          cursor_col = min (t_cursor_col s) (t_cols s - 1);
          s1 = iter_n (t_rows s) (push_blank_line_with_style True st) (s\<lparr>t_lines := []\<rparr>)
      in s1\<lparr>t_cursor_row := cursor_row, t_cursor_col := cursor_col\<rparr>)"

definition clear_cached_lines :: "terminal_screen \<Rightarrow> terminal_screen" where
  "clear_cached_lines s =
     (let st = t_current_style s;
          s1 = iter_n (t_rows s) (push_blank_line_with_style False st) (s\<lparr>t_lines := []\<rparr>)
      in s1\<lparr>t_cursor_row := 0, t_cursor_col := 0\<rparr>)"

definition clear_rows :: "cell_style \<Rightarrow> usize list \<Rightarrow> terminal_screen \<Rightarrow> terminal_screen option" where
  "clear_rows st = for_each (\<lambda>row. visible_line_mut row (\<lambda>l. Some (clear_with_style st l)))"

definition erase_display :: "usize \<Rightarrow> terminal_screen \<Rightarrow> terminal_screen option" where
  "erase_display mode s =
     (let st = t_current_style s in
      if mode = 0 then do {
        s1 \<leftarrow> erase_line 0 s;
        clear_rows st [t_cursor_row s1 + 1..<t_rows s1] s1
      }
      else if mode = 1 then do {
        s1 \<leftarrow> clear_rows st [0..<t_cursor_row s] s;
        erase_line 1 s1
      }
      else if mode = 2 then
        Some (if t_pending_home_clear_cut s then clear_screen_and_scrollback s else clear_screen s)
      else if mode = 3 then Some (clear_cached_lines s)
      else Some s)"

section \<open>Alternate screen, scroll region and modes\<close>

definition reset_screen_buffer :: "terminal_screen \<Rightarrow> terminal_screen" where
  "reset_screen_buffer s =
     s\<lparr>t_lines := map (\<lambda>i. line_blank i (t_cols s) False) [0..<t_rows s],
       t_next_line_index := t_rows s, t_cursor_row := 0, t_cursor_col := 0,
       t_saved_cursor := None, t_current_style := cell_style_default,
       t_modes := terminal_modes_default, t_scroll_top := 0, t_scroll_bottom := t_rows s\<rparr>"

definition save_normal_screen :: "terminal_screen \<Rightarrow> saved_screen" where
  "save_normal_screen s =
     \<lparr>sv_lines = t_lines s, sv_next_line_index = t_next_line_index s,
      sv_cursor_row = t_cursor_row s, sv_cursor_col = t_cursor_col s,
      sv_saved_cursor = t_saved_cursor s, sv_current_style = t_current_style s,
      sv_modes = t_modes s, sv_scroll_top = t_scroll_top s, sv_scroll_bottom = t_scroll_bottom s\<rparr>"

definition enter_alternate_screen :: "terminal_screen \<Rightarrow> terminal_screen" where
  "enter_alternate_screen s =
     (let s1 = (if t_normal_screen s = None
                then s\<lparr>t_normal_screen := Some (save_normal_screen s)\<rparr> else s);
          s2 = reset_screen_buffer s1
      in s2\<lparr>t_current_style := t_current_style s1, t_modes := t_modes s1\<rparr>)"

definition leave_alternate_screen :: "terminal_screen \<Rightarrow> terminal_screen" where
  "leave_alternate_screen s =
     (case t_normal_screen s of
        Some saved \<Rightarrow>
          (let tp = min (sv_scroll_top saved) (t_rows s - 1) in
           s\<lparr>t_normal_screen := None,
             t_lines := sv_lines saved, t_next_line_index := sv_next_line_index saved,
             t_cursor_row := min (sv_cursor_row saved) (t_rows s - 1),
             t_cursor_col := min (sv_cursor_col saved) (t_cols s - 1),
             t_saved_cursor := sv_saved_cursor saved,
             t_current_style := sv_current_style saved, t_modes := sv_modes saved,
             t_scroll_top := tp,
             t_scroll_bottom := max (min (sv_scroll_bottom saved) (t_rows s)) (tp + 1)\<rparr>)
      | None \<Rightarrow> reset_screen_buffer s)"

definition param_or :: "u16 option list \<Rightarrow> usize \<Rightarrow> usize \<Rightarrow> usize" where
  "param_or params index dflt =
     (if index < length params
      then (case params ! index of Some v \<Rightarrow> if v > 0 then v else dflt | None \<Rightarrow> dflt)
      else dflt)"

definition one_based_param :: "u16 option list \<Rightarrow> usize \<Rightarrow> usize" where
  "one_based_param params index = param_or params index 1 - 1"

definition home_row :: "terminal_screen \<Rightarrow> usize" where
  "home_row s = (if tm_origin (t_modes s) then min (t_scroll_top s) (t_rows s - 1) else 0)"

definition set_scroll_region :: "u16 option list \<Rightarrow> terminal_screen \<Rightarrow> terminal_screen" where
  "set_scroll_region params s =
     (let tp = min (one_based_param params 0) (t_rows s - 1);
          bt = max (min (param_or params 1 (t_rows s)) (t_rows s)) (tp + 1);
          s1 = s\<lparr>t_scroll_top := tp, t_scroll_bottom := bt\<rparr>
      in s1\<lparr>t_cursor_row := home_row s1, t_cursor_col := 0\<rparr>)"

definition cursor_row_from_param :: "u16 option list \<Rightarrow> usize \<Rightarrow> terminal_screen \<Rightarrow> usize" where
  "cursor_row_from_param params index s =
     (let row = one_based_param params index in
      if tm_origin (t_modes s) then min (t_scroll_top s + row) (t_scroll_bottom s - 1)
      else min row (t_rows s - 1))"

text \<open>\<open>params.iter().filter_map(|value| *value)\<close>.\<close>

definition given_params :: "u16 option list \<Rightarrow> u16 list" where
  "given_params params = map the (filter (\<lambda>p. p \<noteq> None) params)"

definition set_public_mode :: "bool \<Rightarrow> u16 \<Rightarrow> terminal_screen \<Rightarrow> terminal_screen" where
  "set_public_mode enabled param s =
     (if param = 4 then s\<lparr>t_modes := (t_modes s)\<lparr>tm_insert := enabled\<rparr>\<rparr> else s)"

definition set_public_modes :: "u16 option list \<Rightarrow> bool \<Rightarrow> terminal_screen \<Rightarrow> terminal_screen" where
  "set_public_modes params enabled s = fold (set_public_mode enabled) (given_params params) s"

definition mouse_mode_codes :: "u16 list" where
  "mouse_mode_codes = [1000, 1002, 1003, 1005, 1006, 1015]"

definition set_private_mode :: "bool \<Rightarrow> u16 \<Rightarrow> terminal_screen \<Rightarrow> terminal_screen" where
  "set_private_mode enabled param s =
     (if param = 1 then s\<lparr>t_modes := (t_modes s)\<lparr>tm_application_cursor := enabled\<rparr>\<rparr>
      else if param = 6 then
        (let s1 = s\<lparr>t_modes := (t_modes s)\<lparr>tm_origin := enabled\<rparr>\<rparr>
         in s1\<lparr>t_cursor_row := home_row s1, t_cursor_col := 0\<rparr>)
      else if param = 7 then s\<lparr>t_modes := (t_modes s)\<lparr>tm_auto_wrap := enabled\<rparr>\<rparr>
      else if param = 66 then s\<lparr>t_modes := (t_modes s)\<lparr>tm_application_keypad := enabled\<rparr>\<rparr>
      else if param \<in> set mouse_mode_codes then
        s\<lparr>t_modes := (t_modes s)\<lparr>tm_mouse_modes :=
            (if enabled then insort_insert param (tm_mouse_modes (t_modes s))
             else removeAll param (tm_mouse_modes (t_modes s)))\<rparr>\<rparr>
      else if param = 1049 then
        (if enabled then enter_alternate_screen s else leave_alternate_screen s)
      else if param = 2004 then s\<lparr>t_modes := (t_modes s)\<lparr>tm_bracketed_paste := enabled\<rparr>\<rparr>
      else s)"

definition set_private_modes :: "u16 option list \<Rightarrow> bool \<Rightarrow> terminal_screen \<Rightarrow> terminal_screen" where
  "set_private_modes params enabled s = fold (set_private_mode enabled) (given_params params) s"

section \<open>Control sequences\<close>

definition dispatch_csi :: "bool \<Rightarrow> u16 option list \<Rightarrow> u8 \<Rightarrow> terminal_screen \<Rightarrow> terminal_screen option" where
  "dispatch_csi private params action s0 =
     (let s = (if action \<noteq> 109 then s0\<lparr>t_requires_snapshot_redraw := True\<rparr> else s0);
          n = s\<lparr>t_pending_home_clear_cut := False\<rparr>
      in
      if action = 65 then \<comment> \<open>A\<close>
        Some (n\<lparr>t_cursor_row := t_cursor_row n - param_or params 0 1\<rparr>)
      else if action = 66 then \<comment> \<open>B\<close>
        Some (n\<lparr>t_cursor_row := min (t_cursor_row n + param_or params 0 1) (t_rows n - 1)\<rparr>)
      else if action = 67 then \<comment> \<open>C\<close>
        Some (n\<lparr>t_cursor_col := min (t_cursor_col n + param_or params 0 1) (t_cols n - 1)\<rparr>)
      else if action = 68 then \<comment> \<open>D\<close>
        Some (n\<lparr>t_cursor_col := t_cursor_col n - param_or params 0 1\<rparr>)
      else if action = 71 then \<comment> \<open>G\<close>
        Some (n\<lparr>t_cursor_col := min (one_based_param params 0) (t_cols n - 1)\<rparr>)
      else if action = 72 \<or> action = 102 then \<comment> \<open>H and f\<close>
        (let row = cursor_row_from_param params 0 s;
             col = min (one_based_param params 1) (t_cols s - 1)
         in Some (s\<lparr>t_cursor_row := row, t_cursor_col := col,
                    t_pending_home_clear_cut := (row = 0 \<and> col = 0)\<rparr>))
      else if action = 74 then \<comment> \<open>J\<close>
        map_option (\<lambda>s1. s1\<lparr>t_pending_home_clear_cut := False\<rparr>) (erase_display (param_or params 0 0) s)
      else if action = 75 then \<comment> \<open>K\<close>
        erase_line (param_or params 0 0) n
      else if action = 109 then \<comment> \<open>m\<close>
        Some (s\<lparr>t_current_style := apply_sgr params (t_current_style s)\<rparr>)
      else if action = 114 then \<comment> \<open>r\<close>
        Some (set_scroll_region params n)
      else if action = 83 then \<comment> \<open>S\<close>
        Some (scroll_up_region (param_or params 0 1) n)
      else if action = 84 then \<comment> \<open>T\<close>
        Some (scroll_down (param_or params 0 1) n)
      else if action = 100 then \<comment> \<open>d\<close>
        Some (n\<lparr>t_cursor_row := cursor_row_from_param params 0 n\<rparr>)
      else if action = 104 \<and> private then Some (set_private_modes params True n) \<comment> \<open>h\<close>
      else if action = 108 \<and> private then Some (set_private_modes params False n) \<comment> \<open>l\<close>
      else if action = 104 then Some (set_public_modes params True n)
      else if action = 108 then Some (set_public_modes params False n)
      else Some n)"

definition push_pending_control_byte :: "u8 \<Rightarrow> terminal_screen \<Rightarrow> terminal_screen" where
  "push_pending_control_byte b s =
     (if length (t_pending_control s) < max_pending_control_bytes
      then s\<lparr>t_pending_control := t_pending_control s @ [b]\<rparr> else s)"

definition clear_pending_control :: "terminal_screen \<Rightarrow> terminal_screen" where
  "clear_pending_control s = s\<lparr>t_pending_control := []\<rparr>"

definition apply_escape_byte :: "u8 \<Rightarrow> terminal_screen \<Rightarrow> terminal_screen" where
  "apply_escape_byte b s =
     (let n = s\<lparr>t_pending_home_clear_cut := False\<rparr> in
      if b = 91 then s\<lparr>t_parser := Csi False [] None\<rparr>
      else if b = 93 then s\<lparr>t_parser := Osc\<rparr>
      else if b = 55 then
        (clear_pending_control (n\<lparr>t_saved_cursor := Some (t_cursor_row n, t_cursor_col n)\<rparr>))
          \<lparr>t_parser := Ground\<rparr>
      else if b = 56 then
        (clear_pending_control
          (case t_saved_cursor n of
             Some (row, col) \<Rightarrow>
               n\<lparr>t_cursor_row := min row (t_rows n - 1), t_cursor_col := min col (t_cols n - 1)\<rparr>
           | None \<Rightarrow> n))\<lparr>t_parser := Ground\<rparr>
      else if b = 61 then
        (clear_pending_control (n\<lparr>t_modes := (t_modes n)\<lparr>tm_application_keypad := True\<rparr>\<rparr>))
          \<lparr>t_parser := Ground\<rparr>
      else if b = 62 then
        (clear_pending_control (n\<lparr>t_modes := (t_modes n)\<lparr>tm_application_keypad := False\<rparr>\<rparr>))
          \<lparr>t_parser := Ground\<rparr>
      else if b = 99 then
        (clear_pending_control
          ((clear_screen_and_scrollback (s\<lparr>t_requires_snapshot_redraw := True\<rparr>))
             \<lparr>t_pending_home_clear_cut := False, t_cursor_row := 0, t_cursor_col := 0,
              t_saved_cursor := None, t_current_style := cell_style_default,
              t_modes := terminal_modes_default\<rparr>))\<lparr>t_parser := Ground\<rparr>
      else if 32 \<le> b \<and> b \<le> 47 then
        n\<lparr>t_requires_snapshot_redraw := True, t_parser := EscapeIntermediate\<rparr>
      else (clear_pending_control n)\<lparr>t_parser := Ground\<rparr>)"

section \<open>UTF-8\<close>

text \<open>
  \<open>std::str::from_utf8\<close>: the text, or an error that says whether the input merely ends too early
  (\<open>error_len() == None\<close>) or holds an invalid sequence.
\<close>

datatype utf8_result = Utf8Ok "uchar list" | Utf8Incomplete | Utf8Invalid

definition is_continuation :: "u8 \<Rightarrow> bool" where
  "is_continuation b \<longleftrightarrow> 128 \<le> b \<and> b \<le> 191"

definition utf8_second_ok :: "u8 \<Rightarrow> u8 \<Rightarrow> bool" where
  "utf8_second_ok b0 b1 \<longleftrightarrow>
     (if b0 = 224 then 160 \<le> b1 \<and> b1 \<le> 191
      else if b0 = 237 then 128 \<le> b1 \<and> b1 \<le> 159
      else if b0 = 240 then 144 \<le> b1 \<and> b1 \<le> 191
      else if b0 = 244 then 128 \<le> b1 \<and> b1 \<le> 143
      else is_continuation b1)"

definition utf8_cons :: "uchar \<Rightarrow> utf8_result \<Rightarrow> utf8_result" where
  "utf8_cons c r = (case r of Utf8Ok cs \<Rightarrow> Utf8Ok (c # cs) | Utf8Incomplete \<Rightarrow> Utf8Incomplete
     | Utf8Invalid \<Rightarrow> Utf8Invalid)"

fun from_utf8 :: "u8 list \<Rightarrow> utf8_result" where
  "from_utf8 [] = Utf8Ok []"
| "from_utf8 (b0 # bs) =
     (if b0 < 128 then utf8_cons b0 (from_utf8 bs)
      else if 194 \<le> b0 \<and> b0 \<le> 223 then
        (case bs of
           [] \<Rightarrow> Utf8Incomplete
         | b1 # bs1 \<Rightarrow>
             if \<not> is_continuation b1 then Utf8Invalid
             else utf8_cons ((b0 - 192) * 64 + (b1 - 128)) (from_utf8 bs1))
      else if 224 \<le> b0 \<and> b0 \<le> 239 then
        (case bs of
           [] \<Rightarrow> Utf8Incomplete
         | b1 # bs1 \<Rightarrow>
             if \<not> utf8_second_ok b0 b1 then Utf8Invalid
             else (case bs1 of
                [] \<Rightarrow> Utf8Incomplete
              | b2 # bs2 \<Rightarrow>
                  if \<not> is_continuation b2 then Utf8Invalid
                  else utf8_cons ((b0 - 224) * 4096 + (b1 - 128) * 64 + (b2 - 128)) (from_utf8 bs2)))
      else if 240 \<le> b0 \<and> b0 \<le> 244 then
        (case bs of
           [] \<Rightarrow> Utf8Incomplete
         | b1 # bs1 \<Rightarrow>
             if \<not> utf8_second_ok b0 b1 then Utf8Invalid
             else (case bs1 of
                [] \<Rightarrow> Utf8Incomplete
              | b2 # bs2 \<Rightarrow>
                  if \<not> is_continuation b2 then Utf8Invalid
                  else (case bs2 of
                     [] \<Rightarrow> Utf8Incomplete
                   | b3 # bs3 \<Rightarrow>
                       if \<not> is_continuation b3 then Utf8Invalid
                       else utf8_cons ((b0 - 240) * 262144 + (b1 - 128) * 4096 + (b2 - 128) * 64
                              + (b3 - 128)) (from_utf8 bs3))))
      else Utf8Invalid)"

definition replacement_char :: uchar where
  "replacement_char = 65533"

definition push_utf8_byte :: "(uchar \<Rightarrow> usize option) \<Rightarrow> u8 \<Rightarrow> terminal_screen \<Rightarrow> terminal_screen option" where
  "push_utf8_byte w b s =
     (let pending = t_utf8_pending s @ [b] in
      case from_utf8 pending of
        Utf8Ok chars \<Rightarrow> for_each (print_char w) chars (s\<lparr>t_utf8_pending := []\<rparr>)
      | Utf8Incomplete \<Rightarrow>
          if length pending \<le> 4 then Some (s\<lparr>t_utf8_pending := pending\<rparr>)
          else print_char w replacement_char (s\<lparr>t_utf8_pending := []\<rparr>)
      | Utf8Invalid \<Rightarrow> print_char w replacement_char (s\<lparr>t_utf8_pending := []\<rparr>))"

definition flush_invalid_utf8 :: "(uchar \<Rightarrow> usize option) \<Rightarrow> terminal_screen \<Rightarrow> terminal_screen option" where
  "flush_invalid_utf8 w s =
     (if t_utf8_pending s \<noteq> [] then print_char w replacement_char (s\<lparr>t_utf8_pending := []\<rparr>)
      else Some s)"

section \<open>The byte interpreter\<close>

definition apply_ground_byte :: "(uchar \<Rightarrow> usize option) \<Rightarrow> u8 \<Rightarrow> terminal_screen \<Rightarrow> terminal_screen option" where
  "apply_ground_byte w b s0 =
     (if b = 27 then do {
        s \<leftarrow> flush_invalid_utf8 w s0;
        let s1 = push_pending_control_byte b (s\<lparr>t_pending_control := []\<rparr>);
        Some (s1\<lparr>t_parser := Escape\<rparr>)
      }
      else if b = 13 then do {
        s \<leftarrow> flush_invalid_utf8 w s0;
        Some (s\<lparr>t_pending_home_clear_cut := False, t_cursor_col := 0\<rparr>)
      }
      else if b = 10 then do {
        s \<leftarrow> flush_invalid_utf8 w s0;
        s1 \<leftarrow> line_feed (s\<lparr>t_pending_home_clear_cut := False\<rparr>);
        Some (s1\<lparr>t_cursor_col := 0\<rparr>)
      }
      else if b = 8 then do {
        s \<leftarrow> flush_invalid_utf8 w s0;
        Some (s\<lparr>t_pending_home_clear_cut := False, t_requires_snapshot_redraw := True,
                t_cursor_col := t_cursor_col s - 1\<rparr>)
      }
      else if b = 9 then do {
        s \<leftarrow> flush_invalid_utf8 w s0;
        let next_tab = (t_cursor_col s div 8 + 1) * 8;
        Some (s\<lparr>t_pending_home_clear_cut := False, t_requires_snapshot_redraw := True,
                t_cursor_col := min next_tab (t_cols s - 1)\<rparr>)
      }
      else if b \<le> 31 \<or> b = 127 then
        flush_invalid_utf8 w (s0\<lparr>t_pending_home_clear_cut := False\<rparr>)
      else if 32 \<le> b \<and> b \<le> 126 then do {
        s \<leftarrow> flush_invalid_utf8 w s0;
        print_char w b (s\<lparr>t_pending_home_clear_cut := False\<rparr>)
      }
      else push_utf8_byte w b (s0\<lparr>t_pending_home_clear_cut := False\<rparr>))"

definition apply_csi_byte ::
  "bool \<Rightarrow> u16 option list \<Rightarrow> u16 option \<Rightarrow> u8 \<Rightarrow> terminal_screen \<Rightarrow> terminal_screen option" where
  "apply_csi_byte private params current b s =
     (if b = 63 then Some (s\<lparr>t_parser := Csi True params current\<rparr>)
      else if 48 \<le> b \<and> b \<le> 57 then
        Some (s\<lparr>t_parser := Csi private params
          (Some (sat_add16 (sat_mul16 (case current of None \<Rightarrow> 0 | Some v \<Rightarrow> v) 10) (b - 48)))\<rparr>)
      else if b = 59 then Some (s\<lparr>t_parser := Csi private (params @ [current]) None\<rparr>)
      else if 64 \<le> b \<and> b \<le> 126 then
        dispatch_csi private (params @ [current]) b (clear_pending_control (s\<lparr>t_parser := Ground\<rparr>))
      else Some (s\<lparr>t_parser := Csi private params current\<rparr>))"

definition apply_byte :: "(uchar \<Rightarrow> usize option) \<Rightarrow> u8 \<Rightarrow> terminal_screen \<Rightarrow> terminal_screen option" where
  "apply_byte w b s0 =
     (let s = s0\<lparr>t_parser := Ground\<rparr>; p = push_pending_control_byte b s in
      case t_parser s0 of
        Ground \<Rightarrow> apply_ground_byte w b s
      | Escape \<Rightarrow> Some (apply_escape_byte b p)
      | EscapeIntermediate \<Rightarrow>
          Some (if 32 \<le> b \<and> b \<le> 47 then p\<lparr>t_parser := EscapeIntermediate\<rparr>
                else (clear_pending_control p)\<lparr>t_parser := Ground\<rparr>)
      | Osc \<Rightarrow>
          Some (if b = 7 then (clear_pending_control p)\<lparr>t_parser := Ground\<rparr>
                else if b = 27 then p\<lparr>t_parser := OscEscape\<rparr>
                else p\<lparr>t_parser := Osc\<rparr>)
      | OscEscape \<Rightarrow>
          Some (if b = 92 then (clear_pending_control p)\<lparr>t_parser := Ground\<rparr>
                else p\<lparr>t_parser := Osc\<rparr>)
      | Csi private params current \<Rightarrow> apply_csi_byte private params current b p)"

definition screen_apply :: "(uchar \<Rightarrow> usize option) \<Rightarrow> u8 list \<Rightarrow> terminal_screen \<Rightarrow> terminal_screen option" where
  "screen_apply w bytes s = for_each (apply_byte w) bytes s"

section \<open>Resizing\<close>

text \<open>
  The loops \<open>while lines.len() < rows\<close> push one line per round and never trim below \<open>rows\<close>, so they
  run exactly \<open>rows - lines.len()\<close> times.
\<close>

definition saved_screen_resize ::
  "usize \<Rightarrow> usize \<Rightarrow> usize \<Rightarrow> usize \<Rightarrow> saved_screen \<Rightarrow> saved_screen" where
  "saved_screen_resize old_rows rows cols mx sv =
     (let was_full = (sv_scroll_top sv = 0 \<and> sv_scroll_bottom sv = old_rows);
          lines0 = map (line_resize cols) (sv_lines sv);
          (lines1, next1) = iter_n (rows - length lines0)
             (\<lambda>(ls, i). (ls @ [line_blank i cols False], sat_add64 i 1)) (lines0, sv_next_line_index sv);
          tp = (if was_full then 0 else min (sv_scroll_top sv) (rows - 1))
      in sv\<lparr>sv_lines := trim_front mx lines1, sv_next_line_index := next1,
            sv_cursor_row := min (sv_cursor_row sv) (rows - 1),
            sv_cursor_col := min (sv_cursor_col sv) (cols - 1),
            sv_scroll_top := tp,
            sv_scroll_bottom := (if was_full then rows else max (min (sv_scroll_bottom sv) rows) (tp + 1))\<rparr>)"

definition screen_resize :: "u16 \<Rightarrow> u16 \<Rightarrow> terminal_screen \<Rightarrow> terminal_screen" where
  "screen_resize rows0 cols0 s =
     (let rows = max rows0 1; cols = max cols0 1; old_rows = t_rows s;
          was_full = (t_scroll_top s = 0 \<and> t_scroll_bottom s = old_rows);
          s1 = s\<lparr>t_rows := rows, t_cols := cols,
                 t_max_cached_lines := max (t_max_cached_lines s) rows,
                 t_lines := map (line_resize cols) (t_lines s)\<rparr>;
          s2 = iter_n (rows - length (t_lines s1))
                 (push_blank_line_with_style False (t_current_style s1)) s1;
          s3 = trim_cached_lines s2;
          s4 = s3\<lparr>t_normal_screen :=
                 map_option (saved_screen_resize old_rows rows cols (t_max_cached_lines s3))
                   (t_normal_screen s3),
                 t_cursor_row := min (t_cursor_row s3) (rows - 1),
                 t_cursor_col := min (t_cursor_col s3) (cols - 1)\<rparr>
      in if was_full then s4\<lparr>t_scroll_top := 0, t_scroll_bottom := rows\<rparr>
         else (let tp = min (t_scroll_top s4) (rows - 1) in
               s4\<lparr>t_scroll_top := tp,
                  t_scroll_bottom := max (min (t_scroll_bottom s4) rows) (tp + 1)\<rparr>))"

definition cursor_position :: "terminal_screen \<Rightarrow> u16 \<times> u16" where
  "cursor_position s = (min (t_cursor_row s + 1) u16_max, min (t_cursor_col s + 1) u16_max)"

definition cell_count :: "terminal_screen \<Rightarrow> usize" where
  "cell_count s = sat_mul64 (length (t_lines s)) (t_cols s)"

end
