(* ===== verification/Activity_Parser.thy ===== *)
theory Activity_Parser
  imports Screen_Model Text_Lib
begin

text \<open>
  The byte-level half of \<open>termd/src/pty/activity.rs\<close>: the bounded OSC parser that every chunk of
  PTY output runs through, the two structured payload formats it extracts, the identity hints of a
  title, and the recognition of the foreground process from \<open>/proc\<close>.

  The parser keeps at most five command bytes and 256 payload bytes. The main result,
  \<open>agent_signals_survive_chunking\<close>, says what it extracts from a stream of plain output, foreign
  escapes and OSC sequences, however the stream is cut into chunks.
  The files of \<open>/proc\<close> are parameters (\<open>proc_stat\<close>, \<open>proc_cmdline\<close>).
\<close>

text \<open>\<open>std::str::from_utf8(bytes).ok()\<close>.\<close>

definition utf8_text :: "u8 list \<Rightarrow> uchar list option" where
  "utf8_text bs = (case from_utf8 bs of Utf8Ok t \<Rightarrow> Some t | _ \<Rightarrow> None)"

section \<open>The bounded OSC parser\<close>

definition osc_payload_max_bytes :: usize where
  "osc_payload_max_bytes = 256"

definition osc_command_max_bytes :: usize where
  "osc_command_max_bytes = 5"

datatype osc_payload_kind = PK_Title | PK_ClaudeStatus | PK_ItermProgress

datatype osc_event = Ev_Title "u8 list" | Ev_ClaudeStatus "u8 list" | Ev_ItermProgress "u8 list"

fun payload_kind_event :: "osc_payload_kind \<Rightarrow> u8 list \<Rightarrow> osc_event" where
  "payload_kind_event PK_Title payload = Ev_Title payload"
| "payload_kind_event PK_ClaudeStatus payload = Ev_ClaudeStatus payload"
| "payload_kind_event PK_ItermProgress payload = Ev_ItermProgress payload"

datatype osc_parser_state =
    Osc_Ground
  | Osc_Escape
  | Osc_Command "u8 list"
  | Osc_Payload osc_payload_kind "u8 list"
  | Osc_PayloadEscape osc_payload_kind "u8 list"
  | Osc_Discard
  | Osc_DiscardEscape

text \<open>The payload kind of a command number.\<close>

definition osc_command_kind :: "u8 list \<Rightarrow> osc_payload_kind option" where
  "osc_command_kind command =
     (if command = ascii ''0'' \<or> command = ascii ''2'' then Some PK_Title
      else if command = ascii ''9'' then Some PK_ItermProgress
      else if command = ascii ''21337'' then Some PK_ClaudeStatus
      else None)"

text \<open>One byte: the events it completes and the next state.\<close>

fun osc_step :: "osc_parser_state \<Rightarrow> u8 \<Rightarrow> osc_event list \<times> osc_parser_state" where
  "osc_step Osc_Ground b = ([], if b = 27 then Osc_Escape else Osc_Ground)"
| "osc_step Osc_Escape b =
     ([], if b = 93 then Osc_Command [] else if b = 27 then Osc_Escape else Osc_Ground)"
| "osc_step (Osc_Command command) b =
     ([], if is_digit b \<and> length command < osc_command_max_bytes then Osc_Command (command @ [b])
          else if b = 59 then
            (case osc_command_kind command of Some kind \<Rightarrow> Osc_Payload kind [] | None \<Rightarrow> Osc_Discard)
          else if b = 7 then Osc_Ground
          else if b = 27 then Osc_DiscardEscape
          else Osc_Discard)"
| "osc_step (Osc_Payload kind payload) b =
     (if b = 7 then ([payload_kind_event kind payload], Osc_Ground)
      else if b = 27 then ([], Osc_PayloadEscape kind payload)
      else if length payload < osc_payload_max_bytes then ([], Osc_Payload kind (payload @ [b]))
      else ([], Osc_Discard))"
| "osc_step (Osc_PayloadEscape kind payload) b =
     (if b = 92 then ([payload_kind_event kind payload], Osc_Ground)
      else if b = 7 then ([], Osc_Ground)
      else if b = 27 then ([], Osc_DiscardEscape)
      else ([], Osc_Discard))"
| "osc_step Osc_Discard b =
     ([], if b = 7 then Osc_Ground else if b = 27 then Osc_DiscardEscape else Osc_Discard)"
| "osc_step Osc_DiscardEscape b =
     ([], if b = 92 \<or> b = 7 then Osc_Ground else if b = 27 then Osc_DiscardEscape else Osc_Discard)"

fun osc_push :: "osc_parser_state \<Rightarrow> u8 list \<Rightarrow> osc_event list \<times> osc_parser_state" where
  "osc_push s [] = ([], s)"
| "osc_push s (b # bs) =
     (let (events, s1) = osc_step s b; (events', s2) = osc_push s1 bs in (events @ events', s2))"

text \<open>A stream that arrives in several chunks, each pushed on its own.\<close>

fun osc_push_chunks :: "osc_parser_state \<Rightarrow> u8 list list \<Rightarrow> osc_event list \<times> osc_parser_state" where
  "osc_push_chunks s [] = ([], s)"
| "osc_push_chunks s (c # cs) =
     (let (events, s1) = osc_push s c; (events', s2) = osc_push_chunks s1 cs in (events @ events', s2))"

section \<open>Structured payloads\<close>

text \<open>
  The loop of \<open>parse_claude_status\<close>: key and value read so far, whether the value is being read,
  whether the next byte is escaped.
\<close>

fun claude_status_loop :: "u8 list \<Rightarrow> u8 list \<Rightarrow> bool \<Rightarrow> bool \<Rightarrow> u8 list \<Rightarrow> u8 list option" where
  "claude_status_loop key val reading escaped [] = None"
| "claude_status_loop key val reading escaped (b # bs) =
     (if escaped then
        (if reading then claude_status_loop key (val @ [b]) reading False bs
         else claude_status_loop (key @ [b]) val reading False bs)
      else if b = 92 then claude_status_loop key val reading True bs
      else if b = 61 \<and> \<not> reading then claude_status_loop key val True False bs
      else if b = 59 then
        (if key = ascii ''status'' \<and> reading then Some val
         else claude_status_loop [] [] False False bs)
      else if reading then claude_status_loop key (val @ [b]) reading False bs
      else claude_status_loop (key @ [b]) val reading False bs)"

definition parse_claude_status :: "u8 list \<Rightarrow> u8 list option" where
  "parse_claude_status payload = claude_status_loop [] [] False False (payload @ [59])"

definition parse_iterm_progress_state :: "u8 list \<Rightarrow> u8 option" where
  "parse_iterm_progress_state payload =
     (case split_on 59 payload of
        field # state # _ \<Rightarrow>
          if field \<noteq> ascii ''4'' then None
          else (case state of [d] \<Rightarrow> if is_digit d then Some (d - 48) else None | _ \<Rightarrow> None)
      | _ \<Rightarrow> None)"

section \<open>Agents and identity hints\<close>

datatype session_activity_agent = Codex | ClaudeCode | OpenCode | ZCode

datatype foreground_process = Fg_Agent session_activity_agent | Fg_Other | Fg_Unknown

definition is_codex_spinner_title :: "uchar list \<Rightarrow> bool" where
  "is_codex_spinner_title title \<longleftrightarrow>
     (title \<noteq> [] \<and> 10240 \<le> hd title \<and> hd title \<le> 10495) \<or>
     (93 \<in> set title \<and>
      (let until_close = takeWhile (\<lambda>c. c \<noteq> 93) title; close = sum_list (map len_utf8 until_close) in
       hd title = 91 \<and> close \<le> 8 \<and>
       length (trim_text (tl until_close)) = 1 \<and> trim_text (drop (Suc (length until_close)) title) \<noteq> []))"

definition is_codex_running_title :: "uchar list \<Rightarrow> bool" where
  "is_codex_running_title title \<longleftrightarrow>
     (let lower = to_ascii_lowercase title in
      contains_text (ascii ''working'') lower \<or> contains_text (ascii ''thinking'') lower \<or>
      contains_text (ascii ''running'') lower \<or> is_codex_spinner_title title)"

definition title_identity_hint :: "u8 list \<Rightarrow> session_activity_agent option" where
  "title_identity_hint raw =
     (case utf8_text raw of
        None \<Rightarrow> None
      | Some t \<Rightarrow>
          let title = trim_text t; lower = to_ascii_lowercase title in
          if lower = ascii ''opencode'' \<or> starts_with (ascii ''oc |'') lower then Some OpenCode
          else if lower = ascii ''zcode'' \<or> starts_with (ascii ''zcode |'') lower \<or>
                  starts_with (ascii ''zcode -'') lower then Some ZCode
          else if contains_text (ascii ''claude code'') lower then Some ClaudeCode
          else if contains_text (ascii ''codex'') lower \<or> contains_text (ascii ''action required'') lower \<or>
                  is_codex_spinner_title title then Some Codex
          else None)"

fun osc_event_identity_hint :: "osc_event \<Rightarrow> session_activity_agent option" where
  "osc_event_identity_hint (Ev_ClaudeStatus payload) = Some ClaudeCode"
| "osc_event_identity_hint (Ev_Title title) = title_identity_hint title"
| "osc_event_identity_hint (Ev_ItermProgress payload) = None"

fun event_identity_hints_mismatch :: "osc_event list \<Rightarrow> foreground_process \<Rightarrow> bool" where
  "event_identity_hints_mismatch events (Fg_Agent agent) =
     list_ex (\<lambda>hint. hint \<noteq> agent) (List.map_filter osc_event_identity_hint events)"
| "event_identity_hints_mismatch events Fg_Other = False"
| "event_identity_hints_mismatch events Fg_Unknown = False"

section \<open>The foreground process\<close>

definition path_file_name :: "u8 list \<Rightarrow> u8 list option" where
  "path_file_name path = find (\<lambda>part. part \<noteq> []) (rev (split_on 47 path))"

definition path_has_component :: "u8 list \<Rightarrow> u8 list \<Rightarrow> bool" where
  "path_has_component path expected \<longleftrightarrow> list_ex (\<lambda>c. c = expected) (split_on 47 path)"

definition path_has_scoped_package :: "u8 list \<Rightarrow> u8 list \<Rightarrow> u8 list \<Rightarrow> bool" where
  "path_has_scoped_package path scope package \<longleftrightarrow>
     (let components = split_on 47 path in
      list_ex (\<lambda>(a, b). a = scope \<and> b = package) (zip components (tl components)))"

definition agent_for_executable_name :: "u8 list \<Rightarrow> session_activity_agent option" where
  "agent_for_executable_name name =
     (if name = ascii ''codex'' then Some Codex
      else if name = ascii ''claude'' then Some ClaudeCode
      else if name = ascii ''opencode'' then Some OpenCode
      else if name = ascii ''zcode'' \<or> name = ascii ''zcode-cli'' then Some ZCode
      else None)"

definition agent_for_script_entrypoint :: "u8 list \<Rightarrow> session_activity_agent option" where
  "agent_for_script_entrypoint script =
     (case path_file_name script of
        None \<Rightarrow> None
      | Some name \<Rightarrow>
          (case agent_for_executable_name name of
             Some agent \<Rightarrow> Some agent
           | None \<Rightarrow>
               if name = ascii ''codex.js'' \<and> path_has_scoped_package script (ascii ''@openai'') (ascii ''codex'')
               then Some Codex
               else if name = ascii ''cli.js'' \<and>
                 path_has_scoped_package script (ascii ''@anthropic-ai'') (ascii ''claude-code'')
               then Some ClaudeCode
               else if (name = ascii ''cli.js'' \<or> name = ascii ''index.js'' \<or> name = ascii ''opencode.js'') \<and>
                 (path_has_component script (ascii ''opencode-ai'') \<or> path_has_component script (ascii ''opencode''))
               then Some OpenCode
               else if (name = ascii ''cli.js'' \<or> name = ascii ''index.js'' \<or> name = ascii ''zcode.js'' \<or>
                        name = ascii ''zcode-cli.js'') \<and>
                 (path_has_component script (ascii ''zcode'') \<or> path_has_component script (ascii ''zcode-cli''))
               then Some ZCode
               else None))"

definition agent_for_cmdline :: "u8 list \<Rightarrow> session_activity_agent option" where
  "agent_for_cmdline cmdline =
     (case filter (\<lambda>a. a \<noteq> []) (split_on 0 cmdline) of
        [] \<Rightarrow> None
      | program # rest \<Rightarrow>
          (case path_file_name program of
             None \<Rightarrow> None
           | Some program_name \<Rightarrow>
               (case agent_for_executable_name program_name of
                  Some agent \<Rightarrow> Some agent
                | None \<Rightarrow>
                    if program_name \<notin> {ascii ''node'', ascii ''nodejs'', ascii ''bun'', ascii ''bunx''} then None
                    else
                      (case filter (\<lambda>a. \<not> starts_with (ascii ''-'') a) rest of
                         [] \<Rightarrow> None
                       | entrypoint # others \<Rightarrow>
                           if program_name \<in> {ascii ''bun'', ascii ''bunx''} \<and>
                              entrypoint \<in> {ascii ''run'', ascii ''x'', ascii ''exec''}
                           then (case others of [] \<Rightarrow> None | entry # _ \<Rightarrow> agent_for_script_entrypoint entry)
                           else agent_for_script_entrypoint entrypoint))))"

definition parse_linux_tpgid :: "uchar list \<Rightarrow> nat option" where
  "parse_linux_tpgid stat =
     (case after_last (ascii '') '') stat of
        None \<Rightarrow> None
      | Some after_comm \<Rightarrow>
          let flds = split_ascii_whitespace after_comm in
          if length flds \<le> 5 then None
          else
            (case parse_i32 (flds ! 5) of
               None \<Rightarrow> None
             | Some tpgid \<Rightarrow> if tpgid < 0 then None else if nat tpgid > 0 then Some (nat tpgid) else None))"

text \<open>The two files read: \<open>proc_stat pid\<close> as text, \<open>proc_cmdline pid\<close> as bytes; \<open>None\<close> is a read error.\<close>

definition foreground_process_for_shell ::
  "(nat \<Rightarrow> uchar list option) \<Rightarrow> (nat \<Rightarrow> u8 list option) \<Rightarrow> nat option \<Rightarrow> foreground_process" where
  "foreground_process_for_shell proc_stat proc_cmdline shell_pid =
     (case shell_pid of
        None \<Rightarrow> Fg_Unknown
      | Some pid \<Rightarrow>
          (case proc_stat pid of
             None \<Rightarrow> Fg_Unknown
           | Some stat \<Rightarrow>
               (case parse_linux_tpgid stat of
                  None \<Rightarrow> Fg_Unknown
                | Some pgrp \<Rightarrow>
                    (case proc_cmdline pgrp of
                       None \<Rightarrow> Fg_Unknown
                     | Some cmdline \<Rightarrow>
                         (case agent_for_cmdline cmdline of
                            Some agent \<Rightarrow> Fg_Agent agent
                          | None \<Rightarrow> if list_ex (\<lambda>b. b \<noteq> 0) cmdline then Fg_Other else Fg_Unknown)))))"

section \<open>Chunks\<close>

lemma osc_push_append:
  "osc_push s (xs @ ys) =
    (let (e1, s1) = osc_push s xs; (e2, s2) = osc_push s1 ys in (e1 @ e2, s2))"
  by (induction xs arbitrary: s) (auto simp: Let_def split: prod.splits)

lemma osc_push_chunks_concat: "osc_push_chunks s cs = osc_push s (concat cs)"
  by (induction cs arbitrary: s) (auto simp: Let_def osc_push_append split: prod.splits)

lemma osc_push_then: "osc_push s xs = (e1, s1) \<Longrightarrow> osc_push s1 ys = (e2, s2) \<Longrightarrow> osc_push s (xs @ ys) = (e1 @ e2, s2)"
  by (simp add: osc_push_append)

text \<open>The memory of the parser is bounded whatever it is fed.\<close>

fun osc_bounded :: "osc_parser_state \<Rightarrow> bool" where
  "osc_bounded (Osc_Command command) \<longleftrightarrow> length command \<le> osc_command_max_bytes"
| "osc_bounded (Osc_Payload kind payload) \<longleftrightarrow> length payload \<le> osc_payload_max_bytes"
| "osc_bounded (Osc_PayloadEscape kind payload) \<longleftrightarrow> length payload \<le> osc_payload_max_bytes"
| "osc_bounded _ \<longleftrightarrow> True"

fun event_payload :: "osc_event \<Rightarrow> u8 list" where
  "event_payload (Ev_Title p) = p"
| "event_payload (Ev_ClaudeStatus p) = p"
| "event_payload (Ev_ItermProgress p) = p"

lemma event_payload_kind [simp]: "event_payload (payload_kind_event k p) = p"
  by (cases k) auto

lemma osc_step_bounded:
  assumes "osc_bounded s"
  shows "osc_bounded (snd (osc_step s b))"
    and "e \<in> set (fst (osc_step s b)) \<Longrightarrow> length (event_payload e) \<le> osc_payload_max_bytes"
  using assms by (cases s; auto split: option.splits if_splits)+

lemma osc_push_bounded:
  "osc_bounded s \<Longrightarrow> osc_bounded (snd (osc_push s bs)) \<and>
    (\<forall>e \<in> set (fst (osc_push s bs)). length (event_payload e) \<le> osc_payload_max_bytes)"
proof (induction bs arbitrary: s)
  case Nil
  then show ?case by simp
next
  case (Cons b bs)
  obtain e1 s1 where st: "osc_step s b = (e1, s1)" by force
  with osc_step_bounded [OF Cons.prems, where b = b]
  have "osc_bounded s1" "\<And>e. e \<in> set e1 \<Longrightarrow> length (event_payload e) \<le> osc_payload_max_bytes" by auto
  with Cons.IH [of s1] st show ?case by (auto simp: Let_def split: prod.splits)
qed

section \<open>What a stream carries\<close>

text \<open>
  A stream as its producer sees it: plain output without the escape byte, an escape followed by a
  byte that does not open an OSC (a CSI introducer, say), and an OSC with its number, its payload
  and one of the two terminators.
\<close>

datatype osc_item = Plain "u8 list" | Other_escape u8 | Osc_seq "u8 list" "u8 list" bool

fun item_ok :: "osc_item \<Rightarrow> bool" where
  "item_ok (Plain bs) \<longleftrightarrow> 27 \<notin> set bs"
| "item_ok (Other_escape b) \<longleftrightarrow> b \<noteq> 93 \<and> b \<noteq> 27"
| "item_ok (Osc_seq command payload bel) \<longleftrightarrow>
     list_all is_digit command \<and> 7 \<notin> set payload \<and> 27 \<notin> set payload"

fun item_bytes :: "osc_item \<Rightarrow> u8 list" where
  "item_bytes (Plain bs) = bs"
| "item_bytes (Other_escape b) = [27, b]"
| "item_bytes (Osc_seq command payload bel) =
     [27, 93] @ command @ [59] @ payload @ (if bel then [7] else [27, 92])"

text \<open>Titles, progress reports and status lines of at most 256 bytes are events; anything else is none.\<close>

fun item_events :: "osc_item \<Rightarrow> osc_event list" where
  "item_events (Osc_seq command payload bel) =
     (case osc_command_kind command of
        Some kind \<Rightarrow> if length payload \<le> osc_payload_max_bytes then [payload_kind_event kind payload] else []
      | None \<Rightarrow> [])"
| "item_events _ = []"

definition osc_terminator :: "bool \<Rightarrow> u8 list" where
  "osc_terminator bel = (if bel then [7] else [27, 92])"

lemma osc_ground_plain: "27 \<notin> set bs \<Longrightarrow> osc_push Osc_Ground bs = ([], Osc_Ground)"
  by (induction bs) auto

lemma osc_discard_plain: "7 \<notin> set bs \<Longrightarrow> 27 \<notin> set bs \<Longrightarrow> osc_push Osc_Discard bs = ([], Osc_Discard)"
  by (induction bs) auto

lemma osc_discard_end: "osc_push Osc_Discard (osc_terminator bel) = ([], Osc_Ground)"
  by (simp add: osc_terminator_def)

lemma osc_payload_end:
  "osc_push (Osc_Payload kind p) (osc_terminator bel) = ([payload_kind_event kind p], Osc_Ground)"
  by (simp add: osc_terminator_def)

lemma osc_payload_plain:
  "7 \<notin> set bs \<Longrightarrow> 27 \<notin> set bs \<Longrightarrow> length p \<le> osc_payload_max_bytes \<Longrightarrow>
    osc_push (Osc_Payload kind p) bs =
      ([], if length (p @ bs) \<le> osc_payload_max_bytes then Osc_Payload kind (p @ bs) else Osc_Discard)"
  by (induction bs arbitrary: p) (auto simp: osc_discard_plain)

lemma osc_command_digits:
  "list_all is_digit ds \<Longrightarrow> length c \<le> osc_command_max_bytes \<Longrightarrow>
    osc_push (Osc_Command c) ds =
      ([], if length (c @ ds) \<le> osc_command_max_bytes then Osc_Command (c @ ds) else Osc_Discard)"
proof (induction ds arbitrary: c)
  case Nil
  then show ?case by simp
next
  case (Cons d ds)
  have rest: "osc_push Osc_Discard ds = ([], Osc_Discard)"
    using Cons.prems(1) by (intro osc_discard_plain) (auto simp: is_digit_def list_all_iff)
  show ?case
  proof (cases "length c < osc_command_max_bytes")
    case True
    with Cons show ?thesis by simp
  next
    case False
    with Cons.prems rest show ?thesis by (auto simp: is_digit_def)
  qed
qed

lemma osc_command_kind_short: "osc_command_kind c = Some k \<Longrightarrow> length c \<le> osc_command_max_bytes"
  by (auto simp: osc_command_kind_def ascii_def osc_command_max_bytes_def split: if_splits)

lemma osc_after_command:
  assumes "list_all is_digit c"
  shows "osc_push Osc_Ground ([27, 93] @ c @ [59]) =
    ([], case osc_command_kind c of Some kind \<Rightarrow> Osc_Payload kind [] | None \<Rightarrow> Osc_Discard)"
proof -
  have open_osc: "osc_push Osc_Ground [27, 93] = ([], Osc_Command [])" by simp
  note ds = osc_command_digits [OF assms, of "[]"]
  show ?thesis
  proof (cases "length c \<le> osc_command_max_bytes")
    case True
    then have "osc_push (Osc_Command []) (c @ [59]) =
        ([], case osc_command_kind c of Some kind \<Rightarrow> Osc_Payload kind [] | None \<Rightarrow> Osc_Discard)"
      using osc_push_then [OF ds, of "[59]"] by (simp add: is_digit_def)
    from osc_push_then [OF open_osc this] show ?thesis by simp
  next
    case False
    then have "osc_command_kind c = None" using osc_command_kind_short by (cases "osc_command_kind c") auto
    moreover have "osc_push (Osc_Command []) (c @ [59]) = ([], Osc_Discard)"
      using osc_push_then [OF ds, of "[59]"] False by simp
    ultimately show ?thesis using osc_push_then [OF open_osc] by simp
  qed
qed

lemma osc_push_item: "item_ok i \<Longrightarrow> osc_push Osc_Ground (item_bytes i) = (item_events i, Osc_Ground)"
proof (cases i)
  case (Plain bs)
  moreover assume "item_ok i"
  ultimately show ?thesis by (simp add: osc_ground_plain)
next
  case (Other_escape b)
  moreover assume "item_ok i"
  ultimately show ?thesis by simp
next
  case (Osc_seq c p bel)
  assume "item_ok i"
  with Osc_seq have c: "list_all is_digit c" and p: "7 \<notin> set p" "27 \<notin> set p" by auto
  have bytes: "item_bytes i = ([27, 93] @ c @ [59]) @ (p @ osc_terminator bel)"
    by (simp add: Osc_seq osc_terminator_def)
  note rest = osc_push_then [OF osc_after_command [OF c]]
  show ?thesis
  proof (cases "osc_command_kind c")
    case None
    have "osc_push Osc_Discard (p @ osc_terminator bel) = ([], Osc_Ground)"
      using osc_push_then [OF osc_discard_plain [OF p] osc_discard_end] by simp
    with None rest show ?thesis unfolding bytes by (simp add: Osc_seq)
  next
    case (Some kind)
    have "osc_push (Osc_Payload kind []) (p @ osc_terminator bel) = (item_events i, Osc_Ground)"
      using osc_push_then [OF osc_payload_plain [OF p, of "[]" kind], of "osc_terminator bel"]
      by (simp add: Osc_seq Some osc_discard_end osc_payload_end)
    with Some rest show ?thesis unfolding bytes by simp
  qed
qed

lemma osc_push_items:
  "list_all item_ok items \<Longrightarrow>
    osc_push Osc_Ground (concat (map item_bytes items)) = (concat (map item_events items), Osc_Ground)"
proof (induction items)
  case Nil
  then show ?case by simp
next
  case (Cons i items)
  then have "item_ok i" "list_all item_ok items" by simp_all
  with Cons.IH osc_push_then [OF osc_push_item] show ?case by simp
qed

text \<open>
  From a stream of plain output, foreign escapes and OSC sequences the parser extracts exactly
  the titles, progress reports and status lines of at most 256 bytes, in order and unchanged,
  however the stream is cut into chunks, and it is back in its ground state at the end: a sequence
  with an unknown or overlong number or an overlong payload is dropped as a whole and swallows
  nothing after its terminator.
\<close>

lemma agent_signals_survive_chunking:
  assumes "list_all item_ok items" "concat chunks = concat (map item_bytes items)"
  shows "osc_push_chunks Osc_Ground chunks = (concat (map item_events items), Osc_Ground)"
  using assms by (simp add: osc_push_chunks_concat osc_push_items)

section \<open>The foreground process is the leader of the terminal's group\<close>

lemma after_last_absent: "41 \<notin> set r \<Longrightarrow> after_last [41, 32] r = None"
  by (induction r) (auto simp: starts_with_def)

lemma after_last_found:
  assumes "(41::nat) \<notin> set r"
  shows "after_last [41, 32] (pre @ [41, 32] @ r) = Some r"
proof (induction pre)
  case Nil
  have "after_last [41, 32] (32 # r) = None" using assms by (intro after_last_absent) simp
  then show ?case by (simp add: starts_with_def)
next
  case (Cons c pre)
  then show ?case by simp
qed

lemma whitespace_fields_token:
  "list_all (\<lambda>c. \<not> is_ascii_whitespace c) tok \<Longrightarrow>
    whitespace_fields cur (tok @ rest) = whitespace_fields (cur @ tok) rest"
  by (induction tok arbitrary: cur) auto

lemma split_ascii_whitespace_join:
  assumes "list_all (\<lambda>f. f \<noteq> [] \<and> list_all (\<lambda>c. \<not> is_ascii_whitespace c) f) flds"
  shows "split_ascii_whitespace (join_with 32 flds @ [10]) = flds"
  using assms unfolding split_ascii_whitespace_def
proof (induction flds rule: induct_list012)
  case 1
  then show ?case by (simp add: is_ascii_whitespace_def)
next
  case (2 x)
  then show ?case by (simp add: whitespace_fields_token is_ascii_whitespace_def)
next
  case (3 x y ys)
  then show ?case by (simp add: whitespace_fields_token is_ascii_whitespace_def)
qed

lemma parse_i32_dec:
  assumes "n \<le> 2147483647"
  shows "parse_i32 (dec n) = Some (int n)"
proof -
  have ds: "list_all is_digit (dec n)" using dec_digits by (fastforce simp: list_all_iff is_digit_def)
  then have "hd (dec n) \<noteq> 45" "hd (dec n) \<noteq> 43"
    using dec_nonempty [of n] by (cases "dec n"; auto simp: is_digit_def)+
  with ds assms show ?thesis by (simp add: parse_i32_def Let_def digits_value_dec)
qed

text \<open>A line of \<open>/proc/<pid>/stat\<close>: the process id, the command name in parentheses, the other fields.\<close>

definition stat_line :: "nat \<Rightarrow> uchar list \<Rightarrow> uchar list list \<Rightarrow> uchar list" where
  "stat_line pid comm flds = dec pid @ ascii '' ('' @ comm @ ascii '') '' @ join_with 32 flds @ [10]"

definition stat_fields_ok :: "uchar list list \<Rightarrow> bool" where
  "stat_fields_ok flds \<longleftrightarrow>
     list_all (\<lambda>f. f \<noteq> [] \<and> list_all (\<lambda>c. \<not> is_ascii_whitespace c \<and> c \<noteq> 41) f) flds"

lemma set_join_with: "set (join_with s fs) \<subseteq> insert s (\<Union> (set ` set fs))"
  by (induction s fs rule: join_with.induct) auto

lemma parse_stat_line:
  assumes "stat_fields_ok flds" "5 < length flds" "flds ! 5 = dec n" "n \<le> 2147483647"
  shows "parse_linux_tpgid (stat_line pid comm flds) = (if n = 0 then None else Some n)"
proof -
  have f: "list_all (\<lambda>f. f \<noteq> [] \<and> list_all (\<lambda>c. \<not> is_ascii_whitespace c) f) flds"
    and "\<forall>f \<in> set flds. 41 \<notin> set f"
    using assms(1) by (auto simp: stat_fields_ok_def list_all_iff)
  with set_join_with [of 32 flds] have "41 \<notin> set (join_with 32 flds @ [10])" by auto
  from after_last_found [OF this, of "dec pid @ ascii '' ('' @ comm"]
  have "after_last (ascii '') '') (stat_line pid comm flds) = Some (join_with 32 flds @ [10])"
    by (simp add: stat_line_def ascii_def)
  then show ?thesis
    using assms(2-4) by (simp add: parse_linux_tpgid_def split_ascii_whitespace_join [OF f] parse_i32_dec Let_def)
qed

text \<open>
  Given a line of \<open>/proc/<pid>/stat\<close> the foreground process is recognised from the command line
  of the terminal's foreground process group, whatever the command name of the shell is (a name with
  parentheses and blanks does not shift the fields); without a foreground group the answer is unknown.
\<close>

lemma foreground_is_terminal_group_leader:
  assumes "proc_stat shell = Some (stat_line shell comm flds)"
    "stat_fields_ok flds" "5 < length flds" "flds ! 5 = dec n" "n \<le> 2147483647"
  shows "foreground_process_for_shell proc_stat proc_cmdline (Some shell) =
    (if n = 0 then Fg_Unknown
     else case proc_cmdline n of
       None \<Rightarrow> Fg_Unknown
     | Some cmdline \<Rightarrow>
         (case agent_for_cmdline cmdline of
            Some agent \<Rightarrow> Fg_Agent agent
          | None \<Rightarrow> if \<exists>b \<in> set cmdline. b \<noteq> 0 then Fg_Other else Fg_Unknown))"
  by (auto simp: foreground_process_for_shell_def assms(1) parse_stat_line [OF assms(2-5)] list_ex_iff
    split: option.splits)

section \<open>Status lines of Claude Code\<close>

text \<open>A field as the producer writes it: separators and backslashes are escaped.\<close>

definition status_escape :: "u8 list \<Rightarrow> u8 list" where
  "status_escape t = concat (map (\<lambda>b. if b \<in> {92, 59, 61} then [92, b] else [b]) t)"

definition status_field :: "u8 list \<times> u8 list \<Rightarrow> u8 list" where
  "status_field kv = status_escape (fst kv) @ [61] @ status_escape (snd kv)"

lemma status_loop_key:
  "claude_status_loop key val False False (status_escape t @ rest) = claude_status_loop (key @ t) val False False rest"
  by (induction t arbitrary: key) (auto simp: status_escape_def)

lemma status_loop_value:
  "claude_status_loop key val True False (status_escape t @ rest) = claude_status_loop key (val @ t) True False rest"
  by (induction t arbitrary: val) (auto simp: status_escape_def)

lemma status_loop_field:
  "claude_status_loop [] [] False False (status_field kv @ [59] @ rest) =
    (if fst kv = ascii ''status'' then Some (snd kv) else claude_status_loop [] [] False False rest)"
  by (simp add: status_field_def status_loop_key status_loop_value)

text \<open>The value of the first status field is read back, whatever bytes keys and values hold.\<close>

lemma parse_claude_status_fields:
  "flds \<noteq> [] \<Longrightarrow> parse_claude_status (join_with 59 (map status_field flds)) = map_of flds (ascii ''status'')"
proof -
  have "claude_status_loop [] [] False False (join_with 59 (map status_field flds) @ [59]) =
      map_of flds (ascii ''status'')" if "flds \<noteq> []"
    using that
  proof (induction flds rule: induct_list012)
    case (2 kv)
    show ?case using status_loop_field [of kv "[]"] by (cases kv) simp
  next
    case (3 kv kv' fs)
    show ?case using status_loop_field [of kv "join_with 59 (map status_field (kv' # fs)) @ [59]"] "3.IH"(2)
      by (cases kv) simp
  qed simp
  then show "flds \<noteq> [] \<Longrightarrow> ?thesis" by (simp add: parse_claude_status_def)
qed

end
