(* ===== verification/Activity_Detector.thy ===== *)
theory Activity_Detector
  imports Activity_Parser
begin

text \<open>
  The state machine of \<open>termd/src/pty/activity.rs\<close>: \<open>SessionActivityDetector\<close>, which turns PTY output
  and the foreground process into the activity of an AI agent that clients see on a session.

  The specification is the life cycle of an activity (\<open>activity_may_become\<close>): the states an activity may
  take next. \<open>detector_follows_life_cycle\<close> shows that every run of the detector publishes a path of that
  machine which ends in the detector's own activity. The probe of the foreground process is the
  argument \<open>fg\<close>, the value the callback would return.
\<close>

section \<open>State\<close>

datatype session_activity_kind = Ai

datatype session_activity_state = As_Idle | As_Running | As_Attention | As_Completed

record session_ai_activity =
  aa_kind :: session_activity_kind
  aa_agent :: session_activity_agent
  aa_state :: session_activity_state
  aa_changed_at_ms :: u64

definition foreground_probe_min_interval_ms :: u64 where
  "foreground_probe_min_interval_ms = 100"

datatype event_identity_probe_state = Probe_Ready | Probe_Pending | Probe_Consumed

record session_activity_detector =
  sd_parser :: osc_parser_state
  sd_activity :: "session_ai_activity option"
  sd_last_foreground :: foreground_process
  sd_last_foreground_probe_at_ms :: "u64 option"
  sd_completed_identity_probe_pending :: bool
  sd_event_identity_probe_state :: event_identity_probe_state

definition detector_default :: session_activity_detector where
  "detector_default =
     \<lparr>sd_parser = Osc_Ground, sd_activity = None, sd_last_foreground = Fg_Unknown,
      sd_last_foreground_probe_at_ms = None, sd_completed_identity_probe_pending = False,
      sd_event_identity_probe_state = Probe_Ready\<rparr>"

section \<open>Transitions\<close>

text \<open>Every operation returns whether the published state changed, and the detector.\<close>

definition activity_transition ::
  "session_activity_agent \<Rightarrow> session_activity_state \<Rightarrow> u64 \<Rightarrow> session_activity_detector
    \<Rightarrow> bool \<times> session_activity_detector" where
  "activity_transition agent state now d =
     (if (case sd_activity d of Some a \<Rightarrow> aa_agent a = agent \<and> aa_state a = state | None \<Rightarrow> False)
      then (False, d)
      else (True, d\<lparr>sd_activity := Some \<lparr>aa_kind = Ai, aa_agent = agent, aa_state = state, aa_changed_at_ms = now\<rparr>,
                    sd_completed_identity_probe_pending := (state = As_Completed)\<rparr>))"

definition finish_or_idle ::
  "session_activity_agent \<Rightarrow> u64 \<Rightarrow> session_activity_detector \<Rightarrow> bool \<times> session_activity_detector" where
  "finish_or_idle agent now d =
     (case sd_activity d of
        Some a \<Rightarrow>
          if aa_agent a = agent \<and> (aa_state a = As_Running \<or> aa_state a = As_Attention)
          then activity_transition agent As_Completed now d
          else if aa_agent a = agent \<and> aa_state a = As_Completed then (False, d)
          else activity_transition agent As_Idle now d
      | None \<Rightarrow> activity_transition agent As_Idle now d)"

definition observe_iterm_progress ::
  "session_activity_agent \<Rightarrow> u8 list \<Rightarrow> u64 \<Rightarrow> session_activity_detector \<Rightarrow> bool \<times> session_activity_detector" where
  "observe_iterm_progress agent payload now d =
     (case parse_iterm_progress_state payload of
        Some n \<Rightarrow>
          if n = 0 then finish_or_idle agent now d
          else if n = 1 \<or> n = 3 then activity_transition agent As_Running now d
          else if n = 2 \<or> n = 4 then activity_transition agent As_Attention now d
          else (False, d)
      | None \<Rightarrow> (False, d))"

definition observe_claude_status ::
  "u8 list \<Rightarrow> u64 \<Rightarrow> session_activity_detector \<Rightarrow> bool \<times> session_activity_detector" where
  "observe_claude_status payload now d =
     (case Option.bind (parse_claude_status payload) utf8_text of
        None \<Rightarrow> (False, d)
      | Some t \<Rightarrow>
          let status = to_ascii_lowercase (trim_text t) in
          if starts_with (ascii ''working'') status \<or> status = ascii ''busy'' \<or> status = ascii ''running''
          then activity_transition ClaudeCode As_Running now d
          else if starts_with (ascii ''waiting'') status \<or> contains_text (ascii ''attention'') status
          then activity_transition ClaudeCode As_Attention now d
          else if status = [] \<or> status = ascii ''idle'' then finish_or_idle ClaudeCode now d
          else (False, d))"

definition observe_codex_title ::
  "u8 list \<Rightarrow> u64 \<Rightarrow> session_activity_detector \<Rightarrow> bool \<times> session_activity_detector" where
  "observe_codex_title raw now d =
     (case utf8_text raw of
        None \<Rightarrow> (False, d)
      | Some t \<Rightarrow>
          let title = trim_text t in
          if to_ascii_lowercase title = ascii ''action required'' \<or>
             contains_text (ascii ''action required'') (to_ascii_lowercase title)
          then activity_transition Codex As_Attention now d
          else if is_codex_running_title title then activity_transition Codex As_Running now d
          else (case map_option aa_state (sd_activity d) of
                  Some As_Running \<Rightarrow> activity_transition Codex As_Completed now d
                | Some As_Attention \<Rightarrow> activity_transition Codex As_Completed now d
                | Some As_Completed \<Rightarrow> (False, d)
                | Some As_Idle \<Rightarrow> (False, d)
                | None \<Rightarrow> activity_transition Codex As_Idle now d))"

definition observe_title ::
  "session_activity_agent \<Rightarrow> u8 list \<Rightarrow> u64 \<Rightarrow> session_activity_detector \<Rightarrow> bool \<times> session_activity_detector" where
  "observe_title agent title now d =
     (if agent = Codex then observe_codex_title title now d
      else (case sd_activity d of
              Some a \<Rightarrow> if aa_agent a = agent then (False, d) else activity_transition agent As_Idle now d
            | None \<Rightarrow> activity_transition agent As_Idle now d))"

fun observe_foreground ::
  "foreground_process \<Rightarrow> u64 \<Rightarrow> session_activity_detector \<Rightarrow> bool \<times> session_activity_detector" where
  "observe_foreground (Fg_Agent agent) now d =
     (case sd_activity d of
        Some a \<Rightarrow>
          if aa_agent a \<noteq> agent then
            (if agent = Codex then (True, d\<lparr>sd_activity := None\<rparr>)
             else activity_transition agent As_Idle now d)
          else (False, d)
      | None \<Rightarrow> if agent \<noteq> Codex then activity_transition agent As_Idle now d else (False, d))"
| "observe_foreground Fg_Unknown now d = (False, d)"
| "observe_foreground Fg_Other now d =
     (case sd_activity d of
        Some a \<Rightarrow>
          (case aa_state a of
             As_Running \<Rightarrow> activity_transition (aa_agent a) As_Completed now d
           | As_Attention \<Rightarrow> activity_transition (aa_agent a) As_Completed now d
           | As_Idle \<Rightarrow> (True, d\<lparr>sd_activity := None\<rparr>)
           | As_Completed \<Rightarrow> (False, d))
      | None \<Rightarrow> (False, d))"

section \<open>One chunk of output\<close>

definition not_an_agent :: "foreground_process \<Rightarrow> bool" where
  "not_an_agent fg \<longleftrightarrow> fg = Fg_Other \<or> fg = Fg_Unknown"

definition probe_due :: "u64 \<Rightarrow> session_activity_detector \<Rightarrow> bool" where
  "probe_due now d =
     (case sd_last_foreground_probe_at_ms d of
        None \<Rightarrow> True
      | Some last_ms \<Rightarrow> now - last_ms \<ge> foreground_probe_min_interval_ms)"

text \<open>The early return: nothing to look at.\<close>

definition nothing_to_observe :: "u8 list \<Rightarrow> osc_event list \<Rightarrow> u64 \<Rightarrow> session_activity_detector \<Rightarrow> bool" where
  "nothing_to_observe bytes events now d \<longleftrightarrow>
     (let tracks_foreground = (case sd_activity d of Some a \<Rightarrow> aa_state a \<noteq> As_Completed | None \<Rightarrow> False);
          needs_identity_probe = (sd_activity d = None \<and> bytes \<noteq> []);
          completed_needs_probe =
            (case sd_activity d of
               Some a \<Rightarrow> aa_state a = As_Completed \<and> bytes \<noteq> [] \<and>
                 (sd_completed_identity_probe_pending d \<or> probe_due now d)
             | None \<Rightarrow> False)
      in events = [] \<and> \<not> tracks_foreground \<and> \<not> needs_identity_probe \<and> \<not> completed_needs_probe)"

definition should_probe :: "u8 list \<Rightarrow> osc_event list \<Rightarrow> u64 \<Rightarrow> session_activity_detector \<Rightarrow> bool" where
  "should_probe bytes events now d \<longleftrightarrow>
     (let first_structured_event =
            (sd_activity d = None \<and> events \<noteq> [] \<and> sd_event_identity_probe_state d = Probe_Ready \<and>
             not_an_agent (sd_last_foreground d));
          event_identity_probe_pending = (events \<noteq> [] \<and> sd_event_identity_probe_state d = Probe_Pending);
          identity_hint_requires_probe =
            (sd_event_identity_probe_state d = Probe_Ready \<and>
             list_ex (\<lambda>hint. case sd_last_foreground d of Fg_Agent cached \<Rightarrow> cached \<noteq> hint | _ \<Rightarrow> False)
               (List.map_filter osc_event_identity_hint events))
      in (sd_completed_identity_probe_pending d \<and> bytes \<noteq> []) \<or> first_structured_event \<or>
         event_identity_probe_pending \<or> identity_hint_requires_probe \<or> probe_due now d)"

definition record_probe ::
  "osc_event list \<Rightarrow> foreground_process \<Rightarrow> u64 \<Rightarrow> session_activity_detector \<Rightarrow> session_activity_detector" where
  "record_probe events observed now d =
     d\<lparr>sd_completed_identity_probe_pending := False,
       sd_event_identity_probe_state :=
         (if events = [] then (if not_an_agent observed then Probe_Pending else Probe_Ready)
          else if not_an_agent observed \<or> event_identity_hints_mismatch events observed then Probe_Consumed
          else Probe_Ready),
       sd_last_foreground := observed,
       sd_last_foreground_probe_at_ms := Some now\<rparr>"

fun observe_event ::
  "session_activity_agent \<Rightarrow> osc_event \<Rightarrow> u64 \<Rightarrow> session_activity_detector \<Rightarrow> bool \<times> session_activity_detector" where
  "observe_event agent (Ev_Title title) now d = observe_title agent title now d"
| "observe_event agent (Ev_ClaudeStatus payload) now d =
     (if agent = ClaudeCode then observe_claude_status payload now d else (False, d))"
| "observe_event agent (Ev_ItermProgress payload) now d =
     (if agent \<noteq> Codex then observe_iterm_progress agent payload now d else (False, d))"

text \<open>The loop over the events, with the transitions it publishes.\<close>

fun observe_events ::
  "session_activity_agent \<Rightarrow> osc_event list \<Rightarrow> u64 \<Rightarrow> session_activity_detector
    \<Rightarrow> bool \<times> session_ai_activity option list \<times> session_activity_detector" where
  "observe_events agent [] now d = (False, [], d)"
| "observe_events agent (e # es) now d =
     (let (changed, d1) = observe_event agent e now d;
          (changed', transitions, d2) = observe_events agent es now d1
      in (changed \<or> changed', (if changed then [sd_activity d1] else []) @ transitions, d2))"

definition observe_output_inner ::
  "u8 list \<Rightarrow> u64 \<Rightarrow> foreground_process \<Rightarrow> session_activity_detector
    \<Rightarrow> bool \<times> session_ai_activity option list \<times> session_activity_detector" where
  "observe_output_inner bytes now fg d0 =
     (let (events, parser) = osc_push (sd_parser d0) bytes;
          d = d0\<lparr>sd_parser := parser\<rparr>
      in if nothing_to_observe bytes events now d then (False, [], d)
         else
           (let d1 = (if should_probe bytes events now d then record_probe events fg now d else d);
                (changed, d2) = observe_foreground (sd_last_foreground d1) now d1;
                transitions = (if changed then [sd_activity d2] else [])
            in case sd_last_foreground d2 of
                 Fg_Agent agent \<Rightarrow>
                   (let (changed', transitions', d3) = observe_events agent events now d2
                    in (changed \<or> changed', transitions @ transitions', d3))
               | _ \<Rightarrow> (changed, transitions, d2)))"

definition observe_output_transitions ::
  "u8 list \<Rightarrow> u64 \<Rightarrow> foreground_process \<Rightarrow> session_activity_detector
    \<Rightarrow> session_ai_activity option list \<times> session_activity_detector" where
  "observe_output_transitions bytes now fg d = snd (observe_output_inner bytes now fg d)"

text \<open>A run over chunks of output, each with its time and the foreground process of that moment.\<close>

fun observe_run ::
  "(u8 list \<times> u64 \<times> foreground_process) list \<Rightarrow> session_activity_detector
    \<Rightarrow> session_ai_activity option list \<times> session_activity_detector" where
  "observe_run [] d = ([], d)"
| "observe_run ((bytes, now, fg) # rest) d =
     (let (transitions, d1) = observe_output_transitions bytes now fg d;
          (transitions', d2) = observe_run rest d1
      in (transitions @ transitions', d2))"

section \<open>The life cycle of an activity\<close>

text \<open>
  The specification. An activity appears idle (only Codex may appear running or waiting), completes
  only out of work of the same agent, is latched once completed until the same agent works again or
  another agent takes over, and disappears only when it is idle or Codex replaces another agent.
\<close>

fun activity_may_become :: "session_ai_activity option \<Rightarrow> session_ai_activity option \<Rightarrow> bool" where
  "activity_may_become None None \<longleftrightarrow> False"
| "activity_may_become None (Some b) \<longleftrightarrow>
     aa_state b = As_Idle \<or> (aa_agent b = Codex \<and> (aa_state b = As_Running \<or> aa_state b = As_Attention))"
| "activity_may_become (Some a) None \<longleftrightarrow> aa_state a = As_Idle \<or> aa_agent a \<noteq> Codex"
| "activity_may_become (Some a) (Some b) \<longleftrightarrow>
     (if aa_agent a = aa_agent b
      then (case aa_state b of
              As_Idle \<Rightarrow> False
            | As_Running \<Rightarrow> aa_state a \<noteq> As_Running
            | As_Attention \<Rightarrow> aa_state a \<noteq> As_Attention
            | As_Completed \<Rightarrow> aa_state a = As_Running \<or> aa_state a = As_Attention)
      else aa_agent b \<noteq> Codex \<and> aa_state b = As_Idle)"

text \<open>A list of published states is a path of the machine from one activity to another.\<close>

fun activity_path :: "session_ai_activity option \<Rightarrow> session_ai_activity option list \<Rightarrow> session_ai_activity option \<Rightarrow> bool" where
  "activity_path a [] z \<longleftrightarrow> a = z"
| "activity_path a (b # bs) z \<longleftrightarrow> activity_may_become a b \<and> activity_path b bs z"

lemma activity_path_append:
  "activity_path a xs b \<Longrightarrow> activity_path b ys c \<Longrightarrow> activity_path a (xs @ ys) c"
  by (induction a xs b rule: activity_path.induct) auto

text \<open>An operation publishes what it does: nothing, or one step of the life cycle.\<close>

definition publishes :: "session_activity_detector \<Rightarrow> bool \<times> session_activity_detector \<Rightarrow> bool" where
  "publishes d r \<longleftrightarrow>
     (if fst r then activity_may_become (sd_activity d) (sd_activity (snd r))
      else sd_activity (snd r) = sd_activity d) \<and>
     sd_last_foreground (snd r) = sd_last_foreground d"

text \<open>While events of an agent are read the activity is absent (Codex only) or the agent's own.\<close>

definition owned_by :: "session_activity_agent \<Rightarrow> session_activity_detector \<Rightarrow> bool" where
  "owned_by agent d \<longleftrightarrow>
     (case sd_activity d of None \<Rightarrow> agent = Codex | Some a \<Rightarrow> aa_agent a = agent)"

lemma publishes_same [simp]: "publishes d (False, d)"
  by (simp add: publishes_def)

lemma publishes_clear:
  "activity_may_become (sd_activity d) None \<Longrightarrow> publishes d (True, d\<lparr>sd_activity := None\<rparr>)"
  by (simp add: publishes_def)

lemma transition_publishes:
  assumes "\<And>a. sd_activity d = Some a \<Longrightarrow> aa_agent a = agent \<Longrightarrow> aa_state a \<noteq> state \<Longrightarrow>
      state = As_Running \<or> state = As_Attention \<or>
      state = As_Completed \<and> (aa_state a = As_Running \<or> aa_state a = As_Attention)"
    and "\<And>a. sd_activity d = Some a \<Longrightarrow> aa_agent a \<noteq> agent \<Longrightarrow> agent \<noteq> Codex \<and> state = As_Idle"
    and "sd_activity d = None \<Longrightarrow> state = As_Idle \<or> agent = Codex \<and> state \<noteq> As_Completed"
  shows "publishes d (activity_transition agent state now d)"
  using assms
  by (cases "sd_activity d"; cases state)
     (auto simp: publishes_def activity_transition_def split: session_activity_state.splits)

lemma transition_owned: "owned_by agent d \<Longrightarrow> owned_by agent (snd (activity_transition agent state now d))"
  by (simp add: owned_by_def activity_transition_def split: option.splits)

text \<open>The facts an operation on behalf of \<open>agent\<close> keeps.\<close>

definition good_step :: "session_activity_agent \<Rightarrow> session_activity_detector \<Rightarrow> bool \<times> session_activity_detector \<Rightarrow> bool" where
  "good_step agent d r \<longleftrightarrow> publishes d r \<and> owned_by agent (snd r)"

lemma good_same [simp]: "owned_by agent d \<Longrightarrow> good_step agent d (False, d)"
  by (simp add: good_step_def)

lemma good_busy:
  "owned_by agent d \<Longrightarrow> agent = Codex \<or> sd_activity d \<noteq> None \<Longrightarrow> state = As_Running \<or> state = As_Attention \<Longrightarrow>
    good_step agent d (activity_transition agent state now d)"
  unfolding good_step_def
  by (intro conjI transition_publishes transition_owned) (auto simp: owned_by_def)

lemma good_completed:
  "owned_by agent d \<Longrightarrow> sd_activity d = Some a \<Longrightarrow> aa_state a = As_Running \<or> aa_state a = As_Attention \<Longrightarrow>
    good_step agent d (activity_transition agent As_Completed now d)"
  unfolding good_step_def
  by (intro conjI transition_publishes transition_owned) (auto simp: owned_by_def)

lemma good_idle:
  "owned_by agent d \<Longrightarrow> sd_activity d = None \<or> map_option aa_state (sd_activity d) = Some As_Idle \<Longrightarrow>
    good_step agent d (activity_transition agent As_Idle now d)"
  unfolding good_step_def
  by (intro conjI transition_publishes transition_owned) (auto simp: owned_by_def)

lemma owned_not_codex: "owned_by agent d \<Longrightarrow> agent \<noteq> Codex \<Longrightarrow> \<exists>a. sd_activity d = Some a \<and> aa_agent a = agent"
  by (auto simp: owned_by_def split: option.splits)

lemma good_finish_or_idle:
  assumes "owned_by agent d"
  shows "good_step agent d (finish_or_idle agent now d)"
proof (cases "sd_activity d")
  case None
  with assms show ?thesis by (simp add: finish_or_idle_def good_idle)
next
  case (Some a)
  with assms have "aa_agent a = agent" by (simp add: owned_by_def)
  with Some assms show ?thesis
    by (cases "aa_state a") (auto simp: finish_or_idle_def intro: good_idle good_completed)
qed

lemma good_iterm_progress:
  "owned_by agent d \<Longrightarrow> agent \<noteq> Codex \<Longrightarrow> good_step agent d (observe_iterm_progress agent payload now d)"
  by (auto simp: observe_iterm_progress_def good_finish_or_idle split: option.splits intro: good_busy
      dest: owned_not_codex)

lemma good_claude_status:
  assumes "owned_by ClaudeCode d"
  shows "good_step ClaudeCode d (observe_claude_status payload now d)"
proof -
  from owned_not_codex [OF assms] obtain a where "sd_activity d = Some a" by auto
  then show ?thesis
    using assms
    by (simp add: observe_claude_status_def Let_def good_finish_or_idle good_busy split: option.splits)
qed

lemma good_codex_title:
  assumes "owned_by Codex d"
  shows "good_step Codex d (observe_codex_title raw now d)"
proof -
  have "good_step Codex d (case map_option aa_state (sd_activity d) of
      Some As_Running \<Rightarrow> activity_transition Codex As_Completed now d
    | Some As_Attention \<Rightarrow> activity_transition Codex As_Completed now d
    | Some As_Completed \<Rightarrow> (False, d)
    | Some As_Idle \<Rightarrow> (False, d)
    | None \<Rightarrow> activity_transition Codex As_Idle now d)"
  proof (cases "sd_activity d")
    case None
    with assms show ?thesis by (simp add: good_idle)
  next
    case (Some a)
    with assms show ?thesis by (cases "aa_state a") (auto intro: good_completed)
  qed
  with assms show ?thesis
    by (simp add: observe_codex_title_def Let_def good_busy split: option.splits)
qed

lemma good_event: "owned_by agent d \<Longrightarrow> good_step agent d (observe_event agent e now d)"
  by (cases e)
     (auto simp: good_codex_title good_claude_status good_iterm_progress observe_title_def
       dest: owned_not_codex split: option.splits)

lemma foreground_publishes:
  "publishes d (observe_foreground fg now d)"
proof (cases fg)
  case (Fg_Agent agent)
  then show ?thesis
    by (auto split: option.splits intro!: transition_publishes publishes_clear)
next
  case Fg_Other
  then show ?thesis
    by (auto split: option.splits session_activity_state.splits intro!: transition_publishes publishes_clear)
qed simp

lemma foreground_owned: "owned_by agent (snd (observe_foreground (Fg_Agent agent) now d))"
  by (auto simp: owned_by_def activity_transition_def split: option.splits)

section \<open>Runs follow the life cycle\<close>

text \<open>The transitions an observation publishes form a path, and the change flag says whether there are any.\<close>

definition follows :: "session_activity_detector \<Rightarrow> bool \<times> session_ai_activity option list \<times> session_activity_detector \<Rightarrow> bool" where
  "follows d r \<longleftrightarrow>
     activity_path (sd_activity d) (fst (snd r)) (sd_activity (snd (snd r))) \<and> (fst r \<longleftrightarrow> fst (snd r) \<noteq> [])"

lemma publishes_follows:
  "publishes d r \<Longrightarrow> follows d (fst r, if fst r then [sd_activity (snd r)] else [], snd r)"
  by (auto simp: publishes_def follows_def)

lemma follows_compose:
  "follows d (c, ts, d1) \<Longrightarrow> follows d1 (c', ts', d2) \<Longrightarrow> follows d (c \<or> c', ts @ ts', d2)"
  by (auto simp: follows_def intro: activity_path_append)

lemma observe_events_follows: "owned_by agent d \<Longrightarrow> follows d (observe_events agent es now d)"
proof (induction es arbitrary: d)
  case Nil
  then show ?case by (simp add: follows_def)
next
  case (Cons e es)
  obtain c d1 where e: "observe_event agent e now d = (c, d1)" by force
  obtain c' ts d2 where es: "observe_events agent es now d1 = (c', ts, d2)" by (metis prod_cases3)
  from good_event [OF Cons.prems, of e now] e have "publishes d (c, d1)" "owned_by agent d1"
    by (simp_all add: good_step_def)
  with Cons.IH [of d1] es have "follows d (c, if c then [sd_activity d1] else [], d1)" "follows d1 (c', ts, d2)"
    using publishes_follows by fastforce+
  from follows_compose [OF this] show ?case by (simp add: e es)
qed

lemma record_probe_activity [simp]: "sd_activity (record_probe events fg now d) = sd_activity d"
  by (simp add: record_probe_def)

lemma follows_cong: "sd_activity d = sd_activity d' \<Longrightarrow> follows d r \<longleftrightarrow> follows d' r"
  by (simp add: follows_def)

lemma observe_output_follows: "follows d0 (observe_output_inner bytes now fg d0)"
proof -
  obtain events parser where ps: "osc_push (sd_parser d0) bytes = (events, parser)" by force
  define d where "d = d0\<lparr>sd_parser := parser\<rparr>"
  define d1 where "d1 = (if should_probe bytes events now d then record_probe events fg now d else d)"
  obtain c d2 where fgo: "observe_foreground (sd_last_foreground d1) now d1 = (c, d2)" by force
  have act: "sd_activity d = sd_activity d0" "sd_activity d1 = sd_activity d0" by (simp_all add: d_def d1_def)
  from foreground_publishes [of d1 "sd_last_foreground d1" now] fgo
  have "publishes d1 (c, d2)" and keep: "sd_last_foreground d2 = sd_last_foreground d1" by (auto simp: publishes_def)
  from publishes_follows [OF this(1)] have first: "follows d0 (c, if c then [sd_activity d2] else [], d2)"
    using act follows_cong by (metis fst_conv snd_conv)
  show ?thesis
  proof (cases "nothing_to_observe bytes events now d")
    case True
    with act ps show ?thesis by (simp add: observe_output_inner_def Let_def follows_def flip: d_def)
  next
    case False
    show ?thesis
    proof (cases "sd_last_foreground d2")
      case (Fg_Agent agent)
      obtain c' ts d3 where es: "observe_events agent events now d2 = (c', ts, d3)" by (metis prod_cases3)
      have "owned_by agent d2" using foreground_owned [of agent now d1] fgo keep Fg_Agent by (metis snd_conv)
      from observe_events_follows [OF this] es have "follows d2 (c', ts, d3)" by metis
      from follows_compose [OF first this] show ?thesis
        using False Fg_Agent by (simp add: observe_output_inner_def ps fgo es flip: d_def d1_def)
    qed (use False first in \<open>simp_all add: observe_output_inner_def ps fgo flip: d_def d1_def\<close>)
  qed
qed

lemma observe_run_follows:
  "activity_path (sd_activity d) (fst (observe_run chunks d)) (sd_activity (snd (observe_run chunks d)))"
proof (induction chunks d rule: observe_run.induct)
  case (1 d)
  then show ?case by simp
next
  case (2 bytes now fg rest d)
  obtain c ts d1 where o: "observe_output_inner bytes now fg d = (c, ts, d1)" by (metis prod_cases3)
  then have t: "observe_output_transitions bytes now fg d = (ts, d1)" by (simp add: observe_output_transitions_def)
  have "activity_path (sd_activity d) ts (sd_activity d1)"
    using observe_output_follows [of d bytes now fg] by (simp add: o follows_def)
  with "2" t show ?case by (auto simp: activity_path_append split: prod.splits)
qed

text \<open>
  C16. Whatever output, times and foreground processes a session sees, the transitions its detector
  publishes form a path of the activity life cycle that starts with no activity and ends in the activity
  the detector reports. So a client that applies the published transitions always shows the detector's
  own state, work completes only for the agent that was working, and a completed activity stays until
  its agent works again or another agent replaces it.
\<close>

theorem detector_follows_life_cycle:
  "activity_path None (fst (observe_run chunks detector_default))
     (sd_activity (snd (observe_run chunks detector_default)))"
  using observe_run_follows [of detector_default chunks] by (simp add: detector_default_def)

end
