(* ===== verification/Screen_Inv.thy ===== *)
theory Screen_Inv
  imports Screen_Model
begin

text \<open>
  The invariant of the terminal emulator and its preservation by every operation of
  \<open>Screen_Model\<close>. Preservation is shown together with definedness: from a well-formed screen no
  operation panics. The operations that only rewrite the line buffer are handled once, through
  the relation \<open>buf_step\<close>.
\<close>

section \<open>The invariant\<close>

definition wf_lines :: "usize \<Rightarrow> terminal_line list \<Rightarrow> bool" where
  "wf_lines cols ls \<longleftrightarrow> (\<forall>l \<in> set ls. length (tl_cells l) = cols)"

definition wf_saved :: "usize \<Rightarrow> usize \<Rightarrow> usize \<Rightarrow> saved_screen \<Rightarrow> bool" where
  "wf_saved rows cols mx sv \<longleftrightarrow>
     wf_lines cols (sv_lines sv) \<and> rows \<le> length (sv_lines sv) \<and> length (sv_lines sv) \<le> mx \<and>
     sv_cursor_row sv < rows \<and> sv_scroll_top sv < sv_scroll_bottom sv \<and> sv_scroll_bottom sv \<le> rows"

text \<open>How many lines the buffer may cache: the alternate screen has no scrollback.\<close>

definition line_cap :: "terminal_screen \<Rightarrow> usize" where
  "line_cap s = (if t_normal_screen s \<noteq> None then t_rows s else t_max_cached_lines s)"

definition wf_rest :: "terminal_screen \<Rightarrow> bool" where
  "wf_rest s \<longleftrightarrow>
     1 \<le> t_rows s \<and> 1 \<le> t_cols s \<and> t_rows s \<le> t_max_cached_lines s \<and>
     t_cursor_row s < t_rows s \<and>
     t_scroll_top s < t_scroll_bottom s \<and> t_scroll_bottom s \<le> t_rows s \<and>
     length (t_pending_control s) \<le> max_pending_control_bytes \<and>
     length (t_utf8_pending s) \<le> 4 \<and>
     (\<forall>sv. t_normal_screen s = Some sv \<longrightarrow>
        wf_saved (t_rows s) (t_cols s) (t_max_cached_lines s) sv)"

definition wf_screen :: "terminal_screen \<Rightarrow> bool" where
  "wf_screen s \<longleftrightarrow>
     wf_rest s \<and> wf_lines (t_cols s) (t_lines s) \<and>
     t_rows s \<le> length (t_lines s) \<and> length (t_lines s) \<le> line_cap s"

section \<open>Lines\<close>

lemma wf_lines_append [simp]: "wf_lines c (xs @ ys) \<longleftrightarrow> wf_lines c xs \<and> wf_lines c ys"
  by (auto simp: wf_lines_def)

lemma wf_lines_Cons [simp]: "wf_lines c (x # xs) \<longleftrightarrow> length (tl_cells x) = c \<and> wf_lines c xs"
  by (auto simp: wf_lines_def)

lemma wf_lines_Nil [simp]: "wf_lines c []"
  by (simp add: wf_lines_def)

lemma wf_lines_take [simp]: "wf_lines c xs \<Longrightarrow> wf_lines c (take n xs)"
  by (auto simp: wf_lines_def dest: in_set_takeD)

lemma wf_lines_drop [simp]: "wf_lines c xs \<Longrightarrow> wf_lines c (drop n xs)"
  by (auto simp: wf_lines_def dest: in_set_dropD)

lemma wf_lines_trim [simp]: "wf_lines c xs \<Longrightarrow> wf_lines c (trim_front n xs)"
  by (simp add: trim_front_drop)

lemma wf_lines_insert_at [simp]:
  "wf_lines c xs \<Longrightarrow> length (tl_cells x) = c \<Longrightarrow> wf_lines c (insert_at i x xs)"
  by (auto simp: wf_lines_def)

lemma wf_lines_remove_at [simp]: "wf_lines c xs \<Longrightarrow> wf_lines c (remove_at i xs)"
  by (auto simp: wf_lines_def dest: set_remove_at)

lemma wf_lines_update [simp]:
  "wf_lines c xs \<Longrightarrow> length (tl_cells x) = c \<Longrightarrow> wf_lines c (xs[i := x])"
  by (auto simp: wf_lines_def dest: set_update_subset_insert [THEN subsetD])

lemma wf_lines_nth: "wf_lines c xs \<Longrightarrow> i < length xs \<Longrightarrow> length (tl_cells (xs ! i)) = c"
  by (simp add: wf_lines_def)

lemma wf_lines_map_blank [simp]: "wf_lines c (map (\<lambda>i. line_blank i c b) is)"
  by (auto simp: wf_lines_def line_blank_def)

lemma length_clear_with_style [simp]: "length (tl_cells (clear_with_style st l)) = length (tl_cells l)"
  by (simp add: clear_with_style_def)

lemma length_line_resize [simp]: "length (tl_cells (line_resize c l)) = c"
  by (simp add: line_resize_def)

lemma length_touch_line [simp]: "tl_cells (touch_line l) = tl_cells l"
  by (simp add: touch_line_def)

lemma wf_lines_map_resize [simp]: "wf_lines c (map (line_resize c) ls)"
  by (auto simp: wf_lines_def)

section \<open>Updates of the line buffer only\<close>

definition buf_step :: "terminal_screen \<Rightarrow> terminal_screen \<Rightarrow> bool" where
  "buf_step s s' \<longleftrightarrow>
     (\<exists>ls k. s' = s\<lparr>t_lines := ls, t_next_line_index := k\<rparr> \<and>
        (wf_lines (t_cols s) (t_lines s) \<longrightarrow> wf_lines (t_cols s) ls))"

lemma buf_stepI:
  "s' = s\<lparr>t_lines := ls, t_next_line_index := k\<rparr> \<Longrightarrow>
   (wf_lines (t_cols s) (t_lines s) \<Longrightarrow> wf_lines (t_cols s) ls) \<Longrightarrow> buf_step s s'"
  by (auto simp: buf_step_def)

lemma buf_step_wf_lines:
  "buf_step s s' \<Longrightarrow> wf_lines (t_cols s) (t_lines s) \<Longrightarrow> wf_lines (t_cols s) (t_lines s')"
  by (auto simp: buf_step_def)

lemma buf_stepD:
  assumes "buf_step s s'"
  shows "t_rows s' = t_rows s" "t_cols s' = t_cols s" "t_max_cached_lines s' = t_max_cached_lines s"
    "t_cursor_row s' = t_cursor_row s" "t_cursor_col s' = t_cursor_col s"
    "t_saved_cursor s' = t_saved_cursor s" "t_current_style s' = t_current_style s"
    "t_modes s' = t_modes s" "t_parser s' = t_parser s" "t_utf8_pending s' = t_utf8_pending s"
    "t_pending_control s' = t_pending_control s" "t_normal_screen s' = t_normal_screen s"
    "t_pending_home_clear_cut s' = t_pending_home_clear_cut s"
    "t_requires_snapshot_redraw s' = t_requires_snapshot_redraw s"
    "t_scroll_top s' = t_scroll_top s" "t_scroll_bottom s' = t_scroll_bottom s"
    "line_cap s' = line_cap s" "wf_rest s' = wf_rest s"
proof -
  from assms obtain ls k where s': "s' = s\<lparr>t_lines := ls, t_next_line_index := k\<rparr>"
    by (auto simp: buf_step_def)
  show "t_rows s' = t_rows s" "t_cols s' = t_cols s" "t_max_cached_lines s' = t_max_cached_lines s"
    "t_cursor_row s' = t_cursor_row s" "t_cursor_col s' = t_cursor_col s"
    "t_saved_cursor s' = t_saved_cursor s" "t_current_style s' = t_current_style s"
    "t_modes s' = t_modes s" "t_parser s' = t_parser s" "t_utf8_pending s' = t_utf8_pending s"
    "t_pending_control s' = t_pending_control s" "t_normal_screen s' = t_normal_screen s"
    "t_pending_home_clear_cut s' = t_pending_home_clear_cut s"
    "t_requires_snapshot_redraw s' = t_requires_snapshot_redraw s"
    "t_scroll_top s' = t_scroll_top s" "t_scroll_bottom s' = t_scroll_bottom s"
    "line_cap s' = line_cap s" "wf_rest s' = wf_rest s"
    by (simp_all add: s' line_cap_def wf_rest_def)
qed

lemma buf_step_refl [simp]: "buf_step s s"
  by (rule buf_stepI [where ls = "t_lines s" and k = "t_next_line_index s"]) simp_all

lemma buf_step_trans:
  assumes "buf_step s s'" "buf_step s' s''"
  shows "buf_step s s''"
proof -
  from assms(1) obtain ls k where 1: "s' = s\<lparr>t_lines := ls, t_next_line_index := k\<rparr>"
    "wf_lines (t_cols s) (t_lines s) \<Longrightarrow> wf_lines (t_cols s) ls" by (auto simp: buf_step_def)
  from assms(2) obtain ls' k' where 2: "s'' = s'\<lparr>t_lines := ls', t_next_line_index := k'\<rparr>"
    "wf_lines (t_cols s') (t_lines s') \<Longrightarrow> wf_lines (t_cols s') ls'" by (auto simp: buf_step_def)
  show ?thesis
    by (rule buf_stepI [where ls = ls' and k = k']) (use 1 2 in simp_all)
qed

lemma buf_step_lines: "wf_lines (t_cols s) ls \<Longrightarrow> buf_step s (s\<lparr>t_lines := ls\<rparr>)"
  by (rule buf_stepI [where ls = ls and k = "t_next_line_index s"]) simp_all

lemma buf_step_trim: "buf_step s (trim_cached_lines s)"
  by (rule buf_stepI [where ls = "t_lines (trim_cached_lines s)" and k = "t_next_line_index s"])
     (simp_all add: trim_cached_lines_def Let_def)

lemma length_trim_cached [simp]:
  "length (t_lines (trim_cached_lines s)) = min (line_cap s) (length (t_lines s))"
  by (simp add: trim_cached_lines_def line_cap_def Let_def)

lemma buf_step_push: "buf_step s (push_blank_line_with_style b st s)"
  unfolding push_blank_line_with_style_def
  by (rule buf_step_trans [OF _ buf_step_trim], rule buf_stepI, rule refl) simp

lemma length_push [simp]:
  "length (t_lines (push_blank_line_with_style b st s)) = min (line_cap s) (Suc (length (t_lines s)))"
  by (simp add: push_blank_line_with_style_def line_cap_def)

lemma buf_step_insert: "buf_step s (insert_visible_line i st s)"
  unfolding insert_visible_line_def
  by (rule buf_step_trans [OF _ buf_step_trim], rule buf_stepI, rule refl) simp

lemma length_insert_visible [simp]:
  "length (t_lines (insert_visible_line i st s)) = min (line_cap s) (Suc (length (t_lines s)))"
  by (simp add: insert_visible_line_def line_cap_def)

lemma wf_screen_buf_step:
  assumes "wf_screen s" "buf_step s s'" "t_rows s \<le> length (t_lines s')"
    "length (t_lines s') \<le> line_cap s"
  shows "wf_screen s'"
proof -
  note * = buf_stepD [OF assms(2)]
  have "wf_lines (t_cols s) (t_lines s')"
    using assms(1,2) by (simp add: buf_step_wf_lines wf_screen_def)
  with assms * show ?thesis by (simp add: wf_screen_def)
qed

lemma wf_screen_cap: "wf_screen s \<Longrightarrow> t_rows s \<le> line_cap s"
  by (simp add: wf_screen_def)

text \<open>Counted loops of pushes, as in \<open>clear_screen_and_scrollback\<close> and \<open>resize\<close>.\<close>

lemma iter_push:
  assumes "length (t_lines s) + n \<le> line_cap s"
  shows "buf_step s (iter_n n (push_blank_line_with_style b st) s) \<and>
    length (t_lines (iter_n n (push_blank_line_with_style b st) s)) = length (t_lines s) + n"
  using assms
proof (induction n arbitrary: s)
  case 0
  then show ?case by simp
next
  case (Suc n)
  let ?p = "push_blank_line_with_style b st s"
  have len: "length (t_lines ?p) = Suc (length (t_lines s))" using Suc.prems by simp
  with Suc.prems have "length (t_lines ?p) + n \<le> line_cap ?p"
    by (simp add: buf_stepD(17) [OF buf_step_push])
  from Suc.IH [OF this] len show ?case
    by (auto intro: buf_step_trans [OF buf_step_push])
qed

section \<open>Construction\<close>

lemma wf_with_max_cached_lines: "wf_screen (with_max_cached_lines r c mx)"
  by (simp add: wf_screen_def wf_rest_def with_max_cached_lines_def line_cap_def Let_def
      max_pending_control_bytes_def)

lemma wf_screen_new: "wf_screen (screen_new r c)"
  by (simp add: screen_new_def wf_with_max_cached_lines)

section \<open>Scrolling\<close>

lemma scroll_up_once_step:
  assumes "wf_screen s" "tp < bt" "bt \<le> t_rows s"
  shows "buf_step s (scroll_up_once tp bt st s) \<and> wf_screen (scroll_up_once tp bt st s)"
proof (cases "t_normal_screen s = None \<and> tp = 0")
  case True
  then have eq: "scroll_up_once tp bt st s = insert_visible_line (visible_start s + bt) st s"
    by (simp add: scroll_up_once_def)
  have "wf_screen (insert_visible_line (visible_start s + bt) st s)"
    by (rule wf_screen_buf_step [OF assms(1) buf_step_insert])
       (use assms(1) in \<open>auto simp: wf_screen_def\<close>)
  then show ?thesis unfolding eq by (simp add: buf_step_insert)
next
  case False
  let ?r = "s\<lparr>t_lines := remove_at (visible_start s + tp) (t_lines s)\<rparr>"
  have eq: "scroll_up_once tp bt st s = insert_visible_line (visible_start s + bt - 1) st ?r"
    using False by (auto simp: scroll_up_once_def Let_def)
  have r: "buf_step s ?r" using assms(1) by (intro buf_step_lines) (simp add: wf_screen_def)
  have pos: "visible_start s + tp < length (t_lines s)"
    using assms by (simp add: visible_start_def wf_screen_def) arith
  have bs: "buf_step s (insert_visible_line (visible_start s + bt - 1) st ?r)"
    by (rule buf_step_trans [OF r buf_step_insert])
  have len: "length (t_lines (insert_visible_line (visible_start s + bt - 1) st ?r)) =
      length (t_lines s)"
    using pos assms(1) buf_stepD(17) [OF r] by (auto simp: wf_screen_def min_def)
  from assms(1) have "t_rows s \<le> length (t_lines s)" "length (t_lines s) \<le> line_cap s"
    by (simp_all add: wf_screen_def)
  then have "wf_screen (insert_visible_line (visible_start s + bt - 1) st ?r)"
    by (intro wf_screen_buf_step [OF assms(1) bs]) (simp_all only: len)
  with bs show ?thesis by (simp add: eq)
qed

lemma scroll_down_once_step:
  assumes "wf_screen s" "tp < bt" "bt \<le> t_rows s"
  shows "buf_step s (scroll_down_once tp bt st s) \<and> wf_screen (scroll_down_once tp bt st s)"
proof -
  let ?r = "s\<lparr>t_lines := remove_at (visible_start s + bt - 1) (t_lines s)\<rparr>"
  have eq: "scroll_down_once tp bt st s = insert_visible_line (visible_start s + tp) st ?r"
    by (simp add: scroll_down_once_def Let_def)
  have r: "buf_step s ?r" using assms(1) by (intro buf_step_lines) (simp add: wf_screen_def)
  have pos: "visible_start s + bt - 1 < length (t_lines s)"
    using assms by (simp add: visible_start_def wf_screen_def) linarith
  have bs: "buf_step s (insert_visible_line (visible_start s + tp) st ?r)"
    by (rule buf_step_trans [OF r buf_step_insert])
  have len: "length (t_lines (insert_visible_line (visible_start s + tp) st ?r)) =
      length (t_lines s)"
    using pos assms(1) buf_stepD(17) [OF r] by (auto simp: wf_screen_def min_def)
  from assms(1) have "t_rows s \<le> length (t_lines s)" "length (t_lines s) \<le> line_cap s"
    by (simp_all add: wf_screen_def)
  then have "wf_screen (insert_visible_line (visible_start s + tp) st ?r)"
    by (intro wf_screen_buf_step [OF assms(1) bs]) (simp_all only: len)
  with bs show ?thesis by (simp add: eq)
qed

lemma iter_buf_step:
  assumes "wf_screen s" "bt \<le> t_rows s"
    "\<And>u. wf_screen u \<Longrightarrow> bt \<le> t_rows u \<Longrightarrow> buf_step u (f u) \<and> wf_screen (f u)"
  shows "buf_step s (iter_n n f s) \<and> wf_screen (iter_n n f s)"
  using assms(1,2)
proof (induction n arbitrary: s)
  case 0
  then show ?case by simp
next
  case (Suc n)
  from assms(3) [OF Suc.prems] have f: "buf_step s (f s)" "wf_screen (f s)" by auto
  with Suc.prems have "bt \<le> t_rows (f s)" by (simp add: buf_stepD)
  from Suc.IH [OF f(2) this] f(1) show ?case by (auto intro: buf_step_trans)
qed

text \<open>A screen that only moves the cursor within the rows stays well-formed.\<close>

lemma wf_screen_cursor_row [simp]:
  "wf_screen s \<Longrightarrow> r < t_rows s \<Longrightarrow> wf_screen (s\<lparr>t_cursor_row := r\<rparr>)"
  by (auto simp: wf_screen_def wf_rest_def line_cap_def split: if_splits)

lemma wf_screen_other_fields [simp]:
  "wf_screen (s\<lparr>t_cursor_col := c\<rparr>) = wf_screen s"
  "wf_screen (s\<lparr>t_saved_cursor := sc\<rparr>) = wf_screen s"
  "wf_screen (s\<lparr>t_current_style := st\<rparr>) = wf_screen s"
  "wf_screen (s\<lparr>t_modes := m\<rparr>) = wf_screen s"
  "wf_screen (s\<lparr>t_parser := p\<rparr>) = wf_screen s"
  "wf_screen (s\<lparr>t_pending_home_clear_cut := b\<rparr>) = wf_screen s"
  "wf_screen (s\<lparr>t_requires_snapshot_redraw := b\<rparr>) = wf_screen s"
  by (simp_all add: wf_screen_def wf_rest_def line_cap_def)

lemma wf_screen_pos:
  "wf_screen s \<Longrightarrow> 1 \<le> t_rows s \<and> 1 \<le> t_cols s \<and> t_cursor_row s < t_rows s \<and>
     t_scroll_top s < t_scroll_bottom s \<and> t_scroll_bottom s \<le> t_rows s"
  by (simp add: wf_screen_def wf_rest_def)

lemma wf_screen_clamp_row:
  assumes "wf_screen s"
  shows "s\<lparr>t_cursor_row := min (t_cursor_row s) (t_rows s - 1)\<rparr> = s"
proof -
  from wf_screen_pos [OF assms] have "min (t_cursor_row s) (t_rows s - 1) = t_cursor_row s"
    by linarith
  then show ?thesis by simp
qed

lemma scroll_region_bounds:
  assumes "wf_screen s" "tp = min (t_scroll_top s) (t_rows s - 1)"
    "bt = max (min (t_scroll_bottom s) (t_rows s)) (tp + 1)"
  shows "tp < bt \<and> bt \<le> t_rows s"
  using wf_screen_pos [OF assms(1)] assms(2,3) by auto

lemma wf_scroll_up_region:
  assumes "wf_screen s"
  shows "wf_screen (scroll_up_region n s) \<and> buf_step s (scroll_up_region n s)"
proof -
  define tp where "tp = min (t_scroll_top s) (t_rows s - 1)"
  define bt where "bt = max (min (t_scroll_bottom s) (t_rows s)) (tp + 1)"
  define s1 where "s1 = iter_n (min n (bt - tp)) (scroll_up_once tp bt (t_current_style s)) s"
  from scroll_region_bounds [OF assms tp_def bt_def] have b: "tp < bt" "bt \<le> t_rows s" by blast+
  have it: "buf_step s s1" "wf_screen s1"
    unfolding s1_def using iter_buf_step [OF assms b(2)] scroll_up_once_step b(1) by blast+
  have "scroll_up_region n s = s1\<lparr>t_cursor_row := min (t_cursor_row s1) (t_rows s1 - 1)\<rparr>"
    by (simp only: scroll_up_region_def Let_def s1_def bt_def tp_def)
  with it show ?thesis by (simp only: wf_screen_clamp_row [OF it(2)])
qed

lemma wf_scroll_down:
  assumes "wf_screen s"
  shows "wf_screen (scroll_down n s) \<and> buf_step s (scroll_down n s)"
proof -
  define tp where "tp = min (t_scroll_top s) (t_rows s - 1)"
  define bt where "bt = max (min (t_scroll_bottom s) (t_rows s)) (tp + 1)"
  define s1 where "s1 = iter_n (min n (bt - tp)) (scroll_down_once tp bt (t_current_style s)) s"
  from scroll_region_bounds [OF assms tp_def bt_def] have b: "tp < bt" "bt \<le> t_rows s" by blast+
  have it: "buf_step s s1" "wf_screen s1"
    unfolding s1_def using iter_buf_step [OF assms b(2)] scroll_down_once_step b(1) by blast+
  have "scroll_down n s = s1\<lparr>t_cursor_row := min (t_cursor_row s1) (t_rows s1 - 1)\<rparr>"
    by (simp only: scroll_down_def Let_def s1_def bt_def tp_def)
  with it show ?thesis by (simp only: wf_screen_clamp_row [OF it(2)])
qed

section \<open>Runs that end in a well-formed screen\<close>

definition runs_ok :: "terminal_screen option \<Rightarrow> bool" where
  "runs_ok r \<longleftrightarrow> (\<exists>s'. r = Some s' \<and> wf_screen s')"

lemma runs_ok_Some [simp]: "runs_ok (Some s) = wf_screen s"
  by (simp add: runs_ok_def)

lemma runs_ok_if: "(b \<Longrightarrow> runs_ok x) \<Longrightarrow> (\<not> b \<Longrightarrow> runs_ok y) \<Longrightarrow> runs_ok (if b then x else y)"
  by simp

lemma wf_screen_if: "(b \<Longrightarrow> wf_screen x) \<Longrightarrow> (\<not> b \<Longrightarrow> wf_screen y) \<Longrightarrow> wf_screen (if b then x else y)"
  by simp

lemma runs_ok_bind: "runs_ok r \<Longrightarrow> (\<And>s. wf_screen s \<Longrightarrow> runs_ok (f s)) \<Longrightarrow> runs_ok (Option.bind r f)"
  by (auto simp: runs_ok_def)

lemma runs_ok_map: "runs_ok r \<Longrightarrow> (\<And>s. wf_screen s \<Longrightarrow> wf_screen (f s)) \<Longrightarrow> runs_ok (map_option f r)"
  by (auto simp: runs_ok_def)

lemma runs_ok_for_each:
  "wf_screen s \<Longrightarrow> (\<And>x t. wf_screen t \<Longrightarrow> runs_ok (f x t)) \<Longrightarrow> runs_ok (for_each f xs s)"
  unfolding runs_ok_def by (rule for_each_inv)

section \<open>Rows\<close>

lemma visible_line_mut_ok:
  assumes "wf_screen s"
    and "\<And>l. length (tl_cells l) = t_cols s \<Longrightarrow> \<exists>l'. f l = Some l' \<and> length (tl_cells l') = t_cols s"
  shows "\<exists>s'. visible_line_mut row f s = Some s' \<and> wf_screen s' \<and> buf_step s s'"
proof -
  define i where "i = visible_start s + min row (t_rows s - 1)"
  have i: "i < length (t_lines s)"
    using assms(1) wf_screen_pos [OF assms(1)]
    by (simp add: i_def visible_start_def wf_screen_def min_def) arith
  from assms(1) have wl: "wf_lines (t_cols s) (t_lines s)" by (simp add: wf_screen_def)
  with assms(2) [OF wf_lines_nth [OF wl i]] obtain l' where
    l': "f (t_lines s ! i) = Some l'" "length (tl_cells l') = t_cols s" by blast
  let ?s' = "s\<lparr>t_lines := (t_lines s)[i := l']\<rparr>"
  have bs: "buf_step s ?s'" by (rule buf_step_lines) (simp add: wl l')
  have "wf_screen ?s'"
    by (rule wf_screen_buf_step [OF assms(1) bs]) (use assms(1) in \<open>simp_all add: wf_screen_def\<close>)
  moreover have "visible_line_mut row f s = Some ?s'"
    unfolding visible_line_mut_def Let_def i_def [symmetric] by (simp add: i l'(1))
  ultimately show ?thesis using bs by blast
qed

lemma line_feed_ok:
  assumes "wf_screen s"
  shows "\<exists>s' r. line_feed s = Some s' \<and> wf_screen s' \<and> buf_step (s\<lparr>t_cursor_row := r\<rparr>) s'"
proof (cases "t_cursor_row s + 1 = t_scroll_bottom s \<or> t_cursor_row s + 1 \<ge> t_rows s")
  case True
  then have "line_feed s = Some (scroll_up_region 1 s)"
    unfolding line_feed_def by (rule if_P)
  moreover have "s\<lparr>t_cursor_row := t_cursor_row s\<rparr> = s" by simp
  ultimately show ?thesis using wf_scroll_up_region [OF assms, of 1] by metis
next
  case False
  let ?s1 = "s\<lparr>t_cursor_row := t_cursor_row s + 1\<rparr>"
  from False assms have "wf_screen ?s1" by simp
  from visible_line_mut_ok [OF this, of "\<lambda>l. Some (touch_line l)" "t_cursor_row ?s1"]
  obtain s' where "visible_line_mut (t_cursor_row ?s1) (\<lambda>l. Some (touch_line l)) ?s1 = Some s'"
    "wf_screen s'" "buf_step ?s1 s'" by auto
  moreover from False have
    "line_feed s = visible_line_mut (t_cursor_row ?s1) (\<lambda>l. Some (touch_line l)) ?s1"
    unfolding line_feed_def Let_def by (rule if_not_P)
  ultimately show ?thesis by metis
qed

lemma set_cell_ok:
  "col < length (tl_cells l) \<Longrightarrow>
   \<exists>l'. set_cell col c l = Some l' \<and> length (tl_cells l') = length (tl_cells l)"
  by (simp add: set_cell_def)

lemma fill_cells_ok:
  assumes "m \<le> length (tl_cells l)"
  shows "\<exists>l'. fill_cells k m c l = Some l' \<and> length (tl_cells l') = length (tl_cells l)"
  unfolding fill_cells_def
  by (rule for_each_inv [where P = "\<lambda>l'. length (tl_cells l') = length (tl_cells l)"])
     (use assms in \<open>auto simp: set_cell_def\<close>)

lemma length_fold_update [simp]: "length (fold (\<lambda>i cs. cs[i := f i cs]) is cs) = length cs"
  by (induction "is" arbitrary: cs) auto

lemma length_insert_blank_cells [simp]:
  "length (tl_cells (insert_blank_cells k n st l)) = length (tl_cells l)"
  by (simp add: insert_blank_cells_def shift_cells_right_def Let_def)

lemma write_char_cells_ok:
  assumes "cursor_col < length (tl_cells l)"
  shows "\<exists>l'. write_char_cells ch n st ins cursor_col l = Some l' \<and>
    length (tl_cells l') = length (tl_cells l)"
proof -
  let ?c = "\<lparr>tc_character = ch, tc_style = st, tc_wide_continuation = False\<rparr>"
  define l2 where "l2 = touch_line (if ins then insert_blank_cells cursor_col n st l else l)"
  have len2: "length (tl_cells l2) = length (tl_cells l)" by (simp add: l2_def)
  with assms set_cell_ok [of cursor_col l2 ?c] obtain l3 where
    l3: "set_cell cursor_col ?c l2 = Some l3" "length (tl_cells l3) = length (tl_cells l)" by auto
  have "\<exists>l'. for_each (\<lambda>offset l.
       if cursor_col + offset < length (tl_cells l)
       then set_cell (cursor_col + offset) (wide_continuation (tc_style (tl_cells l ! cursor_col))) l
       else Some l) [1..<n] l3 = Some l' \<and> length (tl_cells l') = length (tl_cells l)"
    by (rule for_each_inv [where P = "\<lambda>l'. length (tl_cells l') = length (tl_cells l)"])
       (use l3(2) in \<open>auto simp: set_cell_def\<close>)
  then show ?thesis
    unfolding write_char_cells_def Let_def l2_def [symmetric] by (simp add: l3(1))
qed

lemma wrap_for_width_ok:
  assumes "wf_screen s" "1 \<le> n"
  shows "\<exists>s'. wrap_for_width n s = Some s' \<and> wf_screen s' \<and> t_cursor_col s' < t_cols s' \<and>
    t_cols s' = t_cols s \<and> t_rows s' = t_rows s"
proof (cases "t_cursor_col s \<ge> t_cols s \<or> (n > 1 \<and> t_cursor_col s + n > t_cols s)")
  case True
  note pos = wf_screen_pos [OF assms(1)]
  show ?thesis
  proof (cases "tm_auto_wrap (t_modes s)")
    case aw: True
    from assms(1) have "wf_screen (s\<lparr>t_cursor_col := 0\<rparr>)" by simp
    from line_feed_ok [OF this] obtain s' r where
      s': "line_feed (s\<lparr>t_cursor_col := 0\<rparr>) = Some s'" "wf_screen s'"
        "buf_step (s\<lparr>t_cursor_col := 0, t_cursor_row := r\<rparr>) s'" by auto
    with True aw pos show ?thesis
      by (auto simp: wrap_for_width_def buf_stepD [OF s'(3)])
  next
    case False
    with True assms pos show ?thesis
      by (auto simp: wrap_for_width_def)
  qed
next
  case False
  with assms show ?thesis by (auto simp: wrap_for_width_def)
qed

lemma terminal_character_width_pos: "1 \<le> terminal_character_width w c"
  by (simp add: terminal_character_width_def)

lemma print_char_ok:
  assumes "wf_screen s"
  shows "\<exists>s'. print_char w ch s = Some s' \<and> wf_screen s'"
proof -
  define n where "n = terminal_character_width w ch"
  have n: "1 \<le> n" unfolding n_def by (rule terminal_character_width_pos)
  from wrap_for_width_ok [OF assms n] obtain s1 where s1: "wrap_for_width n s = Some s1"
    "wf_screen s1" "t_cursor_col s1 < t_cols s1" by blast
  let ?f = "write_char_cells ch n (t_current_style s1) (tm_insert (t_modes s1)) (t_cursor_col s1)"
  have "\<exists>l'. ?f l = Some l' \<and> length (tl_cells l') = t_cols s1" if "length (tl_cells l) = t_cols s1" for l
    using write_char_cells_ok [of "t_cursor_col s1" l] s1(3) that by simp
  from visible_line_mut_ok [where f = ?f, OF s1(2) this] obtain s2 where
    "visible_line_mut (t_cursor_row s1) ?f s1 = Some s2" "wf_screen s2" by blast
  with s1(1) n show ?thesis
    by (simp add: print_char_def n_def [symmetric] Let_def)
qed

section \<open>Erasing\<close>

lemma visible_fill_ok:
  assumes "wf_screen s" "m \<le> t_cols s"
  shows "\<exists>s'. visible_line_mut row (\<lambda>l. map_option touch_line (fill_cells k m c l)) s = Some s' \<and>
    wf_screen s' \<and> buf_step s s'"
proof (rule visible_line_mut_ok [OF assms(1)])
  fix l :: terminal_line
  assume "length (tl_cells l) = t_cols s"
  with fill_cells_ok [of m l k c] assms(2)
  show "\<exists>l'. map_option touch_line (fill_cells k m c l) = Some l' \<and> length (tl_cells l') = t_cols s"
    by auto
qed

lemma visible_clear_ok:
  assumes "wf_screen s"
  shows "\<exists>s'. visible_line_mut row (\<lambda>l. Some (clear_with_style st l)) s = Some s' \<and>
    wf_screen s' \<and> buf_step s s'"
  by (rule visible_line_mut_ok [OF assms]) simp

lemma erase_line_ok:
  assumes "wf_screen s"
  shows "\<exists>s'. erase_line mode s = Some s' \<and> wf_screen s'"
proof -
  note pos = wf_screen_pos [OF assms]
  let ?m = "min (t_cursor_col s) (t_cols s - 1) + 1"
  from pos have m: "?m \<le> t_cols s" by linarith
  consider "mode = 0" | "mode = 1" | "mode = 2" | "mode > 2" by linarith
  then show ?thesis
  proof cases
    case 1
    with visible_fill_ok [OF assms order_refl, of "t_cursor_row s" "t_cursor_col s"
        "styled_blank (t_current_style s)"]
    show ?thesis by (auto simp: erase_line_def)
  next
    case 2
    with visible_fill_ok [OF assms m, of "t_cursor_row s" 0 "styled_blank (t_current_style s)"]
    show ?thesis by (auto simp: erase_line_def Let_def)
  next
    case 3
    with visible_clear_ok [OF assms, of "t_cursor_row s" "t_current_style s"]
    show ?thesis by (auto simp: erase_line_def)
  next
    case 4
    with assms show ?thesis by (simp add: erase_line_def)
  qed
qed

lemma clear_rows_ok:
  assumes "wf_screen s"
  shows "\<exists>s'. clear_rows st rows s = Some s' \<and> wf_screen s'"
  unfolding clear_rows_def
  by (rule for_each_inv [where P = wf_screen, OF assms]) (use visible_clear_ok in blast)

lemma wf_clear_screen: "wf_screen s \<Longrightarrow> wf_screen (clear_screen s)"
  by (auto simp: clear_screen_def Let_def wf_screen_def wf_rest_def line_cap_def wf_lines_def
      dest: in_set_takeD in_set_dropD split: if_splits)

text \<open>Rebuilding the buffer from nothing, as \<open>clear_screen_and_scrollback\<close> and \<open>clear_cached_lines\<close> do.\<close>

lemma wf_rebuild:
  assumes "wf_screen s"
  shows "wf_screen (iter_n (t_rows s) (push_blank_line_with_style b st) (s\<lparr>t_lines := []\<rparr>)) \<and>
    buf_step s (iter_n (t_rows s) (push_blank_line_with_style b st) (s\<lparr>t_lines := []\<rparr>))"
proof -
  let ?e = "s\<lparr>t_lines := []\<rparr>"
  have e: "buf_step s ?e" by (rule buf_step_lines) simp
  have "length (t_lines ?e) + t_rows s \<le> line_cap ?e"
    using wf_screen_cap [OF assms] by (simp add: buf_stepD(17) [OF e])
  from iter_push [OF this, of b st] have
    it: "buf_step ?e (iter_n (t_rows s) (push_blank_line_with_style b st) ?e)"
    "length (t_lines (iter_n (t_rows s) (push_blank_line_with_style b st) ?e)) = t_rows s" by simp_all
  note bs = buf_step_trans [OF e it(1)]
  have "wf_screen (iter_n (t_rows s) (push_blank_line_with_style b st) ?e)"
    by (rule wf_screen_buf_step [OF assms bs]) (use it(2) wf_screen_cap [OF assms] in simp_all)
  with bs show ?thesis by blast
qed

lemma wf_clear_screen_and_scrollback:
  assumes "wf_screen s"
  shows "wf_screen (clear_screen_and_scrollback s)"
proof -
  from wf_rebuild [OF assms, of True "t_current_style s"] wf_screen_pos [OF assms] show ?thesis
    by (auto simp: clear_screen_and_scrollback_def Let_def buf_stepD)
qed

lemma wf_clear_cached_lines:
  assumes "wf_screen s"
  shows "wf_screen (clear_cached_lines s)"
proof -
  from wf_rebuild [OF assms, of False "t_current_style s"] wf_screen_pos [OF assms] show ?thesis
    by (auto simp: clear_cached_lines_def Let_def buf_stepD)
qed

lemma erase_display_ok:
  assumes "wf_screen s"
  shows "\<exists>s'. erase_display mode s = Some s' \<and> wf_screen s'"
proof -
  consider "mode = 0" | "mode = 1" | "mode = 2" | "mode = 3" | "mode > 3" by linarith
  then show ?thesis
  proof cases
    case 1
    from erase_line_ok [OF assms] obtain s1 where s1: "erase_line 0 s = Some s1" "wf_screen s1" by blast
    from clear_rows_ok [OF s1(2)] 1 s1(1) show ?thesis by (simp add: erase_display_def)
  next
    case 2
    from clear_rows_ok [OF assms] obtain s1 where
      s1: "clear_rows (t_current_style s) [0..<t_cursor_row s] s = Some s1" "wf_screen s1" by blast
    from erase_line_ok [OF s1(2)] 2 s1(1) show ?thesis by (simp add: erase_display_def)
  qed (use assms in \<open>simp_all add: erase_display_def wf_clear_screen
      wf_clear_screen_and_scrollback wf_clear_cached_lines\<close>)
qed

section \<open>Alternate screen, scroll region and modes\<close>

lemma wf_reset_screen_buffer: "wf_screen s \<Longrightarrow> wf_screen (reset_screen_buffer s)"
  by (auto simp: reset_screen_buffer_def wf_screen_def wf_rest_def line_cap_def)

lemma wf_save_normal_screen:
  "wf_screen s \<Longrightarrow> t_normal_screen s = None \<Longrightarrow>
   wf_saved (t_rows s) (t_cols s) (t_max_cached_lines s) (save_normal_screen s)"
  by (simp add: save_normal_screen_def wf_screen_def wf_rest_def wf_saved_def line_cap_def)

lemma wf_enter_alternate_screen:
  assumes "wf_screen s"
  shows "wf_screen (enter_alternate_screen s)"
proof (cases "t_normal_screen s")
  case None
  with wf_save_normal_screen [OF assms] assms show ?thesis
    by (auto simp: enter_alternate_screen_def reset_screen_buffer_def wf_screen_def wf_rest_def
        line_cap_def)
next
  case (Some sv)
  with wf_reset_screen_buffer [OF assms] show ?thesis by (simp add: enter_alternate_screen_def)
qed

lemma wf_leave_alternate_screen:
  assumes "wf_screen s"
  shows "wf_screen (leave_alternate_screen s)"
proof (cases "t_normal_screen s")
  case None
  with wf_reset_screen_buffer [OF assms] show ?thesis by (simp add: leave_alternate_screen_def)
next
  case (Some sv)
  with assms have "wf_saved (t_rows s) (t_cols s) (t_max_cached_lines s) sv"
    by (simp add: wf_screen_def wf_rest_def)
  with assms Some show ?thesis
    by (auto simp: leave_alternate_screen_def Let_def wf_screen_def wf_rest_def line_cap_def wf_saved_def)
qed

lemma home_row_less: "wf_screen s \<Longrightarrow> home_row s < t_rows s"
  using wf_screen_pos [of s] by (auto simp: home_row_def)

lemma wf_set_scroll_region:
  assumes "wf_screen s"
  shows "wf_screen (set_scroll_region params s)"
proof -
  define tp where "tp = min (one_based_param params 0) (t_rows s - 1)"
  define bt where "bt = max (min (param_or params 1 (t_rows s)) (t_rows s)) (tp + 1)"
  have "tp < bt" "bt \<le> t_rows s"
    using wf_screen_pos [OF assms] by (auto simp: tp_def bt_def)
  then have wf: "wf_screen (s\<lparr>t_scroll_top := tp, t_scroll_bottom := bt\<rparr>)"
    using assms by (auto simp: wf_screen_def wf_rest_def line_cap_def)
  with home_row_less [OF wf] show ?thesis
    unfolding set_scroll_region_def Let_def tp_def [symmetric] bt_def [symmetric] by simp
qed

lemma cursor_row_from_param_less: "wf_screen s \<Longrightarrow> cursor_row_from_param params i s < t_rows s"
  using wf_screen_pos [of s] by (auto simp: cursor_row_from_param_def Let_def)

lemma wf_set_public_mode: "wf_screen s \<Longrightarrow> wf_screen (set_public_mode b p s)"
  by (simp add: set_public_mode_def)

lemma wf_set_origin:
  assumes "wf_screen s" "s1 = s\<lparr>t_modes := m\<rparr>"
  shows "wf_screen (s1\<lparr>t_cursor_row := home_row s1, t_cursor_col := 0\<rparr>)"
  using assms home_row_less [of s1] by simp

lemma wf_set_private_mode:
  assumes "wf_screen s"
  shows "wf_screen (set_private_mode b p s)"
  unfolding set_private_mode_def Let_def
  by (intro wf_screen_if)
     (use assms in \<open>simp_all only: wf_screen_other_fields wf_enter_alternate_screen
        wf_leave_alternate_screen wf_set_origin [OF assms refl, unfolded wf_screen_other_fields]\<close>)

lemma fold_wf:
  "wf_screen s \<Longrightarrow> (\<And>x t. wf_screen t \<Longrightarrow> wf_screen (f x t)) \<Longrightarrow> wf_screen (fold f xs s)"
  by (induction xs arbitrary: s) auto

lemma wf_set_modes:
  "wf_screen s \<Longrightarrow> wf_screen (set_public_modes params b s)"
  "wf_screen s \<Longrightarrow> wf_screen (set_private_modes params b s)"
  by (auto simp: set_public_modes_def set_private_modes_def
      intro!: fold_wf wf_set_public_mode wf_set_private_mode)

section \<open>The interpreter\<close>

lemmas runs_ok_intros =
  print_char_ok [folded runs_ok_def] erase_line_ok [folded runs_ok_def]
  erase_display_ok [folded runs_ok_def]

lemma runs_ok_line_feed: "wf_screen s \<Longrightarrow> runs_ok (line_feed s)"
  using line_feed_ok [of s] by (auto simp: runs_ok_def)

lemma dispatch_csi_ok:
  assumes "wf_screen s0"
  shows "runs_ok (dispatch_csi private params action s0)"
proof -
  define s where "s = (if action \<noteq> 109 then s0\<lparr>t_requires_snapshot_redraw := True\<rparr> else s0)"
  define n where "n = s\<lparr>t_pending_home_clear_cut := False\<rparr>"
  have s: "wf_screen s" using assms by (simp add: s_def)
  have n: "wf_screen n" using s by (simp add: n_def)
  have rows: "t_cursor_row n - k < t_rows n" "min k (t_rows n - 1) < t_rows n" for k
    using wf_screen_pos [OF n] by auto
  have J: "runs_ok (map_option (\<lambda>s1. s1\<lparr>t_pending_home_clear_cut := False\<rparr>) (erase_display mode s))"
    for mode by (rule runs_ok_map) (simp_all add: runs_ok_intros s)
  show ?thesis
    unfolding dispatch_csi_def Let_def s_def [symmetric] n_def [symmetric]
    by (intro runs_ok_if J; simp only: runs_ok_Some;
        (intro runs_ok_intros)?; (intro wf_screen_cursor_row)?)
       (use s n in \<open>simp_all add: rows [unfolded One_nat_def] wf_set_scroll_region wf_scroll_up_region
         wf_scroll_down wf_set_modes cursor_row_from_param_less\<close>)
qed

lemma wf_push_pending: "wf_screen s \<Longrightarrow> wf_screen (push_pending_control_byte b s)"
  by (auto simp: push_pending_control_byte_def wf_screen_def wf_rest_def line_cap_def)

lemma wf_clear_pending [simp]: "wf_screen s \<Longrightarrow> wf_screen (s\<lparr>t_pending_control := []\<rparr>)"
  by (auto simp: wf_screen_def wf_rest_def line_cap_def)

lemma wf_clear_pending_control: "wf_screen s \<Longrightarrow> wf_screen (clear_pending_control s)"
  by (simp add: clear_pending_control_def)

lemma wf_utf8_pending: "wf_screen s \<Longrightarrow> length bs \<le> 4 \<Longrightarrow> wf_screen (s\<lparr>t_utf8_pending := bs\<rparr>)"
  by (auto simp: wf_screen_def wf_rest_def line_cap_def)

lemma wf_restore_cursor:
  assumes "wf_screen n"
  shows "wf_screen (case t_saved_cursor n of
      Some (row, col) \<Rightarrow>
        n\<lparr>t_cursor_row := min row (t_rows n - 1), t_cursor_col := min col (t_cols n - 1)\<rparr>
    | None \<Rightarrow> n)"
proof (cases "t_saved_cursor n")
  case None
  with assms show ?thesis by simp
next
  case (Some rc)
  obtain r c where "rc = (r, c)" by force
  moreover have "min r (t_rows n - 1) < t_rows n" using wf_screen_pos [OF assms] by linarith
  ultimately show ?thesis using Some assms by simp
qed

lemma wf_apply_escape_byte:
  assumes "wf_screen s"
  shows "wf_screen (apply_escape_byte b s)"
proof -
  define n where "n = s\<lparr>t_pending_home_clear_cut := False\<rparr>"
  define c where "c = clear_screen_and_scrollback (s\<lparr>t_requires_snapshot_redraw := True\<rparr>)"
  have n: "wf_screen n" using assms by (simp add: n_def)
  have c: "wf_screen c" using assms by (simp add: c_def wf_clear_screen_and_scrollback)
  then have c0: "0 < t_rows c" using wf_screen_pos by fastforce
  show ?thesis
    unfolding apply_escape_byte_def Let_def n_def [symmetric] c_def [symmetric]
    by (intro wf_screen_if)
       (use n c c0 assms in \<open>simp_all add: clear_pending_control_def wf_restore_cursor\<close>)
qed

lemma push_utf8_byte_ok:
  assumes "wf_screen s"
  shows "runs_ok (push_utf8_byte w b s)"
proof -
  have e: "wf_screen (s\<lparr>t_utf8_pending := []\<rparr>)" using assms by (simp add: wf_utf8_pending)
  have fe: "runs_ok (for_each (print_char w) cs (s\<lparr>t_utf8_pending := []\<rparr>))" for cs
    by (rule runs_ok_for_each [OF e]) (rule runs_ok_intros)
  show ?thesis
    using assms e fe
    by (cases "from_utf8 (t_utf8_pending s @ [b])")
       (simp_all add: push_utf8_byte_def Let_def runs_ok_intros wf_utf8_pending)
qed

lemma flush_invalid_utf8_ok: "wf_screen s \<Longrightarrow> runs_ok (flush_invalid_utf8 w s)"
  by (simp add: flush_invalid_utf8_def runs_ok_intros wf_utf8_pending)

lemma apply_ground_byte_ok:
  assumes "wf_screen s0"
  shows "runs_ok (apply_ground_byte w b s0)"
  unfolding apply_ground_byte_def
  by (intro runs_ok_if runs_ok_bind flush_invalid_utf8_ok runs_ok_line_feed runs_ok_intros
      push_utf8_byte_ok; simp add: Let_def assms wf_push_pending)

lemma apply_csi_byte_ok:
  assumes "wf_screen s"
  shows "runs_ok (apply_csi_byte private params current b s)"
  unfolding apply_csi_byte_def
  by (intro runs_ok_if dispatch_csi_ok) (use assms in \<open>simp_all add: clear_pending_control_def\<close>)

lemma apply_byte_ok:
  assumes "wf_screen s0"
  shows "runs_ok (apply_byte w b s0)"
proof -
  have s: "wf_screen (s0\<lparr>t_parser := Ground\<rparr>)" using assms by simp
  have p: "wf_screen (push_pending_control_byte c (s0\<lparr>t_parser := Ground\<rparr>))" for c
    by (rule wf_push_pending [OF s])
  show ?thesis
    using s p
    by (cases "t_parser s0")
       (simp_all add: apply_byte_def Let_def apply_ground_byte_ok wf_apply_escape_byte
         wf_clear_pending_control apply_csi_byte_ok)
qed

lemma screen_apply_ok: "wf_screen s \<Longrightarrow> runs_ok (screen_apply w bytes s)"
  unfolding screen_apply_def by (rule runs_ok_for_each) (auto intro: apply_byte_ok)

section \<open>Resizing\<close>

lemma wf_saved_screen_resize:
  assumes "wf_saved old_rows cols0 mx0 sv" "1 \<le> rows" "rows \<le> mx"
  shows "wf_saved rows cols mx (saved_screen_resize old_rows rows cols mx sv)"
proof -
  let ?g = "\<lambda>(ls :: terminal_line list, i). (ls @ [line_blank i cols False], sat_add64 i 1)"
  have grow: "wf_lines cols (fst (iter_n k ?g (ls, i))) \<and> length (fst (iter_n k ?g (ls, i))) = length ls + k"
    if "wf_lines cols ls" for k ls i
    using that by (induction k arbitrary: ls i) (auto simp: line_blank_def)
  define ls0 where "ls0 = map (line_resize cols) (sv_lines sv)"
  obtain ls1 i1 where it: "iter_n (rows - length ls0) ?g (ls0, sv_next_line_index sv) = (ls1, i1)" by force
  have "wf_lines cols ls0" by (simp add: ls0_def)
  from grow [OF this, of "rows - length ls0" "sv_next_line_index sv"] it
  have ls1: "wf_lines cols ls1" "rows \<le> length ls1" by auto
  have row: "min (sv_cursor_row sv) (rows - 1) < rows" "min (sv_scroll_top sv) (rows - 1) < rows"
    using assms(2) by linarith+
  show ?thesis
    unfolding saved_screen_resize_def Let_def ls0_def [symmetric] it
    using assms(2,3) ls1 row
    by (cases "sv_scroll_top sv = 0 \<and> sv_scroll_bottom sv = old_rows")
       (simp_all add: wf_saved_def less_max_iff_disj)
qed

lemma wf_screen_resize:
  assumes "wf_screen s"
  shows "wf_screen (screen_resize rows0 cols0 s)"
proof -
  define rows where "rows = max rows0 1"
  define cols where "cols = max cols0 1"
  define s1 where "s1 = s\<lparr>t_rows := rows, t_cols := cols,
    t_max_cached_lines := max (t_max_cached_lines s) rows,
    t_lines := map (line_resize cols) (t_lines s)\<rparr>"
  define s2 where "s2 = iter_n (rows - length (t_lines s1))
    (push_blank_line_with_style False (t_current_style s1)) s1"
  define s3 where "s3 = trim_cached_lines s2"
  have pos: "1 \<le> rows" "1 \<le> cols" by (simp_all add: rows_def cols_def)
  have cap: "rows \<le> line_cap s1" by (simp add: s1_def line_cap_def)
  have s12: "buf_step s1 s2 \<and> length (t_lines s2) = max (length (t_lines s1)) rows"
  proof (cases "length (t_lines s1) \<le> rows")
    case True
    with cap iter_push [of s1 "rows - length (t_lines s1)" False "t_current_style s1"]
    show ?thesis by (simp add: s2_def)
  next
    case False
    then show ?thesis by (simp add: s2_def)
  qed
  then have s13: "buf_step s1 s3" unfolding s3_def by (blast intro: buf_step_trans buf_step_trim)
  have cap2: "line_cap s2 = line_cap s1" using s12 buf_stepD(17) by blast
  have len3: "rows \<le> length (t_lines s3)" "length (t_lines s3) \<le> line_cap s1"
    using s12 cap by (auto simp: s3_def cap2)
  have wl: "wf_lines cols (t_lines s3)"
    using buf_step_wf_lines [OF s13] by (simp add: s1_def)
  have f3: "t_rows s3 = rows" "t_cols s3 = cols" "t_normal_screen s3 = t_normal_screen s"
    "t_max_cached_lines s3 = max (t_max_cached_lines s) rows" "t_cursor_row s3 = t_cursor_row s"
    "t_scroll_top s3 = t_scroll_top s" "t_scroll_bottom s3 = t_scroll_bottom s"
    "t_pending_control s3 = t_pending_control s" "t_utf8_pending s3 = t_utf8_pending s"
    by (simp_all add: buf_stepD [OF s13] s1_def)
  have sv: "wf_saved rows cols (max (t_max_cached_lines s) rows)
      (saved_screen_resize (t_rows s) rows cols (max (t_max_cached_lines s) rows) sv0)"
    if "t_normal_screen s = Some sv0" for sv0
  proof (rule wf_saved_screen_resize)
    show "wf_saved (t_rows s) (t_cols s) (t_max_cached_lines s) sv0"
      using assms that by (simp add: wf_screen_def wf_rest_def)
  qed (use pos in simp_all)
  define s4 where "s4 = s3\<lparr>t_normal_screen :=
      map_option (saved_screen_resize (t_rows s) rows cols (t_max_cached_lines s3)) (t_normal_screen s3),
      t_cursor_row := min (t_cursor_row s3) (rows - 1), t_cursor_col := min (t_cursor_col s3) (cols - 1)\<rparr>"
  have wf4: "wf_screen (s4\<lparr>t_scroll_top := tp, t_scroll_bottom := bt\<rparr>)" if "tp < bt" "bt \<le> rows" for tp bt
  proof -
    have rest: "wf_rest (s4\<lparr>t_scroll_top := tp, t_scroll_bottom := bt\<rparr>)"
      using pos that sv assms by (auto simp: s4_def f3 wf_rest_def wf_screen_def)
    have "line_cap (s4\<lparr>t_scroll_top := tp, t_scroll_bottom := bt\<rparr>) = line_cap s1"
      by (simp add: s4_def f3 line_cap_def s1_def)
    with rest wl len3 show ?thesis by (simp add: wf_screen_def s4_def f3)
  qed
  define tp where "tp = min (t_scroll_top s4) (rows - 1)"
  have tp: "tp < rows" using pos by (simp add: tp_def)
  show ?thesis
    unfolding screen_resize_def Let_def rows_def [symmetric] cols_def [symmetric] s1_def [symmetric]
      s2_def [symmetric] s3_def [symmetric] s4_def [symmetric] tp_def [symmetric]
    by (intro wf_screen_if wf4) (use pos tp in simp_all)
qed

end
