(* ===== verification/Screen_Frame.thy ===== *)
theory Screen_Frame
  imports Screen_Inv
begin

text \<open>
  What interpreting output leaves alone: the size of the terminal, the scrollback limit, and the
  normal screen saved behind an alternate screen. Then the properties of whole runs of the
  emulator: it never panics, its buffers stay bounded, and the alternate screen cannot damage the
  normal one.
\<close>

section \<open>Frames\<close>

definition same_size :: "terminal_screen \<Rightarrow> terminal_screen \<Rightarrow> bool" where
  "same_size s s' \<longleftrightarrow> t_rows s' = t_rows s \<and> t_cols s' = t_cols s \<and>
     t_max_cached_lines s' = t_max_cached_lines s"

definition frame :: "terminal_screen \<Rightarrow> terminal_screen \<Rightarrow> bool" where
  "frame s s' \<longleftrightarrow> same_size s s' \<and> t_normal_screen s' = t_normal_screen s"

definition frames :: "terminal_screen \<Rightarrow> terminal_screen option \<Rightarrow> bool" where
  "frames s r \<longleftrightarrow> (\<forall>s'. r = Some s' \<longrightarrow> frame s s')"

lemma frame_refl [simp]: "frame s s"
  by (simp add: frame_def same_size_def)

lemma frame_trans: "frame s t \<Longrightarrow> frame t u \<Longrightarrow> frame s u"
  by (simp add: frame_def same_size_def)

lemma frame_fields [simp]:
  "frame s (t\<lparr>t_lines := ls\<rparr>) = frame s t"
  "frame s (t\<lparr>t_next_line_index := k\<rparr>) = frame s t"
  "frame s (t\<lparr>t_cursor_row := r\<rparr>) = frame s t"
  "frame s (t\<lparr>t_cursor_col := c\<rparr>) = frame s t"
  "frame s (t\<lparr>t_saved_cursor := sc\<rparr>) = frame s t"
  "frame s (t\<lparr>t_current_style := st\<rparr>) = frame s t"
  "frame s (t\<lparr>t_modes := m\<rparr>) = frame s t"
  "frame s (t\<lparr>t_parser := p\<rparr>) = frame s t"
  "frame s (t\<lparr>t_utf8_pending := bs\<rparr>) = frame s t"
  "frame s (t\<lparr>t_pending_control := bs\<rparr>) = frame s t"
  "frame s (t\<lparr>t_pending_home_clear_cut := b\<rparr>) = frame s t"
  "frame s (t\<lparr>t_requires_snapshot_redraw := b\<rparr>) = frame s t"
  "frame s (t\<lparr>t_scroll_top := tp\<rparr>) = frame s t"
  "frame s (t\<lparr>t_scroll_bottom := bt\<rparr>) = frame s t"
  by (simp_all add: frame_def same_size_def)

lemma frame_if: "(b \<Longrightarrow> frame s x) \<Longrightarrow> (\<not> b \<Longrightarrow> frame s y) \<Longrightarrow> frame s (if b then x else y)"
  by simp

lemma frames_Some [simp]: "frames s (Some t) = frame s t"
  by (simp add: frames_def)

lemma frames_None [simp]: "frames s None"
  by (simp add: frames_def)

lemma frames_if: "(b \<Longrightarrow> frames s x) \<Longrightarrow> (\<not> b \<Longrightarrow> frames s y) \<Longrightarrow> frames s (if b then x else y)"
  by simp

lemma frames_bind: "frames s r \<Longrightarrow> (\<And>t. frame s t \<Longrightarrow> frames s (f t)) \<Longrightarrow> frames s (Option.bind r f)"
  by (auto simp: frames_def split: Option.bind_splits)

lemma frames_map: "frames s r \<Longrightarrow> (\<And>t. frame s t \<Longrightarrow> frame s (f t)) \<Longrightarrow> frames s (map_option f r)"
  by (auto simp: frames_def)

lemma frames_from: "frames t r \<Longrightarrow> frame s t \<Longrightarrow> frames s r"
  by (auto simp: frames_def intro: frame_trans)

lemma frames_for_each:
  "frame s t \<Longrightarrow> (\<And>x u. frames u (f x u)) \<Longrightarrow> frames s (for_each f xs t)"
proof (induction xs arbitrary: t)
  case Nil
  then show ?case by simp
next
  case (Cons x xs)
  show ?case
  proof (cases "f x t")
    case (Some u)
    with Cons.prems(2) [of t x] have "frame t u" by simp
    with Cons.prems(1) have "frame s u" by (rule frame_trans)
    from Cons.IH [OF this] Cons.prems(2) Some show ?thesis by simp
  qed simp
qed

lemma frame_buf_step: "buf_step s s' \<Longrightarrow> frame s s'"
  by (simp add: frame_def same_size_def buf_stepD)

lemma iter_frame: "(\<And>u. frame u (f u)) \<Longrightarrow> frame s (iter_n n f s)"
  by (induction n arbitrary: s) (auto intro: frame_trans)

lemma frame_insert: "frame s t \<Longrightarrow> frame s (insert_visible_line i st t)"
  by (rule frame_trans [OF _ frame_buf_step [OF buf_step_insert]])

lemma frame_scroll_once:
  "frame u (scroll_up_once tp bt st u)" "frame u (scroll_down_once tp bt st u)"
  by (simp_all add: scroll_up_once_def scroll_down_once_def Let_def frame_insert)

lemma frame_scroll:
  "frame s t \<Longrightarrow> frame s (scroll_up_region n t)" "frame s t \<Longrightarrow> frame s (scroll_down n t)"
  unfolding scroll_up_region_def scroll_down_def Let_def
  by (auto intro!: iter_frame frame_scroll_once elim: frame_trans)

lemma frames_visible: "frame s t \<Longrightarrow> frames s (visible_line_mut row f t)"
  by (auto simp: visible_line_mut_def Let_def frames_def)

lemma frames_line_feed: "frame s t \<Longrightarrow> frames s (line_feed t)"
  unfolding line_feed_def Let_def by (simp add: frame_scroll frames_visible)

lemma frames_print_char: "frame s t \<Longrightarrow> frames s (print_char w ch t)"
  unfolding print_char_def wrap_for_width_def Let_def
  by (intro frames_if frames_bind frames_visible frames_line_feed) simp_all

lemma frames_erase_line: "frame s t \<Longrightarrow> frames s (erase_line mode t)"
  unfolding erase_line_def Let_def
  by (intro frames_if frames_bind frames_visible) simp_all

lemma frames_clear_rows: "frame s t \<Longrightarrow> frames s (clear_rows st rows t)"
  unfolding clear_rows_def by (rule frames_for_each) (simp_all add: frames_visible)

lemma frame_rebuild:
  "frame s t \<Longrightarrow> frame s (iter_n n (push_blank_line_with_style b st) (t\<lparr>t_lines := []\<rparr>))"
  by (rule frame_trans [OF _ iter_frame]) (simp_all add: frame_buf_step buf_step_push)

lemma frame_clears:
  "frame s t \<Longrightarrow> frame s (clear_screen t)"
  "frame s t \<Longrightarrow> frame s (clear_screen_and_scrollback t)"
  "frame s t \<Longrightarrow> frame s (clear_cached_lines t)"
  by (simp_all add: clear_screen_def clear_screen_and_scrollback_def clear_cached_lines_def Let_def
      frame_rebuild)

lemma frames_erase_display: "frame s t \<Longrightarrow> frames s (erase_display mode t)"
  unfolding erase_display_def Let_def
  by (intro frames_if frames_bind frames_erase_line frames_clear_rows) (simp_all add: frame_clears)

lemma frame_set_scroll_region: "frame s t \<Longrightarrow> frame s (set_scroll_region params t)"
  by (simp add: set_scroll_region_def Let_def)

lemma frame_set_public_modes: "frame s t \<Longrightarrow> frame s (set_public_modes params b t)"
proof -
  assume a: "frame s t"
  have "frame s (fold (set_public_mode b) ps t)" for ps
    using a by (induction ps arbitrary: t) (simp_all add: set_public_mode_def)
  then show ?thesis by (simp add: set_public_modes_def)
qed

text \<open>
  Private modes are the one control sequence that may swap screens: enabling keeps a saved screen,
  disabling either keeps it or restores it.
\<close>

definition frame_alt :: "terminal_screen \<Rightarrow> terminal_screen \<Rightarrow> bool" where
  "frame_alt s s' \<longleftrightarrow> same_size s s' \<and>
     (t_normal_screen s \<noteq> None \<longrightarrow>
        t_normal_screen s' = t_normal_screen s \<or> t_normal_screen s' = None)"

lemma frame_imp_alt: "frame s t \<Longrightarrow> frame_alt s t"
  by (simp add: frame_def frame_alt_def)

lemma private_mode_enable:
  "same_size t (set_private_mode True p t) \<and>
   (t_normal_screen t \<noteq> None \<longrightarrow> t_normal_screen (set_private_mode True p t) = t_normal_screen t)"
  by (simp add: set_private_mode_def Let_def same_size_def enter_alternate_screen_def
      reset_screen_buffer_def)

lemma private_mode_disable:
  "same_size t (set_private_mode False p t) \<and>
   (t_normal_screen (set_private_mode False p t) = t_normal_screen t \<or>
    t_normal_screen (set_private_mode False p t) = None)"
  by (simp add: set_private_mode_def Let_def same_size_def leave_alternate_screen_def
      reset_screen_buffer_def split: option.splits)

lemma same_size_trans: "same_size s t \<Longrightarrow> same_size t u \<Longrightarrow> same_size s u"
  by (simp add: same_size_def)

lemma frame_alt_set_private_modes: "frame_alt s (set_private_modes params b s)"
proof -
  have en: "same_size s (fold (set_private_mode True) ps s) \<and>
      (t_normal_screen s \<noteq> None \<longrightarrow>
        t_normal_screen (fold (set_private_mode True) ps s) = t_normal_screen s)" for ps
  proof (induction ps rule: rev_induct)
    case (snoc p ps)
    then show ?case using private_mode_enable [of "fold (set_private_mode True) ps s" p]
      by (auto intro: same_size_trans)
  qed (simp add: same_size_def)
  have dis: "same_size s (fold (set_private_mode False) ps s) \<and>
      (t_normal_screen (fold (set_private_mode False) ps s) = t_normal_screen s \<or>
       t_normal_screen (fold (set_private_mode False) ps s) = None)" for ps
  proof (induction ps rule: rev_induct)
    case (snoc p ps)
    then show ?case using private_mode_disable [of "fold (set_private_mode False) ps s" p]
      by (auto intro: same_size_trans)
  qed (simp add: same_size_def)
  show ?thesis
    using en dis by (cases b) (auto simp: set_private_modes_def frame_alt_def)
qed

definition frames_alt :: "terminal_screen \<Rightarrow> terminal_screen option \<Rightarrow> bool" where
  "frames_alt s r \<longleftrightarrow> (\<forall>s'. r = Some s' \<longrightarrow> frame_alt s s')"

lemma frames_imp_alt: "frames s r \<Longrightarrow> frames_alt s r"
  by (simp add: frames_def frames_alt_def frame_imp_alt)

lemma frames_alt_if:
  "(b \<Longrightarrow> frames_alt s x) \<Longrightarrow> (\<not> b \<Longrightarrow> frames_alt s y) \<Longrightarrow> frames_alt s (if b then x else y)"
  by simp

lemma frame_then_alt: "frame s t \<Longrightarrow> frame_alt t u \<Longrightarrow> frame_alt s u"
  by (simp add: frame_def frame_alt_def same_size_def)

lemma frames_alt_dispatch_csi:
  assumes "frame u s0"
  shows "frames_alt u (dispatch_csi private params action s0)"
proof -
  define s where "s = (if action \<noteq> 109 then s0\<lparr>t_requires_snapshot_redraw := True\<rparr> else s0)"
  define n where "n = s\<lparr>t_pending_home_clear_cut := False\<rparr>"
  have s: "frame u s" using assms by (simp add: s_def)
  have n: "frame u n" using s by (simp add: n_def)
  have pm: "frames_alt u (Some (set_private_modes params b n))" for b
    using frame_then_alt [OF n frame_alt_set_private_modes] by (simp add: frames_alt_def)
  show ?thesis
    unfolding dispatch_csi_def Let_def s_def [symmetric] n_def [symmetric]
    by (intro frames_alt_if pm; rule frames_imp_alt;
        (intro frames_map frames_erase_display frames_erase_line)?)
       (use s n in \<open>simp_all add: frame_set_scroll_region frame_scroll frame_set_public_modes\<close>)
qed

lemma frame_push_pending: "frame s t \<Longrightarrow> frame s (push_pending_control_byte b t)"
  by (simp add: push_pending_control_byte_def)

lemma frame_clear_pending [simp]: "frame s (clear_pending_control t) = frame s t"
  by (simp add: clear_pending_control_def)

lemma frame_apply_escape_byte: "frame s t \<Longrightarrow> frame s (apply_escape_byte b t)"
  unfolding apply_escape_byte_def Let_def
  by (intro frame_if) (simp_all add: frame_clears split: option.splits)

lemma frames_push_utf8_byte: "frame s t \<Longrightarrow> frames s (push_utf8_byte w b t)"
  by (cases "from_utf8 (t_utf8_pending t @ [b])")
     (simp_all add: push_utf8_byte_def Let_def frames_print_char frames_for_each)

lemma frames_flush: "frame s t \<Longrightarrow> frames s (flush_invalid_utf8 w t)"
  by (simp add: flush_invalid_utf8_def frames_print_char)

lemma frames_ground: "frame s t \<Longrightarrow> frames s (apply_ground_byte w b t)"
  unfolding apply_ground_byte_def
  by (intro frames_if frames_bind frames_flush frames_line_feed frames_print_char
      frames_push_utf8_byte; simp add: Let_def frame_push_pending)

lemma frames_alt_apply_byte: "frames_alt s (apply_byte w b s)"
proof -
  have g: "frame s (s\<lparr>t_parser := Ground\<rparr>)" by simp
  note p = frame_push_pending [OF g, of b]
  have f: "frames_alt s (Some t)" if "frame s t" for t
    using that by (simp add: frames_imp_alt)
  show ?thesis
  proof (cases "t_parser s")
    case Ground
    then show ?thesis
      by (simp add: apply_byte_def Let_def frames_imp_alt frames_ground)
  next
    case (Csi prv params current)
    then show ?thesis
      unfolding apply_byte_def Let_def Csi parser_state.simps apply_csi_byte_def
      by (intro frames_alt_if frames_alt_dispatch_csi f) (use p in simp_all)
  qed (use p in \<open>auto simp: apply_byte_def Let_def frame_apply_escape_byte intro!: f frame_if\<close>)
qed

section \<open>Runs\<close>

text \<open>What the supervisor does to a screen over its life: feed PTY output, resize.\<close>

datatype screen_event = Feed "u8 list" | Resize_to u16 u16

fun screen_step :: "(uchar \<Rightarrow> usize option) \<Rightarrow> screen_event \<Rightarrow> terminal_screen \<Rightarrow> terminal_screen option" where
  "screen_step w (Feed bytes) s = screen_apply w bytes s"
| "screen_step w (Resize_to r c) s = Some (screen_resize r c s)"

definition screen_run ::
  "(uchar \<Rightarrow> usize option) \<Rightarrow> screen_event list \<Rightarrow> terminal_screen \<Rightarrow> terminal_screen option" where
  "screen_run w evs s = for_each (screen_step w) evs s"

text \<open>The size and the line limit that the resize requests alone determine.\<close>

fun requested_size :: "screen_event list \<Rightarrow> usize \<times> usize \<times> usize \<Rightarrow> usize \<times> usize \<times> usize" where
  "requested_size [] z = z"
| "requested_size (Feed bytes # evs) z = requested_size evs z"
| "requested_size (Resize_to r c # evs) (r0, c0, mx) =
     requested_size evs (max r 1, max c 1, max mx (max r 1))"

definition screen_size :: "terminal_screen \<Rightarrow> usize \<times> usize \<times> usize" where
  "screen_size s = (t_rows s, t_cols s, t_max_cached_lines s)"

text \<open>The bytes keep the terminal on its alternate screen all the way.\<close>

fun stays_alternate :: "(uchar \<Rightarrow> usize option) \<Rightarrow> u8 list \<Rightarrow> terminal_screen \<Rightarrow> bool" where
  "stays_alternate w [] s = True"
| "stays_alternate w (b # bs) s =
     (case apply_byte w b s of
        None \<Rightarrow> False
      | Some s1 \<Rightarrow> t_normal_screen s1 \<noteq> None \<and> stays_alternate w bs s1)"

lemma screen_apply_Nil [simp]: "screen_apply w [] s = Some s"
  by (simp add: screen_apply_def)

lemma screen_apply_Cons [simp]:
  "screen_apply w (b # bs) s =
     (case apply_byte w b s of None \<Rightarrow> None | Some s1 \<Rightarrow> screen_apply w bs s1)"
  by (simp add: screen_apply_def split: option.splits)

lemma screen_apply_append:
  "screen_apply w (as @ bs) s = Option.bind (screen_apply w as s) (screen_apply w bs)"
  by (simp add: screen_apply_def [abs_def] for_each_append)

lemma same_size_screen_apply: "screen_apply w bs s = Some s' \<Longrightarrow> same_size s s'"
proof (induction bs arbitrary: s)
  case Nil
  then show ?case by (simp add: same_size_def)
next
  case (Cons b bs)
  from Cons.prems obtain s1 where s1: "apply_byte w b s = Some s1" "screen_apply w bs s1 = Some s'"
    by (auto split: option.splits)
  from frames_alt_apply_byte [of s w b] s1(1) have "same_size s s1"
    by (simp add: frames_alt_def frame_alt_def)
  with Cons.IH [OF s1(2)] show ?case by (blast intro: same_size_trans)
qed

lemma stays_alternate_keeps_saved:
  "screen_apply w bs s = Some s' \<Longrightarrow> stays_alternate w bs s \<Longrightarrow> t_normal_screen s = Some sv \<Longrightarrow>
   t_normal_screen s' = Some sv"
proof (induction bs arbitrary: s)
  case Nil
  then show ?case by simp
next
  case (Cons b bs)
  then obtain s1 where s1: "apply_byte w b s = Some s1" "screen_apply w bs s1 = Some s'"
    "t_normal_screen s1 \<noteq> None" "stays_alternate w bs s1"
    by (auto split: option.splits)
  from frames_alt_apply_byte [of s w b] s1(1,3) Cons.prems(3) have "t_normal_screen s1 = Some sv"
    by (auto simp: frames_alt_def frame_alt_def)
  from Cons.IH [OF s1(2,4) this] show ?case .
qed

lemma screen_resize_size:
  "screen_size (screen_resize r c s) = (max r 1, max c 1, max (t_max_cached_lines s) (max r 1))"
proof -
  have "frame s1 (trim_cached_lines (iter_n n (push_blank_line_with_style False st) s1))" for s1 n st
    by (rule frame_trans [OF iter_frame frame_buf_step [OF buf_step_trim]])
       (rule frame_buf_step [OF buf_step_push])
  note f = this [unfolded frame_def same_size_def]
  show ?thesis
    by (simp add: screen_size_def screen_resize_def Let_def f)
qed

lemma screen_run_size:
  "screen_run w evs s = Some s' \<Longrightarrow> screen_size s' = requested_size evs (screen_size s)"
proof (induction evs arbitrary: s)
  case Nil
  then show ?case by (simp add: screen_run_def)
next
  case (Cons e evs)
  then obtain s1 where s1: "screen_step w e s = Some s1" "screen_run w evs s1 = Some s'"
    by (auto simp: screen_run_def split: option.splits)
  show ?case
  proof (cases e)
    case (Feed bytes)
    with s1(1) same_size_screen_apply have "screen_size s1 = screen_size s"
      by (auto simp: screen_size_def same_size_def)
    with Cons.IH [OF s1(2)] Feed show ?thesis by simp
  next
    case (Resize_to r c)
    with s1(1) have "screen_size s1 = (max r 1, max c 1, max (t_max_cached_lines s) (max r 1))"
      using screen_resize_size by auto
    with Cons.IH [OF s1(2)] Resize_to show ?thesis by (simp add: screen_size_def)
  qed
qed

lemma screen_run_ok: "wf_screen s \<Longrightarrow> runs_ok (screen_run w evs s)"
  unfolding screen_run_def
proof (rule runs_ok_for_each)
  fix e t
  assume "wf_screen t"
  then show "runs_ok (screen_step w e t)"
    by (cases e) (simp_all add: screen_apply_ok wf_screen_resize)
qed

text \<open>The equations that evaluate the emulator on a concrete screen.\<close>

lemmas screen_eval =
  screen_new_def with_max_cached_lines_def default_max_cached_lines_def Let_def
  apply_byte_def apply_ground_byte_def apply_escape_byte_def apply_csi_byte_def
  flush_invalid_utf8_def push_utf8_byte_def push_pending_control_byte_def
  clear_pending_control_def max_pending_control_bytes_def
  print_char_def wrap_for_width_def terminal_character_width_def write_char_cells_def
  visible_line_mut_def visible_start_def set_cell_def touch_line_def line_feed_def
  scroll_up_region_def scroll_up_once_def insert_visible_line_def insert_at_def remove_at_def
  trim_cached_lines_def trim_front_drop line_blank_def
  enter_alternate_screen_def reset_screen_buffer_def save_normal_screen_def
  dispatch_csi_def terminal_modes_default_def

section \<open>Properties\<close>

text \<open>
  C39. The emulator never panics: whatever bytes the PTY produces and however the terminal is resized
  in between, starting from a fresh screen every run completes, and ends in a well-formed screen
  (rectangular rows, cursor and scroll region inside the screen, bounded scrollback, at most
  4096 pending control bytes and 4 pending UTF-8 bytes).
\<close>

theorem terminal_screen_never_panics:
  "\<exists>s'. screen_run w evs (screen_new r c) = Some s' \<and> wf_screen s'"
  using screen_run_ok [OF wf_screen_new] by (simp add: runs_ok_def)

text \<open>
  Only resize requests change the size of the terminal, and the memory of the emulator is bounded
  by them: the number of cached lines never exceeds the larger of 1000 and the largest number of
  rows ever requested, and every one of them has exactly the current number of columns.
\<close>

lemma terminal_screen_memory_bound:
  assumes "screen_run w evs (screen_new r c) = Some s'"
    and "requested_size evs (max r 1, max c 1, max 1000 (max r 1)) = (rows, cols, mx)"
  shows "t_rows s' = rows \<and> t_cols s' = cols \<and> rows \<le> length (t_lines s') \<and>
    length (t_lines s') \<le> mx \<and> wf_lines cols (t_lines s') \<and> t_cursor_row s' < rows"
proof -
  have new: "screen_size (screen_new r c) = (max r 1, max c 1, max 1000 (max r 1))"
    by (simp add: screen_size_def screen_new_def with_max_cached_lines_def Let_def
        default_max_cached_lines_def)
  from screen_run_size [OF assms(1)] assms(2) have sz: "t_rows s' = rows" "t_cols s' = cols"
    "t_max_cached_lines s' = mx" by (simp_all add: new) (simp_all add: screen_size_def)
  from screen_run_ok [OF wf_screen_new, of w evs r c] assms(1) have wf: "wf_screen s'"
    by (simp add: runs_ok_def)
  then have "line_cap s' \<le> t_max_cached_lines s'"
    by (simp add: line_cap_def wf_screen_def wf_rest_def)
  with wf sz show ?thesis by (auto simp: wf_screen_def wf_rest_def)
qed

text \<open>
  The alternate screen cannot damage the normal one: after entering it (DECSET 1049), feeding any
  bytes that keep the terminal there, and leaving it again, the normal screen has exactly its old
  lines, styles, modes, saved cursor, scroll region and cursor row.
\<close>

lemma alternate_screen_restores_normal:
  assumes "wf_screen s" and "t_normal_screen s = None"
    and "screen_apply w bs (enter_alternate_screen s) = Some u"
    and "stays_alternate w bs (enter_alternate_screen s)"
  shows "leave_alternate_screen u =
    u\<lparr>t_normal_screen := None, t_lines := t_lines s, t_next_line_index := t_next_line_index s,
      t_cursor_row := t_cursor_row s, t_cursor_col := min (t_cursor_col s) (t_cols s - 1),
      t_saved_cursor := t_saved_cursor s, t_current_style := t_current_style s,
      t_modes := t_modes s, t_scroll_top := t_scroll_top s, t_scroll_bottom := t_scroll_bottom s\<rparr>"
proof -
  have "t_normal_screen (enter_alternate_screen s) = Some (save_normal_screen s)"
    using assms(2) by (simp add: enter_alternate_screen_def reset_screen_buffer_def)
  from stays_alternate_keeps_saved [OF assms(3,4) this]
  have sv: "t_normal_screen u = Some (save_normal_screen s)" .
  have "same_size s (enter_alternate_screen s)"
    by (simp add: same_size_def enter_alternate_screen_def reset_screen_buffer_def)
  with same_size_screen_apply [OF assms(3)] have sz: "t_rows u = t_rows s" "t_cols u = t_cols s"
    by (simp_all add: same_size_def)
  from wf_screen_pos [OF assms(1)] have "min (t_cursor_row s) (t_rows s - 1) = t_cursor_row s"
    "min (t_scroll_top s) (t_rows s - 1) = t_scroll_top s"
    "max (min (t_scroll_bottom s) (t_rows s)) (t_scroll_top s + 1) = t_scroll_bottom s"
    by auto
  with sv sz show ?thesis
    by (simp add: leave_alternate_screen_def save_normal_screen_def Let_def)
qed

end
