(* ===== verification/Screen_Snapshot.thy ===== *)
theory Screen_Snapshot
  imports Screen_Frame
begin

text \<open>
  The snapshot printer of \<open>termd/src/net/screen.rs\<close>: the bytes that make a fresh terminal show what
  the emulator holds. The lemmas run the printed bytes through the emulator's own interpreter:
  every control sequence the printer emits is read back with exactly the parameters it was
  printed with, styles and modes round-trip, and a snapshot restores the whole non-text state.
\<close>

section \<open>Definitions\<close>

definition line_shows :: "terminal_line \<Rightarrow> bool" where
  "line_shows l \<longleftrightarrow> tl_touched l \<or> \<not> line_is_blank l"

definition snapshot_line_bounds_for :: "terminal_line list \<Rightarrow> usize \<Rightarrow> (usize \<times> usize) option" where
  "snapshot_line_bounds_for lines rows =
     (case position line_shows lines of
        None \<Rightarrow> None
      | Some first_visible \<Rightarrow>
          (let last_visible = (case rposition line_shows lines of Some i \<Rightarrow> i | None \<Rightarrow> first_visible);
               visible_start = length lines - rows;
               start = (if first_visible \<ge> visible_start then visible_start else first_visible)
           in Some (start, last_visible + 1)))"

definition snapshot_line_bounds :: "terminal_screen \<Rightarrow> (usize \<times> usize) option" where
  "snapshot_line_bounds s =
     (case position line_shows (t_lines s) of
        None \<Rightarrow> None
      | Some first_visible \<Rightarrow>
          (let last_visible = (case rposition line_shows (t_lines s) of Some i \<Rightarrow> i | None \<Rightarrow> first_visible);
               start = (if first_visible \<ge> visible_start s then visible_start s else first_visible)
           in Some (start, last_visible + 1)))"

definition snapshot_lines :: "terminal_screen \<Rightarrow> terminal_line list" where
  "snapshot_lines s =
     (case snapshot_line_bounds s of
        None \<Rightarrow> [] | Some (start, fin) \<Rightarrow> take (fin - start) (drop start (t_lines s)))"

definition snapshot_plain_lines :: "terminal_screen \<Rightarrow> uchar list list" where
  "snapshot_plain_lines s = map plain_text (snapshot_lines s)"

definition needs_state_restore :: "terminal_screen \<Rightarrow> bool" where
  "needs_state_restore s \<longleftrightarrow>
     t_cursor_row s \<noteq> 0 \<or> t_cursor_col s \<noteq> 0 \<or> t_saved_cursor s \<noteq> None \<or>
     \<not> style_is_default (t_current_style s) \<or> t_modes s \<noteq> terminal_modes_default \<or>
     t_scroll_top s \<noteq> 0 \<or> t_scroll_bottom s \<noteq> t_rows s"

definition scroll_region_bytes :: "usize \<Rightarrow> usize \<Rightarrow> usize \<Rightarrow> u8 list" where
  "scroll_region_bytes tp bt rows =
     (if tp = 0 \<and> bt = rows then 27 # ascii ''[r''
      else 27 # ascii ''['' @ dec (tp + 1) @ ascii '';'' @ dec (max (min bt rows) 1) @ ascii ''r'')"

definition cursor_position_bytes :: "usize \<Rightarrow> usize \<Rightarrow> usize \<Rightarrow> u8 list" where
  "cursor_position_bytes row col cols =
     27 # ascii ''['' @ dec (row + 1) @ ascii '';'' @ dec (min col (cols - 1) + 1) @ ascii ''H''"

definition saved_cursor_restore_bytes :: "(usize \<times> usize) option \<Rightarrow> usize \<Rightarrow> usize \<Rightarrow> u8 list" where
  "saved_cursor_restore_bytes sc cols rows =
     (case sc of
        None \<Rightarrow> []
      | Some (r, c) \<Rightarrow>
          27 # ascii ''['' @ dec (min r (rows - 1) + 1) @ ascii '';'' @ dec (min c (cols - 1) + 1)
            @ ascii ''H'' @ 27 # ascii ''7'')"

text \<open>\<open>char::encode_utf8\<close>.\<close>

definition encode_utf8 :: "uchar \<Rightarrow> u8 list" where
  "encode_utf8 c =
     (if c < 128 then [c]
      else if c < 2048 then [192 + c div 64, 128 + c mod 64]
      else if c < 65536 then [224 + c div 4096, 128 + c div 64 mod 64, 128 + c mod 64]
      else [240 + c div 262144, 128 + c div 4096 mod 64, 128 + c div 64 mod 64, 128 + c mod 64])"

text \<open>The loop of \<open>row_ansi_bytes\<close>: the bytes so far and the active style.\<close>

definition row_ansi_step :: "terminal_cell \<Rightarrow> u8 list \<times> cell_style \<Rightarrow> u8 list \<times> cell_style" where
  "row_ansi_step c st =
     (case st of (out, active) \<Rightarrow>
        if tc_wide_continuation c then (out, active)
        else
          (let (out1, active1) =
             (if tc_style c \<noteq> active
              then (out @ sgr_bytes (\<not> style_is_default active) (tc_style c), tc_style c)
              else (out, active))
           in (out1 @ encode_utf8 (tc_character c), active1)))"

definition row_ansi_bytes :: "terminal_line \<Rightarrow> u8 list" where
  "row_ansi_bytes l =
     (let dw = display_width l in
      if dw = 0 then []
      else
        (let (out, active) = fold row_ansi_step (take dw (tl_cells l)) ([], cell_style_default)
         in if \<not> style_is_default active then out @ sgr_bytes False cell_style_default else out))"

definition snapshot_tail_bytes ::
  "usize \<Rightarrow> usize \<Rightarrow> usize \<Rightarrow> usize \<Rightarrow> (usize \<times> usize) option \<Rightarrow> cell_style \<Rightarrow> terminal_modes \<Rightarrow>
   usize \<Rightarrow> usize \<Rightarrow> u8 list" where
  "snapshot_tail_bytes rows cols cursor_row cursor_col saved_cursor st modes tp bt =
     restore_bytes modes @ scroll_region_bytes tp bt rows @
     saved_cursor_restore_bytes saved_cursor cols rows @
     cursor_position_bytes cursor_row cursor_col cols @
     (if \<not> style_is_default st then sgr_bytes False st else [])"

definition snapshot_state_bytes ::
  "terminal_line list \<Rightarrow> usize \<Rightarrow> usize \<Rightarrow> usize \<Rightarrow> usize \<Rightarrow> (usize \<times> usize) option \<Rightarrow> cell_style \<Rightarrow>
   terminal_modes \<Rightarrow> usize \<Rightarrow> usize \<Rightarrow> u8 list" where
  "snapshot_state_bytes lines rows cols cursor_row cursor_col saved_cursor st modes tp bt =
     (case snapshot_line_bounds_for lines rows of
        None \<Rightarrow> snapshot_tail_bytes rows cols cursor_row cursor_col saved_cursor st modes tp bt
      | Some (start, fin) \<Rightarrow>
          concat (map (\<lambda>i. row_ansi_bytes (lines ! i) @ (if i + 1 < fin then [13, 10] else []))
            [start..<min fin (length lines)]) @
          snapshot_tail_bytes rows cols cursor_row cursor_col saved_cursor st modes tp bt)"

definition snapshot_bytes :: "terminal_screen \<Rightarrow> u8 list" where
  "snapshot_bytes s =
     (if t_normal_screen s = None \<and> t_pending_control s = [] \<and> t_utf8_pending s = [] \<and>
         \<not> needs_state_restore s \<and> snapshot_line_bounds s = None
      then []
      else
        (case t_normal_screen s of
           None \<Rightarrow> []
         | Some n \<Rightarrow>
             snapshot_state_bytes (sv_lines n) (t_rows s) (t_cols s) (sv_cursor_row n) (sv_cursor_col n)
               (sv_saved_cursor n) (sv_current_style n) (sv_modes n) (sv_scroll_top n) (sv_scroll_bottom n)
             @ 27 # ascii ''[?1049h'') @
        snapshot_state_bytes (t_lines s) (t_rows s) (t_cols s) (t_cursor_row s) (t_cursor_col s)
          (t_saved_cursor s) (t_current_style s) (t_modes s) (t_scroll_top s) (t_scroll_bottom s) @
        t_pending_control s @ t_utf8_pending s)"

section \<open>Reading printed control sequences back\<close>

text \<open>Between two sequences: nothing half-read.\<close>

definition idle :: "terminal_screen \<Rightarrow> bool" where
  "idle s \<longleftrightarrow> t_parser s = Ground \<and> t_utf8_pending s = [] \<and> t_pending_control s = []"

abbreviation in_csi ::
  "bool \<Rightarrow> u16 option list \<Rightarrow> u16 option \<Rightarrow> u8 list \<Rightarrow> terminal_screen \<Rightarrow> terminal_screen" where
  "in_csi prv ps cur pc s \<equiv> s\<lparr>t_parser := Csi prv ps cur, t_pending_control := pc\<rparr>"

definition pend :: "u8 \<Rightarrow> u8 list \<Rightarrow> u8 list" where
  "pend b pc = (if length pc < max_pending_control_bytes then pc @ [b] else pc)"

lemma push_pending_pend:
  "push_pending_control_byte b s = s\<lparr>t_pending_control := pend b (t_pending_control s)\<rparr>"
  by (simp add: push_pending_control_byte_def pend_def)

lemma pending_parser_swap:
  "s\<lparr>t_pending_control := pc, t_parser := p\<rparr> = s\<lparr>t_parser := p, t_pending_control := pc\<rparr>"
  by (cases s) simp

lemma csi_byte_step:
  "apply_byte w b (in_csi prv ps cur pc s) =
     apply_csi_byte prv ps cur b (s\<lparr>t_parser := Ground, t_pending_control := pend b pc\<rparr>)"
  by (simp add: apply_byte_def Let_def push_pending_pend)

lemma csi_digit_step:
  "48 \<le> b \<Longrightarrow> b \<le> 57 \<Longrightarrow>
   apply_byte w b (in_csi prv ps cur pc s) =
     Some (in_csi prv ps (Some (sat_add16 (sat_mul16 (case cur of None \<Rightarrow> 0 | Some v \<Rightarrow> v) 10) (b - 48)))
       (pend b pc) s)"
  by (simp add: csi_byte_step apply_csi_byte_def)

lemma csi_sep_step:
  "apply_byte w 59 (in_csi prv ps cur pc s) = Some (in_csi prv (ps @ [cur]) None (pend 59 pc) s)"
  by (simp add: csi_byte_step apply_csi_byte_def)

lemma csi_final_step:
  "64 \<le> a \<Longrightarrow> a \<le> 126 \<Longrightarrow>
   apply_byte w a (in_csi prv ps cur pc s) =
     dispatch_csi prv (ps @ [cur]) a (s\<lparr>t_parser := Ground, t_pending_control := []\<rparr>)"
  by (simp add: csi_byte_step apply_csi_byte_def clear_pending_control_def)

text \<open>A printed number is read back as that number, if it fits into 16 bits.\<close>

lemma csi_number:
  "n \<le> u16_max \<Longrightarrow>
   screen_apply w (dec n) (in_csi prv ps None pc s) =
     Some (in_csi prv ps (Some n) (fold pend (dec n) pc) s)"
proof (induction n rule: dec.induct)
  case (1 n)
  show ?case
  proof (cases "n < 10")
    case True
    then have "sat_add16 (sat_mul16 0 10) n = n" by (simp add: sat_add16_def sat_mul16_def u16_max_def)
    with True show ?thesis by (simp add: dec.simps [of n] csi_digit_step)
  next
    case False
    with "1.prems" have "n div 10 \<le> u16_max" by linarith
    note IH = "1.IH" [OF False this]
    have ten: "n div 10 * 10 + n mod 10 = n" by simp
    with "1.prems" have "n div 10 * 10 \<le> u16_max" by linarith
    then have "sat_add16 (sat_mul16 (n div 10) 10) (n mod 10) = n"
      using "1.prems" ten by (simp add: sat_mul16_exact sat_add16_exact)
    moreover have "48 + n mod 10 \<le> 57"
      using mod_less_divisor [of 10 n] by linarith
    ultimately show ?thesis
      using False IH by (simp add: dec.simps [of n] screen_apply_append csi_digit_step)
  qed
qed

lemma csi_numbers:
  "ns \<noteq> [] \<Longrightarrow> list_all (\<lambda>n. n \<le> u16_max) ns \<Longrightarrow> 64 \<le> a \<Longrightarrow> a \<le> 126 \<Longrightarrow>
   screen_apply w (join_with 59 (map dec ns) @ [a]) (in_csi prv ps None pc s) =
     dispatch_csi prv (ps @ map Some ns) a (s\<lparr>t_parser := Ground, t_pending_control := []\<rparr>)"
proof (induction ns arbitrary: ps pc rule: induct_list012)
  case 1
  then show ?case by simp
next
  case (2 n)
  then show ?case
    by (simp add: screen_apply_append csi_number csi_final_step split: option.splits)
next
  case (3 n m ns)
  then show ?case
    by (simp add: screen_apply_append csi_number csi_sep_step)
qed

text \<open>A whole sequence \<open>ESC [ n; ...; n a\<close>, and the private form \<open>ESC [ ? n a\<close>.\<close>

lemma esc_bracket:
  assumes "idle s"
  shows "screen_apply w (27 # 91 # bs) s =
    screen_apply w bs (in_csi False [] None [27, 91] s)"
proof -
  have "s\<lparr>t_parser := Ground\<rparr> = s" "s\<lparr>t_pending_control := []\<rparr> = s"
    using assms by (simp_all add: idle_def)
  with assms show ?thesis
    by (simp add: idle_def apply_byte_def apply_ground_byte_def flush_invalid_utf8_def Let_def
        push_pending_pend apply_escape_byte_def pend_def max_pending_control_bytes_def
        pending_parser_swap)
qed

lemma idle_reset: "idle s \<Longrightarrow> s\<lparr>t_parser := Ground, t_pending_control := []\<rparr> = s"
  by (simp add: idle_def)

lemma csi_sequence:
  assumes "idle s" "ns \<noteq> []" "list_all (\<lambda>n. n \<le> u16_max) ns" "64 \<le> a" "a \<le> 126"
  shows "screen_apply w (27 # 91 # join_with 59 (map dec ns) @ [a]) s =
    dispatch_csi False (map Some ns) a s"
  using csi_numbers [OF assms(2-5), where w = w and prv = False and ps = "[]" and pc = "[27, 91]" and s = s]
    idle_reset [OF assms(1)]
  by (simp only: esc_bracket [OF assms(1)] append_Nil)

lemma csi_no_params:
  assumes "idle s" "64 \<le> a" "a \<le> 126"
  shows "screen_apply w [27, 91, a] s = dispatch_csi False [None] a s"
  using csi_final_step [OF assms(2,3), where w = w and prv = False and ps = "[]" and cur = None
      and pc = "[27, 91]" and s = s] idle_reset [OF assms(1)]
  by (simp add: esc_bracket [OF assms(1)] del: screen_apply_Cons) (simp split: option.splits)

lemma csi_private:
  assumes "idle s" "n \<le> u16_max" "64 \<le> a" "a \<le> 126"
  shows "screen_apply w (27 # 91 # 63 # dec n @ [a]) s = dispatch_csi True [Some n] a s"
proof -
  have q: "apply_byte w 63 (in_csi False [] None [27, 91] s) = Some (in_csi True [] None (pend 63 [27, 91]) s)"
    by (simp add: csi_byte_step apply_csi_byte_def)
  have "screen_apply w (join_with 59 (map dec [n]) @ [a]) (in_csi True [] None (pend 63 [27, 91]) s) =
      dispatch_csi True ([] @ map Some [n]) a (s\<lparr>t_parser := Ground, t_pending_control := []\<rparr>)"
    by (rule csi_numbers) (use assms in simp_all)
  with idle_reset [OF assms(1)] have
    "screen_apply w (dec n @ [a]) (in_csi True [] None (pend 63 [27, 91]) s) = dispatch_csi True [Some n] a s"
    by simp
  then show ?thesis
    by (subst esc_bracket [OF assms(1)], subst screen_apply_Cons, subst q) simp
qed

lemma esc_save_cursor:
  "idle s \<Longrightarrow> screen_apply w [27, 55] s =
     Some (s\<lparr>t_pending_home_clear_cut := False, t_saved_cursor := Some (t_cursor_row s, t_cursor_col s)\<rparr>)"
  by (cases s)
     (simp add: idle_def apply_byte_def apply_ground_byte_def flush_invalid_utf8_def Let_def
       push_pending_pend pend_def max_pending_control_bytes_def apply_escape_byte_def
       clear_pending_control_def)

lemma esc_keypad:
  "idle s \<Longrightarrow> screen_apply w [27, if e then 61 else 62] s =
     Some (s\<lparr>t_pending_home_clear_cut := False,
       t_modes := (t_modes s)\<lparr>tm_application_keypad := e\<rparr>\<rparr>)"
  by (cases s; cases e)
     (simp_all add: idle_def apply_byte_def apply_ground_byte_def flush_invalid_utf8_def Let_def
       push_pending_pend pend_def max_pending_control_bytes_def apply_escape_byte_def
       clear_pending_control_def)

lemma idle_fields [simp]:
  "idle (s\<lparr>t_modes := m\<rparr>) = idle s" "idle (s\<lparr>t_cursor_row := r\<rparr>) = idle s"
  "idle (s\<lparr>t_cursor_col := c\<rparr>) = idle s" "idle (s\<lparr>t_saved_cursor := sc\<rparr>) = idle s"
  "idle (s\<lparr>t_pending_home_clear_cut := b\<rparr>) = idle s"
  "idle (s\<lparr>t_requires_snapshot_redraw := b\<rparr>) = idle s"
  "idle (s\<lparr>t_scroll_top := tp\<rparr>) = idle s" "idle (s\<lparr>t_scroll_bottom := bt\<rparr>) = idle s"
  "idle (s\<lparr>t_current_style := st\<rparr>) = idle s" "idle (s\<lparr>t_lines := ls\<rparr>) = idle s"
  by (simp_all add: idle_def)

section \<open>Styles\<close>

lemma style_codes_small: "wf_style st \<Longrightarrow> list_all (\<lambda>n. n \<le> u16_max) (style_codes rf st)"
proof -
  assume wf: "wf_style st"
  have "list_all (\<lambda>n. n \<le> u16_max) (sgr_codes c bg)" if "wf_color bg c" for c bg
    using that by (cases c; cases bg) (auto simp: u16_max_def)
  with wf show ?thesis
    by (auto simp: style_codes_def wf_style_def u16_max_def split: option.splits)
qed

lemma style_codes_nonempty: "\<not> style_is_default st \<Longrightarrow> style_codes rf st \<noteq> []"
proof
  assume nd: "\<not> style_is_default st" and "style_codes rf st = []"
  then have "\<not> cs_bold st" "\<not> cs_faint st" "\<not> cs_italic st" "\<not> cs_underline st" "\<not> cs_blink st"
    "\<not> cs_inverse st" "\<not> cs_hidden st" "\<not> cs_strike st"
    "cs_foreground st = None" "cs_background st = None"
    by (auto simp: style_codes_def split: if_splits option.splits elim: sgr_codes.elims)
  then have "st = cell_style_default" by (cases st) (simp add: cell_style_default_def)
  with nd show False by (simp add: style_is_default_def)
qed

lemma dispatch_sgr:
  "ns \<noteq> [] \<Longrightarrow> dispatch_csi False (map Some ns) 109 s =
     Some (s\<lparr>t_current_style := apply_sgr_loop ns (t_current_style s)\<rparr>)"
  by (simp add: dispatch_csi_def Let_def apply_sgr_def comp_def)

lemma sgr_reset_apply:
  assumes "idle s"
  shows "screen_apply w (sgr_bytes rf cell_style_default) s = Some (s\<lparr>t_current_style := cell_style_default\<rparr>)"
proof -
  have "sgr_bytes rf cell_style_default = 27 # 91 # join_with 59 (map dec [0]) @ [109]"
    by (simp add: sgr_bytes_def ascii_def dec.simps style_is_default_def)
  then have "screen_apply w (sgr_bytes rf cell_style_default) s = dispatch_csi False (map Some [0]) 109 s"
    using csi_sequence [OF assms, of "[0]" 109 w] by simp
  then show ?thesis
    by (subst (asm) dispatch_sgr) (simp_all add: sgr_simple_def)
qed

lemma sgr_bytes_apply:
  assumes "idle s" "wf_style st" "rf \<or> t_current_style s = cell_style_default"
  shows "screen_apply w (sgr_bytes rf st) s = Some (s\<lparr>t_current_style := st\<rparr>)"
proof (cases "style_is_default st")
  case True
  then show ?thesis using sgr_reset_apply [OF assms(1)] by (simp add: style_is_default_def)
next
  case False
  have eq: "sgr_bytes rf st = 27 # 91 # join_with 59 (map dec (style_codes rf st)) @ [109]"
    using False by (simp add: sgr_bytes_def ascii_def)
  have "apply_sgr_loop (style_codes rf st) (t_current_style s) = st"
    using assms(2,3) style_codes_reset_apply [OF assms(2)] style_codes_default_apply [OF assms(2)]
    by (cases rf) auto
  then show ?thesis
    unfolding eq using csi_sequence [OF assms(1) style_codes_nonempty [OF False]
        style_codes_small [OF assms(2)], of 109 w] dispatch_sgr [OF style_codes_nonempty [OF False]]
    by simp
qed

section \<open>Modes\<close>

text \<open>What \<open>set_private_modes\<close> can store in the ordered set of mouse modes.\<close>

definition wf_modes :: "terminal_modes \<Rightarrow> bool" where
  "wf_modes m \<longleftrightarrow> sorted (tm_mouse_modes m) \<and> distinct (tm_mouse_modes m) \<and>
     list_all (\<lambda>c. c \<in> set mouse_mode_codes) (tm_mouse_modes m)"

abbreviation csi_touch :: "terminal_screen \<Rightarrow> terminal_screen" where
  "csi_touch s \<equiv> s\<lparr>t_requires_snapshot_redraw := True, t_pending_home_clear_cut := False\<rparr>"

lemma private_mode_seq:
  assumes "idle s" "n \<le> u16_max"
  shows "screen_apply w (27 # 91 # 63 # dec n @ [if e then 104 else 108]) s =
    Some (set_private_mode e n (csi_touch s))"
  using csi_private [OF assms, of "if e then 104 else 108" w]
  by (cases e) (simp_all add: dispatch_csi_def Let_def set_private_modes_def given_params_def)

lemma insert_mode_seq:
  assumes "idle s"
  shows "screen_apply w (27 # 91 # dec 4 @ [if e then 104 else 108]) s =
    Some ((csi_touch s)\<lparr>t_modes := (t_modes s)\<lparr>tm_insert := e\<rparr>\<rparr>)"
  using csi_sequence [OF assms, of "[4]" "if e then 104 else 108" w]
  by (cases e) (simp_all add: u16_max_def dispatch_csi_def Let_def set_public_modes_def
      set_public_mode_def given_params_def)

lemma set_mouse_mode:
  "m \<in> set mouse_mode_codes \<Longrightarrow>
   set_private_mode True m s =
     s\<lparr>t_modes := (t_modes s)\<lparr>tm_mouse_modes := insort_insert m (tm_mouse_modes (t_modes s))\<rparr>\<rparr>"
proof -
  assume m: "m \<in> set mouse_mode_codes"
  then have "m \<noteq> 1" "m \<noteq> 6" "m \<noteq> 7" "m \<noteq> 66" by (auto simp: mouse_mode_codes_def)
  with m show ?thesis unfolding set_private_mode_def by (simp only: if_True if_False refl simp_thms)
qed

lemma mouse_modes_seq:
  assumes "idle s" "t_requires_snapshot_redraw s" "\<not> t_pending_home_clear_cut s"
    "sorted (tm_mouse_modes (t_modes s) @ ms)" "distinct (tm_mouse_modes (t_modes s) @ ms)"
    "list_all (\<lambda>c. c \<in> set mouse_mode_codes) ms"
  shows "screen_apply w (concat (map (\<lambda>mode. 27 # ascii ''[?'' @ dec mode @ ascii ''h'') ms)) s =
    Some (s\<lparr>t_modes := (t_modes s)\<lparr>tm_mouse_modes := tm_mouse_modes (t_modes s) @ ms\<rparr>\<rparr>)"
  using assms
proof (induction ms arbitrary: s)
  case Nil
  then show ?case by simp
next
  case (Cons m ms)
  let ?old = "tm_mouse_modes (t_modes s)"
  have m: "m \<in> set mouse_mode_codes" "m \<le> u16_max"
    using Cons.prems(6) by (auto simp: mouse_mode_codes_def u16_max_def)
  have "\<forall>x \<in> set ?old. x < m"
    using Cons.prems(4,5) by (auto simp: sorted_append order.strict_iff_order)
  then have ins: "insort_insert m ?old = ?old @ [m]"
    by (auto simp: insort_insert_key_def intro!: sorted_insort_is_snoc)
       (use Cons.prems(4) in \<open>auto simp: sorted_append\<close>)
  have touch: "csi_touch s = s" using Cons.prems(2,3) by simp
  have step: "screen_apply w (27 # 91 # 63 # dec m @ [104]) s =
      Some (s\<lparr>t_modes := (t_modes s)\<lparr>tm_mouse_modes := ?old @ [m]\<rparr>\<rparr>)"
    using private_mode_seq [OF Cons.prems(1) m(2), of w True] m(1)
    by (simp only: touch set_mouse_mode ins if_True simp_thms)
  let ?s1 = "s\<lparr>t_modes := (t_modes s)\<lparr>tm_mouse_modes := ?old @ [m]\<rparr>\<rparr>"
  have "screen_apply w (concat (map (\<lambda>mode. 27 # ascii ''[?'' @ dec mode @ ascii ''h'') ms)) ?s1 =
      Some (?s1\<lparr>t_modes := (t_modes ?s1)\<lparr>tm_mouse_modes := tm_mouse_modes (t_modes ?s1) @ ms\<rparr>\<rparr>)"
    by (rule Cons.IH) (use Cons.prems in simp_all)
  moreover have "concat (map (\<lambda>mode. 27 # ascii ''[?'' @ dec mode @ ascii ''h'') (m # ms)) =
      (27 # 91 # 63 # dec m @ [104]) @ concat (map (\<lambda>mode. 27 # ascii ''[?'' @ dec mode @ ascii ''h'') ms)"
    by (simp add: ascii_def)
  ultimately show ?case
    by (simp only: screen_apply_append step) simp
qed

text \<open>
  Restoring modes on a screen with no mouse mode yet: exactly the printed modes, and the home
  position that mode 6 gives.
\<close>

lemma set_private_mode_simps:
  "set_private_mode e 7 s = s\<lparr>t_modes := (t_modes s)\<lparr>tm_auto_wrap := e\<rparr>\<rparr>"
  "set_private_mode e 1 s = s\<lparr>t_modes := (t_modes s)\<lparr>tm_application_cursor := e\<rparr>\<rparr>"
  "set_private_mode e 2004 s = s\<lparr>t_modes := (t_modes s)\<lparr>tm_bracketed_paste := e\<rparr>\<rparr>"
  "set_private_mode e 6 s = s\<lparr>t_modes := (t_modes s)\<lparr>tm_origin := e\<rparr>,
     t_cursor_row := (if e then min (t_scroll_top s) (t_rows s - 1) else 0), t_cursor_col := 0\<rparr>"
  by (simp_all add: set_private_mode_def mouse_mode_codes_def home_row_def)

lemma restore_bytes_apply:
  assumes "idle s" "wf_modes m" "tm_mouse_modes (t_modes s) = []"
  shows "screen_apply w (restore_bytes m) s =
    Some (s\<lparr>t_modes := m,
      t_cursor_row := (if tm_origin m then min (t_scroll_top s) (t_rows s - 1) else 0), t_cursor_col := 0,
      t_pending_home_clear_cut := False, t_requires_snapshot_redraw := True\<rparr>)"
proof -
  let ?mouse = "concat (map (\<lambda>mode. 27 # ascii ''[?'' @ dec mode @ ascii ''h'') (tm_mouse_modes m))"
  have bounds: "7 \<le> u16_max" "6 \<le> u16_max" "1 \<le> u16_max" "2004 \<le> u16_max" by (simp_all add: u16_max_def)
  have split: "restore_bytes m =
    (27 # 91 # 63 # dec 7 @ [if tm_auto_wrap m then 104 else 108]) @
    (27 # 91 # 63 # dec 6 @ [if tm_origin m then 104 else 108]) @
    (27 # 91 # dec 4 @ [if tm_insert m then 104 else 108]) @
    (27 # 91 # 63 # dec 1 @ [if tm_application_cursor m then 104 else 108]) @
    [27, if tm_application_keypad m then 61 else 62] @
    (27 # 91 # 63 # dec 2004 @ [if tm_bracketed_paste m then 104 else 108]) @ ?mouse"
    by (simp add: restore_bytes_def ascii_def dec.simps)
  define t where "t = s\<lparr>t_modes := m\<lparr>tm_mouse_modes := []\<rparr>,
    t_cursor_row := (if tm_origin m then min (t_scroll_top s) (t_rows s - 1) else 0), t_cursor_col := 0,
    t_pending_home_clear_cut := False, t_requires_snapshot_redraw := True\<rparr>"
  have "screen_apply w (restore_bytes m) s = screen_apply w ?mouse t"
    unfolding split t_def using assms(1,3)
    apply (simp only: screen_apply_append private_mode_seq [OF _ bounds(1)] private_mode_seq [OF _ bounds(2)]
      private_mode_seq [OF _ bounds(3)] private_mode_seq [OF _ bounds(4)] insert_mode_seq esc_keypad idle_fields
      set_private_mode_simps Option.bind.simps)
    apply (rule arg_cong [where f = "screen_apply w ?mouse"])
    by (cases s; cases m; cases "t_modes s") simp
  also have "\<dots> = Some (t\<lparr>t_modes := (t_modes t)\<lparr>tm_mouse_modes := tm_mouse_modes (t_modes t) @ tm_mouse_modes m\<rparr>\<rparr>)"
    by (rule mouse_modes_seq) (use assms in \<open>simp_all add: t_def wf_modes_def\<close>)
  also have "\<dots> = Some (s\<lparr>t_modes := m,
      t_cursor_row := (if tm_origin m then min (t_scroll_top s) (t_rows s - 1) else 0), t_cursor_col := 0,
      t_pending_home_clear_cut := False, t_requires_snapshot_redraw := True\<rparr>)"
    by (simp add: t_def)
  finally show ?thesis .
qed

section \<open>Scroll region and cursor\<close>

lemma scroll_region_seq:
  assumes "idle s" "tp < bt" "bt \<le> t_rows s" "t_rows s \<le> u16_max"
  shows "screen_apply w (scroll_region_bytes tp bt (t_rows s)) s =
    Some ((csi_touch s)\<lparr>t_scroll_top := tp, t_scroll_bottom := bt,
      t_cursor_row := (if tm_origin (t_modes s) then min tp (t_rows s - 1) else 0), t_cursor_col := 0\<rparr>)"
proof (cases "tp = 0 \<and> bt = t_rows s")
  case True
  then have "scroll_region_bytes tp bt (t_rows s) = [27, 91, 114]"
    by (simp add: scroll_region_bytes_def ascii_def)
  with True assms show ?thesis
    using csi_no_params [OF assms(1), of 114 w]
    by (simp add: dispatch_csi_def Let_def set_scroll_region_def one_based_param_def param_or_def
        home_row_def max_def)
next
  case False
  moreover have "max (min bt (t_rows s)) 1 = bt" using assms(2,3) by simp
  ultimately have "scroll_region_bytes tp bt (t_rows s) =
      27 # 91 # join_with 59 (map dec [tp + 1, bt]) @ [114]"
    by (auto simp: scroll_region_bytes_def ascii_def)
  with assms show ?thesis
    using csi_sequence [OF assms(1), of "[tp + 1, bt]" 114 w]
    by (simp add: dispatch_csi_def Let_def set_scroll_region_def one_based_param_def param_or_def
        home_row_def max_def)
qed

text \<open>Outside origin mode the printed position is absolute, so it is read back exactly.\<close>

lemma cursor_position_seq:
  assumes "idle s" "\<not> tm_origin (t_modes s)" "r < t_rows s" "c < t_cols s"
    "t_rows s \<le> u16_max" "t_cols s \<le> u16_max"
  shows "screen_apply w (27 # ascii ''['' @ dec (r + 1) @ ascii '';'' @ dec (c + 1) @ ascii ''H'') s =
    Some (s\<lparr>t_requires_snapshot_redraw := True, t_cursor_row := r, t_cursor_col := c,
      t_pending_home_clear_cut := (r = 0 \<and> c = 0)\<rparr>)"
  using csi_sequence [OF assms(1), of "[r + 1, c + 1]" 72 w] assms(2-)
  by (simp add: ascii_def dispatch_csi_def Let_def cursor_row_from_param_def one_based_param_def
      param_or_def)

lemma saved_cursor_seq:
  assumes "idle s" "\<not> tm_origin (t_modes s)" "0 < t_rows s" "0 < t_cols s"
    "t_rows s \<le> u16_max" "t_cols s \<le> u16_max"
  shows "screen_apply w (saved_cursor_restore_bytes (Some (r, c)) (t_cols s) (t_rows s)) s =
    Some (s\<lparr>t_requires_snapshot_redraw := True,
      t_cursor_row := min r (t_rows s - 1), t_cursor_col := min c (t_cols s - 1),
      t_pending_home_clear_cut := False,
      t_saved_cursor := Some (min r (t_rows s - 1), min c (t_cols s - 1))\<rparr>)"
proof -
  let ?r = "min r (t_rows s - 1)" and ?c = "min c (t_cols s - 1)"
  have lt: "?r < t_rows s" "?c < t_cols s" using assms(3,4) by auto
  have split: "saved_cursor_restore_bytes (Some (r, c)) (t_cols s) (t_rows s) =
      (27 # ascii ''['' @ dec (?r + 1) @ ascii '';'' @ dec (?c + 1) @ ascii ''H'') @ [27, 55]"
    by (simp add: saved_cursor_restore_bytes_def ascii_def)
  show ?thesis
    unfolding split screen_apply_append cursor_position_seq [OF assms(1,2) lt assms(5,6)]
    using esc_save_cursor [of "s\<lparr>t_requires_snapshot_redraw := True, t_cursor_row := ?r,
        t_cursor_col := ?c, t_pending_home_clear_cut := (?r = 0 \<and> ?c = 0)\<rparr>" w] assms(1)
    by (simp del: screen_apply_Cons)
qed

text \<open>The saved cursor a restored terminal ends with.\<close>

definition clamp_saved :: "usize \<Rightarrow> usize \<Rightarrow> (usize \<times> usize) option \<Rightarrow> (usize \<times> usize) option" where
  "clamp_saved rows cols sc = map_option (\<lambda>(r, c). (min r (rows - 1), min c (cols - 1))) sc"

lemma snapshot_tail_apply:
  assumes "idle s" "wf_modes m" "\<not> tm_origin m" "tm_mouse_modes (t_modes s) = []"
    "wf_style st" "t_current_style s = cell_style_default" "t_saved_cursor s = None"
    "tp < bt" "bt \<le> t_rows s" "t_rows s \<le> u16_max" "0 < t_cols s" "t_cols s \<le> u16_max"
    "row < t_rows s"
  shows "screen_apply w (snapshot_tail_bytes (t_rows s) (t_cols s) row col sc st m tp bt) s =
    Some (s\<lparr>t_modes := m, t_scroll_top := tp, t_scroll_bottom := bt,
      t_saved_cursor := clamp_saved (t_rows s) (t_cols s) sc, t_requires_snapshot_redraw := True,
      t_cursor_row := row, t_cursor_col := min col (t_cols s - 1),
      t_pending_home_clear_cut := (row = 0 \<and> min col (t_cols s - 1) = 0),
      t_current_style := st\<rparr>)"
proof -
  define s1 where "s1 = s\<lparr>t_modes := m, t_cursor_row := 0, t_cursor_col := 0,
      t_pending_home_clear_cut := False, t_requires_snapshot_redraw := True\<rparr>"
  have a: "screen_apply w (restore_bytes m) s = Some s1"
    using restore_bytes_apply [OF assms(1,2,4), of w] assms(3) by (simp add: s1_def)
  define s2 where "s2 = s1\<lparr>t_scroll_top := tp, t_scroll_bottom := bt\<rparr>"
  have b: "screen_apply w (scroll_region_bytes tp bt (t_rows s)) s1 = Some s2"
    using scroll_region_seq [of s1 tp bt w] assms by (simp add: s1_def s2_def)
  obtain s3 where c: "screen_apply w (saved_cursor_restore_bytes sc (t_cols s) (t_rows s)) s2 = Some s3"
    and s3: "idle s3" "\<not> tm_origin (t_modes s3)" "t_rows s3 = t_rows s" "t_cols s3 = t_cols s"
      "t_current_style s3 = cell_style_default"
    and eq: "s3\<lparr>t_requires_snapshot_redraw := True, t_cursor_row := R, t_cursor_col := C,
        t_pending_home_clear_cut := P\<rparr> =
      s2\<lparr>t_saved_cursor := clamp_saved (t_rows s) (t_cols s) sc, t_requires_snapshot_redraw := True,
        t_cursor_row := R, t_cursor_col := C, t_pending_home_clear_cut := P\<rparr>" for R C P
  proof (cases sc)
    case None
    then show ?thesis using assms that [of s2]
      by (simp add: saved_cursor_restore_bytes_def s1_def s2_def clamp_saved_def)
  next
    case (Some rc)
    then show ?thesis
      using assms that saved_cursor_seq [of s2 w "fst rc" "snd rc"]
      by (cases rc) (simp add: s1_def s2_def clamp_saved_def)
  qed
  let ?c = "min col (t_cols s - 1)"
  let ?s4 = "s3\<lparr>t_requires_snapshot_redraw := True, t_cursor_row := row, t_cursor_col := ?c,
        t_pending_home_clear_cut := (row = 0 \<and> ?c = 0)\<rparr>"
  have d: "screen_apply w (cursor_position_bytes row col (t_cols s)) s3 = Some ?s4"
    unfolding cursor_position_bytes_def
    by (rule cursor_position_seq) (use assms s3 in auto)
  have e: "screen_apply w (if \<not> style_is_default st then sgr_bytes False st else []) ?s4 =
      Some (?s4\<lparr>t_current_style := st\<rparr>)"
    using sgr_bytes_apply [of ?s4 st False w] s3 assms(5) by (auto simp: style_is_default_def)
  show ?thesis
    unfolding snapshot_tail_bytes_def screen_apply_append a Option.bind.simps b c d e
    unfolding eq by (cases s) (simp add: s1_def s2_def)
qed

section \<open>Characters\<close>

text \<open>The values of a \<open>char\<close>: code points that are not surrogates.\<close>

definition is_scalar :: "uchar \<Rightarrow> bool" where
  "is_scalar c \<longleftrightarrow> c < 1114112 \<and> \<not> (55296 \<le> c \<and> c \<le> 57343)"

lemma base64_2: "(c :: nat) div 64 * 64 + c mod 64 = c"
  by simp

lemma base64_3: "(c :: nat) div 4096 * 4096 + c div 64 mod 64 * 64 + c mod 64 = c"
proof -
  have "c div 4096 = c div 64 div 64" by (simp add: div_mult2_eq [symmetric])
  then show ?thesis using base64_2 [of c] base64_2 [of "c div 64"] by linarith
qed

lemma base64_4:
  "(c :: nat) div 262144 * 262144 + c div 4096 mod 64 * 4096 + c div 64 mod 64 * 64 + c mod 64 = c"
proof -
  have "c div 262144 = c div 4096 div 64" by (simp add: div_mult2_eq [symmetric])
  then show ?thesis using base64_3 [of c] base64_2 [of "c div 4096"] by linarith
qed

lemma continuation_mod [simp]: "is_continuation (128 + n mod 64)"
  using mod_less_divisor [of 64 n] by (simp add: is_continuation_def less_Suc_eq_le [symmetric])

lemma second_ok_cases:
  "d < 16 \<Longrightarrow> m < 64 \<Longrightarrow> (d = 0 \<Longrightarrow> 32 \<le> m) \<Longrightarrow> (d = 13 \<Longrightarrow> m < 32) \<Longrightarrow>
   utf8_second_ok (224 + d) (128 + m)"
  "d < 5 \<Longrightarrow> m < 64 \<Longrightarrow> (d = 0 \<Longrightarrow> 16 \<le> m) \<Longrightarrow> (d = 4 \<Longrightarrow> m < 16) \<Longrightarrow>
   utf8_second_ok (240 + d) (128 + m)"
  unfolding utf8_second_ok_def is_continuation_def by (simp_all split: if_splits) linarith+

lemma second_ok_3:
  assumes "is_scalar c" "2048 \<le> c" "c < 65536"
  shows "utf8_second_ok (224 + c div 4096) (128 + c div 64 mod 64)"
proof -
  define q where "q = c div 64"
  have q: "32 \<le> q" "q < 1024" "c div 4096 = q div 64"
    using assms by (auto simp: q_def div_mult2_eq [symmetric])
  have sur: "\<not> (864 \<le> q \<and> q \<le> 895)"
    using assms(1) unfolding is_scalar_def q_def by linarith
  have "q div 64 = 0 \<Longrightarrow> 32 \<le> q mod 64" using q by simp
  moreover have "q div 64 = 13 \<Longrightarrow> q mod 64 < 32"
    using sur base64_2 [of q] mod_less_divisor [of 64 q] by linarith
  moreover have "q mod 64 < 64" by simp
  moreover have "q div 64 < 16" using q by linarith
  ultimately show ?thesis
    unfolding q(3) q_def [symmetric] by (intro second_ok_cases(1)) simp_all
qed

lemma second_ok_4:
  assumes "is_scalar c" "65536 \<le> c"
  shows "utf8_second_ok (240 + c div 262144) (128 + c div 4096 mod 64)"
proof -
  define q where "q = c div 4096"
  have q: "16 \<le> q" "q < 272" "c div 262144 = q div 64"
    using assms by (auto simp: is_scalar_def q_def div_mult2_eq [symmetric])
  have "q div 64 = 0 \<Longrightarrow> 16 \<le> q mod 64" using q by simp
  moreover have "q div 64 = 4 \<Longrightarrow> q mod 64 < 16" using q(2) base64_2 [of q] by linarith
  moreover have "q mod 64 < 64" by simp
  moreover have "q div 64 < 5" using q(2) by linarith
  ultimately show ?thesis
    unfolding q(3) q_def [symmetric] by (intro second_ok_cases(2)) simp_all
qed

text \<open>Decoding inverts encoding, and no proper prefix of an encoding decodes.\<close>

lemma utf8_roundtrip:
  assumes "is_scalar c"
  shows "from_utf8 (encode_utf8 c @ bs) = utf8_cons c (from_utf8 bs)"
proof -
  consider "c < 128" | "128 \<le> c" "c < 2048" | "2048 \<le> c" "c < 65536" | "65536 \<le> c" by linarith
  then show ?thesis
  proof cases
    case 1
    then show ?thesis by (simp add: encode_utf8_def)
  next
    case 2
    then have "2 \<le> c div 64" "c div 64 < 32" by auto
    with 2 show ?thesis by (simp add: encode_utf8_def)
  next
    case 3
    then have "c div 4096 < 16" by auto
    with 3 second_ok_3 [OF assms 3] base64_3 [of c] show ?thesis by (simp add: encode_utf8_def)
  next
    case 4
    with assms have "c div 262144 < 5" unfolding is_scalar_def by linarith
    with 4 second_ok_4 [OF assms 4] base64_4 [of c] show ?thesis by (simp add: encode_utf8_def)
  qed
qed

text \<open>A printed character arrives, byte by byte, as that character.\<close>

lemma utf8_more:
  assumes "t_parser s = Ground" "128 \<le> b" "from_utf8 (p @ [b]) = Utf8Incomplete" "length p < 4"
  shows "apply_byte w b (s\<lparr>t_pending_home_clear_cut := h, t_utf8_pending := p\<rparr>) =
    Some (s\<lparr>t_pending_home_clear_cut := False, t_utf8_pending := p @ [b]\<rparr>)"
  using assms by (cases s) (simp add: apply_byte_def apply_ground_byte_def Let_def push_utf8_byte_def)

lemma utf8_done:
  assumes "t_parser s = Ground" "128 \<le> b" "from_utf8 (p @ [b]) = Utf8Ok [c]"
  shows "apply_byte w b (s\<lparr>t_pending_home_clear_cut := h, t_utf8_pending := p\<rparr>) =
    print_char w c (s\<lparr>t_pending_home_clear_cut := False, t_utf8_pending := []\<rparr>)"
  using assms
  by (cases s) (simp add: apply_byte_def apply_ground_byte_def Let_def push_utf8_byte_def
      split: option.splits)

lemma utf8_char_apply:
  assumes "idle s" "is_scalar c" "32 \<le> c" "c \<noteq> 127"
  shows "screen_apply w (encode_utf8 c) s =
    print_char w c (s\<lparr>t_pending_home_clear_cut := False\<rparr>)"
proof -
  obtain h where s: "s = s\<lparr>t_pending_home_clear_cut := h, t_utf8_pending := []\<rparr>"
    using assms(1) by (cases s) (simp add: idle_def)
  have g: "t_parser s = Ground"
    "s\<lparr>t_parser := Ground, t_pending_home_clear_cut := False\<rparr> = s\<lparr>t_pending_home_clear_cut := False\<rparr>"
    and f: "s\<lparr>t_pending_home_clear_cut := False, t_utf8_pending := []\<rparr> = s\<lparr>t_pending_home_clear_cut := False\<rparr>"
    using assms(1) by (cases s, simp add: idle_def)+
  note rt = utf8_roundtrip [OF assms(2), of "[]", unfolded encode_utf8_def]
  note more = utf8_more [OF g(1), where w = w] and fin = utf8_done [OF g(1), where w = w and c = c]
  consider "c < 128" | "128 \<le> c" "c < 2048" | "2048 \<le> c" "c < 65536" | "65536 \<le> c" by linarith
  then show ?thesis
  proof cases
    case 1
    with assms g(1) show ?thesis
      by (simp add: g(2) encode_utf8_def idle_def apply_byte_def apply_ground_byte_def Let_def
          flush_invalid_utf8_def split: option.splits)
  next
    case 2
    then have "c div 64 < 32" "2 \<le> c div 64" by auto
    with 2 rt show ?thesis
      by (subst s) (simp add: encode_utf8_def more fin f utf8_cons_def split: option.splits)
  next
    case 3
    then have "c div 4096 < 16" by auto
    with 3 rt second_ok_3 [OF assms(2) 3] show ?thesis
      by (subst s) (simp add: encode_utf8_def more fin f utf8_cons_def split: option.splits)
  next
    case 4
    with assms(2) have "c div 262144 < 5" unfolding is_scalar_def by linarith
    with 4 rt second_ok_4 [OF assms(2) 4] show ?thesis
      by (subst s) (simp add: encode_utf8_def more fin f utf8_cons_def split: option.splits)
  qed
qed

end
