(* ===== verification/Screen_Restore.thy ===== *)
theory Screen_Restore
  imports Screen_Snapshot
begin

text \<open>
  The snapshot as a whole: fed to a fresh emulator of the same size, \<open>snapshot_bytes\<close> rebuilds the
  cells, styles, cursor, modes, scroll region and saved cursor. The proof follows a pen that writes
  the printed rows one character group at a time, and the places where the code does not restore
  the screen are stated as evaluated examples.
\<close>

section \<open>Rows that can be printed\<close>

text \<open>The cells one character occupies: the character and its continuation cells.\<close>

definition char_group :: "(uchar \<Rightarrow> usize option) \<Rightarrow> uchar \<Rightarrow> cell_style \<Rightarrow> terminal_cell list" where
  "char_group w c st =
     \<lparr>tc_character = c, tc_style = st, tc_wide_continuation = False\<rparr> #
     replicate (terminal_character_width w c - 1) (wide_continuation st)"

text \<open>
  A row is printable when it is a sequence of such groups, as \<open>print_char\<close> writes them: no half of a
  wide character was overwritten, no control characters, styles the SGR interpreter can produce.
\<close>

fun row_ok :: "(uchar \<Rightarrow> usize option) \<Rightarrow> terminal_cell list \<Rightarrow> bool" where
  "row_ok w [] \<longleftrightarrow> True"
| "row_ok w (c # cs) \<longleftrightarrow>
     (let k = terminal_character_width w (tc_character c) - 1 in
      \<not> tc_wide_continuation c \<and> wf_style (tc_style c) \<and>
      is_scalar (tc_character c) \<and> 32 \<le> tc_character c \<and> tc_character c \<noteq> 127 \<and>
      take k cs = replicate k (wide_continuation (tc_style c)) \<and> row_ok w (drop k cs))"

lemma row_ok_ConsE:
  assumes "row_ok w (c # cs)"
  obtains rest where "c # cs = char_group w (tc_character c) (tc_style c) @ rest"
    "cs = replicate (terminal_character_width w (tc_character c) - 1) (wide_continuation (tc_style c)) @ rest"
    "row_ok w rest"
    "wf_style (tc_style c)" "is_scalar (tc_character c)" "32 \<le> tc_character c" "tc_character c \<noteq> 127"
    "\<not> tc_wide_continuation c"
proof -
  let ?k = "terminal_character_width w (tc_character c) - 1"
  from assms have f: "take ?k cs = replicate ?k (wide_continuation (tc_style c))" "\<not> tc_wide_continuation c"
    "row_ok w (drop ?k cs)" "wf_style (tc_style c)" "is_scalar (tc_character c)" "32 \<le> tc_character c"
    "tc_character c \<noteq> 127"
    by (simp_all add: Let_def)
  then have cs: "cs = replicate ?k (wide_continuation (tc_style c)) @ drop ?k cs"
    by (metis append_take_drop_id)
  moreover have "c = \<lparr>tc_character = tc_character c, tc_style = tc_style c, tc_wide_continuation = False\<rparr>"
    using f(2) by (cases c) simp
  ultimately have "c # cs = char_group w (tc_character c) (tc_style c) @ drop ?k cs"
    by (simp add: char_group_def)
  then show ?thesis by (rule that [OF _ cs f(3-7,2)])
qed

section \<open>The pen\<close>

text \<open>
  A screen that shows the finished rows \<open>dn\<close>, then the row under the cursor with the cells \<open>part\<close>
  written so far, then blank rows.
\<close>

definition pen :: "terminal_screen \<Rightarrow> terminal_cell list list \<Rightarrow> terminal_cell list \<Rightarrow> bool" where
  "pen s dn part \<longleftrightarrow>
     idle s \<and> wf_screen s \<and> t_normal_screen s = None \<and> t_modes s = terminal_modes_default \<and>
     t_scroll_top s = 0 \<and> t_scroll_bottom s = t_rows s \<and> t_saved_cursor s = None \<and>
     length part \<le> t_cols s \<and> t_cursor_col s = length part \<and>
     length (t_lines s) + t_cursor_row s = length dn + t_rows s \<and>
     length (t_lines s) = max (t_rows s) (length dn + 1) \<and>
     map tl_cells (t_lines s) =
       dn @ [part @ replicate (t_cols s - length part) cell_blank] @
       replicate (length (t_lines s) - length dn - 1) (replicate (t_cols s) cell_blank)"

lemma pen_fields [simp]:
  "pen (s\<lparr>t_pending_home_clear_cut := b\<rparr>) dn part = pen s dn part"
  "pen (s\<lparr>t_current_style := st\<rparr>) dn part = pen s dn part"
  by (simp_all add: pen_def visible_start_def)

lemma pen_idle: "pen s dn part \<Longrightarrow> idle s"
  by (simp add: pen_def)

lemma pen_lt: "pen s dn part \<Longrightarrow> length dn < length (t_lines s)"
  by (simp add: pen_def)

lemma pen_at: "pen s dn part \<Longrightarrow> visible_start s + t_cursor_row s = length dn"
  by (auto simp: pen_def visible_start_def wf_screen_def)

lemma pen_line:
  assumes "pen s dn part"
  shows "tl_cells (t_lines s ! length dn) = part @ replicate (t_cols s - length part) cell_blank"
proof -
  have "map tl_cells (t_lines s) ! length dn = part @ replicate (t_cols s - length part) cell_blank"
    using assms by (simp add: pen_def nth_append)
  then show ?thesis using pen_lt [OF assms] by simp
qed

subsection \<open>One character\<close>

lemma continuation_cells:
  assumes "tl_cells l = part @ c # replicate n cell_blank" "k \<le> n"
  shows "\<exists>l'. for_each (\<lambda>offset l.
      if length part + offset < length (tl_cells l)
      then set_cell (length part + offset) (wide_continuation (tc_style (tl_cells l ! length part))) l
      else Some l) [1..<Suc k] l = Some l' \<and>
    tl_cells l' = part @ c # replicate k (wide_continuation (tc_style c)) @ replicate (n - k) cell_blank"
  using assms(2)
proof (induction k)
  case 0
  then show ?case using assms by simp
next
  case (Suc k)
  then obtain l' where l': "for_each (\<lambda>offset l.
      if length part + offset < length (tl_cells l)
      then set_cell (length part + offset) (wide_continuation (tc_style (tl_cells l ! length part))) l
      else Some l) [1..<Suc k] l = Some l'"
    and cells: "tl_cells l' = part @ c # replicate k (wide_continuation (tc_style c)) @ replicate (n - k) cell_blank"
    by auto
  from Suc.prems have nk: "n - k = Suc (n - Suc k)" by simp
  have "tl_cells l' ! length part = c" using cells by simp
  moreover have "(tl_cells l')[length part + Suc k := x] =
      part @ c # replicate k (wide_continuation (tc_style c)) @ x # replicate (n - Suc k) cell_blank" for x
    unfolding cells nk by (simp add: list_update_append)
  moreover have "length part + Suc k < length (tl_cells l')" unfolding cells nk by simp
  ultimately have "tl_cells (l'\<lparr>tl_cells := (tl_cells l')[length part + Suc k := wide_continuation (tc_style c)]\<rparr>) =
      part @ c # replicate (Suc k) (wide_continuation (tc_style c)) @ replicate (n - Suc k) cell_blank"
    by (simp add: replicate_append_same)
  moreover have "[1..<Suc (Suc k)] = [1..<Suc k] @ [Suc k]" by simp
  ultimately show ?case
    using l' \<open>length part + Suc k < length (tl_cells l')\<close> \<open>tl_cells l' ! length part = c\<close>
    by (simp only: for_each_append) (simp add: set_cell_def)
qed

lemma write_char_blank:
  assumes "tl_cells l = part @ replicate n cell_blank" "1 \<le> k" "k \<le> n"
  shows "\<exists>l'. write_char_cells ch k st False (length part) l = Some l' \<and>
    tl_cells l' = part @ (\<lparr>tc_character = ch, tc_style = st, tc_wide_continuation = False\<rparr> #
      replicate (k - 1) (wide_continuation st)) @ replicate (n - k) cell_blank"
proof -
  let ?c = "\<lparr>tc_character = ch, tc_style = st, tc_wide_continuation = False\<rparr>"
  obtain m where n: "n = Suc m" using assms by (cases n) auto
  obtain j where k: "k = Suc j" using assms by (cases k) auto
  let ?l3 = "(touch_line l)\<lparr>tl_cells := (tl_cells l)[length part := ?c]\<rparr>"
  have l3: "tl_cells ?l3 = part @ ?c # replicate m cell_blank"
    using assms(1) n by (simp add: list_update_append)
  have "set_cell (length part) ?c (touch_line l) = Some ?l3"
    using assms(1) n by (simp add: set_cell_def)
  then show ?thesis
    using continuation_cells [OF l3, of j] assms(3) n k by (simp add: write_char_cells_def)
qed

text \<open>What printing keeps besides the pen.\<close>

definition same_frame :: "terminal_screen \<Rightarrow> terminal_screen \<Rightarrow> bool" where
  "same_frame s t \<longleftrightarrow> t_rows t = t_rows s \<and> t_cols t = t_cols s \<and>
     t_max_cached_lines t = t_max_cached_lines s"

lemma pen_print_char:
  assumes pen: "pen s dn part"
    and fits: "length part + terminal_character_width w ch \<le> t_cols s"
  shows "\<exists>s'. print_char w ch s = Some s' \<and> pen s' dn (part @ char_group w ch (t_current_style s)) \<and>
    t_current_style s' = t_current_style s \<and> same_frame s s' \<and> length (t_lines s') = length (t_lines s)"
proof -
  let ?k = "terminal_character_width w ch" and ?i = "length dn"
  have k: "1 \<le> ?k" by (rule terminal_character_width_pos)
  note i = pen_lt [OF pen] and line = pen_line [OF pen]
  obtain l' where l': "write_char_cells ch ?k (t_current_style s) False (length part) (t_lines s ! ?i) = Some l'"
    and cells: "tl_cells l' = part @ char_group w ch (t_current_style s) @
      replicate (t_cols s - length part - ?k) cell_blank"
    using write_char_blank [OF line k _, of ch "t_current_style s"] fits
    unfolding char_group_def by (metis add_le_imp_le_diff add.commute)
  have wrap: "wrap_for_width ?k s = Some s"
    using pen k fits by (simp add: wrap_for_width_def pen_def)
  have row: "visible_start s + min (t_cursor_row s) (t_rows s - 1) = ?i"
    using pen_at [OF pen] pen by (auto simp: pen_def wf_screen_def wf_rest_def)
  let ?s' = "s\<lparr>t_lines := (t_lines s)[?i := l'], t_cursor_col := length part + ?k\<rparr>"
  have modes: "tm_auto_wrap (t_modes s)" "\<not> tm_insert (t_modes s)" "t_cursor_col s = length part"
    using pen by (simp_all add: pen_def terminal_modes_default_def)
  have step: "print_char w ch s = Some ?s'"
    using k l' i modes
    by (simp add: print_char_def Let_def wrap visible_line_mut_def row [simplified])
  have "length (char_group w ch (t_current_style s)) = ?k" using k by (simp add: char_group_def)
  moreover have "map tl_cells ((t_lines s)[?i := l']) =
      dn @ [tl_cells l'] @ replicate (length (t_lines s) - ?i - 1) (replicate (t_cols s) cell_blank)"
    using pen by (simp add: map_update pen_def list_update_append)
  moreover have "wf_screen ?s'"
    using print_char_ok [of s w ch] pen step by (simp add: pen_def)
  ultimately have "pen ?s' dn (part @ char_group w ch (t_current_style s))"
    using pen fits cells by (simp add: pen_def visible_start_def idle_def)
  with step show ?thesis by (simp add: same_frame_def)
qed

subsection \<open>One row\<close>

lemma row_ansi_split:
  "fold row_ansi_step cells (out, act) =
     (out @ fst (fold row_ansi_step cells ([], act)), snd (fold row_ansi_step cells ([], act)))"
proof (induction cells arbitrary: out act)
  case (Cons c cs)
  obtain o1 a1 where o1: "row_ansi_step c ([], act) = (o1, a1)" by fastforce
  then have "row_ansi_step c (out, act) = (out @ o1, a1)"
    by (auto simp: row_ansi_step_def Let_def split: if_splits)
  with o1 show ?case using Cons [of "out @ o1" a1] Cons [of o1 a1] by simp
qed simp

lemma row_ansi_continuations:
  "(row_ansi_step (wide_continuation st) ^^ n) x = x"
  by (induction n) (simp_all add: row_ansi_step_def wide_continuation_def split: prod.splits)

lemma pen_row:
  assumes "row_ok w cells" "pen s dn part" "length part + length cells \<le> t_cols s"
    "fold row_ansi_step cells ([], t_current_style s) = (out, act)"
  shows "\<exists>s'. screen_apply w out s = Some s' \<and> pen s' dn (part @ cells) \<and>
    t_current_style s' = act \<and> same_frame s s' \<and> length (t_lines s') = length (t_lines s)"
  using assms
proof (induction "length cells" arbitrary: cells s part out rule: less_induct)
  case less
  show ?case
  proof (cases cells)
    case Nil
    with less.prems show ?thesis by (simp add: same_frame_def)
  next
    case (Cons c cs)
    let ?ch = "tc_character c" and ?st = "tc_style c"
    from less.prems(1) have "row_ok w (c # cs)" by (simp only: Cons)
    then obtain rest where rest:
      "c # cs = char_group w ?ch ?st @ rest"
      "cs = replicate (terminal_character_width w ?ch - 1) (wide_continuation ?st) @ rest"
      "row_ok w rest" "wf_style ?st" "is_scalar ?ch" "32 \<le> ?ch" "?ch \<noteq> 127" "\<not> tc_wide_continuation c"
      by (rule row_ok_ConsE)
    let ?sgr = "if ?st \<noteq> t_current_style s then sgr_bytes (\<not> style_is_default (t_current_style s)) ?st else []"
    define s1 where "s1 = s\<lparr>t_current_style := ?st, t_pending_home_clear_cut := False\<rparr>"
    have sgr: "screen_apply w ?sgr s = Some (s\<lparr>t_current_style := ?st\<rparr>)"
      using sgr_bytes_apply [OF pen_idle [OF less.prems(2)] rest(4), of "\<not> style_is_default (t_current_style s)" w]
      by (auto simp: style_is_default_def)
    have chr: "screen_apply w (encode_utf8 ?ch) (s\<lparr>t_current_style := ?st\<rparr>) = print_char w ?ch s1"
      using utf8_char_apply [OF _ rest(5-7), of "s\<lparr>t_current_style := ?st\<rparr>" w] pen_idle [OF less.prems(2)]
      by (simp add: s1_def)
    have width: "length (char_group w ?ch ?st) = terminal_character_width w ?ch"
      using terminal_character_width_pos [of w ?ch] by (simp add: char_group_def)
    have pen1: "pen s1 dn part" and st1: "t_current_style s1 = ?st" and cols1: "t_cols s1 = t_cols s"
      and rows1: "same_frame s s1" "length (t_lines s1) = length (t_lines s)"
      using less.prems(2) by (simp_all add: s1_def same_frame_def)
    have len: "length cells = terminal_character_width w ?ch + length rest"
      using Cons rest(1) width by (metis length_append)
    obtain s2 where s2: "print_char w ?ch s1 = Some s2" "pen s2 dn (part @ char_group w ?ch ?st)"
      "t_current_style s2 = ?st" "same_frame s1 s2" "length (t_lines s2) = length (t_lines s1)"
      using pen_print_char [OF pen1, of w ?ch] less.prems(3) len st1 cols1 by auto
    obtain out2 where out2: "fold row_ansi_step rest ([], ?st) = (out2, act)" "out = ?sgr @ encode_utf8 ?ch @ out2"
    proof -
      have "row_ansi_step c ([], t_current_style s) = (?sgr @ encode_utf8 ?ch, ?st)"
        using rest(8) by (simp add: row_ansi_step_def Let_def)
      with less.prems(4) Cons rest(2) have "fold row_ansi_step rest (?sgr @ encode_utf8 ?ch, ?st) = (out, act)"
        by (simp add: row_ansi_continuations del: if_split)
      then show ?thesis
        using that row_ansi_split [of rest "?sgr @ encode_utf8 ?ch" ?st]
        by (cases "fold row_ansi_step rest ([], ?st)") simp
    qed
    have "\<exists>s'. screen_apply w out2 s2 = Some s' \<and> pen s' dn ((part @ char_group w ?ch ?st) @ rest) \<and>
        t_current_style s' = act \<and> same_frame s2 s' \<and> length (t_lines s') = length (t_lines s2)"
      by (rule less.hyps)
         (use len width terminal_character_width_pos [of w ?ch] rest(3) s2 less.prems(3) cols1 out2 in
           \<open>simp_all add: same_frame_def\<close>)
    moreover have "screen_apply w out s = screen_apply w out2 s2"
      by (simp add: out2(2) screen_apply_append sgr chr s2(1) del: if_split)
    moreover have "(part @ char_group w ?ch ?st) @ rest = part @ cells" using Cons rest(1) by simp
    ultimately show ?thesis using s2 rows1 by (auto simp: same_frame_def)
  qed
qed

text \<open>The cells a printed row leaves out are blanks in the default style.\<close>

lemma display_width_bound: "display_width l \<le> length (tl_cells l)"
  by (auto simp: display_width_def Suc_le_eq dest: rposition_Some split: option.splits)

lemma display_width_rest:
  "tl_cells l = take (display_width l) (tl_cells l) @
     replicate (length (tl_cells l) - display_width l) cell_blank"
proof -
  have "tl_cells l ! j = cell_blank" if "display_width l \<le> j" "j < length (tl_cells l)" for j
  proof -
    let ?p = "\<lambda>c. tc_character c \<noteq> 32 \<or> \<not> style_is_default (tc_style c) \<or> tc_wide_continuation c"
    have "\<not> ?p (tl_cells l ! j)"
      using that rposition_Some [of ?p "tl_cells l"]
      by (auto simp: display_width_def rposition_None split: option.splits)
    then show ?thesis by (cases "tl_cells l ! j") (simp add: cell_blank_def style_is_default_def)
  qed
  then have "drop (display_width l) (tl_cells l) = replicate (length (tl_cells l) - display_width l) cell_blank"
    by (intro nth_equalityI) simp_all
  then show ?thesis by (metis append_take_drop_id)
qed

text \<open>A printable line.\<close>

definition line_ok :: "(uchar \<Rightarrow> usize option) \<Rightarrow> terminal_line \<Rightarrow> bool" where
  "line_ok w l \<longleftrightarrow> row_ok w (take (display_width l) (tl_cells l))"

lemma pen_line_bytes:
  assumes "line_ok w l" "length (tl_cells l) = t_cols s" "pen s dn []" "t_current_style s = cell_style_default"
  shows "\<exists>s' part. screen_apply w (row_ansi_bytes l) s = Some s' \<and> pen s' dn part \<and>
    part @ replicate (t_cols s - length part) cell_blank = tl_cells l \<and>
    t_current_style s' = cell_style_default \<and> same_frame s s' \<and> length (t_lines s') = length (t_lines s)"
proof -
  let ?part = "take (display_width l) (tl_cells l)"
  have len: "length ?part = display_width l" using display_width_bound [of l] by simp
  have whole: "?part @ replicate (t_cols s - length ?part) cell_blank = tl_cells l"
    using display_width_rest [of l] assms(2) len by simp
  obtain out act where fold: "fold row_ansi_step ?part ([], cell_style_default) = (out, act)" by fastforce
  obtain s1 where s1: "screen_apply w out s = Some s1" "pen s1 dn ?part" "t_current_style s1 = act"
    "same_frame s s1" "length (t_lines s1) = length (t_lines s)"
    using pen_row [of w ?part s dn "[]" out act] assms fold display_width_bound [of l]
    by (auto simp: line_ok_def)
  have bytes: "row_ansi_bytes l = out @ (if \<not> style_is_default act then sgr_bytes False cell_style_default else [])"
    using fold by (auto simp: row_ansi_bytes_def Let_def style_is_default_def)
  have reset: "screen_apply w (if \<not> style_is_default act then sgr_bytes False cell_style_default else []) s1 =
      Some (s1\<lparr>t_current_style := cell_style_default\<rparr>)"
  proof (cases "style_is_default act")
    case True
    then show ?thesis using s1(3) by (simp add: style_is_default_def)
  next
    case False
    then show ?thesis using sgr_reset_apply [OF pen_idle [OF s1(2)]] by simp
  qed
  show ?thesis
    using s1 whole by (intro exI [of _ "s1\<lparr>t_current_style := cell_style_default\<rparr>"] exI [of _ ?part])
      (simp add: bytes screen_apply_append reset same_frame_def del: if_split)
qed

subsection \<open>A new line\<close>

lemma carriage_return_line_feed:
  assumes "idle s"
  shows "screen_apply w [13, 10] s =
    map_option (\<lambda>s1. s1\<lparr>t_cursor_col := 0\<rparr>)
      (line_feed (s\<lparr>t_cursor_col := 0, t_pending_home_clear_cut := False\<rparr>))"
proof -
  have "s\<lparr>t_parser := Ground\<rparr> = s" using assms by (simp add: idle_def)
  with assms show ?thesis
    by (cases s) (simp add: idle_def apply_byte_def apply_ground_byte_def Let_def flush_invalid_utf8_def
        map_option_case split: option.splits)
qed

lemma pen_newline:
  assumes pen: "pen s dn part" and st: "t_current_style s = cell_style_default"
    and room: "length dn + 2 \<le> t_max_cached_lines s"
  shows "\<exists>s'. screen_apply w [13, 10] s = Some s' \<and>
    pen s' (dn @ [part @ replicate (t_cols s - length part) cell_blank]) [] \<and>
    t_current_style s' = cell_style_default \<and> same_frame s s'"
proof -
  let ?row = "part @ replicate (t_cols s - length part) cell_blank"
  let ?blank = "replicate (t_cols s) cell_blank"
  let ?s0 = "s\<lparr>t_cursor_col := 0, t_pending_home_clear_cut := False\<rparr>"
  have lines: "map tl_cells (t_lines s) =
      dn @ [?row] @ replicate (length (t_lines s) - length dn - 1) ?blank"
    and at: "visible_start s + t_cursor_row s = length dn" "t_cursor_row s < t_rows s"
    and len: "length (t_lines s) = max (t_rows s) (length dn + 1)"
    and full: "t_scroll_top s = 0" "t_scroll_bottom s = t_rows s" "t_normal_screen s = None"
    and wf: "wf_screen s"
    using pen_at [OF pen] pen by (auto simp: pen_def wf_screen_def wf_rest_def)
  have wf0: "wf_screen ?s0" using wf by simp
  note crlf = carriage_return_line_feed [OF pen_idle [OF pen], of w]
  show ?thesis
  proof (cases "t_cursor_row s + 1 < t_rows s")
    case True
    let ?i = "length dn + 1"
    have L: "length (t_lines s) = t_rows s" "?i < t_rows s"
      using True at(1) len by (auto simp: visible_start_def max_def split: if_splits)
    let ?l = "touch_line (t_lines s ! ?i)"
    let ?s1 = "?s0\<lparr>t_cursor_row := t_cursor_row s + 1, t_lines := (t_lines s)[?i := ?l]\<rparr>"
    have idx: "visible_start s + min (Suc (t_cursor_row s)) (t_rows s - Suc 0) = Suc (length dn)"
      using True at by (simp add: min_def)
    have "t_cursor_row s = length dn" using at(1) L by (simp add: visible_start_def)
    then have lf: "line_feed ?s0 = Some ?s1"
      using True full(2) L
      by (simp add: line_feed_def visible_line_mut_def Let_def idx [unfolded visible_start_def]
          visible_start_def)
    have "wf_screen ?s1" using line_feed_ok [OF wf0] lf by simp
    moreover have "map tl_cells ((t_lines s)[?i := ?l]) = map tl_cells (t_lines s)"
      using L by (simp add: map_update list_update_same_conv)
    moreover have "replicate (t_rows s - length dn - 1) ?blank =
        ?blank # replicate (t_rows s - length dn - 2) ?blank"
    proof -
      have "t_rows s - length dn - 1 = Suc (t_rows s - length dn - 2)" using L(2) by simp
      then show ?thesis by (simp only: replicate_Suc)
    qed
    ultimately have "pen ?s1 (dn @ [?row]) []"
      using pen L lines at by (simp add: pen_def visible_start_def idle_def)
    moreover have "screen_apply w [13, 10] s = Some ?s1"
      unfolding crlf lf by (cases s) simp
    ultimately show ?thesis using st by (intro exI [of _ ?s1]) (simp add: same_frame_def del: screen_apply_Cons)
  next
    case False
    then have row: "t_cursor_row s + 1 = t_rows s" using at(2) by simp
    with at(1) len have L: "length (t_lines s) = length dn + 1" by (auto simp: visible_start_def)
    let ?l = "\<lparr>tl_index = t_next_line_index s, tl_cells = ?blank, tl_touched = True\<rparr>"
    let ?s1 = "?s0\<lparr>t_lines := t_lines s @ [?l], t_next_line_index := sat_add64 (t_next_line_index s) 1\<rparr>"
    have vs: "visible_start s + t_rows s = length (t_lines s)" using len by (simp add: visible_start_def)
    have sb: "styled_blank cell_style_default = cell_blank" by (simp add: styled_blank_def cell_blank_def)
    have lf: "line_feed ?s0 = Some ?s1"
    proof -
      have "insert_visible_line (visible_start ?s0 + t_rows s) cell_style_default ?s0 = ?s1"
        using vs L room full(3)
        by (simp add: insert_visible_line_def Let_def trim_cached_lines_def insert_at_def
            trim_front_id sb visible_start_def)
      then have "scroll_up_region 1 ?s0 = ?s1\<lparr>t_cursor_row := min (t_cursor_row ?s1) (t_rows ?s1 - 1)\<rparr>"
        using full(1-3) st at(2) by (simp add: scroll_up_region_def Let_def scroll_up_once_def)
      moreover have "?s1\<lparr>t_cursor_row := min (t_cursor_row ?s1) (t_rows ?s1 - 1)\<rparr> = ?s1"
        using row by (cases s) simp
      ultimately show ?thesis using row full(2) by (simp add: line_feed_def)
    qed
    have "wf_screen ?s1" using line_feed_ok [OF wf0] lf by simp
    then have "pen ?s1 (dn @ [?row]) []"
      using pen L lines at row by (simp add: pen_def visible_start_def idle_def)
    moreover have "screen_apply w [13, 10] s = Some ?s1"
      unfolding crlf lf by (cases s) simp
    ultimately show ?thesis using st by (intro exI [of _ ?s1]) (simp add: same_frame_def del: screen_apply_Cons)
  qed
qed

subsection \<open>All rows\<close>

lemma pen_rows:
  assumes "start < fin" "fin \<le> length lines"
    "\<forall>i. start \<le> i \<longrightarrow> i < fin \<longrightarrow> line_ok w (lines ! i) \<and> length (tl_cells (lines ! i)) = t_cols s"
    "pen s dn []" "t_current_style s = cell_style_default" "length dn + (fin - start) \<le> t_max_cached_lines s"
  shows "\<exists>s' dn' part.
    screen_apply w (concat (map (\<lambda>i. row_ansi_bytes (lines ! i) @ (if i + 1 < fin then [13, 10] else []))
      [start..<fin])) s = Some s' \<and>
    pen s' dn' part \<and> t_current_style s' = cell_style_default \<and> same_frame s s' \<and>
    dn' @ [part @ replicate (t_cols s - length part) cell_blank] =
      dn @ map tl_cells (take (fin - start) (drop start lines))"
  using assms
proof (induction "fin - start" arbitrary: start s dn)
  case 0
  then show ?case by simp
next
  case (Suc n)
  let ?l = "lines ! start"
  let ?rows = "\<lambda>a. concat (map (\<lambda>i. row_ansi_bytes (lines ! i) @ (if i + 1 < fin then [13, 10] else [])) [a..<fin])"
  have l: "line_ok w ?l" "length (tl_cells ?l) = t_cols s" using Suc.prems(1,3) by simp_all
  obtain s1 part where s1: "screen_apply w (row_ansi_bytes ?l) s = Some s1" "pen s1 dn part"
    "part @ replicate (t_cols s - length part) cell_blank = tl_cells ?l"
    "t_current_style s1 = cell_style_default" "same_frame s s1"
    using pen_line_bytes [OF l Suc.prems(4,5)] by blast
  have rows: "?rows start = row_ansi_bytes ?l @ (if start + 1 < fin then [13, 10] else []) @ ?rows (Suc start)"
    using Suc.prems(1) by (simp add: upt_conv_Cons)
  have lines: "take (fin - start) (drop start lines) = ?l # take (fin - Suc start) (drop (Suc start) lines)"
    using Suc.prems(1,2) by (metis Cons_nth_drop_Suc Suc_diff_Suc order_less_le_trans take_Suc_Cons)
  show ?case
  proof (cases "Suc start < fin")
    case False
    with Suc.prems(1) have "fin = Suc start" by simp
    then show ?thesis
      using s1 rows lines by (intro exI [of _ s1] exI [of _ dn] exI [of _ part]) simp
  next
    case True
    obtain s2 where s2: "screen_apply w [13, 10] s1 = Some s2" "pen s2 (dn @ [tl_cells ?l]) []"
      "t_current_style s2 = cell_style_default" "same_frame s1 s2"
    proof -
      have "length dn + 2 \<le> t_max_cached_lines s1"
        using Suc.prems(6) True s1(5) by (simp add: same_frame_def)
      moreover have "part @ replicate (t_cols s1 - length part) cell_blank = tl_cells ?l"
        using s1(3,5) by (simp add: same_frame_def)
      ultimately show ?thesis using pen_newline [OF s1(2,4), of w] that by auto
    qed
    have frame: "t_cols s2 = t_cols s" "t_max_cached_lines s2 = t_max_cached_lines s" "same_frame s s2"
      using s1(5) s2(4) by (simp_all add: same_frame_def)
    have "\<exists>s' dn' part. screen_apply w (?rows (Suc start)) s2 = Some s' \<and>
        pen s' dn' part \<and> t_current_style s' = cell_style_default \<and> same_frame s2 s' \<and>
        dn' @ [part @ replicate (t_cols s2 - length part) cell_blank] =
          (dn @ [tl_cells ?l]) @ map tl_cells (take (fin - Suc start) (drop (Suc start) lines))"
      by (rule Suc.hyps) (use Suc.hyps(2) Suc.prems True s2 frame in auto)
    moreover have "screen_apply w (?rows start) s = screen_apply w (?rows (Suc start)) s2"
    proof -
      have "start + 1 < fin" using True by simp
      then show ?thesis unfolding rows by (simp only: screen_apply_append s1(1) s2(1) if_True Option.bind.simps)
    qed
    ultimately show ?thesis using lines frame by (auto simp: same_frame_def)
  qed
qed

section \<open>The whole snapshot\<close>

text \<open>
  The screens a snapshot restores: the normal screen, between two control sequences, not in origin
  mode, with printable rows, and with a last line that is printed whenever there is scrollback.
\<close>

definition restorable :: "(uchar \<Rightarrow> usize option) \<Rightarrow> terminal_screen \<Rightarrow> bool" where
  "restorable w s \<longleftrightarrow>
     wf_screen s \<and> idle s \<and> t_normal_screen s = None \<and>
     \<not> tm_origin (t_modes s) \<and> wf_modes (t_modes s) \<and> wf_style (t_current_style s) \<and>
     list_all (line_ok w) (t_lines s) \<and>
     (length (t_lines s) = t_rows s \<or> line_shows (last (t_lines s))) \<and>
     length (t_lines s) \<le> max default_max_cached_lines (t_rows s) \<and>
     t_rows s \<le> u16_max \<and> t_cols s \<le> u16_max"

lemma bounds_for_screen: "snapshot_line_bounds_for (t_lines s) (t_rows s) = snapshot_line_bounds s"
  unfolding snapshot_line_bounds_for_def snapshot_line_bounds_def visible_start_def Let_def by (rule refl)

lemma not_shown_blank:
  assumes "\<not> line_shows l" shows "tl_cells l = replicate (length (tl_cells l)) cell_blank"
proof -
  have "c = cell_blank" if "c \<in> set (tl_cells l)" for c
    using assms that
    by (cases c) (auto simp: line_shows_def line_is_blank_def list_all_iff is_blank_default_def
        cell_blank_def style_is_default_def)
  then show ?thesis by (simp add: replicate_length_same)
qed

lemma blank_lines:
  assumes "wf_lines cols ls" "\<forall>l \<in> set ls. \<not> line_shows l"
  shows "map tl_cells ls = replicate (length ls) (replicate cols cell_blank)"
  using assms
proof (induction ls)
  case (Cons l ls)
  then show ?case using not_shown_blank [of l] by simp
qed simp

text \<open>Which lines are printed, and that the rest is blank.\<close>

lemma snapshot_line_bounds_cases:
  assumes "t_rows s \<le> length (t_lines s)"
  obtains (blank) "snapshot_line_bounds s = None" "\<forall>l \<in> set (t_lines s). \<not> line_shows l"
  | (rows) start fin where "snapshot_line_bounds s = Some (start, fin)" "start \<le> visible_start s"
      "start < fin" "fin \<le> length (t_lines s)"
      "\<forall>l \<in> set (take start (t_lines s)). \<not> line_shows l"
      "\<forall>l \<in> set (drop fin (t_lines s)). \<not> line_shows l"
      "start = visible_start s \<or> line_shows (t_lines s ! start)"
      "line_shows (t_lines s ! (fin - 1))"
proof (cases "position line_shows (t_lines s)")
  case None
  then show ?thesis by (intro blank) (simp_all add: snapshot_line_bounds_def flip: position_None)
next
  case (Some a)
  note a = position_Some [OF Some]
  from a obtain b where b: "rposition line_shows (t_lines s) = Some b"
    by (metis not_None_eq nth_mem rposition_None)
  note b' = rposition_Some [OF b]
  have ab: "a \<le> b" using a b' by (meson not_le_imp_less)
  let ?start = "if visible_start s \<le> a then visible_start s else a"
  have "snapshot_line_bounds s = Some (?start, b + 1)"
    by (simp add: snapshot_line_bounds_def Some b Let_def)
  moreover have "\<forall>l \<in> set (take ?start (t_lines s)). \<not> line_shows l"
    using a by (auto simp: in_set_conv_nth split: if_splits)
  moreover have "\<forall>l \<in> set (drop (b + 1) (t_lines s)). \<not> line_shows l"
    using b' by (auto simp: in_set_conv_nth)
  ultimately show ?thesis
    using a b' ab by (intro rows [of ?start "b + 1"]) auto
qed

lemma pen_fresh:
  assumes "1 \<le> rows" "1 \<le> cols"
  shows "pen (screen_new rows cols) [] []"
proof -
  have "map tl_cells (map (\<lambda>i. line_blank i cols False) [0..<rows]) =
      replicate cols cell_blank # replicate (rows - 1) (replicate cols cell_blank)"
    using assms(1) by (intro nth_equalityI) (auto simp: line_blank_def nth_Cons' )
  with assms wf_screen_new [of rows cols] show ?thesis
    by (simp add: pen_def screen_new_def with_max_cached_lines_def Let_def idle_def max_def)
qed

lemma pen_lines_final:
  assumes pen: "pen s1 dn part" and frame: "t_rows s1 = t_rows s" "t_cols s1 = t_cols s"
    and dn: "dn @ [part @ replicate (t_cols s - length part) cell_blank] =
      map tl_cells (take (fin - start) (drop start (t_lines s)))"
    and b: "start \<le> visible_start s" "start < fin" "fin \<le> length (t_lines s)"
      "\<forall>l \<in> set (drop fin (t_lines s)). \<not> line_shows l"
    and tail: "start = visible_start s \<or> fin = length (t_lines s)"
    and wf: "wf_lines (t_cols s) (t_lines s)" "t_rows s \<le> length (t_lines s)"
  shows "map tl_cells (t_lines s1) = map tl_cells (drop start (t_lines s))"
proof -
  let ?blank = "replicate (t_cols s) cell_blank"
  have "length (dn @ [part @ replicate (t_cols s - length part) cell_blank]) = fin - start"
    unfolding dn using b by simp
  then have len: "length dn + 1 = fin - start" by simp
  have L: "length (t_lines s1) = max (t_rows s) (fin - start)"
    using pen frame len by (simp add: pen_def)
  have "length (t_lines s1) - length dn - 1 = length (t_lines s) - fin"
    using tail wf(2) b len L by (auto simp: visible_start_def)
  then have "map tl_cells (t_lines s1) =
      (dn @ [part @ replicate (t_cols s - length part) cell_blank]) @
      replicate (length (t_lines s) - fin) ?blank"
    using pen frame by (simp add: pen_def)
  also have "replicate (length (t_lines s) - fin) ?blank = map tl_cells (drop fin (t_lines s))"
    using blank_lines [OF wf_lines_drop [OF wf(1)] b(4)] by simp
  also have "drop fin (t_lines s) = drop (fin - start) (drop start (t_lines s))" using b by simp
  finally show ?thesis unfolding dn by (simp only: map_append [symmetric] append_take_drop_id)
qed

text \<open>What a restored screen agrees on with the screen the snapshot was taken of.\<close>

definition restored_state :: "terminal_screen \<Rightarrow> terminal_screen \<Rightarrow> bool" where
  "restored_state s s' \<longleftrightarrow>
     t_rows s' = t_rows s \<and> t_cols s' = t_cols s \<and> t_normal_screen s' = None \<and> idle s' \<and>
     t_cursor_row s' = t_cursor_row s \<and> t_cursor_col s' = min (t_cursor_col s) (t_cols s - 1) \<and>
     t_saved_cursor s' = clamp_saved (t_rows s) (t_cols s) (t_saved_cursor s) \<and>
     t_current_style s' = t_current_style s \<and> t_modes s' = t_modes s \<and>
     t_scroll_top s' = t_scroll_top s \<and> t_scroll_bottom s' = t_scroll_bottom s"

lemma tail_restores:
  assumes ok: "restorable w s" and pen: "pen s1 dn part" and st: "t_current_style s1 = cell_style_default"
    and frame: "t_rows s1 = t_rows s" "t_cols s1 = t_cols s"
  shows "\<exists>s'. screen_apply w (snapshot_tail_bytes (t_rows s) (t_cols s) (t_cursor_row s) (t_cursor_col s)
      (t_saved_cursor s) (t_current_style s) (t_modes s) (t_scroll_top s) (t_scroll_bottom s)) s1 = Some s' \<and>
    t_lines s' = t_lines s1 \<and> restored_state s s'"
proof -
  have s1: "idle s1" "t_modes s1 = terminal_modes_default" "t_saved_cursor s1 = None" "t_normal_screen s1 = None"
    using pen by (simp_all add: pen_def)
  have s: "wf_modes (t_modes s)" "\<not> tm_origin (t_modes s)" "wf_style (t_current_style s)"
    "t_scroll_top s < t_scroll_bottom s" "t_scroll_bottom s \<le> t_rows s" "t_rows s \<le> u16_max"
    "0 < t_cols s" "t_cols s \<le> u16_max" "t_cursor_row s < t_rows s"
    using ok by (auto simp: restorable_def wf_screen_def wf_rest_def)
  have "tm_mouse_modes (t_modes s1) = []" by (simp add: s1(2) terminal_modes_default_def)
  from snapshot_tail_apply [OF s1(1) s(1,2) this s(3) st s1(3) s(4), where w = w and row = "t_cursor_row s"
      and col = "t_cursor_col s" and sc = "t_saved_cursor s"]
  show ?thesis
    using s s1 by (auto simp: frame restored_state_def)
qed

lemma snapshot_restores:
  assumes "restorable w s"
  shows "\<exists>start s'.
    screen_apply w (snapshot_bytes s) (screen_new (t_rows s) (t_cols s)) = Some s' \<and>
    start \<le> visible_start s \<and>
    map tl_cells (t_lines s') = map tl_cells (drop start (t_lines s)) \<and>
    list_all (\<lambda>l. \<not> line_shows l) (take start (t_lines s)) \<and> restored_state s s'"
proof -
  let ?new = "screen_new (t_rows s) (t_cols s)"
  let ?tail = "snapshot_tail_bytes (t_rows s) (t_cols s) (t_cursor_row s) (t_cursor_col s)
      (t_saved_cursor s) (t_current_style s) (t_modes s) (t_scroll_top s) (t_scroll_bottom s)"
  have wf: "1 \<le> t_rows s" "1 \<le> t_cols s" "t_rows s \<le> length (t_lines s)" "wf_lines (t_cols s) (t_lines s)"
    and norm: "t_normal_screen s = None" "t_pending_control s = []" "t_utf8_pending s = []"
    using assms by (auto simp: restorable_def wf_screen_def wf_rest_def idle_def)
  note pen0 = pen_fresh [OF wf(1,2)]
  have new: "t_rows ?new = t_rows s" "t_cols ?new = t_cols s" "t_current_style ?new = cell_style_default"
    "t_max_cached_lines ?new = max default_max_cached_lines (t_rows s)"
    using wf by (simp_all add: screen_new_def with_max_cached_lines_def Let_def)
  from wf(3) show ?thesis
  proof (cases rule: snapshot_line_bounds_cases)
    case blank
    have cells: "map tl_cells (t_lines ?new) = map tl_cells (drop (visible_start s) (t_lines s))"
    proof -
      have "map tl_cells (drop (visible_start s) (t_lines s)) =
          replicate (length (drop (visible_start s) (t_lines s))) (replicate (t_cols s) cell_blank)"
        by (rule blank_lines) (use wf(4) blank(2) in \<open>auto dest: in_set_dropD\<close>)
      moreover have "length (drop (visible_start s) (t_lines s)) = t_rows s"
        using wf(3) by (simp add: visible_start_def)
      moreover have "map tl_cells (t_lines ?new) = replicate (t_rows s) (replicate (t_cols s) cell_blank)"
        using wf by (simp add: screen_new_def with_max_cached_lines_def Let_def line_blank_def
            map_replicate_const comp_def)
      ultimately show ?thesis by simp
    qed
    have shown: "list_all (\<lambda>l. \<not> line_shows l) (take (visible_start s) (t_lines s))"
      using blank(2) by (auto simp: list_all_iff dest: in_set_takeD)
    show ?thesis
    proof (cases "needs_state_restore s")
      case True
      then have "snapshot_bytes s = ?tail"
        using norm blank(1) by (simp add: snapshot_bytes_def snapshot_state_bytes_def bounds_for_screen)
      with tail_restores [OF assms pen0 new(3,1,2)] cells shown show ?thesis by auto
    next
      case False
      then have "snapshot_bytes s = []"
        using norm blank(1) by (simp add: snapshot_bytes_def)
      moreover have "restored_state s ?new"
        using False norm wf
        by (cases "t_saved_cursor s"; simp add: restored_state_def needs_state_restore_def screen_new_def
            with_max_cached_lines_def Let_def style_is_default_def clamp_saved_def idle_def)
      ultimately have "restored_state s ?new" "snapshot_bytes s = []" by simp_all
      with cells shown show ?thesis by auto
    qed
  next
    case (rows start fin)
    let ?rows = "concat (map (\<lambda>i. row_ansi_bytes (t_lines s ! i) @ (if i + 1 < fin then [13, 10] else []))
      [start..<fin])"
    have bytes: "snapshot_bytes s = ?rows @ ?tail"
      using norm rows(1,4) by (simp add: snapshot_bytes_def snapshot_state_bytes_def bounds_for_screen min_absorb1)
    obtain s1 dn part where s1: "screen_apply w ?rows ?new = Some s1" "pen s1 dn part"
      "t_current_style s1 = cell_style_default" "same_frame ?new s1"
      "dn @ [part @ replicate (t_cols s - length part) cell_blank] =
        map tl_cells (take (fin - start) (drop start (t_lines s)))"
    proof -
      have "\<forall>i. start \<le> i \<longrightarrow> i < fin \<longrightarrow> line_ok w (t_lines s ! i) \<and> length (tl_cells (t_lines s ! i)) = t_cols ?new"
        using assms rows(4) wf(4) new(2) by (auto simp: restorable_def list_all_length wf_lines_nth)
      moreover have "length [] + (fin - start) \<le> t_max_cached_lines ?new"
      proof -
        have "length (t_lines s) \<le> max default_max_cached_lines (t_rows s)"
          using assms by (simp add: restorable_def)
        with rows(4) new(4) show ?thesis by simp
      qed
      ultimately show ?thesis
        using pen_rows [OF rows(3,4) _ pen0 new(3), of w] that new(2) by fastforce
    qed
    have frame: "t_rows s1 = t_rows s" "t_cols s1 = t_cols s" using s1(4) new by (simp_all add: same_frame_def)
    have "start = visible_start s \<or> fin = length (t_lines s)"
    proof (rule ccontr)
      assume "\<not> (start = visible_start s \<or> fin = length (t_lines s))"
      with rows(2,4) have lt: "start < visible_start s" "fin < length (t_lines s)" by simp_all
      then have "last (t_lines s) \<in> set (drop fin (t_lines s))"
        using last_in_set [of "drop fin (t_lines s)"] by simp
      with lt(1) rows(6) assms show False by (auto simp: restorable_def visible_start_def)
    qed
    from pen_lines_final [OF s1(2) frame s1(5) rows(2-4,6) this wf(4,3)]
    show ?thesis
      using tail_restores [OF assms s1(2,3) frame] s1(1) rows(2,5)
      by (auto simp: bytes screen_apply_append list_all_iff)
  qed
qed

text \<open>The equations that evaluate the printer on a concrete screen.\<close>

lemmas snapshot_eval =
  screen_eval snapshot_bytes_def snapshot_state_bytes_def snapshot_tail_bytes_def
  snapshot_line_bounds_def snapshot_line_bounds_for_def rposition_def line_shows_def line_is_blank_def
  is_blank_default_def restore_bytes_def scroll_region_bytes_def cursor_position_bytes_def
  saved_cursor_restore_bytes_def row_ansi_bytes_def row_ansi_step_def display_width_def encode_utf8_def
  sgr_bytes_def style_codes_def style_is_default_def ascii_def needs_state_restore_def
  set_private_modes_def set_private_mode_def set_public_modes_def set_public_mode_def given_params_def
  mouse_mode_codes_def home_row_def set_scroll_region_def one_based_param_def param_or_def
  cursor_row_from_param_def cell_blank_def cell_style_default_def

definition bold_a :: terminal_screen where
  "bold_a = (screen_new 1 2)
     \<lparr>t_lines := [\<lparr>tl_index = 0, tl_cells =
          [\<lparr>tc_character = 97, tc_style = cell_style_default\<lparr>cs_bold := True\<rparr>, tc_wide_continuation = False\<rparr>,
           cell_blank], tl_touched = True\<rparr>],
       t_cursor_col := 1, t_current_style := cell_style_default\<lparr>cs_bold := True\<rparr>\<rparr>"

lemma bold_a_printed:
  "screen_apply (\<lambda>_. Some 1) [27, 91, 49, 109, 97] (screen_new 1 2) = Some bold_a"
proof -
  let ?st = "cell_style_default\<lparr>cs_bold := True\<rparr>" and ?s = "screen_new 1 2"
  have bytes: "[27, 91, 49, 109, 97] = sgr_bytes False ?st @ [97]"
    by (simp add: sgr_bytes_def style_codes_def style_is_default_def cell_style_default_def ascii_def dec.simps)
  have "screen_apply (\<lambda>_. Some 1) (sgr_bytes False ?st) ?s = Some (?s\<lparr>t_current_style := ?st\<rparr>)"
    by (rule sgr_bytes_apply)
       (simp_all add: idle_def screen_new_def with_max_cached_lines_def Let_def wf_style_def cell_style_default_def)
  then show ?thesis
    unfolding bytes screen_apply_append
    by (simp add: bold_a_def screen_eval numeral_2_eq_2 cell_blank_def)
qed

lemma bold_a_restorable: "restorable (\<lambda>_. Some 1) bold_a"
proof -
  have "wf_screen bold_a"
    using screen_apply_ok [OF wf_screen_new, of "\<lambda>_. Some 1" "[27, 91, 49, 109, 97]" 1 2]
    by (simp only: bold_a_printed runs_ok_Some)
  then show ?thesis
    unfolding restorable_def
    by (simp add: bold_a_def idle_def wf_modes_def wf_style_def line_ok_def is_scalar_def u16_max_def snapshot_eval)
qed

text \<open>
  C1. Round trip of the snapshot. Feeding \<open>snapshot_bytes\<close> of a restorable screen to a fresh
  emulator of the same size never panics and yields a screen with the same visible rows cell by
  cell (characters, styles and wide-character continuations), the same scrollback from the first
  line that shows anything, and the same cursor row, modes, style, scroll region and saved cursor;
  the column is the same up to a pending wrap, which becomes the last column. Nothing is lost:
  every line before the restored part shows nothing.
\<close>

theorem snapshot_restores_screen:
  assumes "restorable w s"
  shows "\<exists>start s'.
    screen_apply w (snapshot_bytes s) (screen_new (t_rows s) (t_cols s)) = Some s' \<and>
    start \<le> visible_start s \<and>
    map tl_cells (t_lines s') = map tl_cells (drop start (t_lines s)) \<and>
    list_all (\<lambda>l. \<not> line_shows l) (take start (t_lines s)) \<and> restored_state s s'"
  using snapshot_restores [OF assms] .

theorem snapshot_restores_screen_witness:
  "restorable (\<lambda>_. Some 1) bold_a \<and>
   (\<exists>s'. screen_apply (\<lambda>_. Some 1) (snapshot_bytes bold_a) (screen_new 1 2) = Some s' \<and>
     restored_state bold_a s')"
proof -
  have "t_rows bold_a = 1" "t_cols bold_a = 2"
    by (simp_all add: bold_a_def screen_new_def with_max_cached_lines_def)
  then show ?thesis
    using snapshot_restores_screen [OF bold_a_restorable] bold_a_restorable by metis
qed

section \<open>Where a snapshot does not restore the screen\<close>

lemma cursor_position_origin:
  assumes "idle s" "tm_origin (t_modes s)" "r < t_rows s" "c < t_cols s"
    "t_rows s \<le> u16_max" "t_cols s \<le> u16_max"
  shows "screen_apply w (27 # ascii ''['' @ dec (r + 1) @ ascii '';'' @ dec (c + 1) @ ascii ''H'') s =
    Some (s\<lparr>t_requires_snapshot_redraw := True,
      t_cursor_row := min (t_scroll_top s + r) (t_scroll_bottom s - 1), t_cursor_col := c,
      t_pending_home_clear_cut := (min (t_scroll_top s + r) (t_scroll_bottom s - 1) = 0 \<and> c = 0)\<rparr>)"
  using csi_sequence [OF assms(1), of "[r + 1, c + 1]" 72 w] assms(2-)
  by (simp add: ascii_def dispatch_csi_def Let_def cursor_row_from_param_def one_based_param_def
      param_or_def)

text \<open>
  In origin mode the snapshot puts the cursor into the wrong row: the printed position counts
  rows from the top of the screen, and the restored terminal, already in origin mode, counts them
  from the top of the scroll region. The cursor ends \<open>t_scroll_top\<close> rows too low, or on the last
  row of the region.
\<close>

lemma snapshot_origin_mode_shifts_cursor:
  assumes "idle s" "wf_modes m" "tm_origin m" "tm_mouse_modes (t_modes s) = []"
    "tp < bt" "bt \<le> t_rows s" "t_rows s \<le> u16_max" "0 < t_cols s" "t_cols s \<le> u16_max"
    "row < t_rows s"
  shows "map_option (\<lambda>s'. t_cursor_row s')
      (screen_apply w (snapshot_tail_bytes (t_rows s) (t_cols s) row col None cell_style_default m tp bt) s) =
    Some (min (tp + row) (bt - 1))"
proof -
  let ?c = "min col (t_cols s - 1)" and ?h = "min (t_scroll_top s) (t_rows s - 1)"
  define s1 where "s1 = s\<lparr>t_modes := m, t_cursor_row := ?h, t_cursor_col := 0,
      t_pending_home_clear_cut := False, t_requires_snapshot_redraw := True\<rparr>"
  have a: "screen_apply w (restore_bytes m) s = Some s1"
    using restore_bytes_apply [OF assms(1,2,4), of w] assms(3) by (simp add: s1_def)
  define s2 where "s2 = (csi_touch s1)\<lparr>t_scroll_top := tp, t_scroll_bottom := bt,
      t_cursor_row := min tp (t_rows s - 1), t_cursor_col := 0\<rparr>"
  have b: "screen_apply w (scroll_region_bytes tp bt (t_rows s)) s1 = Some s2"
    using scroll_region_seq [of s1 tp bt w] assms by (simp add: s1_def s2_def)
  have d: "screen_apply w (cursor_position_bytes row col (t_cols s)) s2 =
      Some (s2\<lparr>t_requires_snapshot_redraw := True,
        t_cursor_row := min (t_scroll_top s2 + row) (t_scroll_bottom s2 - 1), t_cursor_col := ?c,
        t_pending_home_clear_cut := (min (t_scroll_top s2 + row) (t_scroll_bottom s2 - 1) = 0 \<and> ?c = 0)\<rparr>)"
    unfolding cursor_position_bytes_def
    by (rule cursor_position_origin) (use assms in \<open>simp_all add: s1_def s2_def min_less_iff_disj\<close>)
  show ?thesis
    unfolding snapshot_tail_bytes_def screen_apply_append a Option.bind.simps b
    using d by (simp add: saved_cursor_restore_bytes_def style_is_default_def screen_apply_append s2_def)
qed

text \<open>A two-row screen whose one-row scroll region at the top has scrolled once.\<close>

definition region_scrolled :: terminal_screen where
  "region_scrolled = the (screen_apply (\<lambda>_. Some 1) [27, 91, 49, 59, 49, 114, 97, 10] (screen_new 2 1))"

lemma region_scrolled_eval:
  "region_scrolled = (screen_new 2 1)
     \<lparr>t_lines := [\<lparr>tl_index = 0, tl_cells = [\<lparr>tc_character = 97, tc_style = cell_style_default, tc_wide_continuation = False\<rparr>], tl_touched = True\<rparr>,
        \<lparr>tl_index = 2, tl_cells = [cell_blank], tl_touched = True\<rparr>,
        \<lparr>tl_index = 1, tl_cells = [cell_blank], tl_touched = False\<rparr>],
       t_next_line_index := 3, t_scroll_bottom := 1, t_requires_snapshot_redraw := True\<rparr>"
proof -
  let ?w = "\<lambda>_ :: uchar. Some (1 :: usize)"
  have bytes: "[27, 91, 49, 59, 49, 114, 97, 10] = (27 # 91 # join_with 59 (map dec [1, 1]) @ [114]) @ [97, 10]"
    by (simp add: dec.simps)
  have i: "idle (screen_new 2 1)"
    by (simp add: idle_def screen_new_def with_max_cached_lines_def Let_def)
  have a: "screen_apply ?w (27 # 91 # join_with 59 (map dec [1, 1]) @ [114]) (screen_new 2 1) =
      Some ((screen_new 2 1)\<lparr>t_scroll_bottom := 1, t_requires_snapshot_redraw := True\<rparr>)"
    by (subst csi_sequence [OF i])
       (simp_all add: u16_max_def dispatch_csi_def set_scroll_region_def one_based_param_def param_or_def
          home_row_def screen_new_def with_max_cached_lines_def Let_def terminal_modes_default_def)
  let ?a = "\<lparr>tl_index = 0, tl_cells = [\<lparr>tc_character = 97, tc_style = cell_style_default, tc_wide_continuation = False\<rparr>], tl_touched = True\<rparr>"
  define s0 where "s0 = (screen_new 2 1)\<lparr>t_scroll_bottom := 1, t_requires_snapshot_redraw := True\<rparr>"
  define s1 where "s1 = s0\<lparr>t_lines := [?a, line_blank 1 1 False], t_cursor_col := 1\<rparr>"
  note new = screen_new_def with_max_cached_lines_def Let_def terminal_modes_default_def numeral_2_eq_2
  have b: "apply_byte ?w 97 s0 = Some s1"
    by (simp add: s0_def s1_def new apply_byte_def apply_ground_byte_def flush_invalid_utf8_def
        print_char_def terminal_character_width_def wrap_for_width_def visible_line_mut_def visible_start_def
        write_char_cells_def set_cell_def touch_line_def line_blank_def)
  have "line_feed s1 = Some (s1\<lparr>t_lines := [?a, \<lparr>tl_index = 2, tl_cells = [cell_blank], tl_touched = True\<rparr>,
      line_blank 1 1 False], t_next_line_index := 3\<rparr>)"
    by (simp add: s0_def s1_def new line_feed_def scroll_up_region_def scroll_up_once_def
        insert_visible_line_def insert_at_def visible_start_def trim_cached_lines_def trim_front_drop
        default_max_cached_lines_def sat_add64_def u64_max_def styled_blank_def cell_blank_def)
  then have c: "apply_byte ?w 10 s1 = Some (s1\<lparr>t_lines := [?a, \<lparr>tl_index = 2, tl_cells = [cell_blank], tl_touched = True\<rparr>,
      line_blank 1 1 False], t_next_line_index := 3, t_cursor_col := 0\<rparr>)"
    by (simp add: s0_def s1_def new apply_byte_def apply_ground_byte_def flush_invalid_utf8_def)
  show ?thesis
    unfolding region_scrolled_def bytes screen_apply_append a Option.bind.simps s0_def [symmetric]
    by (simp only: screen_apply_Cons screen_apply_Nil b c option.case option.sel)
       (simp add: s1_def s0_def line_blank_def new)
qed

text \<open>
  With a scroll region that starts at the top and ends above the last row, the snapshot can show
  scrollback on the visible screen: scrolling the region inserts lines above an untouched last
  line, the printer stops at the last line that shows something, and the restored terminal has
  not scrolled far enough. Here row 0 is blank on the original screen and shows \<open>a\<close> on the
  restored one.
\<close>

lemma snapshot_region_scroll_misaligned:
  "map tl_cells (drop (visible_start region_scrolled) (t_lines region_scrolled)) = [[cell_blank], [cell_blank]] \<and>
   map_option (\<lambda>s'. map tl_cells (drop (visible_start s') (t_lines s')))
     (screen_apply (\<lambda>_. Some 1) (snapshot_bytes region_scrolled) (screen_new 2 1)) =
   Some [[\<lparr>tc_character = 97, tc_style = cell_style_default, tc_wide_continuation = False\<rparr>], [cell_blank]]"
proof
  let ?s = region_scrolled and ?new = "screen_new 2 1" and ?w = "\<lambda>_ :: uchar. Some (1 :: usize)"
  let ?a = "\<lparr>tc_character = 97, tc_style = cell_style_default, tc_wide_continuation = False\<rparr>"
  note new = screen_new_def with_max_cached_lines_def Let_def terminal_modes_default_def numeral_2_eq_2
  have lines: "map tl_cells (t_lines ?s) = [[?a], [cell_blank], [cell_blank]]" and vs: "visible_start ?s = 1"
    by (simp_all add: region_scrolled_eval visible_start_def new)
  then show "map tl_cells (drop (visible_start ?s) (t_lines ?s)) = [[cell_blank], [cell_blank]]"
    by (simp add: drop_map [symmetric])
  let ?rows = "concat (map (\<lambda>i. row_ansi_bytes (t_lines ?s ! i) @ (if i + 1 < 2 then [13, 10] else [])) [0..<2])"
  let ?tail = "snapshot_tail_bytes (t_rows ?new) (t_cols ?new) 0 0 None cell_style_default terminal_modes_default 0 1"
  have b: "snapshot_line_bounds ?s = Some (0, 2)"
    by (simp add: region_scrolled_eval snapshot_line_bounds_def rposition_def line_shows_def line_is_blank_def
      is_blank_default_def visible_start_def cell_blank_def style_is_default_def new)
  have f: "t_rows ?s = 2" "t_cols ?s = 1" "t_rows ?new = 2" "t_cols ?new = 1" "length (t_lines ?s) = 3"
    "t_normal_screen ?s = None" "t_pending_control ?s = []" "t_utf8_pending ?s = []"
    "t_cursor_row ?s = 0" "t_cursor_col ?s = 0" "t_saved_cursor ?s = None" "t_current_style ?s = cell_style_default"
    "t_modes ?s = terminal_modes_default" "t_scroll_top ?s = 0" "t_scroll_bottom ?s = 1"
    by (simp_all add: region_scrolled_eval screen_new_def with_max_cached_lines_def Let_def)
  have bytes: "snapshot_bytes ?s = ?rows @ ?tail"
    unfolding snapshot_bytes_def snapshot_state_bytes_def bounds_for_screen b
    unfolding f by simp
  have "\<forall>i. 0 \<le> i \<longrightarrow> i < 2 \<longrightarrow> line_ok ?w (t_lines ?s ! i) \<and> length (tl_cells (t_lines ?s ! i)) = t_cols ?new"
    unfolding f
    by (simp add: region_scrolled_eval less_Suc_eq numeral_2_eq_2 line_ok_def display_width_def rposition_def
        terminal_character_width_def is_scalar_def wf_style_def cell_style_default_def cell_blank_def style_is_default_def)
  then obtain s1 dn part where s1: "screen_apply ?w ?rows ?new = Some s1" "pen s1 dn part"
    "t_current_style s1 = cell_style_default" "same_frame ?new s1"
    "dn @ [part @ replicate (t_cols ?new - length part) cell_blank] =
        [] @ map tl_cells (take (2 - 0) (drop 0 (t_lines ?s)))"
    using pen_rows [of 0 2 "t_lines ?s" ?w ?new "[]"] pen_fresh [of 2 1] f(5)
    by (auto simp: screen_new_def with_max_cached_lines_def Let_def)
  have frame: "t_rows s1 = 2" "t_cols s1 = 1" using s1(4) f by (simp_all add: same_frame_def)
  have dn: "dn @ [part @ replicate (1 - length part) cell_blank] = [[?a], [cell_blank]]"
    using s1(5) lines f(4) by (simp add: take_map [symmetric])
  then have "length dn = 1" by (metis One_nat_def append1_eq_conv append_Nil length_Cons list.size(3) append_Cons)
  then have L: "length (t_lines s1) = 2" "map tl_cells (t_lines s1) = [[?a], [cell_blank]]"
    using s1(2) frame dn by (simp_all add: pen_def)
  have "screen_apply ?w ?tail s1 \<noteq> None \<and>
      t_lines (the (screen_apply ?w ?tail s1)) = t_lines s1 \<and> t_rows (the (screen_apply ?w ?tail s1)) = 2"
    using snapshot_tail_apply [of s1 terminal_modes_default cell_style_default 0 1 0 ?w 0 None] s1(2,3) frame f
    by (simp add: pen_def wf_modes_def terminal_modes_default_def wf_style_def cell_style_default_def u16_max_def)
  then show "map_option (\<lambda>s'. map tl_cells (drop (visible_start s') (t_lines s')))
     (screen_apply ?w (snapshot_bytes ?s) ?new) = Some [[?a], [cell_blank]]"
    unfolding bytes screen_apply_append s1(1) Option.bind.simps using L
    by (auto simp: visible_start_def)
qed

end
