(* ===== verification/Terminal_Journal.thy ===== *)
theory Terminal_Journal
  imports Screen_Restore
begin

text \<open>
  The terminal journal of \<open>termd/src/pty/supervisor/terminal_journal.rs\<close>: the authoritative cache of
  the session supervisor, which numbers every terminal event and keeps the last 8192 of them, and
  the daemon's mirror, which follows it by frames. The two answer an attach request by the same
  contract, stated once as a locale and interpreted for both; the mirror is a replica of the cache.
\<close>

section \<open>Sizes, frames and events\<close>

record pty_size =
  ps_rows :: u16
  ps_cols :: u16
  ps_pixel_width :: u16
  ps_pixel_height :: u16

datatype pty_terminal_frame =
    FSnapshot u64 pty_size "u8 list"
  | FOutput u64 "u8 list"
  | FResize u64 pty_size
  | FExit u64 "int option"

datatype terminal_event =
    EvOutput u64 "u8 list"
  | EvResize u64 pty_size
  | EvExit u64 "int option"

fun terminal_seq :: "terminal_event \<Rightarrow> u64" where
  "terminal_seq (EvOutput seq bytes) = seq"
| "terminal_seq (EvResize seq sz) = seq"
| "terminal_seq (EvExit seq code) = seq"

fun to_terminal_frame :: "terminal_event \<Rightarrow> pty_terminal_frame" where
  "to_terminal_frame (EvOutput seq bytes) = FOutput seq bytes"
| "to_terminal_frame (EvResize seq sz) = FResize seq sz"
| "to_terminal_frame (EvExit seq code) = FExit seq code"

text \<open>\<open>PtyTerminalFrame::terminal_seq\<close> and \<open>bytes_for_legacy_read\<close>.\<close>

fun frame_terminal_seq :: "pty_terminal_frame \<Rightarrow> u64 option" where
  "frame_terminal_seq (FSnapshot base sz data) = None"
| "frame_terminal_seq (FOutput seq data) = Some seq"
| "frame_terminal_seq (FResize seq sz) = Some seq"
| "frame_terminal_seq (FExit seq code) = Some seq"

fun bytes_for_legacy_read :: "pty_terminal_frame \<Rightarrow> u8 list option" where
  "bytes_for_legacy_read (FSnapshot base sz data) = Some data"
| "bytes_for_legacy_read (FOutput seq data) = Some data"
| "bytes_for_legacy_read (FResize seq sz) = None"
| "bytes_for_legacy_read (FExit seq code) = None"

fun replay_cost_bytes :: "terminal_event \<Rightarrow> usize" where
  "replay_cost_bytes (EvOutput seq bytes) = length bytes"
| "replay_cost_bytes (EvResize seq sz) = 1"
| "replay_cost_bytes (EvExit seq code) = 1"

fun is_resize :: "terminal_event \<Rightarrow> bool" where
  "is_resize (EvResize seq sz) = True"
| "is_resize e = False"

definition terminal_journal_max_events :: usize where
  "terminal_journal_max_events = 8192"

definition terminal_attach_tail_max_bytes :: usize where
  "terminal_attach_tail_max_bytes = 128 * 1024"

definition terminal_attach_tail_snapshot_ratio :: usize where
  "terminal_attach_tail_snapshot_ratio = 2"

section \<open>The supervisor's cache\<close>

record terminal_cache =
  stc_next_terminal_seq :: u64
  stc_journal_base_seq :: u64
  stc_journal :: "terminal_event list"
  stc_screen :: terminal_screen
  stc_size :: pty_size

definition cache_new :: "pty_size \<Rightarrow> terminal_cache" where
  "cache_new sz =
     \<lparr>stc_next_terminal_seq = 1, stc_journal_base_seq = 1, stc_journal = [],
      stc_screen = screen_new (ps_rows sz) (ps_cols sz), stc_size = sz\<rparr>"

definition current_terminal_seq :: "terminal_cache \<Rightarrow> u64" where
  "current_terminal_seq c = stc_next_terminal_seq c - 1"

text \<open>\<open>saturating_add(1).max(seq + 1)\<close>; the plain addition wraps in a release build.\<close>

definition allocate_terminal_seq :: "terminal_cache \<Rightarrow> u64 \<times> terminal_cache" where
  "allocate_terminal_seq c =
     (let seq = stc_next_terminal_seq c in
      (seq, c\<lparr>stc_next_terminal_seq := max (sat_add64 seq 1) (wrap_add64 seq 1)\<rparr>))"

definition push_journal :: "terminal_event \<Rightarrow> terminal_cache \<Rightarrow> terminal_cache" where
  "push_journal e c =
     (let j = trim_front terminal_journal_max_events (stc_journal c @ [e]) in
      c\<lparr>stc_journal := j,
        stc_journal_base_seq := (case j of [] \<Rightarrow> stc_next_terminal_seq c | f # _ \<Rightarrow> terminal_seq f)\<rparr>)"

definition record_output ::
  "(uchar \<Rightarrow> usize option) \<Rightarrow> u8 list \<Rightarrow> terminal_cache \<Rightarrow> (pty_terminal_frame \<times> terminal_cache) option" where
  "record_output w bytes c =
     (case screen_apply w bytes (stc_screen c) of
        None \<Rightarrow> None
      | Some scr \<Rightarrow>
          (let (seq, c1) = allocate_terminal_seq (c\<lparr>stc_screen := scr\<rparr>);
               e = EvOutput seq bytes
           in Some (to_terminal_frame e, push_journal e c1)))"

definition cache_resize :: "pty_size \<Rightarrow> terminal_cache \<Rightarrow> pty_terminal_frame \<times> terminal_cache" where
  "cache_resize sz c =
     (let (seq, c1) = allocate_terminal_seq (c\<lparr>stc_size := sz,
            stc_screen := screen_resize (ps_rows sz) (ps_cols sz) (stc_screen c)\<rparr>);
          e = EvResize seq sz
      in (to_terminal_frame e, push_journal e c1))"

definition record_exit :: "int option \<Rightarrow> terminal_cache \<Rightarrow> pty_terminal_frame \<times> terminal_cache" where
  "record_exit code c =
     (let (seq, c1) = allocate_terminal_seq c;
          e = EvExit seq code
      in (to_terminal_frame e, push_journal e c1))"

definition snapshot_output :: "terminal_cache \<Rightarrow> u8 list" where
  "snapshot_output c = snapshot_bytes (stc_screen c)"

definition cache_should_replay_attach_tail :: "terminal_event list \<Rightarrow> terminal_cache \<Rightarrow> bool" where
  "cache_should_replay_attach_tail tail_events c =
     (if list_ex is_resize tail_events then False
      else
        (let tail_bytes = sum_list (map replay_cost_bytes tail_events) in
         if tail_bytes \<le> terminal_attach_tail_max_bytes then True
         else tail_bytes \<le> sat_mul64 (length (snapshot_output c)) terminal_attach_tail_snapshot_ratio))"

definition cache_snapshot_or_tail ::
  "u64 option \<Rightarrow> terminal_cache \<Rightarrow> u64 \<times> pty_terminal_frame list" where
  "cache_snapshot_or_tail last_terminal_seq c =
     (let current_seq = current_terminal_seq c;
          snapshot = (current_seq, [FSnapshot current_seq (stc_size c) (snapshot_output c)])
      in case last_terminal_seq of
           None \<Rightarrow> snapshot
         | Some l \<Rightarrow>
             if l = current_seq then (current_seq, [])
             else if l < current_seq \<and> sat_add64 l 1 \<ge> stc_journal_base_seq c then
               (let tail_events = filter (\<lambda>e. terminal_seq e > l) (stc_journal c) in
                if cache_should_replay_attach_tail tail_events c
                then (current_seq, map to_terminal_frame tail_events)
                else snapshot)
             else snapshot)"

section \<open>The daemon's mirror\<close>

record terminal_mirror =
  stm_current_terminal_seq :: u64
  stm_journal_base_seq :: u64
  stm_journal :: "terminal_event list"
  stm_screen :: terminal_screen
  stm_size :: pty_size

definition mirror_new :: "pty_size \<Rightarrow> terminal_mirror" where
  "mirror_new sz =
     \<lparr>stm_current_terminal_seq = 0, stm_journal_base_seq = 1, stm_journal = [],
      stm_screen = screen_new (ps_rows sz) (ps_cols sz), stm_size = sz\<rparr>"

definition reset_from_snapshot ::
  "(uchar \<Rightarrow> usize option) \<Rightarrow> pty_size \<Rightarrow> u64 \<Rightarrow> u8 list \<Rightarrow> terminal_mirror \<Rightarrow> terminal_mirror option" where
  "reset_from_snapshot w sz base_seq bytes m =
     (if base_seq < stm_current_terminal_seq m then Some m
      else map_option
        (\<lambda>scr. m\<lparr>stm_current_terminal_seq := base_seq, stm_journal_base_seq := sat_add64 base_seq 1,
                 stm_journal := [], stm_size := sz, stm_screen := scr\<rparr>)
        (screen_apply w bytes (screen_new (ps_rows sz) (ps_cols sz))))"

definition mirror_push_journal :: "terminal_event \<Rightarrow> terminal_mirror \<Rightarrow> terminal_mirror" where
  "mirror_push_journal e m =
     (let j = trim_front terminal_journal_max_events (stm_journal m @ [e]) in
      m\<lparr>stm_journal := j,
        stm_journal_base_seq :=
          (case j of [] \<Rightarrow> sat_add64 (stm_current_terminal_seq m) 1 | f # _ \<Rightarrow> terminal_seq f)\<rparr>)"

text \<open>The result says whether the frame was taken over.\<close>

fun apply_frame ::
  "(uchar \<Rightarrow> usize option) \<Rightarrow> pty_terminal_frame \<Rightarrow> terminal_mirror \<Rightarrow> (bool \<times> terminal_mirror) option" where
  "apply_frame w (FSnapshot base_seq sz data) m =
     (if base_seq < stm_current_terminal_seq m then Some (False, m)
      else map_option (Pair True) (reset_from_snapshot w sz base_seq data m))"
| "apply_frame w (FOutput seq data) m =
     (if seq \<le> stm_current_terminal_seq m then Some (False, m)
      else map_option
        (\<lambda>scr. (True, mirror_push_journal (EvOutput seq data)
                 (m\<lparr>stm_screen := scr, stm_current_terminal_seq := seq\<rparr>)))
        (screen_apply w data (stm_screen m)))"
| "apply_frame w (FResize seq sz) m =
     (if seq \<le> stm_current_terminal_seq m then Some (False, m)
      else Some (True, mirror_push_journal (EvResize seq sz)
        (m\<lparr>stm_size := sz,
           stm_screen := screen_resize (ps_rows sz) (ps_cols sz) (stm_screen m),
           stm_current_terminal_seq := seq\<rparr>)))"
| "apply_frame w (FExit seq code) m =
     (if seq \<le> stm_current_terminal_seq m then Some (False, m)
      else Some (True, mirror_push_journal (EvExit seq code) (m\<lparr>stm_current_terminal_seq := seq\<rparr>)))"

definition apply_snapshot_and_tail ::
  "(uchar \<Rightarrow> usize option) \<Rightarrow> pty_size \<Rightarrow> u64 \<Rightarrow> u8 list \<Rightarrow> pty_terminal_frame list \<Rightarrow>
   terminal_mirror \<Rightarrow> terminal_mirror option" where
  "apply_snapshot_and_tail w sz base_seq bytes fs m =
     Option.bind (reset_from_snapshot w sz base_seq bytes m)
       (for_each (\<lambda>f m. map_option snd (apply_frame w f m)) fs)"

definition mirror_should_replay_attach_tail :: "terminal_event list \<Rightarrow> terminal_mirror \<Rightarrow> bool" where
  "mirror_should_replay_attach_tail tail_events m =
     (if list_ex is_resize tail_events then False
      else
        (let tail_bytes = sum_list (map replay_cost_bytes tail_events) in
         if tail_bytes \<le> terminal_attach_tail_max_bytes then True
         else tail_bytes \<le> sat_mul64 (length (snapshot_bytes (stm_screen m))) terminal_attach_tail_snapshot_ratio))"

definition mirror_snapshot_or_tail ::
  "u64 option \<Rightarrow> terminal_mirror \<Rightarrow> u64 \<times> pty_terminal_frame list" where
  "mirror_snapshot_or_tail last_terminal_seq m =
     (let current_seq = stm_current_terminal_seq m;
          snapshot = (current_seq, [FSnapshot current_seq (stm_size m) (snapshot_bytes (stm_screen m))])
      in case last_terminal_seq of
           None \<Rightarrow> snapshot
         | Some l \<Rightarrow>
             if l = current_seq then (current_seq, [])
             else if l < current_seq \<and> sat_add64 l 1 \<ge> stm_journal_base_seq m then
               (let tail_events = filter (\<lambda>e. terminal_seq e > l) (stm_journal m) in
                if mirror_should_replay_attach_tail tail_events m
                then (current_seq, map to_terminal_frame tail_events)
                else snapshot)
             else snapshot)"

section \<open>The attach contract\<close>

text \<open>In a journal numbered without gaps, the events after a number are a suffix.\<close>

lemma filter_above_drop:
  assumes "map f xs = [b..<n]" "b \<le> k + 1" "k < n"
  shows "filter (\<lambda>e. k < f e) xs = drop (k + 1 - b) (xs :: 'a list)"
  using assms
proof (induction xs arbitrary: b)
  case Nil
  then show ?case by simp
next
  case (Cons x xs)
  then have bn: "b < n" by (metis upt_conv_Nil not_le list.distinct(1) list.map(2))
  with Cons.prems have x: "f x = b" "map f xs = [Suc b..<n]" by (simp_all add: upt_conv_Cons)
  show ?case
  proof (cases "k < b")
    case True
    with Cons.prems(2) have "k + 1 = b" by simp
    moreover have "\<forall>y \<in> set xs. k < f y"
    proof
      fix y assume "y \<in> set xs"
      then have "f y \<in> set (map f xs)" by simp
      then show "k < f y" using x(2) True by auto
    qed
    ultimately show ?thesis using x True by simp
  next
    case False
    with Cons.IH [OF x(2)] Cons.prems(3) have "filter (\<lambda>e. k < f e) xs = drop (k + 1 - Suc b) xs" by simp
    moreover have "k + 1 - b = Suc (k + 1 - Suc b)" using False by simp
    ultimately show ?thesis using x(1) False by simp
  qed
qed

text \<open>What an attach request is answered with: nothing, the missing events, or a snapshot.\<close>

definition replayable :: "terminal_event list \<Rightarrow> usize \<Rightarrow> bool" where
  "replayable evs snapshot_len \<longleftrightarrow> \<not> list_ex is_resize evs \<and>
     sum_list (map replay_cost_bytes evs) \<le> max (128 * 1024) (min u64_max (2 * snapshot_len))"

definition attach_reply ::
  "u64 \<Rightarrow> u64 \<Rightarrow> terminal_event list \<Rightarrow> pty_size \<Rightarrow> u8 list \<Rightarrow> u64 option \<Rightarrow> pty_terminal_frame list" where
  "attach_reply cur base journal sz snap l =
     (let missing = filter (\<lambda>e. the l < terminal_seq e) journal in
      if l = Some cur then []
      else if l \<noteq> None \<and> base \<le> the l + 1 \<and> the l < cur \<and> replayable missing (length snap)
      then map to_terminal_frame missing
      else [FSnapshot cur sz snap])"

locale attach_source =
  fixes current :: "'s \<Rightarrow> u64" and base :: "'s \<Rightarrow> u64" and journal :: "'s \<Rightarrow> terminal_event list"
    and msize :: "'s \<Rightarrow> pty_size" and snap :: "'s \<Rightarrow> u8 list"
    and attach :: "u64 option \<Rightarrow> 's \<Rightarrow> u64 \<times> pty_terminal_frame list" and valid :: "'s \<Rightarrow> bool"
  assumes numbered_journal: "valid s \<Longrightarrow>
      map terminal_seq (journal s) = [base s..<current s + 1] \<and> base s \<le> current s + 1 \<and> current s < u64_max"
    and attach_answers: "valid s \<Longrightarrow>
      attach l s = (current s, attach_reply (current s) (base s) (journal s) (msize s) (snap s) l)"
begin

lemma attach_without_position:
  assumes "valid s" shows "attach None s = (current s, [FSnapshot (current s) (msize s) (snap s)])"
  using attach_answers [OF assms, of None] by (simp add: attach_reply_def)

text \<open>A tail is gapless: it continues exactly after the client's last event, up to the newest.\<close>

lemma attach_gapless:
  assumes "valid s" "k \<le> current s"
  shows "attach (Some k) s = (current s, [FSnapshot (current s) (msize s) (snap s)]) \<or>
    (\<exists>evs. attach (Some k) s = (current s, map to_terminal_frame evs) \<and>
       map terminal_seq evs = [k + 1..<current s + 1] \<and> \<not> list_ex is_resize evs \<and>
       (\<exists>older. journal s = older @ evs))"
proof (cases "k = current s")
  case True
  then show ?thesis
    using attach_answers [OF assms(1), of "Some k"] by (auto simp: attach_reply_def)
next
  case False
  let ?missing = "filter (\<lambda>e. k < terminal_seq e) (journal s)"
  note seqs = numbered_journal [OF assms(1)]
  show ?thesis
  proof (cases "base s \<le> k + 1 \<and> replayable ?missing (length (snap s))")
    case rep: True
    have split: "?missing = drop (k + 1 - base s) (journal s)"
      using filter_above_drop [OF conjunct1 [OF seqs]] rep assms(2) by simp
    then have "map terminal_seq ?missing = drop (k + 1 - base s) [base s..<current s + 1]"
      using seqs by (simp add: drop_map [symmetric])
    also have "\<dots> = [k + 1..<current s + 1]" using rep by (simp add: drop_upt del: upt_Suc)
    finally have "map terminal_seq ?missing = [k + 1..<current s + 1]" .
    moreover have "\<exists>older. journal s = older @ ?missing"
      unfolding split by (metis append_take_drop_id)
    moreover have "attach (Some k) s = (current s, map to_terminal_frame ?missing)"
      using attach_answers [OF assms(1), of "Some k"] rep False assms(2) by (simp add: attach_reply_def)
    ultimately show ?thesis using rep unfolding replayable_def by blast
  next
    case no: False
    then show ?thesis
      using attach_answers [OF assms(1), of "Some k"] False by (auto simp: attach_reply_def Let_def)
  qed
qed

end

section \<open>The cache and the mirror answer by the contract\<close>

definition cache_valid :: "terminal_cache \<Rightarrow> bool" where
  "cache_valid c \<longleftrightarrow>
     map terminal_seq (stc_journal c) = [stc_journal_base_seq c..<stc_next_terminal_seq c] \<and>
     stc_journal_base_seq c \<le> stc_next_terminal_seq c \<and>
     1 \<le> stc_next_terminal_seq c \<and> stc_next_terminal_seq c \<le> u64_max"

definition mirror_valid :: "terminal_mirror \<Rightarrow> bool" where
  "mirror_valid m \<longleftrightarrow>
     map terminal_seq (stm_journal m) = [stm_journal_base_seq m..<stm_current_terminal_seq m + 1] \<and>
     stm_journal_base_seq m \<le> stm_current_terminal_seq m + 1 \<and> stm_current_terminal_seq m < u64_max"

lemma should_replay:
  "cache_should_replay_attach_tail evs c = replayable evs (length (snapshot_output c))"
  "mirror_should_replay_attach_tail evs m = replayable evs (length (snapshot_bytes (stm_screen m)))"
  by (auto simp: cache_should_replay_attach_tail_def mirror_should_replay_attach_tail_def replayable_def
      Let_def terminal_attach_tail_max_bytes_def terminal_attach_tail_snapshot_ratio_def sat_mul64_def
      mult.commute)

interpretation cache: attach_source current_terminal_seq stc_journal_base_seq stc_journal stc_size
  snapshot_output cache_snapshot_or_tail cache_valid
proof
  fix c :: terminal_cache and l :: "u64 option"
  assume v: "cache_valid c"
  then have n: "current_terminal_seq c + 1 = stc_next_terminal_seq c"
    by (simp add: cache_valid_def current_terminal_seq_def)
  with v show "map terminal_seq (stc_journal c) = [stc_journal_base_seq c..<current_terminal_seq c + 1] \<and>
      stc_journal_base_seq c \<le> current_terminal_seq c + 1 \<and> current_terminal_seq c < u64_max"
    unfolding n by (auto simp: cache_valid_def current_terminal_seq_def)
  have "sat_add64 k 1 = k + 1" if "k < current_terminal_seq c" for k
    using that v by (intro sat_add64_exact) (auto simp: cache_valid_def current_terminal_seq_def)
  then show "cache_snapshot_or_tail l c = (current_terminal_seq c,
      attach_reply (current_terminal_seq c) (stc_journal_base_seq c) (stc_journal c) (stc_size c) (snapshot_output c) l)"
    by (cases l) (auto simp: cache_snapshot_or_tail_def attach_reply_def Let_def should_replay)
qed

interpretation mirror: attach_source stm_current_terminal_seq stm_journal_base_seq stm_journal stm_size
  "\<lambda>m. snapshot_bytes (stm_screen m)" mirror_snapshot_or_tail mirror_valid
proof
  fix m :: terminal_mirror and l :: "u64 option"
  assume v: "mirror_valid m"
  then show "map terminal_seq (stm_journal m) = [stm_journal_base_seq m..<stm_current_terminal_seq m + 1] \<and>
      stm_journal_base_seq m \<le> stm_current_terminal_seq m + 1 \<and> stm_current_terminal_seq m < u64_max"
    by (simp add: mirror_valid_def)
  have "sat_add64 k 1 = k + 1" if "k < stm_current_terminal_seq m" for k
    using that v by (intro sat_add64_exact) (simp add: mirror_valid_def)
  then show "mirror_snapshot_or_tail l m = (stm_current_terminal_seq m,
      attach_reply (stm_current_terminal_seq m) (stm_journal_base_seq m) (stm_journal m) (stm_size m)
        (snapshot_bytes (stm_screen m)) l)"
    by (cases l) (auto simp: mirror_snapshot_or_tail_def attach_reply_def Let_def should_replay)
qed

section \<open>Sessions\<close>

text \<open>What happens in a session: PTY output, resizes, the exit of the process.\<close>

datatype session_input = In_output "u8 list" | In_resize pty_size | In_exit "int option"

fun event_of :: "u64 \<Rightarrow> session_input \<Rightarrow> terminal_event" where
  "event_of n (In_output bytes) = EvOutput n bytes"
| "event_of n (In_resize sz) = EvResize n sz"
| "event_of n (In_exit code) = EvExit n code"

primrec numbered :: "u64 \<Rightarrow> session_input list \<Rightarrow> terminal_event list" where
  "numbered n [] = []"
| "numbered n (i # is) = event_of n i # numbered (n + 1) is"

fun screen_events :: "session_input \<Rightarrow> screen_event list" where
  "screen_events (In_output bytes) = [Feed bytes]"
| "screen_events (In_resize sz) = [Resize_to (ps_rows sz) (ps_cols sz)]"
| "screen_events (In_exit code) = []"

fun size_after :: "session_input \<Rightarrow> pty_size \<Rightarrow> pty_size" where
  "size_after (In_resize sz) s = sz"
| "size_after i s = s"

fun cache_step ::
  "(uchar \<Rightarrow> usize option) \<Rightarrow> session_input \<Rightarrow> terminal_cache \<Rightarrow> (pty_terminal_frame \<times> terminal_cache) option" where
  "cache_step w (In_output bytes) c = record_output w bytes c"
| "cache_step w (In_resize sz) c = Some (cache_resize sz c)"
| "cache_step w (In_exit code) c = Some (record_exit code c)"

text \<open>The supervisor over a session: the frames it emits and the cache it ends with.\<close>

primrec cache_run ::
  "(uchar \<Rightarrow> usize option) \<Rightarrow> session_input list \<Rightarrow> terminal_cache \<Rightarrow>
   (pty_terminal_frame list \<times> terminal_cache) option" where
  "cache_run w [] c = Some ([], c)"
| "cache_run w (i # is) c =
     (case cache_step w i c of
        None \<Rightarrow> None
      | Some (f, c1) \<Rightarrow> map_option (\<lambda>(fs, c2). (f # fs, c2)) (cache_run w is c1))"

definition mirror_run ::
  "(uchar \<Rightarrow> usize option) \<Rightarrow> pty_terminal_frame list \<Rightarrow> terminal_mirror \<Rightarrow> terminal_mirror option" where
  "mirror_run w = for_each (\<lambda>f m. map_option snd (apply_frame w f m))"

lemma length_numbered [simp]: "length (numbered n is) = length is"
  by (induction "is" arbitrary: n) simp_all

lemma numbered_append: "numbered n (xs @ ys) = numbered n xs @ numbered (n + length xs) ys"
  by (induction xs arbitrary: n) simp_all

lemma event_of_seq [simp]: "terminal_seq (event_of n i) = n"
  by (cases i) simp_all

lemma numbered_seqs: "map terminal_seq (numbered n is) = [n..<n + length is]"
  by (induction "is" arbitrary: n) (simp_all add: upt_conv_Cons del: upt_Suc)

text \<open>The cache or the mirror after the inputs \<open>is\<close>.\<close>

definition kept :: "session_input list \<Rightarrow> terminal_event list" where
  "kept is = drop (length is - 8192) (numbered 1 is)"

definition screen_after ::
  "(uchar \<Rightarrow> usize option) \<Rightarrow> pty_size \<Rightarrow> session_input list \<Rightarrow> terminal_screen \<Rightarrow> bool" where
  "screen_after w sz is s \<longleftrightarrow> wf_screen s \<and>
     screen_run w (concat (map screen_events is)) (screen_new (ps_rows sz) (ps_cols sz)) = Some s"

definition cache_tracks ::
  "(uchar \<Rightarrow> usize option) \<Rightarrow> pty_size \<Rightarrow> session_input list \<Rightarrow> terminal_cache \<Rightarrow> bool" where
  "cache_tracks w sz is c \<longleftrightarrow>
     stc_next_terminal_seq c = length is + 1 \<and> stc_journal c = kept is \<and>
     stc_journal_base_seq c = length is - 8192 + 1 \<and>
     screen_after w sz is (stc_screen c) \<and> stc_size c = fold size_after is sz"

definition mirror_tracks ::
  "(uchar \<Rightarrow> usize option) \<Rightarrow> pty_size \<Rightarrow> session_input list \<Rightarrow> terminal_mirror \<Rightarrow> bool" where
  "mirror_tracks w sz is m \<longleftrightarrow>
     stm_current_terminal_seq m = length is \<and> stm_journal m = kept is \<and>
     stm_journal_base_seq m = length is - 8192 + 1 \<and>
     screen_after w sz is (stm_screen m) \<and> stm_size m = fold size_after is sz"

lemma kept_snoc: "trim_front terminal_journal_max_events (kept is @ [event_of (length is + 1) i]) = kept (is @ [i])"
proof -
  have "length is - (length is - 8192 + 8191) + (length is - 8192) = length is - 8191" by simp
  then show ?thesis
    by (simp add: kept_def trim_front_drop numbered_append terminal_journal_max_events_def)
qed

lemma kept_hd: "\<exists>e r. kept (is @ [i]) = e # r \<and> terminal_seq e = length (is @ [i]) - 8192 + 1"
proof -
  let ?k = "length (is @ [i]) - 8192"
  have lt: "?k < length (numbered 1 (is @ [i]))" by simp
  have "kept (is @ [i]) = numbered 1 (is @ [i]) ! ?k # drop (Suc ?k) (numbered 1 (is @ [i]))"
    unfolding kept_def by (rule Cons_nth_drop_Suc [OF lt, symmetric])
  moreover have "terminal_seq (numbered 1 (is @ [i]) ! ?k) = 1 + ?k"
    using lt numbered_seqs [of 1 "is @ [i]"] by (metis length_numbered nth_map nth_upt add_less_cancel_left)
  ultimately show ?thesis by simp
qed

lemma screen_after_snoc:
  assumes "screen_after w sz is s"
  shows "\<exists>s'. screen_run w (screen_events i) s = Some s' \<and> screen_after w sz (is @ [i]) s'"
proof -
  from assms have "runs_ok (screen_run w (screen_events i) s)"
    by (simp add: screen_after_def screen_run_ok)
  then obtain s' where "screen_run w (screen_events i) s = Some s'" "wf_screen s'"
    by (auto simp: runs_ok_def)
  with assms show ?thesis by (simp add: screen_after_def screen_run_def for_each_append)
qed

lemma allocate_exact:
  "stc_next_terminal_seq c < u64_max \<Longrightarrow>
   allocate_terminal_seq c = (stc_next_terminal_seq c, c\<lparr>stc_next_terminal_seq := stc_next_terminal_seq c + 1\<rparr>)"
  by (simp add: allocate_terminal_seq_def Let_def sat_add64_exact wrap_add64_exact)

lemma cache_step_run:
  assumes "stc_next_terminal_seq c < u64_max" "screen_run w (screen_events i) (stc_screen c) = Some scr"
  shows "cache_step w i c = Some (to_terminal_frame (event_of (stc_next_terminal_seq c) i),
    push_journal (event_of (stc_next_terminal_seq c) i)
      (c\<lparr>stc_next_terminal_seq := stc_next_terminal_seq c + 1, stc_screen := scr,
         stc_size := size_after i (stc_size c)\<rparr>))"
  using assms
  by (cases c; cases i) (auto simp: record_output_def cache_resize_def record_exit_def allocate_exact
      screen_run_def split: option.splits)

lemma cache_step_tracks:
  assumes "cache_tracks w sz is c" "length is + 1 < u64_max"
  shows "\<exists>c'. cache_step w i c = Some (to_terminal_frame (event_of (length is + 1) i), c') \<and>
    cache_tracks w sz (is @ [i]) c'"
proof -
  from assms(1) obtain scr where scr: "screen_run w (screen_events i) (stc_screen c) = Some scr"
    "screen_after w sz (is @ [i]) scr"
    using screen_after_snoc by (metis cache_tracks_def)
  have n: "stc_next_terminal_seq c = length is + 1" "stc_journal c = kept is"
    "stc_size c = fold size_after is sz"
    using assms(1) by (simp_all add: cache_tracks_def)
  obtain e r where hd: "kept (is @ [i]) = e # r" "terminal_seq e = length (is @ [i]) - 8192 + 1"
    using kept_hd by blast
  show ?thesis
    using cache_step_run [OF _ scr(1)] scr(2) n assms(2) hd
    by (simp add: cache_tracks_def push_journal_def Let_def kept_snoc [simplified])
qed

lemma apply_frame_run:
  assumes "stm_current_terminal_seq m < n" "screen_run w (screen_events i) (stm_screen m) = Some scr"
  shows "apply_frame w (to_terminal_frame (event_of n i)) m = Some (True,
    mirror_push_journal (event_of n i)
      (m\<lparr>stm_current_terminal_seq := n, stm_screen := scr, stm_size := size_after i (stm_size m)\<rparr>))"
  using assms
  by (cases m; cases i) (auto simp: screen_run_def split: option.splits)

lemma mirror_step_tracks:
  assumes "mirror_tracks w sz is m"
  shows "\<exists>m'. apply_frame w (to_terminal_frame (event_of (length is + 1) i)) m = Some (True, m') \<and>
    mirror_tracks w sz (is @ [i]) m'"
proof -
  from assms obtain scr where scr: "screen_run w (screen_events i) (stm_screen m) = Some scr"
    "screen_after w sz (is @ [i]) scr"
    using screen_after_snoc by (metis mirror_tracks_def)
  have n: "stm_current_terminal_seq m = length is" "stm_journal m = kept is"
    "stm_size m = fold size_after is sz"
    using assms by (simp_all add: mirror_tracks_def)
  obtain e r where hd: "kept (is @ [i]) = e # r" "terminal_seq e = length (is @ [i]) - 8192 + 1"
    using kept_hd by blast
  show ?thesis
    using apply_frame_run [OF _ scr(1), of "length is + 1"] scr(2) n hd
    by (simp add: mirror_tracks_def mirror_push_journal_def Let_def kept_snoc [simplified])
qed

lemma screen_after_new: "screen_after w sz [] (screen_new (ps_rows sz) (ps_cols sz))"
  by (simp add: screen_after_def screen_run_def wf_screen_new)

lemma cache_new_tracks: "cache_tracks w sz [] (cache_new sz)"
  by (simp add: cache_tracks_def cache_new_def kept_def screen_after_new)

lemma mirror_new_tracks: "mirror_tracks w sz [] (mirror_new sz)"
  by (simp add: mirror_tracks_def mirror_new_def kept_def screen_after_new)

lemma cache_run_tracks:
  assumes "cache_tracks w sz done c" "length done + length is < u64_max"
  shows "\<exists>c'. cache_run w is c = Some (map to_terminal_frame (numbered (length done + 1) is), c') \<and>
    cache_tracks w sz (done @ is) c'"
  using assms
proof (induction "is" arbitrary: "done" c)
  case Nil
  then show ?case by simp
next
  case (Cons i "is")
  then obtain c1 where c1: "cache_step w i c = Some (to_terminal_frame (event_of (length done + 1) i), c1)"
    "cache_tracks w sz (done @ [i]) c1"
    using cache_step_tracks [of w sz "done" c i] by auto
  from Cons.IH [OF c1(2)] Cons.prems(2) c1(1) show ?case by auto
qed

lemma mirror_run_tracks:
  assumes "mirror_tracks w sz done m"
  shows "\<exists>m'. mirror_run w (map to_terminal_frame (numbered (length done + 1) is)) m = Some m' \<and>
    mirror_tracks w sz (done @ is) m'"
  using assms
proof (induction "is" arbitrary: "done" m)
  case Nil
  then show ?case by (simp add: mirror_run_def)
next
  case (Cons i "is")
  then obtain m1 where m1: "apply_frame w (to_terminal_frame (event_of (length done + 1) i)) m = Some (True, m1)"
    "mirror_tracks w sz (done @ [i]) m1"
    using mirror_step_tracks by blast
  from Cons.IH [OF m1(2)] m1(1) show ?case by (simp add: mirror_run_def)
qed

lemma kept_seqs: "map terminal_seq (kept is) = [length is - 8192 + 1..<length is + 1]"
  using numbered_seqs [of 1 "is"] by (simp add: kept_def drop_map [symmetric] drop_upt del: upt_Suc)

lemma tracks_valid:
  "cache_tracks w sz is c \<Longrightarrow> length is < u64_max \<Longrightarrow> cache_valid c"
  "mirror_tracks w sz is m \<Longrightarrow> length is < u64_max \<Longrightarrow> mirror_valid m"
  by (auto simp: cache_tracks_def mirror_tracks_def cache_valid_def mirror_valid_def kept_seqs simp del: upt_Suc)

lemma screen_after_unique: "screen_after w sz is s \<Longrightarrow> screen_after w sz is s' \<Longrightarrow> s = s'"
  by (simp add: screen_after_def)

lemma attach_exact:
  assumes "length is < u64_max" and c: "cache_tracks w sz is c" and "k \<le> length is"
  shows "cache_snapshot_or_tail (Some k) c =
      (length is, [FSnapshot (length is) (stc_size c) (snapshot_bytes (stc_screen c))]) \<or>
    cache_snapshot_or_tail (Some k) c = (length is, map to_terminal_frame (drop k (numbered 1 is))) \<and>
      \<not> list_ex is_resize (drop k (numbered 1 is))"
proof -
  have cur: "current_terminal_seq c = length is"
    using c by (simp add: cache_tracks_def current_terminal_seq_def)
  have suffix: "evs = drop k (numbered 1 is)"
    if evs: "map terminal_seq evs = [k + 1..<length is + 1]" "stc_journal c = older @ evs" for evs older
  proof -
    have len: "length evs = length is - k"
      using arg_cong [OF evs(1), of length] by (simp del: upt_Suc)
    have "kept is = older @ evs" using c evs(2) by (simp add: cache_tracks_def)
    then have n: "numbered 1 is = (take (length is - 8192) (numbered 1 is) @ older) @ evs"
      unfolding kept_def by (metis append_take_drop_id append_assoc)
    then have "length (take (length is - 8192) (numbered 1 is) @ older) + length evs = length is"
      by (metis length_append length_numbered)
    then have "length (take (length is - 8192) (numbered 1 is) @ older) = k" using len assms(3) by simp
    then show ?thesis using n by (metis append_eq_conv_conj)
  qed
  from cache.attach_gapless [OF tracks_valid(1) [OF c assms(1)], of k] assms(3) cur suffix
  show ?thesis unfolding cur snapshot_output_def by auto
qed

lemma screen_after_prefix:
  "screen_after w sz (is @ [i]) s \<Longrightarrow>
   \<exists>s0. screen_after w sz is s0 \<and> screen_run w (screen_events i) s0 = Some s"
  using screen_run_ok [OF wf_screen_new, of w "concat (map screen_events is)" "ps_rows sz" "ps_cols sz"]
  by (auto simp: screen_after_def runs_ok_def screen_run_def for_each_append)

section \<open>Properties\<close>

text \<open>
  C4. The supervisor's journal. Over any session of fewer than \<open>2^64 - 1\<close> inputs the supervisor never
  panics, numbers its events 1, 2, 3, ... without gaps or repeats, emits exactly these events as
  frames, keeps exactly the last 8192 of them, and its screen is the emulator run over all output
  and resizes of the session.
\<close>

theorem supervisor_journal_tracks_session:
  assumes "length is < u64_max"
  shows "\<exists>c. cache_run w is (cache_new sz) = Some (map to_terminal_frame (numbered 1 is), c) \<and>
    current_terminal_seq c = length is \<and>
    stc_journal c = drop (length is - 8192) (numbered 1 is) \<and> length (stc_journal c) \<le> 8192 \<and>
    map terminal_seq (stc_journal c) = [stc_journal_base_seq c..<length is + 1] \<and>
    screen_run w (concat (map screen_events is)) (screen_new (ps_rows sz) (ps_cols sz)) = Some (stc_screen c) \<and>
    stc_size c = fold size_after is sz"
proof -
  obtain c where c: "cache_run w is (cache_new sz) = Some (map to_terminal_frame (numbered 1 is), c)"
    "cache_tracks w sz is c"
    using cache_run_tracks [OF cache_new_tracks, of "is" w sz] assms by auto
  then show ?thesis
    using kept_seqs [of "is"]
    by (intro exI [of _ c])
       (auto simp: cache_tracks_def current_terminal_seq_def screen_after_def kept_def simp del: upt_Suc)
qed

theorem supervisor_journal_tracks_session_witness:
  "\<exists>c. cache_run (\<lambda>_. Some 1) [In_output [104, 105], In_exit (Some 0)]
      (cache_new \<lparr>ps_rows = 2, ps_cols = 4, ps_pixel_width = 0, ps_pixel_height = 0\<rparr>) =
     Some ([FOutput 1 [104, 105], FExit 2 (Some 0)], c) \<and> current_terminal_seq c = 2"
  using supervisor_journal_tracks_session [of "[In_output [104, 105], In_exit (Some 0)]" "\<lambda>_. Some 1"
      "\<lparr>ps_rows = 2, ps_cols = 4, ps_pixel_width = 0, ps_pixel_height = 0\<rparr>"]
  by (auto simp: u64_max_def numeral_2_eq_2)

text \<open>
  C3. The daemon's mirror is a read replica of the supervisor's cache: fed with the frames the
  supervisor emits, from the start of the session, it takes over every frame, ends with the same
  sequence number, journal, screen and size, and answers every attach request with the same
  reply as the supervisor would.
\<close>

theorem mirror_is_read_replica:
  assumes "length is < u64_max" and "cache_run w is (cache_new sz) = Some (fs, c)"
  shows "\<exists>m. mirror_run w fs (mirror_new sz) = Some m \<and>
    stm_current_terminal_seq m = current_terminal_seq c \<and> stm_journal m = stc_journal c \<and>
    stm_journal_base_seq m = stc_journal_base_seq c \<and>
    stm_screen m = stc_screen c \<and> stm_size m = stc_size c \<and>
    (\<forall>l. mirror_snapshot_or_tail l m = cache_snapshot_or_tail l c)"
proof -
  have c: "fs = map to_terminal_frame (numbered 1 is)" "cache_tracks w sz is c"
    using cache_run_tracks [OF cache_new_tracks, of "is" w sz] assms by auto
  obtain m where m: "mirror_run w fs (mirror_new sz) = Some m" "mirror_tracks w sz is m"
    using mirror_run_tracks [OF mirror_new_tracks [of w sz], of "is"] c(1) by auto
  have eq: "stm_current_terminal_seq m = current_terminal_seq c" "stm_journal m = stc_journal c"
    "stm_journal_base_seq m = stc_journal_base_seq c" "stm_screen m = stc_screen c" "stm_size m = stc_size c"
    using c(2) m(2) screen_after_unique
    by (auto simp: cache_tracks_def mirror_tracks_def current_terminal_seq_def)
  moreover have "mirror_snapshot_or_tail l m = cache_snapshot_or_tail l c" for l
    using mirror.attach_answers [OF tracks_valid(2) [OF m(2) assms(1)], of l]
      cache.attach_answers [OF tracks_valid(1) [OF c(2) assms(1)], of l]
    by (simp add: eq snapshot_output_def)
  ultimately show ?thesis using m(1) by blast
qed

theorem mirror_is_read_replica_witness:
  "\<exists>c m. cache_run (\<lambda>_. Some 1) [In_output [104, 105]]
      (cache_new \<lparr>ps_rows = 2, ps_cols = 4, ps_pixel_width = 0, ps_pixel_height = 0\<rparr>) =
     Some ([FOutput 1 [104, 105]], c) \<and>
   mirror_run (\<lambda>_. Some 1) [FOutput 1 [104, 105]]
     (mirror_new \<lparr>ps_rows = 2, ps_cols = 4, ps_pixel_width = 0, ps_pixel_height = 0\<rparr>) = Some m \<and>
   stm_screen m = stc_screen c"
proof -
  let ?sz = "\<lparr>ps_rows = 2, ps_cols = 4, ps_pixel_width = 0, ps_pixel_height = 0\<rparr>"
  obtain c where c: "cache_run (\<lambda>_. Some 1) [In_output [104, 105]] (cache_new ?sz) = Some ([FOutput 1 [104, 105]], c)"
    using cache_run_tracks [OF cache_new_tracks, of "[In_output [104, 105]]" "\<lambda>_. Some 1" ?sz]
    by (auto simp: u64_max_def)
  have "length [In_output [104, 105]] < u64_max" by (simp add: u64_max_def)
  from mirror_is_read_replica [OF this c] c show ?thesis by blast
qed

text \<open>
  Frames may be delivered late or twice: a frame that the mirror does not take over leaves it
  unchanged, the mirror's sequence number never decreases, and a numbered frame that was just
  processed is ignored when it arrives again.
\<close>

lemma mirror_ignores_repeated_frames:
  assumes "apply_frame w f m = Some (taken, m')"
  shows "stm_current_terminal_seq m \<le> stm_current_terminal_seq m' \<and> (\<not> taken \<longrightarrow> m' = m) \<and>
    (frame_terminal_seq f \<noteq> None \<longrightarrow> apply_frame w f m' = Some (False, m'))"
  using assms
  by (cases f) (auto simp: reset_from_snapshot_def mirror_push_journal_def Let_def split: if_splits)

end
