(* ===== verification/Runtime.thy ===== *)
theory Runtime
  imports Session Terminal_Journal
begin

text \<open>
  The daemon's runtime catalogue, \<open>termd/src/runtime/mod.rs\<close>: \<open>SessionRuntime\<close> binds every session
  record of the session manager (theory \<open>Session\<close>) to the PTY that runs its process and to the
  attachments of the connections that watch it.

  The traits \<open>PtyBackend\<close>, \<open>PtySession\<close> and \<open>PtyAttachment\<close> are the record \<open>pty_backend\<close> of their
  methods over the backend's state \<open>'b\<close>, a PTY's state \<open>'p\<close> and an attachment's state \<open>'a\<close>; nothing is assumed
  about them, so that every result holds for a backend that fails at any call. A method that takes
  \<open>&mut self\<close> returns its result and the runtime after the call (\<open>rt_bind\<close> is the \<open>?\<close> operator). The
  clock is the argument \<open>now\<close>.
\<close>

section \<open>The PTY traits\<close>

datatype pty_error = Pty_InvalidCommand string | Pty_Io string | Pty_Backend string

datatype pty_supervisor_status = Sup_Running | Sup_Closing | Sup_Closed

datatype pty_restore_info =
    UnixSocket string nat pty_supervisor_status
  | Tmux string string

record pty_exit_status =
  pe_exit_code :: nat
  pe_signal :: "string option"

record pty_snapshot =
  sn_size :: pty_size
  sn_process_id :: "nat option"
  sn_retained_output :: "u8 list"

record command_spec =
  cs_program :: string
  cs_args :: "string list"
  cs_env :: "(string \<times> string) list"
  cs_removed_env :: "string list"
  cs_cwd :: "string option"

text \<open>The bootstrap of an attachment: the last terminal sequence number, if any.\<close>

type_synonym attachment_bootstrap = "u64 option"

record ('b, 'p, 'a) pty_backend =
  be_spawn_named :: "string \<Rightarrow> command_spec \<Rightarrow> pty_size \<Rightarrow> 'b \<Rightarrow> (pty_error + 'p) \<times> 'b"
  be_reconnect :: "string \<Rightarrow> pty_restore_info \<Rightarrow> pty_size \<Rightarrow> 'b \<Rightarrow> (pty_error + 'p) \<times> 'b"
  be_attach_client ::
    "string \<Rightarrow> pty_restore_info option \<Rightarrow> pty_size \<Rightarrow> string \<Rightarrow> attachment_bootstrap \<Rightarrow> 'b \<Rightarrow> (pty_error + 'a) \<times> 'b"
  be_read :: "usize \<Rightarrow> 'p \<Rightarrow> (pty_error + u8 list) \<times> 'p"
  be_write_all :: "u8 list \<Rightarrow> 'p \<Rightarrow> (pty_error + unit) \<times> 'p"
  be_authority_attach :: "string \<Rightarrow> 'p \<Rightarrow> (pty_error + unit option) \<times> 'p"
  be_authority_detach :: "string \<Rightarrow> 'p \<Rightarrow> (pty_error + unit option) \<times> 'p"
  be_authority_has :: "string \<Rightarrow> 'p \<Rightarrow> (pty_error + bool option) \<times> 'p"
  be_resize :: "pty_size \<Rightarrow> 'p \<Rightarrow> (pty_error + unit) \<times> 'p"
  be_snapshot :: "'p \<Rightarrow> (pty_error + pty_snapshot) \<times> 'p"
  be_terminal_snapshot :: "u64 option \<Rightarrow> 'p \<Rightarrow> (pty_error + pty_terminal_frame list) \<times> 'p"
  be_read_terminal_frame :: "'p \<Rightarrow> (pty_error + pty_terminal_frame option) \<times> 'p"
  be_terminate :: "'p \<Rightarrow> (pty_error + unit) \<times> 'p"
  be_try_wait :: "'p \<Rightarrow> (pty_error + pty_exit_status option) \<times> 'p"
  be_restore_info :: "'p \<Rightarrow> pty_restore_info option"
  be_process_id :: "'p \<Rightarrow> nat option"
  be_set_activity_signal :: "string \<Rightarrow> 'p \<Rightarrow> 'p"
  be_at_read_frame :: "'a \<Rightarrow> (pty_error + u8 list option) \<times> 'a"
  be_at_write_frame :: "u8 list \<Rightarrow> 'a \<Rightarrow> (pty_error + unit) \<times> 'a"
  be_at_detach :: "'a \<Rightarrow> (pty_error + unit) \<times> 'a"

section \<open>State and errors\<close>

datatype runtime_error =
    Rt_SessionAlreadyExists
  | Rt_SessionNotFound
  | Rt_SessionClosed
  | Rt_DeviceNotAttached
  | Rt_InvalidSize
  | Rt_NotReconnectable
  | Rt_Pty pty_error

fun of_session_error :: "session_error \<Rightarrow> runtime_error" where
  "of_session_error SessionAlreadyExists = Rt_SessionAlreadyExists"
| "of_session_error SessionNotFound = Rt_SessionNotFound"
| "of_session_error SessionClosed = Rt_SessionClosed"
| "of_session_error DeviceNotAttached = Rt_DeviceNotAttached"
| "of_session_error InvalidSize = Rt_InvalidSize"

record ('p, 'a) runtime_session =
  rs_pty :: 'p
  rs_watched_attachments :: "(string, 'a) hmap"
  rs_attached_devices :: "string set"
  rs_created_at_ms :: u64
  rs_updated_at_ms :: u64
  rs_termination_confirmed :: bool

record ('b, 'p, 'a) session_runtime =
  rt_backend :: 'b
  rt_sessions :: session_manager
  rt_runtime_sessions :: "(string, ('p, 'a) runtime_session) hmap"
  rt_next_session_number :: u64
  rt_activity_signals :: bool

definition runtime_from_shared_backend :: "'b \<Rightarrow> ('b, 'p, 'a) session_runtime" where
  "runtime_from_shared_backend b =
     \<lparr>rt_backend = b, rt_sessions = [], rt_runtime_sessions = [], rt_next_session_number = 1,
      rt_activity_signals = False\<rparr>"

definition runtime_new_with_activity_signals :: "'b \<Rightarrow> ('b, 'p, 'a) session_runtime" where
  "runtime_new_with_activity_signals b = (runtime_from_shared_backend b)\<lparr>rt_activity_signals := True\<rparr>"

text \<open>
  A persisted session (\<open>SessionStateRecord\<close>). Its id is a UUID; the text form and its parser, from the
  uuid library, are the arguments \<open>uuid_text\<close> and \<open>uuid_parse\<close> of the definitions that convert it.
\<close>

record session_state_record =
  ss_session_id :: nat
  ss_state :: session_state
  ss_size :: terminal_size
  ss_created_at_ms :: u64
  ss_updated_at_ms :: u64
  ss_restore_info :: "pty_restore_info option"

section \<open>Calls that may fail\<close>

type_synonym ('s, 'x) rt_call = "'s \<Rightarrow> (runtime_error + 'x) \<times> 's"

definition rt_return :: "'x \<Rightarrow> ('s, 'x) rt_call" where
  "rt_return x s = (Inr x, s)"

definition rt_fail :: "runtime_error \<Rightarrow> ('s, 'x) rt_call" where
  "rt_fail e s = (Inl e, s)"

definition rt_bind :: "('s, 'x) rt_call \<Rightarrow> ('x \<Rightarrow> ('s, 'y) rt_call) \<Rightarrow> ('s, 'y) rt_call" where
  "rt_bind m f s = (case m s of (Inl e, s') \<Rightarrow> (Inl e, s') | (Inr x, s') \<Rightarrow> f x s')"

text \<open>A call of the session manager.\<close>

definition rt_manager ::
  "(session_manager \<Rightarrow> (session_error + 'x) \<times> session_manager) \<Rightarrow> (('b, 'p, 'a) session_runtime, 'x) rt_call" where
  "rt_manager f r =
     (case f (rt_sessions r) of
        (Inl e, m) \<Rightarrow> (Inl (of_session_error e), r\<lparr>rt_sessions := m\<rparr>)
      | (Inr x, m) \<Rightarrow> (Inr x, r\<lparr>rt_sessions := m\<rparr>))"

definition runtime_session_of ::
  "string \<Rightarrow> (('b, 'p, 'a) session_runtime, ('p, 'a) runtime_session) rt_call" where
  "runtime_session_of sid r =
     (case hm_get (rt_runtime_sessions r) sid of
        None \<Rightarrow> (Inl Rt_SessionNotFound, r) | Some s \<Rightarrow> (Inr s, r))"

text \<open>An assignment through \<open>runtime_session_mut(sid)?\<close>.\<close>

definition put_runtime_session ::
  "string \<Rightarrow> ('p, 'a) runtime_session \<Rightarrow> ('b, 'p, 'a) session_runtime \<Rightarrow> ('b, 'p, 'a) session_runtime" where
  "put_runtime_session sid s r = r\<lparr>rt_runtime_sessions := hm_insert sid s (rt_runtime_sessions r)\<rparr>"

definition rt_modify ::
  "string \<Rightarrow> (('p, 'a) runtime_session \<Rightarrow> ('p, 'a) runtime_session) \<Rightarrow> (('b, 'p, 'a) session_runtime, unit) rt_call" where
  "rt_modify sid f = rt_bind (runtime_session_of sid) (\<lambda>s r. (Inr (), put_runtime_session sid (f s) r))"

text \<open>A call of the session's PTY: its raw result, and its result with the error converted by \<open>?\<close>.\<close>

definition rt_pty_raw ::
  "string \<Rightarrow> ('p \<Rightarrow> 'x \<times> 'p) \<Rightarrow> (('b, 'p, 'a) session_runtime, 'x) rt_call" where
  "rt_pty_raw sid f =
     rt_bind (runtime_session_of sid)
       (\<lambda>s r. let (x, p) = f (rs_pty s) in (Inr x, put_runtime_session sid (s\<lparr>rs_pty := p\<rparr>) r))"

definition rt_result :: "pty_error + 'x \<Rightarrow> ('s, 'x) rt_call" where
  "rt_result x = (case x of Inl e \<Rightarrow> rt_fail (Rt_Pty e) | Inr y \<Rightarrow> rt_return y)"

definition rt_pty ::
  "string \<Rightarrow> ('p \<Rightarrow> (pty_error + 'x) \<times> 'p) \<Rightarrow> (('b, 'p, 'a) session_runtime, 'x) rt_call" where
  "rt_pty sid f = rt_bind (rt_pty_raw sid f) rt_result"

text \<open>A call of the backend.\<close>

definition rt_backend_call ::
  "('b \<Rightarrow> (pty_error + 'x) \<times> 'b) \<Rightarrow> (('b, 'p, 'a) session_runtime, 'x) rt_call" where
  "rt_backend_call f r = (let (x, b) = f (rt_backend r) in rt_result x (r\<lparr>rt_backend := b\<rparr>))"

section \<open>Queries\<close>

definition terminal_size_to_pty_size :: "terminal_size \<Rightarrow> runtime_error + pty_size" where
  "terminal_size_to_pty_size sz =
     (if ts_rows sz = 0 \<or> ts_cols sz = 0 then Inl Rt_InvalidSize
      else Inr \<lparr>ps_rows = ts_rows sz, ps_cols = ts_cols sz, ps_pixel_width = ts_pixel_width sz,
                ps_pixel_height = ts_pixel_height sz\<rparr>)"

definition rt_pty_size :: "terminal_size \<Rightarrow> ('s, pty_size) rt_call" where
  "rt_pty_size sz s = (terminal_size_to_pty_size sz, s)"

definition runtime_state :: "string \<Rightarrow> (('b, 'p, 'a) session_runtime, session_state) rt_call" where
  "runtime_state sid = rt_manager (\<lambda>m. (session_state_of m sid, m))"

definition runtime_size :: "string \<Rightarrow> (('b, 'p, 'a) session_runtime, terminal_size) rt_call" where
  "runtime_size sid = rt_manager (\<lambda>m. (session_size_of m sid, m))"

definition ensure_open_session :: "string \<Rightarrow> (('b, 'p, 'a) session_runtime, unit) rt_call" where
  "ensure_open_session sid =
     rt_bind (runtime_state sid)
       (\<lambda>st. case st of
          Closed \<Rightarrow> rt_fail Rt_SessionClosed
        | _ \<Rightarrow> rt_bind (runtime_session_of sid) (\<lambda>_. rt_return ()))"

definition session_authority_has_device ::
  "('b, 'p, 'a) pty_backend \<Rightarrow> string \<Rightarrow> string \<Rightarrow> (('b, 'p, 'a) session_runtime, bool option) rt_call" where
  "session_authority_has_device be sid dev = rt_pty sid (be_authority_has be dev)"

definition runtime_role ::
  "('b, 'p, 'a) pty_backend \<Rightarrow> string \<Rightarrow> string \<Rightarrow> (('b, 'p, 'a) session_runtime, attach_role option) rt_call" where
  "runtime_role be sid dev r =
     (if hm_get (rt_runtime_sessions r) sid \<noteq> None
      then rt_bind (session_authority_has_device be sid dev)
             (\<lambda>attached. case attached of
                Some b \<Rightarrow> rt_return (if b then Some Operator else None)
              | None \<Rightarrow> rt_manager (\<lambda>m. (session_role m sid dev, m))) r
      else rt_manager (\<lambda>m. (session_role m sid dev, m)) r)"

section \<open>Creating and reconnecting\<close>

definition configure_activity_signal ::
  "('b, 'p, 'a) pty_backend \<Rightarrow> string \<Rightarrow> ('b, 'p, 'a) session_runtime \<Rightarrow> 'p \<Rightarrow> 'p" where
  "configure_activity_signal be sid r p =
     (if rt_activity_signals r then be_set_activity_signal be sid p else p)"

definition runtime_session_new :: "'p \<Rightarrow> u64 \<Rightarrow> u64 \<Rightarrow> ('p, 'a) runtime_session" where
  "runtime_session_new p created updated =
     \<lparr>rs_pty = p, rs_watched_attachments = [], rs_attached_devices = {}, rs_created_at_ms = created,
      rs_updated_at_ms = updated, rs_termination_confirmed = False\<rparr>"

definition insert_runtime_session ::
  "('b, 'p, 'a) pty_backend \<Rightarrow> string \<Rightarrow> 'p \<Rightarrow> u64 \<Rightarrow> u64 \<Rightarrow> (('b, 'p, 'a) session_runtime, unit) rt_call" where
  "insert_runtime_session be sid p created updated r =
     (Inr (), put_runtime_session sid
        (runtime_session_new (configure_activity_signal be sid r p) created updated) r)"

text \<open>A failed assertion or \<open>expect\<close> is \<open>None\<close>.\<close>

definition publish_owned_session ::
  "('b, 'p, 'a) pty_backend \<Rightarrow> string \<Rightarrow> 'p \<Rightarrow> terminal_size \<Rightarrow> u64 \<Rightarrow> ('b, 'p, 'a) session_runtime
    \<Rightarrow> ('b, 'p, 'a) session_runtime option" where
  "publish_owned_session be sid p sz now r =
     (if hm_get (rt_runtime_sessions r) sid \<noteq> None then None
      else
        (case rt_bind (rt_manager (create_session sid)) (\<lambda>_.
                rt_bind (rt_manager (session_resize sid sz)) (\<lambda>_.
                insert_runtime_session be sid p now now)) r of
           (Inl e, _) \<Rightarrow> None
         | (Inr _, r') \<Rightarrow> Some r'))"

definition create_session_with_id ::
  "('b, 'p, 'a) pty_backend \<Rightarrow> string \<Rightarrow> command_spec \<Rightarrow> terminal_size \<Rightarrow> u64
    \<Rightarrow> (('b, 'p, 'a) session_runtime, unit) rt_call" where
  "create_session_with_id be sid command sz now =
     rt_bind (rt_pty_size sz) (\<lambda>psz r.
       if hm_get (rt_runtime_sessions r) sid \<noteq> None then rt_fail Rt_SessionAlreadyExists r
       else
         rt_bind (rt_backend_call (be_spawn_named be sid command psz)) (\<lambda>p.
         rt_bind (rt_manager (create_session sid)) (\<lambda>_.
         rt_bind (rt_manager (session_resize sid sz)) (\<lambda>_.
         insert_runtime_session be sid p now now))) r)"

text \<open>\<open>format!("session-{}", n)\<close>.\<close>

definition session_number_id :: "nat \<Rightarrow> string" where
  "session_number_id n = ''session-'' @ map char_of (dec n)"

lemma session_number_id_inj: "session_number_id m = session_number_id n \<Longrightarrow> m = n"
proof -
  assume "session_number_id m = session_number_id n"
  then have eq: "map (char_of :: nat \<Rightarrow> char) (dec m) = map char_of (dec n)" by (simp add: session_number_id_def)
  have id: "map (of_char \<circ> char_of) (dec k) = dec k" for k
    using dec_digits [of _ k] by (intro map_idI) (fastforce simp: of_char_of)
  have "dec m = map of_char (map (char_of :: nat \<Rightarrow> char) (dec m))" using id [of m] by simp
  also have "\<dots> = dec n" unfolding eq using id [of n] by simp
  finally show "m = n" by (rule dec_inj)
qed

lemma taken_numbers_finite: "finite {m. n \<le> m \<and> hm_get sessions (session_number_id m) \<noteq> None}"
proof (rule finite_imageD [where f = session_number_id])
  show "finite (session_number_id ` {m. n \<le> m \<and> hm_get sessions (session_number_id m) \<noteq> None})"
    by (rule finite_subset [OF _ finite_dom_map_of [of sessions]]) auto
  show "inj_on session_number_id {m. n \<le> m \<and> hm_get sessions (session_number_id m) \<noteq> None}"
    by (rule inj_onI) (rule session_number_id_inj)
qed

lemma taken_numbers_decrease:
  assumes "hm_get sessions (session_number_id n) \<noteq> None"
  shows "card {m. Suc n \<le> m \<and> (\<exists>v. hm_get sessions (session_number_id m) = Some v)} <
    card {m. n \<le> m \<and> (\<exists>v. hm_get sessions (session_number_id m) = Some v)}"
proof -
  let ?taken = "\<lambda>n. {m. n \<le> m \<and> (\<exists>v. hm_get sessions (session_number_id m) = Some v)}"
  have "finite (?taken n)" using taken_numbers_finite [of n sessions] by simp
  moreover have "n \<in> ?taken n" "n \<notin> ?taken (Suc n)" "?taken (Suc n) \<subseteq> ?taken n" using assms by auto
  then have "?taken (Suc n) \<subset> ?taken n" by blast
  ultimately show ?thesis by (rule psubset_card_mono)
qed

text \<open>The search for a free number. Every number is tried once, so at most one try per live session fails.\<close>

function allocate_session_id :: "(string, 'v) hmap \<Rightarrow> nat \<Rightarrow> string \<times> nat" where
  "allocate_session_id sessions n =
     (let sid = session_number_id n in
      if hm_get sessions sid = None then (sid, n + 1) else allocate_session_id sessions (n + 1))"
  by pat_completeness auto
termination
  by (relation "measure (\<lambda>(sessions, n). card {m. n \<le> m \<and> hm_get sessions (session_number_id m) \<noteq> None})")
     (simp_all add: taken_numbers_decrease del: hm_get_insert)

declare allocate_session_id.simps [simp del]

definition runtime_create_session ::
  "('b, 'p, 'a) pty_backend \<Rightarrow> command_spec \<Rightarrow> terminal_size \<Rightarrow> u64 \<Rightarrow> (('b, 'p, 'a) session_runtime, string) rt_call" where
  "runtime_create_session be command sz now r =
     (let (sid, n) = allocate_session_id (rt_runtime_sessions r) (rt_next_session_number r) in
      rt_bind (create_session_with_id be sid command sz now) (\<lambda>_. rt_return sid)
        (r\<lparr>rt_next_session_number := n\<rparr>))"

text \<open>The error of a call that the code ignores.\<close>

definition rt_ignore :: "('s, 'x) rt_call \<Rightarrow> ('s, unit) rt_call" where
  "rt_ignore m s = (Inr (), snd (m s))"

definition recovery_device :: "string \<Rightarrow> string" where
  "recovery_device sid = ''__runtime-recovery-'' @ sid"

definition reconnect_session ::
  "('b, 'p, 'a) pty_backend \<Rightarrow> (nat \<Rightarrow> string) \<Rightarrow> session_state_record \<Rightarrow> (('b, 'p, 'a) session_runtime, unit) rt_call" where
  "reconnect_session be uuid_text rec r0 =
     (let sid = uuid_text (ss_session_id rec) in
      if hm_get (rt_runtime_sessions r0) sid \<noteq> None then rt_fail Rt_SessionAlreadyExists r0
      else if ss_state rec = Closed then rt_fail Rt_SessionClosed r0
      else
        (case ss_restore_info rec of
           None \<Rightarrow> rt_fail Rt_NotReconnectable
         | Some info \<Rightarrow>
             rt_bind (rt_pty_size (ss_size rec)) (\<lambda>psz.
             rt_bind (rt_backend_call (be_reconnect be sid info psz)) (\<lambda>p.
             rt_bind (rt_manager (create_session sid)) (\<lambda>_.
             rt_bind (rt_manager (session_resize sid (ss_size rec))) (\<lambda>_.
             rt_bind
               (if ss_state rec = Running
                then rt_bind (rt_manager (session_attach sid (recovery_device sid))) (\<lambda>_.
                       rt_ignore (rt_manager (session_detach sid (recovery_device sid))))
                else rt_return ()) (\<lambda>_.
             insert_runtime_session be sid p (ss_created_at_ms rec) (ss_updated_at_ms rec))))))) r0)"

section \<open>Ending a session\<close>

definition detach_all_watched_attachments :: "('p, 'a) runtime_session \<Rightarrow> ('p, 'a) runtime_session" where
  "detach_all_watched_attachments s = s\<lparr>rs_watched_attachments := []\<rparr>"

definition cleanup_supervisor_finalize_is_pending :: "('b, 'p, 'a) pty_backend \<Rightarrow> 'p \<Rightarrow> bool" where
  "cleanup_supervisor_finalize_is_pending be p =
     (case be_restore_info be p of
        Some (UnixSocket path pid Sup_Closing) \<Rightarrow> True
      | _ \<Rightarrow> False)"

datatype backend_termination_outcome = ConfirmedDead | StillRunning pty_error | ProbeFailed pty_error

definition terminate_and_probe :: "('b, 'p, 'a) pty_backend \<Rightarrow> 'p \<Rightarrow> backend_termination_outcome \<times> 'p" where
  "terminate_and_probe be p =
     (case be_terminate be p of
        (Inr _, p1) \<Rightarrow> (ConfirmedDead, p1)
      | (Inl terminate_error, p1) \<Rightarrow>
          (case be_try_wait be p1 of
             (Inr (Some _), p2) \<Rightarrow>
               (if cleanup_supervisor_finalize_is_pending be p2 then StillRunning terminate_error
                else ConfirmedDead, p2)
           | (Inr None, p2) \<Rightarrow> (StillRunning terminate_error, p2)
           | (Inl probe_error, p2) \<Rightarrow> (ProbeFailed probe_error, p2)))"

definition confirm_close :: "('b, 'p, 'a) pty_backend \<Rightarrow> string \<Rightarrow> (('b, 'p, 'a) session_runtime, unit) rt_call" where
  "confirm_close be sid =
     rt_bind (ensure_open_session sid) (\<lambda>_.
     rt_bind (runtime_session_of sid) (\<lambda>s.
       if rs_termination_confirmed s then rt_return ()
       else
         rt_bind (rt_pty_raw sid (terminate_and_probe be)) (\<lambda>outcome.
           case outcome of
             ConfirmedDead \<Rightarrow> rt_modify sid (\<lambda>s. s\<lparr>rs_termination_confirmed := True\<rparr>)
           | StillRunning e \<Rightarrow> rt_fail (Rt_Pty e)
           | ProbeFailed e \<Rightarrow> rt_fail (Rt_Pty e))))"

definition rt_remove :: "string \<Rightarrow> ('b, 'p, 'a) session_runtime \<Rightarrow> ('b, 'p, 'a) session_runtime" where
  "rt_remove sid r = r\<lparr>rt_runtime_sessions := hm_remove sid (rt_runtime_sessions r)\<rparr>"

definition finalize_close :: "string \<Rightarrow> (('b, 'p, 'a) session_runtime, unit) rt_call" where
  "finalize_close sid =
     rt_bind (runtime_session_of sid) (\<lambda>s.
       if \<not> rs_termination_confirmed s
       then rt_fail (Rt_Pty (Pty_Backend ''PTY termination has not been confirmed''))
       else
         rt_bind (rt_modify sid detach_all_watched_attachments) (\<lambda>_ r.
           rt_manager (session_close sid) (rt_remove sid r)))"

definition runtime_close :: "('b, 'p, 'a) pty_backend \<Rightarrow> string \<Rightarrow> (('b, 'p, 'a) session_runtime, unit) rt_call" where
  "runtime_close be sid = rt_bind (confirm_close be sid) (\<lambda>_. finalize_close sid)"

definition observe_natural_exit ::
  "('b, 'p, 'a) pty_backend \<Rightarrow> string \<Rightarrow> (('b, 'p, 'a) session_runtime, bool) rt_call" where
  "observe_natural_exit be sid =
     rt_bind (runtime_state sid) (\<lambda>st.
       if st = Closed then rt_return True
       else
         rt_bind (rt_pty sid (be_try_wait be)) (\<lambda>status.
           if status = None then rt_return False
           else
             rt_bind (rt_modify sid
               (\<lambda>s. detach_all_watched_attachments (s\<lparr>rs_termination_confirmed := True\<rparr>))) (\<lambda>_.
             rt_bind (rt_manager (session_close sid)) (\<lambda>_.
             rt_return True))))"

text \<open>\<open>take_for_cleanup\<close> hands the PTY to its caller; \<open>discard\<close> drops it.\<close>

definition take_for_cleanup :: "string \<Rightarrow> (('b, 'p, 'a) session_runtime, 'p) rt_call" where
  "take_for_cleanup sid r =
     (case hm_get (rt_runtime_sessions r) sid of
        None \<Rightarrow> rt_fail Rt_SessionNotFound r
      | Some s \<Rightarrow> rt_bind (rt_manager (session_close sid)) (\<lambda>_. rt_return (rs_pty s)) (rt_remove sid r))"

definition runtime_discard :: "string \<Rightarrow> (('b, 'p, 'a) session_runtime, unit) rt_call" where
  "runtime_discard sid r =
     (case hm_get (rt_runtime_sessions r) sid of
        None \<Rightarrow> rt_fail Rt_SessionNotFound r
      | Some s \<Rightarrow> rt_manager (session_close sid) (rt_remove sid r))"

section \<open>Devices, input and size\<close>

text \<open>What follows a failed call of the PTY: a process that has exited closes the session.\<close>

definition pty_failed ::
  "('b, 'p, 'a) pty_backend \<Rightarrow> string \<Rightarrow> pty_error \<Rightarrow> (('b, 'p, 'a) session_runtime, 'x) rt_call" where
  "pty_failed be sid e =
     rt_bind (observe_natural_exit be sid) (\<lambda>exited. rt_fail (if exited then Rt_SessionClosed else Rt_Pty e))"

definition runtime_attach ::
  "('b, 'p, 'a) pty_backend \<Rightarrow> string \<Rightarrow> string \<Rightarrow> (('b, 'p, 'a) session_runtime, attach_role) rt_call" where
  "runtime_attach be sid dev =
     rt_bind (ensure_open_session sid) (\<lambda>_.
     rt_bind (rt_pty_raw sid (be_authority_attach be dev)) (\<lambda>res.
       case res of
         Inl e \<Rightarrow> pty_failed be sid e
       | Inr _ \<Rightarrow>
           rt_bind (rt_manager (session_attach sid dev)) (\<lambda>role.
           rt_bind (rt_modify sid (\<lambda>s. s\<lparr>rs_attached_devices := insert dev (rs_attached_devices s)\<rparr>)) (\<lambda>_.
           rt_return role))))"

definition runtime_steal_control ::
  "('b, 'p, 'a) pty_backend \<Rightarrow> string \<Rightarrow> string \<Rightarrow> (('b, 'p, 'a) session_runtime, unit) rt_call" where
  "runtime_steal_control be sid dev =
     rt_bind (ensure_open_session sid) (\<lambda>_.
     rt_bind (session_authority_has_device be sid dev) (\<lambda>attached.
       case attached of
         Some b \<Rightarrow> if b then rt_return () else rt_fail Rt_DeviceNotAttached
       | None \<Rightarrow> rt_manager (steal_control sid dev)))"

definition runtime_write_input ::
  "('b, 'p, 'a) pty_backend \<Rightarrow> string \<Rightarrow> string \<Rightarrow> u8 list \<Rightarrow> (('b, 'p, 'a) session_runtime, unit) rt_call" where
  "runtime_write_input be sid dev bytes =
     rt_bind (ensure_open_session sid) (\<lambda>_.
     rt_bind (session_authority_has_device be sid dev) (\<lambda>attached.
     rt_bind
       (case attached of
          Some b \<Rightarrow> rt_return (if b then Some Operator else None)
        | None \<Rightarrow> rt_manager (\<lambda>m. (session_role m sid dev, m))) (\<lambda>role.
       case role of
         None \<Rightarrow> rt_fail Rt_DeviceNotAttached
       | Some Operator \<Rightarrow>
           rt_bind (rt_pty_raw sid (be_write_all be bytes)) (\<lambda>res.
             case res of Inl e \<Rightarrow> pty_failed be sid e | Inr _ \<Rightarrow> rt_return ()))))"

definition forget_device :: "string \<Rightarrow> string \<Rightarrow> (('b, 'p, 'a) session_runtime, unit) rt_call" where
  "forget_device sid dev = rt_modify sid (\<lambda>s. s\<lparr>rs_attached_devices := rs_attached_devices s - {dev}\<rparr>)"

text \<open>The tail of \<open>detach\<close>: a device unknown to the manager is no error if the host has just removed it.\<close>

definition detach_locally ::
  "string \<Rightarrow> string \<Rightarrow> bool \<Rightarrow> (('b, 'p, 'a) session_runtime, unit) rt_call" where
  "detach_locally sid dev detached_by_authority r =
     (case session_detach sid dev (rt_sessions r) of
        (Inr _, m) \<Rightarrow> forget_device sid dev (r\<lparr>rt_sessions := m\<rparr>)
      | (Inl e, m) \<Rightarrow>
          if e = DeviceNotAttached \<and> detached_by_authority then forget_device sid dev (r\<lparr>rt_sessions := m\<rparr>)
          else rt_fail (of_session_error e) (r\<lparr>rt_sessions := m\<rparr>))"

definition runtime_detach ::
  "('b, 'p, 'a) pty_backend \<Rightarrow> string \<Rightarrow> string \<Rightarrow> (('b, 'p, 'a) session_runtime, unit) rt_call" where
  "runtime_detach be sid dev =
     rt_bind (ensure_open_session sid) (\<lambda>_.
     rt_bind (session_authority_has_device be sid dev) (\<lambda>attached.
       case attached of
         None \<Rightarrow> detach_locally sid dev False
       | Some False \<Rightarrow> detach_locally sid dev False
       | Some True \<Rightarrow>
           rt_bind (rt_pty sid (be_authority_detach be dev)) (\<lambda>res.
             detach_locally sid dev (res \<noteq> None))))"

definition runtime_read_output ::
  "('b, 'p, 'a) pty_backend \<Rightarrow> string \<Rightarrow> usize \<Rightarrow> (('b, 'p, 'a) session_runtime, u8 list) rt_call" where
  "runtime_read_output be sid n = rt_bind (ensure_open_session sid) (\<lambda>_. rt_pty sid (be_read be n))"

definition runtime_snapshot ::
  "('b, 'p, 'a) pty_backend \<Rightarrow> string \<Rightarrow> (('b, 'p, 'a) session_runtime, pty_snapshot) rt_call" where
  "runtime_snapshot be sid = rt_bind (ensure_open_session sid) (\<lambda>_. rt_pty sid (be_snapshot be))"

definition runtime_terminal_snapshot ::
  "('b, 'p, 'a) pty_backend \<Rightarrow> string \<Rightarrow> u64 option \<Rightarrow> (('b, 'p, 'a) session_runtime, pty_terminal_frame list) rt_call" where
  "runtime_terminal_snapshot be sid seq = rt_bind (ensure_open_session sid) (\<lambda>_. rt_pty sid (be_terminal_snapshot be seq))"

definition runtime_read_terminal_frame ::
  "('b, 'p, 'a) pty_backend \<Rightarrow> string \<Rightarrow> (('b, 'p, 'a) session_runtime, pty_terminal_frame option) rt_call" where
  "runtime_read_terminal_frame be sid = rt_bind (ensure_open_session sid) (\<lambda>_. rt_pty sid (be_read_terminal_frame be))"

definition touch_updated :: "string \<Rightarrow> u64 \<Rightarrow> (('b, 'p, 'a) session_runtime, unit) rt_call" where
  "touch_updated sid now = rt_modify sid (\<lambda>s. s\<lparr>rs_updated_at_ms := now\<rparr>)"

definition record_watched_attachment_resize ::
  "string \<Rightarrow> terminal_size \<Rightarrow> u64 \<Rightarrow> (('b, 'p, 'a) session_runtime, unit) rt_call" where
  "record_watched_attachment_resize sid sz now =
     rt_bind (ensure_open_session sid) (\<lambda>_.
     rt_bind (rt_manager (session_resize sid sz)) (\<lambda>_.
     touch_updated sid now))"

definition runtime_resize ::
  "('b, 'p, 'a) pty_backend \<Rightarrow> string \<Rightarrow> terminal_size \<Rightarrow> u64 \<Rightarrow> (('b, 'p, 'a) session_runtime, unit) rt_call" where
  "runtime_resize be sid sz now =
     rt_bind (rt_pty_size sz) (\<lambda>psz.
     rt_bind (ensure_open_session sid) (\<lambda>_.
     rt_bind (rt_pty sid (be_resize be psz)) (\<lambda>_.
     rt_bind (rt_manager (session_resize sid sz)) (\<lambda>_.
     touch_updated sid now))))"

section \<open>Watched attachments\<close>

definition start_watched_attachment ::
  "('b, 'p, 'a) pty_backend \<Rightarrow> string \<Rightarrow> string \<Rightarrow> terminal_size \<Rightarrow> attachment_bootstrap
    \<Rightarrow> (('b, 'p, 'a) session_runtime, unit) rt_call" where
  "start_watched_attachment be sid aid sz boot =
     rt_bind (ensure_open_session sid) (\<lambda>_.
     rt_bind (runtime_session_of sid) (\<lambda>s.
       if hm_get (rs_watched_attachments s) aid \<noteq> None then rt_return ()
       else
         rt_bind (rt_pty_size sz) (\<lambda>psz.
         rt_bind (rt_backend_call (be_attach_client be sid (be_restore_info be (rs_pty s)) psz aid boot)) (\<lambda>a.
         rt_modify sid (\<lambda>s. s\<lparr>rs_watched_attachments := hm_insert aid a (rs_watched_attachments s)\<rparr>)))))"

definition drop_watched_attachment ::
  "('b, 'p, 'a) pty_backend \<Rightarrow> string \<Rightarrow> string \<Rightarrow> (('b, 'p, 'a) session_runtime, unit) rt_call" where
  "drop_watched_attachment be sid aid =
     rt_bind (ensure_open_session sid) (\<lambda>_.
     rt_bind (runtime_session_of sid) (\<lambda>s.
       case hm_get (rs_watched_attachments s) aid of
         None \<Rightarrow> rt_return ()
       | Some a \<Rightarrow>
           rt_bind (rt_modify sid (\<lambda>s. s\<lparr>rs_watched_attachments := hm_remove aid (rs_watched_attachments s)\<rparr>)) (\<lambda>_.
           rt_result (fst (be_at_detach be a)))))"

text \<open>A call of a watched attachment, looked up with \<open>ok_or(SessionNotFound)?\<close>.\<close>

definition rt_attachment ::
  "string \<Rightarrow> string \<Rightarrow> ('a \<Rightarrow> (pty_error + 'x) \<times> 'a) \<Rightarrow> (('b, 'p, 'a) session_runtime, 'x) rt_call" where
  "rt_attachment sid aid f =
     rt_bind (runtime_session_of sid) (\<lambda>s.
       case hm_get (rs_watched_attachments s) aid of
         None \<Rightarrow> rt_fail Rt_SessionNotFound
       | Some a \<Rightarrow>
           (let (x, a') = f a in
            rt_bind (rt_modify sid (\<lambda>s. s\<lparr>rs_watched_attachments := hm_insert aid a' (rs_watched_attachments s)\<rparr>)) (\<lambda>_.
            rt_result x)))"

definition read_watched_attachment_frame ::
  "('b, 'p, 'a) pty_backend \<Rightarrow> string \<Rightarrow> string \<Rightarrow> (('b, 'p, 'a) session_runtime, u8 list option) rt_call" where
  "read_watched_attachment_frame be sid aid =
     rt_bind (ensure_open_session sid) (\<lambda>_. rt_attachment sid aid (be_at_read_frame be))"

definition write_watched_attachment_frame ::
  "('b, 'p, 'a) pty_backend \<Rightarrow> string \<Rightarrow> string \<Rightarrow> u8 list \<Rightarrow> (('b, 'p, 'a) session_runtime, unit) rt_call" where
  "write_watched_attachment_frame be sid aid bytes =
     rt_bind (ensure_open_session sid) (\<lambda>_. rt_attachment sid aid (be_at_write_frame be bytes))"

section \<open>Persistence\<close>

definition persisted_record ::
  "('b, 'p, 'a) pty_backend \<Rightarrow> (string \<Rightarrow> nat option) \<Rightarrow> session_manager \<Rightarrow> string \<times> ('p, 'a) runtime_session
    \<Rightarrow> session_state_record option" where
  "persisted_record be uuid_parse m e =
     (case (be_restore_info be (rs_pty (snd e)), uuid_parse (fst e), hm_get m (fst e)) of
        (Some info, Some uid, Some rec) \<Rightarrow>
          Some \<lparr>ss_session_id = uid, ss_state = sr_state rec, ss_size = sr_size rec,
                ss_created_at_ms = rs_created_at_ms (snd e), ss_updated_at_ms = rs_updated_at_ms (snd e),
                ss_restore_info = Some info\<rparr>
      | _ \<Rightarrow> None)"

definition persisted_sessions ::
  "('b, 'p, 'a) pty_backend \<Rightarrow> (string \<Rightarrow> nat option) \<Rightarrow> ('b, 'p, 'a) session_runtime \<Rightarrow> session_state_record list" where
  "persisted_sessions be uuid_parse r =
     List.map_filter (persisted_record be uuid_parse (rt_sessions r)) (rt_runtime_sessions r)"

end
