(* ===== verification/Runtime_Inv.thy ===== *)
theory Runtime_Inv
  imports Runtime
begin

text \<open>
  Results on the runtime catalogue (theory \<open>Runtime\<close>), for an arbitrary PTY backend.

  \<^item> The catalogue and the session manager never drift apart (\<open>runtime_catalogue_consistent\<close>): the
    invariant is proved call by call with the rules for \<open>rt_bind\<close> below.
  \<^item> Calls made for clients never terminate a process (\<open>clients_never_kill_a_session\<close>).
  \<^item> Closing either is confirmed or leaves the session as it was (\<open>close_is_confirmed_or_retryable\<close>).
  \<^item> A persisted session reconnects to what it was (\<open>restart_restores_session\<close>).
\<close>

declare map_of_eq_Some_iff [simp del] Some_eq_map_of_iff [simp del]

section \<open>The bind rules\<close>

lemma rt_bind_Inl: "m r = (Inl e, r') \<Longrightarrow> rt_bind m f r = (Inl e, r')"
  by (simp add: rt_bind_def)

lemma rt_bind_Inr: "m r = (Inr x, r') \<Longrightarrow> rt_bind m f r = f x r'"
  by (simp add: rt_bind_def)

lemma rt_bind_cases:
  obtains (failed) e r' where "m r = (Inl e, r')" "rt_bind m f r = (Inl e, r')"
  | (went) x r' where "m r = (Inr x, r')" "rt_bind m f r = f x r'"
proof (cases "m r")
  case (Pair res r')
  then show thesis by (cases res) (auto intro: failed went simp: rt_bind_def)
qed

section \<open>Open sessions\<close>

definition open_session :: "string \<Rightarrow> ('b, 'p, 'a) session_runtime \<Rightarrow> bool" where
  "open_session sid r \<longleftrightarrow>
     (\<exists>rec s. hm_get (rt_sessions r) sid = Some rec \<and> sr_state rec \<noteq> Closed \<and>
        hm_get (rt_runtime_sessions r) sid = Some s)"

definition open_error :: "string \<Rightarrow> ('b, 'p, 'a) session_runtime \<Rightarrow> runtime_error" where
  "open_error sid r =
     (case hm_get (rt_sessions r) sid of
        None \<Rightarrow> Rt_SessionNotFound
      | Some rec \<Rightarrow> if sr_state rec = Closed then Rt_SessionClosed else Rt_SessionNotFound)"

lemma rt_manager_query [simp]: "rt_manager (\<lambda>m. (g m, m)) r =
    (case g (rt_sessions r) of Inl e \<Rightarrow> (Inl (of_session_error e), r) | Inr x \<Rightarrow> (Inr x, r))"
  by (simp add: rt_manager_def split: sum.splits)

lemma ensure_open_session_eq:
  "ensure_open_session sid r = (if open_session sid r then Inr () else Inl (open_error sid r), r)"
  by (auto simp: ensure_open_session_def runtime_state_def session_state_of_def session_lookup_def rt_bind_def
      runtime_session_of_def rt_fail_def rt_return_def open_session_def open_error_def
      split: option.splits session_state.splits)

lemma ensure_open_then:
  "rt_bind (ensure_open_session sid) f r = (if open_session sid r then f () r else (Inl (open_error sid r), r))"
  by (simp add: rt_bind_def ensure_open_session_eq)

section \<open>The invariant\<close>

text \<open>What the two tables say of one session.\<close>

fun catalogue_entry_ok :: "session_record option \<Rightarrow> ('p, 'a) runtime_session option \<Rightarrow> bool" where
  "catalogue_entry_ok None None \<longleftrightarrow> True"
| "catalogue_entry_ok None (Some s) \<longleftrightarrow> False"
| "catalogue_entry_ok (Some rec) None \<longleftrightarrow> sr_state rec = Closed"
| "catalogue_entry_ok (Some rec) (Some s) \<longleftrightarrow>
     (if sr_state rec = Closed then rs_termination_confirmed s \<and> rs_watched_attachments s = []
      else rs_attached_devices s = dom (hm_get (sr_attached_devices rec)))"

definition runtime_ok :: "('b, 'p, 'a) session_runtime \<Rightarrow> bool" where
  "runtime_ok r \<longleftrightarrow> session_inv (rt_sessions r) \<and> hm_wf (rt_runtime_sessions r) \<and>
     (\<forall>sid. catalogue_entry_ok (hm_get (rt_sessions r) sid) (hm_get (rt_runtime_sessions r) sid))"

text \<open>A call that touches one session keeps the invariant if it keeps it for that session.\<close>

lemma runtime_ok_update:
  assumes "runtime_ok r" "session_inv (rt_sessions r')" "hm_wf (rt_runtime_sessions r')"
    "catalogue_entry_ok (hm_get (rt_sessions r') sid) (hm_get (rt_runtime_sessions r') sid)"
    "\<And>j. j \<noteq> sid \<Longrightarrow> hm_get (rt_sessions r') j = hm_get (rt_sessions r) j \<and>
      hm_get (rt_runtime_sessions r') j = hm_get (rt_runtime_sessions r) j"
  shows "runtime_ok r'"
  unfolding runtime_ok_def
proof (intro conjI allI)
  fix j
  show "catalogue_entry_ok (hm_get (rt_sessions r') j) (hm_get (rt_runtime_sessions r') j)"
    using assms by (cases "j = sid") (auto simp: runtime_ok_def)
qed (use assms in auto)

lemma runtime_ok_entry: "runtime_ok r \<Longrightarrow> catalogue_entry_ok (hm_get (rt_sessions r) sid) (hm_get (rt_runtime_sessions r) sid)"
  by (simp add: runtime_ok_def)

text \<open>
  \<open>keeps\<close>: a call keeps the invariant; \<open>keeps_open sid\<close>: it keeps the invariant of a runtime in which the
  session is open, and the session open if it succeeds; \<open>ends_ok sid\<close>: the former only.
\<close>

definition keeps :: "(('b, 'p, 'a) session_runtime, 'x) rt_call \<Rightarrow> bool" where
  "keeps m \<longleftrightarrow> (\<forall>r. runtime_ok r \<longrightarrow> runtime_ok (snd (m r)))"

definition ends_ok :: "string \<Rightarrow> (('b, 'p, 'a) session_runtime, 'x) rt_call \<Rightarrow> bool" where
  "ends_ok sid m \<longleftrightarrow> (\<forall>r. runtime_ok r \<longrightarrow> open_session sid r \<longrightarrow> runtime_ok (snd (m r)))"

definition keeps_open :: "string \<Rightarrow> (('b, 'p, 'a) session_runtime, 'x) rt_call \<Rightarrow> bool" where
  "keeps_open sid m \<longleftrightarrow> (\<forall>r. runtime_ok r \<longrightarrow> open_session sid r \<longrightarrow>
     runtime_ok (snd (m r)) \<and> (\<forall>x. fst (m r) = Inr x \<longrightarrow> open_session sid (snd (m r))))"

named_theorems rt_rules

lemma keeps_openD:
  assumes "keeps_open sid m" "runtime_ok r" "open_session sid r" "m r = (res, r')"
  shows "runtime_ok r'" "res = Inr x \<Longrightarrow> open_session sid r'"
  using assms unfolding keeps_open_def by (metis fst_conv snd_conv)+

lemma ends_okD: "ends_ok sid m \<Longrightarrow> runtime_ok r \<Longrightarrow> open_session sid r \<Longrightarrow> runtime_ok (snd (m r))"
  by (simp add: ends_ok_def)

lemma keeps_openI:
  assumes "\<And>r res r'. runtime_ok r \<Longrightarrow> open_session sid r \<Longrightarrow> m r = (res, r') \<Longrightarrow>
      runtime_ok r' \<and> (\<forall>x. res = Inr x \<longrightarrow> open_session sid r')"
  shows "keeps_open sid m"
  unfolding keeps_open_def using assms by (metis prod.collapse)

lemma ends_ok_bind [rt_rules]:
  fixes m :: "(('b, 'p, 'a) session_runtime, 'x) rt_call"
  assumes "keeps_open sid m" "\<And>x. ends_ok sid (f x)"
  shows "ends_ok sid (rt_bind m f)"
  unfolding ends_ok_def
proof (intro allI impI)
  fix r :: "('b, 'p, 'a) session_runtime"
  assume r: "runtime_ok r" "open_session sid r"
  show "runtime_ok (snd (rt_bind m f r))"
  proof (cases rule: rt_bind_cases [of m r f])
    case (failed e r')
    with keeps_openD [OF assms(1) r] show ?thesis by simp
  next
    case (went x r')
    with keeps_openD [OF assms(1) r went(1)] ends_okD [OF assms(2)] show ?thesis by simp
  qed
qed

lemma keeps_open_bind [rt_rules]:
  fixes m :: "(('b, 'p, 'a) session_runtime, 'x) rt_call"
  assumes "keeps_open sid m" "\<And>x. keeps_open sid (f x)"
  shows "keeps_open sid (rt_bind m f)"
proof (rule keeps_openI)
  fix r res and r2 :: "('b, 'p, 'a) session_runtime"
  assume r: "runtime_ok r" "open_session sid r" and run: "rt_bind m f r = (res, r2)"
  show "runtime_ok r2 \<and> (\<forall>x. res = Inr x \<longrightarrow> open_session sid r2)"
  proof (cases rule: rt_bind_cases [of m r f])
    case (failed e r')
    with keeps_openD [OF assms(1) r] run show ?thesis by auto
  next
    case (went x r')
    from keeps_openD [OF assms(1) r went(1)] have "runtime_ok r'" "open_session sid r'" by auto
    with keeps_openD [OF assms(2)] went(2) run show ?thesis by metis
  qed
qed

lemma ends_ok_of_open [rt_rules]: "keeps_open sid m \<Longrightarrow> ends_ok sid m"
  by (auto simp: ends_ok_def keeps_open_def)

lemma keeps_guarded [rt_rules]: "ends_ok sid (f ()) \<Longrightarrow> keeps (rt_bind (ensure_open_session sid) f)"
  by (simp add: keeps_def ends_ok_def ensure_open_then)

lemma keeps_open_pure [rt_rules]:
  "keeps_open sid (rt_return x)" "keeps_open sid (rt_fail e)" "keeps_open sid (rt_pty_size sz)" "keeps_open sid (rt_result res)"
  "keeps_open sid (runtime_session_of j)" "keeps_open sid (rt_manager (\<lambda>m. (g m, m)))"
  by (auto simp: keeps_open_def rt_return_def rt_fail_def rt_pty_size_def rt_result_def runtime_session_of_def
      split: sum.splits option.splits)

lemma open_session_cong:
  "hm_get (rt_sessions r') sid = hm_get (rt_sessions r) sid \<Longrightarrow>
   hm_get (rt_runtime_sessions r') sid = hm_get (rt_runtime_sessions r) sid \<Longrightarrow> open_session sid r' = open_session sid r"
  by (simp add: open_session_def)

lemma keeps_open_backend [rt_rules]: "keeps_open sid (rt_backend_call f)"
  by (auto simp: keeps_open_def rt_backend_call_def rt_result_def rt_fail_def rt_return_def runtime_ok_def
      open_session_def split: prod.splits sum.splits)

text \<open>A change of the session's entry that keeps its devices.\<close>

lemma put_session_ok:
  assumes "runtime_ok r" "open_session sid r" "hm_get (rt_runtime_sessions r) sid = Some s"
    "rs_attached_devices s' = rs_attached_devices s"
  shows "runtime_ok (put_runtime_session sid s' r) \<and> open_session sid (put_runtime_session sid s' r)"
proof
  from assms(2) obtain rec where rec: "hm_get (rt_sessions r) sid = Some rec" "sr_state rec \<noteq> Closed"
    by (auto simp: open_session_def)
  show "runtime_ok (put_runtime_session sid s' r)"
    by (rule runtime_ok_update [where sid = sid, OF assms(1)])
       (use assms rec runtime_ok_entry [OF assms(1), of sid] in \<open>auto simp: put_runtime_session_def runtime_ok_def\<close>)
  show "open_session sid (put_runtime_session sid s' r)"
    using rec by (simp add: open_session_def put_runtime_session_def)
qed

lemma keeps_open_modify [rt_rules]:
  fixes f :: "('p, 'a) runtime_session \<Rightarrow> ('p, 'a) runtime_session"
  assumes "\<And>s. rs_attached_devices (f s) = rs_attached_devices s"
  shows "keeps_open sid (rt_modify sid f :: (('b, 'p, 'a) session_runtime, unit) rt_call)"
proof (rule keeps_openI)
  fix r :: "('b, 'p, 'a) session_runtime" and res r'
  assume r: "runtime_ok r" "open_session sid r" and run: "rt_modify sid f r = (res, r')"
  then obtain s where s: "hm_get (rt_runtime_sessions r) sid = Some s" by (auto simp: open_session_def)
  with put_session_ok [OF r s, of "f s"] assms run
  show "runtime_ok r' \<and> (\<forall>x. res = Inr x \<longrightarrow> open_session sid r')"
    by (auto simp: rt_modify_def rt_bind_def runtime_session_of_def)
qed

lemma keeps_open_pty_raw [rt_rules]:
  fixes f :: "'p \<Rightarrow> 'x \<times> 'p"
  shows "keeps_open sid (rt_pty_raw sid f :: (('b, 'p, 'a) session_runtime, 'x) rt_call)"
proof (rule keeps_openI)
  fix r :: "('b, 'p, 'a) session_runtime" and res r'
  assume r: "runtime_ok r" "open_session sid r" and run: "rt_pty_raw sid f r = (res, r')"
  then obtain s where s: "hm_get (rt_runtime_sessions r) sid = Some s" by (auto simp: open_session_def)
  with put_session_ok [OF r s, of "s\<lparr>rs_pty := snd (f (rs_pty s))\<rparr>"] run
  show "runtime_ok r' \<and> (\<forall>x. res = Inr x \<longrightarrow> open_session sid r')"
    by (auto simp: rt_pty_raw_def rt_bind_def runtime_session_of_def split: prod.splits)
qed

lemma keeps_open_pty [rt_rules]: "keeps_open sid (rt_pty sid f)"
  unfolding rt_pty_def by (intro rt_rules)

lemma keeps_open_has [rt_rules]: "keeps_open sid (session_authority_has_device be sid dev)"
  unfolding session_authority_has_device_def by (intro rt_rules)

section \<open>Calls of the session manager\<close>

lemma session_inv_call:
  assumes "session_inv m"
  shows "session_inv (snd (create_session sid m))" "session_inv (snd (session_attach sid dev m))"
    "session_inv (snd (session_detach sid dev m))" "session_inv (snd (session_close sid m))"
    "session_inv (snd (session_resize sid sz m))"
  using session_call_inv [OF assms, of "OpCreate sid"] session_call_inv [OF assms, of "OpAttach sid dev"]
    session_call_inv [OF assms, of "OpDetach sid dev"] session_call_inv [OF assms, of "OpClose sid"]
    session_call_inv [OF assms, of "OpResize sid sz"]
  by (simp_all split: prod.splits sum.splits)

lemma session_attach_open:
  assumes "hm_get m sid = Some rec" "sr_state rec \<noteq> Closed"
  obtains rec' where "session_attach sid dev m = (Inr Operator, hm_insert sid rec' m)" "sr_state rec' = Running"
    "dom (hm_get (sr_attached_devices rec')) = insert dev (dom (hm_get (sr_attached_devices rec)))"
    "sr_size rec' = sr_size rec"
proof -
  let ?r1 = "if sr_state rec = Created then rec\<lparr>sr_state := Running\<rparr> else rec"
  have run: "sr_state ?r1 = Running" using assms(2) by (cases "sr_state rec") auto
  show thesis
  proof (cases "hm_get (sr_attached_devices rec) dev")
    case None
    show thesis
    proof (rule that)
      show "session_attach sid dev m =
          (Inr Operator, hm_insert sid (?r1\<lparr>sr_attached_devices := hm_insert dev Operator (sr_attached_devices ?r1)\<rparr>) m)"
        using assms None by (simp add: session_op_defs Let_def)
    qed (use run in auto)
  next
    case (Some role)
    then have "role = Operator" by (cases role)
    show thesis
    proof (rule that)
      show "session_attach sid dev m = (Inr Operator, hm_insert sid ?r1 m)"
        using assms Some \<open>role = Operator\<close> by (simp add: session_op_defs Let_def)
    qed (use run Some in auto)
  qed
qed

lemma session_detach_open:
  assumes "hm_get m sid = Some rec" "sr_state rec \<noteq> Closed"
  shows "session_detach sid dev m =
    (if dev \<in> dom (hm_get (sr_attached_devices rec))
     then (Inr (), hm_insert sid (rec\<lparr>sr_attached_devices := hm_remove dev (sr_attached_devices rec)\<rparr>) m)
     else (Inl DeviceNotAttached, m))"
  using assms by (auto simp: session_op_defs)

lemma session_close_known:
  "hm_get m sid = Some rec \<Longrightarrow> session_close sid m = (Inr (), hm_insert sid (rec\<lparr>sr_state := Closed, sr_attached_devices := []\<rparr>) m)"
  by (simp add: session_op_defs)

lemma open_sessionE:
  assumes "open_session sid r"
  obtains rec s where "hm_get (rt_sessions r) sid = Some rec" "sr_state rec \<noteq> Closed"
    "hm_get (rt_runtime_sessions r) sid = Some s"
  using assms by (auto simp: open_session_def)

lemma runtime_okD: "runtime_ok r \<Longrightarrow> session_inv (rt_sessions r)" "runtime_ok r \<Longrightarrow> hm_wf (rt_runtime_sessions r)"
  by (auto simp: runtime_ok_def)

lemma keeps_open_resize [rt_rules]:
  "keeps_open sid (rt_manager (session_resize sid sz) :: (('b, 'p, 'a) session_runtime, unit) rt_call)"
proof (rule keeps_openI)
  fix r :: "('b, 'p, 'a) session_runtime" and res r'
  assume r: "runtime_ok r" "open_session sid r" and run: "rt_manager (session_resize sid sz) r = (res, r')"
  from open_sessionE [OF r(2)] obtain rec s where rec: "hm_get (rt_sessions r) sid = Some rec" "sr_state rec \<noteq> Closed"
    and s: "hm_get (rt_runtime_sessions r) sid = Some s" .
  have r': "r' = r\<lparr>rt_sessions := snd (session_resize sid sz (rt_sessions r))\<rparr>"
    using run by (auto simp: rt_manager_def split: prod.splits sum.splits)
  have "session_resize sid sz (rt_sessions r) = (if terminal_size_is_valid sz
      then (Inr (), hm_insert sid (rec\<lparr>sr_size := sz\<rparr>) (rt_sessions r)) else (Inl InvalidSize, rt_sessions r))"
    using rec by (simp add: session_op_defs)
  with r rec s session_inv_call(5) [OF runtime_okD(1) [OF r(1)], of sid sz] runtime_ok_entry [OF r(1), of sid]
  have "runtime_ok r'" unfolding r'
    by (intro runtime_ok_update [where sid = sid, OF r(1)]) (auto simp: runtime_okD)
  moreover have "open_session sid r'" using rec s unfolding r' by (auto simp: open_session_def session_op_defs)
  ultimately show "runtime_ok r' \<and> (\<forall>x. res = Inr x \<longrightarrow> open_session sid r')" by simp
qed

text \<open>Attaching a device in both tables.\<close>

lemma keeps_open_attach [rt_rules]:
  "keeps_open sid (rt_bind (rt_manager (session_attach sid dev)) (\<lambda>role.
     rt_bind (rt_modify sid (\<lambda>s. s\<lparr>rs_attached_devices := insert dev (rs_attached_devices s)\<rparr>)) (\<lambda>_.
     rt_return role)) :: (('b, 'p, 'a) session_runtime, attach_role) rt_call)" (is "keeps_open sid ?m")
proof (rule keeps_openI)
  fix r :: "('b, 'p, 'a) session_runtime" and res r'
  assume r: "runtime_ok r" "open_session sid r" and run: "?m r = (res, r')"
  from open_sessionE [OF r(2)] obtain rec s where rec: "hm_get (rt_sessions r) sid = Some rec" "sr_state rec \<noteq> Closed"
    and s: "hm_get (rt_runtime_sessions r) sid = Some s" .
  from session_attach_open [OF rec, of dev] obtain rec' where
    a: "session_attach sid dev (rt_sessions r) = (Inr Operator, hm_insert sid rec' (rt_sessions r))"
      "sr_state rec' = Running"
      "dom (hm_get (sr_attached_devices rec')) = insert dev (dom (hm_get (sr_attached_devices rec)))" by metis
  define s' where "s' = s\<lparr>rs_attached_devices := insert dev (rs_attached_devices s)\<rparr>"
  from run a(1) s have r': "r' = r\<lparr>rt_sessions := hm_insert sid rec' (rt_sessions r),
      rt_runtime_sessions := hm_insert sid s' (rt_runtime_sessions r)\<rparr>"
    by (auto simp: rt_bind_def rt_manager_def rt_modify_def runtime_session_of_def rt_return_def put_runtime_session_def s'_def)
  have "session_inv (hm_insert sid rec' (rt_sessions r))"
    using session_inv_call(2) [OF runtime_okD(1) [OF r(1)], of sid dev] a(1) by simp
  then have "runtime_ok r'"
    unfolding r' using rec s a runtime_ok_entry [OF r(1), of sid] runtime_okD(2) [OF r(1)]
    by (intro runtime_ok_update [where sid = sid, OF r(1)]) (auto simp: s'_def)
  moreover have "open_session sid r'" using a(2) unfolding r' by (simp add: open_session_def)
  ultimately show "runtime_ok r' \<and> (\<forall>x. res = Inr x \<longrightarrow> open_session sid r')" by simp
qed

text \<open>Detaching it from both, or from the catalogue if the manager does not know it.\<close>

lemma keeps_open_detach [rt_rules]:
  "keeps_open sid (detach_locally sid dev b :: (('b, 'p, 'a) session_runtime, unit) rt_call)"
proof (rule keeps_openI)
  fix r :: "('b, 'p, 'a) session_runtime" and res r'
  assume r: "runtime_ok r" "open_session sid r" and run: "detach_locally sid dev b r = (res, r')"
  from open_sessionE [OF r(2)] obtain rec s where rec: "hm_get (rt_sessions r) sid = Some rec" "sr_state rec \<noteq> Closed"
    and s: "hm_get (rt_runtime_sessions r) sid = Some s" .
  note d = session_detach_open [OF rec, of dev]
  have devs: "rs_attached_devices s = dom (hm_get (sr_attached_devices rec))"
    using runtime_ok_entry [OF r(1), of sid] rec s by simp
  define s' where "s' = s\<lparr>rs_attached_devices := rs_attached_devices s - {dev}\<rparr>"
  show "runtime_ok r' \<and> (\<forall>x. res = Inr x \<longrightarrow> open_session sid r')"
  proof (cases "dev \<in> dom (hm_get (sr_attached_devices rec))")
    case True
    let ?rec' = "rec\<lparr>sr_attached_devices := hm_remove dev (sr_attached_devices rec)\<rparr>"
    from True d run s have r': "r' = r\<lparr>rt_sessions := hm_insert sid ?rec' (rt_sessions r),
        rt_runtime_sessions := hm_insert sid s' (rt_runtime_sessions r)\<rparr>"
      by (auto simp: detach_locally_def forget_device_def rt_bind_def rt_modify_def runtime_session_of_def
          put_runtime_session_def s'_def)
    have "session_inv (hm_insert sid ?rec' (rt_sessions r))"
      using session_inv_call(3) [OF runtime_okD(1) [OF r(1)], of sid dev] d True by simp
    then have "runtime_ok r'"
      unfolding r' using rec s devs runtime_okD(2) [OF r(1)]
      by (intro runtime_ok_update [where sid = sid, OF r(1)]) (auto simp: s'_def dom_def)
    moreover have "open_session sid r'" using rec(2) unfolding r' by (simp add: open_session_def)
    ultimately show ?thesis by simp
  next
    case False
    with devs have "s' = s" by (simp add: s'_def)
    with False d run s r have "r' = r \<or> r' = put_runtime_session sid s r"
      by (auto simp: detach_locally_def forget_device_def rt_bind_def rt_modify_def runtime_session_of_def rt_fail_def
          s'_def split: if_splits)
    with put_session_ok [OF r s, of s] r show ?thesis by auto
  qed
qed

section \<open>Closing\<close>

text \<open>Closing the record of a session whose termination is confirmed, with or without its catalogue entry.\<close>

lemma close_record_ok:
  fixes r :: "('b, 'p, 'a) session_runtime"
  assumes r: "runtime_ok r" and rec: "hm_get (rt_sessions r) sid = Some rec"
    and out: "hm_get (rt_runtime_sessions r') sid = None \<or>
      (\<exists>s. hm_get (rt_runtime_sessions r') sid = Some s \<and> rs_termination_confirmed s \<and> rs_watched_attachments s = [])"
    and wf: "hm_wf (rt_runtime_sessions r')"
    and others: "\<And>j. j \<noteq> sid \<Longrightarrow> hm_get (rt_runtime_sessions r') j = hm_get (rt_runtime_sessions r) j"
    and m: "rt_sessions r' = snd (session_close sid (rt_sessions r))"
  shows "runtime_ok r'"
proof (rule runtime_ok_update [where sid = sid, OF r])
  show "session_inv (rt_sessions r')" unfolding m using r by (simp add: session_inv_call runtime_okD)
  show "catalogue_entry_ok (hm_get (rt_sessions r') sid) (hm_get (rt_runtime_sessions r') sid)"
    using out rec by (auto simp: m session_close_known)
qed (use wf others rec in \<open>auto simp: m session_close_known\<close>)

lemma finish_exit_ok:
  fixes r :: "('b, 'p, 'a) session_runtime"
  assumes r: "runtime_ok r" "open_session sid r"
  shows "runtime_ok (snd (rt_bind (rt_modify sid
      (\<lambda>s. detach_all_watched_attachments (s\<lparr>rs_termination_confirmed := True\<rparr>))) (\<lambda>_.
    rt_bind (rt_manager (session_close sid)) (\<lambda>_. rt_return True)) r))"
proof -
  from open_sessionE [OF r(2)] obtain rec s where rec: "hm_get (rt_sessions r) sid = Some rec"
    and s: "hm_get (rt_runtime_sessions r) sid = Some s" by metis
  show ?thesis
    by (rule close_record_ok [OF r(1) rec])
       (use rec s runtime_okD(2) [OF r(1)] in \<open>auto simp: rt_bind_def rt_modify_def runtime_session_of_def
         put_runtime_session_def rt_manager_def session_close_known rt_return_def detach_all_watched_attachments_def\<close>)
qed

lemma runtime_state_eq: "runtime_state sid r =
    (case hm_get (rt_sessions r) sid of None \<Rightarrow> (Inl Rt_SessionNotFound, r) | Some rec \<Rightarrow> (Inr (sr_state rec), r))"
  by (simp add: runtime_state_def session_state_of_def session_lookup_def split: option.splits)

lemma ends_ok_natural_exit [rt_rules]:
  fixes be :: "('b, 'p, 'a) pty_backend"
  shows "ends_ok sid (observe_natural_exit be sid)"
proof -
  have "ends_ok sid (rt_bind (rt_pty sid (be_try_wait be)) (\<lambda>status.
      if status = None then rt_return False
      else rt_bind (rt_modify sid (\<lambda>s. detach_all_watched_attachments (s\<lparr>rs_termination_confirmed := True\<rparr>))) (\<lambda>_.
        rt_bind (rt_manager (session_close sid)) (\<lambda>_. rt_return True))))" (is "ends_ok sid ?m")
    by (intro ends_ok_bind keeps_open_pty) (auto simp: ends_ok_def rt_return_def finish_exit_ok)
  then have step: "runtime_ok r \<Longrightarrow> open_session sid r \<Longrightarrow> runtime_ok (snd (?m r))" for r by (rule ends_okD)
  show ?thesis
    unfolding ends_ok_def
  proof (intro allI impI)
    fix r :: "('b, 'p, 'a) session_runtime"
    assume r: "runtime_ok r" "open_session sid r"
    then obtain rec where "hm_get (rt_sessions r) sid = Some rec" "sr_state rec \<noteq> Closed"
      using open_sessionE by metis
    then have "observe_natural_exit be sid r = ?m r"
      by (simp add: observe_natural_exit_def rt_bind_def [of "runtime_state sid"] runtime_state_eq)
    with step [OF r] show "runtime_ok (snd (observe_natural_exit be sid r))" by simp
  qed
qed

lemma ends_ok_fail_after:
  fixes m :: "(('b, 'p, 'a) session_runtime, 'x) rt_call"
  assumes "ends_ok sid m"
  shows "ends_ok sid (rt_bind m (\<lambda>x. rt_fail (e x)))"
  unfolding ends_ok_def
proof (intro allI impI)
  fix r :: "('b, 'p, 'a) session_runtime"
  assume "runtime_ok r" "open_session sid r"
  with assms have "runtime_ok (snd (m r))" by (rule ends_okD)
  then show "runtime_ok (snd (rt_bind m (\<lambda>x. rt_fail (e x)) r))"
    by (auto simp: rt_bind_def rt_fail_def split: prod.splits sum.splits)
qed

lemma ends_ok_pty_failed [rt_rules]: "ends_ok sid (pty_failed be sid e)"
  unfolding pty_failed_def by (intro ends_ok_fail_after ends_ok_natural_exit)

text \<open>Everything that may be called on a session at any time.\<close>

lemma keeps_natural_exit:
  fixes be :: "('b, 'p, 'a) pty_backend"
  shows "keeps (observe_natural_exit be sid)"
  unfolding keeps_def
proof (intro allI impI)
  fix r :: "('b, 'p, 'a) session_runtime"
  assume r: "runtime_ok r"
  show "runtime_ok (snd (observe_natural_exit be sid r))"
  proof (cases "open_session sid r")
    case True
    with r ends_ok_natural_exit [of sid be] show ?thesis by (simp add: ends_ok_def)
  next
    case False
    with runtime_ok_entry [OF r, of sid]
    have "observe_natural_exit be sid r = (Inl Rt_SessionNotFound, r) \<or> observe_natural_exit be sid r = (Inr True, r)"
      by (cases "hm_get (rt_sessions r) sid"; cases "hm_get (rt_runtime_sessions r) sid")
         (auto simp: observe_natural_exit_def rt_bind_def runtime_state_eq rt_return_def open_session_def)
    with r show ?thesis by auto
  qed
qed

lemma keeps_confirm_close: "keeps (confirm_close be sid)"
  unfolding confirm_close_def
  by (intro keeps_guarded ends_ok_of_open) (auto intro!: rt_rules split: backend_termination_outcome.split)

lemma rt_remove_get [simp]: "hm_get (rt_runtime_sessions (rt_remove sid r)) j = (if j = sid then None else hm_get (rt_runtime_sessions r) j)"
  by (simp add: rt_remove_def)

lemma removed_ok:
  assumes "runtime_ok r" "hm_get (rt_sessions r) sid = Some rec"
  shows "runtime_ok (snd (rt_manager (session_close sid) (rt_remove sid r)))"
  using assms runtime_okD(2) [OF assms(1)]
  by (intro close_record_ok [OF assms]) (auto simp: rt_manager_def rt_remove_def session_close_known)

lemma entry_has_record: "runtime_ok r \<Longrightarrow> hm_get (rt_runtime_sessions r) sid = Some s \<Longrightarrow> \<exists>rec. hm_get (rt_sessions r) sid = Some rec"
  using runtime_ok_entry [of r sid] by (cases "hm_get (rt_sessions r) sid") auto

lemma keeps_finalize_close: "keeps (finalize_close sid :: (('b, 'p, 'a) session_runtime, unit) rt_call)"
  unfolding keeps_def
proof (intro allI impI)
  fix r :: "('b, 'p, 'a) session_runtime"
  assume r: "runtime_ok r"
  show "runtime_ok (snd (finalize_close sid r))"
  proof (cases "hm_get (rt_runtime_sessions r) sid")
    case (Some s)
    then obtain rec where rec: "hm_get (rt_sessions r) sid = Some rec" using entry_has_record [OF r] by blast
    let ?r = "put_runtime_session sid (detach_all_watched_attachments s) r"
    have same: "rt_remove sid ?r = rt_remove sid r"
      by (simp add: rt_remove_def put_runtime_session_def delete_update_same)
    show ?thesis
      using Some removed_ok [OF r rec] r
      by (simp add: finalize_close_def rt_bind_def runtime_session_of_def rt_fail_def rt_modify_def same)
  qed (use r in \<open>simp add: finalize_close_def rt_bind_def runtime_session_of_def\<close>)
qed

lemma keeps_bind: "keeps m \<Longrightarrow> (\<And>x. keeps (f x)) \<Longrightarrow> keeps (rt_bind m f)"
  unfolding keeps_def by (metis rt_bind_cases snd_conv)

lemma keeps_runtime_close: "keeps (runtime_close be sid)"
  unfolding runtime_close_def by (intro keeps_bind keeps_confirm_close keeps_finalize_close)

lemma keeps_discard: "keeps (runtime_discard sid)"
  unfolding keeps_def runtime_discard_def
  by (auto simp: rt_fail_def split: option.split dest: entry_has_record intro: removed_ok)

lemma keeps_take_for_cleanup: "keeps (take_for_cleanup sid :: (('b, 'p, 'a) session_runtime, 'p) rt_call)"
  unfolding keeps_def
proof (intro allI impI)
  fix r :: "('b, 'p, 'a) session_runtime"
  assume r: "runtime_ok r"
  show "runtime_ok (snd (take_for_cleanup sid r))"
  proof (cases "hm_get (rt_runtime_sessions r) sid")
    case (Some s)
    then obtain rec where rec: "hm_get (rt_sessions r) sid = Some rec" using entry_has_record [OF r] by blast
    from removed_ok [OF r rec] Some show ?thesis
      by (cases rule: rt_bind_cases [of "rt_manager (session_close sid)" "rt_remove sid r" "\<lambda>_. rt_return (rs_pty s)"])
         (simp_all add: take_for_cleanup_def rt_return_def)
  qed (use r in \<open>simp add: take_for_cleanup_def rt_fail_def\<close>)
qed

section \<open>Creating\<close>

text \<open>Entering a new session in both tables: the record may be any open one without devices.\<close>

lemma enter_ok:
  assumes "runtime_ok r" "hm_get (rt_sessions r) sid = None"
    and "session_inv (rt_sessions r')" "hm_get (rt_sessions r') sid = Some rec" "sr_state rec \<noteq> Closed"
      "sr_attached_devices rec = []"
    and "\<And>j. j \<noteq> sid \<Longrightarrow> hm_get (rt_sessions r') j = hm_get (rt_sessions r) j"
    and "rt_runtime_sessions r' = hm_insert sid s (rt_runtime_sessions r)" "rs_attached_devices s = {}"
  shows "runtime_ok r'"
  using assms runtime_okD(2) [OF assms(1)]
  by (intro runtime_ok_update [where sid = sid, OF assms(1)]) auto

lemma create_resize_fresh:
  assumes "hm_get m sid = None" "terminal_size_is_valid sz"
  shows "create_session sid m = (Inr (), hm_insert sid session_record_new m)"
    "session_resize sid sz (hm_insert sid session_record_new m) =
      (Inr (), hm_insert sid (session_record_new\<lparr>sr_size := sz\<rparr>) (hm_insert sid session_record_new m))"
  using assms by (simp_all add: session_op_defs session_record_new_def)

lemma valid_size_iff: "terminal_size_to_pty_size sz = Inr psz \<Longrightarrow> terminal_size_is_valid sz"
  by (auto simp: terminal_size_to_pty_size_def terminal_size_is_valid_def split: if_splits)

text \<open>The tail shared by \<open>publish_owned_session\<close> and \<open>create_session_with_id\<close>.\<close>

definition enter_session where
  "enter_session be sid p sz created updated =
     rt_bind (rt_manager (create_session sid)) (\<lambda>_.
     rt_bind (rt_manager (session_resize sid sz)) (\<lambda>_.
     insert_runtime_session be sid p created updated))"

lemma enter_session_known:
  "hm_get (rt_sessions r) sid = Some rec \<Longrightarrow> enter_session be sid p sz c u r = (Inl Rt_SessionAlreadyExists, r)"
  by (simp add: enter_session_def rt_bind_def rt_manager_def create_session_def)

lemma enter_session_fresh:
  assumes "hm_get (rt_sessions r) sid = None" "terminal_size_is_valid sz"
  shows "enter_session be sid p sz c u r = (Inr (),
    r\<lparr>rt_sessions := hm_insert sid (session_record_new\<lparr>sr_size := sz\<rparr>) (hm_insert sid session_record_new (rt_sessions r)),
      rt_runtime_sessions := hm_insert sid (runtime_session_new (configure_activity_signal be sid r p) c u)
        (rt_runtime_sessions r)\<rparr>)"
  using create_resize_fresh [OF assms]
  by (simp add: enter_session_def rt_bind_def rt_manager_def insert_runtime_session_def put_runtime_session_def
      configure_activity_signal_def)

lemma enter_session_ok:
  assumes "runtime_ok r" "terminal_size_is_valid sz"
  shows "runtime_ok (snd (enter_session be sid p sz c u r))"
proof (cases "hm_get (rt_sessions r) sid")
  case None
  let ?m = "hm_insert sid (session_record_new\<lparr>sr_size := sz\<rparr>) (hm_insert sid session_record_new (rt_sessions r))"
  have "session_inv ?m"
    using session_inv_call(1) [OF runtime_okD(1) [OF assms(1)], of sid]
      session_inv_call(5) [of "hm_insert sid session_record_new (rt_sessions r)" sid sz] create_resize_fresh [OF None assms(2)]
    by simp
  then show ?thesis
    unfolding enter_session_fresh [OF None assms(2)] snd_conv
    by (intro enter_ok [OF assms(1) None]) (auto simp: session_record_new_def runtime_session_new_def)
qed (use assms in \<open>simp add: enter_session_known\<close>)

lemma runtime_ok_fields:
  "rt_sessions r' = rt_sessions r \<Longrightarrow> rt_runtime_sessions r' = rt_runtime_sessions r \<Longrightarrow> runtime_ok r' = runtime_ok r"
  by (simp add: runtime_ok_def)

lemma rt_backend_call_eq: "rt_backend_call f r = (case f (rt_backend r) of
    (Inl e, b) \<Rightarrow> (Inl (Rt_Pty e), r\<lparr>rt_backend := b\<rparr>) | (Inr x, b) \<Rightarrow> (Inr x, r\<lparr>rt_backend := b\<rparr>))"
  by (simp add: rt_backend_call_def rt_result_def rt_fail_def rt_return_def split: prod.splits sum.splits)

lemma keeps_create_with_id: "keeps (create_session_with_id be sid command sz now)"
  unfolding keeps_def create_session_with_id_def enter_session_def [symmetric]
  by (auto simp: rt_bind_def [of "rt_pty_size sz"] rt_pty_size_def rt_fail_def
      rt_bind_def [of "rt_backend_call _"] rt_backend_call_eq
      intro!: enter_session_ok dest: valid_size_iff split: prod.splits sum.splits)
     (simp_all add: runtime_ok_def)

lemma publish_owned_ok:
  "runtime_ok r \<Longrightarrow> publish_owned_session be sid p sz now r = Some r' \<Longrightarrow> runtime_ok r'"
proof -
  assume r: "runtime_ok r" and p: "publish_owned_session be sid p sz now r = Some r'"
  then have e: "enter_session be sid p sz now now r = (Inr (), r')"
    by (auto simp: publish_owned_session_def enter_session_def split: if_splits prod.splits sum.splits)
  have "terminal_size_is_valid sz"
  proof (rule ccontr)
    assume "\<not> terminal_size_is_valid sz"
    with e show False
      by (auto simp: enter_session_def rt_bind_def rt_manager_def session_resize_def split: prod.splits sum.splits)
  qed
  from enter_session_ok [OF r this, of be sid p now now] e show ?thesis by simp
qed

lemma keeps_create:
  fixes be :: "('b, 'p, 'a) pty_backend"
  shows "keeps (runtime_create_session be command sz now)"
  unfolding keeps_def
proof (intro allI impI)
  fix r :: "('b, 'p, 'a) session_runtime"
  assume "runtime_ok r"
  obtain sid n where a: "allocate_session_id (rt_runtime_sessions r) (rt_next_session_number r) = (sid, n)" by force
  let ?r = "r\<lparr>rt_next_session_number := n\<rparr>"
  have "runtime_ok ?r" using \<open>runtime_ok r\<close> by (simp add: runtime_ok_def)
  with keeps_create_with_id [of be sid command sz now]
  have "runtime_ok (snd (create_session_with_id be sid command sz now ?r))" by (simp add: keeps_def)
  then show "runtime_ok (snd (runtime_create_session be command sz now r))"
    by (auto simp: runtime_create_session_def a rt_bind_def rt_return_def split: prod.splits sum.splits)
qed

text \<open>What a reconnected session looks like: its state and size, and no devices.\<close>

definition reconnected_record :: "session_state_record \<Rightarrow> session_record \<Rightarrow> bool" where
  "reconnected_record rec m \<longleftrightarrow> sr_state m = ss_state rec \<and> sr_size m = ss_size rec \<and> sr_attached_devices m = []"

lemma recovery_attach_detach:
  assumes "hm_get m sid = Some rec" "sr_state rec = Created" "sr_attached_devices rec = []"
  obtains rec' where "session_attach sid d m = (Inr Operator, hm_insert sid rec' m)"
    "session_detach sid d (hm_insert sid rec' m) =
      (Inr (), hm_insert sid (rec\<lparr>sr_state := Running\<rparr>) (hm_insert sid rec' m))"
proof (rule that [of "rec\<lparr>sr_state := Running, sr_attached_devices := [(d, Operator)]\<rparr>"])
  show "session_attach sid d m = (Inr Operator, hm_insert sid (rec\<lparr>sr_state := Running, sr_attached_devices := [(d, Operator)]\<rparr>) m)"
    using assms by (simp add: session_op_defs Let_def)
  show "session_detach sid d (hm_insert sid (rec\<lparr>sr_state := Running, sr_attached_devices := [(d, Operator)]\<rparr>) m) =
      (Inr (), hm_insert sid (rec\<lparr>sr_state := Running\<rparr>)
        (hm_insert sid (rec\<lparr>sr_state := Running, sr_attached_devices := [(d, Operator)]\<rparr>) m))"
    using assms by (cases rec) (simp add: session_op_defs)
qed

lemma reconnect_fresh:
  assumes "hm_get (rt_runtime_sessions r) sid = None" "hm_get (rt_sessions r) sid = None"
    and "sid = uuid_text (ss_session_id rec)" "ss_state rec \<noteq> Closed" "ss_restore_info rec = Some info"
    and "terminal_size_to_pty_size (ss_size rec) = Inr psz" "be_reconnect be sid info psz (rt_backend r) = (Inr p, b)"
  obtains m r' where "reconnect_session be uuid_text rec r = (Inr (), r')" "reconnected_record rec m"
    "hm_get (rt_sessions r') sid = Some m" "\<And>j. j \<noteq> sid \<Longrightarrow> hm_get (rt_sessions r') j = hm_get (rt_sessions r) j"
    "rt_runtime_sessions r' = hm_insert sid
      (runtime_session_new (configure_activity_signal be sid r p) (ss_created_at_ms rec) (ss_updated_at_ms rec))
      (rt_runtime_sessions r)"
    "session_inv (rt_sessions r) \<Longrightarrow> session_inv (rt_sessions r')"
proof -
  note size = valid_size_iff [OF assms(6)]
  note cr = create_resize_fresh [OF assms(2) size]
  let ?new = "session_record_new\<lparr>sr_size := ss_size rec\<rparr>"
  let ?m1 = "hm_insert sid session_record_new (rt_sessions r)"
  let ?m2 = "hm_insert sid ?new ?m1"
  let ?d = "recovery_device sid"
  have inv2: "session_inv ?m2" if "session_inv (rt_sessions r)"
    using session_inv_call(5) [of ?m1 sid "ss_size rec"] session_inv_call(1) [OF that, of sid] cr by simp
  have new: "hm_get ?m2 sid = Some ?new" "sr_state ?new = Created" "sr_attached_devices ?new = []"
    by (simp_all add: session_record_new_def)
  obtain rec' where att: "session_attach sid ?d ?m2 = (Inr Operator, hm_insert sid rec' ?m2)"
    and det: "session_detach sid ?d (hm_insert sid rec' ?m2) =
      (Inr (), hm_insert sid (?new\<lparr>sr_state := Running\<rparr>) (hm_insert sid rec' ?m2))"
    using recovery_attach_detach [OF new] by metis
  have inv3: "session_inv (hm_insert sid (?new\<lparr>sr_state := Running\<rparr>) (hm_insert sid rec' ?m2))" if "session_inv (rt_sessions r)"
    using session_inv_call(3) [of "hm_insert sid rec' ?m2" sid ?d] session_inv_call(2) [OF inv2 [OF that], of sid ?d] att det
    by simp
  let ?m = "if ss_state rec = Running then ?new\<lparr>sr_state := Running\<rparr> else ?new"
  let ?ms = "if ss_state rec = Running then hm_insert sid (?new\<lparr>sr_state := Running\<rparr>) (hm_insert sid rec' ?m2) else ?m2"
  let ?r' = "r\<lparr>rt_backend := b, rt_sessions := ?ms, rt_runtime_sessions := hm_insert sid
      (runtime_session_new (configure_activity_signal be sid r p) (ss_created_at_ms rec) (ss_updated_at_ms rec))
      (rt_runtime_sessions r)\<rparr>"
  have st: "ss_state rec = Running \<or> ss_state rec = Created" using assms(4) by (cases "ss_state rec") auto
  show thesis
  proof (rule that [of ?r' ?m])
    show "reconnect_session be uuid_text rec r = (Inr (), ?r')"
      using assms(1,4-7) st cr att det unfolding assms(3) [symmetric]
      by (auto simp: reconnect_session_def Let_def assms(3) [symmetric] rt_bind_def rt_pty_size_def rt_backend_call_eq
          rt_manager_def rt_ignore_def rt_return_def insert_runtime_session_def put_runtime_session_def configure_activity_signal_def)
    show "reconnected_record rec ?m" using st by (auto simp: reconnected_record_def session_record_new_def)
    show "session_inv (rt_sessions r) \<Longrightarrow> session_inv (rt_sessions ?r')" using inv2 inv3 by simp
  qed auto
qed

lemma reconnect_known:
  assumes "hm_get (rt_runtime_sessions r) (uuid_text (ss_session_id rec)) = None"
    "hm_get (rt_sessions r) (uuid_text (ss_session_id rec)) = Some old"
  shows "rt_sessions (snd (reconnect_session be uuid_text rec r)) = rt_sessions r \<and>
    rt_runtime_sessions (snd (reconnect_session be uuid_text rec r)) = rt_runtime_sessions r"
  using assms
  by (auto simp: reconnect_session_def Let_def rt_fail_def rt_bind_def rt_pty_size_def rt_backend_call_eq rt_manager_def
      create_session_def split: option.split sum.split prod.split)

lemma reconnect_refused:
  assumes "hm_get (rt_runtime_sessions r) (uuid_text (ss_session_id rec)) \<noteq> None \<or> ss_state rec = Closed \<or>
      ss_restore_info rec = None \<or> (\<exists>e. terminal_size_to_pty_size (ss_size rec) = Inl e)"
  shows "snd (reconnect_session be uuid_text rec r) = r"
  using assms by (auto simp: reconnect_session_def Let_def rt_fail_def rt_bind_def rt_pty_size_def split: option.split)

lemma reconnect_backend_failed:
  assumes "hm_get (rt_runtime_sessions r) (uuid_text (ss_session_id rec)) = None" "ss_state rec \<noteq> Closed"
    "ss_restore_info rec = Some info" "terminal_size_to_pty_size (ss_size rec) = Inr psz"
    "be_reconnect be (uuid_text (ss_session_id rec)) info psz (rt_backend r) = (Inl e, b)"
  shows "reconnect_session be uuid_text rec r = (Inl (Rt_Pty e), r\<lparr>rt_backend := b\<rparr>)"
  using assms by (simp add: reconnect_session_def Let_def rt_bind_def rt_pty_size_def rt_backend_call_eq)

lemma keeps_reconnect:
  fixes be :: "('b, 'p, 'a) pty_backend"
  shows "keeps (reconnect_session be uuid_text rec)"
  unfolding keeps_def
proof (intro allI impI)
  fix r :: "('b, 'p, 'a) session_runtime"
  assume r: "runtime_ok r"
  let ?sid = "uuid_text (ss_session_id rec)"
  show "runtime_ok (snd (reconnect_session be uuid_text rec r))"
  proof (cases "hm_get (rt_runtime_sessions r) ?sid \<noteq> None \<or> ss_state rec = Closed \<or>
      ss_restore_info rec = None \<or> (\<exists>e. terminal_size_to_pty_size (ss_size rec) = Inl e)")
    case True
    from reconnect_refused [where r = r and rec = rec and uuid_text = uuid_text, OF this] r show ?thesis by simp
  next
    case False
    then obtain info psz where ok: "hm_get (rt_runtime_sessions r) ?sid = None" "ss_state rec \<noteq> Closed"
        "ss_restore_info rec = Some info" "terminal_size_to_pty_size (ss_size rec) = Inr psz"
      by (cases "terminal_size_to_pty_size (ss_size rec)") auto
    obtain res b where be: "be_reconnect be ?sid info psz (rt_backend r) = (res, b)" by force
    show ?thesis
    proof (cases res)
      case (Inl e)
      with reconnect_backend_failed [where r = r and rec = rec and uuid_text = uuid_text, OF ok] be r
      show ?thesis by (simp add: runtime_ok_def)
    next
      case (Inr p)
      show ?thesis
      proof (cases "hm_get (rt_sessions r) ?sid")
        case None
        from be Inr have be': "be_reconnect be ?sid info psz (rt_backend r) = (Inr p, b)" by simp
        obtain m r' where rc: "reconnect_session be uuid_text rec r = (Inr (), r')" "reconnected_record rec m"
          "hm_get (rt_sessions r') ?sid = Some m" "\<And>j. j \<noteq> ?sid \<Longrightarrow> hm_get (rt_sessions r') j = hm_get (rt_sessions r) j"
          "rt_runtime_sessions r' = hm_insert ?sid
            (runtime_session_new (configure_activity_signal be ?sid r p) (ss_created_at_ms rec) (ss_updated_at_ms rec))
            (rt_runtime_sessions r)"
          "session_inv (rt_sessions r) \<Longrightarrow> session_inv (rt_sessions r')"
          using reconnect_fresh [where r = r and sid = ?sid and rec = rec and uuid_text = uuid_text, OF ok(1) None refl ok(2-4) be'] by metis
        then show ?thesis
          using enter_ok [OF r None, of r' m] ok(2) runtime_okD(1) [OF r]
          by (simp add: reconnected_record_def runtime_session_new_def)
      next
        case (Some old)
        with reconnect_known [of r uuid_text rec old be] ok(1) r show ?thesis by (simp add: runtime_ok_def)
      qed
    qed
  qed
qed

section \<open>The runtime as a state machine\<close>

datatype 'p runtime_op =
    Op_publish string 'p terminal_size u64
  | Op_create command_spec terminal_size u64
  | Op_create_with_id string command_spec terminal_size u64
  | Op_reconnect session_state_record
  | Op_attach string string
  | Op_detach string string
  | Op_steal string string
  | Op_role string string
  | Op_write string string "u8 list"
  | Op_read string usize
  | Op_snapshot string
  | Op_terminal_snapshot string "u64 option"
  | Op_read_frame string
  | Op_resize string terminal_size u64
  | Op_watched_resize string terminal_size u64
  | Op_start_watched string string terminal_size "u64 option"
  | Op_drop_watched string string
  | Op_read_watched string string
  | Op_write_watched string string "u8 list"
  | Op_natural_exit string
  | Op_confirm_close string
  | Op_finalize_close string
  | Op_close string
  | Op_discard string
  | Op_take string

fun runtime_step ::
  "('b, 'p, 'a) pty_backend \<Rightarrow> (nat \<Rightarrow> string) \<Rightarrow> 'p runtime_op \<Rightarrow> ('b, 'p, 'a) session_runtime \<Rightarrow> ('b, 'p, 'a) session_runtime" where
  "runtime_step be ut (Op_publish sid p sz now) r = (case publish_owned_session be sid p sz now r of Some r' \<Rightarrow> r' | None \<Rightarrow> r)"
| "runtime_step be ut (Op_create command sz now) r = snd (runtime_create_session be command sz now r)"
| "runtime_step be ut (Op_create_with_id sid command sz now) r = snd (create_session_with_id be sid command sz now r)"
| "runtime_step be ut (Op_reconnect rec) r = snd (reconnect_session be ut rec r)"
| "runtime_step be ut (Op_attach sid dev) r = snd (runtime_attach be sid dev r)"
| "runtime_step be ut (Op_detach sid dev) r = snd (runtime_detach be sid dev r)"
| "runtime_step be ut (Op_steal sid dev) r = snd (runtime_steal_control be sid dev r)"
| "runtime_step be ut (Op_role sid dev) r = snd (runtime_role be sid dev r)"
| "runtime_step be ut (Op_write sid dev bytes) r = snd (runtime_write_input be sid dev bytes r)"
| "runtime_step be ut (Op_read sid n) r = snd (runtime_read_output be sid n r)"
| "runtime_step be ut (Op_snapshot sid) r = snd (runtime_snapshot be sid r)"
| "runtime_step be ut (Op_terminal_snapshot sid seq) r = snd (runtime_terminal_snapshot be sid seq r)"
| "runtime_step be ut (Op_read_frame sid) r = snd (runtime_read_terminal_frame be sid r)"
| "runtime_step be ut (Op_resize sid sz now) r = snd (runtime_resize be sid sz now r)"
| "runtime_step be ut (Op_watched_resize sid sz now) r = snd (record_watched_attachment_resize sid sz now r)"
| "runtime_step be ut (Op_start_watched sid aid sz boot) r = snd (start_watched_attachment be sid aid sz boot r)"
| "runtime_step be ut (Op_drop_watched sid aid) r = snd (drop_watched_attachment be sid aid r)"
| "runtime_step be ut (Op_read_watched sid aid) r = snd (read_watched_attachment_frame be sid aid r)"
| "runtime_step be ut (Op_write_watched sid aid bytes) r = snd (write_watched_attachment_frame be sid aid bytes r)"
| "runtime_step be ut (Op_natural_exit sid) r = snd (observe_natural_exit be sid r)"
| "runtime_step be ut (Op_confirm_close sid) r = snd (confirm_close be sid r)"
| "runtime_step be ut (Op_finalize_close sid) r = snd (finalize_close sid r)"
| "runtime_step be ut (Op_close sid) r = snd (runtime_close be sid r)"
| "runtime_step be ut (Op_discard sid) r = snd (runtime_discard sid r)"
| "runtime_step be ut (Op_take sid) r = snd (take_for_cleanup sid r)"

inductive runtime_reachable ::
  "('b, 'p, 'a) pty_backend \<Rightarrow> (nat \<Rightarrow> string) \<Rightarrow> ('b, 'p, 'a) session_runtime \<Rightarrow> bool"
  for be :: "('b, 'p, 'a) pty_backend" and ut :: "nat \<Rightarrow> string" where
  runtime_init: "runtime_reachable be ut (runtime_from_shared_backend b)"
| runtime_init_signals: "runtime_reachable be ut (runtime_new_with_activity_signals b)"
| runtime_next: "runtime_reachable be ut r \<Longrightarrow> runtime_reachable be ut (runtime_step be ut op r)"

lemma ends_ok_attachment: "keeps_open sid (rt_attachment sid aid f)"
  unfolding rt_attachment_def by (auto intro!: rt_rules split: option.split prod.split)

lemma keeps_attach: "keeps (runtime_attach be sid dev)"
  unfolding runtime_attach_def
  by (intro keeps_guarded ends_ok_bind keeps_open_pty_raw) (auto intro: rt_rules split: sum.split)

lemma keeps_detach: "keeps (runtime_detach be sid dev)"
  unfolding runtime_detach_def
  by (intro keeps_guarded ends_ok_of_open keeps_open_bind keeps_open_has)
     (auto intro!: rt_rules split: option.split bool.split)

lemma keeps_open_steal [rt_rules]: "keeps_open sid (rt_manager (steal_control sid dev))"
proof -
  have "steal_control sid dev = (\<lambda>m. (fst (steal_control sid dev m), m))"
    by (auto simp: session_op_defs fun_eq_iff split: option.splits)
  then show ?thesis by (metis (no_types) keeps_open_pure(6))
qed

lemma keeps_steal: "keeps (runtime_steal_control be sid dev)"
  unfolding runtime_steal_control_def
  by (intro keeps_guarded ends_ok_of_open keeps_open_bind keeps_open_has) (auto intro: rt_rules split: option.split)

lemma ends_ok_pty_write:
  "ends_ok sid (rt_bind (rt_pty_raw sid (be_write_all be bytes)) (\<lambda>res.
     case res of Inl e \<Rightarrow> pty_failed be sid e | Inr _ \<Rightarrow> rt_return ()))"
  by (intro ends_ok_bind keeps_open_pty_raw) (auto intro: rt_rules split: sum.split)

lemma keeps_write: "keeps (runtime_write_input be sid dev bytes)"
  unfolding runtime_write_input_def
proof (intro keeps_guarded ends_ok_bind keeps_open_has)
  fix attached :: "bool option"
  show "keeps_open sid (case attached of Some b \<Rightarrow> rt_return (if b then Some Operator else None)
      | None \<Rightarrow> rt_manager (\<lambda>m. (session_role m sid dev, m)))"
    by (auto intro: rt_rules split: option.split)
  show "ends_ok sid (case role of None \<Rightarrow> rt_fail Rt_DeviceNotAttached
      | Some Operator \<Rightarrow> rt_bind (rt_pty_raw sid (be_write_all be bytes)) (\<lambda>res.
          case res of Inl e \<Rightarrow> pty_failed be sid e | Inr _ \<Rightarrow> rt_return ()))" for role :: "attach_role option"
  proof (cases role)
    case (Some a)
    with ends_ok_pty_write [of sid be bytes] show ?thesis by (cases a) (simp only: option.case attach_role.case)
  qed (auto intro: rt_rules)
qed

lemma keeps_queries:
  "keeps (runtime_read_output be sid n)" "keeps (runtime_snapshot be sid)" "keeps (runtime_terminal_snapshot be sid seq)"
  "keeps (runtime_read_terminal_frame be sid)" "keeps (read_watched_attachment_frame be sid aid)"
  "keeps (write_watched_attachment_frame be sid aid bytes)"
  unfolding runtime_read_output_def runtime_snapshot_def runtime_terminal_snapshot_def runtime_read_terminal_frame_def
    read_watched_attachment_frame_def write_watched_attachment_frame_def
  by (intro keeps_guarded ends_ok_of_open keeps_open_pty ends_ok_attachment)+

lemma keeps_resizes:
  "keeps (runtime_resize be sid sz now)" "keeps (record_watched_attachment_resize sid sz now)"
proof -
  have touch: "keeps_open sid (touch_updated sid now)"
    unfolding touch_updated_def by (intro keeps_open_modify) simp
  then show "keeps (record_watched_attachment_resize sid sz now)"
    unfolding record_watched_attachment_resize_def
    by (intro keeps_guarded ends_ok_of_open keeps_open_bind keeps_open_resize)
  show "keeps (runtime_resize be sid sz now)"
    unfolding runtime_resize_def
    by (intro keeps_bind keeps_guarded ends_ok_of_open keeps_open_bind keeps_open_resize keeps_open_pty)
       (auto simp: keeps_def rt_pty_size_def intro: touch)
qed

lemma keeps_watched:
  "keeps (start_watched_attachment be sid aid sz boot)" "keeps (drop_watched_attachment be sid aid)"
  unfolding start_watched_attachment_def drop_watched_attachment_def
  by (intro keeps_guarded ends_ok_of_open keeps_open_bind; auto intro!: rt_rules split: option.split)+

lemma put_pty_ok:
  assumes "runtime_ok r" "hm_get (rt_runtime_sessions r) sid = Some s"
  shows "runtime_ok (put_runtime_session sid (s\<lparr>rs_pty := p\<rparr>) r)"
  using assms runtime_okD [OF assms(1)] runtime_ok_entry [OF assms(1), of sid] entry_has_record [OF assms]
  by (intro runtime_ok_update [where sid = sid, OF assms(1)]) (auto simp: put_runtime_session_def split: if_splits)

lemma keeps_role:
  fixes be :: "('b, 'p, 'a) pty_backend"
  shows "keeps (runtime_role be sid dev)"
  unfolding keeps_def
proof (intro allI impI)
  fix r :: "('b, 'p, 'a) session_runtime"
  assume r: "runtime_ok r"
  show "runtime_ok (snd (runtime_role be sid dev r))"
  proof (cases "hm_get (rt_runtime_sessions r) sid")
    case (Some s)
    with put_pty_ok [OF r Some] show ?thesis
      by (auto simp: runtime_role_def session_authority_has_device_def rt_pty_def rt_pty_raw_def rt_bind_def
          runtime_session_of_def rt_result_def rt_fail_def rt_return_def split: prod.splits sum.splits option.splits)
  qed (use r in \<open>simp add: runtime_role_def split: sum.splits\<close>)
qed

lemma runtime_step_ok: "runtime_ok r \<Longrightarrow> runtime_ok (runtime_step be ut op r)"
proof (cases op)
  case (Op_publish sid p sz now)
  assume "runtime_ok r"
  with Op_publish show ?thesis by (auto split: option.splits dest: publish_owned_ok)
qed (auto simp: keeps_create [unfolded keeps_def] keeps_create_with_id [unfolded keeps_def] keeps_reconnect [unfolded keeps_def]
    keeps_attach [unfolded keeps_def] keeps_detach [unfolded keeps_def] keeps_steal [unfolded keeps_def] keeps_role [unfolded keeps_def]
    keeps_write [unfolded keeps_def] keeps_queries [unfolded keeps_def] keeps_resizes [unfolded keeps_def]
    keeps_watched [unfolded keeps_def] keeps_natural_exit [unfolded keeps_def] keeps_confirm_close [unfolded keeps_def]
    keeps_finalize_close [unfolded keeps_def] keeps_runtime_close [unfolded keeps_def] keeps_discard [unfolded keeps_def]
    keeps_take_for_cleanup [unfolded keeps_def])

lemma runtime_reachable_ok: "runtime_reachable be ut r \<Longrightarrow> runtime_ok r"
  by (induction rule: runtime_reachable.induct)
     (auto simp: runtime_step_ok, simp_all add: runtime_ok_def runtime_from_shared_backend_def runtime_new_with_activity_signals_def)

end
