(* ===== verification/Runtime_Life.thy ===== *)
theory Runtime_Life
  imports Runtime_Inv
begin

text \<open>
  What the runtime catalogue promises to its callers: its two tables agree, clients never terminate a
  process, only attached devices write to it, closing is confirmed or can be repeated, and a
  persisted session comes back as it was. The results hold for every PTY backend; the example backend at
  the end of the first section serves the witnesses.
\<close>

declare map_of_eq_Some_iff [simp del] Some_eq_map_of_iff [simp del]

section \<open>An example backend\<close>

text \<open>A PTY is the list of bytes written to it and whether it still runs; it has no authority of its own.\<close>

definition demo_backend :: "(unit, u8 list \<times> bool, unit) pty_backend" where
  "demo_backend =
     \<lparr>be_spawn_named = (\<lambda>_ _ _ b. (Inr ([], True), b)), be_reconnect = (\<lambda>_ _ _ b. (Inr ([], True), b)),
      be_attach_client = (\<lambda>_ _ _ _ _ b. (Inr (), b)), be_read = (\<lambda>_ p. (Inr [], p)),
      be_write_all = (\<lambda>bytes p. (Inr (), (fst p @ bytes, snd p))), be_authority_attach = (\<lambda>_ p. (Inr None, p)),
      be_authority_detach = (\<lambda>_ p. (Inr None, p)), be_authority_has = (\<lambda>_ p. (Inr None, p)),
      be_resize = (\<lambda>_ p. (Inr (), p)), be_snapshot = (\<lambda>p. (Inl (Pty_Backend ''none''), p)),
      be_terminal_snapshot = (\<lambda>_ p. (Inr [], p)), be_read_terminal_frame = (\<lambda>p. (Inr None, p)),
      be_terminate = (\<lambda>p. (Inr (), (fst p, False))), be_try_wait = (\<lambda>p. (Inr None, p)),
      be_restore_info = (\<lambda>_. Some (UnixSocket ''sock'' 7 Sup_Running)), be_process_id = (\<lambda>_. None),
      be_set_activity_signal = (\<lambda>_ p. p), be_at_read_frame = (\<lambda>a. (Inr None, a)),
      be_at_write_frame = (\<lambda>_ a. (Inr (), a)), be_at_detach = (\<lambda>a. (Inr (), a))\<rparr>"

definition demo_id :: "nat \<Rightarrow> string" where
  "demo_id n = replicate n (CHR ''s'')"

definition demo_command :: command_spec where
  "demo_command = \<lparr>cs_program = ''sh'', cs_args = [], cs_env = [], cs_removed_env = [], cs_cwd = None\<rparr>"

definition demo_runtime :: "(unit, u8 list \<times> bool, unit) session_runtime" where
  "demo_runtime =
     runtime_step demo_backend demo_id (Op_attach ''ss'' ''dev'')
       (runtime_step demo_backend demo_id
         (Op_create_with_id ''ss'' demo_command (terminal_size_cells 24 80) 5) (runtime_from_shared_backend ()))"

lemma demo_reachable: "runtime_reachable demo_backend demo_id demo_runtime"
  unfolding demo_runtime_def by (intro runtime_next runtime_init)

lemmas rt_eval =
  rt_bind_def rt_fail_def rt_return_def rt_result_def rt_manager_def rt_modify_def rt_pty_def rt_pty_raw_def rt_pty_size_def
  rt_backend_call_def runtime_session_of_def put_runtime_session_def ensure_open_session_def runtime_state_def
  terminal_size_to_pty_size_def insert_runtime_session_def runtime_session_new_def configure_activity_signal_def
  session_state_of_def session_op_defs session_record_new_def terminal_size_is_valid_def terminal_size_cells_def

lemma demo_sessions: "rt_sessions demo_runtime =
    [(''ss'', \<lparr>sr_state = Running, sr_attached_devices = [(''dev'', Operator)], sr_size = terminal_size_cells 24 80\<rparr>)]"
  by (simp add: demo_runtime_def runtime_from_shared_backend_def create_session_with_id_def runtime_attach_def rt_eval
      demo_backend_def Let_def)

lemma demo_entries: "rt_runtime_sessions demo_runtime =
    [(''ss'', \<lparr>rs_pty = ([], True), rs_watched_attachments = [], rs_attached_devices = {''dev''}, rs_created_at_ms = 5,
       rs_updated_at_ms = 5, rs_termination_confirmed = False\<rparr>)]"
  by (simp add: demo_runtime_def runtime_from_shared_backend_def create_session_with_id_def runtime_attach_def rt_eval
      demo_backend_def Let_def)

section \<open>The two tables agree\<close>

text \<open>
  C12. In every reachable runtime the session manager and the catalogue agree, whatever the PTYs answered:
  a session that is not closed has a PTY, and the devices of its catalogue entry are the devices the
  manager has attached; a catalogue entry belongs to a known session, and if that session is closed, its
  process is confirmed dead and no attachment watches it.
\<close>

theorem runtime_catalogue_consistent:
  assumes "runtime_reachable be ut r"
  shows "(\<forall>rec. hm_get (rt_sessions r) sid = Some rec \<and> sr_state rec \<noteq> Closed \<longrightarrow>
      (\<exists>s. hm_get (rt_runtime_sessions r) sid = Some s \<and>
        rs_attached_devices s = dom (hm_get (sr_attached_devices rec)))) \<and>
    (\<forall>s. hm_get (rt_runtime_sessions r) sid = Some s \<longrightarrow>
      (\<exists>rec. hm_get (rt_sessions r) sid = Some rec \<and>
        (sr_state rec = Closed \<longrightarrow> rs_termination_confirmed s \<and> rs_watched_attachments s = [])))"
  using runtime_ok_entry [OF runtime_reachable_ok [OF assms], of sid]
  by (cases "hm_get (rt_sessions r) sid"; cases "hm_get (rt_runtime_sessions r) sid") auto

theorem runtime_catalogue_consistent_witness:
  "\<exists>s. hm_get (rt_runtime_sessions demo_runtime) ''ss'' = Some s \<and> rs_attached_devices s = {''dev''}"
  using runtime_catalogue_consistent [OF demo_reachable, of "''ss''"] by (auto simp: demo_sessions)

section \<open>Clients never terminate a process\<close>

text \<open>The calls of a PTY other than \<open>terminate\<close>.\<close>

inductive pty_used :: "('b, 'p, 'a) pty_backend \<Rightarrow> 'p \<Rightarrow> 'p \<Rightarrow> bool" for be where
  used_not: "pty_used be p p"
| used_read: "pty_used be p q \<Longrightarrow> pty_used be p (snd (be_read be n q))"
| used_write: "pty_used be p q \<Longrightarrow> pty_used be p (snd (be_write_all be bytes q))"
| used_attach: "pty_used be p q \<Longrightarrow> pty_used be p (snd (be_authority_attach be dev q))"
| used_detach: "pty_used be p q \<Longrightarrow> pty_used be p (snd (be_authority_detach be dev q))"
| used_has: "pty_used be p q \<Longrightarrow> pty_used be p (snd (be_authority_has be dev q))"
| used_resize: "pty_used be p q \<Longrightarrow> pty_used be p (snd (be_resize be psz q))"
| used_snapshot: "pty_used be p q \<Longrightarrow> pty_used be p (snd (be_snapshot be q))"
| used_terminal_snapshot: "pty_used be p q \<Longrightarrow> pty_used be p (snd (be_terminal_snapshot be seq q))"
| used_frame: "pty_used be p q \<Longrightarrow> pty_used be p (snd (be_read_terminal_frame be q))"
| used_try_wait: "pty_used be p q \<Longrightarrow> pty_used be p (snd (be_try_wait be q))"

lemmas used_once =
  used_read [OF used_not] used_write [OF used_not] used_attach [OF used_not] used_detach [OF used_not] used_has [OF used_not]
  used_resize [OF used_not] used_snapshot [OF used_not] used_terminal_snapshot [OF used_not] used_frame [OF used_not]
  used_try_wait [OF used_not]

lemma pty_used_trans: "pty_used be q x \<Longrightarrow> pty_used be p q \<Longrightarrow> pty_used be p x"
  by (induction rule: pty_used.induct) (auto intro: pty_used.intros)

text \<open>The calls the daemon makes for its clients.\<close>

fun client_op :: "'p runtime_op \<Rightarrow> bool" where
  "client_op (Op_publish _ _ _ _) = False"
| "client_op (Op_create _ _ _) = False"
| "client_op (Op_create_with_id _ _ _ _) = False"
| "client_op (Op_reconnect _) = False"
| "client_op (Op_confirm_close _) = False"
| "client_op (Op_finalize_close _) = False"
| "client_op (Op_close _) = False"
| "client_op (Op_discard _) = False"
| "client_op (Op_take _) = False"
| "client_op _ = True"

fun runtime_run ::
  "('b, 'p, 'a) pty_backend \<Rightarrow> (nat \<Rightarrow> string) \<Rightarrow> 'p runtime_op list \<Rightarrow> ('b, 'p, 'a) session_runtime \<Rightarrow> ('b, 'p, 'a) session_runtime" where
  "runtime_run be ut [] r = r"
| "runtime_run be ut (op # ops) r = runtime_run be ut ops (runtime_step be ut op r)"

text \<open>Every entry stays, and its PTY is only used.\<close>

definition entries_kept ::
  "('b, 'p, 'a) pty_backend \<Rightarrow> ('b, 'p, 'a) session_runtime \<Rightarrow> ('b, 'p, 'a) session_runtime \<Rightarrow> bool" where
  "entries_kept be r r' \<longleftrightarrow> (\<forall>sid s. hm_get (rt_runtime_sessions r) sid = Some s \<longrightarrow>
     (\<exists>s'. hm_get (rt_runtime_sessions r') sid = Some s' \<and> pty_used be (rs_pty s) (rs_pty s')))"

lemma entries_kept_refl: "rt_runtime_sessions r' = rt_runtime_sessions r \<Longrightarrow> entries_kept be r r'"
  by (simp add: entries_kept_def used_not)

lemma entries_kept_trans: "entries_kept be r r1 \<Longrightarrow> entries_kept be r1 r2 \<Longrightarrow> entries_kept be r r2"
  unfolding entries_kept_def by (metis pty_used_trans)

definition gentle :: "('b, 'p, 'a) pty_backend \<Rightarrow> (('b, 'p, 'a) session_runtime, 'x) rt_call \<Rightarrow> bool" where
  "gentle be m \<longleftrightarrow> (\<forall>r. entries_kept be r (snd (m r)))"

named_theorems gentle_rules

lemma gentleD: "gentle be m \<Longrightarrow> entries_kept be r (snd (m r))"
  by (simp add: gentle_def)

lemma gentle_bind [gentle_rules]:
  fixes m :: "(('b, 'p, 'a) session_runtime, 'x) rt_call"
  assumes "gentle be m" "\<And>x. gentle be (f x)"
  shows "gentle be (rt_bind m f)"
  unfolding gentle_def
proof
  fix r :: "('b, 'p, 'a) session_runtime"
  have first: "entries_kept be r (snd (m r))" by (rule gentleD [OF assms(1)])
  show "entries_kept be r (snd (rt_bind m f r))"
  proof (cases rule: rt_bind_cases [of m r f])
    case (failed e r')
    with first show ?thesis by simp
  next
    case (went x r')
    with first have "entries_kept be r r'" by simp
    with gentleD [OF assms(2), of r' x] went show ?thesis by (simp add: entries_kept_trans)
  qed
qed

lemma gentle_pure [gentle_rules]:
  "gentle be (rt_return x)" "gentle be (rt_fail e)" "gentle be (rt_pty_size sz)" "gentle be (rt_result res)"
  "gentle be (runtime_session_of j)" "gentle be (rt_manager f)" "gentle be (runtime_state j)" "gentle be (rt_backend_call g)"
  by (auto simp: gentle_def rt_return_def rt_fail_def rt_pty_size_def rt_result_def runtime_session_of_def rt_manager_def
      runtime_state_def rt_backend_call_def split: sum.splits option.splits prod.splits intro: entries_kept_refl)

lemma gentle_modify [gentle_rules]:
  assumes "\<And>s. rs_pty (f s) = rs_pty s"
  shows "gentle be (rt_modify sid f)"
  unfolding gentle_def
  by (auto simp: rt_modify_def rt_bind_def runtime_session_of_def entries_kept_def put_runtime_session_def used_not assms
      split: option.splits)

lemma gentle_pty_raw [gentle_rules]:
  assumes "\<And>p. pty_used be p (snd (f p))"
  shows "gentle be (rt_pty_raw sid f)"
proof -
  have "pty_used be p q" if "f p = (x, q)" for p q x using assms [of p] that by simp
  then show ?thesis
    unfolding gentle_def
    by (auto simp: rt_pty_raw_def rt_bind_def runtime_session_of_def entries_kept_def put_runtime_session_def used_not
        split: option.splits prod.splits)
qed

lemma gentle_pty [gentle_rules]: "(\<And>p. pty_used be p (snd (f p))) \<Longrightarrow> gentle be (rt_pty sid f)"
  unfolding rt_pty_def by (intro gentle_rules)

lemma gentle_ensure_open [gentle_rules]: "gentle be (ensure_open_session sid)"
  unfolding gentle_def by (simp add: ensure_open_session_eq entries_kept_refl)

lemma gentle_has [gentle_rules]: "gentle be (session_authority_has_device be sid dev)"
  unfolding session_authority_has_device_def by (intro gentle_rules used_once)

lemma gentle_natural_exit [gentle_rules]: "gentle be (observe_natural_exit be sid)"
  unfolding observe_natural_exit_def
  by (auto intro!: gentle_rules used_once simp: detach_all_watched_attachments_def)

lemma gentle_pty_failed [gentle_rules]: "gentle be (pty_failed be sid e)"
  unfolding pty_failed_def by (intro gentle_rules)

lemma gentle_detach_locally [gentle_rules]: "gentle be (detach_locally sid dev b)"
proof -
  have "gentle be (forget_device sid dev)" unfolding forget_device_def by (intro gentle_rules) simp
  then have "entries_kept be (r\<lparr>rt_sessions := m\<rparr>) (snd (forget_device sid dev (r\<lparr>rt_sessions := m\<rparr>)))" for r m
    by (simp add: gentle_def)
  then have "entries_kept be r (snd (forget_device sid dev (r\<lparr>rt_sessions := m\<rparr>)))" for r m
    using entries_kept_trans [OF entries_kept_refl] by (metis session_runtime.select_convs(3) session_runtime.surjective session_runtime.update_convs(2))
  then show ?thesis
    unfolding gentle_def detach_locally_def
    by (auto simp: rt_fail_def entries_kept_refl split: prod.splits sum.splits)
qed

lemma gentle_attachment [gentle_rules]: "gentle be (rt_attachment sid aid f)"
  unfolding rt_attachment_def by (auto intro!: gentle_rules split: option.split prod.split)

lemma gentle_role: "gentle be (runtime_role be sid dev)"
proof -
  have "gentle be (rt_bind (session_authority_has_device be sid dev)
      (\<lambda>attached. case attached of Some b \<Rightarrow> rt_return (if b then Some Operator else None)
        | None \<Rightarrow> rt_manager (\<lambda>m. (session_role m sid dev, m))))"
    by (auto intro!: gentle_rules split: option.split)
  then show ?thesis
    by (auto simp: gentle_def runtime_role_def entries_kept_refl split: sum.splits)
qed

lemma gentle_device_calls:
  "gentle be (runtime_attach be sid dev)" "gentle be (runtime_detach be sid dev)" "gentle be (runtime_steal_control be sid dev)"
  "gentle be (runtime_write_input be sid dev bytes)"
  unfolding runtime_attach_def runtime_detach_def runtime_steal_control_def runtime_write_input_def
  by (auto intro!: gentle_rules intro: used_once split: option.split sum.split bool.split attach_role.split)

lemma gentle_reads:
  "gentle be (runtime_read_output be sid n)" "gentle be (runtime_snapshot be sid)" "gentle be (runtime_terminal_snapshot be sid seq)"
  "gentle be (runtime_read_terminal_frame be sid)" "gentle be (read_watched_attachment_frame be sid aid)"
  "gentle be (write_watched_attachment_frame be sid aid bytes)"
  unfolding runtime_read_output_def runtime_snapshot_def runtime_terminal_snapshot_def runtime_read_terminal_frame_def
    read_watched_attachment_frame_def write_watched_attachment_frame_def
  by (auto intro!: gentle_rules intro: used_once)

lemma gentle_sizes:
  "gentle be (runtime_resize be sid sz now)" "gentle be (record_watched_attachment_resize sid sz now)"
  "gentle be (start_watched_attachment be sid aid sz boot)" "gentle be (drop_watched_attachment be sid aid)"
  unfolding runtime_resize_def record_watched_attachment_resize_def touch_updated_def start_watched_attachment_def
    drop_watched_attachment_def
  by (auto intro!: gentle_rules intro: used_once split: option.split)

lemma client_step_gentle: "client_op op \<Longrightarrow> entries_kept be r (runtime_step be ut op r)"
  by (cases op) (simp_all add: gentleD gentle_device_calls gentle_reads gentle_sizes gentle_natural_exit gentle_role)

lemma client_run_gentle: "list_all client_op ops \<Longrightarrow> entries_kept be r (runtime_run be ut ops r)"
  by (induction ops arbitrary: r) (auto intro: entries_kept_refl entries_kept_trans client_step_gentle)

text \<open>
  C13. Whatever clients do (attach, detach, send input, resize, watch, disconnect; a request to close the
  session is not among these calls), no process is
  terminated by it: after any sequence of client calls every session the catalogue held is still there
  and its PTY has only seen calls other than \<open>terminate\<close>. A client that disconnects does not end its session.
\<close>

theorem clients_never_kill_a_session:
  assumes "list_all client_op ops" "hm_get (rt_runtime_sessions r) sid = Some s"
  shows "\<exists>s'. hm_get (rt_runtime_sessions (runtime_run be ut ops r)) sid = Some s' \<and> pty_used be (rs_pty s) (rs_pty s')"
  using client_run_gentle [OF assms(1), of be r ut] assms(2) by (simp add: entries_kept_def)

theorem clients_never_kill_a_session_witness:
  "\<exists>s'. hm_get (rt_runtime_sessions (runtime_run demo_backend demo_id
     [Op_write ''ss'' ''dev'' [65], Op_detach ''ss'' ''dev''] demo_runtime)) ''ss'' = Some s' \<and>
     pty_used demo_backend ([], True) (rs_pty s')"
  using clients_never_kill_a_session [of "[Op_write ''ss'' ''dev'' [65], Op_detach ''ss'' ''dev'']" demo_runtime "''ss''"
      _ demo_backend demo_id] by (simp add: demo_entries)

section \<open>Input\<close>

text \<open>Whether a device may write: the host decides if it keeps the attached devices, else the manager.\<close>

definition may_write :: "pty_error + bool option \<Rightarrow> string \<Rightarrow> ('p, 'a) runtime_session \<Rightarrow> bool" where
  "may_write answer dev s =
     (case answer of Inl _ \<Rightarrow> False | Inr (Some b) \<Rightarrow> b | Inr None \<Rightarrow> dev \<in> rs_attached_devices s)"

lemma rt_pty_raw_entry:
  "hm_get (rt_runtime_sessions r) sid = Some s \<Longrightarrow> rt_pty_raw sid f r =
    (Inr (fst (f (rs_pty s))), put_runtime_session sid (s\<lparr>rs_pty := snd (f (rs_pty s))\<rparr>) r)"
  by (simp add: rt_pty_raw_def rt_bind_def runtime_session_of_def split: prod.splits)

lemma put_runtime_session_fields [simp]:
  "hm_get (rt_runtime_sessions (put_runtime_session sid s r)) j = (if j = sid then Some s else hm_get (rt_runtime_sessions r) j)"
  "rt_sessions (put_runtime_session sid s r) = rt_sessions r"
  "rt_backend (put_runtime_session sid s r) = rt_backend r"
  by (simp_all add: put_runtime_session_def)

lemma has_device_entry:
  assumes "hm_get (rt_runtime_sessions r) sid = Some s" "be_authority_has be dev (rs_pty s) = (answer, p1)"
  shows "session_authority_has_device be sid dev r =
    (case answer of Inl e \<Rightarrow> Inl (Rt_Pty e) | Inr b \<Rightarrow> Inr b, put_runtime_session sid (s\<lparr>rs_pty := p1\<rparr>) r)"
  using assms
  by (simp add: session_authority_has_device_def rt_pty_def rt_bind_def rt_pty_raw_entry rt_result_def rt_fail_def rt_return_def
      split: sum.splits)

text \<open>The two outcomes of a write, with the entry the authority check leaves.\<close>

lemma write_input_decision:
  assumes "runtime_ok r" "open_session sid r" "hm_get (rt_runtime_sessions r) sid = Some s"
    and "be_authority_has be dev (rs_pty s) = (answer, p1)"
  shows "runtime_write_input be sid dev bytes r =
    (if may_write answer dev s
     then rt_bind (rt_pty_raw sid (be_write_all be bytes)) (\<lambda>res. case res of Inl e \<Rightarrow> pty_failed be sid e | Inr _ \<Rightarrow> rt_return ())
            (put_runtime_session sid (s\<lparr>rs_pty := p1\<rparr>) r)
     else (Inl (case answer of Inl e \<Rightarrow> Rt_Pty e | Inr _ \<Rightarrow> Rt_DeviceNotAttached), put_runtime_session sid (s\<lparr>rs_pty := p1\<rparr>) r))"
proof -
  note has = has_device_entry [OF assms(3,4)]
  obtain rec where rec: "hm_get (rt_sessions r) sid = Some rec" "sr_state rec \<noteq> Closed"
    using open_sessionE [OF assms(2)] by metis
  have devs: "rs_attached_devices s = dom (hm_get (sr_attached_devices rec))"
    using runtime_ok_entry [OF assms(1), of sid] rec assms(3) by simp
  have role: "session_role (rt_sessions r) sid dev = Inr (if dev \<in> rs_attached_devices s then Some Operator else None)"
    using rec devs attach_role.exhaust by (auto simp: session_role_def session_lookup_def)
  show ?thesis
  proof (cases answer)
    case (Inl e)
    with has assms(2) show ?thesis by (simp add: runtime_write_input_def ensure_open_session_eq rt_bind_def may_write_def)
  next
    case (Inr attached)
    show ?thesis
    proof (cases attached)
      case None
      with has Inr assms(2) role show ?thesis
        by (auto simp: runtime_write_input_def ensure_open_session_eq may_write_def rt_bind_def rt_fail_def split: prod.splits sum.splits)
    next
      case (Some b)
      with has Inr assms(2) show ?thesis
        by (cases b) (simp_all add: runtime_write_input_def ensure_open_session_eq may_write_def rt_return_def rt_bind_def rt_fail_def)
    qed
  qed
qed

text \<open>
  The input of a device reaches the process of an open session exactly if the device is attached,
  as the PTY host says or, when the host keeps no devices, as the daemon's own table says: then the
  bytes are written once, and if the PTY accepts them the call succeeds; otherwise nothing is written
  and the call fails.
\<close>

lemma input_needs_an_attached_device:
  assumes "runtime_reachable be ut r" "open_session sid r" "hm_get (rt_runtime_sessions r) sid = Some s"
    and "be_authority_has be dev (rs_pty s) = (answer, p1)" "be_write_all be bytes p1 = (written, p2)"
  shows "((\<exists>v. written = Inr v) \<and> may_write answer dev s \<longrightarrow>
      fst (runtime_write_input be sid dev bytes r) = Inr () \<and>
      map_option rs_pty (hm_get (rt_runtime_sessions (snd (runtime_write_input be sid dev bytes r))) sid) = Some p2) \<and>
    (\<not> may_write answer dev s \<longrightarrow>
      (\<exists>e. fst (runtime_write_input be sid dev bytes r) = Inl e) \<and>
      map_option rs_pty (hm_get (rt_runtime_sessions (snd (runtime_write_input be sid dev bytes r))) sid) = Some p1)"
  unfolding write_input_decision [OF runtime_reachable_ok [OF assms(1)] assms(2-4)]
  using assms(5) by (auto simp: rt_bind_def rt_pty_raw_entry rt_return_def)

section \<open>Closing\<close>

lemma confirm_close_entry:
  assumes "open_session sid r" "hm_get (rt_runtime_sessions r) sid = Some s"
    and "terminate_and_probe be (rs_pty s) = (outcome, p1)"
  shows "confirm_close be sid r =
    (if rs_termination_confirmed s then (Inr (), r)
     else case outcome of
       ConfirmedDead \<Rightarrow> (Inr (), put_runtime_session sid (s\<lparr>rs_pty := p1, rs_termination_confirmed := True\<rparr>)
         (put_runtime_session sid (s\<lparr>rs_pty := p1\<rparr>) r))
     | StillRunning e \<Rightarrow> (Inl (Rt_Pty e), put_runtime_session sid (s\<lparr>rs_pty := p1\<rparr>) r)
     | ProbeFailed e \<Rightarrow> (Inl (Rt_Pty e), put_runtime_session sid (s\<lparr>rs_pty := p1\<rparr>) r))"
  using assms
  by (simp add: confirm_close_def ensure_open_session_eq rt_bind_def runtime_session_of_def rt_return_def rt_pty_raw_entry
      rt_modify_def rt_fail_def split: backend_termination_outcome.split)

lemma finalize_close_entry:
  assumes "hm_get (rt_runtime_sessions r) sid = Some s" "rs_termination_confirmed s" "hm_get (rt_sessions r) sid = Some rec"
  shows "fst (finalize_close sid r) = Inr () \<and>
    hm_get (rt_runtime_sessions (snd (finalize_close sid r))) sid = None \<and>
    hm_get (rt_sessions (snd (finalize_close sid r))) sid = Some (rec\<lparr>sr_state := Closed, sr_attached_devices := []\<rparr>)"
  using assms
  by (simp add: finalize_close_def rt_bind_def runtime_session_of_def rt_modify_def rt_manager_def session_close_known
      rt_remove_def put_runtime_session_def)

lemma terminate_and_probe_eq:
  assumes "be_terminate be p = (t, p1)" "be_try_wait be p1 = (w, p2)"
  shows "fst (terminate_and_probe be p) = ConfirmedDead \<longleftrightarrow>
      (\<exists>v. t = Inr v) \<or> (\<exists>st. w = Inr (Some st)) \<and> \<not> cleanup_supervisor_finalize_is_pending be p2"
    and "snd (terminate_and_probe be p) = (if \<exists>v. t = Inr v then p1 else p2)"
  using assms by (auto simp: terminate_and_probe_def split: sum.splits option.splits)

text \<open>
  C14. Closing an open session either succeeds with the process confirmed dead (the PTY terminated it, or
  terminating failed but the process has exited and no supervisor cleanup is pending, or an earlier call
  confirmed it), and then the session is closed without devices and leaves the catalogue; or it fails, and
  then the session is still open with its devices and its PTY, so that closing can be tried again.
\<close>

theorem close_is_confirmed_or_retryable:
  assumes "open_session sid r" "hm_get (rt_sessions r) sid = Some rec" "hm_get (rt_runtime_sessions r) sid = Some s"
    and "be_terminate be (rs_pty s) = (t, p1)" "be_try_wait be p1 = (w, p2)"
  shows "if rs_termination_confirmed s \<or> (\<exists>v. t = Inr v) \<or>
      (\<exists>st. w = Inr (Some st)) \<and> \<not> cleanup_supervisor_finalize_is_pending be p2
    then fst (runtime_close be sid r) = Inr () \<and>
      hm_get (rt_runtime_sessions (snd (runtime_close be sid r))) sid = None \<and>
      hm_get (rt_sessions (snd (runtime_close be sid r))) sid = Some (rec\<lparr>sr_state := Closed, sr_attached_devices := []\<rparr>)
    else (\<exists>e. fst (runtime_close be sid r) = Inl (Rt_Pty e)) \<and> open_session sid (snd (runtime_close be sid r)) \<and>
      hm_get (rt_runtime_sessions (snd (runtime_close be sid r))) sid = Some (s\<lparr>rs_pty := p2\<rparr>) \<and>
      rt_sessions (snd (runtime_close be sid r)) = rt_sessions r"
proof -
  obtain outcome p' where tp: "terminate_and_probe be (rs_pty s) = (outcome, p')" by force
  note dead = terminate_and_probe_eq [OF assms(4,5), unfolded tp fst_conv snd_conv]
  show ?thesis
  proof (cases "rs_termination_confirmed s \<or> outcome = ConfirmedDead")
    case True
    then obtain r' s' where "confirm_close be sid r = (Inr (), r')" "hm_get (rt_runtime_sessions r') sid = Some s'"
        "rs_termination_confirmed s'" "rt_sessions r' = rt_sessions r"
      using confirm_close_entry [OF assms(1,3) tp] assms(3) by (cases "rs_termination_confirmed s") auto
    with finalize_close_entry [of r' sid s' rec] assms(2) True dead show ?thesis
      by (simp add: runtime_close_def rt_bind_Inr)
  next
    case False
    then obtain e where "confirm_close be sid r = (Inl (Rt_Pty e), put_runtime_session sid (s\<lparr>rs_pty := p'\<rparr>) r)"
      using confirm_close_entry [OF assms(1,3) tp] by (cases outcome) auto
    with False dead assms(1,2) show ?thesis by (simp add: runtime_close_def rt_bind_Inl open_session_def)
  qed
qed

theorem close_is_confirmed_or_retryable_witness:
  "fst (runtime_close demo_backend ''ss'' demo_runtime) = Inr () \<and>
   hm_get (rt_runtime_sessions (snd (runtime_close demo_backend ''ss'' demo_runtime))) ''ss'' = None"
  using close_is_confirmed_or_retryable [of "''ss''" demo_runtime _ _ demo_backend "Inr ()" "([], False)" "Inr None" "([], False)"]
  by (simp add: open_session_def demo_sessions demo_entries) (simp add: demo_backend_def)

section \<open>Restarting the daemon\<close>

text \<open>
  C15. Persisting and reconnecting is a round trip: for an open session whose PTY can be restored, the
  record the runtime persists, given to a runtime that does not know the session, reconnects it under the
  same id with the same life-cycle state, size and times, running on the PTY the backend hands back, with
  no device attached.
\<close>

theorem restart_restores_session:
  assumes "runtime_reachable be ut r" "open_session sid r" "hm_get (rt_sessions r) sid = Some rec"
    "hm_get (rt_runtime_sessions r) sid = Some s" "be_restore_info be (rs_pty s) = Some info"
    and "uuid_parse sid = Some uid" "ut uid = sid"
    and "hm_get (rt_sessions r0) sid = None" "hm_get (rt_runtime_sessions r0) sid = None"
    and "\<And>psz. terminal_size_to_pty_size (sr_size rec) = Inr psz \<Longrightarrow> be_reconnect be sid info psz (rt_backend r0) = (Inr p, b)"
  shows "\<exists>stored \<in> set (persisted_sessions be uuid_parse r). ss_session_id stored = uid \<and>
    fst (reconnect_session be ut stored r0) = Inr () \<and>
    hm_get (rt_sessions (snd (reconnect_session be ut stored r0))) sid =
      Some \<lparr>sr_state = sr_state rec, sr_attached_devices = [], sr_size = sr_size rec\<rparr> \<and>
    hm_get (rt_runtime_sessions (snd (reconnect_session be ut stored r0))) sid =
      Some (runtime_session_new (configure_activity_signal be sid r0 p) (rs_created_at_ms s) (rs_updated_at_ms s))"
proof -
  define stored where "stored = \<lparr>ss_session_id = uid, ss_state = sr_state rec, ss_size = sr_size rec,
      ss_created_at_ms = rs_created_at_ms s, ss_updated_at_ms = rs_updated_at_ms s, ss_restore_info = Some info\<rparr>"
  have "(sid, s) \<in> set (rt_runtime_sessions r)" using assms(4) by (rule map_of_SomeD)
  moreover have "persisted_record be uuid_parse (rt_sessions r) (sid, s) = Some stored"
    using assms(3,5,6) by (simp add: persisted_record_def stored_def)
  ultimately have mem: "stored \<in> set (persisted_sessions be uuid_parse r)"
    by (force simp: persisted_sessions_def List.map_filter_def)
  have "session_record_inv rec" using session_inv_get runtime_okD(1) [OF runtime_reachable_ok [OF assms(1)]] assms(3) by blast
  then obtain psz where psz: "terminal_size_to_pty_size (ss_size stored) = Inr psz"
    by (auto simp: session_record_inv_def terminal_size_is_valid_def terminal_size_to_pty_size_def stored_def)
  have sid: "sid = ut (ss_session_id stored)" and open_rec: "ss_state stored \<noteq> Closed"
    and info: "ss_restore_info stored = Some info"
    using assms(2,3,7) by (auto simp: stored_def open_session_def)
  have be: "be_reconnect be sid info psz (rt_backend r0) = (Inr p, b)" using assms(10) psz by (simp add: stored_def)
  obtain m r' where rc: "reconnect_session be ut stored r0 = (Inr (), r')" "reconnected_record stored m"
    "hm_get (rt_sessions r') sid = Some m"
    "rt_runtime_sessions r' = hm_insert sid (runtime_session_new (configure_activity_signal be sid r0 p)
       (ss_created_at_ms stored) (ss_updated_at_ms stored)) (rt_runtime_sessions r0)"
    using reconnect_fresh [where r = r0 and sid = sid and rec = stored and uuid_text = ut, OF assms(9,8) sid open_rec info psz be]
    by metis
  have "m = \<lparr>sr_state = sr_state rec, sr_attached_devices = [], sr_size = sr_size rec\<rparr>"
    using rc(2) by (cases m) (simp add: reconnected_record_def stored_def)
  with mem rc show ?thesis by (intro bexI [of _ stored]) (simp_all add: stored_def)
qed

theorem restart_restores_session_witness:
  "\<exists>stored \<in> set (persisted_sessions demo_backend (\<lambda>t. Some (length t)) demo_runtime). ss_session_id stored = 2 \<and>
    hm_get (rt_sessions (snd (reconnect_session demo_backend demo_id stored (runtime_from_shared_backend ())))) ''ss'' =
      Some \<lparr>sr_state = Running, sr_attached_devices = [], sr_size = terminal_size_cells 24 80\<rparr>"
proof -
  have "open_session ''ss'' demo_runtime" by (simp add: open_session_def demo_sessions demo_entries)
  moreover have "demo_id 2 = ''ss''" by (simp add: demo_id_def numeral_2_eq_2)
  ultimately show ?thesis
    using restart_restores_session [OF demo_reachable, of "''ss''" _ _ "UnixSocket ''sock'' 7 Sup_Running" "\<lambda>t. Some (length t)" 2
        "runtime_from_shared_backend ()" "([], True)" "()"]
    by (fastforce simp: demo_sessions demo_entries runtime_from_shared_backend_def demo_backend_def)
qed

text \<open>
  The manager keeps closed ids for ever, but only the catalogue is asked before a process is started:
  creating a session under the id of a closed one starts a process, fails, and forgets the process.
\<close>

lemma closed_id_leaks_a_process:
  assumes "hm_get (rt_sessions r) sid = Some rec" "hm_get (rt_runtime_sessions r) sid = None"
    and "terminal_size_to_pty_size sz = Inr psz" "be_spawn_named be sid command psz (rt_backend r) = (Inr p, b)"
  shows "create_session_with_id be sid command sz now r = (Inl Rt_SessionAlreadyExists, r\<lparr>rt_backend := b\<rparr>)"
  using assms by (simp add: create_session_with_id_def rt_bind_def rt_pty_size_def rt_backend_call_eq rt_manager_def create_session_def)

text \<open>The search for a free id returns one, and the next search starts beyond it.\<close>

lemma allocate_session_id_free:
  "allocate_session_id sessions n = (sid, n') \<Longrightarrow> hm_get sessions sid = None \<and> n < n' \<and> sid = session_number_id (n' - 1)"
proof (induction sessions n rule: allocate_session_id.induct)
  case (1 sessions n)
  then show ?case
    by (cases "hm_get sessions (session_number_id n)") (fastforce simp: allocate_session_id.simps [of sessions n] Let_def)+
qed

end
