(* ===== verification/State_Store.thy ===== *)
theory State_Store
  imports Runtime Auth_Trust "HOL-Library.List_Lexorder" "HOL-Library.Char_ord" "HOL-Library.Product_Lexorder"
begin

text \<open>
  The persistent state of the daemon, \<open>termd/src/state/mod.rs\<close>: the SQLite tables with the daemon's
  identity, the trusted devices, the sessions and the unfinished uploads.

  A table is a map from its primary key to the record of its other columns; a statement of the source
  is one definition on the tables (\<open>INSERT\<close> without a conflict clause fails on a taken key). A
  transaction either commits or leaves the database as it was. The record is open (\<open>'m state_db_scheme\<close>),
  since the ownership ledger of theory \<open>Session_Ownership\<close> is one more table of the same file. An
  \<open>INTEGER\<close> is an \<open>int\<close>, and \<open>x as i64\<close> is written out. Text forms of UUIDs and JSON come from libraries and
  are the fields of \<open>codecs\<close>; \<open>codecs_ok\<close> says that each parser reads what its printer wrote. Paths are
  texts. The clock is the argument \<open>now\<close>.
\<close>

declare map_of_eq_Some_iff [simp del] Some_eq_map_of_iff [simp del]

section \<open>The state of the daemon\<close>

record daemon_identity_snapshot =
  dis_server_id :: uuid
  dis_public_key :: wire_text
  dis_private_key :: "wire_text option"

record trusted_device_state =
  tds_device_id :: uuid
  tds_public_key :: wire_text
  tds_trusted_at_ms :: unix_ms
  tds_last_seen_at_ms :: "unix_ms option"
  tds_label :: "label_text option"

record http_upload_recovery_record =
  hu_upload_id :: string
  hu_target_path :: "uchar list"
  hu_size_bytes :: u64
  hu_dev :: u64
  hu_ino :: u64
  hu_updated_at_ms :: unix_ms

record daemon_state =
  ds_version :: nat
  ds_identity :: "daemon_identity_snapshot option"
  ds_trusted_devices :: "trusted_device_state list"
  ds_sessions :: "session_state_record list"

definition state_schema_version :: nat where
  "state_schema_version = 3"

definition daemon_state_default :: daemon_state where
  "daemon_state_default =
     \<lparr>ds_version = state_schema_version, ds_identity = None, ds_trusted_devices = [], ds_sessions = []\<rparr>"

section \<open>Errors\<close>

datatype sql_error = Conversion_failure nat | Constraint_violation | No_rows | Engine_fault

datatype state_error =
    Se_Read
  | Se_Parse
  | Se_Sqlite sql_error
  | Se_IncompatibleVersion "nat option" nat

text \<open>The \<open>?\<close> operator and \<open>collect\<close> into a \<open>Result\<close>.\<close>

definition res_bind :: "'e + 'a \<Rightarrow> ('a \<Rightarrow> 'e + 'b) \<Rightarrow> 'e + 'b" where
  "res_bind x f = (case x of Inl e \<Rightarrow> Inl e | Inr a \<Rightarrow> f a)"

lemma res_bind_simps [simp]: "res_bind (Inl e) f = Inl e" "res_bind (Inr a) f = f a"
  by (simp_all add: res_bind_def)

primrec collect_rows :: "('a \<Rightarrow> 'e + 'b) \<Rightarrow> 'a list \<Rightarrow> 'e + 'b list" where
  "collect_rows f [] = Inr []"
| "collect_rows f (x # xs) = res_bind (f x) (\<lambda>y. res_bind (collect_rows f xs) (\<lambda>ys. Inr (y # ys)))"

text \<open>A loop of statements, left at the first error.\<close>

primrec run_each :: "('a \<Rightarrow> 's \<Rightarrow> 'e + 's) \<Rightarrow> 'a list \<Rightarrow> 's \<Rightarrow> 'e + 's" where
  "run_each f [] s = Inr s"
| "run_each f (x # xs) s = res_bind (f x s) (run_each f xs)"

section \<open>Tables\<close>

record device_row =
  dr_public_key :: wire_text
  dr_trusted_at_ms :: int
  dr_last_seen_at_ms :: "int option"
  dr_label :: "label_text option"

record runtime_row =
  rr_state :: string
  rr_rows :: int
  rr_cols :: int
  rr_pixel_width :: int
  rr_pixel_height :: int
  rr_created_at_ms :: int
  rr_updated_at_ms :: int
  rr_restore_kind :: "string option"
  rr_restore_value :: "string option"

record upload_row =
  ur_target_path :: "uchar list"
  ur_size_bytes :: "uchar list"
  ur_dev :: "uchar list"
  ur_ino :: "uchar list"
  ur_updated_at_ms :: int

text \<open>
  \<open>db_history_rows\<close> counts the rows of the three tables of \<open>client_history.rs\<close> (0 while they do not exist).
\<close>

record state_db =
  db_meta :: "(string, wire_text \<times> int) hmap"
  db_devices :: "(string, device_row) hmap"
  db_runtime :: "(string, runtime_row) hmap"
  db_uploads :: "(string, upload_row) hmap"
  db_history_rows :: nat

definition db_wf :: "'m state_db_scheme \<Rightarrow> bool" where
  "db_wf db \<longleftrightarrow> hm_wf (db_meta db) \<and> hm_wf (db_devices db) \<and> hm_wf (db_runtime db) \<and> hm_wf (db_uploads db)"

definition transaction :: "('d \<Rightarrow> 'e + 'd) \<Rightarrow> 'd \<Rightarrow> ('e + unit) \<times> 'd" where
  "transaction f db = (case f db of Inl e \<Rightarrow> (Inl e, db) | Inr db' \<Rightarrow> (Inr (), db'))"

section \<open>Values in columns\<close>

record codecs =
  cd_uuid_text :: "nat \<Rightarrow> string"
  cd_uuid_parse :: "string \<Rightarrow> nat option"
  cd_unix_json :: "string \<times> nat \<times> pty_supervisor_status \<Rightarrow> string"
  cd_unix_of_json :: "string \<Rightarrow> (string \<times> nat \<times> pty_supervisor_status) option"
  cd_tmux_json :: "string \<times> string \<Rightarrow> string"
  cd_tmux_of_json :: "string \<Rightarrow> (string \<times> string) option"

definition codecs_ok :: "codecs \<Rightarrow> bool" where
  "codecs_ok cd \<longleftrightarrow>
     (\<forall>u. cd_uuid_parse cd (cd_uuid_text cd u) = Some u) \<and>
     (\<forall>x. cd_unix_of_json cd (cd_unix_json cd x) = Some x) \<and>
     (\<forall>x. cd_tmux_of_json cd (cd_tmux_json cd x) = Some x)"

lemma codecs_okD [simp]:
  assumes "codecs_ok cd"
  shows "cd_uuid_parse cd (cd_uuid_text cd u) = Some u"
    and "cd_unix_of_json cd (cd_unix_json cd x) = Some x"
    and "cd_tmux_of_json cd (cd_tmux_json cd y) = Some y"
  using assms unfolding codecs_ok_def by blast+

lemma uuid_text_inject [simp]: "codecs_ok cd \<Longrightarrow> cd_uuid_text cd u = cd_uuid_text cd v \<longleftrightarrow> u = v"
  by (metis codecs_okD(1) option.inject)

text \<open>\<open>x as i64\<close>.\<close>

definition i64_of_u64 :: "u64 \<Rightarrow> int" where
  "i64_of_u64 x = (if x < 2 ^ 63 then int x else int x - 2 ^ 64)"

definition integer_to_u16 :: "int \<Rightarrow> nat \<Rightarrow> sql_error + u16" where
  "integer_to_u16 v column = (if 0 \<le> v \<and> v \<le> int u16_max then Inr (nat v) else Inl (Conversion_failure column))"

definition integer_to_timestamp :: "int \<Rightarrow> nat \<Rightarrow> sql_error + unix_ms" where
  "integer_to_timestamp v column = (if 0 \<le> v then Inr (nat v) else Inl (Conversion_failure column))"

fun session_state_text :: "session_state \<Rightarrow> string" where
  "session_state_text Created = ''created''"
| "session_state_text Running = ''running''"
| "session_state_text Closed = ''closed''"

definition parse_session_state :: "string \<Rightarrow> sql_error + session_state" where
  "parse_session_state raw =
     (if raw = ''created'' then Inr Created
      else if raw = ''running'' then Inr Running
      else if raw = ''closed'' then Inr Closed
      else Inl (Conversion_failure 1))"

fun serialize_restore_info :: "codecs \<Rightarrow> pty_restore_info option \<Rightarrow> string option \<times> string option" where
  "serialize_restore_info cd (Some (UnixSocket path pid status)) =
     (Some ''unix_socket'', Some (cd_unix_json cd (path, pid, status)))"
| "serialize_restore_info cd (Some (Tmux path name)) = (Some ''tmux'', Some (cd_tmux_json cd (path, name)))"
| "serialize_restore_info cd None = (None, None)"

definition parse_restore_info ::
  "codecs \<Rightarrow> string option \<Rightarrow> string option \<Rightarrow> sql_error + pty_restore_info option" where
  "parse_restore_info cd kind raw =
     (case (kind, raw) of
        (None, None) \<Rightarrow> Inr None
      | (Some k, Some v) \<Rightarrow>
          if k = ''unix_socket'' then
            (case cd_unix_of_json cd v of
               None \<Rightarrow> Inl (Conversion_failure 9)
             | Some (path, pid, status) \<Rightarrow> Inr (Some (UnixSocket path pid status)))
          else if k = ''tmux'' then
            (case cd_tmux_of_json cd v of
               None \<Rightarrow> Inl (Conversion_failure 9)
             | Some (path, name) \<Rightarrow> Inr (Some (Tmux path name)))
          else Inl (Conversion_failure 8)
      | _ \<Rightarrow> Inl (Conversion_failure 8))"

definition parse_uuid_column :: "codecs \<Rightarrow> string \<Rightarrow> sql_error + uuid" where
  "parse_uuid_column cd raw =
     (case cd_uuid_parse cd raw of None \<Rightarrow> Inl (Conversion_failure 0) | Some u \<Rightarrow> Inr u)"

definition parse_u64_column :: "nat \<Rightarrow> uchar list \<Rightarrow> sql_error + u64" where
  "parse_u64_column column raw =
     (case parse_unsigned u64_max raw of None \<Rightarrow> Inl (Conversion_failure column) | Some v \<Rightarrow> Inr v)"

section \<open>The schema version\<close>

definition meta_state_schema_version :: string where
  "meta_state_schema_version = ''state_schema_version''"

definition meta_server_id :: string where
  "meta_server_id = ''server_id''"

definition meta_daemon_public_key :: string where
  "meta_daemon_public_key = ''daemon_public_key''"

definition meta_daemon_private_key :: string where
  "meta_daemon_private_key = ''daemon_private_key''"

lemmas meta_keys = meta_state_schema_version_def meta_server_id_def meta_daemon_public_key_def
  meta_daemon_private_key_def

definition read_meta_value :: "string \<Rightarrow> 'm state_db_scheme \<Rightarrow> wire_text option" where
  "read_meta_value key db = map_option fst (hm_get (db_meta db) key)"

definition upsert_meta_value :: "string \<Rightarrow> wire_text \<Rightarrow> int \<Rightarrow> 'm state_db_scheme \<Rightarrow> 'm state_db_scheme" where
  "upsert_meta_value key v at db = db\<lparr>db_meta := hm_insert key (v, at) (db_meta db)\<rparr>"

definition delete_meta_value :: "string \<Rightarrow> 'm state_db_scheme \<Rightarrow> 'm state_db_scheme" where
  "delete_meta_value key db = db\<lparr>db_meta := hm_remove key (db_meta db)\<rparr>"

definition write_sqlite_state_version :: "u64 \<Rightarrow> 'm state_db_scheme \<Rightarrow> 'm state_db_scheme" where
  "write_sqlite_state_version now = upsert_meta_value meta_state_schema_version (dec state_schema_version) (i64_of_u64 now)"

definition migrate_sqlite_v2_to_current :: "u64 \<Rightarrow> 'm state_db_scheme \<Rightarrow> 'm state_db_scheme" where
  "migrate_sqlite_v2_to_current = write_sqlite_state_version"

definition ensure_state_version :: "nat \<Rightarrow> state_error + unit" where
  "ensure_state_version found =
     (if found = state_schema_version then Inr ()
      else Inl (Se_IncompatibleVersion (Some found) state_schema_version))"

definition sqlite_state_has_content :: "'m state_db_scheme \<Rightarrow> bool" where
  "sqlite_state_has_content db \<longleftrightarrow>
     filter (\<lambda>e. fst e \<noteq> meta_state_schema_version) (db_meta db) \<noteq> [] \<or> db_devices db \<noteq> [] \<or>
     db_runtime db \<noteq> [] \<or> db_uploads db \<noteq> [] \<or> db_history_rows db \<noteq> 0"

definition u32_max :: nat where
  "u32_max = 4294967295"

definition ensure_sqlite_state_version ::
  "u64 \<Rightarrow> 'm state_db_scheme \<Rightarrow> (state_error + unit) \<times> 'm state_db_scheme" where
  "ensure_sqlite_state_version now db =
     (case read_meta_value meta_state_schema_version db of
        Some raw \<Rightarrow>
          (case parse_unsigned u32_max raw of
             None \<Rightarrow> (Inl (Se_Sqlite (Conversion_failure 0)), db)
           | Some found \<Rightarrow>
               if found = 2 then (Inr (), migrate_sqlite_v2_to_current now db)
               else (ensure_state_version found, db))
      | None \<Rightarrow>
          if sqlite_state_has_content db
          then (Inl (Se_IncompatibleVersion None state_schema_version), db) else (Inr (), db))"

text \<open>The prologue of every entry point: open, create missing tables, check the version.\<close>

definition with_state_db ::
  "u64 \<Rightarrow> ('m state_db_scheme \<Rightarrow> (state_error + 'x) \<times> 'm state_db_scheme) \<Rightarrow>
    'm state_db_scheme \<Rightarrow> (state_error + 'x) \<times> 'm state_db_scheme" where
  "with_state_db now f db =
     (case ensure_sqlite_state_version now db of (Inl e, db') \<Rightarrow> (Inl e, db') | (Inr _, db') \<Rightarrow> f db')"

definition ensure_compatible :: "u64 \<Rightarrow> 'm state_db_scheme \<Rightarrow> (state_error + unit) \<times> 'm state_db_scheme" where
  "ensure_compatible now = with_state_db now (\<lambda>db. (Inr (), db))"

section \<open>Saving\<close>

definition save_identity :: "codecs \<Rightarrow> int \<Rightarrow> daemon_identity_snapshot option \<Rightarrow> 'm state_db_scheme \<Rightarrow> 'm state_db_scheme" where
  "save_identity cd at identity db =
     (case identity of
        Some i \<Rightarrow>
          (let db1 = upsert_meta_value meta_server_id (ascii (cd_uuid_text cd (dis_server_id i))) at db;
               db2 = upsert_meta_value meta_daemon_public_key (dis_public_key i) at db1
           in case dis_private_key i of
                Some k \<Rightarrow> upsert_meta_value meta_daemon_private_key k at db2
              | None \<Rightarrow> delete_meta_value meta_daemon_private_key db2)
      | None \<Rightarrow>
          delete_meta_value meta_server_id
            (delete_meta_value meta_daemon_public_key (delete_meta_value meta_daemon_private_key db)))"

definition device_to_row :: "trusted_device_state \<Rightarrow> device_row" where
  "device_to_row d =
     \<lparr>dr_public_key = tds_public_key d, dr_trusted_at_ms = i64_of_u64 (tds_trusted_at_ms d),
      dr_last_seen_at_ms = map_option i64_of_u64 (tds_last_seen_at_ms d), dr_label = tds_label d\<rparr>"

definition insert_device ::
  "codecs \<Rightarrow> trusted_device_state \<Rightarrow> 'm state_db_scheme \<Rightarrow> state_error + 'm state_db_scheme" where
  "insert_device cd d db =
     (let key = cd_uuid_text cd (tds_device_id d) in
      if hm_get (db_devices db) key \<noteq> None then Inl (Se_Sqlite Constraint_violation)
      else Inr (db\<lparr>db_devices := hm_insert key (device_to_row d) (db_devices db)\<rparr>))"

definition session_to_row :: "codecs \<Rightarrow> session_state_record \<Rightarrow> runtime_row" where
  "session_to_row cd s =
     (let (kind, raw) =
        (if ss_state s = Closed then (None, None) else serialize_restore_info cd (ss_restore_info s))
      in \<lparr>rr_state = session_state_text (ss_state s), rr_rows = int (ts_rows (ss_size s)),
          rr_cols = int (ts_cols (ss_size s)), rr_pixel_width = int (ts_pixel_width (ss_size s)),
          rr_pixel_height = int (ts_pixel_height (ss_size s)),
          rr_created_at_ms = i64_of_u64 (ss_created_at_ms s),
          rr_updated_at_ms = i64_of_u64 (ss_updated_at_ms s), rr_restore_kind = kind, rr_restore_value = raw\<rparr>)"

text \<open>The conflict clause of the upsert.\<close>

definition merge_runtime_row :: "runtime_row \<Rightarrow> runtime_row \<Rightarrow> runtime_row" where
  "merge_runtime_row old new =
     (let closed = (rr_state old = session_state_text Closed \<or> rr_state new = session_state_text Closed) in
      new\<lparr>rr_state := (if closed then session_state_text Closed else rr_state new),
          rr_restore_kind := (if closed then None else rr_restore_kind new),
          rr_restore_value := (if closed then None else rr_restore_value new)\<rparr>)"

definition upsert_session :: "codecs \<Rightarrow> session_state_record \<Rightarrow> 'm state_db_scheme \<Rightarrow> 'm state_db_scheme" where
  "upsert_session cd s db =
     (let key = cd_uuid_text cd (ss_session_id s); new = session_to_row cd s in
      db\<lparr>db_runtime :=
          hm_insert key
            (case hm_get (db_runtime db) key of None \<Rightarrow> new | Some old \<Rightarrow> merge_runtime_row old new)
            (db_runtime db)\<rparr>)"

definition save_sqlite_state ::
  "codecs \<Rightarrow> u64 \<Rightarrow> daemon_state \<Rightarrow> 'm state_db_scheme \<Rightarrow> (state_error + unit) \<times> 'm state_db_scheme" where
  "save_sqlite_state cd now st db =
     (case ensure_state_version (ds_version st) of
        Inl e \<Rightarrow> (Inl e, db)
      | Inr _ \<Rightarrow>
          (let at = i64_of_u64 now in
           transaction (\<lambda>db.
             let db1 = upsert_meta_value meta_state_schema_version (dec (ds_version st)) at db;
                 db2 = save_identity cd at (ds_identity st) db1;
                 db3 = db2\<lparr>db_devices := []\<rparr>
             in res_bind (run_each (insert_device cd) (ds_trusted_devices st) db3)
                  (\<lambda>db4. Inr (fold (upsert_session cd) (ds_sessions st) db4))) db))"

definition state_save ::
  "codecs \<Rightarrow> u64 \<Rightarrow> daemon_state \<Rightarrow> 'm state_db_scheme \<Rightarrow> (state_error + unit) \<times> 'm state_db_scheme" where
  "state_save cd now st = with_state_db now (save_sqlite_state cd now st)"

section \<open>Loading\<close>

definition load_identity :: "codecs \<Rightarrow> 'm state_db_scheme \<Rightarrow> state_error + daemon_identity_snapshot option" where
  "load_identity cd db =
     (case (read_meta_value meta_server_id db, read_meta_value meta_daemon_public_key db) of
        (Some sid, Some pk) \<Rightarrow>
          (case cd_uuid_parse cd (map char_of sid) of
             None \<Rightarrow> Inl (Se_Sqlite (Conversion_failure 0))
           | Some u \<Rightarrow>
               Inr (Some \<lparr>dis_server_id = u, dis_public_key = pk,
                          dis_private_key = read_meta_value meta_daemon_private_key db\<rparr>))
      | _ \<Rightarrow> Inr None)"

definition device_of_row :: "codecs \<Rightarrow> string \<times> device_row \<Rightarrow> sql_error + trusted_device_state" where
  "device_of_row cd e =
     (let row = snd e in
      res_bind (parse_uuid_column cd (fst e)) (\<lambda>u.
      res_bind (integer_to_timestamp (dr_trusted_at_ms row) 2) (\<lambda>trusted_at.
      res_bind (case dr_last_seen_at_ms row of
                  None \<Rightarrow> Inr None
                | Some v \<Rightarrow> res_bind (integer_to_timestamp v 3) (\<lambda>t. Inr (Some t))) (\<lambda>seen.
      Inr \<lparr>tds_device_id = u, tds_public_key = dr_public_key row, tds_trusted_at_ms = trusted_at,
           tds_last_seen_at_ms = seen, tds_label = dr_label row\<rparr>))))"

definition session_of_row :: "codecs \<Rightarrow> string \<times> runtime_row \<Rightarrow> sql_error + session_state_record" where
  "session_of_row cd e =
     (let row = snd e in
      res_bind (parse_uuid_column cd (fst e)) (\<lambda>u.
      res_bind (parse_session_state (rr_state row)) (\<lambda>st.
      res_bind (integer_to_u16 (rr_rows row) 2) (\<lambda>rows.
      res_bind (integer_to_u16 (rr_cols row) 3) (\<lambda>cols.
      res_bind (integer_to_u16 (rr_pixel_width row) 4) (\<lambda>pixel_width.
      res_bind (integer_to_u16 (rr_pixel_height row) 5) (\<lambda>pixel_height.
      res_bind (parse_restore_info cd (rr_restore_kind row) (rr_restore_value row)) (\<lambda>info.
      res_bind (integer_to_timestamp (rr_created_at_ms row) 6) (\<lambda>created.
      res_bind (integer_to_timestamp (rr_updated_at_ms row) 7) (\<lambda>updated.
      Inr \<lparr>ss_session_id = u, ss_state = st,
           ss_size = \<lparr>ts_rows = rows, ts_cols = cols, ts_pixel_width = pixel_width, ts_pixel_height = pixel_height\<rparr>,
           ss_created_at_ms = created, ss_updated_at_ms = updated, ss_restore_info = info\<rparr>))))))))))"

definition sqlite_error :: "sql_error + 'a \<Rightarrow> state_error + 'a" where
  "sqlite_error x = (case x of Inl e \<Rightarrow> Inl (Se_Sqlite e) | Inr a \<Rightarrow> Inr a)"

definition load_sqlite_state :: "codecs \<Rightarrow> 'm state_db_scheme \<Rightarrow> state_error + daemon_state" where
  "load_sqlite_state cd db =
     res_bind (load_identity cd db) (\<lambda>identity.
     res_bind (sqlite_error (collect_rows (device_of_row cd) (sort_key fst (db_devices db)))) (\<lambda>devices.
     res_bind (sqlite_error (collect_rows (session_of_row cd)
                 (sort_key (\<lambda>e. (rr_created_at_ms (snd e), fst e)) (db_runtime db)))) (\<lambda>sessions.
     Inr \<lparr>ds_version = state_schema_version, ds_identity = identity, ds_trusted_devices = devices,
          ds_sessions = sessions\<rparr>)))"

definition migrate_legacy_state :: "daemon_state \<Rightarrow> state_error + daemon_state" where
  "migrate_legacy_state st =
     (if ds_version st = state_schema_version then Inr st
      else if ds_version st = 2 then Inr (st\<lparr>ds_version := state_schema_version\<rparr>)
      else Inl (Se_IncompatibleVersion (Some (ds_version st)) state_schema_version))"

text \<open>
  The JSON file of earlier versions: not there (or the configured path is the database itself), not
  readable, or read and parsed by the JSON library (\<open>None\<close> for a parse error).
\<close>

datatype legacy_file = Legacy_absent | Legacy_unreadable | Legacy_json "daemon_state option"

definition load_legacy_json_state :: "legacy_file \<Rightarrow> state_error + daemon_state option" where
  "load_legacy_json_state file =
     (case file of
        Legacy_absent \<Rightarrow> Inr None
      | Legacy_unreadable \<Rightarrow> Inl Se_Read
      | Legacy_json None \<Rightarrow> Inl Se_Parse
      | Legacy_json (Some st) \<Rightarrow> res_bind (migrate_legacy_state st) (\<lambda>st'. Inr (Some st')))"

definition state_load ::
  "codecs \<Rightarrow> u64 \<Rightarrow> legacy_file \<Rightarrow> 'm state_db_scheme \<Rightarrow> (state_error + daemon_state) \<times> 'm state_db_scheme" where
  "state_load cd now file =
     with_state_db now (\<lambda>db.
       (res_bind (load_sqlite_state cd db) (\<lambda>st.
          if ds_identity st \<noteq> None \<or> ds_trusted_devices st \<noteq> [] \<or> ds_sessions st \<noteq> [] then Inr st
          else res_bind (load_legacy_json_state file) (\<lambda>legacy.
                 Inr (case legacy of None \<Rightarrow> st | Some l \<Rightarrow> l))), db))"

section \<open>Closed sessions\<close>

definition record_runtime_session_closed ::
  "codecs \<Rightarrow> u64 \<Rightarrow> uuid \<Rightarrow> u64 \<Rightarrow> 'm state_db_scheme \<Rightarrow> (state_error + bool) \<times> 'm state_db_scheme" where
  "record_runtime_session_closed cd now sid at =
     with_state_db now (\<lambda>db.
       let db1 = upsert_meta_value meta_state_schema_version (dec state_schema_version) (i64_of_u64 at) db;
           key = cd_uuid_text cd sid;
           row = (case hm_get (db_runtime db1) key of
              None \<Rightarrow>
                \<lparr>rr_state = session_state_text Closed, rr_rows = 1, rr_cols = 1, rr_pixel_width = 0,
                 rr_pixel_height = 0, rr_created_at_ms = i64_of_u64 at, rr_updated_at_ms = i64_of_u64 at,
                 rr_restore_kind = None, rr_restore_value = None\<rparr>
            | Some old \<Rightarrow>
                old\<lparr>rr_state := session_state_text Closed, rr_updated_at_ms := i64_of_u64 at,
                    rr_restore_kind := None, rr_restore_value := None\<rparr>)
       in (Inr True, db1\<lparr>db_runtime := hm_insert key row (db_runtime db1)\<rparr>))"

text \<open>\<open>DELETE FROM runtime_sessions WHERE session_id = ?1 AND state = 'closed'\<close> and its row count.\<close>

definition delete_closed_row :: "string \<Rightarrow> 'm state_db_scheme \<Rightarrow> nat \<times> 'm state_db_scheme" where
  "delete_closed_row key db =
     (case hm_get (db_runtime db) key of
        Some row \<Rightarrow>
          if rr_state row = session_state_text Closed
          then (1, db\<lparr>db_runtime := hm_remove key (db_runtime db)\<rparr>) else (0, db)
      | None \<Rightarrow> (0, db))"

definition prune_closed_session ::
  "codecs \<Rightarrow> u64 \<Rightarrow> uuid \<Rightarrow> 'm state_db_scheme \<Rightarrow> (state_error + bool) \<times> 'm state_db_scheme" where
  "prune_closed_session cd now sid =
     with_state_db now (\<lambda>db. let (n, db') = delete_closed_row (cd_uuid_text cd sid) db in (Inr (0 < n), db'))"

definition prune_closed_runtime_sessions_except ::
  "codecs \<Rightarrow> uuid set \<Rightarrow> 'm state_db_scheme \<Rightarrow> nat \<times> 'm state_db_scheme" where
  "prune_closed_runtime_sessions_except cd keep db =
     (let deletable =
        [key. (key, row) \<leftarrow> db_runtime db, rr_state row = session_state_text Closed \<and> key \<notin> cd_uuid_text cd ` keep]
      in fold (\<lambda>key (n, db). let (m, db') = delete_closed_row key db in (n + m, db')) deletable (0, db))"

definition prune_closed_sessions_except ::
  "codecs \<Rightarrow> u64 \<Rightarrow> uuid set \<Rightarrow> 'm state_db_scheme \<Rightarrow> (state_error + nat) \<times> 'm state_db_scheme" where
  "prune_closed_sessions_except cd now keep =
     with_state_db now (\<lambda>db. let (n, db') = prune_closed_runtime_sessions_except cd keep db in (Inr n, db'))"

section \<open>Unfinished uploads\<close>

definition upload_to_row :: "http_upload_recovery_record \<Rightarrow> upload_row" where
  "upload_to_row u =
     \<lparr>ur_target_path = hu_target_path u, ur_size_bytes = dec (hu_size_bytes u), ur_dev = dec (hu_dev u),
      ur_ino = dec (hu_ino u), ur_updated_at_ms = i64_of_u64 (hu_updated_at_ms u)\<rparr>"

definition upload_of_row :: "string \<times> upload_row \<Rightarrow> sql_error + http_upload_recovery_record" where
  "upload_of_row e =
     (let row = snd e in
      res_bind (parse_u64_column 2 (ur_size_bytes row)) (\<lambda>bytes.
      res_bind (parse_u64_column 3 (ur_dev row)) (\<lambda>dev.
      res_bind (parse_u64_column 4 (ur_ino row)) (\<lambda>ino.
      res_bind (integer_to_timestamp (ur_updated_at_ms row) 5) (\<lambda>at.
      Inr \<lparr>hu_upload_id = fst e, hu_target_path = ur_target_path row, hu_size_bytes = bytes, hu_dev = dev,
           hu_ino = ino, hu_updated_at_ms = at\<rparr>)))))"

definition list_upload_rows :: "'m state_db_scheme \<Rightarrow> state_error + http_upload_recovery_record list" where
  "list_upload_rows db =
     sqlite_error (collect_rows upload_of_row
       (sort_key (\<lambda>e. (ur_updated_at_ms (snd e), fst e)) (db_uploads db)))"

definition list_http_uploads ::
  "u64 \<Rightarrow> 'm state_db_scheme \<Rightarrow> (state_error + http_upload_recovery_record list) \<times> 'm state_db_scheme" where
  "list_http_uploads now = with_state_db now (\<lambda>db. (list_upload_rows db, db))"

definition record_http_upload ::
  "u64 \<Rightarrow> http_upload_recovery_record \<Rightarrow> 'm state_db_scheme \<Rightarrow> (state_error + unit) \<times> 'm state_db_scheme" where
  "record_http_upload now u =
     with_state_db now (\<lambda>db.
       let db1 = write_sqlite_state_version now db in
       (Inr (), db1\<lparr>db_uploads := hm_insert (hu_upload_id u) (upload_to_row u) (db_uploads db1)\<rparr>))"

definition remove_http_upload :: "u64 \<Rightarrow> string \<Rightarrow> 'm state_db_scheme \<Rightarrow> (state_error + bool) \<times> 'm state_db_scheme" where
  "remove_http_upload now uid =
     with_state_db now (\<lambda>db.
       (Inr (hm_get (db_uploads db) uid \<noteq> None), db\<lparr>db_uploads := hm_remove uid (db_uploads db)\<rparr>))"

section \<open>The trust store\<close>

definition trusted_device_to_state :: "trusted_device \<Rightarrow> trusted_device_state" where
  "trusted_device_to_state d =
     \<lparr>tds_device_id = td_device_id d, tds_public_key = td_public_key d, tds_trusted_at_ms = td_trusted_at_ms d,
      tds_last_seen_at_ms = td_last_seen_at_ms d, tds_label = td_label d\<rparr>"

definition trusted_device_from_state :: "trusted_device_state \<Rightarrow> trusted_device" where
  "trusted_device_from_state s =
     trusted_device_restore \<lparr>di_device_id = tds_device_id s, di_public_key = tds_public_key s\<rparr>
       (tds_trusted_at_ms s) (tds_last_seen_at_ms s) (tds_label s)"

end
