(* ===== verification/State_Recovery.thy ===== *)
theory State_Recovery
  imports State_Store
begin

text \<open>
  What the persistent state guarantees: every database that the operations can produce is readable,
  a saved state is the state that the next start loads, and a session recorded as closed stays
  closed until it is pruned. The sessions table refines a map from session ids to records.
\<close>

declare map_of_eq_Some_iff [simp del] Some_eq_map_of_iff [simp del] session_state_text.simps [simp del]

section \<open>Reading rows\<close>

lemma collect_rows_Inr_iff: "collect_rows f xs = Inr ys \<longleftrightarrow> list_all2 (\<lambda>x y. f x = Inr y) xs ys"
proof (induction xs arbitrary: ys)
  case Nil
  then show ?case by auto
next
  case (Cons x xs)
  show ?case
  proof (cases "f x")
    case (Inl e)
    then show ?thesis by (auto simp: list_all2_Cons1)
  next
    case (Inr y)
    show ?thesis
    proof (cases "collect_rows f xs")
      case (Inl e)
      then have "\<not> list_all2 (\<lambda>x y. f x = Inr y) xs zs" for zs using Cons.IH [of zs] by simp
      with Inl Inr show ?thesis by (auto simp: list_all2_Cons1)
    next
      case (Inr zs)
      with Cons.IH [of zs] have zs: "list_all2 (\<lambda>x y. f x = Inr y) xs zs" by simp
      have "list_all2 (\<lambda>x y. f x = Inr y) xs ws \<longleftrightarrow> ws = zs" for ws
        using Cons.IH [of ws] Inr by auto
      with Inr \<open>f x = Inr y\<close> show ?thesis by (auto simp: list_all2_Cons1)
    qed
  qed
qed

lemma collect_rows_map:
  assumes "\<And>x. x \<in> set xs \<Longrightarrow> f x = Inr (g x)"
  shows "collect_rows f xs = Inr (map g xs)"
  using assms by (induction xs) auto

definition readable :: "('e + 'a) \<Rightarrow> bool" where
  "readable x \<longleftrightarrow> (\<exists>a. x = Inr a)"

lemma readable_simps [simp]: "readable (Inr a)" "\<not> readable (Inl e)"
  by (auto simp: readable_def)

lemma readable_bind: "readable (res_bind x f) \<longleftrightarrow> (\<exists>a. x = Inr a \<and> readable (f a))"
  by (cases x) auto

lemma collect_rows_readable: "readable (collect_rows f xs) \<longleftrightarrow> (\<forall>x \<in> set xs. readable (f x))"
proof (induction xs)
  case Nil
  then show ?case by simp
next
  case (Cons x xs)
  then show ?case by (cases "f x"; cases "collect_rows f xs") auto
qed

lemma collect_rows_set: "collect_rows f xs = Inr ys \<Longrightarrow> y \<in> set ys \<longleftrightarrow> (\<exists>x \<in> set xs. f x = Inr y)"
  unfolding collect_rows_Inr_iff by (induction rule: list_all2_induct) auto

lemma sort_key_map: "sort_key f (map g xs) = map g (sort_key (\<lambda>x. f (g x)) xs)"
proof -
  have ins: "insort_key f (g x) (map g ys) = map g (insort_key (\<lambda>x. f (g x)) x ys)" for x ys
    by (induction ys) auto
  show ?thesis by (induction xs) (auto simp: ins)
qed

section \<open>Values survive their column\<close>

lemma i64_timestamp [simp]: "x < 2 ^ 63 \<Longrightarrow> integer_to_timestamp (i64_of_u64 x) c = Inr x"
  by (simp add: integer_to_timestamp_def i64_of_u64_def)

lemma u16_column [simp]: "x \<le> u16_max \<Longrightarrow> integer_to_u16 (int x) c = Inr x"
  by (simp add: integer_to_u16_def)

text \<open>A time beyond \<open>2^63 - 1\<close> becomes negative in the column and is refused when it is read.\<close>

lemma far_timestamp_unreadable: "2 ^ 63 \<le> x \<Longrightarrow> x \<le> u64_max \<Longrightarrow> integer_to_timestamp (i64_of_u64 x) c = Inl (Conversion_failure c)"
  by (simp add: integer_to_timestamp_def i64_of_u64_def u64_max_def)

lemma session_state_text_roundtrip [simp]: "parse_session_state (session_state_text st) = Inr st"
  by (cases st) (simp_all add: parse_session_state_def session_state_text.simps)

lemma session_state_text_inject [simp]: "session_state_text a = session_state_text b \<longleftrightarrow> a = b"
  by (cases a; cases b) (simp_all add: session_state_text.simps)

lemma restore_info_roundtrip [simp]:
  "codecs_ok cd \<Longrightarrow> (case serialize_restore_info cd info of (k, v) \<Rightarrow> parse_restore_info cd k v) = Inr info"
  by (cases "(cd, info)" rule: serialize_restore_info.cases) (simp_all add: parse_restore_info_def)

lemma no_restore_info [simp]: "parse_restore_info cd None None = Inr None"
  by (simp add: parse_restore_info_def)

lemma ascii_char_roundtrip [simp]: "map char_of (ascii t) = t"
  by (induction t) (simp_all add: ascii_def)

definition fits_device :: "trusted_device_state \<Rightarrow> bool" where
  "fits_device d \<longleftrightarrow> tds_trusted_at_ms d < 2 ^ 63 \<and> (\<forall>t \<in> set_option (tds_last_seen_at_ms d). t < 2 ^ 63)"

definition fits_session :: "session_state_record \<Rightarrow> bool" where
  "fits_session s \<longleftrightarrow>
     ts_rows (ss_size s) \<le> u16_max \<and> ts_cols (ss_size s) \<le> u16_max \<and>
     ts_pixel_width (ss_size s) \<le> u16_max \<and> ts_pixel_height (ss_size s) \<le> u16_max \<and>
     ss_created_at_ms s < 2 ^ 63 \<and> ss_updated_at_ms s < 2 ^ 63"

definition fits_upload :: "http_upload_recovery_record \<Rightarrow> bool" where
  "fits_upload u \<longleftrightarrow>
     hu_size_bytes u \<le> u64_max \<and> hu_dev u \<le> u64_max \<and> hu_ino u \<le> u64_max \<and> hu_updated_at_ms u < 2 ^ 63"

definition fits_state :: "daemon_state \<Rightarrow> bool" where
  "fits_state st \<longleftrightarrow> list_all fits_device (ds_trusted_devices st) \<and> list_all fits_session (ds_sessions st)"

lemma device_row_roundtrip:
  assumes "codecs_ok cd" "fits_device d"
  shows "device_of_row cd (cd_uuid_text cd (tds_device_id d), device_to_row d) = Inr d"
  using assms
  by (cases d) (auto simp: device_of_row_def device_to_row_def parse_uuid_column_def fits_device_def split: option.splits)

text \<open>The record as it is stored: a closed session has no restore information.\<close>

definition stored_session :: "session_state_record \<Rightarrow> session_state_record" where
  "stored_session s = (if ss_state s = Closed then s\<lparr>ss_restore_info := None\<rparr> else s)"

lemma session_row_roundtrip:
  assumes "codecs_ok cd" "fits_session s"
  shows "session_of_row cd (cd_uuid_text cd (ss_session_id s), session_to_row cd s) = Inr (stored_session s)"
proof -
  obtain k v where kv: "serialize_restore_info cd (ss_restore_info s) = (k, v)" by force
  with restore_info_roundtrip [OF assms(1), of "ss_restore_info s"]
  have "parse_restore_info cd k v = Inr (ss_restore_info s)" by simp
  with assms kv show ?thesis
    by (cases s; cases "ss_size s")
       (auto simp: session_of_row_def session_to_row_def parse_uuid_column_def fits_session_def stored_session_def)
qed

lemma upload_row_roundtrip:
  "fits_upload u \<Longrightarrow> upload_of_row (hu_upload_id u, upload_to_row u) = Inr u"
  by (cases u) (simp add: upload_of_row_def upload_to_row_def parse_u64_column_def fits_upload_def)

section \<open>Good databases\<close>

definition runtime_row_ok :: "codecs \<Rightarrow> string \<Rightarrow> runtime_row \<Rightarrow> bool" where
  "runtime_row_ok cd key row \<longleftrightarrow> (\<exists>u. key = cd_uuid_text cd u) \<and> readable (session_of_row cd (key, row))"

definition sessions_ok :: "codecs \<Rightarrow> 'm state_db_scheme \<Rightarrow> bool" where
  "sessions_ok cd db \<longleftrightarrow> hm_wf (db_runtime db) \<and> hm.all_values (runtime_row_ok cd) (db_runtime db)"

definition version_ok :: "'m state_db_scheme \<Rightarrow> bool" where
  "version_ok db \<longleftrightarrow>
     read_meta_value meta_state_schema_version db = Some (dec state_schema_version) \<or>
     read_meta_value meta_state_schema_version db = None \<and> \<not> sqlite_state_has_content db"

definition db_ok :: "codecs \<Rightarrow> 'm state_db_scheme \<Rightarrow> bool" where
  "db_ok cd db \<longleftrightarrow>
     sessions_ok cd db \<and>
     hm_wf (db_devices db) \<and> hm.all_values (\<lambda>k r. readable (device_of_row cd (k, r))) (db_devices db) \<and>
     hm_wf (db_uploads db) \<and> hm.all_values (\<lambda>k r. readable (upload_of_row (k, r))) (db_uploads db) \<and>
     readable (load_identity cd db) \<and> version_ok db"

definition empty_state_db :: state_db where
  "empty_state_db = \<lparr>db_meta = [], db_devices = [], db_runtime = [], db_uploads = [], db_history_rows = 0\<rparr>"

lemma empty_db_ok: "db_ok cd empty_state_db"
  by (simp add: db_ok_def sessions_ok_def hm.all_values_empty load_identity_def version_ok_def
      read_meta_value_def sqlite_state_has_content_def empty_state_db_def)

lemma version_passes: "version_ok db \<Longrightarrow> ensure_sqlite_state_version now db = (Inr (), db)"
  by (auto simp: version_ok_def ensure_sqlite_state_version_def state_schema_version_def u32_max_def ensure_state_version_def)

lemma with_state_db_ok [simp]: "db_ok cd db \<Longrightarrow> with_state_db now f db = f db"
  by (simp add: with_state_db_def version_passes db_ok_def)

text \<open>Another application's database, or one of a version other than 2 and 3, is never touched.\<close>

lemma incompatible_database_is_untouched:
  assumes "read_meta_value meta_state_schema_version db = None \<and> sqlite_state_has_content db \<or>
    (\<exists>v. read_meta_value meta_state_schema_version db = Some (dec v) \<and> v \<noteq> 2 \<and> v \<noteq> 3)"
  shows "\<exists>e. with_state_db now f db = (Inl e, db)"
  using assms
  by (auto simp: with_state_db_def ensure_sqlite_state_version_def ensure_state_version_def state_schema_version_def)

subsection \<open>Metadata\<close>

lemma read_meta_upsert [simp]:
  "read_meta_value key (upsert_meta_value key' v at db) = (if key = key' then Some v else read_meta_value key db)"
  by (simp add: read_meta_value_def upsert_meta_value_def)

lemma read_meta_delete [simp]:
  "read_meta_value key (delete_meta_value key' db) = (if key = key' then None else read_meta_value key db)"
  by (simp add: read_meta_value_def delete_meta_value_def)

lemma read_meta_other_tables [simp]:
  "read_meta_value key (db\<lparr>db_devices := d\<rparr>) = read_meta_value key db"
  "read_meta_value key (db\<lparr>db_runtime := r\<rparr>) = read_meta_value key db"
  "read_meta_value key (db\<lparr>db_uploads := u\<rparr>) = read_meta_value key db"
  by (simp_all add: read_meta_value_def)

lemma meta_updates_other_tables [simp]:
  "db_devices (upsert_meta_value k v at db) = db_devices db" "db_devices (delete_meta_value k db) = db_devices db"
  "db_runtime (upsert_meta_value k v at db) = db_runtime db" "db_runtime (delete_meta_value k db) = db_runtime db"
  "db_uploads (upsert_meta_value k v at db) = db_uploads db" "db_uploads (delete_meta_value k db) = db_uploads db"
  by (simp_all add: upsert_meta_value_def delete_meta_value_def)

lemma save_identity_other_tables [simp]:
  "db_devices (save_identity cd at i db) = db_devices db"
  "db_runtime (save_identity cd at i db) = db_runtime db"
  "db_uploads (save_identity cd at i db) = db_uploads db"
  by (simp_all add: save_identity_def Let_def split: option.splits)

lemma save_identity_version [simp]:
  "read_meta_value meta_state_schema_version (save_identity cd at i db) = read_meta_value meta_state_schema_version db"
  by (simp add: save_identity_def Let_def meta_keys split: option.splits)

lemma load_saved_identity: "codecs_ok cd \<Longrightarrow> load_identity cd (save_identity cd at i db) = Inr i"
  by (cases "the i") (auto simp: load_identity_def save_identity_def Let_def meta_keys split: option.splits)

lemma load_identity_cong:
  assumes "\<And>key. key \<noteq> meta_state_schema_version \<Longrightarrow> read_meta_value key db' = read_meta_value key db"
  shows "load_identity cd db' = load_identity cd db"
  using assms [of meta_server_id] assms [of meta_daemon_public_key] assms [of meta_daemon_private_key]
  by (simp add: load_identity_def meta_keys split: option.splits)

subsection \<open>Trusted devices\<close>

definition device_entry :: "codecs \<Rightarrow> trusted_device_state \<Rightarrow> string \<times> device_row" where
  "device_entry cd d = (cd_uuid_text cd (tds_device_id d), device_to_row d)"

lemma run_insert_devices:
  assumes "codecs_ok cd" "hm_wf (db_devices db)"
  shows "run_each (insert_device cd) ds db =
    (if distinct (map fst (db_devices db) @ map (\<lambda>d. cd_uuid_text cd (tds_device_id d)) ds)
     then Inr (db\<lparr>db_devices := db_devices db @ map (device_entry cd) ds\<rparr>)
     else Inl (Se_Sqlite Constraint_violation))"
  using assms
proof (induction ds arbitrary: db)
  case Nil
  then show ?case by simp
next
  case (Cons d ds)
  let ?k = "cd_uuid_text cd (tds_device_id d)"
  show ?case
  proof (cases "?k \<in> fst ` set (db_devices db)")
    case True
    then have "hm_get (db_devices db) ?k \<noteq> None" by (simp add: map_of_eq_None_iff)
    with True show ?thesis by (auto simp: insert_device_def Let_def)
  next
    case False
    then have none: "hm_get (db_devices db) ?k = None" by (simp add: map_of_eq_None_iff)
    let ?db = "db\<lparr>db_devices := db_devices db @ [device_entry cd d]\<rparr>"
    have step: "insert_device cd d db = Inr ?db"
      using none by (simp add: insert_device_def Let_def hm_insert_absent device_entry_def)
    have "hm_wf (db_devices ?db)" using Cons.prems(2) False by (simp add: device_entry_def)
    note IH = Cons.IH [OF Cons.prems(1) this]
    show ?thesis
      unfolding run_each.simps step res_bind_simps IH by (simp add: device_entry_def)
  qed
qed

lemma loaded_devices:
  assumes "codecs_ok cd" "list_all fits_device ds"
  shows "collect_rows (device_of_row cd) (sort_key fst (map (device_entry cd) ds)) =
    Inr (sort_key (\<lambda>d. cd_uuid_text cd (tds_device_id d)) ds)"
proof -
  have "collect_rows (device_of_row cd) (map (device_entry cd) xs) = Inr xs" if "set xs \<subseteq> set ds" for xs
  proof -
    have "\<forall>d \<in> set xs. device_of_row cd (device_entry cd d) = Inr d"
      using that assms by (auto simp: device_entry_def device_row_roundtrip list_all_iff)
    then show ?thesis by (induction xs) auto
  qed
  then show ?thesis by (simp add: sort_key_map device_entry_def)
qed

subsection \<open>Sessions\<close>

definition sessions_of :: "codecs \<Rightarrow> 'm state_db_scheme \<Rightarrow> uuid \<Rightarrow> session_state_record option" where
  "sessions_of cd db u =
     (case hm_get (db_runtime db) (cd_uuid_text cd u) of
        None \<Rightarrow> None
      | Some row \<Rightarrow> (case session_of_row cd (cd_uuid_text cd u, row) of Inl _ \<Rightarrow> None | Inr s \<Rightarrow> Some s))"

text \<open>The abstract upsert: a session that is closed, in the table or in the new record, stays closed.\<close>

definition merge_session :: "session_state_record option \<Rightarrow> session_state_record \<Rightarrow> session_state_record" where
  "merge_session old s =
     stored_session (if \<exists>o'. old = Some o' \<and> ss_state o' = Closed then s\<lparr>ss_state := Closed\<rparr> else s)"

definition spec_upsert ::
  "session_state_record \<Rightarrow> (uuid \<Rightarrow> session_state_record option) \<Rightarrow> uuid \<Rightarrow> session_state_record option" where
  "spec_upsert s m = m(ss_session_id s \<mapsto> merge_session (m (ss_session_id s)) s)"

lemma merge_row_is_closed_record:
  "merge_runtime_row old (session_to_row cd s) =
    session_to_row cd (if rr_state old = session_state_text Closed then s\<lparr>ss_state := Closed\<rparr> else s)"
  by (auto simp: merge_runtime_row_def session_to_row_def Let_def split: prod.splits)

lemma read_session_state:
  assumes "session_of_row cd (key, row) = Inr s"
  shows "rr_state row = session_state_text (ss_state s)" "cd_uuid_parse cd key = Some (ss_session_id s)"
  using assms
  by (auto simp: session_of_row_def parse_session_state_def parse_uuid_column_def res_bind_def session_state_text.simps
      split: sum.splits if_splits option.splits)

lemma fits_closed [simp]: "fits_session (s\<lparr>ss_state := st\<rparr>) = fits_session s"
  by (simp add: fits_session_def)

lemma upsert_row_read:
  assumes "codecs_ok cd" "fits_session s" "sessions_ok cd db"
  shows "\<exists>row. hm_get (db_runtime (upsert_session cd s db)) (cd_uuid_text cd (ss_session_id s)) = Some row \<and>
    session_of_row cd (cd_uuid_text cd (ss_session_id s), row) = Inr (merge_session (sessions_of cd db (ss_session_id s)) s)"
proof (cases "hm_get (db_runtime db) (cd_uuid_text cd (ss_session_id s))")
  case None
  with assms show ?thesis
    by (simp add: upsert_session_def Let_def merge_session_def sessions_of_def session_row_roundtrip)
next
  case (Some old)
  let ?k = "cd_uuid_text cd (ss_session_id s)"
  from assms(3) Some have "runtime_row_ok cd ?k old"
    unfolding sessions_ok_def by (blast dest: hm.all_valuesD)
  then obtain o' where o': "session_of_row cd (?k, old) = Inr o'"
    by (auto simp: runtime_row_ok_def readable_def)
  have state: "rr_state old = session_state_text Closed \<longleftrightarrow> ss_state o' = Closed"
    using read_session_state(1) [OF o'] by simp
  let ?s = "if ss_state o' = Closed then s\<lparr>ss_state := Closed\<rparr> else s"
  have "session_of_row cd (?k, session_to_row cd ?s) = Inr (stored_session ?s)"
    using session_row_roundtrip [OF assms(1), of ?s] assms(2) by (auto split: if_splits)
  with Some o' state show ?thesis
    by (simp add: upsert_session_def Let_def merge_row_is_closed_record merge_session_def sessions_of_def)
qed

lemma upsert_other_tables [simp]:
  "db_meta (upsert_session cd s db) = db_meta db" "db_devices (upsert_session cd s db) = db_devices db"
  "db_uploads (upsert_session cd s db) = db_uploads db"
  by (simp_all add: upsert_session_def Let_def)

lemma sessions_of_upsert:
  assumes "codecs_ok cd" "fits_session s" "sessions_ok cd db"
  shows "sessions_of cd (upsert_session cd s db) = spec_upsert s (sessions_of cd db)"
proof
  fix u
  show "sessions_of cd (upsert_session cd s db) u = spec_upsert s (sessions_of cd db) u"
  proof (cases "u = ss_session_id s")
    case True
    with upsert_row_read [OF assms] show ?thesis by (auto simp: sessions_of_def [of cd "upsert_session cd s db"] spec_upsert_def)
  next
    case False
    with assms(1) show ?thesis by (simp add: sessions_of_def upsert_session_def Let_def spec_upsert_def)
  qed
qed

lemma upsert_runtime_ok:
  assumes "codecs_ok cd" "fits_session s" "sessions_ok cd db"
  shows "sessions_ok cd (upsert_session cd s db)"
proof -
  let ?k = "cd_uuid_text cd (ss_session_id s)"
  obtain row where row: "db_runtime (upsert_session cd s db) = hm_insert ?k row (db_runtime db)"
    by (simp add: upsert_session_def Let_def)
  with upsert_row_read [OF assms] have "runtime_row_ok cd ?k row"
    by (auto simp: runtime_row_ok_def)
  with assms(3) show ?thesis
    unfolding sessions_ok_def row by (simp add: hm.all_values_insert)
qed

lemma upsert_all:
  assumes "codecs_ok cd" "list_all fits_session ss" "sessions_ok cd db"
  shows "sessions_ok cd (fold (upsert_session cd) ss db)"
    and "sessions_of cd (fold (upsert_session cd) ss db) = fold spec_upsert ss (sessions_of cd db)"
    and "db_meta (fold (upsert_session cd) ss db) = db_meta db"
    and "db_devices (fold (upsert_session cd) ss db) = db_devices db"
    and "db_uploads (fold (upsert_session cd) ss db) = db_uploads db"
  using assms(2,3)
  by (induction ss arbitrary: db) (auto simp: assms(1) upsert_runtime_ok sessions_of_upsert)

lemma sessions_of_readable:
  assumes "codecs_ok cd" "sessions_ok cd db"
    and load: "collect_rows (session_of_row cd) (sort_key f (db_runtime db)) = Inr ss"
  shows "s \<in> set ss \<longleftrightarrow> sessions_of cd db (ss_session_id s) = Some s"
proof -
  have wf: "hm_wf (db_runtime db)" using assms(2) by (simp add: sessions_ok_def)
  have "s \<in> set ss \<longleftrightarrow> (\<exists>k row. hm_get (db_runtime db) k = Some row \<and> session_of_row cd (k, row) = Inr s)"
    using collect_rows_set [OF load, of s] hm_entry_get [OF wf] by force
  also have "\<dots> \<longleftrightarrow> sessions_of cd db (ss_session_id s) = Some s"
  proof
    assume "\<exists>k row. hm_get (db_runtime db) k = Some row \<and> session_of_row cd (k, row) = Inr s"
    then obtain k row where k: "hm_get (db_runtime db) k = Some row" "session_of_row cd (k, row) = Inr s" by blast
    from assms(2) k(1) obtain u where "k = cd_uuid_text cd u"
      unfolding sessions_ok_def by (metis hm.all_valuesD runtime_row_ok_def)
    with k assms(1) read_session_state(2) [OF k(2)] show "sessions_of cd db (ss_session_id s) = Some s"
      by (simp add: sessions_of_def)
  next
    assume "sessions_of cd db (ss_session_id s) = Some s"
    then show "\<exists>k row. hm_get (db_runtime db) k = Some row \<and> session_of_row cd (k, row) = Inr s"
      by (auto simp: sessions_of_def split: option.splits sum.splits)
  qed
  finally show ?thesis .
qed

section \<open>Every operation keeps the database good\<close>

lemma all_values_entries: "hm_wf m \<Longrightarrow> (\<forall>e \<in> set m. P (fst e) (snd e)) \<longleftrightarrow> hm.all_values P m"
proof -
  assume "hm_wf m"
  then have "hm_get m k = Some v \<longleftrightarrow> (k, v) \<in> set m" for k v by (rule hm_entry_get [symmetric])
  then show ?thesis unfolding hm.all_values_def by force
qed

lemma device_entries_ok:
  assumes "codecs_ok cd" "list_all fits_device ds" "hm_wf (map (device_entry cd) ds)"
  shows "hm.all_values (\<lambda>k r. readable (device_of_row cd (k, r))) (map (device_entry cd) ds)"
  using assms by (subst all_values_entries [symmetric]) (auto simp: list_all_iff device_entry_def device_row_roundtrip)

lemma fold_upsert_read_meta:
  "codecs_ok cd \<Longrightarrow> list_all fits_session ss \<Longrightarrow> sessions_ok cd db \<Longrightarrow>
    read_meta_value key (fold (upsert_session cd) ss db) = read_meta_value key db"
  by (simp add: read_meta_value_def upsert_all)

text \<open>A save either fails without a trace or stores the whole state.\<close>

lemma save_sqlite_state_cases:
  fixes db :: "'m state_db_scheme"
  assumes "codecs_ok cd" "db_ok cd db" "fits_state st"
  shows "(\<exists>e. save_sqlite_state cd now st db = (Inl e, db) \<and>
      (ds_version st \<noteq> state_schema_version \<or> \<not> distinct (map tds_device_id (ds_trusted_devices st)))) \<or>
    (\<exists>db'. save_sqlite_state cd now st db = (Inr (), db') \<and>
      distinct (map tds_device_id (ds_trusted_devices st)) \<and> db_ok cd db' \<and>
      load_identity cd db' = Inr (ds_identity st) \<and>
      db_devices db' = map (device_entry cd) (ds_trusted_devices st) \<and>
      sessions_of cd db' = fold spec_upsert (ds_sessions st) (sessions_of cd db) \<and>
      db_uploads db' = db_uploads db)"
proof (cases "ds_version st = state_schema_version")
  case False
  then show ?thesis by (simp add: save_sqlite_state_def ensure_state_version_def)
next
  case version: True
  define db1 where "db1 = upsert_meta_value meta_state_schema_version (dec (ds_version st)) (i64_of_u64 now) db"
  define db3 where "db3 = (save_identity cd (i64_of_u64 now) (ds_identity st) db1)\<lparr>db_devices := []\<rparr>"
  have run: "run_each (insert_device cd) (ds_trusted_devices st) db3 =
    (if distinct (map tds_device_id (ds_trusted_devices st))
     then Inr (db3\<lparr>db_devices := map (device_entry cd) (ds_trusted_devices st)\<rparr>)
     else Inl (Se_Sqlite Constraint_violation))"
    using assms(1) by (subst run_insert_devices) (auto simp: db3_def distinct_map inj_on_def)
  have save: "save_sqlite_state cd now st db =
    transaction (\<lambda>_. res_bind (run_each (insert_device cd) (ds_trusted_devices st) db3)
      (\<lambda>db4. Inr (fold (upsert_session cd) (ds_sessions st) db4))) db"
    using version by (simp add: save_sqlite_state_def ensure_state_version_def db1_def db3_def transaction_def Let_def)
  show ?thesis
  proof (cases "distinct (map tds_device_id (ds_trusted_devices st))")
    case False
    then show ?thesis by (auto simp: save run transaction_def)
  next
    case distinct: True
    define db4 where "db4 = db3\<lparr>db_devices := map (device_entry cd) (ds_trusted_devices st)\<rparr>"
    define db' where "db' = fold (upsert_session cd) (ds_sessions st) db4"
    have fits: "list_all fits_device (ds_trusted_devices st)" "list_all fits_session (ds_sessions st)"
      using assms(3) by (simp_all add: fits_state_def)
    have rt: "sessions_ok cd db4" "sessions_of cd db4 = sessions_of cd db"
      using assms(2) by (auto simp: db4_def db3_def db1_def db_ok_def sessions_ok_def sessions_of_def)
    note all = upsert_all [OF assms(1) fits(2) rt(1), folded db'_def]
    have meta: "read_meta_value key db' = read_meta_value key (save_identity cd (i64_of_u64 now) (ds_identity st) db1)" for key
      using all(3) by (simp add: read_meta_value_def db4_def db3_def)
    have identity: "load_identity cd db' = Inr (ds_identity st)"
      using load_identity_cong [OF meta] load_saved_identity [OF assms(1)] by metis
    have wf: "hm_wf (map (device_entry cd) (ds_trusted_devices st))"
      using distinct assms(1) by (auto simp: distinct_map inj_on_def device_entry_def)
    have "db_ok cd db'"
      using all(1,4,5) assms(2) identity meta [of meta_state_schema_version] version
        device_entries_ok [OF assms(1) fits(1) wf] wf
      by (simp add: db_ok_def version_ok_def db1_def db4_def db3_def)
    moreover have "save_sqlite_state cd now st db = (Inr (), db')"
      using distinct by (simp add: save run transaction_def db'_def db4_def)
    ultimately show ?thesis using distinct identity all(2,4,5) rt(2)
      by (auto simp: db4_def db3_def db1_def)
  qed
qed

lemma save_keeps_ok:
  assumes "codecs_ok cd" "db_ok cd db" "fits_state st"
  shows "db_ok cd (snd (state_save cd now st db))"
  using save_sqlite_state_cases [OF assms, of now] assms(2) by (auto simp: state_save_def)

text \<open>Operations that set the version row and change other tables.\<close>

lemma db_ok_set_version:
  "db_ok cd db \<Longrightarrow> db_ok cd (upsert_meta_value meta_state_schema_version (dec state_schema_version) at db)"
  using load_identity_cong [of "upsert_meta_value meta_state_schema_version (dec state_schema_version) at db" db cd]
  by (auto simp: db_ok_def sessions_ok_def version_ok_def)

lemma db_ok_runtime:
  assumes "db_ok cd db" "sessions_ok cd (db\<lparr>db_runtime := m\<rparr>)"
    and "read_meta_value meta_state_schema_version db \<noteq> None \<or> m = []"
  shows "db_ok cd (db\<lparr>db_runtime := m\<rparr>)"
proof -
  have "load_identity cd (db\<lparr>db_runtime := m\<rparr>) = load_identity cd db" by (rule load_identity_cong) simp
  with assms show ?thesis by (auto simp: db_ok_def version_ok_def sqlite_state_has_content_def)
qed

lemma db_ok_uploads:
  assumes "db_ok cd db" "hm_wf m" "hm.all_values (\<lambda>k r. readable (upload_of_row (k, r))) m"
    and "read_meta_value meta_state_schema_version db \<noteq> None \<or> m = []"
  shows "db_ok cd (db\<lparr>db_uploads := m\<rparr>)"
proof -
  have "load_identity cd (db\<lparr>db_uploads := m\<rparr>) = load_identity cd db" by (rule load_identity_cong) simp
  with assms show ?thesis by (auto simp: db_ok_def sessions_ok_def version_ok_def sqlite_state_has_content_def)
qed

lemma versionless_is_empty:
  "db_ok cd db \<Longrightarrow> read_meta_value meta_state_schema_version db = None \<Longrightarrow> db_runtime db = [] \<and> db_uploads db = []"
  by (auto simp: db_ok_def version_ok_def sqlite_state_has_content_def)

subsection \<open>Closing and pruning\<close>

definition closed_record :: "uuid \<Rightarrow> u64 \<Rightarrow> session_state_record option \<Rightarrow> session_state_record" where
  "closed_record u at old =
     (case old of
        None \<Rightarrow>
          \<lparr>ss_session_id = u, ss_state = Closed,
           ss_size = \<lparr>ts_rows = 1, ts_cols = 1, ts_pixel_width = 0, ts_pixel_height = 0\<rparr>,
           ss_created_at_ms = at, ss_updated_at_ms = at, ss_restore_info = None\<rparr>
      | Some s \<Rightarrow> s\<lparr>ss_state := Closed, ss_updated_at_ms := at, ss_restore_info := None\<rparr>)"

lemma read_closed_row:
  assumes "session_of_row cd (key, row) = Inr s" "at < 2 ^ 63"
  shows "session_of_row cd (key, row\<lparr>rr_state := session_state_text Closed, rr_updated_at_ms := i64_of_u64 at,
      rr_restore_kind := None, rr_restore_value := None\<rparr>) =
    Inr (s\<lparr>ss_state := Closed, ss_updated_at_ms := at, ss_restore_info := None\<rparr>)"
  using assms
  by (simp add: session_of_row_def res_bind_def split: sum.splits) auto

lemma runtime_ok_find:
  assumes "sessions_ok cd db" "hm_get (db_runtime db) (cd_uuid_text cd u) = Some row"
  obtains s where "session_of_row cd (cd_uuid_text cd u, row) = Inr s" "sessions_of cd db u = Some s"
proof -
  from assms obtain s where "session_of_row cd (cd_uuid_text cd u, row) = Inr s"
    unfolding sessions_ok_def by (metis hm.all_valuesD runtime_row_ok_def readable_def)
  with assms(2) that show thesis by (simp add: sessions_of_def)
qed

lemma runtime_ok_insert:
  assumes "codecs_ok cd" "sessions_ok cd db" "session_of_row cd (cd_uuid_text cd u, row) = Inr s"
  shows "sessions_ok cd (db\<lparr>db_runtime := hm_insert (cd_uuid_text cd u) row (db_runtime db)\<rparr>)"
    and "sessions_of cd (db\<lparr>db_runtime := hm_insert (cd_uuid_text cd u) row (db_runtime db)\<rparr>) =
      (sessions_of cd db)(u \<mapsto> s)"
proof -
  show "sessions_ok cd (db\<lparr>db_runtime := hm_insert (cd_uuid_text cd u) row (db_runtime db)\<rparr>)"
  proof -
    have "runtime_row_ok cd (cd_uuid_text cd u) row" using assms(3) by (auto simp: runtime_row_ok_def)
    with assms(2) show ?thesis by (simp add: sessions_ok_def hm.all_values_insert)
  qed
  show "sessions_of cd (db\<lparr>db_runtime := hm_insert (cd_uuid_text cd u) row (db_runtime db)\<rparr>) =
      (sessions_of cd db)(u \<mapsto> s)"
    using assms(1,3) by (auto simp: sessions_of_def)
qed

lemma runtime_ok_remove:
  assumes "codecs_ok cd" "sessions_ok cd db"
  shows "sessions_ok cd (db\<lparr>db_runtime := hm_remove (cd_uuid_text cd u) (db_runtime db)\<rparr>)"
    and "sessions_of cd (db\<lparr>db_runtime := hm_remove (cd_uuid_text cd u) (db_runtime db)\<rparr>) = (sessions_of cd db)(u := None)"
  using assms by (auto simp: sessions_ok_def hm.all_values_remove sessions_of_def)

lemma sessions_of_meta [simp]:
  "sessions_of cd (upsert_meta_value k v at db) = sessions_of cd db"
  "sessions_of cd (db\<lparr>db_uploads := m\<rparr>) = sessions_of cd db"
  by (auto simp: sessions_of_def)

lemma close_effect:
  assumes "codecs_ok cd" "db_ok cd db" "at < 2 ^ 63"
  shows "db_ok cd (snd (record_runtime_session_closed cd now u at db))"
    and "sessions_of cd (snd (record_runtime_session_closed cd now u at db)) =
      (sessions_of cd db)(u \<mapsto> closed_record u at (sessions_of cd db u))"
proof -
  define db1 where "db1 = upsert_meta_value meta_state_schema_version (dec state_schema_version) (i64_of_u64 at) db"
  have ok1: "db_ok cd db1" unfolding db1_def by (rule db_ok_set_version [OF assms(2)])
  have rt: "sessions_ok cd db1" using ok1 by (simp add: db_ok_def)
  let ?k = "cd_uuid_text cd u"
  obtain row where call: "snd (record_runtime_session_closed cd now u at db) = db1\<lparr>db_runtime := hm_insert ?k row (db_runtime db1)\<rparr>"
    and row: "session_of_row cd (?k, row) = Inr (closed_record u at (sessions_of cd db u))"
  proof (cases "hm_get (db_runtime db) ?k")
    case None
    then have "sessions_of cd db u = None" by (simp add: sessions_of_def)
    then show thesis
      using that assms None
      by (auto simp: record_runtime_session_closed_def Let_def closed_record_def session_of_row_def
          parse_uuid_column_def db1_def integer_to_u16_def u16_max_def)
  next
    case (Some old)
    then have "hm_get (db_runtime db1) ?k = Some old" by (simp add: db1_def)
    then obtain s where s: "session_of_row cd (?k, old) = Inr s" "sessions_of cd db1 u = Some s"
      by (rule runtime_ok_find [OF rt])
    show thesis
      using that read_closed_row [OF s(1) assms(3)] s(2) assms(2) Some
      by (auto simp: record_runtime_session_closed_def Let_def closed_record_def db1_def)
  qed
  note ins = runtime_ok_insert [OF assms(1) rt row]
  show "sessions_of cd (snd (record_runtime_session_closed cd now u at db)) =
      (sessions_of cd db)(u \<mapsto> closed_record u at (sessions_of cd db u))"
    unfolding call ins(2) by (simp add: db1_def)
  show "db_ok cd (snd (record_runtime_session_closed cd now u at db))"
    unfolding call by (rule db_ok_runtime [OF ok1 ins(1)]) (simp add: db1_def)
qed

text \<open>Deleting the row of one session, if it is closed.\<close>

lemma delete_closed_effect:
  assumes "codecs_ok cd" "db_ok cd db"
  shows "db_ok cd (snd (delete_closed_row (cd_uuid_text cd u) db))"
    and "sessions_of cd (snd (delete_closed_row (cd_uuid_text cd u) db)) v =
      (if v = u \<and> (\<exists>s. sessions_of cd db u = Some s \<and> ss_state s = Closed) then None else sessions_of cd db v)"
proof -
  have rt: "sessions_ok cd db" using assms(2) by (simp add: db_ok_def)
  let ?P = "db_ok cd (snd (delete_closed_row (cd_uuid_text cd u) db)) \<and>
    sessions_of cd (snd (delete_closed_row (cd_uuid_text cd u) db)) v =
      (if v = u \<and> (\<exists>s. sessions_of cd db u = Some s \<and> ss_state s = Closed) then None else sessions_of cd db v)"
  have ?P
  proof (cases "hm_get (db_runtime db) (cd_uuid_text cd u)")
    case None
    then show ?thesis using assms(2) by (auto simp: delete_closed_row_def sessions_of_def)
  next
    case (Some row)
    then obtain s where s: "session_of_row cd (cd_uuid_text cd u, row) = Inr s" "sessions_of cd db u = Some s"
      by (rule runtime_ok_find [OF rt])
    have closed: "rr_state row = session_state_text Closed \<longleftrightarrow> ss_state s = Closed"
      using read_session_state(1) [OF s(1)] by simp
    have "read_meta_value meta_state_schema_version db \<noteq> None"
      using versionless_is_empty [OF assms(2)] Some by (metis map_of.simps(1) option.distinct(1))
    then show ?thesis
      using Some s closed assms(2) runtime_ok_remove [OF assms(1) rt, of u] db_ok_runtime [OF assms(2)]
      by (simp add: delete_closed_row_def)
  qed
  then show "db_ok cd (snd (delete_closed_row (cd_uuid_text cd u) db))"
    and "sessions_of cd (snd (delete_closed_row (cd_uuid_text cd u) db)) v =
      (if v = u \<and> (\<exists>s. sessions_of cd db u = Some s \<and> ss_state s = Closed) then None else sessions_of cd db v)"
    by blast+
qed

lemma prune_effect:
  assumes "codecs_ok cd" "db_ok cd db"
  shows "db_ok cd (snd (prune_closed_session cd now u db))"
    and "sessions_of cd (snd (prune_closed_session cd now u db)) v =
      (if v = u \<and> (\<exists>s. sessions_of cd db u = Some s \<and> ss_state s = Closed) then None else sessions_of cd db v)"
proof -
  have "snd (prune_closed_session cd now u db) = snd (delete_closed_row (cd_uuid_text cd u) db)"
    using assms(2) by (simp add: prune_closed_session_def split: prod.splits)
  with delete_closed_effect [OF assms] show "db_ok cd (snd (prune_closed_session cd now u db))"
    and "sessions_of cd (snd (prune_closed_session cd now u db)) v =
      (if v = u \<and> (\<exists>s. sessions_of cd db u = Some s \<and> ss_state s = Closed) then None else sessions_of cd db v)"
    by simp_all
qed

lemma delete_closed_rows_effect:
  assumes "codecs_ok cd" "db_ok cd db"
  shows "db_ok cd (snd (fold (\<lambda>key (n, db). let (m, db') = delete_closed_row key db in (n + m, db')) (map (cd_uuid_text cd) us) (n, db))) \<and>
    sessions_of cd (snd (fold (\<lambda>key (n, db). let (m, db') = delete_closed_row key db in (n + m, db')) (map (cd_uuid_text cd) us) (n, db))) v =
      (if v \<in> set us \<and> (\<exists>s. sessions_of cd db v = Some s \<and> ss_state s = Closed) then None else sessions_of cd db v)"
  using assms(2)
proof (induction us arbitrary: n db)
  case Nil
  then show ?case by simp
next
  case (Cons u us)
  obtain m db' where del: "delete_closed_row (cd_uuid_text cd u) db = (m, db')" by force
  note eff = delete_closed_effect [OF assms(1) Cons.prems, of u, unfolded del snd_conv]
  show ?case using Cons.IH [OF eff(1)] eff(2) [of v] by (auto simp: del)
qed

lemma prune_except_effect:
  assumes "codecs_ok cd" "db_ok cd db"
  shows "db_ok cd (snd (prune_closed_sessions_except cd now keep db))"
    and "sessions_of cd (snd (prune_closed_sessions_except cd now keep db)) v =
      (if v \<notin> keep \<and> (\<exists>s. sessions_of cd db v = Some s \<and> ss_state s = Closed) then None else sessions_of cd db v)"
proof -
  define keys where "keys = [key. (key, row) \<leftarrow> db_runtime db,
    rr_state row = session_state_text Closed \<and> key \<notin> cd_uuid_text cd ` keep]"
  have rt: "sessions_ok cd db" using assms(2) by (simp add: db_ok_def)
  then have wf: "hm_wf (db_runtime db)" by (simp add: sessions_ok_def)
  have mem: "k \<in> set keys \<longleftrightarrow> (\<exists>row. hm_get (db_runtime db) k = Some row \<and> rr_state row = session_state_text Closed) \<and>
      k \<notin> cd_uuid_text cd ` keep" for k
  proof -
    have "k \<in> set keys \<longleftrightarrow> (\<exists>row. (k, row) \<in> set (db_runtime db) \<and> rr_state row = session_state_text Closed) \<and>
      k \<notin> cd_uuid_text cd ` keep"
      unfolding keys_def by force
    then show ?thesis unfolding hm_entry_get [OF wf] .
  qed
  have "\<forall>k \<in> set keys. \<exists>u. k = cd_uuid_text cd u"
  proof
    fix k assume "k \<in> set keys"
    then obtain row where "hm_get (db_runtime db) k = Some row" unfolding mem by blast
    with rt have "runtime_row_ok cd k row" unfolding sessions_ok_def by (blast dest: hm.all_valuesD)
    then show "\<exists>u. k = cd_uuid_text cd u" by (simp add: runtime_row_ok_def)
  qed
  then obtain us where us: "keys = map (cd_uuid_text cd) us" unfolding ex_map_conv [symmetric] by blast
  have in_us: "v \<in> set us \<longleftrightarrow> cd_uuid_text cd v \<in> set keys" for v
    unfolding us using assms(1) by auto
  have closed_iff: "v \<in> set us \<longleftrightarrow> v \<notin> keep \<and> (\<exists>s. sessions_of cd db v = Some s \<and> ss_state s = Closed)" for v
  proof -
    have "(\<exists>row. hm_get (db_runtime db) (cd_uuid_text cd v) = Some row \<and> rr_state row = session_state_text Closed) \<longleftrightarrow>
      (\<exists>s. sessions_of cd db v = Some s \<and> ss_state s = Closed)"
    proof (cases "hm_get (db_runtime db) (cd_uuid_text cd v)")
      case None
      then show ?thesis by (simp add: sessions_of_def)
    next
      case (Some row)
      then obtain s where "session_of_row cd (cd_uuid_text cd v, row) = Inr s" "sessions_of cd db v = Some s"
        by (rule runtime_ok_find [OF rt])
      with Some read_session_state(1) show ?thesis by fastforce
    qed
    then show ?thesis unfolding in_us mem using assms(1) by (auto simp: image_iff)
  qed
  have call: "snd (prune_closed_sessions_except cd now keep db) =
    snd (fold (\<lambda>key (n, db). let (m, db') = delete_closed_row key db in (n + m, db')) (map (cd_uuid_text cd) us) (0, db))"
    using assms(2)
    by (simp add: prune_closed_sessions_except_def prune_closed_runtime_sessions_except_def keys_def [symmetric] us [symmetric]
        split: prod.splits)
  show "db_ok cd (snd (prune_closed_sessions_except cd now keep db))"
    unfolding call using delete_closed_rows_effect [OF assms] by blast
  show "sessions_of cd (snd (prune_closed_sessions_except cd now keep db)) v =
      (if v \<notin> keep \<and> (\<exists>s. sessions_of cd db v = Some s \<and> ss_state s = Closed) then None else sessions_of cd db v)"
    unfolding call using delete_closed_rows_effect [OF assms, of us 0 v] closed_iff [of v] by auto
qed

subsection \<open>Uploads\<close>

lemma record_upload_effect:
  assumes "db_ok cd db" "fits_upload u"
  shows "db_ok cd (snd (record_http_upload now u db))"
    and "sessions_of cd (snd (record_http_upload now u db)) = sessions_of cd db"
proof -
  let ?db1 = "write_sqlite_state_version now db"
  have ok1: "db_ok cd ?db1" unfolding write_sqlite_state_version_def by (rule db_ok_set_version [OF assms(1)])
  have call: "snd (record_http_upload now u db) =
      ?db1\<lparr>db_uploads := hm_insert (hu_upload_id u) (upload_to_row u) (db_uploads ?db1)\<rparr>"
    using assms(1) by (simp add: record_http_upload_def Let_def)
  show "sessions_of cd (snd (record_http_upload now u db)) = sessions_of cd db"
    unfolding call by (simp add: write_sqlite_state_version_def)
  show "db_ok cd (snd (record_http_upload now u db))"
    unfolding call using ok1 assms(2)
    by (intro db_ok_uploads) (auto simp: db_ok_def hm.all_values_insert upload_row_roundtrip write_sqlite_state_version_def)
qed

lemma remove_upload_effect:
  assumes "db_ok cd db"
  shows "db_ok cd (snd (remove_http_upload now uid db))"
    and "sessions_of cd (snd (remove_http_upload now uid db)) = sessions_of cd db"
proof -
  have call: "snd (remove_http_upload now uid db) = db\<lparr>db_uploads := hm_remove uid (db_uploads db)\<rparr>"
    using assms by (simp add: remove_http_upload_def)
  show "sessions_of cd (snd (remove_http_upload now uid db)) = sessions_of cd db" unfolding call by simp
  have "read_meta_value meta_state_schema_version db \<noteq> None \<or> hm_remove uid (db_uploads db) = []"
    using versionless_is_empty [OF assms] by (metis delete_simps(1))
  then show "db_ok cd (snd (remove_http_upload now uid db))"
    unfolding call using assms by (intro db_ok_uploads) (auto simp: db_ok_def hm.all_values_remove)
qed

text \<open>A recorded upload is listed with the values it was recorded with, until it is removed.\<close>

lemma recorded_upload_is_listed:
  assumes "db_ok cd db" "fits_upload u"
  shows "\<exists>us. fst (list_http_uploads now' (snd (record_http_upload now u db))) = Inr us \<and> u \<in> set us"
proof -
  let ?db = "snd (record_http_upload now u db)"
  have ok: "db_ok cd ?db" by (rule record_upload_effect(1) [OF assms])
  have wf: "hm_wf (db_uploads ?db)" using ok by (simp add: db_ok_def)
  have "readable (collect_rows upload_of_row (sort_key (\<lambda>e. (ur_updated_at_ms (snd e), fst e)) (db_uploads ?db)))"
    using ok all_values_entries [OF wf, of "\<lambda>k r. readable (upload_of_row (k, r))"]
    by (simp add: collect_rows_readable db_ok_def)
  then obtain us where us: "collect_rows upload_of_row (sort_key (\<lambda>e. (ur_updated_at_ms (snd e), fst e)) (db_uploads ?db)) = Inr us"
    by (auto simp: readable_def)
  have "hm_get (db_uploads ?db) (hu_upload_id u) = Some (upload_to_row u)"
    using assms(1) by (simp add: record_http_upload_def Let_def)
  then have "(hu_upload_id u, upload_to_row u) \<in> set (db_uploads ?db)" by (simp add: hm_entry_get [OF wf])
  then have "u \<in> set us" using collect_rows_set [OF us, of u] upload_row_roundtrip [OF assms(2)] by force
  moreover have "fst (list_http_uploads now' ?db) = Inr us"
    unfolding list_http_uploads_def list_upload_rows_def with_state_db_ok [OF ok] us by (simp add: sqlite_error_def)
  ultimately show ?thesis by blast
qed

section \<open>Sequences of operations\<close>

datatype store_op =
    Save_State u64 daemon_state
  | Close_Session u64 uuid u64
  | Prune_Session u64 uuid
  | Prune_Except u64 "uuid set"
  | Record_Upload u64 http_upload_recovery_record
  | Remove_Upload u64 string

primrec exec_store :: "codecs \<Rightarrow> store_op \<Rightarrow> 'm state_db_scheme \<Rightarrow> 'm state_db_scheme" where
  "exec_store cd (Save_State now st) db = snd (state_save cd now st db)"
| "exec_store cd (Close_Session now u at) db = snd (record_runtime_session_closed cd now u at db)"
| "exec_store cd (Prune_Session now u) db = snd (prune_closed_session cd now u db)"
| "exec_store cd (Prune_Except now keep) db = snd (prune_closed_sessions_except cd now keep db)"
| "exec_store cd (Record_Upload now u) db = snd (record_http_upload now u db)"
| "exec_store cd (Remove_Upload now uid) db = snd (remove_http_upload now uid db)"

primrec fits_op :: "store_op \<Rightarrow> bool" where
  "fits_op (Save_State now st) = fits_state st"
| "fits_op (Close_Session now u at) = (at < 2 ^ 63)"
| "fits_op (Prune_Session now u) = True"
| "fits_op (Prune_Except now keep) = True"
| "fits_op (Record_Upload now u) = fits_upload u"
| "fits_op (Remove_Upload now uid) = True"

primrec prunes :: "store_op \<Rightarrow> uuid \<Rightarrow> bool" where
  "prunes (Save_State now st) v = False"
| "prunes (Close_Session now u at) v = False"
| "prunes (Prune_Session now u) v = (v = u)"
| "prunes (Prune_Except now keep) v = (v \<notin> keep)"
| "prunes (Record_Upload now u) v = False"
| "prunes (Remove_Upload now uid) v = False"

text \<open>
  The contract of a table of sessions with tombstones: which steps keep it well formed, and that a
  step that does not remove a session keeps it and keeps it closed. Both the sessions that the store reads
  (below) and the rows that all transactions of the daemon share (\<open>Ownership_Life\<close>) satisfy it.
\<close>

locale session_table =
  fixes good :: "'d \<Rightarrow> bool"
    and find_session :: "'d \<Rightarrow> 'k \<Rightarrow> 's option"
    and closed :: "'s \<Rightarrow> bool"
    and step :: "'op \<Rightarrow> 'd \<Rightarrow> 'd"
    and allowed :: "'op \<Rightarrow> bool"
    and removes :: "'op \<Rightarrow> 'k \<Rightarrow> bool"
  assumes step_good: "good d \<Longrightarrow> allowed op \<Longrightarrow> good (step op d)"
    and step_keeps: "good d \<Longrightarrow> allowed op \<Longrightarrow> \<not> removes op u \<Longrightarrow> find_session d u = Some s \<Longrightarrow>
      \<exists>s'. find_session (step op d) u = Some s' \<and> (closed s \<longrightarrow> closed s')"
begin

lemma run_good: "good d \<Longrightarrow> list_all allowed ops \<Longrightarrow> good (fold step ops d)"
  by (induction ops arbitrary: d) (auto intro: step_good)

lemma run_keeps:
  assumes "good d" "list_all allowed ops" "list_all (\<lambda>op. \<not> removes op u) ops" "find_session d u = Some s"
  shows "\<exists>s'. find_session (fold step ops d) u = Some s' \<and> (closed s \<longrightarrow> closed s')"
  using assms
proof (induction ops arbitrary: d s)
  case Nil
  then show ?case by simp
next
  case (Cons op ops)
  from Cons.prems obtain s1 where "find_session (step op d) u = Some s1" "closed s \<longrightarrow> closed s1"
    using step_keeps [of d op u s] by auto
  with Cons.IH [of "step op d" s1] Cons.prems step_good show ?case by auto
qed

end

lemma spec_upserts_keep:
  "m u = Some s \<Longrightarrow>
    \<exists>s'. fold spec_upsert ss m u = Some s' \<and> (ss_state s = Closed \<longrightarrow> ss_state s' = Closed)"
proof (induction ss arbitrary: m s)
  case Nil
  then show ?case by simp
next
  case (Cons x ss)
  have "\<exists>s1. spec_upsert x m u = Some s1 \<and> (ss_state s = Closed \<longrightarrow> ss_state s1 = Closed)"
    using Cons.prems by (auto simp: spec_upsert_def merge_session_def stored_session_def)
  with Cons.IH [of "spec_upsert x m"] show ?case by fastforce
qed

lemma exec_store_ok:
  "codecs_ok cd \<Longrightarrow> db_ok cd db \<Longrightarrow> fits_op op \<Longrightarrow> db_ok cd (exec_store cd op db)"
  by (cases op) (simp_all add: save_keeps_ok close_effect prune_effect prune_except_effect record_upload_effect remove_upload_effect)

lemma exec_store_keeps:
  assumes "codecs_ok cd" "db_ok cd db" "fits_op op" "\<not> prunes op u" "sessions_of cd db u = Some s"
  shows "\<exists>s'. sessions_of cd (exec_store cd op db) u = Some s' \<and> (ss_state s = Closed \<longrightarrow> ss_state s' = Closed)"
proof (cases op)
  case (Save_State now st)
  with assms(3) have "fits_state st" by simp
  from save_sqlite_state_cases [OF assms(1,2) this, of now] spec_upserts_keep [where m = "sessions_of cd db" and u = u and s = s] assms(2,5)
  show ?thesis unfolding Save_State by (auto simp: state_save_def)
next
  case (Close_Session now v at)
  with assms show ?thesis by (auto simp: close_effect closed_record_def split: option.splits)
qed (use assms in \<open>auto simp: prune_effect prune_except_effect record_upload_effect remove_upload_effect\<close>)

interpretation store: session_table "\<lambda>db. codecs_ok cd \<and> db_ok cd db" "sessions_of cd" "\<lambda>s. ss_state s = Closed" "exec_store cd" fits_op prunes
  for cd :: codecs
  by unfold_locales (use exec_store_ok exec_store_keeps in blast)+

section \<open>What a restart finds\<close>

lemma load_ok:
  assumes "codecs_ok cd" "db_ok cd db"
  shows "\<exists>st. load_sqlite_state cd db = Inr st"
proof -
  have wf: "hm_wf (db_devices db)" "hm_wf (db_runtime db)" using assms(2) by (simp_all add: db_ok_def sessions_ok_def)
  have "readable (load_identity cd db)"
    and "readable (collect_rows (device_of_row cd) (sort_key fst (db_devices db)))"
    and "readable (collect_rows (session_of_row cd) (sort_key (\<lambda>e. (rr_created_at_ms (snd e), fst e)) (db_runtime db)))"
    using assms(2) all_values_entries [OF wf(1), of "\<lambda>k r. readable (device_of_row cd (k, r))"]
      all_values_entries [OF wf(2), of "runtime_row_ok cd"]
    by (auto simp: collect_rows_readable db_ok_def sessions_ok_def runtime_row_ok_def)
  then show ?thesis by (auto simp: load_sqlite_state_def readable_def sqlite_error_def)
qed

lemma loaded_sessions:
  assumes "codecs_ok cd" "db_ok cd db" "load_sqlite_state cd db = Inr st"
  shows "s \<in> set (ds_sessions st) \<longleftrightarrow> sessions_of cd db (ss_session_id s) = Some s"
proof -
  from assms(3) have "collect_rows (session_of_row cd) (sort_key (\<lambda>e. (rr_created_at_ms (snd e), fst e)) (db_runtime db)) =
      Inr (ds_sessions st)"
    by (auto simp: load_sqlite_state_def res_bind_def sqlite_error_def split: sum.splits)
  from sessions_of_readable [OF assms(1) _ this] assms(2) show ?thesis by (simp add: db_ok_def)
qed

text \<open>Codecs for the examples: numbers in unary.\<close>

definition unary_codecs :: codecs where
  "unary_codecs =
     \<lparr>cd_uuid_text = (\<lambda>n. replicate n CHR ''u''),
      cd_uuid_parse = (\<lambda>t. if list_all (\<lambda>c. c = CHR ''u'') t then Some (length t) else None),
      cd_unix_json = (\<lambda>(path, pid, status).
        (case status of Sup_Running \<Rightarrow> CHR ''r'' | Sup_Closing \<Rightarrow> CHR ''c'' | Sup_Closed \<Rightarrow> CHR ''d'') #
        replicate pid CHR ''i'' @ CHR ''.'' # path),
      cd_unix_of_json = (\<lambda>t. case t of
          [] \<Rightarrow> None
        | c # r \<Rightarrow> Some (tl (dropWhile (\<lambda>x. x = CHR ''i'') r), length (takeWhile (\<lambda>x. x = CHR ''i'') r),
                       if c = CHR ''r'' then Sup_Running else if c = CHR ''c'' then Sup_Closing else Sup_Closed)),
      cd_tmux_json = (\<lambda>(path, name). replicate (length path) CHR ''i'' @ CHR ''.'' # path @ name),
      cd_tmux_of_json = (\<lambda>t. let n = length (takeWhile (\<lambda>x. x = CHR ''i'') t);
                               r = tl (dropWhile (\<lambda>x. x = CHR ''i'') t) in Some (take n r, drop n r))\<rparr>"

lemma unary_run: "takeWhile (\<lambda>x. x = c) (replicate n c @ d # r) = replicate n c"
    "dropWhile (\<lambda>x. x = c) (replicate n c @ d # r) = d # r" if "d \<noteq> c"
  using that by (induction n) auto

lemma unary_codecs_ok: "codecs_ok unary_codecs"
  by (auto simp: codecs_ok_def unary_codecs_def unary_run Let_def list_all_iff split: pty_supervisor_status.splits)

text \<open>
  C22. Whatever sequence of saves, tombstones, prunes and upload records a new database has seen, the
  next start can read it: loading the state (with no legacy JSON file beside the database) and listing the uploads
  do not fail. (Times below \<open>2^63\<close>;
  sizes and identity numbers within their types.)
\<close>

theorem database_stays_readable:
  assumes "codecs_ok cd" "list_all fits_op ops"
  shows "(\<exists>st. fst (state_load cd now Legacy_absent (fold (exec_store cd) ops empty_state_db)) = Inr st) \<and>
    (\<exists>us. fst (list_http_uploads now (fold (exec_store cd) ops empty_state_db)) = Inr us)"
proof -
  let ?db = "fold (exec_store cd) ops empty_state_db"
  have ok: "db_ok cd ?db" using store.run_good [of cd empty_state_db ops] assms empty_db_ok by simp
  obtain st where st: "load_sqlite_state cd ?db = Inr st" using load_ok [OF assms(1) ok] by blast
  have wf: "hm_wf (db_uploads ?db)" using ok by (simp add: db_ok_def)
  have "readable (collect_rows upload_of_row (sort_key (\<lambda>e. (ur_updated_at_ms (snd e), fst e)) (db_uploads ?db)))"
    using ok all_values_entries [OF wf, of "\<lambda>k r. readable (upload_of_row (k, r))"]
    by (simp add: collect_rows_readable db_ok_def)
  then obtain us where us: "collect_rows upload_of_row (sort_key (\<lambda>e. (ur_updated_at_ms (snd e), fst e)) (db_uploads ?db)) = Inr us"
    by (auto simp: readable_def)
  have "fst (list_http_uploads now ?db) = Inr us"
    unfolding list_http_uploads_def list_upload_rows_def with_state_db_ok [OF ok] us by (simp add: sqlite_error_def)
  moreover have "\<exists>st. fst (state_load cd now Legacy_absent ?db) = Inr st"
    unfolding state_load_def with_state_db_ok [OF ok] st by (simp add: load_legacy_json_state_def)
  ultimately show ?thesis by blast
qed

definition example_session :: session_state_record where
  "example_session =
     \<lparr>ss_session_id = 3, ss_state = Running,
      ss_size = \<lparr>ts_rows = 24, ts_cols = 80, ts_pixel_width = 0, ts_pixel_height = 0\<rparr>,
      ss_created_at_ms = 5, ss_updated_at_ms = 6, ss_restore_info = Some (UnixSocket ''sock'' 7 Sup_Running)\<rparr>"

definition example_state :: daemon_state where
  "example_state =
     \<lparr>ds_version = 3, ds_identity = Some \<lparr>dis_server_id = 2, dis_public_key = [10], dis_private_key = None\<rparr>,
      ds_trusted_devices =
        [\<lparr>tds_device_id = 4, tds_public_key = [11], tds_trusted_at_ms = 5, tds_last_seen_at_ms = Some 8, tds_label = None\<rparr>],
      ds_sessions = [example_session]\<rparr>"

lemma example_state_fits: "fits_state example_state"
  by (simp add: fits_state_def example_state_def fits_device_def fits_session_def example_session_def u16_max_def)

theorem database_stays_readable_witness:
  "(\<exists>st. fst (state_load unary_codecs 9 Legacy_absent
       (fold (exec_store unary_codecs) [Save_State 9 example_state, Close_Session 9 3 9] empty_state_db)) = Inr st)"
  using database_stays_readable [where cd = unary_codecs and now = 9 and
      ops = "[Save_State 9 example_state, Close_Session 9 3 9]"] unary_codecs_ok example_state_fits
  by simp

text \<open>
  C21. A state that is saved is the state that the next start loads, into whatever database it is saved:
  the same identity, the trusted devices in the order of their ids, and as sessions the old table with
  every saved session put in, where a session that the table or the save has as closed is closed and
  has no restore information, and a session missing from the save is kept.
\<close>

theorem saved_state_is_loaded:
  assumes "codecs_ok cd" "db_ok cd db" "fits_state st" "ds_version st = state_schema_version"
    and "ds_identity st \<noteq> None" "distinct (map tds_device_id (ds_trusted_devices st))"
  shows "\<exists>db' loaded. state_save cd now st db = (Inr (), db') \<and>
    state_load cd now' file' db' = (Inr loaded, db') \<and>
    ds_version loaded = state_schema_version \<and> ds_identity loaded = ds_identity st \<and>
    ds_trusted_devices loaded = sort_key (\<lambda>d. cd_uuid_text cd (tds_device_id d)) (ds_trusted_devices st) \<and>
    (\<forall>s. s \<in> set (ds_sessions loaded) \<longleftrightarrow>
       fold spec_upsert (ds_sessions st) (sessions_of cd db) (ss_session_id s) = Some s)"
proof -
  obtain db' where save: "save_sqlite_state cd now st db = (Inr (), db')" and ok: "db_ok cd db'"
    and i: "load_identity cd db' = Inr (ds_identity st)"
    and d: "db_devices db' = map (device_entry cd) (ds_trusted_devices st)"
    and s: "sessions_of cd db' = fold spec_upsert (ds_sessions st) (sessions_of cd db)"
    using save_sqlite_state_cases [OF assms(1-3), of now] assms(4,6) by auto
  obtain loaded where load: "load_sqlite_state cd db' = Inr loaded" using load_ok [OF assms(1) ok] by blast
  have devices: "collect_rows (device_of_row cd) (sort_key fst (db_devices db')) =
      Inr (sort_key (\<lambda>d. cd_uuid_text cd (tds_device_id d)) (ds_trusted_devices st))"
    unfolding d using loaded_devices [OF assms(1)] assms(3) by (simp add: fits_state_def)
  have parts: "ds_version loaded = state_schema_version" "ds_identity loaded = ds_identity st"
    "ds_trusted_devices loaded = sort_key (\<lambda>d. cd_uuid_text cd (tds_device_id d)) (ds_trusted_devices st)"
    using load by (auto simp: load_sqlite_state_def i devices res_bind_def sqlite_error_def split: sum.splits)
  have "state_load cd now' file' db' = (Inr loaded, db')"
    unfolding state_load_def with_state_db_ok [OF ok] load using parts(2) assms(5) by simp
  moreover have "state_save cd now st db = (Inr (), db')" using save assms(2) by (simp add: state_save_def)
  ultimately show ?thesis using parts loaded_sessions [OF assms(1) ok load] s by auto
qed

theorem saved_state_is_loaded_witness:
  "\<exists>db' loaded. state_save unary_codecs 9 example_state empty_state_db = (Inr (), db') \<and>
    state_load unary_codecs 10 Legacy_absent db' = (Inr loaded, db') \<and>
    ds_identity loaded = ds_identity example_state \<and> example_session \<in> set (ds_sessions loaded)"
proof -
  have fresh: "sessions_of unary_codecs empty_state_db = (\<lambda>u. None)"
    by (rule ext) (simp add: sessions_of_def empty_state_db_def)
  have "fold spec_upsert (ds_sessions example_state) (\<lambda>u. None) (ss_session_id example_session) = Some example_session"
    by (simp add: example_state_def spec_upsert_def merge_session_def stored_session_def example_session_def)
  then show ?thesis
    using saved_state_is_loaded [where cd = unary_codecs and db = empty_state_db and st = example_state and now = 9 and
        now' = 10 and file' = Legacy_absent] unary_codecs_ok empty_db_ok example_state_fits fresh
    by (auto simp: example_state_def state_schema_version_def)
qed

text \<open>
  The store on its own: under every sequence of its operations that does not prune it, a session is kept and, once
  closed, loaded as closed. The other transactions of the daemon that delete rows are in \<open>Ownership_Life\<close>.
\<close>

lemma store_keeps_closed_sessions:
  assumes "codecs_ok cd" "db_ok cd db" "list_all fits_op ops" "list_all (\<lambda>op. \<not> prunes op u) ops"
    and "sessions_of cd db u = Some s"
  shows "\<exists>s'. sessions_of cd (fold (exec_store cd) ops db) u = Some s' \<and> (ss_state s = Closed \<longrightarrow> ss_state s' = Closed)"
  using assms by (intro store.run_keeps) auto

end
