(* ===== verification/Session_Ownership.thy ===== *)
theory Session_Ownership
  imports State_Recovery
begin

text \<open>
  The ownership ledger, \<open>termd/src/session_ownership.rs\<close>: the table \<open>session_ownership\<close> in the database of
  theory \<open>State_Store\<close>, in which the daemon writes down a supervisor before it starts it, so that no crash
  can lose one. A row goes through the phases preparing, prepared, active and cleaning; a row that
  recovery cannot trust is quarantined.

  Every SQL transaction is one definition on the database. The argument \<open>ok\<close> of a transaction says whether
  SQLite could run it; if not, it has no effect. Random numbers and the clock are arguments. The methods
  of \<open>PtyBackend\<close> that concern ownership are the record \<open>ownership_backend\<close>; \<open>spawn_named_gated\<close> starts the
  supervisor, lets the caller record the evidence and then finishes or gives up, which is written as
  \<open>ob_launch\<close> and \<open>ob_finish\<close>. What the reconciler thread asks (has the supervisor cleaned up, is its
  process gone, does the socket exist) are the oracles of a pass.
\<close>

declare map_of_eq_Some_iff [simp del] Some_eq_map_of_iff [simp del]

section \<open>The ledger\<close>

record ownership_row =
  ow_phase :: string
  ow_create_operation_id :: "u8 list"
  ow_close_operation_id :: "uchar list option"
  ow_capability :: "u8 list"
  ow_expected_socket :: "string option"
  ow_supervisor_pid :: "int option"
  ow_socket_path :: "string option"
  ow_created_at_ms :: int
  ow_updated_at_ms :: int
  ow_diagnostic :: "string option"
  ow_legacy_protocol :: int
  ow_owner_generation :: "u8 list option"

record ledger_db = state_db +
  db_ownership :: "(string, ownership_row) hmap"

datatype ownership_error =
    Own_State state_error
  | Own_Sqlite sql_error
  | Own_Pty pty_error
  | Own_Runtime runtime_error
  | Own_Preparation

type_synonym 'x ledger_call = "ledger_db \<Rightarrow> (ownership_error + 'x) \<times> ledger_db"

definition unix_timestamp_millis :: "nat \<Rightarrow> int" where
  "unix_timestamp_millis now = int (min now (2 ^ 63 - 1))"

definition random_operation_id :: "u64 \<Rightarrow> u64" where
  "random_operation_id draw = max draw 1"

text \<open>A transaction that SQLite may refuse (busy, disk full): then nothing happens.\<close>

definition sql :: "bool \<Rightarrow> 'x ledger_call \<Rightarrow> 'x ledger_call" where
  "sql ok f db = (if ok then f db else (Inl (Own_Sqlite Engine_fault), db))"

text \<open>\<open>UPDATE session_ownership SET f WHERE session_id = sid AND P\<close> and its row count.\<close>

definition update_ownership ::
  "string \<Rightarrow> (ownership_row \<Rightarrow> bool) \<Rightarrow> (ownership_row \<Rightarrow> ownership_row) \<Rightarrow> ledger_db \<Rightarrow> nat \<times> ledger_db" where
  "update_ownership sid P f db =
     (case hm_get (db_ownership db) sid of
        Some row \<Rightarrow>
          if P row then (1, db\<lparr>db_ownership := hm_insert sid (f row) (db_ownership db)\<rparr>) else (0, db)
      | None \<Rightarrow> (0, db))"

definition delete_ownership :: "string \<Rightarrow> (ownership_row \<Rightarrow> bool) \<Rightarrow> ledger_db \<Rightarrow> ledger_db" where
  "delete_ownership sid P db =
     (case hm_get (db_ownership db) sid of
        Some row \<Rightarrow> if P row then db\<lparr>db_ownership := hm_remove sid (db_ownership db)\<rparr> else db
      | None \<Rightarrow> db)"

definition delete_runtime_row :: "string \<Rightarrow> ledger_db \<Rightarrow> ledger_db" where
  "delete_runtime_row sid db = db\<lparr>db_runtime := hm_remove sid (db_runtime db)\<rparr>"

section \<open>The transactions of a create\<close>

text \<open>The intent, written before anything is started.\<close>

definition insert_preparing ::
  "string \<Rightarrow> u8 list \<Rightarrow> u8 list \<Rightarrow> string option \<Rightarrow> nat \<Rightarrow> u8 list \<Rightarrow> unit ledger_call" where
  "insert_preparing sid create_id capability expected now generation db =
     (if hm_get (db_ownership db) sid \<noteq> None then (Inl (Own_Sqlite Constraint_violation), db)
      else (Inr (), db\<lparr>db_ownership := hm_insert sid
             \<lparr>ow_phase = ''preparing'', ow_create_operation_id = create_id, ow_close_operation_id = None,
              ow_capability = capability, ow_expected_socket = expected, ow_supervisor_pid = None,
              ow_socket_path = None, ow_created_at_ms = unix_timestamp_millis now,
              ow_updated_at_ms = unix_timestamp_millis now, ow_diagnostic = None, ow_legacy_protocol = 0,
              ow_owner_generation = Some generation\<rparr> (db_ownership db)\<rparr>))"

definition record_prepared :: "string \<Rightarrow> pty_restore_info \<Rightarrow> nat \<Rightarrow> unit ledger_call" where
  "record_prepared sid info now db =
     (case info of
        UnixSocket path pid status \<Rightarrow>
          (let (n, db') = update_ownership sid
             (\<lambda>r. ow_phase r = ''preparing'' \<and> (ow_expected_socket r = None \<or> ow_expected_socket r = Some path))
             (\<lambda>r. r\<lparr>ow_phase := ''prepared'', ow_supervisor_pid := Some (int pid), ow_socket_path := Some path,
                    ow_updated_at_ms := unix_timestamp_millis now\<rparr>) db
           in if n \<noteq> 1 then (Inl (Own_Pty (Pty_Backend ''supervisor evidence did not match durable preparing intent'')), db')
              else (Inr (), db'))
      | Tmux path name \<Rightarrow>
          (Inl (Own_Pty (Pty_Backend ''gated supervisor spawn returned non-Unix restore evidence'')), db))"

definition mark_cleaning :: "string \<Rightarrow> nat \<Rightarrow> unit ledger_call" where
  "mark_cleaning sid now db =
     (Inr (), snd (update_ownership sid (\<lambda>r. ow_phase r \<noteq> ''active'')
        (\<lambda>r. r\<lparr>ow_phase := ''cleaning'', ow_updated_at_ms := unix_timestamp_millis now\<rparr>) db))"

text \<open>The commit: the ledger row becomes active together with the row of the session.\<close>

definition runtime_projection :: "codecs \<Rightarrow> pty_size \<Rightarrow> pty_restore_info \<Rightarrow> nat \<Rightarrow> runtime_row" where
  "runtime_projection cd sz info now =
     (let (kind, raw) = serialize_restore_info cd (Some info) in
      \<lparr>rr_state = ''running'', rr_rows = int (ps_rows sz), rr_cols = int (ps_cols sz),
       rr_pixel_width = int (ps_pixel_width sz), rr_pixel_height = int (ps_pixel_height sz),
       rr_created_at_ms = unix_timestamp_millis now, rr_updated_at_ms = unix_timestamp_millis now,
       rr_restore_kind = kind, rr_restore_value = raw\<rparr>)"

definition commit_active_tx :: "codecs \<Rightarrow> string \<Rightarrow> pty_size \<Rightarrow> pty_restore_info \<Rightarrow> nat \<Rightarrow> unit ledger_call" where
  "commit_active_tx cd sid sz info now db =
     transaction (\<lambda>db.
       let (n, db1) = update_ownership sid (\<lambda>r. ow_phase r = ''prepared'')
             (\<lambda>r. r\<lparr>ow_phase := ''active'', ow_updated_at_ms := unix_timestamp_millis now\<rparr>) db
       in if n \<noteq> 1 then Inl (Own_Sqlite No_rows)
          else if hm_get (db_runtime db1) sid \<noteq> None then Inl (Own_Sqlite Constraint_violation)
          else Inr (db1\<lparr>db_runtime := hm_insert sid (runtime_projection cd sz info now) (db_runtime db1)\<rparr>)) db"

definition commit_active ::
  "codecs \<Rightarrow> bool \<Rightarrow> bool \<Rightarrow> string \<Rightarrow> pty_size \<Rightarrow> pty_restore_info \<Rightarrow> nat \<Rightarrow> unit ledger_call" where
  "commit_active cd ok ok_mark sid sz info now db =
     (case sql ok (commit_active_tx cd sid sz info now) db of
        (Inr _, db') \<Rightarrow> (Inr (), db')
      | (Inl e, db') \<Rightarrow> (Inl e, snd (sql ok_mark (mark_cleaning sid now) db')))"

section \<open>Creating a session\<close>

datatype 'p launch = Launch_over "pty_error + 'p" | Launch_evidence pty_restore_info

record ('b, 'p) ownership_backend =
  ob_expected_socket :: "string \<Rightarrow> pty_error + string option"
  ob_launch :: "string \<Rightarrow> command_spec \<Rightarrow> pty_size \<Rightarrow> u8 list \<times> u8 list \<Rightarrow> 'b \<Rightarrow> 'p launch \<times> 'b"
  ob_finish :: "string \<Rightarrow> pty_error + unit \<Rightarrow> 'b \<Rightarrow> (pty_error + 'p) \<times> 'b"
  ob_install_legacy :: "string \<Rightarrow> pty_restore_info \<Rightarrow> u8 list \<Rightarrow> 'b \<Rightarrow> (pty_error + bool) \<times> 'b"

text \<open>The random numbers, the clock, and which transactions SQLite runs during a create.\<close>

record create_env =
  ce_create_id :: "u8 list"
  ce_capability :: "u8 list"
  ce_now :: nat
  ce_intent_ok :: bool
  ce_evidence_ok :: bool
  ce_commit_ok :: bool
  ce_mark_ok :: bool
  ce_display :: "ownership_error \<Rightarrow> string"

definition persist_evidence :: "create_env \<Rightarrow> string \<Rightarrow> pty_restore_info \<Rightarrow> ledger_db \<Rightarrow> (pty_error + unit) \<times> ledger_db" where
  "persist_evidence env sid info db =
     (case sql (ce_evidence_ok env) (record_prepared sid info (ce_now env)) db of
        (Inl e, db') \<Rightarrow> (Inl (Pty_Backend (ce_display env e)), db')
      | (Inr _, db') \<Rightarrow> (Inr (), db'))"

definition spawn_named_gated ::
  "('b, 'p) ownership_backend \<Rightarrow> create_env \<Rightarrow> string \<Rightarrow> command_spec \<Rightarrow> pty_size \<Rightarrow> 'b \<Rightarrow> ledger_db
    \<Rightarrow> (pty_error + 'p) \<times> 'b \<times> ledger_db" where
  "spawn_named_gated ob env sid command sz b db =
     (case ob_launch ob sid command sz (ce_create_id env, ce_capability env) b of
        (Launch_over res, b') \<Rightarrow> (res, b', db)
      | (Launch_evidence info, b') \<Rightarrow>
          (let (kept, db') = persist_evidence env sid info db; (res, b'') = ob_finish ob sid kept b'
           in (res, b'', db')))"

definition fail_pre_active ::
  "create_env \<Rightarrow> string \<Rightarrow> ('b, 'p, 'a) session_runtime \<Rightarrow> ledger_db \<Rightarrow> ('b, 'p, 'a) session_runtime \<times> ledger_db" where
  "fail_pre_active env sid r db =
     (snd (take_for_cleanup sid r), snd (sql (ce_mark_ok env) (mark_cleaning sid (ce_now env)) db))"

text \<open>\<open>None\<close> is the panic of \<open>publish_owned_session\<close> on a session that exists already.\<close>

definition ownership_create ::
  "('b, 'p, 'a) pty_backend \<Rightarrow> ('b, 'p) ownership_backend \<Rightarrow> codecs \<Rightarrow> u8 list \<Rightarrow> create_env \<Rightarrow> string \<Rightarrow> command_spec
    \<Rightarrow> pty_size \<Rightarrow> (('b, 'p, 'a) session_runtime \<Rightarrow> (ownership_error + 't) \<times> ('b, 'p, 'a) session_runtime)
    \<Rightarrow> ('b, 'p, 'a) session_runtime \<Rightarrow> ledger_db
    \<Rightarrow> ((ownership_error + 't) \<times> ('b, 'p, 'a) session_runtime \<times> ledger_db) option" where
  "ownership_create be ob cd generation env sid command sz prepare r db =
     (case ob_expected_socket ob sid of
        Inl e \<Rightarrow> Some (Inl (Own_Pty e), r, db)
      | Inr expected \<Rightarrow>
          (case sql (ce_intent_ok env)
                  (insert_preparing sid (ce_create_id env) (ce_capability env) expected (ce_now env) generation) db of
             (Inl e, db1) \<Rightarrow> Some (Inl e, r, db1)
           | (Inr _, db1) \<Rightarrow>
               (case spawn_named_gated ob env sid command sz (rt_backend r) db1 of
                  (Inl e, b, db2) \<Rightarrow>
                    Some (Inl (Own_Pty e), r\<lparr>rt_backend := b\<rparr>,
                          snd (sql (ce_mark_ok env) (mark_cleaning sid (ce_now env)) db2))
                | (Inr pty, b, db2) \<Rightarrow>
                    (let r1 = r\<lparr>rt_backend := b\<rparr> in
                     case be_restore_info be pty of
                       None \<Rightarrow>
                         (let (r2, db3) = fail_pre_active env sid r1 db2 in
                          Some (Inl (Own_Pty (Pty_Backend ''persistent ownership create requires restore evidence'')), r2, db3))
                     | Some info \<Rightarrow>
                         (case publish_owned_session be sid pty
                                 \<lparr>ts_rows = ps_rows sz, ts_cols = ps_cols sz, ts_pixel_width = ps_pixel_width sz,
                                  ts_pixel_height = ps_pixel_height sz\<rparr> (ce_now env) r1 of
                            None \<Rightarrow> None
                          | Some r2 \<Rightarrow>
                              (case prepare r2 of
                                 (Inl e, r3) \<Rightarrow>
                                   (let (r4, db3) = fail_pre_active env sid r3 db2 in Some (Inl e, r4, db3))
                               | (Inr prepared, r3) \<Rightarrow>
                                   (case commit_active cd (ce_commit_ok env) (ce_mark_ok env) sid sz info (ce_now env) db2 of
                                      (Inl e, db3) \<Rightarrow>
                                        (let (r4, db4) = fail_pre_active env sid r3 db3 in Some (Inl e, r4, db4))
                                    | (Inr _, db3) \<Rightarrow> Some (Inr prepared, r3, db3))))))))"

section \<open>Closing a session\<close>

definition parse_close_id :: "nat \<Rightarrow> uchar list option \<Rightarrow> ownership_error + u64" where
  "parse_close_id column raw =
     (case raw of
        None \<Rightarrow> Inl (Own_Sqlite (Conversion_failure column))
      | Some t \<Rightarrow> (case parse_unsigned u64_max t of
                     None \<Rightarrow> Inl (Own_Sqlite (Conversion_failure column)) | Some v \<Rightarrow> Inr v))"

definition coalesce_close_id :: "u64 \<Rightarrow> ownership_row \<Rightarrow> uchar list option" where
  "coalesce_close_id proposed row =
     (case ow_close_operation_id row of None \<Rightarrow> Some (dec proposed) | Some t \<Rightarrow> Some t)"

definition set_cleaning :: "u64 \<Rightarrow> nat \<Rightarrow> ownership_row \<Rightarrow> ownership_row" where
  "set_cleaning proposed now r =
     r\<lparr>ow_phase := ''cleaning'', ow_close_operation_id := coalesce_close_id proposed r,
       ow_updated_at_ms := unix_timestamp_millis now\<rparr>"

definition close_tx :: "string \<Rightarrow> u64 \<Rightarrow> nat \<Rightarrow> u64 ledger_call" where
  "close_tx sid proposed now db =
     (let db1 = snd (update_ownership sid (\<lambda>r. ow_phase r = ''active'' \<or> ow_phase r = ''cleaning'')
                       (set_cleaning proposed now) db)
      in case hm_get (db_ownership db1) sid of
           Some row \<Rightarrow>
             if ow_phase row = ''cleaning''
             then (case parse_close_id 0 (ow_close_operation_id row) of
                     Inl e \<Rightarrow> (Inl e, db) | Inr v \<Rightarrow> (Inr v, db1))
             else (Inl (Own_Sqlite No_rows), db)
         | None \<Rightarrow> (Inl (Own_Sqlite No_rows), db))"

text \<open>
  The wait for the reconciler polls until the row is gone or twelve seconds are over; \<open>polls\<close> are the
  databases it sees.
\<close>

definition ownership_close ::
  "bool \<Rightarrow> string \<Rightarrow> u64 \<Rightarrow> nat \<Rightarrow> (ledger_db \<Rightarrow> ledger_db list) \<Rightarrow> ('b, 'p, 'a) session_runtime \<Rightarrow> ledger_db
    \<Rightarrow> (ownership_error + u64) \<times> ('b, 'p, 'a) session_runtime \<times> ledger_db" where
  "ownership_close ok sid draw now polls r db =
     (case sql ok (close_tx sid (random_operation_id draw) now) db of
        (Inl e, db1) \<Rightarrow> (Inl e, r, db1)
      | (Inr operation_id, db1) \<Rightarrow>
          (case take_for_cleanup sid r of
             (Inl e, r1) \<Rightarrow>
               if e = Rt_SessionNotFound
               then (if \<exists>d \<in> set (polls db1). hm_get (db_ownership d) sid = None then Inr operation_id
                     else Inl (Own_Pty (Pty_Backend ''timed out waiting for owned session cleanup'')), r1, db1)
               else (Inl (Own_Runtime e), r1, db1)
           | (Inr _, r1) \<Rightarrow>
               (if \<exists>d \<in> set (polls db1). hm_get (db_ownership d) sid = None then Inr operation_id
                else Inl (Own_Pty (Pty_Backend ''timed out waiting for owned session cleanup'')), r1, db1)))"

section \<open>The reconciler\<close>

definition mark_cleaning_with_stable_operation :: "string \<Rightarrow> u64 \<Rightarrow> nat \<Rightarrow> u64 ledger_call" where
  "mark_cleaning_with_stable_operation sid draw now db =
     (let db1 = snd (update_ownership sid
                  (\<lambda>r. ow_phase r = ''prepared'' \<or> ow_phase r = ''active'' \<or> ow_phase r = ''cleaning'')
                  (set_cleaning (random_operation_id draw) now) db)
      in case hm_get (db_ownership db1) sid of
           None \<Rightarrow> (Inl (Own_Sqlite No_rows), db1)
         | Some row \<Rightarrow> (parse_close_id 0 (ow_close_operation_id row), db1))"

definition finalize_closed :: "string \<Rightarrow> unit ledger_call" where
  "finalize_closed sid db =
     (Inr (), delete_ownership sid (\<lambda>r. ow_phase r = ''cleaning'') (delete_runtime_row sid db))"

record cleanup_row =
  cr_session_id :: string
  cr_phase :: string
  cr_capability :: "u8 list"
  cr_socket_path :: string
  cr_supervisor_pid :: nat
  cr_operation_id :: "u64 option"
  cr_legacy_protocol :: bool

text \<open>What a pass learns from its environment.\<close>

record reconcile_env =
  re_generation :: "u8 list"
  re_draw :: "string \<Rightarrow> u64"
  re_now :: nat
  re_exited :: "pty_restore_info \<Rightarrow> bool"
  re_cleanup :: "string \<Rightarrow> pty_restore_info \<Rightarrow> u8 list \<Rightarrow> u64 \<Rightarrow> pty_error + bool"
  re_legacy_cleanup :: "string \<Rightarrow> pty_restore_info \<Rightarrow> pty_error + bool"
  re_pid_absent :: "nat \<Rightarrow> bool"
  re_socket_exists :: "string \<Rightarrow> bool"

definition to_cleanup_row :: "string \<times> ownership_row \<Rightarrow> ownership_error + cleanup_row" where
  "to_cleanup_row e =
     (let row = snd e in
      res_bind (case ow_close_operation_id row of
                  None \<Rightarrow> Inr None
                | Some t \<Rightarrow> res_bind (parse_close_id 5 (Some t)) (\<lambda>v. Inr (Some v))) (\<lambda>operation_id.
      res_bind (case ow_supervisor_pid row of
                  None \<Rightarrow> Inl (Own_Sqlite (Conversion_failure 4))
                | Some pid \<Rightarrow> if 0 \<le> pid \<and> pid \<le> int u32_max then Inr (nat pid)
                             else Inl (Own_Sqlite (Conversion_failure 4))) (\<lambda>pid.
      Inr \<lparr>cr_session_id = fst e, cr_phase = ow_phase row, cr_capability = ow_capability row,
           cr_socket_path = the (ow_socket_path row), cr_supervisor_pid = pid, cr_operation_id = operation_id,
           cr_legacy_protocol = (ow_legacy_protocol row \<noteq> 0)\<rparr>)))"

definition selected_row :: "ownership_row \<Rightarrow> bool" where
  "selected_row row \<longleftrightarrow>
     (ow_phase row = ''active'' \<or> ow_phase row = ''cleaning'') \<and>
     ow_socket_path row \<noteq> None \<and> ow_supervisor_pid row \<noteq> None"

definition select_cleanup_rows :: "ledger_db \<Rightarrow> ownership_error + cleanup_row list" where
  "select_cleanup_rows db =
     collect_rows to_cleanup_row
       (filter (\<lambda>e. selected_row (snd e)) (sort_key (\<lambda>e. (ow_created_at_ms (snd e), fst e)) (db_ownership db)))"

definition reconcile_cleaning :: "reconcile_env \<Rightarrow> cleanup_row \<Rightarrow> u64 \<Rightarrow> unit ledger_call" where
  "reconcile_cleaning env row operation_id db =
     (let closing = UnixSocket (cr_socket_path row) (cr_supervisor_pid row) Sup_Closing;
          cleanup = (if cr_legacy_protocol row then re_legacy_cleanup env (cr_session_id row) closing
                     else re_cleanup env (cr_session_id row) closing (cr_capability row) operation_id)
      in if cleanup = Inr True \<or> re_pid_absent env (cr_supervisor_pid row)
         then finalize_closed (cr_session_id row) db else (Inr (), db))"

definition reconcile_row :: "reconcile_env \<Rightarrow> cleanup_row \<Rightarrow> unit ledger_call" where
  "reconcile_row env row db =
     (if cr_phase row = ''active''
      then (if re_exited env (UnixSocket (cr_socket_path row) (cr_supervisor_pid row) Sup_Running)
            then (case mark_cleaning_with_stable_operation (cr_session_id row) (re_draw env (cr_session_id row)) (re_now env) db of
                    (Inl e, db') \<Rightarrow> (Inl e, db') | (Inr _, db') \<Rightarrow> (Inr (), db'))
            else (Inr (), db))
      else
        (case cr_operation_id row of
           Some operation_id \<Rightarrow> reconcile_cleaning env row operation_id db
         | None \<Rightarrow>
             (case mark_cleaning_with_stable_operation (cr_session_id row) (re_draw env (cr_session_id row)) (re_now env) db of
                (Inl e, db') \<Rightarrow> (Inl e, db')
              | (Inr operation_id, db') \<Rightarrow> reconcile_cleaning env row operation_id db')))"

primrec for_rows :: "('a \<Rightarrow> unit ledger_call) \<Rightarrow> 'a list \<Rightarrow> unit ledger_call" where
  "for_rows f [] db = (Inr (), db)"
| "for_rows f (x # xs) db = (case f x db of (Inl e, db') \<Rightarrow> (Inl e, db') | (Inr _, db') \<Rightarrow> for_rows f xs db')"

definition other_generation :: "u8 list \<Rightarrow> ownership_row \<Rightarrow> bool" where
  "other_generation generation row \<longleftrightarrow> ow_owner_generation row \<noteq> Some generation"

definition claim_prepared :: "reconcile_env \<Rightarrow> string \<Rightarrow> unit ledger_call" where
  "claim_prepared env sid db =
     (case mark_cleaning_with_stable_operation sid (re_draw env sid) (re_now env) db of
        (Inl e, db') \<Rightarrow> (Inl e, db') | (Inr _, db') \<Rightarrow> (Inr (), db'))"

definition drop_preparing :: "reconcile_env \<Rightarrow> string \<times> string option \<Rightarrow> unit ledger_call" where
  "drop_preparing env e db =
     (if (case snd e of None \<Rightarrow> True | Some path \<Rightarrow> \<not> re_socket_exists env path)
      then (Inr (), delete_ownership (fst e) (\<lambda>r. ow_phase r = ''preparing'') db) else (Inr (), db))"

definition reconcile_interrupted_creates :: "reconcile_env \<Rightarrow> unit ledger_call" where
  "reconcile_interrupted_creates env db =
     (case for_rows (claim_prepared env)
             (map fst (filter (\<lambda>(sid, row). ow_phase row = ''prepared'' \<and> ow_diagnostic row = None \<and>
                other_generation (re_generation env) row) (db_ownership db))) db of
        (Inl e, db1) \<Rightarrow> (Inl e, db1)
      | (Inr _, db1) \<Rightarrow>
          for_rows (drop_preparing env)
            (map (\<lambda>(sid, row). (sid, ow_expected_socket row))
              (filter (\<lambda>(sid, row). ow_phase row = ''preparing'' \<and> other_generation (re_generation env) row)
                (db_ownership db1))) db1)"

definition reconcile_once :: "reconcile_env \<Rightarrow> unit ledger_call" where
  "reconcile_once env db =
     (case reconcile_interrupted_creates env db of
        (Inl e, db1) \<Rightarrow> (Inl e, db1)
      | (Inr _, db1) \<Rightarrow>
          (case select_cleanup_rows db1 of
             Inl e \<Rightarrow> (Inl e, db1)
           | Inr rows \<Rightarrow> for_rows (reconcile_row env) rows db1))"

section \<open>Recovery at start-up\<close>

text \<open>A legacy row is trusted if it names a running supervisor by socket and process.\<close>

definition legacy_evidence :: "session_state_record \<Rightarrow> (string \<times> nat) option" where
  "legacy_evidence rec =
     (case ss_restore_info rec of
        Some (UnixSocket path pid status) \<Rightarrow>
          if ss_state rec = Running \<and> (status = Sup_Running \<or> status = Sup_Closing) \<and> pid \<noteq> 0 \<and> path \<noteq> []
          then Some (path, pid) else None
      | _ \<Rightarrow> None)"

text \<open>\<open>draw\<close> gives the random create id and capability of a session.\<close>

definition backfill_record ::
  "codecs \<Rightarrow> (string \<Rightarrow> u8 list \<times> u8 list) \<Rightarrow> nat \<Rightarrow> session_state_record \<Rightarrow> ledger_db \<Rightarrow> ledger_db" where
  "backfill_record cd draw now rec db =
     (let sid = cd_uuid_text cd (ss_session_id rec);
          blank = \<lparr>ow_phase = ''quarantined'', ow_create_operation_id = fst (draw sid), ow_close_operation_id = None,
                   ow_capability = snd (draw sid), ow_expected_socket = None, ow_supervisor_pid = None,
                   ow_socket_path = None, ow_created_at_ms = unix_timestamp_millis now,
                   ow_updated_at_ms = unix_timestamp_millis now,
                   ow_diagnostic = Some ''legacy runtime evidence is missing or invalid'', ow_legacy_protocol = 0,
                   ow_owner_generation = None\<rparr>
      in if hm_get (db_ownership db) sid \<noteq> None then db
         else case legacy_evidence rec of
                Some (path, pid) \<Rightarrow>
                  db\<lparr>db_ownership := hm_insert sid
                       (blank\<lparr>ow_phase := ''prepared'', ow_expected_socket := Some path,
                              ow_supervisor_pid := Some (int pid), ow_socket_path := Some path,
                              ow_diagnostic := Some ''legacy_migration''\<rparr>) (db_ownership db)\<rparr>
              | None \<Rightarrow> delete_runtime_row sid (db\<lparr>db_ownership := hm_insert sid blank (db_ownership db)\<rparr>))"

definition backfill_legacy_records ::
  "codecs \<Rightarrow> (string \<Rightarrow> u8 list \<times> u8 list) \<Rightarrow> nat \<Rightarrow> session_state_record list \<Rightarrow> unit ledger_call" where
  "backfill_legacy_records cd draw now recs db = (Inr (), fold (backfill_record cd draw now) recs db)"

definition quarantine :: "string \<Rightarrow> string \<Rightarrow> nat \<Rightarrow> unit ledger_call" where
  "quarantine sid diagnostic now db =
     (Inr (), delete_runtime_row sid (snd (update_ownership sid (\<lambda>r. True)
        (\<lambda>r. r\<lparr>ow_phase := ''quarantined'', ow_diagnostic := Some diagnostic,
               ow_updated_at_ms := unix_timestamp_millis now\<rparr>) db)))"

definition active_evidence_matches :: "string \<Rightarrow> session_state_record \<Rightarrow> ledger_db \<Rightarrow> ownership_error + bool" where
  "active_evidence_matches sid rec db =
     (case ss_restore_info rec of
        Some (UnixSocket path pid Sup_Running) \<Rightarrow>
          (case hm_get (db_ownership db) sid of
             Some row \<Rightarrow>
               if ow_phase row = ''active''
               then Inr (ow_socket_path row = Some path \<and> ow_supervisor_pid row = Some (int pid))
               else Inl (Own_Sqlite No_rows)
           | None \<Rightarrow> Inl (Own_Sqlite No_rows))
      | _ \<Rightarrow> Inr False)"

text \<open>At most three attempts; only an error of the PTY is tried again. \<open>n\<close> is the number of retries left.\<close>

fun reconnect_with_retries ::
  "('b, 'p, 'a) pty_backend \<Rightarrow> (nat \<Rightarrow> string) \<Rightarrow> session_state_record \<Rightarrow> nat \<Rightarrow> (('b, 'p, 'a) session_runtime, unit) rt_call" where
  "reconnect_with_retries be uuid_text rec n r =
     (case reconnect_session be uuid_text rec r of
        (Inr _, r') \<Rightarrow> (Inr (), r')
      | (Inl (Rt_Pty e), r') \<Rightarrow>
          (case n of 0 \<Rightarrow> (Inl (Rt_Pty e), r') | Suc m \<Rightarrow> reconnect_with_retries be uuid_text rec m r')
      | (Inl e, r') \<Rightarrow> (Inl e, r'))"

declare reconnect_with_retries.simps [simp del]

definition reconnect_active_with_retry ::
  "('b, 'p, 'a) pty_backend \<Rightarrow> (nat \<Rightarrow> string) \<Rightarrow> session_state_record \<Rightarrow> (('b, 'p, 'a) session_runtime, unit) rt_call" where
  "reconnect_active_with_retry be uuid_text rec = reconnect_with_retries be uuid_text rec 2"

record recover_env =
  rv_draw :: "string \<Rightarrow> u8 list \<times> u8 list"
  rv_close_draw :: "string \<Rightarrow> u64"
  rv_now :: nat

text \<open>
  The step for one record: whether it is recovered, the runtime and the database after it. \<open>None\<close> in the
  first place is an error that ends the recovery.
\<close>

definition reconnect_or_quarantine ::
  "('b, 'p, 'a) pty_backend \<Rightarrow> codecs \<Rightarrow> recover_env \<Rightarrow> string \<Rightarrow> session_state_record
    \<Rightarrow> ('b, 'p, 'a) session_runtime \<Rightarrow> ledger_db \<Rightarrow> (ownership_error + bool) \<times> ('b, 'p, 'a) session_runtime \<times> ledger_db" where
  "reconnect_or_quarantine be cd env diagnostic rec r db =
     (case reconnect_active_with_retry be (cd_uuid_text cd) rec r of
        (Inr _, r') \<Rightarrow> (Inr True, r', db)
      | (Inl e, r') \<Rightarrow> (Inr False, r', snd (quarantine (cd_uuid_text cd (ss_session_id rec)) diagnostic (rv_now env) db)))"

definition migrate_legacy_row :: "recover_env \<Rightarrow> string \<Rightarrow> bool \<Rightarrow> bool \<Rightarrow> ledger_db \<Rightarrow> ledger_db" where
  "migrate_legacy_row env sid installed closing db =
     snd (update_ownership sid (\<lambda>r. ow_phase r = ''prepared'')
       (\<lambda>r. r\<lparr>ow_phase := (if closing then ''cleaning'' else ''active''),
              ow_legacy_protocol := (if installed then 0 else 1), ow_diagnostic := None,
              ow_close_operation_id :=
                (if closing then coalesce_close_id (random_operation_id (rv_close_draw env sid)) r else ow_close_operation_id r),
              ow_updated_at_ms := unix_timestamp_millis (rv_now env)\<rparr>) db)"

definition restore_is_closing :: "pty_restore_info \<Rightarrow> bool" where
  "restore_is_closing info \<longleftrightarrow> (case info of UnixSocket path pid status \<Rightarrow> status = Sup_Closing | _ \<Rightarrow> False)"

definition recover_record ::
  "('b, 'p, 'a) pty_backend \<Rightarrow> ('b, 'p) ownership_backend \<Rightarrow> codecs \<Rightarrow> recover_env \<Rightarrow> session_state_record
    \<Rightarrow> ('b, 'p, 'a) session_runtime \<Rightarrow> ledger_db \<Rightarrow> (ownership_error + bool) \<times> ('b, 'p, 'a) session_runtime \<times> ledger_db" where
  "recover_record be ob cd env rec r db =
     (let sid = cd_uuid_text cd (ss_session_id rec) in
      case hm_get (db_ownership db) sid of
        None \<Rightarrow> (Inr False, r, db)
      | Some row \<Rightarrow>
          if ow_phase row = ''active'' then
            (case active_evidence_matches sid rec db of
               Inl e \<Rightarrow> (Inl e, r, db)
             | Inr True \<Rightarrow>
                 reconnect_or_quarantine be cd env ''owned supervisor could not be authenticated and reconnected'' rec r db
             | Inr False \<Rightarrow>
                 (Inr False, r,
                  snd (quarantine sid ''public runtime projection does not match durable ownership evidence'' (rv_now env) db)))
          else if ow_phase row \<noteq> ''prepared'' \<or> ow_diagnostic row \<noteq> Some ''legacy_migration'' then (Inr False, r, db)
          else
            (case ss_restore_info rec of
               None \<Rightarrow> (Inr False, r, snd (quarantine sid ''legacy runtime row has no restore evidence'' (rv_now env) db))
             | Some info \<Rightarrow>
                 (case ob_install_legacy ob sid info (ow_capability row) (rt_backend r) of
                    (Inl e, b) \<Rightarrow>
                      (Inr False, r\<lparr>rt_backend := b\<rparr>,
                       snd (quarantine sid ''legacy supervisor authority is unverified'' (rv_now env) db))
                  | (Inr installed, b) \<Rightarrow>
                      (let closing = restore_is_closing info; db1 = migrate_legacy_row env sid installed closing db in
                       if closing then (Inr False, r\<lparr>rt_backend := b\<rparr>, db1)
                       else reconnect_or_quarantine be cd env
                              ''migrated supervisor could not be authenticated and reconnected'' rec (r\<lparr>rt_backend := b\<rparr>) db1))))"

primrec recover_loop ::
  "('b, 'p, 'a) pty_backend \<Rightarrow> ('b, 'p) ownership_backend \<Rightarrow> codecs \<Rightarrow> recover_env \<Rightarrow> session_state_record list
    \<Rightarrow> ('b, 'p, 'a) session_runtime \<Rightarrow> ledger_db
    \<Rightarrow> (ownership_error + session_state_record list) \<times> ('b, 'p, 'a) session_runtime \<times> ledger_db" where
  "recover_loop be ob cd env [] r db = (Inr [], r, db)"
| "recover_loop be ob cd env (rec # recs) r db =
     (case recover_record be ob cd env rec r db of
        (Inl e, r1, db1) \<Rightarrow> (Inl e, r1, db1)
      | (Inr active, r1, db1) \<Rightarrow>
          (case recover_loop be ob cd env recs r1 db1 of
             (Inl e, r2, db2) \<Rightarrow> (Inl e, r2, db2)
           | (Inr rest, r2, db2) \<Rightarrow> (Inr (if active then rec # rest else rest), r2, db2)))"

definition ownership_recover ::
  "('b, 'p, 'a) pty_backend \<Rightarrow> ('b, 'p) ownership_backend \<Rightarrow> codecs \<Rightarrow> recover_env \<Rightarrow> session_state_record list
    \<Rightarrow> ('b, 'p, 'a) session_runtime \<Rightarrow> ledger_db
    \<Rightarrow> (ownership_error + session_state_record list) \<times> ('b, 'p, 'a) session_runtime \<times> ledger_db" where
  "ownership_recover be ob cd env recs r db =
     recover_loop be ob cd env recs r (snd (backfill_legacy_records cd (rv_draw env) (rv_now env) recs db))"

end
