(* ===== verification/Ownership_Ledger.thy ===== *)
theory Ownership_Ledger
  imports Session_Ownership
begin

text \<open>
  What the ledger guarantees. Its transactions, in any order and interleaving, never lose a supervisor
  that was written down, and never change the capability and the close operation by which it is
  cleaned up; a pass of the reconciler does to each row exactly what \<open>reconciled\<close> says.
\<close>

declare map_of_eq_Some_iff [simp del] Some_eq_map_of_iff [simp del]

section \<open>Statements on single rows\<close>

lemma update_ownership_get:
  "hm_get (db_ownership (snd (update_ownership sid P f db))) k =
    (if k = sid then map_option (\<lambda>r. if P r then f r else r) (hm_get (db_ownership db) sid)
     else hm_get (db_ownership db) k)"
  by (auto simp: update_ownership_def split: option.splits)

lemma update_ownership_count:
  "fst (update_ownership sid P f db) = (if \<exists>r. hm_get (db_ownership db) sid = Some r \<and> P r then 1 else 0)"
  by (auto simp: update_ownership_def split: option.splits)

lemma update_ownership_other [simp]:
  "db_runtime (snd (update_ownership sid P f db)) = db_runtime db"
  "hm_wf (db_ownership db) \<Longrightarrow> hm_wf (db_ownership (snd (update_ownership sid P f db)))"
  by (auto simp: update_ownership_def split: option.splits)

lemma delete_ownership_get:
  "hm_get (db_ownership (delete_ownership sid P db)) k =
    (if k = sid then (case hm_get (db_ownership db) sid of Some r \<Rightarrow> if P r then None else Some r | None \<Rightarrow> None)
     else hm_get (db_ownership db) k)"
  by (auto simp: delete_ownership_def split: option.splits)

lemma delete_ownership_other [simp]:
  "db_runtime (delete_ownership sid P db) = db_runtime db"
  "hm_wf (db_ownership db) \<Longrightarrow> hm_wf (db_ownership (delete_ownership sid P db))"
  by (auto simp: delete_ownership_def split: option.splits)

lemma delete_runtime_row_simps [simp]:
  "db_ownership (delete_runtime_row sid db) = db_ownership db"
  "db_runtime (delete_runtime_row sid db) = hm_remove sid (db_runtime db)"
  by (simp_all add: delete_runtime_row_def)

section \<open>Well-formed rows\<close>

definition close_id_ok :: "ownership_row \<Rightarrow> bool" where
  "close_id_ok r \<longleftrightarrow> (case ow_close_operation_id r of None \<Rightarrow> True | Some t \<Rightarrow> \<exists>v \<le> u64_max. t = dec v)"

definition evidence_ok :: "ownership_row \<Rightarrow> bool" where
  "evidence_ok r \<longleftrightarrow>
     (case (ow_socket_path r, ow_supervisor_pid r) of
        (None, None) \<Rightarrow> ow_phase r \<noteq> ''prepared'' \<and> ow_phase r \<noteq> ''active''
      | (Some path, Some pid) \<Rightarrow> ow_phase r \<noteq> ''preparing'' \<and> 0 \<le> pid \<and> pid \<le> int u32_max
      | _ \<Rightarrow> False)"

definition own_row_ok :: "ownership_row \<Rightarrow> bool" where
  "own_row_ok r \<longleftrightarrow> close_id_ok r \<and> evidence_ok r"

definition ledger_ok :: "ledger_db \<Rightarrow> bool" where
  "ledger_ok db \<longleftrightarrow> hm_wf (db_ownership db) \<and> hm.all_values (\<lambda>k. own_row_ok) (db_ownership db)"

lemma ledger_okD: "ledger_ok db \<Longrightarrow> hm_get (db_ownership db) sid = Some r \<Longrightarrow> own_row_ok r"
  unfolding ledger_ok_def by (blast dest: hm.all_valuesD)

lemma ledger_okI:
  assumes "hm_wf (db_ownership db)" "\<And>sid r. hm_get (db_ownership db) sid = Some r \<Longrightarrow> own_row_ok r"
  shows "ledger_ok db"
  using assms by (simp add: ledger_ok_def hm.all_values_def)

text \<open>What a row may never lose: its capability, its evidence and its close operation.\<close>

definition row_keeps :: "ownership_row \<Rightarrow> ownership_row \<Rightarrow> bool" where
  "row_keeps r r' \<longleftrightarrow>
     ow_create_operation_id r' = ow_create_operation_id r \<and> ow_capability r' = ow_capability r \<and>
     (ow_socket_path r \<noteq> None \<longrightarrow>
        ow_socket_path r' = ow_socket_path r \<and> ow_supervisor_pid r' = ow_supervisor_pid r) \<and>
     (ow_close_operation_id r \<noteq> None \<longrightarrow> ow_close_operation_id r' = ow_close_operation_id r)"

lemma row_keeps_refl [simp]: "row_keeps r r"
  by (simp add: row_keeps_def)

lemma row_keeps_trans: "row_keeps a b \<Longrightarrow> row_keeps b c \<Longrightarrow> row_keeps a c"
  by (auto simp: row_keeps_def)

lemma set_cleaning_keeps [simp]: "row_keeps r (set_cleaning proposed now r)"
  by (auto simp: row_keeps_def set_cleaning_def coalesce_close_id_def split: option.splits)

lemma coalesce_ok: "close_id_ok r \<Longrightarrow> v \<le> u64_max \<Longrightarrow> \<exists>w \<le> u64_max. coalesce_close_id v r = Some (dec w)"
  by (auto simp: close_id_ok_def coalesce_close_id_def split: option.splits)

lemma random_operation_id_le: "draw \<le> u64_max \<Longrightarrow> random_operation_id draw \<le> u64_max"
  by (simp add: random_operation_id_def u64_max_def)

lemma set_cleaning_ok:
  "own_row_ok r \<Longrightarrow> v \<le> u64_max \<Longrightarrow> own_row_ok (set_cleaning v now r)"
  using coalesce_ok [of r v]
  by (auto simp: own_row_ok_def set_cleaning_def close_id_ok_def evidence_ok_def split: option.splits)

section \<open>Transactions\<close>

datatype ledger_op =
    L_intent string "u8 list" "u8 list" "string option" nat "u8 list"
  | L_evidence string pty_restore_info nat
  | L_mark string nat
  | L_commit codecs string pty_size pty_restore_info nat
  | L_close string u64 nat
  | L_stable string u64 nat
  | L_finalize string
  | L_drop string
  | L_backfill codecs "string \<Rightarrow> u8 list \<times> u8 list" nat "session_state_record list"
  | L_quarantine string string nat
  | L_migrate recover_env string bool bool
  | L_store codecs store_op

primrec exec_ledger :: "ledger_op \<Rightarrow> ledger_db \<Rightarrow> ledger_db" where
  "exec_ledger (L_intent sid c cap expected now gen) db = snd (insert_preparing sid c cap expected now gen db)"
| "exec_ledger (L_evidence sid info now) db = snd (record_prepared sid info now db)"
| "exec_ledger (L_mark sid now) db = snd (mark_cleaning sid now db)"
| "exec_ledger (L_commit cd sid sz info now) db = snd (commit_active_tx cd sid sz info now db)"
| "exec_ledger (L_close sid draw now) db = snd (close_tx sid (random_operation_id draw) now db)"
| "exec_ledger (L_stable sid draw now) db = snd (mark_cleaning_with_stable_operation sid draw now db)"
| "exec_ledger (L_finalize sid) db = snd (finalize_closed sid db)"
| "exec_ledger (L_drop sid) db = delete_ownership sid (\<lambda>r. ow_phase r = ''preparing'') db"
| "exec_ledger (L_backfill cd draw now recs) db = snd (backfill_legacy_records cd draw now recs db)"
| "exec_ledger (L_quarantine sid diagnostic now) db = snd (quarantine sid diagnostic now db)"
| "exec_ledger (L_migrate env sid installed closing) db = migrate_legacy_row env sid installed closing db"
| "exec_ledger (L_store cd op) db = exec_store cd op db"

text \<open>Process and operation numbers are within their types.\<close>

fun fits_ledger_op :: "ledger_op \<Rightarrow> bool" where
  "fits_ledger_op (L_evidence sid (UnixSocket path pid status) now) = (pid \<le> u32_max)"
| "fits_ledger_op (L_close sid draw now) = (draw \<le> u64_max)"
| "fits_ledger_op (L_stable sid draw now) = (draw \<le> u64_max)"
| "fits_ledger_op (L_backfill cd draw now recs) =
     list_all (\<lambda>rec. case legacy_evidence rec of None \<Rightarrow> True | Some (path, pid) \<Rightarrow> pid \<le> u32_max) recs"
| "fits_ledger_op (L_migrate env sid installed closing) = (rv_close_draw env sid \<le> u64_max)"
| "fits_ledger_op _ = True"

text \<open>An update of one row that keeps it well formed and keeps what it may not lose.\<close>

definition gentle_step :: "string set \<Rightarrow> ledger_db \<Rightarrow> ledger_db \<Rightarrow> bool" where
  "gentle_step may_go db db' \<longleftrightarrow>
     ledger_ok db' \<and>
     (\<forall>sid r. hm_get (db_ownership db) sid = Some r \<and> ow_socket_path r \<noteq> None \<and> sid \<notin> may_go \<longrightarrow>
        (\<exists>r'. hm_get (db_ownership db') sid = Some r' \<and> row_keeps r r'))"

lemma gentle_refl: "ledger_ok db \<Longrightarrow> gentle_step S db db"
  by (auto simp: gentle_step_def)

lemma gentle_same: "ledger_ok db \<Longrightarrow> db_ownership db' = db_ownership db \<Longrightarrow> gentle_step S db db'"
  by (auto simp: gentle_step_def ledger_ok_def)

lemma gentle_update:
  assumes "ledger_ok db" "\<And>r. own_row_ok r \<Longrightarrow> P r \<Longrightarrow> own_row_ok (f r) \<and> row_keeps r (f r)"
  shows "gentle_step S db (snd (update_ownership sid P f db))"
  unfolding gentle_step_def
proof (intro conjI allI impI)
  show "ledger_ok (snd (update_ownership sid P f db))"
    using assms ledger_okD [OF assms(1)]
    by (intro ledger_okI) (auto simp: update_ownership_get ledger_ok_def split: if_splits)
next
  fix k r assume "hm_get (db_ownership db) k = Some r \<and> ow_socket_path r \<noteq> None \<and> k \<notin> S"
  with ledger_okD [OF assms(1)] assms(2) [of r]
  show "\<exists>r'. hm_get (db_ownership (snd (update_ownership sid P f db))) k = Some r' \<and> row_keeps r r'"
    by (cases "P r") (auto simp: update_ownership_get)
qed

lemma gentle_insert:
  assumes "ledger_ok db" "hm_get (db_ownership db) sid = None" "own_row_ok row"
    and "db_ownership db' = hm_insert sid row (db_ownership db)"
  shows "gentle_step S db db'"
  unfolding gentle_step_def
proof (intro conjI allI impI)
  show "ledger_ok db'" using assms by (auto simp: ledger_ok_def hm.all_values_insert)
next
  fix k r assume "hm_get (db_ownership db) k = Some r \<and> ow_socket_path r \<noteq> None \<and> k \<notin> S"
  with assms(2,4) show "\<exists>r'. hm_get (db_ownership db') k = Some r' \<and> row_keeps r r'"
    by auto
qed

lemma gentle_delete:
  assumes "ledger_ok db" "\<And>r. own_row_ok r \<Longrightarrow> P r \<Longrightarrow> sid \<in> S \<or> ow_socket_path r = None"
  shows "gentle_step S db (delete_ownership sid P db)"
  unfolding gentle_step_def
proof (intro conjI allI impI)
  show "ledger_ok (delete_ownership sid P db)"
    using assms(1) ledger_okD [OF assms(1)]
    by (intro ledger_okI) (auto simp: delete_ownership_get ledger_ok_def split: if_splits option.splits)
next
  fix k r assume "hm_get (db_ownership db) k = Some r \<and> ow_socket_path r \<noteq> None \<and> k \<notin> S"
  with assms(2) ledger_okD [OF assms(1)] show "\<exists>r'. hm_get (db_ownership (delete_ownership sid P db)) k = Some r' \<and> row_keeps r r'"
    by (auto simp: delete_ownership_get)
qed

text \<open>The store never touches the ledger.\<close>

lemma run_insert_devices_ownership:
  "run_each (insert_device cd) ds db = Inr db' \<Longrightarrow> db_ownership db' = db_ownership db"
  by (induction ds arbitrary: db) (auto simp: insert_device_def Let_def res_bind_def split: sum.splits if_splits)

lemma fold_upsert_ownership [simp]: "db_ownership (fold (upsert_session cd) ss db) = db_ownership db"
  by (induction ss arbitrary: db) (simp_all add: upsert_session_def Let_def)

lemma meta_ownership [simp]:
  "db_ownership (upsert_meta_value k v at db) = db_ownership db"
  "db_ownership (delete_meta_value k db) = db_ownership db"
  "db_ownership (save_identity cd at i db) = db_ownership db"
  "db_ownership (write_sqlite_state_version now db) = db_ownership db"
  "db_ownership (migrate_sqlite_v2_to_current now db) = db_ownership db"
  by (simp_all add: upsert_meta_value_def delete_meta_value_def save_identity_def Let_def
      write_sqlite_state_version_def migrate_sqlite_v2_to_current_def split: option.splits)

lemma ensure_version_ownership: "db_ownership (snd (ensure_sqlite_state_version now db)) = db_ownership db"
  by (simp add: ensure_sqlite_state_version_def split: option.splits)

lemma with_state_db_ownership:
  assumes "\<And>db. db_ownership (snd (f db)) = db_ownership db"
  shows "db_ownership (snd (with_state_db now f db)) = db_ownership db"
  using assms ensure_version_ownership [of now db]
  by (auto simp: with_state_db_def split: prod.splits sum.splits)

lemma delete_closed_row_ownership [simp]: "db_ownership (snd (delete_closed_row key db)) = db_ownership db"
  by (auto simp: delete_closed_row_def split: option.splits)

lemma save_ownership: "db_ownership (snd (save_sqlite_state cd now st db)) = db_ownership db"
  by (auto simp: save_sqlite_state_def transaction_def Let_def res_bind_def split: sum.splits
      dest: run_insert_devices_ownership)

lemma prune_except_ownership: "db_ownership (snd (prune_closed_runtime_sessions_except cd keep db)) = db_ownership db"
proof -
  have "db_ownership (snd (fold (\<lambda>key (n, db). let (m, db') = delete_closed_row key db in (n + m, db')) keys (n, db))) =
      db_ownership db" for keys n db
  proof (induction keys arbitrary: n db)
    case Nil
    then show ?case by simp
  next
    case (Cons k keys)
    obtain m db' where "delete_closed_row k db = (m, db')" by force
    with Cons.IH delete_closed_row_ownership [of k db] show ?case by simp
  qed
  then show ?thesis unfolding prune_closed_runtime_sessions_except_def Let_def .
qed

lemma exec_store_ownership [simp]: "db_ownership (exec_store cd op db) = db_ownership db"
proof (cases op)
  case (Prune_Session now u)
  show ?thesis
    unfolding Prune_Session exec_store.simps prune_closed_session_def
    by (intro with_state_db_ownership) (simp add: split_def Let_def)
next
  case (Prune_Except now keep)
  show ?thesis
    unfolding Prune_Except exec_store.simps prune_closed_sessions_except_def
    by (intro with_state_db_ownership) (simp add: split_def Let_def prune_except_ownership)
qed (simp_all add: state_save_def record_runtime_session_closed_def record_http_upload_def remove_http_upload_def
      with_state_db_ownership save_ownership Let_def)

section \<open>No transaction loses a supervisor\<close>

lemma evidence_update_ok:
  "own_row_ok r \<Longrightarrow> ow_phase r = ''preparing'' \<Longrightarrow> pid \<le> u32_max \<Longrightarrow>
    own_row_ok (r\<lparr>ow_phase := ''prepared'', ow_supervisor_pid := Some (int pid), ow_socket_path := Some path,
        ow_updated_at_ms := at\<rparr>) \<and>
    row_keeps r (r\<lparr>ow_phase := ''prepared'', ow_supervisor_pid := Some (int pid), ow_socket_path := Some path,
        ow_updated_at_ms := at\<rparr>)"
  by (auto simp: own_row_ok_def close_id_ok_def evidence_ok_def row_keeps_def split: option.splits)

lemma phase_update_ok:
  assumes "own_row_ok r" "phase \<noteq> ''prepared''" "phase \<noteq> ''preparing''"
    and "phase = ''active'' \<longrightarrow> ow_phase r = ''prepared''"
  shows "own_row_ok (r\<lparr>ow_phase := phase, ow_updated_at_ms := at\<rparr>) \<and> row_keeps r (r\<lparr>ow_phase := phase, ow_updated_at_ms := at\<rparr>)"
  using assms by (auto simp: own_row_ok_def close_id_ok_def evidence_ok_def row_keeps_def split: option.splits)

lemma gentle_evidence:
  assumes "ledger_ok db" "fits_ledger_op (L_evidence sid info now)"
  shows "gentle_step S db (snd (record_prepared sid info now db))"
proof (cases info)
  case (UnixSocket path pid status)
  have "snd (record_prepared sid info now db) = snd (update_ownership sid
      (\<lambda>r. ow_phase r = ''preparing'' \<and> (ow_expected_socket r = None \<or> ow_expected_socket r = Some path))
      (\<lambda>r. r\<lparr>ow_phase := ''prepared'', ow_supervisor_pid := Some (int pid), ow_socket_path := Some path,
             ow_updated_at_ms := unix_timestamp_millis now\<rparr>) db)"
    by (simp add: record_prepared_def UnixSocket split_def Let_def)
  moreover have "pid \<le> u32_max" using assms(2) UnixSocket by simp
  ultimately show ?thesis using evidence_update_ok by (auto intro!: gentle_update [OF assms(1)])
next
  case (Tmux path name)
  then show ?thesis using assms(1) by (simp add: record_prepared_def gentle_refl)
qed

lemma gentle_commit:
  assumes "ledger_ok db"
  shows "gentle_step S db (snd (commit_active_tx cd sid sz info now db))"
proof -
  let ?P = "\<lambda>r. ow_phase r = ''prepared''"
  let ?f = "\<lambda>r. r\<lparr>ow_phase := ''active'', ow_updated_at_ms := unix_timestamp_millis now\<rparr>"
  have up: "gentle_step S db (snd (update_ownership sid ?P ?f db))"
    by (rule gentle_update [OF assms]) (simp add: phase_update_ok)
  have "db_ownership (snd (commit_active_tx cd sid sz info now db)) = db_ownership db \<or>
    db_ownership (snd (commit_active_tx cd sid sz info now db)) = db_ownership (snd (update_ownership sid ?P ?f db))"
    by (auto simp: commit_active_tx_def transaction_def split_def Let_def split: sum.splits)
  then show ?thesis
  proof
    assume "db_ownership (snd (commit_active_tx cd sid sz info now db)) = db_ownership db"
    then show ?thesis by (rule gentle_same [OF assms])
  next
    assume "db_ownership (snd (commit_active_tx cd sid sz info now db)) = db_ownership (snd (update_ownership sid ?P ?f db))"
    with up show ?thesis by (simp add: gentle_step_def ledger_ok_def)
  qed
qed

lemma gentle_set_cleaning:
  assumes "ledger_ok db" "v \<le> u64_max"
  shows "gentle_step S db (snd (update_ownership sid P (set_cleaning v now) db))"
  using assms by (intro gentle_update) (simp_all add: set_cleaning_ok)

lemma gentle_close:
  assumes "ledger_ok db" "draw \<le> u64_max"
  shows "gentle_step S db (snd (close_tx sid (random_operation_id draw) now db))"
  using gentle_set_cleaning [OF assms(1) random_operation_id_le [OF assms(2)]] gentle_refl [OF assms(1)]
  by (auto simp: close_tx_def Let_def split: option.splits sum.splits)

lemma gentle_stable:
  assumes "ledger_ok db" "draw \<le> u64_max"
  shows "gentle_step S db (snd (mark_cleaning_with_stable_operation sid draw now db))"
  using gentle_set_cleaning [OF assms(1) random_operation_id_le [OF assms(2)]]
  by (auto simp: mark_cleaning_with_stable_operation_def Let_def split: option.splits)

lemma backfill_insert:
  assumes "ledger_ok db" "case legacy_evidence rec of None \<Rightarrow> True | Some (path, pid) \<Rightarrow> pid \<le> u32_max"
  shows "gentle_step S db (backfill_record cd draw now rec db)"
proof (cases "hm_get (db_ownership db) (cd_uuid_text cd (ss_session_id rec))")
  case None
  show ?thesis
  proof (cases "legacy_evidence rec")
    case None': None
    show ?thesis using None None'
      by (intro gentle_insert [OF assms(1) None, where row = "_"])
         (auto simp: backfill_record_def Let_def own_row_ok_def close_id_ok_def evidence_ok_def)
  next
    case (Some e)
    with assms(2) None show ?thesis
      by (cases e; intro gentle_insert [OF assms(1) None, where row = "_"])
         (auto simp: backfill_record_def Let_def own_row_ok_def close_id_ok_def evidence_ok_def)
  qed
next
  case (Some row)
  then show ?thesis using assms(1) by (simp add: backfill_record_def Let_def gentle_refl)
qed

lemma gentle_trans: "gentle_step S a b \<Longrightarrow> gentle_step S b c \<Longrightarrow> gentle_step S a c"
proof -
  assume ab: "gentle_step S a b" and bc: "gentle_step S b c"
  have "\<exists>r'. hm_get (db_ownership c) sid = Some r' \<and> row_keeps r r'"
    if r: "hm_get (db_ownership a) sid = Some r" "ow_socket_path r \<noteq> None" "sid \<notin> S" for sid r
  proof -
    from ab r obtain r1 where r1: "hm_get (db_ownership b) sid = Some r1" "row_keeps r r1"
      unfolding gentle_step_def by blast
    then have "ow_socket_path r1 \<noteq> None" using r(2) by (simp add: row_keeps_def)
    with bc r1(1) r(3) obtain r2 where "hm_get (db_ownership c) sid = Some r2" "row_keeps r1 r2"
      unfolding gentle_step_def by blast
    with r1(2) row_keeps_trans show ?thesis by blast
  qed
  with bc show ?thesis unfolding gentle_step_def by blast
qed

lemma gentle_backfill:
  assumes "ledger_ok db" "fits_ledger_op (L_backfill cd draw now recs)"
  shows "gentle_step S db (fold (backfill_record cd draw now) recs db)"
  using assms
proof (induction recs arbitrary: db)
  case Nil
  then show ?case by (simp add: gentle_refl)
next
  case (Cons rec recs)
  then have "gentle_step S db (backfill_record cd draw now rec db)" by (intro backfill_insert) simp_all
  moreover from this Cons have "gentle_step S (backfill_record cd draw now rec db)
      (fold (backfill_record cd draw now) recs (backfill_record cd draw now rec db))"
    by (simp add: gentle_step_def)
  ultimately show ?case by (simp add: gentle_trans)
qed

text \<open>The transactions that may take a row away: only the last one of a cleanup.\<close>

definition finalizes :: "ledger_op \<Rightarrow> string set" where
  "finalizes op = (case op of L_finalize sid \<Rightarrow> {sid} | _ \<Rightarrow> {})"

lemma migrate_update_ok:
  assumes "own_row_ok r" "ow_phase r = ''prepared''" "v \<le> u64_max"
  shows "own_row_ok (r\<lparr>ow_phase := (if closing then ''cleaning'' else ''active''), ow_legacy_protocol := l, ow_diagnostic := None,
      ow_close_operation_id := (if closing then coalesce_close_id v r else ow_close_operation_id r), ow_updated_at_ms := at\<rparr>) \<and>
    row_keeps r (r\<lparr>ow_phase := (if closing then ''cleaning'' else ''active''), ow_legacy_protocol := l, ow_diagnostic := None,
      ow_close_operation_id := (if closing then coalesce_close_id v r else ow_close_operation_id r), ow_updated_at_ms := at\<rparr>)"
proof -
  obtain w where w: "w \<le> u64_max" "coalesce_close_id v r = Some (dec w)"
    using coalesce_ok [of r v] assms by (auto simp: own_row_ok_def)
  have "ow_close_operation_id r \<noteq> None \<longrightarrow> coalesce_close_id v r = ow_close_operation_id r"
    by (auto simp: coalesce_close_id_def)
  moreover obtain path pid where "ow_socket_path r = Some path" "ow_supervisor_pid r = Some pid" "0 \<le> pid" "pid \<le> int u32_max"
    using assms(1,2) by (cases "ow_socket_path r"; cases "ow_supervisor_pid r") (auto simp: own_row_ok_def evidence_ok_def)
  ultimately show ?thesis
    using assms(1) w by (cases closing) (auto simp: own_row_ok_def close_id_ok_def evidence_ok_def row_keeps_def)
qed

lemma exec_ledger_gentle:
  assumes "ledger_ok db" "fits_ledger_op op"
  shows "gentle_step (finalizes op) db (exec_ledger op db)"
proof (cases op)
  case (L_intent sid c cap expected now gen)
  show ?thesis
  proof (cases "hm_get (db_ownership db) sid")
    case None
    then show ?thesis unfolding L_intent using assms(1)
      by (intro gentle_insert [OF assms(1) None, where row = "_"])
         (auto simp: insert_preparing_def own_row_ok_def close_id_ok_def evidence_ok_def)
  next
    case (Some row)
    then show ?thesis using assms(1) L_intent by (simp add: insert_preparing_def gentle_refl)
  qed
next
  case (L_evidence sid info now)
  with assms show ?thesis by (simp add: gentle_evidence)
next
  case (L_mark sid now)
  have "gentle_step (finalizes op) db (snd (update_ownership sid (\<lambda>r. ow_phase r \<noteq> ''active'')
      (\<lambda>r. r\<lparr>ow_phase := ''cleaning'', ow_updated_at_ms := unix_timestamp_millis now\<rparr>) db))"
    by (rule gentle_update [OF assms(1)], rule phase_update_ok) simp_all
  then show ?thesis by (simp add: L_mark mark_cleaning_def)
next
  case (L_quarantine sid diagnostic now)
  have "gentle_step {} db (snd (update_ownership sid (\<lambda>r. True)
      (\<lambda>r. r\<lparr>ow_phase := ''quarantined'', ow_diagnostic := Some diagnostic, ow_updated_at_ms := unix_timestamp_millis now\<rparr>) db))"
  proof (rule gentle_update [OF assms(1)])
    fix r assume "own_row_ok r"
    then show "own_row_ok (r\<lparr>ow_phase := ''quarantined'', ow_diagnostic := Some diagnostic, ow_updated_at_ms := unix_timestamp_millis now\<rparr>) \<and>
        row_keeps r (r\<lparr>ow_phase := ''quarantined'', ow_diagnostic := Some diagnostic, ow_updated_at_ms := unix_timestamp_millis now\<rparr>)"
      by (cases "ow_socket_path r"; cases "ow_supervisor_pid r")
         (simp_all add: own_row_ok_def close_id_ok_def evidence_ok_def row_keeps_def)
  qed
  then show ?thesis using L_quarantine by (simp add: quarantine_def finalizes_def gentle_step_def ledger_ok_def)
next
  case (L_finalize sid)
  have "gentle_step {sid} db (delete_ownership sid (\<lambda>r. ow_phase r = ''cleaning'') db)"
    by (rule gentle_delete [OF assms(1)]) simp
  moreover have "db_ownership (exec_ledger op db) = db_ownership (delete_ownership sid (\<lambda>r. ow_phase r = ''cleaning'') db)"
    by (auto simp: L_finalize finalize_closed_def delete_ownership_def split: option.splits)
  ultimately show ?thesis by (simp add: L_finalize finalizes_def gentle_step_def ledger_ok_def)
next
  case (L_drop sid)
  then show ?thesis using assms(1)
    by (auto simp: own_row_ok_def evidence_ok_def split: option.splits intro!: gentle_delete)
next
  case (L_migrate env sid installed closing)
  with assms(2) have "random_operation_id (rv_close_draw env sid) \<le> u64_max" by (simp add: random_operation_id_le)
  then show ?thesis
    unfolding L_migrate exec_ledger.simps migrate_legacy_row_def
    by (intro gentle_update [OF assms(1)] migrate_update_ok)
qed (use assms in \<open>auto simp: gentle_commit gentle_close gentle_stable backfill_legacy_records_def gentle_backfill intro: gentle_same\<close>)

lemma ledger_run_gentle:
  assumes "ledger_ok db" "list_all fits_ledger_op ops"
  shows "gentle_step (\<Union>op \<in> set ops. finalizes op) db (fold exec_ledger ops db)"
  using assms
proof (induction ops arbitrary: db)
  case Nil
  then show ?case by (simp add: gentle_refl)
next
  case (Cons op ops)
  let ?S = "\<Union>op \<in> set (op # ops). finalizes op"
  have mono: "gentle_step A d d' \<Longrightarrow> A \<subseteq> ?S \<Longrightarrow> gentle_step ?S d d'" for A d d'
    unfolding gentle_step_def by blast
  have first: "gentle_step ?S db (exec_ledger op db)"
    using Cons.prems by (intro mono [OF exec_ledger_gentle]) auto
  then have "ledger_ok (exec_ledger op db)" by (simp add: gentle_step_def)
  with Cons.IH Cons.prems(2) have "gentle_step ?S (exec_ledger op db) (fold exec_ledger ops (exec_ledger op db))"
    by (intro mono [OF Cons.IH]) auto
  with first show ?case by (simp add: gentle_trans)
qed

section \<open>A pass of the reconciler\<close>

definition view :: "ledger_db \<Rightarrow> string \<Rightarrow> ownership_row option \<times> runtime_row option" where
  "view db sid = (hm_get (db_ownership db) sid, hm_get (db_runtime db) sid)"

text \<open>The specification of a pass, row by row.\<close>

definition interrupted_prepared :: "reconcile_env \<Rightarrow> ownership_row \<Rightarrow> bool" where
  "interrupted_prepared env row \<longleftrightarrow>
     ow_phase row = ''prepared'' \<and> ow_diagnostic row = None \<and> other_generation (re_generation env) row"

definition interrupted_preparing :: "reconcile_env \<Rightarrow> ownership_row \<Rightarrow> bool" where
  "interrupted_preparing env row \<longleftrightarrow> ow_phase row = ''preparing'' \<and> other_generation (re_generation env) row"

definition socket_gone :: "reconcile_env \<Rightarrow> ownership_row \<Rightarrow> bool" where
  "socket_gone env row \<longleftrightarrow> (case ow_expected_socket row of None \<Rightarrow> True | Some path \<Rightarrow> \<not> re_socket_exists env path)"

definition claim :: "reconcile_env \<Rightarrow> string \<Rightarrow> ownership_row \<Rightarrow> ownership_row" where
  "claim env sid = set_cleaning (random_operation_id (re_draw env sid)) (re_now env)"

definition operation_of :: "reconcile_env \<Rightarrow> string \<Rightarrow> ownership_row \<Rightarrow> u64" where
  "operation_of env sid row = digits_value (the (coalesce_close_id (random_operation_id (re_draw env sid)) row))"

definition confirmed :: "reconcile_env \<Rightarrow> string \<Rightarrow> ownership_row \<Rightarrow> bool" where
  "confirmed env sid row \<longleftrightarrow>
     (let pid = nat (the (ow_supervisor_pid row));
          closing = UnixSocket (the (ow_socket_path row)) pid Sup_Closing
      in re_pid_absent env pid \<or>
         (if ow_legacy_protocol row \<noteq> 0 then re_legacy_cleanup env sid closing
          else re_cleanup env sid closing (ow_capability row) (operation_of env sid row)) = Inr True)"

definition exited :: "reconcile_env \<Rightarrow> ownership_row \<Rightarrow> bool" where
  "exited env row \<longleftrightarrow> re_exited env (UnixSocket (the (ow_socket_path row)) (nat (the (ow_supervisor_pid row))) Sup_Running)"

definition reconciled ::
  "reconcile_env \<Rightarrow> string \<Rightarrow> ownership_row option \<times> runtime_row option \<Rightarrow> ownership_row option \<times> runtime_row option" where
  "reconciled env sid v =
     (case fst v of
        None \<Rightarrow> v
      | Some row0 \<Rightarrow>
          if interrupted_preparing env row0 \<and> socket_gone env row0 then (None, snd v)
          else
            (let row = (if interrupted_prepared env row0 then claim env sid row0 else row0) in
             if \<not> selected_row row then (Some row, snd v)
             else if ow_phase row = ''active'' then (Some (if exited env row then claim env sid row else row), snd v)
             else if confirmed env sid row then (None, None)
             else (Some (if ow_close_operation_id row = None then claim env sid row else row), snd v)))"

text \<open>A loop whose steps each work on the row of their own session.\<close>

lemma for_rows_pointwise:
  assumes "distinct (map key xs)" "ledger_ok db"
    and start: "\<And>x. x \<in> set xs \<Longrightarrow> W x (view db (key x))"
    and step: "\<And>x d. x \<in> set xs \<Longrightarrow> ledger_ok d \<Longrightarrow> W x (view d (key x)) \<Longrightarrow>
      \<exists>d'. f x d = (Inr (), d') \<and> ledger_ok d' \<and> view d' (key x) = g x (view d (key x)) \<and>
        (\<forall>k. k \<noteq> key x \<longrightarrow> view d' k = view d k)"
  shows "\<exists>d'. for_rows f xs db = (Inr (), d') \<and> ledger_ok d' \<and>
    (\<forall>k. k \<notin> key ` set xs \<longrightarrow> view d' k = view db k) \<and>
    (\<forall>x \<in> set xs. view d' (key x) = g x (view db (key x)))"
  using assms
proof (induction xs arbitrary: db)
  case Nil
  then show ?case by simp
next
  case (Cons x xs)
  obtain d1 where d1: "f x db = (Inr (), d1)" "ledger_ok d1" "view d1 (key x) = g x (view db (key x))"
    "\<And>k. k \<noteq> key x \<Longrightarrow> view d1 k = view db k"
    using Cons.prems(4) [of x db] Cons.prems(2,3) by auto
  have apart: "\<forall>y \<in> set xs. key y \<noteq> key x" using Cons.prems(1) by (auto simp: image_iff)
  have "\<exists>d'. for_rows f xs d1 = (Inr (), d') \<and> ledger_ok d' \<and>
    (\<forall>k. k \<notin> key ` set xs \<longrightarrow> view d' k = view d1 k) \<and> (\<forall>x \<in> set xs. view d' (key x) = g x (view d1 (key x)))"
  proof (rule Cons.IH)
    show "distinct (map key xs)" "ledger_ok d1" using Cons.prems(1) d1(2) by auto
    fix y assume y: "y \<in> set xs"
    with apart have "key y \<noteq> key x" by simp
    with d1(4) Cons.prems(3) [of y] y show "W y (view d1 (key y))" by simp
  qed (use Cons.prems(4) in auto)
  then obtain d' where d': "for_rows f xs d1 = (Inr (), d')" "ledger_ok d'"
    "\<forall>k. k \<notin> key ` set xs \<longrightarrow> view d' k = view d1 k" "\<forall>x \<in> set xs. view d' (key x) = g x (view d1 (key x))" by blast
  have "key x \<notin> key ` set xs" using apart by force
  then have "view d' (key x) = g x (view db (key x))" using d'(3) d1(3) by simp
  moreover have "view d' (key y) = g y (view db (key y))" if "y \<in> set xs" for y
    using that d'(4) d1(4) apart by simp
  moreover have "\<forall>k. k \<notin> key ` set (x # xs) \<longrightarrow> view d' k = view db k" using d'(3) d1(4) by simp
  ultimately show ?case using d'(1,2) d1(1) by auto
qed

lemma claim_view:
  assumes "ledger_ok db" "fst (view db sid) = Some row"
    and "ow_phase row = ''prepared'' \<or> ow_phase row = ''active'' \<or> ow_phase row = ''cleaning''"
    and "re_draw env sid \<le> u64_max"
  shows "\<exists>db'. mark_cleaning_with_stable_operation sid (re_draw env sid) (re_now env) db = (Inr (operation_of env sid row), db') \<and>
    ledger_ok db' \<and> view db' sid = (Some (claim env sid row), snd (view db sid)) \<and> (\<forall>k. k \<noteq> sid \<longrightarrow> view db' k = view db k)"
proof -
  let ?v = "random_operation_id (re_draw env sid)"
  let ?P = "\<lambda>r. ow_phase r = ''prepared'' \<or> ow_phase r = ''active'' \<or> ow_phase r = ''cleaning''"
  let ?db = "snd (update_ownership sid ?P (set_cleaning ?v (re_now env)) db)"
  have get: "hm_get (db_ownership db) sid = Some row" using assms(2) by (simp add: view_def)
  have ok: "own_row_ok row" by (rule ledger_okD [OF assms(1) get])
  have v: "?v \<le> u64_max" using assms(4) by (rule random_operation_id_le)
  obtain w where w: "w \<le> u64_max" "coalesce_close_id ?v row = Some (dec w)"
    using coalesce_ok [OF _ v] ok by (auto simp: own_row_ok_def)
  have row': "hm_get (db_ownership ?db) sid = Some (claim env sid row)"
    using get assms(3) by (simp add: update_ownership_get claim_def)
  have "ledger_ok ?db" using gentle_set_cleaning [OF assms(1) v] by (simp add: gentle_step_def)
  moreover have "mark_cleaning_with_stable_operation sid (re_draw env sid) (re_now env) db = (Inr (operation_of env sid row), ?db)"
    using row' w
    by (simp add: mark_cleaning_with_stable_operation_def Let_def claim_def set_cleaning_def parse_close_id_def operation_of_def)
  moreover have "view ?db k = view db k" if "k \<noteq> sid" for k
    using that by (simp add: view_def update_ownership_get)
  ultimately show ?thesis using row' by (auto simp: view_def)
qed

lemma interrupted_claims:
  assumes "ledger_ok db" "\<And>sid. re_draw env sid \<le> u64_max"
  shows "\<exists>d'. for_rows (claim_prepared env) (map fst (filter (\<lambda>(sid, row). interrupted_prepared env row) (db_ownership db))) db = (Inr (), d') \<and>
    ledger_ok d' \<and>
    (\<forall>sid. view d' sid = (map_option (\<lambda>row. if interrupted_prepared env row then claim env sid row else row) (fst (view db sid)),
                         snd (view db sid)))"
proof -
  let ?xs = "map fst (filter (\<lambda>(sid, row). interrupted_prepared env row) (db_ownership db))"
  have wf: "hm_wf (db_ownership db)" using assms(1) by (simp add: ledger_ok_def)
  have mem: "sid \<in> set ?xs \<longleftrightarrow> (\<exists>row. fst (view db sid) = Some row \<and> interrupted_prepared env row)" for sid
  proof -
    have "sid \<in> set ?xs \<longleftrightarrow> (\<exists>row. (sid, row) \<in> set (db_ownership db) \<and> interrupted_prepared env row)" by force
    then show ?thesis unfolding hm_entry_get [OF wf] by (simp add: view_def)
  qed
  have "distinct ?xs" using wf by (simp add: distinct_map_filter)
  then have "\<exists>d'. for_rows (claim_prepared env) ?xs db = (Inr (), d') \<and> ledger_ok d' \<and>
    (\<forall>k. k \<notin> (\<lambda>x. x) ` set ?xs \<longrightarrow> view d' k = view db k) \<and>
    (\<forall>x \<in> set ?xs. view d' x = (map_option (claim env x) (fst (view db x)), snd (view db x)))"
  proof (intro for_rows_pointwise [where key = "\<lambda>x. x" and W = "\<lambda>x v. \<exists>row. fst v = Some row \<and> interrupted_prepared env row"
        and g = "\<lambda>x v. (map_option (claim env x) (fst v), snd v)"])
    fix x d assume "ledger_ok d" "\<exists>row. fst (view d x) = Some row \<and> interrupted_prepared env row"
    then obtain row where row: "fst (view d x) = Some row" "ow_phase row = ''prepared''"
      by (auto simp: interrupted_prepared_def)
    obtain d' where "mark_cleaning_with_stable_operation x (re_draw env x) (re_now env) d = (Inr (operation_of env x row), d')"
      "ledger_ok d'" "view d' x = (Some (claim env x row), snd (view d x))" "\<forall>k. k \<noteq> x \<longrightarrow> view d' k = view d k"
      using claim_view [where env = env, OF \<open>ledger_ok d\<close> row(1) disjI1 [OF row(2)] assms(2)] by blast
    with row show "\<exists>d'. claim_prepared env x d = (Inr (), d') \<and> ledger_ok d' \<and>
        view d' x = (map_option (claim env x) (fst (view d x)), snd (view d x)) \<and> (\<forall>k. k \<noteq> x \<longrightarrow> view d' k = view d k)"
      by (simp add: claim_prepared_def)
  qed (use assms(1) mem in auto)
  then obtain d' where d': "for_rows (claim_prepared env) ?xs db = (Inr (), d')" "ledger_ok d'"
    "\<And>k. k \<notin> set ?xs \<Longrightarrow> view d' k = view db k"
    "\<And>x. x \<in> set ?xs \<Longrightarrow> view d' x = (map_option (claim env x) (fst (view db x)), snd (view db x))"
    unfolding image_ident by blast
  have "view d' sid = (map_option (\<lambda>row. if interrupted_prepared env row then claim env sid row else row) (fst (view db sid)), snd (view db sid))" for sid
  proof (cases "sid \<in> set ?xs")
    case True
    with d'(4) [OF True] mem [of sid] show ?thesis by auto
  next
    case False
    with d'(3) [OF False] mem [of sid] show ?thesis
      by (cases "fst (view db sid)") (auto simp: prod_eq_iff)
  qed
  with d'(1,2) show ?thesis by blast
qed

lemma interrupted_drops:
  assumes "ledger_ok db"
  shows "\<exists>d'. for_rows (drop_preparing env) (map (\<lambda>(sid, row). (sid, ow_expected_socket row))
      (filter (\<lambda>(sid, row). interrupted_preparing env row) (db_ownership db))) db = (Inr (), d') \<and>
    ledger_ok d' \<and>
    (\<forall>sid. view d' sid = (case fst (view db sid) of
        Some row \<Rightarrow> if interrupted_preparing env row \<and> socket_gone env row then (None, snd (view db sid)) else view db sid
      | None \<Rightarrow> view db sid))"
proof -
  let ?xs = "map (\<lambda>(sid, row). (sid, ow_expected_socket row)) (filter (\<lambda>(sid, row). interrupted_preparing env row) (db_ownership db))"
  let ?gone = "\<lambda>e. case snd e of None \<Rightarrow> True | Some path \<Rightarrow> \<not> re_socket_exists env path"
  have wf: "hm_wf (db_ownership db)" using assms by (simp add: ledger_ok_def)
  have mem: "e \<in> set ?xs \<longleftrightarrow> (\<exists>row. fst (view db (fst e)) = Some row \<and> interrupted_preparing env row \<and> snd e = ow_expected_socket row)" for e
  proof -
    have "e \<in> set ?xs \<longleftrightarrow> (\<exists>row. (fst e, row) \<in> set (db_ownership db) \<and> interrupted_preparing env row \<and> snd e = ow_expected_socket row)"
      by (cases e) force
    then show ?thesis unfolding hm_entry_get [OF wf] by (simp add: view_def)
  qed
  have keys: "map fst ?xs = map fst (filter (\<lambda>(sid, row). interrupted_preparing env row) (db_ownership db))" by auto
  have "distinct (map fst ?xs)" unfolding keys by (rule distinct_map_filter [OF wf])
  then have "\<exists>d'. for_rows (drop_preparing env) ?xs db = (Inr (), d') \<and> ledger_ok d' \<and>
    (\<forall>k. k \<notin> fst ` set ?xs \<longrightarrow> view d' k = view db k) \<and>
    (\<forall>e \<in> set ?xs. view d' (fst e) = (if ?gone e then (None, snd (view db (fst e))) else view db (fst e)))"
  proof (intro for_rows_pointwise [where W = "\<lambda>e v. \<exists>row. fst v = Some row \<and> interrupted_preparing env row"
        and g = "\<lambda>e v. if ?gone e then (None, snd v) else v"])
    fix e :: "string \<times> string option" and d
    assume d: "ledger_ok d" "\<exists>row. fst (view d (fst e)) = Some row \<and> interrupted_preparing env row"
    then obtain row where row: "hm_get (db_ownership d) (fst e) = Some row" "ow_phase row = ''preparing''"
      by (auto simp: interrupted_preparing_def view_def)
    have "gentle_step {} d (delete_ownership (fst e) (\<lambda>r. ow_phase r = ''preparing'') d)"
      using exec_ledger_gentle [OF d(1), of "L_drop (fst e)"] by (simp add: finalizes_def)
    with d row show "\<exists>d'. drop_preparing env e d = (Inr (), d') \<and> ledger_ok d' \<and>
        view d' (fst e) = (if ?gone e then (None, snd (view d (fst e))) else view d (fst e)) \<and>
        (\<forall>k. k \<noteq> fst e \<longrightarrow> view d' k = view d k)"
      by (auto simp: drop_preparing_def view_def delete_ownership_get gentle_step_def)
  qed (use assms mem in auto)
  then obtain d' where d': "for_rows (drop_preparing env) ?xs db = (Inr (), d')" "ledger_ok d'"
    "\<And>k. k \<notin> fst ` set ?xs \<Longrightarrow> view d' k = view db k"
    "\<And>e. e \<in> set ?xs \<Longrightarrow> view d' (fst e) = (if ?gone e then (None, snd (view db (fst e))) else view db (fst e))" by blast
  have "view d' sid = (case fst (view db sid) of
        Some row \<Rightarrow> if interrupted_preparing env row \<and> socket_gone env row then (None, snd (view db sid)) else view db sid
      | None \<Rightarrow> view db sid)" for sid
  proof (cases "\<exists>row. fst (view db sid) = Some row \<and> interrupted_preparing env row")
    case True
    then obtain row where row: "fst (view db sid) = Some row" "interrupted_preparing env row" by blast
    then have "(sid, ow_expected_socket row) \<in> set ?xs" using mem [of "(sid, ow_expected_socket row)"] by simp
    from d'(4) [OF this] row show ?thesis by (simp add: socket_gone_def)
  next
    case False
    have "sid \<notin> fst ` set ?xs"
    proof
      assume "sid \<in> fst ` set ?xs"
      then obtain e where "e \<in> set ?xs" "sid = fst e" by blast
      with mem [of e] False show False by blast
    qed
    from d'(3) [OF this] False show ?thesis by (auto split: option.splits)
  qed
  with d'(1,2) show ?thesis by blast
qed

subsection \<open>The rows to clean up\<close>

text \<open>What a selected row becomes.\<close>

definition pass_row ::
  "reconcile_env \<Rightarrow> string \<Rightarrow> ownership_row \<Rightarrow> runtime_row option \<Rightarrow> ownership_row option \<times> runtime_row option" where
  "pass_row env sid row rt =
     (if ow_phase row = ''active'' then (Some (if exited env row then claim env sid row else row), rt)
      else if confirmed env sid row then (None, None)
      else (Some (if ow_close_operation_id row = None then claim env sid row else row), rt))"

lemma to_cleanup_row_ok:
  assumes "own_row_ok row" "selected_row row"
  shows "\<exists>c. to_cleanup_row (sid, row) = Inr c \<and> cr_session_id c = sid \<and> cr_phase c = ow_phase row \<and>
    cr_capability c = ow_capability row \<and> cr_socket_path c = the (ow_socket_path row) \<and>
    cr_supervisor_pid c = nat (the (ow_supervisor_pid row)) \<and>
    cr_operation_id c = map_option digits_value (ow_close_operation_id row) \<and>
    cr_legacy_protocol c = (ow_legacy_protocol row \<noteq> 0)"
proof -
  obtain path pid where e: "ow_socket_path row = Some path" "ow_supervisor_pid row = Some pid" "0 \<le> pid" "pid \<le> int u32_max"
    using assms by (cases "ow_socket_path row"; cases "ow_supervisor_pid row") (auto simp: own_row_ok_def evidence_ok_def selected_row_def)
  have "close_id_ok row" using assms(1) by (simp add: own_row_ok_def)
  with e show ?thesis
    by (auto simp: to_cleanup_row_def close_id_ok_def parse_close_id_def split: option.splits)
qed

lemma finalize_view:
  assumes "ledger_ok db" "fst (view db sid) = Some row" "ow_phase row = ''cleaning''"
  shows "\<exists>db'. finalize_closed sid db = (Inr (), db') \<and> ledger_ok db' \<and> view db' sid = (None, None) \<and>
    (\<forall>k. k \<noteq> sid \<longrightarrow> view db' k = view db k)"
proof -
  have "ledger_ok (snd (finalize_closed sid db))"
    using exec_ledger_gentle [OF assms(1), of "L_finalize sid"] by (simp add: gentle_step_def)
  with assms(2,3) show ?thesis by (auto simp: finalize_closed_def view_def delete_ownership_get)
qed

lemma reconcile_row_view:
  assumes "ledger_ok db" "fst (view db sid) = Some row" "selected_row row" "to_cleanup_row (sid, row) = Inr c"
    and "re_draw env sid \<le> u64_max"
  shows "\<exists>db'. reconcile_row env c db = (Inr (), db') \<and> ledger_ok db' \<and>
    view db' sid = pass_row env sid row (snd (view db sid)) \<and> (\<forall>k. k \<noteq> sid \<longrightarrow> view db' k = view db k)"
proof -
  have ok: "own_row_ok row" using ledger_okD [OF assms(1)] assms(2) by (simp add: view_def)
  have vdb: "view db sid = (Some row, snd (view db sid))" using assms(2) by (metis prod.collapse)
  have c: "cr_session_id c = sid" "cr_phase c = ow_phase row" "cr_capability c = ow_capability row"
    "cr_socket_path c = the (ow_socket_path row)" "cr_supervisor_pid c = nat (the (ow_supervisor_pid row))"
    "cr_operation_id c = map_option digits_value (ow_close_operation_id row)" "cr_legacy_protocol c = (ow_legacy_protocol row \<noteq> 0)"
    using to_cleanup_row_ok [OF ok assms(3), of sid] assms(4) by auto
  have phase: "ow_phase row = ''prepared'' \<or> ow_phase row = ''active'' \<or> ow_phase row = ''cleaning''"
    using assms(3) by (auto simp: selected_row_def)
  obtain d where d: "mark_cleaning_with_stable_operation sid (re_draw env sid) (re_now env) db = (Inr (operation_of env sid row), d)"
    "ledger_ok d" "view d sid = (Some (claim env sid row), snd (view db sid))" "\<forall>k. k \<noteq> sid \<longrightarrow> view d k = view db k"
    using claim_view [OF assms(1,2) phase assms(5)] by blast
  show ?thesis
  proof (cases "ow_phase row = ''active''")
    case True
    show ?thesis
    proof (cases "exited env row")
      case ex: True
      with d True show ?thesis unfolding reconcile_row_def c pass_row_def exited_def by simp
    next
      case ex: False
      with vdb True assms(1) show ?thesis unfolding reconcile_row_def c pass_row_def exited_def by simp
    qed
  next
    case False
    then have cleaning: "ow_phase row = ''cleaning''" using assms(3) by (simp add: selected_row_def)
    have rc: "reconcile_cleaning env c (operation_of env sid row) db0 =
        (if confirmed env sid row then finalize_closed sid db0 else (Inr (), db0))" for db0
      unfolding reconcile_cleaning_def confirmed_def Let_def c by auto
    show ?thesis
    proof (cases "ow_close_operation_id row")
      case None
      have "ow_phase (claim env sid row) = ''cleaning''" by (simp add: claim_def set_cleaning_def)
      then obtain d' where "finalize_closed sid d = (Inr (), d')" "ledger_ok d'" "view d' sid = (None, None)"
        "\<forall>k. k \<noteq> sid \<longrightarrow> view d' k = view d k"
        using finalize_view [OF d(2), of sid] d(3) by auto
      with None False d show ?thesis by (simp add: reconcile_row_def pass_row_def c rc)
    next
      case (Some t)
      then have "operation_of env sid row = digits_value t" by (simp add: operation_of_def coalesce_close_id_def)
      then have pass: "reconcile_row env c db = (if confirmed env sid row then finalize_closed sid db else (Inr (), db))"
        using Some False rc [of db] by (simp add: reconcile_row_def c)
      show ?thesis
      proof (cases "confirmed env sid row")
        case True
        with pass False finalize_view [OF assms(1,2) cleaning] show ?thesis by (simp add: pass_row_def)
      next
        case unconfirmed: False
        with pass False Some vdb assms(1) show ?thesis by (simp add: pass_row_def)
      qed
    qed
  qed
qed

lemma select_rows:
  assumes "ledger_ok db"
  shows "\<exists>rows. select_cleanup_rows db = Inr rows \<and> distinct (map cr_session_id rows) \<and>
    (\<forall>c \<in> set rows. \<exists>row. fst (view db (cr_session_id c)) = Some row \<and> selected_row row \<and>
       to_cleanup_row (cr_session_id c, row) = Inr c) \<and>
    (\<forall>sid row. fst (view db sid) = Some row \<and> selected_row row \<longrightarrow> sid \<in> cr_session_id ` set rows)"
proof -
  let ?es = "filter (\<lambda>e. selected_row (snd e)) (sort_key (\<lambda>e. (ow_created_at_ms (snd e), fst e)) (db_ownership db))"
  have wf: "hm_wf (db_ownership db)" using assms by (simp add: ledger_ok_def)
  have mem: "e \<in> set ?es \<longleftrightarrow> fst (view db (fst e)) = Some (snd e) \<and> selected_row (snd e)" for e
    using hm_entry_get [OF wf, of "fst e" "snd e"] by (simp add: view_def conj_commute)
  have row: "own_row_ok (snd e)" if "e \<in> set ?es" for e
    using that mem [of e] ledger_okD [OF assms] by (auto simp: view_def)
  define conv where "conv = (\<lambda>e. case to_cleanup_row e of Inr c \<Rightarrow> c | Inl _ \<Rightarrow> undefined)"
  have conv: "to_cleanup_row e = Inr (conv e) \<and> cr_session_id (conv e) = fst e" if "e \<in> set ?es" for e
    using to_cleanup_row_ok [OF row [OF that], of "fst e"] mem [of e] that by (auto simp: conv_def)
  have rows: "select_cleanup_rows db = Inr (map conv ?es)"
    unfolding select_cleanup_rows_def using conv by (intro collect_rows_map) blast
  have ids: "map cr_session_id (map conv ?es) = map fst ?es" using conv by simp
  have "distinct (map fst (sort_key (\<lambda>e. (ow_created_at_ms (snd e), fst e)) (db_ownership db)))"
    using wf by (simp add: distinct_map)
  then have "distinct (map cr_session_id (map conv ?es))" unfolding ids by (rule distinct_map_filter)
  moreover have "\<exists>row. fst (view db (cr_session_id c)) = Some row \<and> selected_row row \<and> to_cleanup_row (cr_session_id c, row) = Inr c"
    if "c \<in> set (map conv ?es)" for c
  proof -
    from that obtain e where e: "e \<in> set ?es" "c = conv e" by auto
    with conv [OF e(1)] mem [of e] show ?thesis by auto
  qed
  moreover have "sid \<in> cr_session_id ` set (map conv ?es)" if "fst (view db sid) = Some row \<and> selected_row row" for sid row
  proof -
    have "(sid, row) \<in> set ?es" using that mem [of "(sid, row)"] by simp
    then have "sid \<in> set (map fst ?es)" by force
    then show ?thesis unfolding ids [symmetric] by (simp add: image_image)
  qed
  ultimately show ?thesis using rows by blast
qed

lemma reconcile_once_view:
  assumes ok: "ledger_ok db" and draws: "\<And>sid. re_draw env sid \<le> u64_max"
  shows "\<exists>db'. reconcile_once env db = (Inr (), db') \<and> ledger_ok db' \<and> (\<forall>sid. view db' sid = reconciled env sid (view db sid))"
proof -
  obtain d1 where d1: "for_rows (claim_prepared env) (map fst (filter (\<lambda>(sid, row). interrupted_prepared env row) (db_ownership db))) db = (Inr (), d1)"
    "ledger_ok d1"
    "\<And>sid. view d1 sid = (map_option (\<lambda>row. if interrupted_prepared env row then claim env sid row else row) (fst (view db sid)), snd (view db sid))"
    using interrupted_claims [OF ok draws] by blast
  obtain d2 where d2: "for_rows (drop_preparing env) (map (\<lambda>(sid, row). (sid, ow_expected_socket row))
      (filter (\<lambda>(sid, row). interrupted_preparing env row) (db_ownership d1))) d1 = (Inr (), d2)" "ledger_ok d2"
    "\<And>sid. view d2 sid = (case fst (view d1 sid) of
        Some row \<Rightarrow> if interrupted_preparing env row \<and> socket_gone env row then (None, snd (view d1 sid)) else view d1 sid
      | None \<Rightarrow> view d1 sid)"
    using interrupted_drops [OF d1(2)] by blast
  have creates: "reconcile_interrupted_creates env db = (Inr (), d2)"
    using d1(1) d2(1) by (simp add: reconcile_interrupted_creates_def interrupted_prepared_def interrupted_preparing_def)
  obtain rows where rows: "select_cleanup_rows d2 = Inr rows" "distinct (map cr_session_id rows)"
    "\<And>c. c \<in> set rows \<Longrightarrow> \<exists>row. fst (view d2 (cr_session_id c)) = Some row \<and> selected_row row \<and> to_cleanup_row (cr_session_id c, row) = Inr c"
    "\<And>sid row. fst (view d2 sid) = Some row \<Longrightarrow> selected_row row \<Longrightarrow> sid \<in> cr_session_id ` set rows"
    using select_rows [OF d2(2)] by blast
  let ?g = "\<lambda>c v. case fst v of Some row \<Rightarrow> pass_row env (cr_session_id c) row (snd v) | None \<Rightarrow> v"
  have "\<exists>d'. for_rows (reconcile_row env) rows d2 = (Inr (), d') \<and> ledger_ok d' \<and>
    (\<forall>k. k \<notin> cr_session_id ` set rows \<longrightarrow> view d' k = view d2 k) \<and>
    (\<forall>c \<in> set rows. view d' (cr_session_id c) = ?g c (view d2 (cr_session_id c)))"
  proof (intro for_rows_pointwise [where W = "\<lambda>c v. \<exists>row. fst v = Some row \<and> selected_row row \<and> to_cleanup_row (cr_session_id c, row) = Inr c"])
    fix c d assume d: "ledger_ok d" "\<exists>row. fst (view d (cr_session_id c)) = Some row \<and> selected_row row \<and> to_cleanup_row (cr_session_id c, row) = Inr c"
    then obtain row where row: "fst (view d (cr_session_id c)) = Some row" "selected_row row" "to_cleanup_row (cr_session_id c, row) = Inr c"
      by blast
    from reconcile_row_view [OF d(1) row draws] row(1)
    show "\<exists>d'. reconcile_row env c d = (Inr (), d') \<and> ledger_ok d' \<and> view d' (cr_session_id c) = ?g c (view d (cr_session_id c)) \<and>
        (\<forall>k. k \<noteq> cr_session_id c \<longrightarrow> view d' k = view d k)"
      by simp
  qed (use rows d2(2) in auto)
  then obtain d3 where d3: "for_rows (reconcile_row env) rows d2 = (Inr (), d3)" "ledger_ok d3"
    "\<And>k. k \<notin> cr_session_id ` set rows \<Longrightarrow> view d3 k = view d2 k"
    "\<And>c. c \<in> set rows \<Longrightarrow> view d3 (cr_session_id c) = ?g c (view d2 (cr_session_id c))" by blast
  have third: "view d3 sid = (case fst (view d2 sid) of
      Some row \<Rightarrow> if selected_row row then pass_row env sid row (snd (view d2 sid)) else view d2 sid | None \<Rightarrow> view d2 sid)" for sid
  proof (cases "sid \<in> cr_session_id ` set rows")
    case True
    then obtain c where c: "c \<in> set rows" "sid = cr_session_id c" by blast
    with rows(3) [OF c(1)] d3(4) [OF c(1)] show ?thesis by auto
  next
    case False
    with rows(4) d3(3) [OF False] show ?thesis by (auto split: option.splits)
  qed
  have "view d3 sid = reconciled env sid (view db sid)" for sid
  proof (cases "fst (view db sid)")
    case None
    then show ?thesis by (simp add: third d2(3) d1(3) reconciled_def prod_eq_iff)
  next
    case (Some row0)
    let ?row = "if interrupted_prepared env row0 then claim env sid row0 else row0"
    have not_both: "interrupted_preparing env ?row = interrupted_preparing env row0"
      by (auto simp: interrupted_preparing_def interrupted_prepared_def claim_def set_cleaning_def)
    have sock: "interrupted_preparing env row0 \<Longrightarrow> ?row = row0"
      by (auto simp: interrupted_preparing_def interrupted_prepared_def)
    obtain rt where v: "view db sid = (Some row0, rt)" using Some by (cases "view db sid") auto
    then have v1: "view d1 sid = (Some ?row, rt)" by (simp add: d1(3))
    show ?thesis
    proof (cases "interrupted_preparing env row0 \<and> socket_gone env row0")
      case True
      then have "view d2 sid = (None, rt)" using v1 sock not_both by (simp add: d2(3))
      with True v show ?thesis by (simp add: third reconciled_def)
    next
      case False
      then have "view d2 sid = (Some ?row, rt)" using v1 sock not_both unfolding d2(3) by auto
      moreover have "reconciled env sid (view db sid) =
          (if selected_row ?row then pass_row env sid ?row rt else (Some ?row, rt))"
        unfolding reconciled_def v fst_conv snd_conv option.case if_not_P [OF False] Let_def pass_row_def
        by (cases "selected_row ?row") (simp_all only: if_True if_False not_True_eq_False not_False_eq_True)
      ultimately show ?thesis by (simp add: third del: if_split)
    qed
  qed
  moreover have "reconcile_once env db = (Inr (), d3)" using creates rows(1) d3(1) by (simp add: reconcile_once_def)
  ultimately show ?thesis using d3(2) by blast
qed

end
