(* ===== verification/Ownership_Life.thy ===== *)
theory Ownership_Life
  imports Ownership_Ledger Runtime_Life
begin

text \<open>
  The life of an owned supervisor: it is never forgotten, the reconciler removes exactly the rows whose
  cleanup is confirmed, and a closed session stays closed under all transactions as long as its row is there.
  The rest shows what the code leaves behind: a create that fails before its evidence keeps its row for ever,
  and a snapshot saved after a cleanup brings the row of the session back.
\<close>

declare map_of_eq_Some_iff [simp del] Some_eq_map_of_iff [simp del]

lemma exec_ledger_ok: "ledger_ok db \<Longrightarrow> fits_ledger_op op \<Longrightarrow> ledger_ok (exec_ledger op db)"
  using exec_ledger_gentle by (simp only: gentle_step_def)

section \<open>Nothing is forgotten\<close>

definition example_row :: ownership_row where
  "example_row =
     \<lparr>ow_phase = ''active'', ow_create_operation_id = [1], ow_close_operation_id = None, ow_capability = [2],
      ow_expected_socket = Some ''sock'', ow_supervisor_pid = Some 7, ow_socket_path = Some ''sock'',
      ow_created_at_ms = 5, ow_updated_at_ms = 5, ow_diagnostic = None, ow_legacy_protocol = 0,
      ow_owner_generation = Some [9]\<rparr>"

definition example_ledger :: ledger_db where
  "example_ledger =
     \<lparr>db_meta = [], db_devices = [], db_runtime = [], db_uploads = [], db_history_rows = 0,
      db_ownership = [(''s'', example_row)]\<rparr>"

lemma example_row_ok: "own_row_ok example_row"
  by (simp add: own_row_ok_def close_id_ok_def evidence_ok_def example_row_def u32_max_def)

lemma example_ledger_ok: "ledger_ok example_ledger"
  using example_row_ok by (intro ledger_okI) (auto simp: example_ledger_def split: if_splits)

text \<open>
  C24. A supervisor that the ledger has evidence of is not forgotten: whatever transactions of creates, closes,
  recoveries, state saves and reconciler passes run, in any order and interrupted anywhere, its row
  stays with the same capability and evidence until the transaction that finalises its cleanup, and a
  close operation once chosen is never replaced.
\<close>

theorem owned_supervisor_is_never_forgotten:
  assumes "ledger_ok db" "list_all fits_ledger_op ops" "L_finalize sid \<notin> set ops"
    and "hm_get (db_ownership db) sid = Some row" "ow_socket_path row \<noteq> None"
  shows "\<exists>row'. hm_get (db_ownership (fold exec_ledger ops db)) sid = Some row' \<and>
    ow_capability row' = ow_capability row \<and> ow_create_operation_id row' = ow_create_operation_id row \<and>
    ow_socket_path row' = ow_socket_path row \<and> ow_supervisor_pid row' = ow_supervisor_pid row \<and>
    (ow_close_operation_id row \<noteq> None \<longrightarrow> ow_close_operation_id row' = ow_close_operation_id row)"
proof -
  have "sid \<notin> (\<Union>op \<in> set ops. finalizes op)"
    using assms(3) by (auto simp: finalizes_def split: ledger_op.splits)
  with ledger_run_gentle [OF assms(1,2)] assms(4,5)
  obtain row' where "hm_get (db_ownership (fold exec_ledger ops db)) sid = Some row'" "row_keeps row row'"
    unfolding gentle_step_def by blast
  with assms(5) show ?thesis by (auto simp: row_keeps_def)
qed

theorem owned_supervisor_is_never_forgotten_witness:
  "\<exists>row'. hm_get (db_ownership (fold exec_ledger [L_close ''s'' 3 8, L_stable ''s'' 4 9, L_quarantine ''s'' ''x'' 9]
      example_ledger)) ''s'' = Some row' \<and> ow_capability row' = [2]"
  using owned_supervisor_is_never_forgotten [OF example_ledger_ok, where sid = "''s''" and row = example_row and
      ops = "[L_close ''s'' 3 8, L_stable ''s'' 4 9, L_quarantine ''s'' ''x'' 9]"]
  by (auto simp: example_ledger_def example_row_def u64_max_def)

text \<open>
  C25. A pass of the reconciler succeeds on every well-formed ledger and does to each session exactly
  what its row asks for: it drops an interrupted intent whose socket does not exist, takes over an
  interrupted start and an active supervisor that has exited, and removes a row, together with the
  row of the session, if and only if the cleanup with the row's own capability and close operation is
  confirmed or the supervisor's process is gone. Rows of other sessions have no influence.
\<close>

theorem reconciler_pass_is_exact:
  assumes "ledger_ok db" "\<And>sid. re_draw env sid \<le> u64_max"
  shows "\<exists>db'. reconcile_once env db = (Inr (), db') \<and> ledger_ok db' \<and> (\<forall>sid. view db' sid = reconciled env sid (view db sid))"
  by (rule reconcile_once_view [OF assms])

definition example_env :: reconcile_env where
  "example_env =
     \<lparr>re_generation = [9], re_draw = (\<lambda>sid. 3), re_now = 8, re_exited = (\<lambda>i. True),
      re_cleanup = (\<lambda>sid i cap op. Inr (cap = [2] \<and> op = 3)), re_legacy_cleanup = (\<lambda>sid i. Inr False),
      re_pid_absent = (\<lambda>pid. False), re_socket_exists = (\<lambda>p. True)\<rparr>"

theorem reconciler_pass_is_exact_witness:
  "\<exists>db1 db2. reconcile_once example_env example_ledger = (Inr (), db1) \<and> fst (view db1 ''s'') = Some (claim example_env ''s'' example_row) \<and>
    reconcile_once example_env db1 = (Inr (), db2) \<and> view db2 ''s'' = (None, None)"
proof -
  have draws: "re_draw example_env sid \<le> u64_max" for sid by (simp add: example_env_def u64_max_def)
  obtain db1 where db1: "reconcile_once example_env example_ledger = (Inr (), db1)" "ledger_ok db1"
    "\<And>sid. view db1 sid = reconciled example_env sid (view example_ledger sid)"
    using reconciler_pass_is_exact [OF example_ledger_ok draws] by blast
  obtain db2 where db2: "reconcile_once example_env db1 = (Inr (), db2)"
    "\<And>sid. view db2 sid = reconciled example_env sid (view db1 sid)"
    using reconciler_pass_is_exact [OF db1(2) draws] by blast
  have one: "view db1 ''s'' = (Some (claim example_env ''s'' example_row), None)"
    unfolding db1(3)
    by (simp add: view_def example_ledger_def reconciled_def interrupted_preparing_def interrupted_prepared_def
        example_row_def selected_row_def exited_def example_env_def)
  have "dec 3 = [51]" by (simp add: dec.simps)
  then have "view db2 ''s'' = (None, None)"
    unfolding db2(2) one
    by (simp add: reconciled_def interrupted_preparing_def interrupted_prepared_def claim_def set_cleaning_def
        example_row_def selected_row_def confirmed_def example_env_def random_operation_id_def coalesce_close_id_def
        operation_of_def digits_value_def)
  with db1(1) db2(1) one show ?thesis by simp
qed

section \<open>Interrupted starts\<close>

text \<open>
  A start that the daemon did not survive is cleaned up by a later one (which has another generation) in a
  single pass, once the supervisor confirms or its process is gone.
\<close>

lemma interrupted_start_is_cleaned_up:
  assumes "ledger_ok db" "\<And>sid. re_draw env sid \<le> u64_max" "hm_get (db_ownership db) sid = Some row"
    and "ow_phase row = ''prepared''" "ow_diagnostic row = None" "ow_owner_generation row \<noteq> Some (re_generation env)"
    and "confirmed env sid (claim env sid row)"
  shows "\<exists>db'. reconcile_once env db = (Inr (), db') \<and> view db' sid = (None, None)"
proof -
  have "own_row_ok row" by (rule ledger_okD [OF assms(1,3)])
  then have "selected_row (claim env sid row)"
    using assms(4)
    by (cases "ow_socket_path row"; cases "ow_supervisor_pid row")
       (auto simp: own_row_ok_def evidence_ok_def selected_row_def claim_def set_cleaning_def)
  then have "reconciled env sid (view db sid) = (None, None)"
    using assms(3-7)
    by (simp add: reconciled_def view_def interrupted_preparing_def interrupted_prepared_def other_generation_def)
       (simp add: claim_def set_cleaning_def)
  with reconcile_once_view [OF assms(1,2)] show ?thesis by metis
qed

section \<open>A failed start leaves its row\<close>

text \<open>A row that is to be cleaned up but has no evidence: no pass selects it.\<close>

lemma stuck_row_stays:
  assumes "fst v = Some row" "ow_phase row = ''cleaning''" "ow_socket_path row = None"
  shows "reconciled env sid v = v"
  using assms
  by (cases v) (simp add: reconciled_def interrupted_preparing_def interrupted_prepared_def selected_row_def)

primrec passes :: "reconcile_env list \<Rightarrow> ledger_db \<Rightarrow> ledger_db" where
  "passes [] db = db"
| "passes (env # envs) db = passes envs (snd (reconcile_once env db))"

lemma stuck_row_stays_for_ever:
  assumes "ledger_ok db" "list_all (\<lambda>env. \<forall>sid. re_draw env sid \<le> u64_max) envs"
    and "fst (view db sid) = Some row" "ow_phase row = ''cleaning''" "ow_socket_path row = None"
  shows "view (passes envs db) sid = view db sid"
  using assms
proof (induction envs arbitrary: db)
  case Nil
  then show ?case by simp
next
  case (Cons env envs)
  then obtain db' where db': "reconcile_once env db = (Inr (), db')" "ledger_ok db'"
    "view db' sid = reconciled env sid (view db sid)"
    using reconcile_once_view [of db env] by auto
  then have "view db' sid = view db sid" using stuck_row_stays [OF Cons.prems(3-5)] by simp
  with Cons db' show ?case by simp
qed

text \<open>A create that fails before the evidence of its supervisor is recorded.\<close>

lemma failed_create_marks_row:
  assumes "ledger_ok db" "hm_get (db_ownership db) sid = None" "ob_expected_socket ob sid = Inr expected"
    and "ob_launch ob sid command sz (ce_create_id env, ce_capability env) (rt_backend r) = (Launch_over (Inl e), b)"
    and "ce_intent_ok env" "ce_mark_ok env"
  shows "\<exists>db'. ownership_create be ob cd gen env sid command sz prepare r db = Some (Inl (Own_Pty e), r\<lparr>rt_backend := b\<rparr>, db') \<and>
    ledger_ok db' \<and>
    (\<exists>row. fst (view db' sid) = Some row \<and> ow_phase row = ''cleaning'' \<and> ow_socket_path row = None)"
proof -
  define db1 where "db1 = exec_ledger (L_intent sid (ce_create_id env) (ce_capability env) expected (ce_now env) gen) db"
  define db2 where "db2 = exec_ledger (L_mark sid (ce_now env)) db1"
  have "ledger_ok db1" unfolding db1_def by (rule exec_ledger_ok [OF assms(1)]) simp
  then have "ledger_ok db2" unfolding db2_def by (rule exec_ledger_ok) simp
  moreover have "ownership_create be ob cd gen env sid command sz prepare r db = Some (Inl (Own_Pty e), r\<lparr>rt_backend := b\<rparr>, db2)"
    using assms(2-6)
    by (simp add: ownership_create_def sql_def insert_preparing_def spawn_named_gated_def db1_def db2_def)
  moreover have "\<exists>row. fst (view db2 sid) = Some row \<and> ow_phase row = ''cleaning'' \<and> ow_socket_path row = None"
    using assms(2)
    by (simp add: db1_def db2_def view_def mark_cleaning_def update_ownership_get insert_preparing_def)
  ultimately show ?thesis by blast
qed

text \<open>
  A create whose supervisor cannot be started marks its row for cleanup, but the reconciler only looks at
  rows with a socket and a process: however many passes run, the row is never removed.
\<close>

lemma failed_create_row_is_never_removed:
  assumes "ledger_ok db" "hm_get (db_ownership db) sid = None" "ob_expected_socket ob sid = Inr expected"
    and "ob_launch ob sid command sz (ce_create_id env, ce_capability env) (rt_backend r) = (Launch_over (Inl e), b)"
    and "ce_intent_ok env" "ce_mark_ok env" "list_all (\<lambda>env. \<forall>sid. re_draw env sid \<le> u64_max) envs"
  shows "\<exists>db' row. ownership_create be ob cd gen env sid command sz prepare r db = Some (Inl (Own_Pty e), r\<lparr>rt_backend := b\<rparr>, db') \<and>
    ow_phase row = ''cleaning'' \<and> hm_get (db_ownership (passes envs db')) sid = Some row"
proof -
  obtain db' row where "ownership_create be ob cd gen env sid command sz prepare r db = Some (Inl (Own_Pty e), r\<lparr>rt_backend := b\<rparr>, db')"
    "ledger_ok db'" and row: "fst (view db' sid) = Some row" "ow_phase row = ''cleaning''" "ow_socket_path row = None"
    using failed_create_marks_row [OF assms(1-6)] by blast
  moreover from stuck_row_stays_for_ever [OF \<open>ledger_ok db'\<close> assms(7) row] row(1)
  have "fst (view (passes envs db') sid) = Some row" by simp
  ultimately show ?thesis by (auto simp: view_def)
qed

definition broken_launcher :: "(unit, u8 list \<times> bool) ownership_backend" where
  "broken_launcher =
     \<lparr>ob_expected_socket = (\<lambda>sid. Inr (Some ''sock'')), ob_launch = (\<lambda>sid command sz grant b. (Launch_over (Inl (Pty_Io ''no such file'')), b)),
      ob_finish = (\<lambda>sid kept b. (Inl (Pty_Io ''no such file''), b)), ob_install_legacy = (\<lambda>sid info cap b. (Inr False, b))\<rparr>"

definition example_create :: create_env where
  "example_create =
     \<lparr>ce_create_id = [1], ce_capability = [2], ce_now = 8, ce_intent_ok = True, ce_evidence_ok = True,
      ce_commit_ok = True, ce_mark_ok = True, ce_display = (\<lambda>e. ''error'')\<rparr>"

definition example_command :: command_spec where
  "example_command = \<lparr>cs_program = ''sh'', cs_args = [], cs_env = [], cs_removed_env = [], cs_cwd = None\<rparr>"

definition example_size :: pty_size where
  "example_size = \<lparr>ps_rows = 24, ps_cols = 80, ps_pixel_width = 0, ps_pixel_height = 0\<rparr>"

section \<open>Closed sessions\<close>

text \<open>A step keeps the row of a session, and keeps it closed.\<close>

definition row_closed :: "runtime_row \<Rightarrow> bool" where
  "row_closed row \<longleftrightarrow> rr_state row = session_state_text Closed"

definition keeps_row :: "string \<Rightarrow> 'm state_db_scheme \<Rightarrow> 'm state_db_scheme \<Rightarrow> bool" where
  "keeps_row sid db db' \<longleftrightarrow>
     (\<forall>row. hm_get (db_runtime db) sid = Some row \<longrightarrow>
        (\<exists>row'. hm_get (db_runtime db') sid = Some row' \<and> (row_closed row \<longrightarrow> row_closed row')))"

lemma keeps_row_same: "hm_get (db_runtime db') sid = hm_get (db_runtime db) sid \<Longrightarrow> keeps_row sid db db'"
  by (simp add: keeps_row_def)

lemma keeps_row_trans: "keeps_row sid a b \<Longrightarrow> keeps_row sid b c \<Longrightarrow> keeps_row sid a c"
  unfolding keeps_row_def by blast

lemma keeps_row_cong: "db_runtime db1 = db_runtime db \<Longrightarrow> keeps_row sid db1 db' \<Longrightarrow> keeps_row sid db db'"
  by (simp add: keeps_row_def)

lemma meta_runtime [simp]:
  "db_runtime (upsert_meta_value k v at db) = db_runtime db"
  "db_runtime (delete_meta_value k db) = db_runtime db"
  "db_runtime (save_identity cd at i db) = db_runtime db"
  "db_runtime (write_sqlite_state_version now db) = db_runtime db"
  "db_runtime (migrate_sqlite_v2_to_current now db) = db_runtime db"
  by (simp_all add: upsert_meta_value_def delete_meta_value_def save_identity_def Let_def
      write_sqlite_state_version_def migrate_sqlite_v2_to_current_def split: option.splits)

lemma ensure_version_runtime: "db_runtime (snd (ensure_sqlite_state_version now db)) = db_runtime db"
  by (simp add: ensure_sqlite_state_version_def split: option.splits)

lemma with_state_db_keeps_row:
  assumes "\<And>db. keeps_row sid db (snd (f db))"
  shows "keeps_row sid db (snd (with_state_db now f db))"
  using assms ensure_version_runtime [of now db]
  by (auto simp: with_state_db_def intro: keeps_row_same keeps_row_cong split: prod.splits sum.splits)

lemma run_insert_devices_runtime:
  "run_each (insert_device cd) ds db = Inr db' \<Longrightarrow> db_runtime db' = db_runtime db"
  by (induction ds arbitrary: db) (auto simp: insert_device_def Let_def res_bind_def split: sum.splits if_splits)

lemma upsert_keeps_row: "keeps_row sid db (upsert_session cd s db)"
  by (auto simp: keeps_row_def row_closed_def upsert_session_def merge_runtime_row_def Let_def)

lemma upserts_keep_row: "keeps_row sid db (fold (upsert_session cd) ss db)"
  by (induction ss arbitrary: db) (auto intro: keeps_row_same keeps_row_trans [OF upsert_keeps_row])

lemma save_keeps_row: "keeps_row sid db (snd (save_sqlite_state cd now st db))"
  by (auto simp: save_sqlite_state_def transaction_def Let_def res_bind_def intro: keeps_row_same
      intro!: keeps_row_cong [OF _ upserts_keep_row] split: sum.splits dest!: run_insert_devices_runtime)

lemma delete_closed_row_keeps_row: "key \<noteq> sid \<Longrightarrow> keeps_row sid db (snd (delete_closed_row key db))"
  by (auto simp: delete_closed_row_def intro: keeps_row_same split: option.splits)

lemma prune_except_keeps_row:
  assumes "sid \<in> cd_uuid_text cd ` keep"
  shows "keeps_row sid db (snd (prune_closed_runtime_sessions_except cd keep db))"
proof -
  have "keeps_row sid db (snd (fold (\<lambda>key (n, db). let (m, db') = delete_closed_row key db in (n + m, db')) keys (n, db)))"
    if "sid \<notin> set keys" for keys n db
    using that
  proof (induction keys arbitrary: n db)
    case Nil
    then show ?case by (simp add: keeps_row_same)
  next
    case (Cons k keys)
    obtain m db' where del: "delete_closed_row k db = (m, db')" by force
    with Cons.prems delete_closed_row_keeps_row [of k sid db] have "keeps_row sid db db'" by auto
    with Cons del show ?case by (auto intro: keeps_row_trans)
  qed
  note run = this
  show ?thesis unfolding prune_closed_runtime_sessions_except_def Let_def
    by (rule run [unfolded Let_def]) (use assms in \<open>auto split: if_splits\<close>)
qed

text \<open>
  The transactions that may delete the row of a session: a prune, the end of a cleanup, a quarantine, and a
  recovery that is given a record of it without evidence of a supervisor.
\<close>

fun deletes_row :: "ledger_op \<Rightarrow> string \<Rightarrow> bool" where
  "deletes_row (L_finalize s) sid = (s = sid)"
| "deletes_row (L_quarantine s diagnostic now) sid = (s = sid)"
| "deletes_row (L_backfill cd draw now recs) sid =
     list_ex (\<lambda>rec. cd_uuid_text cd (ss_session_id rec) = sid \<and> legacy_evidence rec = None) recs"
| "deletes_row (L_store cd (Prune_Session now u)) sid = (cd_uuid_text cd u = sid)"
| "deletes_row (L_store cd (Prune_Except now keep)) sid = (sid \<notin> cd_uuid_text cd ` keep)"
| "deletes_row _ sid = False"

lemma exec_store_keeps_row:
  assumes "\<not> deletes_row (L_store cd op) sid"
  shows "keeps_row sid db (exec_store cd op db)"
proof (cases op)
  case (Save_State now st)
  then show ?thesis by (simp add: state_save_def with_state_db_keeps_row save_keeps_row)
next
  case (Close_Session now u at)
  show ?thesis unfolding Close_Session exec_store.simps record_runtime_session_closed_def
    by (intro with_state_db_keeps_row) (auto simp: keeps_row_def row_closed_def Let_def)
next
  case (Prune_Session now u)
  with assms show ?thesis unfolding Prune_Session exec_store.simps prune_closed_session_def
    by (intro with_state_db_keeps_row) (simp add: split_def Let_def delete_closed_row_keeps_row)
next
  case (Prune_Except now keep)
  with assms show ?thesis unfolding Prune_Except exec_store.simps prune_closed_sessions_except_def
    by (intro with_state_db_keeps_row) (simp add: split_def Let_def prune_except_keeps_row)
qed (simp_all add: record_http_upload_def remove_http_upload_def Let_def with_state_db_keeps_row keeps_row_same)

lemma backfill_keeps_row:
  assumes "\<not> deletes_row (L_backfill cd draw now recs) sid"
  shows "keeps_row sid db (fold (backfill_record cd draw now) recs db)"
  using assms
proof (induction recs arbitrary: db)
  case Nil
  then show ?case by (simp add: keeps_row_same)
next
  case (Cons rec recs)
  have "keeps_row sid db (backfill_record cd draw now rec db)"
    using Cons.prems by (auto simp: backfill_record_def Let_def intro!: keeps_row_same split: option.splits)
  with Cons show ?case by (auto intro: keeps_row_trans)
qed

lemma commit_keeps_row: "keeps_row sid db (snd (commit_active_tx cd s sz info now db))"
  using update_ownership_other(1) [of s "\<lambda>r. ow_phase r = ''prepared''"]
  by (auto simp: commit_active_tx_def transaction_def split_def Let_def keeps_row_def)

lemma exec_ledger_keeps_row:
  assumes "\<not> deletes_row op sid"
  shows "keeps_row sid db (exec_ledger op db)"
proof (cases op)
  case (L_store cd sop)
  with assms exec_store_keeps_row show ?thesis by simp
next
  case (L_backfill cd draw now recs)
  with assms backfill_keeps_row [of cd draw now recs sid db] show ?thesis by (simp add: backfill_legacy_records_def)
next
  case (L_commit cd s sz info now)
  then show ?thesis by (simp add: commit_keeps_row)
qed (use assms in \<open>auto simp: insert_preparing_def record_prepared_def mark_cleaning_def close_tx_def
      mark_cleaning_with_stable_operation_def finalize_closed_def quarantine_def migrate_legacy_row_def split_def Let_def
      intro!: keeps_row_same split: option.splits sum.splits pty_restore_info.splits\<close>)

interpretation session_rows: session_table "\<lambda>db. True" "\<lambda>db. hm_get (db_runtime db)" row_closed exec_ledger "\<lambda>op. True" deletes_row
  by unfold_locales (use exec_ledger_keeps_row in \<open>auto simp: keeps_row_def\<close>)

text \<open>
  C23. Whatever transactions of the state store and of the ownership ledger run, in any order, a session keeps its row
  as long as none of them deletes it: no prune of it, no finalised cleanup, no quarantine, and no recovery that is
  given a record of it without evidence of a supervisor. While it keeps its row, a closed session stays closed: no
  snapshot saved meanwhile, however stale, and no create reopens it. When the row, which is the tombstone, has been
  deleted the protection is over: see \<open>finalized_session_is_resurrected\<close> below.
\<close>

theorem closed_sessions_stay_closed:
  assumes "list_all (\<lambda>op. \<not> deletes_row op sid) ops" "hm_get (db_runtime db) sid = Some row"
  shows "\<exists>row'. hm_get (db_runtime (fold exec_ledger ops db)) sid = Some row' \<and>
    (rr_state row = session_state_text Closed \<longrightarrow> rr_state row' = session_state_text Closed)"
  using session_rows.run_keeps [where d = db and ops = ops and u = sid and s = row] assms by (simp add: row_closed_def list_all_iff)

text \<open>
  An example: the close of a session is recorded while its supervisor is being cleaned up, then a stale snapshot with
  the session still running is saved, and another session is finalised.
\<close>

definition example_late_ops :: "ledger_op list" where
  "example_late_ops =
     [L_close ''uuu'' 4 9, L_store unary_codecs (Save_State 9 example_state), L_finalize ''uuuuuuuu'',
      L_store unary_codecs (Prune_Session 9 8)]"

theorem closed_sessions_stay_closed_witness:
  "\<exists>row'. hm_get (db_runtime (fold exec_ledger example_late_ops
      (snd (record_runtime_session_closed unary_codecs 9 3 9 example_ledger)))) ''uuu'' = Some row' \<and>
    rr_state row' = session_state_text Closed"
proof -
  let ?db = "snd (record_runtime_session_closed unary_codecs 9 3 9 example_ledger)"
  have "\<exists>row. hm_get (db_runtime ?db) ''uuu'' = Some row \<and> rr_state row = session_state_text Closed"
    by (simp add: record_runtime_session_closed_def with_state_db_def ensure_sqlite_state_version_def example_ledger_def
        sqlite_state_has_content_def read_meta_value_def unary_codecs_def numeral_3_eq_3 Let_def)
  moreover have "list_all (\<lambda>op. \<not> deletes_row op ''uuu'') example_late_ops"
    by (simp add: example_late_ops_def unary_codecs_def numeral_eq_Suc)
  ultimately show ?thesis using closed_sessions_stay_closed [of "''uuu''" example_late_ops ?db] by fastforce
qed

section \<open>A snapshot after a cleanup\<close>

text \<open>
  The tombstone that protects a closed session is deleted together with its ledger row, so a snapshot
  taken before the cleanup and saved after it brings the row of the session back as running.
\<close>

lemma finalized_session_is_resurrected:
  assumes "codecs_ok cd" "db_ok cd db" "s \<in> set (ds_sessions st)" "distinct (map ss_session_id (ds_sessions st))"
    and "fits_state st" "ds_version st = state_schema_version" "distinct (map tds_device_id (ds_trusted_devices st))"
    and "ss_state s = Running" "db_ok cd (snd (finalize_closed (cd_uuid_text cd (ss_session_id s)) db))"
  shows "sessions_of cd (snd (state_save cd now st (snd (finalize_closed (cd_uuid_text cd (ss_session_id s)) db)))) (ss_session_id s) = Some s"
proof -
  let ?db = "snd (finalize_closed (cd_uuid_text cd (ss_session_id s)) db)"
  have gone: "sessions_of cd ?db (ss_session_id s) = None"
    by (simp add: sessions_of_def finalize_closed_def)
  have upserts: "fold spec_upsert ss m (ss_session_id s) = Some s"
    if "s \<in> set ss" "distinct (map ss_session_id ss)" "m (ss_session_id s) = None" for ss m
    using that
  proof (induction ss arbitrary: m)
    case Nil
    then show ?case by simp
  next
    case (Cons x ss)
    show ?case
    proof (cases "x = s")
      case True
      have keep: "fold spec_upsert ys n (ss_session_id s) = n (ss_session_id s)" if "ss_session_id s \<notin> ss_session_id ` set ys" for ys n
        using that by (induction ys arbitrary: n) (auto simp: spec_upsert_def)
      have "spec_upsert s m (ss_session_id s) = Some s"
        using Cons.prems(3) assms(8) by (simp add: spec_upsert_def merge_session_def stored_session_def)
      with keep [of ss "spec_upsert s m"] True Cons.prems(2) show ?thesis by simp
    next
      case False
      with Cons have "ss_session_id x \<noteq> ss_session_id s" by force
      with Cons False show ?thesis by (simp add: spec_upsert_def)
    qed
  qed
  obtain db' where "save_sqlite_state cd now st ?db = (Inr (), db')"
    "sessions_of cd db' = fold spec_upsert (ds_sessions st) (sessions_of cd ?db)"
    using save_sqlite_state_cases [OF assms(1,9,5), of now] assms(6,7) by auto
  with upserts [OF assms(3,4), where m = "sessions_of cd ?db"] gone assms(9) show ?thesis by (simp add: state_save_def)
qed

end
