(* ===== verification/Ownership_Restart.thy ===== *)
theory Ownership_Restart
  imports Ownership_Life
begin

text \<open>
  Creating a session, stopping the daemon and starting it again: the state that is loaded has the
  session, and the recovery reconnects it. This is the composition of the ledger, the state store and
  the runtime catalogue.
\<close>

declare map_of_eq_Some_iff [simp del] Some_eq_map_of_iff [simp del]

section \<open>Calls of the runtime that concern one session\<close>

definition concerns :: "string \<Rightarrow> (('b, 'p, 'a) session_runtime, 'x) rt_call \<Rightarrow> bool" where
  "concerns sid m \<longleftrightarrow>
     (\<forall>r j. j \<noteq> sid \<longrightarrow>
        hm_get (rt_runtime_sessions (snd (m r))) j = hm_get (rt_runtime_sessions r) j \<and>
        hm_get (rt_sessions (snd (m r))) j = hm_get (rt_sessions r) j)"

lemma concernsD:
  "concerns sid m \<Longrightarrow> j \<noteq> sid \<Longrightarrow> hm_get (rt_runtime_sessions (snd (m r))) j = hm_get (rt_runtime_sessions r) j"
  "concerns sid m \<Longrightarrow> j \<noteq> sid \<Longrightarrow> hm_get (rt_sessions (snd (m r))) j = hm_get (rt_sessions r) j"
  by (simp_all add: concerns_def)

named_theorems concerns_rules

lemma concerns_bind [concerns_rules]:
  assumes "concerns sid m" "\<And>x. concerns sid (f x)"
  shows "concerns sid (rt_bind m f)"
  unfolding concerns_def rt_bind_def
proof (intro allI impI)
  fix r j assume j: "j \<noteq> sid"
  obtain x r' where x: "m r = (x, r')" by force
  have m: "hm_get (rt_runtime_sessions r') j = hm_get (rt_runtime_sessions r) j" "hm_get (rt_sessions r') j = hm_get (rt_sessions r) j"
    using concernsD [OF assms(1) j, of r] x by simp_all
  show "hm_get (rt_runtime_sessions (snd (case m r of (Inl e, s') \<Rightarrow> (Inl e, s') | (Inr x, s') \<Rightarrow> f x s'))) j = hm_get (rt_runtime_sessions r) j \<and>
      hm_get (rt_sessions (snd (case m r of (Inl e, s') \<Rightarrow> (Inl e, s') | (Inr x, s') \<Rightarrow> f x s'))) j = hm_get (rt_sessions r) j"
  proof (cases x)
    case (Inl e)
    with x m show ?thesis by simp
  next
    case (Inr y)
    with x m concernsD [OF assms(2) [of y] j, of r'] show ?thesis by simp
  qed
qed

lemma concerns_pure [concerns_rules]:
  "concerns sid (rt_return x)" "concerns sid (rt_fail e)" "concerns sid (rt_pty_size sz)"
  by (simp_all add: concerns_def rt_return_def rt_fail_def rt_pty_size_def)

lemma concerns_backend [concerns_rules]: "concerns sid (rt_backend_call f)"
  by (auto simp: concerns_def rt_backend_call_def rt_result_def rt_fail_def rt_return_def split: prod.splits sum.splits)

lemma concerns_manager:
  assumes "\<And>m j. j \<noteq> sid \<Longrightarrow> hm_get (snd (f m)) j = hm_get m j"
  shows "concerns sid (rt_manager f)"
  using assms by (auto simp: concerns_def rt_manager_def split: prod.splits sum.splits) (metis snd_conv)+

lemma concerns_manager_calls [concerns_rules]:
  "concerns sid (rt_manager (create_session sid))" "concerns sid (rt_manager (session_resize sid sz))"
  "concerns sid (rt_manager (session_attach sid dev))" "concerns sid (rt_manager (session_detach sid dev))"
  "concerns sid (rt_manager (session_close sid))"
  by (auto intro!: concerns_manager simp: session_op_defs Let_def split: option.splits)

lemma concerns_ignore [concerns_rules]: "concerns sid m \<Longrightarrow> concerns sid (rt_ignore m)"
  by (simp add: concerns_def rt_ignore_def)

lemma concerns_insert [concerns_rules]: "concerns sid (insert_runtime_session be sid p c u)"
  by (simp add: concerns_def insert_runtime_session_def put_runtime_session_def)

lemma concerns_if [concerns_rules]: "concerns sid m \<Longrightarrow> concerns sid n \<Longrightarrow> concerns sid (if c then m else n)"
  by simp

lemma concerns_reconnect: "concerns (ut (ss_session_id rec)) (reconnect_session be ut rec)"
proof -
  let ?sid = "ut (ss_session_id rec)"
  have "\<And>info. concerns ?sid (rt_bind (rt_pty_size (ss_size rec)) (\<lambda>psz.
             rt_bind (rt_backend_call (be_reconnect be ?sid info psz)) (\<lambda>p.
             rt_bind (rt_manager (create_session ?sid)) (\<lambda>_.
             rt_bind (rt_manager (session_resize ?sid (ss_size rec))) (\<lambda>_.
             rt_bind
               (if ss_state rec = Running
                then rt_bind (rt_manager (session_attach ?sid (recovery_device ?sid))) (\<lambda>_.
                       rt_ignore (rt_manager (session_detach ?sid (recovery_device ?sid))))
                else rt_return ()) (\<lambda>_.
             insert_runtime_session be ?sid p (ss_created_at_ms rec) (ss_updated_at_ms rec)))))))"
    by (intro concerns_rules)
  note main = this
  show ?thesis
    unfolding concerns_def reconnect_session_def Let_def
    using concernsD [OF main] by (auto simp: rt_fail_def split: option.splits)
qed

lemma concerns_retries: "concerns (ut (ss_session_id rec)) (reconnect_with_retries be ut rec n)"
  unfolding concerns_def
proof (intro allI impI)
  fix r j assume j: "j \<noteq> ut (ss_session_id rec)"
  show "hm_get (rt_runtime_sessions (snd (reconnect_with_retries be ut rec n r))) j = hm_get (rt_runtime_sessions r) j \<and>
      hm_get (rt_sessions (snd (reconnect_with_retries be ut rec n r))) j = hm_get (rt_sessions r) j"
  proof (induction n arbitrary: r)
    case 0
    then show ?case using concernsD [OF concerns_reconnect [of ut rec be] j, of r]
      by (auto simp: reconnect_with_retries.simps [of be ut rec 0] split: prod.splits sum.splits runtime_error.splits)
  next
    case (Suc n)
    then show ?case using concernsD [OF concerns_reconnect [of ut rec be] j, of r]
      by (auto simp: reconnect_with_retries.simps [of be ut rec "Suc n"] split: prod.splits sum.splits runtime_error.splits)
  qed
qed

section \<open>Recovering the other sessions\<close>

lemma quarantine_view: "k \<noteq> sid \<Longrightarrow> view (snd (quarantine sid diagnostic now db)) k = view db k"
  by (simp add: quarantine_def view_def update_ownership_get)

lemma migrate_view: "k \<noteq> sid \<Longrightarrow> view (migrate_legacy_row env sid i c db) k = view db k"
  by (simp add: migrate_legacy_row_def view_def update_ownership_get)

lemma backfill_view:
  "k \<noteq> cd_uuid_text cd (ss_session_id rec) \<or> hm_get (db_ownership db) k \<noteq> None \<Longrightarrow>
    view (backfill_record cd draw now rec db) k = view db k"
  by (auto simp: backfill_record_def Let_def view_def split: option.splits)

lemma backfill_all_view:
  "hm_get (db_ownership db) k \<noteq> None \<Longrightarrow> view (fold (backfill_record cd draw now) recs db) k = view db k"
proof (induction recs arbitrary: db)
  case Nil
  then show ?case by simp
next
  case (Cons rec recs)
  have "view (backfill_record cd draw now rec db) k = view db k" using Cons.prems by (intro backfill_view) simp
  with Cons show ?case by (simp add: view_def)
qed

definition same_session ::
  "string \<Rightarrow> ('b, 'p, 'a) session_runtime \<Rightarrow> ledger_db \<Rightarrow> ('b, 'p, 'a) session_runtime \<Rightarrow> ledger_db \<Rightarrow> bool" where
  "same_session k r db r' db' \<longleftrightarrow>
     view db' k = view db k \<and> hm_get (rt_runtime_sessions r') k = hm_get (rt_runtime_sessions r) k \<and>
     hm_get (rt_sessions r') k = hm_get (rt_sessions r) k"

lemma reconnect_or_quarantine_frame:
  assumes "k \<noteq> cd_uuid_text cd (ss_session_id rec)"
  shows "\<exists>b r' db'. reconnect_or_quarantine be cd env diagnostic rec r db = (Inr b, r', db') \<and> same_session k r db r' db'"
proof -
  obtain x r' where x: "reconnect_active_with_retry be (cd_uuid_text cd) rec r = (x, r')" by force
  have "hm_get (rt_runtime_sessions r') k = hm_get (rt_runtime_sessions r) k" "hm_get (rt_sessions r') k = hm_get (rt_sessions r) k"
    using concernsD [OF concerns_retries [of "cd_uuid_text cd" rec be 2] assms, of r] x by (simp_all add: reconnect_active_with_retry_def)
  with x quarantine_view [OF assms] show ?thesis
    by (cases x) (auto simp: reconnect_or_quarantine_def same_session_def)
qed

lemma active_evidence_known:
  "hm_get (db_ownership db) sid = Some row \<Longrightarrow> ow_phase row = ''active'' \<Longrightarrow> \<exists>b. active_evidence_matches sid rec db = Inr b"
  by (auto simp: active_evidence_matches_def split: option.splits pty_restore_info.splits pty_supervisor_status.splits)

lemma recover_other_record:
  assumes "k \<noteq> cd_uuid_text cd (ss_session_id rec)"
  shows "\<exists>b r' db'. recover_record be ob cd env rec r db = (Inr b, r', db') \<and> same_session k r db r' db'"
proof -
  let ?sid = "cd_uuid_text cd (ss_session_id rec)"
  have refl: "same_session k r d r d" for d by (simp add: same_session_def)
  have qu: "same_session k r db (r\<lparr>rt_backend := b\<rparr>) (snd (quarantine ?sid diagnostic now db))"
    "same_session k r db r (snd (quarantine ?sid diagnostic now db))" for b diagnostic now
    using quarantine_view [OF assms] by (simp_all add: same_session_def)
  show ?thesis
  proof (cases "hm_get (db_ownership db) ?sid")
    case None
    then show ?thesis using refl by (auto simp: recover_record_def Let_def)
  next
    case (Some row)
    show ?thesis
    proof (cases "ow_phase row = ''active''")
      case True
      then obtain b where "active_evidence_matches ?sid rec db = Inr b" using active_evidence_known [OF Some] by blast
      with True Some qu reconnect_or_quarantine_frame [OF assms] show ?thesis
        by (cases b) (auto simp: recover_record_def Let_def)
    next
      case inactive: False
      show ?thesis
      proof (cases "ow_phase row \<noteq> ''prepared'' \<or> ow_diagnostic row \<noteq> Some ''legacy_migration''")
        case True
        with Some inactive refl show ?thesis by (auto simp: recover_record_def Let_def)
      next
        case False
        show ?thesis
        proof (cases "ss_restore_info rec")
          case None
          with Some inactive False qu show ?thesis by (auto simp: recover_record_def Let_def)
        next
          case info: (Some info)
          obtain x b where x: "ob_install_legacy ob ?sid info (ow_capability row) (rt_backend r) = (x, b)" by force
          show ?thesis
          proof (cases x)
            case (Inl e)
            with Some inactive False info x qu show ?thesis by (auto simp: recover_record_def Let_def)
          next
            case (Inr installed)
            let ?db = "migrate_legacy_row env ?sid installed (restore_is_closing info) db"
            have mig: "view ?db k = view db k" by (rule migrate_view [OF assms])
            show ?thesis
            proof (cases "restore_is_closing info")
              case True
              with Some inactive False info x Inr mig show ?thesis
                by (auto simp: recover_record_def Let_def same_session_def)
            next
              case open_session: False
              obtain b2 r2 db2 where "reconnect_or_quarantine be cd env
                  ''migrated supervisor could not be authenticated and reconnected'' rec (r\<lparr>rt_backend := b\<rparr>) ?db = (Inr b2, r2, db2)"
                "same_session k (r\<lparr>rt_backend := b\<rparr>) ?db r2 db2"
                using reconnect_or_quarantine_frame [OF assms] by blast
              with Some inactive False info x Inr mig open_session show ?thesis
                by (auto simp: recover_record_def Let_def same_session_def)
            qed
          qed
        qed
      qed
    qed
  qed
qed

lemma same_session_trans:
  "same_session k r db r1 db1 \<Longrightarrow> same_session k r1 db1 r2 db2 \<Longrightarrow> same_session k r db r2 db2"
  by (simp add: same_session_def)

lemma recover_other_records:
  assumes "\<forall>rec \<in> set recs. k \<noteq> cd_uuid_text cd (ss_session_id rec)"
  shows "\<exists>active r' db'. recover_loop be ob cd env recs r db = (Inr active, r', db') \<and> same_session k r db r' db'"
  using assms
proof (induction recs arbitrary: r db)
  case Nil
  then show ?case by (simp add: same_session_def)
next
  case (Cons rec recs)
  from Cons.prems obtain b r1 db1 where one: "recover_record be ob cd env rec r db = (Inr b, r1, db1)" "same_session k r db r1 db1"
    using recover_other_record [of k cd rec be ob env r db] by auto
  from Cons.IH [of r1 db1] Cons.prems obtain active r2 db2
    where "recover_loop be ob cd env recs r1 db1 = (Inr active, r2, db2)" "same_session k r1 db1 r2 db2" by auto
  with one same_session_trans show ?case by (simp, blast)
qed

lemma recover_loop_append:
  "recover_loop be ob cd env (xs @ ys) r db =
    (case recover_loop be ob cd env xs r db of
       (Inl e, r1, db1) \<Rightarrow> (Inl e, r1, db1)
     | (Inr a, r1, db1) \<Rightarrow>
         (case recover_loop be ob cd env ys r1 db1 of
            (Inl e, r2, db2) \<Rightarrow> (Inl e, r2, db2)
          | (Inr b, r2, db2) \<Rightarrow> (Inr (a @ b), r2, db2)))"
  by (induction xs arbitrary: r db) (auto split: prod.splits sum.splits)

section \<open>A create that succeeds\<close>

lemma commit_active_success:
  assumes "commit_active cd ok ok_mark sid sz info now db = (Inr (), db')"
  shows "\<exists>row. hm_get (db_ownership db) sid = Some row \<and> ow_phase row = ''prepared'' \<and> hm_get (db_runtime db) sid = None \<and>
    db' = db\<lparr>db_ownership := hm_insert sid (row\<lparr>ow_phase := ''active'', ow_updated_at_ms := unix_timestamp_millis now\<rparr>) (db_ownership db),
             db_runtime := hm_insert sid (runtime_projection cd sz info now) (db_runtime db)\<rparr>"
  using assms
  by (auto simp: commit_active_def sql_def commit_active_tx_def transaction_def update_ownership_def Let_def
      split: if_splits option.splits sum.splits prod.splits)

lemma persist_evidence_effect:
  assumes "persist_evidence env sid (UnixSocket path pid status) db = (written, db')" "hm_get (db_ownership db) sid = Some row"
    and "ow_phase row = ''preparing''"
  shows "db' = db \<and> written \<noteq> Inr () \<or>
    written = Inr () \<and> db' = db\<lparr>db_ownership := hm_insert sid
      (row\<lparr>ow_phase := ''prepared'', ow_supervisor_pid := Some (int pid), ow_socket_path := Some path,
           ow_updated_at_ms := unix_timestamp_millis (ce_now env)\<rparr>) (db_ownership db)\<rparr>"
  using assms
  by (auto simp: persist_evidence_def sql_def record_prepared_def update_ownership_def Let_def
      split: if_splits option.splits sum.splits prod.splits)

definition intent_row :: "create_env \<Rightarrow> u8 list \<Rightarrow> string option \<Rightarrow> ownership_row" where
  "intent_row env gen expected =
     \<lparr>ow_phase = ''preparing'', ow_create_operation_id = ce_create_id env, ow_close_operation_id = None,
      ow_capability = ce_capability env, ow_expected_socket = expected, ow_supervisor_pid = None,
      ow_socket_path = None, ow_created_at_ms = unix_timestamp_millis (ce_now env),
      ow_updated_at_ms = unix_timestamp_millis (ce_now env), ow_diagnostic = None, ow_legacy_protocol = 0,
      ow_owner_generation = Some gen\<rparr>"

lemma create_success:
  fixes be :: "('b, 'p, 'a) pty_backend"
  assumes created: "ownership_create be ob cd gen env sid command sz prepare r db = Some (Inr t, r1, db1)"
    and launch: "ob_launch ob sid command sz (ce_create_id env, ce_capability env) (rt_backend r) =
      (Launch_evidence (UnixSocket path pid Sup_Running), b)"
    and same: "\<And>pty b'. ob_finish ob sid (Inr ()) b = (Inr pty, b') \<Longrightarrow>
      be_restore_info be pty = Some (UnixSocket path pid Sup_Running)"
  shows "\<exists>own row. db1 = db\<lparr>db_ownership := own,
        db_runtime := hm_insert sid (runtime_projection cd sz (UnixSocket path pid Sup_Running) (ce_now env)) (db_runtime db)\<rparr> \<and>
      hm_get own sid = Some row \<and> ow_phase row = ''active'' \<and> ow_socket_path row = Some path \<and>
      ow_supervisor_pid row = Some (int pid) \<and> ow_capability row = ce_capability env"
    and "ps_rows sz \<noteq> 0 \<and> ps_cols sz \<noteq> 0"
proof -
  let ?info = "UnixSocket path pid Sup_Running"
  let ?tsz = "\<lparr>ts_rows = ps_rows sz, ts_cols = ps_cols sz, ts_pixel_width = ps_pixel_width sz, ts_pixel_height = ps_pixel_height sz\<rparr>"
  obtain expected where expected: "ob_expected_socket ob sid = Inr expected"
    using created by (auto simp: ownership_create_def split: sum.splits)
  define db0 where "db0 = db\<lparr>db_ownership := hm_insert sid (intent_row env gen expected) (db_ownership db)\<rparr>"
  have intent: "sql (ce_intent_ok env) (insert_preparing sid (ce_create_id env) (ce_capability env) expected (ce_now env) gen) db = (Inr (), db0)"
    using created expected
    by (auto simp: ownership_create_def sql_def insert_preparing_def db0_def intent_row_def split: if_splits)
  obtain written db2 where written: "persist_evidence env sid ?info db0 = (written, db2)" by force
  obtain res b2 where res: "ob_finish ob sid written b = (res, b2)" by force
  have spawn: "spawn_named_gated ob env sid command sz (rt_backend r) db0 = (res, b2, db2)"
    by (simp add: spawn_named_gated_def launch written res)
  obtain pty where pty: "res = Inr pty"
    using created expected intent spawn by (cases res) (simp_all add: ownership_create_def)
  obtain info where info: "be_restore_info be pty = Some info"
    using created expected intent spawn pty
    by (cases "be_restore_info be pty") (auto simp: ownership_create_def fail_pre_active_def)
  obtain r2 where r2: "publish_owned_session be sid pty ?tsz (ce_now env) (r\<lparr>rt_backend := b2\<rparr>) = Some r2"
    using created expected intent spawn pty info
    by (cases "publish_owned_session be sid pty ?tsz (ce_now env) (r\<lparr>rt_backend := b2\<rparr>)") (auto simp: ownership_create_def)
  obtain r3 where r3: "prepare r2 = (Inr t, r3)" and
    commit: "commit_active cd (ce_commit_ok env) (ce_mark_ok env) sid sz info (ce_now env) db2 = (Inr (), db1)"
    using created expected intent spawn pty info r2
    by (auto simp: ownership_create_def fail_pre_active_def split: prod.splits sum.splits)
  have row0: "hm_get (db_ownership db0) sid = Some (intent_row env gen expected)" "ow_phase (intent_row env gen expected) = ''preparing''"
    by (simp_all add: db0_def intent_row_def)
  obtain row where row: "hm_get (db_ownership db2) sid = Some row" "ow_phase row = ''prepared''"
    and db1: "db1 = db2\<lparr>db_ownership := hm_insert sid (row\<lparr>ow_phase := ''active'', ow_updated_at_ms := unix_timestamp_millis (ce_now env)\<rparr>) (db_ownership db2),
             db_runtime := hm_insert sid (runtime_projection cd sz info (ce_now env)) (db_runtime db2)\<rparr>"
    using commit_active_success [OF commit] by blast
  have "db2 \<noteq> db0" using row row0 by auto
  then have recorded: "written = Inr ()" "db2 = db0\<lparr>db_ownership := hm_insert sid
      ((intent_row env gen expected)\<lparr>ow_phase := ''prepared'', ow_supervisor_pid := Some (int pid), ow_socket_path := Some path,
           ow_updated_at_ms := unix_timestamp_millis (ce_now env)\<rparr>) (db_ownership db0)\<rparr>"
    using persist_evidence_effect [OF written row0] by auto
  have "info = ?info" using same res recorded(1) pty info by auto
  then show "\<exists>own row. db1 = db\<lparr>db_ownership := own,
        db_runtime := hm_insert sid (runtime_projection cd sz ?info (ce_now env)) (db_runtime db)\<rparr> \<and>
      hm_get own sid = Some row \<and> ow_phase row = ''active'' \<and> ow_socket_path row = Some path \<and>
      ow_supervisor_pid row = Some (int pid) \<and> ow_capability row = ce_capability env"
    using row(1) unfolding db1 recorded(2) db0_def by (auto simp: intent_row_def)
  show "ps_rows sz \<noteq> 0 \<and> ps_cols sz \<noteq> 0"
    using r2 by (auto simp: publish_owned_session_def rt_bind_def rt_manager_def session_resize_def terminal_size_is_valid_def
        split: if_splits prod.splits sum.splits)
qed

section \<open>The restart\<close>

lemma loaded_ids_distinct:
  assumes "codecs_ok cd" "db_ok cd db" "load_sqlite_state cd db = Inr st"
  shows "distinct (map ss_session_id (ds_sessions st))"
proof -
  let ?es = "sort_key (\<lambda>e. (rr_created_at_ms (snd e), fst e)) (db_runtime db)"
  have wf: "hm_wf (db_runtime db)" using assms(2) by (simp add: db_ok_def sessions_ok_def)
  have "list_all2 (\<lambda>e s. session_of_row cd e = Inr s) ?es (ds_sessions st)"
    using assms(3) unfolding collect_rows_Inr_iff [symmetric]
    by (auto simp: load_sqlite_state_def res_bind_def sqlite_error_def split: sum.splits)
  then have "list_all2 (\<lambda>e s. fst e = cd_uuid_text cd (ss_session_id s)) ?es (ds_sessions st)"
  proof (rule list.rel_mono_strong)
    fix e s assume e: "e \<in> set ?es" and s: "session_of_row cd e = Inr s"
    then have "hm_get (db_runtime db) (fst e) = Some (snd e)" using hm_entry_get [OF wf, of "fst e" "snd e"] by simp
    then have "runtime_row_ok cd (fst e) (snd e)"
      using assms(2) unfolding db_ok_def sessions_ok_def by (blast dest: hm.all_valuesD)
    then obtain u where u: "fst e = cd_uuid_text cd u" by (auto simp: runtime_row_ok_def)
    have "cd_uuid_parse cd (fst e) = Some (ss_session_id s)" using read_session_state(2) [of cd "fst e" "snd e" s] s by simp
    with u assms(1) show "fst e = cd_uuid_text cd (ss_session_id s)" by simp
  qed
  then have "map fst ?es = map (\<lambda>s. cd_uuid_text cd (ss_session_id s)) (ds_sessions st)"
    by (induction rule: list_all2_induct) auto
  moreover have "distinct (map fst ?es)" using wf by (simp add: distinct_map)
  ultimately have "distinct (map (cd_uuid_text cd) (map ss_session_id (ds_sessions st)))" by (simp add: comp_def)
  then show ?thesis unfolding distinct_map by (auto dest: inj_on_imageI2)
qed

lemma db_ok_ownership [simp]: "db_ok cd (db\<lparr>db_ownership := own\<rparr>) = db_ok cd db"
proof -
  have meta: "read_meta_value key (db\<lparr>db_ownership := own\<rparr>) = read_meta_value key db" for key
    by (simp add: read_meta_value_def)
  have "load_identity cd (db\<lparr>db_ownership := own\<rparr>) = load_identity cd db" by (rule load_identity_cong [OF meta])
  then show ?thesis by (simp add: db_ok_def sessions_ok_def version_ok_def meta sqlite_state_has_content_def)
qed

lemma projection_read:
  assumes "codecs_ok cd" "ps_rows sz \<le> u16_max" "ps_cols sz \<le> u16_max" "ps_pixel_width sz \<le> u16_max" "ps_pixel_height sz \<le> u16_max"
  shows "session_of_row cd (cd_uuid_text cd u, runtime_projection cd sz info now) =
    Inr \<lparr>ss_session_id = u, ss_state = Running,
         ss_size = \<lparr>ts_rows = ps_rows sz, ts_cols = ps_cols sz, ts_pixel_width = ps_pixel_width sz, ts_pixel_height = ps_pixel_height sz\<rparr>,
         ss_created_at_ms = min now (2 ^ 63 - 1), ss_updated_at_ms = min now (2 ^ 63 - 1), ss_restore_info = Some info\<rparr>"
proof -
  obtain k v where kv: "serialize_restore_info cd (Some info) = (k, v)" by force
  with restore_info_roundtrip [OF assms(1), of "Some info"] have "parse_restore_info cd k v = Inr (Some info)" by simp
  moreover have "integer_to_timestamp (unix_timestamp_millis now) c = Inr (min now (2 ^ 63 - 1))" for c
    by (simp add: integer_to_timestamp_def unix_timestamp_millis_def)
  ultimately show ?thesis
    using assms kv
    by (simp add: session_of_row_def runtime_projection_def parse_uuid_column_def parse_session_state_def)
qed

lemma recover_active_record:
  assumes "hm_get (db_ownership db) sid = Some row" "sid = cd_uuid_text cd (ss_session_id rec)"
    and "ow_phase row = ''active''" "ow_socket_path row = Some path" "ow_supervisor_pid row = Some (int pid)"
    and "ss_restore_info rec = Some (UnixSocket path pid Sup_Running)" "ss_state rec = Running"
    and "hm_get (rt_runtime_sessions r) sid = None" "hm_get (rt_sessions r) sid = None"
    and "terminal_size_to_pty_size (ss_size rec) = Inr psz"
    and "be_reconnect be sid (UnixSocket path pid Sup_Running) psz (rt_backend r) = (Inr p, b)"
  shows "\<exists>r' s. recover_record be ob cd env rec r db = (Inr True, r', db) \<and> hm_get (rt_runtime_sessions r') sid = Some s"
proof -
  have matches: "active_evidence_matches sid rec db = Inr True"
    using assms(1,3-6) by (simp add: active_evidence_matches_def)
  obtain m r' where rc: "reconnect_session be (cd_uuid_text cd) rec r = (Inr (), r')"
    "rt_runtime_sessions r' = hm_insert sid
      (runtime_session_new (configure_activity_signal be sid r p) (ss_created_at_ms rec) (ss_updated_at_ms rec)) (rt_runtime_sessions r)"
    by (rule reconnect_fresh [where uuid_text = "cd_uuid_text cd" and rec = rec and be = be and r = r, OF assms(8,9,2) _ assms(6,10,11)])
      (simp_all add: assms(7))
  then have "reconnect_active_with_retry be (cd_uuid_text cd) rec r = (Inr (), r')"
    by (simp add: reconnect_active_with_retry_def reconnect_with_retries.simps)
  with matches assms(1-3) rc(2) show ?thesis
    by (simp add: recover_record_def Let_def reconnect_or_quarantine_def)
qed

text \<open>
  C26. A session whose creation was acknowledged is there after the daemon has stopped and at once started again,
  whatever other sessions are recovered with it: the loaded state has its record, the recovery takes
  it for active and reconnects it with the evidence of its supervisor, if the supervisor answers.
\<close>

theorem created_session_survives_restart:
  fixes be :: "('b, 'p, 'a) pty_backend"
  assumes codecs: "codecs_ok cd" and db: "db_ok cd db" "read_meta_value meta_state_schema_version db \<noteq> None"
    and created: "ownership_create be ob cd gen env (cd_uuid_text cd u) command sz prepare r db = Some (Inr t, r1, db1)"
    and launch: "ob_launch ob (cd_uuid_text cd u) command sz (ce_create_id env, ce_capability env) (rt_backend r) =
      (Launch_evidence (UnixSocket path pid Sup_Running), b)"
    and same: "\<And>pty b'. ob_finish ob (cd_uuid_text cd u) (Inr ()) b = (Inr pty, b') \<Longrightarrow>
      be_restore_info be pty = Some (UnixSocket path pid Sup_Running)"
    and size: "ps_rows sz \<le> u16_max" "ps_cols sz \<le> u16_max" "ps_pixel_width sz \<le> u16_max" "ps_pixel_height sz \<le> u16_max"
    and answers: "\<And>psz b. \<exists>p b'. be_reconnect be (cd_uuid_text cd u) (UnixSocket path pid Sup_Running) psz b = (Inr p, b')"
    and fresh: "rt_runtime_sessions r0 = []" "rt_sessions r0 = []"
  shows "\<exists>st rec active r2 db2 s. state_load cd now file' db1 = (Inr st, db1) \<and> rec \<in> set (ds_sessions st) \<and> ss_session_id rec = u \<and>
    ownership_recover be ob cd renv (ds_sessions st) r0 db1 = (Inr active, r2, db2) \<and> rec \<in> set active \<and>
    hm_get (rt_runtime_sessions r2) (cd_uuid_text cd u) = Some s"
proof -
  let ?sid = "cd_uuid_text cd u" and ?info = "UnixSocket path pid Sup_Running"
  obtain own row where db1: "db1 = db\<lparr>db_ownership := own, db_runtime := hm_insert ?sid (runtime_projection cd sz ?info (ce_now env)) (db_runtime db)\<rparr>"
    and row: "hm_get own ?sid = Some row" "ow_phase row = ''active''" "ow_socket_path row = Some path" "ow_supervisor_pid row = Some (int pid)"
  proof -
    have "\<exists>own row. db1 = db\<lparr>db_ownership := own, db_runtime := hm_insert ?sid (runtime_projection cd sz ?info (ce_now env)) (db_runtime db)\<rparr> \<and>
      hm_get own ?sid = Some row \<and> ow_phase row = ''active'' \<and> ow_socket_path row = Some path \<and>
      ow_supervisor_pid row = Some (int pid) \<and> ow_capability row = ce_capability env"
      by (rule create_success(1) [OF created launch]) (rule same)
    then show ?thesis using that by blast
  qed
  have nonzero: "ps_rows sz \<noteq> 0 \<and> ps_cols sz \<noteq> 0"
    by (rule create_success(2) [OF created launch]) (rule same)
  obtain rec where rec: "session_of_row cd (?sid, runtime_projection cd sz ?info (ce_now env)) = Inr rec" "ss_session_id rec = u"
    "ss_state rec = Running" "ss_restore_info rec = Some ?info" "ts_rows (ss_size rec) \<noteq> 0" "ts_cols (ss_size rec) \<noteq> 0"
    using projection_read [OF codecs size, of u ?info "ce_now env"] nonzero by auto
  let ?db = "db\<lparr>db_ownership := own\<rparr>"
  have rt: "sessions_ok cd ?db" using db(1) by (simp add: db_ok_def sessions_ok_def)
  note ins = runtime_ok_insert [OF codecs rt rec(1)]
  have ok: "db_ok cd db1"
    unfolding db1 using db ins(1) by (intro db_ok_runtime) (auto simp: read_meta_value_def)
  have "sessions_of cd db1 u = Some rec"
    using ins(2) unfolding db1 by simp
  obtain st where st: "load_sqlite_state cd db1 = Inr st" using load_ok [OF codecs ok] by blast
  have mem: "rec \<in> set (ds_sessions st)" using loaded_sessions [OF codecs ok st, of rec] rec(2) \<open>sessions_of cd db1 u = Some rec\<close> by simp
  have load: "state_load cd now file' db1 = (Inr st, db1)"
    unfolding state_load_def with_state_db_ok [OF ok] st using mem by auto
  from mem obtain pre post where split: "ds_sessions st = pre @ rec # post" by (meson split_list)
  have others: "\<forall>x \<in> set pre. ?sid \<noteq> cd_uuid_text cd (ss_session_id x)" "\<forall>x \<in> set post. ?sid \<noteq> cd_uuid_text cd (ss_session_id x)"
    using loaded_ids_distinct [OF codecs ok st] rec(2) codecs unfolding split by force+
  define dbb where "dbb = snd (backfill_legacy_records cd (rv_draw renv) (rv_now renv) (ds_sessions st) db1)"
  have "view dbb ?sid = view db1 ?sid"
    unfolding dbb_def backfill_legacy_records_def using row(1) by (simp add: backfill_all_view db1)
  then have rowb: "hm_get (db_ownership dbb) ?sid = Some row" using row(1) by (simp add: view_def db1)
  obtain a1 ra dba where one: "recover_loop be ob cd renv pre r0 dbb = (Inr a1, ra, dba)" "same_session ?sid r0 dbb ra dba"
    using recover_other_records [OF others(1)] by blast
  obtain psz where psz: "terminal_size_to_pty_size (ss_size rec) = Inr psz"
    using rec(5,6) by (simp add: terminal_size_to_pty_size_def)
  obtain p b' where p: "be_reconnect be ?sid ?info psz (rt_backend ra) = (Inr p, b')" using answers by blast
  have rowa: "hm_get (db_ownership dba) ?sid = Some row" "hm_get (rt_runtime_sessions ra) ?sid = None" "hm_get (rt_sessions ra) ?sid = None"
    using one(2) rowb fresh by (simp_all add: same_session_def view_def)
  obtain rb s where two: "recover_record be ob cd renv rec ra dba = (Inr True, rb, dba)" "hm_get (rt_runtime_sessions rb) ?sid = Some s"
    using recover_active_record [where cd = cd and be = be and ob = ob and env = renv, OF rowa(1) _ row(2-4) rec(4,3) rowa(2,3) psz p] rec(2) by auto
  obtain a3 rc dbc where three: "recover_loop be ob cd renv post rb dba = (Inr a3, rc, dbc)" "same_session ?sid rb dba rc dbc"
    using recover_other_records [OF others(2)] by blast
  have "ownership_recover be ob cd renv (ds_sessions st) r0 db1 = (Inr (a1 @ rec # a3), rc, dbc)"
    unfolding ownership_recover_def dbb_def [symmetric] unfolding split recover_loop_append
    by (simp add: one(1) two(1) three(1))
  moreover have "hm_get (rt_runtime_sessions rc) ?sid = Some s" using three(2) two(2) by (simp add: same_session_def)
  ultimately show ?thesis using load mem rec(2) by auto
qed

text \<open>The first session of a daemon whose database holds nothing but its version.\<close>

definition versioned_ledger :: ledger_db where
  "versioned_ledger = write_sqlite_state_version 1 (example_ledger\<lparr>db_ownership := []\<rparr>)"

definition working_launcher :: "(unit, u8 list \<times> bool) ownership_backend" where
  "working_launcher =
     broken_launcher\<lparr>ob_launch := (\<lambda>sid command sz grant b. (Launch_evidence (UnixSocket ''sock'' 7 Sup_Running), b)),
       ob_finish := (\<lambda>sid persisted b. (map_sum id (\<lambda>_. ([], True)) persisted, b))\<rparr>"

definition example_recover :: recover_env where
  "example_recover = \<lparr>rv_draw = (\<lambda>sid. ([3], [4])), rv_close_draw = (\<lambda>sid. 5), rv_now = 9\<rparr>"

lemma versioned_ledger_ok: "db_ok cd versioned_ledger" "read_meta_value meta_state_schema_version versioned_ledger \<noteq> None"
proof -
  have "parse_unsigned u32_max (dec state_schema_version) = Some state_schema_version"
    by (simp add: state_schema_version_def u32_max_def)
  then show "db_ok cd versioned_ledger"
    by (simp add: versioned_ledger_def example_ledger_def write_sqlite_state_version_def upsert_meta_value_def db_ok_def
        sessions_ok_def version_ok_def load_identity_def read_meta_value_def meta_state_schema_version_def meta_server_id_def
        meta_daemon_public_key_def hm.all_values_def)
  show "read_meta_value meta_state_schema_version versioned_ledger \<noteq> None"
    by (simp add: versioned_ledger_def write_sqlite_state_version_def upsert_meta_value_def read_meta_value_def)
qed

lemma example_created:
  "\<exists>r1 db1. ownership_create demo_backend working_launcher unary_codecs [9] example_create (cd_uuid_text unary_codecs 3) example_command
      example_size (\<lambda>r. (Inr (), r)) (runtime_from_shared_backend ()) versioned_ledger = Some (Inr (), r1, db1)"
  by (simp add: ownership_create_def working_launcher_def broken_launcher_def example_create_def sql_def insert_preparing_def
      versioned_ledger_def example_ledger_def write_sqlite_state_version_def upsert_meta_value_def spawn_named_gated_def
      persist_evidence_def record_prepared_def update_ownership_def demo_backend_def publish_owned_session_def
      runtime_from_shared_backend_def example_size_def rt_eval commit_active_def commit_active_tx_def transaction_def Let_def)

theorem created_session_survives_restart_witness:
  "\<exists>r1 db1 st rec active r2 db2 s. ownership_create demo_backend working_launcher unary_codecs [9] example_create
      (cd_uuid_text unary_codecs 3) example_command example_size (\<lambda>r. (Inr (), r)) (runtime_from_shared_backend ()) versioned_ledger =
      Some (Inr (), r1, db1) \<and> state_load unary_codecs 9 Legacy_absent db1 = (Inr st, db1) \<and> ss_session_id rec = 3 \<and>
    ownership_recover demo_backend working_launcher unary_codecs example_recover (ds_sessions st) (runtime_from_shared_backend ()) db1 =
      (Inr active, r2, db2) \<and> rec \<in> set active \<and> hm_get (rt_runtime_sessions r2) (cd_uuid_text unary_codecs 3) = Some s"
proof -
  obtain r1 db1 where created: "ownership_create demo_backend working_launcher unary_codecs [9] example_create
      (cd_uuid_text unary_codecs 3) example_command example_size (\<lambda>r. (Inr (), r)) (runtime_from_shared_backend ()) versioned_ledger =
      Some (Inr (), r1, db1)"
    using example_created by blast
  have "\<exists>st rec active r2 db2 s. state_load unary_codecs 9 Legacy_absent db1 = (Inr st, db1) \<and> rec \<in> set (ds_sessions st) \<and>
      ss_session_id rec = 3 \<and> ownership_recover demo_backend working_launcher unary_codecs example_recover (ds_sessions st)
        (runtime_from_shared_backend ()) db1 = (Inr active, r2, db2) \<and>
      rec \<in> set active \<and> hm_get (rt_runtime_sessions r2) (cd_uuid_text unary_codecs 3) = Some s"
    by (rule created_session_survives_restart [OF unary_codecs_ok versioned_ledger_ok created,
          where path = "''sock''" and pid = 7 and b = "()"])
      (auto simp: working_launcher_def demo_backend_def example_size_def u16_max_def runtime_from_shared_backend_def)
  with created show ?thesis by blast
qed

end
