(* ===== verification/Relay_Pump.thy ===== *)
theory Relay_Pump
  imports Relay_Registry
begin

text \<open>
  The outbound queues of a connection of the relay, \<open>termrelay/src/ws/pipe_pump.rs\<close>: a control queue, a
  data queue with a byte budget, a close signal, and the one task that consumes them, either the writer
  of the WebSocket or the receiver of an HTTP tunnel.

  The tasks run on several threads, so the model is a machine that interleaves them. A step is one
  access to shared memory or one poll of a \<open>select!\<close>; between two steps of a task the other tasks may
  do anything. In particular the compare-and-exchange loop of \<open>try_reserve\<close> is a step for the load and one
  for each exchange, and \<open>release\<close> is a step for the subtraction and one for the notification. What the
  environment decides (a spurious failure of a weak exchange, whether the socket takes a message in
  time, whether the ping timer has fired, the clock) is part of the action. The writer holds a
  \<open>FrameSender\<close> itself, so its \<open>recv\<close> never returns \<open>None\<close>. A call runs until it
  returns; what a caller that drops the future of a send leaves behind is shown at the end of \<open>Relay_Flow\<close>.
\<close>

section \<open>Messages\<close>

datatype relay_outbound = Out_Frame opaque_frame | Out_Pong "u8 list" | Out_Close

fun queued_data_bytes :: "relay_outbound \<Rightarrow> usize" where
  "queued_data_bytes (Out_Frame f) = frame_len f"
| "queued_data_bytes (Out_Pong payload) = 0"
| "queued_data_bytes Out_Close = 0"

datatype ws_message = Ws_Text "u8 list" | Ws_Binary "u8 list" | Ws_Ping "u8 list" | Ws_Pong "u8 list" | Ws_Close

fun message_of_frame :: "opaque_frame \<Rightarrow> ws_message" where
  "message_of_frame (FText v) = Ws_Text v"
| "message_of_frame (FBinary v) = Ws_Binary v"

fun prepare_relay_outbound :: "relay_outbound \<Rightarrow> ws_message" where
  "prepare_relay_outbound (Out_Frame f) = message_of_frame f"
| "prepare_relay_outbound (Out_Pong payload) = Ws_Pong payload"
| "prepare_relay_outbound Out_Close = Ws_Close"

datatype relay_write_result = Write_Sent | Write_Closed | Write_Failed

text \<open>\<open>ok\<close>: the socket takes the message before the deadline.\<close>

fun send_relay_outbound :: "bool \<Rightarrow> relay_outbound \<Rightarrow> relay_write_result" where
  "send_relay_outbound ok (Out_Frame f) = (if ok then Write_Sent else Write_Failed)"
| "send_relay_outbound ok (Out_Pong payload) = (if ok then Write_Sent else Write_Failed)"
| "send_relay_outbound ok Out_Close = Write_Closed"

definition write_relay_outbound_and_report :: "bool \<Rightarrow> relay_outbound \<Rightarrow> bool" where
  "write_relay_outbound_and_report ok m \<longleftrightarrow> send_relay_outbound ok m = Write_Sent"

definition websocket_idle_ping_interval :: nat where
  "websocket_idle_ping_interval = 10000"

definition websocket_idle_ping_due :: "instant \<Rightarrow> instant \<Rightarrow> bool" where
  "websocket_idle_ping_due now last_write_at \<longleftrightarrow> now - last_write_at \<ge> websocket_idle_ping_interval"

section \<open>The byte budget\<close>

record data_queue_byte_budget =
  bb_limit :: usize
  bb_queued :: usize

definition budget_new :: "usize \<Rightarrow> data_queue_byte_budget" where
  "budget_new limit = \<lparr>bb_limit = limit, bb_queued = 0\<rparr>"

definition exceeds_limit :: "usize \<Rightarrow> data_queue_byte_budget \<Rightarrow> bool" where
  "exceeds_limit bytes b \<longleftrightarrow> bytes > bb_limit b"

text \<open>
  One round of the loop of \<open>try_reserve\<close> with the value \<open>cur\<close> that the task has seen: the answer, or the value
  for the next round.
\<close>

datatype reserve_round = Reserve_done bool | Reserve_again usize

definition try_reserve_round ::
  "bool \<Rightarrow> usize \<Rightarrow> usize \<Rightarrow> data_queue_byte_budget \<Rightarrow> reserve_round \<times> data_queue_byte_budget" where
  "try_reserve_round spurious bytes cur b =
     (if cur + bytes > u64_max then (Reserve_done False, b)
      else if cur + bytes > bb_limit b then (Reserve_done False, b)
      else if bb_queued b = cur \<and> \<not> spurious then (Reserve_done True, b\<lparr>bb_queued := cur + bytes\<rparr>)
      else (Reserve_again (bb_queued b), b))"

definition release_bytes :: "usize \<Rightarrow> data_queue_byte_budget \<Rightarrow> data_queue_byte_budget" where
  "release_bytes bytes b = b\<lparr>bb_queued := bb_queued b - bytes\<rparr>"

section \<open>The state\<close>

text \<open>
  A call of \<open>send_data\<close> (\<open>waits\<close>) or of \<open>try_send_data\<close>. The flag of a registered waiter says whether a
  notification has reached it.
\<close>

datatype send_task =
    Enter relay_outbound bool
  | Enabling relay_outbound
  | Loading relay_outbound bool bool
  | Exchanging relay_outbound bool bool usize
  | Sleeping relay_outbound bool
  | Reserved relay_outbound bool
  | Releasing relay_outbound data_send
  | Notifying data_send
  | Returned data_send

datatype pump_channel = Control_channel | Data_channel

datatype consumer_phase =
    Selecting
  | Data_taken relay_outbound
  | Data_released relay_outbound
  | Writing pump_channel relay_outbound
  | Pinging
  | Finished

record pump =
  pu_control :: "relay_outbound list"
  pu_control_capacity :: usize
  pu_data :: "relay_outbound list"
  pu_data_capacity :: usize
  pu_budget :: data_queue_byte_budget
  pu_close_signal :: bool
  pu_receivers :: bool
  pu_tunnel :: bool
  pu_consumer :: consumer_phase
  pu_prefer_data_once :: bool
  pu_last_write_at :: instant
  pu_idle_ping_nonce :: u64
  pu_tasks :: "send_task list"

definition data_channel_capacity :: usize where
  "data_channel_capacity = 32 * 1024"

definition data_channel_byte_budget :: usize where
  "data_channel_byte_budget = 16 * 1024 * 1024"

definition control_channel_capacity :: usize where
  "control_channel_capacity = 256"

definition channel_with_capacities :: "usize \<Rightarrow> usize \<Rightarrow> bool \<Rightarrow> instant \<Rightarrow> pump" where
  "channel_with_capacities control_capacity data_capacity tunnel now =
     \<lparr>pu_control = [], pu_control_capacity = control_capacity, pu_data = [], pu_data_capacity = data_capacity,
      pu_budget = budget_new data_channel_byte_budget, pu_close_signal = False, pu_receivers = True,
      pu_tunnel = tunnel, pu_consumer = Selecting, pu_prefer_data_once = False, pu_last_write_at = now,
      pu_idle_ping_nonce = 0, pu_tasks = []\<rparr>"

definition pipe_pump_new :: "usize \<Rightarrow> bool \<Rightarrow> instant \<Rightarrow> pump" where
  "pipe_pump_new data_capacity = channel_with_capacities control_channel_capacity data_capacity"

text \<open>What the outside sees: messages entering a queue, leaving it, and reaching the socket or the tunnel.\<close>

datatype pump_event =
    Enqueued pump_channel relay_outbound
  | Dequeued pump_channel relay_outbound
  | Passed pump_channel relay_outbound
  | Pinged u64

section \<open>Sending\<close>

text \<open>\<open>notify_waiters\<close> reaches the waiters that are registered now, and no later one.\<close>

fun wake :: "send_task \<Rightarrow> send_task" where
  "wake (Loading m w n) = Loading m w True"
| "wake (Exchanging m w n cur) = Exchanging m w True cur"
| "wake (Sleeping m n) = Sleeping m True"
| "wake t = t"

definition notify_waiters :: "pump \<Rightarrow> pump" where
  "notify_waiters p = p\<lparr>pu_tasks := map wake (pu_tasks p)\<rparr>"

definition goto :: "nat \<Rightarrow> send_task \<Rightarrow> pump \<Rightarrow> (pump_event list \<times> pump) option" where
  "goto i t p = Some ([], p\<lparr>pu_tasks := (pu_tasks p)[i := t]\<rparr>)"

definition accept_data :: "nat \<Rightarrow> relay_outbound \<Rightarrow> pump \<Rightarrow> (pump_event list \<times> pump) option" where
  "accept_data i m p =
     Some ([Enqueued Data_channel m],
           p\<lparr>pu_data := pu_data p @ [m], pu_tasks := (pu_tasks p)[i := Returned DataOk]\<rparr>)"

text \<open>\<open>None\<close>: the task has returned, or it is asleep and nothing it waits for has happened.\<close>

fun task_step :: "bool \<Rightarrow> nat \<Rightarrow> send_task \<Rightarrow> pump \<Rightarrow> (pump_event list \<times> pump) option" where
  "task_step spurious i (Enter m waits) p =
     (if waits then
        (if exceeds_limit (queued_data_bytes m) (pu_budget p) then goto i (Returned BudgetFull) p
         else if \<not> pu_receivers p then goto i (Returned DataClosed) p
         else if queued_data_bytes m = 0 then goto i (Reserved m True) p
         else goto i (Enabling m) p)
      else if queued_data_bytes m = 0 then goto i (Reserved m False) p
      else goto i (Loading m False False) p)"
| "task_step spurious i (Enabling m) p = goto i (Loading m True False) p"
| "task_step spurious i (Loading m w n) p = goto i (Exchanging m w n (bb_queued (pu_budget p))) p"
| "task_step spurious i (Exchanging m w n cur) p =
     (case try_reserve_round spurious (queued_data_bytes m) cur (pu_budget p) of
        (Reserve_done True, b) \<Rightarrow> goto i (Reserved m w) (p\<lparr>pu_budget := b\<rparr>)
      | (Reserve_done False, b) \<Rightarrow> goto i (if w then Sleeping m n else Returned BudgetFull) p
      | (Reserve_again c, b) \<Rightarrow> goto i (Exchanging m w n c) p)"
| "task_step spurious i (Sleeping m n) p =
     (if \<not> pu_receivers p \<or> pu_close_signal p then goto i (Returned DataClosed) p
      else if n then goto i (Enabling m) p else None)"
| "task_step spurious i (Reserved m w) p =
     (if w \<and> pu_close_signal p then goto i (Releasing m DataClosed) p
      else if \<not> pu_receivers p then goto i (Releasing m DataClosed) p
      else if length (pu_data p) < pu_data_capacity p then accept_data i m p
      else if w then None else goto i (Releasing m BudgetFull) p)"
| "task_step spurious i (Releasing m r) p =
     (if queued_data_bytes m = 0 then goto i (Returned r) p
      else goto i (Notifying r) (p\<lparr>pu_budget := release_bytes (queued_data_bytes m) (pu_budget p)\<rparr>))"
| "task_step spurious i (Notifying r) p = goto i (Returned r) (notify_waiters p)"
| "task_step spurious i (Returned r) p = None"

definition try_send_control :: "relay_outbound \<Rightarrow> pump \<Rightarrow> try_send \<times> pump_event list \<times> pump" where
  "try_send_control m p =
     (if \<not> pu_receivers p \<or> pu_tunnel p then (Closed, [], p)
      else if length (pu_control p) < pu_control_capacity p
      then (Sent, [Enqueued Control_channel m], p\<lparr>pu_control := pu_control p @ [m]\<rparr>)
      else (Full, [], p))"

definition close_endpoint :: "pump \<Rightarrow> pump" where
  "close_endpoint p = p\<lparr>pu_close_signal := True\<rparr>"

definition request_close :: "pump \<Rightarrow> pump_event list \<times> pump" where
  "request_close p = snd (try_send_control Out_Close (close_endpoint p))"

section \<open>The consumer\<close>

text \<open>The end of the writer or of the tunnel drops the receivers and what the queues still hold.\<close>

definition drop_receivers :: "pump \<Rightarrow> pump" where
  "drop_receivers p = p\<lparr>pu_consumer := Finished, pu_receivers := False, pu_control := [], pu_data := []\<rparr>"

definition dequeue_data :: "pump \<Rightarrow> (pump_event list \<times> pump) option" where
  "dequeue_data p =
     (case pu_data p of
        [] \<Rightarrow> None
      | m # rest \<Rightarrow>
          Some ([Dequeued Data_channel m],
                p\<lparr>pu_data := rest, pu_consumer := Data_taken m, pu_prefer_data_once := False\<rparr>))"

definition dequeue_control :: "pump \<Rightarrow> (pump_event list \<times> pump) option" where
  "dequeue_control p =
     (case pu_control p of
        [] \<Rightarrow> None
      | m # rest \<Rightarrow>
          Some ([Dequeued Control_channel m],
                p\<lparr>pu_control := rest, pu_consumer := Writing Control_channel m, pu_prefer_data_once := True\<rparr>))"

text \<open>The last branch of both \<open>select!\<close>s: the timer, if it has fired.\<close>

definition idle_tick :: "bool \<Rightarrow> instant \<Rightarrow> pump \<Rightarrow> (pump_event list \<times> pump) option" where
  "idle_tick tick now p =
     (if \<not> tick then None
      else if websocket_idle_ping_due now (pu_last_write_at p) then Some ([], p\<lparr>pu_consumer := Pinging\<rparr>)
      else Some ([], p))"

definition or_else :: "'a option \<Rightarrow> 'a option \<Rightarrow> 'a option" where
  "or_else a b = (case a of None \<Rightarrow> b | Some x \<Rightarrow> Some x)"

definition writer_select :: "bool \<Rightarrow> instant \<Rightarrow> pump \<Rightarrow> (pump_event list \<times> pump) option" where
  "writer_select tick now p =
     (if pu_close_signal p then Some ([], drop_receivers p)
      else if pu_prefer_data_once p
      then or_else (dequeue_data p) (or_else (dequeue_control p) (idle_tick tick now p))
      else or_else (dequeue_control p) (or_else (dequeue_data p) (idle_tick tick now p)))"

text \<open>After a message has been sent, or could not be sent.\<close>

definition after_write :: "bool \<Rightarrow> instant \<Rightarrow> pump \<Rightarrow> pump" where
  "after_write ok now p =
     (if ok then p\<lparr>pu_consumer := Selecting, pu_last_write_at := now\<rparr>
      else drop_receivers (close_endpoint p))"

fun consumer_step :: "bool \<Rightarrow> bool \<Rightarrow> instant \<Rightarrow> consumer_phase \<Rightarrow> pump \<Rightarrow> (pump_event list \<times> pump) option" where
  "consumer_step tick ok now Selecting p = (if pu_tunnel p then dequeue_data p else writer_select tick now p)"
| "consumer_step tick ok now (Data_taken m) p =
     (if queued_data_bytes m = 0
      then (if pu_tunnel p then Some ([Passed Data_channel m], p\<lparr>pu_consumer := Selecting\<rparr>)
            else Some ([], p\<lparr>pu_consumer := Writing Data_channel m\<rparr>))
      else Some ([], p\<lparr>pu_budget := release_bytes (queued_data_bytes m) (pu_budget p), pu_consumer := Data_released m\<rparr>))"
| "consumer_step tick ok now (Data_released m) p =
     (if pu_tunnel p then Some ([Passed Data_channel m], notify_waiters (p\<lparr>pu_consumer := Selecting\<rparr>))
      else Some ([], notify_waiters (p\<lparr>pu_consumer := Writing Data_channel m\<rparr>)))"
| "consumer_step tick ok now (Writing ch m) p =
     Some (if write_relay_outbound_and_report ok m then [Passed ch m] else [],
           after_write (write_relay_outbound_and_report ok m) now p)"
| "consumer_step tick ok now Pinging p =
     (let nonce = wrap_add64 (pu_idle_ping_nonce p) 1; p1 = p\<lparr>pu_idle_ping_nonce := nonce\<rparr> in
      Some (if ok then [Pinged nonce] else [], after_write ok now p1))"
| "consumer_step tick ok now Finished p = None"

text \<open>The consumer can be aborted where it awaits.\<close>

definition abort_consumer :: "pump \<Rightarrow> (pump_event list \<times> pump) option" where
  "abort_consumer p =
     (case pu_consumer p of
        Selecting \<Rightarrow> Some ([], drop_receivers p)
      | Writing ch m \<Rightarrow> Some ([], drop_receivers p)
      | Pinging \<Rightarrow> Some ([], drop_receivers p)
      | _ \<Rightarrow> None)"

section \<open>The machine\<close>

datatype pump_action =
    Call_send relay_outbound bool
  | Step_task nat bool
  | Call_control relay_outbound
  | Call_close
  | Call_request_close
  | Step_consumer bool bool instant
  | Abort

fun exec_pump :: "pump_action \<Rightarrow> pump \<Rightarrow> (pump_event list \<times> pump) option" where
  "exec_pump (Call_send m waits) p = Some ([], p\<lparr>pu_tasks := pu_tasks p @ [Enter m waits]\<rparr>)"
| "exec_pump (Step_task i spurious) p =
     (if i < length (pu_tasks p) then task_step spurious i (pu_tasks p ! i) p else None)"
| "exec_pump (Call_control m) p = Some (snd (try_send_control m p))"
| "exec_pump Call_close p = Some ([], close_endpoint p)"
| "exec_pump Call_request_close p = Some (request_close p)"
| "exec_pump (Step_consumer tick ok now) p = consumer_step tick ok now (pu_consumer p) p"
| "exec_pump Abort p = abort_consumer p"

text \<open>An execution: the events so far and the state.\<close>

inductive pump_run :: "pump \<Rightarrow> pump_event list \<Rightarrow> pump \<Rightarrow> bool" for start where
  pump_run_start: "pump_run start [] start"
| pump_run_step: "pump_run start es p \<Longrightarrow> exec_pump a p = Some (new, p') \<Longrightarrow> pump_run start (es @ new) p'"

text \<open>The same as a function of the schedule; \<open>None\<close> if an action of the schedule is not possible.\<close>

primrec run_pump :: "pump_action list \<Rightarrow> pump \<Rightarrow> (pump_event list \<times> pump) option" where
  "run_pump [] p = Some ([], p)"
| "run_pump (a # as) p =
     (case exec_pump a p of
        None \<Rightarrow> None
      | Some (new, p') \<Rightarrow> (case run_pump as p' of None \<Rightarrow> None | Some (es, q) \<Rightarrow> Some (new @ es, q)))"

lemma run_pump_continues:
  "run_pump as p = Some (new, q) \<Longrightarrow> pump_run start es p \<Longrightarrow> pump_run start (es @ new) q"
proof (induction as arbitrary: p es new)
  case (Cons a as)
  then show ?case
    by (auto split: option.splits) (metis append.assoc pump_run_step)
qed simp

lemma run_pump_sound: "run_pump as p = Some (es, q) \<Longrightarrow> pump_run p es q"
  using run_pump_continues [OF _ pump_run_start] by fastforce

end
