(* ===== verification/Relay_Flow.thy ===== *)
theory Relay_Flow
  imports Relay_Pump "HOL-Library.Sublist"
begin

text \<open>
  What the queues of theory \<open>Relay_Pump\<close> guarantee under every interleaving: the byte counter is exact and
  stays below the budget, no sender sleeps through the release it waits for, messages keep their order,
  and the writer alternates between the two queues.
\<close>

section \<open>The byte counter\<close>

fun held :: "send_task \<Rightarrow> nat" where
  "held (Reserved m w) = queued_data_bytes m"
| "held (Releasing m r) = queued_data_bytes m"
| "held _ = 0"

fun consumer_held :: "consumer_phase \<Rightarrow> nat" where
  "consumer_held (Data_taken m) = queued_data_bytes m"
| "consumer_held _ = 0"

abbreviation total_held :: "send_task list \<Rightarrow> nat" where
  "total_held ts \<equiv> sum_list (map held ts)"

abbreviation total_bytes :: "relay_outbound list \<Rightarrow> nat" where
  "total_bytes ms \<equiv> sum_list (map queued_data_bytes ms)"

lemma sum_update:
  fixes f :: "'a \<Rightarrow> nat"
  shows "i < length ts \<Longrightarrow> sum_list (map f (ts[i := t])) + f (ts ! i) = sum_list (map f ts) + f t"
proof (induction ts arbitrary: i)
  case (Cons a ts)
  then show ?case by (cases i) (simp_all add: algebra_simps)
qed simp

lemmas total_held_update = sum_update [where f = held]

lemma held_le_total: "i < length ts \<Longrightarrow> held (ts ! i) \<le> total_held ts"
  by (metis elem_le_sum_list length_map nth_map)

lemma total_held_pos: "total_held ts \<noteq> 0 \<Longrightarrow> \<exists>t \<in> set ts. 0 < held t"
  by (induction ts) auto

lemma held_wake [simp]: "held (wake t) = held t"
  by (cases t) simp_all

lemma total_held_wake [simp]: "sum_list (map (held \<circ> wake) ts) = total_held ts"
  by (simp add: comp_def)

definition budget_inv :: "pump \<Rightarrow> bool" where
  "budget_inv p \<longleftrightarrow>
     bb_limit (pu_budget p) \<le> u64_max \<and> bb_queued (pu_budget p) \<le> bb_limit (pu_budget p) \<and>
     length (pu_data p) \<le> pu_data_capacity p \<and> pu_receivers p = (pu_consumer p \<noteq> Finished) \<and>
     (if pu_receivers p
      then bb_queued (pu_budget p) = total_bytes (pu_data p) + total_held (pu_tasks p) + consumer_held (pu_consumer p)
      else total_held (pu_tasks p) \<le> bb_queued (pu_budget p))"

lemma budget_inv_goto:
  assumes "budget_inv p" "i < length (pu_tasks p)" "held t = held (pu_tasks p ! i)"
  shows "budget_inv (p\<lparr>pu_tasks := (pu_tasks p)[i := t]\<rparr>)"
  using assms total_held_update [OF assms(2), of t] by (simp add: budget_inv_def)

lemma task_step_budget:
  assumes "budget_inv p" "i < length (pu_tasks p)" "task_step spurious i (pu_tasks p ! i) p = Some (es, p')"
  shows "budget_inv p'"
proof (cases "pu_tasks p ! i")
  case (Exchanging m w n cur)
  consider (stay) t where "p' = p\<lparr>pu_tasks := (pu_tasks p)[i := t]\<rparr>" "held t = 0"
    | (reserve) "p' = p\<lparr>pu_budget := (pu_budget p)\<lparr>bb_queued := bb_queued (pu_budget p) + queued_data_bytes m\<rparr>,
                    pu_tasks := (pu_tasks p)[i := Reserved m w]\<rparr>"
        "bb_queued (pu_budget p) + queued_data_bytes m \<le> bb_limit (pu_budget p)"
    using assms(3) Exchanging by (auto simp: goto_def try_reserve_round_def split: if_splits)
  then show ?thesis
  proof cases
    case stay
    with assms(1,2) Exchanging show ?thesis by (auto intro: budget_inv_goto)
  next
    case reserve
    have "total_held ((pu_tasks p)[i := Reserved m w]) = total_held (pu_tasks p) + queued_data_bytes m"
      using total_held_update [OF assms(2), of "Reserved m w"] Exchanging by simp
    with reserve assms(1) show ?thesis by (auto simp: budget_inv_def split: if_splits)
  qed
next
  case (Reserved m w)
  with assms show ?thesis
    using total_held_update [OF assms(2), of "Returned DataOk"]
    by (auto simp: goto_def accept_data_def intro!: budget_inv_goto split: if_splits) (auto simp: budget_inv_def)
next
  case (Releasing m r)
  then show ?thesis
    using assms total_held_update [OF assms(2), of "Notifying r"] held_le_total [OF assms(2)]
    by (auto simp: goto_def intro!: budget_inv_goto split: if_splits) (auto simp: budget_inv_def release_bytes_def)
next
  case (Notifying r)
  with assms have "budget_inv (notify_waiters p)" by (simp add: budget_inv_def notify_waiters_def)
  moreover have "held (pu_tasks (notify_waiters p) ! i) = held (Returned r)"
    using Notifying assms(2) by (simp add: notify_waiters_def)
  ultimately show ?thesis
    using Notifying assms budget_inv_goto [of "notify_waiters p" i "Returned r"]
    by (auto simp: goto_def notify_waiters_def)
qed (use assms in \<open>auto simp: goto_def intro!: budget_inv_goto split: if_splits\<close>)

lemma drop_receivers_budget: "budget_inv p \<Longrightarrow> budget_inv (drop_receivers p)"
  by (auto simp: budget_inv_def drop_receivers_def split: if_splits)

lemma close_endpoint_budget [simp]: "budget_inv (close_endpoint p) = budget_inv p"
  by (simp add: budget_inv_def close_endpoint_def)

lemma take_data_budget: "budget_inv p \<Longrightarrow> pu_consumer p = Selecting \<Longrightarrow> dequeue_data p = Some (es, p') \<Longrightarrow> budget_inv p'"
  by (auto simp: budget_inv_def dequeue_data_def split: list.splits if_splits)

lemma take_control_budget: "budget_inv p \<Longrightarrow> pu_consumer p = Selecting \<Longrightarrow> dequeue_control p = Some (es, p') \<Longrightarrow> budget_inv p'"
  by (auto simp: budget_inv_def dequeue_control_def split: list.splits if_splits)

lemma idle_tick_budget: "budget_inv p \<Longrightarrow> pu_consumer p = Selecting \<Longrightarrow> idle_tick tick now p = Some (es, p') \<Longrightarrow> budget_inv p'"
  by (auto simp: budget_inv_def idle_tick_def split: if_splits)

lemma or_else_Some: "or_else a b = Some x \<longleftrightarrow> a = Some x \<or> a = None \<and> b = Some x"
  by (cases a) (auto simp: or_else_def)

lemma or_else_None: "or_else a b = None \<longleftrightarrow> a = None \<and> b = None"
  by (cases a) (auto simp: or_else_def)

lemma selecting_cases:
  assumes "consumer_step tick ok now Selecting p = Some (es, p')"
  shows "dequeue_data p = Some (es, p') \<or> dequeue_control p = Some (es, p') \<or> idle_tick tick now p = Some (es, p') \<or>
    es = [] \<and> p' = drop_receivers p"
proof -
  have "pu_tunnel p \<and> dequeue_data p = Some (es, p') \<or> writer_select tick now p = Some (es, p')"
    using assms by (cases "pu_tunnel p") simp_all
  then show ?thesis
    by (cases "pu_close_signal p"; cases "pu_prefer_data_once p") (simp_all add: writer_select_def or_else_Some, blast+)
qed

lemma consumer_step_budget:
  assumes "budget_inv p" "consumer_step tick ok now (pu_consumer p) p = Some (es, p')"
  shows "budget_inv p'"
proof (cases "pu_consumer p")
  case Selecting
  consider "dequeue_data p = Some (es, p')" | "dequeue_control p = Some (es, p')" | "idle_tick tick now p = Some (es, p')"
    | "es = []" "p' = drop_receivers p"
    using selecting_cases assms(2) [unfolded Selecting] by blast
  then show ?thesis
    using take_data_budget take_control_budget idle_tick_budget drop_receivers_budget assms(1) Selecting by cases blast+
next
  case (Data_taken m)
  with assms show ?thesis by (auto simp: budget_inv_def release_bytes_def split: if_splits)
next
  case (Data_released m)
  with assms show ?thesis by (auto simp: budget_inv_def notify_waiters_def split: if_splits)
next
  case (Writing ch m)
  with assms drop_receivers_budget [of "close_endpoint p"] show ?thesis
    by (auto simp: after_write_def) (auto simp: budget_inv_def)
next
  case Pinging
  with assms drop_receivers_budget [of "close_endpoint (p\<lparr>pu_idle_ping_nonce := wrap_add64 (pu_idle_ping_nonce p) 1\<rparr>)"]
  show ?thesis by (auto simp: after_write_def Let_def) (auto simp: budget_inv_def)
next
  case Finished
  with assms show ?thesis by simp
qed

lemma exec_pump_budget:
  assumes "budget_inv p" "exec_pump a p = Some (es, p')"
  shows "budget_inv p'"
proof (cases a)
  case (Step_task i spurious)
  with assms show ?thesis using task_step_budget by (auto split: if_splits)
next
  case (Step_consumer tick ok now)
  with assms show ?thesis using consumer_step_budget by simp
next
  case Abort
  with assms drop_receivers_budget show ?thesis by (auto simp: abort_consumer_def split: consumer_phase.splits)
qed (use assms in \<open>auto simp: budget_inv_def request_close_def try_send_control_def close_endpoint_def split: if_splits\<close>)

lemma new_pump_budget: "budget_inv (pipe_pump_new capacity tunnel now)"
  by (simp add: budget_inv_def pipe_pump_new_def channel_with_capacities_def budget_new_def data_channel_byte_budget_def u64_max_def)

lemma pump_run_budget: "pump_run (pipe_pump_new capacity tunnel now) es p \<Longrightarrow> budget_inv p"
  by (induction rule: pump_run.induct) (auto intro: new_pump_budget exec_pump_budget)

section \<open>No lost wake-up\<close>

fun is_notifying :: "send_task \<Rightarrow> bool" where
  "is_notifying (Notifying r) = True"
| "is_notifying _ = False"

fun consumer_notifies :: "consumer_phase \<Rightarrow> bool" where
  "consumer_notifies (Data_released m) = True"
| "consumer_notifies _ = False"

definition notify_pending :: "pump \<Rightarrow> bool" where
  "notify_pending p \<longleftrightarrow> consumer_notifies (pu_consumer p) \<or> (\<exists>t \<in> set (pu_tasks p). is_notifying t)"

text \<open>
  A waiter without a notification has looked at a counter that has not gone down since; if it sleeps, its
  bytes do not fit.
\<close>

fun watches :: "data_queue_byte_budget \<Rightarrow> send_task \<Rightarrow> bool" where
  "watches b (Exchanging m w n cur) \<longleftrightarrow> \<not> w \<or> n \<or> cur \<le> bb_queued b"
| "watches b (Sleeping m n) \<longleftrightarrow> n \<or> bb_limit b < bb_queued b + queued_data_bytes m"
| "watches b _ \<longleftrightarrow> True"

fun fits :: "usize \<Rightarrow> send_task \<Rightarrow> bool" where
  "fits limit (Enabling m) \<longleftrightarrow> queued_data_bytes m \<le> limit"
| "fits limit (Loading m w n) \<longleftrightarrow> w \<longrightarrow> queued_data_bytes m \<le> limit"
| "fits limit (Exchanging m w n cur) \<longleftrightarrow> w \<longrightarrow> queued_data_bytes m \<le> limit"
| "fits limit (Sleeping m n) \<longleftrightarrow> queued_data_bytes m \<le> limit"
| "fits limit _ \<longleftrightarrow> True"

definition wake_inv :: "pump \<Rightarrow> bool" where
  "wake_inv p \<longleftrightarrow>
     (notify_pending p \<or> (\<forall>t \<in> set (pu_tasks p). watches (pu_budget p) t)) \<and>
     (\<forall>t \<in> set (pu_tasks p). fits (bb_limit (pu_budget p)) t)"

lemma watches_wake [simp]: "watches b (wake t)"
  by (cases t) simp_all

lemma fits_wake [simp]: "fits l (wake t) = fits l t"
  by (cases t) simp_all

lemma notify_pending_goto:
  assumes "i < length ts" "\<not> is_notifying (ts ! i)" "\<exists>t \<in> set ts. is_notifying t"
  shows "\<exists>x \<in> set (ts[i := t]). is_notifying x"
proof -
  obtain j where j: "j < length ts" "is_notifying (ts ! j)" using assms(3) by (metis in_set_conv_nth)
  then have "ts[i := t] ! j = ts ! j" using assms(2) by (cases "j = i") auto
  with j show ?thesis by (metis length_list_update nth_mem)
qed

lemma wake_inv_goto:
  assumes "wake_inv p" "i < length (pu_tasks p)" "\<not> is_notifying (pu_tasks p ! i)"
    and "bb_limit b = bb_limit (pu_budget p)" "bb_queued (pu_budget p) \<le> bb_queued b"
    and "notify_pending p \<or> watches b t" "fits (bb_limit b) t"
  shows "wake_inv (p\<lparr>pu_budget := b, pu_tasks := (pu_tasks p)[i := t]\<rparr>)"
proof -
  have mono: "watches (pu_budget p) x \<Longrightarrow> watches b x" for x using assms(4,5) by (cases x) auto
  have sub: "set ((pu_tasks p)[i := t]) \<subseteq> insert t (set (pu_tasks p))" by (rule set_update_subset_insert)
  show ?thesis
  proof (cases "notify_pending p")
    case True
    then have "notify_pending (p\<lparr>pu_budget := b, pu_tasks := (pu_tasks p)[i := t]\<rparr>)"
      using notify_pending_goto [OF assms(2,3)] by (auto simp: notify_pending_def)
    with assms(1,4,7) sub show ?thesis by (auto simp: wake_inv_def)
  next
    case False
    with assms(1,4,6,7) sub mono show ?thesis by (fastforce simp: wake_inv_def)
  qed
qed

lemmas wake_inv_goto_same = wake_inv_goto [where b = "pu_budget p" and p = p for p, simplified]

lemma wake_inv_notified:
  assumes "\<forall>t \<in> set (pu_tasks p). fits (bb_limit (pu_budget p)) t" "watches (pu_budget p) t" "fits (bb_limit (pu_budget p)) t"
  shows "wake_inv (p\<lparr>pu_tasks := (map wake (pu_tasks p))[i := t]\<rparr>)"
  using assms set_update_subset_insert [of "map wake (pu_tasks p)" i t] by (fastforce simp: wake_inv_def)

lemma wake_inv_release:
  assumes "wake_inv p" "bb_limit b = bb_limit (pu_budget p)"
  shows "i < length (pu_tasks p) \<Longrightarrow> wake_inv (p\<lparr>pu_budget := b, pu_tasks := (pu_tasks p)[i := Notifying r]\<rparr>)"
    and "wake_inv (p\<lparr>pu_budget := b, pu_consumer := Data_released m\<rparr>)"
proof -
  assume "i < length (pu_tasks p)"
  then have "Notifying r \<in> set ((pu_tasks p)[i := Notifying r])" by (simp add: set_update_memI)
  then have "\<exists>t \<in> set ((pu_tasks p)[i := Notifying r]). is_notifying t" by (rule bexI [rotated]) simp
  with assms set_update_subset_insert [of "pu_tasks p" i "Notifying r"]
  show "wake_inv (p\<lparr>pu_budget := b, pu_tasks := (pu_tasks p)[i := Notifying r]\<rparr>)"
    by (auto simp: wake_inv_def notify_pending_def)
qed (use assms in \<open>simp add: wake_inv_def notify_pending_def\<close>)

lemma task_step_wake:
  assumes "wake_inv p" "budget_inv p" "i < length (pu_tasks p)" "task_step spurious i (pu_tasks p ! i) p = Some (es, p')"
  shows "wake_inv p'"
proof (cases "pu_tasks p ! i")
  case (Exchanging m w n cur)
  have t: "pu_tasks p ! i \<in> set (pu_tasks p)" using assms(3) by simp
  then have fit: "w \<Longrightarrow> queued_data_bytes m \<le> bb_limit (pu_budget p)"
    and watch: "notify_pending p \<or> \<not> w \<or> n \<or> cur \<le> bb_queued (pu_budget p)"
    using assms(1) unfolding Exchanging wake_inv_def by force+
  have lim: "bb_limit (pu_budget p) \<le> u64_max" using assms(2) by (simp add: budget_inv_def)
  show ?thesis
  proof (cases "cur + queued_data_bytes m > bb_limit (pu_budget p)")
    case True
    then have "p' = p\<lparr>pu_tasks := (pu_tasks p)[i := if w then Sleeping m n else Returned BudgetFull]\<rparr>"
      using assms(4) unfolding Exchanging by (simp add: goto_def try_reserve_round_def split: if_splits)
    moreover have "notify_pending p \<or> watches (pu_budget p) (if w then Sleeping m n else Returned BudgetFull)"
      using True watch by auto
    ultimately show ?thesis using assms(1,3) Exchanging fit by (auto intro!: wake_inv_goto_same)
  next
    case room: False
    then have "\<not> u64_max < cur + queued_data_bytes m" using lim by linarith
    with room have "p' = p\<lparr>pu_tasks := (pu_tasks p)[i := Exchanging m w n (bb_queued (pu_budget p))]\<rparr> \<or>
        p' = p\<lparr>pu_budget := (pu_budget p)\<lparr>bb_queued := bb_queued (pu_budget p) + queued_data_bytes m\<rparr>,
               pu_tasks := (pu_tasks p)[i := Reserved m w]\<rparr>"
      using assms(4) unfolding Exchanging by (simp add: goto_def try_reserve_round_def split: if_splits)
    then show ?thesis
    proof
      assume "p' = p\<lparr>pu_tasks := (pu_tasks p)[i := Exchanging m w n (bb_queued (pu_budget p))]\<rparr>"
      then show ?thesis using assms(1,3) Exchanging fit by (auto intro!: wake_inv_goto_same)
    next
      assume "p' = p\<lparr>pu_budget := (pu_budget p)\<lparr>bb_queued := bb_queued (pu_budget p) + queued_data_bytes m\<rparr>,
               pu_tasks := (pu_tasks p)[i := Reserved m w]\<rparr>"
      then show ?thesis using assms(1,3) Exchanging by (auto intro!: wake_inv_goto)
    qed
  qed
next
  case (Reserved m w)
  have "wake_inv (p\<lparr>pu_tasks := (pu_tasks p)[i := t]\<rparr>)" if "t = Releasing m r \<or> t = Returned r" for t r
    using that assms(1,3) Reserved by (auto intro: wake_inv_goto_same)
  from this [of "Returned DataOk" DataOk] this [of "Releasing m DataClosed" DataClosed] this [of "Releasing m BudgetFull" BudgetFull]
  show ?thesis using assms(4) Reserved
    by (auto simp: goto_def accept_data_def split: if_splits) (simp_all add: wake_inv_def notify_pending_def)
next
  case (Releasing m r)
  with assms show ?thesis
    by (auto simp: goto_def release_bytes_def intro: wake_inv_goto_same wake_inv_release(1) split: if_splits)
next
  case (Notifying r)
  then have "p' = p\<lparr>pu_tasks := (map wake (pu_tasks p))[i := Returned r]\<rparr>"
    using assms(4) by (simp add: goto_def notify_waiters_def)
  then show ?thesis using assms(1) wake_inv_notified [of p "Returned r" i] by (simp add: wake_inv_def)
next
  case (Sleeping m n)
  have "pu_tasks p ! i \<in> set (pu_tasks p)" using assms(3) by simp
  with Sleeping assms(1) have "queued_data_bytes m \<le> bb_limit (pu_budget p)" by (fastforce simp: wake_inv_def)
  with assms Sleeping show ?thesis by (auto simp: goto_def intro!: wake_inv_goto_same split: if_splits)
next
  case (Enabling m)
  have "pu_tasks p ! i \<in> set (pu_tasks p)" using assms(3) by simp
  with Enabling assms(1) have "queued_data_bytes m \<le> bb_limit (pu_budget p)" by (fastforce simp: wake_inv_def)
  with assms Enabling show ?thesis by (auto simp: goto_def intro!: wake_inv_goto_same)
next
  case (Loading m w n)
  have "pu_tasks p ! i \<in> set (pu_tasks p)" using assms(3) by simp
  with Loading assms(1) have "w \<Longrightarrow> queued_data_bytes m \<le> bb_limit (pu_budget p)" by (fastforce simp: wake_inv_def)
  with assms Loading show ?thesis by (auto simp: goto_def intro!: wake_inv_goto_same)
next
  case (Enter m waits)
  with assms show ?thesis by (auto simp: goto_def exceeds_limit_def intro!: wake_inv_goto_same split: if_splits)
next
  case (Returned r)
  with assms show ?thesis by simp
qed

lemma wake_inv_frame:
  assumes "wake_inv p" "pu_tasks p' = pu_tasks p" "pu_budget p' = pu_budget p"
    and "consumer_notifies (pu_consumer p) \<Longrightarrow> consumer_notifies (pu_consumer p')"
  shows "wake_inv p'"
  using assms by (auto simp: wake_inv_def notify_pending_def)

lemma consumer_step_wake:
  assumes "wake_inv p" "consumer_step tick ok now (pu_consumer p) p = Some (es, p')"
  shows "wake_inv p'"
proof (cases "pu_consumer p")
  case Selecting
  consider "dequeue_data p = Some (es, p')" | "dequeue_control p = Some (es, p')" | "idle_tick tick now p = Some (es, p')"
    | "es = []" "p' = drop_receivers p"
    using selecting_cases assms(2) [unfolded Selecting] by blast
  then have "pu_tasks p' = pu_tasks p" "pu_budget p' = pu_budget p"
    by (cases; auto simp: dequeue_data_def dequeue_control_def idle_tick_def drop_receivers_def split: list.splits if_splits)+
  with Selecting show ?thesis by (intro wake_inv_frame [OF assms(1)]) simp_all
next
  case (Data_taken m)
  with assms show ?thesis
    by (auto simp: release_bytes_def intro: wake_inv_release(2) wake_inv_frame split: if_splits)
next
  case (Data_released m)
  with assms show ?thesis
    by (auto simp: notify_waiters_def wake_inv_def split: if_splits)
next
  case (Writing ch m)
  with assms show ?thesis
    by (intro wake_inv_frame [OF assms(1)]) (auto simp: after_write_def drop_receivers_def close_endpoint_def)
next
  case Pinging
  with assms show ?thesis
    by (intro wake_inv_frame [OF assms(1)]) (auto simp: after_write_def drop_receivers_def close_endpoint_def Let_def)
next
  case Finished
  with assms show ?thesis by simp
qed

lemma exec_pump_wake:
  assumes "wake_inv p" "budget_inv p" "exec_pump a p = Some (es, p')"
  shows "wake_inv p'"
proof (cases a)
  case (Step_task i spurious)
  with assms show ?thesis using task_step_wake by (auto split: if_splits)
next
  case (Step_consumer tick ok now)
  with assms show ?thesis using consumer_step_wake by simp
next
  case Abort
  with assms show ?thesis
    by (intro wake_inv_frame [OF assms(1)]) (auto simp: abort_consumer_def drop_receivers_def split: consumer_phase.splits)
next
  case (Call_send m waits)
  with assms show ?thesis by (auto simp: wake_inv_def notify_pending_def)
qed (use assms in \<open>auto simp: request_close_def try_send_control_def close_endpoint_def split: if_splits intro: wake_inv_frame\<close>)

lemma pump_run_wake: "pump_run (pipe_pump_new capacity tunnel now) es p \<Longrightarrow> wake_inv p"
proof (induction rule: pump_run.induct)
  case pump_run_start
  then show ?case by (simp add: wake_inv_def pipe_pump_new_def channel_with_capacities_def)
next
  case (pump_run_step es p a new p')
  then show ?case using exec_pump_wake pump_run_budget by blast
qed

section \<open>Progress\<close>

fun returned :: "send_task \<Rightarrow> bool" where
  "returned (Returned r) = True"
| "returned _ = False"

text \<open>Only a sleeper without a notification, or a reserved message without a slot, has to wait.\<close>

lemma task_step_enabled:
  assumes "\<not> returned t" "\<And>m. t \<noteq> Sleeping m False"
    and "\<And>m w. t = Reserved m w \<Longrightarrow> pu_receivers p \<Longrightarrow> length (pu_data p) < pu_data_capacity p"
  shows "\<exists>out. task_step spurious i t p = Some out"
  using assms by (cases t) (auto simp: goto_def accept_data_def split: reserve_round.splits bool.splits prod.splits)

lemma closed_task_enabled: "\<not> returned t \<Longrightarrow> \<not> pu_receivers p \<Longrightarrow> \<exists>out. task_step spurious i t p = Some out"
  by (cases t) (auto simp: goto_def split: reserve_round.splits bool.splits prod.splits)

lemma exec_task_enabled:
  "t \<in> set (pu_tasks p) \<Longrightarrow> (\<And>i. \<exists>out. task_step False i t p = Some out) \<Longrightarrow> \<exists>i out. exec_pump (Step_task i False) p = Some out"
  by (metis exec_pump.simps(2) in_set_conv_nth)

lemma idle_consumer_has_holder:
  assumes "budget_inv p" "wake_inv p" "pu_consumer p = Selecting" "pu_data p = []"
    and "Sleeping m False \<in> set (pu_tasks p)"
  shows "\<exists>t \<in> set (pu_tasks p). is_notifying t \<or> 0 < held t"
proof (cases "notify_pending p")
  case True
  with assms(3) show ?thesis by (auto simp: notify_pending_def)
next
  case False
  with assms(2,5) have "watches (pu_budget p) (Sleeping m False)" "fits (bb_limit (pu_budget p)) (Sleeping m False)"
    by (auto simp: wake_inv_def simp del: watches.simps fits.simps)
  then have "0 < bb_queued (pu_budget p)" by simp
  moreover from assms(1,3,4) have "bb_queued (pu_budget p) = total_held (pu_tasks p)" by (simp add: budget_inv_def)
  ultimately have "total_held (pu_tasks p) \<noteq> 0" by linarith
  then show ?thesis using total_held_pos by blast
qed

lemma pump_progress:
  assumes "budget_inv p" "wake_inv p" "0 < pu_data_capacity p" "t \<in> set (pu_tasks p)" "\<not> returned t"
  shows "(\<exists>out. exec_pump (Step_consumer False True now) p = Some out) \<or> (\<exists>i out. exec_pump (Step_task i False) p = Some out)"
proof (cases "pu_receivers p")
  case False
  then show ?thesis using exec_task_enabled [OF assms(4)] closed_task_enabled [OF assms(5)] by blast
next
  case open_pump: True
  show ?thesis
  proof (cases "pu_consumer p = Selecting \<and> pu_data p = []")
    case False
    then have "\<exists>out. consumer_step False True now (pu_consumer p) p = Some out"
      using open_pump assms(1)
      by (cases "pu_consumer p") (auto simp: budget_inv_def writer_select_def or_else_def dequeue_data_def Let_def split: option.splits list.splits)
    then show ?thesis by simp
  next
    case idle: True
    have "\<exists>u \<in> set (pu_tasks p). \<not> returned u \<and> (\<forall>m. u \<noteq> Sleeping m False)"
    proof (cases "\<exists>m. t = Sleeping m False")
      case True
      then obtain u where u: "u \<in> set (pu_tasks p)" "is_notifying u \<or> 0 < held u"
        using idle_consumer_has_holder [OF assms(1,2)] idle assms(4) by blast
      from u(2) have "\<not> returned u \<and> (\<forall>m. u \<noteq> Sleeping m False)" by (cases u) auto
      with u(1) show ?thesis by blast
    qed (use assms(4,5) in auto)
    then obtain u where u: "u \<in> set (pu_tasks p)" "\<not> returned u" "\<And>m. u \<noteq> Sleeping m False" by blast
    have "\<exists>out. task_step False i u p = Some out" for i
      using task_step_enabled [OF u(2,3)] idle assms(3) by simp
    then show ?thesis using exec_task_enabled [OF u(1)] by blast
  qed
qed

lemmas pump_step_defs = goto_def accept_data_def notify_waiters_def release_bytes_def try_reserve_round_def
  writer_select_def or_else_def dequeue_data_def dequeue_control_def idle_tick_def drop_receivers_def after_write_def
  close_endpoint_def abort_consumer_def request_close_def try_send_control_def Let_def

text \<open>What no step changes, and what the end of the consumer leaves behind.\<close>

lemma exec_pump_frame:
  assumes "exec_pump a p = Some (es, p')"
  shows "pu_data_capacity p' = pu_data_capacity p \<and> bb_limit (pu_budget p') = bb_limit (pu_budget p) \<and>
    (pu_receivers p = (pu_consumer p \<noteq> Finished) \<longrightarrow> (\<not> pu_receivers p \<longrightarrow> pu_data p = []) \<longrightarrow> \<not> pu_receivers p' \<longrightarrow> pu_data p' = [])"
proof (cases a)
  case (Step_task i spurious)
  with assms show ?thesis
    by (cases "pu_tasks p ! i") (auto simp: pump_step_defs split: if_splits reserve_round.splits bool.splits prod.splits)
next
  case (Step_consumer tick ok now)
  with assms show ?thesis
    by (cases "pu_consumer p") (auto simp: pump_step_defs split: if_splits list.splits option.splits)
qed (use assms in \<open>auto simp: pump_step_defs split: if_splits consumer_phase.splits\<close>)

lemma pump_run_capacity: "pump_run start es p \<Longrightarrow> pu_data_capacity p = pu_data_capacity start"
  by (induction rule: pump_run.induct) (auto dest: exec_pump_frame)

lemma pump_run_limit:
  "pump_run (pipe_pump_new capacity tunnel now) es p \<Longrightarrow> bb_limit (pu_budget p) = data_channel_byte_budget"
  by (induction rule: pump_run.induct)
    (auto dest: exec_pump_frame simp: pipe_pump_new_def channel_with_capacities_def budget_new_def)

lemma new_pump_capacity [simp]: "pu_data_capacity (pipe_pump_new capacity tunnel now) = capacity"
  by (simp add: pipe_pump_new_def channel_with_capacities_def)

section \<open>Every call returns\<close>

text \<open>
  Steps of the calls and of the consumer, whatever the socket answers, without spurious failures of an
  exchange, ticks of the timer and new calls.
\<close>

definition internal_step :: "pump \<Rightarrow> pump \<Rightarrow> bool" where
  "internal_step p p' \<longleftrightarrow>
     (\<exists>i es. exec_pump (Step_task i False) p = Some (es, p')) \<or> (\<exists>ok now es. exec_pump (Step_consumer False ok now) p = Some (es, p'))"

text \<open>
  What decreases, in this order: the releases to come, the notifications under way, the waiters that have
  been notified, the calls without a reservation, the way of a call through its loop, and the consumer's
  work.
\<close>

fun releases_left :: "send_task \<Rightarrow> nat" where
  "releases_left (Releasing m r) = 1"
| "releases_left (Notifying r) = 0"
| "releases_left (Returned r) = 0"
| "releases_left _ = 2"

fun notified :: "send_task \<Rightarrow> nat" where
  "notified (Loading m w n) = (if n then 1 else 0)"
| "notified (Exchanging m w n cur) = (if n then 1 else 0)"
| "notified (Sleeping m n) = (if n then 1 else 0)"
| "notified _ = 0"

fun unreserved :: "send_task \<Rightarrow> nat" where
  "unreserved (Reserved m w) = 0"
| "unreserved (Releasing m r) = 0"
| "unreserved (Notifying r) = 0"
| "unreserved (Returned r) = 0"
| "unreserved _ = 1"

fun way_left :: "usize \<Rightarrow> send_task \<Rightarrow> nat" where
  "way_left q (Enter m w) = 5"
| "way_left q (Enabling m) = 4"
| "way_left q (Loading m w n) = 3"
| "way_left q (Exchanging m w n cur) = (if cur = q then 1 else 2)"
| "way_left q _ = 0"

fun phase_left :: "consumer_phase \<Rightarrow> nat" where
  "phase_left Finished = 0"
| "phase_left Selecting = 1"
| "phase_left (Writing ch m) = 2"
| "phase_left Pinging = 2"
| "phase_left _ = 3"

definition work_left :: "(pump \<Rightarrow> nat) list" where
  "work_left =
     [\<lambda>p. sum_list (map releases_left (pu_tasks p)) + length (pu_data p) + (case pu_consumer p of Data_taken m \<Rightarrow> 1 | _ \<Rightarrow> 0),
      \<lambda>p. sum_list (map (\<lambda>t. of_bool (is_notifying t)) (pu_tasks p)) + of_bool (consumer_notifies (pu_consumer p)),
      \<lambda>p. sum_list (map notified (pu_tasks p)),
      \<lambda>p. sum_list (map unreserved (pu_tasks p)),
      \<lambda>p. sum_list (map (way_left (bb_queued (pu_budget p))) (pu_tasks p)),
      \<lambda>p. 4 * (length (pu_control p) + length (pu_data p)) + phase_left (pu_consumer p)]"

lemma wake_measures [simp]:
  "releases_left (wake t) = releases_left t" "is_notifying (wake t) = is_notifying t"
  by (cases t; simp)+

lemma goto_decreases:
  fixes p :: pump
  defines "q \<equiv> bb_queued (pu_budget p)"
  assumes "i < length (pu_tasks p)" "pu_tasks p ! i = old"
    and "releases_left t = releases_left old \<and> is_notifying t = is_notifying old \<and>
      (notified t < notified old \<or> notified t = notified old \<and>
        (unreserved t < unreserved old \<or> unreserved t = unreserved old \<and> way_left q t < way_left q old))"
  shows "(p\<lparr>pu_tasks := (pu_tasks p)[i := t]\<rparr>, p) \<in> measures work_left"
  using assms(4) sum_update [OF assms(2), of releases_left t] sum_update [OF assms(2), of "\<lambda>t. of_bool (is_notifying t)" t]
    sum_update [OF assms(2), of notified t] sum_update [OF assms(2), of unreserved t] sum_update [OF assms(2), of "way_left q" t]
  unfolding assms(3) by (auto simp: work_left_def q_def)

lemma release_decreases:
  assumes "i < length (pu_tasks p)" "pu_tasks p' = (pu_tasks p)[i := t]" "pu_consumer p' = pu_consumer p"
    and "length (pu_data p') + releases_left t < length (pu_data p) + releases_left (pu_tasks p ! i)"
  shows "(p', p) \<in> measures work_left"
  using assms(2-4) sum_update [OF assms(1), of releases_left t] by (simp add: work_left_def)

lemma reserve_decreases:
  assumes "i < length (pu_tasks p)" "pu_tasks p ! i = Exchanging m w n cur"
  shows "(p\<lparr>pu_budget := b, pu_tasks := (pu_tasks p)[i := Reserved m w]\<rparr>, p) \<in> measures work_left"
  using sum_update [OF assms(1), of releases_left "Reserved m w"] sum_update [OF assms(1), of "\<lambda>t. of_bool (is_notifying t)" "Reserved m w"]
    sum_update [OF assms(1), of notified "Reserved m w"] sum_update [OF assms(1), of unreserved "Reserved m w"]
  unfolding assms(2) by (simp add: work_left_def split: if_splits)

lemma task_step_decreases:
  assumes i: "i < length (pu_tasks p)" and step: "task_step False i (pu_tasks p ! i) p = Some (es, p')"
  shows "(p', p) \<in> measures work_left"
proof (cases "pu_tasks p ! i")
  case (Notifying r)
  with step have p': "p' = p\<lparr>pu_tasks := map wake ((pu_tasks p)[i := Returned r])\<rparr>"
    by (simp add: goto_def notify_waiters_def map_update)
  show ?thesis
    using sum_update [OF i, of releases_left "Returned r"] sum_update [OF i, of "\<lambda>t. of_bool (is_notifying t)" "Returned r"] Notifying
    by (simp add: work_left_def p' comp_def)
next
  case (Exchanging m w n cur)
  have "p' = p\<lparr>pu_tasks := (pu_tasks p)[i := if w then Sleeping m n else Returned BudgetFull]\<rparr> \<or>
      p' = p\<lparr>pu_budget := (pu_budget p)\<lparr>bb_queued := cur + queued_data_bytes m\<rparr>, pu_tasks := (pu_tasks p)[i := Reserved m w]\<rparr> \<or>
      cur \<noteq> bb_queued (pu_budget p) \<and> p' = p\<lparr>pu_tasks := (pu_tasks p)[i := Exchanging m w n (bb_queued (pu_budget p))]\<rparr>"
    using step unfolding Exchanging by (cases w) (auto simp: goto_def try_reserve_round_def split: if_splits)
  then show ?thesis
  proof (elim disjE conjE)
    assume "p' = p\<lparr>pu_tasks := (pu_tasks p)[i := if w then Sleeping m n else Returned BudgetFull]\<rparr>"
    then show ?thesis using i Exchanging by (cases w) (auto intro: goto_decreases release_decreases)
  qed (use i Exchanging in \<open>auto intro: goto_decreases reserve_decreases\<close>)
next
  case (Enter m waits)
  with i step show ?thesis by (auto simp: goto_def intro: goto_decreases release_decreases split: if_splits)
next
  case (Sleeping m n)
  with i step show ?thesis by (auto simp: goto_def intro: goto_decreases release_decreases split: if_splits)
next
  case (Reserved m w)
  with i step show ?thesis by (auto simp: goto_def accept_data_def intro: release_decreases split: if_splits)
next
  case (Releasing m r)
  with i step show ?thesis by (auto simp: goto_def intro: release_decreases split: if_splits)
qed (use i step in \<open>auto simp: goto_def intro: goto_decreases\<close>)

lemma consumer_frame_decreases:
  assumes "pu_tasks p' = pu_tasks p" "pu_budget p' = pu_budget p" "\<not> consumer_notifies (pu_consumer p)" "\<not> consumer_notifies (pu_consumer p')"
    and "length (pu_data p') + (case pu_consumer p' of Data_taken m \<Rightarrow> 1 | _ \<Rightarrow> 0) \<le> length (pu_data p) + (case pu_consumer p of Data_taken m \<Rightarrow> 1 | _ \<Rightarrow> 0)"
    and "4 * (length (pu_control p') + length (pu_data p')) + phase_left (pu_consumer p') <
      4 * (length (pu_control p) + length (pu_data p)) + phase_left (pu_consumer p)"
  shows "(p', p) \<in> measures work_left"
  using assms by (auto simp: work_left_def)

lemma drop_receivers_decreases:
  "pu_consumer p \<noteq> Finished \<Longrightarrow> \<not> consumer_notifies (pu_consumer p) \<Longrightarrow> (drop_receivers p, p) \<in> measures work_left"
  by (rule consumer_frame_decreases) (cases "pu_consumer p"; simp add: drop_receivers_def)+

lemma consumer_step_decreases:
  assumes "consumer_step False ok now (pu_consumer p) p = Some (es, p')"
  shows "(p', p) \<in> measures work_left"
proof (cases "pu_consumer p")
  case Selecting
  consider "dequeue_data p = Some (es, p')" | "dequeue_control p = Some (es, p')" | "idle_tick False now p = Some (es, p')"
    | "es = []" "p' = drop_receivers p"
    using selecting_cases assms [unfolded Selecting] by blast
  then show ?thesis
  proof cases
    case 1
    with Selecting show ?thesis
      by (intro consumer_frame_decreases) (auto simp: dequeue_data_def split: list.splits)
  next
    case 2
    with Selecting show ?thesis
      by (intro consumer_frame_decreases) (auto simp: dequeue_control_def split: list.splits)
  next
    case 3
    then show ?thesis by (simp add: idle_tick_def)
  next
    case 4
    with Selecting show ?thesis using drop_receivers_decreases [of p] by simp
  qed
next
  case (Data_taken m)
  with assms show ?thesis by (auto simp: work_left_def split: if_splits)
next
  case (Data_released m)
  with assms show ?thesis by (auto simp: work_left_def notify_waiters_def comp_def split: if_splits)
next
  case (Writing ch m)
  with assms show ?thesis
    by (intro consumer_frame_decreases) (auto simp: after_write_def drop_receivers_def close_endpoint_def split: if_splits)
next
  case Pinging
  with assms show ?thesis
    by (intro consumer_frame_decreases) (auto simp: after_write_def drop_receivers_def close_endpoint_def Let_def split: if_splits)
next
  case Finished
  with assms show ?thesis by simp
qed

lemma internal_step_decreases: "internal_step p p' \<Longrightarrow> (p', p) \<in> measures work_left"
  using task_step_decreases consumer_step_decreases by (auto simp: internal_step_def split: if_splits)

lemma no_infinite_schedule: "\<nexists>f. f 0 = p \<and> (\<forall>k. internal_step (f k) (f (Suc k)))"
  using wf_measures [of work_left] internal_step_decreases unfolding wf_iff_no_infinite_down_chain by blast

lemma internal_steps_run: "internal_step\<^sup>*\<^sup>* p q \<Longrightarrow> pump_run start es p \<Longrightarrow> \<exists>es'. pump_run start es' q"
proof (induction rule: rtranclp_induct)
  case (step q r)
  then show ?case unfolding internal_step_def by (blast intro: pump_run_step)
qed blast

text \<open>So every state has a schedule to a state in which no step is possible.\<close>

lemma internal_normal_form: "\<exists>q. internal_step\<^sup>*\<^sup>* p q \<and> (\<forall>q'. \<not> internal_step q q')"
proof (induction p rule: wf_induct_rule [OF wf_measures [of work_left]])
  case (1 p)
  show ?case
  proof (cases "\<exists>q. internal_step p q")
    case True
    then obtain q where q: "internal_step p q" by blast
    then obtain r where "internal_step\<^sup>*\<^sup>* q r" "\<forall>q'. \<not> internal_step r q'" using 1 internal_step_decreases by blast
    with q show ?thesis by (meson converse_rtranclp_into_rtranclp)
  qed blast
qed

section \<open>Order and turns\<close>

primrec enqueued_on :: "pump_channel \<Rightarrow> pump_event list \<Rightarrow> relay_outbound list" where
  "enqueued_on ch [] = []"
| "enqueued_on ch (e # es) = (case e of Enqueued c m \<Rightarrow> if c = ch then [m] else [] | _ \<Rightarrow> []) @ enqueued_on ch es"

primrec passed_on :: "pump_channel \<Rightarrow> pump_event list \<Rightarrow> relay_outbound list" where
  "passed_on ch [] = []"
| "passed_on ch (e # es) = (case e of Passed c m \<Rightarrow> if c = ch then [m] else [] | _ \<Rightarrow> []) @ passed_on ch es"

primrec dequeued :: "pump_event list \<Rightarrow> pump_channel list" where
  "dequeued [] = []"
| "dequeued (e # es) = (case e of Dequeued c m \<Rightarrow> [c] | _ \<Rightarrow> []) @ dequeued es"

definition last_dequeued :: "pump_event list \<Rightarrow> pump_channel option" where
  "last_dequeued es = (if dequeued es = [] then None else Some (last (dequeued es)))"

lemma event_append [simp]:
  "enqueued_on ch (xs @ ys) = enqueued_on ch xs @ enqueued_on ch ys"
  "passed_on ch (xs @ ys) = passed_on ch xs @ passed_on ch ys"
  "dequeued (xs @ ys) = dequeued xs @ dequeued ys"
  by (induction xs) simp_all

fun queue_of :: "pump_channel \<Rightarrow> pump \<Rightarrow> relay_outbound list" where
  "queue_of Control_channel p = pu_control p"
| "queue_of Data_channel p = pu_data p"

fun in_hand :: "pump_channel \<Rightarrow> consumer_phase \<Rightarrow> relay_outbound list" where
  "in_hand ch (Data_taken m) = (if ch = Data_channel then [m] else [])"
| "in_hand ch (Data_released m) = (if ch = Data_channel then [m] else [])"
| "in_hand ch (Writing c m) = (if ch = c then [m] else [])"
| "in_hand ch _ = []"

abbreviation undelivered :: "pump_channel \<Rightarrow> pump \<Rightarrow> relay_outbound list" where
  "undelivered ch p \<equiv> in_hand ch (pu_consumer p) @ queue_of ch p"

text \<open>What one step may do to a queue.\<close>

definition fifo_step :: "pump_channel \<Rightarrow> pump \<Rightarrow> pump_event list \<Rightarrow> pump \<Rightarrow> bool" where
  "fifo_step ch p new p' \<longleftrightarrow>
     (if pu_receivers p'
      then pu_receivers p \<and> undelivered ch p @ enqueued_on ch new = passed_on ch new @ undelivered ch p'
      else enqueued_on ch new = [] \<and> passed_on ch new = [])"

lemma task_step_fifo:
  assumes "task_step spurious i t p = Some (new, p')"
  shows "fifo_step ch p new p'"
  using assms
  by (cases t; cases ch)
    (auto simp: fifo_step_def goto_def accept_data_def notify_waiters_def split: if_splits reserve_round.splits bool.splits prod.splits)

lemma consumer_step_fifo:
  assumes "pu_receivers p = (pu_consumer p \<noteq> Finished)" "consumer_step tick ok now (pu_consumer p) p = Some (new, p')"
  shows "fifo_step ch p new p'"
proof (cases "pu_consumer p")
  case Selecting
  consider "dequeue_data p = Some (new, p')" | "dequeue_control p = Some (new, p')" | "idle_tick tick now p = Some (new, p')"
    | "new = []" "p' = drop_receivers p"
    using selecting_cases assms(2) [unfolded Selecting] by blast
  then show ?thesis
    using assms(1) Selecting
    by cases (cases ch; auto simp: fifo_step_def dequeue_data_def dequeue_control_def idle_tick_def drop_receivers_def split: list.splits if_splits)+
next
  case (Writing c m)
  with assms show ?thesis
    by (cases ch; cases c)
      (auto simp: fifo_step_def after_write_def drop_receivers_def close_endpoint_def split: if_splits)
next
  case Pinging
  with assms show ?thesis
    by (cases ch) (auto simp: fifo_step_def after_write_def drop_receivers_def close_endpoint_def Let_def split: if_splits)
qed (use assms in \<open>cases ch; auto simp: fifo_step_def notify_waiters_def split: if_splits\<close>)+

lemma exec_pump_fifo:
  assumes "budget_inv p" "exec_pump a p = Some (new, p')"
  shows "fifo_step ch p new p'"
proof (cases a)
  case (Step_task i spurious)
  with assms show ?thesis using task_step_fifo by (auto split: if_splits)
next
  case (Step_consumer tick ok now)
  with assms show ?thesis using consumer_step_fifo by (simp add: budget_inv_def)
next
  case Abort
  with assms show ?thesis
    by (auto simp: abort_consumer_def fifo_step_def drop_receivers_def split: consumer_phase.splits)
qed (use assms in \<open>cases ch; auto simp: fifo_step_def request_close_def try_send_control_def close_endpoint_def split: if_splits\<close>)+

lemma pump_run_fifo:
  assumes "pump_run (pipe_pump_new capacity tunnel now) es p"
  shows "\<exists>rest. enqueued_on ch es = passed_on ch es @ rest \<and> (pu_receivers p \<longrightarrow> rest = undelivered ch p)"
  using assms
proof (induction rule: pump_run.induct)
  case pump_run_start
  then show ?case by (cases ch) (simp_all add: pipe_pump_new_def channel_with_capacities_def)
next
  case (pump_run_step es p a new p')
  then obtain rest where rest: "enqueued_on ch es = passed_on ch es @ rest" "pu_receivers p \<longrightarrow> rest = undelivered ch p" by blast
  from exec_pump_fifo [OF pump_run_budget [OF pump_run_step.hyps(1)] pump_run_step.hyps(2), of ch]
  show ?case using rest by (auto simp: fifo_step_def split: if_splits)
qed

lemma pump_run_dropped: "pump_run (pipe_pump_new capacity tunnel now) es p \<Longrightarrow> \<not> pu_receivers p \<longrightarrow> pu_data p = []"
proof (induction rule: pump_run.induct)
  case pump_run_start
  then show ?case by (simp add: pipe_pump_new_def channel_with_capacities_def)
next
  case (pump_run_step es p a new p')
  then show ?case using exec_pump_frame pump_run_budget by (metis budget_inv_def)
qed

text \<open>The flag of the writer says whose turn it is.\<close>

lemma exec_pump_turn:
  assumes "exec_pump a p = Some (new, p')" "\<not> pu_tunnel p"
  shows "\<not> pu_tunnel p' \<and>
    (dequeued new = [] \<and> pu_prefer_data_once p' = pu_prefer_data_once p \<or>
     dequeued new = [Data_channel] \<and> \<not> pu_prefer_data_once p' \<and> (pu_prefer_data_once p \<or> pu_control p = []) \<or>
     dequeued new = [Control_channel] \<and> pu_prefer_data_once p' \<and> (\<not> pu_prefer_data_once p \<or> pu_data p = []))"
proof (cases a)
  case (Step_task i spurious)
  with assms show ?thesis
    by (cases "pu_tasks p ! i") (auto simp: pump_step_defs split: if_splits reserve_round.splits bool.splits prod.splits)
next
  case (Step_consumer tick ok now)
  with assms show ?thesis
    by (cases "pu_consumer p") (auto simp: pump_step_defs split: if_splits list.splits option.splits)
qed (use assms in \<open>auto simp: pump_step_defs split: if_splits consumer_phase.splits\<close>)

lemma pump_run_turn:
  "pump_run (pipe_pump_new capacity False now) es p \<Longrightarrow>
    \<not> pu_tunnel p \<and> pu_prefer_data_once p = (last_dequeued es = Some Control_channel)"
proof (induction rule: pump_run.induct)
  case pump_run_start
  then show ?case by (simp add: pipe_pump_new_def channel_with_capacities_def last_dequeued_def)
next
  case (pump_run_step es p a new p')
  with exec_pump_turn [OF pump_run_step.hyps(2)] show ?case by (auto simp: last_dequeued_def split: if_splits)
qed

section \<open>An execution\<close>

text \<open>
  An execution: a pong is queued, two senders race for a queue with a single slot, the second one gets
  it; the writer passes the pong on and takes the frame, and the first sender gets its slot.
\<close>

definition example_frame :: "nat \<Rightarrow> relay_outbound" where
  "example_frame n = Out_Frame (FBinary [n])"

definition example_race :: "pump_action list" where
  "example_race =
     (let first = Step_task 0 False; second = Step_task (Suc 0) False in
      [Call_control (Out_Pong [7]), Call_send (example_frame 1) True, Call_send (example_frame 2) True,
       first, first, second, first, second, first, second, second, second])"

definition example_turns :: "pump_action list" where
  "example_turns =
     (let writer = Step_consumer False True 1 in [writer, writer, writer, writer, Step_task 0 False, writer])"

lemmas pump_eval = example_race_def example_turns_def example_frame_def pump_step_defs pipe_pump_new_def
  channel_with_capacities_def budget_new_def exceeds_limit_def write_relay_outbound_and_report_def
  control_channel_capacity_def data_channel_byte_budget_def u64_max_def

lemma example_race_run:
  "\<exists>es p. pump_run (pipe_pump_new (Suc 0) False 0) es p \<and> pu_receivers p \<and> pu_data p = [example_frame 2] \<and> pu_consumer p = Selecting \<and>
    pu_tasks p = [Reserved (example_frame 1) True, Returned DataOk]"
proof -
  have "\<exists>es p. run_pump example_race (pipe_pump_new (Suc 0) False 0) = Some (es, p) \<and> pu_receivers p \<and>
      pu_data p = [example_frame 2] \<and> pu_consumer p = Selecting \<and> pu_tasks p = [Reserved (example_frame 1) True, Returned DataOk]"
    by (simp add: pump_eval)
  then show ?thesis using run_pump_sound by blast
qed

lemma example_turns_run:
  "\<exists>es p. pump_run (pipe_pump_new (Suc 0) False 0) es p \<and> pu_receivers p \<and> last_dequeued es = Some Data_channel \<and>
    pu_data p = [example_frame 1] \<and> pu_consumer p = Selecting \<and> pu_control p = [] \<and> \<not> pu_close_signal p \<and> \<not> pu_tunnel p"
proof -
  have "\<exists>es p. run_pump (example_race @ example_turns @ [Step_consumer False True 1]) (pipe_pump_new (Suc 0) False 0) = Some (es, p) \<and>
      pu_receivers p \<and> last_dequeued es = Some Data_channel \<and>
      pu_data p = [example_frame 1] \<and> pu_consumer p = Selecting \<and> pu_control p = [] \<and> \<not> pu_close_signal p \<and> \<not> pu_tunnel p"
    by (simp add: pump_eval last_dequeued_def)
  then show ?thesis using run_pump_sound by blast
qed

section \<open>Properties\<close>

text \<open>
  C31. Under every interleaving of senders whose calls are not cancelled, of the writer and of closing, a connection never buffers more than
  its budget of 16 MiB and never more messages than its queue has slots, and the counter is exact: while the
  consumer runs it is the sum of the bytes in the queue, of the bytes the consumer has just taken, and of the
  bytes reserved by senders that have not enqueued or given back their message yet.
\<close>

theorem relay_queue_budget_is_exact:
  assumes "pump_run (pipe_pump_new capacity tunnel now) es p"
  shows "length (pu_data p) \<le> capacity \<and> total_bytes (pu_data p) \<le> 16 * 1024 * 1024 \<and>
    (pu_receivers p \<longrightarrow>
       bb_queued (pu_budget p) = total_bytes (pu_data p) + consumer_held (pu_consumer p) + total_held (pu_tasks p))"
proof -
  have inv: "budget_inv p" by (rule pump_run_budget [OF assms])
  have "bb_limit (pu_budget p) = data_channel_byte_budget" by (rule pump_run_limit [OF assms])
  with inv have "pu_receivers p \<longrightarrow> total_bytes (pu_data p) \<le> 16 * 1024 * 1024"
    by (auto simp: budget_inv_def data_channel_byte_budget_def)
  moreover have "\<not> pu_receivers p \<longrightarrow> pu_data p = []" by (rule pump_run_dropped [OF assms])
  ultimately show ?thesis using inv pump_run_capacity [OF assms] by (auto simp: budget_inv_def)
qed

theorem relay_queue_budget_is_exact_witness:
  "\<exists>es p. pump_run (pipe_pump_new (Suc 0) False 0) es p \<and>
    bb_queued (pu_budget p) = queued_data_bytes (example_frame 2) + held (Reserved (example_frame 1) True)"
proof -
  obtain es p where run: "pump_run (pipe_pump_new (Suc 0) False 0) es p" "pu_receivers p" "pu_data p = [example_frame 2]"
    "pu_consumer p = Selecting" "pu_tasks p = [Reserved (example_frame 1) True, Returned DataOk]"
    using example_race_run by blast
  have "bb_queued (pu_budget p) = queued_data_bytes (example_frame 2) + held (Reserved (example_frame 1) True)"
    using relay_queue_budget_is_exact [OF run(1)] run(2-5) by simp
  with run(1) show ?thesis by blast
qed

text \<open>
  C30. Every call of \<open>send_data\<close> and \<open>try_send_data\<close> returns under every schedule, if no call is cancelled: once no new calls arrive, no
  interleaving of the calls and the consumer goes on for ever, and one that cannot go on has no call
  left that has not returned. In particular a sender that found the budget exhausted never misses the
  notification of the release that makes room for it.
\<close>

theorem relay_calls_return:
  assumes "pump_run (pipe_pump_new capacity tunnel now) es p" "0 < capacity"
  shows "(\<nexists>f. f 0 = p \<and> (\<forall>k. internal_step (f k) (f (Suc k)))) \<and>
    (\<forall>q. internal_step\<^sup>*\<^sup>* p q \<longrightarrow> (\<nexists>q'. internal_step q q') \<longrightarrow> list_all returned (pu_tasks q))"
proof (intro conjI allI impI)
  show "\<nexists>f. f 0 = p \<and> (\<forall>k. internal_step (f k) (f (Suc k)))" by (rule no_infinite_schedule)
  fix q
  assume steps: "internal_step\<^sup>*\<^sup>* p q" and stuck: "\<nexists>q'. internal_step q q'"
  obtain es' where run: "pump_run (pipe_pump_new capacity tunnel now) es' q" using internal_steps_run [OF steps assms(1)] by blast
  have capacity: "0 < pu_data_capacity q" using pump_run_capacity [OF run] assms(2) by simp
  show "list_all returned (pu_tasks q)"
  proof (rule ccontr)
    assume "\<not> list_all returned (pu_tasks q)"
    then obtain t where "t \<in> set (pu_tasks q)" "\<not> returned t" by (auto simp: list_all_iff)
    from pump_progress [OF pump_run_budget [OF run] pump_run_wake [OF run] capacity this]
    have "\<exists>q'. internal_step q q'" unfolding internal_step_def by (metis prod.collapse)
    with stuck show False by blast
  qed
qed

theorem relay_calls_return_witness:
  "\<exists>es p q. pump_run (pipe_pump_new (Suc 0) False 0) es p \<and> Reserved (example_frame 1) True \<in> set (pu_tasks p) \<and>
    internal_step\<^sup>*\<^sup>* p q \<and> list_all returned (pu_tasks q)"
proof -
  obtain es p where run: "pump_run (pipe_pump_new (Suc 0) False 0) es p"
    "pu_tasks p = [Reserved (example_frame 1) True, Returned DataOk]"
    using example_race_run by blast
  obtain q where q: "internal_step\<^sup>*\<^sup>* p q" "\<And>q'. \<not> internal_step q q'" using internal_normal_form by blast
  then have "list_all returned (pu_tasks q)" using relay_calls_return [OF run(1)] by simp
  with run q(1) show ?thesis by fastforce
qed

text \<open>
  C32. On each of the two queues the messages that reach the socket are exactly the accepted ones in their order,
  but for those still in the queue or in the hands of the writer; when the writer has ended they are a
  prefix. The writer takes turns: it takes a message from the queue it has served last only if the other
  queue is empty, so neither a flood of control messages nor terminal output can starve the other.
\<close>

theorem relay_writer_keeps_order_and_turns:
  assumes "pump_run (pipe_pump_new capacity False now) es p"
  shows "prefix (passed_on ch es) (enqueued_on ch es) \<and>
    (pu_receivers p \<longrightarrow> enqueued_on ch es = passed_on ch es @ in_hand ch (pu_consumer p) @ queue_of ch p) \<and>
    (exec_pump a p = Some (new, p') \<and> Dequeued ch m \<in> set new \<and> last_dequeued es = Some ch \<and> c \<noteq> ch \<longrightarrow>
      queue_of c p = [])"
proof (intro conjI impI; (elim conjE)?)
  obtain rest where "enqueued_on ch es = passed_on ch es @ rest" "pu_receivers p \<longrightarrow> rest = undelivered ch p"
    using pump_run_fifo [OF assms] by blast
  then show "prefix (passed_on ch es) (enqueued_on ch es)"
    and "pu_receivers p \<Longrightarrow> enqueued_on ch es = passed_on ch es @ in_hand ch (pu_consumer p) @ queue_of ch p" by auto
  assume step: "exec_pump a p = Some (new, p')" and m: "Dequeued ch m \<in> set new" and turn: "last_dequeued es = Some ch" "c \<noteq> ch"
  have "ch \<in> set (dequeued new)" using m by (induction new) (auto split: pump_event.splits)
  then show "queue_of c p = []"
    using exec_pump_turn [OF step] pump_run_turn [OF assms] turn by (cases ch; cases c) auto
qed

theorem relay_writer_keeps_order_and_turns_witness:
  "\<exists>es p new p'. pump_run (pipe_pump_new (Suc 0) False 0) es p \<and>
    enqueued_on Data_channel es = passed_on Data_channel es @ in_hand Data_channel (pu_consumer p) @ [example_frame 1] \<and>
    exec_pump (Step_consumer False True 1) p = Some (new, p') \<and> Dequeued Data_channel (example_frame 1) \<in> set new \<and>
    last_dequeued es = Some Data_channel \<and> queue_of Control_channel p = []"
proof -
  obtain es p where run: "pump_run (pipe_pump_new (Suc 0) False 0) es p" "pu_receivers p" "last_dequeued es = Some Data_channel"
    "pu_data p = [example_frame 1]" "pu_consumer p = Selecting" "pu_control p = []" "\<not> pu_close_signal p" "\<not> pu_tunnel p"
    using example_turns_run by blast
  then obtain new p' where step: "exec_pump (Step_consumer False True 1) p = Some (new, p')" "Dequeued Data_channel (example_frame 1) \<in> set new"
    by (cases "pu_prefer_data_once p") (auto simp: pump_step_defs)
  have "enqueued_on Data_channel es = passed_on Data_channel es @ in_hand Data_channel (pu_consumer p) @ [example_frame 1]"
    using relay_writer_keeps_order_and_turns [OF run(1), of Data_channel] run(2,4) by simp
  moreover have "queue_of Control_channel p = []"
    using relay_writer_keeps_order_and_turns [OF run(1), where c = Control_channel] step run(3) by blast
  ultimately show ?thesis using run(1,3) step by blast
qed

section \<open>Cancelled calls\<close>

text \<open>
  A caller may drop the future of \<open>send_data\<close> where it awaits, as \<open>DaemonDataForwardTask::shutdown\<close> does when it aborts
  the forwarder after the drain deadline; the call is gone and nothing else happens. While it waits for a slot of
  the channel it holds a reservation that no guard gives back: the counter then exceeds what the queue, the
  consumer and the calls hold by the bytes of the message, and the budget of the connection is smaller from then on.
\<close>

definition cancel_send :: "nat \<Rightarrow> pump \<Rightarrow> pump" where
  "cancel_send i p = p\<lparr>pu_tasks := (pu_tasks p)[i := Returned DataClosed]\<rparr>"

lemma cancelled_send_leaks_reservation:
  assumes "pump_run (pipe_pump_new capacity tunnel now) es p" "pu_receivers p"
    and "i < length (pu_tasks p)" "pu_tasks p ! i = Reserved m True"
  shows "bb_queued (pu_budget (cancel_send i p)) =
    total_bytes (pu_data (cancel_send i p)) + consumer_held (pu_consumer (cancel_send i p)) +
    total_held (pu_tasks (cancel_send i p)) + queued_data_bytes m"
proof -
  have "queued_data_bytes m \<le> total_held (pu_tasks p)"
    using assms(3,4) elem_le_sum_list [of i "map held (pu_tasks p)"] by simp
  moreover have "total_held ((pu_tasks p)[i := Returned DataClosed]) = total_held (pu_tasks p) - queued_data_bytes m"
    using assms(3,4) by (simp add: map_update sum_list_update)
  ultimately show ?thesis
    using pump_run_budget [OF assms(1)] assms(2) by (simp add: budget_inv_def cancel_send_def)
qed

end
