(* ===== verification/Relay_Admission.thy ===== *)
theory Relay_Admission
  imports Relay_Registry Credentials
begin

text \<open>
  Who may use the relay, \<open>RelayState\<close> in \<open>termrelay/src/ws.rs\<close>: the daemons that have registered with the
  setup token, the hashes of their tokens and their public keys, the file in which the relay keeps them,
  the admission of daemon routes, and the verification of the credentials that daemons sign for their
  clients. Reading the file at start-up is from \<open>termrelay/src/args.rs\<close> and \<open>termrelay/src/main.rs\<close>.

  SHA-256 is the argument \<open>sha\<close>; base64, JSON and ed25519 are those of theory \<open>Credentials\<close>, with the relay's
  own decoder for the part of the claims it reads. The file holds the entries themselves: JSON is
  not modelled. The outcome of each write of the file is an argument. No operation panics while it
  holds the lock, so the lock is never poisoned.
\<close>

declare map_of_eq_Some_iff [simp del] Some_eq_map_of_iff [simp del]

section \<open>Tokens\<close>

definition relay_auth_token_min_bytes :: usize where
  "relay_auth_token_min_bytes = 8"

definition relay_auth_token_has_safe_length :: "wire_text \<Rightarrow> bool" where
  "relay_auth_token_has_safe_length token \<longleftrightarrow> length token \<ge> relay_auth_token_min_bytes"

definition relay_auth_token_constant_time_eq :: "wire_text \<Rightarrow> wire_text \<Rightarrow> bool" where
  "relay_auth_token_constant_time_eq expected provided \<longleftrightarrow>
     fold (\<lambda>i d. d OR (byte_at expected i XOR byte_at provided i)) [0..<max (length expected) (length provided)]
       (length expected XOR length provided) = 0"

definition hex_lower :: "u8 list \<Rightarrow> wire_text" where
  "hex_lower bytes = concat (map (\<lambda>b. [hex_digit (b div 16), hex_digit (b mod 16)]) bytes)"

definition relay_daemon_token_hash :: "(u8 list \<Rightarrow> u8 list) \<Rightarrow> wire_text \<Rightarrow> wire_text" where
  "relay_daemon_token_hash sha token = ascii ''sha256:'' @ hex_lower (sha token)"

definition relay_daemon_persisted_token_hash :: "(u8 list \<Rightarrow> u8 list) \<Rightarrow> wire_text \<Rightarrow> wire_text" where
  "relay_daemon_persisted_token_hash sha v =
     (if starts_with (ascii ''sha256:'') v \<and> length v = length (ascii ''sha256:'') + 64 then v
      else relay_daemon_token_hash sha v)"

section \<open>The state and its file\<close>

record relay_admission_state =
  ad_trusted :: bool
  ad_daemon_token_hashes :: "(server_id, wire_text) hmap"
  ad_daemon_public_keys :: "(server_id, wire_text) hmap"

record persisted_daemon_entry =
  pd_server_id :: server_id
  pd_token_hash :: wire_text
  pd_daemon_public_key :: "wire_text option"

record relay_state =
  rl_inner :: relay_registry
  rl_admission :: relay_admission_state
  rl_setup_token :: "wire_text option"
  rl_registry_path :: bool
  rl_registry_file :: "persisted_daemon_entry list option"

datatype register_daemon_error =
    SetupTokenNotConfigured | SetupTokenMissing | SetupTokenRejected | DaemonTokenTooShort
  | RegistryPathNotConfigured | RegistryPoisoned | PersistRegistry

text \<open>
  Writing goes to a temporary file that is renamed over the old one; afterwards the permissions are set
  and the directory is synchronised, and both can fail as well.
\<close>

datatype write_outcome = Write_done | Write_failed_before_rename | Write_failed_after_rename

definition atomic_write :: "write_outcome \<Rightarrow> persisted_daemon_entry list \<Rightarrow> relay_state \<Rightarrow> bool \<times> relay_state" where
  "atomic_write w entries st =
     (case w of
        Write_done \<Rightarrow> (True, st\<lparr>rl_registry_file := Some entries\<rparr>)
      | Write_failed_before_rename \<Rightarrow> (False, st)
      | Write_failed_after_rename \<Rightarrow> (False, st\<lparr>rl_registry_file := Some entries\<rparr>))"

definition persisted_entries :: "(server_id, wire_text) hmap \<Rightarrow> (server_id, wire_text) hmap \<Rightarrow> persisted_daemon_entry list" where
  "persisted_entries hashes keys =
     sort_key pd_server_id
       (map (\<lambda>(sid, h). \<lparr>pd_server_id = sid, pd_token_hash = h, pd_daemon_public_key = hm_get keys sid\<rparr>) hashes)"

definition persist_daemon_registry_values ::
  "write_outcome \<Rightarrow> (server_id, wire_text) hmap \<Rightarrow> (server_id, wire_text) hmap \<Rightarrow> relay_state \<Rightarrow> (register_daemon_error + unit) \<times> relay_state" where
  "persist_daemon_registry_values w hashes keys st =
     (if \<not> rl_registry_path st then (Inl RegistryPathNotConfigured, st)
      else
        (case atomic_write w (persisted_entries hashes keys) st of
           (True, st') \<Rightarrow> (Inr (), st')
         | (False, st') \<Rightarrow> (Inl PersistRegistry, st')))"

definition persist_daemon_registry_state ::
  "write_outcome \<Rightarrow> relay_admission_state \<Rightarrow> relay_state \<Rightarrow> (register_daemon_error + unit) \<times> relay_state" where
  "persist_daemon_registry_state w a st = persist_daemon_registry_values w (ad_daemon_token_hashes a) (ad_daemon_public_keys a) st"

section \<open>Registering a daemon\<close>

definition authorize_setup_token :: "wire_text option \<Rightarrow> relay_state \<Rightarrow> register_daemon_error + unit" where
  "authorize_setup_token provided st =
     (case rl_setup_token st of
        None \<Rightarrow> Inl SetupTokenNotConfigured
      | Some expected \<Rightarrow>
          (case provided of
             None \<Rightarrow> Inl SetupTokenMissing
           | Some p \<Rightarrow>
               if \<not> relay_auth_token_has_safe_length expected \<or> \<not> relay_auth_token_has_safe_length p \<or>
                  \<not> relay_auth_token_constant_time_eq expected p
               then Inl SetupTokenRejected else Inr ()))"

text \<open>The result is whether an older registration was replaced; the effects are those of closing its connections.\<close>

definition register_daemon ::
  "(u8 list \<Rightarrow> u8 list) \<Rightarrow> write_outcome \<Rightarrow> server_id \<Rightarrow> wire_text \<Rightarrow> wire_text option \<Rightarrow> relay_state
    \<Rightarrow> (register_daemon_error + bool) \<times> relay_state \<times> relay_effect list" where
  "register_daemon sha w sid token setup st =
     (case authorize_setup_token setup st of
        Inl e \<Rightarrow> (Inl e, st, [])
      | Inr _ \<Rightarrow>
          if \<not> relay_auth_token_has_safe_length token then (Inl DaemonTokenTooShort, st, [])
          else if \<not> rl_registry_path st then (Inl RegistryPathNotConfigured, st, [])
          else
            (let a = rl_admission st; next_hashes = hm_insert sid (relay_daemon_token_hash sha token) (ad_daemon_token_hashes a);
                 replaced = (hm_get (ad_daemon_token_hashes a) sid \<noteq> None)
             in case persist_daemon_registry_values w next_hashes (ad_daemon_public_keys a) st of
                  (Inl e, st1) \<Rightarrow> (Inl e, st1, [])
                | (Inr _, st1) \<Rightarrow>
                    (let st2 = st1\<lparr>rl_admission := a\<lparr>ad_trusted := True, ad_daemon_token_hashes := next_hashes\<rparr>\<rparr>
                     in if replaced
                        then (case close_server sid (rl_inner st2) of
                                (closed, g, fx) \<Rightarrow> (Inr replaced, st2\<lparr>rl_inner := g\<rparr>, fx))
                        else (Inr replaced, st2, []))))"

definition ed25519_public_key_len :: usize where
  "ed25519_public_key_len = 32"

definition decode_ed25519_wire :: "credential_crypto \<Rightarrow> wire_text \<Rightarrow> usize \<Rightarrow> u8 list option" where
  "decode_ed25519_wire k v expected_len =
     (case strip_prefix ed25519_wire_prefix v of
        None \<Rightarrow> None
      | Some encoded \<Rightarrow>
          (case cc_std_decode k encoded of
             None \<Rightarrow> None
           | Some bytes \<Rightarrow> if length bytes = expected_len then Some bytes else None))"

text \<open>Two writes of the file, with the outcomes \<open>w1\<close> and \<open>w2\<close>.\<close>

definition register_daemon_identity ::
  "credential_crypto \<Rightarrow> (u8 list \<Rightarrow> u8 list) \<Rightarrow> write_outcome \<Rightarrow> write_outcome \<Rightarrow> server_id \<Rightarrow> wire_text \<Rightarrow> wire_text
    \<Rightarrow> wire_text option \<Rightarrow> relay_state \<Rightarrow> (register_daemon_error + bool) \<times> relay_state \<times> relay_effect list" where
  "register_daemon_identity k sha w1 w2 sid token public_key setup st =
     (if decode_ed25519_wire k public_key ed25519_public_key_len = None then (Inl DaemonTokenTooShort, st, [])
      else
        (case register_daemon sha w1 sid token setup st of
           (Inl e, st1, fx) \<Rightarrow> (Inl e, st1, fx)
         | (Inr outcome, st1, fx) \<Rightarrow>
             (let a = (rl_admission st1)\<lparr>ad_daemon_public_keys := hm_insert sid public_key (ad_daemon_public_keys (rl_admission st1))\<rparr>;
                  st2 = st1\<lparr>rl_admission := a\<rparr>
              in case persist_daemon_registry_state w2 a st2 of
                   (Inl e, st3) \<Rightarrow> (Inl e, st3, fx)
                 | (Inr _, st3) \<Rightarrow> (Inr outcome, st3, fx))))"

definition daemon_public_key :: "server_id \<Rightarrow> relay_state \<Rightarrow> wire_text option" where
  "daemon_public_key sid st = hm_get (ad_daemon_public_keys (rl_admission st)) sid"

section \<open>Starting the relay\<close>

record relay_daemon_credential =
  dc_server_id :: server_id
  dc_token :: wire_text
  dc_token_is_hash :: bool
  dc_public_key :: "wire_text option"

definition relay_credential_hash :: "(u8 list \<Rightarrow> u8 list) \<Rightarrow> relay_daemon_credential \<Rightarrow> wire_text" where
  "relay_credential_hash sha c =
     (if dc_token_is_hash c then relay_daemon_persisted_token_hash sha (dc_token c) else relay_daemon_token_hash sha (dc_token c))"

definition new_trusted_with_registry ::
  "(u8 list \<Rightarrow> u8 list) \<Rightarrow> write_outcome \<Rightarrow> relay_daemon_credential list \<Rightarrow> wire_text option \<Rightarrow> bool
    \<Rightarrow> persisted_daemon_entry list option \<Rightarrow> (register_daemon_error + relay_state) \<times> persisted_daemon_entry list option" where
  "new_trusted_with_registry sha w credentials setup_token registry_path file' =
     (let keys = fold (\<lambda>c m. case dc_public_key c of None \<Rightarrow> m | Some key \<Rightarrow> hm_insert (dc_server_id c) key m) credentials [];
          hashes = fold (\<lambda>c m. hm_insert (dc_server_id c) (relay_credential_hash sha c) m) credentials [];
          st = \<lparr>rl_inner = registry_default,
                rl_admission = \<lparr>ad_trusted = True, ad_daemon_token_hashes = hashes, ad_daemon_public_keys = keys\<rparr>,
                rl_setup_token = setup_token, rl_registry_path = registry_path, rl_registry_file = file'\<rparr>
      in if registry_path
         then (case persist_daemon_registry_state w (rl_admission st) st of
                 (Inl e, st') \<Rightarrow> (Inl e, rl_registry_file st')
               | (Inr _, st') \<Rightarrow> (Inr st', rl_registry_file st'))
         else (Inr st, file'))"

text \<open>An entry of the file as the configuration reads it; the relay itself never writes a plain token.\<close>

record daemon_registry_entry =
  re_server_id :: server_id
  re_token :: wire_text
  re_token_hash :: wire_text
  re_daemon_public_key :: "wire_text option"

definition entry_of_persisted :: "persisted_daemon_entry \<Rightarrow> daemon_registry_entry" where
  "entry_of_persisted e =
     \<lparr>re_server_id = pd_server_id e, re_token = [], re_token_hash = pd_token_hash e, re_daemon_public_key = pd_daemon_public_key e\<rparr>"

definition runtime_credential :: "daemon_registry_entry \<Rightarrow> relay_daemon_credential option" where
  "runtime_credential e =
     (if re_token_hash e \<noteq> []
      then Some \<lparr>dc_server_id = re_server_id e, dc_token = re_token_hash e, dc_token_is_hash = True, dc_public_key = re_daemon_public_key e\<rparr>
      else if re_token e \<noteq> []
      then Some \<lparr>dc_server_id = re_server_id e, dc_token = re_token e, dc_token_is_hash = False, dc_public_key = re_daemon_public_key e\<rparr>
      else None)"

definition read_daemon_registry_file :: "persisted_daemon_entry list option \<Rightarrow> daemon_registry_entry list" where
  "read_daemon_registry_file file' = (case file' of None \<Rightarrow> [] | Some entries \<Rightarrow> map entry_of_persisted entries)"

definition relay_state_from_args ::
  "(u8 list \<Rightarrow> u8 list) \<Rightarrow> write_outcome \<Rightarrow> wire_text \<Rightarrow> persisted_daemon_entry list option
    \<Rightarrow> (register_daemon_error + relay_state) \<times> persisted_daemon_entry list option" where
  "relay_state_from_args sha w setup_token file' =
     new_trusted_with_registry sha w (List.map_filter runtime_credential (read_daemon_registry_file file')) (Some setup_token) True file'"

section \<open>Daemon routes\<close>

datatype relay_admission_payload =
    Admit_Daemon wire_text
  | Admit_PairTicket wire_text
  | Admit_Device uuid wire_text unix_ms wire_text

definition authorize_route_admission ::
  "(u8 list \<Rightarrow> u8 list) \<Rightarrow> route_prelude \<Rightarrow> relay_admission_payload option \<Rightarrow> relay_state \<Rightarrow> relay_error + unit" where
  "authorize_route_admission sha p admission st =
     (case rp_connection_role p of
        Client \<Rightarrow> Inl AdmissionRejected
      | _ \<Rightarrow>
          (case admission of
             Some (Admit_Daemon token) \<Rightarrow>
               (case hm_get (ad_daemon_token_hashes (rl_admission st)) (rp_server_id p) of
                  None \<Rightarrow> Inl AdmissionRejected
                | Some expected_hash \<Rightarrow>
                    if relay_auth_token_constant_time_eq expected_hash (relay_daemon_token_hash sha token) then Inr ()
                    else Inl AdmissionRejected)
           | _ \<Rightarrow> Inl AdmissionRequired))"

definition register_route ::
  "(sender \<Rightarrow> relay_control_envelope \<Rightarrow> try_send) \<Rightarrow> u8 list \<Rightarrow> instant \<Rightarrow> route_prelude \<Rightarrow> sender \<Rightarrow> relay_state
    \<Rightarrow> (relay_error + connection_registration) \<times> relay_state \<times> relay_effect list" where
  "register_route ctl uuid now p s st =
     (case register ctl uuid now p s (rl_inner st) of (r, g, fx) \<Rightarrow> (r, st\<lparr>rl_inner := g\<rparr>, fx))"

text \<open>
  The route of a socket once its prelude has been read. Admission and registration are two critical
  sections; \<open>between\<close> is what other tasks do to the state in between. \<open>ready\<close> says whether the reply could be
  sent; if not, the registration is removed again.
\<close>

datatype bound_route = Bound connection_registration | Route_error string | Ready_failed

definition bind_socket_route ::
  "(u8 list \<Rightarrow> u8 list) \<Rightarrow> (sender \<Rightarrow> relay_control_envelope \<Rightarrow> try_send) \<Rightarrow> u8 list \<Rightarrow> instant \<Rightarrow> sender \<Rightarrow> bool
    \<Rightarrow> (relay_state \<Rightarrow> relay_state) \<Rightarrow> route_prelude \<Rightarrow> relay_admission_payload option \<Rightarrow> relay_state
    \<Rightarrow> bound_route \<times> relay_state \<times> relay_effect list" where
  "bind_socket_route sha ctl uuid now s ready between p admission st =
     (if rp_connection_role p = Client then (Route_error ''relay_role_not_supported'', st, [])
      else
        (case authorize_route_admission sha p admission st of
           Inl e \<Rightarrow> (Route_error (route_error_code e), st, [])
         | Inr _ \<Rightarrow>
             (case register_route ctl uuid now p s (between st) of
                (Inl e, st1, fx) \<Rightarrow> (Route_error (route_error_code e), st1, fx)
              | (Inr reg, st1, fx) \<Rightarrow>
                  if ready then (Bound reg, st1, fx)
                  else (case unregister ctl now reg (rl_inner st1) of
                          (g, fx') \<Rightarrow> (Ready_failed, st1\<lparr>rl_inner := g\<rparr>, fx @ fx')))))"

section \<open>Credentials of clients\<close>

text \<open>The claims that the relay reads: kind, issuer and expiry.\<close>

record relay_credential_claims =
  rc_kind :: wire_text
  rc_issuer :: server_id
  rc_expires_at_ms :: unix_ms

fun wire_name :: "credential_kind \<Rightarrow> wire_text" where
  "wire_name PairTicket = ascii ''pair_ticket''"
| "wire_name DeviceCertificate = ascii ''device_certificate''"
| "wire_name AccessToken = ascii ''access_token''"

definition verify_signed_credential ::
  "credential_crypto \<Rightarrow> (u8 list \<Rightarrow> relay_credential_claims option) \<Rightarrow> unix_ms \<Rightarrow> server_id \<Rightarrow> wire_text \<Rightarrow> credential_kind
    \<Rightarrow> relay_state \<Rightarrow> bool" where
  "verify_signed_credential k claims_of now sid compact kind st =
     (case daemon_public_key sid st of
        None \<Rightarrow> False
      | Some public_key \<Rightarrow>
          (case split_dot compact of
             [encoded_header, encoded_claims, encoded_signature] \<Rightarrow>
               (case Option.bind (cc_url_decode k encoded_header) (cc_header_of_json k) of
                  None \<Rightarrow> False
                | Some header \<Rightarrow>
                    if jh_alg header \<noteq> ascii ''EdDSA'' \<or> jh_typ header \<noteq> ascii ''JWT'' \<or> jh_kid header \<noteq> cc_uuid_text k sid then False
                    else
                      (case Option.bind (cc_url_decode k encoded_claims) claims_of of
                         None \<Rightarrow> False
                       | Some claims \<Rightarrow>
                           if rc_issuer claims \<noteq> sid \<or> rc_kind claims \<noteq> wire_name kind \<or> rc_expires_at_ms claims < now then False
                           else
                             (case decode_ed25519_wire k public_key ed25519_public_key_len of
                                None \<Rightarrow> False
                              | Some key \<Rightarrow>
                                  (case cc_url_decode k encoded_signature of
                                     None \<Rightarrow> False
                                   | Some signature \<Rightarrow>
                                       length signature = 64 \<and> cc_is_key k key \<and>
                                       cc_verify k key (encoded_header @ ascii ''.'' @ encoded_claims) signature))))
           | _ \<Rightarrow> False))"

definition verify_workspace_access_token ::
  "credential_crypto \<Rightarrow> (u8 list \<Rightarrow> relay_credential_claims option) \<Rightarrow> unix_ms \<Rightarrow> wire_text \<Rightarrow> relay_state \<Rightarrow> server_id option" where
  "verify_workspace_access_token k claims_of now compact st =
     (case split_dot compact of
        h # encoded_claims # rest \<Rightarrow>
          (case Option.bind (cc_url_decode k encoded_claims) claims_of of
             None \<Rightarrow> None
           | Some claims \<Rightarrow>
               if verify_signed_credential k claims_of now (rc_issuer claims) compact AccessToken st then Some (rc_issuer claims)
               else None)
      | _ \<Rightarrow> None)"

end
