(* ===== verification/Relay_Gate.thy ===== *)
theory Relay_Gate
  imports Relay_Admission
begin

text \<open>
  What the admission of the relay guarantees: only the holder of the registered token opens a daemon
  route, the registrations survive a restart, and the relay judges the credentials of clients as the
  daemon that issued them does.
\<close>

declare map_of_eq_Some_iff [simp del] Some_eq_map_of_iff [simp del]

section \<open>Tokens and their hashes\<close>

lemma token_eq_iff [simp]: "relay_auth_token_constant_time_eq a b \<longleftrightarrow> a = b"
  by (simp add: relay_auth_token_constant_time_eq_def byte_scan_iff)

lemma hex_lower_length [simp]: "length (hex_lower bs) = 2 * length bs"
  by (induction bs) (simp_all add: hex_lower_def)

lemma hex_lower_inj:
  "list_all (\<lambda>b. b < 256) xs \<Longrightarrow> list_all (\<lambda>b. b < 256) ys \<Longrightarrow> hex_lower xs = hex_lower ys \<Longrightarrow> xs = ys"
proof (induction xs arbitrary: ys)
  case Nil
  then show ?case by (cases ys) (simp_all add: hex_lower_def)
next
  case (Cons x xs)
  then obtain y ys' where ys: "ys = y # ys'" by (cases ys) (simp_all add: hex_lower_def)
  with Cons.prems have "hex_digit (x div 16) = hex_digit (y div 16)" "hex_digit (x mod 16) = hex_digit (y mod 16)" "hex_lower xs = hex_lower ys'"
    by (simp_all add: hex_lower_def)
  moreover have "x div 16 < 16" "y div 16 < 16" using Cons.prems ys by auto
  ultimately have "x div 16 = y div 16" "x mod 16 = y mod 16" using hex_digit_inj by auto
  then have "x = y" by (metis div_mult_mod_eq)
  with Cons ys \<open>hex_lower xs = hex_lower ys'\<close> show ?case by simp
qed

text \<open>What SHA-256 promises of its output: thirty-two bytes.\<close>

definition digest_ok :: "(u8 list \<Rightarrow> u8 list) \<Rightarrow> bool" where
  "digest_ok sha \<longleftrightarrow> (\<forall>t. length (sha t) = 32 \<and> list_all (\<lambda>b. b < 256) (sha t))"

lemma token_hash_eq_iff: "digest_ok sha \<Longrightarrow> relay_daemon_token_hash sha s = relay_daemon_token_hash sha t \<longleftrightarrow> sha s = sha t"
  using hex_lower_inj by (auto simp: digest_ok_def relay_daemon_token_hash_def)

definition hash_form :: "wire_text \<Rightarrow> bool" where
  "hash_form h \<longleftrightarrow> starts_with (ascii ''sha256:'') h \<and> length h = length (ascii ''sha256:'') + 64"

lemma hash_form_token [simp]: "digest_ok sha \<Longrightarrow> hash_form (relay_daemon_token_hash sha t)"
  by (simp add: hash_form_def digest_ok_def relay_daemon_token_hash_def starts_with_def)

lemma hash_form_kept: "hash_form h \<Longrightarrow> relay_daemon_persisted_token_hash sha h = h"
  by (simp add: hash_form_def relay_daemon_persisted_token_hash_def)

lemma hash_form_nonempty: "hash_form h \<Longrightarrow> h \<noteq> []"
  by (auto simp: hash_form_def)

lemma hash_form_credential [simp]: "digest_ok sha \<Longrightarrow> hash_form (relay_credential_hash sha c)"
  by (auto simp: relay_credential_hash_def relay_daemon_persisted_token_hash_def hash_form_def [symmetric])

section \<open>Registration\<close>

lemma register_daemon_refused:
  assumes "register_daemon sha w sid token setup st = (Inl e, st', fx)"
  shows "rl_admission st' = rl_admission st" "rl_inner st' = rl_inner st" "fx = []"
  using assms
  by (auto simp: register_daemon_def persist_daemon_registry_values_def atomic_write_def Let_def
      split: sum.splits if_splits write_outcome.splits prod.splits)

lemma register_daemon_accepted:
  assumes "register_daemon sha w sid token setup st = (Inr replaced, st', fx)"
  shows "rl_setup_token st = setup" "setup \<noteq> None" "w = Write_done"
    "length token \<ge> 8" "replaced \<longleftrightarrow> hm_get (ad_daemon_token_hashes (rl_admission st)) sid \<noteq> None"
    "ad_daemon_token_hashes (rl_admission st') = hm_insert sid (relay_daemon_token_hash sha token) (ad_daemon_token_hashes (rl_admission st))"
    "ad_daemon_public_keys (rl_admission st') = ad_daemon_public_keys (rl_admission st)"
    "replaced \<Longrightarrow> hm_get (rg_rooms (rl_inner st')) sid = None"
  using assms
  by (auto simp: register_daemon_def persist_daemon_registry_values_def atomic_write_def authorize_setup_token_def close_server_def
      relay_auth_token_has_safe_length_def relay_auth_token_min_bytes_def Let_def
      split: sum.splits if_splits write_outcome.splits prod.splits option.splits)

lemma authorize_iff:
  "authorize_route_admission sha p admission st = Inr () \<longleftrightarrow>
    rp_connection_role p \<noteq> Client \<and>
    (\<exists>t. admission = Some (Admit_Daemon t) \<and>
       hm_get (ad_daemon_token_hashes (rl_admission st)) (rp_server_id p) = Some (relay_daemon_token_hash sha t))"
  by (auto simp: authorize_route_admission_def split: connection_role.splits option.splits relay_admission_payload.splits)

section \<open>Restart\<close>

lemma fold_insert_other:
  "j \<notin> kf ` set xs \<Longrightarrow> hm_get (fold (\<lambda>x m. hm_insert (kf x) (vf x) m) xs m) j = hm_get m j"
  by (induction xs arbitrary: m) auto

lemma fold_insert_member:
  "distinct (map kf xs) \<Longrightarrow> x \<in> set xs \<Longrightarrow> hm_get (fold (\<lambda>x m. hm_insert (kf x) (vf x) m) xs m) (kf x) = Some (vf x)"
proof (induction xs arbitrary: m)
  case (Cons y ys)
  show ?case
  proof (cases "x = y")
    case True
    with Cons.prems(1) have "kf x \<notin> kf ` set ys" by simp
    then show ?thesis using fold_insert_other [where xs = ys and kf = kf and j = "kf x" and vf = vf and m = "hm_insert (kf y) (vf y) m"] True by simp
  next
    case False
    with Cons show ?thesis by simp
  qed
qed simp

lemma fold_insert_wf: "hm_wf m \<Longrightarrow> hm_wf (fold (\<lambda>x m. hm_insert (kf x) (vf x) m) xs m)"
  by (induction xs arbitrary: m) simp_all

lemma fold_some_filter:
  "fold (\<lambda>x m. case vf x of None \<Rightarrow> m | Some v \<Rightarrow> hm_insert (kf x) v m) xs m =
    fold (\<lambda>x m. hm_insert (kf x) (the (vf x)) m) (filter (\<lambda>x. vf x \<noteq> None) xs) m"
  by (induction xs arbitrary: m) (auto split: option.splits)

lemma persisted_entry_iff:
  "hm_wf hashes \<Longrightarrow> e \<in> set (persisted_entries hashes keys) \<longleftrightarrow>
    hm_get hashes (pd_server_id e) = Some (pd_token_hash e) \<and> pd_daemon_public_key e = hm_get keys (pd_server_id e)"
proof -
  assume wf: "hm_wf hashes"
  have "e \<in> set (persisted_entries hashes keys) \<longleftrightarrow>
      (pd_server_id e, pd_token_hash e) \<in> set hashes \<and> pd_daemon_public_key e = hm_get keys (pd_server_id e)"
    by (cases e) (force simp: persisted_entries_def)
  then show ?thesis using hm_entry_get [OF wf] by simp
qed

lemma persisted_distinct: "hm_wf hashes \<Longrightarrow> distinct (map pd_server_id (persisted_entries hashes keys))"
proof -
  assume "hm_wf hashes"
  then have "distinct (map pd_server_id (map (\<lambda>(sid, h). \<lparr>pd_server_id = sid, pd_token_hash = h, pd_daemon_public_key = hm_get keys sid\<rparr>) hashes))"
    by (simp add: comp_def case_prod_beta)
  then show ?thesis unfolding persisted_entries_def by (simp only: distinct_map distinct_sort set_sort)
qed

text \<open>The credential that a restart makes of an entry.\<close>

definition restored :: "persisted_daemon_entry \<Rightarrow> relay_daemon_credential" where
  "restored e = \<lparr>dc_server_id = pd_server_id e, dc_token = pd_token_hash e, dc_token_is_hash = True, dc_public_key = pd_daemon_public_key e\<rparr>"

lemma restored_credentials:
  assumes "\<And>e. e \<in> set entries \<Longrightarrow> hash_form (pd_token_hash e)"
  shows "List.map_filter runtime_credential (read_daemon_registry_file (Some entries)) = map restored entries"
  using assms
proof (induction entries)
  case (Cons e entries)
  then have "pd_token_hash e \<noteq> []" using hash_form_nonempty by simp
  with Cons show ?case
    by (simp add: read_daemon_registry_file_def List.map_filter_simps runtime_credential_def entry_of_persisted_def restored_def)
qed (simp add: read_daemon_registry_file_def List.map_filter_simps)

text \<open>What every registration keeps of the tables, and when the file holds exactly these tables.\<close>

definition registry_wf :: "relay_state \<Rightarrow> bool" where
  "registry_wf st \<longleftrightarrow>
     (let hashes = ad_daemon_token_hashes (rl_admission st); keys = ad_daemon_public_keys (rl_admission st) in
      hm_wf hashes \<and> (\<forall>sid h. hm_get hashes sid = Some h \<longrightarrow> hash_form h) \<and>
      (\<forall>sid. hm_get keys sid \<noteq> None \<longrightarrow> hm_get hashes sid \<noteq> None) \<and> rl_registry_path st)"

definition registry_ok :: "relay_state \<Rightarrow> bool" where
  "registry_ok st \<longleftrightarrow>
     registry_wf st \<and>
     rl_registry_file st = Some (persisted_entries (ad_daemon_token_hashes (rl_admission st)) (ad_daemon_public_keys (rl_admission st)))"

lemma hm_fold_hashes:
  assumes "hm_wf hashes" "\<And>sid h. hm_get hashes sid = Some h \<Longrightarrow> hash_form h"
  shows "hm_get (fold (\<lambda>c m. hm_insert (dc_server_id c) (relay_credential_hash sha c) m) (map restored (persisted_entries hashes keys)) []) sid =
    hm_get hashes sid"
proof -
  let ?es = "persisted_entries hashes keys"
  have dist: "distinct (map dc_server_id (map restored ?es))"
    using persisted_distinct [OF assms(1), of keys] by (simp add: comp_def restored_def)
  show ?thesis
  proof (cases "hm_get hashes sid")
    case None
    then have "sid \<notin> dc_server_id ` set (map restored ?es)"
      using persisted_entry_iff [OF assms(1)] by (auto simp: restored_def)
    then show ?thesis by (rule trans [OF fold_insert_other]) (simp add: None)
  next
    case (Some h)
    let ?c = "restored \<lparr>pd_server_id = sid, pd_token_hash = h, pd_daemon_public_key = hm_get keys sid\<rparr>"
    have "\<lparr>pd_server_id = sid, pd_token_hash = h, pd_daemon_public_key = hm_get keys sid\<rparr> \<in> set ?es"
      using Some persisted_entry_iff [OF assms(1)] by simp
    then have "?c \<in> set (map restored ?es)" by simp
    from fold_insert_member [OF dist this, of "relay_credential_hash sha"] Some assms(2) [OF Some] show ?thesis
      by (simp add: restored_def relay_credential_hash_def hash_form_kept)
  qed
qed

lemma hm_fold_keys:
  assumes "hm_wf hashes" "\<And>sid. hm_get keys sid \<noteq> None \<Longrightarrow> hm_get hashes sid \<noteq> None"
  shows "hm_get (fold (\<lambda>c m. case dc_public_key c of None \<Rightarrow> m | Some key \<Rightarrow> hm_insert (dc_server_id c) key m)
      (map restored (persisted_entries hashes keys)) []) sid = hm_get keys sid"
proof -
  let ?es = "persisted_entries hashes keys"
  let ?cs = "filter (\<lambda>c. dc_public_key c \<noteq> None) (map restored ?es)"
  have dist: "distinct (map dc_server_id ?cs)"
    using persisted_distinct [OF assms(1), of keys] by (simp add: comp_def restored_def distinct_map_filter filter_map)
  show ?thesis
  proof (cases "hm_get keys sid")
    case None
    then have "sid \<notin> dc_server_id ` set ?cs"
      using persisted_entry_iff [OF assms(1)] by (auto simp: restored_def)
    then show ?thesis unfolding fold_some_filter by (rule trans [OF fold_insert_other]) (simp add: None)
  next
    case (Some key)
    then obtain h where h: "hm_get hashes sid = Some h" using assms(2) [of sid] by auto
    let ?e = "\<lparr>pd_server_id = sid, pd_token_hash = h, pd_daemon_public_key = Some key\<rparr>"
    have "?e \<in> set ?es" using Some h persisted_entry_iff [OF assms(1), of ?e keys] by simp
    then have "restored ?e \<in> restored ` set ?es" by (rule imageI)
    then have "restored ?e \<in> set ?cs" by (simp add: restored_def)
    from fold_insert_member [OF dist this, of "\<lambda>c. the (dc_public_key c)"] Some show ?thesis
      unfolding fold_some_filter by (simp add: restored_def)
  qed
qed

lemma restart_restores:
  assumes "registry_ok st"
  shows "\<exists>st' file'. relay_state_from_args sha Write_done given' (rl_registry_file st) = (Inr st', file') \<and>
    (\<forall>sid. hm_get (ad_daemon_token_hashes (rl_admission st')) sid = hm_get (ad_daemon_token_hashes (rl_admission st)) sid \<and>
      daemon_public_key sid st' = daemon_public_key sid st)"
proof -
  let ?hashes = "ad_daemon_token_hashes (rl_admission st)" and ?keys = "ad_daemon_public_keys (rl_admission st)"
  have ok: "hm_wf ?hashes" "\<And>sid h. hm_get ?hashes sid = Some h \<Longrightarrow> hash_form h"
    "\<And>sid. hm_get ?keys sid \<noteq> None \<Longrightarrow> hm_get ?hashes sid \<noteq> None" "rl_registry_file st = Some (persisted_entries ?hashes ?keys)"
    using assms by (auto simp: registry_ok_def registry_wf_def Let_def)
  have "List.map_filter runtime_credential (read_daemon_registry_file (Some (persisted_entries ?hashes ?keys))) =
      map restored (persisted_entries ?hashes ?keys)"
    using ok(2) persisted_entry_iff [OF ok(1)] by (intro restored_credentials) blast
  then show ?thesis
    using hm_fold_hashes [OF ok(1,2), where keys = ?keys and sha = sha] hm_fold_keys [OF ok(1,3)]
    unfolding relay_state_from_args_def new_trusted_with_registry_def ok(4)
    by (simp add: persist_daemon_registry_state_def persist_daemon_registry_values_def atomic_write_def daemon_public_key_def Let_def)
qed

section \<open>Registrations in sequence\<close>

text \<open>
  A registration, with or without a public key. The outcome of every write of the file is arbitrary: it may
  succeed, fail before the new file is in place, or fail after the rename.
\<close>

datatype relay_op =
    Register server_id wire_text "wire_text option" write_outcome
  | Register_key server_id wire_text wire_text "wire_text option" write_outcome write_outcome

fun relay_call ::
  "credential_crypto \<Rightarrow> (u8 list \<Rightarrow> u8 list) \<Rightarrow> relay_op \<Rightarrow> relay_state
    \<Rightarrow> (register_daemon_error + bool) \<times> relay_state \<times> relay_effect list" where
  "relay_call k sha (Register sid token setup w) st = register_daemon sha w sid token setup st"
| "relay_call k sha (Register_key sid token key setup w1 w2) st = register_daemon_identity k sha w1 w2 sid token key setup st"

definition exec_relay :: "credential_crypto \<Rightarrow> (u8 list \<Rightarrow> u8 list) \<Rightarrow> relay_op \<Rightarrow> relay_state \<Rightarrow> relay_state" where
  "exec_relay k sha op st = fst (snd (relay_call k sha op st))"

text \<open>
  The two failures that leave the file and the memory with different registrations are a first write that
  fails after the rename (the file is ahead) and a second write, the one with the key, that fails before
  the rename (the file is behind).
\<close>

fun in_step :: "relay_op \<Rightarrow> bool" where
  "in_step (Register _ _ _ w) = (w \<noteq> Write_failed_after_rename)"
| "in_step (Register_key _ _ _ _ w1 w2) = (w1 \<noteq> Write_failed_after_rename \<and> w2 \<noteq> Write_failed_before_rename)"

lemma register_daemon_wf:
  assumes "registry_wf st" "digest_ok sha" "register_daemon sha w sid token setup st = (r, st', fx)"
  shows "registry_wf st'"
  using assms
  by (auto simp: register_daemon_def persist_daemon_registry_values_def atomic_write_def registry_wf_def Let_def close_server_def
      split: sum.splits if_splits prod.splits option.splits write_outcome.splits)

lemma register_daemon_file:
  assumes "register_daemon sha w sid token setup st = (r, st', fx)" "registry_wf st'"
    and "(\<exists>replaced. r = Inr replaced) \<or> registry_ok st \<and> w \<noteq> Write_failed_after_rename"
  shows "registry_ok st'"
  using assms
  by (auto simp: register_daemon_def persist_daemon_registry_values_def atomic_write_def registry_ok_def Let_def close_server_def
      split: sum.splits if_splits prod.splits option.splits write_outcome.splits)

text \<open>A registration with a key is one without, then the key and the second write.\<close>

lemma register_daemon_identity_cases:
  assumes "register_daemon_identity k sha w1 w2 sid token key setup st = (r, st', fx)"
  obtains (no_key) "decode_ed25519_wire k key ed25519_public_key_len = None" "r = Inl DaemonTokenTooShort" "st' = st"
  | (refused) e where "r = Inl e" "register_daemon sha w1 sid token setup st = (Inl e, st', fx)"
  | (stored) replaced st1 where "decode_ed25519_wire k key ed25519_public_key_len \<noteq> None"
      "register_daemon sha w1 sid token setup st = (Inr replaced, st1, fx)"
      "rl_inner st' = rl_inner st1" "rl_registry_path st' = rl_registry_path st1"
      "ad_daemon_token_hashes (rl_admission st') = ad_daemon_token_hashes (rl_admission st1)"
      "ad_daemon_public_keys (rl_admission st') = hm_insert sid key (ad_daemon_public_keys (rl_admission st1))"
      "r = Inr replaced \<and> w2 = Write_done \<or> r = Inl PersistRegistry \<and> w2 \<noteq> Write_done"
      "rl_registry_file st' = (if w2 = Write_failed_before_rename then rl_registry_file st1
         else Some (persisted_entries (ad_daemon_token_hashes (rl_admission st')) (ad_daemon_public_keys (rl_admission st'))))"
proof -
  obtain r1 st1 fx1 where reg: "register_daemon sha w1 sid token setup st = (r1, st1, fx1)" by (metis prod_cases3)
  consider "decode_ed25519_wire k key ed25519_public_key_len = None"
    | e where "decode_ed25519_wire k key ed25519_public_key_len \<noteq> None" "r1 = Inl e"
    | replaced where "decode_ed25519_wire k key ed25519_public_key_len \<noteq> None" "r1 = Inr replaced"
    by (cases r1) auto
  then show thesis
  proof cases
    case 1
    with assms show thesis by (intro no_key) (simp_all add: register_daemon_identity_def)
  next
    case 2
    with assms reg show thesis by (intro refused [of e]) (simp_all add: register_daemon_identity_def)
  next
    case 3
    have "rl_registry_path st1"
      using reg 3(2)
      by (auto simp: register_daemon_def persist_daemon_registry_values_def atomic_write_def Let_def close_server_def
          split: sum.splits if_splits prod.splits write_outcome.splits)
    with assms reg 3 show thesis
      by (intro stored [of replaced st1])
        (auto simp: register_daemon_identity_def persist_daemon_registry_state_def persist_daemon_registry_values_def
          atomic_write_def Let_def split: write_outcome.splits)
  qed
qed

lemma relay_call_wf:
  assumes "registry_wf st" "digest_ok sha" "relay_call k sha op st = (r, st', fx)"
  shows "registry_wf st'"
proof (cases op)
  case (Register sid token given w)
  with register_daemon_wf [OF assms(1,2)] assms(3) show ?thesis by simp
next
  case (Register_key sid token key given w1 w2)
  with assms(3) have "register_daemon_identity k sha w1 w2 sid token key given st = (r, st', fx)" by simp
  then show ?thesis
  proof (cases rule: register_daemon_identity_cases)
    case (stored replaced st1)
    with register_daemon_wf [OF assms(1,2) stored(2)] register_daemon_accepted(6) [OF stored(2)] show ?thesis
      by (auto simp: registry_wf_def Let_def)
  qed (use assms(1) register_daemon_wf [OF assms(1,2)] in auto)
qed

lemma relay_call_ok:
  assumes "registry_wf st" "digest_ok sha" "relay_call k sha op st = (r, st', fx)"
    and "(\<exists>replaced. r = Inr replaced) \<or> registry_ok st \<and> in_step op"
  shows "registry_ok st'"
proof (cases op)
  case (Register sid token given w)
  with register_daemon_file [of sha w sid token given st r st' fx] relay_call_wf [OF assms(1-3)] assms(3,4) show ?thesis by simp
next
  case (Register_key sid token key given w1 w2)
  note wf = relay_call_wf [OF assms(1-3)]
  from Register_key assms(3) have "register_daemon_identity k sha w1 w2 sid token key given st = (r, st', fx)" by simp
  then show ?thesis
  proof (cases rule: register_daemon_identity_cases)
    case no_key
    with assms(4) show ?thesis by simp
  next
    case (refused e)
    with register_daemon_file [OF refused(2)] wf assms(4) Register_key show ?thesis by simp
  next
    case (stored replaced st1)
    with wf assms(4) Register_key show ?thesis by (auto simp: registry_ok_def)
  qed
qed

lemma exec_relay_wf: "registry_wf st \<Longrightarrow> digest_ok sha \<Longrightarrow> registry_wf (exec_relay k sha op st)"
  using relay_call_wf by (metis exec_relay_def prod_cases3 fst_conv snd_conv)

lemma exec_relays_wf: "registry_wf st \<Longrightarrow> digest_ok sha \<Longrightarrow> registry_wf (fold (exec_relay k sha) ops st)"
  by (induction ops arbitrary: st) (simp_all add: exec_relay_wf)

lemma exec_relay_ok: "registry_ok st \<Longrightarrow> digest_ok sha \<Longrightarrow> in_step op \<Longrightarrow> registry_ok (exec_relay k sha op st)"
  using relay_call_ok by (metis exec_relay_def prod_cases3 fst_conv snd_conv registry_ok_def)

lemma exec_relays_ok:
  "registry_ok st \<Longrightarrow> digest_ok sha \<Longrightarrow> list_all in_step ops \<Longrightarrow> registry_ok (fold (exec_relay k sha) ops st)"
  by (induction ops arbitrary: st) (simp_all add: exec_relay_ok)

lemma fold_insert_values:
  assumes "\<And>x. P (vf x)" "\<And>sid h. hm_get m sid = Some h \<Longrightarrow> P h" "hm_get (fold (\<lambda>x m. hm_insert (kf x) (vf x) m) xs m) sid = Some h"
  shows "P h"
  using assms(2,3)
proof (induction xs arbitrary: m)
  case (Cons x xs)
  have "P g" if "hm_get (hm_insert (kf x) (vf x) m) j = Some g" for j g
    using that Cons.prems(1) assms(1) by (auto split: if_splits)
  with Cons.IH [of "hm_insert (kf x) (vf x) m"] Cons.prems(2) show ?case by simp
qed simp

lemma fold_keys_known:
  assumes "hm_get (fold (\<lambda>c m. case dc_public_key c of None \<Rightarrow> m | Some key \<Rightarrow> hm_insert (dc_server_id c) key m) cs []) sid \<noteq> None"
  shows "hm_get (fold (\<lambda>c m. hm_insert (dc_server_id c) (relay_credential_hash sha c) m) cs []) sid \<noteq> None"
proof -
  have "sid \<in> dc_server_id ` set cs"
  proof (rule ccontr)
    assume "sid \<notin> dc_server_id ` set cs"
    then have "sid \<notin> dc_server_id ` set (filter (\<lambda>c. dc_public_key c \<noteq> None) cs)" by auto
    then have "hm_get (fold (\<lambda>x m. hm_insert (dc_server_id x) (the (dc_public_key x)) m)
        (filter (\<lambda>x. dc_public_key x \<noteq> None) cs) []) sid = None" by (rule trans [OF fold_insert_other]) simp
    with assms show False unfolding fold_some_filter by simp
  qed
  then show ?thesis by (induction cs rule: rev_induct) auto
qed

lemma started_ok:
  assumes "digest_ok sha" "relay_state_from_args sha Write_done given file0 = (Inr st, file1)"
  shows "registry_ok st"
proof -
  let ?cs = "List.map_filter runtime_credential (read_daemon_registry_file file0)"
  let ?hashes = "fold (\<lambda>c m. hm_insert (dc_server_id c) (relay_credential_hash sha c) m) ?cs []"
  have "hm_wf ?hashes" by (rule fold_insert_wf) simp
  moreover have "hash_form h" if "hm_get ?hashes sid = Some h" for sid h
    using fold_insert_values [OF _ _ that, of hash_form] assms(1) by simp
  ultimately show ?thesis
    using assms(2) fold_keys_known [of ?cs]
    unfolding relay_state_from_args_def new_trusted_with_registry_def Let_def
    by (auto simp: registry_ok_def registry_wf_def persist_daemon_registry_state_def persist_daemon_registry_values_def atomic_write_def)
qed

section \<open>Judging credentials\<close>

text \<open>
  What the code relies on: the relay's decoder reads the three claims it knows out of every text that
  the daemon's decoder accepts, and the empty text decodes to no bytes.
\<close>

definition relay_decoder_ok :: "credential_crypto \<Rightarrow> (u8 list \<Rightarrow> relay_credential_claims option) \<Rightarrow> bool" where
  "relay_decoder_ok k claims_of \<longleftrightarrow>
     cc_url_decode k [] = Some [] \<and>
     (\<forall>b c. cc_claims_of_json k b = Some c \<longrightarrow>
        claims_of b = Some \<lparr>rc_kind = wire_name (cl_kind c), rc_issuer = cl_issuer c, rc_expires_at_ms = cl_expires_at_ms c\<rparr>)"

lemma wire_name_inj [simp]: "wire_name a = wire_name b \<longleftrightarrow> a = b"
  by (cases a; cases b) (simp_all add: ascii_def)

lemma decode_key:
  "decode_ed25519_wire k v n = Some key \<longleftrightarrow>
    Option.bind (strip_prefix ed25519_wire_prefix v) (cc_std_decode k) = Some key \<and> length key = n"
  by (auto simp: decode_ed25519_wire_def split: option.splits)

text \<open>Guards that refuse.\<close>

lemma guard_some: "(case x of None \<Rightarrow> False | Some y \<Rightarrow> P y) \<longleftrightarrow> (\<exists>y. x = Some y \<and> P y)"
  by (cases x) auto

lemma guard_three: "(case xs of [a, b, c] \<Rightarrow> P a b c | _ \<Rightarrow> False) \<longleftrightarrow> (\<exists>a b c. xs = [a, b, c] \<and> P a b c)"
  by (auto split: list.splits)

lemma if_False_iff: "(if c then False else b) \<longleftrightarrow> \<not> c \<and> b"
  by simp

lemma verify_signed_iff:
  "verify_signed_credential k claims_of now sid compact kind st \<longleftrightarrow>
   (\<exists>public_key h b g header claims key sg. daemon_public_key sid st = Some public_key \<and> split_dot compact = [h, b, g] \<and>
      Option.bind (cc_url_decode k h) (cc_header_of_json k) = Some header \<and>
      jh_alg header = ascii ''EdDSA'' \<and> jh_typ header = ascii ''JWT'' \<and> jh_kid header = cc_uuid_text k sid \<and>
      Option.bind (cc_url_decode k b) claims_of = Some claims \<and>
      rc_issuer claims = sid \<and> rc_kind claims = wire_name kind \<and> now \<le> rc_expires_at_ms claims \<and>
      Option.bind (strip_prefix ed25519_wire_prefix public_key) (cc_std_decode k) = Some key \<and> length key = 32 \<and> cc_is_key k key \<and>
      cc_url_decode k g = Some sg \<and> length sg = 64 \<and> cc_verify k key (h @ ascii ''.'' @ b) sg)"
  unfolding verify_signed_credential_def guard_some guard_three if_False_iff ed25519_public_key_len_def decode_key not_less
  by (simp only: de_Morgan_disj not_not not_less conj_assoc ex_simps simp_thms) blast

lemma gate_iff:
  assumes "relay_decoder_ok k claims_of" "daemon_public_key sid st = Some public_key"
  shows "verify_credential k compact public_key sid now kind = Inr claims \<longleftrightarrow>
    verify_signed_credential k claims_of now sid compact kind st \<and>
    (\<exists>h b g. split_dot compact = [h, b, g] \<and> Option.bind (cc_url_decode k b) (cc_claims_of_json k) = Some claims)"
  (is "?l \<longleftrightarrow> ?r")
proof -
  have read: "Option.bind (cc_url_decode k b) claims_of =
      Some \<lparr>rc_kind = wire_name (cl_kind c), rc_issuer = cl_issuer c, rc_expires_at_ms = cl_expires_at_ms c\<rparr>"
    if "Option.bind (cc_url_decode k b) (cc_claims_of_json k) = Some c" for b c
    using that assms(1) by (auto simp: relay_decoder_ok_def split: bind_splits)
  show ?thesis
  proof
    assume ?l
    then show ?r using read assms(2) unfolding verify_credential_iff verify_signed_iff by fastforce
  next
    assume r: ?r
    have "g \<noteq> []" if "cc_url_decode k g = Some sg" "length sg = 64" for g sg
      using that assms(1) by (auto simp: relay_decoder_ok_def)
    with r read assms(2) show ?l unfolding verify_credential_iff verify_signed_iff by fastforce
  qed
qed

section \<open>Properties\<close>

text \<open>
  What a daemon's registration puts into force: the setup token matched, from now on the routes of that
  daemon are admitted exactly with a token of the same digest, all other daemons are admitted as before,
  and a replaced registration has lost its connections.
\<close>

definition in_force ::
  "(u8 list \<Rightarrow> u8 list) \<Rightarrow> server_id \<Rightarrow> wire_text \<Rightarrow> wire_text option \<Rightarrow> bool \<Rightarrow> relay_state \<Rightarrow> relay_state \<Rightarrow> bool" where
  "in_force sha sid token given replaced st st' \<longleftrightarrow>
     given \<noteq> None \<and> rl_setup_token st = given \<and>
     (\<forall>p admission. authorize_route_admission sha p admission st' = Inr () \<longleftrightarrow>
        (if rp_server_id p = sid then rp_connection_role p \<noteq> Client \<and> (\<exists>t. admission = Some (Admit_Daemon t) \<and> sha t = sha token)
         else authorize_route_admission sha p admission st = Inr ())) \<and>
     (replaced \<longleftrightarrow> hm_get (ad_daemon_token_hashes (rl_admission st)) sid \<noteq> None) \<and>
     (replaced \<longrightarrow> hm_get (rg_rooms (rl_inner st')) sid = None)"

lemma register_daemon_in_force:
  assumes "digest_ok sha" "register_daemon sha w sid token given st = (Inr replaced, st', fx)"
  shows "in_force sha sid token given replaced st st'"
proof -
  note acc = register_daemon_accepted [OF assms(2)]
  have "authorize_route_admission sha p admission st' = Inr () \<longleftrightarrow>
      (if rp_server_id p = sid then rp_connection_role p \<noteq> Client \<and> (\<exists>t. admission = Some (Admit_Daemon t) \<and> sha t = sha token)
       else authorize_route_admission sha p admission st = Inr ())" for p admission
    unfolding authorize_iff acc(6) using token_hash_eq_iff [OF assms(1)] by (cases "rp_server_id p = sid") (simp, metis, simp)
  with acc(1,2,5,8) show ?thesis by (simp add: in_force_def)
qed

lemma in_force_cong:
  assumes "in_force sha sid token given replaced st st1" "rl_inner st' = rl_inner st1"
    and "ad_daemon_token_hashes (rl_admission st') = ad_daemon_token_hashes (rl_admission st1)"
  shows "in_force sha sid token given replaced st st'"
  using assms by (simp add: in_force_def authorize_iff)

text \<open>
  C27. Both ways of registering a daemon need the relay's setup token, and a registration that succeeds is
  in force exactly: a route of that daemon is admitted if and only if it presents a token with the same
  SHA-256 digest as the registered one, other daemons are admitted as before, and if it replaced an older
  registration, no connection that the older token had opened is left in the routing table. A registration
  without a key leaves all keys as they are, and when it is refused it changes neither the admission nor the
  connections. A registration with a key needs a key that decodes and stores it for that daemon only; when it
  is refused, it has changed nothing in memory either, with one exception: if the first write of the file
  succeeded and the second, the one with the key, failed, it reports the failure with the new token and the
  new key in force.
\<close>

theorem daemon_admission_is_exact:
  assumes "digest_ok sha"
  shows "(case register_daemon sha w sid token given st of
      (Inr replaced, st', fx) \<Rightarrow>
        in_force sha sid token given replaced st st' \<and> (\<forall>j. daemon_public_key j st' = daemon_public_key j st)
    | (Inl e, st', fx) \<Rightarrow> rl_admission st' = rl_admission st \<and> rl_inner st' = rl_inner st) \<and>
    (case register_daemon_identity k sha w' w'' sid token key given st of
      (Inr replaced, st', fx) \<Rightarrow>
        decode_ed25519_wire k key ed25519_public_key_len \<noteq> None \<and> in_force sha sid token given replaced st st' \<and>
        (\<forall>j. daemon_public_key j st' = (if j = sid then Some key else daemon_public_key j st))
    | (Inl e, st', fx) \<Rightarrow>
        rl_admission st' = rl_admission st \<and> rl_inner st' = rl_inner st \<or>
        e = PersistRegistry \<and> w' = Write_done \<and> w'' \<noteq> Write_done \<and> (\<exists>replaced. in_force sha sid token given replaced st st') \<and>
        (\<forall>j. daemon_public_key j st' = (if j = sid then Some key else daemon_public_key j st)))"
    (is "?plain \<and> ?with_key")
proof
  show ?plain
  proof (cases "fst (register_daemon sha w sid token given st)")
    case (Inl e)
    then obtain st' fx where "register_daemon sha w sid token given st = (Inl e, st', fx)" by (metis prod_cases3 fst_conv)
    with register_daemon_refused [OF this] show ?thesis by simp
  next
    case (Inr replaced)
    then obtain st' fx where "register_daemon sha w sid token given st = (Inr replaced, st', fx)" by (metis prod_cases3 fst_conv)
    with register_daemon_in_force [OF assms this] register_daemon_accepted(7) [OF this] show ?thesis by (simp add: daemon_public_key_def)
  qed
  obtain r st' fx where reg: "register_daemon_identity k sha w' w'' sid token key given st = (r, st', fx)" by (metis prod_cases3)
  then show ?with_key
  proof (cases rule: register_daemon_identity_cases)
    case (refused e)
    with register_daemon_refused [OF refused(2)] reg show ?thesis by simp
  next
    case (stored replaced st1)
    note acc = register_daemon_accepted [OF stored(2)]
    have "in_force sha sid token given replaced st st'"
      by (rule in_force_cong [OF register_daemon_in_force [OF assms stored(2)] stored(3,5)])
    moreover have "daemon_public_key j st' = (if j = sid then Some key else daemon_public_key j st)" for j
      using stored(6) acc(7) by (simp add: daemon_public_key_def)
    ultimately show ?thesis using stored(1,7) acc(3) reg by auto
  qed (use reg in simp)
qed

text \<open>A digest for the examples.\<close>

definition example_sha :: "u8 list \<Rightarrow> u8 list" where
  "example_sha t = replicate 32 (sum_list t mod 256)"

lemma example_digest_ok: "digest_ok example_sha"
  by (auto simp: digest_ok_def example_sha_def list_all_iff)

definition example_relay :: relay_state where
  "example_relay =
     \<lparr>rl_inner = registry_default, rl_admission = \<lparr>ad_trusted = True, ad_daemon_token_hashes = [], ad_daemon_public_keys = []\<rparr>,
      rl_setup_token = Some (ascii ''setup-token''), rl_registry_path = True, rl_registry_file = Some []\<rparr>"

definition example_route :: route_prelude where
  "example_route =
     \<lparr>rp_server_id = 7, rp_connection_role = DaemonControl, rp_route_generation = Some [1], rp_client_id = None, rp_data_token = None\<rparr>"

lemma example_registered:
  "\<exists>st'. register_daemon example_sha Write_done 7 (ascii ''daemon-token'') (Some (ascii ''setup-token'')) example_relay = (Inr False, st', [])"
  by (simp add: register_daemon_def authorize_setup_token_def example_relay_def relay_auth_token_has_safe_length_def
      relay_auth_token_min_bytes_def persist_daemon_registry_values_def atomic_write_def ascii_def Let_def)

lemma example_registered_key:
  "\<exists>st' fx. register_daemon_identity demo_crypto example_sha Write_done w 7 (ascii ''daemon-token'') demo_key
      (Some (ascii ''setup-token'')) example_relay = (if w = Write_done then Inr False else Inl PersistRegistry, st', fx)"
  by (cases w)
    (simp_all add: register_daemon_identity_def register_daemon_def authorize_setup_token_def example_relay_def
      relay_auth_token_has_safe_length_def relay_auth_token_min_bytes_def persist_daemon_registry_state_def
      persist_daemon_registry_values_def atomic_write_def decode_ed25519_wire_def ed25519_public_key_len_def
      demo_key_def demo_crypto_def strip_prefix_def ascii_def Let_def)

theorem daemon_admission_is_exact_witness:
  "\<exists>st1 st2 fx. register_daemon example_sha Write_done 7 (ascii ''daemon-token'') (Some (ascii ''setup-token'')) example_relay = (Inr False, st1, []) \<and>
    authorize_route_admission example_sha example_route (Some (Admit_Daemon (ascii ''daemon-token''))) st1 = Inr () \<and>
    authorize_route_admission example_sha example_route (Some (Admit_Daemon (ascii ''other-token''))) st1 \<noteq> Inr () \<and>
    register_daemon_identity demo_crypto example_sha Write_done Write_done 7 (ascii ''daemon-token'') demo_key
      (Some (ascii ''setup-token'')) example_relay = (Inr False, st2, fx) \<and>
    authorize_route_admission example_sha example_route (Some (Admit_Daemon (ascii ''daemon-token''))) st2 = Inr () \<and>
    daemon_public_key 7 st2 = Some demo_key"
proof -
  obtain st1 where one: "register_daemon example_sha Write_done 7 (ascii ''daemon-token'') (Some (ascii ''setup-token'')) example_relay = (Inr False, st1, [])"
    using example_registered by blast
  obtain st2 fx where two: "register_daemon_identity demo_crypto example_sha Write_done Write_done 7 (ascii ''daemon-token'') demo_key
      (Some (ascii ''setup-token'')) example_relay = (Inr False, st2, fx)"
    using example_registered_key [of Write_done] by auto
  have "example_sha (ascii ''other-token'') \<noteq> example_sha (ascii ''daemon-token'')"
    by (simp add: example_sha_def ascii_def)
  with one two show ?thesis
    using daemon_admission_is_exact [OF example_digest_ok, where w = Write_done and sid = 7 and token = "ascii ''daemon-token''" and
        given = "Some (ascii ''setup-token'')" and st = example_relay and k = demo_crypto and w' = Write_done and w'' = Write_done and key = demo_key]
    by (simp add: in_force_def example_route_def)
qed

text \<open>
  C28. The relay has started, and any registrations follow, with any failures of their writes. Directly after the
  start, and again after every registration that succeeded, a restart (the write of the file at a start succeeds)
  admits exactly the same routes and trusts the same daemon keys as the running relay. This stays so while later
  registrations succeed or are refused, unless the write of a token fails after the rename of the file or the
  second write of a registration with a key fails before the rename. After one of these two failures nothing is
  stated until the next registration that succeeds; that the restart then can differ is shown by
  \<open>refused_registration_takes_effect_after_restart\<close> and \<open>refused_key_is_in_force\<close> below.
\<close>

theorem relay_admission_survives_restart:
  assumes "digest_ok sha" "relay_state_from_args sha Write_done given file0 = (Inr st0, file1)"
    and "st1 = st0 \<or> (\<exists>ops op replaced fx. relay_call k sha op (fold (exec_relay k sha) ops st0) = (Inr replaced, st1, fx))"
    and "list_all in_step later" and "st = fold (exec_relay k sha) later st1"
  shows "\<exists>st' file'. relay_state_from_args sha Write_done given' (rl_registry_file st) = (Inr st', file') \<and>
    (\<forall>p admission. authorize_route_admission sha p admission st' = authorize_route_admission sha p admission st) \<and>
    (\<forall>sid. daemon_public_key sid st' = daemon_public_key sid st)"
proof -
  have st0: "registry_ok st0" by (rule started_ok [OF assms(1,2)])
  then have "registry_ok st1"
    using assms(3) relay_call_ok [OF exec_relays_wf [OF _ assms(1)] assms(1)] by (auto simp: registry_ok_def [of st0])
  with assms(1,4,5) have "registry_ok st" using exec_relays_ok by blast
  from restart_restores [OF this] obtain st' file' where st': "relay_state_from_args sha Write_done given' (rl_registry_file st) = (Inr st', file')"
    "\<And>sid. hm_get (ad_daemon_token_hashes (rl_admission st')) sid = hm_get (ad_daemon_token_hashes (rl_admission st)) sid"
    "\<And>sid. daemon_public_key sid st' = daemon_public_key sid st"
    by blast
  have "authorize_route_admission sha p admission st' = authorize_route_admission sha p admission st" for p admission
    unfolding authorize_route_admission_def st'(2) ..
  with st'(1,3) show ?thesis by blast
qed

text \<open>
  An example: a registration whose file is ahead of the memory, a registration with a key that succeeds, and one
  that fails before the rename.
\<close>

definition example_ops :: "relay_op list" where
  "example_ops =
     [Register 7 (ascii ''daemon-token'') (Some (ascii ''setup-token'')) Write_failed_after_rename,
      Register_key 8 (ascii ''second-token'') demo_key (Some (ascii ''setup-token'')) Write_done Write_done,
      Register 7 (ascii ''newer-token'') (Some (ascii ''setup-token'')) Write_failed_before_rename]"

lemma example_started: "relay_state_from_args example_sha Write_done (ascii ''setup-token'') None = (Inr example_relay, Some [])"
  by (simp add: relay_state_from_args_def read_daemon_registry_file_def List.map_filter_simps new_trusted_with_registry_def
      persist_daemon_registry_state_def persist_daemon_registry_values_def persisted_entries_def atomic_write_def example_relay_def Let_def)

lemmas gate_eval = exec_relay_def example_relay_def register_daemon_identity_def register_daemon_def authorize_setup_token_def
  relay_auth_token_has_safe_length_def relay_auth_token_min_bytes_def persist_daemon_registry_state_def
  persist_daemon_registry_values_def atomic_write_def daemon_public_key_def decode_ed25519_wire_def ed25519_public_key_len_def
  demo_key_def demo_crypto_def strip_prefix_def ascii_def close_server_def registry_default_def Let_def

lemma example_ops_state:
  "daemon_public_key 8 (fold (exec_relay demo_crypto example_sha) example_ops example_relay) = Some demo_key"
  by (simp add: example_ops_def gate_eval)

lemma example_key_stored:
  "\<exists>st fx. relay_call demo_crypto example_sha (example_ops ! 1) (fold (exec_relay demo_crypto example_sha) (take 1 example_ops) example_relay) =
    (Inr False, st, fx)"
  by (simp add: example_ops_def gate_eval)

theorem relay_admission_survives_restart_witness:
  "\<exists>st' file'. relay_state_from_args example_sha Write_done (ascii ''setup-token'')
      (rl_registry_file (fold (exec_relay demo_crypto example_sha) example_ops example_relay)) = (Inr st', file') \<and>
    daemon_public_key 8 st' = Some demo_key"
proof -
  obtain st1 fx where st1: "relay_call demo_crypto example_sha (example_ops ! 1)
      (fold (exec_relay demo_crypto example_sha) (take 1 example_ops) example_relay) = (Inr False, st1, fx)"
    using example_key_stored by blast
  have "fold (exec_relay demo_crypto example_sha) example_ops example_relay = fold (exec_relay demo_crypto example_sha) (drop 2 example_ops) st1"
    using st1 by (simp add: example_ops_def exec_relay_def)
  moreover have "list_all in_step (drop 2 example_ops)" by (simp add: example_ops_def)
  moreover have "\<exists>ops op replaced fx. relay_call demo_crypto example_sha op (fold (exec_relay demo_crypto example_sha) ops example_relay) =
      (Inr replaced, st1, fx)"
    using st1 by blast
  ultimately show ?thesis
    using relay_admission_survives_restart [OF example_digest_ok example_started _ _ refl, of st1 demo_crypto "drop 2 example_ops" "ascii ''setup-token''"]
      example_ops_state by auto
qed

text \<open>
  C29. The relay judges a client's credential as the daemon that issued it does: if it has the daemon's key,
  the daemon accepts a text with some claims if and only if the relay accepts it and the text decodes
  to these claims. In particular the daemon's own access tokens are accepted until they expire, and
  the relay routes them to the daemon that has issued them.
\<close>

theorem relay_gate_agrees_with_daemon:
  assumes "relay_decoder_ok k claims_of" "daemon_public_key sid st = Some public_key"
  shows "(verify_credential k compact public_key sid now kind = Inr claims \<longleftrightarrow>
      verify_signed_credential k claims_of now sid compact kind st \<and>
      (\<exists>h b g. split_dot compact = [h, b, g] \<and> Option.bind (cc_url_decode k b) (cc_claims_of_json k) = Some claims)) \<and>
    (crypto_laws k public_key \<longrightarrow> now \<le> expires \<longrightarrow>
      (\<exists>token. issue_access_token k sid fresh device issued expires = Inr token \<and>
        verify_workspace_access_token k claims_of now token st = Some sid))"
proof (intro conjI impI)
  show iff: "verify_credential k compact public_key sid now kind = Inr claims \<longleftrightarrow>
      verify_signed_credential k claims_of now sid compact kind st \<and>
      (\<exists>h b g. split_dot compact = [h, b, g] \<and> Option.bind (cc_url_decode k b) (cc_claims_of_json k) = Some claims)"
    for compact kind claims by (rule gate_iff [OF assms])
  assume laws: "crypto_laws k public_key" and "now \<le> expires"
  let ?c = "\<lparr>cl_kind = AccessToken, cl_issuer = sid, cl_device_id = Some device, cl_device_public_key = None,
       cl_issued_at_ms = issued, cl_expires_at_ms = expires, cl_credential_id = fresh\<rparr>"
  from sign_then_verify [OF laws, of sid ?c now] \<open>now \<le> expires\<close> obtain token where token: "sign_claims k sid ?c = Inr token"
    "verify_credential k token public_key sid now AccessToken = Inr ?c" by auto
  from token(2) [unfolded iff] obtain h b g where parts: "verify_signed_credential k claims_of now sid token AccessToken st"
    "split_dot token = [h, b, g]" "Option.bind (cc_url_decode k b) (cc_claims_of_json k) = Some ?c" by blast
  then have "Option.bind (cc_url_decode k b) claims_of = Some \<lparr>rc_kind = wire_name AccessToken, rc_issuer = sid, rc_expires_at_ms = expires\<rparr>"
    using assms(1) by (auto simp: relay_decoder_ok_def split: bind_splits)
  with parts token(1) show "\<exists>token. issue_access_token k sid fresh device issued expires = Inr token \<and>
        verify_workspace_access_token k claims_of now token st = Some sid"
    by (simp add: issue_access_token_def verify_workspace_access_token_def)
qed

definition demo_relay_claims :: "u8 list \<Rightarrow> relay_credential_claims option" where
  "demo_relay_claims b =
     map_option (\<lambda>c. \<lparr>rc_kind = wire_name (cl_kind c), rc_issuer = cl_issuer c, rc_expires_at_ms = cl_expires_at_ms c\<rparr>) (demo_claims_of_json b)"

theorem relay_gate_agrees_with_daemon_witness:
  "\<exists>token. issue_access_token demo_crypto 8 [5] 3 100 200 = Inr token \<and>
    verify_workspace_access_token demo_crypto demo_relay_claims 150 token
      (fold (exec_relay demo_crypto example_sha) example_ops example_relay) = Some 8"
proof -
  have "relay_decoder_ok demo_crypto demo_relay_claims" by (simp add: relay_decoder_ok_def demo_crypto_def demo_relay_claims_def)
  from relay_gate_agrees_with_daemon [OF this example_ops_state, of _ 150 _ _ 200] demo_crypto_laws show ?thesis by simp
qed

section \<open>What does not hold\<close>

text \<open>
  A registration whose file cannot be synchronised after the rename is refused, and the running relay
  rejects the new token; but the file has it, so the next start admits it and rejects the old one.
\<close>

lemma refused_registration_takes_effect_after_restart:
  assumes "registry_ok st" "digest_ok sha" "register_daemon sha Write_done sid token given st = (Inr replaced, st1, fx)"
  shows "\<exists>st2 st3 file'. register_daemon sha Write_failed_after_rename sid token given st = (Inl PersistRegistry, st2, []) \<and>
    rl_admission st2 = rl_admission st \<and> relay_state_from_args sha Write_done given' (rl_registry_file st2) = (Inr st3, file') \<and>
    hm_get (ad_daemon_token_hashes (rl_admission st3)) sid = Some (relay_daemon_token_hash sha token)"
proof -
  have "registry_wf st" using assms(1) by (simp add: registry_ok_def)
  from register_daemon_file [OF assms(3) register_daemon_wf [OF this assms(2,3)]] have st1: "registry_ok st1" by simp
  have "\<exists>st2. register_daemon sha Write_failed_after_rename sid token given st = (Inl PersistRegistry, st2, []) \<and>
      rl_admission st2 = rl_admission st \<and> rl_registry_file st2 = rl_registry_file st1"
    using assms(3)
    by (auto simp: register_daemon_def persist_daemon_registry_values_def atomic_write_def Let_def close_server_def
        split: sum.splits if_splits prod.splits option.splits)
  with restart_restores [OF st1, where sha = sha and given' = given'] register_daemon_accepted(6) [OF assms(3)] show ?thesis by auto
qed

text \<open>
  A registration with a key whose second write fails is refused as well, but here the running relay uses
  the new token and the new key, and only a restart forgets the key.
\<close>

lemma refused_key_is_in_force:
  assumes "registry_ok st" "digest_ok sha" "register_daemon sha Write_done sid token given st = (Inr replaced, st1, fx)"
    and "decode_ed25519_wire k public_key ed25519_public_key_len \<noteq> None"
  shows "\<exists>st2 st3 file'. register_daemon_identity k sha Write_done Write_failed_before_rename sid token public_key given st = (Inl PersistRegistry, st2, fx) \<and>
    daemon_public_key sid st2 = Some public_key \<and> relay_state_from_args sha Write_done given' (rl_registry_file st2) = (Inr st3, file') \<and>
    daemon_public_key sid st3 = daemon_public_key sid st"
proof -
  have "registry_wf st" using assms(1) by (simp add: registry_ok_def)
  from register_daemon_file [OF assms(3) register_daemon_wf [OF this assms(2,3)]] have st1: "registry_ok st1" by simp
  then have path: "rl_registry_path st1" by (simp add: registry_ok_def registry_wf_def Let_def)
  have same: "daemon_public_key sid st1 = daemon_public_key sid st"
    using register_daemon_accepted(7) [OF assms(3)] by (simp add: daemon_public_key_def)
  show ?thesis
    using restart_restores [OF st1, where sha = sha and given' = given'] assms(3,4) same path
    by (auto simp: register_daemon_identity_def persist_daemon_registry_state_def persist_daemon_registry_values_def
        atomic_write_def daemon_public_key_def Let_def)
qed

text \<open>
  Admission and registration of a route are two critical sections. If the daemon's token is replaced
  between them, the connection with the old token is registered after the replacement has closed all
  connections, and stays.
\<close>

lemma replaced_token_gets_through:
  defines "old \<equiv> ascii ''daemon-token''" and "newer \<equiv> ascii ''newer-token''" and "given \<equiv> Some (ascii ''setup-token'')"
  shows "\<exists>reg st' fx. bind_socket_route example_sha (\<lambda>s e. Sent) [] 0 1 True
      (\<lambda>st. fst (snd (register_daemon example_sha Write_done 7 newer given st)))
      example_route (Some (Admit_Daemon old)) (exec_relay demo_crypto example_sha (Register 7 old given Write_done) example_relay) = (Bound reg, st', fx) \<and>
    daemon_control_connected 7 (rl_inner st') = Some True \<and>
    authorize_route_admission example_sha example_route (Some (Admit_Daemon old)) st' = Inl AdmissionRejected"
proof -
  have long: "relay_auth_token_has_safe_length old" "relay_auth_token_has_safe_length newer" "relay_auth_token_has_safe_length (ascii ''setup-token'')"
    by (simp_all add: old_def newer_def relay_auth_token_has_safe_length_def relay_auth_token_min_bytes_def ascii_def)
  have "example_sha newer \<noteq> example_sha old" by (simp add: old_def newer_def example_sha_def ascii_def)
  then have other: "relay_daemon_token_hash example_sha newer \<noteq> relay_daemon_token_hash example_sha old"
    by (simp add: token_hash_eq_iff [OF example_digest_ok])
  show ?thesis
    using long other
    by (simp add: exec_relay_def bind_socket_route_def example_route_def authorize_route_admission_def register_route_def register_def
        register_transport_def register_daemon_control_def example_relay_def register_daemon_def authorize_setup_token_def given_def
        persist_daemon_registry_values_def atomic_write_def close_server_def registry_default_def daemon_control_connected_def
        room_default_def clear_daemon_control_and_dependents_def close_clients_def wrap_add64_def Let_def)
qed

end
