(* ===== verification/Installer.thy ===== *)
theory Installer
  imports Text_Lib
begin

text \<open>
  The managed installer (\<open>terminstall/src/lib.rs\<close>): the options of \<open>install\<close> and \<open>uninstall\<close>, the defaults of a
  fresh installation, the plan that is shown, and \<open>run_with\<close>, which hands everything to the embedded
  shell script. The operations of the trait \<open>Runtime\<close> are the boundary: their answers are the record
  \<open>installer_runtime\<close>, and what the installer prints, asks and executes is a list of events.
\<close>

type_synonym os_string = "u8 list"

datatype installer_component = Termd | Termrelay | Termctl

fun binary_name :: "installer_component \<Rightarrow> os_string" where
  "binary_name Termd = ascii ''termd''"
| "binary_name Termrelay = ascii ''termrelay''"
| "binary_name Termctl = ascii ''termctl''"

datatype install_action = Install | Uninstall

datatype installer_error =
    UnknownArgument os_string
  | DuplicateArgument os_string
  | ConflictingArguments os_string os_string
  | MissingValue os_string
  | EmptyValue os_string
  | PurgeUnsupported
  | NonInteractive
  | RelayTokenRequired
  | EmptyRelayToken
  | InvalidRelayUrl
  | Cancelled
  | System_error string
  | ChildFailed installer_component os_string

section \<open>Options\<close>

record flag_specification =
  fl_flag :: os_string
  fl_summary :: os_string
  fl_takes_value :: bool
  fl_script_env :: "os_string option"

definition boolean_flag :: "string \<Rightarrow> string \<Rightarrow> os_string \<times> flag_specification" where
  "boolean_flag flag summary =
     (ascii flag, \<lparr>fl_flag = ascii flag, fl_summary = ascii summary, fl_takes_value = False, fl_script_env = None\<rparr>)"

definition value_flag :: "string \<Rightarrow> string \<Rightarrow> string option \<Rightarrow> flag_specification" where
  "value_flag flag summary env =
     \<lparr>fl_flag = ascii flag, fl_summary = ascii summary, fl_takes_value = True, fl_script_env = map_option ascii env\<rparr>"

fun install_flags :: "installer_component \<Rightarrow> (os_string \<times> flag_specification) list" where
  "install_flags Termd =
     [boolean_flag ''--web'' ''embedded Web UI enabled'',
      boolean_flag ''--no-web'' ''embedded Web UI disabled'',
      boolean_flag ''--public'' ''public listen alias'',
      (ascii ''--listen'', value_flag ''--listen'' ''listen address'' None),
      (ascii ''--relay'', value_flag ''--relay'' ''trusted relay'' (Some ''TERMD_INSTALL_ARG_RELAY_URL'')),
      (ascii ''--relay-url'', value_flag ''--relay'' ''trusted relay'' (Some ''TERMD_INSTALL_ARG_RELAY_URL'')),
      (ascii ''--relay-daemon-token-file'',
        value_flag ''--relay-daemon-token-file'' ''relay daemon token file'' (Some ''TERMD_INSTALL_ARG_RELAY_DAEMON_TOKEN_FILE'')),
      (ascii ''--relay-setup-token-file'',
        value_flag ''--relay-setup-token-file'' ''relay setup token file'' (Some ''TERMD_INSTALL_ARG_RELAY_SETUP_TOKEN_FILE'')),
      (ascii ''--relay-token'', value_flag ''--relay-token'' ''relay setup token'' (Some ''TERMD_INSTALL_ARG_RELAY_SETUP_TOKEN'')),
      (ascii ''--proxy'', value_flag ''--proxy'' ''outbound proxy'' (Some ''TERMD_INSTALL_ARG_PROXY'')),
      (ascii ''--relay-proxy'', value_flag ''--proxy'' ''outbound proxy'' (Some ''TERMD_INSTALL_ARG_PROXY'')),
      (ascii ''--tls-cert'', value_flag ''--tls-cert'' ''TLS certificate'' None),
      (ascii ''--tls-key'', value_flag ''--tls-key'' ''TLS private key'' (Some ''TERMD_INSTALL_ARG_TLS_KEY'')),
      (ascii ''--supervisor-version'', value_flag ''--supervisor-version'' ''supervisor compatibility'' None),
      (ascii ''--user'', value_flag ''--user'' ''service user'' None)]"
| "install_flags Termrelay =
     [boolean_flag ''--web'' ''embedded Web UI enabled'',
      boolean_flag ''--no-web'' ''embedded Web UI disabled'',
      boolean_flag ''--public'' ''public listen alias'',
      (ascii ''--listen'', value_flag ''--listen'' ''listen address'' None),
      (ascii ''--setup-token-file'',
        value_flag ''--setup-token-file'' ''relay setup token file'' (Some ''TERMD_INSTALL_ARG_SETUP_TOKEN_FILE'')),
      (ascii ''--daemon-registry'', value_flag ''--daemon-registry'' ''daemon registry'' None),
      (ascii ''--tls-cert'', value_flag ''--tls-cert'' ''TLS certificate'' None),
      (ascii ''--tls-key'', value_flag ''--tls-key'' ''TLS private key'' (Some ''TERMD_INSTALL_ARG_TLS_KEY''))]"
| "install_flags Termctl = []"

definition install_flag :: "installer_component \<Rightarrow> os_string \<Rightarrow> flag_specification option" where
  "install_flag c flag = map_of (install_flags c) flag"

definition safe_unknown_argument :: "os_string \<Rightarrow> os_string" where
  "safe_unknown_argument a = (if starts_with (ascii ''-'') a then a else ascii ''<argument>'')"

record parsed_options =
  po_action :: install_action
  po_version :: os_string
  po_supervisor_version :: "os_string option"
  po_yes :: bool
  po_dry_run :: bool
  po_help :: bool
  po_purge :: bool
  po_allow_session_loss :: bool
  po_relay_explicit :: bool
  po_prompt_relay_token :: bool
  po_explicit_install_settings :: bool
  po_script_args :: "os_string list"
  po_script_env :: "(os_string \<times> os_string) list"
  po_summary :: "os_string list"

definition env_relay_url :: os_string where
  "env_relay_url = ascii ''TERMD_INSTALL_ARG_RELAY_URL''"

definition env_setup_token :: os_string where
  "env_setup_token = ascii ''TERMD_INSTALL_ARG_RELAY_SETUP_TOKEN''"

definition env_setup_token_file :: os_string where
  "env_setup_token_file = ascii ''TERMD_INSTALL_ARG_RELAY_SETUP_TOKEN_FILE''"

abbreviation has_env :: "os_string \<Rightarrow> parsed_options \<Rightarrow> bool" where
  "has_env name p \<equiv> name \<in> fst ` set (po_script_env p)"

text \<open>A flag with its value: a sensitive value goes to the environment, any other to the arguments.\<close>

definition add_value :: "flag_specification \<Rightarrow> os_string \<Rightarrow> parsed_options \<Rightarrow> installer_error + parsed_options" where
  "add_value s v p =
     (if v = [] then Inl (EmptyValue (fl_flag s))
      else case fl_script_env s of
        Some name \<Rightarrow>
          if name = env_relay_url \<and> has_env name p then Inl (DuplicateArgument (ascii ''--relay''))
          else if name = env_setup_token \<and> has_env name p then Inl (DuplicateArgument (ascii ''--relay-token''))
          else if name = env_setup_token_file \<and> has_env name p then Inl (DuplicateArgument (ascii ''--relay-setup-token-file''))
          else Inr (p\<lparr>po_relay_explicit := (name = env_relay_url \<or> po_relay_explicit p),
                      po_script_env := po_script_env p @ [(name, v)],
                      po_summary := po_summary p @ [fl_summary s @ ascii '': configured'']\<rparr>)
      | None \<Rightarrow>
          Inr (p\<lparr>po_script_args := po_script_args p @ [fl_flag s, v],
                 po_summary := po_summary p @ [fl_summary s @ ascii '': '' @ utf8_lossy v]\<rparr>))"

definition add_script_flag :: "os_string \<Rightarrow> os_string \<Rightarrow> parsed_options \<Rightarrow> parsed_options" where
  "add_script_flag flag summary p =
     p\<lparr>po_script_args := po_script_args p @ [flag], po_summary := po_summary p @ [summary @ ascii '': yes'']\<rparr>"

text \<open>One turn of the loop over the arguments: the arguments that are left, and the options so far.\<close>

definition parse_install_flag ::
  "installer_component \<Rightarrow> os_string \<Rightarrow> os_string option \<Rightarrow> os_string list \<Rightarrow> parsed_options
    \<Rightarrow> installer_error + os_string list \<times> parsed_options" where
  "parse_install_flag c flag inline rest p =
     (case install_flag c flag of
        None \<Rightarrow> Inl (UnknownArgument (safe_unknown_argument flag))
      | Some s \<Rightarrow>
          if fl_takes_value s
          then (case (inline, rest) of
                  (Some v, _) \<Rightarrow> map_sum id (Pair rest) (add_value s v (p\<lparr>po_explicit_install_settings := True\<rparr>))
                | (None, v # rest') \<Rightarrow> map_sum id (Pair rest') (add_value s v (p\<lparr>po_explicit_install_settings := True\<rparr>))
                | (None, []) \<Rightarrow> Inl (MissingValue (fl_flag s)))
          else if inline \<noteq> None then Inl (UnknownArgument (safe_unknown_argument flag))
          else Inr (rest, add_script_flag (fl_flag s) (fl_summary s) (p\<lparr>po_explicit_install_settings := True\<rparr>)))"

definition parse_one ::
  "installer_component \<Rightarrow> os_string \<Rightarrow> os_string list \<Rightarrow> parsed_options \<Rightarrow> installer_error + os_string list \<times> parsed_options" where
  "parse_one c arg rest p =
     (if \<not> utf8_valid arg then Inl (UnknownArgument (ascii ''<non-UTF-8>''))
      else case split_once 61 arg of (flag, inline) \<Rightarrow>
        if flag \<in> {ascii ''-h'', ascii ''--help''} \<and> inline = None then Inr (rest, p\<lparr>po_help := True\<rparr>)
        else if flag = ascii ''--dry-run'' \<and> inline = None then Inr (rest, p\<lparr>po_dry_run := True\<rparr>)
        else if flag = ascii ''--yes'' \<and> inline = None then Inr (rest, p\<lparr>po_yes := True\<rparr>)
        else if flag = ascii ''--allow-session-loss'' \<and> inline = None \<and> po_action p = Install \<and> c = Termd
        then Inr (rest, p\<lparr>po_allow_session_loss := True,
                          po_script_args := po_script_args p @ [ascii ''--allow-session-loss''],
                          po_summary := po_summary p @ [ascii ''allow incompatible supervisor upgrade to remove sessions: yes'']\<rparr>)
        else if flag = ascii ''--purge'' \<and> inline = None \<and> po_action p = Uninstall
        then (if c = Termctl then Inl PurgeUnsupported
              else Inr (rest, p\<lparr>po_purge := True, po_script_args := po_script_args p @ [ascii ''--purge''],
                                po_summary := po_summary p @ [ascii ''purge local state: yes'']\<rparr>))
        else if po_action p = Install then parse_install_flag c flag inline rest p
        else Inl (UnknownArgument (safe_unknown_argument flag)))"

lemma parse_one_shorter: "parse_one c arg rest p = Inr (rest', p') \<Longrightarrow> length rest' < Suc (length rest)"
  by (auto simp: parse_one_def parse_install_flag_def split: if_splits option.splits list.splits prod.splits sum.splits)
    (auto simp: map_sum_def split: sum.splits)

function parse_args :: "installer_component \<Rightarrow> os_string list \<Rightarrow> parsed_options \<Rightarrow> installer_error + parsed_options" where
  "parse_args c [] p = Inr p"
| "parse_args c (arg # rest) p =
     (case parse_one c arg rest p of Inl e \<Rightarrow> Inl e | Inr (rest', p') \<Rightarrow> parse_args c rest' p')"
  by pat_completeness auto
termination
  by (relation "measure (\<lambda>(c, args, p). length args)") (auto dest: parse_one_shorter)

definition parsed_start :: "install_action \<Rightarrow> os_string \<Rightarrow> os_string option \<Rightarrow> parsed_options" where
  "parsed_start act ver spv =
     \<lparr>po_action = act, po_version = ver, po_supervisor_version = (if act = Install then spv else None), po_yes = False,
      po_dry_run = False, po_help = False, po_purge = False, po_allow_session_loss = False, po_relay_explicit = False,
      po_prompt_relay_token = False, po_explicit_install_settings = False, po_script_args = [], po_script_env = [], po_summary = []\<rparr>"

definition token_prompt_summary :: os_string where
  "token_prompt_summary = ascii ''relay setup token: will prompt securely during installation''"

definition finish_parse :: "parsed_options \<Rightarrow> installer_error + parsed_options" where
  "finish_parse p =
     (if has_env env_setup_token p \<and> has_env env_setup_token_file p
      then Inl (ConflictingArguments (ascii ''--relay-token'') (ascii ''--relay-setup-token-file''))
      else if po_relay_explicit p \<and> \<not> has_env env_setup_token p \<and> \<not> has_env env_setup_token_file p
      then Inr (p\<lparr>po_prompt_relay_token := True, po_summary := po_summary p @ [token_prompt_summary]\<rparr>)
      else Inr p)"

definition parse_options ::
  "installer_component \<Rightarrow> install_action \<Rightarrow> os_string \<Rightarrow> os_string option \<Rightarrow> os_string list \<Rightarrow> installer_error + parsed_options" where
  "parse_options c act ver spv args =
     (case parse_args c args (parsed_start act ver spv) of Inl e \<Rightarrow> Inl e | Inr p \<Rightarrow> finish_parse p)"

section \<open>The answers of the system\<close>

record self_binary =
  sb_display_path :: os_string
  sb_installer_path :: os_string

record invocation =
  iv_component :: installer_component
  iv_args :: "os_string list"
  iv_env :: "(os_string \<times> os_string) list"

text \<open>
  The answers of the system. \<open>ir_random\<close> is what \<open>/dev/urandom\<close> delivers and \<open>ir_execute\<close> how the shell script
  ends. The lines that \<open>read_line\<close> delivers are a list of their own.
\<close>

record installer_runtime =
  ir_tty :: bool
  ir_self_binary :: "installer_error + self_binary"
  ir_prefix :: os_string
  ir_managed :: "installer_error + bool"
  ir_sudo_user :: "os_string option"
  ir_output :: "installer_error + unit"
  ir_confirm :: "installer_error + bool"
  ir_secret :: "installer_error + os_string"
  ir_random :: "installer_error + u8 list"
  ir_execute :: "installer_error + bool \<times> os_string"

datatype installer_event =
    Printed os_string
  | Prompted os_string
  | Executed invocation

type_synonym dialogue = "installer_event list \<times> (installer_error + os_string) list"

definition read_line :: "os_string \<Rightarrow> dialogue \<Rightarrow> (installer_error + os_string) \<times> dialogue" where
  "read_line prompt d =
     (case d of (es, answers) \<Rightarrow>
        (case answers of
           [] \<Rightarrow> (Inr [], es @ [Prompted prompt], [])
         | a # rest \<Rightarrow> (a, es @ [Prompted prompt], rest)))"

definition is_yes :: "os_string \<Rightarrow> bool" where
  "is_yes answer \<longleftrightarrow> answer = ascii ''y'' \<or> answer = ascii ''yes''"

definition prompt_yes_no :: "os_string \<Rightarrow> bool \<Rightarrow> dialogue \<Rightarrow> (installer_error + bool) \<times> dialogue" where
  "prompt_yes_no prompt dflt d =
     (case read_line prompt d of
        (Inl e, d') \<Rightarrow> (Inl e, d')
      | (Inr a, d') \<Rightarrow> (Inr (if a = [] then dflt else is_yes (to_ascii_lowercase a)), d'))"

definition optional_session_user :: "dialogue \<Rightarrow> (installer_error + os_string option) \<times> dialogue" where
  "optional_session_user d =
     (case read_line (ascii ''Session user (leave empty to use the managed termd service user): '') d of
        (Inl e, d') \<Rightarrow> (Inl e, d')
      | (Inr a, d') \<Rightarrow> (Inr (if a = [] then None else Some a), d'))"

section \<open>Defaults of a fresh installation\<close>

definition add_script_value :: "os_string \<Rightarrow> os_string \<Rightarrow> os_string \<Rightarrow> parsed_options \<Rightarrow> parsed_options" where
  "add_script_value flag v summary p =
     p\<lparr>po_script_args := po_script_args p @ [flag, v], po_summary := po_summary p @ [summary @ ascii '': '' @ v]\<rparr>"

definition web_and_listen :: "string \<Rightarrow> parsed_options \<Rightarrow> parsed_options" where
  "web_and_listen address p =
     add_script_value (ascii ''--listen'') (ascii address) (ascii ''listen address'')
       (add_script_flag (ascii ''--web'') (ascii ''embedded Web UI enabled by fresh-install default'') p)"

definition ask_session_user :: "installer_runtime \<Rightarrow> dialogue \<Rightarrow> (installer_error + os_string option) \<times> dialogue" where
  "ask_session_user rt d =
     (case ir_sudo_user rt of
        None \<Rightarrow> optional_session_user d
      | Some u \<Rightarrow>
          (case prompt_yes_no (ascii ''Use sudo login user '' @ [39] @ utf8_lossy u @ [39] @ ascii '' for terminal sessions? [Y/n] '') True d of
             (Inl e, d') \<Rightarrow> (Inl e, d')
           | (Inr True, d') \<Rightarrow> (Inr (Some u), d')
           | (Inr False, d') \<Rightarrow> optional_session_user d'))"

definition add_user :: "os_string option \<Rightarrow> parsed_options \<Rightarrow> parsed_options" where
  "add_user u p =
     (case u of
        None \<Rightarrow> p
      | Some u \<Rightarrow> p\<lparr>po_script_args := po_script_args p @ [ascii ''--user'', u],
                     po_summary := po_summary p @ [ascii ''service user: '' @ utf8_lossy u]\<rparr>)"

text \<open>\<open>url_of\<close> stands for \<open>reqwest::Url::parse\<close>: the scheme, and whether there is a host.\<close>

definition ask_relay ::
  "(os_string \<Rightarrow> (os_string \<times> bool) option) \<Rightarrow> parsed_options \<Rightarrow> dialogue \<Rightarrow> (installer_error + parsed_options) \<times> dialogue" where
  "ask_relay url_of p d =
     (case prompt_yes_no (ascii ''Connect this daemon through a trusted relay? [y/N] '') False d of
        (Inl e, d1) \<Rightarrow> (Inl e, d1)
      | (Inr False, d1) \<Rightarrow> (Inr p, d1)
      | (Inr True, d1) \<Rightarrow>
          (case read_line (ascii ''Relay WebSocket URL (wss://...): '') d1 of
             (Inl e, d2) \<Rightarrow> (Inl e, d2)
           | (Inr url, d2) \<Rightarrow>
               (case url_of url of
                  None \<Rightarrow> (Inl InvalidRelayUrl, d2)
                | Some (scheme, host) \<Rightarrow>
                    if (scheme \<noteq> ascii ''ws'' \<and> scheme \<noteq> ascii ''wss'') \<or> \<not> host then (Inl InvalidRelayUrl, d2)
                    else (Inr (p\<lparr>po_script_env := po_script_env p @ [(env_relay_url, url)], po_relay_explicit := True,
                                 po_prompt_relay_token := True,
                                 po_summary := po_summary p @ [ascii ''trusted relay: configured'', token_prompt_summary]\<rparr>), d2))))"

definition apply_fresh_install_defaults ::
  "(os_string \<Rightarrow> (os_string \<times> bool) option) \<Rightarrow> installer_component \<Rightarrow> installer_runtime \<Rightarrow> parsed_options \<Rightarrow> dialogue
    \<Rightarrow> (installer_error + parsed_options) \<times> dialogue" where
  "apply_fresh_install_defaults url_of c rt p d =
     (if po_action p \<noteq> Install \<or> po_explicit_install_settings p then (Inr p, d)
      else case ir_managed rt of
        Inl e \<Rightarrow> (Inl e, d)
      | Inr True \<Rightarrow> (Inr p, d)
      | Inr False \<Rightarrow>
          (case c of
             Termctl \<Rightarrow> (Inr p, d)
           | Termrelay \<Rightarrow> (Inr (web_and_listen ''127.0.0.1:8080'' p), d)
           | Termd \<Rightarrow>
               (let p1 = web_and_listen ''127.0.0.1:8765'' p in
                if po_dry_run p1 \<or> po_yes p1 \<or> \<not> ir_tty rt then (Inr p1, d)
                else case ask_session_user rt d of
                  (Inl e, d1) \<Rightarrow> (Inl e, d1)
                | (Inr u, d1) \<Rightarrow> ask_relay url_of (add_user u p1) d1)))"

section \<open>The plan\<close>

definition text_line :: "os_string \<Rightarrow> os_string" where
  "text_line t = t @ [10]"

definition push_path :: "os_string \<Rightarrow> os_string \<Rightarrow> os_string" where
  "push_path p name = (if p = [] then name else if last p = 47 then p @ name else p @ [47] @ name)"

definition render_plan :: "installer_component \<Rightarrow> parsed_options \<Rightarrow> os_string \<Rightarrow> os_string \<Rightarrow> os_string" where
  "render_plan c p exe prefix =
     (if po_dry_run p then text_line (ascii ''Dry run: no files or services will be changed.'') else []) @
     text_line (ascii ''[1/3] Component'') @
     text_line (ascii ''  action: '' @ (case po_action p of Install \<Rightarrow> ascii ''install or upgrade'' | Uninstall \<Rightarrow> ascii ''uninstall'')) @
     text_line (ascii ''  component: '' @ binary_name c @ ascii '' '' @ po_version p) @
     text_line (ascii ''  binary: '' @ utf8_lossy exe) @
     text_line (ascii ''  target: '' @ utf8_lossy (push_path (push_path prefix (ascii ''bin'')) (binary_name c))) @
     text_line (ascii ''[2/3] Configuration'') @
     (if po_summary p = []
      then text_line (ascii ''  existing configuration is preserved; fresh installs use safe defaults'')
      else concat (map (\<lambda>s. text_line (ascii ''  '' @ s)) (po_summary p))) @
     text_line (ascii ''[3/3] Safety'') @
     text_line (ascii ''  the embedded installer keeps existing rollback and service checks'') @
     (if po_purge p then text_line (ascii ''  WARNING: purge removes component state and cannot be undone'')
      else if po_allow_session_loss p
      then text_line (ascii ''  WARNING: session loss is authorized if supervisor compatibility changes'')
      else if po_action p = Uninstall then text_line (ascii ''  local state is preserved'')
      else text_line (ascii ''  network installer download and source-build fallback are bypassed''))"

definition help_text :: "installer_component \<Rightarrow> install_action \<Rightarrow> os_string" where
  "help_text c act =
     text_line (ascii ''Usage: '' @ binary_name c @ (case act of Install \<Rightarrow> ascii '' install'' | Uninstall \<Rightarrow> ascii '' uninstall'') @ ascii '' [OPTIONS]'') @
     concat (map (text_line \<circ> ascii)
       [[], ''Common options:'',
        ''  --dry-run  Show the non-sensitive execution plan without requiring root'',
        ''  --yes      Run non-interactively after reviewing the plan'',
        ''  -h, --help Show this help'']) @
     concat (map (text_line \<circ> ascii)
       (case (act, c) of
          (Uninstall, Termctl) \<Rightarrow> [[], ''termctl uninstall removes only the installed binary; --purge is unsupported.'']
        | (Uninstall, _) \<Rightarrow> [''  --purge    Also remove component state and the managed system user'']
        | (Install, Termd) \<Rightarrow>
            [[], ''termd options:'', ''  --web | --no-web'', ''  --listen <HOST:PORT> | --public'', ''  --relay <WS_URL>'',
             ''  --relay-token <TOKEN>'', ''  --relay-daemon-token-file <PATH>'', ''  --relay-setup-token-file <PATH>'',
             ''  --proxy <URL>'', ''  --tls-cert <PATH> --tls-key <PATH>'', ''  --user <USER>'',
             ''  --supervisor-version <VERSION>'',
             ''  --allow-session-loss  Permit an incompatible supervisor upgrade to remove sessions'']
        | (Install, Termrelay) \<Rightarrow>
            [[], ''termrelay options:'', ''  --web | --no-web'', ''  --listen <HOST:PORT> | --public'',
             ''  --setup-token-file <PATH>'', ''  --daemon-registry <PATH>'', ''  --tls-cert <PATH> --tls-key <PATH>'']
        | (Install, Termctl) \<Rightarrow> []))"

section \<open>Running\<close>

definition env_verify :: os_string where
  "env_verify = ascii ''TERMD_INSTALL_VERIFY_HELPER''"

definition env_helper_nonce :: os_string where
  "env_helper_nonce = ascii ''TERMD_INSTALL_HELPER_NONCE''"

definition generate_internal_helper_nonce :: "installer_runtime \<Rightarrow> installer_error + os_string" where
  "generate_internal_helper_nonce rt =
     map_sum id (\<lambda>bytes. concat (map (\<lambda>b. [hex_digit (b div 16), hex_digit (b mod 16)]) bytes)) (ir_random rt)"

definition execute :: "installer_runtime \<Rightarrow> invocation \<Rightarrow> installer_event list \<Rightarrow> (installer_error + unit) \<times> installer_event list" where
  "execute rt iv es =
     (case ir_execute rt of
        Inl e \<Rightarrow> Inl e
      | Inr (success, description) \<Rightarrow> if success then Inr () else Inl (ChildFailed (iv_component iv) description),
      es @ [Executed iv])"

definition self_env :: "self_binary \<Rightarrow> os_string \<Rightarrow> (os_string \<times> os_string) list" where
  "self_env sb ver =
     [(ascii ''TERMD_INSTALL_SELF_MODE'', ascii ''embedded-v1''), (ascii ''TERMD_INSTALL_SELF_BINARY'', sb_installer_path sb),
      (ascii ''TERMD_VERSION'', ver)]"

text \<open>The rehearsal: the script only verifies the helper.\<close>

definition dry_run ::
  "installer_component \<Rightarrow> parsed_options \<Rightarrow> self_binary \<Rightarrow> installer_runtime \<Rightarrow> installer_event list
    \<Rightarrow> (installer_error + unit) \<times> installer_event list" where
  "dry_run c p sb rt es =
     (if c = Termctl then (Inr (), es)
      else case generate_internal_helper_nonce rt of
        Inl e \<Rightarrow> (Inl e, es)
      | Inr nonce \<Rightarrow>
          execute rt \<lparr>iv_component = c, iv_args = [],
                      iv_env = self_env sb (po_version p) @ [(env_helper_nonce, nonce), (env_verify, ascii ''1'')]\<rparr> es)"

text \<open>The consent: \<open>--yes\<close>, or an answer at the terminal.\<close>

definition obtain_consent :: "parsed_options \<Rightarrow> installer_runtime \<Rightarrow> installer_event list \<Rightarrow> (installer_error + unit) \<times> installer_event list" where
  "obtain_consent p rt es =
     (if po_prompt_relay_token p \<and> \<not> ir_tty rt then (Inl RelayTokenRequired, es)
      else if po_yes p then (Inr (), es)
      else if \<not> ir_tty rt then (Inl NonInteractive, es)
      else (case ir_confirm rt of
              Inl e \<Rightarrow> Inl e
            | Inr ok \<Rightarrow> if ok then Inr () else Inl Cancelled,
            es @ [Prompted (ascii ''Continue? [y/N] '')]))"

definition read_relay_token ::
  "parsed_options \<Rightarrow> installer_runtime \<Rightarrow> installer_event list \<Rightarrow> (installer_error + os_string option) \<times> installer_event list" where
  "read_relay_token p rt es =
     (if po_prompt_relay_token p
      then (map_sum id Some (ir_secret rt), es @ [Prompted (ascii ''Relay setup token (input hidden): '')])
      else (Inr None, es))"

definition install_env ::
  "installer_component \<Rightarrow> parsed_options \<Rightarrow> self_binary \<Rightarrow> os_string \<Rightarrow> os_string option \<Rightarrow> os_string option \<Rightarrow> (os_string \<times> os_string) list" where
  "install_env c p sb prefix nonce token =
     self_env sb (po_version p) @ [(ascii ''TERMD_INSTALL_PREFIX'', prefix)] @
     (case nonce of None \<Rightarrow> [] | Some n \<Rightarrow> [(env_helper_nonce, n)]) @
     po_script_env p @
     (case token of None \<Rightarrow> [] | Some t \<Rightarrow> [(env_setup_token, t)]) @
     (if c = Termd then (case po_supervisor_version p of None \<Rightarrow> [] | Some v \<Rightarrow> [(ascii ''TERMD_REQUIRED_SUPERVISOR_VERSION'', v)]) else [])"

definition run_script ::
  "installer_component \<Rightarrow> parsed_options \<Rightarrow> self_binary \<Rightarrow> installer_runtime \<Rightarrow> os_string option \<Rightarrow> installer_event list
    \<Rightarrow> (installer_error + unit) \<times> installer_event list" where
  "run_script c p sb rt token es =
     (case (if c = Termctl then Inr None else map_sum id Some (generate_internal_helper_nonce rt)) of
        Inl e \<Rightarrow> (Inl e, es)
      | Inr nonce \<Rightarrow>
          execute rt \<lparr>iv_component = c,
                      iv_args = (if po_action p = Uninstall then [ascii ''--uninstall''] else []) @ po_script_args p,
                      iv_env = install_env c p sb (ir_prefix rt) nonce token\<rparr> es)"

definition run_parsed ::
  "(os_string \<Rightarrow> (os_string \<times> bool) option) \<Rightarrow> installer_component \<Rightarrow> installer_runtime \<Rightarrow> (installer_error + os_string) list \<Rightarrow> parsed_options
    \<Rightarrow> (installer_error + unit) \<times> installer_event list" where
  "run_parsed url_of c rt answers p0 =
     (if po_help p0 then (ir_output rt, [Printed (help_text c (po_action p0))])
      else case apply_fresh_install_defaults url_of c rt p0 ([], answers) of
        (Inl e, es, _) \<Rightarrow> (Inl e, es)
      | (Inr p, es, _) \<Rightarrow>
          (case ir_self_binary rt of
             Inl e \<Rightarrow> (Inl e, es)
           | Inr sb \<Rightarrow>
               (let es1 = es @ [Printed (render_plan c p (sb_display_path sb) (ir_prefix rt))] in
                case ir_output rt of
                  Inl e \<Rightarrow> (Inl e, es1)
                | Inr _ \<Rightarrow>
                    if po_dry_run p then dry_run c p sb rt es1
                    else (case obtain_consent p rt es1 of
                            (Inl e, es2) \<Rightarrow> (Inl e, es2)
                          | (Inr _, es2) \<Rightarrow>
                              (case read_relay_token p rt es2 of
                                 (Inl e, es3) \<Rightarrow> (Inl e, es3)
                               | (Inr token, es3) \<Rightarrow> run_script c p sb rt token es3)))))"

definition run_with ::
  "(os_string \<Rightarrow> (os_string \<times> bool) option) \<Rightarrow> installer_component \<Rightarrow> install_action \<Rightarrow> os_string \<Rightarrow> os_string option \<Rightarrow> os_string list
    \<Rightarrow> installer_runtime \<Rightarrow> (installer_error + os_string) list \<Rightarrow> (installer_error + unit) \<times> installer_event list" where
  "run_with url_of c act ver spv args rt answers =
     (case parse_options c act ver spv args of
        Inl e \<Rightarrow> (Inl e, [])
      | Inr p \<Rightarrow> run_parsed url_of c rt answers p)"

end
