(* ===== verification/Installer_Secrets.thy ===== *)
theory Installer_Secrets
  imports Installer
begin

text \<open>
  What the installer shows of its options: the values of sensitive options reach the script only through
  its environment, which other users of the machine cannot read, never through its arguments, the plan,
  a prompt or an error. The statement compares two runs whose options differ only in these values.
\<close>

section \<open>Arguments that differ in sensitive values only\<close>

definition takes_value :: "installer_component \<Rightarrow> os_string \<Rightarrow> bool" where
  "takes_value c flag \<longleftrightarrow> (case install_flag c flag of None \<Rightarrow> False | Some s \<Rightarrow> fl_takes_value s)"

definition is_sensitive :: "installer_component \<Rightarrow> os_string \<Rightarrow> bool" where
  "is_sensitive c flag \<longleftrightarrow> (case install_flag c flag of None \<Rightarrow> False | Some s \<Rightarrow> fl_takes_value s \<and> fl_script_env s \<noteq> None)"

inductive same_but_secrets :: "installer_component \<Rightarrow> os_string list \<Rightarrow> os_string list \<Rightarrow> bool" for c where
  none: "same_but_secrets c [] []"
| inline: "is_sensitive c flag \<Longrightarrow> v \<noteq> [] \<Longrightarrow> w \<noteq> [] \<Longrightarrow> utf8_valid (flag @ 61 # v) \<Longrightarrow> utf8_valid (flag @ 61 # w)
    \<Longrightarrow> same_but_secrets c as bs \<Longrightarrow> same_but_secrets c ((flag @ 61 # v) # as) ((flag @ 61 # w) # bs)"
| separate: "is_sensitive c flag \<Longrightarrow> v \<noteq> [] \<Longrightarrow> w \<noteq> [] \<Longrightarrow> same_but_secrets c as bs
    \<Longrightarrow> same_but_secrets c (flag # v # as) (flag # w # bs)"
| public: "takes_value c flag \<Longrightarrow> same_but_secrets c as bs \<Longrightarrow> same_but_secrets c (flag # v # as) (flag # v # bs)"
| word: "\<not> takes_value c a \<Longrightarrow> same_but_secrets c as bs \<Longrightarrow> same_but_secrets c (a # as) (a # bs)"

text \<open>The flags of the table are plain words.\<close>

lemma install_flags_plain: "list_all (\<lambda>(flag, s). 61 \<notin> set flag \<and> list_all (\<lambda>b. b < 128) flag) (install_flags c)"
  by (cases c) (simp_all add: boolean_flag_def ascii_def)

lemma takes_value_plain: "takes_value c flag \<Longrightarrow> 61 \<notin> set flag \<and> utf8_valid flag"
  using install_flags_plain [of c]
  by (fastforce simp: takes_value_def install_flag_def list_all_iff split: option.splits dest: map_of_SomeD intro: utf8_valid_ascii)

lemma sensitive_takes_value: "is_sensitive c flag \<Longrightarrow> takes_value c flag"
  by (auto simp: is_sensitive_def takes_value_def split: option.splits)

section \<open>The parser\<close>

text \<open>The environment variables that carry a sensitive value, and an environment without their values.\<close>

definition secret_names :: "installer_component \<Rightarrow> os_string set" where
  "secret_names c = insert env_setup_token (set (List.map_filter (fl_script_env \<circ> snd) (install_flags c)))"

definition hide :: "installer_component \<Rightarrow> os_string \<times> os_string \<Rightarrow> os_string \<times> os_string" where
  "hide c e = (fst e, if fst e \<in> secret_names c then [] else snd e)"

lemma sensitive_name: "install_flag c flag = Some s \<Longrightarrow> fl_script_env s = Some name \<Longrightarrow> name \<in> secret_names c"
  by (force simp: secret_names_def install_flag_def List.map_filter_def dest: map_of_SomeD)

text \<open>Options that differ in the values of the environment only.\<close>

definition same_options :: "installer_component \<Rightarrow> parsed_options \<Rightarrow> parsed_options \<Rightarrow> bool" where
  "same_options c p q \<longleftrightarrow>
     map (hide c) (po_script_env p) = map (hide c) (po_script_env q) \<and> p\<lparr>po_script_env := []\<rparr> = q\<lparr>po_script_env := []\<rparr>"

lemma same_options_refl [simp]: "same_options c p p"
  by (simp add: same_options_def)

abbreviation same_result :: "installer_component \<Rightarrow> (installer_error + parsed_options) \<Rightarrow> (installer_error + parsed_options) \<Rightarrow> bool" where
  "same_result c \<equiv> rel_sum (=) (same_options c)"

lemma same_optionsE:
  assumes "same_options c p q"
  obtains env where "q = p\<lparr>po_script_env := env\<rparr>" "map (hide c) env = map (hide c) (po_script_env p)" "fst ` set env = fst ` set (po_script_env p)"
proof
  show hidden: "map (hide c) (po_script_env q) = map (hide c) (po_script_env p)" using assms by (simp add: same_options_def)
  have "fst \<circ> hide c = fst" by (auto simp: hide_def)
  then have "map fst (po_script_env q) = map fst (po_script_env p)" using arg_cong [OF hidden, of "map fst"] by simp
  from arg_cong [OF this, of set] show "fst ` set (po_script_env q) = fst ` set (po_script_env p)" by simp
  have "q = q\<lparr>po_script_env := []\<rparr>\<lparr>po_script_env := po_script_env q\<rparr>" by simp
  also have "\<dots> = p\<lparr>po_script_env := []\<rparr>\<lparr>po_script_env := po_script_env q\<rparr>" using assms unfolding same_options_def by metis
  finally show "q = p\<lparr>po_script_env := po_script_env q\<rparr>" by simp
qed

lemma env_names_distinct [simp]:
  "env_setup_token \<noteq> env_relay_url" "env_relay_url \<noteq> env_setup_token" "env_setup_token_file \<noteq> env_relay_url"
  "env_relay_url \<noteq> env_setup_token_file" "env_setup_token \<noteq> env_setup_token_file" "env_setup_token_file \<noteq> env_setup_token"
  by (simp_all add: env_setup_token_def env_relay_url_def env_setup_token_file_def ascii_def)

lemma add_value_sensitive:
  assumes "same_options c p q" "fl_script_env s = Some name" "name \<in> secret_names c" "v \<noteq> []" "w \<noteq> []"
  shows "same_result c (add_value s v p) (add_value s w q)"
  using assms(1)
proof (rule same_optionsE)
  fix env
  assume q: "q = p\<lparr>po_script_env := env\<rparr>" and names: "map (hide c) env = map (hide c) (po_script_env p)" "fst ` set env = fst ` set (po_script_env p)"
  show ?thesis unfolding q using assms(2-5) names by (auto simp: add_value_def same_options_def hide_def)
qed

lemma add_value_public:
  assumes "same_options c p q"
  shows "same_result c (add_value s v p) (add_value s v q)"
  using assms
proof (rule same_optionsE)
  fix env
  assume q: "q = p\<lparr>po_script_env := env\<rparr>" and names: "map (hide c) env = map (hide c) (po_script_env p)" "fst ` set env = fst ` set (po_script_env p)"
  show ?thesis unfolding q using names by (cases "fl_script_env s") (auto simp: add_value_def same_options_def)
qed

lemma finish_parse_same:
  assumes "same_options c p q"
  shows "same_result c (finish_parse p) (finish_parse q)"
  using assms
proof (rule same_optionsE)
  fix env
  assume q: "q = p\<lparr>po_script_env := env\<rparr>" and names: "map (hide c) env = map (hide c) (po_script_env p)" "fst ` set env = fst ` set (po_script_env p)"
  show ?thesis unfolding q using names by (simp add: finish_parse_def same_options_def)
qed

text \<open>The words that the parser looks at before the table are not in it.\<close>

lemma install_flag_specials:
  "install_flag c (ascii ''-h'') = None" "install_flag c (ascii ''--help'') = None" "install_flag c (ascii ''--dry-run'') = None"
  "install_flag c (ascii ''--yes'') = None" "install_flag c (ascii ''--allow-session-loss'') = None" "install_flag c (ascii ''--purge'') = None"
  by (cases c; simp add: install_flag_def boolean_flag_def ascii_def)+

lemma parse_one_value:
  assumes "install_flag c flag = Some s" "fl_takes_value s"
  shows "parse_one c flag (v # as) p =
      (if po_action p = Install then map_sum id (Pair as) (add_value s v (p\<lparr>po_explicit_install_settings := True\<rparr>))
       else Inl (UnknownArgument (safe_unknown_argument flag)))"
    and "parse_one c flag [] p =
      (if po_action p = Install then Inl (MissingValue (fl_flag s)) else Inl (UnknownArgument (safe_unknown_argument flag)))"
    and "utf8_valid (flag @ 61 # v) \<Longrightarrow> parse_one c (flag @ 61 # v) as p =
      (if po_action p = Install then map_sum id (Pair as) (add_value s v (p\<lparr>po_explicit_install_settings := True\<rparr>))
       else Inl (UnknownArgument (safe_unknown_argument flag)))"
proof -
  have plain: "61 \<notin> set flag" "utf8_valid flag" using takes_value_plain [of c flag] assms by (auto simp: takes_value_def)
  have special: "flag \<noteq> ascii ''-h''" "flag \<noteq> ascii ''--help''" "flag \<noteq> ascii ''--dry-run''" "flag \<noteq> ascii ''--yes''"
    "flag \<noteq> ascii ''--allow-session-loss''" "flag \<noteq> ascii ''--purge''"
    using assms(1) install_flag_specials by auto
  show "parse_one c flag (v # as) p =
      (if po_action p = Install then map_sum id (Pair as) (add_value s v (p\<lparr>po_explicit_install_settings := True\<rparr>))
       else Inl (UnknownArgument (safe_unknown_argument flag)))"
    and "parse_one c flag [] p =
      (if po_action p = Install then Inl (MissingValue (fl_flag s)) else Inl (UnknownArgument (safe_unknown_argument flag)))"
    and "utf8_valid (flag @ 61 # v) \<Longrightarrow> parse_one c (flag @ 61 # v) as p =
      (if po_action p = Install then map_sum id (Pair as) (add_value s v (p\<lparr>po_explicit_install_settings := True\<rparr>))
       else Inl (UnknownArgument (safe_unknown_argument flag)))"
    using assms special plain
    by (simp_all add: parse_one_def parse_install_flag_def split_once_absent split_once_first)
qed

lemma same_options_fields:
  assumes "same_options c p q"
  shows "po_action p = po_action q" "po_dry_run p = po_dry_run q" "po_yes p = po_yes q" "po_help p = po_help q"
    "po_script_args p = po_script_args q" "po_summary p = po_summary q" "po_explicit_install_settings p = po_explicit_install_settings q"
    "po_prompt_relay_token p = po_prompt_relay_token q" "po_version p = po_version q" "po_supervisor_version p = po_supervisor_version q"
    "po_purge p = po_purge q" "po_allow_session_loss p = po_allow_session_loss q"
  by (rule same_optionsE [OF assms], simp)+

lemma same_options_updates:
  assumes "same_options c p q"
  shows "same_options c (p\<lparr>po_explicit_install_settings := x\<rparr>) (q\<lparr>po_explicit_install_settings := x\<rparr>)"
    "same_options c (p\<lparr>po_help := x\<rparr>) (q\<lparr>po_help := x\<rparr>)"
    "same_options c (p\<lparr>po_dry_run := x\<rparr>) (q\<lparr>po_dry_run := x\<rparr>)"
    "same_options c (p\<lparr>po_yes := x\<rparr>) (q\<lparr>po_yes := x\<rparr>)"
    "same_options c (p\<lparr>po_script_args := as, po_summary := ss\<rparr>) (q\<lparr>po_script_args := as, po_summary := ss\<rparr>)"
    "same_options c (p\<lparr>po_allow_session_loss := x, po_script_args := as, po_summary := ss\<rparr>)
       (q\<lparr>po_allow_session_loss := x, po_script_args := as, po_summary := ss\<rparr>)"
    "same_options c (p\<lparr>po_purge := x, po_script_args := as, po_summary := ss\<rparr>) (q\<lparr>po_purge := x, po_script_args := as, po_summary := ss\<rparr>)"
  by (rule same_optionsE [OF assms], simp add: same_options_def)+

definition same_turn :: "installer_component \<Rightarrow> os_string list \<Rightarrow> os_string list \<Rightarrow>
    installer_error + os_string list \<times> parsed_options \<Rightarrow> installer_error + os_string list \<times> parsed_options \<Rightarrow> bool" where
  "same_turn c as bs = rel_sum (=) (\<lambda>(r, p) (r', q). r = as \<and> r' = bs \<and> same_options c p q)"

lemma same_turn_simps [simp]:
  "same_turn c as bs (Inl e) (Inl e') \<longleftrightarrow> e = e'"
  "same_turn c as bs (Inr (r, p)) (Inr (r', q)) \<longleftrightarrow> r = as \<and> r' = bs \<and> same_options c p q"
  "\<not> same_turn c as bs (Inl e) (Inr x)" "\<not> same_turn c as bs (Inr x) (Inl e)"
  by (simp_all add: same_turn_def)

lemma map_sum_same: "same_result c x y \<Longrightarrow> same_turn c as bs (map_sum id (Pair as) x) (map_sum id (Pair bs) y)"
  by (cases x; cases y) auto

lemma parse_install_word:
  assumes "same_options c p q" "inline = None \<Longrightarrow> \<not> takes_value c flag"
  shows "same_turn c as bs (parse_install_flag c flag inline as p) (parse_install_flag c flag inline bs q)"
proof (cases "install_flag c flag")
  case None
  then show ?thesis by (simp add: parse_install_flag_def)
next
  case (Some s)
  let ?x = "po_explicit_install_settings_update (\<lambda>_. True)"
  have flags: "same_options c (add_script_flag (fl_flag s) (fl_summary s) (?x p)) (add_script_flag (fl_flag s) (fl_summary s) (?x q))"
    using same_options_updates(5) [OF same_options_updates(1) [OF assms(1)]] same_options_fields [OF assms(1)] by (simp add: add_script_flag_def)
  show ?thesis
    using Some assms(2) flags map_sum_same [OF add_value_public [OF same_options_updates(1) [OF assms(1), of True]]]
    by (cases inline) (auto simp: parse_install_flag_def takes_value_def)
qed

lemma parse_one_word:
  assumes "same_options c p q" "\<not> takes_value c a"
  shows "same_turn c as bs (parse_one c a as p) (parse_one c a bs q)"
proof -
  obtain flag inline where split: "split_once 61 a = (flag, inline)" by fastforce
  have "inline = None \<Longrightarrow> \<not> takes_value c flag" using split assms(2) by (auto simp: split_once_def split: if_splits)
  from parse_install_word [OF assms(1) this]
  have table: "same_turn c as bs (parse_install_flag c flag inline as p) (parse_install_flag c flag inline bs q)" .
  show ?thesis
    using table same_options_updates [OF assms(1)] same_options_fields [OF assms(1)]
    by (cases c; cases inline; cases "flag \<in> {ascii ''-h'', ascii ''--help''}") (simp_all add: parse_one_def split)
qed

lemma parse_args_turn:
  assumes "same_turn c as bs (parse_one c a xs p) (parse_one c b ys q)" "\<And>p q. same_options c p q \<Longrightarrow> same_result c (parse_args c as p) (parse_args c bs q)"
  shows "same_result c (parse_args c (a # xs) p) (parse_args c (b # ys) q)"
  using assms by (cases "parse_one c a xs p"; cases "parse_one c b ys q") auto

lemma parse_one_secret:
  assumes "same_options c p q" "is_sensitive c flag" "v \<noteq> []" "w \<noteq> []"
  shows "same_turn c as bs (parse_one c flag (v # as) p) (parse_one c flag (w # bs) q)"
    and "utf8_valid (flag @ 61 # v) \<Longrightarrow> utf8_valid (flag @ 61 # w) \<Longrightarrow>
      same_turn c as bs (parse_one c (flag @ 61 # v) as p) (parse_one c (flag @ 61 # w) bs q)"
proof -
  obtain s name where s: "install_flag c flag = Some s" "fl_takes_value s" "fl_script_env s = Some name"
    using assms(2) by (auto simp: is_sensitive_def split: option.splits)
  note add = map_sum_same [OF add_value_sensitive [OF same_options_updates(1) [OF assms(1), of True] s(3) sensitive_name [OF s(1,3)] assms(3,4)], of as bs]
  show "same_turn c as bs (parse_one c flag (v # as) p) (parse_one c flag (w # bs) q)"
    and "utf8_valid (flag @ 61 # v) \<Longrightarrow> utf8_valid (flag @ 61 # w) \<Longrightarrow>
      same_turn c as bs (parse_one c (flag @ 61 # v) as p) (parse_one c (flag @ 61 # w) bs q)"
    using add same_options_fields(1) [OF assms(1)] by (simp_all add: parse_one_value [OF s(1,2)])
qed

lemma parse_one_public:
  assumes "same_options c p q" "takes_value c flag"
  shows "same_turn c as bs (parse_one c flag (v # as) p) (parse_one c flag (v # bs) q)"
proof -
  obtain s where s: "install_flag c flag = Some s" "fl_takes_value s" using assms(2) by (auto simp: takes_value_def split: option.splits)
  show ?thesis
    using map_sum_same [OF add_value_public [OF same_options_updates(1) [OF assms(1), of True]]] same_options_fields(1) [OF assms(1)]
    by (simp add: parse_one_value [OF s])
qed

lemma parse_args_same:
  "same_but_secrets c as bs \<Longrightarrow> same_options c p q \<Longrightarrow> same_result c (parse_args c as p) (parse_args c bs q)"
proof (induction arbitrary: p q rule: same_but_secrets.induct)
  case none
  then show ?case by simp
next
  case (inline flag v w as bs)
  then show ?case by (intro parse_args_turn [OF parse_one_secret(2)])
next
  case (separate flag v w as bs)
  then show ?case by (intro parse_args_turn [OF parse_one_secret(1)])
next
  case (public flag as bs v)
  then show ?case by (intro parse_args_turn [OF parse_one_public])
next
  case (word a as bs)
  then show ?case by (intro parse_args_turn [OF parse_one_word])
qed

lemma parse_options_same:
  assumes "same_but_secrets c as bs"
  shows "same_result c (parse_options c act ver spv as) (parse_options c act ver spv bs)"
  using parse_args_same [OF assms same_options_refl, of "parsed_start act ver spv"] finish_parse_same
  by (cases "parse_args c as (parsed_start act ver spv)"; cases "parse_args c bs (parsed_start act ver spv)") (auto simp: parse_options_def)

section \<open>The run\<close>

text \<open>What others can see of a run: everything but the values of the sensitive environment variables.\<close>

fun public_view :: "installer_event \<Rightarrow> installer_event" where
  "public_view (Printed t) = Printed t"
| "public_view (Prompted t) = Prompted t"
| "public_view (Executed iv) = Executed (iv\<lparr>iv_env := map (hide (iv_component iv)) (iv_env iv)\<rparr>)"

definition views :: "(installer_error + unit) \<times> installer_event list \<Rightarrow> (installer_error + unit) \<times> installer_event list" where
  "views r = (fst r, map public_view (snd r))"

lemma ask_relay_same:
  assumes "same_options c p q"
  shows "rel_prod (same_result c) (=) (ask_relay url_of p d) (ask_relay url_of q d)"
  by (rule same_optionsE [OF assms])
    (auto simp: ask_relay_def same_options_def split: prod.splits sum.splits option.splits bool.splits)

lemma defaults_same:
  assumes "same_options c p q"
  shows "rel_prod (same_result c) (=) (apply_fresh_install_defaults url_of c rt p d) (apply_fresh_install_defaults url_of c rt q d)"
proof -
  have listen: "same_options c (web_and_listen x p) (web_and_listen x q)" for x
    using same_options_updates(5) [OF assms] same_options_fields [OF assms]
    by (simp add: web_and_listen_def add_script_value_def add_script_flag_def)
  have user: "same_options c (add_user u (web_and_listen x p)) (add_user u (web_and_listen x q))" for u x
    using same_options_updates(5) [OF listen] same_options_fields [OF listen] listen by (simp add: add_user_def split: option.splits)
  have flags: "po_dry_run (web_and_listen x r) = po_dry_run r" "po_yes (web_and_listen x r) = po_yes r" for x r
    by (simp_all add: web_and_listen_def add_script_value_def add_script_flag_def)
  show ?thesis
    using assms listen ask_relay_same [OF user] same_options_fields [OF assms]
    by (cases c; cases "ir_managed rt"; cases "ask_session_user rt d")
      (auto simp: apply_fresh_install_defaults_def flags Let_def split: sum.splits bool.splits)
qed

lemma render_plan_same: "same_options c p q \<Longrightarrow> render_plan k p exe prefix = render_plan k q exe prefix"
  by (simp add: render_plan_def same_options_fields)

lemma obtain_consent_same: "same_options c p q \<Longrightarrow> obtain_consent p (rt\<lparr>ir_secret := s\<rparr>) es = obtain_consent q rt es"
  by (simp add: obtain_consent_def same_options_fields)

lemma secret_fields:
  "ir_tty (rt\<lparr>ir_secret := s\<rparr>) = ir_tty rt" "ir_sudo_user (rt\<lparr>ir_secret := s\<rparr>) = ir_sudo_user rt"
  "ir_managed (rt\<lparr>ir_secret := s\<rparr>) = ir_managed rt" "ir_random (rt\<lparr>ir_secret := s\<rparr>) = ir_random rt"
  "ir_execute (rt\<lparr>ir_secret := s\<rparr>) = ir_execute rt" "ir_prefix (rt\<lparr>ir_secret := s\<rparr>) = ir_prefix rt"
  by simp_all

lemma secret_unused:
  "execute (rt\<lparr>ir_secret := s\<rparr>) iv es = execute rt iv es"
  "generate_internal_helper_nonce (rt\<lparr>ir_secret := s\<rparr>) = generate_internal_helper_nonce rt"
  "apply_fresh_install_defaults url_of c (rt\<lparr>ir_secret := s\<rparr>) p d = apply_fresh_install_defaults url_of c rt p d"
  unfolding execute_def generate_internal_helper_nonce_def apply_fresh_install_defaults_def ask_session_user_def secret_fields
  by (rule refl)+

lemma execute_views: "views (execute rt iv es) = (fst (execute rt iv []), map public_view es @ [public_view (Executed iv)])"
  by (simp add: views_def execute_def)

lemma dry_run_views:
  assumes "same_options c p q"
  shows "views (dry_run c p sb (rt\<lparr>ir_secret := s\<rparr>) es) = views (dry_run c q sb rt es)"
  unfolding dry_run_def same_options_fields [OF assms] secret_unused by (rule refl)

lemma install_env_hidden:
  assumes "same_options c p q"
  shows "map (hide c) (install_env c p sb prefix nonce (map_option f token)) = map (hide c) (install_env c q sb prefix nonce token)"
proof -
  have "hide k (env_setup_token, t) = (env_setup_token, [])" for k t by (simp add: hide_def secret_names_def)
  then show ?thesis
    using same_options_fields [OF assms] assms by (simp add: install_env_def same_options_def split: option.splits)
qed

lemma run_script_views:
  assumes "same_options c p q" "map_option (\<lambda>_. ()) token = map_option (\<lambda>_. ()) token'"
  shows "views (run_script c p sb (rt\<lparr>ir_secret := s\<rparr>) token es) = views (run_script c q sb rt token' es)"
proof -
  obtain f where "token = map_option f token'" using assms(2) by (cases token; cases token') auto
  then have env: "map (hide c) (install_env c p sb prefix nonce token) = map (hide c) (install_env c q sb prefix nonce token')" for prefix nonce
    using install_env_hidden [OF assms(1)] by simp
  have exec: "views (execute rt iv es) = views (execute rt iv' es)"
    if "iv_component iv = c" "iv_component iv' = c" "iv_args iv = iv_args iv'" "map (hide c) (iv_env iv) = map (hide c) (iv_env iv')" for iv iv'
    using that by (cases iv; cases iv') (simp add: execute_views, simp add: execute_def split: sum.splits)
  have step: "views (execute rt \<lparr>iv_component = c, iv_args = as, iv_env = install_env c p sb (ir_prefix rt) nonce token\<rparr> es) =
      views (execute rt \<lparr>iv_component = c, iv_args = as, iv_env = install_env c q sb (ir_prefix rt) nonce token'\<rparr> es)" for as nonce
    by (rule exec) (simp_all add: env)
  show ?thesis
    unfolding run_script_def secret_unused secret_fields same_options_fields [OF assms(1)]
    by (cases "if c = Termctl then Inr None else map_sum id Some (generate_internal_helper_nonce rt)") (simp_all only: sum.case step)
qed

lemma read_relay_token_same:
  assumes "same_options c p q" "rel_sum (=) (\<lambda>_ _. True) s (ir_secret rt)"
  shows "rel_prod (rel_sum (=) (\<lambda>x y. map_option (\<lambda>_. ()) x = map_option (\<lambda>_. ()) y)) (=)
    (read_relay_token p (rt\<lparr>ir_secret := s\<rparr>) es) (read_relay_token q rt es)"
  using assms(2) same_options_fields [OF assms(1)] by (cases s; cases "ir_secret rt") (simp_all add: read_relay_token_def)

lemma after_defaults_views:
  assumes "same_options c p q" "rel_sum (=) (\<lambda>_ _. True) s (ir_secret rt)"
  shows "views (case read_relay_token p (rt\<lparr>ir_secret := s\<rparr>) es of
        (Inl e, es3) \<Rightarrow> (Inl e, es3) | (Inr token, es3) \<Rightarrow> run_script c p sb (rt\<lparr>ir_secret := s\<rparr>) token es3) =
      views (case read_relay_token q rt es of (Inl e, es3) \<Rightarrow> (Inl e, es3) | (Inr token, es3) \<Rightarrow> run_script c q sb rt token es3)"
  using read_relay_token_same [OF assms, of es] run_script_views [OF assms(1)]
  by (cases "read_relay_token p (rt\<lparr>ir_secret := s\<rparr>) es"; cases "read_relay_token q rt es") (auto elim!: rel_sum.cases)

lemma run_parsed_views:
  assumes "same_options c p q" "rel_sum (=) (\<lambda>_ _. True) s (ir_secret rt)"
  shows "views (run_parsed url_of c (rt\<lparr>ir_secret := s\<rparr>) answers p) = views (run_parsed url_of c rt answers q)"
proof -
  obtain x d where p: "apply_fresh_install_defaults url_of c rt p ([], answers) = (x, d)" by (rule prod.exhaust)
  obtain y where q: "apply_fresh_install_defaults url_of c rt q ([], answers) = (y, d)" "same_result c x y"
    using defaults_same [OF assms(1), of url_of rt "([], answers)"] p by (cases "apply_fresh_install_defaults url_of c rt q ([], answers)") auto
  obtain es rest where d: "d = (es, rest)" by fastforce
  show ?thesis
  proof (cases x)
    case (Inl e)
    then show ?thesis using p q d same_options_fields [OF assms(1)] by (auto simp: run_parsed_def secret_unused elim: rel_sum.cases)
  next
    case (Inr p')
    then obtain q' where q': "y = Inr q'" "same_options c p' q'" using q(2) by (auto elim: rel_sum.cases)
    note same = same_options_fields [OF q'(2)] render_plan_same [OF q'(2)] obtain_consent_same [OF q'(2)] dry_run_views [OF q'(2)]
      after_defaults_views [OF q'(2) assms(2)]
    show ?thesis
      using p q(1) d q'(1) Inr same same_options_fields [OF assms(1)]
      by (simp add: run_parsed_def secret_unused Let_def split: sum.splits prod.splits)
  qed
qed

lemma run_with_views:
  assumes "same_but_secrets c args args'" "rel_sum (=) (\<lambda>_ _. True) s (ir_secret rt)"
  shows "views (run_with url_of c act ver spv args (rt\<lparr>ir_secret := s\<rparr>) answers) = views (run_with url_of c act ver spv args' rt answers)"
  using parse_options_same [OF assms(1), of act ver spv] run_parsed_views [OF _ assms(2)]
  by (cases "parse_options c act ver spv args"; cases "parse_options c act ver spv args'") (auto simp: run_with_def)

section \<open>Consent\<close>

text \<open>The questions of a fresh installation execute nothing, and leave the consent and the rehearsal as they are.\<close>

definition asks_only :: "dialogue \<Rightarrow> dialogue \<Rightarrow> bool" where
  "asks_only d d' \<longleftrightarrow> (\<exists>prompts. fst d' = fst d @ map Prompted prompts)"

lemma asks_only_refl [simp]: "asks_only d d"
  unfolding asks_only_def by (rule exI [of _ "[]"]) simp

lemma asks_only_trans: "asks_only d d' \<Longrightarrow> asks_only d' d'' \<Longrightarrow> asks_only d d''"
  unfolding asks_only_def by (metis append.assoc map_append)

lemma read_line_asks: "asks_only d (snd (read_line prompt d))"
  unfolding asks_only_def by (rule exI [of _ "[prompt]"]) (simp add: read_line_def split: prod.splits list.splits)

lemma prompt_yes_no_asks: "asks_only d (snd (prompt_yes_no prompt x d))"
  using read_line_asks [of d prompt] by (cases "read_line prompt d") (simp add: prompt_yes_no_def split: sum.splits)

lemma optional_session_user_asks: "asks_only d (snd (optional_session_user d))"
  using read_line_asks [of d "ascii ''Session user (leave empty to use the managed termd service user): ''"]
  by (cases "read_line (ascii ''Session user (leave empty to use the managed termd service user): '') d")
    (simp add: optional_session_user_def split: sum.splits)

lemma ask_session_user_asks: "asks_only d (snd (ask_session_user rt d))"
proof (cases "ir_sudo_user rt")
  case None
  then show ?thesis using optional_session_user_asks by (simp add: ask_session_user_def)
next
  case (Some u)
  obtain r d' where r: "prompt_yes_no (ascii ''Use sudo login user '' @ [39] @ utf8_lossy u @ [39] @ ascii '' for terminal sessions? [Y/n] '') True d = (r, d')"
    by (rule prod.exhaust)
  then have "asks_only d d'" by (metis prompt_yes_no_asks snd_conv)
  then show ?thesis using Some r asks_only_trans [OF _ optional_session_user_asks [of d']]
    by (simp add: ask_session_user_def split: sum.splits bool.splits)
qed

lemma ask_relay_asks:
  assumes "ask_relay url_of p d = (r, d')"
  shows "asks_only d d' \<and> (\<forall>p'. r = Inr p' \<longrightarrow> po_dry_run p' = po_dry_run p \<and> po_yes p' = po_yes p)"
proof -
  obtain x d1 where x: "prompt_yes_no (ascii ''Connect this daemon through a trusted relay? [y/N] '') False d = (x, d1)" by (rule prod.exhaust)
  then have d1: "asks_only d d1" by (metis prompt_yes_no_asks snd_conv)
  obtain u d2 where u: "read_line (ascii ''Relay WebSocket URL (wss://...): '') d1 = (u, d2)" by (rule prod.exhaust)
  then have "asks_only d1 d2" by (metis read_line_asks snd_conv)
  with d1 have d2: "asks_only d d2" by (rule asks_only_trans)
  show ?thesis
    using assms d1 d2 x u by (auto simp: ask_relay_def split: sum.splits bool.splits option.splits prod.splits if_splits)
qed

lemma defaults_ask:
  assumes "apply_fresh_install_defaults url_of c rt p d = (r, d')"
  shows "asks_only d d' \<and> (\<forall>p'. r = Inr p' \<longrightarrow> po_dry_run p' = po_dry_run p \<and> po_yes p' = po_yes p)"
proof -
  have keep: "po_dry_run (web_and_listen x p) = po_dry_run p" "po_yes (web_and_listen x p) = po_yes p"
    "po_dry_run (add_user u (web_and_listen x p)) = po_dry_run p" "po_yes (add_user u (web_and_listen x p)) = po_yes p" for x u
    by (simp_all add: web_and_listen_def add_script_value_def add_script_flag_def add_user_def split: option.splits)
  obtain u d1 where u: "ask_session_user rt d = (u, d1)" by (rule prod.exhaust)
  then have "asks_only d d1" by (metis ask_session_user_asks snd_conv)
  then show ?thesis
    using assms u ask_relay_asks [of url_of _ d1] asks_only_trans [of d d1] keep
    by (auto simp: apply_fresh_install_defaults_def Let_def split: if_splits sum.splits bool.splits installer_component.splits)
qed

lemma executed_after_defaults:
  assumes "Executed iv \<in> set (snd (run_parsed url_of c rt answers p))" "env_verify \<notin> fst ` set (iv_env iv)"
  shows "\<not> po_dry_run p \<and> (po_yes p \<or> ir_tty rt \<and> ir_confirm rt = Inr True)"
proof -
  obtain r es rest where d: "apply_fresh_install_defaults url_of c rt p ([], answers) = (r, es, rest)" by (metis prod.exhaust)
  from defaults_ask [OF this] have quiet: "Executed iv \<notin> set es"
    and keep: "\<And>p'. r = Inr p' \<Longrightarrow> po_dry_run p' = po_dry_run p \<and> po_yes p' = po_yes p" by (auto simp: asks_only_def)
  have rehearsal: "Executed iv \<notin> set es' \<Longrightarrow> Executed iv \<notin> set (snd (dry_run c p' sb rt es'))" for p' sb es'
    using assms(2) by (auto simp: dry_run_def execute_def split: sum.splits)
  show ?thesis
    using assms(1) d quiet keep rehearsal
    by (auto simp: run_parsed_def Let_def obtain_consent_def read_relay_token_def run_script_def execute_def
        split: if_splits sum.splits prod.splits)
qed

section \<open>Properties\<close>

definition example_runtime :: "os_string \<Rightarrow> installer_runtime" where
  "example_runtime secret =
     \<lparr>ir_tty = True, ir_self_binary = Inr \<lparr>sb_display_path = ascii ''/tmp/termd'', sb_installer_path = ascii ''/proc/1/fd/3''\<rparr>,
      ir_prefix = ascii ''/usr/local'', ir_managed = Inr False, ir_sudo_user = None, ir_output = Inr (), ir_confirm = Inr True,
      ir_secret = Inr secret, ir_random = Inr [1, 254], ir_execute = Inr (True, [])\<rparr>"

definition example_args :: "string \<Rightarrow> string \<Rightarrow> os_string list" where
  "example_args relay key = map ascii [''--relay'', relay, ''--tls-key='' @ key, ''--listen'', ''0.0.0.0:1'', ''--web'']"

lemma example_args_same: "same_but_secrets Termd (example_args ''wss://a'' ''/k1'') (example_args ''wss://b'' ''/k2'')"
proof -
  note flags = is_sensitive_def takes_value_def install_flag_def boolean_flag_def value_flag_def ascii_def
  have listen: "same_but_secrets Termd [ascii ''--listen'', ascii ''0.0.0.0:1'', ascii ''--web''] [ascii ''--listen'', ascii ''0.0.0.0:1'', ascii ''--web'']"
    by (rule public) (simp_all add: flags word none)
  have key: "ascii (''--tls-key='' @ k) = ascii ''--tls-key'' @ 61 # ascii k" for k by (simp add: ascii_def)
  have "same_but_secrets Termd (ascii (''--tls-key='' @ ''/k1'') # [ascii ''--listen'', ascii ''0.0.0.0:1'', ascii ''--web''])
      (ascii (''--tls-key='' @ ''/k2'') # [ascii ''--listen'', ascii ''0.0.0.0:1'', ascii ''--web''])"
    unfolding key by (rule inline [OF _ _ _ _ _ listen]) (simp_all add: flags utf8_width_def)
  then have "same_but_secrets Termd (ascii ''--relay'' # ascii ''wss://a'' # ascii (''--tls-key='' @ ''/k1'') # [ascii ''--listen'', ascii ''0.0.0.0:1'', ascii ''--web''])
      (ascii ''--relay'' # ascii ''wss://b'' # ascii (''--tls-key='' @ ''/k2'') # [ascii ''--listen'', ascii ''0.0.0.0:1'', ascii ''--web''])"
    by (rule separate [rotated 3]) (simp_all add: flags)
  then show ?thesis by (simp add: example_args_def)
qed

text \<open>
  C34. Sensitive values (the relay's address, tokens, key files and the proxy) given as options, and the relay
  token typed at the hidden prompt, reach the installer script through its environment only: two runs that
  differ in nothing but these values end with the same result or error and print, ask and execute the
  same, the arguments of the script included, but for the values of the sensitive variables. (What is sensitive is
  what the table of flags says, and the script's exit status is taken to be the same in both runs.)
\<close>

theorem installer_keeps_secrets:
  assumes "same_but_secrets c args args'" "rel_sum (=) (\<lambda>_ _. True) s (ir_secret rt)"
  shows "fst (run_with url_of c act ver spv args (rt\<lparr>ir_secret := s\<rparr>) answers) = fst (run_with url_of c act ver spv args' rt answers) \<and>
    map public_view (snd (run_with url_of c act ver spv args (rt\<lparr>ir_secret := s\<rparr>) answers)) =
    map public_view (snd (run_with url_of c act ver spv args' rt answers))"
  using run_with_views [OF assms, of url_of act ver spv answers] by (simp add: views_def)

theorem installer_keeps_secrets_witness:
  "example_args ''wss://a'' ''/k1'' \<noteq> example_args ''wss://b'' ''/k2'' \<and>
   map public_view (snd (run_with (\<lambda>_. None) Termd Install [49] None (example_args ''wss://a'' ''/k1'') (example_runtime [7, 8]\<lparr>ir_secret := Inr [9]\<rparr>) [])) =
   map public_view (snd (run_with (\<lambda>_. None) Termd Install [49] None (example_args ''wss://b'' ''/k2'') (example_runtime [7, 8]) []))"
  using installer_keeps_secrets [OF example_args_same, of "Inr [9]" "example_runtime [7, 8]"]
  by (simp add: example_runtime_def example_args_def ascii_def)

text \<open>
  The installer changes nothing without consent: it executes the script other than for verifying it only
  if this is no rehearsal and the user has either given \<open>--yes\<close> or confirmed the plan at a terminal.
\<close>

lemma installer_needs_consent:
  assumes "Executed iv \<in> set (snd (run_with url_of c act ver spv args rt answers))" "env_verify \<notin> fst ` set (iv_env iv)"
  shows "\<exists>p. parse_options c act ver spv args = Inr p \<and> \<not> po_dry_run p \<and> (po_yes p \<or> ir_tty rt \<and> ir_confirm rt = Inr True)"
  using assms executed_after_defaults [OF _ assms(2)]
  by (cases "parse_options c act ver spv args") (simp_all add: run_with_def)

lemma example_uninstall:
  "snd (run_with (\<lambda>_. None) Termctl Uninstall [49] None [] (example_runtime []) []) =
    [Printed (render_plan Termctl (parsed_start Uninstall [49] None) (ascii ''/tmp/termd'') (ascii ''/usr/local'')), Prompted (ascii ''Continue? [y/N] ''),
     Executed \<lparr>iv_component = Termctl, iv_args = [ascii ''--uninstall''],
       iv_env = self_env \<lparr>sb_display_path = ascii ''/tmp/termd'', sb_installer_path = ascii ''/proc/1/fd/3''\<rparr> [49] @ [(ascii ''TERMD_INSTALL_PREFIX'', ascii ''/usr/local'')]\<rparr>]"
  by (simp add: run_with_def parse_options_def finish_parse_def parsed_start_def run_parsed_def apply_fresh_install_defaults_def
      obtain_consent_def read_relay_token_def run_script_def execute_def install_env_def example_runtime_def)

end
