(* ===== verification/Installer_Helper.thy ===== *)
theory Installer_Helper
  imports Installer
begin

text \<open>
  The entry of the internal helper (\<open>terminstall/src/lib.rs\<close>): the installer script calls the binary back with a
  hidden command, and the binary serves it only if the environment comes from an installer that is one of
  its ancestors and runs the same file. The process table is the record \<open>process_view\<close>.
\<close>

section \<open>Subcommands\<close>

datatype installer_options =
    Options_Install os_string "os_string option" "os_string list"
  | Options_Uninstall os_string "os_string list"
  | Options_Upgrade os_string "os_string list"

definition from_subcommand :: "os_string \<Rightarrow> os_string option \<Rightarrow> os_string list \<Rightarrow> installer_options option" where
  "from_subcommand ver spv args =
     (case args of
        [] \<Rightarrow> None
      | command # rest \<Rightarrow>
          if command = ascii ''install'' then Some (Options_Install ver spv rest)
          else if command = ascii ''uninstall'' then Some (Options_Uninstall ver rest)
          else if command = ascii ''upgrade'' then Some (Options_Upgrade ver rest)
          else None)"

section \<open>The context of a helper\<close>

datatype internal_helper_error = InvalidRequest | InspectProcess

text \<open>
  \<open>pv_parent\<close> is the \<open>PPid\<close> line of \<open>/proc/<pid>/status\<close>, \<open>pv_file\<close> the device and inode behind a path (links followed).
\<close>

record process_view =
  pv_own_parent :: nat
  pv_parent :: "nat \<Rightarrow> internal_helper_error + nat"
  pv_file :: "os_string \<Rightarrow> (nat \<times> nat) option"

definition valid_internal_helper_nonce :: "os_string \<Rightarrow> bool" where
  "valid_internal_helper_nonce nonce \<longleftrightarrow> length nonce = 64 \<and> list_all (\<lambda>b. is_digit b \<or> (97 \<le> b \<and> b \<le> 102)) nonce"

definition pinned_self_binary_pid :: "os_string \<Rightarrow> nat option" where
  "pinned_self_binary_pid p =
     (case split_on 47 p of
        [root, proc, pid, fd, n] \<Rightarrow>
          if root \<noteq> [] \<or> proc \<noteq> ascii ''proc'' \<or> fd \<noteq> ascii ''fd'' \<or> n = [] \<or> \<not> list_all is_digit n then None
          else (case parse_unsigned (2 ^ 32 - 1) pid of
                  Some v \<Rightarrow> if v > 0 then Some v else None
                | None \<Rightarrow> None)
      | _ \<Rightarrow> None)"

fun ancestor_loop :: "nat \<Rightarrow> (nat \<Rightarrow> internal_helper_error + nat) \<Rightarrow> nat \<Rightarrow> nat \<Rightarrow> internal_helper_error + bool" where
  "ancestor_loop 0 parent expected pid = Inr False"
| "ancestor_loop (Suc n) parent expected pid =
     (if pid = expected then Inr True
      else if pid \<le> 1 then Inr False
      else case parent pid of Inl e \<Rightarrow> Inl e | Inr pid' \<Rightarrow> ancestor_loop n parent expected pid')"

definition process_is_ancestor :: "process_view \<Rightarrow> nat \<Rightarrow> internal_helper_error + bool" where
  "process_is_ancestor v expected = ancestor_loop 8 (pv_parent v) expected (pv_own_parent v)"

definition validate_internal_helper_context :: "process_view \<Rightarrow> os_string \<Rightarrow> os_string \<Rightarrow> internal_helper_error + unit" where
  "validate_internal_helper_context v nonce binary =
     (if \<not> valid_internal_helper_nonce nonce then Inl InvalidRequest
      else case pinned_self_binary_pid binary of
        None \<Rightarrow> Inl InvalidRequest
      | Some pid \<Rightarrow>
          (case process_is_ancestor v pid of
             Inl e \<Rightarrow> Inl e
           | Inr False \<Rightarrow> Inl InvalidRequest
           | Inr True \<Rightarrow>
               (case (pv_file v binary, pv_file v (ascii ''/proc/self/exe''), pv_file v (ascii ''/proc/'' @ dec pid @ ascii ''/exe'')) of
                  (Some pinned, Some current, Some installer) \<Rightarrow>
                    if pinned \<noteq> current \<or> pinned \<noteq> installer then Inl InvalidRequest else Inr ()
                | _ \<Rightarrow> Inl InspectProcess)))"

text \<open>The request, if this is one; \<open>env\<close> are the two variables of the environment, which are removed.\<close>

definition internal_helper_request ::
  "process_view \<Rightarrow> os_string option \<times> os_string option \<Rightarrow> os_string list \<Rightarrow> internal_helper_error + (os_string \<times> os_string list) option" where
  "internal_helper_request v env args =
     (case drop 1 args of
        command # rest \<Rightarrow>
          if command \<noteq> ascii ''__terminstall-helper-v1'' then Inr None
          else (case env of
                  (Some nonce, Some binary) \<Rightarrow>
                    (case validate_internal_helper_context v nonce binary of
                       Inl e \<Rightarrow> Inl e
                     | Inr _ \<Rightarrow>
                         (case rest of
                            [] \<Rightarrow> Inl InvalidRequest
                          | operation # others \<Rightarrow> Inr (Some (operation, others))))
                | _ \<Rightarrow> Inl InvalidRequest)
      | [] \<Rightarrow> Inr None)"

section \<open>Exactness\<close>

text \<open>The \<open>n\<close>-th ancestor, the parent being the ancestor number 0.\<close>

fun ancestor :: "(nat \<Rightarrow> internal_helper_error + nat) \<Rightarrow> nat \<Rightarrow> nat \<Rightarrow> nat option" where
  "ancestor parent pid 0 = Some pid"
| "ancestor parent pid (Suc n) =
     (if pid \<le> 1 then None else case parent pid of Inl e \<Rightarrow> None | Inr pid' \<Rightarrow> ancestor parent pid' n)"

lemma ancestor_loop_iff: "ancestor_loop n parent expected pid = Inr True \<longleftrightarrow> (\<exists>i < n. ancestor parent pid i = Some expected)"
proof (induction n arbitrary: pid)
  case 0
  then show ?case by simp
next
  case (Suc n)
  have "(\<exists>i < Suc n. ancestor parent pid i = Some expected) \<longleftrightarrow>
      pid = expected \<or> (\<exists>i < n. ancestor parent pid (Suc i) = Some expected)"
    by (auto simp: less_Suc_eq_0_disj)
  with Suc show ?case by (cases "parent pid") auto
qed

lemma helper_context_is_exact:
  "validate_internal_helper_context v nonce binary = Inr () \<longleftrightarrow>
    valid_internal_helper_nonce nonce \<and>
    (\<exists>pid file_id. pinned_self_binary_pid binary = Some pid \<and> (\<exists>i < 8. ancestor (pv_parent v) (pv_own_parent v) i = Some pid) \<and>
       pv_file v binary = Some file_id \<and> pv_file v (ascii ''/proc/self/exe'') = Some file_id \<and>
       pv_file v (ascii ''/proc/'' @ dec pid @ ascii ''/exe'') = Some file_id)"
  unfolding ancestor_loop_iff [symmetric]
  by (auto simp: validate_internal_helper_context_def process_is_ancestor_def split: option.splits sum.splits bool.splits if_splits)

text \<open>The installer's own nonce is valid, so the script of an installer gets through.\<close>

lemma generated_nonce_is_valid:
  assumes "generate_internal_helper_nonce rt = Inr nonce" "ir_random rt = Inr bytes" "length bytes = 32" "list_all (\<lambda>b. b < 256) bytes"
  shows "valid_internal_helper_nonce nonce"
proof -
  have nonce: "nonce = concat (map (\<lambda>b. [hex_digit (b div 16), hex_digit (b mod 16)]) bytes)"
    using assms(1,2) by (simp add: generate_internal_helper_nonce_def)
  have digit: "is_digit (hex_digit d) \<or> 97 \<le> hex_digit d \<and> hex_digit d \<le> 102" if "d < 16" for d
    using that by (auto simp: is_digit_def hex_digit_def)
  have "length (concat (map (\<lambda>b. [hex_digit (b div 16), hex_digit (b mod 16)]) bytes)) = 2 * length bytes" by (induction bytes) simp_all
  moreover have "list_all (\<lambda>b. is_digit b \<or> (97 \<le> b \<and> b \<le> 102)) (concat (map (\<lambda>b. [hex_digit (b div 16), hex_digit (b mod 16)]) bytes))"
    using assms(4) by (induction bytes) (auto simp: digit less_mult_imp_div_less)
  ultimately show ?thesis using assms(3) by (simp add: valid_internal_helper_nonce_def nonce)
qed

end
