(* ===== verification/Upgrade.thy ===== *)
theory Upgrade
  imports Installer Paths_FS
begin

text \<open>
  The \<open>upgrade\<close> command of the installer (\<open>terminstall/src/lib.rs\<close>): it looks up the latest release, downloads the
  binary for this machine, checks it against the digest that the release names, asks it for its version
  and lets it install itself. The network, the terminal, temporary files and the candidate itself are the
  record \<open>upgrade_runtime\<close>; SHA-256, JSON, URLs and semantic versions are the record \<open>upgrade_libs\<close>.
\<close>

section \<open>Data\<close>

datatype architecture = Amd64 | Arm64

datatype upgrade_error =
    Up_UnknownArgument os_string
  | Up_NonInteractive
  | UnsupportedPlatform os_string os_string
  | InvalidRepository
  | InvalidCurrentVersion os_string
  | InvalidLatestVersion os_string
  | LatestRequest
  | LatestHttpStatus nat
  | LatestResponseTooLarge
  | LatestRead
  | LatestDecode
  | MissingAsset os_string
  | DuplicateAsset os_string
  | InvalidAssetUrl os_string
  | InvalidAssetDigest os_string
  | AssetTooLarge os_string
  | RootRequired os_string
  | DownloadRequest
  | DownloadHttpStatus nat
  | DownloadRead
  | DownloadTooLarge os_string
  | TemporaryFile
  | DigestMismatch os_string
  | CandidatePermissions
  | CandidateSpawn
  | CandidateVersionFailed os_string
  | CandidateIdentity os_string os_string
  | InstallerSpawn
  | InstallerFailed os_string
  | Up_Input
  | Up_Output

record github_asset =
  ga_name :: os_string
  ga_browser_download_url :: os_string
  ga_digest :: "os_string option"
  ga_size :: u64

record github_release =
  gr_tag_name :: os_string
  gr_assets :: "github_asset list"

record release_asset =
  ra_name :: os_string
  ra_download_url :: os_string
  ra_digest :: "u8 list"
  ra_size :: u64

definition max_release_response_bytes :: u64 where
  "max_release_response_bytes = 2 * 1024 * 1024"

definition max_binary_bytes :: u64 where
  "max_binary_bytes = 256 * 1024 * 1024"

text \<open>A URL as \<open>reqwest::Url\<close> shows it.\<close>

record url_parts =
  up_scheme :: os_string
  up_username :: os_string
  up_password :: "os_string option"
  up_host :: "os_string option"

record 'v upgrade_libs =
  ul_sha :: "u8 list \<Rightarrow> u8 list"
  ul_release_of_json :: "u8 list \<Rightarrow> github_release option"
  ul_url :: "os_string \<Rightarrow> url_parts option"
  ul_version :: "os_string \<Rightarrow> 'v option"
  ul_version_le :: "'v \<Rightarrow> 'v \<Rightarrow> bool"
  ul_version_text :: "'v \<Rightarrow> os_string"

text \<open>
  An HTTP response: the status, the announced length and what the successive reads of its body give. A
  redirect has the address it points to.
\<close>

record http_response =
  hr_status :: nat
  hr_content_length :: "u64 option"
  hr_reads :: "(unit + u8 list) list"
  hr_location :: "os_string option"

datatype file_step = Create_temp | Restrict_temp | Write_temp nat | Sync_temp | Make_executable

record upgrade_runtime =
  ur_tty :: bool
  ur_root :: bool
  ur_platform :: "os_string \<times> os_string"
  ur_repository :: "upgrade_error + os_string"
  ur_current_executable :: path
  ur_configured_prefix :: "path option"
  ur_output :: "os_string \<Rightarrow> bool"
  ur_confirm :: "upgrade_error + bool"
  ur_get :: "os_string \<Rightarrow> unit + http_response"
  ur_file_ok :: "file_step \<Rightarrow> bool"
  ur_candidate_version :: "u8 list \<Rightarrow> unit + bool \<times> os_string"
  ur_install_candidate :: "u8 list \<Rightarrow> os_string list \<Rightarrow> path \<Rightarrow> unit + bool \<times> os_string"

datatype upgrade_event =
    Up_Printed os_string
  | Up_Prompted os_string
  | Up_Requested os_string
  | Up_Asked_version "u8 list"
  | Up_Installed "u8 list" "os_string list" path

section \<open>Options and platform\<close>

record parsed_upgrade_options =
  uo_yes :: bool
  uo_help :: bool
  uo_allow_session_loss :: bool

fun parse_upgrade_args ::
  "installer_component \<Rightarrow> os_string list \<Rightarrow> parsed_upgrade_options \<Rightarrow> upgrade_error + parsed_upgrade_options" where
  "parse_upgrade_args c [] p = Inr p"
| "parse_upgrade_args c (arg # rest) p =
     (if \<not> utf8_valid arg then Inl (Up_UnknownArgument (ascii ''<non-UTF-8>''))
      else case split_once 61 arg of (flag, inline) \<Rightarrow>
        if flag \<in> {ascii ''-h'', ascii ''--help''} \<and> inline = None then parse_upgrade_args c rest (p\<lparr>uo_help := True\<rparr>)
        else if flag = ascii ''--yes'' \<and> inline = None then parse_upgrade_args c rest (p\<lparr>uo_yes := True\<rparr>)
        else if flag = ascii ''--allow-session-loss'' \<and> inline = None \<and> c = Termd
        then parse_upgrade_args c rest (p\<lparr>uo_allow_session_loss := True\<rparr>)
        else Inl (Up_UnknownArgument (safe_unknown_argument flag)))"

definition parse_upgrade_options :: "installer_component \<Rightarrow> os_string list \<Rightarrow> upgrade_error + parsed_upgrade_options" where
  "parse_upgrade_options c args = parse_upgrade_args c args \<lparr>uo_yes = False, uo_help = False, uo_allow_session_loss = False\<rparr>"

definition architecture_detect :: "os_string \<Rightarrow> os_string \<Rightarrow> upgrade_error + architecture" where
  "architecture_detect os arch =
     (if os = ascii ''linux'' \<and> arch \<in> {ascii ''x86_64'', ascii ''amd64''} then Inr Amd64
      else if os = ascii ''linux'' \<and> arch \<in> {ascii ''aarch64'', ascii ''arm64''} then Inr Arm64
      else Inl (UnsupportedPlatform os arch))"

fun asset_suffix :: "architecture \<Rightarrow> os_string" where
  "asset_suffix Amd64 = ascii ''amd64''"
| "asset_suffix Arm64 = ascii ''arm64''"

definition release_asset_name :: "installer_component \<Rightarrow> architecture \<Rightarrow> os_string" where
  "release_asset_name c arch = binary_name c @ ascii ''-linux-'' @ asset_suffix arch"

definition valid_repository_character :: "u8 \<Rightarrow> bool" where
  "valid_repository_character b \<longleftrightarrow> (48 \<le> b \<and> b \<le> 57) \<or> (65 \<le> b \<and> b \<le> 90) \<or> (97 \<le> b \<and> b \<le> 122) \<or> b \<in> {46, 95, 45}"

definition validate_repository :: "os_string \<Rightarrow> upgrade_error + unit" where
  "validate_repository r =
     (case split_on 47 r of
        [owner, name] \<Rightarrow>
          if owner = [] \<or> name = [] \<or> \<not> list_all valid_repository_character owner \<or> \<not> list_all valid_repository_character name
          then Inl InvalidRepository else Inr ()
      | _ \<Rightarrow> Inl InvalidRepository)"

definition parse_release_version :: "'v upgrade_libs \<Rightarrow> os_string \<Rightarrow> upgrade_error + 'v" where
  "parse_release_version l tag =
     (case ul_version l (if starts_with (ascii ''v'') tag then tl tag else tag) of
        None \<Rightarrow> Inl (InvalidLatestVersion tag)
      | Some v \<Rightarrow> Inr v)"

section \<open>The asset of a release\<close>

definition hex_value :: "u8 \<Rightarrow> nat option" where
  "hex_value b = (if 48 \<le> b \<and> b \<le> 57 then Some (b - 48) else if 65 \<le> b \<and> b \<le> 70 then Some (b - 55)
                  else if 97 \<le> b \<and> b \<le> 102 then Some (b - 87) else None)"

fun hex_pairs :: "u8 list \<Rightarrow> u8 list option" where
  "hex_pairs (a # b # rest) =
     (case (hex_value a, hex_value b, hex_pairs rest) of
        (Some x, Some y, Some bytes) \<Rightarrow> Some ((16 * x + y) # bytes)
      | _ \<Rightarrow> None)"
| "hex_pairs _ = Some []"

definition parse_sha256_digest :: "os_string option \<Rightarrow> u8 list option" where
  "parse_sha256_digest digest =
     (case digest of
        None \<Rightarrow> None
      | Some d \<Rightarrow>
          if \<not> starts_with (ascii ''sha256:'') d then None
          else (let h = drop (length (ascii ''sha256:'')) d in
                if length h \<noteq> 64 \<or> \<not> list_all (\<lambda>b. hex_value b \<noteq> None) h then None else hex_pairs h))"

definition select_release_asset :: "'v upgrade_libs \<Rightarrow> github_release \<Rightarrow> os_string \<Rightarrow> upgrade_error + release_asset" where
  "select_release_asset l rel name =
     (case filter (\<lambda>a. ga_name a = name) (gr_assets rel) of
        [] \<Rightarrow> Inl (MissingAsset name)
      | [a] \<Rightarrow>
          (case ul_url l (ga_browser_download_url a) of
             None \<Rightarrow> Inl (InvalidAssetUrl name)
           | Some u \<Rightarrow>
               if up_scheme u \<noteq> ascii ''https'' \<or> up_username u \<noteq> [] \<or> up_password u \<noteq> None \<or> up_host u = None
               then Inl (InvalidAssetUrl name)
               else if ga_size a > max_binary_bytes then Inl (AssetTooLarge name)
               else (case parse_sha256_digest (ga_digest a) of
                       None \<Rightarrow> Inl (InvalidAssetDigest name)
                     | Some d \<Rightarrow> Inr \<lparr>ra_name = ga_name a, ra_download_url = ga_browser_download_url a, ra_digest = d, ra_size = ga_size a\<rparr>))
      | _ \<Rightarrow> Inl (DuplicateAsset name))"

section \<open>Requests\<close>

text \<open>
  The redirect policy of \<open>upgrade_http_client\<close>; \<open>visited\<close> are the addresses requested so far. A redirect that is not
  followed is the response.
\<close>

definition redirect_allowed :: "'v upgrade_libs \<Rightarrow> os_string list \<Rightarrow> os_string \<Rightarrow> bool" where
  "redirect_allowed l visited address \<longleftrightarrow>
     length visited < 10 \<and>
     (case ul_url l address of
        None \<Rightarrow> False
      | Some u \<Rightarrow> up_scheme u = ascii ''https'' \<and> up_host u \<noteq> None \<and> up_username u = [] \<and> up_password u = None)"

function request :: "'v upgrade_libs \<Rightarrow> upgrade_runtime \<Rightarrow> os_string list \<Rightarrow> os_string \<Rightarrow> (unit + http_response) \<times> os_string list" where
  "request l rt visited address =
     (case ur_get rt address of
        Inl e \<Rightarrow> (Inl e, visited @ [address])
      | Inr r \<Rightarrow>
          (case hr_location r of
             Some next \<Rightarrow>
               if redirect_allowed l (visited @ [address]) next then request l rt (visited @ [address]) next
               else (Inr r, visited @ [address])
           | None \<Rightarrow> (Inr r, visited @ [address])))"
  by pat_completeness auto
termination
  by (relation "measure (\<lambda>(l, rt, visited, address). 10 - length visited)") (auto simp: redirect_allowed_def)

definition is_success :: "nat \<Rightarrow> bool" where
  "is_success status \<longleftrightarrow> 200 \<le> status \<and> status < 300"

text \<open>\<open>response.take(limit).read_to_end\<close>.\<close>

fun read_up_to :: "nat \<Rightarrow> (unit + u8 list) list \<Rightarrow> u8 list \<Rightarrow> unit + u8 list" where
  "read_up_to limit [] acc = Inr acc"
| "read_up_to limit (r # rs) acc =
     (if length acc \<ge> limit then Inr acc
      else case r of
        Inl e \<Rightarrow> Inl e
      | Inr bytes \<Rightarrow> if bytes = [] then Inr acc else read_up_to limit rs (take limit (acc @ bytes)))"

definition read_latest_release :: "'v upgrade_libs \<Rightarrow> http_response \<Rightarrow> upgrade_error + github_release" where
  "read_latest_release l r =
     (if \<not> is_success (hr_status r) then Inl (LatestHttpStatus (hr_status r))
      else if (case hr_content_length r of None \<Rightarrow> False | Some n \<Rightarrow> n > max_release_response_bytes) then Inl LatestResponseTooLarge
      else case read_up_to (max_release_response_bytes + 1) (hr_reads r) [] of
        Inl _ \<Rightarrow> Inl LatestRead
      | Inr bytes \<Rightarrow>
          if length bytes > max_release_response_bytes then Inl LatestResponseTooLarge
          else (case ul_release_of_json l bytes of None \<Rightarrow> Inl LatestDecode | Some rel \<Rightarrow> Inr rel))"

text \<open>The loop of \<open>stage_candidate\<close>: what has been written to the temporary file and hashed so far.\<close>

fun stage_loop :: "upgrade_runtime \<Rightarrow> os_string \<Rightarrow> (unit + u8 list) list \<Rightarrow> u8 list \<Rightarrow> upgrade_error + u8 list" where
  "stage_loop rt name [] written = Inr written"
| "stage_loop rt name (r # rs) written =
     (case r of
        Inl _ \<Rightarrow> Inl DownloadRead
      | Inr bytes \<Rightarrow>
          if bytes = [] then Inr written
          else if length written + length bytes > u64_max then Inl (DownloadTooLarge name)
          else if length written + length bytes > max_binary_bytes then Inl (DownloadTooLarge name)
          else if \<not> ur_file_ok rt (Write_temp (length written)) then Inl TemporaryFile
          else stage_loop rt name rs (written @ bytes))"

definition stage_candidate ::
  "'v upgrade_libs \<Rightarrow> upgrade_runtime \<Rightarrow> (unit + u8 list) list \<Rightarrow> u64 option \<Rightarrow> release_asset \<Rightarrow> upgrade_error + u8 list" where
  "stage_candidate l rt reads len a =
     (if (case len of None \<Rightarrow> False | Some n \<Rightarrow> n > max_binary_bytes) then Inl (DownloadTooLarge (ra_name a))
      else if \<not> ur_file_ok rt Create_temp \<or> \<not> ur_file_ok rt Restrict_temp then Inl TemporaryFile
      else case stage_loop rt (ra_name a) reads [] of
        Inl e \<Rightarrow> Inl e
      | Inr bytes \<Rightarrow>
          if ra_size a \<noteq> 0 \<and> length bytes \<noteq> ra_size a then Inl (DigestMismatch (ra_name a))
          else if ul_sha l bytes \<noteq> ra_digest a then Inl (DigestMismatch (ra_name a))
          else if \<not> ur_file_ok rt Sync_temp then Inl TemporaryFile
          else if \<not> ur_file_ok rt Make_executable then Inl CandidatePermissions
          else Inr bytes)"

definition download_candidate :: "'v upgrade_libs \<Rightarrow> upgrade_runtime \<Rightarrow> http_response \<Rightarrow> release_asset \<Rightarrow> upgrade_error + u8 list" where
  "download_candidate l rt r a =
     (if \<not> is_success (hr_status r) then Inl (DownloadHttpStatus (hr_status r))
      else if (case hr_content_length r of None \<Rightarrow> False | Some n \<Rightarrow> n > max_binary_bytes) then Inl (DownloadTooLarge (ra_name a))
      else stage_candidate l rt (hr_reads r) (hr_content_length r) a)"

definition resolve_upgrade_prefix :: "path option \<Rightarrow> path \<Rightarrow> installer_component \<Rightarrow> path" where
  "resolve_upgrade_prefix configured exe c =
     (case configured of
        Some prefix \<Rightarrow> prefix
      | None \<Rightarrow>
          (case path_parent exe of
             Some dir \<Rightarrow>
               if path_file_name exe = Some (binary_name c) \<and> path_file_name dir = Some (ascii ''bin'') \<and> path_parent dir \<noteq> None
               then the (path_parent dir) else path_new (ascii ''/usr/local'')
           | None \<Rightarrow> path_new (ascii ''/usr/local'')))"

section \<open>The command\<close>

text \<open>A program that prints, requests and may stop with an error: events so far, and the result.\<close>

type_synonym 'a upgrading = "(upgrade_error + 'a) \<times> upgrade_event list"

definition and_then :: "'a upgrading \<Rightarrow> ('a \<Rightarrow> 'b upgrading) \<Rightarrow> 'b upgrading" where
  "and_then m f =
     (case m of
        (Inl e, es) \<Rightarrow> (Inl e, es)
      | (Inr x, es) \<Rightarrow> (case f x of (r, es') \<Rightarrow> (r, es @ es')))"

definition print_message :: "upgrade_runtime \<Rightarrow> os_string \<Rightarrow> unit upgrading" where
  "print_message rt message = (if ur_output rt message then Inr () else Inl Up_Output, [Up_Printed message])"

definition latest_release :: "'v upgrade_libs \<Rightarrow> upgrade_runtime \<Rightarrow> os_string \<Rightarrow> github_release upgrading" where
  "latest_release l rt repository =
     (case request l rt [] (ascii ''https://api.github.com/repos/'' @ repository @ ascii ''/releases/latest'') of
        (Inl _, visited) \<Rightarrow> (Inl LatestRequest, map Up_Requested visited)
      | (Inr r, visited) \<Rightarrow> (read_latest_release l r, map Up_Requested visited))"

definition download :: "'v upgrade_libs \<Rightarrow> upgrade_runtime \<Rightarrow> release_asset \<Rightarrow> u8 list upgrading" where
  "download l rt a =
     (case request l rt [] (ra_download_url a) of
        (Inl _, visited) \<Rightarrow> (Inl DownloadRequest, map Up_Requested visited)
      | (Inr r, visited) \<Rightarrow> (download_candidate l rt r a, map Up_Requested visited))"

definition upgrade_help_text :: "installer_component \<Rightarrow> os_string" where
  "upgrade_help_text c =
     text_line (ascii ''Usage: '' @ binary_name c @ ascii '' upgrade [OPTIONS]'') @
     concat (map (text_line \<circ> ascii)
       [[], ''Checks the latest yiiilin/termd GitHub release, verifies the selected Linux binary'',
        ''with its release asset SHA-256 digest, then uses that binary's managed installer.'']) @
     ascii ''Existing configuration and state are preserved.'' @
     text_line (if c = Termctl then ascii '' termctl has no managed service to restart.''
                else ascii '' The managed service is restarted after replacement.'') @
     concat (map (text_line \<circ> ascii)
       [[], ''Options:'', ''  --yes      Confirm the normal upgrade without prompting'', ''  -h, --help Show this help'']) @
     (if c = Termd
      then concat (map (text_line \<circ> ascii)
        [''  --allow-session-loss  Separately authorize deleting sessions only if supervisor compatibility changed'', [],
         ''Without --allow-session-loss, an incompatible supervisor upgrade still requires a'',
         ''second interactive confirmation even when --yes is present.''])
      else []) @
     concat (map (text_line \<circ> ascii)
       [[], ''Environment:'', ''  TERMD_GITHUB_REPO    Override owner/repository for forks or tests'',
        ''  TERMD_INSTALL_PREFIX Override the managed installation prefix'',
        ''  http_proxy, https_proxy, all_proxy, no_proxy and uppercase variants are honored''])"

text \<open>\<open>Inr False\<close>: the user has declined.\<close>

definition upgrade_consent :: "installer_component \<Rightarrow> upgrade_runtime \<Rightarrow> parsed_upgrade_options \<Rightarrow> bool upgrading" where
  "upgrade_consent c rt p =
     (if uo_yes p then (Inr True, [])
      else if \<not> ur_tty rt then (Inl Up_NonInteractive, [])
      else (ur_confirm rt,
            [Up_Prompted (if c = Termctl then ascii ''Download, verify and install now? [y/N] ''
                          else ascii ''Download, verify, install and restart now? [y/N] '')]))"

definition root_command :: "installer_component \<Rightarrow> parsed_upgrade_options \<Rightarrow> os_string" where
  "root_command c p =
     ascii ''sudo '' @ binary_name c @ ascii '' upgrade'' @ (if uo_yes p then ascii '' --yes'' else []) @
     (if uo_allow_session_loss p then ascii '' --allow-session-loss'' else [])"

definition check_candidate :: "installer_component \<Rightarrow> upgrade_runtime \<Rightarrow> os_string \<Rightarrow> u8 list \<Rightarrow> unit upgrading" where
  "check_candidate c rt latest bytes =
     (case ur_candidate_version rt bytes of
        Inl _ \<Rightarrow> Inl CandidateSpawn
      | Inr (success, description) \<Rightarrow>
          if \<not> success then Inl (CandidateVersionFailed description)
          else if description \<noteq> binary_name c @ ascii '' '' @ latest then Inl (CandidateIdentity (binary_name c @ ascii '' '' @ latest) description)
          else Inr (),
      [Up_Asked_version bytes])"

definition install_candidate :: "installer_component \<Rightarrow> upgrade_runtime \<Rightarrow> parsed_upgrade_options \<Rightarrow> u8 list \<Rightarrow> unit upgrading" where
  "install_candidate c rt p bytes =
     (let prefix = resolve_upgrade_prefix (ur_configured_prefix rt) (ur_current_executable rt) c;
          args = [ascii ''install'', ascii ''--yes''] @ (if uo_allow_session_loss p then [ascii ''--allow-session-loss''] else [])
      in (case ur_install_candidate rt bytes args prefix of
            Inl _ \<Rightarrow> Inl InstallerSpawn
          | Inr (success, description) \<Rightarrow> if success then Inr () else Inl (InstallerFailed description),
          [Up_Installed bytes args prefix]))"

definition upgrade_to ::
  "'v upgrade_libs \<Rightarrow> installer_component \<Rightarrow> upgrade_runtime \<Rightarrow> parsed_upgrade_options \<Rightarrow> 'v \<Rightarrow> 'v \<Rightarrow> release_asset \<Rightarrow> unit upgrading" where
  "upgrade_to l c rt p current latest a =
     and_then (print_message rt (text_line (ascii ''Upgrade available:'') @ text_line (ascii ''  component: '' @ binary_name c) @
       text_line (ascii ''  current: '' @ ul_version_text l current) @ text_line (ascii ''  latest: '' @ ul_version_text l latest) @
       text_line (ascii ''  asset: '' @ ra_name a))) (\<lambda>_.
     and_then (upgrade_consent c rt p) (\<lambda>agreed.
     if \<not> agreed then print_message rt (text_line (ascii ''Upgrade cancelled; no files or services were changed.''))
     else if \<not> ur_root rt then (Inl (RootRequired (root_command c p)), [])
     else
       and_then (print_message rt (text_line (ascii ''Downloading and verifying '' @ ra_name a @ ascii ''...''))) (\<lambda>_.
       and_then (download l rt a) (\<lambda>bytes.
       and_then (check_candidate c rt (ul_version_text l latest) bytes) (\<lambda>_.
       and_then (install_candidate c rt p bytes) (\<lambda>_.
       print_message rt (text_line (ascii ''Upgraded '' @ binary_name c @ ascii '' to '' @ ul_version_text l latest @ ascii ''.''))))))))"

definition pure_result :: "upgrade_error + 'a \<Rightarrow> 'a upgrading" where
  "pure_result r = (r, [])"

definition run_upgrade_with ::
  "'v upgrade_libs \<Rightarrow> installer_component \<Rightarrow> os_string \<Rightarrow> os_string list \<Rightarrow> upgrade_runtime \<Rightarrow> unit upgrading" where
  "run_upgrade_with l c ver args rt =
     and_then (pure_result (parse_upgrade_options c args)) (\<lambda>p.
     if uo_help p then print_message rt (upgrade_help_text c)
     else
       and_then (pure_result (architecture_detect (fst (ur_platform rt)) (snd (ur_platform rt)))) (\<lambda>arch.
       and_then (pure_result (case ul_version l ver of None \<Rightarrow> Inl (InvalidCurrentVersion ver) | Some v \<Rightarrow> Inr v)) (\<lambda>current.
       and_then (pure_result (ur_repository rt)) (\<lambda>repository.
       and_then (pure_result (validate_repository repository)) (\<lambda>_.
       and_then (print_message rt (text_line (ascii ''Checking GitHub '' @ repository @ ascii '' for the latest '' @ binary_name c @ ascii '' release...''))) (\<lambda>_.
       and_then (latest_release l rt repository) (\<lambda>rel.
       and_then (pure_result (parse_release_version l (gr_tag_name rel))) (\<lambda>latest.
       if ul_version_le l latest current
       then print_message rt (text_line (binary_name c @ ascii '' is up to date (current '' @ ul_version_text l current @ ascii '', latest '' @
              ul_version_text l latest @ ascii '').''))
       else
         and_then (pure_result (select_release_asset l rel (release_asset_name c arch))) (\<lambda>a.
         upgrade_to l c rt p current latest a)))))))))"

end
