(* ===== verification/Upgrade_Verified.thy ===== *)
theory Upgrade_Verified
  imports Upgrade
begin

text \<open>
  What an upgrade may install. The command is a chain of steps (\<open>and_then\<close>), so the library here says what
  an event of a chain means for the steps before it; the property then walks through the chain.
\<close>

section \<open>Chains\<close>

lemma and_then_result: "fst (and_then m f) = Inr y \<longleftrightarrow> (\<exists>x. fst m = Inr x \<and> fst (f x) = Inr y)"
  by (auto simp: and_then_def split: prod.splits sum.splits)

lemma and_then_event: "e \<in> set (snd (and_then m f)) \<longleftrightarrow> e \<in> set (snd m) \<or> (\<exists>x. fst m = Inr x \<and> e \<in> set (snd (f x)))"
  by (auto simp: and_then_def split: prod.splits sum.splits)

lemma pure_result_simps [simp]: "fst (pure_result r) = r" "snd (pure_result r) = []"
  by (simp_all add: pure_result_def)

lemma print_message_events [simp]: "snd (print_message rt t) = [Up_Printed t]"
  by (simp add: print_message_def)

declare request.simps [simp del]

section \<open>Downloading\<close>

text \<open>
  The temporary file is the concatenation of what was read up to the end of the body, and the limit on
  its length is enforced however the body is cut into reads.
\<close>

fun body :: "(unit + u8 list) list \<Rightarrow> u8 list option" where
  "body [] = Some []"
| "body (Inl e # rs) = None"
| "body (Inr bytes # rs) = (if bytes = [] then Some [] else map_option ((@) bytes) (body rs))"

lemma stage_loop_iff:
  assumes "\<And>n. ur_file_ok rt (Write_temp n)"
  shows "length written \<le> max_binary_bytes \<Longrightarrow> stage_loop rt name reads written = Inr bytes \<longleftrightarrow>
    (\<exists>rest. body reads = Some rest \<and> bytes = written @ rest \<and> length bytes \<le> max_binary_bytes)"
proof (induction reads arbitrary: written)
  case Nil
  then show ?case by auto
next
  case (Cons r rs)
  show ?case
  proof (cases r)
    case (Inr piece)
    have "max_binary_bytes \<le> u64_max" by (simp add: max_binary_bytes_def u64_max_def)
    then show ?thesis using Cons Inr assms by (cases "length written + length piece \<le> max_binary_bytes") auto
  qed simp
qed

lemma stage_loop_sound:
  "length written \<le> max_binary_bytes \<Longrightarrow> stage_loop rt name reads written = Inr bytes \<Longrightarrow>
    \<exists>rest. body reads = Some rest \<and> bytes = written @ rest \<and> length bytes \<le> max_binary_bytes"
proof (induction reads arbitrary: written)
  case (Cons r rs)
  then obtain piece where r: "r = Inr piece" by (cases r) auto
  show ?case
  proof (cases "piece = []")
    case False
    with Cons.prems r have "stage_loop rt name rs (written @ piece) = Inr bytes" "length (written @ piece) \<le> max_binary_bytes"
      by (auto split: if_splits)
    from Cons.IH [OF this(2,1)] show ?thesis using r False by auto
  qed (use Cons.prems r in auto)
qed simp

text \<open>A candidate that was staged is what the asset promises.\<close>

definition promised :: "'v upgrade_libs \<Rightarrow> release_asset \<Rightarrow> u8 list \<Rightarrow> bool" where
  "promised l a bytes \<longleftrightarrow>
     ul_sha l bytes = ra_digest a \<and> length bytes \<le> max_binary_bytes \<and> (ra_size a \<noteq> 0 \<longrightarrow> length bytes = ra_size a)"

lemma download_candidate_sound:
  assumes "download_candidate l rt r a = Inr bytes"
  shows "is_success (hr_status r) \<and> body (hr_reads r) = Some bytes \<and> promised l a bytes"
  using assms stage_loop_sound [of "[]" rt "ra_name a" "hr_reads r" bytes]
  by (auto simp: download_candidate_def stage_candidate_def promised_def split: if_splits sum.splits option.splits)

text \<open>Conversely a promised body is accepted, in whatever pieces it arrives.\<close>

lemma download_candidate_complete:
  assumes "is_success (hr_status r)" "body (hr_reads r) = Some bytes" "promised l a bytes"
    "\<And>n. hr_content_length r = Some n \<Longrightarrow> n = length bytes" "\<And>f. ur_file_ok rt f"
  shows "download_candidate l rt r a = Inr bytes"
proof -
  have "stage_loop rt (ra_name a) (hr_reads r) [] = Inr bytes"
    using stage_loop_iff [of rt "[]" "ra_name a" "hr_reads r" bytes] assms(2,3,5) by (auto simp: promised_def)
  then show ?thesis
    using assms by (auto simp: download_candidate_def stage_candidate_def promised_def split: option.splits)
qed

lemma download_sound:
  assumes "fst (download l rt a) = Inr bytes"
  shows "promised l a bytes"
  using assms download_candidate_sound by (fastforce simp: download_def split: prod.splits sum.splits)

text \<open>Addresses: the first one is given, every other one has passed the policy.\<close>

definition safe_url :: "'v upgrade_libs \<Rightarrow> os_string \<Rightarrow> bool" where
  "safe_url l address \<longleftrightarrow>
     (case ul_url l address of
        None \<Rightarrow> False
      | Some u \<Rightarrow> up_scheme u = ascii ''https'' \<and> up_host u \<noteq> None \<and> up_username u = [] \<and> up_password u = None)"

lemma request_visits:
  assumes "a \<in> set (snd (request l rt visited address))"
  shows "a \<in> set visited \<or> a = address \<or> safe_url l a"
  using assms
proof (induction l rt visited address rule: request.induct)
  case (1 l rt visited address)
  have policy: "redirect_allowed l v to \<Longrightarrow> safe_url l to" for v to by (simp add: redirect_allowed_def safe_url_def)
  show ?case
  proof (cases "ur_get rt address")
    case (Inl e)
    then show ?thesis using "1.prems" by (auto simp: request.simps [of l rt])
  next
    case (Inr r)
    show ?thesis
    proof (cases "hr_location r")
      case None
      then show ?thesis using Inr "1.prems" by (auto simp: request.simps [of l rt])
    next
      case (Some to)
      then show ?thesis using Inr "1.prems" "1.IH" [OF Inr Some] policy [of "visited @ [address]" to]
        by (cases "redirect_allowed l (visited @ [address]) to") (auto simp: request.simps [of l rt visited])
    qed
  qed
qed

lemma select_release_asset_sound:
  assumes "select_release_asset l rel name = Inr a"
  obtains g where "filter (\<lambda>g. ga_name g = name) (gr_assets rel) = [g]" "parse_sha256_digest (ga_digest g) = Some (ra_digest a)"
    "ra_download_url a = ga_browser_download_url g" "ra_size a = ga_size g" "safe_url l (ra_download_url a)"
  using assms by (auto simp: select_release_asset_def safe_url_def split: list.splits option.splits if_splits)

text \<open>A digest in hexadecimal is read back.\<close>

lemma hex_value_digit: "d < 16 \<Longrightarrow> hex_value (hex_digit d) = Some d"
  by (auto simp: hex_value_def hex_digit_def)

lemma hex_value_high: "b < 256 \<Longrightarrow> hex_value (hex_digit (b div 16)) = Some (b div 16)"
  by (rule hex_value_digit) (simp add: less_mult_imp_div_less)

lemma hex_pairs_digits:
  "list_all (\<lambda>b. b < 256) bytes \<Longrightarrow> hex_pairs (concat (map (\<lambda>b. [hex_digit (b div 16), hex_digit (b mod 16)]) bytes)) = Some bytes"
  by (induction bytes) (simp_all add: hex_value_digit hex_value_high)

lemma parse_sha256_digest_hex:
  assumes "length bytes = 32" "list_all (\<lambda>b. b < 256) bytes"
  shows "parse_sha256_digest (Some (ascii ''sha256:'' @ concat (map (\<lambda>b. [hex_digit (b div 16), hex_digit (b mod 16)]) bytes))) = Some bytes"
proof -
  let ?h = "concat (map (\<lambda>b. [hex_digit (b div 16), hex_digit (b mod 16)]) bytes)"
  have "length ?h = 2 * length bytes" by (induction bytes) simp_all
  moreover have "list_all (\<lambda>b. hex_value b \<noteq> None) ?h"
    using assms(2) by (induction bytes) (simp_all add: hex_value_digit hex_value_high)
  ultimately show ?thesis
    using assms hex_pairs_digits [OF assms(2)] by (simp add: parse_sha256_digest_def starts_with_def)
qed

section \<open>The command\<close>

lemma upgrade_to_installed:
  assumes "Up_Installed bytes args prefix \<in> set (snd (upgrade_to l c rt p current latest a))"
  shows "promised l a bytes \<and> (uo_yes p \<or> ur_tty rt \<and> ur_confirm rt = Inr True) \<and> ur_root rt \<and>
    ur_candidate_version rt bytes = Inr (True, binary_name c @ ascii '' '' @ ul_version_text l latest) \<and>
    args = [ascii ''install'', ascii ''--yes''] @ (if uo_allow_session_loss p then [ascii ''--allow-session-loss''] else [])"
proof -
  have quiet: "Up_Installed bytes args prefix \<notin> set (snd (download l rt a))" "Up_Installed bytes args prefix \<notin> set (snd (upgrade_consent c rt p))"
    by (auto simp: download_def upgrade_consent_def split: prod.splits sum.splits)
  obtain agreed bytes' where steps: "fst (upgrade_consent c rt p) = Inr agreed" "agreed" "ur_root rt" "fst (download l rt a) = Inr bytes'"
    "fst (check_candidate c rt (ul_version_text l latest) bytes') = Inr ()" "Up_Installed bytes args prefix \<in> set (snd (install_candidate c rt p bytes'))"
    using assms quiet by (auto simp: upgrade_to_def and_then_event check_candidate_def split: if_splits)
  have "bytes' = bytes" "args = [ascii ''install'', ascii ''--yes''] @ (if uo_allow_session_loss p then [ascii ''--allow-session-loss''] else [])"
    using steps(6) by (auto simp: install_candidate_def Let_def)
  moreover have "uo_yes p \<or> ur_tty rt \<and> ur_confirm rt = Inr True" using steps(1,2) by (auto simp: upgrade_consent_def split: if_splits)
  moreover have "ur_candidate_version rt bytes' = Inr (True, binary_name c @ ascii '' '' @ ul_version_text l latest)"
    using steps(5) by (auto simp: check_candidate_def split: sum.splits prod.splits if_splits)
  ultimately show ?thesis using steps(3) download_sound [OF steps(4)] by simp
qed

lemma upgrade_steps:
  assumes "e \<in> set (snd (run_upgrade_with l c ver given rt))" "\<And>t. e \<noteq> Up_Printed t"
  obtains p arch current repository where
    "parse_upgrade_options c given = Inr p" "architecture_detect (fst (ur_platform rt)) (snd (ur_platform rt)) = Inr arch"
    "ul_version l ver = Some current" "ur_repository rt = Inr repository" "validate_repository repository = Inr ()"
    "e \<in> set (snd (latest_release l rt repository)) \<or>
     (\<exists>rel latest a. fst (latest_release l rt repository) = Inr rel \<and> parse_release_version l (gr_tag_name rel) = Inr latest \<and>
        \<not> ul_version_le l latest current \<and> select_release_asset l rel (release_asset_name c arch) = Inr a \<and>
        e \<in> set (snd (upgrade_to l c rt p current latest a)))"
  using assms by (auto simp: run_upgrade_with_def and_then_event split: if_splits option.splits)

section \<open>Properties\<close>

text \<open>
  C33. An upgrade installs a binary only if it is the one the latest release names: the release was read from
  the validated repository and is newer than this version, exactly one of its assets has the name for this
  component and machine, the binary has the SHA-256 digest, and the size if any, of that asset and at
  most 256 MiB, and it has identified itself as this component in the new version. The user has agreed,
  is root, and session loss is authorized only if the user has authorized it.
\<close>

theorem upgrade_installs_only_verified:
  assumes "Up_Installed bytes args prefix \<in> set (snd (run_upgrade_with l c ver given rt))"
  shows "\<exists>p arch current repository rel latest g.
    parse_upgrade_options c given = Inr p \<and> (uo_yes p \<or> ur_tty rt \<and> ur_confirm rt = Inr True) \<and> ur_root rt \<and>
    architecture_detect (fst (ur_platform rt)) (snd (ur_platform rt)) = Inr arch \<and>
    ur_repository rt = Inr repository \<and> validate_repository repository = Inr () \<and> fst (latest_release l rt repository) = Inr rel \<and>
    ul_version l ver = Some current \<and> parse_release_version l (gr_tag_name rel) = Inr latest \<and> \<not> ul_version_le l latest current \<and>
    filter (\<lambda>g. ga_name g = release_asset_name c arch) (gr_assets rel) = [g] \<and>
    parse_sha256_digest (ga_digest g) = Some (ul_sha l bytes) \<and> (ga_size g \<noteq> 0 \<longrightarrow> length bytes = ga_size g) \<and>
    length bytes \<le> 256 * 1024 * 1024 \<and>
    ur_candidate_version rt bytes = Inr (True, binary_name c @ ascii '' '' @ ul_version_text l latest) \<and>
    args = [ascii ''install'', ascii ''--yes''] @ (if uo_allow_session_loss p then [ascii ''--allow-session-loss''] else [])"
proof (rule upgrade_steps [OF assms])
  fix p arch current repository
  assume start: "parse_upgrade_options c given = Inr p" "architecture_detect (fst (ur_platform rt)) (snd (ur_platform rt)) = Inr arch"
    "ul_version l ver = Some current" "ur_repository rt = Inr repository" "validate_repository repository = Inr ()"
    and event: "Up_Installed bytes args prefix \<in> set (snd (latest_release l rt repository)) \<or>
     (\<exists>rel latest a. fst (latest_release l rt repository) = Inr rel \<and> parse_release_version l (gr_tag_name rel) = Inr latest \<and>
        \<not> ul_version_le l latest current \<and> select_release_asset l rel (release_asset_name c arch) = Inr a \<and>
        Up_Installed bytes args prefix \<in> set (snd (upgrade_to l c rt p current latest a)))"
  have "Up_Installed bytes args prefix \<notin> set (snd (latest_release l rt repository))"
    by (auto simp: latest_release_def split: prod.splits sum.splits)
  with event obtain rel latest a where rel: "fst (latest_release l rt repository) = Inr rel" "parse_release_version l (gr_tag_name rel) = Inr latest"
    "\<not> ul_version_le l latest current" and a: "select_release_asset l rel (release_asset_name c arch) = Inr a"
    and installed: "Up_Installed bytes args prefix \<in> set (snd (upgrade_to l c rt p current latest a))" by blast
  from a obtain g where "filter (\<lambda>g. ga_name g = release_asset_name c arch) (gr_assets rel) = [g]"
    "parse_sha256_digest (ga_digest g) = Some (ra_digest a)" "ra_size a = ga_size g"
    by (rule select_release_asset_sound)
  with start rel upgrade_to_installed [OF installed] show ?thesis by (fastforce simp: promised_def max_binary_bytes_def)
qed simp

text \<open>A release with one asset, and a machine that installs it; versions are numbers written in strokes.\<close>

definition stroke_libs :: "nat upgrade_libs" where
  "stroke_libs =
     \<lparr>ul_sha = (\<lambda>bytes. replicate 32 (sum_list bytes mod 256)),
      ul_release_of_json = (\<lambda>_. Some \<lparr>gr_tag_name = ascii ''v11'', gr_assets =
        [\<lparr>ga_name = ascii ''termctl-linux-arm64'', ga_browser_download_url = [], ga_digest = None, ga_size = 0\<rparr>,
         \<lparr>ga_name = ascii ''termctl-linux-amd64'', ga_browser_download_url = ascii ''url'',
          ga_digest = Some (ascii ''sha256:'' @ concat (map (\<lambda>b. [hex_digit (b div 16), hex_digit (b mod 16)]) (replicate 32 6))), ga_size = 3\<rparr>]\<rparr>),
      ul_url = (\<lambda>_. Some \<lparr>up_scheme = ascii ''https'', up_username = [], up_password = None, up_host = Some [104]\<rparr>),
      ul_version = (\<lambda>t. Some (length t)), ul_version_le = (\<le>), ul_version_text = (\<lambda>n. replicate n 49)\<rparr>"

definition example_machine :: upgrade_runtime where
  "example_machine =
     \<lparr>ur_tty = False, ur_root = True, ur_platform = (ascii ''linux'', ascii ''x86_64''), ur_repository = Inr (ascii ''yiiilin/termd''),
      ur_current_executable = path_new (ascii ''/opt/t/bin/termctl''), ur_configured_prefix = None, ur_output = (\<lambda>_. True), ur_confirm = Inr False,
      ur_get = (\<lambda>_. Inr \<lparr>hr_status = 200, hr_content_length = None, hr_reads = [Inr [1, 2], Inr [3]], hr_location = None\<rparr>),
      ur_file_ok = (\<lambda>_. True), ur_candidate_version = (\<lambda>_. Inr (True, ascii ''termctl 11'')),
      ur_install_candidate = (\<lambda>_ _ _. Inr (True, []))\<rparr>"

lemma example_select:
  "select_release_asset stroke_libs (the (ul_release_of_json stroke_libs [])) (ascii ''termctl-linux-amd64'') =
    Inr \<lparr>ra_name = ascii ''termctl-linux-amd64'', ra_download_url = ascii ''url'', ra_digest = replicate 32 6, ra_size = 3\<rparr>"
proof -
  have "parse_sha256_digest (Some (ascii ''sha256:'' @ concat (map (\<lambda>b. [hex_digit (b div 16), hex_digit (b mod 16)]) (replicate 32 6)))) = Some (replicate 32 6)"
    by (rule parse_sha256_digest_hex) (simp_all add: list_all_iff)
  moreover have "ascii ''termctl-linux-arm64'' \<noteq> ascii ''termctl-linux-amd64''" by (simp add: ascii_def)
  ultimately show ?thesis by (simp add: select_release_asset_def stroke_libs_def max_binary_bytes_def)
qed

lemma example_latest:
  "fst (latest_release stroke_libs example_machine (ascii ''yiiilin/termd'')) = Inr (the (ul_release_of_json stroke_libs []))"
  by (simp add: latest_release_def request.simps example_machine_def read_latest_release_def is_success_def max_release_response_bytes_def stroke_libs_def)

lemma example_download:
  "fst (download stroke_libs example_machine \<lparr>ra_name = ascii ''termctl-linux-amd64'', ra_download_url = ascii ''url'', ra_digest = replicate 32 6, ra_size = 3\<rparr>) = Inr [1, 2, 3]"
  by (simp add: download_def request.simps example_machine_def download_candidate_def stage_candidate_def is_success_def max_binary_bytes_def
      u64_max_def stroke_libs_def)

lemma example_upgrade:
  "Up_Installed [1, 2, 3] [ascii ''install'', ascii ''--yes''] (path_new (ascii ''/opt/t''))
    \<in> set (snd (run_upgrade_with stroke_libs Termctl [49] [ascii ''--yes''] example_machine))"
proof -
  let ?rel = "the (ul_release_of_json stroke_libs [])"
  have options: "parse_upgrade_options Termctl [ascii ''--yes''] = Inr \<lparr>uo_yes = True, uo_help = False, uo_allow_session_loss = False\<rparr>"
    by (simp add: parse_upgrade_options_def ascii_def utf8_width_def split_once_def)
  have tag: "parse_release_version stroke_libs (gr_tag_name ?rel) = Inr 2" "\<not> ul_version_le stroke_libs 2 (length [49])"
    "ul_version_text stroke_libs 2 = [49, 49]"
    by (simp_all add: parse_release_version_def stroke_libs_def ascii_def starts_with_def numeral_2_eq_2)
  have machine: "validate_repository (ascii ''yiiilin/termd'') = Inr ()"
    "architecture_detect (fst (ur_platform example_machine)) (snd (ur_platform example_machine)) = Inr Amd64"
    "ur_repository example_machine = Inr (ascii ''yiiilin/termd'')" "ul_version stroke_libs [49] = Some (length [49 :: nat])"
    "release_asset_name Termctl Amd64 = ascii ''termctl-linux-amd64''" "fst (print_message example_machine t) = Inr ()" for t
    by (simp_all add: validate_repository_def valid_repository_character_def architecture_detect_def example_machine_def stroke_libs_def ascii_def
        release_asset_name_def print_message_def)
  have prefix: "resolve_upgrade_prefix None (path_new (ascii ''/opt/t/bin/termctl'')) Termctl = path_new (ascii ''/opt/t'')"
    by (simp add: resolve_upgrade_prefix_def path_new_def component_of_def path_parent_def path_file_name_def starts_with_def ascii_def)
  have candidate: "fst (check_candidate Termctl example_machine [49, 49] [1, 2, 3]) = Inr ()"
    by (simp add: check_candidate_def example_machine_def ascii_def)
  have installed: "snd (install_candidate Termctl example_machine \<lparr>uo_yes = True, uo_help = False, uo_allow_session_loss = False\<rparr> [1, 2, 3]) =
      [Up_Installed [1, 2, 3] [ascii ''install'', ascii ''--yes''] (path_new (ascii ''/opt/t''))]"
    by (simp add: install_candidate_def example_machine_def prefix)
  have "ur_root example_machine" by (simp add: example_machine_def)
  then show ?thesis
    using options tag machine example_latest example_select example_download candidate installed
    by (simp add: run_upgrade_with_def upgrade_to_def and_then_event upgrade_consent_def) blast
qed

theorem upgrade_installs_only_verified_witness:
  "Up_Installed [1, 2, 3] [ascii ''install'', ascii ''--yes''] (path_new (ascii ''/opt/t''))
    \<in> set (snd (run_upgrade_with stroke_libs Termctl [49] [ascii ''--yes''] example_machine)) \<and>
   (\<exists>g :: github_asset. parse_sha256_digest (ga_digest g) = Some (ul_sha stroke_libs [1, 2, 3]))"
  using example_upgrade upgrade_installs_only_verified [OF example_upgrade] by blast

text \<open>Every address that is requested is the release page of the validated repository, or passes the policy for addresses.\<close>

lemma upgrade_requests_are_safe:
  assumes "Up_Requested address \<in> set (snd (run_upgrade_with l c ver given rt))"
  shows "safe_url l address \<or> (\<exists>repository. validate_repository repository = Inr () \<and>
    address = ascii ''https://api.github.com/repos/'' @ repository @ ascii ''/releases/latest'')"
proof (rule upgrade_steps [OF assms])
  fix p arch current repository
  assume valid: "validate_repository repository = Inr ()"
    and event: "Up_Requested address \<in> set (snd (latest_release l rt repository)) \<or>
     (\<exists>rel latest a. fst (latest_release l rt repository) = Inr rel \<and> parse_release_version l (gr_tag_name rel) = Inr latest \<and>
        \<not> ul_version_le l latest current \<and> select_release_asset l rel (release_asset_name c arch) = Inr a \<and>
        Up_Requested address \<in> set (snd (upgrade_to l c rt p current latest a)))"
  have page: "Up_Requested address \<in> set (snd (latest_release l rt repository)) \<Longrightarrow> ?thesis"
    using request_visits [of address l rt "[]"] valid by (fastforce simp: latest_release_def split: prod.splits sum.splits)
  have "safe_url l address" if "select_release_asset l rel name = Inr a" "Up_Requested address \<in> set (snd (upgrade_to l c rt p current latest a))"
    for rel name latest a
  proof -
    have "Up_Requested address \<in> set (snd (download l rt a))"
      using that(2) by (auto simp: upgrade_to_def and_then_event upgrade_consent_def check_candidate_def install_candidate_def Let_def split: if_splits)
    then have "address = ra_download_url a \<or> safe_url l address"
      using request_visits [of address l rt "[]" "ra_download_url a"] by (fastforce simp: download_def split: prod.splits sum.splits)
    with select_release_asset_sound [OF that(1)] show ?thesis by metis
  qed
  with page event show ?thesis by blast
qed simp

end
