(* ===== verification/Supervisor_State.thy ===== *)
theory Supervisor_State
  imports Terminal_Journal
begin

text \<open>
  The session supervisor, from \<open>src/termd/src/pty/supervisor.rs\<close>: the bounded output queues, the
  state shared by its connections (\<open>SupervisorState\<close>) and the requests a daemon connection may make
  (\<open>handle_supervisor_connection\<close>).

  A sender is the number of its channel, because the clones of a sender share one queue; the queues
  live in a map from channel numbers. Each queue keeps the usage counters of its budget as the code
  does. The PTY, the base64 codec, the hash and the random nonce are the argument \<open>pty_env\<close>: what each
  call answers. What a request does to the PTY is the list of effects of its outcome. An error that
  leaves a request with \<open>?\<close> becomes an error response, with the state changed so far.
\<close>

declare map_of_eq_Some_iff [simp del] Some_eq_map_of_iff [simp del]

section \<open>Bounded output queues\<close>

definition max_supervisor_frame_bytes :: usize where
  "max_supervisor_frame_bytes = 8 * 1024 * 1024"

definition supervisor_output_queue_max_messages :: usize where
  "supervisor_output_queue_max_messages = 128"

definition supervisor_output_queue_max_bytes :: usize where
  "supervisor_output_queue_max_bytes = max_supervisor_frame_bytes"

record 'a out_queue =
  oq_items :: "('a \<times> usize) list"
  oq_messages :: usize
  oq_bytes :: usize
  oq_closed :: bool
  oq_overflow :: bool

definition out_queue_new :: "'a out_queue" where
  "out_queue_new = \<lparr>oq_items = [], oq_messages = 0, oq_bytes = 0, oq_closed = False, oq_overflow = False\<rparr>"

definition budget_reserve :: "usize \<Rightarrow> 'a out_queue \<Rightarrow> 'a out_queue option" where
  "budget_reserve n q =
     (if oq_messages q + 1 > u64_max then None
      else if oq_bytes q + n > u64_max then None
      else if oq_messages q + 1 > supervisor_output_queue_max_messages
              \<or> oq_bytes q + n > supervisor_output_queue_max_bytes then None
      else Some (q\<lparr>oq_messages := oq_messages q + 1, oq_bytes := oq_bytes q + n\<rparr>))"

definition reservation_drop :: "usize \<Rightarrow> 'a out_queue \<Rightarrow> 'a out_queue" where
  "reservation_drop n q = q\<lparr>oq_messages := oq_messages q - 1, oq_bytes := oq_bytes q - n\<rparr>"

definition try_send :: "'a \<Rightarrow> usize \<Rightarrow> 'a out_queue \<Rightarrow> bool \<times> 'a out_queue" where
  "try_send v n q =
     (case budget_reserve n q of
        None \<Rightarrow> (False, q\<lparr>oq_overflow := True\<rparr>)
      | Some q1 \<Rightarrow>
          if oq_closed q1 \<or> length (oq_items q1) \<ge> supervisor_output_queue_max_messages
          then (False, (reservation_drop n q1)\<lparr>oq_overflow := True\<rparr>)
          else (True, q1\<lparr>oq_items := oq_items q1 @ [(v, n)]\<rparr>))"

definition try_recv :: "'a out_queue \<Rightarrow> ('a \<times> 'a out_queue) option" where
  "try_recv q =
     (case oq_items q of
        [] \<Rightarrow> None
      | (v, n) # rest \<Rightarrow> Some (v, reservation_drop n (q\<lparr>oq_items := rest\<rparr>)))"


section \<open>Frames and state\<close>

type_synonym text_bytes = "u8 list"
type_synonym chan = nat

record supervisor_snapshot_payload =
  ssp_size :: pty_size
  ssp_process_id :: "nat option"
  ssp_exited :: bool
  ssp_retained_output :: "u8 list"

record supervisor_attach_sync_payload =
  sap_controller_id :: u64
  sap_controller_connection_id :: u64
  sap_snapshot :: supervisor_snapshot_payload
  sap_base_seq :: u64
  sap_frames :: "pty_terminal_frame list"

datatype supervisor_response_payload =
    P_Empty
  | P_Snapshot supervisor_snapshot_payload
  | P_AttachSync supervisor_attach_sync_payload
  | P_DeviceAttached bool
  | P_TerminalFrames u64 "pty_terminal_frame list"
  | P_ControllerResumeStatus "u64 option" "u64 option"
  | P_CleanupAuthChallenge text_bytes text_bytes
  | P_CloseStatus bool

datatype supervisor_response = R_Ok supervisor_response_payload | R_Err string

datatype supervisor_frame = SF_Response u64 supervisor_response | SF_TerminalFrame pty_terminal_frame

datatype supervisor_terminal_server_frame =
    TS_AttachSync text_bytes u64 supervisor_snapshot_payload "pty_terminal_frame list"
  | TS_TerminalFrame text_bytes pty_terminal_frame
  | TS_HeartbeatPing text_bytes u64
  | TS_Close string "string option"

record controller_identity =
  ci_id :: u64
  ci_connection_id :: u64

record controller_handle =
  ch_tx :: chan
  ch_connection_id :: u64

record supervisor_state =
  ss_cleanup_capability :: "u8 list option"
  ss_cleanup_capability_replaceable :: bool
  ss_next_controller_id :: u64
  ss_next_controller_connection_id :: u64
  ss_active_controller_id :: "u64 option"
  ss_active_controller_connection_id :: "u64 option"
  ss_controller_resume_lease_id :: "u64 option"
  ss_committed_resume_transactions :: "(u64, controller_identity) hmap"
  ss_confirmed_close_operation_id :: "u64 option"
  ss_exited :: bool
  ss_controllers :: "(u64, controller_handle) hmap"
  ss_next_terminal_attach_id :: u64
  ss_terminal_attaches :: "(u64, chan) hmap"
  ss_attached_devices :: "text_bytes set"
  ss_terminal :: terminal_cache

definition with_optional_cleanup_capability :: "pty_size \<Rightarrow> u8 list option \<Rightarrow> supervisor_state" where
  "with_optional_cleanup_capability sz cap =
     \<lparr>ss_cleanup_capability = cap, ss_cleanup_capability_replaceable = (cap = None),
      ss_next_controller_id = 1, ss_next_controller_connection_id = 1,
      ss_active_controller_id = None, ss_active_controller_connection_id = None,
      ss_controller_resume_lease_id = None, ss_committed_resume_transactions = [],
      ss_confirmed_close_operation_id = None, ss_exited = False, ss_controllers = [],
      ss_next_terminal_attach_id = 1, ss_terminal_attaches = [], ss_attached_devices = {},
      ss_terminal = cache_new sz\<rparr>"

definition attach_device :: "text_bytes \<Rightarrow> supervisor_state \<Rightarrow> supervisor_state" where
  "attach_device d st = st\<lparr>ss_attached_devices := insert d (ss_attached_devices st)\<rparr>"

definition detach_device :: "text_bytes \<Rightarrow> supervisor_state \<Rightarrow> supervisor_state" where
  "detach_device d st = st\<lparr>ss_attached_devices := ss_attached_devices st - {d}\<rparr>"

definition has_attached_device :: "text_bytes \<Rightarrow> supervisor_state \<Rightarrow> bool" where
  "has_attached_device d st \<longleftrightarrow> d \<in> ss_attached_devices st"

definition state_record_output :: "(uchar \<Rightarrow> usize option) \<Rightarrow> u8 list \<Rightarrow> supervisor_state \<Rightarrow>
    (pty_terminal_frame \<times> supervisor_state) option" where
  "state_record_output w bytes st =
     map_option (\<lambda>(f, c). (f, st\<lparr>ss_terminal := c\<rparr>)) (record_output w bytes (ss_terminal st))"

definition state_resize :: "pty_size \<Rightarrow> supervisor_state \<Rightarrow> pty_terminal_frame \<times> supervisor_state" where
  "state_resize sz st = (let (f, c) = cache_resize sz (ss_terminal st) in (f, st\<lparr>ss_terminal := c\<rparr>))"

definition state_record_exit :: "int option \<Rightarrow> supervisor_state \<Rightarrow> pty_terminal_frame \<times> supervisor_state" where
  "state_record_exit code st =
     (let (f, c) = record_exit code (ss_terminal st) in (f, st\<lparr>ss_exited := True, ss_terminal := c\<rparr>))"

definition allocate_controller_connection_id :: "supervisor_state \<Rightarrow> u64 \<times> supervisor_state" where
  "allocate_controller_connection_id st =
     (let i = ss_next_controller_connection_id st in
      (i, st\<lparr>ss_next_controller_connection_id := sat_add64 i 1\<rparr>))"

definition build_attach_sync_payload ::
  "u64 \<Rightarrow> u64 \<Rightarrow> nat option \<Rightarrow> u64 option \<Rightarrow> supervisor_state \<Rightarrow> supervisor_attach_sync_payload" where
  "build_attach_sync_payload cid conn pid last_terminal_seq st =
     (let (base_seq, frames') = cache_snapshot_or_tail last_terminal_seq (ss_terminal st) in
      \<lparr>sap_controller_id = cid, sap_controller_connection_id = conn,
       sap_snapshot = \<lparr>ssp_size = stc_size (ss_terminal st), ssp_process_id = pid, ssp_exited = ss_exited st,
                       ssp_retained_output = []\<rparr>,
       sap_base_seq = base_seq, sap_frames = frames'\<rparr>)"

definition attach_sync :: "chan \<Rightarrow> nat option \<Rightarrow> u64 option \<Rightarrow> supervisor_state \<Rightarrow>
    (controller_identity \<times> supervisor_attach_sync_payload) \<times> supervisor_state" where
  "attach_sync tx pid last_terminal_seq st =
     (let i = ss_next_controller_id st;
          (conn, st1) = allocate_controller_connection_id st;
          st2 = st1\<lparr>ss_next_controller_id := sat_add64 (ss_next_controller_id st1) 1,
                    ss_controllers := hm_insert i \<lparr>ch_tx = tx, ch_connection_id = conn\<rparr> (ss_controllers st1),
                    ss_active_controller_id := Some i,
                    ss_active_controller_connection_id := Some conn,
                    ss_controller_resume_lease_id := Some i\<rparr>
      in ((\<lparr>ci_id = i, ci_connection_id = conn\<rparr>, build_attach_sync_payload i conn pid last_terminal_seq st2), st2))"

definition not_active_controller :: string where
  "not_active_controller = ''session supervisor connection is not the active controller''"

definition resume_attach_sync :: "u64 \<Rightarrow> nat option \<Rightarrow> u64 option \<Rightarrow> supervisor_state \<Rightarrow>
    (string + controller_identity \<times> supervisor_attach_sync_payload) \<times> supervisor_state" where
  "resume_attach_sync cid pid last_terminal_seq st =
     (if cid = 0 \<or> cid \<ge> ss_next_controller_id st then (Inl not_active_controller, st)
      else case ss_controller_resume_lease_id st of
        None \<Rightarrow> (Inl not_active_controller, st)
      | Some lease \<Rightarrow>
          if lease \<noteq> cid then (Inl not_active_controller, st)
          else if ss_active_controller_id st \<noteq> None \<and> ss_active_controller_id st \<noteq> Some cid
          then (Inl not_active_controller, st)
          else (let (conn, st1) = allocate_controller_connection_id st in
                (Inr (\<lparr>ci_id = cid, ci_connection_id = conn\<rparr>,
                      build_attach_sync_payload cid conn pid last_terminal_seq st1), st1)))"

text \<open>Both branches of a commit hand the control line to an identity on a channel.\<close>

definition take_control :: "controller_identity \<Rightarrow> chan \<Rightarrow> supervisor_state \<Rightarrow> supervisor_state" where
  "take_control c tx st =
     st\<lparr>ss_controllers := hm_insert (ci_id c) \<lparr>ch_tx = tx, ch_connection_id = ci_connection_id c\<rparr> (ss_controllers st),
        ss_active_controller_id := Some (ci_id c),
        ss_active_controller_connection_id := Some (ci_connection_id c)\<rparr>"

definition commit_controller_resume :: "u64 \<Rightarrow> controller_identity \<Rightarrow> chan \<Rightarrow> supervisor_state \<Rightarrow>
    (string + controller_identity) \<times> supervisor_state" where
  "commit_controller_resume tid candidate tx st =
     (case hm_get (ss_committed_resume_transactions st) tid of
        Some committed \<Rightarrow>
          if ci_id committed \<noteq> ci_id candidate
          then (Inl ''session supervisor resume transaction mismatch'', st)
          else (Inr committed, take_control committed tx st)
      | None \<Rightarrow>
          if ss_controller_resume_lease_id st \<noteq> Some (ci_id candidate) \<or>
             (ss_active_controller_id st \<noteq> None \<and> ss_active_controller_id st \<noteq> Some (ci_id candidate))
          then (Inl not_active_controller, st)
          else (let st1 = take_control candidate tx st in
                (Inr candidate,
                 st1\<lparr>ss_committed_resume_transactions :=
                       hm_insert tid candidate (ss_committed_resume_transactions st1)\<rparr>)))"

definition committed_controller_resume :: "u64 \<Rightarrow> supervisor_state \<Rightarrow> controller_identity option" where
  "committed_controller_resume tid st = hm_get (ss_committed_resume_transactions st) tid"

definition handle_matches :: "controller_identity \<Rightarrow> supervisor_state \<Rightarrow> bool" where
  "handle_matches c st \<longleftrightarrow>
     (case hm_get (ss_controllers st) (ci_id c) of None \<Rightarrow> False | Some h \<Rightarrow> ch_connection_id h = ci_connection_id c)"

definition is_active_controller :: "controller_identity \<Rightarrow> supervisor_state \<Rightarrow> bool" where
  "is_active_controller c st \<longleftrightarrow>
     ss_active_controller_id st = Some (ci_id c) \<and>
     ss_active_controller_connection_id st = Some (ci_connection_id c) \<and> handle_matches c st"

definition remove_controller :: "controller_identity \<Rightarrow> supervisor_state \<Rightarrow> supervisor_state" where
  "remove_controller c st =
     (let st1 = (if handle_matches c st
                 then st\<lparr>ss_controllers := hm_remove (ci_id c) (ss_controllers st)\<rparr> else st)
      in if ss_active_controller_id st1 = Some (ci_id c) \<and>
            ss_active_controller_connection_id st1 = Some (ci_connection_id c)
         then st1\<lparr>ss_active_controller_id := None, ss_active_controller_connection_id := None\<rparr>
         else st1)"

definition register_terminal_attach :: "chan \<Rightarrow> supervisor_state \<Rightarrow> u64 \<times> supervisor_state" where
  "register_terminal_attach tx st =
     (let i = ss_next_terminal_attach_id st in
      (i, st\<lparr>ss_next_terminal_attach_id := sat_add64 i 1,
             ss_terminal_attaches := hm_insert i tx (ss_terminal_attaches st)\<rparr>))"

definition remove_terminal_attach :: "u64 \<Rightarrow> supervisor_state \<Rightarrow> supervisor_state" where
  "remove_terminal_attach i st = st\<lparr>ss_terminal_attaches := hm_remove i (ss_terminal_attaches st)\<rparr>"

definition terminal_frame_retained_bytes :: "pty_terminal_frame \<Rightarrow> usize" where
  "terminal_frame_retained_bytes f = (case bytes_for_legacy_read f of None \<Rightarrow> 1 | Some b \<Rightarrow> length b)"


section \<open>Broadcast\<close>

text \<open>The state with the queues of the controller and terminal connections.\<close>

record supervisor_world =
  sw_state :: supervisor_state
  sw_control :: "chan \<Rightarrow> supervisor_frame out_queue"
  sw_attach :: "chan \<Rightarrow> supervisor_terminal_server_frame out_queue"

text \<open>The loop over the handles of a map: who could not take the frame, and the queues after it.\<close>

fun send_all :: "'a \<Rightarrow> usize \<Rightarrow> (u64 \<times> chan) list \<Rightarrow> (chan \<Rightarrow> 'a out_queue) \<Rightarrow> u64 list \<times> (chan \<Rightarrow> 'a out_queue)" where
  "send_all v n [] qs = ([], qs)"
| "send_all v n ((i, tx) # hs) qs =
     (let (sent, q) = try_send v n (qs tx);
          (closed, qs') = send_all v n hs (qs(tx := q))
      in (if sent then closed else i # closed, qs'))"

definition remove_closed_controller :: "u64 \<Rightarrow> supervisor_state \<Rightarrow> supervisor_state" where
  "remove_closed_controller i st =
     (case hm_get (ss_controllers st) i of
        None \<Rightarrow> st
      | Some h \<Rightarrow> remove_controller \<lparr>ci_id = i, ci_connection_id = ch_connection_id h\<rparr> st)"

definition broadcast_terminal_frame :: "text_bytes \<Rightarrow> pty_terminal_frame \<Rightarrow> supervisor_world \<Rightarrow> supervisor_world" where
  "broadcast_terminal_frame sid f wd =
     (let st = sw_state wd; n = terminal_frame_retained_bytes f;
          (closed, cq) = send_all (SF_TerminalFrame f) n
             (map (\<lambda>(i, h). (i, ch_tx h)) (ss_controllers st)) (sw_control wd);
          st1 = fold remove_closed_controller closed st;
          (tclosed, tq) = send_all (TS_TerminalFrame sid f) n (ss_terminal_attaches st1) (sw_attach wd)
      in \<lparr>sw_state = fold remove_terminal_attach tclosed st1, sw_control = cq, sw_attach = tq\<rparr>)"

end
