(* ===== verification/Supervisor_Handler.thy ===== *)
theory Supervisor_Handler
  imports Supervisor_State
begin

text \<open>
  The requests of the session supervisor, from \<open>src/termd/src/pty/supervisor.rs\<close>: cleanup
  authentication, \<open>handle_supervisor_connection\<close> with every request, the terminal attach connection,
  the output pump and the exit watcher.

  \<open>handle_request\<close> runs one request to its end. The source takes the state lock once to check the
  caller (\<open>ensure_current_controller\<close>) and again to act; the two critical sections are separate
  definitions (\<open>ensure_current_controller\<close>, \<open>act_on\<close>), so that what happens between them can be
  stated too. The writer task and its queue are not modelled: a response is the result of the request.
\<close>

unbundle bit_operations_syntax

section \<open>Cleanup authentication\<close>

definition cleanup_capability_bytes :: usize where
  "cleanup_capability_bytes = 32"

definition cleanup_auth_nonce_bytes :: usize where
  "cleanup_auth_nonce_bytes = 32"

text \<open>\<open>difference |= left[i] ^ right[i]\<close> over the longer length, missing bytes being zero.\<close>

definition constant_time_eq :: "u8 list \<Rightarrow> u8 list \<Rightarrow> bool" where
  "constant_time_eq l r \<longleftrightarrow>
     fold (\<lambda>i d. d OR (byte_at l i XOR byte_at r i)) [0..<max (length l) (length r)] (length l XOR length r) = 0"

text \<open>The PTY and the libraries as one request sees them; \<open>Some\<close> of a call is its error text.\<close>

record pty_env =
  pe_process_id :: "nat option"
  pe_write_all :: "u8 list \<Rightarrow> string option"
  pe_resize :: "pty_size \<Rightarrow> string option"
  pe_terminate :: "string option"
  pe_wait :: "string option"
  pe_b64_decode :: "text_bytes \<Rightarrow> string + u8 list"
  pe_b64_encode :: "u8 list \<Rightarrow> text_bytes"
  pe_server_nonce :: "u8 list"
  pe_sha256 :: "u8 list \<Rightarrow> u8 list"

definition decode_cleanup_capability :: "pty_env \<Rightarrow> text_bytes \<Rightarrow> string + u8 list" where
  "decode_cleanup_capability env t =
     (case pe_b64_decode env t of
        Inl e \<Rightarrow> Inl e
      | Inr b \<Rightarrow> if length b = cleanup_capability_bytes then Inr b
                 else Inl ''invalid session supervisor cleanup capability length'')"

definition decode_cleanup_nonce :: "pty_env \<Rightarrow> text_bytes \<Rightarrow> string + u8 list" where
  "decode_cleanup_nonce env t =
     (case pe_b64_decode env t of
        Inl e \<Rightarrow> Inl e
      | Inr b \<Rightarrow> if length b = cleanup_auth_nonce_bytes then Inr b
                 else Inl ''invalid session supervisor cleanup authentication nonce'')"

definition cleanup_auth_proof :: "(u8 list \<Rightarrow> u8 list) \<Rightarrow> u8 list \<Rightarrow> text_bytes \<Rightarrow> u8 list \<Rightarrow> u8 list \<Rightarrow> u8 list" where
  "cleanup_auth_proof sha256 cap sid cn sn =
     (let pad = (\<lambda>p. map (\<lambda>i. if i < length cap then p XOR (cap ! i) else p) [0..<64]);
          inner_digest = sha256 (pad 54 @ ascii ''termd-supervisor-cleanup-v1'' @ [0] @ sid @ [0] @ cn @ sn)
      in sha256 (pad 92 @ inner_digest))"


section \<open>Requests\<close>

datatype supervisor_request =
    Attach text_bytes
  | AttachSync text_bytes "u64 option" "u64 option"
  | CommitControllerResume u64
  | ControllerResumeStatus u64
  | ResetAttachedDevices
  | ResetAttachedDevicesForController u64 u64
  | AttachDevice text_bytes
  | DetachDevice text_bytes
  | DeviceAttached text_bytes
  | Input text_bytes
  | ResizeTo pty_size
  | SnapshotRequest
  | TerminalSnapshot "u64 option"
  | Close
  | CloseIdempotent u64
  | InstallCleanupCapability text_bytes text_bytes
  | CleanupAuthChallenge text_bytes text_bytes
  | CleanupAuthenticate text_bytes text_bytes text_bytes text_bytes
  | CleanupClose text_bytes u64
  | CloseStatus u64
  | FinalizeClose u64
  | NaturalExitStatus
  | FinalizeNaturalExit
  | Ping

fun allowed_in_restricted_mode :: "supervisor_request \<Rightarrow> bool" where
  "allowed_in_restricted_mode (CleanupAuthChallenge _ _) = True"
| "allowed_in_restricted_mode (CleanupAuthenticate _ _ _ _) = True"
| "allowed_in_restricted_mode (CleanupClose _ _) = True"
| "allowed_in_restricted_mode (CloseStatus _) = True"
| "allowed_in_restricted_mode (FinalizeClose _) = True"
| "allowed_in_restricted_mode Ping = True"
| "allowed_in_restricted_mode _ = False"

text \<open>What one connection remembers, and what a request leads to.\<close>

record supervisor_conn =
  sc_tx :: chan
  sc_controller_identity :: "controller_identity option"
  sc_pending_resume_identity :: "controller_identity option"
  sc_committed_resume_transaction_id :: "u64 option"
  sc_pending_cleanup_authentication :: "(u8 list \<times> u8 list) option"
  sc_cleanup_authenticated :: bool

definition conn_new :: "chan \<Rightarrow> supervisor_conn" where
  "conn_new tx = \<lparr>sc_tx = tx, sc_controller_identity = None, sc_pending_resume_identity = None,
     sc_committed_resume_transaction_id = None, sc_pending_cleanup_authentication = None,
     sc_cleanup_authenticated = False\<rparr>"

datatype pty_effect = Pty_write "u8 list" | Pty_resize pty_size | Pty_terminate | Pty_wait | Send_shutdown

record request_outcome =
  ro_response :: supervisor_response
  ro_conn :: supervisor_conn
  ro_world :: supervisor_world
  ro_effects :: "pty_effect list"
  ro_suppress :: "u64 option"

definition outcome :: "supervisor_response \<Rightarrow> supervisor_conn \<Rightarrow> supervisor_world \<Rightarrow> pty_effect list \<Rightarrow> request_outcome" where
  "outcome r c wd fx = \<lparr>ro_response = r, ro_conn = c, ro_world = wd, ro_effects = fx, ro_suppress = None\<rparr>"

abbreviation upd_state :: "(supervisor_state \<Rightarrow> supervisor_state) \<Rightarrow> supervisor_world \<Rightarrow> supervisor_world" where
  "upd_state f wd \<equiv> wd\<lparr>sw_state := f (sw_state wd)\<rparr>"

definition ensure_current_controller :: "controller_identity option \<Rightarrow> supervisor_state \<Rightarrow> string option" where
  "ensure_current_controller c st =
     (case c of
        None \<Rightarrow> Some ''session supervisor connection is not attached''
      | Some i \<Rightarrow> if is_active_controller i st then None else Some not_active_controller)"

definition ensure_current_or_pending_controller ::
  "controller_identity option \<Rightarrow> controller_identity option \<Rightarrow> supervisor_state \<Rightarrow> string option" where
  "ensure_current_or_pending_controller c pending st =
     (if c \<noteq> None then ensure_current_controller c st
      else case pending of
        None \<Rightarrow> Some ''session supervisor connection is not attached''
      | Some p \<Rightarrow>
          if ss_controller_resume_lease_id st \<noteq> Some (ci_id p) \<or>
             (ss_active_controller_id st \<noteq> None \<and> ss_active_controller_id st \<noteq> Some (ci_id p))
          then Some not_active_controller else None)"

definition is_current_controller :: "controller_identity option \<Rightarrow> supervisor_state \<Rightarrow> bool" where
  "is_current_controller c st \<longleftrightarrow> (case c of None \<Rightarrow> False | Some i \<Rightarrow> is_active_controller i st)"

definition pty_exited :: string where
  "pty_exited = ''session supervisor PTY has exited''"

definition session_id_mismatch :: string where
  "session_id_mismatch = ''session id mismatch''"

text \<open>The calls \<open>terminate()?; wait()?\<close>: the error, if any, and the calls that were made.\<close>

definition terminate_and_wait :: "pty_env \<Rightarrow> string option \<times> pty_effect list" where
  "terminate_and_wait env =
     (case pe_terminate env of
        Some e \<Rightarrow> (Some e, [Pty_terminate])
      | None \<Rightarrow> (pe_wait env, [Pty_terminate, Pty_wait]))"

text \<open>
  The critical sections of the requests that the active controller makes, after the caller was
  checked.
\<close>

fun act_on :: "pty_env \<Rightarrow> text_bytes \<Rightarrow> supervisor_request \<Rightarrow> supervisor_conn \<Rightarrow> supervisor_world \<Rightarrow> request_outcome" where
  "act_on env sid ResetAttachedDevices c wd =
     outcome (R_Ok P_Empty) c (upd_state (\<lambda>st. st\<lparr>ss_attached_devices := {}\<rparr>) wd) []"
| "act_on env sid (AttachDevice d) c wd =
     (if ss_exited (sw_state wd) then outcome (R_Err pty_exited) c wd []
      else outcome (R_Ok P_Empty) c (upd_state (attach_device d) wd) [])"
| "act_on env sid (DetachDevice d) c wd = outcome (R_Ok P_Empty) c (upd_state (detach_device d) wd) []"
| "act_on env sid (DeviceAttached d) c wd =
     outcome (R_Ok (P_DeviceAttached (has_attached_device d (sw_state wd)))) c wd []"
| "act_on env sid (Input data) c wd =
     (if ss_exited (sw_state wd) then outcome (R_Err pty_exited) c wd []
      else case pe_b64_decode env data of
        Inl e \<Rightarrow> outcome (R_Err e) c wd []
      | Inr bytes \<Rightarrow>
          (case pe_write_all env bytes of
             Some e \<Rightarrow> outcome (R_Err e) c wd [Pty_write bytes]
           | None \<Rightarrow> outcome (R_Ok P_Empty) c wd [Pty_write bytes]))"
| "act_on env sid (ResizeTo sz) c wd =
     (case pe_resize env sz of
        Some e \<Rightarrow> outcome (R_Err e) c wd [Pty_resize sz]
      | None \<Rightarrow>
          (let (f, st) = state_resize sz (sw_state wd) in
           outcome (R_Ok P_Empty) c (broadcast_terminal_frame sid f (wd\<lparr>sw_state := st\<rparr>)) [Pty_resize sz]))"
| "act_on env sid SnapshotRequest c wd =
     (let st = sw_state wd in
      outcome (R_Ok (P_Snapshot \<lparr>ssp_size = stc_size (ss_terminal st), ssp_process_id = pe_process_id env,
        ssp_exited = ss_exited st, ssp_retained_output = snapshot_output (ss_terminal st)\<rparr>)) c wd [])"
| "act_on env sid (TerminalSnapshot l) c wd =
     (let (base_seq, fs) = cache_snapshot_or_tail l (ss_terminal (sw_state wd)) in
      (outcome (R_Ok (P_TerminalFrames base_seq fs)) c wd [])\<lparr>ro_suppress := Some base_seq\<rparr>)"
| "act_on env sid Close c wd =
     (case pe_terminate env of
        Some e \<Rightarrow> outcome (R_Err e) c wd [Pty_terminate]
      | None \<Rightarrow> outcome (R_Ok P_Empty) c wd [Pty_terminate, Pty_wait, Send_shutdown])"
| "act_on env sid (CloseIdempotent oid) c wd =
     (if ss_confirmed_close_operation_id (sw_state wd) = Some oid
      then outcome (R_Ok (P_CloseStatus True)) c wd []
      else case terminate_and_wait env of
        (Some e, fx) \<Rightarrow> outcome (R_Err e) c wd fx
      | (None, fx) \<Rightarrow> outcome (R_Ok (P_CloseStatus True)) c
            (upd_state (\<lambda>st. st\<lparr>ss_confirmed_close_operation_id := Some oid\<rparr>) wd) fx)"
| "act_on env sid _ c wd = outcome (R_Ok P_Empty) c wd []"

definition as_current_controller ::
  "pty_env \<Rightarrow> text_bytes \<Rightarrow> supervisor_request \<Rightarrow> supervisor_conn \<Rightarrow> supervisor_world \<Rightarrow> request_outcome" where
  "as_current_controller env sid req c wd =
     (case ensure_current_controller (sc_controller_identity c) (sw_state wd) of
        Some e \<Rightarrow> outcome (R_Err e) c wd []
      | None \<Rightarrow> act_on env sid req c wd)"

definition already_attached :: string where
  "already_attached = ''session supervisor control socket is already attached''"

text \<open>Attaching as a controller, or as a candidate for resuming one.\<close>

definition handle_attach :: "pty_env \<Rightarrow> text_bytes \<Rightarrow> text_bytes \<Rightarrow> supervisor_conn \<Rightarrow> supervisor_world \<Rightarrow> request_outcome" where
  "handle_attach env sid session_id c wd =
     (if sc_controller_identity c \<noteq> None then outcome (R_Err already_attached) c wd []
      else if session_id \<noteq> sid then outcome (R_Err session_id_mismatch) c wd []
      else
        (let ((identity, sync), st) = attach_sync (sc_tx c) (pe_process_id env) None (sw_state wd) in
         (outcome (R_Ok (P_Snapshot (sap_snapshot sync))) (c\<lparr>sc_controller_identity := Some identity\<rparr>)
            (wd\<lparr>sw_state := st\<rparr>) [])\<lparr>ro_suppress := Some (sap_base_seq sync)\<rparr>))"

definition handle_attach_sync :: "pty_env \<Rightarrow> text_bytes \<Rightarrow> text_bytes \<Rightarrow> u64 option \<Rightarrow> u64 option \<Rightarrow>
    supervisor_conn \<Rightarrow> supervisor_world \<Rightarrow> request_outcome" where
  "handle_attach_sync env sid session_id last_seq resume c wd =
     (if sc_controller_identity c \<noteq> None then outcome (R_Err already_attached) c wd []
      else if session_id \<noteq> sid then outcome (R_Err session_id_mismatch) c wd []
      else if ss_exited (sw_state wd) then outcome (R_Err pty_exited) c wd []
      else case resume of
        None \<Rightarrow>
          (let ((identity, sync), st) = attach_sync (sc_tx c) (pe_process_id env) last_seq (sw_state wd) in
           (outcome (R_Ok (P_AttachSync sync)) (c\<lparr>sc_controller_identity := Some identity\<rparr>)
              (wd\<lparr>sw_state := st\<rparr>) [])\<lparr>ro_suppress := Some (sap_base_seq sync)\<rparr>)
      | Some cid \<Rightarrow>
          (case resume_attach_sync cid (pe_process_id env) last_seq (sw_state wd) of
             (Inl e, st) \<Rightarrow> outcome (R_Err e) c (wd\<lparr>sw_state := st\<rparr>) []
           | (Inr (identity, sync), st) \<Rightarrow>
               (outcome (R_Ok (P_AttachSync sync)) (c\<lparr>sc_pending_resume_identity := Some identity\<rparr>)
                  (wd\<lparr>sw_state := st\<rparr>) [])\<lparr>ro_suppress := Some (sap_base_seq sync)\<rparr>))"

definition handle_commit_resume :: "u64 \<Rightarrow> supervisor_conn \<Rightarrow> supervisor_world \<Rightarrow> request_outcome" where
  "handle_commit_resume tid c wd =
     (case sc_pending_resume_identity c of
        None \<Rightarrow> outcome (R_Err ''session supervisor has no pending controller resume'') c wd []
      | Some candidate \<Rightarrow>
          (case commit_controller_resume tid candidate (sc_tx c) (sw_state wd) of
             (Inl e, st) \<Rightarrow> outcome (R_Err e) c (wd\<lparr>sw_state := st\<rparr>) []
           | (Inr committed, st) \<Rightarrow>
               outcome (R_Ok (P_ControllerResumeStatus (Some (ci_id committed)) (Some (ci_connection_id committed))))
                 (c\<lparr>sc_controller_identity := Some committed, sc_pending_resume_identity := None,
                    sc_committed_resume_transaction_id := Some tid\<rparr>) (wd\<lparr>sw_state := st\<rparr>) []))"

definition handle_cleanup_challenge :: "pty_env \<Rightarrow> text_bytes \<Rightarrow> text_bytes \<Rightarrow> text_bytes \<Rightarrow>
    supervisor_conn \<Rightarrow> supervisor_world \<Rightarrow> request_outcome" where
  "handle_cleanup_challenge env sid session_id cn64 c wd =
     (if sc_controller_identity c \<noteq> None
      then outcome (R_Err ''cleanup authentication cannot use a controller connection'') c wd []
      else if session_id \<noteq> sid then outcome (R_Err session_id_mismatch) c wd []
      else case (decode_cleanup_nonce env cn64, ss_cleanup_capability (sw_state wd)) of
        (Inr cn, Some cap) \<Rightarrow>
          (let sn = pe_server_nonce env; proof' = cleanup_auth_proof (pe_sha256 env) cap sid cn sn in
           outcome (R_Ok (P_CleanupAuthChallenge (pe_b64_encode env sn) (pe_b64_encode env proof')))
             (c\<lparr>sc_pending_cleanup_authentication := Some (cn, sn)\<rparr>) wd [])
      | (Inr cn, None) \<Rightarrow> outcome (R_Err ''cleanup capability is not installed'') c wd []
      | (Inl e, _) \<Rightarrow> outcome (R_Err e) c wd [])"

definition handle_cleanup_authenticate :: "pty_env \<Rightarrow> text_bytes \<Rightarrow> text_bytes \<Rightarrow> text_bytes \<Rightarrow> text_bytes \<Rightarrow> text_bytes \<Rightarrow>
    supervisor_conn \<Rightarrow> supervisor_world \<Rightarrow> request_outcome" where
  "handle_cleanup_authenticate env sid session_id cn64 sn64 cap64 c0 wd =
     (let pending = sc_pending_cleanup_authentication c0;
          c = c0\<lparr>sc_pending_cleanup_authentication := None\<rparr> in
      if sc_controller_identity c \<noteq> None
      then outcome (R_Err ''cleanup authentication cannot use a controller connection'') c wd []
      else if session_id \<noteq> sid then outcome (R_Err session_id_mismatch) c wd []
      else
        (let authenticated =
           (case (pending, decode_cleanup_capability env cap64, decode_cleanup_nonce env cn64,
                  decode_cleanup_nonce env sn64, ss_cleanup_capability (sw_state wd)) of
              (Some p, Inr supplied, Inr cn, Inr sn, Some expected) \<Rightarrow>
                constant_time_eq supplied expected \<and> constant_time_eq cn (fst p) \<and> constant_time_eq sn (snd p)
            | _ \<Rightarrow> False)
         in if authenticated
            then outcome (R_Ok P_Empty) (c\<lparr>sc_cleanup_authenticated := True\<rparr>)
                   (upd_state (\<lambda>st. st\<lparr>ss_cleanup_capability_replaceable := False\<rparr>) wd) []
            else outcome (R_Err ''cleanup authentication failed'') c wd []))"

definition handle_cleanup_close :: "pty_env \<Rightarrow> text_bytes \<Rightarrow> text_bytes \<Rightarrow> u64 \<Rightarrow>
    supervisor_conn \<Rightarrow> supervisor_world \<Rightarrow> request_outcome" where
  "handle_cleanup_close env sid session_id oid c wd =
     (if \<not> sc_cleanup_authenticated c
      then outcome (R_Err ''restricted cleanup close requires authentication'') c wd []
      else if session_id \<noteq> sid then outcome (R_Err session_id_mismatch) c wd []
      else case ss_confirmed_close_operation_id (sw_state wd) of
        Some confirmed \<Rightarrow>
          if confirmed \<noteq> oid
          then outcome (R_Err ''a different session supervisor close operation is confirmed'') c wd []
          else outcome (R_Ok (P_CloseStatus True)) c wd []
      | None \<Rightarrow>
          (let wd1 = upd_state (\<lambda>st. st\<lparr>ss_cleanup_capability_replaceable := False\<rparr>) wd in
           case terminate_and_wait env of
             (Some e, fx) \<Rightarrow> outcome (R_Err e) c wd1 fx
           | (None, fx) \<Rightarrow> outcome (R_Ok (P_CloseStatus True)) c
                 (upd_state (\<lambda>st. st\<lparr>ss_confirmed_close_operation_id := Some oid\<rparr>) wd1) fx))"

definition handle_install_capability :: "pty_env \<Rightarrow> text_bytes \<Rightarrow> text_bytes \<Rightarrow> text_bytes \<Rightarrow>
    supervisor_conn \<Rightarrow> supervisor_world \<Rightarrow> request_outcome" where
  "handle_install_capability env sid session_id cap64 c wd =
     (if session_id \<noteq> sid then outcome (R_Err session_id_mismatch) c wd []
      else case decode_cleanup_capability env cap64 of
        Inl e \<Rightarrow> outcome (R_Err e) c wd []
      | Inr cap \<Rightarrow>
          if is_current_controller (sc_controller_identity c) (sw_state wd)
          then outcome (R_Ok P_Empty) c
                 (upd_state (\<lambda>st. st\<lparr>ss_cleanup_capability := Some cap, ss_cleanup_capability_replaceable := False\<rparr>) wd) []
          else outcome (R_Err ''cleanup capability installation is not authorized'') c wd [])"

fun dispatch_request :: "pty_env \<Rightarrow> text_bytes \<Rightarrow> supervisor_request \<Rightarrow> supervisor_conn \<Rightarrow> supervisor_world \<Rightarrow> request_outcome" where
  "dispatch_request env sid (Attach session_id) c wd = handle_attach env sid session_id c wd"
| "dispatch_request env sid (AttachSync session_id l resume) c wd = handle_attach_sync env sid session_id l resume c wd"
| "dispatch_request env sid (CommitControllerResume tid) c wd = handle_commit_resume tid c wd"
| "dispatch_request env sid (ControllerResumeStatus tid) c wd =
     (let committed = committed_controller_resume tid (sw_state wd) in
      outcome (R_Ok (P_ControllerResumeStatus (map_option ci_id committed) (map_option ci_connection_id committed))) c wd [])"
| "dispatch_request env sid (ResetAttachedDevicesForController cid conn) c wd =
     (if \<not> is_active_controller \<lparr>ci_id = cid, ci_connection_id = conn\<rparr> (sw_state wd)
      then outcome (R_Err ''session supervisor reset controller is not active'') c wd []
      else outcome (R_Ok P_Empty) c (upd_state (\<lambda>st. st\<lparr>ss_attached_devices := {}\<rparr>) wd) [])"
| "dispatch_request env sid SnapshotRequest c wd =
     (case ensure_current_or_pending_controller (sc_controller_identity c) (sc_pending_resume_identity c) (sw_state wd) of
        Some e \<Rightarrow> outcome (R_Err e) c wd []
      | None \<Rightarrow> act_on env sid SnapshotRequest c wd)"
| "dispatch_request env sid (InstallCleanupCapability session_id cap64) c wd =
     handle_install_capability env sid session_id cap64 c wd"
| "dispatch_request env sid (CleanupAuthChallenge session_id cn64) c wd = handle_cleanup_challenge env sid session_id cn64 c wd"
| "dispatch_request env sid (CleanupAuthenticate session_id cn64 sn64 cap64) c wd =
     handle_cleanup_authenticate env sid session_id cn64 sn64 cap64 c wd"
| "dispatch_request env sid (CleanupClose session_id oid) c wd = handle_cleanup_close env sid session_id oid c wd"
| "dispatch_request env sid (CloseStatus oid) c wd =
     (if sc_controller_identity c = None \<and> \<not> sc_cleanup_authenticated c
      then outcome (R_Err ''session supervisor close status requires authority'') c wd []
      else outcome (R_Ok (P_CloseStatus (ss_confirmed_close_operation_id (sw_state wd) = Some oid))) c wd [])"
| "dispatch_request env sid (FinalizeClose oid) c wd =
     (if sc_controller_identity c = None \<and> \<not> sc_cleanup_authenticated c
      then outcome (R_Err ''session supervisor close finalization requires authority'') c wd []
      else if ss_confirmed_close_operation_id (sw_state wd) \<noteq> Some oid
      then outcome (R_Err ''session supervisor close operation is not confirmed'') c wd []
      else outcome (R_Ok P_Empty) c wd [Send_shutdown])"
| "dispatch_request env sid NaturalExitStatus c wd = outcome (R_Ok (P_CloseStatus (ss_exited (sw_state wd)))) c wd []"
| "dispatch_request env sid FinalizeNaturalExit c wd =
     (if \<not> ss_exited (sw_state wd) then outcome (R_Err ''session supervisor PTY has not exited'') c wd []
      else outcome (R_Ok P_Empty) c wd [Send_shutdown])"
| "dispatch_request env sid Ping c wd =
     (if sc_cleanup_authenticated c then outcome (R_Ok P_Empty) c wd []
      else case ensure_current_or_pending_controller (sc_controller_identity c) (sc_pending_resume_identity c) (sw_state wd) of
        Some e \<Rightarrow> outcome (R_Err e) c wd []
      | None \<Rightarrow> outcome (R_Ok P_Empty) c wd [])"
| "dispatch_request env sid req c wd = as_current_controller env sid req c wd"

definition handle_request :: "pty_env \<Rightarrow> text_bytes \<Rightarrow> supervisor_request \<Rightarrow> supervisor_conn \<Rightarrow> supervisor_world \<Rightarrow> request_outcome" where
  "handle_request env sid req c wd =
     (if sc_cleanup_authenticated c \<and> \<not> allowed_in_restricted_mode req
      then outcome (R_Err ''restricted cleanup connection cannot enter controller mode'') c wd []
      else dispatch_request env sid req c wd)"

text \<open>The live frames behind a sync: what the reply covers is dropped, the rest is kept in order.\<close>

function drain_controller_frames_after_sync :: "u64 \<Rightarrow> supervisor_frame out_queue \<Rightarrow> supervisor_frame list \<times> supervisor_frame out_queue" where
  "drain_controller_frames_after_sync base q =
     (case try_recv q of
        None \<Rightarrow> ([], q)
      | Some (f, q1) \<Rightarrow>
          (let (delayed, q2) = drain_controller_frames_after_sync base q1 in
           case f of
             SF_TerminalFrame tf \<Rightarrow>
               (case frame_terminal_seq tf of
                  Some seq \<Rightarrow> if seq \<le> base then (delayed, q2) else (f # delayed, q2)
                | None \<Rightarrow> (f # delayed, q2))
           | SF_Response i r \<Rightarrow> (f # delayed, q2)))"
  by pat_completeness auto
termination
  by (relation "measure (\<lambda>(base, q). length (oq_items q))")
    (auto simp: try_recv_def reservation_drop_def split: list.splits)

declare drain_controller_frames_after_sync.simps [simp del]

text \<open>The end of a connection: its controller goes, unless its resume was committed here.\<close>

definition end_connection :: "supervisor_conn \<Rightarrow> supervisor_world \<Rightarrow> supervisor_world" where
  "end_connection c wd =
     (case sc_controller_identity c of
        None \<Rightarrow> wd
      | Some identity \<Rightarrow>
          (let committed_here =
             (case sc_committed_resume_transaction_id c of
                None \<Rightarrow> False
              | Some tid \<Rightarrow> committed_controller_resume tid (sw_state wd) = Some identity)
           in if \<not> committed_here then upd_state (remove_controller identity) wd else wd))"


section \<open>Terminal connections, output and exit\<close>

text \<open>Opening a terminal connection: registration and the first frame in one critical section.\<close>

definition open_terminal_attach :: "text_bytes \<Rightarrow> nat option \<Rightarrow> u64 option \<Rightarrow> chan \<Rightarrow> supervisor_world \<Rightarrow>
    (u64 \<times> supervisor_terminal_server_frame \<times> u64) \<times> supervisor_world" where
  "open_terminal_attach sid pid last_seq tx wd =
     (let (i, st) = register_terminal_attach tx (sw_state wd);
          snapshot = \<lparr>ssp_size = stc_size (ss_terminal st), ssp_process_id = pid, ssp_exited = ss_exited st,
                      ssp_retained_output = []\<rparr>;
          (base_seq, fs) = cache_snapshot_or_tail last_seq (ss_terminal st)
      in ((i, TS_AttachSync sid base_seq snapshot fs, base_seq), wd\<lparr>sw_state := st\<rparr>))"

datatype terminal_client_frame = C_Bootstrap text_bytes "u64 option" | C_Input "u8 list" | C_Resize pty_size | C_Pong text_bytes

text \<open>
  A frame of an attached terminal client: the error that ends the connection, and what it did to the
  session. A pong only concerns the heartbeat of its own connection, below.
\<close>

fun handle_terminal_frame :: "pty_env \<Rightarrow> text_bytes \<Rightarrow> terminal_client_frame \<Rightarrow> supervisor_world \<Rightarrow>
    string option \<times> supervisor_world \<times> pty_effect list" where
  "handle_terminal_frame env sid (C_Bootstrap s l) wd = (Some ''terminal attach bootstrap must only be sent once'', wd, [])"
| "handle_terminal_frame env sid (C_Input data) wd = (pe_write_all env data, wd, [Pty_write data])"
| "handle_terminal_frame env sid (C_Resize sz) wd =
     (case pe_resize env sz of
        Some e \<Rightarrow> (Some e, wd, [Pty_resize sz])
      | None \<Rightarrow> (let (f, st) = state_resize sz (sw_state wd) in
                 (None, broadcast_terminal_frame sid f (wd\<lparr>sw_state := st\<rparr>), [Pty_resize sz])))"
| "handle_terminal_frame env sid (C_Pong n) wd = (None, wd, [])"

text \<open>
  The heartbeat of a terminal connection, on the millisecond clock of the connection: a pong clears
  the ping it answers, a tick closes the connection when a ping is 30 s old and else sends a ping
  when none is outstanding.
\<close>

definition supervisor_terminal_heartbeat_timeout :: u64 where
  "supervisor_terminal_heartbeat_timeout = 30000"

record heartbeat =
  hb_pending_nonce :: "text_bytes option"
  hb_sent_at :: "u64 option"

definition heartbeat_pong :: "text_bytes \<Rightarrow> heartbeat \<Rightarrow> heartbeat" where
  "heartbeat_pong nonce hb =
     (if hb_pending_nonce hb = Some nonce then hb\<lparr>hb_pending_nonce := None, hb_sent_at := None\<rparr> else hb)"

datatype heartbeat_action = Hb_close "text_bytes" | Hb_ping "text_bytes" | Hb_wait

definition heartbeat_tick :: "u64 \<Rightarrow> text_bytes \<Rightarrow> heartbeat \<Rightarrow> heartbeat_action \<times> heartbeat" where
  "heartbeat_tick now fresh_nonce hb =
     (case (hb_pending_nonce hb, hb_sent_at hb) of
        (Some nonce, Some sent_at) \<Rightarrow>
          if now - sent_at \<ge> supervisor_terminal_heartbeat_timeout then (Hb_close nonce, hb) else (Hb_wait, hb)
      | (None, _) \<Rightarrow> (Hb_ping fresh_nonce, hb\<lparr>hb_pending_nonce := Some fresh_nonce, hb_sent_at := Some now\<rparr>)
      | (Some _, None) \<Rightarrow> (Hb_wait, hb))"

definition publish_supervisor_output_batch :: "(uchar \<Rightarrow> usize option) \<Rightarrow> text_bytes \<Rightarrow> u8 list \<Rightarrow> supervisor_world \<Rightarrow> supervisor_world option" where
  "publish_supervisor_output_batch w sid batch wd =
     (if batch = [] then Some wd
      else map_option (\<lambda>(f, st). broadcast_terminal_frame sid f (wd\<lparr>sw_state := st\<rparr>))
             (state_record_output w batch (sw_state wd)))"

definition publish_exit :: "text_bytes \<Rightarrow> int option \<Rightarrow> supervisor_world \<Rightarrow> supervisor_world" where
  "publish_exit sid code wd =
     (let (f, st) = state_record_exit code (sw_state wd) in broadcast_terminal_frame sid f (wd\<lparr>sw_state := st\<rparr>))"

end
