(* ===== verification/Supervisor_Delivery.thy ===== *)
theory Supervisor_Delivery
  imports Supervisor_Handler
begin

text \<open>
  Delivery of terminal frames by the session supervisor: the output queues stay within their budgets,
  a broadcast reaches every consumer that keeps up and drops only the ones that do not, and an
  attached controller receives every later event in order behind its attach reply.
\<close>

declare map_of_eq_Some_iff [simp del] Some_eq_map_of_iff [simp del]

section \<open>Queues\<close>

text \<open>The counters of the budget are the messages and bytes in the queue.\<close>

definition queue_ok :: "'a out_queue \<Rightarrow> bool" where
  "queue_ok q \<longleftrightarrow> oq_messages q = length (oq_items q) \<and> oq_bytes q = sum_list (map snd (oq_items q)) \<and>
     oq_messages q \<le> supervisor_output_queue_max_messages \<and> oq_bytes q \<le> supervisor_output_queue_max_bytes"

lemma queue_ok_new: "queue_ok out_queue_new"
  by (simp add: queue_ok_def out_queue_new_def)

lemma budget_reserve_def': "budget_reserve n q =
   (if oq_messages q + 1 > supervisor_output_queue_max_messages \<or> oq_bytes q + n > supervisor_output_queue_max_bytes
    then None else Some (q\<lparr>oq_messages := oq_messages q + 1, oq_bytes := oq_bytes q + n\<rparr>))"
  by (auto simp: budget_reserve_def supervisor_output_queue_max_messages_def supervisor_output_queue_max_bytes_def
      max_supervisor_frame_bytes_def u64_max_def)

lemma try_send_sent:
  assumes "try_send v n q = (True, q')"
  shows "oq_items q' = oq_items q @ [(v, n)]" "oq_overflow q' = oq_overflow q" "oq_closed q' = oq_closed q"
  using assms by (auto simp: try_send_def budget_reserve_def' split: if_splits)

lemma try_send_refused:
  assumes "try_send v n q = (False, q')" "queue_ok q"
  shows "q' = q\<lparr>oq_overflow := True\<rparr>"
  using assms by (cases q) (auto simp: try_send_def budget_reserve_def' reservation_drop_def split: if_splits)

lemma queue_ok_send: "queue_ok q \<Longrightarrow> queue_ok (snd (try_send v n q))"
  by (auto simp: try_send_def budget_reserve_def' queue_ok_def reservation_drop_def)

lemma queue_ok_recv: "queue_ok q \<Longrightarrow> try_recv q = Some (v, q') \<Longrightarrow> queue_ok q'"
  by (auto simp: try_recv_def queue_ok_def reservation_drop_def split: list.splits)

lemma try_recv_items: "try_recv q = Some (v, q') \<Longrightarrow> map fst (oq_items q) = v # map fst (oq_items q')"
  by (auto simp: try_recv_def reservation_drop_def split: list.splits)

lemma queue_ok_bounds:
  "queue_ok q \<Longrightarrow> length (oq_items q) \<le> 128 \<and> sum_list (map snd (oq_items q)) \<le> 8388608"
  by (simp add: queue_ok_def supervisor_output_queue_max_messages_def supervisor_output_queue_max_bytes_def
      max_supervisor_frame_bytes_def)

section \<open>Broadcast\<close>

lemma send_all_spec:
  assumes "distinct (map snd hs)"
  shows "fst (send_all v n hs qs) = map fst (filter (\<lambda>h. \<not> fst (try_send v n (qs (snd h)))) hs) \<and>
    snd (send_all v n hs qs) = (\<lambda>c. if c \<in> set (map snd hs) then snd (try_send v n (qs c)) else qs c)"
  using assms
proof (induction hs arbitrary: qs)
  case Nil
  then show ?case by simp
next
  case (Cons h hs)
  obtain i tx where h: "h = (i, tx)" by force
  define qs1 where "qs1 = qs(tx := snd (try_send v n (qs tx)))"
  have new: "tx \<notin> set (map snd hs)" and rest: "distinct (map snd hs)" using Cons.prems h by auto
  have q1: "qs1 (snd x) = qs (snd x)" if "x \<in> set hs" for x
    using that new by (auto simp: qs1_def)
  have same: "filter (\<lambda>h. \<not> fst (try_send v n (qs1 (snd h)))) hs = filter (\<lambda>h. \<not> fst (try_send v n (qs (snd h)))) hs"
    using q1 by (intro filter_cong) auto
  note IH = Cons.IH [OF rest, of qs1, unfolded same]
  have "snd (send_all v n hs qs1) = (\<lambda>c. if c \<in> set (map snd (h # hs)) then snd (try_send v n (qs c)) else qs c)"
    using IH q1 new by (auto simp: h fun_eq_iff) (simp_all add: qs1_def)
  then show ?case using IH by (simp add: h case_prod_beta qs1_def [symmetric])
qed

text \<open>What removing controllers leaves alone, and who stays.\<close>

definition same_but_controllers :: "supervisor_state \<Rightarrow> supervisor_state \<Rightarrow> bool" where
  "same_but_controllers st st' \<longleftrightarrow>
     st'\<lparr>ss_controllers := ss_controllers st, ss_active_controller_id := ss_active_controller_id st,
         ss_active_controller_connection_id := ss_active_controller_connection_id st\<rparr> = st"

lemma same_but_controllers_refl: "same_but_controllers st st"
  by (simp add: same_but_controllers_def)

lemma same_but_controllers_trans:
  "same_but_controllers a b \<Longrightarrow> same_but_controllers b c \<Longrightarrow> same_but_controllers a c"
  by (cases a, cases b, cases c) (simp add: same_but_controllers_def)

lemma remove_closed_same: "same_but_controllers st (remove_closed_controller i st)"
  by (cases st) (auto simp: same_but_controllers_def remove_closed_controller_def remove_controller_def Let_def split: option.splits)

lemma remove_closed_get:
  "hm_get (ss_controllers (remove_closed_controller i st)) k = (if k = i then None else hm_get (ss_controllers st) k)"
  by (auto simp: remove_closed_controller_def remove_controller_def handle_matches_def Let_def split: option.splits)

lemma hm_remove_filter: "hm_remove k m = filter (\<lambda>e. fst e \<noteq> k) m"
  by (induction m) auto

lemma remove_closed_filter:
  assumes "hm_wf (ss_controllers st)"
  shows "ss_controllers (remove_closed_controller i st) = filter (\<lambda>e. fst e \<noteq> i) (ss_controllers st)"
proof (cases "hm_get (ss_controllers st) i")
  case None
  then have "filter (\<lambda>e. fst e \<noteq> i) (ss_controllers st) = ss_controllers st"
    by (auto simp: filter_id_conv map_of_eq_None_iff)
  with None show ?thesis by (simp add: remove_closed_controller_def)
next
  case (Some h)
  then show ?thesis
    by (simp add: remove_closed_controller_def remove_controller_def handle_matches_def Let_def hm_remove_filter)
qed

lemma remove_closed_active:
  assumes "is_active_controller c st" "ci_id c \<noteq> i"
  shows "is_active_controller c (remove_closed_controller i st)"
  using assms
  by (auto simp: is_active_controller_def handle_matches_def remove_closed_controller_def remove_controller_def Let_def
      split: option.splits)

lemma fold_remove_closed:
  assumes "hm_wf (ss_controllers st)"
  shows "same_but_controllers st (fold remove_closed_controller is st) \<and>
    ss_controllers (fold remove_closed_controller is st) = filter (\<lambda>e. fst e \<notin> set is) (ss_controllers st) \<and>
    (is_active_controller c st \<and> ci_id c \<notin> set is \<longrightarrow> is_active_controller c (fold remove_closed_controller is st))"
  using assms
proof (induction "is" arbitrary: st)
  case Nil
  then show ?case by (simp add: same_but_controllers_refl)
next
  case (Cons i "is")
  have "hm_wf (ss_controllers (remove_closed_controller i st))"
    using Cons.prems by (simp add: remove_closed_filter distinct_map_filter)
  from Cons.IH [OF this] show ?case
    using same_but_controllers_trans [OF remove_closed_same] remove_closed_active [of c st i] Cons.prems
    by (auto simp: remove_closed_filter intro: filter_cong)
qed

lemma fold_remove_attach:
  "fold remove_terminal_attach is st =
     st\<lparr>ss_terminal_attaches := filter (\<lambda>e. fst e \<notin> set is) (ss_terminal_attaches st)\<rparr>"
proof (induction "is" arbitrary: st)
  case Nil
  then show ?case by simp
next
  case (Cons i "is")
  show ?case
    by (simp add: Cons.IH) (simp add: remove_terminal_attach_def hm_remove_filter conj_commute)
qed

text \<open>The world a broadcast needs: well-formed maps, a channel of its own for each consumer, sound queues.\<close>

definition world_ok :: "supervisor_world \<Rightarrow> bool" where
  "world_ok wd \<longleftrightarrow> hm_wf (ss_controllers (sw_state wd)) \<and> hm_wf (ss_terminal_attaches (sw_state wd)) \<and>
     distinct (map (\<lambda>e. ch_tx (snd e)) (ss_controllers (sw_state wd))) \<and>
     distinct (map snd (ss_terminal_attaches (sw_state wd))) \<and>
     (\<forall>n. queue_ok (sw_control wd n)) \<and> (\<forall>n. queue_ok (sw_attach wd n))"

definition keeps_up :: "pty_terminal_frame \<Rightarrow> 'a out_queue \<Rightarrow> bool" where
  "keeps_up f q \<longleftrightarrow> \<not> oq_closed q \<and> length (oq_items q) < supervisor_output_queue_max_messages \<and>
     sum_list (map snd (oq_items q)) + terminal_frame_retained_bytes f \<le> supervisor_output_queue_max_bytes"

lemma keeps_up_iff:
  "queue_ok q \<Longrightarrow> fst (try_send v (terminal_frame_retained_bytes f) q) = keeps_up f q"
  by (auto simp: keeps_up_def queue_ok_def try_send_def budget_reserve_def' not_less)

lemma send_outcome:
  assumes "\<And>n. queue_ok (qs n)"
  shows "let q = qs n; q' = snd (try_send v (terminal_frame_retained_bytes f) q) in
    if keeps_up f q then oq_items q' = oq_items q @ [(v, terminal_frame_retained_bytes f)] \<and> oq_overflow q' = oq_overflow q
    else q' = q\<lparr>oq_overflow := True\<rparr>"
proof -
  obtain r q' where s: "try_send v (terminal_frame_retained_bytes f) (qs n) = (r, q')" by force
  with keeps_up_iff [OF assms, of v f n] try_send_sent [of v _ "qs n" q'] try_send_refused [of v _ "qs n" q', OF _ assms]
  show ?thesis by (cases r) (auto simp: Let_def)
qed

lemma broadcast_spec:
  fixes sid :: text_bytes and f :: pty_terminal_frame
  assumes "world_ok wd"
  defines "wd' \<equiv> broadcast_terminal_frame sid f wd"
  shows "ss_controllers (sw_state wd') = filter (\<lambda>e. keeps_up f (sw_control wd (ch_tx (snd e)))) (ss_controllers (sw_state wd))"
    and "ss_terminal_attaches (sw_state wd') = filter (\<lambda>e. keeps_up f (sw_attach wd (snd e))) (ss_terminal_attaches (sw_state wd))"
    and "sw_control wd' n =
      (if n \<in> (\<lambda>e. ch_tx (snd e)) ` set (ss_controllers (sw_state wd))
       then snd (try_send (SF_TerminalFrame f) (terminal_frame_retained_bytes f) (sw_control wd n)) else sw_control wd n)"
    and "sw_attach wd' n =
      (if n \<in> snd ` set (ss_terminal_attaches (sw_state wd))
       then snd (try_send (TS_TerminalFrame sid f) (terminal_frame_retained_bytes f) (sw_attach wd n)) else sw_attach wd n)"
    and "same_but_controllers (sw_state wd) ((sw_state wd')\<lparr>ss_terminal_attaches := ss_terminal_attaches (sw_state wd)\<rparr>)"
    and "is_active_controller c (sw_state wd) \<Longrightarrow>
      (\<exists>h. hm_get (ss_controllers (sw_state wd)) (ci_id c) = Some h \<and> keeps_up f (sw_control wd (ch_tx h))) \<Longrightarrow>
      is_active_controller c (sw_state wd')"
proof -
  let ?st = "sw_state wd" and ?n = "terminal_frame_retained_bytes f"
  let ?hs = "map (\<lambda>(i, h). (i, ch_tx h)) (ss_controllers ?st)"
  have w: "hm_wf (ss_controllers ?st)" "distinct (map snd ?hs)" "distinct (map snd (ss_terminal_attaches ?st))"
    "hm_wf (ss_terminal_attaches ?st)"
    "\<And>n. queue_ok (sw_control wd n)" "\<And>n. queue_ok (sw_attach wd n)"
    using assms(1) by (auto simp: world_ok_def comp_def case_prod_beta)
  note ca = send_all_spec [OF w(2), of "SF_TerminalFrame f" ?n "sw_control wd"]
  define closed where "closed = fst (send_all (SF_TerminalFrame f) ?n ?hs (sw_control wd))"
  have closed_iff: "i \<in> set closed \<longleftrightarrow> (\<exists>h. (i, h) \<in> set (ss_controllers ?st) \<and> \<not> keeps_up f (sw_control wd (ch_tx h)))" for i
    using ca by (force simp: closed_def keeps_up_iff [OF w(5)] image_iff case_prod_beta)
  define st1 where "st1 = fold remove_closed_controller closed ?st"
  note fr = fold_remove_closed [OF w(1), of closed c, folded st1_def]
  have tat: "ss_terminal_attaches st1 = ss_terminal_attaches ?st"
    using fr by (cases st1, cases ?st) (simp add: same_but_controllers_def)
  note ta = send_all_spec [OF w(3), of "TS_TerminalFrame sid f" ?n "sw_attach wd"]
  have wd': "wd' = \<lparr>sw_state = fold remove_terminal_attach
        (fst (send_all (TS_TerminalFrame sid f) ?n (ss_terminal_attaches ?st) (sw_attach wd))) st1,
      sw_control = snd (send_all (SF_TerminalFrame f) ?n ?hs (sw_control wd)),
      sw_attach = snd (send_all (TS_TerminalFrame sid f) ?n (ss_terminal_attaches ?st) (sw_attach wd))\<rparr>"
    using tat unfolding wd'_def broadcast_terminal_frame_def
    by (simp add: Let_def case_prod_beta st1_def closed_def)
  have uniq: "(i, h) \<in> set (ss_controllers ?st) \<Longrightarrow> (i, h') \<in> set (ss_controllers ?st) \<Longrightarrow> h = h'" for i h h'
    using w(1) hm_entry_get by (metis option.inject)
  have "ss_controllers (sw_state wd') = filter (\<lambda>e. fst e \<notin> set closed) (ss_controllers ?st)"
    using fr by (simp add: wd' fold_remove_attach)
  also have "\<dots> = filter (\<lambda>e. keeps_up f (sw_control wd (ch_tx (snd e)))) (ss_controllers ?st)"
    by (intro filter_cong) (auto simp: closed_iff dest: uniq)
  finally show "ss_controllers (sw_state wd') = \<dots>" .
  show "ss_terminal_attaches (sw_state wd') = filter (\<lambda>e. keeps_up f (sw_attach wd (snd e))) (ss_terminal_attaches ?st)"
  proof -
    have "filter (\<lambda>e. fst e \<notin> set (fst (send_all (TS_TerminalFrame sid f) ?n (ss_terminal_attaches ?st) (sw_attach wd))))
        (ss_terminal_attaches ?st) = filter (\<lambda>e. keeps_up f (sw_attach wd (snd e))) (ss_terminal_attaches ?st)"
    proof (rule filter_cong [OF refl])
      fix e assume e: "e \<in> set (ss_terminal_attaches ?st)"
      have "e' = e" if "e' \<in> set (ss_terminal_attaches ?st)" "fst e' = fst e" for e'
        using that e w(4) by (metis eq_key_imp_eq_value prod.collapse)
      then show "(fst e \<notin> set (fst (send_all (TS_TerminalFrame sid f) ?n (ss_terminal_attaches ?st) (sw_attach wd)))) =
          keeps_up f (sw_attach wd (snd e))"
        using ta e by (auto simp: keeps_up_iff [OF w(6)])
    qed
    then show ?thesis by (simp add: wd' fold_remove_attach tat)
  qed
  show "sw_control wd' n = (if n \<in> (\<lambda>e. ch_tx (snd e)) ` set (ss_controllers ?st)
       then snd (try_send (SF_TerminalFrame f) ?n (sw_control wd n)) else sw_control wd n)"
    using ca by (auto simp: wd' case_prod_beta image_image)
  show "sw_attach wd' n = (if n \<in> snd ` set (ss_terminal_attaches ?st)
       then snd (try_send (TS_TerminalFrame sid f) ?n (sw_attach wd n)) else sw_attach wd n)"
    using ta by (auto simp: wd')
  show "same_but_controllers ?st ((sw_state wd')\<lparr>ss_terminal_attaches := ss_terminal_attaches ?st\<rparr>)"
    using fr tat by (cases st1, cases ?st) (simp add: wd' fold_remove_attach same_but_controllers_def)
  show "is_active_controller c (sw_state wd')"
    if act: "is_active_controller c ?st" and keep: "\<exists>h. hm_get (ss_controllers ?st) (ci_id c) = Some h \<and> keeps_up f (sw_control wd (ch_tx h))"
  proof -
    obtain h where "(ci_id c, h) \<in> set (ss_controllers ?st)" "keeps_up f (sw_control wd (ch_tx h))"
      using keep map_of_SomeD by fast
    then have "ci_id c \<notin> set closed" unfolding closed_iff by (blast dest: uniq)
    with fr act have "is_active_controller c st1" by blast
    then show ?thesis by (simp add: wd' fold_remove_attach is_active_controller_def handle_matches_def)
  qed
qed

lemma world_ok_broadcast:
  assumes "world_ok wd"
  shows "world_ok (broadcast_terminal_frame sid f wd)"
  using assms unfolding world_ok_def [of "broadcast_terminal_frame sid f wd"] broadcast_spec(1-4) [OF assms]
  by (auto simp: world_ok_def distinct_map_filter queue_ok_send)


section \<open>Sessions as seen by a controller\<close>

text \<open>One session input, recorded and broadcast: the pump, the exit watcher or an accepted resize.\<close>

fun session_step :: "(uchar \<Rightarrow> usize option) \<Rightarrow> text_bytes \<Rightarrow> session_input \<Rightarrow> supervisor_world \<Rightarrow> supervisor_world option" where
  "session_step w sid (In_output bytes) wd = publish_supervisor_output_batch w sid bytes wd"
| "session_step w sid (In_resize sz) wd =
     (let (f, st) = state_resize sz (sw_state wd) in Some (broadcast_terminal_frame sid f (wd\<lparr>sw_state := st\<rparr>)))"
| "session_step w sid (In_exit code) wd = Some (publish_exit sid code wd)"

datatype feed_step = Step_input session_input | Step_recv

text \<open>The session goes on while the connection with channel \<open>n\<close> takes frames from its queue.\<close>

fun feed :: "(uchar \<Rightarrow> usize option) \<Rightarrow> text_bytes \<Rightarrow> chan \<Rightarrow> feed_step list \<Rightarrow> supervisor_world \<Rightarrow> supervisor_frame list \<Rightarrow>
    (supervisor_world \<times> supervisor_frame list) option" where
  "feed w sid n [] wd log = Some (wd, log)"
| "feed w sid n (Step_input i # ss) wd log =
     (case session_step w sid i wd of None \<Rightarrow> None | Some wd' \<Rightarrow> feed w sid n ss wd' log)"
| "feed w sid n (Step_recv # ss) wd log =
     (case try_recv (sw_control wd n) of
        None \<Rightarrow> feed w sid n ss wd log
      | Some (v, q) \<Rightarrow> feed w sid n ss (wd\<lparr>sw_control := (sw_control wd)(n := q)\<rparr>) (log @ [v]))"

fun inputs_of :: "feed_step list \<Rightarrow> session_input list" where
  "inputs_of [] = []"
| "inputs_of (Step_input i # ss) = i # inputs_of ss"
| "inputs_of (Step_recv # ss) = inputs_of ss"

lemma session_step_broadcast:
  assumes "i \<noteq> In_output []" "session_step w sid i wd = Some wd'"
  shows "\<exists>f c st. cache_step w i (ss_terminal (sw_state wd)) = Some (f, c) \<and>
    wd' = broadcast_terminal_frame sid f (wd\<lparr>sw_state := st\<rparr>) \<and> ss_terminal st = c \<and>
    ss_controllers st = ss_controllers (sw_state wd) \<and> ss_terminal_attaches st = ss_terminal_attaches (sw_state wd)"
proof (cases i)
  case (In_output b)
  then obtain f c where r: "record_output w b (ss_terminal (sw_state wd)) = Some (f, c)"
    "wd' = broadcast_terminal_frame sid f (wd\<lparr>sw_state := (sw_state wd)\<lparr>ss_terminal := c\<rparr>\<rparr>)"
    using assms by (auto simp: publish_supervisor_output_batch_def state_record_output_def)
  show ?thesis
    by (rule exI [of _ f], rule exI [of _ c], rule exI [of _ "(sw_state wd)\<lparr>ss_terminal := c\<rparr>"]) (simp add: In_output r)
next
  case (In_resize sz)
  obtain f c where r: "cache_resize sz (ss_terminal (sw_state wd)) = (f, c)" by force
  show ?thesis
    by (rule exI [of _ f], rule exI [of _ c], rule exI [of _ "(sw_state wd)\<lparr>ss_terminal := c\<rparr>"])
      (use assms(2) in \<open>simp add: In_resize r state_resize_def\<close>)
next
  case (In_exit code)
  obtain f c where r: "record_exit code (ss_terminal (sw_state wd)) = (f, c)" by force
  show ?thesis
    by (rule exI [of _ f], rule exI [of _ c], rule exI [of _ "(sw_state wd)\<lparr>ss_exited := True, ss_terminal := c\<rparr>"])
      (use assms(2) in \<open>simp add: In_exit r publish_exit_def state_record_exit_def\<close>)
qed

definition live_frames :: "nat \<Rightarrow> session_input list \<Rightarrow> supervisor_frame list" where
  "live_frames k is = map (\<lambda>e. SF_TerminalFrame (to_terminal_frame e)) (numbered (k + 1) is)"

text \<open>What holds of a controller on channel \<open>n\<close> after the inputs \<open>is\<close> that followed its attach.\<close>

definition follows :: "u64 \<Rightarrow> chan \<Rightarrow> nat \<Rightarrow> session_input list \<Rightarrow> supervisor_world \<Rightarrow> supervisor_frame list \<Rightarrow> bool" where
  "follows i n k is wd log \<longleftrightarrow>
     (let got = log @ map fst (oq_items (sw_control wd n)) in
      (\<exists>j \<le> length is. got = take j (live_frames k is)) \<and>
      (if \<exists>h. (i, h) \<in> set (ss_controllers (sw_state wd)) \<and> ch_tx h = n
       then got = live_frames k is
       else oq_overflow (sw_control wd n) \<and> n \<notin> (\<lambda>e. ch_tx (snd e)) ` set (ss_controllers (sw_state wd))))"

lemma live_frames_snoc: "live_frames k (is @ [i]) = live_frames k is @ [SF_TerminalFrame (to_terminal_frame (event_of (k + length is + 1) i))]"
  by (simp add: live_frames_def numbered_append)

lemma length_live_frames [simp]: "length (live_frames k is) = length is"
  by (simp add: live_frames_def)

lemma follows_broadcast:
  assumes "world_ok wd" "follows i n k is wd log"
    and f: "f = to_terminal_frame (event_of (k + length is + 1) x)"
    and only: "\<And>e. e \<in> set (ss_controllers (sw_state wd)) \<Longrightarrow> ch_tx (snd e) = n \<Longrightarrow> fst e = i"
  shows "follows i n k (is @ [x]) (broadcast_terminal_frame sid f wd) log"
proof -
  let ?q = "sw_control wd n" and ?wd = "broadcast_terminal_frame sid f wd"
  note b = broadcast_spec [OF assms(1), where sid = sid and f = f]
  have qok: "queue_ok ?q" using assms(1) by (simp add: world_ok_def)
  obtain j where j: "j \<le> length is" "log @ map fst (oq_items ?q) = take j (live_frames k is)"
    using assms(2) by (auto simp: follows_def Let_def)
  show ?thesis
  proof (cases "\<exists>h. (i, h) \<in> set (ss_controllers (sw_state wd)) \<and> ch_tx h = n")
    case True
    then obtain h where h: "(i, h) \<in> set (ss_controllers (sw_state wd))" "ch_tx h = n" by blast
    have got: "log @ map fst (oq_items ?q) = live_frames k is" using assms(2) True by (simp add: follows_def Let_def)
    have q': "sw_control ?wd n = snd (try_send (SF_TerminalFrame f) (terminal_frame_retained_bytes f) ?q)"
      using b(3) [of n] h by force
    show ?thesis
    proof (cases "keeps_up f ?q")
      case up: True
      then have "try_send (SF_TerminalFrame f) (terminal_frame_retained_bytes f) ?q = (True, sw_control ?wd n)"
        using q' keeps_up_iff [OF qok, of "SF_TerminalFrame f" f] by (metis prod.collapse)
      from try_send_sent(1) [OF this] have "log @ map fst (oq_items (sw_control ?wd n)) = live_frames k (is @ [x])"
        using got by (simp add: live_frames_snoc f)
      moreover have "(i, h) \<in> set (ss_controllers (sw_state ?wd))" using b(1) h up by simp
      ultimately show ?thesis using h(2) by (auto simp: follows_def Let_def intro!: exI [of _ "length (is @ [x])"])
    next
      case False
      then have "try_send (SF_TerminalFrame f) (terminal_frame_retained_bytes f) ?q = (False, sw_control ?wd n)"
        using q' keeps_up_iff [OF qok, of "SF_TerminalFrame f" f] by (metis prod.collapse)
      from try_send_refused [OF this qok] have q2: "sw_control ?wd n = ?q\<lparr>oq_overflow := True\<rparr>" .
      have gone: "n \<notin> (\<lambda>e. ch_tx (snd e)) ` set (ss_controllers (sw_state ?wd))"
        using b(1) False by auto
      then have "\<not> (\<exists>h. (i, h) \<in> set (ss_controllers (sw_state ?wd)) \<and> ch_tx h = n)" by force
      then show ?thesis
        using q2 got gone by (auto simp: follows_def Let_def live_frames_snoc intro!: exI [of _ "length is"])
    qed
  next
    case False
    then have old: "oq_overflow ?q" "n \<notin> (\<lambda>e. ch_tx (snd e)) ` set (ss_controllers (sw_state wd))"
      using assms(2) by (simp_all add: follows_def Let_def split: if_splits)
    then have q': "sw_control ?wd n = ?q" using b(3) [of n] by simp
    have gone: "n \<notin> (\<lambda>e. ch_tx (snd e)) ` set (ss_controllers (sw_state ?wd))" using b(1) old(2) by auto
    then have "\<not> (\<exists>h. (i, h) \<in> set (ss_controllers (sw_state ?wd)) \<and> ch_tx h = n)" by force
    then show ?thesis
      using q' old gone j by (auto simp: follows_def Let_def live_frames_snoc intro!: exI [of _ j])
  qed
qed

lemma follows_recv:
  assumes "follows i n k is wd log" "try_recv (sw_control wd n) = Some (v, q)"
  shows "follows i n k is (wd\<lparr>sw_control := (sw_control wd)(n := q)\<rparr>) (log @ [v])"
proof -
  have "oq_overflow q = oq_overflow (sw_control wd n)"
    using assms(2) by (auto simp: try_recv_def reservation_drop_def split: list.splits)
  then show ?thesis using assms(1) try_recv_items [OF assms(2)] by (simp add: follows_def Let_def)
qed

lemma feed_follows:
  assumes "feed w sid n ss wd log = Some (wd', log')"
    and "world_ok wd" "follows i n (length is0) is1 wd log" "cache_tracks w sz (is0 @ is1) (ss_terminal (sw_state wd))"
    and "length (is0 @ is1) + length (inputs_of ss) < u64_max" "In_output [] \<notin> set (inputs_of ss)"
    and "\<And>e. e \<in> set (ss_controllers (sw_state wd)) \<Longrightarrow> ch_tx (snd e) = n \<Longrightarrow> fst e = i"
  shows "follows i n (length is0) (is1 @ inputs_of ss) wd' log'"
  using assms
proof (induction ss arbitrary: wd log is1)
  case Nil
  then show ?case by simp
next
  case (Cons s ss)
  show ?case
  proof (cases s)
    case Step_recv
    show ?thesis
    proof (cases "try_recv (sw_control wd n)")
      case None
      then show ?thesis using Cons.IH [of wd log is1] Cons.prems Step_recv by simp
    next
      case (Some r)
      obtain v q where r: "r = (v, q)" by force
      have "world_ok (wd\<lparr>sw_control := (sw_control wd)(n := q)\<rparr>)"
        using Cons.prems(2) queue_ok_recv [of "sw_control wd n" v q] Some r by (auto simp: world_ok_def)
      then show ?thesis
        using Cons.IH [of "wd\<lparr>sw_control := (sw_control wd)(n := q)\<rparr>" "log @ [v]" is1]
          Cons.prems Step_recv Some r follows_recv [OF Cons.prems(3), of v q] by simp
    qed
  next
    case (Step_input x)
    then obtain wd1 where step: "session_step w sid x wd = Some wd1" "feed w sid n ss wd1 log = Some (wd', log')"
      using Cons.prems(1) by (auto split: option.splits)
    have "x \<noteq> In_output []" using Cons.prems(6) Step_input by auto
    from session_step_broadcast [OF this step(1)] obtain f c st where b:
      "cache_step w x (ss_terminal (sw_state wd)) = Some (f, c)" "wd1 = broadcast_terminal_frame sid f (wd\<lparr>sw_state := st\<rparr>)"
      "ss_terminal st = c" "ss_controllers st = ss_controllers (sw_state wd)"
      "ss_terminal_attaches st = ss_terminal_attaches (sw_state wd)" by blast
    let ?wd = "wd\<lparr>sw_state := st\<rparr>"
    have ok: "world_ok ?wd" using Cons.prems(2) b(4,5) by (simp add: world_ok_def)
    obtain c' where c': "cache_step w x (ss_terminal (sw_state wd)) = Some (to_terminal_frame (event_of (length (is0 @ is1) + 1) x), c')"
      "cache_tracks w sz ((is0 @ is1) @ [x]) c'"
      using cache_step_tracks [OF Cons.prems(4), of x] Cons.prems(5) Step_input by auto
    then have f: "f = to_terminal_frame (event_of (length is0 + length is1 + 1) x)" and ct: "cache_tracks w sz (is0 @ is1 @ [x]) c"
      using b(1) by auto
    have eqs: "sw_control ?wd = sw_control wd" "ss_controllers (sw_state ?wd) = ss_controllers (sw_state wd)"
      by (simp_all add: b(4))
    have "follows i n (length is0) is1 ?wd log" using Cons.prems(3) unfolding follows_def by (simp only: eqs)
    from follows_broadcast [OF ok this f] Cons.prems(7) b(4)
    have fol: "follows i n (length is0) (is1 @ [x]) wd1 log" by (simp add: b(2))
    have same: "same_but_controllers st ((sw_state wd1)\<lparr>ss_terminal_attaches := ss_terminal_attaches st\<rparr>)"
      and cont: "ss_controllers (sw_state wd1) = filter (\<lambda>e. keeps_up f (sw_control wd (ch_tx (snd e)))) (ss_controllers st)"
      using broadcast_spec(1,5) [OF ok, where sid = sid and f = f] b(2) by simp_all
    have "ss_terminal (sw_state wd1) = c"
      using same b(3) by (cases "sw_state wd1", cases st) (simp add: same_but_controllers_def)
    then have "cache_tracks w sz (is0 @ (is1 @ [x])) (ss_terminal (sw_state wd1))" using ct by simp
    moreover have "world_ok wd1" using world_ok_broadcast [OF ok, of sid f] b(2) by simp
    moreover have "\<And>e. e \<in> set (ss_controllers (sw_state wd1)) \<Longrightarrow> ch_tx (snd e) = n \<Longrightarrow> fst e = i"
      using Cons.prems(7) cont b(4) by auto
    ultimately show ?thesis
      using Cons.IH [OF step(2), of "is1 @ [x]"] fol Cons.prems(5,6) Step_input by simp
  qed
qed


section \<open>Properties\<close>

text \<open>
  Slow consumers are isolated. A broadcast appends the frame once to the queue of every controller
  and terminal connection with room for it and keeps it registered; a consumer without room loses its
  registration and gets its overflow signal, its queued frames untouched. No queue ever holds more
  than 128 messages or 8 MiB, and the journal, the devices and the counters of the state do not change.
\<close>

lemma broadcast_isolates_slow_consumers:
  fixes sid :: text_bytes and f :: pty_terminal_frame
  assumes "world_ok wd"
  defines "wd' \<equiv> broadcast_terminal_frame sid f wd"
  shows "world_ok wd' \<and>
    (\<forall>(i, h) \<in> set (ss_controllers (sw_state wd)).
       let q = sw_control wd (ch_tx h); q' = sw_control wd' (ch_tx h) in
       if keeps_up f q
       then (i, h) \<in> set (ss_controllers (sw_state wd')) \<and>
         oq_items q' = oq_items q @ [(SF_TerminalFrame f, terminal_frame_retained_bytes f)] \<and> oq_overflow q' = oq_overflow q
       else (i, h) \<notin> set (ss_controllers (sw_state wd')) \<and> q' = q\<lparr>oq_overflow := True\<rparr>) \<and>
    (\<forall>(i, tx) \<in> set (ss_terminal_attaches (sw_state wd)).
       let q = sw_attach wd tx; q' = sw_attach wd' tx in
       if keeps_up f q
       then (i, tx) \<in> set (ss_terminal_attaches (sw_state wd')) \<and>
         oq_items q' = oq_items q @ [(TS_TerminalFrame sid f, terminal_frame_retained_bytes f)] \<and> oq_overflow q' = oq_overflow q
       else (i, tx) \<notin> set (ss_terminal_attaches (sw_state wd')) \<and> q' = q\<lparr>oq_overflow := True\<rparr>) \<and>
    (\<forall>n. length (oq_items (sw_control wd' n)) \<le> 128 \<and> sum_list (map snd (oq_items (sw_control wd' n))) \<le> 8388608 \<and>
         length (oq_items (sw_attach wd' n)) \<le> 128 \<and> sum_list (map snd (oq_items (sw_attach wd' n))) \<le> 8388608) \<and>
    ss_terminal (sw_state wd') = ss_terminal (sw_state wd) \<and>
    ss_attached_devices (sw_state wd') = ss_attached_devices (sw_state wd) \<and>
    ss_next_controller_id (sw_state wd') = ss_next_controller_id (sw_state wd)"
proof -
  note b = broadcast_spec [OF assms(1), where sid = sid and f = f, folded wd'_def]
  have qc: "\<And>n. queue_ok (sw_control wd n)" and qa: "\<And>n. queue_ok (sw_attach wd n)"
    using assms(1) by (simp_all add: world_ok_def)
  have ok: "world_ok wd'" unfolding wd'_def by (rule world_ok_broadcast [OF assms(1)])
  have c: "let q = sw_control wd (ch_tx h); q' = sw_control wd' (ch_tx h) in
       if keeps_up f q
       then (i, h) \<in> set (ss_controllers (sw_state wd')) \<and>
         oq_items q' = oq_items q @ [(SF_TerminalFrame f, terminal_frame_retained_bytes f)] \<and> oq_overflow q' = oq_overflow q
       else (i, h) \<notin> set (ss_controllers (sw_state wd')) \<and> q' = q\<lparr>oq_overflow := True\<rparr>"
    if "(i, h) \<in> set (ss_controllers (sw_state wd))" for i h
  proof -
    have "sw_control wd' (ch_tx h) = snd (try_send (SF_TerminalFrame f) (terminal_frame_retained_bytes f) (sw_control wd (ch_tx h)))"
      using b(3) [of "ch_tx h"] that by force
    with send_outcome [of "sw_control wd" "ch_tx h" "SF_TerminalFrame f" f, OF qc] that show ?thesis by (simp add: b(1) Let_def)
  qed
  have a: "let q = sw_attach wd tx; q' = sw_attach wd' tx in
       if keeps_up f q
       then (i, tx) \<in> set (ss_terminal_attaches (sw_state wd')) \<and>
         oq_items q' = oq_items q @ [(TS_TerminalFrame sid f, terminal_frame_retained_bytes f)] \<and> oq_overflow q' = oq_overflow q
       else (i, tx) \<notin> set (ss_terminal_attaches (sw_state wd')) \<and> q' = q\<lparr>oq_overflow := True\<rparr>"
    if "(i, tx) \<in> set (ss_terminal_attaches (sw_state wd))" for i tx
  proof -
    have "sw_attach wd' tx = snd (try_send (TS_TerminalFrame sid f) (terminal_frame_retained_bytes f) (sw_attach wd tx))"
      using b(4) [of tx] that by force
    with send_outcome [of "sw_attach wd" tx "TS_TerminalFrame sid f" f, OF qa] that show ?thesis by (simp add: b(2) Let_def)
  qed
  have same: "ss_terminal (sw_state wd') = ss_terminal (sw_state wd) \<and>
      ss_attached_devices (sw_state wd') = ss_attached_devices (sw_state wd) \<and>
      ss_next_controller_id (sw_state wd') = ss_next_controller_id (sw_state wd)"
    using b(5) by (cases "sw_state wd'", cases "sw_state wd") (simp add: same_but_controllers_def)
  have "\<forall>n. length (oq_items (sw_control wd' n)) \<le> 128 \<and> sum_list (map snd (oq_items (sw_control wd' n))) \<le> 8388608 \<and>
         length (oq_items (sw_attach wd' n)) \<le> 128 \<and> sum_list (map snd (oq_items (sw_attach wd' n))) \<le> 8388608"
    using ok by (simp add: world_ok_def queue_ok_bounds)
  with ok c a same show ?thesis by blast
qed

text \<open>A world at the start of a session.\<close>

definition fresh_world :: "pty_size \<Rightarrow> u8 list option \<Rightarrow> supervisor_world" where
  "fresh_world sz cap = \<lparr>sw_state = with_optional_cleanup_capability sz cap, sw_control = (\<lambda>_. out_queue_new),
     sw_attach = (\<lambda>_. out_queue_new)\<rparr>"

text \<open>A PTY that accepts everything, with the identity as codec and hash.\<close>

definition plain_env :: pty_env where
  "plain_env = \<lparr>pe_process_id = None, pe_write_all = (\<lambda>_. None), pe_resize = (\<lambda>_. None), pe_terminate = None, pe_wait = None,
     pe_b64_decode = Inr, pe_b64_encode = (\<lambda>b. b), pe_server_nonce = replicate 32 7, pe_sha256 = (\<lambda>b. b)\<rparr>"

lemma fresh_world_ok: "world_ok (fresh_world sz cap)"
  by (simp add: world_ok_def fresh_world_def with_optional_cleanup_capability_def queue_ok_new)

text \<open>A controller on channel 3 with an empty queue, as after its attach.\<close>

definition one_controller :: "pty_size \<Rightarrow> supervisor_world" where
  "one_controller sz = (fresh_world sz None)\<lparr>sw_state := (with_optional_cleanup_capability sz None)\<lparr>ss_controllers :=
     [(1, \<lparr>ch_tx = 3, ch_connection_id = 1\<rparr>)], ss_terminal_attaches := [(1, 7)]\<rparr>\<rparr>"

text \<open>
  C9. An attached controller misses nothing. A new connection attaches with a sync request while the
  session has \<open>n\<close> events. The reply is labelled \<open>n\<close> and carries either a snapshot or the events the
  daemon has not seen. Whatever the session does next and whenever the connection takes frames from its
  queue, what it has received and what is queued is the events \<open>n + 1, n + 2, ...\<close> in order, without
  gap or repeat. As long as it is registered nothing is missing; it loses its registration only together
  with its overflow signal.
\<close>

theorem attached_controller_misses_nothing:
  assumes "world_ok wd" "cache_tracks w sz is0 (ss_terminal (sw_state wd))" "\<not> ss_exited (sw_state wd)"
    and "hm_get (ss_controllers (sw_state wd)) (ss_next_controller_id (sw_state wd)) = None"
    and "n \<notin> (\<lambda>e. ch_tx (snd e)) ` set (ss_controllers (sw_state wd))" "sw_control wd n = out_queue_new"
    and "r = handle_request env sid (AttachSync sid (Some k) None) (conn_new n) wd" "k \<le> length is0"
    and "feed w sid n ss (ro_world r) [] = Some (wd', log)"
    and "length is0 + length (inputs_of ss) < u64_max" "In_output [] \<notin> set (inputs_of ss)"
  shows "\<exists>sync. ro_response r = R_Ok (P_AttachSync sync) \<and> sap_base_seq sync = length is0 \<and>
    (sap_frames sync = map to_terminal_frame (drop k (numbered 1 is0)) \<or>
     (let c = ss_terminal (sw_state wd) in
      sap_frames sync = [FSnapshot (length is0) (stc_size c) (snapshot_bytes (stc_screen c))])) \<and>
    (let got = log @ map fst (oq_items (sw_control wd' n)); live = live_frames (length is0) (inputs_of ss) in
     (\<exists>j \<le> length live. got = take j live) \<and>
     (got = live \<or> oq_overflow (sw_control wd' n) \<and> n \<notin> (\<lambda>e. ch_tx (snd e)) ` set (ss_controllers (sw_state wd'))))"
proof -
  let ?st = "sw_state wd" and ?i = "ss_next_controller_id (sw_state wd)"
  obtain conn st1 sync where a: "attach_sync n (pe_process_id env) (Some k) ?st = ((\<lparr>ci_id = ?i, ci_connection_id = conn\<rparr>, sync), st1)"
    by (simp add: attach_sync_def Let_def allocate_controller_connection_id_def)
  then have st1: "ss_controllers st1 = hm_insert ?i \<lparr>ch_tx = n, ch_connection_id = conn\<rparr> (ss_controllers ?st)"
    "ss_terminal st1 = ss_terminal ?st" "ss_terminal_attaches st1 = ss_terminal_attaches ?st"
    "sap_controller_id sync = ?i" "(sap_base_seq sync, sap_frames sync) = cache_snapshot_or_tail (Some k) (ss_terminal ?st)"
    by (auto simp: attach_sync_def Let_def allocate_controller_connection_id_def build_attach_sync_payload_def case_prod_beta)
  have r: "ro_response r = R_Ok (P_AttachSync sync)" "ro_world r = wd\<lparr>sw_state := st1\<rparr>"
    using assms(3,7) a by (simp_all add: handle_request_def handle_attach_sync_def conn_new_def outcome_def)
  have new: "?i \<notin> fst ` set (ss_controllers ?st)" using assms(4) by (simp add: map_of_eq_None_iff)
  then have ctl: "set (ss_controllers st1) = insert (?i, \<lparr>ch_tx = n, ch_connection_id = conn\<rparr>) (set (ss_controllers ?st))"
    "ss_controllers st1 = ss_controllers ?st @ [(?i, \<lparr>ch_tx = n, ch_connection_id = conn\<rparr>)]"
    by (simp_all add: st1 hm_insert_absent [OF assms(4)])
  have ok: "world_ok (ro_world r)"
    using assms(1,5) new by (auto simp: r(2) world_ok_def ctl(2) st1(3))
  have fol: "follows ?i n (length is0) [] (ro_world r) []"
    by (auto simp: follows_def r(2) ctl(1) assms(6) out_queue_new_def live_frames_def)
  have only: "fst e = ?i" if "e \<in> set (ss_controllers (sw_state (ro_world r)))" "ch_tx (snd e) = n" for e
  proof -
    have "e = (?i, \<lparr>ch_tx = n, ch_connection_id = conn\<rparr>) \<or> e \<in> set (ss_controllers ?st)" using that(1) by (simp add: r(2) ctl(1))
    then show ?thesis using that(2) assms(5) by (metis fst_conv image_eqI)
  qed
  have "cache_tracks w sz (is0 @ []) (ss_terminal (sw_state (ro_world r)))"
    "length (is0 @ []) + length (inputs_of ss) < u64_max" using assms(2,10) by (simp_all add: r(2) st1(2))
  from feed_follows [OF assms(9) ok fol this assms(11) only]
  have "follows ?i n (length is0) (inputs_of ss) wd' log" by simp
  then have got: "let got = log @ map fst (oq_items (sw_control wd' n)); live = live_frames (length is0) (inputs_of ss) in
     (\<exists>j \<le> length live. got = take j live) \<and>
     (got = live \<or> oq_overflow (sw_control wd' n) \<and> n \<notin> (\<lambda>e. ch_tx (snd e)) ` set (ss_controllers (sw_state wd')))"
    by (simp add: follows_def Let_def split: if_splits)
  have "length is0 < u64_max" using assms(10) by simp
  from attach_exact [OF this assms(2,8)] st1(5)
  have "sap_base_seq sync = length is0 \<and> (sap_frames sync = map to_terminal_frame (drop k (numbered 1 is0)) \<or>
     (let c = ss_terminal (sw_state wd) in
      sap_frames sync = [FSnapshot (length is0) (stc_size c) (snapshot_bytes (stc_screen c))]))"
    by (auto simp: Let_def)
  with r(1) got show ?thesis by blast
qed

theorem attached_controller_misses_nothing_witness:
  "let sz = \<lparr>ps_rows = 2, ps_cols = 4, ps_pixel_width = 0, ps_pixel_height = 0\<rparr>;
       r = handle_request plain_env [] (AttachSync [] (Some 0) None) (conn_new 3) (fresh_world sz None)
   in \<exists>sync wd' log. ro_response r = R_Ok (P_AttachSync sync) \<and> sap_base_seq sync = 0 \<and>
     feed (\<lambda>_. Some 1) [] 3 [Step_input (In_exit (Some 1)), Step_recv] (ro_world r) [] = Some (wd', log) \<and>
     log = [SF_TerminalFrame (FExit 1 (Some 1))] \<and>
     (\<exists>j \<le> 1. log @ map fst (oq_items (sw_control wd' 3)) = take j [SF_TerminalFrame (FExit 1 (Some 1))])"
proof -
  let ?sz = "\<lparr>ps_rows = 2, ps_cols = 4, ps_pixel_width = 0, ps_pixel_height = 0\<rparr>"
  let ?wd = "fresh_world ?sz None" and ?ss = "[Step_input (In_exit (Some 1)), Step_recv]"
  define r where "r = handle_request plain_env [] (AttachSync [] (Some 0) None) (conn_new 3) ?wd"
  have t: "cache_tracks (\<lambda>_. Some 1) ?sz [] (ss_terminal (sw_state ?wd))"
    by (simp add: fresh_world_def with_optional_cleanup_capability_def cache_new_tracks)
  obtain wd' where f: "feed (\<lambda>_. Some 1) [] 3 ?ss (ro_world r) [] = Some (wd', [SF_TerminalFrame (FExit 1 (Some 1))])"
    by (simp add: r_def handle_request_def handle_attach_sync_def conn_new_def outcome_def fresh_world_def
        with_optional_cleanup_capability_def attach_sync_def Let_def allocate_controller_connection_id_def
        publish_exit_def state_record_exit_def record_exit_def cache_new_def broadcast_terminal_frame_def try_send_def
        budget_reserve_def' out_queue_new_def terminal_frame_retained_bytes_def try_recv_def
        allocate_terminal_seq_def sat_add64_def u64_max_def
        supervisor_output_queue_max_messages_def supervisor_output_queue_max_bytes_def max_supervisor_frame_bytes_def)
  have hyps: "\<not> ss_exited (sw_state ?wd)" "hm_get (ss_controllers (sw_state ?wd)) (ss_next_controller_id (sw_state ?wd)) = None"
    "3 \<notin> (\<lambda>e. ch_tx (snd e)) ` set (ss_controllers (sw_state ?wd))" "sw_control ?wd 3 = out_queue_new"
    "0 \<le> length ([] :: session_input list)" "length ([] :: session_input list) + length (inputs_of ?ss) < u64_max"
    "In_output [] \<notin> set (inputs_of ?ss)"
    by (simp_all add: fresh_world_def with_optional_cleanup_capability_def u64_max_def)
  have live: "live_frames (length ([] :: session_input list)) (inputs_of ?ss) = [SF_TerminalFrame (FExit 1 (Some 1))]"
    by (simp add: live_frames_def)
  from attached_controller_misses_nothing [OF fresh_world_ok t hyps(1-4) r_def hyps(5) f hyps(6,7), unfolded live Let_def]
  obtain sync where "ro_response r = R_Ok (P_AttachSync sync)" "sap_base_seq sync = 0"
    "\<exists>j \<le> 1. [SF_TerminalFrame (FExit 1 (Some 1))] @ map fst (oq_items (sw_control wd' 3)) = take j [SF_TerminalFrame (FExit 1 (Some 1))]"
    by auto
  with f show ?thesis unfolding Let_def r_def [symmetric] by blast
qed

end
