(* ===== verification/Supervisor_Control.thy ===== *)
theory Supervisor_Control
  imports Supervisor_Delivery
begin

text \<open>
  Who controls a session: a new controller takes over from the old one, a replayed resume commit is the
  exception that takes control back, and closing a session without being its controller needs the
  cleanup capability.
\<close>

declare map_of_eq_Some_iff [simp del] Some_eq_map_of_iff [simp del]

section \<open>Reachable states\<close>

text \<open>
  The supervisor with any number of connections, each with its own channel, under every order of
  requests, disconnections, output, exit, terminal clients and deliveries.
\<close>

inductive sup_reach :: "text_bytes \<Rightarrow> pty_size \<Rightarrow> u8 list option \<Rightarrow> (uchar \<Rightarrow> usize option) \<Rightarrow>
    (nat \<Rightarrow> supervisor_conn option) \<Rightarrow> supervisor_world \<Rightarrow> bool" for sid sz cap w where
  start: "sup_reach sid sz cap w (\<lambda>n. Some (conn_new n))
    (fresh_world sz cap)"
| request: "sup_reach sid sz cap w conns wd \<Longrightarrow> conns n = Some c \<Longrightarrow> o' = handle_request env sid req c wd \<Longrightarrow>
    sup_reach sid sz cap w (conns(n \<mapsto> ro_conn o')) (ro_world o')"
| disconnect: "sup_reach sid sz cap w conns wd \<Longrightarrow> conns n = Some c \<Longrightarrow>
    sup_reach sid sz cap w (conns(n := None)) (end_connection c wd)"
| happens: "sup_reach sid sz cap w conns wd \<Longrightarrow> session_step w sid i wd = Some wd' \<Longrightarrow> sup_reach sid sz cap w conns wd'"
| terminal_open: "sup_reach sid sz cap w conns wd \<Longrightarrow>
    sup_reach sid sz cap w conns (snd (open_terminal_attach sid pid l tx wd))"
| client_frame: "sup_reach sid sz cap w conns wd \<Longrightarrow>
    sup_reach sid sz cap w conns (fst (snd (handle_terminal_frame env sid f wd)))"
| terminal_close: "sup_reach sid sz cap w conns wd \<Longrightarrow>
    sup_reach sid sz cap w conns (upd_state (remove_terminal_attach i) wd)"
| deliver: "sup_reach sid sz cap w conns wd \<Longrightarrow> try_recv (sw_control wd n) = Some (v, q) \<Longrightarrow>
    sup_reach sid sz cap w conns (wd\<lparr>sw_control := (sw_control wd)(n := q)\<rparr>)"

text \<open>
  Controller numbers: every number in use is older than the next one, and the resume lease belongs
  to the newest controller. (As long as the 64-bit counter has not saturated.)
\<close>

definition numbers_ok :: "(nat \<Rightarrow> supervisor_conn option) \<Rightarrow> supervisor_state \<Rightarrow> bool" where
  "numbers_ok conns st \<longleftrightarrow> 1 \<le> ss_next_controller_id st \<and>
     (\<forall>n c i. conns n = Some c \<and> (sc_controller_identity c = Some i \<or> sc_pending_resume_identity c = Some i) \<longrightarrow>
        ci_id i < ss_next_controller_id st) \<and>
     (\<forall>t i. hm_get (ss_committed_resume_transactions st) t = Some i \<longrightarrow> ci_id i < ss_next_controller_id st) \<and>
     (\<forall>i h. hm_get (ss_controllers st) i = Some h \<longrightarrow> i < ss_next_controller_id st) \<and>
     (\<forall>i. ss_controller_resume_lease_id st = Some i \<longrightarrow> i + 1 = ss_next_controller_id st)"

text \<open>Steps that keep the numbers: what they may change.\<close>

definition keeps_numbers :: "supervisor_state \<Rightarrow> supervisor_state \<Rightarrow> bool" where
  "keeps_numbers st st' \<longleftrightarrow> ss_next_controller_id st' = ss_next_controller_id st \<and>
     ss_committed_resume_transactions st' = ss_committed_resume_transactions st \<and>
     ss_controller_resume_lease_id st' = ss_controller_resume_lease_id st \<and>
     (\<forall>i h. hm_get (ss_controllers st') i = Some h \<longrightarrow> (\<exists>h'. hm_get (ss_controllers st) i = Some h'))"

lemma keeps_numbers_refl: "keeps_numbers st st"
  by (simp add: keeps_numbers_def)

lemma keeps_numbers_trans: "keeps_numbers a b \<Longrightarrow> keeps_numbers b c \<Longrightarrow> keeps_numbers a c"
  unfolding keeps_numbers_def by metis

lemma numbers_ok_keeps: "numbers_ok conns st \<Longrightarrow> keeps_numbers st st' \<Longrightarrow> numbers_ok conns st'"
  unfolding numbers_ok_def keeps_numbers_def by metis

lemma keeps_remove_controller: "keeps_numbers st (remove_controller c st)"
  by (auto simp: keeps_numbers_def remove_controller_def Let_def split: if_splits)

lemma keeps_remove_closed: "keeps_numbers st (remove_closed_controller i st)"
  using keeps_remove_controller by (auto simp: remove_closed_controller_def keeps_numbers_refl split: option.splits)

lemma keeps_fold: "(\<And>x s. keeps_numbers s (g x s)) \<Longrightarrow> keeps_numbers st (fold g xs st)"
proof (induction xs arbitrary: st)
  case Nil
  then show ?case by (simp add: keeps_numbers_refl)
next
  case (Cons x xs)
  then show ?case using keeps_numbers_trans by fastforce
qed

lemma keeps_remove_attach: "keeps_numbers st (remove_terminal_attach i st)"
  by (simp add: keeps_numbers_def remove_terminal_attach_def)

lemma keeps_broadcast: "keeps_numbers (sw_state wd) (sw_state (broadcast_terminal_frame sid f wd))"
proof -
  have "keeps_numbers (sw_state wd) (fold remove_terminal_attach xs (fold remove_closed_controller ys (sw_state wd)))" for xs ys
    by (rule keeps_numbers_trans [OF keeps_fold [OF keeps_remove_closed] keeps_fold [OF keeps_remove_attach]])
  then show ?thesis by (simp add: broadcast_terminal_frame_def Let_def case_prod_beta)
qed

lemma keeps_broadcast_of:
  assumes "keeps_numbers (sw_state wd) st"
  shows "keeps_numbers (sw_state wd) (sw_state (broadcast_terminal_frame sid f (wd\<lparr>sw_state := st\<rparr>)))"
  using keeps_numbers_trans [OF assms] keeps_broadcast [of "wd\<lparr>sw_state := st\<rparr>" sid f] by simp

lemma keeps_terminal:
  "keeps_numbers st (st\<lparr>ss_terminal := c\<rparr>)" "keeps_numbers st (st\<lparr>ss_exited := True, ss_terminal := c\<rparr>)"
  by (simp_all add: keeps_numbers_def)

lemma keeps_session_step: "session_step w sid i wd = Some wd' \<Longrightarrow> keeps_numbers (sw_state wd) (sw_state wd')"
  by (cases i)
    (auto simp: publish_supervisor_output_batch_def state_record_output_def state_resize_def publish_exit_def
      state_record_exit_def Let_def case_prod_beta keeps_numbers_refl split: if_splits
      intro!: keeps_broadcast_of keeps_terminal)

lemma keeps_act_on: "keeps_numbers (sw_state wd) (sw_state (ro_world (act_on env sid req c wd)))"
  by (cases req)
    (auto simp: outcome_def Let_def case_prod_beta state_resize_def keeps_numbers_refl attach_device_def detach_device_def
      terminate_and_wait_def split: option.splits sum.splits
      intro!: keeps_broadcast_of keeps_terminal, auto simp: keeps_numbers_def)

lemma act_on_conn: "ro_conn (act_on env sid req c wd) = c"
  by (cases req) (auto simp: outcome_def Let_def case_prod_beta split: option.splits sum.splits)

text \<open>Requests that leave the connection's identities alone.\<close>

definition same_identities :: "supervisor_conn \<Rightarrow> supervisor_conn \<Rightarrow> bool" where
  "same_identities c c' \<longleftrightarrow> sc_controller_identity c' = sc_controller_identity c \<and>
     sc_pending_resume_identity c' = sc_pending_resume_identity c"

lemma numbers_ok_conn:
  assumes "numbers_ok conns st" "keeps_numbers st st'"
    "\<And>i. sc_controller_identity c' = Some i \<or> sc_pending_resume_identity c' = Some i \<Longrightarrow> ci_id i < ss_next_controller_id st"
  shows "numbers_ok (conns(n \<mapsto> c')) st'"
proof -
  have "numbers_ok (conns(n \<mapsto> c')) st"
    using assms(1,3) unfolding numbers_ok_def by (auto split: if_splits)
  then show ?thesis by (rule numbers_ok_keeps [OF _ assms(2)])
qed

lemma numbers_ok_bound:
  "numbers_ok conns st \<Longrightarrow> conns n = Some c \<Longrightarrow>
   sc_controller_identity c = Some i \<or> sc_pending_resume_identity c = Some i \<Longrightarrow> ci_id i < ss_next_controller_id st"
  by (auto simp: numbers_ok_def)

lemma numbers_ok_same:
  assumes "numbers_ok conns st" "conns n = Some c" "same_identities c c'" "keeps_numbers st st'"
  shows "numbers_ok (conns(n \<mapsto> c')) st'"
  using numbers_ok_conn [OF assms(1,4), of c' n] numbers_ok_bound [OF assms(1,2)] assms(3)
  by (simp add: same_identities_def)

fun names_controller :: "supervisor_request \<Rightarrow> bool" where
  "names_controller (Attach _) = True"
| "names_controller (AttachSync _ _ _) = True"
| "names_controller (CommitControllerResume _) = True"
| "names_controller _ = False"

lemma as_current_keeps:
  "keeps_numbers (sw_state wd) (sw_state (ro_world (as_current_controller env sid req c wd)))"
  "ro_conn (as_current_controller env sid req c wd) = c"
  by (auto simp: as_current_controller_def outcome_def keeps_numbers_refl keeps_act_on act_on_conn split: option.splits)

lemma keeps_cleanup:
  "keeps_numbers st (st\<lparr>ss_cleanup_capability_replaceable := b\<rparr>)"
  "keeps_numbers st (st\<lparr>ss_cleanup_capability := p, ss_cleanup_capability_replaceable := b\<rparr>)"
  "keeps_numbers st (st\<lparr>ss_cleanup_capability_replaceable := b, ss_confirmed_close_operation_id := q\<rparr>)"
  "keeps_numbers st (st\<lparr>ss_attached_devices := d\<rparr>)"
  by (simp_all add: keeps_numbers_def)

lemma other_requests_keep:
  assumes "\<not> names_controller req"
  shows "keeps_numbers (sw_state wd) (sw_state (ro_world (handle_request env sid req c wd))) \<and>
    same_identities c (ro_conn (handle_request env sid req c wd))"
  using assms
  by (cases req)
    (auto simp: handle_request_def as_current_keeps same_identities_def keeps_numbers_refl outcome_def Let_def keeps_act_on
      act_on_conn handle_install_capability_def handle_cleanup_challenge_def handle_cleanup_authenticate_def
      handle_cleanup_close_def keeps_cleanup split: option.splits sum.splits prod.splits)

text \<open>The requests that name a controller.\<close>

lemma attach_sync_shape:
  assumes "attach_sync tx pid l st = ((i, sync), st')"
  shows "ci_id i = ss_next_controller_id st" "ss_next_controller_id st' = sat_add64 (ss_next_controller_id st) 1"
    "ss_controllers st' = hm_insert (ci_id i) \<lparr>ch_tx = tx, ch_connection_id = ci_connection_id i\<rparr> (ss_controllers st)"
    "ss_active_controller_id st' = Some (ci_id i)" "ss_active_controller_connection_id st' = Some (ci_connection_id i)"
    "ss_controller_resume_lease_id st' = Some (ci_id i)"
    "ss_committed_resume_transactions st' = ss_committed_resume_transactions st"
  using assms by (auto simp: attach_sync_def allocate_controller_connection_id_def Let_def)

lemma numbers_attach:
  assumes "numbers_ok conns st" "attach_sync tx pid l st = ((i, sync), st')" "ss_next_controller_id st' < u64_max"
    "conns n = Some c" "sc_controller_identity c' = Some i" "sc_pending_resume_identity c' = sc_pending_resume_identity c"
  shows "numbers_ok (conns(n \<mapsto> c')) st'"
proof -
  note a = attach_sync_shape [OF assms(2)]
  have next': "ss_next_controller_id st' = ss_next_controller_id st + 1"
    using a(2) assms(3) by (auto simp: sat_add64_def)
  show ?thesis
    using assms(1,4-6) unfolding numbers_ok_def next' a(1,3-7)
    by (auto simp: less_Suc_eq a(1) split: if_splits)
qed

lemma numbers_resume:
  assumes "numbers_ok conns st" "resume_attach_sync cid pid l st = (Inr (i, sync), st')"
    "conns n = Some c" "sc_controller_identity c' = sc_controller_identity c" "sc_pending_resume_identity c' = Some i"
  shows "numbers_ok (conns(n \<mapsto> c')) st'"
proof -
  have "keeps_numbers st st'" "ci_id i < ss_next_controller_id st"
    using assms(2) by (auto simp: resume_attach_sync_def allocate_controller_connection_id_def Let_def keeps_numbers_def
        split: if_splits option.splits)
  then show ?thesis
    using numbers_ok_bound [OF assms(1,3)] assms(4,5) by (intro numbers_ok_conn [OF assms(1)]) auto
qed

lemma resume_refused: "resume_attach_sync cid pid l st = (Inl e, st') \<Longrightarrow> st' = st"
  by (auto simp: resume_attach_sync_def Let_def case_prod_beta split: if_splits option.splits)

lemma commit_refused: "commit_controller_resume tid i tx st = (Inl e, st') \<Longrightarrow> st' = st"
  by (auto simp: commit_controller_resume_def Let_def split: if_splits option.splits)

lemma commit_taken:
  assumes "commit_controller_resume tid i tx st = (Inr j, st')"
  shows "(j = i \<or> hm_get (ss_committed_resume_transactions st) tid = Some j)"
    "ss_next_controller_id st' = ss_next_controller_id st"
    "ss_controller_resume_lease_id st' = ss_controller_resume_lease_id st"
    "ss_controllers st' = hm_insert (ci_id j) \<lparr>ch_tx = tx, ch_connection_id = ci_connection_id j\<rparr> (ss_controllers st)"
    "hm_get (ss_committed_resume_transactions st') t =
      (if t = tid then Some j else hm_get (ss_committed_resume_transactions st) t)"
  using assms by (auto simp: commit_controller_resume_def take_control_def Let_def split: if_splits option.splits)

lemma numbers_commit:
  assumes "numbers_ok conns st" "commit_controller_resume tid i tx st = (Inr j, st')"
    "conns n = Some c" "sc_pending_resume_identity c = Some i"
    "sc_controller_identity c' = Some j" "sc_pending_resume_identity c' = None"
  shows "numbers_ok (conns(n \<mapsto> c')) st'"
proof -
  note k = commit_taken [OF assms(2)]
  have j: "ci_id j < ss_next_controller_id st"
    using k(1) assms(1,3,4) by (auto simp: numbers_ok_def)
  show ?thesis
    using assms(1,5,6) j unfolding numbers_ok_def k(2,3,4,5) by (auto split: if_splits)
qed

lemma numbers_request:
  assumes "numbers_ok conns (sw_state wd)" "conns n = Some c" "r = handle_request env sid req c wd"
    and "ss_next_controller_id (sw_state (ro_world r)) < u64_max"
  shows "numbers_ok (conns(n \<mapsto> ro_conn r)) (sw_state (ro_world r))"
proof (cases "names_controller req")
  case False
  with other_requests_keep [OF this, of wd env sid c] assms numbers_ok_same show ?thesis by metis
next
  case True
  have id: "numbers_ok (conns(n \<mapsto> c)) (sw_state wd)"
    using assms(1,2) by (simp add: fun_upd_idem)
  show ?thesis
  proof (cases req)
    case (Attach s)
    then show ?thesis
      using id assms
      by (auto simp: handle_request_def handle_attach_def outcome_def Let_def split: prod.splits if_splits
          intro: numbers_attach [OF assms(1) _ _ assms(2)])
  next
    case (AttachSync s l res)
    then show ?thesis
      using id assms
      by (auto simp: handle_request_def handle_attach_sync_def outcome_def Let_def
          split: prod.splits if_splits option.splits sum.splits dest!: resume_refused
          intro: numbers_attach [OF assms(1) _ _ assms(2)] numbers_resume [OF assms(1) _ assms(2)])
  next
    case (CommitControllerResume tid)
    then show ?thesis
      using id assms
      by (auto simp: handle_request_def handle_commit_resume_def outcome_def Let_def
          split: prod.splits if_splits option.splits sum.splits dest!: commit_refused
          intro: numbers_commit [OF assms(1) _ assms(2)])
  qed (use True in simp_all)
qed

lemma request_next_id:
  "ss_next_controller_id (sw_state (ro_world (handle_request env sid req c wd))) = ss_next_controller_id (sw_state wd) \<or>
   ss_next_controller_id (sw_state (ro_world (handle_request env sid req c wd))) = sat_add64 (ss_next_controller_id (sw_state wd)) 1"
proof (cases "names_controller req")
  case False
  with other_requests_keep show ?thesis by (metis keeps_numbers_def)
next
  case True
  then show ?thesis
    by (cases req) (auto simp: handle_request_def handle_attach_def handle_attach_sync_def handle_commit_resume_def outcome_def Let_def
        resume_attach_sync_def allocate_controller_connection_id_def
        split: prod.splits if_splits option.splits sum.splits dest: attach_sync_shape(2) commit_refused commit_taken(2))
qed

lemma keeps_open_terminal: "keeps_numbers (sw_state wd) (sw_state (snd (open_terminal_attach sid pid l tx wd)))"
  by (simp add: open_terminal_attach_def register_terminal_attach_def Let_def case_prod_beta keeps_numbers_def)

lemma keeps_client_frame: "keeps_numbers (sw_state wd) (sw_state (fst (snd (handle_terminal_frame env sid f wd))))"
  by (cases f) (auto simp: keeps_numbers_refl state_resize_def Let_def case_prod_beta
      intro!: keeps_broadcast_of keeps_terminal split: option.splits)

lemma keeps_end_connection: "keeps_numbers (sw_state wd) (sw_state (end_connection c wd))"
  by (auto simp: end_connection_def keeps_numbers_refl keeps_remove_controller Let_def split: option.splits)

lemma numbers_ok_disconnect: "numbers_ok conns st \<Longrightarrow> numbers_ok (conns(n := None)) st"
  unfolding numbers_ok_def by (auto split: if_splits)

definition numbered_while_counting :: "(nat \<Rightarrow> supervisor_conn option) \<Rightarrow> supervisor_world \<Rightarrow> bool" where
  "numbered_while_counting conns wd \<longleftrightarrow> ss_next_controller_id (sw_state wd) \<le> u64_max \<and>
     (ss_next_controller_id (sw_state wd) < u64_max \<longrightarrow> numbers_ok conns (sw_state wd))"

lemma counting_keeps:
  "numbered_while_counting conns wd \<Longrightarrow> keeps_numbers (sw_state wd) (sw_state wd') \<Longrightarrow> numbered_while_counting conns wd'"
  using numbers_ok_keeps unfolding numbered_while_counting_def by (metis keeps_numbers_def)

lemma reach_numbers: "sup_reach sid sz cap w conns wd \<Longrightarrow> numbered_while_counting conns wd"
proof (induction rule: sup_reach.induct)
  case start
  then show ?case
    by (auto simp: numbered_while_counting_def numbers_ok_def fresh_world_def with_optional_cleanup_capability_def conn_new_def u64_max_def)
next
  case (request conns wd n c o' env req)
  then show ?case
    using request_next_id [of env sid req c wd] numbers_request [of conns wd n c o' env sid req]
    by (auto simp: numbered_while_counting_def sat_add64_def simp del: fun_upd_apply)
next
  case (disconnect conns wd n c)
  then have "numbered_while_counting (conns(n := None)) wd"
    using numbers_ok_disconnect by (auto simp: numbered_while_counting_def)
  then show ?case by (rule counting_keeps [OF _ keeps_end_connection])
next
  case (happens conns wd i wd')
  show ?case by (rule counting_keeps [OF happens.IH keeps_session_step [OF happens.hyps(2)]])
next
  case (terminal_open conns wd pid l tx)
  show ?case by (rule counting_keeps [OF terminal_open.IH keeps_open_terminal])
next
  case (client_frame conns wd env f)
  show ?case by (rule counting_keeps [OF client_frame.IH keeps_client_frame])
next
  case (terminal_close conns wd i)
  show ?case by (rule counting_keeps [OF terminal_close.IH]) (simp add: keeps_remove_attach)
next
  case (deliver conns wd n v q)
  show ?case by (rule counting_keeps [OF deliver.IH]) (simp add: keeps_numbers_refl)
qed


section \<open>Properties\<close>

text \<open>The requests reserved to the active controller, and a connection that is kept out of them.\<close>

fun controller_only :: "supervisor_request \<Rightarrow> bool" where
  "controller_only ResetAttachedDevices = True"
| "controller_only (AttachDevice _) = True"
| "controller_only (DetachDevice _) = True"
| "controller_only (DeviceAttached _) = True"
| "controller_only (Input _) = True"
| "controller_only (ResizeTo _) = True"
| "controller_only SnapshotRequest = True"
| "controller_only (TerminalSnapshot _) = True"
| "controller_only Close = True"
| "controller_only (CloseIdempotent _) = True"
| "controller_only (InstallCleanupCapability _ _) = True"
| "controller_only _ = False"

definition refused :: "request_outcome \<Rightarrow> supervisor_conn \<Rightarrow> supervisor_world \<Rightarrow> bool" where
  "refused r c wd \<longleftrightarrow> (\<exists>e. ro_response r = R_Err e) \<and> ro_conn r = c \<and> ro_world r = wd \<and> ro_effects r = []"

lemma outsider_refused:
  assumes "controller_only req"
    and "\<And>i. sc_controller_identity c = Some i \<Longrightarrow> \<not> is_active_controller i (sw_state wd)"
    and "\<And>i. sc_pending_resume_identity c = Some i \<Longrightarrow> ss_controller_resume_lease_id (sw_state wd) \<noteq> Some (ci_id i)"
  shows "refused (handle_request env sid req c wd) c wd"
  using assms
  by (cases req) (auto simp: refused_def handle_request_def outcome_def as_current_controller_def ensure_current_controller_def
      ensure_current_or_pending_controller_def handle_install_capability_def is_current_controller_def
      split: option.splits sum.splits)

lemma stale_commit_refused:
  assumes "committed_controller_resume tid (sw_state wd) = None"
    and "\<And>i. sc_pending_resume_identity c = Some i \<Longrightarrow> ss_controller_resume_lease_id (sw_state wd) \<noteq> Some (ci_id i)"
  shows "refused (handle_request env sid (CommitControllerResume tid) c wd) c wd"
  using assms
  by (auto simp: refused_def handle_request_def handle_commit_resume_def outcome_def commit_controller_resume_def
      committed_controller_resume_def split: option.splits)

text \<open>
  C10. The newest attach owns the control line. In every reachable state, after connection \<open>n\<close> has attached
  as a new controller it is the active one, and every other connection, whatever it was before, is refused
  each request reserved to the controller (input, resize, snapshots, devices, close, installing the cleanup
  capability): the answer is an error, the session and the connection do not change and the PTY is not
  touched. A pending resume can only still be committed under a transaction that was committed earlier.
  (Controller numbers must not have reached the end of the 64-bit counter.)
\<close>

theorem new_controller_takes_over:
  assumes "sup_reach sid sz cap w conns wd" "conns n = Some c"
    and "req = Attach s \<or> req = AttachSync s l None" "r = handle_request env sid req c wd" "ro_response r = R_Ok p"
    and "ss_next_controller_id (sw_state (ro_world r)) < u64_max"
  shows "is_current_controller (sc_controller_identity (ro_conn r)) (sw_state (ro_world r)) \<and>
    (\<forall>m c' env' req'. m \<noteq> n \<longrightarrow> conns m = Some c' \<longrightarrow> controller_only req' \<longrightarrow>
       refused (handle_request env' sid req' c' (ro_world r)) c' (ro_world r)) \<and>
    (\<forall>m c' env' tid. m \<noteq> n \<longrightarrow> conns m = Some c' \<longrightarrow>
       committed_controller_resume tid (sw_state (ro_world r)) = None \<longrightarrow>
       refused (handle_request env' sid (CommitControllerResume tid) c' (ro_world r)) c' (ro_world r))"
proof -
  let ?k = "ss_next_controller_id (sw_state wd)"
  obtain l' i sync st where a: "attach_sync (sc_tx c) (pe_process_id env) l' (sw_state wd) = ((i, sync), st)"
    "ro_world r = wd\<lparr>sw_state := st\<rparr>" "sc_controller_identity (ro_conn r) = Some i"
    using assms(3-5)
    by (auto simp: handle_request_def handle_attach_def handle_attach_sync_def outcome_def Let_def split: if_splits prod.splits)
  note s = attach_sync_shape [OF a(1)]
  have "?k < u64_max" using s(2) assms(6) reach_numbers [OF assms(1)]
    by (auto simp: a(2) numbered_while_counting_def sat_add64_def split: if_splits)
  then have ok: "numbers_ok conns (sw_state wd)" using reach_numbers [OF assms(1)] by (simp add: numbered_while_counting_def)
  have old: "ci_id j < ci_id i" if "conns m = Some c'" "sc_controller_identity c' = Some j \<or> sc_pending_resume_identity c' = Some j" for m c' j
    using numbers_ok_bound [OF ok that] s(1) by simp
  have "is_active_controller i st" using s by (simp add: is_active_controller_def handle_matches_def)
  moreover have "refused (handle_request env' sid req' c' (ro_world r)) c' (ro_world r)"
    if "conns m = Some c'" "controller_only req'" for m c' env' req'
    using that(2)
  proof (rule outsider_refused)
    show "\<not> is_active_controller j (sw_state (ro_world r))" if "sc_controller_identity c' = Some j" for j
      using old [OF \<open>conns m = Some c'\<close>, of j] that s(4) a(2) by (auto simp: is_active_controller_def)
    show "ss_controller_resume_lease_id (sw_state (ro_world r)) \<noteq> Some (ci_id j)" if "sc_pending_resume_identity c' = Some j" for j
      using old [OF \<open>conns m = Some c'\<close>, of j] that s(6) a(2) by auto
  qed
  moreover have "refused (handle_request env' sid (CommitControllerResume tid) c' (ro_world r)) c' (ro_world r)"
    if "conns m = Some c'" "committed_controller_resume tid (sw_state (ro_world r)) = None" for m c' env' tid
    using that(2)
  proof (rule stale_commit_refused)
    show "ss_controller_resume_lease_id (sw_state (ro_world r)) \<noteq> Some (ci_id j)" if "sc_pending_resume_identity c' = Some j" for j
      using old [OF \<open>conns m = Some c'\<close>, of j] that s(6) a(2) by auto
  qed
  ultimately show ?thesis using a(2,3) by (auto simp: is_current_controller_def)
qed

text \<open>
  A session with two attaches: connection 0 becomes controller 1, connection 1 resumes it under
  transaction 5, connection 2 starts to resume it too, and connection 3 attaches as controller 2.
\<close>

definition demo_size :: pty_size where
  "demo_size = \<lparr>ps_rows = 2, ps_cols = 4, ps_pixel_width = 0, ps_pixel_height = 0\<rparr>"

definition demo0 :: request_outcome where
  "demo0 = handle_request plain_env [] (AttachSync [] None None) (conn_new 0) (fresh_world demo_size None)"

definition demo1 :: request_outcome where
  "demo1 = handle_request plain_env [] (AttachSync [] None (Some 1)) (conn_new 1) (ro_world demo0)"

definition demo2 :: request_outcome where
  "demo2 = handle_request plain_env [] (CommitControllerResume 5) (ro_conn demo1) (ro_world demo1)"

definition demo3 :: request_outcome where
  "demo3 = handle_request plain_env [] (AttachSync [] None (Some 1)) (conn_new 2) (ro_world demo2)"

definition demo4 :: request_outcome where
  "demo4 = handle_request plain_env [] (AttachSync [] None None) (conn_new 3) (ro_world demo3)"

lemmas demo_steps = demo0_def demo1_def demo2_def demo3_def demo4_def handle_request_def handle_attach_sync_def
  handle_commit_resume_def conn_new_def outcome_def fresh_world_def with_optional_cleanup_capability_def attach_sync_def
  resume_attach_sync_def commit_controller_resume_def take_control_def allocate_controller_connection_id_def Let_def
  sat_add64_def u64_max_def

lemma demo_reach:
  "sup_reach [] demo_size None w (((\<lambda>n. Some (conn_new n))(0 \<mapsto> ro_conn demo0, 1 \<mapsto> ro_conn demo1))(1 \<mapsto> ro_conn demo2, 2 \<mapsto> ro_conn demo3))
     (ro_world demo3)"
proof -
  let ?c0 = "\<lambda>n. Some (conn_new n)"
  have 0: "sup_reach [] demo_size None w (?c0(0 \<mapsto> ro_conn demo0)) (ro_world demo0)"
    by (rule sup_reach.request [OF sup_reach.start _ demo0_def]) simp
  have 1: "sup_reach [] demo_size None w (?c0(0 \<mapsto> ro_conn demo0, 1 \<mapsto> ro_conn demo1)) (ro_world demo1)"
    by (rule sup_reach.request [OF 0 _ demo1_def]) simp
  have 2: "sup_reach [] demo_size None w ((?c0(0 \<mapsto> ro_conn demo0, 1 \<mapsto> ro_conn demo1))(1 \<mapsto> ro_conn demo2)) (ro_world demo2)"
    by (rule sup_reach.request [OF 1 _ demo2_def]) simp
  show ?thesis by (rule sup_reach.request [OF 2 _ demo3_def]) simp
qed

theorem new_controller_takes_over_witness:
  "is_current_controller (sc_controller_identity (ro_conn demo4)) (sw_state (ro_world demo4)) \<and>
   refused (handle_request plain_env [] (Input [108]) (ro_conn demo2) (ro_world demo4)) (ro_conn demo2) (ro_world demo4) \<and>
   refused (handle_request plain_env [] (CommitControllerResume 6) (ro_conn demo3) (ro_world demo4)) (ro_conn demo3) (ro_world demo4)"
proof -
  define conns where "conns = ((\<lambda>n. Some (conn_new n))(0 \<mapsto> ro_conn demo0, 1 \<mapsto> ro_conn demo1))(1 \<mapsto> ro_conn demo2, 2 \<mapsto> ro_conn demo3)"
  have reach: "sup_reach [] demo_size None (\<lambda>_. Some 1) conns (ro_world demo3)" unfolding conns_def by (rule demo_reach)
  have c: "conns 3 = Some (conn_new 3)" "conns 1 = Some (ro_conn demo2)" "conns 2 = Some (ro_conn demo3)"
    by (simp_all add: conns_def)
  obtain p where p: "ro_response demo4 = R_Ok p" by (simp add: demo_steps)
  have n: "ss_next_controller_id (sw_state (ro_world demo4)) < u64_max"
    "committed_controller_resume 6 (sw_state (ro_world demo4)) = None"
    by (simp_all add: demo_steps committed_controller_resume_def)
  have req: "AttachSync [] None None = Attach [] \<or> AttachSync [] None None = AttachSync [] None None" by simp
  from new_controller_takes_over [OF reach c(1) req demo4_def p n(1)] c(2,3) n(2)
  show ?thesis by (metis controller_only.simps(5) numeral_eq_iff semiring_norm(83,85,86,87,88,89) one_eq_numeral_iff)
qed

text \<open>
  A replayed resume commit overrides a newer controller. Where transaction \<open>tid\<close> was once committed
  for controller \<open>a\<close> and a connection still holds a pending resume of \<open>a\<close>, committing \<open>tid\<close> again makes
  \<open>a\<close> the active controller whatever controller is active now: the current one, though it attached
  later, is refused from then on. The witness reaches such a state with two attaches and three resumes.
\<close>

lemma replayed_commit_overrides_newer_controller:
  assumes "committed_controller_resume tid (sw_state wd) = Some a"
    and "sc_pending_resume_identity c = Some p" "ci_id p = ci_id a" "\<not> sc_cleanup_authenticated c"
    and "sc_controller_identity c' = Some b" "is_active_controller b (sw_state wd)" "ci_id a < ci_id b"
    and "sc_pending_resume_identity c' = None"
    and "r = handle_request env sid (CommitControllerResume tid) c wd"
  shows "is_active_controller a (sw_state (ro_world r)) \<and> sc_controller_identity (ro_conn r) = Some a \<and>
    (controller_only req \<longrightarrow> refused (handle_request env sid req c' (ro_world r)) c' (ro_world r))"
proof -
  have r: "ro_conn r = c\<lparr>sc_controller_identity := Some a, sc_pending_resume_identity := None, sc_committed_resume_transaction_id := Some tid\<rparr>"
    "ro_world r = wd\<lparr>sw_state := take_control a (sc_tx c) (sw_state wd)\<rparr>"
    using assms(1-4,9)
    by (simp_all add: handle_request_def handle_commit_resume_def commit_controller_resume_def committed_controller_resume_def outcome_def)
  have "\<not> is_active_controller i (sw_state (ro_world r))" if "sc_controller_identity c' = Some i" for i
    using that assms(5,7) by (auto simp: r take_control_def is_active_controller_def)
  with outsider_refused [of req c' "ro_world r"] assms(8) show ?thesis
    by (simp add: r take_control_def is_active_controller_def handle_matches_def)
qed

section \<open>Cleanup authentication\<close>

lemma constant_time_eq_iff: "constant_time_eq l r \<longleftrightarrow> l = r"
  by (simp add: constant_time_eq_def byte_scan_iff)

lemma act_on_terminate: "Pty_terminate \<in> set (ro_effects (act_on env sid req c wd)) \<Longrightarrow> req = Close \<or> (\<exists>oid. req = CloseIdempotent oid)"
  by (cases req) (auto simp: outcome_def Let_def case_prod_beta split: option.splits sum.splits if_splits)

lemma terminate_needs_authority:
  assumes "Pty_terminate \<in> set (ro_effects (handle_request env sid req c wd))"
  shows "is_current_controller (sc_controller_identity c) (sw_state wd) \<or> sc_cleanup_authenticated c"
proof (cases "\<exists>s oid. req = CleanupClose s oid")
  case True
  with assms show ?thesis by (auto simp: handle_request_def handle_cleanup_close_def outcome_def split: if_splits)
next
  case False
  have act: "is_current_controller (sc_controller_identity c) (sw_state wd)"
    if "Pty_terminate \<in> set (ro_effects (as_current_controller env sid req c wd))"
    using that by (auto simp: as_current_controller_def ensure_current_controller_def is_current_controller_def outcome_def
        split: option.splits if_splits)
  from False assms act show ?thesis
    by (cases req) (auto simp: handle_request_def outcome_def handle_attach_def handle_attach_sync_def handle_commit_resume_def
        handle_install_capability_def handle_cleanup_challenge_def handle_cleanup_authenticate_def Let_def case_prod_beta
        split: if_splits option.splits sum.splits prod.splits dest: act_on_terminate)
qed

lemma authentication_step:
  assumes "sc_cleanup_authenticated (ro_conn (handle_request env sid req c wd))" "\<not> sc_cleanup_authenticated c"
  shows "\<exists>cn64 sn64 cap64 cn sn cp. req = CleanupAuthenticate sid cn64 sn64 cap64 \<and>
    sc_pending_cleanup_authentication c = Some (cn, sn) \<and> pe_b64_decode env cn64 = Inr cn \<and>
    pe_b64_decode env sn64 = Inr sn \<and> pe_b64_decode env cap64 = Inr cp \<and> length cp = 32 \<and>
    ss_cleanup_capability (sw_state wd) = Some cp \<and> sc_controller_identity c = None"
proof (cases "\<exists>s cn64 sn64 cap64. req = CleanupAuthenticate s cn64 sn64 cap64")
  case True
  with assms show ?thesis
    by (auto simp: handle_request_def handle_cleanup_authenticate_def outcome_def Let_def constant_time_eq_iff
        decode_cleanup_capability_def decode_cleanup_nonce_def cleanup_capability_bytes_def
        split: if_splits option.splits sum.splits)
next
  case False
  have "ro_conn (as_current_controller env sid req c wd) = c" by (rule as_current_keeps(2))
  with False assms show ?thesis
    by (cases req) (auto simp: handle_request_def outcome_def handle_attach_def handle_attach_sync_def handle_commit_resume_def
        handle_install_capability_def handle_cleanup_challenge_def handle_cleanup_close_def Let_def case_prod_beta act_on_conn
        split: if_splits option.splits sum.splits prod.splits)
qed

lemma keeps_capability_broadcast:
  "ss_cleanup_capability (sw_state (broadcast_terminal_frame sid f wd)) = ss_cleanup_capability (sw_state wd)"
proof -
  have "ss_cleanup_capability (fold remove_terminal_attach xs st) = ss_cleanup_capability st" for xs st
    by (simp add: fold_remove_attach)
  moreover have "ss_cleanup_capability (fold remove_closed_controller ys st) = ss_cleanup_capability st" for ys st
    by (induction ys arbitrary: st)
      (simp_all add: remove_closed_controller_def remove_controller_def Let_def split: option.splits)
  ultimately show ?thesis by (simp add: broadcast_terminal_frame_def Let_def case_prod_beta)
qed

lemma capability_change_needs_controller:
  assumes "ss_cleanup_capability (sw_state (ro_world (handle_request env sid req c wd))) \<noteq> ss_cleanup_capability (sw_state wd)"
  shows "is_current_controller (sc_controller_identity c) (sw_state wd)"
proof -
  have act: "ss_cleanup_capability (sw_state (ro_world (act_on env sid req c wd))) = ss_cleanup_capability (sw_state wd)"
    by (cases req) (auto simp: outcome_def Let_def case_prod_beta state_resize_def attach_device_def detach_device_def
        keeps_capability_broadcast split: option.splits sum.splits)
  then have "ss_cleanup_capability (sw_state (ro_world (as_current_controller env sid req c wd))) = ss_cleanup_capability (sw_state wd)"
    by (simp add: as_current_controller_def outcome_def split: option.splits)
  with act assms show ?thesis
    by (cases req) (auto simp: handle_request_def outcome_def handle_attach_def handle_attach_sync_def handle_commit_resume_def
        handle_install_capability_def handle_cleanup_challenge_def handle_cleanup_authenticate_def handle_cleanup_close_def
        attach_sync_def resume_attach_sync_def commit_controller_resume_def take_control_def allocate_controller_connection_id_def
        Let_def case_prod_beta split: if_splits option.splits sum.splits prod.splits)
qed

text \<open>
  C11. Closing without control needs the cleanup capability. Whatever request arrives: the PTY is only
  terminated for the active controller or for a connection that passed cleanup authentication; a
  connection passes it only by presenting, while it is no controller, the installed 32-byte capability
  together with both nonces of the challenge this connection was last sent; each attempt uses the
  challenge up; the capability is only ever replaced by the active controller; and a connection that
  passed can do nothing else that a controller can, nor become one.
\<close>

theorem cleanup_close_needs_capability:
  fixes env :: pty_env and sid :: text_bytes and req :: supervisor_request and c :: supervisor_conn and wd :: supervisor_world
  defines "r \<equiv> handle_request env sid req c wd"
  shows "(Pty_terminate \<in> set (ro_effects r) \<longrightarrow>
      is_current_controller (sc_controller_identity c) (sw_state wd) \<or> sc_cleanup_authenticated c) \<and>
    (sc_cleanup_authenticated (ro_conn r) \<and> \<not> sc_cleanup_authenticated c \<longrightarrow>
      (\<exists>cn64 sn64 cap64 cn sn cp. req = CleanupAuthenticate sid cn64 sn64 cap64 \<and>
        sc_pending_cleanup_authentication c = Some (cn, sn) \<and> pe_b64_decode env cn64 = Inr cn \<and>
        pe_b64_decode env sn64 = Inr sn \<and> pe_b64_decode env cap64 = Inr cp \<and> length cp = 32 \<and>
        ss_cleanup_capability (sw_state wd) = Some cp \<and> sc_controller_identity c = None)) \<and>
    (\<forall>s cn64 sn64 cap64. req = CleanupAuthenticate s cn64 sn64 cap64 \<longrightarrow>
      sc_pending_cleanup_authentication (ro_conn r) = None) \<and>
    (ss_cleanup_capability (sw_state (ro_world r)) \<noteq> ss_cleanup_capability (sw_state wd) \<longrightarrow>
      is_current_controller (sc_controller_identity c) (sw_state wd)) \<and>
    (sc_cleanup_authenticated c \<and> (controller_only req \<or> names_controller req) \<longrightarrow> refused r c wd)"
proof -
  have "sc_pending_cleanup_authentication (ro_conn r) = None" if "req = CleanupAuthenticate s cn64 sn64 cap64" for s cn64 sn64 cap64
    using that unfolding r_def by (simp add: handle_request_def handle_cleanup_authenticate_def outcome_def Let_def)
  moreover have "refused r c wd" if "sc_cleanup_authenticated c" "controller_only req \<or> names_controller req"
    using that unfolding r_def by (cases req) (auto simp: handle_request_def refused_def outcome_def)
  ultimately show ?thesis
    using terminate_needs_authority [of env sid req c wd] authentication_step [of env sid req c wd]
      capability_change_needs_controller [of env sid req c wd]
    unfolding r_def by blast
qed

text \<open>A connection that was challenged on a session with an installed capability.\<close>

definition demo_challenged :: request_outcome where
  "demo_challenged = handle_request plain_env [] (CleanupAuthChallenge [] (replicate 32 1)) (conn_new 0)
     (fresh_world demo_size (Some (replicate 32 9)))"

theorem cleanup_close_needs_capability_witness:
  "let r = handle_request plain_env [] (CleanupAuthenticate [] (replicate 32 1) (replicate 32 7) (replicate 32 9))
         (ro_conn demo_challenged) (ro_world demo_challenged) in
   sc_cleanup_authenticated (ro_conn r) \<and> sc_pending_cleanup_authentication (ro_conn r) = None \<and>
   sc_pending_cleanup_authentication (ro_conn demo_challenged) = Some (replicate 32 1, replicate 32 7)"
proof -
  let ?req = "CleanupAuthenticate [] (replicate 32 1) (replicate 32 7) (replicate 32 9)"
  let ?r = "handle_request plain_env [] ?req (ro_conn demo_challenged) (ro_world demo_challenged)"
  have ch: "ro_world demo_challenged = fresh_world demo_size (Some (replicate 32 9))"
    "ro_conn demo_challenged = (conn_new 0)\<lparr>sc_pending_cleanup_authentication := Some (replicate 32 1, replicate 32 7)\<rparr>"
    by (simp_all add: demo_challenged_def handle_request_def handle_cleanup_challenge_def conn_new_def decode_cleanup_nonce_def
        plain_env_def cleanup_auth_nonce_bytes_def fresh_world_def with_optional_cleanup_capability_def outcome_def Let_def)
  have "sc_cleanup_authenticated (ro_conn ?r)"
    by (simp add: ch handle_request_def handle_cleanup_authenticate_def conn_new_def decode_cleanup_nonce_def
        decode_cleanup_capability_def plain_env_def cleanup_auth_nonce_bytes_def cleanup_capability_bytes_def
        fresh_world_def with_optional_cleanup_capability_def outcome_def Let_def constant_time_eq_iff)
  moreover have "\<not> sc_cleanup_authenticated (ro_conn demo_challenged)" by (simp add: ch conn_new_def)
  ultimately show ?thesis
    using cleanup_close_needs_capability [of plain_env "[]" ?req "ro_conn demo_challenged" "ro_world demo_challenged"]
    by (auto simp: Let_def plain_env_def)
qed

section \<open>Live frames behind a reply\<close>

definition covered_by :: "u64 \<Rightarrow> supervisor_frame \<Rightarrow> bool" where
  "covered_by base f \<longleftrightarrow> (case f of SF_TerminalFrame tf \<Rightarrow>
     (case frame_terminal_seq tf of Some n \<Rightarrow> n \<le> base | None \<Rightarrow> False) | SF_Response _ _ \<Rightarrow> False)"

text \<open>
  What was queued before a reply is not sent twice: draining the controller's queue behind a reply
  labelled \<open>base\<close> ends with an empty queue, drops exactly the terminal frames up to \<open>base\<close> and keeps
  all others in their order.
\<close>

lemma drain_keeps_the_rest:
  "fst (drain_controller_frames_after_sync base q) = filter (\<lambda>f. \<not> covered_by base f) (map fst (oq_items q)) \<and>
   oq_items (snd (drain_controller_frames_after_sync base q)) = []"
proof (induction base q rule: drain_controller_frames_after_sync.induct)
  case (1 base q)
  show ?case
  proof (cases "try_recv q")
    case None
    then show ?thesis
      by (subst (1 2) drain_controller_frames_after_sync.simps) (auto simp: try_recv_def split: list.splits prod.splits)
  next
    case (Some r)
    obtain f q1 where r: "try_recv q = Some (f, q1)" using Some by (cases r) auto
    note ih = 1 [OF r refl]
    show ?thesis
      using ih try_recv_items [OF r]
      by (subst (1 2) drain_controller_frames_after_sync.simps)
        (auto simp: r case_prod_beta Let_def covered_by_def split: supervisor_frame.splits option.splits)
  qed
qed

section \<open>Output during a resume\<close>

lemma session_step_unregistered:
  assumes "session_step w sid x wd = Some wd'" "x \<noteq> In_output []" "world_ok wd"
    and "n \<notin> (\<lambda>e. ch_tx (snd e)) ` set (ss_controllers (sw_state wd))"
    and "cache_tracks w sz is0 (ss_terminal (sw_state wd))" "length is0 + 1 < u64_max"
  shows "sw_control wd' n = sw_control wd n" "n \<notin> (\<lambda>e. ch_tx (snd e)) ` set (ss_controllers (sw_state wd'))"
    "cache_tracks w sz (is0 @ [x]) (ss_terminal (sw_state wd'))" "world_ok wd'"
proof -
  from session_step_broadcast [OF assms(2,1)] obtain f c st where b:
    "cache_step w x (ss_terminal (sw_state wd)) = Some (f, c)" "wd' = broadcast_terminal_frame sid f (wd\<lparr>sw_state := st\<rparr>)"
    "ss_terminal st = c" "ss_controllers st = ss_controllers (sw_state wd)"
    "ss_terminal_attaches st = ss_terminal_attaches (sw_state wd)" by blast
  have ok: "world_ok (wd\<lparr>sw_state := st\<rparr>)" using assms(3) b(4,5) by (simp add: world_ok_def)
  note s = broadcast_spec [OF ok, where sid = sid and f = f, folded b(2)]
  show "sw_control wd' n = sw_control wd n" using s(3) [of n] assms(4) by (simp add: b(4))
  show "n \<notin> (\<lambda>e. ch_tx (snd e)) ` set (ss_controllers (sw_state wd'))" using s(1) assms(4) by (auto simp: b(4))
  have "cache_tracks w sz (is0 @ [x]) c" using cache_step_tracks [OF assms(5,6), of x] b(1) by auto
  moreover have "ss_terminal (sw_state wd') = c"
    using s(5) b(3) by (cases "sw_state wd'", cases st) (simp add: same_but_controllers_def)
  ultimately show "cache_tracks w sz (is0 @ [x]) (ss_terminal (sw_state wd'))" by simp
  show "world_ok wd'" unfolding b(2) by (rule world_ok_broadcast [OF ok])
qed

lemma feed_unregistered:
  assumes "feed w sid n (map Step_input is1) wd log = Some (wd', log')" "In_output [] \<notin> set is1" "world_ok wd"
    and "n \<notin> (\<lambda>e. ch_tx (snd e)) ` set (ss_controllers (sw_state wd))"
    and "cache_tracks w sz is0 (ss_terminal (sw_state wd))" "length is0 + length is1 < u64_max"
  shows "sw_control wd' n = sw_control wd n \<and> cache_tracks w sz (is0 @ is1) (ss_terminal (sw_state wd'))"
  using assms
proof (induction is1 arbitrary: is0 wd)
  case Nil
  then show ?case by simp
next
  case (Cons x is1)
  obtain wd1 where s: "session_step w sid x wd = Some wd1" "feed w sid n (map Step_input is1) wd1 log = Some (wd', log')"
    using Cons.prems(1) by (auto split: option.splits)
  have "x \<noteq> In_output []" "length is0 + 1 < u64_max" using Cons.prems(2,6) by auto
  note u = session_step_unregistered [OF s(1) this(1) Cons.prems(3,4,5) this(2)]
  from Cons.IH [OF s(2) _ u(4,2,3)] u(1) Cons.prems(2,6) show ?case by simp
qed

text \<open>
  A resumed controller misses the output of its own handshake. A connection that resumes a
  controller is answered with the events up to \<open>n\<close>; it is registered for live frames only when it
  commits. Whatever the session does in between is neither in the answer nor in the connection's queue
  after the commit, which the supervisor accepts all the same: its journal is then ahead of what the
  connection has been given by every one of these events.
\<close>

lemma resume_commit_skips_output:
  assumes "world_ok wd" "cache_tracks w sz is0 (ss_terminal (sw_state wd))"
    and "n \<notin> (\<lambda>e. ch_tx (snd e)) ` set (ss_controllers (sw_state wd))" "sw_control wd n = out_queue_new"
    and "r1 = handle_request env sid (AttachSync sid None (Some cid)) (conn_new n) wd" "ro_response r1 = R_Ok (P_AttachSync sync)"
    and "feed w sid n (map Step_input is1) (ro_world r1) [] = Some (wd1, [])"
    and "length is0 + length is1 < u64_max" "In_output [] \<notin> set is1"
    and "r2 = handle_request env sid (CommitControllerResume tid) (ro_conn r1) wd1" "ro_response r2 = R_Ok p"
  shows "sap_base_seq sync = length is0 \<and> oq_items (sw_control (ro_world r2) n) = [] \<and>
    is_current_controller (sc_controller_identity (ro_conn r2)) (sw_state (ro_world r2)) \<and>
    current_terminal_seq (ss_terminal (sw_state (ro_world r2))) = sap_base_seq sync + length is1"
proof -
  obtain i st where a: "resume_attach_sync cid (pe_process_id env) None (sw_state wd) = (Inr (i, sync), st)"
    "ro_world r1 = wd\<lparr>sw_state := st\<rparr>" "ro_conn r1 = (conn_new n)\<lparr>sc_pending_resume_identity := Some i\<rparr>"
    using assms(5,6)
    by (auto simp: handle_request_def handle_attach_sync_def outcome_def conn_new_def split: if_splits prod.splits sum.splits)
  then have st: "ss_controllers st = ss_controllers (sw_state wd)" "ss_terminal st = ss_terminal (sw_state wd)"
    "ss_terminal_attaches st = ss_terminal_attaches (sw_state wd)" "sap_base_seq sync = current_terminal_seq (ss_terminal (sw_state wd))"
    by (auto simp: resume_attach_sync_def allocate_controller_connection_id_def build_attach_sync_payload_def Let_def
        cache_snapshot_or_tail_def split: if_splits option.splits)
  have "world_ok (ro_world r1)" "n \<notin> (\<lambda>e. ch_tx (snd e)) ` set (ss_controllers (sw_state (ro_world r1)))"
    "cache_tracks w sz is0 (ss_terminal (sw_state (ro_world r1)))"
    using assms(1-3) by (simp_all add: a(2) world_ok_def st)
  note f = feed_unregistered [OF assms(7,9) this assms(8)]
  obtain j st' where c: "commit_controller_resume tid i n (sw_state wd1) = (Inr j, st')" "ro_world r2 = wd1\<lparr>sw_state := st'\<rparr>"
    "sc_controller_identity (ro_conn r2) = Some j"
    using assms(10,11) a(3)
    by (auto simp: handle_request_def handle_commit_resume_def outcome_def conn_new_def split: prod.splits sum.splits)
  have c': "is_active_controller j st'" "ss_terminal st' = ss_terminal (sw_state wd1)"
    using c(1) by (auto simp: commit_controller_resume_def take_control_def is_active_controller_def handle_matches_def Let_def
        split: if_splits option.splits)
  show ?thesis
    using f assms(2,4) c'
    by (simp add: a(2) c(2,3) st is_current_controller_def cache_tracks_def current_terminal_seq_def out_queue_new_def)
qed

end
