(* ===== verification/Supervisor_Wire.thy ===== *)
theory Supervisor_Wire
  imports Supervisor_State
begin

text \<open>
  The bytes between daemon and supervisor, from \<open>src/termd/src/pty/supervisor.rs\<close>: length-prefixed
  JSON frames and the start-up grant.

  The JSON library is two arguments: \<open>to_chunks\<close>, the pieces \<open>serde_json::to_writer\<close> hands to its
  writer, and \<open>from_slice\<close>. A reader is the list of bytes still to come; running out of bytes is the
  \<open>UnexpectedEof\<close> of \<open>read_exact\<close>. Writers take all bytes they are given, as \<open>write_all\<close> does.
\<close>

section \<open>Integers on the wire\<close>

definition u32_to_le_bytes :: "nat \<Rightarrow> u8 list" where
  "u32_to_le_bytes n = [n mod 256, n div 256 mod 256, n div 65536 mod 256, n div 16777216 mod 256]"

fun u32_from_le_bytes :: "u8 list \<Rightarrow> nat" where
  "u32_from_le_bytes [] = 0"
| "u32_from_le_bytes (b # bs) = b + 256 * u32_from_le_bytes bs"

definition u32_to_be_bytes :: "nat \<Rightarrow> u8 list" where
  "u32_to_be_bytes n = rev (u32_to_le_bytes n)"

lemma u32_le_roundtrip: "n < 2 ^ 32 \<Longrightarrow> u32_from_le_bytes (u32_to_le_bytes n) = n"
proof -
  assume n: "n < 2 ^ 32"
  let ?b = "n div 256" and ?c = "n div 65536" and ?d = "n div 16777216"
  have "?c = ?b div 256" "?d = ?c div 256" by (simp_all add: div_mult2_eq [symmetric])
  moreover have "?d mod 256 = ?d" using n by simp
  moreover have "n mod 256 + 256 * ?b = n" by simp
  moreover have "?b mod 256 + 256 * (?b div 256) = ?b" "?c mod 256 + 256 * (?c div 256) = ?c" by presburger+
  ultimately show ?thesis by (simp add: u32_to_le_bytes_def)
qed

lemma u32_le_digits:
  "u32_to_le_bytes n = [n mod 256, n div 256 mod 256, n div 256 div 256 mod 256, n div 256 div 256 div 256 mod 256]"
  by (simp add: u32_to_le_bytes_def div_mult2_eq [symmetric])

lemma base_256: "a < 256 \<Longrightarrow> (a + 256 * x) mod 256 = a" "a < 256 \<Longrightarrow> (a + 256 * x) div 256 = (x :: nat)"
  by simp_all

lemma u32_le_inject: "n < 2 ^ 32 \<Longrightarrow> m < 2 ^ 32 \<Longrightarrow> u32_to_le_bytes n = u32_to_le_bytes m \<Longrightarrow> n = m"
  using u32_le_roundtrip by metis

lemma length_u32_le [simp]: "length (u32_to_le_bytes n) = 4" "length (u32_to_be_bytes n) = 4"
  by (simp_all add: u32_to_le_bytes_def u32_to_be_bytes_def)


section \<open>Length-prefixed frames\<close>

datatype wire_error = Frame_too_large | Length_changed | Unexpected_eof | Missing_length_prefix | Length_mismatch | Json_error string

definition payload_limit :: usize where
  "payload_limit = max_supervisor_frame_bytes - 4"

definition checked_supervisor_payload_len :: "u8 list \<Rightarrow> wire_error + usize" where
  "checked_supervisor_payload_len len =
     (let payload_len = u32_from_le_bytes len in
      if payload_len > payload_limit then Inl Frame_too_large else Inr payload_len)"

definition supervisor_payload_length_prefix :: "usize \<Rightarrow> wire_error + u8 list" where
  "supervisor_payload_length_prefix payload_len =
     (if payload_len > payload_limit then Inl Frame_too_large else Inr (u32_to_le_bytes payload_len))"

record bounded_payload_writer =
  bw_inner :: "u8 list"
  bw_written :: usize

definition bounded_write :: "u8 list \<Rightarrow> bounded_payload_writer \<Rightarrow> wire_error + bounded_payload_writer" where
  "bounded_write bs wr =
     (if length bs > payload_limit - bw_written wr then Inl Frame_too_large
      else Inr \<lparr>bw_inner = bw_inner wr @ bs, bw_written = sat_add64 (bw_written wr) (length bs)\<rparr>)"

text \<open>What \<open>to_writer\<close> does with its pieces: the first error ends it, with what was written so far.\<close>

fun write_chunks :: "u8 list list \<Rightarrow> bounded_payload_writer \<Rightarrow> wire_error option \<times> bounded_payload_writer" where
  "write_chunks [] wr = (None, wr)"
| "write_chunks (b # bs) wr =
     (case bounded_write b wr of Inl e \<Rightarrow> (Some e, wr) | Inr wr' \<Rightarrow> write_chunks bs wr')"

definition write_supervisor_json_payload ::
  "('v \<Rightarrow> u8 list list) \<Rightarrow> u8 list \<Rightarrow> 'v \<Rightarrow> (wire_error + usize) \<times> u8 list" where
  "write_supervisor_json_payload to_chunks out v =
     (case write_chunks (to_chunks v) \<lparr>bw_inner = out, bw_written = 0\<rparr> of
        (Some e, wr) \<Rightarrow> (Inl e, bw_inner wr)
      | (None, wr) \<Rightarrow> (Inr (bw_written wr), bw_inner wr))"

definition supervisor_json_payload_len :: "('v \<Rightarrow> u8 list list) \<Rightarrow> 'v \<Rightarrow> wire_error + usize" where
  "supervisor_json_payload_len to_chunks v = fst (write_supervisor_json_payload to_chunks [] v)"

definition supervisor_serialized_frame_bytes :: "('v \<Rightarrow> u8 list list) \<Rightarrow> 'v \<Rightarrow> wire_error + usize" where
  "supervisor_serialized_frame_bytes to_chunks v =
     (case supervisor_json_payload_len to_chunks v of
        Inl e \<Rightarrow> Inl e
      | Inr n \<Rightarrow> if n + 4 > u64_max then Inl Frame_too_large else Inr (n + 4))"

text \<open>The bytes already on the stream are \<open>out\<close>; the result has them with what was added.\<close>

definition write_frame_sync :: "('v \<Rightarrow> u8 list list) \<Rightarrow> 'v \<Rightarrow> u8 list \<Rightarrow> wire_error option \<times> u8 list" where
  "write_frame_sync to_chunks v out =
     (case supervisor_json_payload_len to_chunks v of
        Inl e \<Rightarrow> (Some e, out)
      | Inr payload_len \<Rightarrow>
          (case supervisor_payload_length_prefix payload_len of
             Inl e \<Rightarrow> (Some e, out)
           | Inr prefix_bytes \<Rightarrow>
               (case write_supervisor_json_payload to_chunks (out @ prefix_bytes) v of
                  (Inl e, out') \<Rightarrow> (Some e, out')
                | (Inr written, out') \<Rightarrow>
                    if written \<noteq> payload_len then (Some Length_changed, out') else (None, out'))))"

definition write_frame_async :: "('v \<Rightarrow> u8 list list) \<Rightarrow> 'v \<Rightarrow> u8 list \<Rightarrow> wire_error option \<times> u8 list" where
  "write_frame_async to_chunks v out =
     (case supervisor_json_payload_len to_chunks v of
        Inl e \<Rightarrow> (Some e, out)
      | Inr payload_len \<Rightarrow>
          (case supervisor_payload_length_prefix payload_len of
             Inl e \<Rightarrow> (Some e, out)
           | Inr prefix_bytes \<Rightarrow>
               (case write_supervisor_json_payload to_chunks [] v of
                  (Inl e, _) \<Rightarrow> (Some e, out)
                | (Inr written, payload) \<Rightarrow>
                    if written \<noteq> payload_len then (Some Length_changed, out)
                    else (None, out @ prefix_bytes @ payload))))"

definition read_exact :: "usize \<Rightarrow> u8 list \<Rightarrow> wire_error + u8 list \<times> u8 list" where
  "read_exact n stream = (if length stream < n then Inl Unexpected_eof else Inr (take n stream, drop n stream))"

definition read_frame :: "(u8 list \<Rightarrow> string + 'v) \<Rightarrow> u8 list \<Rightarrow> wire_error + 'v \<times> u8 list" where
  "read_frame from_slice stream =
     (case read_exact 4 stream of
        Inl e \<Rightarrow> Inl e
      | Inr (len, stream1) \<Rightarrow>
          (case checked_supervisor_payload_len len of
             Inl e \<Rightarrow> Inl e
           | Inr n \<Rightarrow>
               (case read_exact n stream1 of
                  Inl e \<Rightarrow> Inl e
                | Inr (payload, stream2) \<Rightarrow>
                    (case from_slice payload of Inl e \<Rightarrow> Inl (Json_error e) | Inr v \<Rightarrow> Inr (v, stream2)))))"

definition read_raw_frame_sync :: "u8 list \<Rightarrow> wire_error + u8 list \<times> u8 list" where
  "read_raw_frame_sync stream =
     (case read_exact 4 stream of
        Inl e \<Rightarrow> Inl e
      | Inr (len, stream1) \<Rightarrow>
          (case checked_supervisor_payload_len len of
             Inl e \<Rightarrow> Inl e
           | Inr n \<Rightarrow>
               (case read_exact n stream1 of
                  Inl e \<Rightarrow> Inl e
                | Inr (payload, stream2) \<Rightarrow> Inr (len @ payload, stream2))))"

definition validate_length_prefixed_supervisor_frame :: "u8 list \<Rightarrow> wire_error + usize" where
  "validate_length_prefixed_supervisor_frame bs =
     (if length bs < 4 then Inl Missing_length_prefix
      else case checked_supervisor_payload_len (take 4 bs) of
        Inl e \<Rightarrow> Inl e
      | Inr n \<Rightarrow> if length bs \<noteq> 4 + n then Inl Length_mismatch else Inr n)"

definition decode_length_prefixed_json :: "(u8 list \<Rightarrow> string + 'v) \<Rightarrow> u8 list \<Rightarrow> wire_error + 'v" where
  "decode_length_prefixed_json from_slice bs =
     (case validate_length_prefixed_supervisor_frame bs of
        Inl e \<Rightarrow> Inl e
      | Inr _ \<Rightarrow> (case from_slice (drop 4 bs) of Inl e \<Rightarrow> Inl (Json_error e) | Inr v \<Rightarrow> Inr v))"


section \<open>Start-up grants\<close>

definition startup_grant_magic :: "u8 list" where
  "startup_grant_magic = ascii ''TMDGRT01''"

definition startup_grant_bytes :: usize where
  "startup_grant_bytes = 8 + 16 + 32 + 32 + 32 + 4"

record pty_startup_grant =
  sg_create_operation_id :: "u8 list"
  sg_capability :: "u8 list"

definition encode_startup_grant :: "(u8 list \<Rightarrow> u8 list) \<Rightarrow> pty_startup_grant \<Rightarrow> u8 list \<Rightarrow> u8 list \<Rightarrow> nat \<Rightarrow> u8 list" where
  "encode_startup_grant sha256 grant sid socket pid =
     startup_grant_magic @ sg_create_operation_id grant @ sg_capability grant @ sha256 sid @ sha256 socket @ u32_to_be_bytes pid"

datatype grant_error = Grant_invalid | Grant_binding_invalid

text \<open>The bytes up to the end of the pipe; \<open>take\<close> stops one byte after a frame.\<close>

definition read_and_validate_startup_grant ::
  "(u8 list \<Rightarrow> u8 list) \<Rightarrow> u8 list \<Rightarrow> u8 list \<Rightarrow> u8 list \<Rightarrow> nat \<Rightarrow> grant_error + u8 list" where
  "read_and_validate_startup_grant sha256 reader sid socket pid =
     (let frame = take (startup_grant_bytes + 1) reader;
          slice = (\<lambda>a b. take (b - a) (drop a frame)) in
      if length frame \<noteq> startup_grant_bytes \<or> slice 0 8 \<noteq> startup_grant_magic then Inl Grant_invalid
      else if slice 56 88 \<noteq> sha256 sid \<or> slice 88 120 \<noteq> sha256 socket \<or> slice 120 124 \<noteq> u32_to_be_bytes pid
      then Inl Grant_binding_invalid
      else Inr (slice 24 56))"


section \<open>Lemmas on frames\<close>

lemma payload_limit_bounds: "payload_limit < 2 ^ 32" "payload_limit + 4 = max_supervisor_frame_bytes" "payload_limit + 4 \<le> u64_max"
  by (simp_all add: payload_limit_def max_supervisor_frame_bytes_def u64_max_def)

lemma write_chunks_fits:
  assumes "bw_written wr + length (concat cs) \<le> payload_limit"
  shows "write_chunks cs wr = (None, \<lparr>bw_inner = bw_inner wr @ concat cs, bw_written = bw_written wr + length (concat cs)\<rparr>)"
  using assms
proof (induction cs arbitrary: wr)
  case Nil
  then show ?case by (cases wr) simp
next
  case (Cons c cs)
  then show ?case using payload_limit_bounds(3) by (simp add: bounded_write_def sat_add64_exact)
qed

lemma write_chunks_too_large:
  assumes "bw_written wr \<le> payload_limit" "payload_limit < bw_written wr + length (concat cs)"
  shows "fst (write_chunks cs wr) = Some Frame_too_large"
  using assms
proof (induction cs arbitrary: wr)
  case Nil
  then show ?case by simp
next
  case (Cons c cs)
  then show ?case using payload_limit_bounds(3) by (auto simp: bounded_write_def sat_add64_exact)
qed

lemma write_payload:
  "length (concat (to_chunks v)) \<le> payload_limit \<Longrightarrow>
     write_supervisor_json_payload to_chunks out v = (Inr (length (concat (to_chunks v))), out @ concat (to_chunks v))"
  "payload_limit < length (concat (to_chunks v)) \<Longrightarrow> fst (write_supervisor_json_payload to_chunks out v) = Inl Frame_too_large"
  using write_chunks_fits [of "\<lparr>bw_inner = out, bw_written = 0\<rparr>" "to_chunks v"]
    write_chunks_too_large [of "\<lparr>bw_inner = out, bw_written = 0\<rparr>" "to_chunks v"]
  by (auto simp: write_supervisor_json_payload_def split: prod.splits option.splits)

definition frame_of :: "u8 list \<Rightarrow> u8 list" where
  "frame_of payload = u32_to_le_bytes (length payload) @ payload"

lemma write_frame_spec:
  "write_frame_sync to_chunks v out =
     (if length (concat (to_chunks v)) \<le> payload_limit then (None, out @ frame_of (concat (to_chunks v))) else (Some Frame_too_large, out))"
  "write_frame_async to_chunks v out = write_frame_sync to_chunks v out"
proof -
  have "write_frame_sync to_chunks v out = (if length (concat (to_chunks v)) \<le> payload_limit
      then (None, out @ frame_of (concat (to_chunks v))) else (Some Frame_too_large, out)) \<and>
    write_frame_async to_chunks v out = write_frame_sync to_chunks v out"
  proof (cases "length (concat (to_chunks v)) \<le> payload_limit")
    case True
    from write_payload(1) [where to_chunks = to_chunks and v = v] True show ?thesis
      by (simp add: write_frame_sync_def write_frame_async_def supervisor_json_payload_len_def
          supervisor_payload_length_prefix_def frame_of_def)
  next
    case False
    with write_payload(2) [of to_chunks v "[]"] show ?thesis
      by (simp add: write_frame_sync_def write_frame_async_def supervisor_json_payload_len_def)
  qed
  then show "write_frame_sync to_chunks v out = (if length (concat (to_chunks v)) \<le> payload_limit
      then (None, out @ frame_of (concat (to_chunks v))) else (Some Frame_too_large, out))"
    "write_frame_async to_chunks v out = write_frame_sync to_chunks v out" by blast+
qed

lemma read_frame_of:
  assumes "length payload \<le> payload_limit"
  shows "read_frame from_slice (frame_of payload @ rest) =
      (case from_slice payload of Inl e \<Rightarrow> Inl (Json_error e) | Inr v \<Rightarrow> Inr (v, rest))"
    "read_raw_frame_sync (frame_of payload @ rest) = Inr (frame_of payload, rest)"
    "validate_length_prefixed_supervisor_frame (frame_of payload) = Inr (length payload)"
  using assms payload_limit_bounds(1) u32_le_roundtrip [of "length payload"]
  by (auto simp: read_frame_def read_raw_frame_sync_def validate_length_prefixed_supervisor_frame_def read_exact_def frame_of_def
      checked_supervisor_payload_len_def split: sum.splits)

lemma validated_is_frame:
  assumes "validate_length_prefixed_supervisor_frame bs = Inr n" "\<And>b. b \<in> set bs \<Longrightarrow> b < 256"
  shows "bs = frame_of (drop 4 bs) \<and> n = length (drop 4 bs) \<and> n \<le> payload_limit"
proof -
  have l: "length bs = 4 + n" "u32_from_le_bytes (take 4 bs) = n" "n \<le> payload_limit"
    using assms(1) by (auto simp: validate_length_prefixed_supervisor_frame_def checked_supervisor_payload_len_def Let_def
        split: if_splits sum.splits)
  then obtain a b c d where h: "take 4 bs = [a, b, c, d]" by (auto simp: length_Suc_conv eval_nat_numeral take_Suc_conv_app_nth)
  have "set [a, b, c, d] \<subseteq> set bs" using set_take_subset [of 4 bs] h by simp
  then have "a < 256" "b < 256" "c < 256" "d < 256" using assms(2) by auto
  then have "u32_to_le_bytes n = [a, b, c, d]"
    unfolding u32_le_digits l(2) [symmetric] h u32_from_le_bytes.simps by (simp add: base_256 del: distrib_left_numeral)
  then have "take 4 bs = u32_to_le_bytes (length (drop 4 bs))" using h l(1) by simp
  then have "bs = frame_of (drop 4 bs)" by (metis append_take_drop_id frame_of_def)
  with l show ?thesis by simp
qed



section \<open>Properties\<close>

text \<open>Writing several values in a row.\<close>

fun write_all_frames :: "('v \<Rightarrow> u8 list list) \<Rightarrow> 'v list \<Rightarrow> u8 list \<Rightarrow> u8 list" where
  "write_all_frames to_chunks [] out = out"
| "write_all_frames to_chunks (v # vs) out = write_all_frames to_chunks vs (snd (write_frame_sync to_chunks v out))"

fun read_frames :: "(u8 list \<Rightarrow> string + 'v) \<Rightarrow> nat \<Rightarrow> u8 list \<Rightarrow> (wire_error + 'v list) \<times> u8 list" where
  "read_frames from_slice 0 stream = (Inr [], stream)"
| "read_frames from_slice (Suc n) stream =
     (case read_frame from_slice stream of
        Inl e \<Rightarrow> (Inl e, stream)
      | Inr (v, rest) \<Rightarrow>
          (case read_frames from_slice n rest of
             (Inl e, rest') \<Rightarrow> (Inl e, rest')
           | (Inr vs, rest') \<Rightarrow> (Inr (v # vs), rest')))"

lemma write_all_frames_spec:
  "write_all_frames to_chunks vs out =
     out @ concat (map (\<lambda>v. frame_of (concat (to_chunks v))) (filter (\<lambda>v. length (concat (to_chunks v)) \<le> payload_limit) vs))"
  by (induction vs arbitrary: out) (auto simp: write_frame_spec)

lemma read_frames_of:
  assumes "\<And>v. v \<in> set vs \<Longrightarrow> from_slice (concat (to_chunks v)) = Inr v \<and> length (concat (to_chunks v)) \<le> payload_limit"
  shows "read_frames from_slice (length vs) (concat (map (\<lambda>v. frame_of (concat (to_chunks v))) vs) @ rest) = (Inr vs, rest)"
  using assms by (induction vs) (simp_all add: read_frame_of(1))

text \<open>
  Frames survive the wire. Given that the JSON library reads back what it printed: values written one
  after the other, by either writer, are read back as the same values in the same order, with the
  rest of the stream untouched, whatever pieces the printer wrote them in. A value of more than 8 MiB
  less the prefix is refused before a byte of it is written, so it cannot break the stream for the
  others.
\<close>

lemma frames_roundtrip:
  assumes "\<And>v. from_slice (concat (to_chunks v)) = Inr v"
  shows "read_frames from_slice (length (filter (\<lambda>v. length (concat (to_chunks v)) \<le> payload_limit) vs))
      (write_all_frames to_chunks vs [] @ rest) =
    (Inr (filter (\<lambda>v. length (concat (to_chunks v)) \<le> payload_limit) vs), rest) \<and>
    write_frame_async to_chunks v out = write_frame_sync to_chunks v out \<and>
    (payload_limit < length (concat (to_chunks v)) \<longrightarrow> write_frame_sync to_chunks v out = (Some Frame_too_large, out)) \<and>
    (length (concat (to_chunks v)) \<le> payload_limit \<longrightarrow> fst (write_frame_sync to_chunks v out) = None \<and>
      length (snd (write_frame_sync to_chunks v out)) \<le> length out + 8388608)"
proof -
  have "length (concat (to_chunks v)) \<le> payload_limit \<Longrightarrow> length (frame_of (concat (to_chunks v))) \<le> 8388608"
    using payload_limit_bounds(2) by (simp add: frame_of_def max_supervisor_frame_bytes_def)
  then show ?thesis
    using read_frames_of [of "filter (\<lambda>v. length (concat (to_chunks v)) \<le> payload_limit) vs" from_slice to_chunks rest] assms
    by (auto simp: write_all_frames_spec write_frame_spec)
qed

text \<open>
  A start-up grant only opens the session it was made for. The supervisor accepts the bytes on its
  pipe exactly when they are the encoding of some grant for its own session id, socket path and process
  id, and then takes the capability of that grant. In particular a grant for another session, socket or
  process is only accepted where the hashes collide. (Byte strings of the sizes of the Rust types; the
  hash returns 32 bytes.)
\<close>

lemma startup_grant_is_bound:
  assumes "\<And>x. length (sha256 x) = 32"
  shows "read_and_validate_startup_grant sha256 reader sid socket pid = Inr cap \<longleftrightarrow>
    (\<exists>oid. length oid = 16 \<and> length cap = 32 \<and>
       reader = encode_startup_grant sha256 \<lparr>sg_create_operation_id = oid, sg_capability = cap\<rparr> sid socket pid)"
    (is "?l \<longleftrightarrow> ?r")
proof
  assume ?r
  then obtain oid where r: "length oid = 16" "length cap = 32"
    "reader = startup_grant_magic @ oid @ cap @ sha256 sid @ sha256 socket @ u32_to_be_bytes pid"
    by (auto simp: encode_startup_grant_def)
  have magic: "length startup_grant_magic = 8" by (simp add: startup_grant_magic_def ascii_def)
  have "length reader = 124" using r magic assms by simp
  moreover have "take 8 reader = startup_grant_magic" "take 32 (drop 24 reader) = cap" "take 32 (drop 56 reader) = sha256 sid"
    "take 32 (drop 88 reader) = sha256 socket" "take 4 (drop 120 reader) = u32_to_be_bytes pid"
    using magic assms r(1,2) by (simp_all only: r(3) drop_append take_append length_append) simp_all
  ultimately show ?l
    by (simp add: read_and_validate_startup_grant_def startup_grant_bytes_def)
next
  assume l: ?l
  define slice where "slice = (\<lambda>a b. take (b - a) (drop a reader))"
  have r: "length reader = 124" "slice 0 8 = startup_grant_magic" "slice 56 88 = sha256 sid" "slice 88 120 = sha256 socket"
    "slice 120 124 = u32_to_be_bytes pid" "cap = slice 24 56"
    using l by (auto simp: read_and_validate_startup_grant_def startup_grant_bytes_def Let_def slice_def split: if_splits)
  have split: "take a reader @ slice a b = take b reader" if "a \<le> b" for a b
    using that take_add [of a "b - a" reader] by (simp add: slice_def)
  have "reader = take 124 reader" using r(1) by simp
  also have "\<dots> = take 0 reader @ slice 0 8 @ slice 8 24 @ slice 24 56 @ slice 56 88 @ slice 88 120 @ slice 120 124"
    unfolding append_assoc [symmetric] by (simp only: split)
  finally have "reader = slice 0 8 @ slice 8 24 @ slice 24 56 @ slice 56 88 @ slice 88 120 @ slice 120 124" by simp
  moreover have "length (slice 8 24) = 16" "length cap = 32" using r(1,6) by (simp_all add: slice_def)
  ultimately show ?r using r by (auto simp: encode_startup_grant_def intro!: exI [of _ "slice 8 24"])
qed

end
