(* ===== verification/Supervisor_Client.thy ===== *)
theory Supervisor_Client
  imports Supervisor_State
begin

text \<open>
  The daemon's side of a supervisor connection, from \<open>src/termd/src/pty/supervisor.rs\<close>: the queues of
  \<open>SupervisorPtySession\<close>, its reader loop, the installation of an attach reply, the two ways to read
  output, and the retry of requests.

  A waiting request is the number of the channel its answer goes to; the answers a step sends are part
  of its result. Sockets, time-outs and the activity detector are not modelled; a step that would make
  the terminal emulator panic has no result.
\<close>

section \<open>State\<close>

record daemon_client =
  dc_pending_requests :: "(u64, chan) hmap"
  dc_pending_output :: "u8 list list"
  dc_pending_frames :: "pty_terminal_frame list"
  dc_mirror :: terminal_mirror
  dc_bootstrap :: "pty_terminal_frame list option"
  dc_output_signal :: u64
  dc_next_request_id :: u64
  dc_controller_identity :: "controller_identity option"
  dc_cached_size :: pty_size
  dc_cached_process_id :: "nat option"
  dc_exited :: bool

definition client_new :: "pty_size \<Rightarrow> daemon_client" where
  "client_new default_size =
     \<lparr>dc_pending_requests = [], dc_pending_output = [], dc_pending_frames = [], dc_mirror = mirror_new default_size,
      dc_bootstrap = Some [], dc_output_signal = 0, dc_next_request_id = 1, dc_controller_identity = None,
      dc_cached_size = default_size, dc_cached_process_id = None, dc_exited = False\<rparr>"

definition signal_pending_output :: "daemon_client \<Rightarrow> daemon_client" where
  "signal_pending_output c = c\<lparr>dc_output_signal := wrap_add64 (dc_output_signal c) 1\<rparr>"

definition has_pending_output_or_terminal_frames :: "daemon_client \<Rightarrow> bool" where
  "has_pending_output_or_terminal_frames c \<longleftrightarrow> dc_pending_output c \<noteq> [] \<or> dc_pending_frames c \<noteq> []"


section \<open>Queues\<close>

definition enqueue_daemon_terminal_frame ::
  "terminal_mirror \<Rightarrow> pty_terminal_frame \<Rightarrow> pty_terminal_frame list \<Rightarrow> pty_terminal_frame list" where
  "enqueue_daemon_terminal_frame m f pending =
     (let frame_bytes = terminal_frame_retained_bytes f;
          retained_bytes = sum_list (map terminal_frame_retained_bytes pending) in
      if length pending < supervisor_output_queue_max_messages \<and>
         sat_add64 retained_bytes frame_bytes \<le> supervisor_output_queue_max_bytes
      then pending @ [f]
      else filter (\<lambda>s. terminal_frame_retained_bytes s \<le> supervisor_output_queue_max_bytes)
             (snd (mirror_snapshot_or_tail None m)))"

text \<open>The eviction loop: drop chunks at the far end until the new one fits.\<close>

function make_room :: "bool \<Rightarrow> usize \<Rightarrow> u8 list list \<Rightarrow> usize \<Rightarrow> u8 list list" where
  "make_room at_front n pending retained =
     (if length pending \<ge> supervisor_output_queue_max_messages \<or>
         sat_add64 retained n > supervisor_output_queue_max_bytes
      then (if pending = [] then []
            else if at_front then make_room at_front n (butlast pending) (retained - length (last pending))
            else make_room at_front n (tl pending) (retained - length (hd pending)))
      else pending)"
  by pat_completeness auto
termination
  by (relation "measure (\<lambda>(a, n, p, r). length p)") auto

declare make_room.simps [simp del]

definition enqueue_daemon_legacy_output :: "u8 list \<Rightarrow> bool \<Rightarrow> u8 list list \<Rightarrow> u8 list list" where
  "enqueue_daemon_legacy_output chunk0 at_front pending =
     (let chunk = (if length chunk0 > supervisor_output_queue_max_bytes
                   then (if at_front then take supervisor_output_queue_max_bytes chunk0
                         else drop (length chunk0 - supervisor_output_queue_max_bytes) chunk0)
                   else chunk0);
          kept = make_room at_front (length chunk) pending (sum_list (map length pending)) in
      if at_front then chunk # kept else kept @ [chunk])"

definition apply_and_enqueue_daemon_terminal_frame ::
  "(uchar \<Rightarrow> usize option) \<Rightarrow> pty_terminal_frame \<Rightarrow> daemon_client \<Rightarrow> (bool \<times> daemon_client) option" where
  "apply_and_enqueue_daemon_terminal_frame w f c =
     (case apply_frame w f (dc_mirror c) of
        None \<Rightarrow> None
      | Some (applied, m) \<Rightarrow>
          Some (applied,
            if applied
            then c\<lparr>dc_mirror := m, dc_pending_frames := enqueue_daemon_terminal_frame m f (dc_pending_frames c)\<rparr>
            else c\<lparr>dc_mirror := m\<rparr>))"


section \<open>Installing an attach reply\<close>

fun apply_all :: "(uchar \<Rightarrow> usize option) \<Rightarrow> pty_terminal_frame list \<Rightarrow> bool \<times> daemon_client \<Rightarrow> (bool \<times> daemon_client) option" where
  "apply_all w [] (published, c) = Some (published, c)"
| "apply_all w (f # fs) (published, c) =
     (case apply_and_enqueue_daemon_terminal_frame w f c of
        None \<Rightarrow> None
      | Some (applied, c') \<Rightarrow> apply_all w fs (published \<or> applied, c'))"

definition seq_key :: "pty_terminal_frame \<Rightarrow> u64" where
  "seq_key f = (case frame_terminal_seq f of None \<Rightarrow> 0 | Some s \<Rightarrow> s)"

text \<open>\<open>dedup_by_key\<close>: of a run of neighbours with one key the first stays.\<close>

fun dedup_by_seq :: "pty_terminal_frame list \<Rightarrow> pty_terminal_frame list" where
  "dedup_by_seq (f # g # fs) =
     (if frame_terminal_seq f = frame_terminal_seq g then dedup_by_seq (f # fs) else f # dedup_by_seq (g # fs))"
| "dedup_by_seq fs = fs"

definition newer_than :: "u64 \<Rightarrow> pty_terminal_frame \<Rightarrow> bool" where
  "newer_than base f \<longleftrightarrow> (case frame_terminal_seq f of None \<Rightarrow> False | Some s \<Rightarrow> s > base)"

definition seed_attach_sync :: "(uchar \<Rightarrow> usize option) \<Rightarrow> supervisor_attach_sync_payload \<Rightarrow> daemon_client \<Rightarrow> daemon_client option" where
  "seed_attach_sync w sync c0 =
     (let snapshot = sap_snapshot sync;
          c1 = c0\<lparr>dc_controller_identity := Some \<lparr>ci_id = sap_controller_id sync, ci_connection_id = sap_controller_connection_id sync\<rparr>,
                  dc_exited := ssp_exited snapshot, dc_cached_size := ssp_size snapshot,
                  dc_cached_process_id := ssp_process_id snapshot\<rparr>;
          buffered_live = (case dc_bootstrap c0 of None \<Rightarrow> [] | Some b \<Rightarrow> b);
          pending_live = filter (newer_than (sap_base_seq sync)) (dc_pending_frames c0);
          c2 = c1\<lparr>dc_pending_frames := []\<rparr> in
      do {
        c3 \<leftarrow> (if sap_frames sync = [] \<and> ssp_retained_output snapshot \<noteq> []
              then map_option (\<lambda>m. c2\<lparr>dc_mirror := m\<rparr>)
                     (apply_snapshot_and_tail w (ssp_size snapshot) (sap_base_seq sync) (ssp_retained_output snapshot) [] (dc_mirror c2))
              else Some c2);
        (published1, c4) \<leftarrow> apply_all w (sap_frames sync) (False, c3);
        (published, c5) \<leftarrow> apply_all w (dedup_by_seq (sort_key seq_key (pending_live @ buffered_live))) (published1, c4);
        let c6 = c5\<lparr>dc_bootstrap := None\<rparr>;
            c7 = (if published then signal_pending_output c6 else c6) in
        Some (if ssp_retained_output snapshot \<noteq> []
              then signal_pending_output (c7\<lparr>dc_pending_output :=
                     enqueue_daemon_legacy_output (ssp_retained_output snapshot) False (dc_pending_output c7)\<rparr>)
              else c7)
      })"


section \<open>The reader loop\<close>

datatype request_completion = Completed supervisor_response | Transport_error string

definition fail_all_pending_requests :: "string \<Rightarrow> daemon_client \<Rightarrow> (chan \<times> request_completion) list \<times> daemon_client" where
  "fail_all_pending_requests msg c =
     (map (\<lambda>(i, tx). (tx, Transport_error msg)) (dc_pending_requests c), c\<lparr>dc_pending_requests := []\<rparr>)"

text \<open>One frame from the socket: whether the loop goes on, the answers it sends, the new state.\<close>

fun reader_step :: "(uchar \<Rightarrow> usize option) \<Rightarrow> supervisor_frame \<Rightarrow> daemon_client \<Rightarrow>
    (bool \<times> (chan \<times> request_completion) list \<times> daemon_client) option" where
  "reader_step w (SF_Response request_id response) c =
     (case hm_get (dc_pending_requests c) request_id of
        None \<Rightarrow> Some (True, [], c)
      | Some tx \<Rightarrow> Some (True, [(tx, Completed response)],
                      c\<lparr>dc_pending_requests := hm_remove request_id (dc_pending_requests c)\<rparr>))"
| "reader_step w (SF_TerminalFrame f) c0 =
     (let c = (case f of FExit _ _ \<Rightarrow> c0\<lparr>dc_exited := True\<rparr> | _ \<Rightarrow> c0) in
      case dc_bootstrap c of
        Some buffered \<Rightarrow>
          if length buffered \<ge> supervisor_output_queue_max_messages \<or>
             sat_add64 (sum_list (map terminal_frame_retained_bytes buffered)) (terminal_frame_retained_bytes f)
               > supervisor_output_queue_max_bytes
          then (let (sent, c') = fail_all_pending_requests
                      ''session supervisor bootstrap output queue overflow; reconnect to resynchronize''
                      (c\<lparr>dc_bootstrap := Some []\<rparr>)
                in Some (False, sent, c'))
          else Some (True, [], c\<lparr>dc_bootstrap := Some (buffered @ [f])\<rparr>)
      | None \<Rightarrow>
          map_option (\<lambda>(applied, c'). (True, [], if applied then signal_pending_output c' else c'))
            (apply_and_enqueue_daemon_terminal_frame w f c))"


section \<open>Reading output\<close>

text \<open>The search for the first frame with bytes drops the frames before it.\<close>

fun pop_legacy_bytes :: "pty_terminal_frame list \<Rightarrow> u8 list option \<times> pty_terminal_frame list" where
  "pop_legacy_bytes [] = (None, [])"
| "pop_legacy_bytes (f # fs) = (case bytes_for_legacy_read f of Some b \<Rightarrow> (Some b, fs) | None \<Rightarrow> pop_legacy_bytes fs)"

definition client_read :: "usize \<Rightarrow> daemon_client \<Rightarrow> u8 list \<times> daemon_client" where
  "client_read n c =
     (if n = 0 then ([], c)
      else
        (let (chunk, c1) =
           (case dc_pending_output c of
              b # bs \<Rightarrow> (Some b, c\<lparr>dc_pending_output := bs\<rparr>)
            | [] \<Rightarrow> (let (b, fs) = pop_legacy_bytes (dc_pending_frames c) in (b, c\<lparr>dc_pending_frames := fs\<rparr>)))
         in case chunk of
              None \<Rightarrow> ([], c1)
            | Some b \<Rightarrow>
                (let read = min n (length b);
                     c2 = (if read < length b
                           then c1\<lparr>dc_pending_output := enqueue_daemon_legacy_output (drop read b) True (dc_pending_output c1)\<rparr>
                           else c1)
                 in (take read b, if has_pending_output_or_terminal_frames c2 then signal_pending_output c2 else c2))))"

definition read_terminal_frame :: "daemon_client \<Rightarrow> pty_terminal_frame option \<times> daemon_client" where
  "read_terminal_frame c =
     (case dc_pending_frames c of
        [] \<Rightarrow> (None, c)
      | f # fs \<Rightarrow>
          (let c1 = c\<lparr>dc_pending_frames := fs\<rparr> in
           (Some f, if dc_pending_frames c1 \<noteq> [] then signal_pending_output c1 else c1)))"

definition client_terminal_snapshot :: "u64 option \<Rightarrow> daemon_client \<Rightarrow> pty_terminal_frame list \<times> daemon_client" where
  "client_terminal_snapshot l c =
     (let fs = snd (mirror_snapshot_or_tail l (dc_mirror c)) in
      (fs, case fs of FSnapshot _ sz _ # _ \<Rightarrow> c\<lparr>dc_cached_size := sz\<rparr> | _ \<Rightarrow> c))"


section \<open>Requests\<close>

text \<open>The bookkeeping of one request: its number, and its removal when it could not be sent or timed out.\<close>

definition begin_request :: "chan \<Rightarrow> daemon_client \<Rightarrow> u64 \<times> daemon_client" where
  "begin_request tx c =
     (let i = dc_next_request_id c in
      (i, c\<lparr>dc_next_request_id := wrap_add64 i 1, dc_pending_requests := hm_insert i tx (dc_pending_requests c)\<rparr>))"

definition abandon_request :: "u64 \<Rightarrow> daemon_client \<Rightarrow> daemon_client" where
  "abandon_request i c = c\<lparr>dc_pending_requests := hm_remove i (dc_pending_requests c)\<rparr>"

datatype request_failure = RF_Response string | RF_Transport string

datatype client_action = Sent nat | Reconnected nat

text \<open>
  The retry loop, with what the attempts and the reconnections between them answer as arguments; the
  actions taken are recorded.
\<close>

fun request_attempts :: "nat \<Rightarrow> nat \<Rightarrow> (nat \<Rightarrow> request_failure + 'p) \<Rightarrow> (nat \<Rightarrow> string option) \<Rightarrow> string option \<Rightarrow>
    (string + 'p) \<times> client_action list" where
  "request_attempts attempt 0 once reconnect last_error =
     (Inl (case last_error of None \<Rightarrow> ''session supervisor request failed'' | Some e \<Rightarrow> e), [])"
| "request_attempts attempt (Suc left) once reconnect last_error =
     (case once attempt of
        Inr payload \<Rightarrow> (Inr payload, [Sent attempt])
      | Inl (RF_Response e) \<Rightarrow> (Inl e, [Sent attempt])
      | Inl (RF_Transport e) \<Rightarrow>
          if attempt < 2
          then (case reconnect attempt of
                  None \<Rightarrow> (let (r, acts) = request_attempts (attempt + 1) left once reconnect (Some e) in
                           (r, Sent attempt # Reconnected attempt # acts))
                | Some re \<Rightarrow> (Inl re, [Sent attempt, Reconnected attempt]))
          else (Inl e, [Sent attempt]))"

definition client_request :: "(nat \<Rightarrow> request_failure + 'p) \<Rightarrow> (nat \<Rightarrow> string option) \<Rightarrow> (string + 'p) \<times> client_action list" where
  "client_request once reconnect = request_attempts 0 3 once reconnect None"

section \<open>What a reader of frames sees\<close>

text \<open>
  A reader at position \<open>k\<close> of the arriving frames \<open>fs\<close> is led to position \<open>k'\<close> by what it is given: the
  next frame, or a snapshot of the mirror at a position it has not passed.
\<close>

fun leads :: "(uchar \<Rightarrow> usize option) \<Rightarrow> terminal_mirror \<Rightarrow> pty_terminal_frame list \<Rightarrow> nat \<Rightarrow> pty_terminal_frame list \<Rightarrow> nat \<Rightarrow> bool" where
  "leads w m0 fs k [] k' \<longleftrightarrow> k = k'"
| "leads w m0 fs k (g # gs) k' \<longleftrightarrow>
     (k < length fs \<and> g = fs ! k \<and> leads w m0 fs (k + 1) gs k') \<or>
     (\<exists>j m. k \<le> j \<and> j \<le> length fs \<and> mirror_run w (take j fs) m0 = Some m \<and>
        g = FSnapshot (stm_current_terminal_seq m) (stm_size m) (snapshot_bytes (stm_screen m)) \<and> leads w m0 fs j gs k')"

lemma leads_append: "leads w m0 fs k (gs @ hs) k' \<longleftrightarrow> (\<exists>j. leads w m0 fs k gs j \<and> leads w m0 fs j hs k')"
  by (induction gs arbitrary: k) (simp, simp, blast)

lemma leads_bound: "leads w m0 fs k gs k' \<Longrightarrow> k \<le> length fs \<Longrightarrow> k \<le> k' \<and> k' \<le> length fs"
proof (induction gs arbitrary: k)
  case Nil
  then show ?case by simp
next
  case (Cons g gs)
  from Cons.prems(1) consider "k < length fs" "leads w m0 fs (k + 1) gs k'"
    | j where "k \<le> j" "j \<le> length fs" "leads w m0 fs j gs k'" by auto
  then show ?case
  proof cases
    case 1
    with Cons.IH [of "k + 1"] show ?thesis by simp
  next
    case (2 j)
    with Cons.IH [of j] show ?thesis by simp
  qed
qed

lemma leads_more: "leads w m0 fs k gs k' \<Longrightarrow> leads w m0 (fs @ [f]) k gs k'"
proof (induction gs arbitrary: k)
  case Nil
  then show ?case by simp
next
  case (Cons g gs)
  from Cons.prems consider "k < length fs" "g = fs ! k" "leads w m0 fs (k + 1) gs k'"
    | j m where "k \<le> j" "j \<le> length fs" "mirror_run w (take j fs) m0 = Some m"
        "g = FSnapshot (stm_current_terminal_seq m) (stm_size m) (snapshot_bytes (stm_screen m))" "leads w m0 fs j gs k'"
    by auto
  then show ?case
  proof cases
    case 1
    with Cons.IH [of "k + 1"] show ?thesis by (simp add: nth_append)
  next
    case (2 j m)
    then have "leads w m0 (fs @ [f]) j gs k'" "j \<le> length (fs @ [f])" "mirror_run w (take j (fs @ [f])) m0 = Some m"
      using Cons.IH by simp_all
    with 2(1,4) show ?thesis by auto
  qed
qed

text \<open>Frames arrive from the socket and are taken by the reader, in any order.\<close>

datatype client_step = Arrives pty_terminal_frame | Reads

fun client_run :: "(uchar \<Rightarrow> usize option) \<Rightarrow> client_step list \<Rightarrow> daemon_client \<Rightarrow> pty_terminal_frame list \<Rightarrow>
    (daemon_client \<times> pty_terminal_frame list) option" where
  "client_run w [] c log = Some (c, log)"
| "client_run w (Arrives f # ss) c log =
     (case reader_step w (SF_TerminalFrame f) c of None \<Rightarrow> None | Some (_, _, c') \<Rightarrow> client_run w ss c' log)"
| "client_run w (Reads # ss) c log =
     (case read_terminal_frame c of (None, c') \<Rightarrow> client_run w ss c' log | (Some f, c') \<Rightarrow> client_run w ss c' (log @ [f]))"

fun arrivals :: "client_step list \<Rightarrow> pty_terminal_frame list" where
  "arrivals [] = []"
| "arrivals (Arrives f # ss) = f # arrivals ss"
| "arrivals (Reads # ss) = arrivals ss"

definition queue_within :: "pty_terminal_frame list \<Rightarrow> bool" where
  "queue_within fs \<longleftrightarrow> length fs \<le> supervisor_output_queue_max_messages \<and>
     sum_list (map terminal_frame_retained_bytes fs) \<le> supervisor_output_queue_max_bytes"

lemma queue_limits: "1 \<le> supervisor_output_queue_max_messages" "supervisor_output_queue_max_bytes < u64_max"
  "1 \<le> supervisor_output_queue_max_bytes"
  by (simp_all add: supervisor_output_queue_max_messages_def supervisor_output_queue_max_bytes_def max_supervisor_frame_bytes_def u64_max_def)

lemma sat_add64_le_iff: "n < u64_max \<Longrightarrow> sat_add64 a b \<le> n \<longleftrightarrow> a + b \<le> n"
  by (auto simp: sat_add64_def)

lemma enqueue_frame_cases:
  assumes "queue_within pending"
  obtains "enqueue_daemon_terminal_frame m f pending = pending @ [f]" "queue_within (pending @ [f])"
  | "enqueue_daemon_terminal_frame m f pending =
      filter (\<lambda>s. terminal_frame_retained_bytes s \<le> supervisor_output_queue_max_bytes)
        [FSnapshot (stm_current_terminal_seq m) (stm_size m) (snapshot_bytes (stm_screen m))]"
proof (cases "length pending < supervisor_output_queue_max_messages \<and>
    sat_add64 (sum_list (map terminal_frame_retained_bytes pending)) (terminal_frame_retained_bytes f) \<le> supervisor_output_queue_max_bytes")
  case True
  with that(1) assms sat_add64_le_iff [OF queue_limits(2)] show ?thesis
    by (simp add: enqueue_daemon_terminal_frame_def queue_within_def)
next
  case False
  with that(2) show ?thesis by (simp add: enqueue_daemon_terminal_frame_def mirror_snapshot_or_tail_def Let_def)
qed

text \<open>The frames a supervisor numbers after what the mirror has.\<close>

definition consecutive :: "u64 \<Rightarrow> pty_terminal_frame list \<Rightarrow> bool" where
  "consecutive n fs \<longleftrightarrow> (\<forall>k < length fs. frame_terminal_seq (fs ! k) = Some (n + k + 1))"

lemma consecutive_Cons: "consecutive n (f # fs) \<longleftrightarrow> frame_terminal_seq f = Some (n + 1) \<and> consecutive (n + 1) fs"
  by (auto simp: consecutive_def nth_Cons less_Suc_eq_0_disj split: nat.splits)

lemma apply_numbered_frame:
  assumes "frame_terminal_seq f = Some (stm_current_terminal_seq m + 1)" "wf_screen (stm_screen m)"
  shows "\<exists>m'. apply_frame w f m = Some (True, m') \<and> stm_current_terminal_seq m' = stm_current_terminal_seq m + 1 \<and>
    wf_screen (stm_screen m')"
proof -
  have push: "stm_current_terminal_seq (mirror_push_journal e m1) = stm_current_terminal_seq m1"
    "stm_screen (mirror_push_journal e m1) = stm_screen m1" for e m1
    by (simp_all add: mirror_push_journal_def Let_def)
  show ?thesis
  proof (cases f)
    case (FOutput n data)
    obtain scr where "screen_apply w data (stm_screen m) = Some scr" "wf_screen scr"
      using screen_apply_ok [OF assms(2), of w data] by (auto simp: runs_ok_def)
    with FOutput assms(1) show ?thesis by (simp add: push)
  qed (use assms in \<open>auto simp: push wf_screen_resize\<close>)
qed

lemma mirror_run_snoc: "mirror_run w (fs @ [f]) m0 = Option.bind (mirror_run w fs m0) (\<lambda>m. map_option snd (apply_frame w f m))"
  by (cases "for_each (\<lambda>f m. map_option snd (apply_frame w f m)) fs m0")
    (simp_all add: mirror_run_def for_each_append split: option.splits)

lemma reader_step_live:
  assumes "dc_bootstrap c = None" "apply_frame w f (dc_mirror c) = Some (True, m)"
  shows "\<exists>c1. reader_step w (SF_TerminalFrame f) c = Some (True, [], c1) \<and> dc_mirror c1 = m \<and> dc_bootstrap c1 = None \<and>
    dc_pending_frames c1 = enqueue_daemon_terminal_frame m f (dc_pending_frames c)"
  using assms
  by (cases f) (simp_all add: apply_and_enqueue_daemon_terminal_frame_def signal_pending_output_def del: apply_frame.simps)

lemma arrival_leads:
  assumes "queue_within pending" "leads w m0 fs 0 (log @ pending) (length fs)" "mirror_run w (fs @ [f]) m0 = Some m"
    and "length (snapshot_bytes (stm_screen m)) \<le> supervisor_output_queue_max_bytes"
  shows "queue_within (enqueue_daemon_terminal_frame m f pending) \<and>
    leads w m0 (fs @ [f]) 0 (log @ enqueue_daemon_terminal_frame m f pending) (length (fs @ [f]))"
proof -
  from leads_more [OF assms(2), of f] obtain k where k: "leads w m0 (fs @ [f]) 0 log k" "leads w m0 (fs @ [f]) k pending (length fs)"
    by (auto simp: leads_append)
  from assms(1) show ?thesis
  proof (rule enqueue_frame_cases [where m = m and f = f])
    assume e: "enqueue_daemon_terminal_frame m f pending = pending @ [f]" and "queue_within (pending @ [f])"
    moreover have "leads w m0 (fs @ [f]) (length fs) [f] (length (fs @ [f]))" by simp
    ultimately show ?thesis using k unfolding e leads_append by blast
  next
    let ?s = "FSnapshot (stm_current_terminal_seq m) (stm_size m) (snapshot_bytes (stm_screen m))"
    assume "enqueue_daemon_terminal_frame m f pending =
      filter (\<lambda>s. terminal_frame_retained_bytes s \<le> supervisor_output_queue_max_bytes) [?s]"
    then have e: "enqueue_daemon_terminal_frame m f pending = [?s]"
      using assms(4) by (simp add: terminal_frame_retained_bytes_def)
    have "k \<le> length (fs @ [f])" using leads_bound [OF k(1)] by simp
    moreover have "mirror_run w (take (length (fs @ [f])) (fs @ [f])) m0 = Some m" using assms(3) by simp
    ultimately have "leads w m0 (fs @ [f]) k [?s] (length (fs @ [f]))"
      unfolding leads.simps by blast
    moreover have "queue_within [?s]" using assms(4) queue_limits(1) by (simp add: queue_within_def terminal_frame_retained_bytes_def)
    ultimately show ?thesis using k(1) unfolding leads_append e by blast
  qed
qed

lemma client_run_leads:
  assumes "mirror_run w fs0 m0 = Some (dc_mirror c)" "dc_bootstrap c = None" "queue_within (dc_pending_frames c)"
    and "leads w m0 fs0 0 (log @ dc_pending_frames c) (length fs0)"
    and "wf_screen (stm_screen (dc_mirror c))" "consecutive (stm_current_terminal_seq (dc_mirror c)) (arrivals ss)"
    and fits: "\<And>j m. mirror_run w (take j (fs0 @ arrivals ss)) m0 = Some m \<Longrightarrow>
      length (snapshot_bytes (stm_screen m)) \<le> supervisor_output_queue_max_bytes"
  shows "\<exists>c' log'. client_run w ss c log = Some (c', log') \<and> mirror_run w (fs0 @ arrivals ss) m0 = Some (dc_mirror c') \<and>
    queue_within (dc_pending_frames c') \<and> leads w m0 (fs0 @ arrivals ss) 0 (log' @ dc_pending_frames c') (length (fs0 @ arrivals ss))"
  using assms
proof (induction ss arbitrary: c log fs0)
  case Nil
  then show ?case by simp
next
  case (Cons s ss)
  show ?case
  proof (cases s)
    case Reads
    show ?thesis
    proof (cases "dc_pending_frames c")
      case Nil
      with Cons.IH [OF Cons.prems(1-5)] Cons.prems(6,7) Reads show ?thesis by (simp add: read_terminal_frame_def)
    next
      case (Cons g gs)
      define c1 where "c1 = snd (read_terminal_frame c)"
      have c1: "read_terminal_frame c = (Some g, c1)" "dc_mirror c1 = dc_mirror c" "dc_bootstrap c1 = None" "dc_pending_frames c1 = gs"
        using Cons Cons.prems(2) by (simp_all add: c1_def read_terminal_frame_def signal_pending_output_def Let_def)
      have "queue_within (dc_pending_frames c1)" "leads w m0 fs0 0 ((log @ [g]) @ dc_pending_frames c1) (length fs0)"
        using Cons.prems(3,4) Cons c1(4) by (simp_all add: queue_within_def)
      from Cons.IH [OF _ c1(3) this, unfolded c1(2), OF Cons.prems(1,5)] Cons.prems(6,7) Reads c1(1) show ?thesis by simp
    qed
  next
    case (Arrives f)
    let ?m = "dc_mirror c"
    have f: "frame_terminal_seq f = Some (stm_current_terminal_seq ?m + 1)"
      and rest: "consecutive (stm_current_terminal_seq ?m + 1) (arrivals ss)"
      using Cons.prems(6) Arrives by (simp_all add: consecutive_Cons)
    from apply_numbered_frame [OF f Cons.prems(5), of w] obtain m where
      m: "apply_frame w f ?m = Some (True, m)" "stm_current_terminal_seq m = stm_current_terminal_seq ?m + 1" "wf_screen (stm_screen m)"
      by blast
    from reader_step_live [OF Cons.prems(2) m(1)] obtain c1 where
      c1: "reader_step w (SF_TerminalFrame f) c = Some (True, [], c1)" "dc_mirror c1 = m" "dc_bootstrap c1 = None"
      "dc_pending_frames c1 = enqueue_daemon_terminal_frame m f (dc_pending_frames c)" by blast
    have run: "mirror_run w (fs0 @ [f]) m0 = Some m" using Cons.prems(1) m(1) by (simp add: mirror_run_snoc)
    have "length (snapshot_bytes (stm_screen m)) \<le> supervisor_output_queue_max_bytes"
      using Cons.prems(7) [of "length fs0 + 1" m] run Arrives by simp
    from arrival_leads [OF Cons.prems(3,4) run this, folded c1(4)]
    have "queue_within (dc_pending_frames c1)" "leads w m0 (fs0 @ [f]) 0 (log @ dc_pending_frames c1) (length (fs0 @ [f]))"
      by simp_all
    from Cons.IH [OF _ c1(3) this, unfolded c1(2), OF run m(3)] rest m(2) Cons.prems(7) Arrives c1(1) show ?thesis by simp
  qed
qed

text \<open>
  C35. The daemon's frame queue loses nothing silently. While the supervisor's consecutive frames arrive
  and a client takes frames, in any order, the daemon does not fail and the queue never exceeds 128
  frames or 8 MiB. What the client has taken followed by what is queued leads, without a gap, from where
  the client started to the newest frame: each item is the next frame, or a snapshot printed from the
  mirror at a position the client has not passed; the mirror has applied every frame. (Provided the
  mirror's snapshots fit the 8 MiB budget: a larger one is dropped from the queue.)
\<close>

theorem daemon_frame_queue_is_gapless:
  assumes "dc_bootstrap c = None" "dc_pending_frames c = []" "wf_screen (stm_screen (dc_mirror c))"
    and "consecutive (stm_current_terminal_seq (dc_mirror c)) (arrivals ss)"
    and "\<And>j m. mirror_run w (take j (arrivals ss)) (dc_mirror c) = Some m \<Longrightarrow> length (snapshot_bytes (stm_screen m)) \<le> 8388608"
  shows "\<exists>c' log. client_run w ss c [] = Some (c', log) \<and>
    leads w (dc_mirror c) (arrivals ss) 0 (log @ dc_pending_frames c') (length (arrivals ss)) \<and>
    mirror_run w (arrivals ss) (dc_mirror c) = Some (dc_mirror c') \<and>
    length (dc_pending_frames c') \<le> 128 \<and> sum_list (map terminal_frame_retained_bytes (dc_pending_frames c')) \<le> 8388608"
proof -
  have "mirror_run w [] (dc_mirror c) = Some (dc_mirror c)" by (simp add: mirror_run_def)
  moreover have "queue_within (dc_pending_frames c)" by (simp add: queue_within_def assms(2))
  moreover have "leads w (dc_mirror c) [] 0 ([] @ dc_pending_frames c) (length ([] :: pty_terminal_frame list))" by (simp add: assms(2))
  moreover have "length (snapshot_bytes (stm_screen m)) \<le> supervisor_output_queue_max_bytes"
    if "mirror_run w (take j ([] @ arrivals ss)) (dc_mirror c) = Some m" for j m
    using assms(5) [of j m] that by (simp add: supervisor_output_queue_max_bytes_def max_supervisor_frame_bytes_def)
  ultimately obtain c' log where "client_run w ss c [] = Some (c', log)" "mirror_run w (arrivals ss) (dc_mirror c) = Some (dc_mirror c')"
    "queue_within (dc_pending_frames c')" "leads w (dc_mirror c) (arrivals ss) 0 (log @ dc_pending_frames c') (length (arrivals ss))"
    using client_run_leads [of w "[]" "dc_mirror c" c "[]" ss] assms(1,3,4) by auto
  then show ?thesis
    by (auto simp: queue_within_def supervisor_output_queue_max_messages_def supervisor_output_queue_max_bytes_def
        max_supervisor_frame_bytes_def)
qed

theorem daemon_frame_queue_is_gapless_witness:
  "\<exists>c' log. client_run (\<lambda>_. Some 1) [Arrives (FExit 1 None), Reads]
      ((client_new \<lparr>ps_rows = 2, ps_cols = 4, ps_pixel_width = 0, ps_pixel_height = 0\<rparr>)\<lparr>dc_bootstrap := None\<rparr>) [] = Some (c', log) \<and>
    length (dc_pending_frames c') \<le> 128"
proof -
  let ?c = "(client_new \<lparr>ps_rows = 2, ps_cols = 4, ps_pixel_width = 0, ps_pixel_height = 0\<rparr>)\<lparr>dc_bootstrap := None\<rparr>"
  let ?ss = "[Arrives (FExit 1 None), Reads]"
  have m: "dc_mirror ?c = mirror_new \<lparr>ps_rows = 2, ps_cols = 4, ps_pixel_width = 0, ps_pixel_height = 0\<rparr>"
    by (simp add: client_new_def)
  have empty: "snapshot_bytes (screen_new 2 4) = []" by code_simp
  have "stm_screen m = screen_new 2 4" if "mirror_run (\<lambda>_. Some 1) (take j (arrivals ?ss)) (dc_mirror ?c) = Some m" for j m
    using that by (cases j) (auto simp: m mirror_run_def mirror_new_def mirror_push_journal_def Let_def)
  then have fits: "length (snapshot_bytes (stm_screen m)) \<le> 8388608"
    if "mirror_run (\<lambda>_. Some 1) (take j (arrivals ?ss)) (dc_mirror ?c) = Some m" for j m
    using that empty by simp
  have "dc_bootstrap ?c = None" "dc_pending_frames ?c = []" "wf_screen (stm_screen (dc_mirror ?c))"
    "consecutive (stm_current_terminal_seq (dc_mirror ?c)) (arrivals ?ss)"
    by (simp_all add: client_new_def mirror_new_def wf_screen_new consecutive_def)
  from daemon_frame_queue_is_gapless [OF this, where w = "\<lambda>_. Some 1"] fits show ?thesis by blast
qed


section \<open>Legacy reads and retries\<close>

definition legacy_bytes :: "daemon_client \<Rightarrow> u8 list" where
  "legacy_bytes c = concat (dc_pending_output c) @ concat (map (\<lambda>f. case bytes_for_legacy_read f of None \<Rightarrow> [] | Some b \<Rightarrow> b) (dc_pending_frames c))"

lemma pop_legacy_bytes_spec:
  "concat (map (\<lambda>f. case bytes_for_legacy_read f of None \<Rightarrow> [] | Some b \<Rightarrow> b) fs) =
     (case fst (pop_legacy_bytes fs) of None \<Rightarrow> [] | Some b \<Rightarrow> b) @
     concat (map (\<lambda>f. case bytes_for_legacy_read f of None \<Rightarrow> [] | Some b \<Rightarrow> b) (snd (pop_legacy_bytes fs)))"
  "fst (pop_legacy_bytes fs) = Some b \<Longrightarrow> length b \<le> sum_list (map terminal_frame_retained_bytes fs)"
  "fst (pop_legacy_bytes fs) = None \<Longrightarrow> snd (pop_legacy_bytes fs) = []"
  by (induction fs) (auto simp: terminal_frame_retained_bytes_def split: option.splits)

lemma enqueue_front_fits:
  assumes "length pending < supervisor_output_queue_max_messages"
    "sum_list (map length pending) + length b \<le> supervisor_output_queue_max_bytes"
  shows "enqueue_daemon_legacy_output b True pending = b # pending"
proof -
  have "sat_add64 (sum_list (map length pending)) (length b) \<le> supervisor_output_queue_max_bytes"
    using assms(2) by (simp add: sat_add64_le_iff [OF queue_limits(2)])
  with assms show ?thesis
    by (simp add: enqueue_daemon_legacy_output_def make_room.simps [of True "length b" pending] not_less not_le)
qed

text \<open>Reading in pieces of any size gives the pending bytes in order: the rest of a chunk is put back.\<close>

lemma legacy_read_keeps_order:
  assumes "length (dc_pending_output c) \<le> supervisor_output_queue_max_messages"
    and "sum_list (map length (dc_pending_output c)) \<le> supervisor_output_queue_max_bytes" "queue_within (dc_pending_frames c)"
    and "client_read n c = (bs, c')" "0 < n"
  shows "bs @ legacy_bytes c' = legacy_bytes c" "length bs \<le> n"
proof -
  show "length bs \<le> n" using assms(4,5)
    by (auto simp: client_read_def Let_def split: list.splits option.splits prod.splits if_splits)
  show "bs @ legacy_bytes c' = legacy_bytes c"
  proof (cases "dc_pending_output c")
    case (Cons b rest)
    have "enqueue_daemon_legacy_output (drop n b) True rest = drop n b # rest"
      using assms(1,2) Cons by (intro enqueue_front_fits) auto
    with Cons assms(4,5) show ?thesis
      by (auto simp: client_read_def legacy_bytes_def signal_pending_output_def min_def Let_def split: if_splits)
  next
    case Nil
    have "enqueue_daemon_legacy_output (drop n b) True [] = [drop n b]" if "fst (pop_legacy_bytes (dc_pending_frames c)) = Some b" for b
      using assms(3) pop_legacy_bytes_spec(2) [OF that] queue_limits(1) by (intro enqueue_front_fits) (auto simp: queue_within_def)
    with Nil assms(4,5) pop_legacy_bytes_spec(1,3) [of "dc_pending_frames c"] show ?thesis
      by (auto simp: client_read_def legacy_bytes_def signal_pending_output_def min_def Let_def case_prod_beta
          split: if_splits option.splits)
  qed
qed

text \<open>A refusal by the supervisor ends a request: it is not sent again and no reconnection follows it.\<close>

lemma refusal_is_not_retried:
  assumes "client_request once reconnect = (r, acts)" "once k = Inl (RF_Response e)" "Sent k \<in> set acts"
  shows "r = Inl e \<and> last acts = Sent k \<and> length acts \<le> 5"
  using assms
  by (auto simp: client_request_def eval_nat_numeral split: sum.splits request_failure.splits option.splits if_splits prod.splits)

section \<open>Installing a reply\<close>

lemma sort_consecutive: "consecutive n fs \<Longrightarrow> sort_key seq_key fs = fs"
proof (induction fs arbitrary: n)
  case Nil
  then show ?case by simp
next
  case (Cons f fs)
  then have "seq_key f = n + 1" "consecutive (n + 1) fs" by (simp_all add: consecutive_Cons seq_key_def)
  moreover have "n + 1 < seq_key g" if "g \<in> set fs" for g
    using that \<open>consecutive (n + 1) fs\<close> by (auto simp: consecutive_def in_set_conv_nth seq_key_def)
  ultimately show ?case using Cons.IH by (cases fs) (auto simp: less_imp_le)
qed

lemma dedup_consecutive: "consecutive n fs \<Longrightarrow> dedup_by_seq fs = fs"
proof (induction fs arbitrary: n rule: dedup_by_seq.induct)
  case (1 f g fs)
  then have "frame_terminal_seq f \<noteq> frame_terminal_seq g" "consecutive (n + 1) (g # fs)" by (simp_all add: consecutive_Cons)
  with 1(2) show ?case by simp
qed simp_all

lemma apply_all_append: "apply_all w (fs @ gs) pc = Option.bind (apply_all w fs pc) (apply_all w gs)"
proof (induction fs arbitrary: pc)
  case Nil
  then show ?case by (cases pc) simp
next
  case (Cons f fs)
  then show ?case by (cases pc) (auto split: option.splits)
qed

text \<open>Buffered frames that the reply covers are passed over; the others follow the snapshot.\<close>

lemma apply_all_old:
  assumes "consecutive n fs" "n + length fs \<le> stm_current_terminal_seq (dc_mirror c)"
  shows "apply_all w fs (p, c) = Some (p, c)"
  using assms
proof (induction fs arbitrary: n)
  case Nil
  then show ?case by simp
next
  case (Cons f fs)
  then have "apply_frame w f (dc_mirror c) = Some (False, dc_mirror c)" by (cases f) (simp_all add: consecutive_Cons)
  with Cons.IH [of "n + 1"] Cons.prems show ?case by (simp add: apply_and_enqueue_daemon_terminal_frame_def consecutive_Cons)
qed

lemma apply_all_new:
  assumes "consecutive (stm_current_terminal_seq (dc_mirror c)) fs" "wf_screen (stm_screen (dc_mirror c))"
    "queue_within (dc_pending_frames c @ fs)"
  shows "\<exists>c'. apply_all w fs (p, c) = Some (p \<or> fs \<noteq> [], c') \<and> dc_pending_frames c' = dc_pending_frames c @ fs \<and>
    stm_current_terminal_seq (dc_mirror c') = stm_current_terminal_seq (dc_mirror c) + length fs \<and>
    dc_controller_identity c' = dc_controller_identity c"
  using assms
proof (induction fs arbitrary: c p)
  case Nil
  then show ?case by simp
next
  case (Cons f fs)
  have f: "frame_terminal_seq f = Some (stm_current_terminal_seq (dc_mirror c) + 1)" "consecutive (stm_current_terminal_seq (dc_mirror c) + 1) fs"
    using Cons.prems(1) by (simp_all add: consecutive_Cons)
  from apply_numbered_frame [OF f(1) Cons.prems(2), of w] obtain m where
    m: "apply_frame w f (dc_mirror c) = Some (True, m)" "stm_current_terminal_seq m = stm_current_terminal_seq (dc_mirror c) + 1"
      "wf_screen (stm_screen m)" by blast
  have e: "enqueue_daemon_terminal_frame m f (dc_pending_frames c) = dc_pending_frames c @ [f]"
    using Cons.prems(3) by (auto simp: enqueue_daemon_terminal_frame_def queue_within_def sat_add64_le_iff [OF queue_limits(2)])
  let ?c = "c\<lparr>dc_mirror := m, dc_pending_frames := dc_pending_frames c @ [f]\<rparr>"
  have "queue_within (dc_pending_frames ?c @ fs)" "consecutive (stm_current_terminal_seq (dc_mirror ?c)) fs" "wf_screen (stm_screen (dc_mirror ?c))"
    using Cons.prems(3) f(2) m(2,3) by simp_all
  from Cons.IH [OF this(2,3,1), of True] m e show ?case
    by (auto simp: apply_and_enqueue_daemon_terminal_frame_def simp del: apply_frame.simps)
qed

text \<open>
  Installing an attach reply. The daemon buffers live frames while it waits for the reply to its attach.
  Installing a reply that carries a snapshot at \<open>base\<close> leaves the client with exactly that snapshot
  followed by the buffered frames after \<open>base\<close>, each once and in order, whatever frames before \<open>base\<close> were
  buffered or still queued; the mirror stands at the newest of them, later frames are no longer
  buffered, and the connection knows its controller number. (The frames fit the queue, and the reply is
  not older than the mirror.)
\<close>

lemma attach_reply_is_installed_once:
  assumes "sap_frames sync = [FSnapshot base sz data]" "sap_base_seq sync = base" "ssp_retained_output (sap_snapshot sync) = []"
    and "dc_bootstrap c = Some buf" "filter (newer_than base) (dc_pending_frames c) = []"
    and "stm_current_terminal_seq (dc_mirror c) \<le> base" "consecutive n buf" "n \<le> base" "base \<le> n + length buf"
    and "length buf < 128" "length data + sum_list (map terminal_frame_retained_bytes buf) \<le> 8388608"
  shows "\<exists>c'. seed_attach_sync w sync c = Some c' \<and> dc_bootstrap c' = None \<and>
    dc_pending_frames c' = FSnapshot base sz data # drop (base - n) buf \<and>
    stm_current_terminal_seq (dc_mirror c') = n + length buf \<and>
    dc_controller_identity c' = Some \<lparr>ci_id = sap_controller_id sync, ci_connection_id = sap_controller_connection_id sync\<rparr>"
proof -
  define old new where "old = take (base - n) buf" and "new = drop (base - n) buf"
  have buf: "buf = old @ new" "length old = base - n" using assms(8,9) by (simp_all add: old_def new_def)
  have cons: "consecutive n old" "consecutive base new"
    using assms(7,8,9) by (auto simp: consecutive_def old_def new_def)
  define c2 where "c2 = c\<lparr>dc_controller_identity := Some \<lparr>ci_id = sap_controller_id sync, ci_connection_id = sap_controller_connection_id sync\<rparr>,
      dc_exited := ssp_exited (sap_snapshot sync), dc_cached_size := ssp_size (sap_snapshot sync),
      dc_cached_process_id := ssp_process_id (sap_snapshot sync), dc_pending_frames := []\<rparr>"
  obtain scr where scr: "screen_apply w data (screen_new (ps_rows sz) (ps_cols sz)) = Some scr" "wf_screen scr"
    using screen_apply_ok [OF wf_screen_new, of w data] by (auto simp: runs_ok_def)
  define m where "m = (dc_mirror c)\<lparr>stm_current_terminal_seq := base, stm_journal_base_seq := sat_add64 base 1,
                 stm_journal := [], stm_size := sz, stm_screen := scr\<rparr>"
  have snap: "apply_frame w (FSnapshot base sz data) (dc_mirror c2) = Some (True, m)"
    using assms(6) scr by (simp add: c2_def reset_from_snapshot_def m_def)
  define c4 where "c4 = c2\<lparr>dc_mirror := m, dc_pending_frames := [FSnapshot base sz data]\<rparr>"
  have room: "queue_within ([FSnapshot base sz data] @ new)"
  proof -
    have "sum_list (map terminal_frame_retained_bytes buf) = sum_list (map terminal_frame_retained_bytes old) + sum_list (map terminal_frame_retained_bytes new)"
      "length buf = length old + length new" by (simp_all add: buf(1))
    then show ?thesis using assms(10,11)
      by (simp add: queue_within_def terminal_frame_retained_bytes_def supervisor_output_queue_max_messages_def
          supervisor_output_queue_max_bytes_def max_supervisor_frame_bytes_def)
  qed
  then have "enqueue_daemon_terminal_frame m (FSnapshot base sz data) [] = [FSnapshot base sz data]"
    using queue_limits(1) by (simp add: enqueue_daemon_terminal_frame_def queue_within_def sat_add64_le_iff [OF queue_limits(2)])
  then have first: "apply_all w (sap_frames sync) (False, c2) = Some (True, c4)"
    using snap by (simp add: assms(1) apply_and_enqueue_daemon_terminal_frame_def c4_def c2_def del: apply_frame.simps)
  have live: "dedup_by_seq (sort_key seq_key (filter (newer_than (sap_base_seq sync)) (dc_pending_frames c) @ buf)) = old @ new"
    using assms(2,5,7) by (simp add: sort_consecutive dedup_consecutive buf(1) [symmetric])
  have "apply_all w old (True, c4) = Some (True, c4)"
    using apply_all_old [OF cons(1), of c4 w True] buf(2) assms(8) by (simp add: c4_def m_def)
  moreover obtain c5 where c5: "apply_all w new (True, c4) = Some (True, c5)" "dc_pending_frames c5 = [FSnapshot base sz data] @ new"
    "stm_current_terminal_seq (dc_mirror c5) = base + length new" "dc_controller_identity c5 = dc_controller_identity c2"
    using apply_all_new [of c4 new w True] cons(2) scr(2) room by (auto simp: c4_def m_def)
  ultimately have second: "apply_all w (old @ new) (True, c4) = Some (True, c5)" by (simp add: apply_all_append)
  have "seed_attach_sync w sync c = Some (signal_pending_output (c5\<lparr>dc_bootstrap := None\<rparr>))"
    unfolding seed_attach_sync_def Let_def using assms(1,3,4) first second live by (simp add: c2_def del: apply_all.simps)
  moreover have "base + length new = n + length buf" using buf assms(8,9) by simp
  ultimately show ?thesis using c5(2-4) by (simp add: signal_pending_output_def c2_def new_def)
qed

text \<open>A client that buffered the events 1 to 3 before the reply with the snapshot at 2 arrived.\<close>

end
