(* ===== verification/Spec2Isabelle.thy ===== *)
theory Spec2Isabelle
  imports Session Relay_Order Credentials Upload_Complete Session_Confine Session_Download Session_Git Activity_Detector Runtime_Life State_Recovery Ownership_Restart Relay_Flow Relay_Gate Installer_Secrets Installer_Helper Upgrade_Verified Supervisor_Control Supervisor_Wire Supervisor_Client
begin

text \<open>
  Verification of termd: a daemon that keeps terminal sessions alive on a server, the session
  supervisors that own the PTYs, and the relay through which clients reach the daemon.

  \<^bold>\<open>The program.\<close> A session is a PTY owned by its own supervisor process. The supervisor feeds the
  output to a terminal emulator, numbers it in a journal and broadcasts it to the daemon and to
  attached terminals. The daemon keeps a mirror of that journal, a catalogue of sessions with the
  devices attached to them, and decides by pairing and challenge-response which devices may use it.
  Clients connect directly or through the relay, which pairs each client with a data pipe of the
  daemon and forwards frames. Paths below are relative to \<open>src/\<close>.

  \<^bold>\<open>Theories, in the order of their dependencies.\<close>
  \<^item> \<open>Termd_Prelude\<close>: machine integers as \<open>nat\<close> with saturation and wrap-around written out, hash maps as
    association lists with unique keys, loops over lists that may fail, decimal printing, constant-time
    comparison. \<open>Text_Lib\<close>: text, UTF-8 and number parsing of the standard library. \<open>Paths_FS\<close>: paths and a Unix
    file system with links, inodes and denied names.
  \<^item> \<open>Screen_Style\<close>, \<open>Screen_Model\<close>: the terminal emulator (\<open>termd/src/net/screen.rs\<close>): styles and SGR, the
    buffer, the escape interpreter byte by byte, scrolling, alternate screen, resize. Every index and
    subtraction that could panic is an \<open>option\<close>; the width table of the \<open>unicode_width\<close> crate is the argument
    \<open>w\<close>. \<open>Screen_Inv\<close> and \<open>Screen_Frame\<close> show that no input panics, that memory is bounded, and that the
    alternate screen cannot damage the normal one.
  \<^item> \<open>Screen_Snapshot\<close>, \<open>Screen_Restore\<close>: the printer of snapshots, and that a fresh emulator fed with a
    snapshot shows the same screen; the two situations in which it does not are theorems as well.
  \<^item> \<open>Terminal_Journal\<close>: the supervisor's journal and the daemon's mirror
    (\<open>termd/src/pty/supervisor/terminal_journal.rs\<close>). The locale there states the contract of an attach
    reply once; the cache and the mirror are its two interpretations.
  \<^item> \<open>Supervisor_State\<close>, \<open>Supervisor_Handler\<close>: the supervisor itself (\<open>termd/src/pty/supervisor.rs\<close>): output
    queues with their budgets, \<open>SupervisorState\<close> with its controllers, every request of
    \<open>handle_supervisor_connection\<close>, terminal connections, output and exit. \<open>Supervisor_Delivery\<close> shows what
    a broadcast does and that an attached controller misses nothing. \<open>Supervisor_Control\<close> has the step
    relation of a supervisor with any number of connections, who is in control, what cleanup
    authentication is worth, and two defects of the resume protocol.
  \<^item> \<open>Supervisor_Wire\<close>: length-prefixed frames and the start-up grant of the same file.
    \<open>Supervisor_Client\<close>: the daemon's end of the connection: pending queues, reader loop, installing an
    attach reply, reads, retries.
  \<^item> \<open>Session\<close>: \<open>SessionManager\<close> (\<open>termd/src/session/mod.rs\<close>) with an abstract specification of shared control
    and its refinement.
  \<^item> \<open>Runtime\<close>, \<open>Runtime_Inv\<close>, \<open>Runtime_Life\<close>: the catalogue of running sessions (\<open>termd/src/runtime/mod.rs\<close>): creation,
    attach and detach, close with confirmation, restore after a restart, and its invariant.
  \<^item> \<open>Activity_Parser\<close>, \<open>Activity_Detector\<close>: the detector of coding agents in the output (\<open>termd/src/pty/activity.rs\<close>):
    the incremental escape parser and the life cycle it reports, with a specification automaton.
  \<^item> \<open>State_Store\<close>, \<open>State_Recovery\<close>: the database (\<open>termd/src/state/mod.rs\<close>): rows, merging of snapshots, migration
    and loading; what is saved is loaded, and a closed session stays closed while its row is there.
  \<^item> \<open>Session_Ownership\<close>, \<open>Ownership_Ledger\<close>, \<open>Ownership_Life\<close>, \<open>Ownership_Restart\<close>: the ledger of supervisors
    (\<open>termd/src/session_ownership.rs\<close>): create, close, recover and the reconciler as transactions that may be
    refused; no started supervisor is forgotten, and an acknowledged session survives a restart.
  \<^item> \<open>One_Time\<close>, \<open>Auth_Trust\<close>, \<open>Auth_Pairing\<close>, \<open>Auth_Challenge\<close>, \<open>Auth_Service\<close>: \<open>termd/src/auth/mod.rs\<close>. The locale
    \<open>one_time\<close> is the contract of a credential that may be granted once per issue; pairing tokens,
    challenges and download grants interpret it. The locale \<open>trusted_device_store\<close> is the contract of the
    trust store. \<open>Credentials\<close>: signed tickets, certificates and access tokens (\<open>auth/credentials.rs\<close>) and the
    methods of \<open>net/protocol.rs\<close> that hand them out.
  \<^item> \<open>Protocol_Base\<close>, \<open>Upload_Ranges\<close>, \<open>Upload\<close>, \<open>Upload_Exact\<close>, \<open>Upload_Complete\<close>: chunked uploads of \<open>net/protocol.rs\<close>: ranges,
    writes, quotas and completion; an upload is exact in whatever order its pieces arrive.
    \<open>Session_Files\<close>, \<open>Session_Confine\<close>, \<open>Session_Download\<close>, \<open>Session_Git\<close>: file requests of a session and their
    confinement to its root, download grants, git summaries.
  \<^item> \<open>Relay_Registry\<close>, \<open>Relay_Inv\<close>, \<open>Relay_Routing\<close>, \<open>Relay_Order\<close>: the routing table of the relay
    (\<open>termrelay/src/ws/registry.rs\<close>), its invariant under every interleaving of critical sections, and
    the order of frames. \<open>Relay_Pump\<close>, \<open>Relay_Flow\<close>: the queues and the writer of a connection
    (\<open>termrelay/src/ws/pipe_pump.rs\<close>), in which atomic operations, waiters, the writer and closing interleave
    one by one; for calls that are not cancelled the byte budget is exact and every call returns; the writer keeps order
    and takes turns.
    \<open>Relay_Admission\<close>, \<open>Relay_Gate\<close>: registration of daemons, the registry file, admission of routes and
    verification of credentials (\<open>termrelay/src/ws.rs\<close>, \<open>args.rs\<close>, \<open>main.rs\<close>, \<open>ws/route_binder.rs\<close>).
  \<^item> \<open>Installer\<close>, \<open>Installer_Secrets\<close>, \<open>Installer_Helper\<close>, \<open>Upgrade\<close>, \<open>Upgrade_Verified\<close>: the installer
    (\<open>terminstall/src/lib.rs\<close>): options, plan and execution of the embedded script, the entry of its helper, and
    upgrades from a release; sensitive values stay out of sight, nothing runs without consent, and only a
    verified binary is installed.
  \<^item> This theory: the properties that need the emulator and the journal together.

  \<^bold>\<open>How code becomes definitions.\<close> A structure is a record with the source's fields, an enumeration a
  datatype with its variants, a method one definition that takes the state and returns it updated.
  Errors are values; a panic is \<open>None\<close>. A lock is a critical section: one definition per section, so that
  interleavings can be stated (the relay registry, the supervisor's check and act). Sockets, clocks,
  randomness, hashes, signatures, base64, JSON, URLs and the answers of the operating system are arguments
  of the definitions that use them.

  \<^bold>\<open>Bounds.\<close> Counters are 64 bits wide: sequence numbers and controller numbers are treated up to \<open>2^64 - 2\<close>,
  which the properties state as hypotheses. The random draws of tokens and challenges are lists; the
  loops that redraw on a collision consume them. The relay's flush loop runs with fuel 3, and it is
  proved that it never needs more.

  \<^bold>\<open>What does not hold.\<close> Where the code departs from what it means to do, the development proves the
  departure: a snapshot in origin mode moves the cursor; a snapshot after a top-anchored region scroll
  shows a line of the scrollback; a request stamped ahead of the clock outlives its nonce; a client
  frame can be stranded in the relay's buffer by a race with pairing; a replayed resume commit
  takes control from a newer controller; output during a resume handshake is lost; a used pair ticket
  is accepted again after a restart; a long diff cut inside a character panics; the ledger row of a create
  that failed early is never removed; a late snapshot brings a closed session back; a registration that
  the relay refuses can take effect after its restart, or at once if it carries a key; a send that is cancelled
  while it waits for a slot keeps its bytes reserved; a replaced daemon token gets through if its route is
  registered between two critical sections.

  \<^bold>\<open>Not modelled.\<close> Spawning and supervising processes, sockets, PTY devices and the file lock; the asynchronous
  tasks around the state machines (timers, reconnection); the HTTP and WebSocket servers of daemon and
  relay with the HTTP tunnel; the dispatch of messages in \<open>net/protocol.rs\<close> to the methods modelled here; web
  push and client history; configuration and entry points; the helper operations of the installer script;
  the command line client and the web front end. They are mostly input and output around the modelled
  components or calls of third-party libraries; the logic they have of their own (dispatch, reconnect
  timing, argument parsing, checks of the helper operations) is not covered.
\<close>

section \<open>Properties that span components\<close>

text \<open>Two screens show the same: the visible cells, and the state that drives further output.\<close>

definition shows_same :: "terminal_screen \<Rightarrow> terminal_screen \<Rightarrow> bool" where
  "shows_same s s' \<longleftrightarrow>
     map tl_cells (drop (visible_start s') (t_lines s')) = map tl_cells (drop (visible_start s) (t_lines s)) \<and>
     t_rows s' = t_rows s \<and> t_cols s' = t_cols s \<and> t_cursor_row s' = t_cursor_row s \<and>
     min (t_cursor_col s') (t_cols s - 1) = min (t_cursor_col s) (t_cols s - 1) \<and>
     t_current_style s' = t_current_style s \<and> t_modes s' = t_modes s \<and>
     t_scroll_top s' = t_scroll_top s \<and> t_scroll_bottom s' = t_scroll_bottom s"

lemma restored_shows_same:
  assumes "restored_state s s'" "start \<le> visible_start s" "t_rows s \<le> length (t_lines s)"
    and lines: "map tl_cells (t_lines s') = map tl_cells (drop start (t_lines s))"
  shows "shows_same s s'"
proof -
  have len: "length (t_lines s') = length (t_lines s) - start"
    using arg_cong [OF lines, of length] by simp
  have "map tl_cells (drop (visible_start s') (t_lines s')) = drop (visible_start s') (map tl_cells (drop start (t_lines s)))"
    by (metis drop_map lines)
  also have "\<dots> = map tl_cells (drop (visible_start s' + start) (t_lines s))" by (simp add: drop_map)
  also have "visible_start s' + start = visible_start s"
    using assms(1-3) len by (simp add: visible_start_def restored_state_def)
  finally show ?thesis using assms(1) by (simp add: shows_same_def restored_state_def)
qed

lemma screen_after_size:
  assumes "screen_after w sz is s"
  shows "t_rows s = max (ps_rows (fold size_after is sz)) 1 \<and> t_cols s = max (ps_cols (fold size_after is sz)) 1"
  using assms
proof (induction "is" arbitrary: s rule: rev_induct)
  case Nil
  then show ?case
    by (auto simp: screen_after_def screen_run_def screen_new_def with_max_cached_lines_def Let_def)
next
  case (snoc i "is")
  then obtain s0 where s0: "screen_after w sz is s0" "screen_run w (screen_events i) s0 = Some s"
    using screen_after_prefix by blast
  from screen_run_size [OF s0(2)] snoc.IH [OF s0(1)] show ?case
    by (cases i) (auto simp: screen_size_def)
qed

lemma screen_new_clamp: "screen_new (max r 1) (max c 1) = screen_new r c"
  by (simp add: screen_new_def with_max_cached_lines_def Let_def)

text \<open>
  C2. Reconnecting works. A daemon mirror that followed the supervisor up to event \<open>k\<close> and then
  applies the supervisor's reply to an attach request from \<open>k\<close>, taken any number of events later,
  ends with the supervisor's sequence number and size. If the reply is the tail of the journal, its screen is
  then the supervisor's, without further conditions. If the reply is a snapshot (the journal no longer reaches back to
  \<open>k\<close>, there was a resize since \<open>k\<close>, or the tail is long), the supervisor's screen has to be restorable, as in the round
  trip of the snapshot: it shows the normal screen, stands between two control sequences, is not in origin mode, its
  rows are printable, its last line shows something if there is scrollback, and its size is within 16 bits; then the
  mirror's screen shows the same cells, cursor, modes and style as the supervisor's. Without this condition a
  snapshot can differ: \<open>snapshot_origin_mode_shifts_cursor\<close> and \<open>snapshot_region_scroll_misaligned\<close>.
\<close>

theorem reattach_catches_up:
  assumes "length is < u64_max" and "k \<le> length is"
    and "cache_run w is (cache_new sz) = Some (fs, c)"
    and "mirror_run w (take k fs) (mirror_new sz) = Some m"
    and "(\<exists>n sz' out. snd (cache_snapshot_or_tail (Some k) c) = [FSnapshot n sz' out]) \<longrightarrow> restorable w (stc_screen c)"
  shows "\<exists>m'. mirror_run w (snd (cache_snapshot_or_tail (Some k) c)) m = Some m' \<and>
    stm_current_terminal_seq m' = current_terminal_seq c \<and> stm_size m' = stc_size c \<and>
    shows_same (stc_screen c) (stm_screen m') \<and>
    ((\<nexists>n sz' out. snd (cache_snapshot_or_tail (Some k) c) = [FSnapshot n sz' out]) \<longrightarrow> stm_screen m' = stc_screen c)"
proof -
  have c: "fs = map to_terminal_frame (numbered 1 is)" "cache_tracks w sz is c"
    using cache_run_tracks [OF cache_new_tracks, of "is" w sz] assms(1,3) by auto
  have split: "numbered 1 is = numbered 1 (take k is) @ numbered (k + 1) (drop k is)"
    using numbered_append [of 1 "take k is" "drop k is"] assms(2) by (simp add: min_absorb2)
  have "take k fs = map to_terminal_frame (numbered 1 (take k is))"
    unfolding c(1) split using assms(2) by simp
  then have m: "mirror_tracks w sz (take k is) m"
    using mirror_run_tracks [OF mirror_new_tracks [of w sz], of "take k is"] assms(4) by auto
  have cur: "current_terminal_seq c = length is" and sz: "stc_size c = fold size_after is sz"
    and scr: "screen_after w sz is (stc_screen c)"
    using c(2) by (simp_all add: cache_tracks_def current_terminal_seq_def)
  have gap: "cache_snapshot_or_tail (Some k) c = (length is, [FSnapshot (length is) (stc_size c) (snapshot_output c)])
    \<or> cache_snapshot_or_tail (Some k) c = (length is, map to_terminal_frame (numbered (k + 1) (drop k is)))"
    using attach_exact [OF assms(1) c(2) assms(2)] split assms(2) by (auto simp: snapshot_output_def)
  then show ?thesis
  proof
    assume reply: "cache_snapshot_or_tail (Some k) c = (length is, map to_terminal_frame (numbered (k + 1) (drop k is)))"
    obtain m' where m': "mirror_run w (map to_terminal_frame (numbered (k + 1) (drop k is))) m = Some m'"
      "mirror_tracks w sz is m'"
      using mirror_run_tracks [OF m, of "drop k is"] assms(2) by (auto simp: min_absorb2)
    then have "stm_screen m' = stc_screen c" using scr screen_after_unique by (auto simp: mirror_tracks_def)
    with m' show ?thesis using reply cur sz by (auto simp: mirror_tracks_def shows_same_def)
  next
    assume reply: "cache_snapshot_or_tail (Some k) c = (length is, [FSnapshot (length is) (stc_size c) (snapshot_output c)])"
    let ?s = "stc_screen c"
    have restorable: "restorable w ?s" using assms(5) reply by auto
    obtain start s' where s': "screen_apply w (snapshot_bytes ?s) (screen_new (t_rows ?s) (t_cols ?s)) = Some s'"
      "start \<le> visible_start ?s" "map tl_cells (t_lines s') = map tl_cells (drop start (t_lines ?s))"
      "restored_state ?s s'"
      using snapshot_restores [OF restorable] by blast
    have "screen_new (t_rows ?s) (t_cols ?s) = screen_new (ps_rows (stc_size c)) (ps_cols (stc_size c))"
      using screen_after_size [OF scr] sz by (simp only: screen_new_clamp)
    moreover have "stm_current_terminal_seq m \<le> length is" using m by (simp add: mirror_tracks_def)
    moreover have "shows_same ?s s'"
      using restored_shows_same [OF s'(4,2) _ s'(3)] restorable by (simp add: restorable_def wf_screen_def)
    ultimately show ?thesis
      using reply s'(1) cur by (simp add: mirror_run_def reset_from_snapshot_def snapshot_output_def)
  qed
qed

text \<open>
  An example: the mirror has seen the output of a bold letter and then missed a resize, so that the reply is a snapshot.
\<close>

theorem reattach_catches_up_witness:
  "let w = (\<lambda>_. Some 1); sz = \<lparr>ps_rows = 1, ps_cols = 2, ps_pixel_width = 0, ps_pixel_height = 0\<rparr> in
   \<exists>fs c m m'. cache_run w [In_output [27, 91, 49, 109, 97], In_resize sz] (cache_new sz) = Some (fs, c) \<and> stc_screen c = bold_a \<and>
    mirror_run w (take 1 fs) (mirror_new sz) = Some m \<and> stm_current_terminal_seq m = 1 \<and>
    snd (cache_snapshot_or_tail (Some 1) c) = [FSnapshot 2 sz (snapshot_bytes bold_a)] \<and>
    mirror_run w (snd (cache_snapshot_or_tail (Some 1) c)) m = Some m' \<and>
    stm_current_terminal_seq m' = 2 \<and> shows_same bold_a (stm_screen m')"
proof -
  let ?sz = "\<lparr>ps_rows = 1, ps_cols = 2, ps_pixel_width = 0, ps_pixel_height = 0\<rparr>" and ?w = "\<lambda>_ :: uchar. Some (1 :: usize)"
  let ?is = "[In_output [27, 91, 49, 109, 97], In_resize ?sz]"
  obtain c where c: "cache_run ?w ?is (cache_new ?sz) = Some ([FOutput 1 [27, 91, 49, 109, 97], FResize 2 ?sz], c)"
    "cache_tracks ?w ?sz ?is c"
    using cache_run_tracks [OF cache_new_tracks, of ?is ?w ?sz] by (auto simp: u64_max_def)
  have "screen_resize 1 2 bold_a = bold_a"
    by (simp add: bold_a_def screen_resize_def line_resize_def trim_cached_lines_def screen_new_def with_max_cached_lines_def
        cell_blank_def default_max_cached_lines_def trim_front_drop numeral_2_eq_2 Let_def)
  with c(2) have scr: "stc_screen c = bold_a" "current_terminal_seq c = 2"
    by (simp_all add: cache_tracks_def current_terminal_seq_def screen_after_def screen_run_def bold_a_printed [simplified])
  obtain m where m: "mirror_run ?w [FOutput 1 [27, 91, 49, 109, 97]] (mirror_new ?sz) = Some m" "stm_current_terminal_seq m = 1"
    using mirror_run_tracks [OF mirror_new_tracks [of ?w ?sz], of "[In_output [27, 91, 49, 109, 97]]"]
    by (auto simp: mirror_tracks_def)
  have reply: "snd (cache_snapshot_or_tail (Some 1) c) = [FSnapshot 2 ?sz (snapshot_bytes bold_a)]"
    using attach_exact [OF _ c(2), of 1] c(2) scr by (auto simp: u64_max_def cache_tracks_def)
  show ?thesis
    using reattach_catches_up [OF _ _ c(1), of 1 m] c(1) m scr reply bold_a_restorable by (auto simp: u64_max_def)
qed

end
